(* ===== verification/Prelude.thy ===== *)
theory Prelude
  imports
    Complex_Main
    "HOL-Library.Char_ord"
    "HOL-Library.List_Lexorder"
begin

section \<open>Shared vocabulary of the NorthStack development\<close>

text \<open>
  Types, Python idioms and generic lemmas used by every component theory.

  \<^item> Python \<^verbatim>\<open>str\<close> is \<open>string\<close>; \<^verbatim>\<open>int\<close> is \<open>int\<close> (unbounded) or \<open>nat\<close> for list
    positions and counters that only grow; \<^verbatim>\<open>float\<close> amounts of money are exact
    rationals (\<open>usd\<close>), so the rounding of binary floating point is not modelled.
  \<^item> A raise is the \<open>Inl\<close> of a sum type, with one error datatype per component.
  \<^item> A \<^verbatim>\<open>dict\<close> is a map, or an association list where its order is observable.
\<close>

type_synonym usd = rat
type_synonym run_id = string
type_synonym cell_id = string
type_synonym digest = string

named_theorems py_simps \<open>definitional equations of the Python idioms\<close>

subsection \<open>JSON values\<close>

datatype json =
    JNull
  | JBool bool
  | JInt int
  | JFloat rat
  | JStr string
  | JArr "json list"
  | JObj "(string \<times> json) list"

text \<open>\<^verbatim>\<open>dict.get(key)\<close> on a parsed object.\<close>

definition obj_get :: "(string \<times> json) list \<Rightarrow> string \<Rightarrow> json option" where
  "obj_get kvs k = map_of kvs k"

subsection \<open>Python idioms\<close>

text \<open>\<^verbatim>\<open>itertools.pairwise\<close>.\<close>

definition pairwise :: "'a list \<Rightarrow> ('a \<times> 'a) list" where
  [py_simps]: "pairwise xs = zip xs (tl xs)"

text \<open>\<^verbatim>\<open>d.get(k, default)\<close>.\<close>

definition dict_get :: "('k \<rightharpoonup> 'v) \<Rightarrow> 'k \<Rightarrow> 'v \<Rightarrow> 'v" where
  [py_simps]: "dict_get m k d = (case m k of None \<Rightarrow> d | Some v \<Rightarrow> v)"

lemma dict_get_upd [simp]: "dict_get (m(k \<mapsto> v)) k' d = (if k' = k then v else dict_get m k' d)"
  by (simp add: dict_get_def)

lemma dict_get_empty [simp]: "dict_get Map.empty k d = d"
  by (simp add: dict_get_def)

text \<open>\<^verbatim>\<open>d[k] = v\<close> on an ordered dict: in place for a present key, else appended.\<close>

fun dict_set :: "('k \<times> 'v) list \<Rightarrow> 'k \<Rightarrow> 'v \<Rightarrow> ('k \<times> 'v) list" where
  "dict_set [] k v = [(k, v)]"
| "dict_set ((k', v') # kvs) k v =
     (if k' = k then (k, v) # kvs else (k', v') # dict_set kvs k v)"

lemma map_of_dict_set [simp]: "map_of (dict_set kvs k v) = (map_of kvs)(k \<mapsto> v)"
  by (induction kvs) auto

text \<open>\<^verbatim>\<open>", ".join(xs)\<close>.\<close>

fun str_join :: "string \<Rightarrow> string list \<Rightarrow> string" where
  "str_join sep [] = []"
| "str_join sep [x] = x"
| "str_join sep (x # y # ys) = x @ sep @ str_join sep (y # ys)"

text \<open>A text between single quotes, as in \<^verbatim>\<open>f"'{s}'"\<close>.\<close>

definition quoted :: "string \<Rightarrow> string" where
  "quoted s = CHR 0x27 # s @ [CHR 0x27]"

text \<open>The text of a list of plain strings.\<close>

definition list_repr :: "string list \<Rightarrow> string" where
  "list_repr xs = ''['' @ str_join '', '' (map quoted xs) @ '']''"

text \<open>\<^verbatim>\<open>str(n)\<close> for a natural number, in decimal.\<close>

definition digit_char :: "nat \<Rightarrow> char" where
  "digit_char d = char_of (48 + d)"

fun show_nat :: "nat \<Rightarrow> string" where
  "show_nat n = (if n < 10 then [digit_char n] else show_nat (n div 10) @ [digit_char (n mod 10)])"

declare show_nat.simps [simp del]

definition show_int :: "int \<Rightarrow> string" where
  "show_int i = (if i < 0 then ''-'' @ show_nat (nat (- i)) else show_nat (nat i))"

lemma digit_char_inj: "a < 10 \<Longrightarrow> b < 10 \<Longrightarrow> digit_char a = digit_char b \<Longrightarrow> a = b"
  by (auto simp: digit_char_def dest!: arg_cong [where f = "of_char :: char \<Rightarrow> nat"])

lemma show_nat_neq_Nil [simp]: "show_nat n \<noteq> []"
  by (subst show_nat.simps) simp

lemma show_nat_inj: "show_nat m = show_nat n \<Longrightarrow> m = n"
proof (induction m arbitrary: n rule: show_nat.induct)
  case (1 m)
  consider "m < 10" "n < 10" | "m < 10" "\<not> n < 10" | "\<not> m < 10" "n < 10" | "\<not> m < 10" "\<not> n < 10"
    by blast
  then show ?case
  proof cases
    case 4
    with "1.prems" have q: "show_nat (m div 10) = show_nat (n div 10)"
      and r: "digit_char (m mod 10) = digit_char (n mod 10)"
      by (simp_all add: show_nat.simps [of m] show_nat.simps [of n])
    from "1.IH" [OF 4(1) q] have "m div 10 = n div 10" .
    moreover from r have "m mod 10 = n mod 10" by (auto dest: digit_char_inj [rotated 2])
    ultimately show ?thesis by (metis div_mult_mod_eq)
  qed (use "1.prems" in \<open>auto simp: show_nat.simps [of m] show_nat.simps [of n]
         Cons_eq_append_conv append_eq_Cons_conv dest: digit_char_inj dest!: sym [of "[]"]\<close>)
qed

lemma show_nat_eq_iff [simp]: "show_nat m = show_nat n \<longleftrightarrow> m = n"
  by (auto dest: show_nat_inj)

subsection \<open>Lists\<close>

lemma distinct_card_iff: "card (set xs) = length xs \<longleftrightarrow> distinct xs"
  by (metis card_distinct distinct_card)

lemma filter_empty_iff: "filter P xs = [] \<longleftrightarrow> (\<forall>x \<in> set xs. \<not> P x)"
  by (simp add: filter_empty_conv)

text \<open>A fold in an error monad: stop at the first error, as an exception stops a loop.\<close>

fun fold_res :: "('s \<Rightarrow> 'a \<Rightarrow> 'e + 's) \<Rightarrow> 's \<Rightarrow> 'a list \<Rightarrow> 'e + 's" where
  "fold_res f s [] = Inr s"
| "fold_res f s (x # xs) = (case f s x of Inl e \<Rightarrow> Inl e | Inr s' \<Rightarrow> fold_res f s' xs)"

lemma fold_res_append:
  "fold_res f s (xs @ ys) =
     (case fold_res f s xs of Inl e \<Rightarrow> Inl e | Inr s' \<Rightarrow> fold_res f s' ys)"
  by (induction xs arbitrary: s) (auto split: sum.splits)

lemma fold_res_invariant:
  assumes inv: "\<And>s x s'. P s \<Longrightarrow> f s x = Inr s' \<Longrightarrow> P s'"
    and "P s" and "fold_res f s xs = Inr s'"
  shows "P s'"
  using assms(2,3)
proof (induction xs arbitrary: s)
  case Nil
  then show ?case by simp
next
  case (Cons x xs)
  from Cons.prems(2) obtain t where t: "f s x = Inr t" "fold_res f t xs = Inr s'"
    by (auto split: sum.splits)
  from inv [OF Cons.prems(1) t(1)] t(2) show ?case by (rule Cons.IH)
qed

end
