(* ===== verification/Run_Status.thy ===== *)
theory Run_Status
  imports Prelude
begin

section \<open>Run status and its transition table (domain/status.py)\<close>

text \<open>
  \<^verbatim>\<open>RunStatus\<close>, the table built by \<^verbatim>\<open>_build_transitions\<close>, and the queries of
  \<^verbatim>\<open>RunStateMachine\<close>.  The table is built by the same loop as the source builds it; the
  closed form \<open>can_transition_iff\<close> is a theorem about it, not its definition.
\<close>

datatype run_status =
    INTAKE | CONTRACTED | PLANNED | EXECUTING | VERIFYING | VERIFIED | ABSTAINED | FAILED

fun status_value :: "run_status \<Rightarrow> string" where
  "status_value INTAKE = ''intake''"
| "status_value CONTRACTED = ''contracted''"
| "status_value PLANNED = ''planned''"
| "status_value EXECUTING = ''executing''"
| "status_value VERIFYING = ''verifying''"
| "status_value VERIFIED = ''verified''"
| "status_value ABSTAINED = ''abstained''"
| "status_value FAILED = ''failed''"

subsection \<open>Building the table\<close>

definition phases :: "run_status list" where
  "phases = [INTAKE, CONTRACTED, PLANNED, EXECUTING, VERIFYING, VERIFIED]"

definition can_abstain_from :: "run_status list" where
  "can_abstain_from = filter (\<lambda>p. p \<noteq> EXECUTING) (butlast phases)"

definition escapes :: "run_status \<Rightarrow> run_status set" where
  "escapes frm = (if frm \<in> set can_abstain_from then {ABSTAINED, FAILED} else {FAILED})"

definition build_transitions :: "run_status \<rightharpoonup> run_status set" where
  "build_transitions =
     (let transitions = foldl (\<lambda>m (frm, to). m(frm \<mapsto> escapes frm \<union> {to})) Map.empty
                          (pairwise phases)
      in foldl (\<lambda>m terminal. m(terminal \<mapsto> {})) transitions [VERIFIED, ABSTAINED, FAILED])"

subsection \<open>Queries\<close>

text \<open>\<^verbatim>\<open>cls._TRANSITIONS[from_status]\<close> raises \<^verbatim>\<open>KeyError\<close> off the table; \<open>build_total\<close>
  below shows that no status is off the table.\<close>

definition successors :: "run_status \<Rightarrow> run_status set" where
  "successors frm = (case build_transitions frm of None \<Rightarrow> {} | Some ts \<Rightarrow> ts)"

definition can_transition :: "run_status \<Rightarrow> run_status \<Rightarrow> bool" where
  "can_transition frm to \<longleftrightarrow> to \<in> successors frm"

definition is_terminal :: "run_status \<Rightarrow> bool" where
  "is_terminal s \<longleftrightarrow> successors s = {}"

definition detours :: "run_status \<times> run_status \<rightharpoonup> run_status list" where
  "detours = [(EXECUTING, ABSTAINED) \<mapsto> [VERIFYING, ABSTAINED]]"

datatype status_error = IllegalTransition run_status run_status

definition route :: "run_status \<Rightarrow> run_status \<Rightarrow> status_error + run_status list" where
  "route frm to =
     (case detours (frm, to) of
        Some detour \<Rightarrow> Inr detour
      | None \<Rightarrow> if can_transition frm to then Inr [to] else Inl (IllegalTransition frm to))"

subsection \<open>The table, evaluated\<close>

lemma pairwise_phases [simp]:
  "pairwise phases =
     [(INTAKE, CONTRACTED), (CONTRACTED, PLANNED), (PLANNED, EXECUTING),
      (EXECUTING, VERIFYING), (VERIFYING, VERIFIED)]"
  by (simp add: pairwise_def phases_def)

lemma set_can_abstain_from [simp]: "set can_abstain_from = {INTAKE, CONTRACTED, PLANNED, VERIFYING}"
  by (auto simp: can_abstain_from_def phases_def)

lemma build_total: "build_transitions s \<noteq> None"
  by (cases s) (simp_all add: build_transitions_def)

lemma successors_simps [simp]:
  "successors INTAKE = {CONTRACTED, ABSTAINED, FAILED}"
  "successors CONTRACTED = {PLANNED, ABSTAINED, FAILED}"
  "successors PLANNED = {EXECUTING, ABSTAINED, FAILED}"
  "successors EXECUTING = {VERIFYING, FAILED}"
  "successors VERIFYING = {VERIFIED, ABSTAINED, FAILED}"
  "successors VERIFIED = {}"
  "successors ABSTAINED = {}"
  "successors FAILED = {}"
  by (auto simp: successors_def build_transitions_def escapes_def)

lemma is_terminal_iff [simp]: "is_terminal s \<longleftrightarrow> s \<in> {VERIFIED, ABSTAINED, FAILED}"
  by (cases s) (auto simp: is_terminal_def)

lemma can_transition_simps [simp]:
  "can_transition INTAKE t \<longleftrightarrow> t \<in> {CONTRACTED, ABSTAINED, FAILED}"
  "can_transition CONTRACTED t \<longleftrightarrow> t \<in> {PLANNED, ABSTAINED, FAILED}"
  "can_transition PLANNED t \<longleftrightarrow> t \<in> {EXECUTING, ABSTAINED, FAILED}"
  "can_transition EXECUTING t \<longleftrightarrow> t \<in> {VERIFYING, FAILED}"
  "can_transition VERIFYING t \<longleftrightarrow> t \<in> {VERIFIED, ABSTAINED, FAILED}"
  "\<not> can_transition VERIFIED t" "\<not> can_transition ABSTAINED t" "\<not> can_transition FAILED t"
  by (simp_all add: can_transition_def)

subsection \<open>The rank of a status\<close>

text \<open>Every legal step raises the rank, so a run has at most five status changes.\<close>

fun status_rank :: "run_status \<Rightarrow> nat" where
  "status_rank INTAKE = 0"
| "status_rank CONTRACTED = 1"
| "status_rank PLANNED = 2"
| "status_rank EXECUTING = 3"
| "status_rank VERIFYING = 4"
| "status_rank s = 5"

lemma can_transition_rank: "can_transition s t \<Longrightarrow> status_rank s < status_rank t"
  by (cases s) auto

lemma status_rank_le: "status_rank s \<le> 5"
  by (cases s) auto

subsection \<open>Legal paths\<close>

fun legal_path :: "run_status \<Rightarrow> run_status list \<Rightarrow> bool" where
  "legal_path s [] = True"
| "legal_path s (t # ts) = (can_transition s t \<and> legal_path t ts)"

lemma legal_path_append: "legal_path s (xs @ ys) \<longleftrightarrow> legal_path s xs \<and> legal_path (last (s # xs)) ys"
  by (induction xs arbitrary: s) auto

lemma legal_path_length: "legal_path s ts \<Longrightarrow> length ts + status_rank s \<le> status_rank (last (s # ts))"
proof (induction ts arbitrary: s)
  case Nil
  then show ?case by simp
next
  case (Cons t ts)
  then have "length ts + status_rank t \<le> status_rank (last (t # ts))"
    and "status_rank s < status_rank t"
    by (auto dest: can_transition_rank)
  then show ?case by auto
qed

text \<open>The statuses a run can pass through, as a step relation.\<close>

inductive run_reaches :: "run_status \<Rightarrow> run_status list \<Rightarrow> run_status \<Rightarrow> bool" where
  start: "run_reaches s [] s"
| step: "run_reaches s ts t \<Longrightarrow> can_transition t u \<Longrightarrow> run_reaches s (ts @ [u]) u"

inductive_cases run_reachesE: "run_reaches s ts t"

lemma run_reaches_legal: "run_reaches s ts t \<Longrightarrow> legal_path s ts \<and> last (s # ts) = t"
  by (induction rule: run_reaches.induct) (auto simp: legal_path_append)

lemma legal_run_reaches: "legal_path s ts \<Longrightarrow> run_reaches s ts (last (s # ts))"
proof (induction ts rule: rev_induct)
  case Nil
  show ?case by (simp add: run_reaches.start)
next
  case (snoc t ts)
  then have "run_reaches s ts (last (s # ts))" "can_transition (last (s # ts)) t"
    by (simp_all add: legal_path_append)
  from run_reaches.step [OF this] show ?case by simp
qed

subsection \<open>Properties\<close>

text \<open>\<^verbatim>\<open>RunStateMachine.route\<close> answers exactly for the legal direct edges and the one
  detour of ADR 0001, and the path it returns is walkable edge by edge from \<open>frm\<close> and ends
  in \<open>to\<close>.\<close>

theorem route_correct:
  "case route frm to of
     Inr path \<Rightarrow> legal_path frm path \<and> path \<noteq> [] \<and> last path = to
   | Inl e \<Rightarrow> e = IllegalTransition frm to \<and> \<not> can_transition frm to
              \<and> (frm, to) \<noteq> (EXECUTING, ABSTAINED)"
  by (auto simp: route_def detours_def split: option.splits if_splits)

lemma reaches_verified_aux:
  "run_reaches INTAKE ts t \<Longrightarrow>
    (t = INTAKE \<longrightarrow> ts = []) \<and>
    (t = CONTRACTED \<longrightarrow> ts = [CONTRACTED]) \<and>
    (t = PLANNED \<longrightarrow> ts = [CONTRACTED, PLANNED]) \<and>
    (t = EXECUTING \<longrightarrow> ts = [CONTRACTED, PLANNED, EXECUTING]) \<and>
    (t = VERIFYING \<longrightarrow> ts = [CONTRACTED, PLANNED, EXECUTING, VERIFYING]) \<and>
    (t = VERIFIED \<longrightarrow> ts = [CONTRACTED, PLANNED, EXECUTING, VERIFYING, VERIFIED])"
proof (induction INTAKE ts t rule: run_reaches.induct)
  case start
  then show ?case by simp
next
  case (step ts t u)
  then show ?case by (cases t) auto
qed

text \<open>A run that reaches \<^verbatim>\<open>verified\<close> from intake has passed through every phase in order,
  and no run takes more than five status changes.\<close>

theorem run_history:
  assumes "run_reaches INTAKE ts t"
  shows "length ts \<le> 5
    \<and> (t = VERIFIED \<longrightarrow> ts = [CONTRACTED, PLANNED, EXECUTING, VERIFYING, VERIFIED])"
proof
  from assms have "legal_path INTAKE ts" by (simp add: run_reaches_legal)
  from legal_path_length [OF this] status_rank_le [of "last (INTAKE # ts)"]
  show "length ts \<le> 5" by simp
  from reaches_verified_aux [OF assms]
  show "t = VERIFIED \<longrightarrow> ts = [CONTRACTED, PLANNED, EXECUTING, VERIFYING, VERIFIED]" by simp
qed

theorem run_history_witness:
  "length [CONTRACTED, PLANNED, EXECUTING, VERIFYING, VERIFIED] \<le> 5"
proof -
  have "run_reaches INTAKE [CONTRACTED, PLANNED, EXECUTING, VERIFYING, VERIFIED]
          (last (INTAKE # [CONTRACTED, PLANNED, EXECUTING, VERIFYING, VERIFIED]))"
    by (rule legal_run_reaches) simp
  from run_history [OF this] show ?thesis by simp
qed

end
