(* ===== verification/Budgets.thy ===== *)
theory Budgets
  imports Prelude
begin

section \<open>Budgets and the spend authority (domain/budget.py, application/budget_authority.py)\<close>

text \<open>
  \<^verbatim>\<open>Budget\<close> is the limit, \<^verbatim>\<open>BudgetUsage\<close> the cumulative spend, \<^verbatim>\<open>RemainingBudget\<close> the
  headroom, and \<^verbatim>\<open>BudgetAuthority\<close> the one owner of spend.  The pydantic \<^verbatim>\<open>ge=0\<close>
  constraints are the predicates \<open>valid_budget\<close>, \<open>valid_spend\<close> and \<open>valid_usage\<close>.

  The methods of the authority run under its \<^verbatim>\<open>RLock\<close>, so each is one atomic step; the
  interleavings of concurrent callers are the sequences of \<open>auth_step\<close>.  Python compares a
  presented reservation with the stored one by identity (\<^verbatim>\<open>is\<close>): a reservation carries the
  address of its object.
\<close>

subsection \<open>Data\<close>

record budget =
  token_limit :: "int option"
  cost_limit_usd :: "usd option"
  max_calls :: int
  max_tool_rounds :: int
  max_wall_time_seconds :: rat
  max_retries :: int

definition valid_budget :: "budget \<Rightarrow> bool" where
  "valid_budget b \<longleftrightarrow>
     (case token_limit b of None \<Rightarrow> True | Some t \<Rightarrow> 0 \<le> t) \<and>
     (case cost_limit_usd b of None \<Rightarrow> True | Some c \<Rightarrow> 0 \<le> c) \<and>
     0 \<le> max_calls b \<and> 0 \<le> max_tool_rounds b \<and> 0 \<le> max_wall_time_seconds b \<and> 0 \<le> max_retries b"

text \<open>\<^verbatim>\<open>Budget()\<close>: every axis unlimited.\<close>

definition unlimited_budget :: budget where
  "unlimited_budget = \<lparr>token_limit = None, cost_limit_usd = None, max_calls = 0,
     max_tool_rounds = 0, max_wall_time_seconds = 0, max_retries = 0\<rparr>"

text \<open>\<^verbatim>\<open>Budget.default()\<close>.\<close>

definition default_budget :: budget where
  "default_budget = unlimited_budget\<lparr>token_limit := Some 100000, cost_limit_usd := Some 5\<rparr>"

text \<open>\<^verbatim>\<open>Budget.from_payload\<close>: the default for a missing or empty payload, otherwise the
  validated payload; \<open>validate\<close> is pydantic's \<^verbatim>\<open>model_validate\<close>.\<close>

definition from_payload ::
  "((string \<times> json) list \<Rightarrow> 'e + budget) \<Rightarrow> (string \<times> json) list option \<Rightarrow> 'e + budget" where
  "from_payload validate data =
     (case data of None \<Rightarrow> Inr default_budget
      | Some d \<Rightarrow> if d = [] then Inr default_budget else validate d)"

record spend =
  input_tokens :: int
  output_tokens :: int
  cost_usd :: usd
  calls :: int

definition valid_spend :: "spend \<Rightarrow> bool" where
  "valid_spend s \<longleftrightarrow> 0 \<le> input_tokens s \<and> 0 \<le> output_tokens s \<and> 0 \<le> cost_usd s \<and> 0 \<le> calls s"

record remaining_budget =
  rem_tokens :: "int option"
  rem_cost_usd :: "usd option"
  rem_calls :: "int option"

record budget_usage =
  total_input_tokens :: int
  total_output_tokens :: int
  total_cost_usd :: usd
  total_calls :: int

definition valid_usage :: "budget_usage \<Rightarrow> bool" where
  "valid_usage u \<longleftrightarrow>
     0 \<le> total_input_tokens u \<and> 0 \<le> total_output_tokens u \<and> 0 \<le> total_cost_usd u \<and> 0 \<le> total_calls u"

definition zero_usage :: budget_usage where
  "zero_usage = \<lparr>total_input_tokens = 0, total_output_tokens = 0, total_cost_usd = 0,
     total_calls = 0\<rparr>"

definition total_tokens :: "budget_usage \<Rightarrow> int" where
  "total_tokens u = total_input_tokens u + total_output_tokens u"

text \<open>The rounding slack of every cost comparison, \<^verbatim>\<open>1e-9\<close>.\<close>

definition cost_eps :: usd where
  "cost_eps = 1 / 1000000000"

lemma cost_eps_pos [simp]: "0 < cost_eps"
  by (simp add: cost_eps_def)

definition remaining :: "budget_usage \<Rightarrow> budget \<Rightarrow> remaining_budget" where
  "remaining u b = \<lparr>
     rem_tokens = (case token_limit b of None \<Rightarrow> None
                   | Some l \<Rightarrow> Some (max 0 (l - total_tokens u))),
     rem_cost_usd = (case cost_limit_usd b of None \<Rightarrow> None
                     | Some l \<Rightarrow> Some (max 0 (l - total_cost_usd u))),
     rem_calls = (if max_calls b \<noteq> 0 then Some (max 0 (max_calls b - total_calls u)) else None)\<rparr>"

definition exceeds :: "budget_usage \<Rightarrow> budget option \<Rightarrow> bool" where
  "exceeds u bo =
     (case bo of None \<Rightarrow> False
      | Some b \<Rightarrow>
          (case token_limit b of None \<Rightarrow> False | Some l \<Rightarrow> total_tokens u > l) \<or>
          (case cost_limit_usd b of None \<Rightarrow> False | Some l \<Rightarrow> total_cost_usd u > l + cost_eps))"

text \<open>Spend folded into the cumulative usage, as the cell loop does field by field.\<close>

definition add_usage :: "budget_usage \<Rightarrow> spend \<Rightarrow> budget_usage" where
  "add_usage u s = \<lparr>
     total_input_tokens = total_input_tokens u + input_tokens s,
     total_output_tokens = total_output_tokens u + output_tokens s,
     total_cost_usd = total_cost_usd u + cost_usd s,
     total_calls = total_calls u + calls s\<rparr>"

text \<open>\<^verbatim>\<open>usage - usage_before\<close>, field by field: the spend of one cell.\<close>

definition usage_delta :: "budget_usage \<Rightarrow> budget_usage \<Rightarrow> spend" where
  "usage_delta u u0 = \<lparr>
     input_tokens = total_input_tokens u - total_input_tokens u0,
     output_tokens = total_output_tokens u - total_output_tokens u0,
     cost_usd = total_cost_usd u - total_cost_usd u0,
     calls = total_calls u - total_calls u0\<rparr>"

lemma add_usage_valid: "valid_usage u \<Longrightarrow> valid_spend s \<Longrightarrow> valid_usage (add_usage u s)"
  by (simp add: valid_usage_def valid_spend_def add_usage_def)

lemma usage_delta_add [simp]: "usage_delta (add_usage u s) u = s"
  by (simp add: usage_delta_def add_usage_def)

subsection \<open>The authority\<close>

definition spend_tokens :: "spend \<Rightarrow> int" where
  "spend_tokens s = input_tokens s + output_tokens s"

record reservation =
  reservation_id :: nat
  res_cell :: cell_id
  estimate :: spend
  res_addr :: nat  \<comment> \<open>identity of the Python object\<close>

record authority =
  auth_budget :: budget
  committed_tokens :: int
  committed_cost :: usd
  reserved_tokens :: int
  reserved_cost :: usd
  committed_calls :: int
  reserved_calls :: int
  reservations :: "nat \<rightharpoonup> reservation"

definition new_authority :: "budget \<Rightarrow> authority" where
  "new_authority b = \<lparr>auth_budget = b, committed_tokens = 0, committed_cost = 0,
     reserved_tokens = 0, reserved_cost = 0, committed_calls = 0, reserved_calls = 0,
     reservations = Map.empty\<rparr>"

datatype auth_error =
    BudgetExhausted_tokens | BudgetExhausted_cost | BudgetExhausted_calls
  | BudgetExhausted_commit cell_id
  | InvalidReservation nat

definition require_active :: "authority \<Rightarrow> reservation \<Rightarrow> auth_error + spend" where
  "require_active a r =
     (case reservations a (reservation_id r) of
        None \<Rightarrow> Inl (InvalidReservation (reservation_id r))
      | Some held \<Rightarrow> if res_addr held \<noteq> res_addr r then Inl (InvalidReservation (reservation_id r))
                     else Inr (estimate held))"

text \<open>\<open>rid\<close> is the number \<^verbatim>\<open>next(_ids)\<close> yields, \<open>addr\<close> the identity of the object the
  constructor allocates.\<close>

definition reserve ::
  "nat \<Rightarrow> nat \<Rightarrow> cell_id \<Rightarrow> spend \<Rightarrow> authority \<Rightarrow> auth_error + (reservation \<times> authority)" where
  "reserve rid addr cell est a =
     (if (case token_limit (auth_budget a) of None \<Rightarrow> False
          | Some l \<Rightarrow> committed_tokens a + reserved_tokens a + spend_tokens est > l)
      then Inl BudgetExhausted_tokens
      else if (case cost_limit_usd (auth_budget a) of None \<Rightarrow> False
          | Some l \<Rightarrow> committed_cost a + reserved_cost a + cost_usd est > l + cost_eps)
      then Inl BudgetExhausted_cost
      else if max_calls (auth_budget a) \<noteq> 0
          \<and> committed_calls a + reserved_calls a + calls est > max_calls (auth_budget a)
      then Inl BudgetExhausted_calls
      else let r = \<lparr>reservation_id = rid, res_cell = cell, estimate = est, res_addr = addr\<rparr>
           in Inr (r, a\<lparr>reserved_tokens := reserved_tokens a + spend_tokens est,
                      reserved_cost := reserved_cost a + cost_usd est,
                      reserved_calls := reserved_calls a + calls est,
                      reservations := (reservations a)(rid \<mapsto> r)\<rparr>))"

definition commit :: "reservation \<Rightarrow> spend \<Rightarrow> authority \<Rightarrow> auth_error + authority" where
  "commit r actual a =
     (case require_active a r of
        Inl e \<Rightarrow> Inl e
      | Inr est \<Rightarrow>
          if spend_tokens actual > spend_tokens est \<or> cost_usd actual > cost_usd est + cost_eps
             \<or> calls actual > calls est
          then Inl (BudgetExhausted_commit (res_cell r))
          else Inr (a\<lparr>reserved_tokens := reserved_tokens a - spend_tokens est,
                      reserved_cost := reserved_cost a - cost_usd est,
                      reserved_calls := reserved_calls a - calls est,
                      committed_tokens := committed_tokens a + spend_tokens actual,
                      committed_cost := committed_cost a + cost_usd actual,
                      committed_calls := committed_calls a + calls actual,
                      reservations := (reservations a)(reservation_id r := None)\<rparr>))"

definition release :: "reservation \<Rightarrow> authority \<Rightarrow> auth_error + authority" where
  "release r a =
     (case require_active a r of
        Inl e \<Rightarrow> Inl e
      | Inr est \<Rightarrow> Inr (a\<lparr>reserved_tokens := reserved_tokens a - spend_tokens est,
                         reserved_cost := reserved_cost a - cost_usd est,
                         reserved_calls := reserved_calls a - calls est,
                         reservations := (reservations a)(reservation_id r := None)\<rparr>))"

definition record_spend :: "spend \<Rightarrow> authority \<Rightarrow> authority" where
  "record_spend actual a =
     a\<lparr>committed_tokens := committed_tokens a + spend_tokens actual,
       committed_cost := committed_cost a + cost_usd actual,
       committed_calls := committed_calls a + calls actual\<rparr>"

definition auth_remaining :: "authority \<Rightarrow> remaining_budget" where
  "auth_remaining a = \<lparr>
     rem_tokens = (case token_limit (auth_budget a) of None \<Rightarrow> None
       | Some l \<Rightarrow> Some (max 0 (l - committed_tokens a - reserved_tokens a))),
     rem_cost_usd = (case cost_limit_usd (auth_budget a) of None \<Rightarrow> None
       | Some l \<Rightarrow> Some (max 0 (l - committed_cost a - reserved_cost a))),
     rem_calls = (if max_calls (auth_budget a) \<noteq> 0
       then Some (max 0 (max_calls (auth_budget a) - committed_calls a - reserved_calls a))
       else None)\<rparr>"

text \<open>\<^verbatim>\<open>_budget_exhausted\<close> of application/orchestrator.py: the wave-boundary check.\<close>

definition budget_exhausted :: "authority \<Rightarrow> bool" where
  "budget_exhausted a =
     (let r = auth_remaining a
      in if (case rem_tokens r of None \<Rightarrow> False | Some t \<Rightarrow> t \<le> 0) then True
         else (case rem_cost_usd r of None \<Rightarrow> False | Some c \<Rightarrow> c \<le> cost_eps))"

lemma new_authority_sel [simp]:
  "auth_budget (new_authority b) = b" "reservations (new_authority b) = Map.empty"
  "committed_tokens (new_authority b) = 0" "committed_cost (new_authority b) = 0"
  "committed_calls (new_authority b) = 0" "reserved_tokens (new_authority b) = 0"
  "reserved_cost (new_authority b) = 0" "reserved_calls (new_authority b) = 0"
  by (simp_all add: new_authority_def)

lemma record_spend_sel [simp]:
  "auth_budget (record_spend s a) = auth_budget a"
  "reservations (record_spend s a) = reservations a"
  "committed_tokens (record_spend s a) = committed_tokens a + spend_tokens s"
  "committed_cost (record_spend s a) = committed_cost a + cost_usd s"
  "committed_calls (record_spend s a) = committed_calls a + calls s"
  "reserved_tokens (record_spend s a) = reserved_tokens a"
  "reserved_cost (record_spend s a) = reserved_cost a"
  "reserved_calls (record_spend s a) = reserved_calls a"
  by (simp_all add: record_spend_def)

subsection \<open>Runs of the authority\<close>

text \<open>
  \<open>book_ok\<close>: the reservation table is finite and keyed by the reservations' own ids, with
  validated estimates.  \<open>auth_step\<close> is any locked operation that succeeds; a failed one
  returns no state at all.
\<close>

definition book_ok :: "authority \<Rightarrow> bool" where
  "book_ok a \<longleftrightarrow> finite (dom (reservations a)) \<and>
     (\<forall>k r. reservations a k = Some r \<longrightarrow> reservation_id r = k \<and> valid_spend (estimate r))"

inductive auth_step :: "authority \<Rightarrow> authority \<Rightarrow> bool" where
  reserve: "rid \<notin> dom (reservations a) \<Longrightarrow> valid_spend est \<Longrightarrow>
     reserve rid addr cell est a = Inr (r, a') \<Longrightarrow> auth_step a a'"
| commit: "valid_spend actual \<Longrightarrow> commit r actual a = Inr a' \<Longrightarrow> auth_step a a'"
| release: "release r a = Inr a' \<Longrightarrow> auth_step a a'"
| record_spend: "valid_spend actual \<Longrightarrow> auth_step a (record_spend actual a)"

inductive_cases auth_stepE: "auth_step a a'"

text \<open>The pre-flight discipline: reserve, commit, release, never \<open>record_spend\<close>; the index
  counts the commits.\<close>

inductive preflight :: "budget \<Rightarrow> nat \<Rightarrow> authority \<Rightarrow> bool" where
  start: "preflight b 0 (new_authority b)"
| reserve: "preflight b n a \<Longrightarrow> rid \<notin> dom (reservations a) \<Longrightarrow> valid_spend est \<Longrightarrow>
     reserve rid addr cell est a = Inr (r, a') \<Longrightarrow> preflight b n a'"
| commit: "preflight b n a \<Longrightarrow> valid_spend actual \<Longrightarrow> commit r actual a = Inr a' \<Longrightarrow>
     preflight b (Suc n) a'"
| release: "preflight b n a \<Longrightarrow> release r a = Inr a' \<Longrightarrow> preflight b n a'"

lemma require_active_Inr:
  "require_active a r = Inr est \<longleftrightarrow>
     (\<exists>h. reservations a (reservation_id r) = Some h \<and> res_addr h = res_addr r \<and> est = estimate h)"
  by (auto simp: require_active_def split: option.splits)

lemma reserve_InrD:
  assumes "reserve rid addr cell est a = Inr (r, a')"
  shows "r = \<lparr>reservation_id = rid, res_cell = cell, estimate = est, res_addr = addr\<rparr>"
    and "a' = a\<lparr>reserved_tokens := reserved_tokens a + spend_tokens est,
                reserved_cost := reserved_cost a + cost_usd est,
                reserved_calls := reserved_calls a + calls est,
                reservations := (reservations a)(rid \<mapsto> r)\<rparr>"
    and "token_limit (auth_budget a) = Some l \<Longrightarrow>
           committed_tokens a + reserved_tokens a + spend_tokens est \<le> l"
    and "cost_limit_usd (auth_budget a) = Some c \<Longrightarrow>
           committed_cost a + reserved_cost a + cost_usd est \<le> c + cost_eps"
    and "max_calls (auth_budget a) \<noteq> 0 \<Longrightarrow>
           committed_calls a + reserved_calls a + calls est \<le> max_calls (auth_budget a)"
  using assms by (auto simp: reserve_def Let_def split: if_splits option.splits)

lemma reserve_axes:
  assumes "reserve rid addr cell est a = Inr (r, a')"
  shows "committed_tokens a' = committed_tokens a" "committed_cost a' = committed_cost a"
    "committed_calls a' = committed_calls a"
    "reserved_tokens a' = reserved_tokens a + spend_tokens est"
    "reserved_cost a' = reserved_cost a + cost_usd est"
    "reserved_calls a' = reserved_calls a + calls est"
  using assms by (auto simp: reserve_def Let_def split: if_splits)

lemma commit_InrD:
  assumes "commit r actual a = Inr a'"
  obtains h where "reservations a (reservation_id r) = Some h"
    and "spend_tokens actual \<le> spend_tokens (estimate h)"
    and "cost_usd actual \<le> cost_usd (estimate h) + cost_eps"
    and "calls actual \<le> calls (estimate h)"
    and "a' = a\<lparr>reserved_tokens := reserved_tokens a - spend_tokens (estimate h),
                reserved_cost := reserved_cost a - cost_usd (estimate h),
                reserved_calls := reserved_calls a - calls (estimate h),
                committed_tokens := committed_tokens a + spend_tokens actual,
                committed_cost := committed_cost a + cost_usd actual,
                committed_calls := committed_calls a + calls actual,
                reservations := (reservations a)(reservation_id r := None)\<rparr>"
  using assms by (auto simp: commit_def require_active_Inr split: sum.splits if_splits)

lemma release_InrD:
  assumes "release r a = Inr a'"
  obtains h where "reservations a (reservation_id r) = Some h"
    and "a' = a\<lparr>reserved_tokens := reserved_tokens a - spend_tokens (estimate h),
                reserved_cost := reserved_cost a - cost_usd (estimate h),
                reserved_calls := reserved_calls a - calls (estimate h),
                reservations := (reservations a)(reservation_id r := None)\<rparr>"
  using assms by (auto simp: release_def require_active_Inr split: sum.splits)

lemma book_ok_step: "auth_step a a' \<Longrightarrow> book_ok a \<Longrightarrow> book_ok a'"
proof (induction rule: auth_step.induct)
  case (reserve rid a est addr cell r a')
  then show ?case using reserve_InrD(1,2) [OF reserve(3)] by (auto simp: book_ok_def)
next
  case (commit actual r a a')
  then show ?case by (auto simp: book_ok_def elim!: commit_InrD split: if_splits)
next
  case (release r a a')
  then show ?case by (auto simp: book_ok_def elim!: release_InrD split: if_splits)
qed (simp add: book_ok_def)

lemma book_ok_new [simp]: "book_ok (new_authority b)"
  by (simp add: book_ok_def)

lemma auth_step_budget: "auth_step a a' \<Longrightarrow> auth_budget a' = auth_budget a"
  by (erule auth_stepE)
    (auto elim!: commit_InrD release_InrD dest!: reserve_InrD(2))

lemma preflight_step: "preflight b n a \<Longrightarrow> auth_step\<^sup>*\<^sup>* (new_authority b) a"
  by (induction rule: preflight.induct)
    (blast intro: auth_step.intros rtranclp.rtrancl_into_rtrancl)+

lemma reachable_book:
  "auth_step\<^sup>*\<^sup>* (new_authority b) a \<Longrightarrow> book_ok a \<and> auth_budget a = b"
  by (induction rule: rtranclp_induct)
    (simp_all add: book_ok_step auth_step_budget)

lemma preflight_book: "preflight b n a \<Longrightarrow> book_ok a \<and> auth_budget a = b"
  by (rule reachable_book [OF preflight_step])

subsection \<open>One axis of spend\<close>

text \<open>
  Tokens, dollars and calls are booked by the same arithmetic.  The locale states what one
  axis does under each operation; its lemmas hold for the three of them.
\<close>

locale spend_axis =
  fixes amount :: "spend \<Rightarrow> 'n::linordered_idom"
    and committed :: "authority \<Rightarrow> 'n"
    and reserved :: "authority \<Rightarrow> 'n"
    and limit :: "budget \<Rightarrow> 'n option"
    and slack :: 'n
  assumes slack_nonneg: "0 \<le> slack"
    and amount_nonneg: "valid_spend s \<Longrightarrow> 0 \<le> amount s"
    and axis_new: "committed (new_authority b) = 0" "reserved (new_authority b) = 0"
    and axis_reserve: "reserve rid addr cell est a = Inr (r, a') \<Longrightarrow>
          committed a' = committed a \<and> reserved a' = reserved a + amount est"
    and axis_reserve_limit: "reserve rid addr cell est a = Inr (r, a') \<Longrightarrow>
          limit (auth_budget a) = Some l \<Longrightarrow> committed a + reserved a + amount est \<le> l + slack"
    and axis_commit: "commit r actual a = Inr a' \<Longrightarrow>
          reservations a (reservation_id r) = Some h \<Longrightarrow>
          committed a' = committed a + amount actual \<and>
          reserved a' = reserved a - amount (estimate h) \<and>
          amount actual \<le> amount (estimate h) + slack"
    and axis_release: "release r a = Inr a' \<Longrightarrow>
          reservations a (reservation_id r) = Some h \<Longrightarrow>
          committed a' = committed a \<and> reserved a' = reserved a - amount (estimate h)"
    and axis_record: "committed (record_spend s a) = committed a + amount s"
          "reserved (record_spend s a) = reserved a"
begin

definition held :: "authority \<Rightarrow> 'n" where
  "held a = (\<Sum>k \<in> dom (reservations a). amount (estimate (the (reservations a k))))"

lemma held_insert:
  assumes "finite (dom (reservations a))" "rid \<notin> dom (reservations a)"
    and "reservations a' = (reservations a)(rid \<mapsto> r)"
  shows "held a' = held a + amount (estimate r)"
proof -
  have "(\<Sum>k \<in> dom (reservations a). amount (estimate (the (reservations a' k)))) = held a"
    unfolding held_def by (rule sum.cong) (use assms(2,3) in auto)
  with assms show ?thesis by (simp add: held_def add.commute)
qed

lemma held_remove:
  assumes "finite (dom (reservations a))" "reservations a k = Some h"
    and "reservations a' = (reservations a)(k := None)"
  shows "held a' = held a - amount (estimate h)"
proof -
  have k: "k \<in> dom (reservations a)" using assms(2) by auto
  have "held a' = (\<Sum>k \<in> dom (reservations a) - {k}. amount (estimate (the (reservations a k))))"
    unfolding held_def by (rule sum.cong) (use assms(3) in auto)
  also have "\<dots> = held a - amount (estimate h)"
    unfolding held_def using assms(1,2) k by (simp add: sum_diff1)
  finally show ?thesis .
qed

lemma reserved_held_step:
  assumes "auth_step a a'" "book_ok a" "reserved a = held a"
  shows "reserved a' = held a'"
  using assms
proof (induction rule: auth_step.induct)
  case (reserve rid a est addr cell r a')
  from reserve_InrD(1,2) [OF reserve(3)] have "reservations a' = (reservations a)(rid \<mapsto> r)"
    and r: "estimate r = est" by simp_all
  from held_insert [OF _ reserve(1) this(1)] reserve(4,5) axis_reserve [OF reserve(3)] r
  show ?case by (simp add: book_ok_def)
next
  case (commit actual r a a')
  from commit(2) obtain h where h: "reservations a (reservation_id r) = Some h"
    and r: "reservations a' = (reservations a)(reservation_id r := None)"
    by (rule commit_InrD) auto
  from held_remove [OF _ h r] commit(3,4) axis_commit [OF commit(2) h]
  show ?case by (simp add: book_ok_def)
next
  case (release r a a')
  from release(1) obtain h where h: "reservations a (reservation_id r) = Some h"
    and r: "reservations a' = (reservations a)(reservation_id r := None)"
    by (rule release_InrD) auto
  from held_remove [OF _ h r] release(2,3) axis_release [OF release(1) h]
  show ?case by (simp add: book_ok_def)
next
  case (record_spend actual a)
  then show ?case by (simp add: axis_record held_def)
qed

lemma reserved_held: "auth_step\<^sup>*\<^sup>* (new_authority b) a \<Longrightarrow> reserved a = held a"
proof (induction rule: rtranclp_induct)
  case base
  show ?case by (simp add: axis_new held_def)
next
  case (step a a')
  then show ?case using reachable_book reserved_held_step by blast
qed

lemma held_nonneg: "book_ok a \<Longrightarrow> 0 \<le> held a"
  unfolding held_def book_ok_def by (force intro!: sum_nonneg amount_nonneg)

lemma committed_nonneg: "auth_step\<^sup>*\<^sup>* (new_authority b) a \<Longrightarrow> 0 \<le> committed a"
proof (induction rule: rtranclp_induct)
  case base
  show ?case by (simp add: axis_new)
next
  case (step a a')
  from step.hyps(2) step.IH show ?case
  proof (induction rule: auth_step.induct)
    case (reserve rid a est addr cell r a')
    then show ?case by (simp add: axis_reserve)
  next
    case (commit actual r a a')
    from commit(2) obtain h where "reservations a (reservation_id r) = Some h"
      by (rule commit_InrD) auto
    with commit show ?case by (simp add: axis_commit amount_nonneg)
  next
    case (release r a a')
    from release(1) obtain h where "reservations a (reservation_id r) = Some h"
      by (rule release_InrD) auto
    with release show ?case by (simp add: axis_release)
  next
    case (record_spend actual a)
    then show ?case by (simp add: axis_record amount_nonneg)
  qed
qed

lemma preflight_bound:
  assumes "preflight b n a" "limit b = Some l" "0 \<le> l"
  shows "committed a + reserved a \<le> l + (1 + of_nat n) * slack"
  using assms
proof (induction rule: preflight.induct)
  case (start b)
  then show ?case using slack_nonneg by (simp add: axis_new)
next
  case (reserve b n a rid est addr cell r a')
  from preflight_book [OF reserve(1)] reserve(6)
  have "committed a + reserved a + amount est \<le> l + slack"
    by (auto intro: axis_reserve_limit [OF reserve(4)])
  moreover have "0 \<le> of_nat n * slack" using slack_nonneg by simp
  ultimately show ?case using axis_reserve [OF reserve(4)] by (simp add: algebra_simps)
next
  case (commit b n a actual r a')
  from commit(3) obtain h where "reservations a (reservation_id r) = Some h"
    by (rule commit_InrD) auto
  from axis_commit [OF commit(3) this] commit show ?case by (simp add: algebra_simps)
next
  case (release b n a r a')
  from release(2) obtain h where h: "reservations a (reservation_id r) = Some h"
    by (rule release_InrD) auto
  with preflight_book [OF release(1)] have "0 \<le> amount (estimate h)"
    by (auto simp: book_ok_def intro: amount_nonneg)
  with axis_release [OF release(2) h] release show ?case by simp
qed

lemma preflight_committed_bound:
  assumes "preflight b n a" "limit b = Some l" "0 \<le> l"
  shows "committed a \<le> l + (1 + of_nat n) * slack"
proof -
  have "0 \<le> reserved a"
    using reserved_held [OF preflight_step] held_nonneg preflight_book assms(1) by metis
  with preflight_bound [OF assms] show ?thesis by simp
qed

end

subsection \<open>The three axes\<close>

definition calls_limit :: "budget \<Rightarrow> int option" where
  "calls_limit b = (if max_calls b \<noteq> 0 then Some (max_calls b) else None)"

interpretation tokens: spend_axis spend_tokens committed_tokens reserved_tokens token_limit 0
proof unfold_locales
  show "valid_spend s \<Longrightarrow> 0 \<le> spend_tokens s" for s
    by (simp add: valid_spend_def spend_tokens_def)
qed (auto elim: commit_InrD release_InrD dest: reserve_axes reserve_InrD(3))

interpretation cost: spend_axis cost_usd committed_cost reserved_cost cost_limit_usd cost_eps
proof unfold_locales
  show "0 \<le> cost_eps" by (simp add: cost_eps_def)
qed (auto simp: valid_spend_def elim: commit_InrD release_InrD
       dest: reserve_axes reserve_InrD(4))

interpretation calls: spend_axis calls committed_calls reserved_calls calls_limit 0
proof unfold_locales
  show "reserve rid addr cell est a = Inr (r, a') \<Longrightarrow> calls_limit (auth_budget a) = Some l \<Longrightarrow>
          committed_calls a + reserved_calls a + calls est \<le> l + 0" for rid addr cell est a r a' l
    by (auto simp: calls_limit_def dest: reserve_InrD(5) split: if_splits)
qed (auto simp: valid_spend_def elim: commit_InrD release_InrD dest: reserve_axes)

subsection \<open>The authority against the cumulative usage\<close>

text \<open>The cell loop books every attempt twice: \<^verbatim>\<open>budget_auth.record\<close> and the in-place
  additions to \<^verbatim>\<open>usage\<close>.  In step, the two views agree.\<close>

definition in_step :: "authority \<Rightarrow> budget_usage \<Rightarrow> bool" where
  "in_step a u \<longleftrightarrow> reservations a = Map.empty \<and>
     reserved_tokens a = 0 \<and> reserved_cost a = 0 \<and> reserved_calls a = 0 \<and>
     committed_tokens a = total_tokens u \<and> committed_cost a = total_cost_usd u \<and>
     committed_calls a = total_calls u"

lemma in_step_new: "in_step (new_authority b) zero_usage"
  by (simp add: in_step_def zero_usage_def total_tokens_def)

lemma in_step_record: "in_step a u \<Longrightarrow> in_step (record_spend s a) (add_usage u s)"
  by (simp add: in_step_def add_usage_def total_tokens_def spend_tokens_def)

lemma in_step_remaining: "in_step a u \<Longrightarrow> auth_remaining a = remaining u (auth_budget a)"
  by (simp add: in_step_def auth_remaining_def remaining_def split: option.split)

lemma in_step_foldl:
  "in_step a u \<Longrightarrow> in_step (foldl (\<lambda>a s. record_spend s a) a ss) (foldl add_usage u ss)"
  by (induction ss arbitrary: a u) (auto simp: in_step_record)

lemma foldl_record_budget [simp]:
  "auth_budget (foldl (\<lambda>a s. record_spend s a) a ss) = auth_budget a"
  by (induction ss arbitrary: a) simp_all

lemma exceeds_exhausted:
  assumes "in_step a u" "exceeds u (Some (auth_budget a))"
  shows "budget_exhausted a"
proof -
  have "l - total_cost_usd u \<le> cost_eps" if "total_cost_usd u > l + cost_eps" for l
    using that cost_eps_pos by linarith
  moreover have "(0::rat) \<le> cost_eps" by (simp add: cost_eps_def)
  ultimately show ?thesis using assms
    by (auto simp: in_step_remaining budget_exhausted_def Let_def remaining_def exceeds_def
        split: option.splits)
qed

subsection \<open>Properties\<close>

text \<open>The pre-flight discipline keeps to the limits: after any number of reservations,
  \<open>n\<close> commits and any releases, committed plus reserved tokens and calls are within the set
  limits, and dollars within the limit plus one rounding slack per commit and one for the
  reservation check.\<close>

theorem preflight_within_limits:
  assumes "preflight b n a" "valid_budget b"
  shows "(case token_limit b of None \<Rightarrow> True
          | Some l \<Rightarrow> committed_tokens a + reserved_tokens a \<le> l) \<and>
    (max_calls b \<noteq> 0 \<longrightarrow> committed_calls a + reserved_calls a \<le> max_calls b) \<and>
    (case cost_limit_usd b of None \<Rightarrow> True
     | Some c \<Rightarrow> committed_cost a + reserved_cost a \<le> c + (1 + of_nat n) * cost_eps)"
proof -
  have "max_calls b \<noteq> 0 \<Longrightarrow> committed_calls a + reserved_calls a \<le> max_calls b"
    using calls.preflight_bound [OF assms(1)] assms(2)
    by (simp add: calls_limit_def valid_budget_def)
  moreover have "committed_tokens a + reserved_tokens a \<le> l" if "token_limit b = Some l" for l
    using tokens.preflight_bound [OF assms(1) that] assms(2) that by (simp add: valid_budget_def)
  moreover have "committed_cost a + reserved_cost a \<le> c + (1 + of_nat n) * cost_eps"
    if "cost_limit_usd b = Some c" for c
    using cost.preflight_bound [OF assms(1) that] assms(2) that by (simp add: valid_budget_def)
  ultimately show ?thesis by (simp split: option.split)
qed

text \<open>C17: the books balance in every reachable state, whatever the interleaving of reserve,
  commit, release and record: the reserved totals are exactly the sums of the active
  reservations' estimates, and committed spend is never negative.\<close>

theorem authority_books_balance:
  assumes "auth_step\<^sup>*\<^sup>* (new_authority b) a"
  shows "reserved_tokens a = (\<Sum>k \<in> dom (reservations a). spend_tokens (estimate (the (reservations a k))))
    \<and> reserved_cost a = (\<Sum>k \<in> dom (reservations a). cost_usd (estimate (the (reservations a k))))
    \<and> reserved_calls a = (\<Sum>k \<in> dom (reservations a). calls (estimate (the (reservations a k))))
    \<and> 0 \<le> committed_tokens a \<and> 0 \<le> committed_cost a \<and> 0 \<le> committed_calls a"
  using tokens.reserved_held [OF assms] cost.reserved_held [OF assms] calls.reserved_held [OF assms]
    tokens.committed_nonneg [OF assms] cost.committed_nonneg [OF assms]
    calls.committed_nonneg [OF assms]
  by (simp add: tokens.held_def cost.held_def calls.held_def)

text \<open>A reservation settles once and only by its own handle: after a commit or a release
  the same handle is refused by both, and a handle whose object is not the stored one is
  refused before anything is booked.\<close>

theorem reservation_settles_once:
  "(commit r actual a = Inr a' \<or> release r a = Inr a' \<longrightarrow>
      commit r actual' a' = Inl (InvalidReservation (reservation_id r)) \<and>
      release r a' = Inl (InvalidReservation (reservation_id r)))
   \<and> (reservations a (reservation_id f) = Some held \<and> res_addr held \<noteq> res_addr f \<longrightarrow>
      commit f actual a = Inl (InvalidReservation (reservation_id f)) \<and>
      release f a = Inl (InvalidReservation (reservation_id f)))"
proof -
  have gone: "reservations a' (reservation_id r) = None"
    if "commit r actual a = Inr a' \<or> release r a = Inr a'"
    using that by (auto elim: commit_InrD release_InrD)
  then show ?thesis
    by (auto simp: commit_def [of _ actual'] release_def [of _ a'] commit_def [of f]
        release_def [of f] require_active_def)
qed

definition drift_budget :: budget where
  "drift_budget = unlimited_budget\<lparr>cost_limit_usd := Some 1\<rparr>"

definition dollars :: "usd \<Rightarrow> spend" where
  "dollars c = \<lparr>input_tokens = 0, output_tokens = 0, cost_usd = c, calls = 0\<rparr>"

definition drift_a1 :: authority where
  "drift_a1 = snd (projr (reserve 1 100 ''c1'' (dollars 1) (new_authority drift_budget)))"

definition drift_r1 :: reservation where
  "drift_r1 = \<lparr>reservation_id = 1, res_cell = ''c1'', estimate = dollars 1, res_addr = 100\<rparr>"

definition drift_a2 :: authority where
  "drift_a2 = projr (commit drift_r1 (dollars (1 + cost_eps)) drift_a1)"

definition drift_a3 :: authority where
  "drift_a3 = snd (projr (reserve 2 200 ''c2'' (dollars 0) drift_a2))"

definition drift_r2 :: reservation where
  "drift_r2 = \<lparr>reservation_id = 2, res_cell = ''c2'', estimate = dollars 0, res_addr = 200\<rparr>"

definition drift_a4 :: authority where
  "drift_a4 = projr (commit drift_r2 (dollars cost_eps) drift_a3)"

lemmas drift_defs = drift_budget_def unlimited_budget_def dollars_def drift_r1_def drift_r2_def
  reserve_def commit_def require_active_def spend_tokens_def Let_def

lemma drift_reserve1: "reserve 1 100 ''c1'' (dollars 1) (new_authority drift_budget) = Inr (drift_r1, drift_a1)"
  by (simp add: drift_a1_def drift_defs cost_eps_def)

lemma drift_commit1: "commit drift_r1 (dollars (1 + cost_eps)) drift_a1 = Inr drift_a2"
  by (simp add: drift_a2_def drift_a1_def drift_defs cost_eps_def)

lemma drift_reserve2: "reserve 2 200 ''c2'' (dollars 0) drift_a2 = Inr (drift_r2, drift_a3)"
  by (simp add: drift_a3_def drift_a2_def drift_a1_def drift_defs cost_eps_def)

lemma drift_commit2: "commit drift_r2 (dollars cost_eps) drift_a3 = Inr drift_a4"
  by (simp add: drift_a4_def drift_a3_def drift_a2_def drift_a1_def drift_defs cost_eps_def)

lemma drift_run: "preflight drift_budget 2 drift_a4"
proof -
  have v: "valid_spend (dollars c)" if "0 \<le> c" for c
    using that by (simp add: valid_spend_def dollars_def)
  have 1: "preflight drift_budget 0 drift_a1"
    by (rule preflight.reserve [OF preflight.start _ _ drift_reserve1]) (simp_all add: v)
  have 2: "preflight drift_budget (Suc 0) drift_a2"
    by (rule preflight.commit [OF 1 _ drift_commit1]) (simp add: v add_nonneg_nonneg less_imp_le)
  have 3: "preflight drift_budget (Suc 0) drift_a3"
  proof (rule preflight.reserve [OF 2 _ _ drift_reserve2])
    show "2 \<notin> dom (reservations drift_a2)"
      by (simp add: drift_a2_def drift_a1_def drift_defs cost_eps_def)
  qed (simp add: v)
  have "preflight drift_budget (Suc (Suc 0)) drift_a4"
    by (rule preflight.commit [OF 3 _ drift_commit2]) (simp add: v less_imp_le)
  then show ?thesis by (simp add: numeral_2_eq_2)
qed

lemma drift_committed: "committed_cost drift_a4 = 1 + 2 * cost_eps"
  by (simp add: drift_a4_def drift_a3_def drift_a2_def drift_a1_def drift_defs cost_eps_def)

text \<open>The dollar axis can pass its limit by more than the rounding slack: each commit may
  exceed its estimate by \<^verbatim>\<open>1e-9\<close> and a zero-cost reservation is still granted at the
  boundary, so the slacks add up.\<close>

theorem cost_slack_accumulates:
  "\<exists>b n a c. valid_budget b \<and> preflight b n a \<and> cost_limit_usd b = Some c \<and>
     c + cost_eps < committed_cost a"
proof (intro exI conjI)
  show "valid_budget drift_budget"
    by (simp add: valid_budget_def drift_budget_def unlimited_budget_def)
  show "preflight drift_budget 2 drift_a4" by (rule drift_run)
  show "cost_limit_usd drift_budget = Some 1" by (simp add: drift_budget_def)
  show "1 + cost_eps < committed_cost drift_a4" by (simp add: drift_committed)
qed

theorem preflight_within_limits_witness:
  "valid_budget drift_budget \<and> preflight drift_budget 2 drift_a4 \<and>
     committed_cost drift_a4 + reserved_cost drift_a4 \<le> 1 + 3 * cost_eps"
proof -
  have v: "valid_budget drift_budget"
    by (simp add: valid_budget_def drift_budget_def unlimited_budget_def)
  from preflight_within_limits [OF drift_run v]
  have "committed_cost drift_a4 + reserved_cost drift_a4 \<le> 1 + (1 + of_nat 2) * cost_eps"
    by (simp add: drift_budget_def)
  with v drift_run show ?thesis by simp
qed

theorem authority_books_balance_witness:
  "reserved_cost drift_a1 = 1 \<and> auth_step\<^sup>*\<^sup>* (new_authority drift_budget) drift_a1"
proof -
  have "valid_spend (dollars 1)" by (simp add: valid_spend_def dollars_def)
  then have s: "auth_step\<^sup>*\<^sup>* (new_authority drift_budget) drift_a1"
    by (intro r_into_rtranclp auth_step.reserve [OF _ _ drift_reserve1]) simp_all
  from authority_books_balance [OF s]
  have "reserved_cost drift_a1
      = (\<Sum>k \<in> dom (reservations drift_a1). cost_usd (estimate (the (reservations drift_a1 k))))"
    by blast
  also have "\<dots> = 1" by (simp add: drift_a1_def drift_defs cost_eps_def)
  finally show ?thesis using s by simp
qed

theorem reservation_settles_once_witness:
  "commit drift_r1 (dollars 1) drift_a2 = Inl (InvalidReservation 1)"
proof -
  have "reservation_id drift_r1 = 1" by (simp add: drift_r1_def)
  with reservation_settles_once [of drift_r1 "dollars (1 + cost_eps)" drift_a1 drift_a2 "dollars 1"]
    drift_commit1 show ?thesis by simp
qed

text \<open>After any sequence of worker attempts the authority's headroom is exactly what the
  cumulative usage leaves of the budget, axis by axis, unlimited axes staying unlimited.\<close>

theorem authority_refines_usage:
  "auth_remaining (foldl (\<lambda>a s. record_spend s a) (new_authority b) spends)
     = remaining (foldl add_usage zero_usage spends) b"
  using in_step_remaining [OF in_step_foldl [OF in_step_new]] by simp

text \<open>Usage that the release law counts as over budget has already tripped the
  wave-boundary check of the authority, so an overspent run stops at the next boundary.\<close>

theorem overspend_trips_boundary:
  assumes "exceeds (foldl add_usage zero_usage spends) (Some b)"
  shows "budget_exhausted (foldl (\<lambda>a s. record_spend s a) (new_authority b) spends)"
  using exceeds_exhausted [OF in_step_foldl [OF in_step_new]] assms by simp

theorem overspend_trips_boundary_witness:
  "budget_exhausted (foldl (\<lambda>a s. record_spend s a) (new_authority drift_budget) [dollars 2])"
proof (rule overspend_trips_boundary)
  show "exceeds (foldl add_usage zero_usage [dollars 2]) (Some drift_budget)"
    by (simp add: exceeds_def drift_defs zero_usage_def add_usage_def cost_eps_def)
qed

end
