(* ===== verification/Domain.thy ===== *)
theory Domain
  imports Run_Status Budgets
begin

section \<open>The domain model (domain/contract.py, graph.py, outcome.py, request.py)\<close>

text \<open>
  Contracts and their acceptance criteria, the rolling-wave graph, and the vocabulary of
  outcomes, failures and recovery.  The pydantic models are frozen, so an update is a copy;
  their field constraints are the \<open>valid_\<dots>\<close> predicates.
\<close>

subsection \<open>contract.py\<close>

datatype criterion_kind = COMMAND | FILE_DIFF | TREE_DIGEST | SCHEMA | POLICY | SOFT_RUBRIC

fun criterion_kind_value :: "criterion_kind \<Rightarrow> string" where
  "criterion_kind_value COMMAND = ''command''"
| "criterion_kind_value FILE_DIFF = ''file_diff''"
| "criterion_kind_value TREE_DIGEST = ''tree_digest''"
| "criterion_kind_value SCHEMA = ''schema''"
| "criterion_kind_value POLICY = ''policy''"
| "criterion_kind_value SOFT_RUBRIC = ''soft_rubric''"

definition all_criterion_kinds :: "criterion_kind list" where
  "all_criterion_kinds = [COMMAND, FILE_DIFF, TREE_DIGEST, SCHEMA, POLICY, SOFT_RUBRIC]"

text \<open>\<^verbatim>\<open>CriterionKind(value)\<close>; \<open>None\<close> is the \<^verbatim>\<open>ValueError\<close>.\<close>

definition parse_criterion_kind :: "string \<Rightarrow> criterion_kind option" where
  "parse_criterion_kind v = find (\<lambda>k. criterion_kind_value k = v) all_criterion_kinds"

lemma parse_criterion_kind_value [simp]: "parse_criterion_kind (criterion_kind_value k) = Some k"
  by (cases k) (simp_all add: parse_criterion_kind_def all_criterion_kinds_def)

lemma parse_criterion_kind_Some:
  "parse_criterion_kind v = Some k \<Longrightarrow> criterion_kind_value k = v"
  by (auto simp: parse_criterion_kind_def find_Some_iff)

text \<open>The discriminated union \<^verbatim>\<open>AcceptanceCriterion\<close>; the first argument of every variant is
  its \<^verbatim>\<open>description\<close>, the others follow the field order of the class.\<close>

datatype acceptance_criterion =
    CommandCriterion string (command_name: string) (exit_code: int)
  | FileDiffCriterion string (fd_path: string) (must_exist: bool) (content_hash: "string option")
      (content_contains: "string option") (content_equals: "string option")
  | TreeDigestCriterion string (td_path: string) (tree_hash: string)
  | SchemaCriterion string (artifact_digest: string) (json_schema: "(string \<times> json) list")
  | PolicyCriterion string (policy_check: string) (policy_tools: "string list")
  | SoftRubricCriterion string (rubric_prompt: string)

fun criterion_description :: "acceptance_criterion \<Rightarrow> string" where
  "criterion_description (CommandCriterion d _ _) = d"
| "criterion_description (FileDiffCriterion d _ _ _ _ _) = d"
| "criterion_description (TreeDigestCriterion d _ _) = d"
| "criterion_description (SchemaCriterion d _ _) = d"
| "criterion_description (PolicyCriterion d _ _) = d"
| "criterion_description (SoftRubricCriterion d _) = d"

text \<open>The \<^verbatim>\<open>kind\<close> discriminator of each variant.\<close>

fun criterion_kind_of :: "acceptance_criterion \<Rightarrow> criterion_kind" where
  "criterion_kind_of (CommandCriterion _ _ _) = COMMAND"
| "criterion_kind_of (FileDiffCriterion _ _ _ _ _ _) = FILE_DIFF"
| "criterion_kind_of (TreeDigestCriterion _ _ _) = TREE_DIGEST"
| "criterion_kind_of (SchemaCriterion _ _ _) = SCHEMA"
| "criterion_kind_of (PolicyCriterion _ _ _) = POLICY"
| "criterion_kind_of (SoftRubricCriterion _ _) = SOFT_RUBRIC"

text \<open>The \<^verbatim>\<open>min_length=1\<close> constraints of the variants.\<close>

fun valid_criterion :: "acceptance_criterion \<Rightarrow> bool" where
  "valid_criterion (CommandCriterion _ n _) = (n \<noteq> [])"
| "valid_criterion (FileDiffCriterion _ p _ _ _ _) = (p \<noteq> [])"
| "valid_criterion (TreeDigestCriterion _ p h) = (p \<noteq> [] \<and> h \<noteq> [])"
| "valid_criterion (SchemaCriterion _ d _) = (d \<noteq> [])"
| "valid_criterion (PolicyCriterion _ c _) = (c \<noteq> [])"
| "valid_criterion (SoftRubricCriterion _ _) = True"

record work_contract =
  wc_id :: string
  wc_version :: int
  objective :: string
  scope :: string
  deliverables :: "string list"
  constraints :: "string list"
  assumptions :: "string list"
  forbidden_outcomes :: "string list"
  allowed_tools :: "string list"
  workspace_scope :: string
  wc_budget :: budget
  acceptance_criteria :: "acceptance_criterion list"
  unresolved_ambiguity :: "string list"
  abstention_threshold :: rat

definition valid_contract :: "work_contract \<Rightarrow> bool" where
  "valid_contract c \<longleftrightarrow> wc_id c \<noteq> [] \<and> 1 \<le> wc_version c \<and> valid_budget (wc_budget c) \<and>
     list_all valid_criterion (acceptance_criteria c) \<and>
     0 \<le> abstention_threshold c \<and> abstention_threshold c \<le> 1"

text \<open>\<^verbatim>\<open>WorkContract(id=..., objective=..., budget=...)\<close>: the other fields at their defaults.\<close>

definition base_contract :: "string \<Rightarrow> string \<Rightarrow> budget \<Rightarrow> work_contract" where
  "base_contract i obj b = \<lparr>wc_id = i, wc_version = 1, objective = obj, scope = [],
     deliverables = [], constraints = [], assumptions = [], forbidden_outcomes = [],
     allowed_tools = [], workspace_scope = [], wc_budget = b, acceptance_criteria = [],
     unresolved_ambiguity = [], abstention_threshold = 1 / 2\<rparr>"

subsection \<open>graph.py\<close>

datatype cell_mode = READ_ONLY | MUTATING

fun cell_mode_value :: "cell_mode \<Rightarrow> string" where
  "cell_mode_value READ_ONLY = ''read_only''"
| "cell_mode_value MUTATING = ''mutating''"

datatype cell_status =
    Cell_PENDING | Cell_READY | Cell_RUNNING | Cell_COMPLETED | Cell_FAILED | Cell_VERIFIED

record graph_edge =
  from_id :: cell_id
  to_id :: cell_id
  edge_kind :: string

record graph_cell =
  gc_id :: cell_id
  gc_name :: string
  wave :: nat
  required_capabilities :: "string list"
  mode :: cell_mode
  input_schema :: "(string \<times> json) list"
  output_schema :: "(string \<times> json) list"
  required_profile_roles :: "string list"
  dependencies :: "cell_id list"
  acceptance_criterion_indices :: "int list"
  contract :: work_contract
  gc_status :: cell_status

record graph_version =
  gv_version :: int
  gv_cells :: "graph_cell list"
  edges :: "graph_edge list"
  milestones :: "cell_id list"
  current_horizon :: nat

text \<open>\<^verbatim>\<open>GraphVersion.with_cell_status\<close>.  \<open>set_status_in\<close> is the comprehension it shares with
  the projection.\<close>

definition set_status_in :: "cell_id \<Rightarrow> cell_status \<Rightarrow> graph_cell list \<Rightarrow> graph_cell list" where
  "set_status_in cid st cs = map (\<lambda>c. if gc_id c = cid then c\<lparr>gc_status := st\<rparr> else c) cs"

definition with_cell_status :: "graph_version \<Rightarrow> cell_id \<Rightarrow> cell_status \<Rightarrow> graph_version" where
  "with_cell_status g cid st = g\<lparr>gv_cells := set_status_in cid st (gv_cells g)\<rparr>"

lemma set_status_in_ids [simp]: "map gc_id (set_status_in cid st cs) = map gc_id cs"
  by (simp add: set_status_in_def)

lemma set_status_in_length [simp]: "length (set_status_in cid st cs) = length cs"
  by (simp add: set_status_in_def)

lemma set_status_in_twice [simp]:
  "set_status_in cid st (set_status_in cid st' cs) = set_status_in cid st cs"
  by (simp add: set_status_in_def)

subsection \<open>outcome.py\<close>

datatype run_outcome = Outcome_VERIFIED | Outcome_ABSTAINED | Outcome_FAILED

datatype failure_type =
    Fail_TRANSIENT | Fail_SAMPLING | Fail_CAPABILITY | Fail_DECOMPOSITION
  | Fail_SPECIFICATION | Fail_INTEGRATION | Fail_SAFETY | Fail_BUDGET

fun failure_type_value :: "failure_type \<Rightarrow> string" where
  "failure_type_value Fail_TRANSIENT = ''transient''"
| "failure_type_value Fail_SAMPLING = ''sampling''"
| "failure_type_value Fail_CAPABILITY = ''capability''"
| "failure_type_value Fail_DECOMPOSITION = ''decomposition''"
| "failure_type_value Fail_SPECIFICATION = ''specification''"
| "failure_type_value Fail_INTEGRATION = ''integration''"
| "failure_type_value Fail_SAFETY = ''safety''"
| "failure_type_value Fail_BUDGET = ''budget''"

fun failure_type_name :: "failure_type \<Rightarrow> string" where
  "failure_type_name Fail_TRANSIENT = ''TRANSIENT''"
| "failure_type_name Fail_SAMPLING = ''SAMPLING''"
| "failure_type_name Fail_CAPABILITY = ''CAPABILITY''"
| "failure_type_name Fail_DECOMPOSITION = ''DECOMPOSITION''"
| "failure_type_name Fail_SPECIFICATION = ''SPECIFICATION''"
| "failure_type_name Fail_INTEGRATION = ''INTEGRATION''"
| "failure_type_name Fail_SAFETY = ''SAFETY''"
| "failure_type_name Fail_BUDGET = ''BUDGET''"

definition all_failure_types :: "failure_type list" where
  "all_failure_types = [Fail_TRANSIENT, Fail_SAMPLING, Fail_CAPABILITY, Fail_DECOMPOSITION,
     Fail_SPECIFICATION, Fail_INTEGRATION, Fail_SAFETY, Fail_BUDGET]"

datatype recovery_action =
    BACKOFF_RETRY | CHANGED_STRATEGY_RETRY | REROUTE_ESCALATE | SPLIT_REPLAN
  | CONTRACT_AMENDMENT | ABSTAIN | TERMINATE | SCOPE_REDUCTION | FAIL

fun recovery_action_value :: "recovery_action \<Rightarrow> string" where
  "recovery_action_value BACKOFF_RETRY = ''backoff_retry''"
| "recovery_action_value CHANGED_STRATEGY_RETRY = ''changed_strategy_retry''"
| "recovery_action_value REROUTE_ESCALATE = ''reroute_escalate''"
| "recovery_action_value SPLIT_REPLAN = ''split_replan''"
| "recovery_action_value CONTRACT_AMENDMENT = ''contract_amendment''"
| "recovery_action_value ABSTAIN = ''abstain''"
| "recovery_action_value TERMINATE = ''terminate''"
| "recovery_action_value SCOPE_REDUCTION = ''scope_reduction''"
| "recovery_action_value FAIL = ''fail''"

record artifact_ref =
  digest :: digest
  media_type :: string
  size_bytes :: nat

text \<open>The pattern \<^verbatim>\<open>^sha256:[0-9a-f]{64}$\<close>.\<close>

definition hex_char :: "char \<Rightarrow> bool" where
  "hex_char c \<longleftrightarrow> c \<in> set ''0123456789abcdef''"

definition valid_digest :: "string \<Rightarrow> bool" where
  "valid_digest d \<longleftrightarrow> take 7 d = ''sha256:'' \<and> length d = 71 \<and> list_all hex_char (drop 7 d)"

record evidence_record =
  er_criterion_index :: nat
  er_kind :: criterion_kind
  er_passed :: bool
  evidence_artifact_digest :: string
  er_detail :: string

record hard_gate_failure =
  hgf_index :: nat
  hgf_detail :: string

record evidence_manifest =
  em_outcome :: run_outcome
  em_records :: "evidence_record list"
  em_tools_used :: "string list"
  em_tools_audit :: "string list"
  em_usage :: budget_usage
  em_hard_gate_failures :: "hard_gate_failure list"
  em_soft_verdict :: string
  em_material_disagreement :: bool

record attempt_signature =
  sig_contract_version :: int
  sig_cell_id :: cell_id
  profile_name :: string
  strategy_id :: string
  tool_plan :: string
  sig_evidence_digest :: string

record calibration_record =
  cal_criterion_index :: nat
  reviewer_agreement_rate :: rat
  min_reviewers :: nat
  agreement_threshold :: rat
  sample_count :: nat

definition valid_calibration :: "calibration_record \<Rightarrow> bool" where
  "valid_calibration c \<longleftrightarrow> 0 \<le> reviewer_agreement_rate c \<and> reviewer_agreement_rate c \<le> 1 \<and>
     1 \<le> min_reviewers c \<and> 0 \<le> agreement_threshold c \<and> agreement_threshold c \<le> 1"

subsection \<open>request.py\<close>

record project_request =
  goal :: string
  workspace_root :: string
  req_constraints :: "string list"
  req_budget :: "budget option"
  tool_policy :: "string list"
  max_waves :: nat

definition MAX_WAVES :: nat where
  "MAX_WAVES = 100"

definition valid_request :: "project_request \<Rightarrow> bool" where
  "valid_request r \<longleftrightarrow> 1 \<le> length (goal r) \<and> length (goal r) \<le> 65536 \<and>
     1 \<le> length (workspace_root r) \<and> length (workspace_root r) \<le> 4096 \<and>
     1 \<le> max_waves r \<and> max_waves r \<le> MAX_WAVES"

text \<open>\<^verbatim>\<open>_OUTCOME_TO_STATUS\<close> (application/orchestrator.py).\<close>

fun outcome_to_status :: "run_outcome \<Rightarrow> run_status" where
  "outcome_to_status Outcome_VERIFIED = VERIFIED"
| "outcome_to_status Outcome_ABSTAINED = ABSTAINED"
| "outcome_to_status Outcome_FAILED = FAILED"

lemma outcome_to_status_terminal [simp]: "is_terminal (outcome_to_status o')"
  by (cases o') auto

lemma outcome_to_status_inj [simp]: "outcome_to_status a = outcome_to_status b \<longleftrightarrow> a = b"
  by (cases a; cases b) auto

end
