(* ===== verification/Events.thy ===== *)
theory Events
  imports Domain
begin

section \<open>The typed event catalog (events/catalog.py, envelope.py, errors.py, upcast.py)\<close>

text \<open>
  One constructor per payload model, in the order of the union \<^verbatim>\<open>EventPayload\<close>; the fields
  in the order of the class.  \<^verbatim>\<open>kind\<close> is a function of the constructor; the field every
  payload inherits from \<^verbatim>\<open>PayloadBase\<close>, \<^verbatim>\<open>schema_version\<close>, travels beside the payload in
  its envelope.
\<close>

subsection \<open>Event kinds\<close>

datatype event_kind =
    RUN_CREATED | STATUS_CHANGED | CELL_CREATED | CELL_ADVANCED | CLAIM_RECORDED
  | ARTIFACT_STORED | BUDGET_UPDATED
  | REQUEST_ACCEPTED | WORKSPACE_SNAPSHOT | ANALYSIS_REQUESTED | ANALYSIS_COMPLETED
  | CONTRACT_PROPOSED | CONTRACT_VALIDATED | CONTRACT_AMENDED | GRAPH_PROPOSED | GRAPH_ACCEPTED
  | ROUTE_SELECTED | CELL_STARTED | CELL_PROGRESS | CELL_COMPLETED | CELL_FAILED
  | EVIDENCE_RECORDED | VERIFICATION_CHECK | RECOVERY_TRANSITION | OUTCOME_EMITTED
  | STALL_DETECTED

fun event_kind_value :: "event_kind \<Rightarrow> string" where
  "event_kind_value RUN_CREATED = ''run_created''"
| "event_kind_value STATUS_CHANGED = ''status_changed''"
| "event_kind_value CELL_CREATED = ''cell_created''"
| "event_kind_value CELL_ADVANCED = ''cell_advanced''"
| "event_kind_value CLAIM_RECORDED = ''claim_recorded''"
| "event_kind_value ARTIFACT_STORED = ''artifact_stored''"
| "event_kind_value BUDGET_UPDATED = ''budget_updated''"
| "event_kind_value REQUEST_ACCEPTED = ''request_accepted''"
| "event_kind_value WORKSPACE_SNAPSHOT = ''workspace_snapshot''"
| "event_kind_value ANALYSIS_REQUESTED = ''analysis_requested''"
| "event_kind_value ANALYSIS_COMPLETED = ''analysis_completed''"
| "event_kind_value CONTRACT_PROPOSED = ''contract_proposed''"
| "event_kind_value CONTRACT_VALIDATED = ''contract_validated''"
| "event_kind_value CONTRACT_AMENDED = ''contract_amended''"
| "event_kind_value GRAPH_PROPOSED = ''graph_proposed''"
| "event_kind_value GRAPH_ACCEPTED = ''graph_accepted''"
| "event_kind_value ROUTE_SELECTED = ''route_selected''"
| "event_kind_value CELL_STARTED = ''cell_started''"
| "event_kind_value CELL_PROGRESS = ''cell_progress''"
| "event_kind_value CELL_COMPLETED = ''cell_completed''"
| "event_kind_value CELL_FAILED = ''cell_failed''"
| "event_kind_value EVIDENCE_RECORDED = ''evidence_recorded''"
| "event_kind_value VERIFICATION_CHECK = ''verification_check''"
| "event_kind_value RECOVERY_TRANSITION = ''recovery_transition''"
| "event_kind_value OUTCOME_EMITTED = ''outcome_emitted''"
| "event_kind_value STALL_DETECTED = ''stall_detected''"

definition all_event_kinds :: "event_kind list" where
  "all_event_kinds =
    [RUN_CREATED, STATUS_CHANGED, CELL_CREATED, CELL_ADVANCED, CLAIM_RECORDED, ARTIFACT_STORED,
     BUDGET_UPDATED, REQUEST_ACCEPTED, WORKSPACE_SNAPSHOT, ANALYSIS_REQUESTED, ANALYSIS_COMPLETED,
     CONTRACT_PROPOSED, CONTRACT_VALIDATED, CONTRACT_AMENDED, GRAPH_PROPOSED, GRAPH_ACCEPTED,
     ROUTE_SELECTED, CELL_STARTED, CELL_PROGRESS, CELL_COMPLETED, CELL_FAILED, EVIDENCE_RECORDED,
     VERIFICATION_CHECK, RECOVERY_TRANSITION, OUTCOME_EMITTED, STALL_DETECTED]"

lemma all_event_kinds_complete [simp]: "k \<in> set all_event_kinds"
  by (cases k) (simp_all add: all_event_kinds_def)

text \<open>\<^verbatim>\<open>EventKind(value)\<close>.\<close>

definition parse_event_kind :: "string \<Rightarrow> event_kind option" where
  "parse_event_kind v = find (\<lambda>k. event_kind_value k = v) all_event_kinds"

lemma parse_event_kind_value [simp]: "parse_event_kind (event_kind_value k) = Some k"
  by (cases k) (simp_all add: parse_event_kind_def all_event_kinds_def)

lemma parse_event_kind_Some: "parse_event_kind v = Some k \<Longrightarrow> event_kind_value k = v"
  by (auto simp: parse_event_kind_def find_Some_iff)

subsection \<open>Payloads\<close>

datatype payload =
    RunCreated
  | StatusChanged run_status
  | RequestAccepted string string "budget option"
  | WorkspaceSnapshot string nat string
  | AnalysisRequested string "(string \<times> json) list"
  | AnalysisCompleted string "(string \<times> json) list"
  | ContractProposed string int string string "string list" "string list" "string list" string
      budget nat "acceptance_criterion list" "string list"
  | ContractValidated string int
  | ContractAmended string int string
  | GraphProposed int "string list" bool
  | GraphAccepted int "graph_cell list" "graph_edge list" "cell_id list"
  | CellCreated graph_cell
  | CellAdvanced cell_id cell_status
  | RouteSelected cell_id string string
  | CellStarted cell_id string
  | CellProgress cell_id string nat nat "(string \<times> json) list"
  | CellCompleted cell_id artifact_ref spend
  | CellFailed cell_id string string
  | ClaimRecorded cell_id string string
  | ArtifactStored artifact_ref
  | BudgetUpdated budget_usage bool
  | VerificationCheck nat criterion_kind bool string string
  | EvidenceRecorded run_outcome "evidence_record list" "hard_gate_failure list" budget_usage
      "string list" bool
  | RecoveryTransition cell_id failure_type recovery_action nat string
  | OutcomeEmitted run_outcome string
  | StallDetected cell_id

fun payload_kind :: "payload \<Rightarrow> event_kind" where
  "payload_kind RunCreated = RUN_CREATED"
| "payload_kind (StatusChanged _) = STATUS_CHANGED"
| "payload_kind (RequestAccepted _ _ _) = REQUEST_ACCEPTED"
| "payload_kind (WorkspaceSnapshot _ _ _) = WORKSPACE_SNAPSHOT"
| "payload_kind (AnalysisRequested _ _) = ANALYSIS_REQUESTED"
| "payload_kind (AnalysisCompleted _ _) = ANALYSIS_COMPLETED"
| "payload_kind (ContractProposed _ _ _ _ _ _ _ _ _ _ _ _) = CONTRACT_PROPOSED"
| "payload_kind (ContractValidated _ _) = CONTRACT_VALIDATED"
| "payload_kind (ContractAmended _ _ _) = CONTRACT_AMENDED"
| "payload_kind (GraphProposed _ _ _) = GRAPH_PROPOSED"
| "payload_kind (GraphAccepted _ _ _ _) = GRAPH_ACCEPTED"
| "payload_kind (CellCreated _) = CELL_CREATED"
| "payload_kind (CellAdvanced _ _) = CELL_ADVANCED"
| "payload_kind (RouteSelected _ _ _) = ROUTE_SELECTED"
| "payload_kind (CellStarted _ _) = CELL_STARTED"
| "payload_kind (CellProgress _ _ _ _ _) = CELL_PROGRESS"
| "payload_kind (CellCompleted _ _ _) = CELL_COMPLETED"
| "payload_kind (CellFailed _ _ _) = CELL_FAILED"
| "payload_kind (ClaimRecorded _ _ _) = CLAIM_RECORDED"
| "payload_kind (ArtifactStored _) = ARTIFACT_STORED"
| "payload_kind (BudgetUpdated _ _) = BUDGET_UPDATED"
| "payload_kind (VerificationCheck _ _ _ _ _) = VERIFICATION_CHECK"
| "payload_kind (EvidenceRecorded _ _ _ _ _ _) = EVIDENCE_RECORDED"
| "payload_kind (RecoveryTransition _ _ _ _ _) = RECOVERY_TRANSITION"
| "payload_kind (OutcomeEmitted _ _) = OUTCOME_EMITTED"
| "payload_kind (StallDetected _) = STALL_DETECTED"

text \<open>The constraints of the models (\<^verbatim>\<open>ge\<close>, \<^verbatim>\<open>max_length\<close>).\<close>

fun valid_payload :: "payload \<Rightarrow> bool" where
  "valid_payload (ContractProposed _ v _ _ _ _ _ _ b _ cs _) =
     (1 \<le> v \<and> valid_budget b \<and> list_all valid_criterion cs)"
| "valid_payload (ContractValidated _ v) = (1 \<le> v)"
| "valid_payload (ContractAmended _ v _) = (1 \<le> v)"
| "valid_payload (GraphProposed v _ _) = (1 \<le> v)"
| "valid_payload (GraphAccepted v _ _ _) = (1 \<le> v)"
| "valid_payload (CellProgress _ step _ _ _) = (length step \<le> 64)"
| "valid_payload (CellCompleted _ ref u) = (valid_digest (digest ref) \<and> valid_spend u)"
| "valid_payload (ArtifactStored ref) = valid_digest (digest ref)"
| "valid_payload (BudgetUpdated u _) = valid_usage u"
| "valid_payload (EvidenceRecorded _ _ _ u _ _) = valid_usage u"
| "valid_payload (RecoveryTransition _ _ _ _ e) = (length e \<le> 2000)"
| "valid_payload _ = True"

subsection \<open>Envelope\<close>

definition CURRENT_SCHEMA_VERSION :: int where
  "CURRENT_SCHEMA_VERSION = 1"

record event_envelope =
  ev_run_id :: run_id
  ev_seq :: nat
  ev_payload :: payload
  ev_schema_version :: int  \<comment> \<open>the payload's \<^verbatim>\<open>schema_version\<close> field\<close>
  ev_timestamp :: rat
  ev_prev_hash :: string
  ev_hash_chain :: string

definition ev_kind :: "event_envelope \<Rightarrow> event_kind" where
  "ev_kind e = payload_kind (ev_payload e)"

subsection \<open>Failures of a read\<close>

datatype ledger_corruption =
    UnknownEventKind nat string
  | PayloadNotJson nat string
  | PayloadNotObject nat string
  | PredatesCatalog nat string
  | SchemaVersionNotInt nat string
  | UnknownSchemaVersion nat string int int
  | NoUpcaster nat string int
  | PayloadInvalid nat string
  | UnexpectedPayload nat string event_kind

fun corruption_seq :: "ledger_corruption \<Rightarrow> nat" where
  "corruption_seq (UnknownEventKind s _) = s"
| "corruption_seq (PayloadNotJson s _) = s"
| "corruption_seq (PayloadNotObject s _) = s"
| "corruption_seq (PredatesCatalog s _) = s"
| "corruption_seq (SchemaVersionNotInt s _) = s"
| "corruption_seq (UnknownSchemaVersion s _ _ _) = s"
| "corruption_seq (NoUpcaster s _ _) = s"
| "corruption_seq (PayloadInvalid s _) = s"
| "corruption_seq (UnexpectedPayload s _ _) = s"

subsection \<open>Schema evolution\<close>

text \<open>The registry is an argument; \<^verbatim>\<open>UPCASTERS\<close> as shipped is empty.  \<^verbatim>\<open>isinstance(v, int)\<close>
  holds of Python booleans too.\<close>

type_synonym upcaster = "(string \<times> json) list \<Rightarrow> (string \<times> json) list"
type_synonym upcaster_registry = "event_kind \<times> int \<rightharpoonup> upcaster"

definition no_upcasters :: upcaster_registry where
  "no_upcasters = Map.empty"

definition register :: "event_kind \<Rightarrow> int \<Rightarrow> upcaster \<Rightarrow> upcaster_registry \<Rightarrow> upcaster_registry" where
  "register kind from_version fn reg = reg((kind, from_version) \<mapsto> fn)"

definition int_of_json :: "json \<Rightarrow> int option" where
  "int_of_json j = (case j of JInt i \<Rightarrow> Some i | JBool b \<Rightarrow> Some (if b then 1 else 0) | _ \<Rightarrow> None)"

function upcast_loop ::
  "upcaster_registry \<Rightarrow> event_kind \<Rightarrow> nat \<Rightarrow> (string \<times> json) list \<Rightarrow> int
     \<Rightarrow> ledger_corruption + (string \<times> json) list" where
  "upcast_loop reg kind seq current version =
     (if version < CURRENT_SCHEMA_VERSION then
        (case reg (kind, version) of
           None \<Rightarrow> Inl (NoUpcaster seq (event_kind_value kind) version)
         | Some step \<Rightarrow>
             upcast_loop reg kind seq
               (dict_set (step current) ''schema_version'' (JInt (version + 1))) (version + 1))
      else Inr current)"
  by pat_completeness auto
termination
  by (relation "measure (\<lambda>(reg, kind, seq, current, version). nat (CURRENT_SCHEMA_VERSION - version))")
    auto

declare upcast_loop.simps [simp del]

definition upcast ::
  "upcaster_registry \<Rightarrow> event_kind \<Rightarrow> (string \<times> json) list \<Rightarrow> nat
     \<Rightarrow> ledger_corruption + (string \<times> json) list" where
  "upcast reg kind data seq =
     (case (case obj_get data ''schema_version'' of None \<Rightarrow> Some 1 | Some j \<Rightarrow> int_of_json j) of
        None \<Rightarrow> Inl (SchemaVersionNotInt seq (event_kind_value kind))
      | Some version \<Rightarrow>
          if version > CURRENT_SCHEMA_VERSION
          then Inl (UnknownSchemaVersion seq (event_kind_value kind) version CURRENT_SCHEMA_VERSION)
          else upcast_loop reg kind seq data version)"

text \<open>The version a stored object declares.\<close>

definition declared_version :: "(string \<times> json) list \<Rightarrow> int option" where
  "declared_version data =
     (case obj_get data ''schema_version'' of None \<Rightarrow> Some 1 | Some j \<Rightarrow> int_of_json j)"

lemma upcast_loop_version:
  assumes "upcast_loop reg kind seq data v = Inr data'" and "v \<le> CURRENT_SCHEMA_VERSION"
    and "declared_version data = Some v"
  shows "declared_version data' = Some CURRENT_SCHEMA_VERSION"
  using assms
proof (induction reg kind seq data v rule: upcast_loop.induct)
  case (1 reg kind seq current version)
  show ?case
  proof (cases "version < CURRENT_SCHEMA_VERSION")
    case True
    with "1.prems"(1) obtain step where step: "reg (kind, version) = Some step"
      by (subst (asm) upcast_loop.simps) (auto split: option.splits)
    have "declared_version (dict_set (step current) ''schema_version'' (JInt (version + 1)))
        = Some (version + 1)"
      by (simp add: declared_version_def obj_get_def int_of_json_def)
    moreover have "version + 1 \<le> CURRENT_SCHEMA_VERSION" using True by simp
    moreover have "upcast_loop reg kind seq
        (dict_set (step current) ''schema_version'' (JInt (version + 1))) (version + 1) = Inr data'"
      using "1.prems"(1) True step by (subst (asm) upcast_loop.simps) simp
    ultimately show ?thesis using "1.IH" [OF True step] by blast
  next
    case False
    with "1.prems" show ?thesis by (auto simp: upcast_loop.simps [of reg kind seq current version])
  qed
qed

lemma upcast_current: "declared_version data = Some 1 \<Longrightarrow> upcast reg kind data seq = Inr data"
  by (simp add: upcast_def declared_version_def CURRENT_SCHEMA_VERSION_def
      upcast_loop.simps [of reg kind seq data 1])

lemma upcast_loop_corruption:
  "upcast_loop reg kind seq data v = Inl e \<Longrightarrow> corruption_seq e = seq"
  by (induction reg kind seq data v rule: upcast_loop.induct)
    (subst (asm) (2) upcast_loop.simps, auto split: if_splits option.splits)

subsection \<open>Properties\<close>

text \<open>A read is never a best-effort parse: whatever the registry, an upcast that succeeds
  declares exactly the current schema version and started from an integer version that is not
  newer; a failed one names the row; and with the registry as shipped only the current version
  is readable, and is passed through unchanged.\<close>

theorem upcast_never_guesses:
  "(case upcast reg kind data seq of
      Inr data' \<Rightarrow> declared_version data' = Some CURRENT_SCHEMA_VERSION
        \<and> (\<exists>v. declared_version data = Some v \<and> v \<le> CURRENT_SCHEMA_VERSION)
    | Inl e \<Rightarrow> corruption_seq e = seq)
   \<and> (case upcast no_upcasters kind data seq of
        Inr data' \<Rightarrow> data' = data
      | Inl e \<Rightarrow> declared_version data \<noteq> Some CURRENT_SCHEMA_VERSION)"
proof (cases "declared_version data")
  case None
  then show ?thesis by (simp add: upcast_def declared_version_def)
next
  case (Some v)
  then have u: "upcast g kind data seq =
      (if v > CURRENT_SCHEMA_VERSION
       then Inl (UnknownSchemaVersion seq (event_kind_value kind) v CURRENT_SCHEMA_VERSION)
       else upcast_loop g kind seq data v)" for g
    by (simp add: upcast_def declared_version_def)
  have "case upcast_loop no_upcasters kind seq data v of
      Inr data' \<Rightarrow> data' = data | Inl e \<Rightarrow> v \<noteq> CURRENT_SCHEMA_VERSION"
    by (subst upcast_loop.simps) (simp add: no_upcasters_def)
  then show ?thesis using u Some upcast_loop_version upcast_loop_corruption
    by (auto split: sum.split)
qed

end
