(* ===== verification/Projection.thy ===== *)
theory Projection
  imports Events
begin

section \<open>The read model and its fold (domain/run_state.py, events/projection.py)\<close>

text \<open>
  \<^verbatim>\<open>RunState\<close> and the fold of one event into it.  Every handler returns a new state; the one
  handler that can fail is the status change, whose \<^verbatim>\<open>ValueError\<close> is \<open>IllegalReplay\<close>.
  \<^verbatim>\<open>fold_events\<close> and \<^verbatim>\<open>replay_run\<close> are those of application/replay.py.
\<close>

record recovery_event =
  rev_cell_id :: cell_id
  rev_failure_type :: string
  rev_action :: string
  rev_attempt_number :: nat

record run_state =
  rs_run_id :: run_id
  status :: run_status
  cells :: "graph_cell list"
  events_replayed :: nat
  last_event_hash :: string
  rs_goal :: string
  rs_workspace_root :: string
  contract_version :: int
  graph_version_no :: int
  graph :: "graph_version option"
  current_contract :: "work_contract option"
  routes :: "cell_id \<rightharpoonup> string"
  rs_evidence_manifest :: "evidence_manifest option"
  usage :: budget_usage
  run_budget :: "budget option"
  outcome :: "run_outcome option"
  rs_failure_type :: "failure_type option"
  attempt_signatures :: "attempt_signature list"
  recovery_events :: "recovery_event list"
  calibration_records :: "calibration_record list"

text \<open>\<^verbatim>\<open>RunState(run_id=...)\<close>.\<close>

definition initial_state :: "run_id \<Rightarrow> run_state" where
  "initial_state r = \<lparr>rs_run_id = r, status = INTAKE, cells = [], events_replayed = 0,
     last_event_hash = [], rs_goal = [], rs_workspace_root = [], contract_version = 0,
     graph_version_no = 0, graph = None, current_contract = None, routes = Map.empty,
     rs_evidence_manifest = None, usage = zero_usage, run_budget = None, outcome = None,
     rs_failure_type = None, attempt_signatures = [], recovery_events = [],
     calibration_records = []\<rparr>"

subsection \<open>The handlers\<close>

datatype replay_error = IllegalReplay run_status run_status nat

definition fold_status_changed :: "run_state \<Rightarrow> run_status \<Rightarrow> nat \<Rightarrow> replay_error + run_state" where
  "fold_status_changed s to seq =
     (if \<not> can_transition (status s) to then Inl (IllegalReplay (status s) to seq)
      else Inr (s\<lparr>status := to\<rparr>))"

definition set_cell_status :: "run_state \<Rightarrow> cell_id \<Rightarrow> cell_status \<Rightarrow> run_state" where
  "set_cell_status s cid st =
     s\<lparr>cells := set_status_in cid st (cells s),
       graph := map_option (\<lambda>g. with_cell_status g cid st) (graph s)\<rparr>"

definition fold_evidence_recorded ::
  "run_state \<Rightarrow> run_outcome \<Rightarrow> evidence_record list \<Rightarrow> hard_gate_failure list \<Rightarrow> budget_usage
     \<Rightarrow> string list \<Rightarrow> bool \<Rightarrow> run_state" where
  "fold_evidence_recorded s out records failures u tools disagreement =
     (let manifest = \<lparr>em_outcome = out, em_records = records, em_tools_used = tools,
            em_tools_audit = [], em_usage = u, em_hard_gate_failures = failures,
            em_soft_verdict = [], em_material_disagreement = disagreement\<rparr>;
          cs = (if out = Outcome_VERIFIED
                then map (\<lambda>c. if gc_status c = Cell_COMPLETED then c\<lparr>gc_status := Cell_VERIFIED\<rparr>
                              else c) (cells s)
                else cells s)
      in s\<lparr>rs_evidence_manifest := Some manifest, cells := cs\<rparr>)"

definition fold_recovery_transition ::
  "run_state \<Rightarrow> cell_id \<Rightarrow> failure_type \<Rightarrow> recovery_action \<Rightarrow> nat \<Rightarrow> run_state" where
  "fold_recovery_transition s cid ft act n =
     s\<lparr>rs_failure_type := Some ft,
       recovery_events := recovery_events s @
         [\<lparr>rev_cell_id = cid, rev_failure_type = failure_type_value ft,
           rev_action = recovery_action_value act, rev_attempt_number = n\<rparr>]\<rparr>"

definition fold_contract_proposed ::
  "run_state \<Rightarrow> string \<Rightarrow> int \<Rightarrow> string \<Rightarrow> string \<Rightarrow> string list \<Rightarrow> string list \<Rightarrow> string list
     \<Rightarrow> string \<Rightarrow> budget \<Rightarrow> acceptance_criterion list \<Rightarrow> string list \<Rightarrow> run_state" where
  "fold_contract_proposed s i v obj sc dels cons tools wsc b crits amb =
     s\<lparr>contract_version := v,
       current_contract := Some ((base_contract i obj b)\<lparr>wc_version := v, scope := sc,
         deliverables := dels, constraints := cons, allowed_tools := tools,
         workspace_scope := wsc, acceptance_criteria := crits, unresolved_ambiguity := amb\<rparr>)\<rparr>"

definition fold_graph_accepted ::
  "run_state \<Rightarrow> int \<Rightarrow> graph_cell list \<Rightarrow> graph_edge list \<Rightarrow> cell_id list \<Rightarrow> run_state" where
  "fold_graph_accepted s v cs es ms =
     s\<lparr>graph_version_no := v,
       graph := Some \<lparr>gv_version = v, gv_cells = cs, edges = es, milestones = ms,
                      current_horizon = 0\<rparr>\<rparr>"

subsection \<open>The fold\<close>

definition fold_event :: "run_state \<Rightarrow> event_envelope \<Rightarrow> replay_error + run_state" where
  "fold_event s e =
     (case ev_payload e of
        StatusChanged to \<Rightarrow> fold_status_changed s to (ev_seq e)
      | RequestAccepted g ws b \<Rightarrow>
          Inr (s\<lparr>rs_goal := g, rs_workspace_root := ws, run_budget := b\<rparr>)
      | ContractProposed i v obj sc dels cons tools wsc b n crits amb \<Rightarrow>
          Inr (fold_contract_proposed s i v obj sc dels cons tools wsc b crits amb)
      | ContractAmended i v r \<Rightarrow> Inr (s\<lparr>contract_version := v\<rparr>)
      | GraphAccepted v cs es ms \<Rightarrow> Inr (fold_graph_accepted s v cs es ms)
      | CellCreated c \<Rightarrow> Inr (s\<lparr>cells := cells s @ [c]\<rparr>)
      | RouteSelected cid p r \<Rightarrow> Inr (s\<lparr>routes := (routes s)(cid \<mapsto> p)\<rparr>)
      | CellStarted cid p \<Rightarrow> Inr (set_cell_status s cid Cell_RUNNING)
      | CellCompleted cid ref u \<Rightarrow> Inr (set_cell_status s cid Cell_COMPLETED)
      | CellFailed cid err k \<Rightarrow> Inr (set_cell_status s cid Cell_FAILED)
      | CellAdvanced cid st \<Rightarrow> Inr (set_cell_status s cid st)
      | BudgetUpdated u x \<Rightarrow> Inr (s\<lparr>usage := u\<rparr>)
      | EvidenceRecorded out recs fails u tools dis \<Rightarrow>
          Inr (fold_evidence_recorded s out recs fails u tools dis)
      | OutcomeEmitted out r \<Rightarrow> Inr (s\<lparr>outcome := Some out\<rparr>)
      | RecoveryTransition cid ft act n err \<Rightarrow> Inr (fold_recovery_transition s cid ft act n)
      | StallDetected cid \<Rightarrow> Inr (s\<lparr>outcome := Some Outcome_ABSTAINED\<rparr>)
      | RunCreated \<Rightarrow> Inr s
      | WorkspaceSnapshot ws n d \<Rightarrow> Inr s
      | AnalysisRequested p a \<Rightarrow> Inr s
      | AnalysisCompleted p a \<Rightarrow> Inr s
      | ContractValidated i v \<Rightarrow> Inr s
      | GraphProposed v errs rej \<Rightarrow> Inr s
      | ClaimRecorded cid cl d \<Rightarrow> Inr s
      | ArtifactStored ref \<Rightarrow> Inr s
      | VerificationCheck i k p d ev \<Rightarrow> Inr s
      | CellProgress cid st a t d \<Rightarrow> Inr s)"

text \<open>\<^verbatim>\<open>fold_events\<close>: the two bookkeeping fields are set after every event, from the state
  before it.\<close>

definition fold_counted :: "run_state \<Rightarrow> event_envelope \<Rightarrow> replay_error + run_state" where
  "fold_counted s e =
     (case fold_event s e of
        Inl err \<Rightarrow> Inl err
      | Inr s' \<Rightarrow> Inr (s'\<lparr>events_replayed := events_replayed s + 1,
                         last_event_hash := ev_hash_chain e\<rparr>))"

definition fold_events :: "run_state \<Rightarrow> event_envelope list \<Rightarrow> replay_error + run_state" where
  "fold_events s es = fold_res fold_counted s es"

definition replay_events :: "run_id \<Rightarrow> event_envelope list \<Rightarrow> replay_error + run_state" where
  "replay_events r es = fold_events (initial_state r) es"

lemma fold_events_simps [simp]:
  "fold_events s [] = Inr s"
  "fold_events s (e # es) = (case fold_counted s e of Inl err \<Rightarrow> Inl err
                             | Inr s' \<Rightarrow> fold_events s' es)"
  by (simp_all add: fold_events_def split: sum.split)

lemma fold_events_append:
  "fold_events s (xs @ ys) =
     (case fold_events s xs of Inl err \<Rightarrow> Inl err | Inr s' \<Rightarrow> fold_events s' ys)"
  by (simp add: fold_events_def fold_res_append split: sum.split)

subsection \<open>What a replay checks\<close>

text \<open>The status changes of a stream, in order, and its last outcome.\<close>

fun status_of_payload :: "payload \<Rightarrow> run_status option" where
  "status_of_payload (StatusChanged s) = Some s"
| "status_of_payload _ = None"

fun outcome_of_payload :: "payload \<Rightarrow> run_outcome option" where
  "outcome_of_payload (OutcomeEmitted out _) = Some out"
| "outcome_of_payload (StallDetected _) = Some Outcome_ABSTAINED"
| "outcome_of_payload _ = None"

definition statuses :: "payload list \<Rightarrow> run_status list" where
  "statuses ps = List.map_filter status_of_payload ps"

definition outcomes :: "payload list \<Rightarrow> run_outcome list" where
  "outcomes ps = List.map_filter outcome_of_payload ps"

lemma statuses_simps [simp]:
  "statuses [] = []"
  "statuses (p # ps) = (case status_of_payload p of None \<Rightarrow> statuses ps | Some s \<Rightarrow> s # statuses ps)"
  "statuses (ps @ qs) = statuses ps @ statuses qs"
  by (simp_all add: statuses_def List.map_filter_def split: option.split)

lemma outcomes_simps [simp]:
  "outcomes [] = []"
  "outcomes (p # ps) = (case outcome_of_payload p of None \<Rightarrow> outcomes ps | Some s \<Rightarrow> s # outcomes ps)"
  "outcomes (ps @ qs) = outcomes ps @ outcomes qs"
  by (simp_all add: outcomes_def List.map_filter_def split: option.split)

lemmas fold_handler_defs = fold_event_def fold_status_changed_def set_cell_status_def
  fold_evidence_recorded_def fold_recovery_transition_def fold_contract_proposed_def
  fold_graph_accepted_def Let_def

lemma fold_event_status:
  "fold_event s e =
     (case status_of_payload (ev_payload e) of
        Some to \<Rightarrow> if can_transition (status s) to then Inr (s\<lparr>status := to\<rparr>)
                   else Inl (IllegalReplay (status s) to (ev_seq e))
      | None \<Rightarrow> Inr (projr (fold_event s e)))"
  "status_of_payload (ev_payload e) = None \<Longrightarrow> status (projr (fold_event s e)) = status s"
  by (cases "ev_payload e"; simp add: fold_handler_defs)+

lemma fold_counted_status:
  "fold_counted s e = Inr s' \<Longrightarrow>
     (case status_of_payload (ev_payload e) of None \<Rightarrow> status s' = status s
      | Some to \<Rightarrow> can_transition (status s) to \<and> status s' = to)"
  using fold_event_status [where s = s and e = e]
  by (auto simp: fold_counted_def split: option.splits sum.splits if_splits)

lemma fold_counted_Inl:
  "fold_counted s e = Inl err \<longleftrightarrow>
     (\<exists>to. status_of_payload (ev_payload e) = Some to \<and> \<not> can_transition (status s) to \<and>
        err = IllegalReplay (status s) to (ev_seq e))"
  using fold_event_status [where s = s and e = e]
  by (auto simp: fold_counted_def split: option.splits sum.splits if_splits)

lemma fold_events_ok_iff:
  "(\<exists>s'. fold_events s es = Inr s') \<longleftrightarrow> legal_path (status s) (statuses (map ev_payload es))"
proof (induction es arbitrary: s)
  case Nil
  show ?case by simp
next
  case (Cons e es)
  show ?case
  proof (cases "fold_counted s e")
    case (Inl err)
    from this [unfolded fold_counted_Inl] show ?thesis by (auto simp: Inl)
  next
    case (Inr t)
    from fold_counted_status [OF Inr] Cons.IH [of t] Inr show ?thesis
      by (auto split: option.splits)
  qed
qed

lemma fold_events_status:
  "fold_events s es = Inr s' \<Longrightarrow> status s' = last (status s # statuses (map ev_payload es))"
proof (induction es arbitrary: s)
  case Nil
  then show ?case by simp
next
  case (Cons e es)
  then obtain t where t: "fold_counted s e = Inr t" "fold_events t es = Inr s'"
    by (auto split: sum.splits)
  from fold_counted_status [OF t(1)] Cons.IH [OF t(2)] show ?case
    by (auto split: option.splits)
qed

lemma fold_counted_book:
  "fold_counted s e = Inr t \<Longrightarrow> events_replayed t = Suc (events_replayed s) \<and>
     last_event_hash t = ev_hash_chain e \<and> rs_run_id t = rs_run_id s \<and>
     outcome t = (case outcome_of_payload (ev_payload e) of None \<Rightarrow> outcome s | Some x \<Rightarrow> Some x)"
  by (cases "ev_payload e") (auto simp: fold_counted_def fold_handler_defs split: if_splits)

lemma fold_events_book:
  "fold_events s es = Inr t \<Longrightarrow> events_replayed t = events_replayed s + length es \<and>
     last_event_hash t = last (last_event_hash s # map ev_hash_chain es) \<and>
     rs_run_id t = rs_run_id s \<and>
     outcome t = last (outcome s # map Some (outcomes (map ev_payload es)))"
proof (induction es arbitrary: s)
  case Nil
  then show ?case by simp
next
  case (Cons e es)
  then obtain u where u: "fold_counted s e = Inr u" "fold_events u es = Inr t"
    by (auto split: sum.splits)
  from fold_counted_book [OF u(1)] Cons.IH [OF u(2)] show ?case
    by (auto split: option.splits)
qed

subsection \<open>What a fold may change of the graph\<close>

text \<open>The parts of a cell that no event may rewrite.\<close>

definition cell_terms :: "graph_cell \<Rightarrow> graph_cell" where
  "cell_terms c = c\<lparr>gc_status := Cell_PENDING\<rparr>"

definition graph_terms :: "graph_version option \<Rightarrow> graph_version option" where
  "graph_terms = map_option (\<lambda>g. g\<lparr>gv_cells := map cell_terms (gv_cells g)\<rparr>)"

fun accepts_graph :: "payload \<Rightarrow> bool" where
  "accepts_graph (GraphAccepted _ _ _ _) = True"
| "accepts_graph _ = False"

lemma cell_terms_set_status [simp]:
  "map cell_terms (set_status_in cid st cs) = map cell_terms cs"
  by (simp add: set_status_in_def cell_terms_def)

lemma fold_counted_graph:
  "fold_counted s e = Inr t \<Longrightarrow> \<not> accepts_graph (ev_payload e) \<Longrightarrow>
     graph_terms (graph t) = graph_terms (graph s)"
  by (cases "ev_payload e")
    (auto simp: fold_counted_def fold_handler_defs graph_terms_def with_cell_status_def
        option.map_comp comp_def split: if_splits)

lemma fold_events_graph:
  "fold_events s es = Inr t \<Longrightarrow> list_all (\<lambda>e. \<not> accepts_graph (ev_payload e)) es \<Longrightarrow>
     graph_terms (graph t) = graph_terms (graph s)"
  by (induction es arbitrary: s) (auto split: sum.splits dest: fold_counted_graph)

lemma replay_result:
  "case replay_events r es of
     Inr s \<Rightarrow> legal_path INTAKE (statuses (map ev_payload es))
       \<and> status s = last (INTAKE # statuses (map ev_payload es))
       \<and> outcome s = last (None # map Some (outcomes (map ev_payload es)))
       \<and> events_replayed s = length es
       \<and> last_event_hash s = last ([] # map ev_hash_chain es)
   | Inl err \<Rightarrow> \<not> legal_path INTAKE (statuses (map ev_payload es))"
  using fold_events_ok_iff [of "initial_state r" es]
    fold_events_status [of "initial_state r" es] fold_events_book [of "initial_state r" es]
  by (auto simp: replay_events_def initial_state_def split: sum.split)

subsection \<open>Properties\<close>


text \<open>Once a graph is accepted, no later event of the run rewrites it: cells, contracts,
  dependencies, edges and milestones stay as accepted and only cell statuses move.\<close>

theorem accepted_graph_immutable:
  assumes "fold_events s es = Inr t"
    and "list_all (\<lambda>e. \<not> accepts_graph (ev_payload e)) es"
  shows "graph_terms (graph t) = graph_terms (graph s)"
  using assms by (rule fold_events_graph)

theorem accepted_graph_immutable_witness:
  "graph_terms (graph (projr (fold_events (initial_state ''r'')
     [\<lparr>ev_run_id = ''r'', ev_seq = 1, ev_payload = CellStarted ''c'' ''p'',
       ev_schema_version = 1, ev_timestamp = 0,
       ev_prev_hash = [], ev_hash_chain = ''h''\<rparr>]))) = None"
proof -
  let ?es = "[\<lparr>ev_run_id = ''r'', ev_seq = 1, ev_payload = CellStarted ''c'' ''p'',
       ev_schema_version = 1,
    ev_timestamp = 0, ev_prev_hash = [], ev_hash_chain = ''h''\<rparr>]"
  let ?t = "projr (fold_events (initial_state ''r'') ?es)"
  have ok: "fold_events (initial_state ''r'') ?es = Inr ?t"
    by (simp add: fold_counted_def fold_event_def)
  have "list_all (\<lambda>e. \<not> accepts_graph (ev_payload e)) ?es" by simp
  from accepted_graph_immutable [OF ok this] show ?thesis
    by (simp add: initial_state_def graph_terms_def)
qed

end
