(* ===== verification/Replay.thy ===== *)
theory Replay
  imports Projection
begin

section \<open>Replay and the projection cache (application/replay.py, projection_cache.py)\<close>

text \<open>
  The interface the read side has with storage is the locale \<open>event_store\<close>: a run's events
  come back in sequence order from 1 without gaps, a cursor read is a suffix, and an append
  adds one event at the end of its own run.  The cache's correctness is proved against that
  interface; the ledger theory interprets it.
\<close>

subsection \<open>The cache\<close>

type_synonym projection_cache = "run_id \<rightharpoonup> nat \<times> run_state"

definition cursor :: "projection_cache \<Rightarrow> run_id \<Rightarrow> nat" where
  "cursor c r = (case c r of None \<Rightarrow> 0 | Some (k, s) \<Rightarrow> k)"

definition cached_state :: "projection_cache \<Rightarrow> run_id \<Rightarrow> run_state option" where
  "cached_state c r = (case c r of None \<Rightarrow> None | Some (k, s) \<Rightarrow> Some s)"

definition project ::
  "projection_cache \<Rightarrow> run_id \<Rightarrow> event_envelope list
     \<Rightarrow> replay_error + (run_state \<times> projection_cache)" where
  "project c r tail =
     (let (k, base) = (case c r of None \<Rightarrow> (0, initial_state r) | Some entry \<Rightarrow> entry)
      in case fold_events base tail of
           Inl err \<Rightarrow> Inl err
         | Inr folded \<Rightarrow> Inr (folded, c(r \<mapsto> (k + length tail, folded))))"

definition invalidate :: "projection_cache \<Rightarrow> run_id \<Rightarrow> projection_cache" where
  "invalidate c r = c(r := None)"

subsection \<open>The storage interface\<close>

lemma filter_seq_drop:
  "map ev_seq es = [Suc k..<Suc (k + length es)] \<Longrightarrow>
     filter (\<lambda>e. k + j < ev_seq e) es = drop j es"
proof (induction es arbitrary: k j)
  case Nil
  then show ?case by simp
next
  case (Cons e es)
  from Cons.prems have e: "ev_seq e = Suc k"
    and es: "map ev_seq es = [Suc (Suc k)..<Suc (Suc k + length es)]"
    by (auto simp: upt_conv_Cons simp del: upt_Suc)
  show ?case
  proof (cases j)
    case 0
    have "\<forall>x \<in> set es. k < ev_seq x"
    proof
      fix x assume "x \<in> set es"
      then have "ev_seq x \<in> set (map ev_seq es)" by simp
      then show "k < ev_seq x" unfolding es by (simp del: upt_Suc)
    qed
    with 0 e show ?thesis by simp
  next
    case (Suc j')
    from Cons.IH [OF es, of j'] e Suc show ?thesis by simp
  qed
qed

locale event_store =
  fixes events :: "'l \<Rightarrow> run_id \<Rightarrow> 'e + event_envelope list"
    and events_since :: "'l \<Rightarrow> run_id \<Rightarrow> nat \<Rightarrow> nat \<Rightarrow> 'e + event_envelope list"
    and appended :: "run_id \<Rightarrow> event_envelope \<Rightarrow> 'l \<Rightarrow> 'l \<Rightarrow> bool"
    and ok :: "'l \<Rightarrow> bool"
  assumes seqs: "ok l \<Longrightarrow> events l r = Inr es \<Longrightarrow> map ev_seq es = [1..<Suc (length es)]"
    and since: "ok l \<Longrightarrow> events l r = Inr es \<Longrightarrow>
          events_since l r k n = Inr (take n (filter (\<lambda>e. k < ev_seq e) es))"
    and appended_ok: "ok l \<Longrightarrow> appended r e l l' \<Longrightarrow> ok l'"
    and appended_events: "ok l \<Longrightarrow> appended r e l l' \<Longrightarrow> events l r' = Inr es \<Longrightarrow>
          events l' r' = Inr (if r' = r then es @ [e] else es)"
begin

text \<open>A cache entry is coherent when it is the fold of a prefix of the run.\<close>

definition coherent :: "projection_cache \<Rightarrow> 'l \<Rightarrow> bool" where
  "coherent c l \<longleftrightarrow> (\<forall>r k s. c r = Some (k, s) \<longrightarrow>
     (\<exists>es. events l r = Inr es \<and> k \<le> length es \<and> replay_events r (take k es) = Inr s))"

lemma coherent_empty: "coherent Map.empty l"
  by (simp add: coherent_def)

lemma coherent_invalidate: "coherent c l \<Longrightarrow> coherent (invalidate c r) l"
  by (auto simp: coherent_def invalidate_def)

lemma since_drop:
  assumes "ok l" "events l r = Inr es"
  shows "events_since l r k n = Inr (take n (drop k es))"
proof -
  from seqs [OF assms] have "filter (\<lambda>e. 0 + k < ev_seq e) es = drop k es"
    by (intro filter_seq_drop) simp
  with since [OF assms] show ?thesis by simp
qed

lemma coherent_append:
  assumes "coherent c l" "ok l" "appended r e l l'"
  shows "coherent c l'"
  unfolding coherent_def
proof (intro allI impI)
  fix r' k s
  assume "c r' = Some (k, s)"
  with assms(1) obtain es where es: "events l r' = Inr es" "k \<le> length es"
    "replay_events r' (take k es) = Inr s"
    unfolding coherent_def by blast
  from appended_events [OF assms(2,3) es(1)] es(2,3)
  show "\<exists>es. events l' r' = Inr es \<and> k \<le> length es \<and> replay_events r' (take k es) = Inr s"
    by (cases "r' = r") auto
qed

text \<open>One poll: read the tail past the cursor, fold it onto the cached state.\<close>

lemma poll_prefix:
  assumes coh: "coherent c l" and ok: "ok l" and es: "events l r = Inr es"
    and tail: "events_since l r (cursor c r) n = Inr tail"
    and proj: "project c r tail = Inr (s, c')"
  shows "replay_events r (take (cursor c r + n) es) = Inr s \<and> coherent c' l"
proof -
  define k where "k = cursor c r"
  have tail': "tail = take n (drop k es)" using tail since_drop [OF ok es] by (simp add: k_def)
  obtain base where base: "replay_events r (take k es) = Inr base"
    and cr: "(case c r of None \<Rightarrow> (0, initial_state r) | Some entry \<Rightarrow> entry) = (k, base)"
    and k: "k \<le> length es"
  proof (cases "c r")
    case None
    then show ?thesis using that [of "initial_state r"] by (simp add: k_def cursor_def replay_events_def)
  next
    case (Some entry)
    obtain j b where "entry = (j, b)" by (cases entry)
    with Some coh es that [of b] show ?thesis
      by (fastforce simp: coherent_def k_def cursor_def)
  qed
  from proj cr have folded: "fold_events base tail = Inr s"
    and c': "c' = c(r \<mapsto> (k + length tail, s))"
    by (auto simp: project_def split: sum.splits)
  have "take (k + n) es = take k es @ tail" using tail' by (simp add: take_add)
  with base folded have full: "replay_events r (take (k + n) es) = Inr s"
    by (simp add: replay_events_def fold_events_append)
  have "take (k + length tail) es = take (k + n) es"
    using tail' by (simp add: min_def)
  then have "coherent c' l"
    using coh c' es full k tail' unfolding coherent_def by auto
  with full show ?thesis by (simp add: k_def)
qed

text \<open>Reading far enough gives the full replay.\<close>

lemma poll_complete:
  assumes "coherent c l" "ok l" "events l r = Inr es" "length es \<le> cursor c r + n"
    and "events_since l r (cursor c r) n = Inr tail" "project c r tail = Inr (s, c')"
  shows "replay_events r es = Inr s \<and> coherent c' l"
  using poll_prefix [OF assms(1-3,5,6)] assms(4) by simp

end

end
