(* ===== verification/Secrets_Policy.thy ===== *)
theory Secrets_Policy
  imports Prelude
begin

section \<open>Secret names, secret values and redaction (domain/secrets_policy.py)\<close>

text \<open>
  The regular expressions of the source are written as recursive matchers over characters.
  Characters are bytes: every byte of a non-ASCII character falls outside
  \<^verbatim>\<open>[A-Za-z0-9]\<close>, as the character itself does in the source, and runs of such bytes
  collapse to one underscore either way.  \<^verbatim>\<open>\<s>\<close> is matched on ASCII white space.
  The second part is the ledger's redaction of a payload (adapters/sqlite_ledger.py),
  which is what the classification is for.
\<close>

subsection \<open>Character classes\<close>

definition char_in :: "nat \<Rightarrow> nat \<Rightarrow> char \<Rightarrow> bool" where
  "char_in lo hi c \<longleftrightarrow> lo \<le> (of_char c :: nat) \<and> (of_char c :: nat) \<le> hi"

definition is_lower :: "char \<Rightarrow> bool" where "is_lower = char_in 97 122"
definition is_upper :: "char \<Rightarrow> bool" where "is_upper = char_in 65 90"
definition is_digit :: "char \<Rightarrow> bool" where "is_digit = char_in 48 57"

definition is_alpha :: "char \<Rightarrow> bool" where
  "is_alpha c \<longleftrightarrow> is_lower c \<or> is_upper c"

definition is_alnum :: "char \<Rightarrow> bool" where
  "is_alnum c \<longleftrightarrow> is_alpha c \<or> is_digit c"

definition is_space :: "char \<Rightarrow> bool" where
  "is_space c \<longleftrightarrow> (of_char c :: nat) \<in> {9, 10, 11, 12, 13, 28, 29, 30, 31, 32}"

definition to_lower :: "char \<Rightarrow> char" where
  "to_lower c = (if is_upper c then char_of ((of_char c :: nat) + 32) else c)"

definition casefold :: "string \<Rightarrow> string" where
  "casefold = map to_lower"

subsection \<open>Substring search\<close>

fun starts_with :: "string \<Rightarrow> string \<Rightarrow> bool" where
  "starts_with [] s = True"
| "starts_with (p # ps) [] = False"
| "starts_with (p # ps) (c # cs) = (p = c \<and> starts_with ps cs)"

definition ends_with :: "string \<Rightarrow> string \<Rightarrow> bool" where
  "ends_with suffix s \<longleftrightarrow> starts_with (rev suffix) (rev s)"

text \<open>\<^verbatim>\<open>pattern.search(s)\<close> for a matcher anchored at a position.\<close>

fun search :: "(string \<Rightarrow> bool) \<Rightarrow> string \<Rightarrow> bool" where
  "search m [] = m []"
| "search m (c # cs) = (m (c # cs) \<or> search m cs)"

lemma starts_with_iff: "starts_with p s \<longleftrightarrow> (\<exists>t. s = p @ t)"
  by (induction p s rule: starts_with.induct) auto

lemma ends_with_iff: "ends_with p s \<longleftrightarrow> (\<exists>t. s = t @ p)"
  unfolding ends_with_def starts_with_iff by (metis rev_append rev_rev_ident)

lemma search_iff: "search m s \<longleftrightarrow> (\<exists>u v. s = u @ v \<and> m v)"
proof (induction s)
  case Nil
  show ?case by simp
next
  case (Cons c cs)
  show ?case by (auto simp: Cons.IH Cons_eq_append_conv)
qed

subsection \<open>Sensitive names\<close>

definition sensitive_keywords :: "string list" where
  "sensitive_keywords = [''key'', ''token'', ''secret'', ''password'', ''passwd'', ''auth'',
     ''credential'', ''cookie'', ''signature'']"

definition sensitive_exact_names :: "string list" where
  "sensitive_exact_names = [''sig'']"

definition secret_fields :: "string list" where
  "secret_fields = [''api_key'', ''apikey'', ''secret'', ''password'', ''passwd'', ''pass'',
     ''token'', ''authorization'', ''auth'', ''private_key'', ''credentials'', ''credential'',
     ''cookie'', ''signature'', ''sig'']"

definition secret_suffixes :: "string list" where
  "secret_suffixes = [''_secret'', ''_password'', ''_passwd'', ''_passphrase'', ''_credential'',
     ''_credentials'', ''_cookie'', ''_signature'', ''_token'', ''_api_key'', ''_private_key'',
     ''_secret_key'', ''_access_key'']"

text \<open>\<^verbatim>\<open>re.sub(r"[^A-Za-z0-9]+", "_", name)\<close>: the flag says that an underscore for the
  current run has been written.\<close>

fun underscore_runs :: "bool \<Rightarrow> string \<Rightarrow> string" where
  "underscore_runs written [] = []"
| "underscore_runs written (c # cs) =
     (if is_alnum c then c # underscore_runs False cs
      else if written then underscore_runs True cs
      else CHR ''_'' # underscore_runs True cs)"

definition normalize_name :: "string \<Rightarrow> string" where
  "normalize_name = underscore_runs False"

text \<open>\<^verbatim>\<open>re.sub(r"([a-z0-9])([A-Z])", r"\1_\2", name)\<close>.  The second group is never the first
  group of the next match, so the scan may go on after it.\<close>

fun split_camel :: "string \<Rightarrow> string" where
  "split_camel (c # d # cs) =
     (if (is_lower c \<or> is_digit c) \<and> is_upper d
      then c # CHR ''_'' # d # split_camel cs
      else c # split_camel (d # cs))"
| "split_camel cs = cs"

definition strip_underscores :: "string \<Rightarrow> string" where
  "strip_underscores s =
     rev (dropWhile (\<lambda>c. c = CHR ''_'') (rev (dropWhile (\<lambda>c. c = CHR ''_'') s)))"

text \<open>The two alternatives of \<^verbatim>\<open>_SENSITIVE_PATTERNS\<close> on the case-folded name.  A keyword,
  then an optional \<^verbatim>\<open>s\<close>, then what the lookahead position must satisfy.\<close>

definition keyword_then :: "(string \<Rightarrow> bool) \<Rightarrow> string \<Rightarrow> bool" where
  "keyword_then rest s \<longleftrightarrow>
     list_ex (\<lambda>kw. starts_with kw s \<and>
       (let t = drop (length kw) s
        in (starts_with ''s'' t \<and> rest (tl t)) \<or> rest t)) sensitive_keywords"

definition word_end :: "string \<Rightarrow> bool" where
  "word_end t \<longleftrightarrow> t = [] \<or> starts_with ''_'' t"

text \<open>\<^verbatim>\<open>(?:^|_)(?:KW)S?(?:_|$)\<close>.\<close>

definition whole_word_keyword :: "string \<Rightarrow> bool" where
  "whole_word_keyword s \<longleftrightarrow>
     keyword_then word_end s \<or>
     search (\<lambda>v. case v of [] \<Rightarrow> False | c # cs \<Rightarrow> c = CHR ''_'' \<and> keyword_then word_end cs) s"

text \<open>\<^verbatim>\<open>[A-Za-z]+(?:KW)S?$\<close>.\<close>

definition suffix_keyword :: "string \<Rightarrow> bool" where
  "suffix_keyword s \<longleftrightarrow>
     search (\<lambda>v. case v of [] \<Rightarrow> False
       | c # cs \<Rightarrow> is_alpha c \<and> keyword_then (\<lambda>t. t = []) cs) s"

definition is_sensitive_name :: "string \<Rightarrow> bool" where
  "is_sensitive_name name \<longleftrightarrow>
     (let normalized = casefold (normalize_name name)
      in normalized \<in> set sensitive_exact_names \<or>
         whole_word_keyword normalized \<or> suffix_keyword normalized)"

definition is_secret_field_name :: "string \<Rightarrow> bool" where
  "is_secret_field_name name \<longleftrightarrow>
     (let normalized = casefold (strip_underscores (normalize_name (split_camel name)))
      in normalized \<in> set secret_fields \<or> list_ex (\<lambda>sfx. ends_with sfx normalized) secret_suffixes)"

definition is_sensitive_env_name :: "string \<Rightarrow> bool" where
  "is_sensitive_env_name = is_sensitive_name"

datatype env_error = SensitiveEnvName string

fun validate_env_allowlist_loop :: "string list \<Rightarrow> env_error option" where
  "validate_env_allowlist_loop [] = None"
| "validate_env_allowlist_loop (n # ns) =
     (if is_sensitive_env_name n then Some (SensitiveEnvName n)
      else validate_env_allowlist_loop ns)"

definition validate_env_allowlist :: "string list \<Rightarrow> env_error + string list" where
  "validate_env_allowlist names =
     (case validate_env_allowlist_loop names of Some e \<Rightarrow> Inl e | None \<Rightarrow> Inr names)"

subsection \<open>Secret values\<close>

text \<open>\<^verbatim>\<open>Bearer\s+\<close> ignoring case, and the three key prefixes.\<close>

definition bearer_at :: "string \<Rightarrow> bool" where
  "bearer_at s \<longleftrightarrow> starts_with ''bearer'' (casefold s) \<and>
     (case drop 6 s of [] \<Rightarrow> False | c # _ \<Rightarrow> is_space c)"

definition prefix_then_alnum :: "string \<Rightarrow> string \<Rightarrow> bool" where
  "prefix_then_alnum p s \<longleftrightarrow> starts_with p s \<and>
     (case drop (length p) s of [] \<Rightarrow> False | c # _ \<Rightarrow> is_alnum c)"

definition looks_like_secret_value :: "string \<Rightarrow> bool" where
  "looks_like_secret_value v \<longleftrightarrow>
     search bearer_at v \<or> search (prefix_then_alnum ''sk-'') v \<or>
     search (prefix_then_alnum ''ghp_'') v \<or> search (prefix_then_alnum ''gho_'') v"

text \<open>A text without white space, hyphen or \<^verbatim>\<open>gh\<close> cannot have such a shape.\<close>

definition plain_word :: "string \<Rightarrow> bool" where
  "plain_word v \<longleftrightarrow> list_all (\<lambda>c. \<not> is_space c \<and> c \<noteq> CHR ''-'') v \<and> \<not> search (starts_with ''gh'') v"

lemma search_prefix: "search (prefix_then_alnum p) v \<Longrightarrow> \<exists>u w. v = u @ p @ w"
  unfolding search_iff prefix_then_alnum_def starts_with_iff by blast

lemma plain_word_not_secret:
  assumes "plain_word v"
  shows "\<not> looks_like_secret_value v"
proof -
  have bearer: "\<not> search bearer_at v"
  proof
    assume "search bearer_at v"
    then obtain u w where v: "v = u @ w" and b: "bearer_at w" by (auto simp: search_iff)
    from b obtain c cs where c: "drop 6 w = c # cs" "is_space c"
      by (auto simp: bearer_at_def split: list.splits)
    then have "c \<in> set w" by (metis in_set_dropD list.set_intros(1))
    with assms v c(2) show False by (auto simp: plain_word_def list_all_iff)
  qed
  have "CHR ''-'' \<notin> set v" using assms by (auto simp: plain_word_def list_all_iff)
  then have sk: "\<not> search (prefix_then_alnum ''sk-'') v"
    by (auto dest!: search_prefix)
  have "\<not> search (prefix_then_alnum (''gh'' @ p)) v" for p
  proof
    assume "search (prefix_then_alnum (''gh'' @ p)) v"
    then obtain u w where "v = u @ ''gh'' @ w" using search_prefix by fastforce
    then have "search (starts_with ''gh'') v" unfolding search_iff starts_with_iff by blast
    with assms show False by (simp add: plain_word_def)
  qed
  from this [of "''p_''"] this [of "''o_''"] have "\<not> search (prefix_then_alnum ''ghp_'') v"
    "\<not> search (prefix_then_alnum ''gho_'') v" by simp_all
  with bearer sk show ?thesis by (simp add: looks_like_secret_value_def)
qed

subsection \<open>Redaction of a payload (adapters/sqlite_ledger.py)\<close>

definition redacted :: string where
  "redacted = ''[REDACTED]''"

text \<open>\<^verbatim>\<open>_redact_recursive\<close>; a dumped payload has no tuples.\<close>

fun redact :: "json \<Rightarrow> json" where
  "redact (JObj kvs) = JObj (map (\<lambda>(k, v).
      (k, if is_secret_field_name k
             \<or> (case v of JStr s \<Rightarrow> looks_like_secret_value s | _ \<Rightarrow> False)
          then JStr redacted else redact v)) kvs)"
| "redact (JArr xs) = JArr (map (\<lambda>item.
      if (case item of JStr s \<Rightarrow> looks_like_secret_value s | _ \<Rightarrow> False)
      then JStr redacted else redact item) xs)"
| "redact (JStr s) = (if looks_like_secret_value s then JStr redacted else JStr s)"
| "redact v = v"

text \<open>\<^verbatim>\<open>_redact_payload\<close>.\<close>

definition redact_payload :: "(string \<times> json) list \<Rightarrow> (string \<times> json) list" where
  "redact_payload kvs = (case redact (JObj kvs) of JObj kvs' \<Rightarrow> kvs' | _ \<Rightarrow> kvs)"

text \<open>What a stored value must satisfy: no string in it looks like a credential, and a field
  with a secret name holds the marker.\<close>

fun clean :: "json \<Rightarrow> bool" where
  "clean (JObj kvs) = (\<forall>(k, v) \<in> set kvs. (is_secret_field_name k \<longrightarrow> v = JStr redacted) \<and> clean v)"
| "clean (JArr xs) = (\<forall>x \<in> set xs. clean x)"
| "clean (JStr s) = (\<not> looks_like_secret_value s)"
| "clean v = True"

lemma redacted_not_secret [simp]: "\<not> looks_like_secret_value redacted"
  by (rule plain_word_not_secret) code_simp

lemma redact_clean: "clean (redact j)"
proof (induction j rule: redact.induct)
  case (1 kvs)
  then show ?case by (auto split: prod.splits json.splits)
next
  case (2 xs)
  then show ?case by (auto split: json.splits)
qed auto

lemma clean_redact_id: "clean j \<Longrightarrow> redact j = j"
proof (induction j rule: redact.induct)
  case (1 kvs)
  have "(k, if is_secret_field_name k
              \<or> (case v of JStr s \<Rightarrow> looks_like_secret_value s | _ \<Rightarrow> False)
            then JStr redacted else redact v) = (k, v)" if "(k, v) \<in> set kvs" for k v
    using "1.prems" "1.IH" [OF that] that by (cases v) fastforce+
  then show ?case by (auto intro!: map_idI)
next
  case (2 xs)
  have "(if (case x of JStr s \<Rightarrow> looks_like_secret_value s | _ \<Rightarrow> False)
            then JStr redacted else redact x) = x" if "x \<in> set xs" for x
    using "2.prems" "2.IH" [OF that] that by (cases x) fastforce+
  then show ?case by (auto intro!: map_idI)
qed auto

lemma redact_payload_obj: "JObj (redact_payload kvs) = redact (JObj kvs)"
  by (simp add: redact_payload_def)

lemma redact_payload_keys [simp]: "map fst (redact_payload kvs) = map fst kvs"
  by (induction kvs) (auto simp: redact_payload_def)

subsection \<open>Properties\<close>

text \<open>C18: redaction is complete and stable: whatever the nesting, the redacted payload holds no
  string of a recognised credential shape and only the marker under a secret field name, it
  keeps every key in its place, and redacting again changes nothing.\<close>

theorem redaction_complete:
  "clean (JObj (redact_payload kvs)) \<and> map fst (redact_payload kvs) = map fst kvs
     \<and> redact_payload (redact_payload kvs) = redact_payload kvs"
proof -
  have c: "clean (JObj (redact_payload kvs))" by (simp only: redact_payload_obj redact_clean)
  then have "JObj (redact_payload (redact_payload kvs)) = JObj (redact_payload kvs)"
    by (simp only: redact_payload_obj [of "redact_payload kvs"] clean_redact_id)
  with c show ?thesis by simp
qed

lemma validate_env_allowlist_loop_None:
  "validate_env_allowlist_loop ns = None \<longleftrightarrow> (\<forall>n \<in> set ns. \<not> is_sensitive_env_name n)"
  by (induction ns) auto

lemma validate_env_allowlist_loop_Some:
  "validate_env_allowlist_loop ns = Some (SensitiveEnvName n) \<Longrightarrow>
     n \<in> set ns \<and> is_sensitive_env_name n"
  by (induction ns) (auto split: if_splits)

lemma validate_env_allowlist_correct:
  "case validate_env_allowlist names of
     Inr ns \<Rightarrow> ns = names \<and> list_all (\<lambda>n. \<not> is_sensitive_env_name n) names
   | Inl (SensitiveEnvName n) \<Rightarrow> n \<in> set names \<and> is_sensitive_env_name n"
  by (auto simp: validate_env_allowlist_def validate_env_allowlist_loop_None list_all_iff
      split: option.splits env_error.splits dest: validate_env_allowlist_loop_Some)

end
