(* ===== verification/Ledger.thy ===== *)
theory Ledger
  imports Replay Secrets_Policy
begin

section \<open>The append-only ledger (adapters/sqlite_ledger.py)\<close>

text \<open>
  The two SQLite tables are a list of rows in rowid order and a list of tombstones; a method
  runs under the in-process lock inside one transaction, so it is one function from ledger to
  ledger, and a raise (rollback) returns no ledger.  A stored text is what \<^verbatim>\<open>json.loads\<close>
  yields on it.

  Not under src/ and so an argument (\<open>codec\<close>): pydantic's dump and validation of a payload,
  and \<^verbatim>\<open>sha256\<close> of the canonical dump.  \<open>codec_ok\<close> states what the ledger relies on:
  a dump names its kind and version, validation needs both and does not depend on key order.
\<close>

record codec =
  dump :: "payload \<Rightarrow> int \<Rightarrow> (string \<times> json) list"
  parse :: "(string \<times> json) list \<Rightarrow> (payload \<times> int) option"
  sha :: "json \<Rightarrow> string"
  upcasters :: upcaster_registry

subsection \<open>Canonical JSON\<close>

text \<open>The value a \<^verbatim>\<open>json.dumps(..., sort_keys=True)\<close> text denotes.\<close>

fun canonical :: "json \<Rightarrow> json" where
  "canonical (JObj kvs) = JObj (sort_key fst (map (\<lambda>(k, v). (k, canonical v)) kvs))"
| "canonical (JArr xs) = JArr (map canonical xs)"
| "canonical v = v"

definition canonical_obj :: "(string \<times> json) list \<Rightarrow> (string \<times> json) list" where
  "canonical_obj kvs = sort_key fst (map (\<lambda>(k, v). (k, canonical v)) kvs)"

lemma canonical_JObj [simp]: "canonical (JObj kvs) = JObj (canonical_obj kvs)"
  by (simp add: canonical_obj_def)

declare canonical.simps(1) [simp del]

lemma map_of_filter_key: "map_of kvs k = map_of (filter (\<lambda>kv. fst kv = k) kvs) k"
  by (induction kvs) auto

lemma map_of_sort_key: "map_of (sort_key fst kvs) k = map_of kvs k"
proof -
  have "filter (\<lambda>kv. fst kv = k) (sort_key fst kvs) = filter (\<lambda>kv. fst kv = k) kvs"
    by (rule sort_key_stable)
  then show ?thesis
    using map_of_filter_key [of kvs k] map_of_filter_key [of "sort_key fst kvs" k] by simp
qed

lemma obj_get_canonical: "obj_get (canonical_obj kvs) k = map_option canonical (obj_get kvs k)"
  by (simp add: obj_get_def canonical_obj_def map_of_sort_key map_of_map)

lemma insort_key_map_snd:
  "map (\<lambda>(k, v). (k, f v)) (insort_key fst x ys)
     = insort_key fst (fst x, f (snd x)) (map (\<lambda>(k, v). (k, f v)) ys)"
  by (induction ys) (auto split: prod.splits)

lemma sort_key_map_snd:
  "map (\<lambda>(k, v). (k, f v)) (sort_key fst kvs) = sort_key fst (map (\<lambda>(k, v). (k, f v)) kvs)"
  by (induction kvs) (auto simp: insort_key_map_snd split: prod.splits)

lemma sort_key_twice: "sort_key fst (sort_key fst kvs) = sort_key fst kvs"
  by (simp add: sort_key_id_if_sorted)

lemma canonical_idem [simp]: "canonical (canonical j) = canonical j"
proof (induction j rule: canonical.induct)
  case (1 kvs)
  let ?g = "\<lambda>(k, v). (k, canonical v)"
  have g: "map ?g (map ?g kvs) = map ?g kvs"
    using 1 by (auto simp: map_eq_conv)
  have "map ?g (sort_key fst (map ?g kvs)) = sort_key fst (map ?g kvs)"
    by (simp only: sort_key_map_snd g)
  then show ?case by (simp add: canonical.simps sort_key_twice del: map_map canonical_JObj)
qed auto

lemma canonical_obj_idem [simp]: "canonical_obj (canonical_obj kvs) = canonical_obj kvs"
  using canonical_idem [of "JObj kvs"] by (simp only: canonical_JObj json.inject)

subsection \<open>Rows\<close>

datatype stored_text = Text_json json | Text_not_json | Text_bad_encoding

record row =
  row_run :: run_id
  row_seq :: nat
  row_kind :: string
  row_payload :: stored_text
  row_version :: int
  row_timestamp :: rat
  row_prev :: string
  row_hash :: string

record ledger =
  rows :: "row list"  \<comment> \<open>in rowid order\<close>
  tombstones :: "(run_id \<times> rat) list"
  closed :: bool

definition MAX_SCHEMA_VERSION :: int where
  "MAX_SCHEMA_VERSION = CURRENT_SCHEMA_VERSION"

definition DATABASE_SCHEMA_VERSION :: int where
  "DATABASE_SCHEMA_VERSION = 1"

datatype ledger_error =
    BusyTimeoutNegative
  | UnsupportedDatabaseSchema int
  | LedgerClosed
  | SchemaVersionTooNew int
  | FirstSeqNotOne run_id nat
  | SeqNotMonotonic nat nat
  | HashChainBroken string string
  | PayloadRejected
  | Corrupt ledger_corruption

text \<open>\<^verbatim>\<open>Ledger.__init__\<close> on a database whose \<^verbatim>\<open>user_version\<close> is \<open>version\<close> and whose
  tables hold the given rows: the open is refused for a newer schema, else the schema is
  created if absent and the version raised.\<close>

definition open_ledger ::
  "rat \<Rightarrow> int \<Rightarrow> row list \<Rightarrow> (run_id \<times> rat) list \<Rightarrow> ledger_error + (ledger \<times> int)" where
  "open_ledger busy_timeout version rs ts =
     (if busy_timeout < 0 then Inl BusyTimeoutNegative
      else if version > DATABASE_SCHEMA_VERSION then Inl (UnsupportedDatabaseSchema version)
      else Inr (\<lparr>rows = rs, tombstones = ts, closed = False\<rparr>,
                if version < DATABASE_SCHEMA_VERSION then DATABASE_SCHEMA_VERSION else version))"

text \<open>\<^verbatim>\<open>SELECT * FROM events WHERE run_id = ? ORDER BY seq\<close>.\<close>

definition run_rows :: "ledger \<Rightarrow> run_id \<Rightarrow> row list" where
  "run_rows l r = sort_key row_seq (filter (\<lambda>w. row_run w = r) (rows l))"

definition prev_event :: "ledger \<Rightarrow> run_id \<Rightarrow> row option" where
  "prev_event l r = (if run_rows l r = [] then None else Some (last (run_rows l r)))"

definition compute_hash ::
  "codec \<Rightarrow> run_id \<Rightarrow> nat \<Rightarrow> string \<Rightarrow> (string \<times> json) list \<Rightarrow> string \<Rightarrow> int \<Rightarrow> rat \<Rightarrow> string" where
  "compute_hash cx r seq kind kvs prev version ts =
     sha cx (canonical (JObj
       [(''run_id'', JStr r), (''seq'', JInt (int seq)), (''kind'', JStr kind),
        (''payload'', JObj kvs), (''prev_hash'', JStr prev),
        (''schema_version'', JInt version), (''timestamp'', JFloat ts)]))"

subsection \<open>Reading a row\<close>

definition parse_row :: "codec \<Rightarrow> row \<Rightarrow> ledger_corruption + (payload \<times> int)" where
  "parse_row cx w =
     (case parse_event_kind (row_kind w) of
        None \<Rightarrow> Inl (UnknownEventKind (row_seq w) (row_kind w))
      | Some kind \<Rightarrow>
          (case row_payload w of
             Text_not_json \<Rightarrow> Inl (PayloadNotJson (row_seq w) (row_kind w))
           | Text_bad_encoding \<Rightarrow> Inl (PayloadNotJson (row_seq w) (row_kind w))
           | Text_json j \<Rightarrow>
               (case j of
                  JObj data \<Rightarrow>
                    if obj_get data ''kind'' = None
                    then Inl (PredatesCatalog (row_seq w) (row_kind w))
                    else (case upcast (upcasters cx) kind data (row_seq w) of
                            Inl e \<Rightarrow> Inl e
                          | Inr data' \<Rightarrow>
                              (case parse cx data' of
                                 None \<Rightarrow> Inl (PayloadInvalid (row_seq w) (row_kind w))
                               | Some pv \<Rightarrow> Inr pv))
                | _ \<Rightarrow> Inl (PayloadNotObject (row_seq w) (row_kind w)))))"

definition row_to_event :: "codec \<Rightarrow> row \<Rightarrow> ledger_error + event_envelope" where
  "row_to_event cx w =
     (case parse_row cx w of
        Inl e \<Rightarrow> Inl (Corrupt e)
      | Inr (p, v) \<Rightarrow> Inr \<lparr>ev_run_id = row_run w, ev_seq = row_seq w, ev_payload = p,
          ev_schema_version = v, ev_timestamp = row_timestamp w, ev_prev_hash = row_prev w,
          ev_hash_chain = row_hash w\<rparr>)"

text \<open>\<^verbatim>\<open>[self._row_to_event(r) for r in rows]\<close>: the first corrupt row raises.\<close>

fun rows_to_events :: "codec \<Rightarrow> row list \<Rightarrow> ledger_error + event_envelope list" where
  "rows_to_events cx [] = Inr []"
| "rows_to_events cx (w # ws) =
     (case row_to_event cx w of
        Inl e \<Rightarrow> Inl e
      | Inr ev \<Rightarrow> (case rows_to_events cx ws of Inl e \<Rightarrow> Inl e | Inr evs \<Rightarrow> Inr (ev # evs)))"

definition ledger_events :: "codec \<Rightarrow> ledger \<Rightarrow> run_id \<Rightarrow> ledger_error + event_envelope list" where
  "ledger_events cx l r =
     (if closed l then Inl LedgerClosed else rows_to_events cx (run_rows l r))"

definition events_since ::
  "codec \<Rightarrow> ledger \<Rightarrow> run_id \<Rightarrow> nat \<Rightarrow> nat \<Rightarrow> ledger_error + event_envelope list" where
  "events_since cx l r since limit =
     (if closed l then Inl LedgerClosed
      else rows_to_events cx (take limit (filter (\<lambda>w. since < row_seq w) (run_rows l r))))"

text \<open>\<^verbatim>\<open>replay_run\<close> (application/replay.py).\<close>

definition replay_run :: "codec \<Rightarrow> ledger \<Rightarrow> run_id \<Rightarrow> ledger_error + (replay_error + run_state)" where
  "replay_run cx l r =
     (case ledger_events cx l r of Inl e \<Rightarrow> Inl e | Inr es \<Rightarrow> Inr (replay_events r es))"

subsection \<open>Appending\<close>

definition store :: "codec \<Rightarrow> event_envelope \<Rightarrow> ledger \<Rightarrow> ledger_error + (event_envelope \<times> ledger)" where
  "store cx ev l =
     (if ev_schema_version ev > MAX_SCHEMA_VERSION
      then Inl (SchemaVersionTooNew (ev_schema_version ev))
      else
       (let payload = redact_payload (dump cx (ev_payload ev) (ev_schema_version ev));
            checked =
              (case prev_event l (ev_run_id ev) of
                 None \<Rightarrow> if ev_seq ev \<noteq> 1 then Inl (FirstSeqNotOne (ev_run_id ev) (ev_seq ev))
                         else Inr []
               | Some prev \<Rightarrow>
                   if ev_seq ev \<noteq> row_seq prev + 1
                   then Inl (SeqNotMonotonic (row_seq prev + 1) (ev_seq ev))
                   else if ev_prev_hash ev \<noteq> [] \<and> ev_prev_hash ev \<noteq> row_hash prev
                   then Inl (HashChainBroken (row_hash prev) (ev_prev_hash ev))
                   else Inr (row_hash prev))
        in case checked of
             Inl e \<Rightarrow> Inl e
           | Inr prev_hash \<Rightarrow>
              (let stored_hash = compute_hash cx (ev_run_id ev) (ev_seq ev)
                     (event_kind_value (ev_kind ev)) payload prev_hash (ev_schema_version ev)
                     (ev_timestamp ev)
               in case parse cx payload of
                    None \<Rightarrow> Inl PayloadRejected
                  | Some (p, v) \<Rightarrow>
                      (let persisted = ev\<lparr>ev_payload := p, ev_schema_version := v,
                             ev_prev_hash := prev_hash, ev_hash_chain := stored_hash\<rparr>;
                           w = \<lparr>row_run = ev_run_id ev, row_seq = ev_seq ev,
                             row_kind = event_kind_value (ev_kind persisted),
                             row_payload = Text_json (canonical (JObj payload)),
                             row_version = v, row_timestamp = ev_timestamp ev,
                             row_prev = prev_hash, row_hash = stored_hash\<rparr>
                       in Inr (persisted, l\<lparr>rows := rows l @ [w]\<rparr>)))))"

definition append :: "codec \<Rightarrow> event_envelope \<Rightarrow> ledger \<Rightarrow> ledger_error + (event_envelope \<times> ledger)" where
  "append cx ev l = (if closed l then Inl LedgerClosed else store cx ev l)"

text \<open>\<open>now\<close> is the envelope's \<^verbatim>\<open>time.time\<close> default.\<close>

definition append_next ::
  "codec \<Rightarrow> rat \<Rightarrow> run_id \<Rightarrow> payload \<Rightarrow> int \<Rightarrow> ledger \<Rightarrow> ledger_error + (event_envelope \<times> ledger)" where
  "append_next cx now r p v l =
     (if closed l then Inl LedgerClosed
      else (let prev = prev_event l r
            in store cx \<lparr>ev_run_id = r,
                 ev_seq = (case prev of None \<Rightarrow> 1 | Some w \<Rightarrow> row_seq w + 1),
                 ev_payload = p, ev_schema_version = v, ev_timestamp = now,
                 ev_prev_hash = (case prev of None \<Rightarrow> [] | Some w \<Rightarrow> row_hash w),
                 ev_hash_chain = []\<rparr> l))"

text \<open>\<^verbatim>\<open>EventStream.emit\<close> (events/stream.py): no ledger is a no-op.\<close>

definition emit ::
  "codec \<Rightarrow> rat \<Rightarrow> run_id \<Rightarrow> payload \<Rightarrow> ledger option
     \<Rightarrow> ledger_error + (event_envelope option \<times> ledger option)" where
  "emit cx now r p lo =
     (case lo of None \<Rightarrow> Inr (None, None)
      | Some l \<Rightarrow> (case append_next cx now r p CURRENT_SCHEMA_VERSION l of
                    Inl e \<Rightarrow> Inl e | Inr (ev, l') \<Rightarrow> Inr (Some ev, Some l')))"

subsection \<open>Tombstones and close\<close>

text \<open>\<^verbatim>\<open>INSERT OR IGNORE\<close>.\<close>

definition tombstone_run :: "rat \<Rightarrow> run_id \<Rightarrow> ledger \<Rightarrow> ledger_error + ledger" where
  "tombstone_run now r l =
     (if closed l then Inl LedgerClosed
      else if r \<in> fst ` set (tombstones l) then Inr l
      else Inr (l\<lparr>tombstones := tombstones l @ [(r, now)]\<rparr>))"

definition tombstoned_run_ids :: "ledger \<Rightarrow> ledger_error + run_id set" where
  "tombstoned_run_ids l = (if closed l then Inl LedgerClosed else Inr (fst ` set (tombstones l)))"

definition close_ledger :: "ledger \<Rightarrow> ledger" where
  "close_ledger l = l\<lparr>closed := True\<rparr>"

end
