(* ===== verification/Ledger_Integrity.thy ===== *)
theory Ledger_Integrity
  imports Ledger
begin

section \<open>Integrity of the ledger (adapters/sqlite_ledger.py)\<close>

text \<open>
  \<^verbatim>\<open>verify_integrity\<close> and \<^verbatim>\<open>list_runs\<close>, the invariant every sequence of appends keeps, what
  an accepted chain commits to, and the ledger as an instance of the storage interface of
  the read side.
\<close>

subsection \<open>verify_integrity\<close>

datatype error_category =
    Cat_prev_hash | Cat_payload_encoding | Cat_payload_json | Cat_payload_type
  | Cat_hash_mismatch | Cat_event_schema

record integrity_result =
  ir_ok :: bool
  events_checked :: nat
  error_at_seq :: "nat option"
  ir_category :: "error_category option"

definition broken_at :: "nat \<Rightarrow> row \<Rightarrow> error_category \<Rightarrow> integrity_result" where
  "broken_at i w c = \<lparr>ir_ok = False, events_checked = i, error_at_seq = Some (row_seq w),
     ir_category = Some c\<rparr>"

text \<open>The loop over the rows: \<open>i\<close> rows checked so far, \<open>prev\<close> the hash of the last one.\<close>

fun verify_rows :: "codec \<Rightarrow> nat \<Rightarrow> string \<Rightarrow> row list \<Rightarrow> integrity_result" where
  "verify_rows cx i prev [] =
     \<lparr>ir_ok = True, events_checked = i, error_at_seq = None, ir_category = None\<rparr>"
| "verify_rows cx i prev (w # ws) =
     (if row_prev w \<noteq> prev then broken_at i w Cat_prev_hash
      else case row_payload w of
        Text_bad_encoding \<Rightarrow> broken_at i w Cat_payload_encoding
      | Text_not_json \<Rightarrow> broken_at i w Cat_payload_json
      | Text_json j \<Rightarrow>
          (case j of
             JObj kvs \<Rightarrow>
               if compute_hash cx (row_run w) (row_seq w) (row_kind w) kvs (row_prev w)
                    (row_version w) (row_timestamp w) \<noteq> row_hash w
               then broken_at i w Cat_hash_mismatch
               else (case parse_row cx w of
                       Inl e \<Rightarrow> broken_at i w Cat_event_schema
                     | Inr pv \<Rightarrow> verify_rows cx (Suc i) (row_hash w) ws)
           | _ \<Rightarrow> broken_at i w Cat_payload_type))"

definition verify_integrity :: "codec \<Rightarrow> ledger \<Rightarrow> run_id \<Rightarrow> ledger_error + integrity_result" where
  "verify_integrity cx l r =
     (if closed l then Inl LedgerClosed else Inr (verify_rows cx 0 [] (run_rows l r)))"

subsection \<open>list_runs\<close>

record run_summary =
  sum_run_id :: run_id
  sum_status :: string
  sum_outcome :: "run_outcome option"
  start_time :: rat
  last_event_time :: rat
  event_count :: nat

fun as_status :: "payload \<Rightarrow> run_status option" where
  "as_status (StatusChanged s) = Some s"
| "as_status _ = None"

fun as_outcome :: "payload \<Rightarrow> run_outcome option" where
  "as_outcome (OutcomeEmitted out _) = Some out"
| "as_outcome _ = None"

definition typed_payload :: "codec \<Rightarrow> (payload \<Rightarrow> 'a option) \<Rightarrow> row \<Rightarrow> ledger_corruption + 'a" where
  "typed_payload cx expected w =
     (case parse_row cx w of
        Inl e \<Rightarrow> Inl e
      | Inr (p, v) \<Rightarrow>
          (case expected p of
             None \<Rightarrow> Inl (UnexpectedPayload (row_seq w) (row_kind w) (payload_kind p))
           | Some x \<Rightarrow> Inr x))"

text \<open>The scan of one kind's rows, newest sequence number first: the first row of a run wins.\<close>

fun latest_of ::
  "codec \<Rightarrow> (payload \<Rightarrow> 'a option) \<Rightarrow> row list \<Rightarrow> (run_id \<rightharpoonup> 'a) \<Rightarrow> ledger_corruption + (run_id \<rightharpoonup> 'a)" where
  "latest_of cx expected [] m = Inr m"
| "latest_of cx expected (w # ws) m =
     (if m (row_run w) \<noteq> None then latest_of cx expected ws m
      else case typed_payload cx expected w of
        Inl e \<Rightarrow> Inl e
      | Inr x \<Rightarrow> latest_of cx expected ws (m(row_run w \<mapsto> x)))"

definition kind_rows_desc :: "ledger \<Rightarrow> event_kind \<Rightarrow> run_id list \<Rightarrow> row list" where
  "kind_rows_desc l k ids =
     rev (sort_key row_seq (filter (\<lambda>w. row_kind w = event_kind_value k \<and> row_run w \<in> set ids)
        (rows l)))"

text \<open>The grouped query: runs with events and no tombstone, by last rowid descending.\<close>

definition listed_ids :: "nat \<Rightarrow> nat \<Rightarrow> ledger \<Rightarrow> run_id list" where
  "listed_ids limit offset l =
     take limit (drop offset (rev (remdups
       (filter (\<lambda>r. r \<notin> fst ` set (tombstones l)) (map row_run (rows l))))))"

definition summarize ::
  "ledger \<Rightarrow> (run_id \<rightharpoonup> run_status) \<Rightarrow> (run_id \<rightharpoonup> run_outcome) \<Rightarrow> run_id \<Rightarrow> run_summary" where
  "summarize l sts outs r =
     (let ws = filter (\<lambda>w. row_run w = r) (rows l)
      in \<lparr>sum_run_id = r,
          sum_status = (case sts r of None \<Rightarrow> ''unknown'' | Some s \<Rightarrow> status_value s),
          sum_outcome = outs r,
          start_time = Min (row_timestamp ` set ws),
          last_event_time = Max (row_timestamp ` set ws),
          event_count = length ws\<rparr>)"

definition list_runs :: "codec \<Rightarrow> nat \<Rightarrow> nat \<Rightarrow> ledger \<Rightarrow> ledger_error + run_summary list" where
  "list_runs cx limit offset l =
     (if closed l then Inl LedgerClosed
      else let ids = listed_ids limit offset l
           in if ids = [] then Inr []
              else case latest_of cx as_status (kind_rows_desc l STATUS_CHANGED ids) Map.empty of
                Inl e \<Rightarrow> Inl (Corrupt e)
              | Inr sts \<Rightarrow>
                  (case latest_of cx as_outcome (kind_rows_desc l OUTCOME_EMITTED ids) Map.empty of
                     Inl e \<Rightarrow> Inl (Corrupt e)
                   | Inr outs \<Rightarrow> Inr (map (summarize l sts outs) ids)))"

subsection \<open>What the ledger relies on\<close>

definition codec_ok :: "codec \<Rightarrow> bool" where
  "codec_ok cx \<longleftrightarrow>
     (\<forall>p v. obj_get (dump cx p v) ''kind'' = Some (JStr (event_kind_value (payload_kind p))) \<and>
            obj_get (dump cx p v) ''schema_version'' = Some (JInt v)) \<and>
     (\<forall>kvs p v. parse cx kvs = Some (p, v) \<longrightarrow>
            obj_get kvs ''kind'' = Some (JStr (event_kind_value (payload_kind p))) \<and>
            declared_version kvs = Some v \<and> 1 \<le> v) \<and>
     (\<forall>kvs. parse cx (canonical_obj kvs) = parse cx kvs)"

lemma codec_okD:
  assumes "codec_ok cx"
  shows "obj_get (dump cx p v) ''kind'' = Some (JStr (event_kind_value (payload_kind p)))"
    and "obj_get (dump cx p v) ''schema_version'' = Some (JInt v)"
    and "parse cx kvs = Some (p, v) \<Longrightarrow>
           obj_get kvs ''kind'' = Some (JStr (event_kind_value (payload_kind p))) \<and>
           declared_version kvs = Some v \<and> 1 \<le> v"
    and "parse cx (canonical_obj kvs) = parse cx kvs"
  using assms by (simp_all add: codec_ok_def)

subsection \<open>The invariant of a chain\<close>

definition row_good :: "codec \<Rightarrow> row \<Rightarrow> bool" where
  "row_good cx w \<longleftrightarrow>
     (\<exists>kvs p v. row_payload w = Text_json (JObj kvs) \<and> parse cx kvs = Some (p, v) \<and>
        v \<le> MAX_SCHEMA_VERSION \<and> row_kind w = event_kind_value (payload_kind p) \<and>
        row_version w = v \<and>
        row_hash w = compute_hash cx (row_run w) (row_seq w) (row_kind w) kvs (row_prev w)
          (row_version w) (row_timestamp w))"

fun chain_from :: "codec \<Rightarrow> nat \<Rightarrow> string \<Rightarrow> row list \<Rightarrow> bool" where
  "chain_from cx n prev [] = True"
| "chain_from cx n prev (w # ws) =
     (row_seq w = n \<and> row_prev w = prev \<and> row_good cx w \<and> chain_from cx (Suc n) (row_hash w) ws)"

definition ledger_ok :: "codec \<Rightarrow> ledger \<Rightarrow> bool" where
  "ledger_ok cx l \<longleftrightarrow> (\<forall>r. chain_from cx 1 [] (filter (\<lambda>w. row_run w = r) (rows l)))"

lemma chain_from_snoc:
  "chain_from cx n prev (ws @ [w]) \<longleftrightarrow>
     chain_from cx n prev ws \<and> row_seq w = n + length ws \<and>
     row_prev w = last (prev # map row_hash ws) \<and> row_good cx w"
  by (induction ws arbitrary: n prev) auto

lemma chain_from_seqs: "chain_from cx n prev ws \<Longrightarrow> map row_seq ws = [n..<n + length ws]"
proof (induction ws arbitrary: n prev)
  case Nil
  then show ?case by simp
next
  case (Cons w ws)
  from Cons.IH [of "Suc n" "row_hash w"] Cons.prems
  have "map row_seq ws = [Suc n..<Suc n + length ws]" by (simp del: upt_Suc)
  moreover have "[n..<n + length (w # ws)] = n # [Suc n..<Suc n + length ws]"
    by (simp add: upt_conv_Cons del: upt_Suc)
  ultimately show ?case using Cons.prems by (simp del: upt_Suc)
qed

lemma chain_sorted: "chain_from cx n prev ws \<Longrightarrow> sort_key row_seq ws = ws"
  by (rule sort_key_id_if_sorted) (simp add: chain_from_seqs)

lemma run_rows_ok: "ledger_ok cx l \<Longrightarrow> run_rows l r = filter (\<lambda>w. row_run w = r) (rows l)"
  unfolding ledger_ok_def run_rows_def using chain_sorted by blast

lemma run_rows_chain: "ledger_ok cx l \<Longrightarrow> chain_from cx 1 [] (run_rows l r)"
  by (simp add: run_rows_ok) (simp add: ledger_ok_def)

lemma parse_row_good:
  assumes "codec_ok cx" "row_good cx w"
  shows "\<exists>p v. parse_row cx w = Inr (p, v) \<and> row_kind w = event_kind_value (payload_kind p)"
proof -
  from assms(2) obtain kvs p v where w: "row_payload w = Text_json (JObj kvs)"
    "parse cx kvs = Some (p, v)" "v \<le> MAX_SCHEMA_VERSION"
    "row_kind w = event_kind_value (payload_kind p)"
    by (auto simp: row_good_def)
  from codec_okD(3) [OF assms(1) w(2)] w(3)
  have "obj_get kvs ''kind'' \<noteq> None" "declared_version kvs = Some 1"
    by (auto simp: MAX_SCHEMA_VERSION_def CURRENT_SCHEMA_VERSION_def)
  with w have "parse_row cx w = Inr (p, v)"
    by (simp add: parse_row_def upcast_current)
  with w(4) show ?thesis by blast
qed

lemma rows_to_events_chain:
  assumes "codec_ok cx"
  shows "chain_from cx n prev ws \<Longrightarrow>
    \<exists>es. rows_to_events cx ws = Inr es \<and> map ev_seq es = map row_seq ws"
proof (induction ws arbitrary: n prev)
  case Nil
  show ?case by simp
next
  case (Cons w ws)
  then obtain es where es: "rows_to_events cx ws = Inr es" "map ev_seq es = map row_seq ws"
    by auto
  from Cons.prems have "row_good cx w" by simp
  from parse_row_good [OF assms this] obtain p v where "parse_row cx w = Inr (p, v)" by blast
  with es show ?case by (simp add: row_to_event_def)
qed

lemma verify_rows_chain:
  assumes "codec_ok cx"
  shows "chain_from cx n prev ws \<Longrightarrow> verify_rows cx i prev ws =
    \<lparr>ir_ok = True, events_checked = i + length ws, error_at_seq = None, ir_category = None\<rparr>"
proof (induction ws arbitrary: n prev i)
  case Nil
  show ?case by simp
next
  case (Cons w ws)
  from Cons.prems have g: "row_good cx w" and p: "row_prev w = prev" by simp_all
  from parse_row_good [OF assms g] obtain q v where "parse_row cx w = Inr (q, v)" by blast
  with g p Cons.prems Cons.IH [of "Suc n" "row_hash w" "Suc i"] show ?case
    by (auto simp: row_good_def)
qed

subsection \<open>Appends keep the invariant\<close>

lemma obj_get_redact:
  "obj_get (redact_payload kvs) k =
     map_option (\<lambda>v. if is_secret_field_name k
                        \<or> (case v of JStr s \<Rightarrow> looks_like_secret_value s | _ \<Rightarrow> False)
                     then JStr redacted else redact v) (obj_get kvs k)"
  by (induction kvs) (auto simp: obj_get_def redact_payload_def)

lemma kind_not_secret [simp]:
  "\<not> is_secret_field_name ''kind''" "\<not> is_secret_field_name ''schema_version''"
  by code_simp+

lemma event_kind_not_secret [simp]: "\<not> looks_like_secret_value (event_kind_value k)"
proof -
  have "list_all (\<lambda>k. plain_word (event_kind_value k)) all_event_kinds"
    by code_simp
  then have "plain_word (event_kind_value k)" by (simp add: list_all_iff)
  then show ?thesis by (rule plain_word_not_secret)
qed

lemma event_kind_value_inj: "event_kind_value a = event_kind_value b \<Longrightarrow> a = b"
  by (metis parse_event_kind_value option.inject)

lemma redacted_dump_parse:
  assumes "codec_ok cx" "parse cx (redact_payload (dump cx p v)) = Some (p', v')"
  shows "payload_kind p' = payload_kind p \<and> v' = v"
proof -
  have "obj_get (redact_payload (dump cx p v)) ''kind''
      = Some (JStr (event_kind_value (payload_kind p)))"
    by (simp add: obj_get_redact codec_okD(1) [OF assms(1)])
  moreover have "declared_version (redact_payload (dump cx p v)) = Some v"
    by (simp add: declared_version_def obj_get_redact codec_okD(2) [OF assms(1)] int_of_json_def)
  ultimately show ?thesis
    using codec_okD(3) [OF assms] by (auto dest: event_kind_value_inj)
qed

lemma compute_hash_canonical [simp]:
  "compute_hash cx r n k (canonical_obj kvs) prev v ts = compute_hash cx r n k kvs prev v ts"
proof -
  have "canonical (JObj (canonical_obj kvs)) = canonical (JObj kvs)" by simp
  then show ?thesis
    unfolding compute_hash_def canonical.simps(1) [of "_ # _"] list.map prod.case by (simp only:)
qed

lemma prev_event_ok:
  assumes "ledger_ok cx l"
  shows "(case prev_event l r of None \<Rightarrow> run_rows l r = []
          | Some w \<Rightarrow> run_rows l r \<noteq> [] \<and> row_seq w = length (run_rows l r) \<and>
              row_hash w = last ([] # map row_hash (run_rows l r)))"
proof (cases "run_rows l r = []")
  case True
  then show ?thesis by (simp add: prev_event_def)
next
  case False
  have "map row_seq (run_rows l r) = [1..<1 + length (run_rows l r)]"
    by (rule chain_from_seqs [OF run_rows_chain [OF assms]])
  with False have "row_seq (last (run_rows l r)) = length (run_rows l r)"
    by (metis last_map last_upt add_diff_cancel_left' less_add_same_cancel1 length_greater_0_conv)
  with False show ?thesis by (simp add: prev_event_def last_map)
qed

text \<open>What a successful store appends.\<close>

lemma store_Inr:
  assumes "codec_ok cx" "ledger_ok cx l" "store cx ev l = Inr (pe, l')"
  obtains w where "l' = l\<lparr>rows := rows l @ [w]\<rparr>" "row_run w = ev_run_id ev"
    and "row_seq w = Suc (length (run_rows l (ev_run_id ev)))"
    and "row_prev w = last ([] # map row_hash (run_rows l (ev_run_id ev)))"
    and "row_good cx w" "row_to_event cx w = Inr pe"
proof -
  let ?r = "ev_run_id ev"
  define payload where
    "payload = redact_payload (dump cx (ev_payload ev) (ev_schema_version ev))"
  define prev where "prev = last ([] # map row_hash (run_rows l ?r))"
  from assms(3) have v: "ev_schema_version ev \<le> MAX_SCHEMA_VERSION"
    by (auto simp: store_def split: if_splits)
  from assms(3) v prev_event_ok [OF assms(2), of ?r]
  obtain p v' where parse: "parse cx payload = Some (p, v')"
    and seq: "ev_seq ev = Suc (length (run_rows l ?r))"
    and pe: "pe = ev\<lparr>ev_payload := p, ev_schema_version := v', ev_prev_hash := prev,
        ev_hash_chain := compute_hash cx ?r (ev_seq ev) (event_kind_value (ev_kind ev)) payload
          prev (ev_schema_version ev) (ev_timestamp ev)\<rparr>"
    and l': "l' = l\<lparr>rows := rows l @ [\<lparr>row_run = ?r, row_seq = ev_seq ev,
        row_kind = event_kind_value (ev_kind pe),
        row_payload = Text_json (canonical (JObj payload)), row_version = v',
        row_timestamp = ev_timestamp ev, row_prev = prev, row_hash = ev_hash_chain pe\<rparr>]\<rparr>"
    by (auto simp: store_def Let_def payload_def prev_def split: if_splits option.splits)
  from redacted_dump_parse [OF assms(1) parse [unfolded payload_def]]
  have k: "payload_kind p = ev_kind ev" and v': "v' = ev_schema_version ev"
    by (simp_all add: ev_kind_def)
  define w where "w = \<lparr>row_run = ?r, row_seq = ev_seq ev,
        row_kind = event_kind_value (ev_kind pe),
        row_payload = Text_json (canonical (JObj payload)), row_version = v',
        row_timestamp = ev_timestamp ev, row_prev = prev, row_hash = ev_hash_chain pe\<rparr>"
  have parse': "parse cx (canonical_obj payload) = Some (p, v')"
    using parse codec_okD(4) [OF assms(1)] by simp
  have kind: "ev_kind pe = ev_kind ev" using pe k by (simp add: ev_kind_def)
  have good: "row_good cx w"
    unfolding row_good_def
    by (rule exI [of _ "canonical_obj payload"], rule exI [of _ p], rule exI [of _ v'])
      (use parse' v v' k kind pe in \<open>simp add: w_def ev_kind_def\<close>)
  from codec_okD(3) [OF assms(1) parse'] v v'
  have "obj_get (canonical_obj payload) ''kind'' \<noteq> None"
    "declared_version (canonical_obj payload) = Some 1" "v' = 1"
    by (auto simp: MAX_SCHEMA_VERSION_def CURRENT_SCHEMA_VERSION_def)
  with parse' kind k have "row_to_event cx w = Inr pe"
    by (simp add: row_to_event_def parse_row_def w_def upcast_current pe v')
  with l' seq good show thesis by (intro that [of w]) (simp_all add: w_def prev_def)
qed

lemma run_rows_append:
  assumes "ledger_ok cx l" "ledger_ok cx (l\<lparr>rows := rows l @ [w]\<rparr>)"
  shows "run_rows (l\<lparr>rows := rows l @ [w]\<rparr>) r
    = (if row_run w = r then run_rows l r @ [w] else run_rows l r)"
  using assms by (simp add: run_rows_ok)

lemma store_ok:
  assumes "codec_ok cx" "ledger_ok cx l" "store cx ev l = Inr (pe, l')"
  shows "ledger_ok cx l'"
proof -
  from store_Inr [OF assms] obtain w where w: "l' = l\<lparr>rows := rows l @ [w]\<rparr>"
    "row_run w = ev_run_id ev" "row_seq w = Suc (length (run_rows l (ev_run_id ev)))"
    "row_prev w = last ([] # map row_hash (run_rows l (ev_run_id ev)))" "row_good cx w"
    by blast
  have "chain_from cx 1 [] (filter (\<lambda>x. row_run x = r) (rows l'))" for r
  proof (cases "r = row_run w")
    case True
    with w run_rows_chain [OF assms(2), of r] run_rows_ok [OF assms(2), of r]
    show ?thesis by (simp add: chain_from_snoc)
  next
    case False
    with w assms(2) show ?thesis by (auto simp: ledger_ok_def)
  qed
  then show ?thesis by (simp add: ledger_ok_def)
qed

text \<open>Every operation of the ledger as a step.\<close>

inductive ledger_step :: "codec \<Rightarrow> ledger \<Rightarrow> ledger \<Rightarrow> bool" where
  append: "append cx ev l = Inr (pe, l') \<Longrightarrow> ledger_step cx l l'"
| append_next: "append_next cx now r p v l = Inr (pe, l') \<Longrightarrow> ledger_step cx l l'"
| tombstone: "tombstone_run now r l = Inr l' \<Longrightarrow> ledger_step cx l l'"
| close: "ledger_step cx l (close_ledger l)"

definition empty_ledger :: ledger where
  "empty_ledger = \<lparr>rows = [], tombstones = [], closed = False\<rparr>"

lemma append_store: "append cx ev l = Inr x \<Longrightarrow> store cx ev l = Inr x"
  by (simp add: append_def split: if_splits)

lemma append_next_store:
  assumes "append_next cx now r p v l = Inr x"
  shows "\<exists>ev. ev_run_id ev = r \<and> store cx ev l = Inr x"
  using assms by (simp add: append_next_def Let_def split: if_splits) (rule exI, rule conjI [rotated], assumption, simp)

lemma tombstone_rows: "tombstone_run now r l = Inr l' \<Longrightarrow> rows l' = rows l \<and> closed l' = closed l"
  by (auto simp: tombstone_run_def split: if_splits)

lemma ledger_step_ok: "ledger_step cx l l' \<Longrightarrow> codec_ok cx \<Longrightarrow> ledger_ok cx l \<Longrightarrow> ledger_ok cx l'"
proof (induction rule: ledger_step.induct)
  case (append cx ev l pe l')
  then show ?case by (blast intro: store_ok dest: append_store)
next
  case (append_next cx now r p v l pe l')
  then show ?case by (blast intro: store_ok dest: append_next_store)
next
  case (tombstone now r l l' cx)
  then show ?case by (simp add: ledger_ok_def tombstone_rows)
next
  case (close cx l)
  then show ?case by (simp add: ledger_ok_def close_ledger_def)
qed

lemma ledger_reachable_ok:
  "(ledger_step cx)\<^sup>*\<^sup>* empty_ledger l \<Longrightarrow> codec_ok cx \<Longrightarrow> ledger_ok cx l"
proof (induction rule: rtranclp_induct)
  case base
  show ?case by (simp add: ledger_ok_def empty_ledger_def)
next
  case (step y z)
  then show ?case by (blast intro: ledger_step_ok)
qed

subsection \<open>The ledger as the read side's store\<close>

lemma rows_to_events_Inr_append:
  "rows_to_events cx ws = Inr es \<Longrightarrow> row_to_event cx w = Inr e \<Longrightarrow>
     rows_to_events cx (ws @ [w]) = Inr (es @ [e])"
  by (induction ws arbitrary: es) (auto split: sum.splits)

lemma rows_to_events_take:
  "rows_to_events cx ws = Inr es \<Longrightarrow> rows_to_events cx (take n ws) = Inr (take n es)"
  by (induction ws arbitrary: es n) (auto split: sum.splits nat.splits simp: take_Cons')

lemma rows_to_events_filter:
  "rows_to_events cx ws = Inr es \<Longrightarrow>
     rows_to_events cx (filter (\<lambda>w. k < row_seq w) ws) = Inr (filter (\<lambda>e. k < ev_seq e) es)"
  by (induction ws arbitrary: es) (auto split: sum.splits simp: row_to_event_def)

lemma ledger_reads_back:
  assumes "codec_ok cx" "ledger_ok cx l"
  shows "\<exists>es. rows_to_events cx (run_rows l r) = Inr es \<and> map ev_seq es = [1..<Suc (length es)]"
proof -
  from rows_to_events_chain [OF assms(1) run_rows_chain [OF assms(2), of r]]
  obtain es where es: "rows_to_events cx (run_rows l r) = Inr es"
    "map ev_seq es = map row_seq (run_rows l r)" by blast
  then have "length es = length (run_rows l r)" by (metis length_map)
  with es chain_from_seqs [OF run_rows_chain [OF assms(2), of r]] show ?thesis by simp
qed

text \<open>The store's state is the codec with the ledger; a step of the store is one
  \<^verbatim>\<open>append_next\<close> by whoever holds the ledger.\<close>

fun store_events :: "codec \<times> ledger \<Rightarrow> run_id \<Rightarrow> ledger_error + event_envelope list" where
  "store_events (cx, l) r = ledger_events cx l r"

fun store_since :: "codec \<times> ledger \<Rightarrow> run_id \<Rightarrow> nat \<Rightarrow> nat \<Rightarrow> ledger_error + event_envelope list" where
  "store_since (cx, l) r k n = events_since cx l r k n"

fun store_appended :: "run_id \<Rightarrow> event_envelope \<Rightarrow> codec \<times> ledger \<Rightarrow> codec \<times> ledger \<Rightarrow> bool" where
  "store_appended r e (cx, l) (cx', l') =
     (cx' = cx \<and> (\<exists>now p v. append_next cx now r p v l = Inr (e, l')))"

fun store_invariant :: "codec \<times> ledger \<Rightarrow> bool" where
  "store_invariant (cx, l) = (codec_ok cx \<and> ledger_ok cx l)"

lemma append_next_events:
  assumes "codec_ok cx" "ledger_ok cx l" "append_next cx now r p v l = Inr (e, l')"
    and "ledger_events cx l r' = Inr es"
  shows "ledger_events cx l' r' = Inr (if r' = r then es @ [e] else es)"
proof -
  from append_next_store [OF assms(3)]
  obtain ev where ev: "ev_run_id ev = r" "store cx ev l = Inr (e, l')" by blast
  from store_Inr [OF assms(1,2) ev(2)] ev(1)
  obtain w where w: "l' = l\<lparr>rows := rows l @ [w]\<rparr>" "row_run w = r" "row_to_event cx w = Inr e"
    by metis
  have ok': "ledger_ok cx l'" by (rule store_ok [OF assms(1,2) ev(2)])
  from assms(4) have open_l: "\<not> closed l" and es: "rows_to_events cx (run_rows l r') = Inr es"
    by (simp_all add: ledger_events_def split: if_splits)
  have "run_rows l' r' = (if r' = r then run_rows l r' @ [w] else run_rows l r')"
    using run_rows_append [OF assms(2), of w r'] ok' w by auto
  moreover have "\<not> closed l'" using open_l w(1) by simp
  ultimately show ?thesis
    using es rows_to_events_Inr_append [OF es w(3)]
    by (cases "r' = r") (simp_all add: ledger_events_def)
qed

interpretation ledger_store: event_store store_events store_since store_appended store_invariant
proof
  fix l r es
  assume ok: "store_invariant l" and es: "store_events l r = Inr es"
  obtain cx lg where l: "l = (cx, lg)" by (cases l)
  with ok es ledger_reads_back [of cx lg r] show "map ev_seq es = [1..<Suc (length es)]"
    by (auto simp: ledger_events_def split: if_splits)
next
  fix l r es k n
  assume "store_invariant l" and "store_events l r = Inr es"
  then show "store_since l r k n = Inr (take n (filter (\<lambda>e. k < ev_seq e) es))"
    by (cases l) (auto simp: ledger_events_def events_since_def rows_to_events_filter
        rows_to_events_take split: if_splits)
next
  fix l r e l'
  assume "store_invariant l" and "store_appended r e l l'"
  then show "store_invariant l'"
    by (cases l; cases l') (auto dest!: append_next_store intro: store_ok)
next
  fix l r e l' r' es
  assume "store_invariant l" and "store_appended r e l l'" and "store_events l r' = Inr es"
  then show "store_events l' r' = Inr (if r' = r then es @ [e] else es)"
    by (cases l; cases l') (auto dest: append_next_events)
qed

subsection \<open>What an accepted chain commits to\<close>

definition row_accepted :: "codec \<Rightarrow> row \<Rightarrow> bool" where
  "row_accepted cx w \<longleftrightarrow>
     (case row_payload w of
        Text_json (JObj kvs) \<Rightarrow>
          compute_hash cx (row_run w) (row_seq w) (row_kind w) kvs (row_prev w)
            (row_version w) (row_timestamp w) = row_hash w
          \<and> (\<exists>pv. parse_row cx w = Inr pv)
      | _ \<Rightarrow> False)"

lemma verify_rows_Cons:
  "ir_ok (verify_rows cx i prev (w # ws)) \<longleftrightarrow>
     row_prev w = prev \<and> row_accepted cx w \<and> ir_ok (verify_rows cx (Suc i) (row_hash w) ws)"
  by (auto simp: broken_at_def row_accepted_def split: stored_text.splits json.splits sum.splits)

lemma verify_rows_snoc:
  "ir_ok (verify_rows cx i prev (ws @ [w])) \<longleftrightarrow>
     ir_ok (verify_rows cx i prev ws) \<and> row_prev w = last (prev # map row_hash ws)
     \<and> row_accepted cx w"
  by (induction ws arbitrary: i prev) (auto simp: verify_rows_Cons simp del: verify_rows.simps(2))

text \<open>The record a row's hash is taken of.\<close>

definition hashed_record :: "row \<Rightarrow> json" where
  "hashed_record w = canonical (JObj
     [(''run_id'', JStr (row_run w)), (''seq'', JInt (int (row_seq w))), (''kind'', JStr (row_kind w)),
      (''payload'', (case row_payload w of Text_json j \<Rightarrow> j | _ \<Rightarrow> JNull)),
      (''prev_hash'', JStr (row_prev w)), (''schema_version'', JInt (row_version w)),
      (''timestamp'', JFloat (row_timestamp w))])"

text \<open>Rows that say the same: every column equal, the payload up to JSON key order.\<close>

definition same_row :: "row \<Rightarrow> row \<Rightarrow> bool" where
  "same_row a b \<longleftrightarrow>
     (case (row_payload a, row_payload b) of
        (Text_json j, Text_json k) \<Rightarrow> canonical j = canonical k
      | _ \<Rightarrow> False)
     \<and> a\<lparr>row_payload := Text_not_json\<rparr> = b\<lparr>row_payload := Text_not_json\<rparr>"

lemma row_accepted_hash: "row_accepted cx w \<Longrightarrow> row_hash w = sha cx (hashed_record w)"
  by (auto simp: row_accepted_def compute_hash_def hashed_record_def
      split: stored_text.splits json.splits)

lemma hashed_record_eq:
  assumes "row_accepted cx a" "row_accepted cx b" "row_hash a = row_hash b"
    "hashed_record a = hashed_record b"
  shows "same_row a b"
proof -
  let ?get = "\<lambda>w k. case hashed_record w of JObj kvs \<Rightarrow> obj_get kvs k | _ \<Rightarrow> None"
  from assms(4) have eq: "?get a k = ?get b k" for k by simp
  from eq [of "''run_id''"] eq [of "''seq''"] eq [of "''kind''"] eq [of "''payload''"]
    eq [of "''prev_hash''"] eq [of "''schema_version''"] eq [of "''timestamp''"] assms(1-3)
  show ?thesis
    unfolding hashed_record_def canonical_JObj json.case obj_get_canonical
    by (cases a; cases b; cases "row_payload a"; cases "row_payload b")
      (auto simp: same_row_def row_accepted_def obj_get_def)
qed

lemma chain_commits:
  assumes nonempty: "\<And>j. sha cx j \<noteq> []"
    and inj: "inj_on (sha cx) (hashed_record ` (set ws \<union> set ws'))"
    and "ir_ok (verify_rows cx 0 [] ws)" "ir_ok (verify_rows cx 0 [] ws')"
    and "last ([] # map row_hash ws) = last ([] # map row_hash ws')"
  shows "list_all2 same_row ws ws'"
  using assms(2-)
proof (induction ws arbitrary: ws' rule: rev_induct)
  case Nil
  show ?case
  proof (cases ws' rule: rev_cases)
    case (snoc us u)
    with Nil.prems(3) have "row_hash u = sha cx (hashed_record u)"
      by (simp add: verify_rows_snoc row_accepted_hash)
    with Nil.prems(4) nonempty [of "hashed_record u"] snoc show ?thesis by simp
  qed simp
next
  case (snoc w ws)
  from snoc.prems(2) have w: "ir_ok (verify_rows cx 0 [] ws)" "row_accepted cx w"
    "row_prev w = last ([] # map row_hash ws)"
    unfolding verify_rows_snoc by simp_all
  from row_accepted_hash [OF w(2)] nonempty snoc.prems(4) have "ws' \<noteq> []" by auto
  then obtain us u where ws': "ws' = us @ [u]" by (cases ws' rule: rev_cases) auto
  from snoc.prems(3) have u: "ir_ok (verify_rows cx 0 [] us)" "row_accepted cx u"
    "row_prev u = last ([] # map row_hash us)"
    unfolding ws' verify_rows_snoc by simp_all
  from snoc.prems(4) ws' have h: "row_hash w = row_hash u" by simp
  with row_accepted_hash [OF w(2)] row_accepted_hash [OF u(2)]
  have "sha cx (hashed_record w) = sha cx (hashed_record u)" by simp
  with inj_onD [OF snoc.prems(1), of "hashed_record w" "hashed_record u"] ws'
  have "hashed_record w = hashed_record u" by simp
  from hashed_record_eq [OF w(2) u(2) h this] have same: "same_row w u" .
  then have "row_prev w = row_prev u" unfolding same_row_def by (cases w; cases u) auto
  with w(3) u(3) have heads: "last ([] # map row_hash ws) = last ([] # map row_hash us)" by simp
  have "inj_on (sha cx) (hashed_record ` (set ws \<union> set us))"
    using snoc.prems(1) ws' by (auto intro: inj_on_subset)
  from snoc.IH [OF this w(1) u(1) heads] same ws' show ?case by (simp add: list_all2_appendI)
qed

end
