(* ===== verification/Ledger_Properties.thy ===== *)
theory Ledger_Properties
  imports Ledger_Integrity
begin

section \<open>What the ledger guarantees\<close>

text \<open>
  The properties of the ledger and of its two readers (the projection cache and the run
  list), with a small concrete codec that satisfies \<open>codec_ok\<close>.
\<close>

subsection \<open>The run list reads the last status\<close>

lemma row_to_event_payload:
  "row_to_event cx w = Inr e \<Longrightarrow> row_good cx w \<Longrightarrow> codec_ok cx \<Longrightarrow>
     (\<exists>v. parse_row cx w = Inr (ev_payload e, v)) \<and> row_kind w = event_kind_value (payload_kind (ev_payload e))"
  using parse_row_good [of cx w] by (auto simp: row_to_event_def)

lemma typed_payload_good:
  assumes "codec_ok cx" "row_good cx w" "row_to_event cx w = Inr e"
  shows "typed_payload cx f w = (case f (ev_payload e) of
           None \<Rightarrow> Inl (UnexpectedPayload (row_seq w) (row_kind w) (payload_kind (ev_payload e)))
         | Some x \<Rightarrow> Inr x)"
  using row_to_event_payload [OF assms(3,2,1)] by (auto simp: typed_payload_def)

lemma latest_of_spec:
  "latest_of cx f ws m = Inr m' \<Longrightarrow>
     m' r = (case m r of Some x \<Rightarrow> Some x
             | None \<Rightarrow> (case filter (\<lambda>w. row_run w = r) ws of [] \<Rightarrow> None
                        | w # _ \<Rightarrow> Some (projr (typed_payload cx f w))))"
proof (induction ws arbitrary: m)
  case Nil
  then show ?case by (simp split: option.split)
next
  case (Cons w ws)
  show ?case
  proof (cases "m (row_run w)")
    case None
    with Cons.prems obtain x where x: "typed_payload cx f w = Inr x"
      "latest_of cx f ws (m(row_run w \<mapsto> x)) = Inr m'"
      by (auto split: sum.splits)
    from Cons.IH [OF x(2)] x(1) None show ?thesis by (auto split: option.splits)
  next
    case (Some y)
    with Cons.prems Cons.IH [of m] show ?thesis by (auto split: option.splits)
  qed
qed

lemma kind_rows_of_run:
  assumes "r \<in> set ids"
  shows "filter (\<lambda>w. row_run w = r) (kind_rows_desc l k ids)
     = rev (filter (\<lambda>w. row_kind w = event_kind_value k) (run_rows l r))"
proof -
  have "filter (\<lambda>w. row_run w = r)
        (filter (\<lambda>w. row_kind w = event_kind_value k \<and> row_run w \<in> set ids) (rows l))
      = filter (\<lambda>w. row_kind w = event_kind_value k) (filter (\<lambda>w. row_run w = r) (rows l))"
    using assms by (auto intro: filter_cong)
  then show ?thesis
    by (simp add: kind_rows_desc_def run_rows_def rev_filter [symmetric] filter_sort)
qed

lemma kind_filter_statuses:
  assumes "codec_ok cx"
  shows "list_all (row_good cx) ws \<Longrightarrow> rows_to_events cx ws = Inr es \<Longrightarrow>
     map (\<lambda>w. projr (typed_payload cx as_status w))
       (filter (\<lambda>w. row_kind w = event_kind_value STATUS_CHANGED) ws)
     = statuses (map ev_payload es)"
proof (induction ws arbitrary: es)
  case Nil
  then show ?case by simp
next
  case (Cons w ws)
  then obtain e es' where e: "row_to_event cx w = Inr e" "rows_to_events cx ws = Inr es'"
    "es = e # es'" by (auto split: sum.splits)
  from Cons.prems have g: "row_good cx w" by simp
  from row_to_event_payload [OF e(1) g assms]
  have k: "row_kind w = event_kind_value (payload_kind (ev_payload e))" by blast
  have "(row_kind w = event_kind_value STATUS_CHANGED) = (payload_kind (ev_payload e) = STATUS_CHANGED)"
    using k event_kind_value_inj by metis
  moreover have "map (\<lambda>w. projr (typed_payload cx as_status w))
       (filter (\<lambda>w. row_kind w = event_kind_value STATUS_CHANGED) ws)
     = statuses (map ev_payload es')"
    using Cons e(2) by simp
  ultimately show ?case
    using typed_payload_good [OF assms g e(1), of as_status] e(3)
    by (cases "ev_payload e") simp_all
qed

lemma chain_good: "chain_from cx n prev ws \<Longrightarrow> list_all (row_good cx) ws"
  by (induction ws arbitrary: n prev) auto

lemma latest_status:
  assumes "codec_ok cx" "ledger_ok cx l" "r \<in> set ids"
    and "latest_of cx as_status (kind_rows_desc l STATUS_CHANGED ids) Map.empty = Inr m"
    and "rows_to_events cx (run_rows l r) = Inr es"
  shows "m r = (if statuses (map ev_payload es) = [] then None
                else Some (last (statuses (map ev_payload es))))"
proof -
  let ?ws = "filter (\<lambda>w. row_kind w = event_kind_value STATUS_CHANGED) (run_rows l r)"
  have s: "map (\<lambda>w. projr (typed_payload cx as_status w)) ?ws = statuses (map ev_payload es)"
    by (rule kind_filter_statuses [OF assms(1) chain_good [OF run_rows_chain [OF assms(2)]] assms(5)])
  from latest_of_spec [OF assms(4), of r] kind_rows_of_run [OF assms(3), of l STATUS_CHANGED]
  have "m r = (case rev ?ws of [] \<Rightarrow> None | w # _ \<Rightarrow> Some (projr (typed_payload cx as_status w)))"
    by simp
  then show ?thesis
    unfolding s [symmetric] by (cases ?ws rule: rev_cases) simp_all
qed

subsection \<open>A codec\<close>

text \<open>Two event kinds suffice to exercise the ledger.\<close>

definition status_named :: "string \<Rightarrow> run_status option" where
  "status_named v = find (\<lambda>s. status_value s = v)
     [INTAKE, CONTRACTED, PLANNED, EXECUTING, VERIFYING, VERIFIED, ABSTAINED, FAILED]"

definition field_str :: "(string \<times> json) list \<Rightarrow> string \<Rightarrow> string option" where
  "field_str kvs k = (case obj_get kvs k of Some (JStr s) \<Rightarrow> Some s | _ \<Rightarrow> None)"

definition field_int :: "(string \<times> json) list \<Rightarrow> string \<Rightarrow> int option" where
  "field_int kvs k = (case obj_get kvs k of Some (JInt i) \<Rightarrow> Some i | _ \<Rightarrow> None)"

lemma field_canonical [simp]:
  "field_str (canonical_obj kvs) k = field_str kvs k"
  "field_int (canonical_obj kvs) k = field_int kvs k"
  by (auto simp: field_str_def field_int_def obj_get_canonical split: option.split json.split)

lemma field_Some:
  "field_str kvs k = Some s \<longleftrightarrow> obj_get kvs k = Some (JStr s)"
  "field_int kvs k = Some i \<longleftrightarrow> obj_get kvs k = Some (JInt i)"
  by (auto simp: field_str_def field_int_def split: option.split json.split)

definition small_codec :: codec where
  "small_codec = \<lparr>
     dump = (\<lambda>p v. [(''kind'', JStr (event_kind_value (payload_kind p))),
        (''schema_version'', JInt v),
        (''status'', case p of StatusChanged s \<Rightarrow> JStr (status_value s) | _ \<Rightarrow> JNull)]),
     parse = (\<lambda>kvs.
       Option.bind (field_int kvs ''schema_version'') (\<lambda>v.
       if v < 1 then None
       else if field_str kvs ''kind'' = Some ''run_created'' then Some (RunCreated, v)
       else if field_str kvs ''kind'' = Some ''status_changed''
       then map_option (\<lambda>s. (StatusChanged s, v)) (Option.bind (field_str kvs ''status'') status_named)
       else None)),
     sha = (\<lambda>j. case j of
        JObj kvs \<Rightarrow> (case (obj_get kvs ''run_id'', obj_get kvs ''seq'', obj_get kvs ''prev_hash'') of
           (Some (JStr r), Some (JInt n), Some (JStr p)) \<Rightarrow> ''#'' @ show_int n @ p | _ \<Rightarrow> ''#'')
      | _ \<Rightarrow> ''#''),
     upcasters = no_upcasters\<rparr>"

lemma small_codec_ok: "codec_ok small_codec"
  unfolding codec_ok_def
proof (intro conjI allI impI)
  fix p v
  show "obj_get (dump small_codec p v) ''kind'' = Some (JStr (event_kind_value (payload_kind p)))"
    "obj_get (dump small_codec p v) ''schema_version'' = Some (JInt v)"
    by (simp_all add: small_codec_def obj_get_def)
  show "parse small_codec (canonical_obj kvs) = parse small_codec kvs" for kvs
    by (simp add: small_codec_def cong: if_cong)
next
  fix kvs p v
  assume "parse small_codec kvs = Some (p, v)"
  then show "obj_get kvs ''kind'' = Some (JStr (event_kind_value (payload_kind p)))"
    "declared_version kvs = Some v" "1 \<le> v"
    by (auto simp: small_codec_def declared_version_def int_of_json_def bind_eq_Some_conv field_Some
        split: if_splits)
qed

subsection \<open>Properties\<close>

text \<open>A history of two appends, a creation and a status change.\<close>

lemma status_field_not_secret: "\<not> is_secret_field_name ''status''"
  by code_simp

lemma status_not_secret: "\<not> looks_like_secret_value (status_value s)"
proof -
  have "list_all (\<lambda>s. plain_word (status_value s))
      [INTAKE, CONTRACTED, PLANNED, EXECUTING, VERIFYING, VERIFIED, ABSTAINED, FAILED]"
    by code_simp
  then have "plain_word (status_value s)" by (cases s) (simp_all del: status_value.simps)
  then show ?thesis by (rule plain_word_not_secret)
qed

lemma redact_small [simp]: "redact_payload (dump small_codec p v) = dump small_codec p v"
  by (simp add: small_codec_def redact_payload_def status_field_not_secret status_not_secret split: payload.split)

definition history_row :: "nat \<Rightarrow> payload \<Rightarrow> string \<Rightarrow> string \<Rightarrow> row" where
  "history_row n p prev h =
     \<lparr>row_run = ''r'', row_seq = n, row_kind = event_kind_value (payload_kind p),
      row_payload = Text_json (JObj (dump small_codec p 1)), row_version = 1,
      row_timestamp = of_nat n, row_prev = prev, row_hash = h\<rparr>"

definition one_event :: ledger where
  "one_event = \<lparr>rows = [history_row 1 RunCreated [] ''#1''], tombstones = [], closed = False\<rparr>"

definition two_events :: ledger where
  "two_events = one_event\<lparr>rows := [history_row 1 RunCreated [] ''#1'',
     history_row 2 (StatusChanged CONTRACTED) ''#1'' ''#2#1'']\<rparr>"

lemma small_codec_parse_dump:
  "p = RunCreated \<or> p = StatusChanged s \<Longrightarrow> 1 \<le> v \<Longrightarrow>
     parse small_codec (dump small_codec p v) = Some (p, v)"
  by (cases s) (auto simp: small_codec_def field_str_def field_int_def obj_get_def status_named_def)

lemma small_codec_dump_fields:
  "obj_get (dump small_codec p v) ''kind'' = Some (JStr (event_kind_value (payload_kind p)))"
  "declared_version (dump small_codec p v) = Some v"
  by (simp_all add: small_codec_def obj_get_def declared_version_def int_of_json_def)

lemma canonical_dump [simp]: "canonical_obj (dump small_codec p v) = dump small_codec p v"
proof -
  have "sorted (map fst (dump small_codec p v))"
    by (simp add: small_codec_def)
  then have "sort_key fst (dump small_codec p v) = dump small_codec p v"
    by (rule sort_key_id_if_sorted)
  then show ?thesis
    by (simp add: canonical_obj_def small_codec_def split: payload.split)
qed

lemma small_codec_hash:
  "compute_hash small_codec r n k kvs prev v ts = ''#'' @ show_int (int n) @ prev"
proof -
  have "obj_get (canonical_obj [(''run_id'', JStr r), (''seq'', JInt (int n)), (''kind'', JStr k),
      (''payload'', JObj kvs), (''prev_hash'', JStr prev), (''schema_version'', JInt v),
      (''timestamp'', JFloat ts)]) x = map_option canonical (obj_get [(''run_id'', JStr r),
      (''seq'', JInt (int n)), (''kind'', JStr k), (''payload'', JObj kvs),
      (''prev_hash'', JStr prev), (''schema_version'', JInt v), (''timestamp'', JFloat ts)] x)" for x
    by (rule obj_get_canonical)
  then show ?thesis by (simp add: compute_hash_def small_codec_def) (simp add: obj_get_def)
qed

lemma show_small: "show_int 1 = ''1''" "show_int 2 = ''2''"
  by code_simp+

lemmas history_defs = append_next_def store_def prev_event_def run_rows_def ev_kind_def
  small_codec_parse_dump small_codec_hash show_small history_row_def Let_def
  MAX_SCHEMA_VERSION_def CURRENT_SCHEMA_VERSION_def

lemma first_append:
  "\<exists>e. append_next small_codec 1 ''r'' RunCreated 1 empty_ledger = Inr (e, one_event)"
  by (simp add: history_defs empty_ledger_def one_event_def)

lemma second_append:
  "\<exists>e. append_next small_codec 2 ''r'' (StatusChanged CONTRACTED) 1 one_event = Inr (e, two_events)"
  by (simp add: history_defs one_event_def two_events_def)

lemma two_events_reachable: "(ledger_step small_codec)\<^sup>*\<^sup>* empty_ledger two_events"
proof -
  from first_append have "ledger_step small_codec empty_ledger one_event"
    by (auto intro: ledger_step.append_next)
  moreover from second_append have "ledger_step small_codec one_event two_events"
    by (auto intro: ledger_step.append_next)
  ultimately show ?thesis by auto
qed

lemma two_events_rows:
  "run_rows two_events ''r'' = [history_row 1 RunCreated [] ''#1'',
     history_row 2 (StatusChanged CONTRACTED) ''#1'' ''#2#1'']"
  "closed two_events = False"
  by (simp_all add: two_events_def one_event_def run_rows_def history_row_def)

lemma parse_small_kinds [simp]:
  "parse_event_kind ''run_created'' = Some RUN_CREATED"
  "parse_event_kind ''status_changed'' = Some STATUS_CHANGED"
  using parse_event_kind_value [of RUN_CREATED] parse_event_kind_value [of STATUS_CHANGED]
  by simp_all

definition history_event :: "nat \<Rightarrow> payload \<Rightarrow> string \<Rightarrow> string \<Rightarrow> event_envelope" where
  "history_event n p prev h = \<lparr>ev_run_id = ''r'', ev_seq = n, ev_payload = p, ev_schema_version = 1,
     ev_timestamp = of_nat n, ev_prev_hash = prev, ev_hash_chain = h\<rparr>"

lemma two_events_rows_read:
  "rows_to_events small_codec (run_rows two_events ''r'') =
     Inr [history_event 1 RunCreated [] ''#1'',
       history_event 2 (StatusChanged CONTRACTED) ''#1'' ''#2#1'']"
  by (simp add: two_events_rows row_to_event_def parse_row_def history_row_def history_event_def
      small_codec_dump_fields upcast_current small_codec_parse_dump)

definition two_history :: "event_envelope list" where
  "two_history = [history_event 1 RunCreated [] ''#1'',
     history_event 2 (StatusChanged CONTRACTED) ''#1'' ''#2#1'']"

lemma two_history_payloads: "map ev_payload two_history = [RunCreated, StatusChanged CONTRACTED]"
  by (simp add: two_history_def history_event_def)

lemma two_events_read: "ledger_events small_codec two_events ''r'' = Inr two_history"
  by (simp add: ledger_events_def two_events_rows(2) two_events_rows_read two_history_def)

lemma two_history_replays: "\<exists>s. replay_events ''r'' two_history = Inr s"
proof -
  have "legal_path INTAKE [CONTRACTED]" by code_simp
  with fold_events_ok_iff [of "initial_state ''r''" two_history]
  show ?thesis by (simp add: replay_events_def initial_state_def two_history_payloads)
qed

text \<open>C9: whatever sequence of appends, tombstones and closes a ledger went through, an open
  ledger verifies every run's chain as intact over all of its rows, and every run reads back
  without error, numbered from 1 without a gap.\<close>

theorem reachable_ledger_verifies:
  assumes "codec_ok cx" and "(ledger_step cx)\<^sup>*\<^sup>* empty_ledger l" and "\<not> closed l"
  shows "verify_integrity cx l r =
           Inr \<lparr>ir_ok = True, events_checked = length (run_rows l r), error_at_seq = None,
                ir_category = None\<rparr>
         \<and> (\<exists>es. ledger_events cx l r = Inr es \<and> map ev_seq es = [1..<Suc (length es)])"
proof -
  have ok: "ledger_ok cx l" using assms(2,1) by (rule ledger_reachable_ok)
  from verify_rows_chain [OF assms(1) run_rows_chain [OF ok, of r], of 0]
    ledger_reads_back [OF assms(1) ok, of r] assms(3)
  show ?thesis by (simp add: verify_integrity_def ledger_events_def)
qed

theorem reachable_ledger_verifies_witness:
  "verify_integrity small_codec two_events ''r'' =
     Inr \<lparr>ir_ok = True, events_checked = length (run_rows two_events ''r''), error_at_seq = None,
          ir_category = None\<rparr>"
proof -
  have "\<not> closed two_events" by (simp add: two_events_rows)
  from reachable_ledger_verifies [OF small_codec_ok two_events_reachable this, of "''r''"]
  show ?thesis by blast
qed

text \<open>C10: an intact chain is tamper evident.  Two row sequences that both verify and end in the
  same hash hold the same rows (every column, payloads up to key order), as long as the hash
  has no collision among their own records; but a verified chain still verifies once its
  tail is cut off, so only a remembered head hash reveals a truncation.\<close>

theorem head_hash_commits_to_history:
  assumes "\<forall>j. sha cx j \<noteq> []"
    and "inj_on (sha cx) (hashed_record ` (set ws \<union> set ws'))"
    and "ir_ok (verify_rows cx 0 [] ws)" and "ir_ok (verify_rows cx 0 [] ws')"
    and "last ([] # map row_hash ws) = last ([] # map row_hash ws')"
  shows "list_all2 same_row ws ws' \<and> ir_ok (verify_rows cx 0 [] (butlast ws))"
proof
  show "list_all2 same_row ws ws'" using assms by (intro chain_commits) auto
  show "ir_ok (verify_rows cx 0 [] (butlast ws))"
    using assms(3) by (cases ws rule: rev_cases) (simp_all add: verify_rows_snoc)
qed

lemma small_codec_sha: "sha small_codec j \<noteq> []"
  by (simp add: small_codec_def split: json.split option.split)

theorem head_hash_commits_to_history_witness:
  "list_all2 same_row (run_rows two_events ''r'') (run_rows two_events ''r'')"
proof -
  have ok: "ir_ok (verify_rows small_codec 0 [] (run_rows two_events ''r''))"
    using verify_rows_chain [OF small_codec_ok run_rows_chain [OF ledger_reachable_ok
        [OF two_events_reachable small_codec_ok], of "''r''"]] by simp
  have "map (sha small_codec) (map hashed_record (run_rows two_events ''r'')) = [''#1'', ''#2#1'']"
    using ok by (simp add: two_events_rows verify_rows_Cons history_row_def
        row_accepted_hash [symmetric] del: verify_rows.simps(2))
  then have "distinct (map (sha small_codec) (map hashed_record (run_rows two_events ''r'')))"
    by (simp only: distinct.simps set_simps) simp
  then have "inj_on (sha small_codec)
      (hashed_record ` (set (run_rows two_events ''r'') \<union> set (run_rows two_events ''r'')))"
    by (simp only: distinct_map [of _ "map _ _"] set_map Un_absorb)
  with ok show ?thesis
    using head_hash_commits_to_history [of small_codec "run_rows two_events ''r''"
        "run_rows two_events ''r''"] small_codec_sha by simp
qed

text \<open>C19: polling is replaying.  A reader that keeps a coherent cache entry, reads the tail past
  its cursor from a ledger in use and folds it, holds the full replay of the prefix it has
  read; once the page reaches the end of the run it holds the replay of the whole run, as a
  fresh \<^verbatim>\<open>replay_run\<close> would, and the entry stays coherent for the next poll, whatever
  was appended in between.\<close>

theorem polling_replays:
  assumes "codec_ok cx" and "(ledger_step cx)\<^sup>*\<^sup>* empty_ledger l"
    and "ledger_store.coherent c (cx, l)"
    and "events_since cx l r (cursor c r) n = Inr tail"
    and "project c r tail = Inr (s, c')"
  shows "\<exists>es. ledger_events cx l r = Inr es
      \<and> replay_events r (take (cursor c r + n) es) = Inr s
      \<and> (if length es \<le> cursor c r + n then replay_run cx l r = Inr (Inr s) else True)
      \<and> (case append_next cx now r' p v l of
           Inr (e, l') \<Rightarrow> ledger_store.coherent c' (cx, l')
         | Inl err \<Rightarrow> ledger_store.coherent c' (cx, l))"
proof -
  have ok: "store_invariant (cx, l)"
    using assms(1) ledger_reachable_ok [OF assms(2,1)] by simp
  from assms(4) have open_l: "\<not> closed l" by (auto simp: events_since_def)
  from ledger_reads_back [OF assms(1) ledger_reachable_ok [OF assms(2,1)], of r] open_l
  obtain es where es: "ledger_events cx l r = Inr es" by (auto simp: ledger_events_def)
  have "replay_events r (take (cursor c r + n) es) = Inr s \<and> ledger_store.coherent c' (cx, l)"
    by (rule ledger_store.poll_prefix [OF assms(3) ok _ _ assms(5)]) (simp_all add: es assms(4))
  moreover have "ledger_store.coherent c' (cx, l')"
    if "append_next cx now r' p v l = Inr (e, l')" "ledger_store.coherent c' (cx, l)" for e l'
    by (rule ledger_store.coherent_append [OF that(2) ok, of r' e]) (use that(1) in auto)
  ultimately show ?thesis
    using es by (auto simp: replay_run_def split: sum.split)
qed

theorem polling_replays_witness:
  "\<exists>s c'. project Map.empty ''r'' (projr (events_since small_codec two_events ''r'' 0 10)) = Inr (s, c')
     \<and> replay_run small_codec two_events ''r'' = Inr (Inr s) \<and> status s = CONTRACTED"
proof -
  let ?tail = "[history_event 1 RunCreated [] ''#1'',
     history_event 2 (StatusChanged CONTRACTED) ''#1'' ''#2#1'']"
  note events = two_events_rows_read
  from events have since: "events_since small_codec two_events ''r'' (cursor Map.empty ''r'') 10 = Inr ?tail"
    by (simp add: events_since_def two_events_rows history_row_def cursor_def)
  have "\<exists>s c'. project Map.empty ''r'' ?tail = Inr (s, c') \<and> status s = CONTRACTED"
    by (simp add: project_def fold_counted_def fold_event_def fold_status_changed_def
        initial_state_def history_event_def can_transition_def)
  then obtain s c' where p: "project Map.empty ''r'' ?tail = Inr (s, c')" "status s = CONTRACTED"
    by blast
  from polling_replays [OF small_codec_ok two_events_reachable ledger_store.coherent_empty since p(1)]
  have "replay_run small_codec two_events ''r'' = Inr (Inr s)"
    using events by (auto simp: ledger_events_def two_events_rows(2))
  with p since show ?thesis by (auto simp: cursor_def)
qed

text \<open>The run list agrees with a replay.  For every run it lists, its status column is that
  of the replayed run (unknown when no status was ever emitted) and its event count is the
  number of events the replay folded.\<close>

theorem list_runs_agrees_with_replay:
  assumes "codec_ok cx" and "(ledger_step cx)\<^sup>*\<^sup>* empty_ledger l"
    and "list_runs cx limit offset l = Inr summaries" and "su \<in> set summaries"
    and "ledger_events cx l (sum_run_id su) = Inr es"
    and "replay_events (sum_run_id su) es = Inr s"
  shows "sum_status su = (if statuses (map ev_payload es) = [] then ''unknown''
                          else status_value (status s))
       \<and> event_count su = events_replayed s"
proof -
  have ok: "ledger_ok cx l" by (rule ledger_reachable_ok [OF assms(2,1)])
  define ids where "ids = listed_ids limit offset l"
  from assms(3,4) have "ids \<noteq> []" unfolding list_runs_def ids_def by (auto simp: Let_def split: if_splits)
  with assms(3,4) obtain sts outs where m:
    "latest_of cx as_status (kind_rows_desc l STATUS_CHANGED ids) Map.empty = Inr sts"
    "summaries = map (summarize l sts outs) ids"
    unfolding list_runs_def ids_def by (auto simp: Let_def split: if_splits sum.splits)
  from m(2) assms(4) have su: "su = summarize l sts outs (sum_run_id su)" "sum_run_id su \<in> set ids"
    by (auto simp: summarize_def Let_def)
  let ?r = "sum_run_id su"
  from assms(5) have es: "rows_to_events cx (run_rows l ?r) = Inr es"
    by (simp add: ledger_events_def split: if_splits)
  have "length es = length (run_rows l ?r)"
    using rows_to_events_chain [OF assms(1) run_rows_chain [OF ok, of ?r]] es
    by (metis length_map sum.inject(2))
  moreover have "event_count su = length (run_rows l ?r)"
    using su(1) by (metis (no_types, lifting) run_rows_ok [OF ok] run_summary.select_convs(6) summarize_def)
  moreover have "sum_status su = (case sts ?r of None \<Rightarrow> ''unknown'' | Some s \<Rightarrow> status_value s)"
    using su(1) by (metis (no_types, lifting) run_summary.select_convs(2) summarize_def)
  ultimately show ?thesis
    using latest_status [OF assms(1) ok su(2) m(1) es]
      fold_events_status [OF assms(6) [unfolded replay_events_def]]
      fold_events_book [OF assms(6) [unfolded replay_events_def]]
    by (auto simp: initial_state_def)
qed

theorem list_runs_agrees_with_replay_witness:
  "\<exists>s. list_runs small_codec 10 0 two_events =
     Inr [\<lparr>sum_run_id = ''r'', sum_status = ''contracted'', sum_outcome = None, start_time = 1,
           last_event_time = 2, event_count = 2\<rparr>]
     \<and> replay_run small_codec two_events ''r'' = Inr (Inr s) \<and> status_value (status s) = ''contracted''"
proof -
  let ?su = "\<lparr>sum_run_id = ''r'', sum_status = ''contracted'', sum_outcome = None, start_time = 1,
      last_event_time = 2, event_count = 2\<rparr>"
  have rows: "rows two_events = [history_row 1 RunCreated [] ''#1'',
     history_row 2 (StatusChanged CONTRACTED) ''#1'' ''#2#1'']" "closed two_events = False"
     "tombstones two_events = []"
    by (simp_all add: two_events_def one_event_def)
  have ids: "listed_ids 10 0 two_events = [''r'']"
    by (simp add: listed_ids_def rows history_row_def)
  have kinds: "kind_rows_desc two_events STATUS_CHANGED [''r'']
      = [history_row 2 (StatusChanged CONTRACTED) ''#1'' ''#2#1'']"
    "kind_rows_desc two_events OUTCOME_EMITTED [''r''] = []"
    by (simp_all add: kind_rows_desc_def rows history_row_def)
  have payload: "typed_payload small_codec as_status
      (history_row 2 (StatusChanged CONTRACTED) ''#1'' ''#2#1'') = Inr CONTRACTED"
    by (simp add: typed_payload_def parse_row_def small_codec_dump_fields upcast_current
        small_codec_parse_dump history_row_def)
  have runs: "list_runs small_codec 10 0 two_events = Inr [?su]"
    unfolding list_runs_def ids Let_def
    by (simp add: kinds payload rows(2)) (simp add: summarize_def rows history_row_def)
  obtain s where s: "replay_events ''r'' two_history = Inr s"
    by (rule exE [OF two_history_replays])
  from list_runs_agrees_with_replay [OF small_codec_ok two_events_reachable runs, of ?su two_history s]
    two_events_read s
  have "status_value (status s) = ''contracted''" by (simp add: two_history_payloads)
  with runs two_events_read s show ?thesis by (simp add: replay_run_def)
qed

end
