(* ===== verification/Wire.thy ===== *)
theory Wire
  imports Domain
begin

section \<open>Provider-neutral messages and the worker's interface (adapters/providers/wire.py)\<close>

text \<open>
  The conversation a worker has with a model, the deltas of a stream, and what one attempt of a
  worker reports to the cell loop: the events it publishes, the checkpoints it takes and its
  result (the interface classes of application/worker.py).
\<close>

datatype message_role = Role_SYSTEM | Role_USER | Role_ASSISTANT | Role_TOOL

datatype finish_reason = END_TURN | TOOL_USE_STOP | MAX_TOKENS | STOP_SEQUENCE | ERROR_STOP

record tool_definition =
  td_name :: string
  td_description :: string
  td_parameters :: "(string \<times> json) list"

record tool_call =
  tc_id :: string
  tc_name :: string
  tc_arguments :: "(string \<times> json) list"
  tc_signature :: string

record tool_result_message =
  trm_call_id :: string
  trm_content :: string
  trm_is_error :: bool

record image_content =
  ic_media_type :: string
  ic_data :: string

record model_message =
  msg_role :: message_role
  msg_content :: string
  msg_images :: "image_content list"
  msg_tool_calls :: "tool_call list"
  msg_tool_call_id :: string
  msg_is_error :: bool

definition from_tool_result :: "tool_result_message \<Rightarrow> model_message" where
  "from_tool_result r = \<lparr>msg_role = Role_TOOL, msg_content = trm_content r, msg_images = [],
     msg_tool_calls = [], msg_tool_call_id = trm_call_id r, msg_is_error = trm_is_error r\<rparr>"

record token_usage =
  tu_input :: nat
  tu_output :: nat
  cache_creation_tokens :: nat
  cache_read_tokens :: nat

definition zero_token_usage :: token_usage where
  "zero_token_usage = \<lparr>tu_input = 0, tu_output = 0, cache_creation_tokens = 0, cache_read_tokens = 0\<rparr>"

definition tu_total :: "token_usage \<Rightarrow> nat" where
  "tu_total u = tu_input u + tu_output u"

datatype stream_delta =
    TextDelta string
  | ToolCallDelta (tcd_index: nat) (tcd_id: string) (tcd_name: string)
      (tcd_fragment: string) (tcd_signature: string)
  | UsageDelta token_usage
  | FinishDelta finish_reason

record model_request =
  mr_profile :: string
  mr_messages :: "model_message list"
  mr_system :: string
  mr_tools :: "tool_definition list"
  mr_output_schema :: "(string \<times> json) list option"
  mr_max_output_tokens :: "nat option"
  mr_temperature :: "rat option"
  mr_seed :: "int option"

definition get_max_tokens :: "model_request \<Rightarrow> nat \<Rightarrow> nat" where
  "get_max_tokens r profile_max =
     (case mr_max_output_tokens r of None \<Rightarrow> profile_max | Some n \<Rightarrow> n)"

record model_response =
  mres_text :: string
  mres_tool_calls :: "tool_call list"
  mres_finish :: finish_reason
  mres_usage :: token_usage
  mres_provider :: string
  mres_model :: string
  mres_artifact :: "string option"

subsection \<open>One attempt of a worker\<close>

datatype worker_event_kind =
    TURN_STARTED | CONTEXT_COMPACTED | MODEL_CALL_COMPLETED | MODEL_CALL_FAILED
  | TOOL_CALL_COMPLETED

fun worker_event_value :: "worker_event_kind \<Rightarrow> string" where
  "worker_event_value TURN_STARTED = ''turn_started''"
| "worker_event_value CONTEXT_COMPACTED = ''context_compacted''"
| "worker_event_value MODEL_CALL_COMPLETED = ''model_call_completed''"
| "worker_event_value MODEL_CALL_FAILED = ''model_call_failed''"
| "worker_event_value TOOL_CALL_COMPLETED = ''tool_call_completed''"

record worker_event =
  we_kind :: worker_event_kind
  we_turn :: nat
  we_detail :: "(string \<times> json) list"

record worker_result =
  wr_ok :: bool
  wr_text :: string
  wr_tool_calls_made :: nat
  wr_tool_rounds :: nat
  wr_api_calls :: nat
  wr_successful_api_calls :: nat
  wr_input_tokens :: nat
  wr_output_tokens :: nat
  wr_cost_usd :: usd
  wr_error :: string
  wr_error_kind :: string
  wr_tool_results :: "tool_result_message list"
  wr_messages :: "model_message list"

text \<open>What an attempt does that the cell loop sees, in order: publish an event, take a
  checkpoint of the conversation.  It ends by returning or raising.\<close>

datatype worker_step = Publish worker_event | Checkpoint "model_message list"

datatype worker_end = Returned worker_result | Raised string

type_synonym worker_attempt = "worker_step list \<times> worker_end"

text \<open>The tools a conversation called, in order (\<^verbatim>\<open>_tool_names_used\<close>).\<close>

definition tool_names_used :: "model_message list \<Rightarrow> string list" where
  "tool_names_used ms = concat (map (\<lambda>m. map tc_name (msg_tool_calls m)) ms)"

end
