(* ===== verification/Retry.thy ===== *)
theory Retry
  imports Domain
begin

section \<open>Retry and recovery (application/retry.py, application/recovery.py)\<close>

text \<open>
  The retry authority of the orchestrator, whose rung is the number of times a signature was
  seen, and the older recovery manager with its deduplicator.  A mutable object is a record
  passed through; a \<^verbatim>\<open>ValueError\<close> of an enum lookup is \<open>None\<close>.
\<close>

subsection \<open>Error kinds\<close>

datatype worker_error_kind =
    Err_PROVIDER | Err_BUDGET | Err_SCHEMA | Err_TOOL | Err_SAFETY | Err_AUTHENTICATION
  | Err_CAPABILITY | Err_CONFIGURATION

fun worker_error_value :: "worker_error_kind \<Rightarrow> string" where
  "worker_error_value Err_PROVIDER = ''provider''"
| "worker_error_value Err_BUDGET = ''budget''"
| "worker_error_value Err_SCHEMA = ''schema''"
| "worker_error_value Err_TOOL = ''tool''"
| "worker_error_value Err_SAFETY = ''safety''"
| "worker_error_value Err_AUTHENTICATION = ''authentication''"
| "worker_error_value Err_CAPABILITY = ''capability''"
| "worker_error_value Err_CONFIGURATION = ''configuration''"

definition all_worker_errors :: "worker_error_kind list" where
  "all_worker_errors = [Err_PROVIDER, Err_BUDGET, Err_SCHEMA, Err_TOOL, Err_SAFETY,
     Err_AUTHENTICATION, Err_CAPABILITY, Err_CONFIGURATION]"

definition parse_worker_error :: "string \<Rightarrow> worker_error_kind option" where
  "parse_worker_error v = find (\<lambda>k. worker_error_value k = v) all_worker_errors"

lemma parse_worker_error_value [simp]: "parse_worker_error (worker_error_value k) = Some k"
  by (cases k) (simp_all add: parse_worker_error_def all_worker_errors_def)

fun worker_error_to_failure :: "worker_error_kind \<Rightarrow> failure_type" where
  "worker_error_to_failure Err_PROVIDER = Fail_TRANSIENT"
| "worker_error_to_failure Err_BUDGET = Fail_BUDGET"
| "worker_error_to_failure Err_SCHEMA = Fail_SAMPLING"
| "worker_error_to_failure Err_TOOL = Fail_CAPABILITY"
| "worker_error_to_failure Err_SAFETY = Fail_SAFETY"
| "worker_error_to_failure Err_AUTHENTICATION = Fail_SPECIFICATION"
| "worker_error_to_failure Err_CAPABILITY = Fail_CAPABILITY"
| "worker_error_to_failure Err_CONFIGURATION = Fail_SPECIFICATION"

text \<open>\<^verbatim>\<open>classify\<close> on the string value; an unknown kind raises.\<close>

definition classify :: "string \<Rightarrow> failure_type option" where
  "classify error_kind = map_option worker_error_to_failure (parse_worker_error error_kind)"

text \<open>\<^verbatim>\<open>_coerce_failure_type\<close> on a string: by value, then by member name.\<close>

definition coerce_failure_type :: "string \<Rightarrow> failure_type option" where
  "coerce_failure_type failure =
     (case find (\<lambda>f. failure_type_value f = failure) all_failure_types of
        Some f \<Rightarrow> Some f
      | None \<Rightarrow> find (\<lambda>f. failure_type_name f = failure) all_failure_types)"

lemma coerce_failure_value [simp]: "coerce_failure_type (failure_type_value f) = Some f"
  by (cases f) (simp_all add: coerce_failure_type_def all_failure_types_def)

lemma coerce_failure_name [simp]: "coerce_failure_type (failure_type_name f) = Some f"
  by (cases f) (simp_all add: coerce_failure_type_def all_failure_types_def)

subsection \<open>The ladder\<close>

type_synonym recovery_policy = "failure_type \<rightharpoonup> recovery_action list"

fun recovery_ladder :: "failure_type \<Rightarrow> recovery_action list" where
  "recovery_ladder Fail_TRANSIENT = [BACKOFF_RETRY, REROUTE_ESCALATE, TERMINATE]"
| "recovery_ladder Fail_SAMPLING = [CHANGED_STRATEGY_RETRY, BACKOFF_RETRY, ABSTAIN]"
| "recovery_ladder Fail_CAPABILITY = [REROUTE_ESCALATE, SPLIT_REPLAN, CONTRACT_AMENDMENT, ABSTAIN]"
| "recovery_ladder Fail_DECOMPOSITION = [SPLIT_REPLAN, CONTRACT_AMENDMENT, ABSTAIN]"
| "recovery_ladder Fail_SPECIFICATION = [CONTRACT_AMENDMENT, ABSTAIN]"
| "recovery_ladder Fail_INTEGRATION = [SPLIT_REPLAN, TERMINATE]"
| "recovery_ladder Fail_SAFETY = [TERMINATE]"
| "recovery_ladder Fail_BUDGET = [SCOPE_REDUCTION, FAIL]"

definition RECOVERY_POLICY :: recovery_policy where
  "RECOVERY_POLICY f = Some (recovery_ladder f)"

definition ladder_of :: "recovery_policy \<Rightarrow> failure_type \<Rightarrow> recovery_action list" where
  "ladder_of policy f = (case policy f of None \<Rightarrow> [TERMINATE] | Some l \<Rightarrow> l)"

text \<open>\<^verbatim>\<open>_sig_key\<close>: fields joined by the unit separator.\<close>

definition unit_sep :: string where
  "unit_sep = [CHR 0x1F]"

definition sig_key :: "attempt_signature \<Rightarrow> string" where
  "sig_key s = show_int (sig_contract_version s) @ unit_sep @ sig_cell_id s @ unit_sep
     @ profile_name s @ unit_sep @ tool_plan s @ unit_sep @ sig_evidence_digest s"

record retry_policy =
  rp_policy :: recovery_policy
  rp_seen :: "string \<rightharpoonup> nat"

definition new_retry_policy :: retry_policy where
  "new_retry_policy = \<lparr>rp_policy = RECOVERY_POLICY, rp_seen = Map.empty\<rparr>"

definition seen_count :: "retry_policy \<Rightarrow> attempt_signature \<Rightarrow> nat" where
  "seen_count p s = dict_get (rp_seen p) (sig_key s) 0"

text \<open>An empty ladder is an \<^verbatim>\<open>IndexError\<close>, \<open>None\<close>; the count is already updated then.\<close>

definition next_action ::
  "failure_type \<Rightarrow> attempt_signature \<Rightarrow> retry_policy \<Rightarrow> recovery_action option \<times> retry_policy" where
  "next_action ftype tried p =
     (let ladder = ladder_of (rp_policy p) ftype;
          key = sig_key tried;
          rung = dict_get (rp_seen p) key 0;
          p' = p\<lparr>rp_seen := (rp_seen p)(key \<mapsto> rung + 1)\<rparr>
      in (if ladder = [] then None else Some (ladder ! min rung (length ladder - 1)), p'))"

subsection \<open>The recovery manager\<close>

text \<open>\<^verbatim>\<open>FailureClassifier.classify\<close>: overrides first, and an unknown kind is transient.\<close>

definition classifier_classify :: "(string \<rightharpoonup> failure_type) \<Rightarrow> string \<Rightarrow> failure_type" where
  "classifier_classify custom error_kind =
     (case custom error_kind of
        Some f \<Rightarrow> f
      | None \<Rightarrow> (case classify error_kind of Some f \<Rightarrow> f | None \<Rightarrow> Fail_TRANSIENT))"

text \<open>The deduplicator keeps hashes of signatures; a signature stands for its own hash.\<close>

type_synonym deduplicator = "run_id \<rightharpoonup> attempt_signature set"

definition is_duplicate :: "run_id \<Rightarrow> attempt_signature \<Rightarrow> deduplicator \<Rightarrow> bool \<times> deduplicator" where
  "is_duplicate r s d =
     (let sigs = dict_get d r {} in (s \<in> sigs, d(r \<mapsto> sigs)))"

definition record_signature :: "run_id \<Rightarrow> attempt_signature \<Rightarrow> deduplicator \<Rightarrow> deduplicator" where
  "record_signature r s d = d(r \<mapsto> insert s (dict_get d r {}))"

definition clear_signatures :: "run_id \<Rightarrow> deduplicator \<Rightarrow> deduplicator" where
  "clear_signatures r d = d(r := None)"

definition budget_headroom :: "budget \<Rightarrow> budget_usage \<Rightarrow> bool" where
  "budget_headroom b u \<longleftrightarrow>
     (case cost_limit_usd b of None \<Rightarrow> True | Some l \<Rightarrow> total_cost_usd u < l * (1 / 2))
     \<or> (case token_limit b of None \<Rightarrow> True | Some l \<Rightarrow> 2 * total_tokens u < l)"

definition recovery_decide ::
  "(string \<rightharpoonup> failure_type) \<Rightarrow> recovery_policy \<Rightarrow> run_id \<Rightarrow> string \<Rightarrow> attempt_signature option
     \<Rightarrow> budget option \<Rightarrow> budget_usage option \<Rightarrow> deduplicator \<Rightarrow> recovery_action \<times> deduplicator" where
  "recovery_decide custom policy r error_kind sig contract_budget used d =
     (let f = classifier_classify custom error_kind
      in if f = Fail_SAFETY then (TERMINATE, d)
         else if f = Fail_BUDGET then
           ((case (used, contract_budget) of
               (Some u, Some b) \<Rightarrow> if budget_headroom b u then SCOPE_REDUCTION else FAIL
             | _ \<Rightarrow> FAIL), d)
         else
           (let (dup, d1) = (case sig of None \<Rightarrow> (False, d) | Some s \<Rightarrow> is_duplicate r s d)
            in if dup then (TERMINATE, d1)
               else (case ladder_of policy f of
                       [] \<Rightarrow> (TERMINATE, d1)
                     | action # _ \<Rightarrow>
                         (action, case sig of None \<Rightarrow> d1 | Some s \<Rightarrow> record_signature r s d1))))"

definition allowed_actions :: "recovery_policy \<Rightarrow> failure_type \<Rightarrow> recovery_action list" where
  "allowed_actions policy f = ladder_of policy f"

subsection \<open>Traces of consultations\<close>

definition consult :: "retry_policy \<Rightarrow> failure_type \<times> attempt_signature \<Rightarrow> retry_policy" where
  "consult p c = snd (next_action (fst c) (snd c) p)"

definition consulted :: "(failure_type \<times> attempt_signature) list \<Rightarrow> retry_policy" where
  "consulted cs = foldl consult new_retry_policy cs"

lemma consult_seen [simp]:
  "rp_seen (consult p c) = (rp_seen p)(sig_key (snd c) \<mapsto> dict_get (rp_seen p) (sig_key (snd c)) 0 + 1)"
  "rp_policy (consult p c) = rp_policy p"
  by (simp_all add: consult_def next_action_def Let_def)

lemma foldl_consult:
  "dict_get (rp_seen (foldl consult p cs)) k 0
     = dict_get (rp_seen p) k 0 + length (filter (\<lambda>c. sig_key (snd c) = k) cs)
   \<and> rp_policy (foldl consult p cs) = rp_policy p"
  by (induction cs arbitrary: p) auto

lemma recovery_ladder_nonempty [simp]: "recovery_ladder f \<noteq> []"
  by (cases f) simp_all

definition gives_up :: "recovery_action \<Rightarrow> bool" where
  "gives_up a \<longleftrightarrow> a \<in> {TERMINATE, ABSTAIN, FAIL}"

lemma ladder_gives_up: "gives_up (last (recovery_ladder f)) \<and> length (recovery_ladder f) \<le> 4"
  by (cases f) (simp_all add: gives_up_def)

lemma ladder_keeps_trying: "list_all (\<lambda>a. \<not> gives_up a) (butlast (recovery_ladder f))"
  by (cases f) (simp_all add: gives_up_def)

lemma next_action_consulted:
  "fst (next_action f s (consulted cs)) = Some (recovery_ladder f !
     min (length (filter (\<lambda>c. sig_key (snd c) = sig_key s) cs)) (length (recovery_ladder f) - 1))"
  using foldl_consult [of new_retry_policy cs "sig_key s"]
  by (simp add: next_action_def Let_def consulted_def new_retry_policy_def ladder_of_def
      RECOVERY_POLICY_def)

text \<open>Fields without the separator can be read back from a key.\<close>

definition sep_free :: "string \<Rightarrow> bool" where
  "sep_free s \<longleftrightarrow> CHR 0x1F \<notin> set s"

lemma split_at_sep:
  "sep_free a \<Longrightarrow> sep_free b \<Longrightarrow> a @ CHR 0x1F # x = b @ CHR 0x1F # y \<Longrightarrow> a = b \<and> x = y"
  unfolding sep_free_def
proof (induction a arbitrary: b)
  case Nil
  then show ?case by (cases b) auto
next
  case (Cons c a)
  then show ?case by (cases b) auto
qed

lemma digit_not_sep: "d < 10 \<Longrightarrow> digit_char d \<noteq> CHR 0x1F"
  by (auto simp: digit_char_def dest!: arg_cong [where f = "of_char :: char \<Rightarrow> nat"])

lemma show_nat_sep_free: "sep_free (show_nat n)"
proof (induction n rule: show_nat.induct)
  case (1 n)
  show ?case
  proof (cases "n < 10")
    case True
    then show ?thesis
      using digit_not_sep [of n] by (simp add: show_nat.simps [of n] sep_free_def eq_commute)
  next
    case False
    then show ?thesis
      using 1 digit_not_sep [of "n mod 10"]
      by (simp add: show_nat.simps [of n] sep_free_def eq_commute)
  qed
qed

lemma show_int_sep_free: "sep_free (show_int i)"
  using show_nat_sep_free by (auto simp: show_int_def sep_free_def)

lemma show_nat_hd: "hd (show_nat n) \<noteq> CHR ''-''"
proof (induction n rule: show_nat.induct)
  case (1 n)
  have "digit_char d \<noteq> CHR ''-''" if "d < 10" for d
    using that by (auto simp: digit_char_def dest!: arg_cong [where f = "of_char :: char \<Rightarrow> nat"])
  with 1 show ?case by (cases "n < 10") (simp_all add: show_nat.simps [of n] hd_append)
qed

lemma show_int_inj: "show_int i = show_int j \<Longrightarrow> i = j"
  using show_nat_hd [of "nat i"] show_nat_hd [of "nat j"]
  by (auto simp: show_int_def split: if_splits dest: arg_cong [where f = hd])

definition plain_signature :: "attempt_signature \<Rightarrow> bool" where
  "plain_signature s \<longleftrightarrow> sep_free (sig_cell_id s) \<and> sep_free (profile_name s) \<and> sep_free (tool_plan s)"

lemma sig_key_eq:
  assumes "plain_signature a" "plain_signature b"
  shows "sig_key a = sig_key b \<longleftrightarrow> a\<lparr>strategy_id := []\<rparr> = b\<lparr>strategy_id := []\<rparr>"
proof
  assume eq: "sig_key a = sig_key b"
  from eq [unfolded sig_key_def unit_sep_def append_Cons append_Nil]
    split_at_sep [OF show_int_sep_free show_int_sep_free]
  have 1: "sig_contract_version a = sig_contract_version b"
    and r1: "sig_cell_id a @ CHR 0x1F # profile_name a @ CHR 0x1F # tool_plan a @ CHR 0x1F # sig_evidence_digest a
      = sig_cell_id b @ CHR 0x1F # profile_name b @ CHR 0x1F # tool_plan b @ CHR 0x1F # sig_evidence_digest b"
    using show_int_inj by blast+
  from assms have f: "sep_free (sig_cell_id a)" "sep_free (profile_name a)" "sep_free (tool_plan a)"
    "sep_free (sig_cell_id b)" "sep_free (profile_name b)" "sep_free (tool_plan b)"
    by (simp_all add: plain_signature_def)
  from split_at_sep [OF f(1,4) r1] have 2: "sig_cell_id a = sig_cell_id b"
    and r2: "profile_name a @ CHR 0x1F # tool_plan a @ CHR 0x1F # sig_evidence_digest a
      = profile_name b @ CHR 0x1F # tool_plan b @ CHR 0x1F # sig_evidence_digest b" by simp_all
  from split_at_sep [OF f(2,5) r2] have 3: "profile_name a = profile_name b"
    and r3: "tool_plan a @ CHR 0x1F # sig_evidence_digest a
      = tool_plan b @ CHR 0x1F # sig_evidence_digest b" by simp_all
  from split_at_sep [OF f(3,6) r3]
  have 4: "tool_plan a = tool_plan b" "sig_evidence_digest a = sig_evidence_digest b" by simp_all
  from 1 2 3 4 show "a\<lparr>strategy_id := []\<rparr> = b\<lparr>strategy_id := []\<rparr>"
    by (cases a; cases b) simp
next
  assume "a\<lparr>strategy_id := []\<rparr> = b\<lparr>strategy_id := []\<rparr>"
  then show "sig_key a = sig_key b" by (cases a; cases b) (simp add: sig_key_def)
qed

subsection \<open>Properties\<close>

text \<open>Repeating a strategy climbs the ladder.  After any sequence of consultations, the action
  for a failure is the rung given by how often the same strategy was consulted before, capped at
  the last rung; two attempts are the same strategy exactly when contract version, cell, profile,
  tool plan and evidence agree, so the strategy id (the attempt number) never resets the climb.\<close>

theorem repeated_strategy_escalates:
  assumes "list_all (\<lambda>c. plain_signature (snd c)) cs" and "plain_signature s"
  shows "fst (next_action f s (consulted cs)) = Some (recovery_ladder f !
     min (length (filter (\<lambda>c. (snd c)\<lparr>strategy_id := []\<rparr> = s\<lparr>strategy_id := []\<rparr>) cs))
         (length (recovery_ladder f) - 1))"
proof -
  have "filter (\<lambda>c. sig_key (snd c) = sig_key s) cs
      = filter (\<lambda>c. (snd c)\<lparr>strategy_id := []\<rparr> = s\<lparr>strategy_id := []\<rparr>) cs"
    using assms sig_key_eq by (intro filter_cong) (auto simp: list_all_iff)
  then show ?thesis by (simp add: next_action_consulted)
qed

definition sample_signature :: "string \<Rightarrow> attempt_signature" where
  "sample_signature sid = \<lparr>sig_contract_version = 1, sig_cell_id = ''c'', profile_name = ''p'',
     strategy_id = sid, tool_plan = ''t'', sig_evidence_digest = ''e''\<rparr>"

theorem repeated_strategy_escalates_witness:
  "fst (next_action Fail_TRANSIENT (sample_signature ''attempt-2'')
     (consulted [(Fail_TRANSIENT, sample_signature ''attempt-1'')])) = Some REROUTE_ESCALATE"
  using repeated_strategy_escalates [of "[(Fail_TRANSIENT, sample_signature ''attempt-1'')]"
      "sample_signature ''attempt-2''" Fail_TRANSIENT]
  by (simp add: sample_signature_def plain_signature_def sep_free_def)

text \<open>The policy always gives up.  Once a strategy was consulted as often as its ladder is
  long less one (at most three times), every further consultation answers with an action that
  ends the cell, while each earlier rung keeps trying; and a safety failure ends it at once, with
  either authority and whatever the budget or the history says.\<close>

theorem ladder_is_bounded:
  "let n = length (filter (\<lambda>c. sig_key (snd c) = sig_key s) cs);
       answer = fst (next_action f s (consulted cs))
   in (case answer of None \<Rightarrow> False
       | Some a \<Rightarrow> gives_up a = (length (recovery_ladder f) \<le> n + 1))
      \<and> length (recovery_ladder f) \<le> 4
      \<and> fst (next_action Fail_SAFETY s (consulted cs)) = Some TERMINATE
      \<and> fst (recovery_decide Map.empty policy r ''safety'' sig b u d) = TERMINATE"
proof -
  let ?n = "length (filter (\<lambda>c. sig_key (snd c) = sig_key s) cs)"
  let ?l = "recovery_ladder f"
  have "gives_up (?l ! min ?n (length ?l - 1)) = (length ?l \<le> ?n + 1)"
  proof (cases "length ?l \<le> ?n + 1")
    case True
    then have "min ?n (length ?l - 1) = length ?l - 1" by simp
    with True ladder_gives_up [of f] show ?thesis by (simp add: last_conv_nth)
  next
    case False
    then have "?n < length (butlast ?l)" by simp
    moreover from this have "butlast ?l ! ?n = ?l ! ?n" by (rule nth_butlast)
    ultimately have "\<not> gives_up (?l ! ?n)"
      using ladder_keeps_trying [of f] by (metis list_all_length)
    moreover have "min ?n (length ?l - 1) = ?n" using False by simp
    ultimately show ?thesis using False by simp
  qed
  moreover have "classifier_classify Map.empty ''safety'' = Fail_SAFETY"
    using parse_worker_error_value [of Err_SAFETY]
    by (simp add: classifier_classify_def classify_def)
  ultimately show ?thesis
    using ladder_gives_up [of f]
    by (simp add: Let_def next_action_consulted recovery_decide_def)
qed

end
