(* ===== verification/Text_Forms.thy ===== *)
theory Text_Forms
  imports Secrets_Policy
begin

section \<open>Texts (application/json_extraction.py and Python's string methods)\<close>

text \<open>
  The string methods several components share, for ASCII white space and line boundaries, and the
  lenient extraction of a JSON object from a model's answer.  The decoder \<^verbatim>\<open>raw_decode\<close> is a
  parameter: the value that starts at an index, or \<open>None\<close> for a \<^verbatim>\<open>JSONDecodeError\<close>.
\<close>

definition strip :: "string \<Rightarrow> string" where
  "strip s = rev (dropWhile is_space (rev (dropWhile is_space s)))"

definition contains :: "string \<Rightarrow> string \<Rightarrow> bool" where
  "contains pat s = search (starts_with pat) s"

text \<open>\<^verbatim>\<open>str.splitlines()\<close>, for the line boundaries among the ASCII characters.\<close>

definition line_break :: "char \<Rightarrow> bool" where
  "line_break c \<longleftrightarrow> (of_char c :: nat) \<in> {10, 11, 12, 13, 28, 29, 30}"

fun lines_from :: "string \<Rightarrow> string \<Rightarrow> string list" where
  "lines_from acc [] = (if acc = [] then [] else [acc])"
| "lines_from acc (c # cs) =
     (if c = CHR 0x0D \<and> cs \<noteq> [] \<and> hd cs = CHR 0x0A then acc # lines_from [] (tl cs)
      else if line_break c then acc # lines_from [] cs
      else lines_from (acc @ [c]) cs)"

definition splitlines :: "string \<Rightarrow> string list" where
  "splitlines s = lines_from [] s"

text \<open>\<^verbatim>\<open>s.removesuffix(suffix)\<close>.\<close>

definition removesuffix :: "string \<Rightarrow> string \<Rightarrow> string" where
  "removesuffix suffix s = (if ends_with suffix s then take (length s - length suffix) s else s)"

definition newline :: string where
  "newline = [CHR 0x0A]"

definition strip_code_fence :: "string \<Rightarrow> string" where
  "strip_code_fence txt_in =
     (let stripped = strip txt_in
      in if starts_with ''```'' stripped \<and> 1 < length (splitlines stripped)
         then strip (removesuffix ''```'' (str_join newline (tl (splitlines stripped))))
         else stripped)"

text \<open>\<^verbatim>\<open>s.find(c, start)\<close>; \<open>None\<close> is \<^verbatim>\<open>-1\<close>.\<close>

definition find_from :: "char \<Rightarrow> string \<Rightarrow> nat \<Rightarrow> nat option" where
  "find_from c s start = find (\<lambda>i. s ! i = c) [start..<length s]"

lemma find_from_Some:
  "find_from c s start = Some i \<longleftrightarrow>
     start \<le> i \<and> i < length s \<and> s ! i = c \<and> (\<forall>j. start \<le> j \<and> j < i \<longrightarrow> s ! j \<noteq> c)"
proof -
  have "find_from c s start = Some i \<longleftrightarrow>
      (\<exists>k. k < length s - start \<and> s ! (start + k) = c \<and> i = start + k \<and> (\<forall>j<k. s ! (start + j) \<noteq> c))"
    by (auto simp: find_from_def find_Some_iff)
  also have "\<dots> \<longleftrightarrow> start \<le> i \<and> i < length s \<and> s ! i = c \<and> (\<forall>j. start \<le> j \<and> j < i \<longrightarrow> s ! j \<noteq> c)"
  proof (intro iffI; elim exE conjE)
    fix k assume k: "k < length s - start" "s ! (start + k) = c" "i = start + k" "\<forall>j<k. s ! (start + j) \<noteq> c"
    have "s ! j \<noteq> c" if "start \<le> j" "j < i" for j
      using k(3) k(4) [rule_format, of "j - start"] that by simp
    with k show "start \<le> i \<and> i < length s \<and> s ! i = c \<and> (\<forall>j. start \<le> j \<and> j < i \<longrightarrow> s ! j \<noteq> c)" by auto
  next
    assume "start \<le> i" "i < length s" "s ! i = c" "\<forall>j. start \<le> j \<and> j < i \<longrightarrow> s ! j \<noteq> c"
    then show "\<exists>k. k < length s - start \<and> s ! (start + k) = c \<and> i = start + k \<and> (\<forall>j<k. s ! (start + j) \<noteq> c)"
      by (intro exI [of _ "i - start"]) auto
  qed
  finally show ?thesis .
qed

type_synonym raw_decoder = "string \<Rightarrow> nat \<Rightarrow> (json \<times> nat) option"

function extract_from :: "raw_decoder \<Rightarrow> string \<Rightarrow> nat \<Rightarrow> (string \<times> json) list option" where
  "extract_from decode s start =
     (case find_from CHR ''{'' s start of
        None \<Rightarrow> None
      | Some i \<Rightarrow>
          (case decode s i of
             Some (JObj kvs, e) \<Rightarrow> Some kvs
           | _ \<Rightarrow> extract_from decode s (i + 1)))"
  by pat_completeness auto

termination
  by (relation "measure (\<lambda>(decode, s, start). length s - start)") (auto simp: find_from_Some)

declare extract_from.simps [simp del]

definition extract_first_json_object :: "raw_decoder \<Rightarrow> string \<Rightarrow> (string \<times> json) list option" where
  "extract_first_json_object decode txt_in = extract_from decode (strip_code_fence txt_in) 0"

subsection \<open>Which object is extracted\<close>

definition object_at :: "raw_decoder \<Rightarrow> string \<Rightarrow> nat \<Rightarrow> (string \<times> json) list option" where
  "object_at decode s i =
     (if s ! i = CHR ''{'' then (case decode s i of Some (JObj kvs, e) \<Rightarrow> Some kvs | _ \<Rightarrow> None) else None)"

lemma extract_from_first:
  "extract_from decode s start = Some kvs \<longleftrightarrow>
     (\<exists>i. start \<le> i \<and> i < length s \<and> object_at decode s i = Some kvs
        \<and> (\<forall>j. start \<le> j \<and> j < i \<longrightarrow> object_at decode s j = None))"
proof (induction "length s - start" arbitrary: start rule: less_induct)
  case less
  show ?case
  proof (cases "find_from CHR ''{'' s start")
    case None
    then have "object_at decode s i = None" if "start \<le> i" "i < length s" for i
      using that by (auto simp: find_from_def find_None_iff object_at_def)
    then show ?thesis by (subst extract_from.simps) (auto simp: None)
  next
    case (Some k)
    from Some [unfolded find_from_Some]
    have k: "start \<le> k" "k < length s" "s ! k = CHR ''{''"
      and before: "\<And>j. start \<le> j \<Longrightarrow> j < k \<Longrightarrow> object_at decode s j = None"
      by (auto simp: object_at_def)
    show ?thesis
    proof (cases "object_at decode s k")
      case (Some found)
      then have "extract_from decode s start = Some found"
        using \<open>find_from CHR ''{'' s start = Some k\<close> k(3)
        by (subst extract_from.simps) (auto simp: object_at_def split: option.splits json.splits)
      moreover have "(\<exists>i. start \<le> i \<and> i < length s \<and> object_at decode s i = Some kvs
          \<and> (\<forall>j. start \<le> j \<and> j < i \<longrightarrow> object_at decode s j = None)) \<longleftrightarrow> found = kvs"
        using Some k before by (metis linorder_neqE_nat option.distinct(1) option.inject)
      ultimately show ?thesis by simp
    next
      case none: None
      then have step: "extract_from decode s start = extract_from decode s (k + 1)"
        using \<open>find_from CHR ''{'' s start = Some k\<close> k(3)
        by (subst extract_from.simps) (auto simp: object_at_def split: option.splits json.splits)
      have IH: "extract_from decode s (k + 1) = Some kvs \<longleftrightarrow>
          (\<exists>i. k + 1 \<le> i \<and> i < length s \<and> object_at decode s i = Some kvs
             \<and> (\<forall>j. k + 1 \<le> j \<and> j < i \<longrightarrow> object_at decode s j = None))"
        using k by (intro less.hyps) simp
      have skip: "object_at decode s j = None" if "start \<le> j" "j < k + 1" for j
        using that before none by (cases "j = k") auto
      show ?thesis unfolding step IH
      proof (intro iffI; elim exE conjE)
        fix i assume i: "k + 1 \<le> i" "i < length s" "object_at decode s i = Some kvs"
          "\<forall>j. k + 1 \<le> j \<and> j < i \<longrightarrow> object_at decode s j = None"
        have "object_at decode s j = None" if "start \<le> j" "j < i" for j
          using that i(4) skip by (cases "j < k + 1") auto
        with i k show "\<exists>i. start \<le> i \<and> i < length s \<and> object_at decode s i = Some kvs
            \<and> (\<forall>j. start \<le> j \<and> j < i \<longrightarrow> object_at decode s j = None)"
          by (intro exI [of _ i]) auto
      next
        fix i assume i: "start \<le> i" "i < length s" "object_at decode s i = Some kvs"
          "\<forall>j. start \<le> j \<and> j < i \<longrightarrow> object_at decode s j = None"
        with skip have "k + 1 \<le> i" by (metis linorder_not_less option.distinct(1))
        with i k show "\<exists>i. k + 1 \<le> i \<and> i < length s \<and> object_at decode s i = Some kvs
            \<and> (\<forall>j. k + 1 \<le> j \<and> j < i \<longrightarrow> object_at decode s j = None)"
          by (intro exI [of _ i]) auto
      qed
    qed
  qed
qed

end
