(* ===== verification/Config.thy ===== *)
theory Config
  imports Domain Text_Forms
begin

section \<open>Configuration (config.py, domain/url_policy.py, domain/container_policy.py)\<close>

text \<open>
  Model profiles, commands, run defaults and the routing table, with their validators.  A
  \<^verbatim>\<open>ValidationError\<close> is a \<open>config_error\<close>; validators run in the order of the class.
  \<^verbatim>\<open>urlparse\<close> and \<^verbatim>\<open>ipaddress\<close> are not re-implemented: a validated URL comes as its
  parts, and the classification of an address literal as an argument (\<open>None\<close> for a
  \<^verbatim>\<open>ValueError\<close>).
\<close>

subsection \<open>Endpoint URLs\<close>

record parsed_url =
  url_scheme :: string
  url_username :: string
  url_password :: string
  url_query :: string
  url_fragment :: string
  url_hostname :: "string option"

datatype config_error =
    UrlScheme | UrlCredentials | UrlQuery | UrlFragment | UrlNoHostname | UrlInsecure
  | ImageEmpty | ImageNotReference
  | HeaderNamesNotUnique | HeaderNamesInvalid "string list" | HeaderValueControl
  | HeaderCarriesCredential "string list" | AuthHeaderInvalid | QueryCarriesCredential "string list"
  | RetriesWithoutBackoff | AuthHeaderCollides
  | FieldConstraint string
  | DuplicateNames string "string list"
  | DuplicateRoute string | UnknownRouteProfiles string "string list"
  | RoleNotDeclared string string

definition is_loopback_host :: "(string \<Rightarrow> bool option) \<Rightarrow> string option \<Rightarrow> bool" where
  "is_loopback_host ip_loopback host =
     (case host of None \<Rightarrow> False
      | Some h \<Rightarrow> if casefold h = ''localhost'' then True
                  else (case ip_loopback h of None \<Rightarrow> False | Some b \<Rightarrow> b))"

definition validate_provider_url ::
  "(string \<Rightarrow> bool option) \<Rightarrow> parsed_url \<Rightarrow> bool \<Rightarrow> bool \<Rightarrow> config_error option" where
  "validate_provider_url ip_loopback u credentialed allow_insecure_http =
     (if url_scheme u \<notin> {''http'', ''https''} then Some UrlScheme
      else if url_username u \<noteq> [] \<or> url_password u \<noteq> [] then Some UrlCredentials
      else if url_query u \<noteq> [] then Some UrlQuery
      else if url_fragment u \<noteq> [] then Some UrlFragment
      else if url_hostname u = None \<or> url_hostname u = Some [] then Some UrlNoHostname
      else if credentialed \<and> url_scheme u = ''http''
        \<and> \<not> is_loopback_host ip_loopback (url_hostname u) \<and> \<not> allow_insecure_http
      then Some UrlInsecure else None)"

subsection \<open>Container images\<close>

definition validate_docker_image :: "string \<Rightarrow> config_error option" where
  "validate_docker_image img =
     (if strip img = [] then Some ImageEmpty
      else if img \<noteq> strip img \<or> starts_with ''-'' img
        \<or> list_ex (\<lambda>c. (of_char c :: nat) \<le> 32) img then Some ImageNotReference
      else None)"

subsection \<open>Profiles\<close>

datatype wire_protocol = OPENAI_CHAT | ANTHROPIC_MESSAGES | GEMINI_GENERATE_CONTENT

datatype capability = TOOL_USE | NATIVE_JSON_SCHEMA | VISION | STREAMING | PROMPT_CACHING

fun capability_value :: "capability \<Rightarrow> string" where
  "capability_value TOOL_USE = ''tool_use''"
| "capability_value NATIVE_JSON_SCHEMA = ''native_json_schema''"
| "capability_value VISION = ''vision''"
| "capability_value STREAMING = ''streaming''"
| "capability_value PROMPT_CACHING = ''prompt_caching''"

definition parse_capability :: "string \<Rightarrow> capability option" where
  "parse_capability v = find (\<lambda>c. capability_value c = v)
     [TOOL_USE, NATIVE_JSON_SCHEMA, VISION, STREAMING, PROMPT_CACHING]"

datatype role = WORKER | REVIEWER | PLANNER | SPECIALIST | ORCHESTRATOR

fun role_value :: "role \<Rightarrow> string" where
  "role_value WORKER = ''worker''"
| "role_value REVIEWER = ''reviewer''"
| "role_value PLANNER = ''planner''"
| "role_value SPECIALIST = ''specialist''"
| "role_value ORCHESTRATOR = ''orchestrator''"

lemma role_value_inj [simp]: "role_value a = role_value b \<longleftrightarrow> a = b"
  by (cases a; cases b) simp_all

record model_profile =
  mp_name :: string
  protocol :: wire_protocol
  base_url :: parsed_url
  model_id :: string
  api_key_env :: "string option"
  allow_insecure_http :: bool
  roles :: "role set"
  capabilities :: "capability set"
  max_concurrency :: nat
  requests_per_minute :: nat
  context_window_tokens :: nat
  max_output_tokens :: nat
  request_timeout_seconds :: rat
  strict_stream_completion :: bool
  transport_retries :: nat
  transport_retry_backoff_seconds :: "rat list"
  input_price_per_million_usd :: rat
  output_price_per_million_usd :: rat
  auth_header :: "string option"
  extra_headers :: "(string \<times> string) list"
  extra_query :: "(string \<times> string) list"
  token_limit_param :: string

definition identifier_char :: "char \<Rightarrow> bool" where
  "identifier_char c \<longleftrightarrow> is_alnum c \<or> c \<in> set ''_.-''"

text \<open>\<^verbatim>\<open>^[A-Za-z0-9][A-Za-z0-9_.-]*$\<close>.\<close>

definition safe_identifier :: "string \<Rightarrow> bool" where
  "safe_identifier s = (case s of [] \<Rightarrow> False | c # cs \<Rightarrow> is_alnum c \<and> list_all identifier_char cs)"

definition header_char :: "char \<Rightarrow> bool" where
  "header_char c \<longleftrightarrow> is_alnum c \<or> c \<in> set ''!#$%&*+-.^_|~'' \<or> c = CHR 0x27 \<or> c = CHR 0x60"

definition valid_header_name :: "string \<Rightarrow> bool" where
  "valid_header_name s \<longleftrightarrow> s \<noteq> [] \<and> list_all header_char s"

definition control_char :: "char \<Rightarrow> bool" where
  "control_char c \<longleftrightarrow> (of_char c :: nat) \<in> {0, 10, 13}"

definition reject_credential_headers :: "(string \<times> string) list \<Rightarrow> config_error option" where
  "reject_credential_headers v =
     (let invalid = filter (\<lambda>n. \<not> valid_header_name n) (map fst v);
          collisions = filter is_secret_field_name (map fst v)
      in if \<not> distinct (map (casefold \<circ> fst) v) then Some HeaderNamesNotUnique
         else if invalid \<noteq> [] then Some (HeaderNamesInvalid (sort invalid))
         else if list_ex (\<lambda>(n, value). list_ex control_char value) v then Some HeaderValueControl
         else if collisions \<noteq> [] then Some (HeaderCarriesCredential (sort collisions))
         else None)"

definition validate_auth_header :: "string option \<Rightarrow> config_error option" where
  "validate_auth_header v =
     (case v of Some h \<Rightarrow> if valid_header_name h then None else Some AuthHeaderInvalid
      | None \<Rightarrow> None)"

definition reject_credential_query :: "(string \<times> string) list \<Rightarrow> config_error option" where
  "reject_credential_query v =
     (let collisions = filter is_secret_field_name (map fst v)
      in if collisions \<noteq> [] then Some (QueryCarriesCredential (sort collisions)) else None)"

definition validate_base_url_policy ::
  "(string \<Rightarrow> bool option) \<Rightarrow> model_profile \<Rightarrow> config_error option" where
  "validate_base_url_policy ip_loopback p =
     (if transport_retries p \<noteq> 0 \<and> transport_retry_backoff_seconds p = []
      then Some RetriesWithoutBackoff
      else if (case auth_header p of
                 None \<Rightarrow> False
               | Some h \<Rightarrow> h \<noteq> [] \<and> casefold h \<in> set (map (casefold \<circ> fst) (extra_headers p)))
      then Some AuthHeaderCollides
      else validate_provider_url ip_loopback (base_url p) (api_key_env p \<noteq> None)
             (allow_insecure_http p))"

text \<open>The declared bounds of the fields; the text names the field.\<close>

definition profile_fields :: "model_profile \<Rightarrow> config_error option" where
  "profile_fields p =
     (if \<not> (safe_identifier (mp_name p) \<and> length (mp_name p) \<le> 64) then Some (FieldConstraint ''name'')
      else if model_id p = [] then Some (FieldConstraint ''model'')
      else if max_concurrency p < 1 then Some (FieldConstraint ''max_concurrency'')
      else if requests_per_minute p < 1 then Some (FieldConstraint ''requests_per_minute'')
      else if context_window_tokens p < 1 then Some (FieldConstraint ''context_window_tokens'')
      else if max_output_tokens p < 1 then Some (FieldConstraint ''max_output_tokens'')
      else if request_timeout_seconds p \<le> 0 then Some (FieldConstraint ''request_timeout_seconds'')
      else if 5 < transport_retries p then Some (FieldConstraint ''transport_retries'')
      else if 5 < length (transport_retry_backoff_seconds p)
        \<or> list_ex (\<lambda>b. b < 0) (transport_retry_backoff_seconds p)
      then Some (FieldConstraint ''transport_retry_backoff_seconds'')
      else if input_price_per_million_usd p < 0 then Some (FieldConstraint ''input_price_per_million_usd'')
      else if output_price_per_million_usd p < 0 then Some (FieldConstraint ''output_price_per_million_usd'')
      else if token_limit_param p \<notin> {''max_tokens'', ''max_completion_tokens''}
      then Some (FieldConstraint ''token_limit_param'')
      else None)"

text \<open>The first error of a list of checks.\<close>

fun first_error :: "'e option list \<Rightarrow> 'e option" where
  "first_error [] = None"
| "first_error (Some e # es) = Some e"
| "first_error (None # es) = first_error es"

lemma first_error_None [simp]: "first_error es = None \<longleftrightarrow> list_all (\<lambda>e. e = None) es"
  by (induction es rule: first_error.induct) auto

definition validate_profile :: "(string \<Rightarrow> bool option) \<Rightarrow> model_profile \<Rightarrow> config_error option" where
  "validate_profile ip_loopback p = first_error
     [profile_fields p, reject_credential_headers (extra_headers p),
      validate_auth_header (auth_header p), reject_credential_query (extra_query p),
      validate_base_url_policy ip_loopback p]"

definition profile_tier :: "model_profile \<Rightarrow> nat" where
  "profile_tier p =
     (let avg_price = (input_price_per_million_usd p + output_price_per_million_usd p) / 2
      in if avg_price = 0 then 1 else if avg_price < 2 then 1 else if avg_price < 15 then 2 else 3)"

subsection \<open>Run settings and commands\<close>

record run_config =
  default_budget_tokens :: nat
  default_budget_cost_usd :: rat
  stall_window_seconds :: rat
  planner_mode :: string
  falsifier_mode :: string
  calibration_path :: string
  memory_enabled :: bool

definition run_default_budget :: "run_config \<Rightarrow> budget" where
  "run_default_budget c = default_budget\<lparr>
     token_limit := (if default_budget_tokens c = 0 then None else Some (int (default_budget_tokens c))),
     cost_limit_usd := (if default_budget_cost_usd c = 0 then None else Some (default_budget_cost_usd c))\<rparr>"

datatype isolation = Host | Docker

record command_config =
  cc_name :: string
  argv :: "string list"
  timeout_seconds :: rat
  cc_max_output_bytes :: nat
  env_allowlist :: "string list"
  isolation :: isolation
  docker_image :: string

definition validate_command :: "command_config \<Rightarrow> config_error option" where
  "validate_command c = first_error
     [if safe_identifier (cc_name c) \<and> length (cc_name c) \<le> 60 then None
      else Some (FieldConstraint ''name''),
      if argv c = [] then Some (FieldConstraint ''argv'') else None,
      if timeout_seconds c < 0 then Some (FieldConstraint ''timeout_seconds'') else None,
      (case validate_env_allowlist (env_allowlist c) of
         Inl _ \<Rightarrow> Some (FieldConstraint ''env_allowlist'') | Inr _ \<Rightarrow> None),
      if isolation c = Docker then validate_docker_image (docker_image c) else None]"

subsection \<open>The whole configuration\<close>

record route_mapping =
  rm_role :: role
  rm_profiles :: "string list"

record northstack_config =
  cfg_name :: string
  profiles :: "model_profile list"
  commands :: "command_config list"
  run_settings :: run_config
  routing :: "route_mapping list"

definition config_profile :: "northstack_config \<Rightarrow> string \<Rightarrow> model_profile option" where
  "config_profile cfg n = find (\<lambda>p. mp_name p = n) (profiles cfg)"

text \<open>A dict comprehension: a later entry of a role would win.\<close>

definition role_map :: "northstack_config \<Rightarrow> role \<rightharpoonup> string list" where
  "role_map cfg = map_of (rev (map (\<lambda>e. (rm_role e, rm_profiles e)) (routing cfg)))"

definition check_unique :: "string list \<Rightarrow> string \<Rightarrow> config_error option" where
  "check_unique items kind =
     (let folded = map casefold items
      in if distinct folded then None
         else Some (DuplicateNames kind
           (filter (\<lambda>i. 1 < length (filter (\<lambda>f. f = casefold i) folded)) items)))"

fun validate_routes ::
  "model_profile list \<Rightarrow> role list \<Rightarrow> route_mapping list \<Rightarrow> config_error option" where
  "validate_routes ps seen [] = None"
| "validate_routes ps seen (e # es) =
     (if rm_role e \<in> set seen then Some (DuplicateRoute (role_value (rm_role e)))
      else let missing = filter (\<lambda>n. n \<notin> mp_name ` set ps) (rm_profiles e)
      in if missing \<noteq> [] then Some (UnknownRouteProfiles (role_value (rm_role e)) missing)
      else case find (\<lambda>n. case find (\<lambda>p. mp_name p = n) ps of
                 None \<Rightarrow> True | Some p \<Rightarrow> rm_role e \<notin> roles p) (rm_profiles e) of
             Some n \<Rightarrow> Some (RoleNotDeclared n (role_value (rm_role e)))
           | None \<Rightarrow> validate_routes ps (rm_role e # seen) es)"

definition validate_config :: "(string \<Rightarrow> bool option) \<Rightarrow> northstack_config \<Rightarrow> config_error option" where
  "validate_config ip_loopback cfg = first_error
     ((if cfg_name cfg = [] then Some (FieldConstraint ''name'') else None)
      # map (validate_profile ip_loopback) (profiles cfg)
      @ map validate_command (commands cfg)
      @ [if list_ex (\<lambda>e. rm_profiles e = []) (routing cfg)
         then Some (FieldConstraint ''routing'') else None,
         check_unique (map mp_name (profiles cfg)) ''profile names'',
         check_unique (map cc_name (commands cfg)) ''command names'',
         validate_routes (profiles cfg) [] (routing cfg)])"

subsection \<open>What a valid configuration guarantees\<close>

lemma validate_provider_url_secure:
  "validate_provider_url ipl u credentialed insecure = None \<Longrightarrow> credentialed \<Longrightarrow>
     url_scheme u = ''https'' \<or> is_loopback_host ipl (url_hostname u) \<or> insecure"
  by (simp add: validate_provider_url_def split: if_splits) blast

lemma find_name_Some: "find (\<lambda>p. mp_name p = n) ps = Some p \<Longrightarrow> p \<in> set ps \<and> mp_name p = n"
  by (auto simp: find_Some_iff)

lemma find_name_unique:
  "distinct (map mp_name ps) \<Longrightarrow> p \<in> set ps \<Longrightarrow> find (\<lambda>q. mp_name q = mp_name p) ps = Some p"
  by (induction ps) auto

lemma validate_routes_ok:
  "validate_routes ps seen es = None \<Longrightarrow> e \<in> set es \<Longrightarrow>
     list_all (\<lambda>n. \<exists>p \<in> set ps. mp_name p = n \<and> rm_role e \<in> roles p) (rm_profiles e)"
proof (induction es arbitrary: seen)
  case Nil
  then show ?case by simp
next
  case (Cons x es)
  from Cons.prems(1) have here: "find (\<lambda>n. case find (\<lambda>p. mp_name p = n) ps of
        None \<Rightarrow> True | Some p \<Rightarrow> rm_role x \<notin> roles p) (rm_profiles x) = None"
    and rest: "validate_routes ps (rm_role x # seen) es = None"
    by (auto simp: Let_def split: if_splits option.splits)
  show ?case
  proof (cases "e = x")
    case True
    have "\<exists>p \<in> set ps. mp_name p = n \<and> rm_role e \<in> roles p" if "n \<in> set (rm_profiles x)" for n
    proof (cases "find (\<lambda>p. mp_name p = n) ps")
      case None
      with here that show ?thesis
        by (auto simp: find_None_iff [of "\<lambda>n. case _ n of None \<Rightarrow> _ | Some p \<Rightarrow> _ p"])
    next
      case (Some p)
      with here that True have "rm_role e \<in> roles p"
        by (auto simp: find_None_iff [of "\<lambda>n. case _ n of None \<Rightarrow> _ | Some p \<Rightarrow> _ p"])
      with find_name_Some [OF Some] show ?thesis by blast
    qed
    with True show ?thesis by (simp add: list_all_iff)
  next
    case False
    with Cons.prems(2) Cons.IH [OF rest] show ?thesis by simp
  qed
qed

lemma validate_routes_distinct:
  "validate_routes ps seen es = None \<Longrightarrow>
     distinct (map rm_role es) \<and> set seen \<inter> rm_role ` set es = {}"
proof (induction es arbitrary: seen)
  case Nil
  then show ?case by simp
next
  case (Cons x es)
  then have "validate_routes ps (rm_role x # seen) es = None" "rm_role x \<notin> set seen"
    by (auto simp: Let_def split: if_splits option.splits)
  with Cons.IH [of "rm_role x # seen"] show ?case by auto
qed

lemma role_map_entry:
  "role_map cfg r = Some names \<Longrightarrow> \<exists>e \<in> set (routing cfg). rm_role e = r \<and> rm_profiles e = names"
  by (auto simp: role_map_def dest!: map_of_SomeD)

lemma casefold_distinct: "check_unique items k = None \<Longrightarrow> distinct items"
  by (auto simp: check_unique_def Let_def distinct_map split: if_splits)

text \<open>Every profile is valid on its own, names are unique, and each routed name is a profile
  that declares the role it is routed to.\<close>

definition config_ok :: "(string \<Rightarrow> bool option) \<Rightarrow> northstack_config \<Rightarrow> bool" where
  "config_ok ip_loopback cfg \<longleftrightarrow> validate_config ip_loopback cfg = None"

lemma config_ok_routes:
  assumes "config_ok ipl cfg" "role_map cfg r = Some names"
  shows "names \<noteq> [] \<and>
    list_all (\<lambda>n. \<exists>p. config_profile cfg n = Some p \<and> mp_name p = n \<and> r \<in> roles p) names"
proof -
  from role_map_entry [OF assms(2)] obtain e where e: "e \<in> set (routing cfg)" "rm_role e = r"
    "rm_profiles e = names" by blast
  from assms(1) have v: "validate_routes (profiles cfg) [] (routing cfg) = None"
    and u: "check_unique (map mp_name (profiles cfg)) ''profile names'' = None"
    and ne: "\<not> list_ex (\<lambda>e. rm_profiles e = []) (routing cfg)"
    by (auto simp: config_ok_def validate_config_def split: if_splits)
  have "config_profile cfg (mp_name p) = Some p" if "p \<in> set (profiles cfg)" for p
    unfolding config_profile_def using casefold_distinct [OF u] that by (rule find_name_unique)
  with validate_routes_ok [OF v e(1)] e ne show ?thesis
    by (fastforce simp: list_all_iff list_ex_iff)
qed

subsection \<open>Properties\<close>

definition sample_profile :: "string \<Rightarrow> role set \<Rightarrow> rat \<Rightarrow> model_profile" where
  "sample_profile n rs price = \<lparr>mp_name = n, protocol = OPENAI_CHAT,
     base_url = \<lparr>url_scheme = ''https'', url_username = [], url_password = [], url_query = [],
        url_fragment = [], url_hostname = Some ''api.example''\<rparr>,
     model_id = ''m'', api_key_env = Some ''KEY'', allow_insecure_http = False, roles = rs,
     capabilities = {TOOL_USE}, max_concurrency = 1, requests_per_minute = 60,
     context_window_tokens = 128000, max_output_tokens = 4096, request_timeout_seconds = 300,
     strict_stream_completion = True, transport_retries = 2,
     transport_retry_backoff_seconds = [3 / 2, 6], input_price_per_million_usd = price,
     output_price_per_million_usd = price, auth_header = None, extra_headers = [],
     extra_query = [], token_limit_param = ''max_tokens''\<rparr>"

definition sample_config :: northstack_config where
  "sample_config = \<lparr>cfg_name = ''n'', profiles = [sample_profile ''cheap'' {WORKER} 1,
       sample_profile ''strong'' {WORKER, REVIEWER} 20], commands = [],
     run_settings = \<lparr>default_budget_tokens = 100000, default_budget_cost_usd = 5,
       stall_window_seconds = 0, planner_mode = ''single'', falsifier_mode = ''off'',
       calibration_path = [], memory_enabled = False\<rparr>,
     routing = [\<lparr>rm_role = WORKER, rm_profiles = [''cheap'', ''strong'']\<rparr>,
       \<lparr>rm_role = REVIEWER, rm_profiles = [''strong'']\<rparr>]\<rparr>"

lemma sample_config_ok: "config_ok (\<lambda>_. None) sample_config"
  by (simp add: config_ok_def validate_config_def sample_config_def sample_profile_def
      validate_profile_def profile_fields_def reject_credential_headers_def
      validate_auth_header_def reject_credential_query_def validate_base_url_policy_def
      validate_provider_url_def check_unique_def) code_simp

text \<open>A configuration that loads is routable and safe to hand credentials to.  Each role's
  fallback chain is non-empty and names existing profiles that declare the role, profile names
  are unique even when case is ignored, and a profile that carries a key goes over
  \<^verbatim>\<open>https\<close> or to loopback unless the operator opted out.\<close>

theorem valid_config_sound:
  assumes "config_ok ip_loopback cfg"
  shows "(case role_map cfg r of
            None \<Rightarrow> True
          | Some names \<Rightarrow> names \<noteq> [] \<and> list_all (\<lambda>n. case config_profile cfg n of
              None \<Rightarrow> False | Some p \<Rightarrow> mp_name p = n \<and> r \<in> roles p) names)
       \<and> distinct (map casefold (map mp_name (profiles cfg)))
       \<and> list_all (\<lambda>p. api_key_env p = None \<or> url_scheme (base_url p) = ''https''
            \<or> is_loopback_host ip_loopback (url_hostname (base_url p)) \<or> allow_insecure_http p)
          (profiles cfg)"
proof -
  have u: "distinct (map casefold (map mp_name (profiles cfg)))"
    using assms by (auto simp: config_ok_def validate_config_def check_unique_def Let_def split: if_splits)
  have "validate_provider_url ip_loopback (base_url p) (api_key_env p \<noteq> None)
      (allow_insecure_http p) = None" if "p \<in> set (profiles cfg)" for p
  proof -
    from assms that have "validate_profile ip_loopback p = None"
      by (simp add: config_ok_def validate_config_def list_all_iff)
    then show ?thesis
      by (simp add: validate_profile_def validate_base_url_policy_def split: if_splits)
  qed
  from validate_provider_url_secure [OF this]
  have "api_key_env p = None \<or> url_scheme (base_url p) = ''https''
      \<or> is_loopback_host ip_loopback (url_hostname (base_url p)) \<or> allow_insecure_http p"
    if "p \<in> set (profiles cfg)" for p
    using that by (cases "api_key_env p = None") auto
  then have "list_all (\<lambda>p. api_key_env p = None \<or> url_scheme (base_url p) = ''https''
      \<or> is_loopback_host ip_loopback (url_hostname (base_url p)) \<or> allow_insecure_http p)
      (profiles cfg)"
    by (simp only: list_all_iff) blast
  moreover have "names \<noteq> [] \<and> list_all (\<lambda>n. case config_profile cfg n of
      None \<Rightarrow> False | Some p \<Rightarrow> mp_name p = n \<and> r \<in> roles p) names"
    if "role_map cfg r = Some names" for names
    using config_ok_routes [OF assms that] by (simp add: list_all_iff) (auto split: option.split)
  ultimately show ?thesis using u by (simp split: option.split)
qed

theorem valid_config_sound_witness:
  "case role_map sample_config WORKER of
     Some names \<Rightarrow> list_all (\<lambda>n. case config_profile sample_config n of
       None \<Rightarrow> False | Some p \<Rightarrow> mp_name p = n \<and> WORKER \<in> roles p) names
   | None \<Rightarrow> False"
proof -
  have "role_map sample_config WORKER = Some [''cheap'', ''strong'']"
    by (simp add: role_map_def sample_config_def)
  with valid_config_sound [OF sample_config_ok, of WORKER] show ?thesis by simp
qed

end
