(* ===== verification/Routing.thy ===== *)
theory Routing
  imports Config
begin

section \<open>Routing a cell onto a model profile (application/routing.py)\<close>

text \<open>
  Scores are exact rationals.  The ranking is Python's stable sort with \<^verbatim>\<open>reverse=True\<close>,
  which keeps the order of equal scores, so it is the stable sort by the negated score.
\<close>

record candidate =
  cand_profile :: string
  cand_score :: rat
  cand_reason :: string
  cand_tier :: nat

record route_decision =
  rd_cell_id :: cell_id
  candidates :: "candidate list"
  selected_profile :: string
  rd_reason :: string
  rd_abstained :: bool

text \<open>\<^verbatim>\<open>_TIER_SCORE[mode].get(tier, 1.0)\<close>.\<close>

fun tier_score :: "cell_mode \<Rightarrow> nat \<Rightarrow> rat" where
  "tier_score MUTATING t = (if t = 1 then 1 else if t = 2 then 2 else if t = 3 then 3 else 1)"
| "tier_score READ_ONLY t = (if t = 1 then 3 else if t = 2 then 2 else if t = 3 then 1 else 1)"

fun index_of :: "'a \<Rightarrow> 'a list \<Rightarrow> nat" where
  "index_of x [] = 0"
| "index_of x (y # ys) = (if x = y then 0 else Suc (index_of x ys))"

text \<open>The router's table, by role value.\<close>

definition role_table :: "northstack_config \<Rightarrow> (string \<times> string list) list" where
  "role_table cfg = map (\<lambda>e. (role_value (rm_role e), rm_profiles e)) (routing cfg)"

definition table_get :: "(string \<times> string list) list \<Rightarrow> string \<Rightarrow> string list" where
  "table_get tbl r = (case map_of (rev tbl) r of None \<Rightarrow> [] | Some names \<Rightarrow> names)"

text \<open>\<^verbatim>\<open>role_order\<close>: the required roles that list the profile, with its rank.\<close>

definition role_order ::
  "(string \<times> string list) list \<Rightarrow> string list \<Rightarrow> string \<Rightarrow> (string \<times> nat) list" where
  "role_order tbl required name =
     map (\<lambda>r. (r, index_of name (table_get tbl r)))
       (filter (\<lambda>r. name \<in> set (table_get tbl r)) (remdups required))"

text \<open>A tier-3 profile is withheld when little money is left, but not when none is.\<close>

definition too_dear :: "remaining_budget option \<Rightarrow> model_profile \<Rightarrow> bool" where
  "too_dear rb p \<longleftrightarrow>
     (case rb of None \<Rightarrow> False
      | Some b \<Rightarrow> 3 \<le> profile_tier p
          \<and> (case rem_cost_usd b of None \<Rightarrow> False | Some c \<Rightarrow> 0 < c \<and> c < 1))"

definition score_profile ::
  "northstack_config \<Rightarrow> model_profile \<Rightarrow> graph_cell \<Rightarrow> remaining_budget option \<Rightarrow> capability set
     \<Rightarrow> candidate option" where
  "score_profile cfg p cell rb required_caps =
     (let required = required_profile_roles cell;
          tbl = role_table cfg;
          order = (if tbl \<noteq> [] \<and> required \<noteq> [] then role_order tbl required (mp_name p) else [])
      in if tbl \<noteq> [] \<and> required \<noteq> [] \<and> order = [] then None
         else if tbl = [] \<and> required \<noteq> [] \<and> set required \<inter> role_value ` roles p = {} then None
         else if \<not> required_caps \<subseteq> capabilities p then None
         else if too_dear rb p then None
         else
           (let (base, reason) =
              (if order \<noteq> []
               then (let best = Min (snd ` set order)
                     in ((1000 - of_nat best) * 10,
                         ''role order '' @ show_nat best @ '' for ''
                           @ list_repr (sort (map fst order))))
               else (tier_score (mode cell) (profile_tier p),
                     ''tier-'' @ show_nat (profile_tier p) @ '' for '' @ cell_mode_value (mode cell)));
              (score, reasons) =
              (if 1 < max_concurrency p then (base + 1 / 2, [reason, ''high concurrency''])
               else (base, [reason]))
            in Some \<lparr>cand_profile = mp_name p, cand_score = score,
                 cand_reason = str_join ''; '' reasons, cand_tier = profile_tier p\<rparr>))"

text \<open>Capability names the enum does not know are ignored.\<close>

definition required_caps_of :: "capability set \<Rightarrow> graph_cell \<Rightarrow> capability set" where
  "required_caps_of extra cell =
     extra \<union> set (List.map_filter parse_capability (required_capabilities cell))"

definition route_cell ::
  "northstack_config \<Rightarrow> graph_cell \<Rightarrow> remaining_budget option \<Rightarrow> string list \<Rightarrow> capability set
     \<Rightarrow> route_decision" where
  "route_cell cfg cell rb excluded extra =
     (let caps = required_caps_of extra cell;
          cands = List.map_filter (\<lambda>p. score_profile cfg p cell rb caps)
                    (filter (\<lambda>p. mp_name p \<notin> set excluded) (profiles cfg));
          ranked = sort_key (\<lambda>c. - cand_score c) cands
      in case ranked of
           [] \<Rightarrow> \<lparr>rd_cell_id = gc_id cell, candidates = [], selected_profile = [],
                  rd_reason = ''no eligible profile found'', rd_abstained = True\<rparr>
         | best # _ \<Rightarrow> \<lparr>rd_cell_id = gc_id cell, candidates = ranked,
                  selected_profile = cand_profile best, rd_reason = cand_reason best,
                  rd_abstained = False\<rparr>)"

subsection \<open>Eligibility\<close>

definition eligible ::
  "northstack_config \<Rightarrow> graph_cell \<Rightarrow> remaining_budget option \<Rightarrow> string list \<Rightarrow> capability set
     \<Rightarrow> model_profile \<Rightarrow> bool" where
  "eligible cfg cell rb excluded extra p \<longleftrightarrow>
     p \<in> set (profiles cfg) \<and> mp_name p \<notin> set excluded
     \<and> (required_profile_roles cell = []
        \<or> (if routing cfg = [] then set (required_profile_roles cell) \<inter> role_value ` roles p \<noteq> {}
           else list_ex (\<lambda>r. mp_name p \<in> set (table_get (role_table cfg) r)) (required_profile_roles cell)))
     \<and> required_caps_of extra cell \<subseteq> capabilities p
     \<and> \<not> too_dear rb p"

lemma role_order_Nil:
  "role_order tbl required n = [] \<longleftrightarrow> \<not> list_ex (\<lambda>r. n \<in> set (table_get tbl r)) required"
  by (auto simp: role_order_def filter_empty_iff list_ex_iff)

lemma eligibleD:
  "eligible cfg cell rb excluded extra p \<Longrightarrow> p \<in> set (profiles cfg) \<and> mp_name p \<notin> set excluded"
  by (simp add: eligible_def)

text \<open>The score an eligible profile gets.\<close>

definition profile_score :: "northstack_config \<Rightarrow> graph_cell \<Rightarrow> model_profile \<Rightarrow> rat" where
  "profile_score cfg cell p =
     (let order = (if routing cfg \<noteq> [] \<and> required_profile_roles cell \<noteq> []
                   then role_order (role_table cfg) (required_profile_roles cell) (mp_name p) else [])
      in (if order \<noteq> [] then (1000 - of_nat (Min (snd ` set order))) * 10
          else tier_score (mode cell) (profile_tier p))
         + (if 1 < max_concurrency p then 1 / 2 else 0))"

lemma role_table_Nil [simp]: "role_table cfg = [] \<longleftrightarrow> routing cfg = []"
  by (simp add: role_table_def)

lemma score_profile_eligible:
  assumes "p \<in> set (profiles cfg)" "mp_name p \<notin> set excluded"
  shows "case score_profile cfg p cell rb (required_caps_of extra cell) of
      None \<Rightarrow> \<not> eligible cfg cell rb excluded extra p
    | Some c \<Rightarrow> eligible cfg cell rb excluded extra p \<and> cand_profile c = mp_name p
        \<and> cand_score c = profile_score cfg cell p"
  using assms by (auto simp: score_profile_def eligible_def Let_def role_order_Nil profile_score_def)

text \<open>The candidates are the eligible profiles in the order of the configuration.\<close>

lemma route_candidates:
  "List.map_filter (\<lambda>p. score_profile cfg p cell rb (required_caps_of extra cell))
     (filter (\<lambda>p. mp_name p \<notin> set excluded) ps)
   = map (\<lambda>p. the (score_profile cfg p cell rb (required_caps_of extra cell)))
       (filter (eligible cfg cell rb excluded extra) ps)"
  if "set ps \<subseteq> set (profiles cfg)"
  using that
proof (induction ps)
  case Nil
  show ?case by (simp add: List.map_filter_def)
next
  case (Cons p ps)
  then show ?case
    using score_profile_eligible [of p cfg excluded cell rb extra]
    by (cases "mp_name p \<in> set excluded")
      (auto simp: List.map_filter_def dest: eligibleD split: option.splits)
qed

lemma sort_key_hd_max:
  assumes "sort_key (\<lambda>c. - f c) cs = best # rest"
  shows "best \<in> set cs \<and> list_all (\<lambda>c. (f c :: rat) \<le> f best) cs"
proof -
  have "sorted (map (\<lambda>c. - f c) (best # rest))"
    by (metis assms sorted_sort_key)
  moreover have "set cs = set (best # rest)" by (metis assms set_sort)
  ultimately show ?thesis by (auto simp: list_all_iff)
qed

lemma route_cell_best:
  assumes "\<not> rd_abstained (route_cell cfg cell rb excluded extra)"
  shows "\<exists>p. eligible cfg cell rb excluded extra p
    \<and> mp_name p = selected_profile (route_cell cfg cell rb excluded extra)
    \<and> (\<forall>q. eligible cfg cell rb excluded extra q \<longrightarrow> profile_score cfg cell q \<le> profile_score cfg cell p)"
proof -
  let ?sc = "\<lambda>p. the (score_profile cfg p cell rb (required_caps_of extra cell))"
  let ?el = "filter (eligible cfg cell rb excluded extra) (profiles cfg)"
  have sc: "cand_profile (?sc p) = mp_name p" "cand_score (?sc p) = profile_score cfg cell p"
    if "eligible cfg cell rb excluded extra p" for p
    using score_profile_eligible [of p cfg excluded cell rb extra] that
    by (auto simp: eligible_def split: option.splits)
  obtain best rest where best: "sort_key (\<lambda>c. - cand_score c) (map ?sc ?el) = best # rest"
    "selected_profile (route_cell cfg cell rb excluded extra) = cand_profile best"
    using assms by (auto simp: route_cell_def Let_def route_candidates split: list.splits)
  from sort_key_hd_max [OF best(1)] obtain p where p: "eligible cfg cell rb excluded extra p"
    "best = ?sc p" and mx: "list_all (\<lambda>c. cand_score c \<le> cand_score best) (map ?sc ?el)"
    by auto
  have "profile_score cfg cell q \<le> profile_score cfg cell p"
    if "eligible cfg cell rb excluded extra q" for q
    using mx that p sc by (auto simp: list_all_iff eligible_def)
  with p sc best(2) show ?thesis by metis
qed

lemma route_cell_abstained:
  "rd_abstained (route_cell cfg cell rb excluded extra) \<longleftrightarrow>
     filter (eligible cfg cell rb excluded extra) (profiles cfg) = []"
proof -
  have nil: "sort_key (\<lambda>c. - cand_score c) cs = [] \<longleftrightarrow> cs = []" for cs :: "candidate list"
    by (metis length_0_conv length_sort)
  show ?thesis
    by (simp add: route_cell_def Let_def route_candidates split: list.split) (metis nil list.distinct(1) map_is_Nil_conv)
qed

lemma index_of_less: "x \<in> set xs \<Longrightarrow> index_of x xs < length xs \<and> xs ! index_of x xs = x"
  by (induction xs) auto

lemma index_of_inj: "x \<in> set xs \<Longrightarrow> y \<in> set xs \<Longrightarrow> index_of x xs = index_of y xs \<Longrightarrow> x = y"
  by (metis index_of_less)

lemma find_index_least:
  "find P xs = Some x \<Longrightarrow> y \<in> set xs \<Longrightarrow> P y \<Longrightarrow> index_of x xs \<le> index_of y xs"
  by (induction xs) (auto split: if_splits)

text \<open>For a single required role of the table, the rank in the chain decides.\<close>

lemma profile_score_chain:
  assumes "routing cfg \<noteq> []" "required_profile_roles cell = [r]"
    and "mp_name p \<in> set (table_get (role_table cfg) r)"
  shows "profile_score cfg cell p =
    (1000 - of_nat (index_of (mp_name p) (table_get (role_table cfg) r))) * 10
      + (if 1 < max_concurrency p then 1 / 2 else 0)"
  using assms by (simp add: profile_score_def role_order_def)

lemma eligible_in_chain:
  "eligible cfg cell rb excluded extra p \<Longrightarrow> routing cfg \<noteq> [] \<Longrightarrow> required_profile_roles cell = [r] \<Longrightarrow>
     mp_name p \<in> set (table_get (role_table cfg) r)"
  by (simp add: eligible_def)

lemma chain_rank:
  assumes "routing cfg \<noteq> []" "required_profile_roles cell = [r]"
    and "eligible cfg cell rb excluded extra p" "eligible cfg cell rb excluded extra q"
    and "profile_score cfg cell q \<le> profile_score cfg cell p"
  shows "index_of (mp_name p) (table_get (role_table cfg) r)
    \<le> index_of (mp_name q) (table_get (role_table cfg) r)"
proof -
  let ?i = "index_of (mp_name p) (table_get (role_table cfg) r)"
  let ?j = "index_of (mp_name q) (table_get (role_table cfg) r)"
  have "(of_nat ?i :: rat) \<le> of_nat ?j + 1 / 20"
    using assms(5) profile_score_chain [OF assms(1,2) eligible_in_chain [OF assms(3,1,2)]]
      profile_score_chain [OF assms(1,2) eligible_in_chain [OF assms(4,1,2)]]
    by (auto split: if_splits)
  then have "(of_nat ?i :: rat) < of_nat (Suc ?j)" by simp
  then show ?thesis by (simp only: of_nat_less_iff)
qed

subsection \<open>Properties\<close>

text \<open>The router abstains only when no profile is eligible; otherwise it selects an eligible
  profile (configured, not excluded, filling a required role, with every known required
  capability, and not too dear for what is left) whose score no eligible profile exceeds.\<close>

theorem route_selects_best:
  "let d = route_cell cfg cell rb excluded extra;
       el = filter (eligible cfg cell rb excluded extra) (profiles cfg)
   in if rd_abstained d then el = [] \<and> selected_profile d = []
      else list_ex (\<lambda>p. mp_name p = selected_profile d
             \<and> list_all (\<lambda>q. profile_score cfg cell q \<le> profile_score cfg cell p) el) el"
proof (cases "rd_abstained (route_cell cfg cell rb excluded extra)")
  case True
  then have "selected_profile (route_cell cfg cell rb excluded extra) = []"
    by (auto simp: route_cell_def Let_def split: list.splits)
  with True show ?thesis by (simp add: Let_def route_cell_abstained [symmetric])
next
  case False
  from route_cell_best [OF False] False show ?thesis
    by (auto simp: Let_def list_ex_iff list_all_iff eligible_def)
qed

text \<open>An operator's fallback chain is honoured.  For a cell that requires one role of a routing
  table, the selected profile is the first name of the role's chain that has an eligible
  profile, whatever the profiles' prices and concurrency; the router abstains when the chain
  has none.\<close>

theorem fallback_chain_in_order:
  assumes "routing cfg \<noteq> []" and "required_profile_roles cell = [r]"
  shows "find (\<lambda>n. list_ex (\<lambda>p. mp_name p = n \<and> eligible cfg cell rb excluded extra p) (profiles cfg))
           (table_get (role_table cfg) r)
       = (if rd_abstained (route_cell cfg cell rb excluded extra) then None
          else Some (selected_profile (route_cell cfg cell rb excluded extra)))"
    (is "find ?P ?chain = _")
proof (cases "rd_abstained (route_cell cfg cell rb excluded extra)")
  case True
  then have "\<not> ?P n" for n
    using route_cell_abstained [of cfg cell rb excluded extra]
    by (auto simp: list_ex_iff filter_empty_iff)
  with True show ?thesis by (simp add: find_None_iff)
next
  case False
  from route_cell_best [OF False] obtain p where p: "eligible cfg cell rb excluded extra p"
    "mp_name p = selected_profile (route_cell cfg cell rb excluded extra)"
    and best: "\<And>q. eligible cfg cell rb excluded extra q \<Longrightarrow>
      profile_score cfg cell q \<le> profile_score cfg cell p" by blast
  have pc: "mp_name p \<in> set ?chain" and pP: "?P (mp_name p)"
    using eligible_in_chain [OF p(1) assms] p(1) by (auto simp: list_ex_iff dest: eligibleD)
  then obtain n where n: "find ?P ?chain = Some n"
    by (cases "find ?P ?chain") (auto simp: find_None_iff)
  then have "?P n" "n \<in> set ?chain" by (auto simp: find_Some_iff)
  then obtain q where q: "mp_name q = n" "eligible cfg cell rb excluded extra q"
    by (auto simp: list_ex_iff)
  have "index_of (mp_name p) ?chain \<le> index_of n ?chain"
    using chain_rank [OF assms p(1) q(2) best [OF q(2)]] q(1) by simp
  with find_index_least [where P = ?P, OF n pc pP] have "n = mp_name p"
    using index_of_inj [OF \<open>n \<in> set ?chain\<close> pc] by simp
  with n p(2) False show ?thesis by simp
qed

definition sample_cell :: "string \<Rightarrow> string list \<Rightarrow> cell_mode \<Rightarrow> cell_id list \<Rightarrow> nat \<Rightarrow> graph_cell" where
  "sample_cell i rs m deps w = \<lparr>gc_id = i, gc_name = i, wave = w, required_capabilities = [],
     mode = m, input_schema = [], output_schema = [], required_profile_roles = rs,
     dependencies = deps, acceptance_criterion_indices = [],
     contract = base_contract i i default_budget, gc_status = Cell_PENDING\<rparr>"

theorem fallback_chain_in_order_witness:
  "selected_profile (route_cell sample_config (sample_cell ''c'' [''worker''] MUTATING [] 0) None
     [''cheap''] {TOOL_USE}) = ''strong''"
proof -
  let ?d = "route_cell sample_config (sample_cell ''c'' [''worker''] MUTATING [] 0) None [''cheap''] {TOOL_USE}"
  have "find (\<lambda>n. list_ex (\<lambda>p. mp_name p = n \<and> eligible sample_config
        (sample_cell ''c'' [''worker''] MUTATING [] 0) None [''cheap''] {TOOL_USE} p) (profiles sample_config))
      (table_get (role_table sample_config) ''worker'') = Some ''strong''"
    by (simp add: eligible_def sample_config_def sample_profile_def sample_cell_def table_get_def
        role_table_def required_caps_of_def too_dear_def List.map_filter_def)
  with fallback_chain_in_order [of sample_config "sample_cell ''c'' [''worker''] MUTATING [] 0"
      "''worker''" None "[''cheap'']" "{TOOL_USE}"]
  show ?thesis by (simp add: sample_config_def sample_cell_def split: if_splits)
qed

end
