(* ===== verification/Cell_Runner.thy ===== *)
theory Cell_Runner
  imports Wire Retry Routing Events
begin

section \<open>The per-cell attempt loop (application/cell_runner.py)\<close>

text \<open>
  \<^verbatim>\<open>CellRunner.run_cell\<close> as a function from the run's mutable state to the run's mutable
  state.  What is mutated is the record \<open>cell_state\<close>: usage, the evidence map, the tools used,
  the budget authority, the retry policy, the emitted payloads, the stored artifacts, the
  checkpoints and the memory.  The worker and the memory are behind protocols in the source;
  here the worker is an argument that yields the steps and the end of each attempt.  The
  \<^verbatim>\<open>while True\<close> runs on fuel, and \<open>attempts_suffice\<close> shows how much is enough.
\<close>

record runner_env =
  worker :: "graph_cell \<Rightarrow> string \<Rightarrow> tool_definition list \<Rightarrow> string
      \<Rightarrow> model_message list option \<Rightarrow> nat \<Rightarrow> worker_attempt"
  env_config :: northstack_config
  artifact_digest_of :: "string \<Rightarrow> digest"
  has_resume_dir :: bool
  recall :: "(string \<Rightarrow> string list option) option"

record cell_state =
  used :: budget_usage
  evidence_digests :: "int \<rightharpoonup> digest"
  tools_used :: "string list"
  auth :: authority
  retry :: retry_policy
  emitted :: "payload list"
  stored :: "artifact_ref list"
  checkpoints :: "cell_id \<rightharpoonup> model_message list"
  remembered :: "(string \<times> run_id) list"

definition emit_payload :: "payload \<Rightarrow> cell_state \<Rightarrow> cell_state" where
  "emit_payload p st = st\<lparr>emitted := emitted st @ [p]\<rparr>"

text \<open>\<^verbatim>\<open>_RETRY_ACTIONS\<close>, \<^verbatim>\<open>_ABSTAIN_ACTIONS\<close>.\<close>

definition retry_actions :: "recovery_action list" where
  "retry_actions = [BACKOFF_RETRY, CHANGED_STRATEGY_RETRY]"

definition abstain_actions :: "recovery_action list" where
  "abstain_actions = [ABSTAIN, CONTRACT_AMENDMENT, SPLIT_REPLAN, SCOPE_REDUCTION]"

definition recovery_backoff_delay :: "nat \<Rightarrow> rat" where
  "recovery_backoff_delay attempt = min (1 / 2 * 2 ^ (attempt - 1)) 8"

text \<open>\<^verbatim>\<open>_progress_sink\<close>: only scalar details reach the ledger.\<close>

fun scalar :: "json \<Rightarrow> bool" where
  "scalar (JStr _) = True"
| "scalar (JInt _) = True"
| "scalar (JFloat _) = True"
| "scalar (JBool _) = True"
| "scalar _ = False"

definition progress_payload :: "cell_id \<Rightarrow> nat \<Rightarrow> worker_event \<Rightarrow> payload" where
  "progress_payload cid attempt ev = CellProgress cid (worker_event_value (we_kind ev)) attempt
     (we_turn ev) (filter (\<lambda>(k, v). scalar v) (we_detail ev))"

text \<open>\<^verbatim>\<open>_coerce_error_kind\<close>.\<close>

definition coerce_error_kind :: "string \<Rightarrow> worker_error_kind" where
  "coerce_error_kind error_kind =
     (case parse_worker_error error_kind of
        Some k \<Rightarrow> k
      | None \<Rightarrow> if error_kind = ''rate_limit'' \<or> error_kind = ''timeout'' then Err_PROVIDER
                else Err_PROVIDER)"

definition failure_of :: "string \<Rightarrow> failure_type" where
  "failure_of error_kind = worker_error_to_failure (coerce_error_kind error_kind)"

fun cell_mode_name :: "cell_mode \<Rightarrow> string" where
  "cell_mode_name READ_ONLY = ''CellMode.READ_ONLY''"
| "cell_mode_name MUTATING = ''CellMode.MUTATING''"

definition tool_plan_fingerprint :: "graph_cell \<Rightarrow> string \<Rightarrow> string" where
  "tool_plan_fingerprint cell selected = cell_mode_name (mode cell) @ '':'' @ selected"

definition evidence_digest_so_far :: "graph_cell \<Rightarrow> string" where
  "evidence_digest_so_far cell = []"

definition attempt_signature_of :: "work_contract \<Rightarrow> graph_cell \<Rightarrow> string \<Rightarrow> attempt_signature" where
  "attempt_signature_of wc cell selected = \<lparr>sig_contract_version = wc_version wc,
     sig_cell_id = gc_id cell, profile_name = selected, strategy_id = [],
     tool_plan = tool_plan_fingerprint cell selected,
     sig_evidence_digest = evidence_digest_so_far cell\<rparr>"

text \<open>\<^verbatim>\<open>_recalled_prompt\<close>: \<open>recall\<close> yields \<open>None\<close> when the memory raises.\<close>

definition recalled_prompt :: "runner_env \<Rightarrow> graph_cell \<Rightarrow> string" where
  "recalled_prompt env cell =
     (case recall env of
        None \<Rightarrow> []
      | Some memory \<Rightarrow>
          (case memory (objective (contract cell)) of
             None \<Rightarrow> []
           | Some found \<Rightarrow>
               if found = [] then []
               else ''Prior knowledge from earlier runs (advisory -- verify before relying on it):''
                 @ [CHR 0x0A] @ str_join [CHR 0x0A] (map (\<lambda>m. ''- '' @ m) found)))"

definition remember_outcome :: "runner_env \<Rightarrow> graph_cell \<Rightarrow> run_id \<Rightarrow> worker_result \<Rightarrow> cell_state \<Rightarrow> cell_state" where
  "remember_outcome env cell r res st =
     (case recall env of
        None \<Rightarrow> st
      | Some _ \<Rightarrow> st\<lparr>remembered := remembered st @
          [(gc_name cell @ '': '' @ objective (contract cell) @ [CHR 0x0A] @ ''Outcome: '' @ wr_text res, r)]\<rparr>)"

definition write_checkpoint :: "runner_env \<Rightarrow> cell_id \<Rightarrow> model_message list \<Rightarrow> cell_state \<Rightarrow> cell_state" where
  "write_checkpoint env cid ms st =
     (if has_resume_dir env then st\<lparr>checkpoints := (checkpoints st)(cid \<mapsto> ms)\<rparr> else st)"

definition load_checkpoint :: "runner_env \<Rightarrow> cell_id \<Rightarrow> cell_state \<Rightarrow> model_message list option" where
  "load_checkpoint env cid st = (if has_resume_dir env then checkpoints st cid else None)"

definition clear_checkpoint :: "runner_env \<Rightarrow> cell_id \<Rightarrow> cell_state \<Rightarrow> cell_state" where
  "clear_checkpoint env cid st =
     (if has_resume_dir env then st\<lparr>checkpoints := (checkpoints st)(cid := None)\<rparr> else st)"

text \<open>The callbacks an attempt makes, in order.\<close>

fun worker_steps :: "runner_env \<Rightarrow> cell_id \<Rightarrow> nat \<Rightarrow> worker_step list \<Rightarrow> cell_state \<Rightarrow> cell_state" where
  "worker_steps env cid attempt [] st = st"
| "worker_steps env cid attempt (Publish ev # steps) st =
     worker_steps env cid attempt steps (emit_payload (progress_payload cid attempt ev) st)"
| "worker_steps env cid attempt (Checkpoint ms # steps) st =
     worker_steps env cid attempt steps (write_checkpoint env cid ms st)"

definition emit_recovery ::
  "cell_id \<Rightarrow> string \<Rightarrow> string \<Rightarrow> recovery_action \<Rightarrow> nat \<Rightarrow> cell_state \<Rightarrow> cell_state" where
  "emit_recovery cid error_kind detail action attempt st =
     emit_payload (RecoveryTransition cid (classifier_classify Map.empty error_kind) action attempt
       (take 2000 detail)) st"

text \<open>\<^verbatim>\<open>_handle_cell_failure\<close>; the empty-ladder \<^verbatim>\<open>IndexError\<close> of the policy is \<open>None\<close>.\<close>

definition handle_cell_failure ::
  "run_id \<Rightarrow> graph_cell \<Rightarrow> work_contract \<Rightarrow> string \<Rightarrow> string \<Rightarrow> string \<Rightarrow> nat \<Rightarrow> cell_state
     \<Rightarrow> (recovery_action \<times> cell_state) option" where
  "handle_cell_failure r cell wc error_kind detail selected attempt st =
     (let f = failure_of error_kind
      in if f = Fail_SAFETY
         then Some (TERMINATE, emit_recovery (gc_id cell) error_kind detail TERMINATE attempt st)
         else if f = Fail_BUDGET then
           (let action = fst (recovery_decide Map.empty RECOVERY_POLICY r error_kind None
                  (Some (wc_budget wc)) (Some (used st)) Map.empty)
            in Some (action, emit_recovery (gc_id cell) error_kind detail action attempt st))
         else
           (case next_action f (attempt_signature_of wc cell selected) (retry st) of
              (None, rp) \<Rightarrow> None
            | (Some action, rp) \<Rightarrow>
                Some (action, emit_recovery (gc_id cell) error_kind detail action attempt
                  (st\<lparr>retry := rp\<rparr>))))"

definition result_spend :: "worker_result \<Rightarrow> spend" where
  "result_spend res = \<lparr>input_tokens = int (wr_input_tokens res),
     output_tokens = int (wr_output_tokens res), cost_usd = wr_cost_usd res,
     calls = int (wr_api_calls res)\<rparr>"

definition record_result :: "worker_result \<Rightarrow> cell_state \<Rightarrow> cell_state" where
  "record_result res st = st\<lparr>auth := record_spend (result_spend res) (auth st),
     used := add_usage (used st) (result_spend res)\<rparr>"

text \<open>How the loop ends.\<close>

datatype cell_end =
    Cell_done worker_result
  | Cell_gave_up run_outcome
  | Ladder_empty
  | Out_of_fuel

text \<open>The body after a failed attempt, up to the next attempt or the end: the cap, the recovery
  action, then retry, reroute or failure.  \<open>Inl\<close> ends the cell, \<open>Inr\<close> continues with the
  selected profile and the carried conversation.\<close>

definition after_failure ::
  "runner_env \<Rightarrow> run_id \<Rightarrow> graph_cell \<Rightarrow> work_contract \<Rightarrow> capability set \<Rightarrow> string \<Rightarrow> string
     \<Rightarrow> model_message list option \<Rightarrow> string \<Rightarrow> nat \<Rightarrow> cell_state
     \<Rightarrow> (cell_end + string \<times> model_message list option) \<times> cell_state" where
  "after_failure env r cell wc needs error_kind detail carried selected attempt st =
     (let capped = max_retries (wc_budget wc) \<noteq> 0 \<and> max_retries (wc_budget wc) \<le> int attempt;
          handled =
            (if capped
             then Some (TERMINATE, emit_recovery (gc_id cell) error_kind detail TERMINATE attempt st)
             else handle_cell_failure r cell wc error_kind detail selected attempt st)
      in case handled of
           None \<Rightarrow> (Inl Ladder_empty, st)
         | Some (action, st1) \<Rightarrow>
             if action \<in> set retry_actions then (Inr (selected, carried), st1)
             else
               (let rerouted = (if action = REROUTE_ESCALATE
                      then Some (route_cell (env_config env) cell
                             (Some (remaining (used st1) (wc_budget wc))) [selected] needs)
                      else None);
                    failed = (\<lambda>error st2. (Inl (Cell_gave_up
                        (if action \<in> set abstain_actions then Outcome_ABSTAINED else Outcome_FAILED)),
                      emit_payload (CellFailed (gc_id cell) (take 500 error) error_kind) st2))
                in case rerouted of
                     None \<Rightarrow> failed detail st1
                   | Some d \<Rightarrow>
                       if \<not> rd_abstained d then
                         (Inr (selected_profile d, carried),
                          emit_payload (RouteSelected (gc_id cell) (selected_profile d)
                            (''recovery reroute: '' @ rd_reason d)) st1)
                       else if failure_of error_kind = Fail_TRANSIENT then
                         (Inr (selected, carried),
                          emit_recovery (gc_id cell) error_kind detail BACKOFF_RETRY (attempt + 1) st1)
                       else failed (rd_reason d @ '' (original failure: '' @ detail @ '')'') st1))"

text \<open>One attempt: run the worker, account for what it spent, and look at how it ended.\<close>

definition run_attempt ::
  "runner_env \<Rightarrow> graph_cell \<Rightarrow> work_contract \<Rightarrow> tool_definition list \<Rightarrow> string
     \<Rightarrow> string \<Rightarrow> model_message list option \<Rightarrow> nat \<Rightarrow> cell_state
     \<Rightarrow> (worker_result + (string \<times> string \<times> model_message list option)) \<times> cell_state" where
  "run_attempt env cell wc tools recalled selected resume attempt st =
     (case worker env cell selected tools recalled resume attempt of
        (steps, Raised e) \<Rightarrow>
          (Inr (''provider'', e, None), worker_steps env (gc_id cell) attempt steps st)
      | (steps, Returned res) \<Rightarrow>
          (let st1 = record_result res (worker_steps env (gc_id cell) attempt steps st);
               carried = (if wr_messages res = [] then None else Some (wr_messages res));
               limit = max_calls (wc_budget wc)
           in if wr_ok res then (Inl res, st1)
              else if limit \<noteq> 0 \<and> limit \<le> total_calls (used st1)
              then (Inr (''budget'', ''API call limit exceeded'', carried), st1)
              else (Inr (wr_error_kind res, wr_error res, carried), st1)))"

fun attempt_loop ::
  "runner_env \<Rightarrow> run_id \<Rightarrow> graph_cell \<Rightarrow> work_contract \<Rightarrow> tool_definition list \<Rightarrow> capability set
     \<Rightarrow> string \<Rightarrow> nat \<Rightarrow> string \<Rightarrow> model_message list option \<Rightarrow> nat \<Rightarrow> cell_state
     \<Rightarrow> cell_end \<times> cell_state" where
  "attempt_loop env r cell wc tools needs recalled 0 selected resume attempt st = (Out_of_fuel, st)"
| "attempt_loop env r cell wc tools needs recalled (Suc fuel) selected resume attempt st =
     (case run_attempt env cell wc tools recalled selected resume attempt st of
        (Inl res, st1) \<Rightarrow> (Cell_done res, st1)
      | (Inr (error_kind, detail, carried), st1) \<Rightarrow>
          (case after_failure env r cell wc needs error_kind detail carried selected attempt st1 of
             (Inl e, st2) \<Rightarrow> (e, st2)
           | (Inr (selected', resume'), st2) \<Rightarrow>
               attempt_loop env r cell wc tools needs recalled fuel selected' resume' (attempt + 1) st2))"

text \<open>After a success: store the output, clear the checkpoint, remember, audit, cite, emit.\<close>

definition complete_cell ::
  "runner_env \<Rightarrow> run_id \<Rightarrow> graph_cell \<Rightarrow> budget_usage \<Rightarrow> worker_result \<Rightarrow> cell_state \<Rightarrow> cell_state" where
  "complete_cell env r cell before res st =
     (let output = (if wr_text res = [] then ''{}'' else wr_text res);
          ref = \<lparr>digest = artifact_digest_of env output, media_type = ''application/json'',
                 size_bytes = length output\<rparr>;
          st1 = remember_outcome env cell r res
                  (clear_checkpoint env (gc_id cell) (st\<lparr>stored := stored st @ [ref]\<rparr>));
          st2 = st1\<lparr>tools_used := tools_used st1 @ tool_names_used (wr_messages res),
                    evidence_digests := foldl (\<lambda>m ci. m(ci \<mapsto> digest ref)) (evidence_digests st1)
                      (acceptance_criterion_indices cell)\<rparr>
      in emit_payload (CellCompleted (gc_id cell) ref (usage_delta (used st2) before)) st2)"

definition run_cell ::
  "runner_env \<Rightarrow> nat \<Rightarrow> run_id \<Rightarrow> graph_cell \<Rightarrow> work_contract \<Rightarrow> tool_definition list \<Rightarrow> cell_state
     \<Rightarrow> cell_end \<times> cell_state" where
  "run_cell env fuel r cell wc tools st =
     (let needs = (if tools = [] then {} else {TOOL_USE});
          d = route_cell (env_config env) cell None [] needs;
          st1 = emit_payload (RouteSelected (gc_id cell) (selected_profile d) (rd_reason d)) st
      in if rd_abstained d
         then (Cell_gave_up Outcome_ABSTAINED,
               emit_payload (CellFailed (gc_id cell) (rd_reason d) ''routing'') st1)
         else
           (let st2 = emit_payload (CellStarted (gc_id cell) (selected_profile d)) st1
            in case attempt_loop env r cell wc tools needs (recalled_prompt env cell) fuel
                      (selected_profile d) (load_checkpoint env (gc_id cell) st2) 0 st2 of
                 (Cell_done res, st3) \<Rightarrow>
                   (Cell_done res, complete_cell env r cell (used st) res st3)
               | (e, st3) \<Rightarrow> (e, st3)))"

subsection \<open>What each step leaves alone\<close>

lemma emit_payload_simps [simp]:
  "used (emit_payload p st) = used st" "auth (emit_payload p st) = auth st"
  "retry (emit_payload p st) = retry st" "emitted (emit_payload p st) = emitted st @ [p]"
  "evidence_digests (emit_payload p st) = evidence_digests st"
  "tools_used (emit_payload p st) = tools_used st"
  by (simp_all add: emit_payload_def)

lemma emit_recovery_simps [simp]:
  "used (emit_recovery c k d a n st) = used st" "auth (emit_recovery c k d a n st) = auth st"
  "retry (emit_recovery c k d a n st) = retry st"
  "tools_used (emit_recovery c k d a n st) = tools_used st"
  "evidence_digests (emit_recovery c k d a n st) = evidence_digests st"
  by (simp_all add: emit_recovery_def)

lemma write_checkpoint_simps [simp]:
  "used (write_checkpoint env c ms st) = used st" "auth (write_checkpoint env c ms st) = auth st"
  "retry (write_checkpoint env c ms st) = retry st"
  "emitted (write_checkpoint env c ms st) = emitted st"
  "tools_used (write_checkpoint env c ms st) = tools_used st"
  "evidence_digests (write_checkpoint env c ms st) = evidence_digests st"
  by (simp_all add: write_checkpoint_def)

lemma worker_steps_keep [simp]:
  "used (worker_steps env c n steps st) = used st" "auth (worker_steps env c n steps st) = auth st"
  "retry (worker_steps env c n steps st) = retry st"
  "tools_used (worker_steps env c n steps st) = tools_used st"
  "evidence_digests (worker_steps env c n steps st) = evidence_digests st"
  by (induction env c n steps st rule: worker_steps.induct) simp_all

text \<open>The events a cell may emit: never a status or an outcome of the run.\<close>

definition cell_event :: "payload \<Rightarrow> bool" where
  "cell_event p \<longleftrightarrow> payload_kind p \<in>
     {ROUTE_SELECTED, CELL_STARTED, CELL_PROGRESS, RECOVERY_TRANSITION, CELL_COMPLETED, CELL_FAILED}"

definition emits_only :: "(payload \<Rightarrow> bool) \<Rightarrow> cell_state \<Rightarrow> cell_state \<Rightarrow> bool" where
  "emits_only ok st st' \<longleftrightarrow> (\<exists>ps. emitted st' = emitted st @ ps \<and> list_all ok ps)"

lemma emits_only_refl [simp]: "emits_only ok st st"
  by (auto simp: emits_only_def)

lemma emits_only_same: "emitted st' = emitted st \<Longrightarrow> emits_only ok st st'"
  by (auto simp: emits_only_def)

lemma emits_only_trans: "emits_only ok a b \<Longrightarrow> emits_only ok b c \<Longrightarrow> emits_only ok a c"
  unfolding emits_only_def by (metis append.assoc list_all_append)

lemma emits_only_emit: "ok p \<Longrightarrow> emits_only ok st (emit_payload p st)"
  by (auto simp: emits_only_def)

lemma emits_only_then: "emits_only ok a b \<Longrightarrow> ok p \<Longrightarrow> emits_only ok a (emit_payload p b)"
  using emits_only_trans emits_only_emit by blast

lemma emits_only_weaken: "emits_only P a b \<Longrightarrow> (\<And>p. P p \<Longrightarrow> Q p) \<Longrightarrow> emits_only Q a b"
  unfolding emits_only_def by (metis list.pred_mono_strong)

text \<open>Within the loop: progress, recoveries and reroutes; a cell failure only at its end.\<close>

definition loop_event :: "payload \<Rightarrow> bool" where
  "loop_event p \<longleftrightarrow> payload_kind p \<in> {ROUTE_SELECTED, CELL_PROGRESS, RECOVERY_TRANSITION}"

lemma loop_event_cell: "loop_event p \<Longrightarrow> cell_event p"
  by (auto simp: loop_event_def cell_event_def)

lemma worker_steps_emit: "emits_only loop_event st (worker_steps env c n steps st)"
proof (induction env c n steps st rule: worker_steps.induct)
  case (2 env c n ev steps st)
  have "loop_event (progress_payload c n ev)" by (simp add: loop_event_def progress_payload_def)
  with 2 show ?case using emits_only_trans emits_only_emit by (metis worker_steps.simps(2))
next
  case (3 env c n ms steps st)
  then show ?case using emits_only_trans emits_only_same by (metis worker_steps.simps(3) write_checkpoint_simps(4))
qed simp

lemma emit_recovery_emit: "emits_only loop_event st (emit_recovery c k d a n st)"
  by (simp add: emit_recovery_def emits_only_emit loop_event_def)

lemma handle_cell_failure_emit:
  "handle_cell_failure r cell wc k d sel n st = Some (a, st') \<Longrightarrow>
     emits_only loop_event st st' \<and> used st' = used st \<and> auth st' = auth st
     \<and> tools_used st' = tools_used st \<and> evidence_digests st' = evidence_digests st"
  using emit_recovery_emit [of st] emit_recovery_emit [of "st\<lparr>retry := rp\<rparr>" for rp]
  by (auto simp: handle_cell_failure_def Let_def emits_only_def split: if_splits prod.splits option.splits)

text \<open>A failed attempt, summarised by what the loop may rely on.\<close>

lemma after_failure_emit:
  assumes "after_failure env r cell wc needs k d carried sel n st = (x, st')"
  shows "used st' = used st \<and> auth st' = auth st \<and> tools_used st' = tools_used st
    \<and> evidence_digests st' = evidence_digests st
    \<and> (case x of
         Inr _ \<Rightarrow> emits_only loop_event st st'
       | Inl Ladder_empty \<Rightarrow> st' = st
       | Inl (Cell_gave_up out) \<Rightarrow> out \<in> {Outcome_ABSTAINED, Outcome_FAILED}
           \<and> (\<exists>st1 error. emits_only loop_event st st1 \<and> st' = emit_payload (CellFailed (gc_id cell) error k) st1)
       | Inl _ \<Rightarrow> False)"
proof -
  define capped where "capped \<longleftrightarrow> max_retries (wc_budget wc) \<noteq> 0 \<and> max_retries (wc_budget wc) \<le> int n"
  define handled where "handled =
    (if capped then Some (TERMINATE, emit_recovery (gc_id cell) k d TERMINATE n st)
     else handle_cell_failure r cell wc k d sel n st)"
  show ?thesis
  proof (cases handled)
    case None
    then show ?thesis using assms by (auto simp: after_failure_def Let_def handled_def capped_def)
  next
    case (Some z)
    obtain a st1 where z: "z = (a, st1)" by (cases z)
    have st1: "emits_only loop_event st st1" "used st1 = used st" "auth st1 = auth st"
      "tools_used st1 = tools_used st" "evidence_digests st1 = evidence_digests st"
      using Some z handle_cell_failure_emit [of r cell wc k d sel n st a st1] emit_recovery_emit
      by (auto simp: handled_def split: if_splits)
    have re: "emits_only loop_event st (emit_recovery (gc_id cell) k d BACKOFF_RETRY (n + 1) st1)"
      "loop_event (RouteSelected c p x)" for c p x
      using st1(1) emit_recovery_emit emits_only_trans by (blast, simp add: loop_event_def)
    have ex: "\<exists>s. emits_only loop_event st s \<and> (\<exists>error. emit_payload (CellFailed c e k) st1
        = emit_payload (CellFailed c error k) s)" for c e
      using st1(1) by blast
    show ?thesis
      using assms Some z st1 re ex
      by (auto simp: after_failure_def Let_def handled_def [symmetric] capped_def [symmetric]
          emits_only_then split: if_splits option.splits)
  qed
qed

subsection \<open>The loop gives up after a bounded number of attempts\<close>

lemma next_action_default:
  assumes "rp_policy p = RECOVERY_POLICY" "next_action f s p = (a, p')"
  shows "a = Some (recovery_ladder f ! min (seen_count p s) (length (recovery_ladder f) - 1))
    \<and> rp_policy p' = RECOVERY_POLICY
    \<and> rp_seen p' = (rp_seen p)(sig_key s \<mapsto> Suc (seen_count p s))"
  using assms by (auto simp: next_action_def Let_def ladder_of_def RECOVERY_POLICY_def seen_count_def)

definition tries_again :: "recovery_action \<Rightarrow> bool" where
  "tries_again a \<longleftrightarrow> a \<in> set retry_actions \<or> a = REROUTE_ESCALATE"

lemma ladder_tries_twice:
  "tries_again (recovery_ladder f ! min n (length (recovery_ladder f) - 1)) \<Longrightarrow> n < 2"
proof (rule ccontr)
  assume t: "tries_again (recovery_ladder f ! min n (length (recovery_ladder f) - 1))" and "\<not> n < 2"
  then consider "n = 2" | "3 \<le> n" by linarith
  then show False
  proof cases
    case 1
    with t show False
      by (cases f) (auto simp: tries_again_def retry_actions_def min_def nth_Cons')
  next
    case 2
    then have "min n (length (recovery_ladder f) - 1) = length (recovery_ladder f) - 1"
      using ladder_gives_up [of f] by (intro min.absorb2) linarith
    with t have "tries_again (last (recovery_ladder f))" by (simp add: last_conv_nth)
    with ladder_gives_up [of f] show False
      by (auto simp: tries_again_def retry_actions_def gives_up_def)
  qed
qed

text \<open>What is left of the ladders of all profiles.\<close>

definition rungs_left :: "runner_env \<Rightarrow> graph_cell \<Rightarrow> work_contract \<Rightarrow> cell_state \<Rightarrow> nat" where
  "rungs_left env cell wc st =
     sum_list (map (\<lambda>n. 2 - seen_count (retry st) (attempt_signature_of wc cell n))
       (remdups (map mp_name (profiles (env_config env)))))"

lemma sum_list_less:
  assumes "\<And>x. x \<in> set xs \<Longrightarrow> (f x :: nat) \<le> g x" "y \<in> set xs" "f y < g y"
  shows "sum_list (map f xs) < sum_list (map g xs)"
  using assms
proof (induction xs)
  case (Cons x xs)
  have le: "sum_list (map f xs) \<le> sum_list (map g xs)"
    using Cons.prems(1) by (intro sum_list_mono) simp
  show ?case
  proof (cases "y = x")
    case True
    with le Cons.prems(3) show ?thesis by simp
  next
    case False
    with Cons have "sum_list (map f xs) < sum_list (map g xs)" by simp
    moreover have "f x \<le> g x" using Cons.prems(1) by simp
    ultimately show ?thesis by simp
  qed
qed simp

lemma rungs_left_climb:
  assumes "sel \<in> mp_name ` set (profiles (env_config env))"
    and "rp_seen (retry st') = (rp_seen (retry st))(sig_key (attempt_signature_of wc cell sel) \<mapsto>
          Suc (seen_count (retry st) (attempt_signature_of wc cell sel)))"
    and "seen_count (retry st) (attempt_signature_of wc cell sel) < 2"
  shows "rungs_left env cell wc st' < rungs_left env cell wc st"
  unfolding rungs_left_def
proof (rule sum_list_less [where y = sel])
  show "sel \<in> set (remdups (map mp_name (profiles (env_config env))))" using assms(1) by simp
  show "2 - seen_count (retry st') (attempt_signature_of wc cell sel)
      < 2 - seen_count (retry st) (attempt_signature_of wc cell sel)"
    using assms(2,3) by (simp add: seen_count_def)
  show "2 - seen_count (retry st') (attempt_signature_of wc cell n)
      \<le> 2 - seen_count (retry st) (attempt_signature_of wc cell n)" for n
    using assms(2) by (auto simp: seen_count_def intro: diff_le_mono)
qed

lemma handle_cell_failure_climb:
  assumes "rp_policy (retry st) = RECOVERY_POLICY"
    and "handle_cell_failure r cell wc k d sel n st = h"
  shows "\<exists>a st'. h = Some (a, st') \<and> rp_policy (retry st') = RECOVERY_POLICY
    \<and> (tries_again a \<longrightarrow>
         rp_seen (retry st') = (rp_seen (retry st))(sig_key (attempt_signature_of wc cell sel) \<mapsto>
            Suc (seen_count (retry st) (attempt_signature_of wc cell sel)))
         \<and> seen_count (retry st) (attempt_signature_of wc cell sel) < 2)"
proof -
  obtain a rp where na: "next_action (failure_of k) (attempt_signature_of wc cell sel) (retry st) = (a, rp)"
    by (metis surj_pair)
  note nd = next_action_default [OF assms(1) na]
  have budget: "\<not> tries_again (fst (recovery_decide Map.empty RECOVERY_POLICY r k None
      (Some (wc_budget wc)) (Some (used st)) Map.empty))" if "failure_of k = Fail_BUDGET"
  proof -
    have "classifier_classify Map.empty k = Fail_BUDGET"
      using that by (auto simp: failure_of_def coerce_error_kind_def classifier_classify_def
          classify_def split: option.splits if_splits)
    then show ?thesis by (simp add: recovery_decide_def tries_again_def retry_actions_def)
  qed
  have ladder: "tries_again (recovery_ladder (failure_of k) !
      min (seen_count (retry st) (attempt_signature_of wc cell sel)) (length (recovery_ladder (failure_of k)) - 1))
      \<Longrightarrow> seen_count (retry st) (attempt_signature_of wc cell sel) < 2"
    by (rule ladder_tries_twice)
  have "\<not> tries_again TERMINATE" by (simp add: tries_again_def retry_actions_def)
  with assms nd na budget ladder show ?thesis
    by (auto simp: handle_cell_failure_def Let_def)
qed

lemma route_cell_profile:
  "\<not> rd_abstained (route_cell cfg cell rb excluded needs) \<Longrightarrow>
     selected_profile (route_cell cfg cell rb excluded needs) \<in> mp_name ` set (profiles cfg)"
  using route_cell_best [of cfg cell rb excluded needs] by (metis eligibleD imageI)

lemma after_failure_climb:
  assumes "rp_policy (retry st) = RECOVERY_POLICY" "sel \<in> mp_name ` set (profiles (env_config env))"
    and "after_failure env r cell wc needs k d carried sel n st = (x, st')"
  shows "x \<noteq> Inl Ladder_empty \<and> rp_policy (retry st') = RECOVERY_POLICY
    \<and> (case x of Inl _ \<Rightarrow> True
       | Inr (sel', _) \<Rightarrow> sel' \<in> mp_name ` set (profiles (env_config env))
           \<and> rungs_left env cell wc st' < rungs_left env cell wc st
           \<and> (max_retries (wc_budget wc) \<noteq> 0 \<longrightarrow> int n < max_retries (wc_budget wc)))"
proof -
  define capped where "capped \<longleftrightarrow> max_retries (wc_budget wc) \<noteq> 0 \<and> max_retries (wc_budget wc) \<le> int n"
  define handled where "handled =
    (if capped then Some (TERMINATE, emit_recovery (gc_id cell) k d TERMINATE n st)
     else handle_cell_failure r cell wc k d sel n st)"
  have no: "\<not> tries_again TERMINATE" by (simp add: tries_again_def retry_actions_def)
  obtain a st1 where h: "handled = Some (a, st1)" "rp_policy (retry st1) = RECOVERY_POLICY"
    and again: "tries_again a \<Longrightarrow> \<not> capped \<and> rungs_left env cell wc st1 < rungs_left env cell wc st"
  proof (cases capped)
    case True
    with that [of TERMINATE "emit_recovery (gc_id cell) k d TERMINATE n st"] no assms(1)
    show ?thesis by (simp add: handled_def)
  next
    case False
    from handle_cell_failure_climb [OF assms(1) refl, of r cell wc k d sel n] False that
      rungs_left_climb [OF assms(2)]
    show ?thesis by (fastforce simp: handled_def)
  qed
  have same: "rungs_left env cell wc (emit_payload p s) = rungs_left env cell wc s"
    "rungs_left env cell wc (emit_recovery c e g b m s) = rungs_left env cell wc s" for p s c e g b m
    by (simp_all add: rungs_left_def)
  have yes: "tries_again REROUTE_ESCALATE" "b \<in> set retry_actions \<Longrightarrow> tries_again b" for b
    by (simp_all add: tries_again_def)
  show ?thesis
    using assms(2,3) h again yes same route_cell_profile
    unfolding after_failure_def Let_def capped_def [symmetric] handled_def [symmetric]
    by (auto simp: capped_def split: if_splits)
qed

lemma run_attempt_retry:
  "run_attempt env cell wc tools recalled sel resume n st = (x, st') \<Longrightarrow> retry st' = retry st"
  by (auto simp: run_attempt_def Let_def record_result_def
      split: prod.splits worker_end.splits if_splits)

lemma attempt_loop_ends:
  assumes "rp_policy (retry st) = RECOVERY_POLICY" "sel \<in> mp_name ` set (profiles (env_config env))"
    and "rungs_left env cell wc st < fuel"
  shows "fst (attempt_loop env r cell wc tools needs recalled fuel sel resume n st)
    \<notin> {Out_of_fuel, Ladder_empty}"
  using assms
proof (induction fuel arbitrary: sel resume n st)
  case 0
  then show ?case by simp
next
  case (Suc fuel)
  obtain x st1 where x: "run_attempt env cell wc tools recalled sel resume n st = (x, st1)"
    by (metis surj_pair)
  have st1: "retry st1 = retry st" by (rule run_attempt_retry [OF x])
  show ?case
  proof (cases x)
    case (Inl res)
    with x show ?thesis by simp
  next
    case (Inr z)
    obtain k d carried where z: "z = (k, d, carried)" by (metis prod_cases3)
    obtain y st2 where y: "after_failure env r cell wc needs k d carried sel n st1 = (y, st2)"
      by (metis surj_pair)
    have pol: "rp_policy (retry st1) = RECOVERY_POLICY" using Suc.prems(1) st1 by simp
    note climb = after_failure_climb [OF pol Suc.prems(2) y]
    show ?thesis
    proof (cases y)
      case (Inl e)
      then have "e \<notin> {Out_of_fuel, Ladder_empty}"
        using after_failure_emit [OF y] climb by (cases e) auto
      with x Inr z y Inl show ?thesis by simp
    next
      case y': (Inr w)
      obtain sel' resume' where w: "w = (sel', resume')" by (cases w)
      have "rungs_left env cell wc st2 < fuel"
        using climb y' w Suc.prems(3) st1 by (auto simp: rungs_left_def)
      with climb y' w have "fst (attempt_loop env r cell wc tools needs recalled fuel sel' resume' (n + 1) st2)
          \<notin> {Out_of_fuel, Ladder_empty}"
        by (intro Suc.IH) auto
      with x Inr z y y' w show ?thesis by simp
    qed
  qed
qed

lemma rungs_left_bound: "rungs_left env cell wc st \<le> 2 * length (profiles (env_config env))"
proof -
  let ?ns = "remdups (map mp_name (profiles (env_config env)))"
  have "rungs_left env cell wc st \<le> sum_list (map (\<lambda>_. 2) ?ns)"
    unfolding rungs_left_def by (intro sum_list_mono) simp
  also have "\<dots> = 2 * length ?ns" by (simp add: sum_list_triv)
  also have "length ?ns \<le> length (profiles (env_config env))"
    using length_remdups_leq [of "map mp_name (profiles (env_config env))"] by simp
  finally show ?thesis by simp
qed

subsection \<open>Accounting and events of a whole cell\<close>

lemma run_attempt_keep:
  assumes "run_attempt env cell wc tools recalled sel resume n st = (x, st')"
  shows "emits_only loop_event st st' \<and> tools_used st' = tools_used st
    \<and> evidence_digests st' = evidence_digests st
    \<and> (in_step (auth st) (used st) \<longrightarrow> in_step (auth st') (used st'))"
proof -
  obtain steps e where w: "worker env cell sel tools recalled resume n = (steps, e)" by (metis surj_pair)
  let ?st = "worker_steps env (gc_id cell) n steps st"
  have "emits_only loop_event st (record_result res ?st)" for res
    using worker_steps_emit [of st env "gc_id cell" n steps]
    by (simp add: emits_only_def record_result_def)
  moreover have "in_step (auth st) (used st) \<Longrightarrow>
      in_step (auth (record_result res ?st)) (used (record_result res ?st))" for res
    by (simp add: record_result_def in_step_record)
  ultimately show ?thesis
    using assms w worker_steps_emit [of st env "gc_id cell" n steps]
    by (auto simp: run_attempt_def Let_def record_result_def split: worker_end.splits if_splits)
qed

lemma attempt_loop_keep:
  assumes "attempt_loop env r cell wc tools needs recalled fuel sel resume n st = (e, st')"
  shows "tools_used st' = tools_used st \<and> evidence_digests st' = evidence_digests st
    \<and> (in_step (auth st) (used st) \<longrightarrow> in_step (auth st') (used st'))
    \<and> (case e of
         Cell_gave_up out \<Rightarrow> out \<in> {Outcome_ABSTAINED, Outcome_FAILED}
           \<and> (\<exists>st1 error kind. emits_only loop_event st st1
                \<and> st' = emit_payload (CellFailed (gc_id cell) error kind) st1)
       | _ \<Rightarrow> emits_only loop_event st st')"
  using assms
proof (induction fuel arbitrary: sel resume n st)
  case 0
  then show ?case by auto
next
  case (Suc fuel)
  obtain x st1 where x: "run_attempt env cell wc tools recalled sel resume n st = (x, st1)"
    by (metis surj_pair)
  note keep = run_attempt_keep [OF x]
  show ?case
  proof (cases x)
    case (Inl res)
    with x Suc.prems keep show ?thesis by auto
  next
    case (Inr z)
    obtain k d carried where z: "z = (k, d, carried)" by (metis prod_cases3)
    obtain y st2 where y: "after_failure env r cell wc needs k d carried sel n st1 = (y, st2)"
      by (metis surj_pair)
    note aft = after_failure_emit [OF y]
    show ?thesis
    proof (cases y)
      case (Inl e')
      with Suc.prems x Inr z y have e: "e = e'" "st' = st2" by auto
      have tr: "emits_only loop_event st s" if "emits_only loop_event st1 s" for s
        using keep that emits_only_trans by blast
      show ?thesis
      proof (cases e')
        case (Cell_gave_up out)
        with aft Inl obtain s error where "emits_only loop_event st1 s"
          "st' = emit_payload (CellFailed (gc_id cell) error k) s"
          "out \<in> {Outcome_ABSTAINED, Outcome_FAILED}" using e by auto
        with tr aft keep e Cell_gave_up show ?thesis by (auto 4 3)
      qed (use aft Inl keep e in auto)
    next
      case y': (Inr w)
      obtain sel' resume' where w: "w = (sel', resume')" by (cases w)
      have loop: "attempt_loop env r cell wc tools needs recalled fuel sel' resume' (n + 1) st2 = (e, st')"
        using Suc.prems x Inr z y y' w by simp
      from aft y' w have e2: "emits_only loop_event st1 st2" by simp
      have tr: "emits_only loop_event st s" if "emits_only loop_event st2 s" for s
        using keep e2 that emits_only_trans by blast
      from Suc.IH [OF loop] aft keep tr show ?thesis
        by (cases e) (simp_all, blast+)
    qed
  qed
qed

lemma complete_cell_spec:
  "used (complete_cell env r cell before res st) = used st"
  "auth (complete_cell env r cell before res st) = auth st"
  "\<exists>ref. emitted (complete_cell env r cell before res st)
     = emitted st @ [CellCompleted (gc_id cell) ref (usage_delta (used st) before)]
     \<and> digest ref = artifact_digest_of env (if wr_text res = [] then ''{}'' else wr_text res)
     \<and> list_all (\<lambda>ci. evidence_digests (complete_cell env r cell before res st) ci = Some (digest ref))
         (acceptance_criterion_indices cell)
     \<and> tools_used (complete_cell env r cell before res st)
         = tools_used st @ tool_names_used (wr_messages res)"
proof -
  have fold: "list_all (\<lambda>ci. foldl (\<lambda>m ci. m(ci \<mapsto> d)) m cis ci = Some d) cis"
    for m :: "int \<rightharpoonup> digest" and d cis
  proof -
    have "foldl (\<lambda>m ci. m(ci \<mapsto> d)) m cis ci = (if ci \<in> set cis then Some d else m ci)" for ci
      by (induction cis arbitrary: m) auto
    then show ?thesis by (simp add: list_all_iff)
  qed
  show "used (complete_cell env r cell before res st) = used st"
    "auth (complete_cell env r cell before res st) = auth st"
    by (simp_all add: complete_cell_def Let_def remember_outcome_def clear_checkpoint_def split: option.split)
  show "\<exists>ref. emitted (complete_cell env r cell before res st)
     = emitted st @ [CellCompleted (gc_id cell) ref (usage_delta (used st) before)]
     \<and> digest ref = artifact_digest_of env (if wr_text res = [] then ''{}'' else wr_text res)
     \<and> list_all (\<lambda>ci. evidence_digests (complete_cell env r cell before res st) ci = Some (digest ref))
         (acceptance_criterion_indices cell)
     \<and> tools_used (complete_cell env r cell before res st)
         = tools_used st @ tool_names_used (wr_messages res)"
    by (simp add: complete_cell_def Let_def remember_outcome_def clear_checkpoint_def fold split: option.split)
qed

text \<open>A whole cell: its events in protocol order, its books, its evidence.\<close>

definition cell_protocol :: "graph_cell \<Rightarrow> payload list \<Rightarrow> bool" where
  "cell_protocol cell ps \<longleftrightarrow>
     (\<exists>p reason body final. ps = RouteSelected (gc_id cell) p reason # body @ [final]
        \<and> list_all cell_event body
        \<and> (case final of CellCompleted c _ _ \<Rightarrow> c = gc_id cell | CellFailed c _ _ \<Rightarrow> c = gc_id cell
           | _ \<Rightarrow> False))"

lemma run_cell_keep:
  assumes "run_cell env fuel r cell wc tools st = (e, st')" "e \<notin> {Out_of_fuel, Ladder_empty}"
  shows "(in_step (auth st) (used st) \<longrightarrow> in_step (auth st') (used st'))
    \<and> (\<exists>ps. emitted st' = emitted st @ ps \<and> cell_protocol cell ps
        \<and> (case e of
             Cell_done res \<Rightarrow> \<exists>ref. last ps = CellCompleted (gc_id cell) ref (usage_delta (used st') (used st))
               \<and> list_all (\<lambda>ci. evidence_digests st' ci = Some (digest ref)) (acceptance_criterion_indices cell)
               \<and> tools_used st' = tools_used st @ tool_names_used (wr_messages res)
           | Cell_gave_up out \<Rightarrow> out \<in> {Outcome_ABSTAINED, Outcome_FAILED}
               \<and> (\<exists>error kind. last ps = CellFailed (gc_id cell) error kind)
               \<and> evidence_digests st' = evidence_digests st \<and> tools_used st' = tools_used st
           | _ \<Rightarrow> False))"
proof -
  define needs where "needs = (if tools = [] then {} else {TOOL_USE})"
  define d where "d = route_cell (env_config env) cell None [] needs"
  let ?c = "gc_id cell"
  let ?route = "RouteSelected ?c (selected_profile d) (rd_reason d)"
  let ?start = "CellStarted ?c (selected_profile d)"
  define st1 where "st1 = emit_payload ?route st"
  define st2 where "st2 = emit_payload ?start st1"
  have ev: "emitted st1 = emitted st @ [?route]" "emitted st2 = emitted st @ [?route, ?start]"
    by (simp_all add: st1_def st2_def)
  have same: "used st2 = used st" "auth st2 = auth st" "tools_used st2 = tools_used st"
    "evidence_digests st2 = evidence_digests st" by (simp_all add: st1_def st2_def)
  have protocol: "cell_protocol cell (?route # body @ [final])"
    if "list_all cell_event body" "case final of CellCompleted c _ _ \<Rightarrow> c = ?c | CellFailed c _ _ \<Rightarrow> c = ?c | _ \<Rightarrow> False"
    for body final using that unfolding cell_protocol_def by blast
  have body: "list_all cell_event (?start # ps)" if "list_all loop_event ps" for ps
    using that list.pred_mono_strong [of loop_event ps cell_event] loop_event_cell
    by (simp add: cell_event_def)
  show ?thesis
  proof (cases "rd_abstained d")
    case True
    with assms(1) have "e = Cell_gave_up Outcome_ABSTAINED"
      "st' = emit_payload (CellFailed ?c (rd_reason d) ''routing'') st1"
      by (simp_all add: run_cell_def Let_def needs_def [symmetric] d_def [symmetric] st1_def)
    with ev same show ?thesis
      using protocol [of "[]" "CellFailed ?c (rd_reason d) ''routing''"]
      by (auto simp: st1_def)
  next
    case False
    obtain e0 st3 where l: "attempt_loop env r cell wc tools needs (recalled_prompt env cell) fuel
        (selected_profile d) (load_checkpoint env ?c st2) 0 st2 = (e0, st3)" by (metis surj_pair)
    note keep = attempt_loop_keep [OF l]
    from False assms(1) l have e: "e = e0"
      "st' = (case e0 of Cell_done res \<Rightarrow> complete_cell env r cell (used st) res st3 | _ \<Rightarrow> st3)"
      by (auto simp: run_cell_def Let_def needs_def [symmetric] d_def [symmetric]
          st1_def [symmetric] st2_def [symmetric] split: cell_end.splits)
    show ?thesis
    proof (cases e0)
      case (Cell_done res)
      with keep obtain ps where ps: "emitted st3 = emitted st @ ?route # (?start # ps)"
        "list_all loop_event ps" by (auto simp: emits_only_def ev)
      from complete_cell_spec(3) [of env r cell "used st" res st3] obtain ref where ref:
        "emitted st' = emitted st3 @ [CellCompleted ?c ref (usage_delta (used st3) (used st))]"
        "list_all (\<lambda>ci. evidence_digests st' ci = Some (digest ref)) (acceptance_criterion_indices cell)"
        "tools_used st' = tools_used st3 @ tool_names_used (wr_messages res)"
        using e Cell_done by auto
      have "used st' = used st3" "auth st' = auth st3"
        using e Cell_done complete_cell_spec(1,2) by simp_all
      then show ?thesis
        using ref ps protocol [OF body [OF ps(2)],
            of "CellCompleted ?c ref (usage_delta (used st3) (used st))"] keep same e(1) Cell_done
        by (intro conjI exI [of _ "?route # (?start # ps) @ [CellCompleted ?c ref (usage_delta (used st3) (used st))]"])
          auto
    next
      case (Cell_gave_up out)
      with keep e obtain ps error kind where ps: "list_all loop_event ps"
        "emitted st' = emitted st @ ?route # (?start # ps) @ [CellFailed ?c error kind]"
        by (auto simp: emits_only_def ev)
      then show ?thesis
        using protocol [OF body [OF ps(1)], of "CellFailed ?c error kind"] keep same e Cell_gave_up
        by (intro conjI exI [of _ "?route # (?start # ps) @ [CellFailed ?c error kind]"]) auto
    qed (use assms(2) e in auto)
  qed
qed

lemma attempt_loop_capped:
  assumes "rp_policy (retry st) = RECOVERY_POLICY" "sel \<in> mp_name ` set (profiles (env_config env))"
    and "0 < max_retries (wc_budget wc)" "max_retries (wc_budget wc) < int n + int fuel"
  shows "fuel = 0 \<or> fst (attempt_loop env r cell wc tools needs recalled fuel sel resume n st)
    \<notin> {Out_of_fuel, Ladder_empty}"
  using assms
proof (induction fuel arbitrary: sel resume n st)
  case 0
  then show ?case by simp
next
  case (Suc fuel)
  obtain x st1 where x: "run_attempt env cell wc tools recalled sel resume n st = (x, st1)"
    by (metis surj_pair)
  have pol: "rp_policy (retry st1) = RECOVERY_POLICY" using run_attempt_retry [OF x] Suc.prems(1) by simp
  show ?case
  proof (cases x)
    case (Inl res)
    with x show ?thesis by simp
  next
    case (Inr z)
    obtain k d carried where z: "z = (k, d, carried)" by (metis prod_cases3)
    obtain y st2 where y: "after_failure env r cell wc needs k d carried sel n st1 = (y, st2)"
      by (metis surj_pair)
    note climb = after_failure_climb [OF pol Suc.prems(2) y]
    show ?thesis
    proof (cases y)
      case (Inl e)
      then have "e \<notin> {Out_of_fuel, Ladder_empty}"
        using after_failure_emit [OF y] climb by (cases e) auto
      with x Inr z y Inl show ?thesis by simp
    next
      case y': (Inr w)
      obtain sel' resume' where w: "w = (sel', resume')" by (cases w)
      have "int n < max_retries (wc_budget wc)" using climb y' w Suc.prems(3) by simp
      then have "fuel \<noteq> 0" using Suc.prems(4) by auto
      moreover have "fuel = 0 \<or> fst (attempt_loop env r cell wc tools needs recalled fuel sel' resume' (n + 1) st2)
          \<notin> {Out_of_fuel, Ladder_empty}"
        using climb y' w Suc.prems(3,4) by (intro Suc.IH) auto
      ultimately show ?thesis using x Inr z y y' w by simp
    qed
  qed
qed

lemma run_cell_end:
  assumes "\<And>sel resume st'. retry st' = retry st \<Longrightarrow> sel \<in> mp_name ` set (profiles (env_config env)) \<Longrightarrow>
      fst (attempt_loop env r cell wc tools (if tools = [] then {} else {TOOL_USE})
        (recalled_prompt env cell) fuel sel resume 0 st') \<notin> {Out_of_fuel, Ladder_empty}"
  shows "fst (run_cell env fuel r cell wc tools st) \<notin> {Out_of_fuel, Ladder_empty}"
proof -
  let ?d = "route_cell (env_config env) cell None [] (if tools = [] then {} else {TOOL_USE})"
  show ?thesis
  proof (cases "rd_abstained ?d")
    case True
    then show ?thesis by (simp add: run_cell_def Let_def)
  next
    case False
    let ?st2 = "emit_payload (CellStarted (gc_id cell) (selected_profile ?d))
      (emit_payload (RouteSelected (gc_id cell) (selected_profile ?d) (rd_reason ?d)) st)"
    obtain e st3 where l: "attempt_loop env r cell wc tools (if tools = [] then {} else {TOOL_USE})
        (recalled_prompt env cell) fuel (selected_profile ?d)
        (load_checkpoint env (gc_id cell) ?st2) 0 ?st2 = (e, st3)" by (metis surj_pair)
    from assms [of ?st2 "selected_profile ?d" "load_checkpoint env (gc_id cell) ?st2"]
      route_cell_profile [OF False]
    have "e \<notin> {Out_of_fuel, Ladder_empty}" unfolding l by simp
    moreover have "fst (run_cell env fuel r cell wc tools st) = e"
      using False l unfolding run_cell_def Let_def by (cases e) simp_all
    ultimately show ?thesis by simp
  qed
qed

subsection \<open>Properties\<close>

definition crashing_env :: runner_env where
  "crashing_env = \<lparr>worker = (\<lambda>cell profile tools recalled resume n. ([], Raised ''boom'')),
     env_config = sample_config, artifact_digest_of = (\<lambda>s. s), has_resume_dir = False,
     recall = None\<rparr>"

definition fresh_state :: cell_state where
  "fresh_state = \<lparr>used = zero_usage, evidence_digests = Map.empty, tools_used = [],
     auth = new_authority default_budget, retry = new_retry_policy, emitted = [], stored = [],
     checkpoints = Map.empty, remembered = []\<rparr>"

text \<open>A cell always comes to an end.  Whatever the worker does, the attempt loop is over after
  at most two attempts per configured profile and one more, even when \<^verbatim>\<open>max_retries\<close> is 0
  (no cap); a positive \<^verbatim>\<open>max_retries\<close> bounds it by that many retries.\<close>

theorem cell_loop_terminates:
  assumes "rp_policy (retry st) = RECOVERY_POLICY"
    and "if max_retries (wc_budget wc) \<le> 0 then 2 * length (profiles (env_config env)) < fuel
         else min (int (2 * length (profiles (env_config env)))) (max_retries (wc_budget wc)) < int fuel"
  shows "fst (run_cell env fuel r cell wc tools st) \<notin> {Out_of_fuel, Ladder_empty}"
proof (rule run_cell_end)
  fix sel resume and st' :: cell_state
  assume st': "retry st' = retry st" and sel: "sel \<in> mp_name ` set (profiles (env_config env))"
  have pol: "rp_policy (retry st') = RECOVERY_POLICY" using st' assms(1) by simp
  show "fst (attempt_loop env r cell wc tools (if tools = [] then {} else {TOOL_USE})
      (recalled_prompt env cell) fuel sel resume 0 st') \<notin> {Out_of_fuel, Ladder_empty}"
  proof (cases "2 * length (profiles (env_config env)) < fuel")
    case True
    then have "rungs_left env cell wc st' < fuel" using rungs_left_bound [of env cell wc st'] by simp
    then show ?thesis by (rule attempt_loop_ends [OF pol sel])
  next
    case False
    with assms(2) have "0 < max_retries (wc_budget wc)" "max_retries (wc_budget wc) < int 0 + int fuel"
      by (auto split: if_splits)
    from attempt_loop_capped [OF pol sel this] this show ?thesis by auto
  qed
qed

theorem cell_loop_terminates_witness:
  "fst (run_cell crashing_env 5 ''r'' (sample_cell ''c'' [] MUTATING [] 0)
     (base_contract ''c'' ''o'' default_budget) [] fresh_state) \<notin> {Out_of_fuel, Ladder_empty}"
proof (rule cell_loop_terminates)
  show "rp_policy (retry fresh_state) = RECOVERY_POLICY"
    by (simp add: fresh_state_def new_retry_policy_def)
  show "if max_retries (wc_budget (base_contract ''c'' ''o'' default_budget)) \<le> 0
      then 2 * length (profiles (env_config crashing_env)) < 5
      else min (int (2 * length (profiles (env_config crashing_env))))
        (max_retries (wc_budget (base_contract ''c'' ''o'' default_budget))) < int 5"
    by (simp add: base_contract_def default_budget_def unlimited_budget_def crashing_env_def
        sample_config_def)
qed


definition good_result :: worker_result where
  "good_result = \<lparr>wr_ok = True, wr_text = ''done'', wr_tool_calls_made = 1, wr_tool_rounds = 1,
     wr_api_calls = 2, wr_successful_api_calls = 2, wr_input_tokens = 10, wr_output_tokens = 5,
     wr_cost_usd = 1 / 100, wr_error = [], wr_error_kind = [], wr_tool_results = [],
     wr_messages = []\<rparr>"

definition working_env :: runner_env where
  "working_env = crashing_env\<lparr>worker := (\<lambda>cell profile tools recalled resume n. ([], Returned good_result))\<rparr>"

lemma working_cell:
  "fst (run_cell working_env 5 ''r'' (sample_cell ''c'' [] MUTATING [] 0)
     (base_contract ''c'' ''o'' default_budget) [] fresh_state) = Cell_done good_result"
proof -
  have "eligible sample_config (sample_cell ''c'' [] MUTATING [] 0) None [] {} (sample_profile ''cheap'' {WORKER} 1)"
    by (simp add: eligible_def sample_config_def sample_cell_def required_caps_of_def too_dear_def
        sample_profile_def List.map_filter_def)
  then have "\<not> rd_abstained (route_cell sample_config (sample_cell ''c'' [] MUTATING [] 0) None [] {})"
    by (auto simp: route_cell_abstained filter_empty_iff dest: eligibleD)
  moreover have "attempt_loop working_env r cell wc tools needs recalled 5 sel resume n st
      = (Cell_done good_result, record_result good_result st)" for r cell wc tools needs recalled sel resume n st
    by (simp add: eval_nat_numeral run_attempt_def working_env_def good_result_def)
  ultimately show ?thesis
    by (simp add: run_cell_def Let_def) (simp add: working_env_def crashing_env_def)
qed


text \<open>A safety failure is final.  An attempt that ends with a safety error ends the cell as
  failed with one recorded TERMINATE, whatever the history, the cap or the other profiles.\<close>

theorem safety_failure_is_final:
  assumes "run_attempt env cell wc tools recalled sel resume n st = (Inr (k, d, carried), st1)"
    and "failure_of k = Fail_SAFETY"
  shows "attempt_loop env r cell wc tools needs recalled (Suc fuel) sel resume n st =
    (Cell_gave_up Outcome_FAILED,
     emit_payload (CellFailed (gc_id cell) (take 500 d) k)
       (emit_payload (RecoveryTransition (gc_id cell) Fail_SAFETY TERMINATE n (take 2000 d)) st1))"
proof -
  have "classifier_classify Map.empty k = Fail_SAFETY"
    using assms(2) by (auto simp: failure_of_def coerce_error_kind_def classifier_classify_def
        classify_def split: option.splits if_splits)
  then show ?thesis
    using assms by (simp add: after_failure_def handle_cell_failure_def emit_recovery_def Let_def
        retry_actions_def abstain_actions_def)
qed

theorem safety_failure_is_final_witness:
  "fst (attempt_loop (crashing_env\<lparr>worker := (\<lambda>cell profile tools recalled resume n.
       ([], Returned (good_result\<lparr>wr_ok := False, wr_error_kind := ''safety''\<rparr>)))\<rparr>)
     ''r'' (sample_cell ''c'' [] MUTATING [] 0) (base_contract ''c'' ''o'' unlimited_budget) [] {} []
     (Suc 9) ''cheap'' None 0 fresh_state) = Cell_gave_up Outcome_FAILED"
proof -
  have "failure_of ''safety'' = Fail_SAFETY"
    using parse_worker_error_value [of Err_SAFETY] by (simp add: failure_of_def coerce_error_kind_def)
  then show ?thesis
    by (subst safety_failure_is_final)
      (simp_all add: run_attempt_def crashing_env_def good_result_def base_contract_def
        unlimited_budget_def)
qed

end
