(* ===== verification/Planning.thy ===== *)
theory Planning
  imports Config
begin

section \<open>Graph planning, validation and scheduling (application/planning.py, scheduling.py)\<close>

text \<open>
  The single-cell plan, the validator a graph must pass before it is accepted, and the choice of
  the cells to run next.  Each message of the validator is a constructor of \<open>graph_error\<close>
  with the values it prints.  The cycle check is the source's queue loop over an in-degree
  table and an adjacency table.
\<close>

definition MAX_TOTAL_TOKEN_BUDGET :: int where
  "MAX_TOTAL_TOKEN_BUDGET = 10000000"

definition MAX_TOTAL_COST_USD :: usd where
  "MAX_TOTAL_COST_USD = 100"

definition single_cell_graph :: "graph_cell \<Rightarrow> graph_version" where
  "single_cell_graph cell = \<lparr>gv_version = 1, gv_cells = [cell], edges = [],
     milestones = [gc_id cell], current_horizon = 0\<rparr>"

definition plan :: "work_contract \<Rightarrow> run_id \<Rightarrow> graph_version" where
  "plan wc r = single_cell_graph \<lparr>gc_id = ''cell-'' @ r, gc_name = take 50 (objective wc),
     wave = 0, required_capabilities = [], mode = MUTATING, input_schema = [],
     output_schema = [], required_profile_roles = [role_value WORKER], dependencies = [],
     acceptance_criterion_indices = map int [0..<length (acceptance_criteria wc)],
     contract = wc, gc_status = Cell_PENDING\<rparr>"

subsection \<open>Validation\<close>

datatype graph_error =
    NoCells | DuplicateCellIds | DuplicateMilestones | UnknownMilestone string
  | HorizonMismatch nat nat
  | DuplicateDependencies cell_id | DuplicateCriterionIndices cell_id
  | InvalidCriterionIndices cell_id "int list"
  | DependsOnItself cell_id | DependsOnUnknown cell_id cell_id | DependencyNotEarlier cell_id cell_id
  | DuplicateEdges | UnknownEdgeEndpoint cell_id cell_id | BlockingEdgesDisagree
  | CycleDetected
  | UnlimitedTokenBudget | TokenBudgetTooLarge int
  | UnlimitedCostBudget | CostBudgetTooLarge usd
  | WaveMutating nat "cell_id list"
  | TooManyMutating "cell_id list" nat

text \<open>The tables of the cycle check: insertion-ordered dicts.\<close>

type_synonym adjacency = "(cell_id \<times> cell_id list) list"
type_synonym in_degrees = "(cell_id \<times> int) list"

definition table_of :: "('k \<times> 'v) list \<Rightarrow> 'k \<Rightarrow> 'v \<Rightarrow> 'v" where
  "table_of t k d = (case map_of t k of None \<Rightarrow> d | Some v \<Rightarrow> v)"

definition cell_ids :: "graph_cell list \<Rightarrow> cell_id list" where
  "cell_ids cs = map gc_id cs"

text \<open>\<^verbatim>\<open>cells_by_id[dependency].wave\<close>: the last cell of that id.\<close>

definition wave_of :: "graph_cell list \<Rightarrow> cell_id \<Rightarrow> nat" where
  "wave_of cs i = (case find (\<lambda>c. gc_id c = i) (rev cs) of None \<Rightarrow> 0 | Some c \<Rightarrow> wave c)"

text \<open>The inner loop over one cell's dependencies.\<close>

fun check_dependencies ::
  "graph_cell list \<Rightarrow> graph_cell \<Rightarrow> cell_id list \<Rightarrow> graph_error list \<times> adjacency \<times> in_degrees
     \<Rightarrow> graph_error list \<times> adjacency \<times> in_degrees" where
  "check_dependencies cs c [] st = st"
| "check_dependencies cs c (d # ds) (errs, adj, deg) =
     (let errs1 = (if d = gc_id c then errs @ [DependsOnItself (gc_id c)] else errs)
      in if d \<notin> set (cell_ids cs)
         then check_dependencies cs c ds (errs1 @ [DependsOnUnknown (gc_id c) d], adj, deg)
         else check_dependencies cs c ds
           (if wave c \<le> wave_of cs d then errs1 @ [DependencyNotEarlier d (gc_id c)] else errs1,
            dict_set adj d (table_of adj d [] @ [gc_id c]),
            dict_set deg (gc_id c) (table_of deg (gc_id c) 0 + 1)))"

definition invalid_indices :: "graph_cell \<Rightarrow> int list" where
  "invalid_indices c = filter (\<lambda>i. \<not> (0 \<le> i \<and> i < int (length (acceptance_criteria (contract c)))))
     (acceptance_criterion_indices c)"

definition check_cell ::
  "graph_cell list \<Rightarrow> graph_error list \<times> adjacency \<times> in_degrees \<Rightarrow> graph_cell
     \<Rightarrow> graph_error list \<times> adjacency \<times> in_degrees" where
  "check_cell cs st c =
     (case st of (errs, adj, deg) \<Rightarrow>
        let errs1 = (if distinct (dependencies c) then [] else [DuplicateDependencies (gc_id c)]);
            errs2 = (if distinct (acceptance_criterion_indices c) then []
                     else [DuplicateCriterionIndices (gc_id c)]);
            errs3 = (if invalid_indices c = [] then []
                     else [InvalidCriterionIndices (gc_id c) (sort (remdups (invalid_indices c)))])
        in check_dependencies cs c (dependencies c) (errs @ errs1 @ errs2 @ errs3, adj, deg))"

text \<open>One node's neighbours: decrement, and queue the ones that reach zero.\<close>

fun relax :: "in_degrees \<Rightarrow> cell_id list \<Rightarrow> cell_id list \<Rightarrow> in_degrees \<times> cell_id list" where
  "relax deg q [] = (deg, q)"
| "relax deg q (n # ns) =
     (let d = table_of deg n 0 - 1
      in relax (dict_set deg n d) (if d = 0 then q @ [n] else q) ns)"

definition pending :: "in_degrees \<Rightarrow> nat" where
  "pending deg = sum_list (map (\<lambda>(k, v). nat v) deg)"

lemma pending_set: "pending (dict_set deg n d) + nat (table_of deg n 0) = pending deg + nat d"
  by (induction deg n d rule: dict_set.induct) (auto simp: pending_def table_of_def)

lemma relax_measure:
  "relax deg q ns = (deg', q') \<Longrightarrow> pending deg' + length q' \<le> pending deg + length q"
proof (induction ns arbitrary: deg q)
  case Nil
  then show ?case by simp
next
  case (Cons n ns)
  let ?d = "table_of deg n 0 - 1"
  have "pending (dict_set deg n ?d) + length (if ?d = 0 then q @ [n] else q) \<le> pending deg + length q"
    using pending_set [of deg n ?d] by auto
  with Cons.IH [of "dict_set deg n ?d" "if ?d = 0 then q @ [n] else q"] Cons.prems
  show ?case by (simp add: Let_def)
qed

function kahn :: "adjacency \<Rightarrow> in_degrees \<Rightarrow> cell_id list \<Rightarrow> nat \<Rightarrow> nat" where
  "kahn adj deg [] visited = visited"
| "kahn adj deg (node # queue) visited =
     (case relax deg queue (table_of adj node []) of
        (deg', queue') \<Rightarrow> kahn adj deg' queue' (Suc visited))"
  by pat_completeness auto
termination
proof (relation "measure (\<lambda>(adj, deg, q, v). pending deg + length q)")
  fix adj deg and node :: cell_id and queue visited deg' queue'
  assume "(deg', queue') = relax deg queue (table_of adj node [])"
  from relax_measure [OF this [symmetric]]
  show "((adj, deg', queue', Suc visited), (adj, deg, node # queue, visited))
      \<in> measure (\<lambda>(adj, deg, q, v). pending deg + length q)" by simp
qed simp

text \<open>The tables before the loop over the cells; a dict keeps one entry per id.\<close>

definition init_adj :: "graph_cell list \<Rightarrow> adjacency" where
  "init_adj cs = foldl (\<lambda>t c. dict_set t (gc_id c) []) [] cs"

definition init_deg :: "graph_cell list \<Rightarrow> in_degrees" where
  "init_deg cs = foldl (\<lambda>t c. dict_set t (gc_id c) 0) [] cs"

definition start_queue :: "in_degrees \<Rightarrow> cell_id list" where
  "start_queue deg = map fst (filter (\<lambda>(k, v). v = 0) deg)"

definition visited_cells :: "graph_cell list \<Rightarrow> nat" where
  "visited_cells cs =
     (case foldl (check_cell cs) ([], init_adj cs, init_deg cs) cs of
        (errs, adj, deg) \<Rightarrow> kahn adj deg (start_queue deg) 0)"

definition dependency_pairs :: "graph_cell list \<Rightarrow> (cell_id \<times> cell_id) set" where
  "dependency_pairs cs =
     set (concat (map (\<lambda>c. map (\<lambda>d. (d, gc_id c))
       (filter (\<lambda>d. d \<in> set (cell_ids cs)) (dependencies c))) cs))"

definition blocking_pairs :: "graph_edge list \<Rightarrow> (cell_id \<times> cell_id) set" where
  "blocking_pairs es =
     (\<lambda>e. (from_id e, to_id e)) ` set (filter (\<lambda>e. edge_kind e = ''blocks'') es)"

definition structural_errors :: "graph_version \<Rightarrow> graph_error list" where
  "structural_errors g =
     (let cs = gv_cells g;
          ids = cell_ids cs;
          max_wave = Max (insert 0 (wave ` set cs));
          (cell_errs, adj, deg) = foldl (check_cell cs) ([], init_adj cs, init_deg cs) cs
      in (if cs = [] then [NoCells] else [])
       @ (if distinct ids then [] else [DuplicateCellIds])
       @ (if distinct (milestones g) then [] else [DuplicateMilestones])
       @ map UnknownMilestone (sort (filter (\<lambda>m. m \<notin> set ids) (remdups (milestones g))))
       @ (if cs \<noteq> [] \<and> current_horizon g \<noteq> max_wave
          then [HorizonMismatch (current_horizon g) max_wave] else [])
       @ cell_errs
       @ (if distinct (map (\<lambda>e. (from_id e, to_id e, edge_kind e)) (edges g)) then []
          else [DuplicateEdges])
       @ map (\<lambda>e. UnknownEdgeEndpoint (from_id e) (to_id e))
           (filter (\<lambda>e. from_id e \<notin> set ids \<or> to_id e \<notin> set ids) (edges g))
       @ (if blocking_pairs (edges g) = dependency_pairs cs then [] else [BlockingEdgesDisagree])
       @ (if kahn adj deg (start_queue deg) 0 = length cs then [] else [CycleDetected]))"

definition axis_errors ::
  "'a option \<Rightarrow> ('a::linordered_ab_group_add) option list \<Rightarrow> 'a \<Rightarrow> graph_error \<Rightarrow> ('a \<Rightarrow> graph_error)
     \<Rightarrow> graph_error list" where
  "axis_errors authority limits cap unlimited too_large =
     (let known = List.map_filter (\<lambda>l. l) limits
      in if length known \<noteq> length limits
         then (if authority = None then [] else [unlimited])
         else if cap < sum_list known then [too_large (sum_list known)] else [])"

definition budget_errors :: "graph_version \<Rightarrow> budget option \<Rightarrow> graph_error list" where
  "budget_errors g run_budget =
     axis_errors (Option.bind run_budget token_limit)
       (map (\<lambda>c. token_limit (wc_budget (contract c))) (gv_cells g))
       MAX_TOTAL_TOKEN_BUDGET UnlimitedTokenBudget TokenBudgetTooLarge
     @ axis_errors (Option.bind run_budget cost_limit_usd)
       (map (\<lambda>c. cost_limit_usd (wc_budget (contract c))) (gv_cells g))
       MAX_TOTAL_COST_USD UnlimitedCostBudget CostBudgetTooLarge"

definition mutating_ids :: "graph_version \<Rightarrow> graph_cell list" where
  "mutating_ids g = filter (\<lambda>c. mode c = MUTATING) (gv_cells g)"

definition wave_mutating :: "graph_version \<Rightarrow> (nat \<times> cell_id list) list" where
  "wave_mutating g =
     foldl (\<lambda>t c. dict_set t (wave c) (table_of t (wave c) [] @ [gc_id c])) [] (mutating_ids g)"

definition concurrency_errors :: "graph_version \<Rightarrow> graph_error list" where
  "concurrency_errors g =
     map (\<lambda>(w, ids). WaveMutating w ids) (filter (\<lambda>(w, ids). 1 < length ids) (wave_mutating g))"

definition wave_budget_errors :: "graph_version \<Rightarrow> nat option \<Rightarrow> graph_error list" where
  "wave_budget_errors g waves_cap =
     (case waves_cap of None \<Rightarrow> []
      | Some n \<Rightarrow> if n < length (mutating_ids g)
                  then [TooManyMutating (map gc_id (mutating_ids g)) n] else [])"

definition validate_graph :: "graph_version \<Rightarrow> budget option \<Rightarrow> nat option \<Rightarrow> graph_error list" where
  "validate_graph g run_budget waves_cap =
     structural_errors g @ budget_errors g run_budget @ concurrency_errors g
     @ wave_budget_errors g waves_cap"

subsection \<open>The error part of the cell loop\<close>

fun dependency_errors :: "graph_cell list \<Rightarrow> graph_cell \<Rightarrow> cell_id list \<Rightarrow> graph_error list" where
  "dependency_errors cs c [] = []"
| "dependency_errors cs c (d # ds) =
     (if d = gc_id c then [DependsOnItself (gc_id c)] else [])
     @ (if d \<notin> set (cell_ids cs) then [DependsOnUnknown (gc_id c) d]
        else if wave c \<le> wave_of cs d then [DependencyNotEarlier d (gc_id c)] else [])
     @ dependency_errors cs c ds"

definition cell_errors :: "graph_cell list \<Rightarrow> graph_cell \<Rightarrow> graph_error list" where
  "cell_errors cs c =
     (if distinct (dependencies c) then [] else [DuplicateDependencies (gc_id c)])
     @ (if distinct (acceptance_criterion_indices c) then [] else [DuplicateCriterionIndices (gc_id c)])
     @ (if invalid_indices c = [] then []
        else [InvalidCriterionIndices (gc_id c) (sort (remdups (invalid_indices c)))])
     @ dependency_errors cs c (dependencies c)"

text \<open>The known dependencies of a cell, with repetitions, and what the loop does to the tables.\<close>

definition known_deps :: "graph_cell list \<Rightarrow> graph_cell \<Rightarrow> cell_id list" where
  "known_deps cs c = filter (\<lambda>d. d \<in> set (cell_ids cs)) (dependencies c)"

lemma table_of_set [simp]: "table_of (dict_set t k v) k' d = (if k' = k then v else table_of t k' d)"
  by (simp add: table_of_def)

lemma check_dependencies_spec:
  assumes "check_dependencies cs c ds (errs, adj, deg) = (errs', adj', deg')"
  shows "errs' = errs @ dependency_errors cs c ds
    \<and> (\<forall>u v. count_list (table_of adj' u []) v = count_list (table_of adj u []) v
         + (if v = gc_id c then count_list (filter (\<lambda>d. d \<in> set (cell_ids cs)) ds) u else 0))
    \<and> (\<forall>v. table_of deg' v 0 = table_of deg v 0
         + (if v = gc_id c then int (length (filter (\<lambda>d. d \<in> set (cell_ids cs)) ds)) else 0))"
  using assms
proof (induction ds arbitrary: errs adj deg)
  case Nil
  then show ?case by simp
next
  case (Cons d ds)
  show ?case
  proof (cases "d \<in> set (cell_ids cs)")
    case False
    with Cons.prems Cons.IH [of "(if d = gc_id c then errs @ [DependsOnItself (gc_id c)] else errs)
        @ [DependsOnUnknown (gc_id c) d]" adj deg]
    show ?thesis by (simp add: Let_def)
  next
    case True
    let ?e = "if d = gc_id c then errs @ [DependsOnItself (gc_id c)] else errs"
    let ?e' = "if wave c \<le> wave_of cs d then ?e @ [DependencyNotEarlier d (gc_id c)] else ?e"
    let ?adj = "dict_set adj d (table_of adj d [] @ [gc_id c])"
    let ?deg = "dict_set deg (gc_id c) (table_of deg (gc_id c) 0 + 1)"
    have "check_dependencies cs c ds (?e', ?adj, ?deg) = (errs', adj', deg')"
      using Cons.prems True by (simp add: Let_def)
    from Cons.IH [OF this] True show ?thesis by auto
  qed
qed

lemma check_cell_spec:
  assumes "check_cell cs (errs, adj, deg) c = (errs', adj', deg')"
  shows "errs' = errs @ cell_errors cs c
    \<and> (\<forall>u v. count_list (table_of adj' u []) v = count_list (table_of adj u []) v
         + (if v = gc_id c then count_list (known_deps cs c) u else 0))
    \<and> (\<forall>v. table_of deg' v 0 = table_of deg v 0
         + (if v = gc_id c then int (length (known_deps cs c)) else 0))"
  using check_dependencies_spec assms unfolding check_cell_def Let_def prod.case
  by (fastforce simp: cell_errors_def known_deps_def)

lemma cells_loop_spec:
  assumes "foldl (check_cell cs) (errs, adj, deg) ws = (errs', adj', deg')"
  shows "errs' = errs @ concat (map (cell_errors cs) ws)
    \<and> (\<forall>u v. count_list (table_of adj' u []) v = count_list (table_of adj u []) v
         + sum_list (map (\<lambda>c. if v = gc_id c then count_list (known_deps cs c) u else 0) ws))
    \<and> (\<forall>v. table_of deg' v 0 = table_of deg v 0
         + int (sum_list (map (\<lambda>c. if v = gc_id c then length (known_deps cs c) else 0) ws)))"
  using assms
proof (induction ws arbitrary: errs adj deg)
  case Nil
  then show ?case by simp
next
  case (Cons c ws)
  obtain e a d where st: "check_cell cs (errs, adj, deg) c = (e, a, d)" by (metis prod_cases3)
  with Cons.prems have "foldl (check_cell cs) (e, a, d) ws = (errs', adj', deg')" by simp
  from Cons.IH [OF this] check_cell_spec [OF st] show ?case by auto
qed

subsection \<open>The queue loop visits exactly the cells that hang on no cycle\<close>

lemma relax_spec:
  assumes "\<And>v. int (count_list ns v) \<le> table_of deg v 0"
    and "distinct q" "\<And>v. v \<in> set q \<Longrightarrow> table_of deg v 0 = 0"
    and "relax deg q ns = (deg', q')"
  shows "(\<forall>v. table_of deg' v 0 = table_of deg v 0 - int (count_list ns v)) \<and> distinct q'
    \<and> set q' = set q \<union> {v \<in> set ns. table_of deg v 0 = int (count_list ns v)}"
  using assms
proof (induction ns arbitrary: deg q)
  case Nil
  then show ?case by simp
next
  case (Cons n ns)
  define d where "d = table_of deg n 0 - 1"
  define q1 where "q1 = (if d = 0 then q @ [n] else q)"
  have le: "int (count_list ns v) \<le> table_of (dict_set deg n d) v 0" for v
    using Cons.prems(1) [of v] by (simp add: d_def split: if_splits)
  have n: "n \<notin> set q" using Cons.prems(1) [of n] Cons.prems(3) [of n] by auto
  have "relax (dict_set deg n d) q1 ns = (deg', q')"
    using Cons.prems(4) by (simp add: Let_def d_def q1_def)
  moreover have "distinct q1" using n Cons.prems(2) by (simp add: q1_def)
  moreover have "table_of (dict_set deg n d) v 0 = 0" if "v \<in> set q1" for v
    using that n Cons.prems(3) by (auto simp: q1_def split: if_splits)
  ultimately have IH: "\<forall>v. table_of deg' v 0 = table_of (dict_set deg n d) v 0 - int (count_list ns v)"
    "distinct q'" "set q' = set q1 \<union> {v \<in> set ns. table_of (dict_set deg n d) v 0 = int (count_list ns v)}"
    using Cons.IH [OF le] by blast+
  have "set q1 \<union> {v \<in> set ns. table_of (dict_set deg n d) v 0 = int (count_list ns v)}
      = set q \<union> {v \<in> set (n # ns). table_of deg v 0 = int (count_list (n # ns) v)}"
    using Cons.prems(1) [of n] by (auto simp: q1_def d_def count_list_0_iff split: if_splits)
  with IH show ?case by (auto simp: d_def)
qed

text \<open>\<open>into v\<close> lists the sources of the edges into \<open>v\<close>; \<open>D\<close> is what the loop has dequeued.\<close>

definition left_into :: "(cell_id \<Rightarrow> cell_id list) \<Rightarrow> cell_id set \<Rightarrow> cell_id \<Rightarrow> cell_id list" where
  "left_into into D v = filter (\<lambda>u. u \<notin> D) (into v)"

definition settled :: "(cell_id \<Rightarrow> cell_id list) \<Rightarrow> cell_id set \<Rightarrow> bool" where
  "settled into D \<longleftrightarrow> finite D \<and> (\<forall>v \<in> D. set (into v) \<subseteq> D)
     \<and> (\<exists>f :: cell_id \<Rightarrow> nat. \<forall>v \<in> D. \<forall>u \<in> set (into v). f u < f v)"

lemma length_left_into:
  "n \<notin> D \<Longrightarrow> length (left_into into (insert n D) v) + count_list (into v) n = length (left_into into D v)"
proof -
  assume n: "n \<notin> D"
  have "length (filter (\<lambda>u. u \<notin> insert n D) xs) + count_list xs n = length (filter (\<lambda>u. u \<notin> D) xs)" for xs
    using n by (induction xs) auto
  then show ?thesis by (simp add: left_into_def)
qed

lemma settled_insert:
  assumes "settled into D" "n \<notin> D" "set (into n) \<subseteq> D"
  shows "settled into (insert n D)"
proof -
  from assms(1) obtain f :: "cell_id \<Rightarrow> nat" where fin: "finite D"
    and cl: "\<forall>v \<in> D. set (into v) \<subseteq> D" and f: "\<forall>v \<in> D. \<forall>u \<in> set (into v). f u < f v"
    by (auto simp: settled_def)
  define g where "g = f(n := Suc (Max (insert 0 (f ` D))))"
  have "g u < g v" if "v \<in> insert n D" "u \<in> set (into v)" for u v
  proof (cases "v = n")
    case True
    with that assms have "u \<in> D" "u \<noteq> n" by auto
    then have "f u \<le> Max (insert 0 (f ` D))" using fin by (intro Max_ge) auto
    with True \<open>u \<noteq> n\<close> show ?thesis by (simp add: g_def)
  next
    case False
    with that cl assms(2) have "u \<noteq> n" "v \<in> D" by auto
    with f that(2) False show ?thesis by (simp add: g_def)
  qed
  with fin cl assms(3) show ?thesis unfolding settled_def by blast
qed

lemma kahn_spec:
  assumes "\<And>u v. count_list (table_of adj u []) v = count_list (into v) u"
    and "\<And>v. v \<notin> N \<Longrightarrow> into v = []"
    and "settled into D" "D \<subseteq> N"
    and "\<And>v. table_of deg v 0 = int (length (left_into into D v))"
    and "distinct q" "set q = {v \<in> N - D. left_into into D v = []}"
  shows "\<exists>D'. D \<subseteq> D' \<and> D' \<subseteq> N \<and> settled into D'
    \<and> kahn adj deg q visited = visited + card (D' - D)
    \<and> (\<forall>v \<in> N - D'. left_into into D' v \<noteq> [])"
  using assms(1,3-)
proof (induction adj deg q visited arbitrary: D rule: kahn.induct)
  case (1 adj deg visited)
  then show ?case by (intro exI [of _ D]) auto
next
  case (2 adj deg node queue visited)
  obtain deg' q' where r: "relax deg queue (table_of adj node []) = (deg', q')" by (metis surj_pair)
  let ?ns = "table_of adj node []" and ?E = "insert node D"
  have cnt: "count_list ?ns v = count_list (into v) node" for v by (rule "2.prems"(1))
  from "2.prems"(5,6) have node: "node \<in> N" "node \<notin> D" "left_into into D node = []"
    and q: "distinct queue" "node \<notin> set queue" "set queue \<subseteq> {v \<in> N - D. left_into into D v = []}"
    by auto
  have split_len: "length (left_into into ?E v) + count_list (into v) node = length (left_into into D v)" for v
    by (rule length_left_into [OF node(2)])
  have "set (into node) \<subseteq> D" using node(3) by (auto simp: left_into_def filter_empty_iff)
  from settled_insert [OF "2.prems"(2) node(2) this] have sE: "settled into ?E" .
  have le: "int (count_list ?ns v) \<le> table_of deg v 0" for v
    using "2.prems"(4) [of v] split_len [of v] by (simp add: cnt)
  have zero: "table_of deg v 0 = 0" if "v \<in> set queue" for v
    using "2.prems"(4) [of v] q(3) that by auto
  from relax_spec [OF le q(1) zero r]
  have deg': "table_of deg' v 0 = int (length (left_into into ?E v))" and q': "distinct q'"
    and sq: "set q' = set queue \<union> {v \<in> set ?ns. table_of deg v 0 = int (count_list ?ns v)}" for v
    using "2.prems"(4) [of v] split_len [of v] by (simp_all add: cnt)
  have "v \<in> N - ?E \<and> left_into into ?E v = []" if "v \<in> set q'" for v
  proof (cases "v \<in> set queue")
    case True
    with q(2,3) split_len [of v] show ?thesis by auto
  next
    case False
    with that sq have v: "v \<in> set ?ns" "table_of deg v 0 = int (count_list ?ns v)" by auto
    then have "0 < count_list (into v) node" by (metis cnt count_list_0_iff gr0I)
    then have u: "node \<in> set (into v)" by (metis count_list_0_iff less_numeral_extra(3))
    have "v \<noteq> node" using split_len [of node] node(3) \<open>0 < count_list (into v) node\<close> by auto
    moreover have "v \<notin> D" using u node(2) "2.prems"(2) by (auto simp: settled_def)
    moreover have "v \<in> N" using u assms(2) [of v] by (cases "v \<in> N") auto
    moreover have "left_into into ?E v = []"
      using v(2) "2.prems"(4) [of v] split_len [of v] by (simp add: cnt)
    ultimately show ?thesis by simp
  qed
  moreover have "v \<in> set q'" if "v \<in> N - ?E" "left_into into ?E v = []" for v
  proof (cases "left_into into D v = []")
    case True
    with that "2.prems"(6) sq show ?thesis by auto
  next
    case False
    with that(2) split_len [of v] have c: "count_list (into v) node = length (left_into into D v)"
      "count_list (into v) node \<noteq> 0" by auto
    have "v \<in> set ?ns"
    proof (rule ccontr)
      assume "v \<notin> set ?ns"
      then have "count_list ?ns v = 0" by (rule count_notin)
      with cnt [of v] c(2) show False by simp
    qed
    moreover have "table_of deg v 0 = int (count_list ?ns v)"
      using "2.prems"(4) [of v] cnt [of v]
        c(1) by simp
    ultimately have "v \<in> set ?ns" "table_of deg v 0 = int (count_list ?ns v)" by simp_all
    with sq show ?thesis by simp
  qed
  ultimately have "set q' = {v \<in> N - ?E. left_into into ?E v = []}" by blast
  moreover have "?E \<subseteq> N" using node(1) "2.prems"(3) by simp
  ultimately obtain D' where D': "?E \<subseteq> D'" "D' \<subseteq> N" "settled into D'"
    "kahn adj deg' q' (Suc visited) = Suc visited + card (D' - ?E)"
    "\<forall>v \<in> N - D'. left_into into D' v \<noteq> []"
    using "2.IH" [OF r [symmetric] "2.prems"(1) sE _ deg' q'] by blast
  have fin: "finite D'" using D'(3) by (simp add: settled_def)
  have "D' - D = insert node (D' - ?E)" using D'(1) node(2) by auto
  moreover have "card (insert node (D' - ?E)) = Suc (card (D' - ?E))"
    by (rule card_insert_disjoint) (use fin in auto)
  ultimately have "card (D' - D) = Suc (card (D' - ?E))" by (simp only:)
  moreover have "kahn adj deg (node # queue) visited = kahn adj deg' q' (Suc visited)"
    using r by simp
  ultimately have "kahn adj deg (node # queue) visited = visited + card (D' - D)"
    using D'(4) by simp
  moreover have "D \<subseteq> D'" using D'(1) by simp
  ultimately show ?case using D'(2,3,5) by (intro exI [of _ D'] conjI)
qed

text \<open>The tables of a graph are those of its edges, counted with repetitions.\<close>

definition edges_into :: "graph_cell list \<Rightarrow> cell_id \<Rightarrow> cell_id list" where
  "edges_into cs v = concat (map (known_deps cs) (filter (\<lambda>c. gc_id c = v) cs))"

lemma count_edges_into:
  "sum_list (map (\<lambda>c. if v = gc_id c then count_list (known_deps cs c) u else 0) ws)
     = count_list (concat (map (known_deps cs) (filter (\<lambda>c. gc_id c = v) ws))) u"
  by (induction ws) auto

lemma length_edges_into:
  "sum_list (map (\<lambda>c. if v = gc_id c then length (known_deps cs c) else 0) ws)
     = length (concat (map (known_deps cs) (filter (\<lambda>c. gc_id c = v) ws)))"
  by (induction ws) auto

lemma fst_dict_set:
  "map fst (dict_set t k v) = (if k \<in> fst ` set t then map fst t else map fst t @ [k])"
  by (induction t k v rule: dict_set.induct) auto

lemma keys_dict_set: "fst ` set (dict_set t k v) = insert k (fst ` set t)"
  by (induction t k v rule: dict_set.induct) auto

lemma init_table:
  "table_of (foldl (\<lambda>t c. dict_set t (gc_id c) d) t0 cs) k d = (if k \<in> set (cell_ids cs) then d else table_of t0 k d)"
  "distinct (map fst t0) \<Longrightarrow> distinct (map fst (foldl (\<lambda>t c. dict_set t (gc_id c) d) t0 cs))"
  "fst ` set (foldl (\<lambda>t c. dict_set t (gc_id c) d) t0 cs) = fst ` set t0 \<union> set (cell_ids cs)"
proof (induction cs arbitrary: t0)
  case (Cons c cs)
  {
    case 1
    show ?case by (simp add: Cons cell_ids_def)
  next
    case 2
    then have "distinct (map fst (dict_set t0 (gc_id c) d))" by (auto simp: fst_dict_set)
    then show ?case by (simp add: Cons)
  next
    case 3
    show ?case by (simp add: Cons keys_dict_set cell_ids_def)
  }
qed (simp_all add: cell_ids_def)

lemma check_dependencies_keys:
  "check_dependencies cs c ds (errs, adj, deg) = (errs', adj', deg') \<Longrightarrow> gc_id c \<in> fst ` set deg \<Longrightarrow>
     map fst deg' = map fst deg"
proof (induction ds arbitrary: errs adj deg)
  case Nil
  then show ?case by simp
next
  case (Cons d ds)
  have k: "map fst (dict_set deg (gc_id c) x) = map fst deg" for x
    using Cons.prems(2) by (simp add: fst_dict_set)
  then have "gc_id c \<in> fst ` set (dict_set deg (gc_id c) x)" for x
    using Cons.prems(2) by (metis list.set_map)
  with Cons k show ?case by (auto simp: Let_def split: if_splits)
qed

lemma cells_loop_keys:
  "foldl (check_cell cs) (errs, adj, deg) ws = (errs', adj', deg') \<Longrightarrow>
     gc_id ` set ws \<subseteq> fst ` set deg \<Longrightarrow> map fst deg' = map fst deg"
proof (induction ws arbitrary: errs adj deg)
  case Nil
  then show ?case by simp
next
  case (Cons c ws)
  obtain e a d where st: "check_cell cs (errs, adj, deg) c = (e, a, d)" by (metis prod_cases3)
  with Cons.prems have k: "map fst d = map fst deg"
    by (auto simp: check_cell_def Let_def intro: check_dependencies_keys)
  then have "fst ` set d = fst ` set deg" by (metis list.set_map)
  with Cons.IH [of e a d] Cons.prems st k show ?case by simp
qed

lemma table_of_start:
  "distinct (map fst t) \<Longrightarrow> set (start_queue t) = {k \<in> fst ` set t. table_of t k 0 = 0}"
  "distinct (map fst t) \<Longrightarrow> distinct (start_queue t)"
proof -
  assume d: "distinct (map fst t)"
  show "set (start_queue t) = {k \<in> fst ` set t. table_of t k 0 = 0}"
    using d by (auto simp: start_queue_def table_of_def image_iff
        dest: map_of_SomeD split: option.splits) (metis map_of_is_SomeI option.inject)+
  show "distinct (start_queue t)"
    using d by (auto simp: start_queue_def distinct_map inj_on_def)
qed

lemma dependency_pairs_iff:
  "(u, v) \<in> dependency_pairs cs \<longleftrightarrow> u \<in> set (edges_into cs v)"
  by (auto simp: dependency_pairs_def edges_into_def known_deps_def)

lemma visited_cells_iff:
  "visited_cells cs = length cs \<longleftrightarrow> distinct (cell_ids cs) \<and> acyclic (dependency_pairs cs)"
proof -
  let ?N = "set (cell_ids cs)" and ?into = "edges_into cs"
  obtain errs adj deg where loop:
    "foldl (check_cell cs) ([], init_adj cs, init_deg cs) cs = (errs, adj, deg)" by (metis prod_cases3)
  have adj0: "table_of (init_adj cs) u [] = []" for u
    by (simp add: init_adj_def init_table) (simp add: table_of_def)
  have deg0: "table_of (init_deg cs) u 0 = 0" for u
    by (simp add: init_deg_def init_table) (simp add: table_of_def)
  from cells_loop_spec [OF loop]
  have cnt: "count_list (table_of adj u []) v = count_list (?into v) u"
    and deg: "table_of deg v 0 = int (length (?into v))" for u v
    by (simp_all add: adj0 deg0 edges_into_def count_edges_into length_edges_into)
  have keys: "map fst deg = map fst (init_deg cs)"
    using cells_loop_keys [OF loop] by (simp add: init_deg_def init_table cell_ids_def)
  then have dk: "distinct (map fst deg)" by (simp add: init_deg_def init_table)
  have "fst ` set deg = fst ` set (init_deg cs)" using keys by (metis list.set_map)
  then have sk: "fst ` set deg = ?N" by (simp add: init_deg_def init_table)
  have outside: "?into v = []" if "v \<notin> ?N" for v
    using that by (auto simp: edges_into_def cell_ids_def filter_empty_iff)
  have inside: "set (?into v) \<subseteq> ?N" for v
    by (auto simp: edges_into_def known_deps_def)
  have s0: "settled ?into {}" by (simp add: settled_def)
  have d0: "table_of deg v 0 = int (length (left_into ?into {} v))" for v
    by (simp add: deg left_into_def)
  have q0: "set (start_queue deg) = {v \<in> ?N - {}. left_into ?into {} v = []}"
    by (simp add: table_of_start(1) [OF dk] sk deg left_into_def)
  from kahn_spec [where N = ?N and visited = 0, OF cnt outside s0 empty_subsetI d0
      table_of_start(2) [OF dk] q0]
  obtain D where D: "D \<subseteq> ?N" "settled ?into D" "kahn adj deg (start_queue deg) 0 = card D"
    "\<forall>v \<in> ?N - D. left_into ?into D v \<noteq> []"
    by (auto simp: Diff_empty)
  have vis: "visited_cells cs = card D" using loop D(3) by (simp add: visited_cells_def)
  have cardN: "card ?N \<le> length cs" "card ?N = length cs \<longleftrightarrow> distinct (cell_ids cs)"
    using card_length [of "cell_ids cs"] distinct_card_iff [of "cell_ids cs"]
    by (simp_all add: cell_ids_def)
  have "card D \<le> card ?N" "card D = card ?N \<longleftrightarrow> D = ?N"
    using D(1) by (auto intro: card_mono dest: card_subset_eq [of ?N D, rotated])
  then have "visited_cells cs = length cs \<longleftrightarrow> distinct (cell_ids cs) \<and> D = ?N"
    using cardN vis by auto
  moreover have "D = ?N \<longleftrightarrow> acyclic (dependency_pairs cs)"
  proof
    assume "D = ?N"
    with D(2) obtain f :: "cell_id \<Rightarrow> nat" where "\<forall>v \<in> ?N. \<forall>u \<in> set (?into v). f u < f v"
      by (auto simp: settled_def)
    then have "dependency_pairs cs \<subseteq> measure f"
      using outside by (force simp: dependency_pairs_iff)
    then show "acyclic (dependency_pairs cs)"
      by (meson wf_acyclic wf_measure wf_subset)
  next
    assume ac: "acyclic (dependency_pairs cs)"
    have "finite (dependency_pairs cs)" by (simp add: dependency_pairs_def)
    with ac have wf: "wf (dependency_pairs cs)" by (rule finite_acyclic_wf [rotated])
    show "D = ?N"
    proof (rule ccontr)
      assume "D \<noteq> ?N"
      with D(1) obtain v where "v \<in> ?N - D" by auto
      from wfE_min [OF wf this] obtain z where z: "z \<in> ?N - D"
        "\<And>y. (y, z) \<in> dependency_pairs cs \<Longrightarrow> y \<notin> ?N - D" by blast
      from z(1) D(4) obtain u where "u \<in> set (?into z)" "u \<notin> D"
        by (auto simp: left_into_def filter_empty_iff)
      with z(2) [of u] inside [of z] show False by (auto simp: dependency_pairs_iff)
    qed
  qed
  ultimately show ?thesis by simp
qed

subsection \<open>What an accepted graph satisfies\<close>

definition cell_well_formed :: "graph_cell list \<Rightarrow> graph_cell \<Rightarrow> bool" where
  "cell_well_formed cs c \<longleftrightarrow>
     distinct (dependencies c) \<and> distinct (acceptance_criterion_indices c)
     \<and> list_all (\<lambda>i. 0 \<le> i \<and> i < int (length (acceptance_criteria (contract c))))
         (acceptance_criterion_indices c)
     \<and> list_all (\<lambda>d. d \<in> set (cell_ids cs) \<and> wave_of cs d < wave c) (dependencies c)"

definition well_formed_graph :: "graph_version \<Rightarrow> bool" where
  "well_formed_graph g \<longleftrightarrow>
     (let cs = gv_cells g in
        cs \<noteq> [] \<and> distinct (cell_ids cs)
        \<and> distinct (milestones g) \<and> set (milestones g) \<subseteq> set (cell_ids cs)
        \<and> current_horizon g = Max (wave ` set cs)
        \<and> list_all (cell_well_formed cs) cs
        \<and> distinct (map (\<lambda>e. (from_id e, to_id e, edge_kind e)) (edges g))
        \<and> list_all (\<lambda>e. from_id e \<in> set (cell_ids cs) \<and> to_id e \<in> set (cell_ids cs)) (edges g)
        \<and> blocking_pairs (edges g) = dependency_pairs cs)"

lemma wave_of_cell:
  "distinct (cell_ids cs) \<Longrightarrow> c \<in> set cs \<Longrightarrow> wave_of cs (gc_id c) = wave c"
proof -
  assume d: "distinct (cell_ids cs)" and c: "c \<in> set cs"
  have "find (\<lambda>x. gc_id x = gc_id c) ws = Some c" if "distinct (map gc_id ws)" "c \<in> set ws" for ws
    using that by (induction ws) auto
  from this [of "rev cs"] d c show ?thesis
    by (simp add: wave_of_def cell_ids_def rev_map [symmetric])
qed

lemma dependency_errors_Nil:
  "dependency_errors cs c ds = [] \<longleftrightarrow>
     list_all (\<lambda>d. d \<noteq> gc_id c \<and> d \<in> set (cell_ids cs) \<and> wave_of cs d < wave c) ds"
  by (induction ds) auto

lemma cell_errors_Nil:
  assumes "distinct (cell_ids cs)" "c \<in> set cs"
  shows "cell_errors cs c = [] \<longleftrightarrow> cell_well_formed cs c"
proof -
  have "wave_of cs d < wave c \<Longrightarrow> d \<noteq> gc_id c" for d
    using wave_of_cell [OF assms] by auto
  then show ?thesis
    by (auto simp: cell_errors_def cell_well_formed_def dependency_errors_Nil invalid_indices_def
        filter_empty_iff list_all_iff)
qed

lemma dependency_acyclic:
  assumes "distinct (cell_ids cs)" "list_all (cell_well_formed cs) cs"
  shows "acyclic (dependency_pairs cs)"
proof -
  have "wave_of cs u < wave_of cs v" if "(u, v) \<in> dependency_pairs cs" for u v
    using that assms wave_of_cell [OF assms(1)]
    by (auto simp: dependency_pairs_def list_all_iff cell_well_formed_def)
  then have "dependency_pairs cs \<subseteq> measure (wave_of cs)" by auto
  then show ?thesis by (meson wf_acyclic wf_measure wf_subset)
qed

lemma sort_remdups_Nil: "sort (filter P (remdups xs)) = [] \<longleftrightarrow> list_all (\<lambda>x. \<not> P x) xs"
  by (metis (no_types, lifting) filter_empty_iff length_0_conv length_sort list_all_iff set_remdups)

lemma structural_errors_Nil: "structural_errors g = [] \<longleftrightarrow> well_formed_graph g"
proof -
  let ?cs = "gv_cells g"
  obtain errs adj deg where loop:
    "foldl (check_cell ?cs) ([], init_adj ?cs, init_deg ?cs) ?cs = (errs, adj, deg)"
    by (metis prod_cases3)
  have errs: "errs = concat (map (cell_errors ?cs) ?cs)"
    using cells_loop_spec [OF loop] by simp
  have vis: "kahn adj deg (start_queue deg) 0 = visited_cells ?cs"
    by (simp add: visited_cells_def loop)
  have horizon: "Max (insert 0 (wave ` set ?cs)) = Max (wave ` set ?cs)" if "?cs \<noteq> []"
    using that by (subst Max_insert) auto
  have milestones: "sort (filter (\<lambda>m. m \<notin> set (cell_ids ?cs)) (remdups (milestones g))) = []
      \<longleftrightarrow> set (milestones g) \<subseteq> set (cell_ids ?cs)"
    by (auto simp: sort_remdups_Nil list_all_iff)
  have cells: "errs = [] \<longleftrightarrow> list_all (cell_well_formed ?cs) ?cs" if "distinct (cell_ids ?cs)"
    using cell_errors_Nil [OF that] by (auto simp: errs list_all_iff)
  show ?thesis
  proof (cases "?cs \<noteq> [] \<and> distinct (cell_ids ?cs)")
    case False
    then show ?thesis by (auto simp: structural_errors_def well_formed_graph_def Let_def split: prod.split)
  next
    case True
    then have "visited_cells ?cs = length ?cs" if "errs = []"
      using that cells dependency_acyclic visited_cells_iff [of ?cs] by blast
    with True cells horizon show ?thesis
      by (auto simp: structural_errors_def well_formed_graph_def Let_def loop vis milestones
          map_is_Nil_conv filter_empty_iff list_all_iff)
  qed
qed

lemma plan_structure: "structural_errors (plan wc r) = []"
  by (simp add: structural_errors_Nil well_formed_graph_def plan_def single_cell_graph_def
      cell_ids_def cell_well_formed_def distinct_map inj_on_def list_all_iff blocking_pairs_def
      dependency_pairs_def)

subsection \<open>Properties\<close>

text \<open>The queue loop is a correct cycle check.  It visits as many nodes as there are cells
  exactly when the cell ids are distinct and the known dependencies form no cycle, whatever
  else is wrong with the graph.\<close>

theorem cycle_check_correct:
  "visited_cells cs = length cs \<longleftrightarrow> distinct (cell_ids cs) \<and> acyclic (dependency_pairs cs)"
  by (rule visited_cells_iff)

text \<open>The structural check accepts exactly the well-formed graphs: some cell, distinct ids,
  distinct known milestones, the horizon at the last wave, per cell distinct dependencies on
  known cells of earlier waves and distinct criterion indices in range, and distinct edges
  between known cells whose blocking part is the dependency relation.  Acyclicity follows, so
  on such graphs the cycle check never fires.\<close>

theorem structural_check_exact:
  "(structural_errors g = []) = well_formed_graph g
   \<and> (if well_formed_graph g then acyclic (dependency_pairs (gv_cells g)) else True)"
  using structural_errors_Nil [of g] dependency_acyclic [of "gv_cells g"]
  by (auto simp: well_formed_graph_def Let_def)

text \<open>The single-cell plan always passes the structural and concurrency checks, and with at
  least one wave its only possible errors are about budgets.\<close>

theorem single_cell_plan_valid:
  "validate_graph (plan wc r) run_budget waves =
     budget_errors (plan wc r) run_budget
     @ (if waves = Some 0 then [TooManyMutating [''cell-'' @ r] 0] else [])"
proof -
  have "concurrency_errors (plan wc r) = []" "mutating_ids (plan wc r) = gv_cells (plan wc r)"
    "map gc_id (gv_cells (plan wc r)) = [''cell-'' @ r]"
    by (simp_all add: concurrency_errors_def wave_mutating_def mutating_ids_def plan_def
        single_cell_graph_def table_of_def)
  then show ?thesis
    by (auto simp: validate_graph_def plan_structure wave_budget_errors_def split: option.split)
qed

end
