(* ===== verification/Scheduling.thy ===== *)
theory Scheduling
  imports Planning Routing
begin

section \<open>Scheduling and stalls (application/scheduling.py, application/stall_detector.py)\<close>

text \<open>
  The choice of the cells to run next: read-only cells in parallel, at most one mutating cell
  at a time; and the detector of a run that is alive but makes no progress, with the clock's
  readings as arguments.
\<close>

subsection \<open>Ready cells\<close>

fun ready_loop ::
  "cell_id set \<Rightarrow> cell_id set \<Rightarrow> bool \<Rightarrow> bool \<Rightarrow> graph_cell list \<Rightarrow> graph_cell list" where
  "ready_loop finished failed external has_mutating [] = []"
| "ready_loop finished failed external has_mutating (c # cs) =
     (if gc_id c \<in> finished \<or> gc_id c \<in> failed then ready_loop finished failed external has_mutating cs
      else if \<not> external \<and> gc_status c \<noteq> Cell_PENDING
      then ready_loop finished failed external has_mutating cs
      else if \<not> list_all (\<lambda>d. d \<in> finished) (dependencies c)
      then ready_loop finished failed external has_mutating cs
      else if mode c = MUTATING then
        (if has_mutating then ready_loop finished failed external has_mutating cs
         else c # ready_loop finished failed external True cs)
      else c # ready_loop finished failed external has_mutating cs)"

definition ready_cells ::
  "graph_version \<Rightarrow> cell_id list option \<Rightarrow> cell_id list option \<Rightarrow> graph_cell list" where
  "ready_cells g completed failed =
     (let external = (completed \<noteq> None \<or> failed \<noteq> None);
          finished = (if external then (case completed of None \<Rightarrow> {} | Some ids \<Rightarrow> set ids)
                      else gc_id ` set (filter (\<lambda>c. gc_status c = Cell_COMPLETED) (gv_cells g)));
          bad = (case failed of None \<Rightarrow> {} | Some ids \<Rightarrow> set ids)
      in ready_loop finished bad external False (gv_cells g))"

text \<open>A cell that may run: not finished, not failed, pending if the graph is the authority, and
  with every dependency finished.\<close>

definition runnable :: "cell_id set \<Rightarrow> cell_id set \<Rightarrow> bool \<Rightarrow> graph_cell \<Rightarrow> bool" where
  "runnable finished failed external c \<longleftrightarrow>
     gc_id c \<notin> finished \<and> gc_id c \<notin> failed \<and> (external \<or> gc_status c = Cell_PENDING)
     \<and> list_all (\<lambda>d. d \<in> finished) (dependencies c)"

lemma ready_loop_Cons:
  "ready_loop finished failed external m (c # cs) =
     (if runnable finished failed external c \<and> (mode c = READ_ONLY \<or> \<not> m)
      then c # ready_loop finished failed external (m \<or> mode c = MUTATING) cs
      else ready_loop finished failed external m cs)"
  by (cases "mode c") (simp_all add: runnable_def)

lemma ready_loop_runnable:
  "set (ready_loop finished failed external m cs) \<subseteq> set (filter (runnable finished failed external) cs)"
proof (induction cs arbitrary: m)
  case (Cons c cs)
  from Cons.IH [of m] Cons.IH [of "m \<or> mode c = MUTATING"] show ?case
    by (simp only: ready_loop_Cons split: if_split) auto
qed simp

lemma ready_loop_mutating:
  "length (filter (\<lambda>c. mode c = MUTATING) (ready_loop finished failed external m cs)) \<le> (if m then 0 else 1)"
proof (induction cs arbitrary: m)
  case (Cons c cs)
  from Cons.IH [of m] Cons.IH [of True] show ?case
    by (cases "mode c") (simp_all add: ready_loop_Cons del: ready_loop.simps split: if_splits)
qed simp

lemma ready_loop_readers:
  "filter (\<lambda>c. mode c = READ_ONLY) (ready_loop finished failed external m cs)
     = filter (\<lambda>c. runnable finished failed external c \<and> mode c = READ_ONLY) cs"
proof (induction cs arbitrary: m)
  case (Cons c cs)
  then show ?case
    by (cases "mode c") (simp_all add: ready_loop_Cons del: ready_loop.simps)
qed simp

lemma ready_loop_Nil:
  "ready_loop finished failed external False cs = [] \<longleftrightarrow>
     list_all (\<lambda>c. \<not> runnable finished failed external c) cs"
  by (induction cs) (simp_all add: ready_loop_Cons del: ready_loop.simps(2))

text \<open>Behind a cell that cannot run there is a failed cell: walk down to the earliest wave.\<close>

lemma blocked_by_failure:
  assumes wf: "well_formed_graph g"
    and stuck: "list_all (\<lambda>c. \<not> runnable finished failed True c) (gv_cells g)"
    and "c \<in> set (gv_cells g)" "gc_id c \<notin> finished" "gc_id c \<notin> failed"
  shows "\<exists>f \<in> failed. (f, gc_id c) \<in> (dependency_pairs (gv_cells g))\<^sup>+"
  using assms(3-)
proof (induction "wave c" arbitrary: c rule: less_induct)
  case less
  from wf have ids: "distinct (cell_ids (gv_cells g))"
    and cwf: "list_all (cell_well_formed (gv_cells g)) (gv_cells g)"
    by (simp_all add: well_formed_graph_def Let_def)
  from stuck less.prems obtain d where d: "d \<in> set (dependencies c)" "d \<notin> finished"
    by (auto simp: list_all_iff runnable_def)
  with cwf less.prems(1) have known: "d \<in> set (cell_ids (gv_cells g))" "wave_of (gv_cells g) d < wave c"
    by (auto simp: list_all_iff cell_well_formed_def)
  then obtain p where p: "p \<in> set (gv_cells g)" "gc_id p = d" by (auto simp: cell_ids_def)
  have edge: "(d, gc_id c) \<in> dependency_pairs (gv_cells g)"
    using d known(1) less.prems(1) by (auto simp: dependency_pairs_def)
  show ?case
  proof (cases "d \<in> failed")
    case True
    with edge show ?thesis by blast
  next
    case False
    have "wave p < wave c" using wave_of_cell [OF ids p(1)] p(2) known(2) by simp
    from less.hyps [OF this p(1)] p(2) d(2) False
    obtain f where "f \<in> failed" "(f, d) \<in> (dependency_pairs (gv_cells g))\<^sup>+" by auto
    with edge show ?thesis by (meson trancl.trancl_into_trancl)
  qed
qed

subsection \<open>The stall detector\<close>

record stall_detector =
  window :: rat
  last_beat :: rat

definition new_detector :: "rat \<Rightarrow> rat \<Rightarrow> stall_detector" where
  "new_detector w now = \<lparr>window = w, last_beat = now\<rparr>"

definition heartbeat :: "rat \<Rightarrow> stall_detector \<Rightarrow> stall_detector" where
  "heartbeat now d = d\<lparr>last_beat := now\<rparr>"

definition is_stalled :: "rat \<Rightarrow> stall_detector \<Rightarrow> bool" where
  "is_stalled now d = (if window d \<le> 0 then False else window d < now - last_beat d)"

text \<open>A trace of beats at given times.\<close>

definition beats :: "stall_detector \<Rightarrow> rat list \<Rightarrow> stall_detector" where
  "beats d ts = foldl (\<lambda>d t. heartbeat t d) d ts"

lemma beats_last: "window (beats d ts) = window d \<and> last_beat (beats d ts) = last (last_beat d # ts)"
  by (induction ts arbitrary: d) (auto simp: beats_def heartbeat_def)

subsection \<open>Properties\<close>

text \<open>A batch is safe to run.  Every cell of it is unfinished, not failed and has all its
  dependencies finished; at most one of them mutates; and every runnable read-only cell is in
  the batch, in the order of the graph.\<close>

theorem ready_batch_safe:
  "let batch = ready_cells g (Some finished) (Some failed);
       ok = runnable (set finished) (set failed) True
   in list_all ok batch
      \<and> length (filter (\<lambda>c. mode c = MUTATING) batch) \<le> 1
      \<and> filter (\<lambda>c. mode c = READ_ONLY) batch
          = filter (\<lambda>c. ok c \<and> mode c = READ_ONLY) (gv_cells g)"
  using ready_loop_runnable [of "set finished" "set failed" True False "gv_cells g"]
    ready_loop_mutating [of "set finished" "set failed" True False "gv_cells g"]
    ready_loop_readers [of "set finished" "set failed" True False "gv_cells g"]
  by (auto simp: Let_def ready_cells_def list_all_iff)

text \<open>The schedule of an accepted graph never deadlocks on its own.  If no cell is ready, each
  cell that is neither finished nor failed depends, directly or through others, on a failed
  cell; without failures an empty batch means that every cell is finished.\<close>

theorem empty_batch_means_blocked:
  assumes "structural_errors g = []"
    and "ready_cells g (Some finished) (Some failed) = []"
  shows "list_all (\<lambda>c. gc_id c \<in> set finished \<or> gc_id c \<in> set failed
      \<or> list_ex (\<lambda>f. (f, gc_id c) \<in> (dependency_pairs (gv_cells g))\<^sup>+) failed) (gv_cells g)"
proof -
  from assms(2) have "list_all (\<lambda>c. \<not> runnable (set finished) (set failed) True c) (gv_cells g)"
    by (simp add: ready_cells_def ready_loop_Nil)
  from blocked_by_failure [OF assms(1) [unfolded structural_errors_Nil] this]
  show ?thesis by (auto simp: list_all_iff list_ex_iff)
qed

theorem empty_batch_means_blocked_witness:
  "let g = \<lparr>gv_version = 1,
        gv_cells = [sample_cell ''a'' [] MUTATING [] 0, sample_cell ''b'' [] MUTATING [''a''] 1],
        edges = [\<lparr>from_id = ''a'', to_id = ''b'', edge_kind = ''blocks''\<rparr>], milestones = [],
        current_horizon = 1\<rparr>
   in (''a'', ''b'') \<in> (dependency_pairs (gv_cells g))\<^sup>+"
proof -
  let ?g = "\<lparr>gv_version = 1,
        gv_cells = [sample_cell ''a'' [] MUTATING [] 0, sample_cell ''b'' [] MUTATING [''a''] 1],
        edges = [\<lparr>from_id = ''a'', to_id = ''b'', edge_kind = ''blocks''\<rparr>], milestones = [],
        current_horizon = 1\<rparr>"
  have "structural_errors ?g = []"
    by (simp add: structural_errors_Nil well_formed_graph_def sample_cell_def cell_ids_def
        cell_well_formed_def wave_of_def blocking_pairs_def dependency_pairs_def) auto
  moreover have "ready_cells ?g (Some []) (Some [''a'']) = []"
    by (simp add: ready_cells_def sample_cell_def)
  ultimately show ?thesis
    using empty_batch_means_blocked [of ?g "[]" "[''a'']"]
    by (simp add: sample_cell_def)
qed

text \<open>With a window configured, a run counts as stalled exactly when more than the window has
  passed since its last beat (its start when it never beat); a window of zero or less never
  trips.\<close>

theorem stall_iff_silent:
  "is_stalled now (beats (new_detector w start) ts) = (0 < w \<and> last (start # ts) + w < now)"
  using beats_last [of "new_detector w start" ts]
  by (auto simp: is_stalled_def new_detector_def)

end
