(* ===== verification/Release_Law.thy ===== *)
theory Release_Law
  imports Domain
begin

section \<open>The release law (application/release_law.py)\<close>

text \<open>
  The single author of a run's outcome, as a function of the contract, the hard-gate results,
  the optional soft review, the usage and the tools used.  A Python dict built from a sequence
  keeps the last entry of a key, so \<open>hard_by_index\<close> looks up from the end.
\<close>

record hard_check_result =
  criterion_index :: nat
  hcr_kind :: criterion_kind
  hcr_passed :: bool
  hcr_detail :: string
  evidence_ref :: "artifact_ref option"

record soft_review =
  verdicts :: "nat \<rightharpoonup> bool"
  material_disagreement :: bool

record verdict =
  v_outcome :: run_outcome
  v_reason :: string

definition hard_kinds :: "criterion_kind list" where
  "hard_kinds = [COMMAND, FILE_DIFF, TREE_DIGEST, SCHEMA, POLICY]"

text \<open>\<^verbatim>\<open>_kind_of\<close>: the kind string is looked up in the enum.\<close>

definition kind_of :: "acceptance_criterion \<Rightarrow> criterion_kind option" where
  "kind_of c = parse_criterion_kind (criterion_kind_value (criterion_kind_of c))"

definition hard_by_index :: "hard_check_result list \<Rightarrow> nat \<rightharpoonup> hard_check_result" where
  "hard_by_index hard = map_of (rev (map (\<lambda>r. (criterion_index r, r)) hard))"

text \<open>The first loop: the reason of the first criterion without a result.\<close>

fun unevaluated ::
  "(nat \<rightharpoonup> hard_check_result) \<Rightarrow> (nat \<rightharpoonup> bool) \<Rightarrow> nat \<Rightarrow> acceptance_criterion list \<Rightarrow> string option" where
  "unevaluated hbi sv index [] = None"
| "unevaluated hbi sv index (c # cs) =
     (case kind_of c of
        None \<Rightarrow> Some (''criterion '' @ show_nat index @ '' has unknown kind ''
          @ quoted (criterion_kind_value (criterion_kind_of c)))
      | Some kind \<Rightarrow>
          if kind \<in> set hard_kinds then
            (case hbi index of
               None \<Rightarrow> Some (''unevaluated criterion '' @ show_nat index @ '' (hard, ''
                 @ criterion_kind_value kind @ '')'')
             | Some _ \<Rightarrow> unevaluated hbi sv (Suc index) cs)
          else if sv index = None
          then Some (''unevaluated criterion '' @ show_nat index @ '' (soft rubric)'')
          else unevaluated hbi sv (Suc index) cs)"

definition soft_indices :: "acceptance_criterion list \<Rightarrow> nat list" where
  "soft_indices cs = filter (\<lambda>i. kind_of (cs ! i) = Some SOFT_RUBRIC) [0..<length cs]"

definition hard_failures :: "acceptance_criterion list \<Rightarrow> hard_check_result list \<Rightarrow> hard_check_result list" where
  "hard_failures cs hard =
     filter (\<lambda>r. criterion_index r < length cs \<and> \<not> hcr_passed r) hard"

definition decide ::
  "work_contract \<Rightarrow> hard_check_result list \<Rightarrow> soft_review option \<Rightarrow> budget_usage \<Rightarrow> string list
     \<Rightarrow> verdict" where
  "decide wc hard soft usage tools_used =
     (let criteria = acceptance_criteria wc;
          soft_verdicts = (case soft of None \<Rightarrow> Map.empty | Some s \<Rightarrow> verdicts s)
      in case unevaluated (hard_by_index hard) soft_verdicts 0 criteria of
           Some reason \<Rightarrow> \<lparr>v_outcome = Outcome_FAILED, v_reason = reason\<rparr>
         | None \<Rightarrow>
             (case hard_failures criteria hard of
                first # _ \<Rightarrow>
                  \<lparr>v_outcome = Outcome_FAILED,
                   v_reason = ''hard gate failed at criterion '' @ show_nat (criterion_index first)
                     @ '' ('' @ criterion_kind_value (hcr_kind first) @ ''): '' @ hcr_detail first\<rparr>
              | [] \<Rightarrow>
                  if exceeds usage (Some (wc_budget wc)) then
                    \<lparr>v_outcome = Outcome_ABSTAINED,
                     v_reason = ''budget exhausted before verification completed''\<rparr>
                  else if soft_indices criteria \<noteq> []
                    \<and> (case soft of None \<Rightarrow> True | Some s \<Rightarrow> material_disagreement s) then
                    \<lparr>v_outcome = Outcome_ABSTAINED,
                     v_reason = ''soft review recorded material disagreement''\<rparr>
                  else if soft_indices criteria \<noteq> []
                    \<and> \<not> list_all (\<lambda>i. dict_get soft_verdicts i False) (soft_indices criteria) then
                    \<lparr>v_outcome = Outcome_ABSTAINED,
                     v_reason = ''soft rubric not satisfied by blinded reviewers''\<rparr>
                  else \<lparr>v_outcome = Outcome_VERIFIED,
                        v_reason = ''all acceptance criteria satisfied''\<rparr>))"

subsection \<open>Evaluated criteria\<close>

lemma kind_of_Some [simp]: "kind_of c = Some (criterion_kind_of c)"
  by (simp add: kind_of_def)

lemma hard_kinds_iff: "k \<in> set hard_kinds \<longleftrightarrow> k \<noteq> SOFT_RUBRIC"
  by (cases k) (simp_all add: hard_kinds_def)

lemma hard_by_index_None: "hard_by_index hard i = None \<longleftrightarrow> (\<forall>r \<in> set hard. criterion_index r \<noteq> i)"
  by (auto simp: hard_by_index_def map_of_eq_None_iff image_image)

text \<open>Every criterion has its one result: a hard one in \<open>hard\<close>, a soft one in the review.\<close>

definition evaluated ::
  "hard_check_result list \<Rightarrow> soft_review option \<Rightarrow> acceptance_criterion list \<Rightarrow> nat \<Rightarrow> bool" where
  "evaluated hard soft cs i =
     (if criterion_kind_of (cs ! i) = SOFT_RUBRIC
      then (case soft of None \<Rightarrow> False | Some s \<Rightarrow> verdicts s i \<noteq> None)
      else list_ex (\<lambda>r. criterion_index r = i) hard)"

lemma unevaluated_None:
  "unevaluated hbi sv n cs = None \<longleftrightarrow>
     (\<forall>i < length cs. if criterion_kind_of (cs ! i) = SOFT_RUBRIC then sv (n + i) \<noteq> None
                      else hbi (n + i) \<noteq> None)"
proof (induction cs arbitrary: n)
  case Nil
  show ?case by simp
next
  case (Cons c cs)
  show ?case
    by (simp only: list.size add_0_right add_Suc_right All_less_Suc2)
      (auto simp: hard_kinds_iff Cons.IH split: option.splits)
qed

lemma all_evaluated:
  "unevaluated (hard_by_index hard) (case soft of None \<Rightarrow> Map.empty | Some s \<Rightarrow> verdicts s) 0 cs = None
     \<longleftrightarrow> list_all (evaluated hard soft cs) [0..<length cs]"
proof -
  have "hard_by_index hard i \<noteq> None \<longleftrightarrow> list_ex (\<lambda>r. criterion_index r = i) hard" for i
    using hard_by_index_None [of hard i] by (auto simp: list_ex_iff)
  then show ?thesis
    by (auto simp: unevaluated_None evaluated_def list_all_iff split: option.splits)
qed

lemma hard_failures_Nil:
  "hard_failures cs hard = [] \<longleftrightarrow> list_all (\<lambda>r. criterion_index r < length cs \<longrightarrow> hcr_passed r) hard"
  by (auto simp: hard_failures_def filter_empty_iff list_all_iff)

text \<open>The soft criteria the review accepted.\<close>

definition soft_satisfied :: "soft_review option \<Rightarrow> acceptance_criterion list \<Rightarrow> bool" where
  "soft_satisfied soft cs \<longleftrightarrow>
     soft_indices cs = [] \<or>
     (case soft of None \<Rightarrow> False
      | Some s \<Rightarrow> \<not> material_disagreement s \<and> list_all (\<lambda>i. verdicts s i = Some True) (soft_indices cs))"

lemma decide_outcome:
  "v_outcome (decide wc hard soft usage tools) =
     (if \<not> list_all (evaluated hard soft (acceptance_criteria wc)) [0..<length (acceptance_criteria wc)]
       \<or> hard_failures (acceptance_criteria wc) hard \<noteq> [] then Outcome_FAILED
      else if exceeds usage (Some (wc_budget wc)) \<or> \<not> soft_satisfied soft (acceptance_criteria wc)
      then Outcome_ABSTAINED
      else Outcome_VERIFIED)"
proof -
  have "dict_get m i False \<longleftrightarrow> m i = Some True" for m :: "nat \<rightharpoonup> bool" and i
    by (simp add: dict_get_def split: option.split)
  then show ?thesis
    using all_evaluated [of hard soft "acceptance_criteria wc"]
    by (cases soft; cases "hard_failures (acceptance_criteria wc) hard")
      (auto simp: decide_def Let_def soft_satisfied_def split: option.split)
qed

subsection \<open>Properties\<close>

text \<open>C2: a run is released as verified exactly when every criterion of the contract has its own
  result, no hard gate at a criterion failed, the usage is within the contract's budget, and
  every soft criterion was accepted by a review without material disagreement.  A missing or
  failed result gives FAILED; a budget or soft shortfall alone gives ABSTAINED.\<close>

theorem release_law_outcome:
  "let cs = acceptance_criteria wc;
       complete = list_all (evaluated hard soft cs) [0..<length cs];
       gates = list_all (\<lambda>r. hcr_passed r \<or> length cs \<le> criterion_index r) hard;
       in_budget = (exceeds usage (Some (wc_budget wc)) = False)
   in case v_outcome (decide wc hard soft usage tools) of
        Outcome_VERIFIED \<Rightarrow> complete \<and> gates \<and> in_budget \<and> soft_satisfied soft cs
      | Outcome_ABSTAINED \<Rightarrow> complete \<and> gates \<and> (in_budget \<and> soft_satisfied soft cs) = False
      | Outcome_FAILED \<Rightarrow> (complete \<and> gates) = False"
  by (auto simp: Let_def decide_outcome hard_failures_Nil list_all_iff)

text \<open>A failed hard gate dominates every other signal.  Whatever the soft review, the usage,
  the tools and the other results say, one failed check at an index of the contract gives
  FAILED, and adding failed checks to a failed run cannot release it.\<close>

theorem failed_gate_dominates:
  assumes "r \<in> set hard" and "criterion_index r < length (acceptance_criteria wc)"
    and "\<not> hcr_passed r"
  shows "v_outcome (decide wc (hard @ others) soft usage tools) = Outcome_FAILED"
  using assms by (auto simp: decide_outcome hard_failures_def filter_empty_iff)

theorem failed_gate_dominates_witness:
  "v_outcome (decide ((base_contract ''c'' ''o'' unlimited_budget)\<lparr>acceptance_criteria :=
       [PolicyCriterion ''d'' ''forbidden_tools'' []]\<rparr>)
     [\<lparr>criterion_index = 0, hcr_kind = POLICY, hcr_passed = False, hcr_detail = ''x'',
       evidence_ref = None\<rparr>] None zero_usage []) = Outcome_FAILED"
  using failed_gate_dominates [where hard = "[\<lparr>criterion_index = 0, hcr_kind = POLICY,
      hcr_passed = False, hcr_detail = ''x'', evidence_ref = None\<rparr>]" and others = "[]"]
  by simp

text \<open>Without a soft review a contract that has a soft criterion is never verified and never
  abstains: the first loop already reports the criterion as unevaluated, so the outcome is
  FAILED and the later test for an absent review is never what decides.\<close>

theorem absent_soft_review_fails:
  "v_outcome (decide wc hard None usage tools) =
     (if list_ex (\<lambda>c. criterion_kind_of c = SOFT_RUBRIC) (acceptance_criteria wc)
      then Outcome_FAILED
      else v_outcome (decide wc hard (Some \<lparr>verdicts = Map.empty, material_disagreement = True\<rparr>)
             usage tools))"
proof -
  let ?cs = "acceptance_criteria wc"
  have ex: "list_ex (\<lambda>c. criterion_kind_of c = SOFT_RUBRIC) ?cs
      \<longleftrightarrow> (\<exists>i < length ?cs. criterion_kind_of (?cs ! i) = SOFT_RUBRIC)"
    unfolding list_ex_iff by (metis in_set_conv_nth)
  show ?thesis
    unfolding ex
    by (auto simp: decide_outcome list_all_iff evaluated_def soft_satisfied_def soft_indices_def
        filter_empty_iff)
qed

end
