(* ===== verification/Artifacts.thy ===== *)
theory Artifacts
  imports Domain
begin

section \<open>The artifact store (adapters/artifacts.py, adapters/atomic_io.py)\<close>

text \<open>
  Content-addressed blobs.  The state maps a hash to the bytes of the file at its path; bytes
  are \<open>string\<close>.  The SHA-256 hex digest \<open>hx\<close> is a parameter, and so is \<open>disk\<close>: what an
  atomic replacement leaves at the path for given bytes, \<open>None\<close> when it raises an
  \<^verbatim>\<open>OSError\<close> and leaves the old file.  The 64 locks make each operation one step.
\<close>

record artifact_store =
  blobs :: "string \<rightharpoonup> string"
  max_read_bytes :: nat

datatype artifact_error =
    Negative_read_limit
  | Artifact_not_found digest
  | Artifact_too_large digest
  | Artifact_corrupt digest
  | Artifact_io_error
  | Artifact_bad_digest digest

definition sha256_prefix :: string where
  "sha256_prefix = ''sha256:''"

definition open_store :: "int \<Rightarrow> (string \<rightharpoonup> string) \<Rightarrow> artifact_error + artifact_store" where
  "open_store read_limit files =
     (if read_limit < 0 then Inl Negative_read_limit
      else Inr \<lparr>blobs = files, max_read_bytes = nat read_limit\<rparr>)"

text \<open>\<^verbatim>\<open>_matches\<close>.\<close>

definition blob_matches :: "(string \<Rightarrow> string) \<Rightarrow> artifact_store \<Rightarrow> string \<Rightarrow> bool" where
  "blob_matches hx st h = (case blobs st h of None \<Rightarrow> False | Some c \<Rightarrow> hx c = h)"

text \<open>\<^verbatim>\<open>atomic_write_bytes\<close> as the store sees it.\<close>

definition atomic_write ::
  "(string \<Rightarrow> string option) \<Rightarrow> string \<Rightarrow> string \<Rightarrow> artifact_store \<Rightarrow> artifact_error + artifact_store" where
  "atomic_write disk h content st =
     (case disk content of
        None \<Rightarrow> Inl Artifact_io_error
      | Some landed \<Rightarrow> Inr (st\<lparr>blobs := (blobs st)(h \<mapsto> landed)\<rparr>))"

definition write_artifact ::
  "(string \<Rightarrow> string) \<Rightarrow> (string \<Rightarrow> string option) \<Rightarrow> string \<Rightarrow> string \<Rightarrow> artifact_store
     \<Rightarrow> (artifact_error + artifact_ref) \<times> artifact_store" where
  "write_artifact hx disk media content st =
     (let h = hx content
      in case (if blob_matches hx st h then Inr st else atomic_write disk h content st) of
           Inl e \<Rightarrow> (Inl e, st)
         | Inr st' \<Rightarrow>
             if \<not> blob_matches hx st' h then (Inl (Artifact_corrupt (sha256_prefix @ h)), st')
             else (Inr \<lparr>digest = sha256_prefix @ h, media_type = media,
                        size_bytes = length content\<rparr>, st'))"

text \<open>\<^verbatim>\<open>digest.split(":", 1)[1]\<close>, for a digest that passed the pattern of \<^verbatim>\<open>ArtifactRef\<close>.\<close>

definition digest_hash :: "digest \<Rightarrow> string" where
  "digest_hash d = tl (dropWhile (\<lambda>c. c \<noteq> CHR '':'') d)"

definition read_artifact ::
  "(string \<Rightarrow> string) \<Rightarrow> artifact_store \<Rightarrow> artifact_ref \<Rightarrow> artifact_error + string" where
  "read_artifact hx st ref =
     (case blobs st (digest_hash (digest ref)) of
        None \<Rightarrow> Inl (Artifact_not_found (digest ref))
      | Some content \<Rightarrow>
          if max_read_bytes st < length (take (max_read_bytes st + 1) content)
          then Inl (Artifact_too_large (digest ref))
          else if hx content \<noteq> digest_hash (digest ref) then Inl (Artifact_corrupt (digest ref))
          else Inr content)"

text \<open>\<^verbatim>\<open>read_by_digest\<close>: building the \<^verbatim>\<open>ArtifactRef\<close> rejects a malformed digest.\<close>

definition read_by_digest :: "(string \<Rightarrow> string) \<Rightarrow> artifact_store \<Rightarrow> digest \<Rightarrow> artifact_error + string" where
  "read_by_digest hx st d =
     (if \<not> valid_digest d then Inl (Artifact_bad_digest d)
      else read_artifact hx st \<lparr>digest = d, media_type = [], size_bytes = 0\<rparr>)"

definition verify_artifact :: "(string \<Rightarrow> string) \<Rightarrow> artifact_store \<Rightarrow> artifact_ref \<Rightarrow> bool" where
  "verify_artifact hx st ref = blob_matches hx st (digest_hash (digest ref))"

subsection \<open>The contract of a content-addressed store\<close>

text \<open>What the verifier and the cell loop rely on: a key names content of that key only, a
  successful write makes its key available, and nothing available is ever lost.\<close>

locale content_store =
  fixes put :: "'c \<Rightarrow> 's \<Rightarrow> ('e + 'r) \<times> 's"
    and intact :: "'s \<Rightarrow> 'k \<Rightarrow> 'c option"
    and key_of :: "'c \<Rightarrow> 'k"
    and ref_key :: "'r \<Rightarrow> 'k"
  assumes intact_key: "intact s k = Some c \<Longrightarrow> key_of c = k"
    and put_key: "put c s = (Inr r, s') \<Longrightarrow> ref_key r = key_of c"
    and put_intact: "put c s = (Inr r, s') \<Longrightarrow> intact s' (key_of c) \<noteq> None"
    and put_keeps: "put c s = (res, s') \<Longrightarrow> intact s k = Some c' \<Longrightarrow> intact s' k = Some c'"
    and put_again: "intact s (key_of c) \<noteq> None \<Longrightarrow> snd (put c s) = s"
begin

definition holds_ref :: "'s \<Rightarrow> 'r \<Rightarrow> bool" where
  "holds_ref s r \<longleftrightarrow> intact s (ref_key r) \<noteq> None"

lemma put_holds: "put c s = (Inr r, s') \<Longrightarrow> holds_ref s' r"
  by (simp add: holds_ref_def put_key put_intact)

lemma put_holds_old: "put c s = (res, s') \<Longrightarrow> holds_ref s r \<Longrightarrow> holds_ref s' r"
  unfolding holds_ref_def using put_keeps by blast

text \<open>What is read under the reference of a write is what was written, but for a collision.\<close>

lemma put_get_same: "put c s = (Inr r, s') \<Longrightarrow> intact s' (ref_key r) = Some c' \<Longrightarrow> key_of c' = key_of c"
  using intact_key put_key by metis

lemma put_twice: "put c s = (Inr r, s') \<Longrightarrow> snd (put c s') = s'"
  using put_intact put_again by blast

end

subsection \<open>The artifact store keeps the contract\<close>

definition intact_blob :: "(string \<Rightarrow> string) \<Rightarrow> artifact_store \<Rightarrow> string \<Rightarrow> string option" where
  "intact_blob hx st h = (case blobs st h of None \<Rightarrow> None | Some c \<Rightarrow> if hx c = h then Some c else None)"

lemma blob_matches_intact: "blob_matches hx st h \<longleftrightarrow> intact_blob hx st h \<noteq> None"
  by (simp add: blob_matches_def intact_blob_def split: option.split)

lemma digest_hash_prefix [simp]: "digest_hash (sha256_prefix @ h) = h"
  by (simp add: digest_hash_def sha256_prefix_def)

lemma write_artifact_cases:
  assumes "write_artifact hx disk media c st = (res, st')"
  shows "(st' = st \<or> (\<not> blob_matches hx st (hx c) \<and> (\<exists>landed. disk c = Some landed
            \<and> st' = st\<lparr>blobs := (blobs st)(hx c \<mapsto> landed)\<rparr>)))
    \<and> (case res of Inr r \<Rightarrow> digest r = sha256_prefix @ hx c \<and> blob_matches hx st' (hx c)
            \<and> size_bytes r = length c
       | Inl _ \<Rightarrow> True)
    \<and> (blob_matches hx st (hx c) \<longrightarrow> st' = st)"
  using assms by (auto simp: write_artifact_def atomic_write_def Let_def split: if_splits option.splits)

interpretation artifacts: content_store "write_artifact hx disk media" "intact_blob hx" hx
  "\<lambda>r. digest_hash (digest r)"
proof
  fix s k c assume "intact_blob hx s k = Some c"
  then show "hx c = k" by (auto simp: intact_blob_def split: option.splits if_splits)
next
  fix c s r s' assume w: "write_artifact hx disk media c s = (Inr r, s')"
  from write_artifact_cases [OF w] show "digest_hash (digest r) = hx c"
    and "intact_blob hx s' (hx c) \<noteq> None" by (auto simp: blob_matches_intact)
next
  fix c s res s' k c'
  assume w: "write_artifact hx disk media c s = (res, s')" and k: "intact_blob hx s k = Some c'"
  show "intact_blob hx s' k = Some c'"
  proof (cases "k = hx c")
    case True
    with k have "blob_matches hx s (hx c)" by (simp add: blob_matches_intact)
    with write_artifact_cases [OF w] k show ?thesis by auto
  next
    case False
    with write_artifact_cases [OF w] k show ?thesis by (auto simp: intact_blob_def)
  qed
next
  fix s c assume i: "intact_blob hx s (hx c) \<noteq> None"
  obtain res s' where w: "write_artifact hx disk media c s = (res, s')" by (metis surj_pair)
  from write_artifact_cases [OF w] i show "snd (write_artifact hx disk media c s) = s"
    using w by (auto simp: blob_matches_intact)
qed

lemma read_artifact_Inr: "read_artifact hx st ref = Inr c \<longleftrightarrow>
    intact_blob hx st (digest_hash (digest ref)) = Some c \<and> length c \<le> max_read_bytes st"
  by (auto simp: read_artifact_def intact_blob_def split: option.splits)

subsection \<open>Properties\<close>

text \<open>A stored artifact is what its digest says, for ever.  A read returns only bytes of the
  reference's digest, whatever happened to the files; after a successful write its reference
  verifies, reads back unless it is over the read limit, every artifact that was readable
  before still reads the same, and writing the same bytes again changes nothing.\<close>

theorem artifact_store_sound:
  assumes "write_artifact hx disk media c st = (Inr ref, st')"
  shows "verify_artifact hx st' ref \<and> size_bytes ref = length c
    \<and> (case read_artifact hx st' ref of
         Inr c' \<Rightarrow> hx c' = hx c
       | Inl e \<Rightarrow> e = Artifact_too_large (digest ref))
    \<and> (read_artifact hx st old = Inr c0 \<longrightarrow> read_artifact hx st' old = Inr c0 \<and> hx c0 = digest_hash (digest old))
    \<and> snd (write_artifact hx disk media c st') = st'"
proof -
  note w = write_artifact_cases [OF assms]
  have same_limit: "max_read_bytes st' = max_read_bytes st" using w by auto
  have key: "digest_hash (digest ref) = hx c" using artifacts.put_key [OF assms] .
  obtain b where b: "blobs st' (hx c) = Some b" "hx b = hx c"
    using w by (auto simp: blob_matches_def split: option.splits)
  have "read_artifact hx st' old = Inr c0 \<and> hx c0 = digest_hash (digest old)"
    if "read_artifact hx st old = Inr c0"
    using that artifacts.put_keeps [OF assms] artifacts.intact_key same_limit
    by (auto simp: read_artifact_Inr)
  then show ?thesis
    using w key b artifacts.put_twice [OF assms]
    by (auto simp: verify_artifact_def read_artifact_def)
qed

theorem artifact_store_sound_witness:
  "let st = \<lparr>blobs = Map.empty, max_read_bytes = 10\<rparr>;
       (res, st') = write_artifact (\<lambda>c. c) Some ''text/plain'' ''abc'' st
   in case res of Inl e \<Rightarrow> False | Inr ref \<Rightarrow> verify_artifact (\<lambda>c. c) st' ref"
proof -
  let ?st = "\<lparr>blobs = Map.empty, max_read_bytes = 10\<rparr>"
  let ?w = "write_artifact (\<lambda>c. c) Some ''text/plain'' ''abc'' ?st"
  have w: "?w = (Inr \<lparr>digest = sha256_prefix @ ''abc'', media_type = ''text/plain'', size_bytes = 3\<rparr>,
      ?st\<lparr>blobs := [''abc'' \<mapsto> ''abc'']\<rparr>)"
    by (simp add: write_artifact_def blob_matches_def atomic_write_def Let_def)
  from artifact_store_sound [OF w] show ?thesis by (simp add: w)
qed

end
