(* ===== verification/File_Tree.thy ===== *)
theory File_Tree
  imports Prelude
begin

section \<open>The file system under the workspace root\<close>

text \<open>
  What the gates and the workspace see of the operating system: a tree of named entries.  A
  symbolic link or reparse point is one opaque kind of entry, because the code never follows
  one; devices and sockets are \<open>Special\<close>.  Names and file contents are byte strings.
\<close>

datatype node =
    File string
  | Directory "(string \<times> node) list"
  | Link
  | Special

fun is_directory :: "node \<Rightarrow> bool" where
  "is_directory (Directory _) = True"
| "is_directory _ = False"

fun child :: "node \<Rightarrow> string \<Rightarrow> node option" where
  "child (Directory kids) n = map_of kids n"
| "child _ n = None"

fun entry_at :: "node \<Rightarrow> string list \<Rightarrow> node option" where
  "entry_at nd [] = Some nd"
| "entry_at nd (p # ps) = (case child nd p of None \<Rightarrow> None | Some k \<Rightarrow> entry_at k ps)"

text \<open>Putting an entry in place: missing directories on the way are created, as by
  \<^verbatim>\<open>mkdir(parents=True)\<close>; below anything but a directory the operation fails.\<close>

fun put_entry :: "string list \<Rightarrow> node \<Rightarrow> node \<Rightarrow> node option" where
  "put_entry [] new nd = Some new"
| "put_entry (p # ps) new (Directory kids) =
     (case put_entry ps new (case map_of kids p of None \<Rightarrow> Directory [] | Some k \<Rightarrow> k) of
        None \<Rightarrow> None
      | Some k \<Rightarrow> Some (Directory (dict_set kids p k)))"
| "put_entry (p # ps) new nd = None"

lemma entry_at_append: "entry_at nd (ps @ qs) =
    (case entry_at nd ps of None \<Rightarrow> None | Some k \<Rightarrow> entry_at k qs)"
  by (induction nd ps rule: entry_at.induct) (auto split: option.split)

lemma entry_at_empty [simp]: "entry_at (Directory []) (p # ps) = None"
  by simp

lemma put_entry_same: "put_entry ps new nd = Some nd' \<Longrightarrow> entry_at nd' ps = Some new"
  by (induction ps new nd arbitrary: nd' rule: put_entry.induct) (auto split: option.splits)

text \<open>An update is seen at its path and below it, and nowhere else.\<close>

lemma put_entry_other:
  "put_entry ps new nd = Some nd' \<Longrightarrow> \<not> (\<exists>xs. qs = ps @ xs) \<Longrightarrow> \<not> (\<exists>xs. ps = qs @ xs)
     \<Longrightarrow> entry_at nd' qs = entry_at nd qs"
proof (induction ps new nd arbitrary: nd' qs rule: put_entry.induct)
  case (2 p ps new kids)
  then obtain q qs' where qs: "qs = q # qs'" by (cases qs) auto
  from "2.prems"(1) obtain k where k:
    "put_entry ps new (case map_of kids p of None \<Rightarrow> Directory [] | Some k \<Rightarrow> k) = Some k"
    "nd' = Directory (dict_set kids p k)" by (auto split: option.splits)
  show ?case
  proof (cases "q = p")
    case False
    with k qs show ?thesis by simp
  next
    case True
    with "2.prems"(2,3) qs have "\<not> (\<exists>xs. qs' = ps @ xs)" "\<not> (\<exists>xs. ps = qs' @ xs)"
      and "qs' \<noteq> []" by auto
    from "2.IH" [OF k(1) this(1,2)] k(2) qs True this(3) show ?thesis
      by (cases qs') (auto split: option.splits)
  qed
qed auto

subsection \<open>Paths as text (pathlib, POSIX flavour)\<close>

fun split_on :: "char \<Rightarrow> string \<Rightarrow> string list" where
  "split_on sep [] = [[]]"
| "split_on sep (c # cs) =
     (if c = sep then [] # split_on sep cs
      else (case split_on sep cs of [] \<Rightarrow> [[c]] | p # ps \<Rightarrow> (c # p) # ps))"

definition path_parts :: "string \<Rightarrow> string list" where
  "path_parts s = filter (\<lambda>p. p \<noteq> [] \<and> p \<noteq> ''.'') (split_on CHR ''/'' s)"

definition is_absolute :: "string \<Rightarrow> bool" where
  "is_absolute s = (case s of [] \<Rightarrow> False | c # _ \<Rightarrow> c = CHR ''/'')"

definition as_posix :: "string list \<Rightarrow> string" where
  "as_posix ps = str_join ''/'' ps"

lemma split_on_neq_Nil [simp]: "split_on sep s \<noteq> []"
  by (induction sep s rule: split_on.induct) (auto split: list.splits)

lemma split_on_no_sep: "p \<in> set (split_on sep s) \<Longrightarrow> sep \<notin> set p"
  by (induction sep s arbitrary: p rule: split_on.induct) (auto split: if_splits list.splits)

lemma split_on_plain: "sep \<notin> set s \<Longrightarrow> split_on sep s = [s]"
  by (induction sep s rule: split_on.induct) auto

lemma split_on_append: "sep \<notin> set s \<Longrightarrow> split_on sep (s @ sep # t) = s # split_on sep t"
  by (induction s) auto

definition good_part :: "string \<Rightarrow> bool" where
  "good_part p \<longleftrightarrow> p \<noteq> [] \<and> p \<noteq> ''.'' \<and> CHR ''/'' \<notin> set p"

lemma path_parts_good: "list_all good_part (path_parts s)"
  using split_on_no_sep [of _ "CHR ''/''" s] by (auto simp: path_parts_def good_part_def list_all_iff)

text \<open>Joining parts and splitting the text again gives the parts back.\<close>

lemma path_parts_as_posix: "list_all good_part ps \<Longrightarrow> path_parts (as_posix ps) = ps"
proof (induction "''/''" ps rule: str_join.induct)
  case 1
  then show ?case by (simp add: path_parts_def as_posix_def)
next
  case (2 x)
  then show ?case by (simp add: path_parts_def as_posix_def good_part_def split_on_plain)
next
  case (3 x y ys)
  then show ?case by (simp add: path_parts_def as_posix_def good_part_def split_on_append)
qed

lemma as_posix_inj: "list_all good_part ps \<Longrightarrow> list_all good_part qs \<Longrightarrow> as_posix ps = as_posix qs \<Longrightarrow> ps = qs"
  using path_parts_as_posix by metis

end
