(* ===== verification/Hashing.thy ===== *)
theory Hashing
  imports Domain
begin

section \<open>Digests as text (hashlib)\<close>

text \<open>
  \<^verbatim>\<open>hexdigest()\<close> of a hash whose raw bytes are given by the parameter \<open>sha\<close>.
\<close>

definition hex_digit :: "nat \<Rightarrow> char" where
  "hex_digit d = ''0123456789abcdef'' ! d"

definition hex_byte :: "char \<Rightarrow> string" where
  "hex_byte c = [hex_digit (of_char c div 16), hex_digit (of_char c mod 16)]"

definition hexdigest :: "(string \<Rightarrow> string) \<Rightarrow> string \<Rightarrow> string" where
  "hexdigest sha m = concat (map hex_byte (sha m))"

lemma hex_digit_inj: "a < 16 \<Longrightarrow> b < 16 \<Longrightarrow> hex_digit a = hex_digit b \<Longrightarrow> a = b"
  unfolding hex_digit_def by (subst (asm) nth_eq_iff_index_eq) simp_all

lemma of_char_div_16: "(of_char c :: nat) div 16 < 16"
proof -
  have "(of_char c :: nat) < 256" by simp
  then show ?thesis by (simp add: less_mult_imp_div_less)
qed

lemma hex_byte_inj: "hex_byte a = hex_byte b \<Longrightarrow> a = b"
proof -
  assume "hex_byte a = hex_byte b"
  then have "(of_char a :: nat) div 16 = of_char b div 16" "(of_char a :: nat) mod 16 = of_char b mod 16"
    using of_char_div_16 by (auto simp: hex_byte_def dest!: hex_digit_inj [rotated 2])
  then have "(of_char a :: nat) = of_char b" by (metis div_mult_mod_eq)
  then show "a = b" by simp
qed

lemma concat_hex_inj: "concat (map hex_byte xs) = concat (map hex_byte ys) \<Longrightarrow> xs = ys"
proof (induction xs arbitrary: ys)
  case Nil
  then show ?case by (cases ys) (simp_all add: hex_byte_def)
next
  case (Cons x xs)
  then obtain y ys' where ys: "ys = y # ys'" by (cases ys) (simp_all add: hex_byte_def)
  with Cons.prems have "hex_byte x = hex_byte y" "concat (map hex_byte xs) = concat (map hex_byte ys')"
    using ys by (simp_all add: hex_byte_def [of x] hex_byte_def [of y])
  with Cons.IH ys show ?case by (simp add: hex_byte_inj)
qed

lemma hexdigest_eq [simp]: "hexdigest sha a = hexdigest sha b \<longleftrightarrow> sha a = sha b"
  by (auto simp: hexdigest_def dest: concat_hex_inj)

lemma hex_digit_hex: "d < 16 \<Longrightarrow> hex_char (hex_digit d)"
  unfolding hex_char_def hex_digit_def by (rule nth_mem) simp

lemma hex_byte_hex: "list_all hex_char (hex_byte c)"
  using of_char_div_16 [of c] by (simp add: hex_byte_def hex_digit_hex)

lemma hexdigest_hex: "list_all hex_char (hexdigest sha m)"
  using hex_byte_hex by (auto simp: hexdigest_def list_all_iff)

lemma hexdigest_length: "length (hexdigest sha m) = 2 * length (sha m)"
proof -
  have "length (concat (map hex_byte xs)) = 2 * length xs" for xs
    by (induction xs) (simp_all add: hex_byte_def)
  then show ?thesis by (simp add: hexdigest_def)
qed

end
