(* ===== verification/Tree_Digest.thy ===== *)
theory Tree_Digest
  imports File_Tree Hashing "HOL-Library.Multiset" "HOL-Library.Product_Lexorder"
begin

section \<open>The digest of a directory tree (application/verification/hard_gates.py)\<close>

text \<open>
  \<^verbatim>\<open>compute_tree_digest\<close> over a \<open>node\<close>: the walk with its explicit stack, the limits, and
  the hash over sorted paths and content hashes.  The tree does not change during the walk, so
  the code's check for a file that changed while hashing never fires.  An \<^verbatim>\<open>OSError\<close> and a
  \<^verbatim>\<open>ValueError\<close> are both values of \<open>tree_error\<close>.
\<close>

definition tree_exclude_dirs :: "string list" where
  "tree_exclude_dirs = [''__pycache__'', ''.pytest_cache'', ''.northstack'']"

record tree_limits =
  max_entries :: nat
  max_bytes :: nat
  max_depth :: nat

definition default_limits :: tree_limits where
  "default_limits = \<lparr>max_entries = 10000, max_bytes = 64 * 1024 * 1024, max_depth = 64\<rparr>"

datatype tree_error =
    Unsafe_tree_path string
  | Tree_path_link string
  | Tree_missing string
  | Tree_not_directory string
  | Entry_limit nat
  | Tree_has_link string
  | Depth_limit nat
  | Unsupported_entry string
  | Byte_limit nat

type_synonym pending_dir = "string list \<times> (string \<times> node) list \<times> nat"
type_synonym found_file = "string \<times> string"
type_synonym walk_state = "nat \<times> pending_dir list \<times> found_file list"

subsection \<open>The walk\<close>

text \<open>One entry of a scanned directory.\<close>

definition scan_entry ::
  "tree_limits \<Rightarrow> string list \<Rightarrow> nat \<Rightarrow> walk_state \<Rightarrow> string \<times> node \<Rightarrow> tree_error + walk_state" where
  "scan_entry lims path depth st entry =
     (case st of (entries, stack, files) \<Rightarrow> case entry of (name, nd) \<Rightarrow>
        if is_directory nd \<and> name \<in> set tree_exclude_dirs then Inr st
        else if max_entries lims < entries + 1 then Inl (Entry_limit (max_entries lims))
        else case nd of
          Link \<Rightarrow> Inl (Tree_has_link (as_posix (path @ [name])))
        | Directory kids \<Rightarrow>
            if max_depth lims \<le> depth then Inl (Depth_limit (max_depth lims))
            else Inr (entries + 1, (path @ [name], kids, depth + 1) # stack, files)
        | File content \<Rightarrow> Inr (entries + 1, stack, files @ [(as_posix (path @ [name]), content)])
        | Special \<Rightarrow> Inl (Unsupported_entry (as_posix (path @ [name]))))"

fun node_weight :: "node \<Rightarrow> nat" where
  "node_weight (Directory kids) = Suc (sum_list (map (\<lambda>(n, k). node_weight k) kids))"
| "node_weight nd = 0"

definition kids_weight :: "(string \<times> node) list \<Rightarrow> nat" where
  "kids_weight kids = sum_list (map (\<lambda>(n, k). node_weight k) kids)"

definition stack_weight :: "pending_dir list \<Rightarrow> nat" where
  "stack_weight stack = sum_list (map (\<lambda>(p, kids, d). Suc (kids_weight kids)) stack)"

lemma scan_entry_weight:
  "scan_entry lims path depth (entries, stack, files) (name, nd) = Inr (entries', stack', files') \<Longrightarrow>
     stack_weight stack' \<le> stack_weight stack + node_weight nd"
  by (cases nd) (auto simp: scan_entry_def stack_weight_def kids_weight_def split: if_splits)

lemma scan_entries_weight:
  "fold_res (scan_entry lims path depth) (entries, stack, files) kids = Inr (entries', stack', files') \<Longrightarrow>
     stack_weight stack' \<le> stack_weight stack + kids_weight kids"
proof (induction kids arbitrary: entries stack files)
  case (Cons e kids)
  obtain name nd where e: "e = (name, nd)" by (cases e)
  from Cons.prems obtain n1 st1 f1 where
    s: "scan_entry lims path depth (entries, stack, files) (name, nd) = Inr (n1, st1, f1)"
       "fold_res (scan_entry lims path depth) (n1, st1, f1) kids = Inr (entries', stack', files')"
    by (auto simp: e split: sum.splits)
  from scan_entry_weight [OF s(1)] Cons.IH [OF s(2)] show ?case by (simp add: kids_weight_def e)
qed simp

lemma kids_weight_sort: "kids_weight (sort_key fst kids) = kids_weight kids"
proof -
  have "mset (map (\<lambda>(n, k). node_weight k) (sort_key fst kids)) = mset (map (\<lambda>(n, k). node_weight k) kids)"
    by (simp only: mset_map mset_sort)
  then show ?thesis unfolding kids_weight_def by (metis sum_mset_sum_list)
qed

text \<open>The \<^verbatim>\<open>while stack\<close> loop; the top of the stack is the head of the list.\<close>

function walk_tree :: "tree_limits \<Rightarrow> pending_dir list \<Rightarrow> nat \<Rightarrow> found_file list \<Rightarrow> tree_error + found_file list" where
  "walk_tree lims [] entries files = Inr files"
| "walk_tree lims ((path, kids, depth) # stack) entries files =
     (case fold_res (scan_entry lims path depth) (entries, stack, files) (sort_key fst kids) of
        Inl e \<Rightarrow> Inl e
      | Inr (entries', stack', files') \<Rightarrow> walk_tree lims stack' entries' files')"
  by pat_completeness auto

termination
proof (relation "measure (\<lambda>(lims, stack, entries, files). stack_weight stack)", goal_cases)
  case (2 lims path kids depth stack entries files x a y aa z)
  then have "stack_weight aa \<le> stack_weight stack + kids_weight (sort_key fst kids)"
    using scan_entries_weight by fastforce
  then show ?case by (simp add: stack_weight_def kids_weight_sort)
qed simp

subsection \<open>The hash\<close>

definition tree_header :: string where
  "tree_header = ''northstack-tree-v2'' @ [CHR 0x00]"

text \<open>\<^verbatim>\<open>h.update(...)\<close> over the sorted files, with the running byte count.\<close>

fun feed_files :: "(string \<Rightarrow> string) \<Rightarrow> tree_limits \<Rightarrow> string \<Rightarrow> nat \<Rightarrow> found_file list \<Rightarrow> tree_error + string" where
  "feed_files sha lims h sofar [] = Inr h"
| "feed_files sha lims h sofar ((relative, content) # files) =
     (if max_bytes lims < sofar + length content then Inl (Byte_limit (max_bytes lims))
      else feed_files sha lims (h @ relative @ [CHR 0x00] @ sha content) (sofar + length content) files)"

text \<open>The checks on the path, in the order of the code: \<^verbatim>\<open>..\<close> and absolute paths, links on the
  way, a missing end, an end that is not a directory.\<close>

fun link_on_path :: "node \<Rightarrow> string list \<Rightarrow> bool" where
  "link_on_path nd [] = False"
| "link_on_path nd (p # ps) =
     (case child nd p of None \<Rightarrow> False | Some Link \<Rightarrow> True | Some k \<Rightarrow> link_on_path k ps)"

definition compute_tree_digest ::
  "(string \<Rightarrow> string) \<Rightarrow> tree_limits \<Rightarrow> node \<Rightarrow> string \<Rightarrow> tree_error + string" where
  "compute_tree_digest sha lims ws rel_dir =
     (let parts = path_parts rel_dir
      in if is_absolute rel_dir \<or> ''..'' \<in> set parts then Inl (Unsafe_tree_path rel_dir)
         else if link_on_path ws parts then Inl (Tree_path_link rel_dir)
         else case entry_at ws parts of
           None \<Rightarrow> Inl (Tree_missing rel_dir)
         | Some (Directory kids) \<Rightarrow>
             (case walk_tree lims [([], kids, 0)] 0 [] of
                Inl e \<Rightarrow> Inl e
              | Inr files \<Rightarrow>
                  (case feed_files sha lims tree_header 0 (sort files) of
                     Inl e \<Rightarrow> Inl e
                   | Inr message \<Rightarrow> Inr (hexdigest sha message)))
         | Some _ \<Rightarrow> Inl (Tree_not_directory rel_dir))"

subsection \<open>The files the digest is about\<close>

text \<open>Every file below a directory, cache directories left out.\<close>

fun visible_files :: "string list \<Rightarrow> string \<times> node \<Rightarrow> found_file list" where
  "visible_files path (name, File content) = [(as_posix (path @ [name]), content)]"
| "visible_files path (name, Directory kids) =
     (if name \<in> set tree_exclude_dirs then []
      else concat (map (visible_files (path @ [name])) kids))"
| "visible_files path (name, nd) = []"

definition files_below :: "string list \<Rightarrow> (string \<times> node) list \<Rightarrow> found_file list" where
  "files_below path kids = concat (map (visible_files path) kids)"

definition stack_files :: "pending_dir list \<Rightarrow> found_file multiset" where
  "stack_files stack = (\<Sum>(path, kids, d) \<leftarrow> stack. mset (files_below path kids))"

lemma scan_entry_files:
  "scan_entry lims path depth (entries, stack, files) (name, nd) = Inr (entries', stack', files') \<Longrightarrow>
     mset files' + stack_files stack' = mset files + stack_files stack + mset (visible_files path (name, nd))"
  by (cases nd) (auto simp: scan_entry_def stack_files_def files_below_def split: if_splits)

lemma scan_entries_files:
  "fold_res (scan_entry lims path depth) (entries, stack, files) kids = Inr (entries', stack', files') \<Longrightarrow>
     mset files' + stack_files stack' = mset files + stack_files stack + mset (files_below path kids)"
proof (induction kids arbitrary: entries stack files)
  case Nil
  then show ?case by (simp add: files_below_def)
next
  case (Cons e kids)
  obtain name nd where e: "e = (name, nd)" by (cases e)
  from Cons.prems obtain n1 st1 f1 where
    s: "scan_entry lims path depth (entries, stack, files) (name, nd) = Inr (n1, st1, f1)"
       "fold_res (scan_entry lims path depth) (n1, st1, f1) kids = Inr (entries', stack', files')"
    by (auto simp: e split: sum.splits)
  from scan_entry_files [OF s(1)] Cons.IH [OF s(2)] show ?case
    by (simp add: files_below_def e ac_simps)
qed

lemma files_below_sort: "mset (files_below path (sort_key fst kids)) = mset (files_below path kids)"
proof -
  have "mset (concat (map f xs)) = sum_mset (image_mset (mset \<circ> f) (mset xs))"
    for f :: "string \<times> node \<Rightarrow> found_file list" and xs by (induction xs) simp_all
  then show ?thesis by (simp add: files_below_def)
qed

lemma walk_tree_files:
  "walk_tree lims stack entries files = Inr out \<Longrightarrow> mset out = mset files + stack_files stack"
proof (induction lims stack entries files rule: walk_tree.induct)
  case (1 lims entries files)
  then show ?case by (simp add: stack_files_def)
next
  case (2 lims path kids depth stack entries files)
  from "2.prems" obtain n1 st1 f1 where s:
    "fold_res (scan_entry lims path depth) (entries, stack, files) (sort_key fst kids) = Inr (n1, st1, f1)"
    "walk_tree lims st1 n1 f1 = Inr out" by (auto split: sum.splits)
  from "2.IH" [OF s(1) refl refl s(2)] scan_entries_files [OF s(1)] show ?case
    by (simp add: files_below_sort stack_files_def ac_simps)
qed

definition tree_message :: "(string \<Rightarrow> string) \<Rightarrow> found_file list \<Rightarrow> string" where
  "tree_message sha files = tree_header @ concat (map (\<lambda>(n, c). n @ [CHR 0x00] @ sha c) files)"

lemma feed_files_message:
  "feed_files sha lims h sofar files = Inr m \<Longrightarrow>
     m = h @ concat (map (\<lambda>(n, c). n @ [CHR 0x00] @ sha c) files)"
  by (induction sha lims h sofar files rule: feed_files.induct) (auto split: if_splits)


lemma compute_tree_digest_Inr:
  assumes "compute_tree_digest sha lims ws rel = Inr d"
  obtains kids files where "entry_at ws (path_parts rel) = Some (Directory kids)"
    "mset files = mset (files_below [] kids)" "sorted files"
    "d = hexdigest sha (tree_message sha files)"
proof -
  from assms obtain kids out m where o: "entry_at ws (path_parts rel) = Some (Directory kids)"
    "walk_tree lims [([], kids, 0)] 0 [] = Inr out"
    "feed_files sha lims tree_header 0 (sort out) = Inr m" "d = hexdigest sha m"
    by (auto simp: compute_tree_digest_def Let_def split: if_splits option.splits node.splits sum.splits)
  from walk_tree_files [OF o(2)] have "mset (sort out) = mset (files_below [] kids)"
    by (simp add: stack_files_def)
  moreover from feed_files_message [OF o(3)] have "m = tree_message sha (sort out)"
    by (simp add: tree_message_def)
  ultimately show ?thesis using that [of kids "sort out"] o by simp
qed

text \<open>The message can be read back: names hold no NUL byte and a digest has a fixed length.\<close>

definition nul_free :: "string \<Rightarrow> bool" where
  "nul_free s \<longleftrightarrow> CHR 0x00 \<notin> set s"

lemma split_at_nul: "nul_free a \<Longrightarrow> nul_free b \<Longrightarrow> a @ CHR 0x00 # x = b @ CHR 0x00 # y \<Longrightarrow> a = b \<and> x = y"
proof (induction a arbitrary: b)
  case Nil
  then show ?case by (cases b) (auto simp: nul_free_def)
next
  case (Cons c a)
  then show ?case by (cases b) (auto simp: nul_free_def)
qed

lemma tree_message_inj:
  assumes len: "\<And>x. length (sha x) = n"
    and "list_all (\<lambda>(f, c). nul_free f) files" "list_all (\<lambda>(f, c). nul_free f) files'"
    and "inj_on sha (snd ` (set files \<union> set files'))"
    and "concat (map (\<lambda>(f, c). f @ [CHR 0x00] @ sha c) files)
       = concat (map (\<lambda>(f, c). f @ [CHR 0x00] @ sha c) files')"
  shows "files = files'"
  using assms(2-)
proof (induction files arbitrary: files')
  case Nil
  then show ?case by (cases files') auto
next
  case (Cons fc files)
  obtain f c where fc: "fc = (f, c)" by (cases fc)
  with Cons.prems(4) obtain f' c' files'' where fs': "files' = (f', c') # files''"
    by (cases files') auto
  let ?rest = "\<lambda>fs. concat (map (\<lambda>(f, c). f @ [CHR 0x00] @ sha c) fs)"
  have "f @ CHR 0x00 # (sha c @ ?rest files) = f' @ CHR 0x00 # (sha c' @ ?rest files'')"
    using Cons.prems(4) fc fs' by simp
  then have "f = f'" and "sha c @ ?rest files = sha c' @ ?rest files''"
    using split_at_nul [of f f'] Cons.prems(1,2) fc fs' by auto
  then have "sha c = sha c'" "?rest files = ?rest files''" using len by auto
  moreover have "c = c'"
    using inj_onD [OF Cons.prems(3) \<open>sha c = sha c'\<close>] fc fs' by simp
  moreover have "inj_on sha (snd ` (set files \<union> set files''))"
    using Cons.prems(3) by (rule inj_on_subset) (auto simp: fs')
  ultimately show ?case
    using Cons.IH [of files''] Cons.prems(1,2) fc fs' \<open>f = f'\<close> by simp
qed

subsection \<open>Properties\<close>

text \<open>A tree digest commits to the directory's contents.  Two trees with the same digest
  have the same files under the same relative paths with the same bytes, cache directories
  aside, as long as the hash has no collision among the files or the two messages it was
  computed from; so an edit, a deletion or a new file changes the digest.\<close>

theorem tree_digest_commits:
  assumes "compute_tree_digest sha lims ws rel = Inr d"
    and "compute_tree_digest sha lims' ws' rel' = Inr d"
    and "entry_at ws (path_parts rel) = Some (Directory kids)"
    and "entry_at ws' (path_parts rel') = Some (Directory kids')"
    and "\<And>x. length (sha x) = 32"
    and "list_all (\<lambda>(f, c). nul_free f) (files_below [] kids @ files_below [] kids')"
    and "inj_on sha (snd ` set (files_below [] kids @ files_below [] kids'))"
    and "inj_on sha {tree_message sha (sort (files_below [] kids)),
           tree_message sha (sort (files_below [] kids'))}"
  shows "sort (files_below [] kids) = sort (files_below [] kids')"
proof -
  let ?a = "files_below [] kids" and ?b = "files_below [] kids'"
  obtain fs where fs: "mset fs = mset ?a" "sorted fs" "d = hexdigest sha (tree_message sha fs)"
    by (rule compute_tree_digest_Inr [OF assms(1)]) (use assms(3) in auto)
  obtain fs' where fs': "mset fs' = mset ?b" "sorted fs'" "d = hexdigest sha (tree_message sha fs')"
    by (rule compute_tree_digest_Inr [OF assms(2)]) (use assms(4) in auto)
  have "sort ?a = fs" "sort ?b = fs'" using fs fs' by (simp_all add: properties_for_sort)
  with fs fs' have "sha (tree_message sha (sort ?a)) = sha (tree_message sha (sort ?b))" by simp
  then have "tree_message sha (sort ?a) = tree_message sha (sort ?b)"
    by (rule inj_onD [OF assms(8)]) simp_all
  then show ?thesis
    using tree_message_inj [of sha 32 "sort ?a" "sort ?b"] assms(5-7)
    by (simp add: tree_message_def list_all_iff image_Un)
qed

text \<open>A toy hash of the right length: the last 32 bytes of the padded input.\<close>

definition last_32 :: "string \<Rightarrow> string" where
  "last_32 x = drop (length x) (replicate 32 (CHR ''0'') @ x)"

theorem tree_digest_commits_witness:
  "compute_tree_digest last_32 default_limits (Directory [(''a'', File ''1'')]) []
     \<noteq> compute_tree_digest last_32 default_limits (Directory [(''a'', File ''2'')]) []"
proof
  let ?t = "\<lambda>c. Directory [(''a'', File c)]"
  assume eq: "compute_tree_digest last_32 default_limits (?t ''1'') []
    = compute_tree_digest last_32 default_limits (?t ''2'') []"
  have walk: "walk_tree default_limits [([], [(''a'', File c)], 0)] 0 [] = Inr [(''a'', c)]" for c
    by (simp add: scan_entry_def default_limits_def as_posix_def)
  have digest: "compute_tree_digest last_32 default_limits (?t c) []
      = Inr (hexdigest last_32 (tree_header @ ''a'' @ [CHR 0x00] @ last_32 c))" if "length c = 1" for c
    using that by (simp add: compute_tree_digest_def path_parts_def is_absolute_def walk del: walk_tree.simps)
        (simp add: default_limits_def)
  have below: "files_below [] [(''a'', File c)] = [(''a'', c)]" for c
    by (simp add: files_below_def as_posix_def)
  have one: "last_32 ''1'' = replicate 31 CHR ''0'' @ ''1''" "last_32 ''2'' = replicate 31 CHR ''0'' @ ''2''"
    by (simp_all add: last_32_def eval_nat_numeral)
  have "sort (files_below [] [(''a'', File ''1'')]) = sort (files_below [] [(''a'', File ''2'')])"
  proof (rule tree_digest_commits)
    show "compute_tree_digest last_32 default_limits (?t ''1'') []
        = Inr (hexdigest last_32 (tree_header @ ''a'' @ [CHR 0x00] @ last_32 ''1''))"
      by (simp add: digest)
    then show "compute_tree_digest last_32 default_limits (?t ''2'') []
        = Inr (hexdigest last_32 (tree_header @ ''a'' @ [CHR 0x00] @ last_32 ''1''))"
      using eq by simp
    show "entry_at (?t ''1'') (path_parts []) = Some (?t ''1'')"
      "entry_at (?t ''2'') (path_parts []) = Some (?t ''2'')" by (simp_all add: path_parts_def)
    show "length (last_32 x) = 32" for x by (simp add: last_32_def)
    show "list_all (\<lambda>(f, c). nul_free f) (files_below [] [(''a'', File ''1'')] @ files_below [] [(''a'', File ''2'')])"
      by (simp add: below nul_free_def)
    show "inj_on last_32 (snd ` set (files_below [] [(''a'', File ''1'')] @ files_below [] [(''a'', File ''2'')]))"
      by (simp add: below one)
    show "inj_on last_32 {tree_message last_32 (sort (files_below [] [(''a'', File ''1'')])),
        tree_message last_32 (sort (files_below [] [(''a'', File ''2'')]))}"
      by (simp add: below one tree_message_def tree_header_def) (simp add: last_32_def eval_nat_numeral)
  qed
  then show False by (simp add: below)
qed

end
