(* ===== verification/Tool_Result.thy ===== *)
theory Tool_Result
  imports Domain
begin

section \<open>Results of workspace operations (adapters/workspace/restricted.py)\<close>

text \<open>
  \<^verbatim>\<open>ToolResult\<close>, the typed return of every workspace operation, and the two projections that
  reach the ledger.
\<close>

record tool_evidence =
  te_url :: string
  te_status_code :: int
  te_content_type :: string
  te_size_bytes :: int
  te_hops :: int
  te_untrusted :: bool
  te_dns_pinned :: bool

record tool_result =
  tr_ok :: bool
  tr_operation :: string
  tr_error :: string
  tr_error_kind :: "string option"
  tr_data :: string
  digest_before :: "string option"
  digest_after :: "string option"
  truncated :: bool
  truncation_reason :: "string option"
  total_entries :: nat
  total_bytes :: nat
  duration_ms :: nat
  tr_exit_code :: "int option"
  tr_evidence :: "tool_evidence option"

text \<open>\<^verbatim>\<open>ToolResult(ok=..., operation=...)\<close>: the other fields at their defaults.\<close>

definition tool_result_of :: "bool \<Rightarrow> string \<Rightarrow> tool_result" where
  "tool_result_of ok op = \<lparr>tr_ok = ok, tr_operation = op, tr_error = [], tr_error_kind = None,
     tr_data = [], digest_before = None, digest_after = None, truncated = False,
     truncation_reason = None, total_entries = 0, total_bytes = 0, duration_ms = 0,
     tr_exit_code = None, tr_evidence = None\<rparr>"

definition failed_result :: "string \<Rightarrow> string \<Rightarrow> string option \<Rightarrow> tool_result" where
  "failed_result op err kind = (tool_result_of False op)\<lparr>tr_error := err, tr_error_kind := kind\<rparr>"

definition dump_evidence :: "tool_evidence \<Rightarrow> (string \<times> json) list" where
  "dump_evidence e =
     [(''url'', JStr (te_url e)), (''status_code'', JInt (te_status_code e)),
      (''content_type'', JStr (te_content_type e)), (''size_bytes'', JInt (te_size_bytes e)),
      (''hops'', JInt (te_hops e)), (''untrusted'', JBool (te_untrusted e)),
      (''dns_pinned'', JBool (te_dns_pinned e))]"

text \<open>\<^verbatim>\<open>if self.x:\<close> on an optional string is false for \<^verbatim>\<open>None\<close> and for the empty string.\<close>

definition truthy :: "string option \<Rightarrow> string" where
  "truthy x = (case x of None \<Rightarrow> [] | Some s \<Rightarrow> s)"

definition opt_str :: "string \<Rightarrow> string \<Rightarrow> (string \<times> json) list" where
  "opt_str k s = (if s = [] then [] else [(k, JStr s)])"

definition to_event_payload :: "tool_result \<Rightarrow> (string \<times> json) list" where
  "to_event_payload r =
     [(''operation'', JStr (tr_operation r)), (''ok'', JBool (tr_ok r)),
      (''duration_ms'', JInt (int (duration_ms r)))]
     @ opt_str ''error'' (tr_error r)
     @ opt_str ''error_kind'' (truthy (tr_error_kind r))
     @ opt_str ''digest_before'' (truthy (digest_before r))
     @ opt_str ''digest_after'' (truthy (digest_after r))
     @ (if truncated r
        then (''truncated'', JBool True) # opt_str ''truncation_reason'' (truthy (truncation_reason r))
          @ [(''total_entries'', JInt (int (total_entries r))), (''total_bytes'', JInt (int (total_bytes r)))]
        else [])
     @ (case tr_exit_code r of None \<Rightarrow> [] | Some n \<Rightarrow> [(''exit_code'', JInt n)])
     @ (case tr_evidence r of None \<Rightarrow> [] | Some e \<Rightarrow> [(''evidence'', JObj (dump_evidence e))])"

definition opt_json :: "string option \<Rightarrow> json" where
  "opt_json x = (case x of None \<Rightarrow> JNull | Some s \<Rightarrow> JStr s)"

definition to_evidence :: "tool_result \<Rightarrow> (string \<times> json) list" where
  "to_evidence r =
     (case tr_evidence r of
        Some e \<Rightarrow> dump_evidence e
      | None \<Rightarrow> [(''digest_after'', opt_json (digest_after r)), (''truncated'', JBool (truncated r)),
                 (''truncation_reason'', opt_json (truncation_reason r))])"

end
