(* ===== verification/Commands.thy ===== *)
theory Commands
  imports Config
begin

section \<open>Running commands (adapters/workspace/commands.py)\<close>

text \<open>
  The subprocess itself is the operating system's: \<open>os_spawn\<close> answers an argument vector, a
  working directory, an environment and a timeout with what the process wrote and how it
  ended.  Everything around it is modelled: the environment filter, the bounded capture, the
  reading of the result, and the Docker wrapper with its cached probe.
\<close>

record command_result =
  cr_ok :: bool
  cr_stdout :: string
  cr_stderr :: string
  cr_exit_code :: "int option"
  cr_truncated :: bool
  cr_total_bytes :: nat
  cr_error :: string

record process_run =
  pr_stdout :: string
  pr_stderr :: string
  pr_returncode :: "int option"
  pr_timed_out :: bool
  pr_cleanup_error :: string

datatype spawn_result =
    Os_failure string string  \<comment> \<open>the phase that raised an \<^verbatim>\<open>OSError\<close>, and its text\<close>
  | Ran process_run

type_synonym os_spawn = "string list \<Rightarrow> string option \<Rightarrow> (string \<times> string) list \<Rightarrow> rat option \<Rightarrow> spawn_result"

datatype command_error = Empty_argv | Negative_timeout | Negative_output_limit

subsection \<open>Bounded capture\<close>

text \<open>\<^verbatim>\<open>_capture_output\<close>: half the budget each, what one stream does not need goes to the
  other; the head of stdout and the tail of stderr are kept.\<close>

definition capture_limits :: "nat \<Rightarrow> nat \<Rightarrow> nat \<Rightarrow> nat \<times> nat" where
  "capture_limits n_out n_err budget =
     (let l0 = min n_out (budget div 2);
          l1 = min n_err (budget - budget div 2);
          spare = budget - (l0 + l1);
          d0 = min (n_out - l0) spare;
          d1 = min (n_err - l1) (spare - d0)
      in (l0 + d0, l1 + d1))"

definition capture_output :: "string \<Rightarrow> string \<Rightarrow> nat \<Rightarrow> string \<times> string \<times> nat \<times> nat" where
  "capture_output out err budget =
     (case capture_limits (length out) (length err) budget of (l0, l1) \<Rightarrow>
        (take l0 out, if l1 < length err then drop (length err - l1) err else take l1 err,
         length out, length err))"

subsection \<open>One command\<close>

definition allowed_env :: "(string \<rightharpoonup> string) \<Rightarrow> string list \<Rightarrow> (string \<times> string) list" where
  "allowed_env environ allowlist =
     List.map_filter (\<lambda>k. map_option (\<lambda>v. (k, v)) (environ k)) (remdups allowlist)"

text \<open>\<^verbatim>\<open>run_command\<close> off Windows; \<open>lossy\<close> is decoding with \<^verbatim>\<open>errors="replace"\<close> and
  \<open>show_secs\<close> the text of the timeout.\<close>

definition run_command ::
  "os_spawn \<Rightarrow> (string \<Rightarrow> string) \<Rightarrow> (rat \<Rightarrow> string) \<Rightarrow> (string \<rightharpoonup> string) \<Rightarrow> string list \<Rightarrow> string option
     \<Rightarrow> string list \<Rightarrow> rat \<Rightarrow> int \<Rightarrow> command_error + command_result" where
  "run_command spawn lossy show_secs environ args cwd allowlist timeout max_output =
     (if args = [] then Inl Empty_argv
      else if timeout < 0 then Inl Negative_timeout
      else if max_output < 0 then Inl Negative_output_limit
      else case spawn args cwd (allowed_env environ allowlist) (if 0 < timeout then Some timeout else None) of
        Os_failure phase e \<Rightarrow>
          Inr \<lparr>cr_ok = False, cr_stdout = [], cr_stderr = [], cr_exit_code = None,
               cr_truncated = False, cr_total_bytes = 0,
               cr_error = ''Failed to '' @ phase @ '': '' @ e\<rparr>
      | Ran p \<Rightarrow>
          (case capture_output (pr_stdout p) (pr_stderr p) (nat max_output) of (out, err, n_out, n_err) \<Rightarrow>
             let code = (case pr_returncode p of None \<Rightarrow> -1 | Some c \<Rightarrow> c)
             in Inr \<lparr>cr_ok = (code = 0 \<and> \<not> pr_timed_out p), cr_stdout = out, cr_stderr = err,
                  cr_exit_code = Some code, cr_truncated = (nat max_output < n_out + n_err),
                  cr_total_bytes = n_out + n_err,
                  cr_error = (if pr_timed_out p
                    then ''Command timed out after '' @ show_secs timeout @ ''s'' @ pr_cleanup_error p
                    else if code \<noteq> 0 then strip (lossy err) else [])\<rparr>))"

subsection \<open>Docker isolation\<close>

definition docker_workspace_target :: string where
  "docker_workspace_target = ''/workspace''"

definition wrap_docker_argv ::
  "string list \<Rightarrow> string \<Rightarrow> string \<Rightarrow> string option \<Rightarrow> config_error + string list" where
  "wrap_docker_argv args ws_root img container =
     (case validate_docker_image img of
        Some e \<Rightarrow> Inl e
      | None \<Rightarrow> Inr ([''docker'', ''run'', ''--rm'', ''--init'', ''--network'', ''none'',
          ''--cap-drop'', ''ALL'', ''--security-opt'', ''no-new-privileges'', ''--pids-limit'', ''256'']
          @ (case container of None \<Rightarrow> [] | Some c \<Rightarrow> if c = [] then [] else [''--name'', c])
          @ [''-v'', ws_root @ '':'' @ docker_workspace_target, ''-w'', docker_workspace_target, img]
          @ args))"

text \<open>\<^verbatim>\<open>docker_available\<close> with the process-wide cache as its state; \<open>probe\<close> is the result of
  the version query.\<close>

definition docker_available ::
  "(string \<Rightarrow> string) \<Rightarrow> command_result \<Rightarrow> (bool \<times> string) option \<Rightarrow> (bool \<times> string) \<times> (bool \<times> string) option" where
  "docker_available lossy probe cache =
     (case cache of
        Some answer \<Rightarrow> (answer, cache)
      | None \<Rightarrow>
          (let code = (case cr_exit_code probe of None \<Rightarrow> ''None'' | Some c \<Rightarrow> show_int c);
               detail = (if \<not> cr_ok probe
                 then strip (''exit='' @ code @ '' '' @ take 120 (strip (lossy (cr_stderr probe))))
                 else take 60 (strip (lossy (cr_stdout probe))));
               answer = (cr_ok probe, if detail = [] then ''unavailable'' else detail)
           in (answer, Some answer)))"

subsection \<open>What is captured\<close>

text \<open>A share that is not used up leaves enough room for the other stream.\<close>

lemma donated_spare:
  fixes a b h k :: nat
  assumes "spare = h + k - (min a h + min b k)" "d0 = min (a - min a h) spare"
    and "d1 = min (b - min b k) (spare - d0)"
  shows "min a h + d0 + (min b k + d1) = min (a + b) (h + k) \<and> min a h + d0 \<le> a \<and> min b k + d1 \<le> b"
proof (cases "a \<le> h")
  case True
  then show ?thesis using assms by (cases "b \<le> k") auto
next
  case False
  then show ?thesis using assms by (cases "b \<le> k") auto
qed

lemma capture_limits_sum:
  assumes "capture_limits n_out n_err budget = (l0, l1)"
  shows "l0 + l1 = min (n_out + n_err) budget \<and> l0 \<le> n_out \<and> l1 \<le> n_err"
proof -
  define h where "h = budget div 2"
  have hk: "h + (budget - h) = budget" by (simp add: h_def)
  note e = assms [unfolded capture_limits_def Let_def, folded h_def, unfolded prod.inject]
  from donated_spare [OF refl refl refl, where a = n_out and h = h and b = n_err and k = "budget - h", unfolded hk]
  show ?thesis unfolding e [THEN conjunct1, symmetric] e [THEN conjunct2, symmetric] by assumption
qed

lemma capture_output_spec:
  "capture_output out err budget = (o1, e1, n_out, n_err) \<Longrightarrow>
     n_out = length out \<and> n_err = length err
     \<and> length o1 + length e1 = min (length out + length err) budget
     \<and> (\<exists>rest. out = o1 @ rest) \<and> (\<exists>rest. err = rest @ e1)"
proof -
  assume c: "capture_output out err budget = (o1, e1, n_out, n_err)"
  obtain l0 l1 where l: "capture_limits (length out) (length err) budget = (l0, l1)"
    by (metis surj_pair)
  note s = capture_limits_sum [OF l]
  have "out = take l0 out @ drop l0 out" by simp
  moreover have "err = take (length err - l1) err @ drop (length err - l1) err" by simp
  moreover have "o1 = take l0 out" "e1 = drop (length err - l1) err" "n_out = length out" "n_err = length err"
    using c l s by (auto simp: capture_output_def split: if_splits)
  ultimately show ?thesis using s by (metis length_drop length_take min_absorb2 diff_diff_cancel)
qed

subsection \<open>Properties\<close>

text \<open>A command never sees an environment variable that its allowlist does not name, and its
  captured output never exceeds the limit: exactly the limit or all of it is kept, as a prefix
  of stdout and a suffix of stderr, and the truncation flag says whether anything was cut.
  It is reported as ok only when it exited with 0 in time.\<close>

theorem command_output_bounded:
  assumes "run_command spawn lossy show_secs environ args cwd allowlist timeout max_output = Inr r"
    and "spawn args cwd (allowed_env environ allowlist) (if 0 < timeout then Some timeout else None) = Ran p"
  shows "length (cr_stdout r) + length (cr_stderr r) = min (cr_total_bytes r) (nat max_output)
    \<and> cr_total_bytes r = length (pr_stdout p) + length (pr_stderr p)
    \<and> (\<exists>rest. pr_stdout p = cr_stdout r @ rest) \<and> (\<exists>rest. pr_stderr p = rest @ cr_stderr r)
    \<and> cr_truncated r = (nat max_output < cr_total_bytes r)
    \<and> cr_ok r = (pr_returncode p = Some 0 \<and> \<not> pr_timed_out p)
    \<and> list_all (\<lambda>(k, v). k \<in> set allowlist \<and> environ k = Some v) (allowed_env environ allowlist)"
proof -
  obtain o1 e1 n_out n_err where c: "capture_output (pr_stdout p) (pr_stderr p) (nat max_output) = (o1, e1, n_out, n_err)"
    by (metis surj_pair)
  have env: "list_all (\<lambda>(k, v). k \<in> set allowlist \<and> environ k = Some v) (allowed_env environ allowlist)"
    by (auto simp: allowed_env_def List.map_filter_def list_all_iff)
  from assms c have "r = \<lparr>cr_ok = ((case pr_returncode p of None \<Rightarrow> -1 | Some c \<Rightarrow> c) = 0 \<and> \<not> pr_timed_out p),
      cr_stdout = o1, cr_stderr = e1,
      cr_exit_code = Some (case pr_returncode p of None \<Rightarrow> -1 | Some c \<Rightarrow> c),
      cr_truncated = (nat max_output < n_out + n_err), cr_total_bytes = n_out + n_err,
      cr_error = cr_error r\<rparr>"
    by (auto simp: run_command_def Let_def split: if_splits)
  then have r: "cr_ok r = ((case pr_returncode p of None \<Rightarrow> -1 | Some c \<Rightarrow> c) = 0 \<and> \<not> pr_timed_out p)"
    "cr_stdout r = o1" "cr_stderr r = e1" "cr_truncated r = (nat max_output < n_out + n_err)"
    "cr_total_bytes r = n_out + n_err"
    by (metis command_result.select_convs)+
  from capture_output_spec [OF c] r env show ?thesis by (auto split: option.split)
qed

theorem command_output_bounded_witness:
  "let spawn = (\<lambda>args cwd env timeout. Ran \<lparr>pr_stdout = ''abcdef'', pr_stderr = ''xyz'',
         pr_returncode = Some 0, pr_timed_out = False, pr_cleanup_error = []\<rparr>)
   in case run_command spawn id (\<lambda>t. []) Map.empty [''ls''] None [] 1 4 of
        Inl e \<Rightarrow> False
      | Inr r \<Rightarrow> length (cr_stdout r) + length (cr_stderr r) = 4"
proof -
  let ?p = "\<lparr>pr_stdout = ''abcdef'', pr_stderr = ''xyz'', pr_returncode = Some 0,
    pr_timed_out = False, pr_cleanup_error = []\<rparr>"
  let ?spawn = "\<lambda>args cwd env timeout. Ran ?p"
  obtain r where r: "run_command ?spawn id (\<lambda>t. []) Map.empty [''ls''] None [] 1 4 = Inr r"
    by (simp add: run_command_def capture_output_def capture_limits_def Let_def)
  from command_output_bounded [OF r refl] r show ?thesis by simp
qed

end
