(* ===== verification/Workspace.thy ===== *)
theory Workspace
  imports File_Tree Hashing Tool_Result Commands
begin

section \<open>The restricted workspace (adapters/workspace/restricted.py)\<close>

text \<open>
  \<^verbatim>\<open>RestrictedWorkspace\<close> over a tree of entries.  The state is the tree, the lease and the
  probe cache; the operating system is the record \<open>os_env\<close>.  Texts of files are their UTF-8
  bytes.  A raise that escapes an operation is \<open>Inl\<close>; clock readings are the argument \<open>now\<close>
  and durations stay 0.  POSIX rules apply: the branches for Windows are not modelled.
\<close>

record ws_config =
  max_list_entries :: nat
  max_read_size :: nat
  max_search_results :: nat
  max_search_file_bytes :: nat
  max_search_files :: nat
  max_search_directories :: nat
  max_write_bytes :: nat
  lease_timeout_seconds :: rat

definition default_ws_config :: ws_config where
  "default_ws_config = \<lparr>max_list_entries = 1000, max_read_size = 1048576, max_search_results = 100,
     max_search_file_bytes = 1048576, max_search_files = 10000, max_search_directories = 1000,
     max_write_bytes = 1048576, lease_timeout_seconds = 30\<rparr>"

record lease =
  lease_token :: string
  lease_owner :: string
  acquired_at :: rat
  lease_ttl :: rat

record workspace =
  tree :: node
  root_parts :: "string list"
  hard_linked :: "string list \<Rightarrow> bool"  \<comment> \<open>\<^verbatim>\<open>st_nlink > 1\<close>\<close>
  ws_limits :: ws_config
  held_lease :: "lease option"
  probe_cache :: "(bool \<times> string) option"

record os_env =
  os_sha :: "string \<Rightarrow> string"
  os_dumps :: "json \<Rightarrow> string"
  os_lossy :: "string \<Rightarrow> string"
  os_show_secs :: "rat \<Rightarrow> string"
  os_environ :: "string \<rightharpoonup> string"
  os_spawn :: "node \<Rightarrow> os_spawn"
  os_effect :: "string list \<Rightarrow> node \<Rightarrow> node"
  os_write_error :: "string list \<Rightarrow> string option"
  os_token :: string

datatype ws_raise =
    Embedded_null
  | Undecodable_text
  | Missing_patch_key string
  | Command_refused

subsection \<open>Sensitive names\<close>

definition sensitive_filenames :: "string list" where
  "sensitive_filenames = [''id_rsa'', ''id_dsa'', ''id_ecdsa'', ''id_ed25519'', ''.htpasswd'', ''credentials.json'']"

definition sensitive_suffixes :: "string list" where
  "sensitive_suffixes = [''.pem'', ''.key'', ''.p12'', ''.pfx'']"

definition is_sensitive_path :: "string list \<Rightarrow> bool" where
  "is_sensitive_path raw_parts =
     (let parts = map casefold raw_parts;
          name = (if parts = [] then [] else last parts)
      in if ''.git'' \<in> set parts \<or> ''.ssh'' \<in> set parts \<or> name = ''ledger.db'' then True
         else if name \<in> set sensitive_filenames then True
         else if name = ''.env'' \<or> starts_with ''.env.'' name then True
         else list_ex (\<lambda>suffix. ends_with suffix name) sensitive_suffixes)"

text \<open>\<^verbatim>\<open>_denied_file_identity\<close> on the absolute path.\<close>

definition denied_file_identity :: "workspace \<Rightarrow> string list \<Rightarrow> bool" where
  "denied_file_identity ws path \<longleftrightarrow> is_sensitive_path (root_parts ws @ path) \<or> hard_linked ws path"

subsection \<open>Resolving a path\<close>

text \<open>The walk over the components: a link, or a component below something that is no directory
  (\<^verbatim>\<open>lstat\<close> raises \<^verbatim>\<open>ENOTDIR\<close>), is unsafe; an absent component is not a link, nor is anything
  below it.\<close>

fun reparse_on_path :: "node \<Rightarrow> string list \<Rightarrow> bool" where
  "reparse_on_path nd [] = False"
| "reparse_on_path (Directory kids) (p # ps) =
     (case map_of kids p of
        None \<Rightarrow> False
      | Some Link \<Rightarrow> True
      | Some k \<Rightarrow> reparse_on_path k ps)"
| "reparse_on_path nd (p # ps) = True"

definition backslash :: char where
  "backslash = CHR 0x5C"

definition resolve_safe :: "node \<Rightarrow> string \<Rightarrow> ws_raise + string list option" where
  "resolve_safe nd rel_path =
     (let parts = path_parts rel_path
      in if rel_path = [] then Inr None
         else if rel_path = ''.'' then Inr (Some [])
         else if is_absolute rel_path then Inr None
         else if 2 \<le> length rel_path \<and> rel_path ! 1 = CHR '':'' then Inr None
         else if ''..'' \<in> set parts \<or> ''.'' \<in> set parts then Inr None
         else if backslash \<in> set rel_path then Inr None
         else if CHR 0x00 \<in> set rel_path then Inl Embedded_null
         else if reparse_on_path nd parts then Inr None
         else Inr (Some parts))"

subsection \<open>Leases\<close>

definition lease_expired :: "rat \<Rightarrow> lease \<Rightarrow> bool" where
  "lease_expired now l = (if lease_ttl l \<le> 0 then False else lease_ttl l < now - acquired_at l)"

definition check_lease :: "rat \<Rightarrow> string option \<Rightarrow> workspace \<Rightarrow> string option \<times> workspace" where
  "check_lease now token ws =
     (case token of
        None \<Rightarrow> (Some ''Mutation requires a valid lease token'', ws)
      | Some t \<Rightarrow>
          (case held_lease ws of
             None \<Rightarrow> (Some ''No lease held'', ws)
           | Some l \<Rightarrow>
               if lease_expired now l then (Some ''Lease has expired'', ws\<lparr>held_lease := None\<rparr>)
               else if lease_token l = t then (None, ws)
               else (Some ''Invalid lease token'', ws)))"

definition acquire_lease :: "os_env \<Rightarrow> rat \<Rightarrow> string \<Rightarrow> workspace \<Rightarrow> string option \<times> workspace" where
  "acquire_lease os now owner ws =
     (let fresh = (Some (os_token os), ws\<lparr>held_lease := Some \<lparr>lease_token = os_token os,
            lease_owner = owner, acquired_at = now,
            lease_ttl = lease_timeout_seconds (ws_limits ws)\<rparr>\<rparr>)
      in case held_lease ws of
           None \<Rightarrow> fresh
         | Some l \<Rightarrow>
             if \<not> lease_expired now l
             then (if lease_owner l = owner then Some (lease_token l) else None, ws)
             else fresh)"

definition release_lease :: "string \<Rightarrow> workspace \<Rightarrow> workspace" where
  "release_lease token ws =
     (case held_lease ws of
        None \<Rightarrow> ws
      | Some l \<Rightarrow> if lease_token l = token then ws\<lparr>held_lease := None\<rparr> else ws)"

subsection \<open>Reading\<close>

definition unsafe_path :: "string \<Rightarrow> tool_result" where
  "unsafe_path op = failed_result op ''Invalid or unsafe path'' None"

definition ws_list :: "os_env \<Rightarrow> workspace \<Rightarrow> string \<Rightarrow> ws_raise + tool_result" where
  "ws_list os ws rel_path =
     (case resolve_safe (tree ws) rel_path of
        Inl e \<Rightarrow> Inl e
      | Inr None \<Rightarrow> Inr (unsafe_path ''list'')
      | Inr (Some path) \<Rightarrow>
          (case entry_at (tree ws) path of
             Some (Directory kids) \<Rightarrow>
               (let entries = take (max_list_entries (ws_limits ws)) (sort (map fst kids));
                    cut = (max_list_entries (ws_limits ws) < length kids)
                in Inr ((tool_result_of True ''list'')\<lparr>tr_data := os_dumps os (JArr (map JStr entries)),
                     truncated := cut, truncation_reason := (if cut then Some ''entry_limit'' else None),
                     total_entries := length kids\<rparr>))
           | _ \<Rightarrow> Inr (failed_result ''list'' (''Not a directory: '' @ rel_path) None)))"

definition ws_read :: "workspace \<Rightarrow> string \<Rightarrow> ws_raise + tool_result" where
  "ws_read ws rel_path =
     (case resolve_safe (tree ws) rel_path of
        Inl e \<Rightarrow> Inl e
      | Inr None \<Rightarrow> Inr (failed_result ''read'' ''Invalid or unsafe path'' (Some ''unsafe_path''))
      | Inr (Some path) \<Rightarrow>
          (case entry_at (tree ws) path of
             None \<Rightarrow> Inr (failed_result ''read'' (''File not found: '' @ rel_path) (Some ''not_found''))
           | Some (File content) \<Rightarrow>
               if denied_file_identity ws path
               then Inr (failed_result ''read'' ''sensitive file reads are denied'' (Some ''sensitive_denied''))
               else
                 (let cap = max_read_size (ws_limits ws);
                      seen = take (cap + 1) content;
                      cut = (cap < max (length content) (length seen))
                  in Inr ((tool_result_of True ''read'')\<lparr>tr_data := take cap seen, truncated := cut,
                       truncation_reason := (if cut then Some ''byte_limit'' else None),
                       total_bytes := length content\<rparr>))
           | Some _ \<Rightarrow> Inr (failed_result ''read'' (''Not a file: '' @ rel_path) (Some ''not_file''))))"

text \<open>\<^verbatim>\<open>search\<close>: an explicit stack of paths, each resolved again before it is opened.\<close>

record search_state =
  matches :: "(string \<times> string) list list"
  hits :: nat
  files_seen :: nat
  directories_seen :: nat
  stop_reason :: "string option"
  stopped :: bool

definition or_reason :: "string \<Rightarrow> search_state \<Rightarrow> search_state" where
  "or_reason r st = (case stop_reason st of None \<Rightarrow> st\<lparr>stop_reason := Some r\<rparr> | Some _ \<Rightarrow> st)"

fun search_lines :: "ws_config \<Rightarrow> string \<Rightarrow> string \<Rightarrow> nat \<Rightarrow> string list \<Rightarrow> search_state \<Rightarrow> search_state" where
  "search_lines cfg pat rel n [] st = st"
| "search_lines cfg pat rel n (line # lines) st =
     (if \<not> contains pat line then search_lines cfg pat rel (n + 1) lines st
      else if max_search_results cfg < hits st + 1
      then (or_reason ''result_limit'' (st\<lparr>hits := hits st + 1\<rparr>))\<lparr>stopped := True\<rparr>
      else search_lines cfg pat rel (n + 1) lines
        (st\<lparr>hits := hits st + 1,
            matches := matches st @ [[(''path'', rel), (''line'', show_nat n),
                                      (''text'', take 200 (strip line))]]\<rparr>))"

definition search_file :: "os_env \<Rightarrow> ws_config \<Rightarrow> string \<Rightarrow> string \<Rightarrow> string \<Rightarrow> search_state \<Rightarrow> search_state" where
  "search_file os cfg pat rel content st =
     (let cap = max_search_file_bytes cfg;
          seen = take (cap + 1) content;
          st1 = (if cap < length seen then or_reason ''file_byte_limit'' st else st)
      in search_lines cfg pat rel 1 (splitlines (os_lossy os (take cap seen))) st1)"

text \<open>\<^verbatim>\<open>str(entry.relative_to(root))\<close>: the root itself is \<^verbatim>\<open>"."\<close>.\<close>

definition rel_text :: "string list \<Rightarrow> string" where
  "rel_text path = (if path = [] then ''.'' else as_posix path)"

lemma or_reason_keeps [simp]:
  "directories_seen (or_reason r st) = directories_seen st" "files_seen (or_reason r st) = files_seen st"
  "hits (or_reason r st) = hits st" "matches (or_reason r st) = matches st"
  "stopped (or_reason r st) = stopped st"
  by (simp_all add: or_reason_def split: option.split)

lemma search_lines_keeps [simp]:
  "directories_seen (search_lines cfg pat rel n lines st) = directories_seen st"
  "files_seen (search_lines cfg pat rel n lines st) = files_seen st"
  by (induction cfg pat rel n lines st rule: search_lines.induct) simp_all

lemma search_file_keeps [simp]:
  "directories_seen (search_file os cfg pat rel content st) = directories_seen st"
  "files_seen (search_file os cfg pat rel content st) = files_seen st"
  by (simp_all add: search_file_def Let_def)

function search_loop ::
  "os_env \<Rightarrow> workspace \<Rightarrow> string \<Rightarrow> string list list \<Rightarrow> search_state \<Rightarrow> ws_raise + search_state" where
  "search_loop os ws pat stack st =
     (case stack of
        [] \<Rightarrow> Inr st
      | entry # rest \<Rightarrow>
          if stopped st then Inr st
          else case resolve_safe (tree ws) (rel_text entry) of
            Inl e \<Rightarrow> Inl e
          | Inr None \<Rightarrow> search_loop os ws pat rest st
          | Inr (Some safe) \<Rightarrow>
              (case entry_at (tree ws) safe of
                 Some (Directory kids) \<Rightarrow>
                   if max_search_directories (ws_limits ws) \<le> directories_seen st
                   then Inr ((or_reason ''directory_limit'' st)\<lparr>stopped := True\<rparr>)
                   else search_loop os ws pat (map (\<lambda>n. safe @ [n]) (sort (map fst kids)) @ rest)
                          (st\<lparr>directories_seen := directories_seen st + 1\<rparr>)
               | Some (File content) \<Rightarrow>
                   if denied_file_identity ws safe then search_loop os ws pat rest st
                   else if max_search_files (ws_limits ws) \<le> files_seen st
                   then Inr ((or_reason ''file_limit'' st)\<lparr>stopped := True\<rparr>)
                   else search_loop os ws pat rest
                          (search_file os (ws_limits ws) pat (rel_text entry) content
                             (st\<lparr>files_seen := files_seen st + 1\<rparr>))
               | _ \<Rightarrow> search_loop os ws pat rest st))"
  by pat_completeness auto

text \<open>Each directory opened raises a bounded counter; anything else shortens the stack.\<close>

termination
  by (relation "measures [\<lambda>(os, ws, pat, stack, st). max_search_directories (ws_limits ws) - directories_seen st,
        \<lambda>(os, ws, pat, stack, st). length stack]") auto

declare search_loop.simps [simp del]

lemma search_loop_Nil [simp]: "search_loop os ws pat [] st = Inr st"
  by (simp add: search_loop.simps)

definition ws_search :: "os_env \<Rightarrow> workspace \<Rightarrow> string \<Rightarrow> string \<Rightarrow> ws_raise + tool_result" where
  "ws_search os ws pat rel_path =
     (case resolve_safe (tree ws) rel_path of
        Inl e \<Rightarrow> Inl e
      | Inr None \<Rightarrow> Inr (unsafe_path ''search'')
      | Inr (Some path) \<Rightarrow>
          if entry_at (tree ws) path = None
          then Inr (failed_result ''search'' (''Path not found: '' @ rel_path) None)
          else case search_loop os ws pat [path] \<lparr>matches = [], hits = 0, files_seen = 0,
                 directories_seen = 0, stop_reason = None, stopped = False\<rparr> of
            Inl e \<Rightarrow> Inl e
          | Inr st \<Rightarrow>
              Inr ((tool_result_of True ''search'')\<lparr>
                tr_data := os_dumps os (JArr (map (\<lambda>m. JObj (map (\<lambda>(k, v). (k, JStr v)) m)) (matches st))),
                truncated := (stop_reason st \<noteq> None), truncation_reason := stop_reason st,
                total_entries := hits st\<rparr>))"

end
