(* ===== verification/Workspace_Edit.thy ===== *)
theory Workspace_Edit
  imports Workspace
begin

section \<open>Changing the workspace (adapters/workspace/restricted.py)\<close>

text \<open>
  The mutating operations of \<^verbatim>\<open>RestrictedWorkspace\<close>: create, write, replace, patch and
  command execution.  Each returns its result (or the raise that escapes it) and the workspace
  it leaves.
\<close>

subsection \<open>Text\<close>

text \<open>Valid UTF-8, as the strict decoder checks it.\<close>

definition byte_in :: "nat \<Rightarrow> nat \<Rightarrow> char \<Rightarrow> bool" where
  "byte_in lo hi c \<longleftrightarrow> lo \<le> of_char c \<and> (of_char c :: nat) \<le> hi"

definition utf8_tail :: "char \<Rightarrow> (char \<Rightarrow> bool) list" where
  "utf8_tail c =
     (if byte_in 0xC2 0xDF c then [byte_in 0x80 0xBF]
      else if byte_in 0xE0 0xE0 c then [byte_in 0xA0 0xBF, byte_in 0x80 0xBF]
      else if byte_in 0xED 0xED c then [byte_in 0x80 0x9F, byte_in 0x80 0xBF]
      else if byte_in 0xE1 0xEF c then [byte_in 0x80 0xBF, byte_in 0x80 0xBF]
      else if byte_in 0xF0 0xF0 c then [byte_in 0x90 0xBF, byte_in 0x80 0xBF, byte_in 0x80 0xBF]
      else if byte_in 0xF1 0xF3 c then [byte_in 0x80 0xBF, byte_in 0x80 0xBF, byte_in 0x80 0xBF]
      else if byte_in 0xF4 0xF4 c then [byte_in 0x80 0x8F, byte_in 0x80 0xBF, byte_in 0x80 0xBF]
      else [\<lambda>_. False])"

fun utf8_from :: "(char \<Rightarrow> bool) list \<Rightarrow> string \<Rightarrow> bool" where
  "utf8_from [] [] = True"
| "utf8_from (p # ps) [] = False"
| "utf8_from (p # ps) (c # cs) = (p c \<and> utf8_from ps cs)"
| "utf8_from [] (c # cs) = (if byte_in 0 0x7F c then utf8_from [] cs else utf8_from (utf8_tail c) cs)"

definition valid_utf8 :: "string \<Rightarrow> bool" where
  "valid_utf8 s = utf8_from [] s"

text \<open>\<^verbatim>\<open>read_text\<close> translates every line ending to a line feed.\<close>

fun universal_newlines :: "string \<Rightarrow> string" where
  "universal_newlines [] = []"
| "universal_newlines (c # cs) =
     (if c = CHR 0x0D
      then CHR 0x0A # universal_newlines (if cs \<noteq> [] \<and> hd cs = CHR 0x0A then tl cs else cs)
      else c # universal_newlines cs)"

text \<open>\<^verbatim>\<open>str.count\<close> (occurrences that do not overlap) and \<^verbatim>\<open>str.replace(old, new, 1)\<close>.\<close>

function str_count :: "string \<Rightarrow> string \<Rightarrow> nat" where
  "str_count old s =
     (if old = [] then length s + 1
      else if s = [] then 0
      else if starts_with old s then Suc (str_count old (drop (length old) s))
      else str_count old (tl s))"
  by pat_completeness auto
termination by (relation "measure (\<lambda>(old, s). length s)") auto

declare str_count.simps [simp del]

fun replace_first :: "string \<Rightarrow> string \<Rightarrow> string \<Rightarrow> string" where
  "replace_first old new [] = (if old = [] then new else [])"
| "replace_first old new (c # cs) =
     (if starts_with old (c # cs) then new @ drop (length old) (c # cs)
      else c # replace_first old new cs)"

subsection \<open>The atomic write\<close>

definition sha_digest :: "os_env \<Rightarrow> string \<Rightarrow> string" where
  "sha_digest os content = ''sha256:'' @ hexdigest (os_sha os) content"

definition target_name :: "workspace \<Rightarrow> string list \<Rightarrow> string" where
  "target_name ws path = (if root_parts ws @ path = [] then [] else last (root_parts ws @ path))"

text \<open>\<^verbatim>\<open>_atomic_write\<close>.  \<^verbatim>\<open>mkdir\<close> creates the missing parents first; replacing a directory
  fails, as does a replacement the operating system refuses.\<close>

definition with_parent :: "node \<Rightarrow> string list \<Rightarrow> node" where
  "with_parent nd path =
     (case entry_at nd (butlast path) of
        Some _ \<Rightarrow> nd
      | None \<Rightarrow> (case put_entry (butlast path) (Directory []) nd of None \<Rightarrow> nd | Some nd' \<Rightarrow> nd'))"

definition parent_is_dir :: "node \<Rightarrow> string list \<Rightarrow> bool" where
  "parent_is_dir nd path =
     (path = [] \<or> (case entry_at nd (butlast path) of Some k \<Rightarrow> is_directory k | None \<Rightarrow> False))"

definition put_file :: "os_env \<Rightarrow> string list \<Rightarrow> string \<Rightarrow> node \<Rightarrow> string + node" where
  "put_file os path content nd =
     (case os_write_error os path of
        Some e \<Rightarrow> Inl e
      | None \<Rightarrow>
          (case entry_at nd path of
             Some (Directory _) \<Rightarrow> Inl ''Is a directory''
           | _ \<Rightarrow> (case put_entry path (File content) nd of
                     None \<Rightarrow> Inl ''Not a directory'' | Some nd' \<Rightarrow> Inr nd')))"

text \<open>The four values of the returned tuple, and the tree.\<close>

definition atomic_file_write ::
  "os_env \<Rightarrow> workspace \<Rightarrow> string list \<Rightarrow> string \<Rightarrow> bool option \<Rightarrow> string
     \<Rightarrow> (bool \<times> string \<times> string option \<times> string option) \<times> node" where
  "atomic_file_write os ws path content require_exists op =
     (let nd = tree ws
      in if \<not> parent_is_dir nd path \<and> require_exists = Some True
         then ((False, ''Parent directory does not exist: '' @ as_posix (butlast path), None, None), nd)
         else
           (let nd1 = (if parent_is_dir nd path then nd else with_parent nd path);
                current = entry_at nd1 path;
                before = (case current of
                    Some (File old) \<Rightarrow> Some (sha_digest os old) | _ \<Rightarrow> None)
            in if current \<noteq> None \<and> require_exists = Some False
               then ((False, ''File already exists: '' @ target_name ws path, None, None), nd1)
               else if current = None \<and> require_exists = Some True
               then ((False, ''File not found: '' @ target_name ws path, None, None), nd1)
               else case put_file os path content nd1 of
                 Inl e \<Rightarrow> ((False, op @ '' failed: '' @ e, before, None), nd1)
               | Inr nd2 \<Rightarrow> ((True, [], before, Some (sha_digest os content)), nd2)))"

subsection \<open>The mutations\<close>

type_synonym ws_outcome = "(ws_raise + tool_result) \<times> workspace"

definition refuse :: "string \<Rightarrow> string \<Rightarrow> workspace \<Rightarrow> ws_outcome" where
  "refuse op err ws = (Inr (failed_result op err None), ws)"

definition finish_write ::
  "os_env \<Rightarrow> workspace \<Rightarrow> string list \<Rightarrow> string \<Rightarrow> bool option \<Rightarrow> string \<Rightarrow> ws_outcome" where
  "finish_write os ws path content require_exists op =
     (case atomic_file_write os ws path content require_exists op of
        ((ok, err, before, after), nd) \<Rightarrow>
          (Inr ((tool_result_of ok op)\<lparr>tr_error := err, digest_before := before,
             digest_after := after\<rparr>), ws\<lparr>tree := nd\<rparr>))"

definition mutate_file ::
  "os_env \<Rightarrow> rat \<Rightarrow> string \<Rightarrow> string \<Rightarrow> string \<Rightarrow> bool option \<Rightarrow> string option \<Rightarrow> workspace \<Rightarrow> ws_outcome" where
  "mutate_file os now rel_path content op require_exists token ws =
     (case check_lease now token ws of
        (Some err, ws1) \<Rightarrow> refuse op err ws1
      | (None, ws1) \<Rightarrow>
          if max_write_bytes (ws_limits ws1) < length content
          then refuse op (''Content size '' @ show_nat (length content) @ '' exceeds limit ''
                 @ show_nat (max_write_bytes (ws_limits ws1))) ws1
          else case resolve_safe (tree ws1) rel_path of
            Inl e \<Rightarrow> (Inl e, ws1)
          | Inr None \<Rightarrow> (Inr (unsafe_path op), ws1)
          | Inr (Some path) \<Rightarrow> finish_write os ws1 path content require_exists op)"

definition ws_create :: "os_env \<Rightarrow> rat \<Rightarrow> string \<Rightarrow> string \<Rightarrow> string option \<Rightarrow> workspace \<Rightarrow> ws_outcome" where
  "ws_create os now rel_path content token ws =
     mutate_file os now rel_path content ''create'' (Some False) token ws"

definition ws_write :: "os_env \<Rightarrow> rat \<Rightarrow> string \<Rightarrow> string \<Rightarrow> string option \<Rightarrow> workspace \<Rightarrow> ws_outcome" where
  "ws_write os now rel_path content token ws = mutate_file os now rel_path content ''write'' None token ws"

text \<open>The shared opening of replace and patch: the lease, the path, and the text of the file.\<close>

definition edit_text ::
  "string \<Rightarrow> string \<Rightarrow> (string list \<Rightarrow> string \<Rightarrow> workspace \<Rightarrow> ws_outcome) \<Rightarrow> workspace \<Rightarrow> ws_outcome" where
  "edit_text op rel_path edit ws =
     (case resolve_safe (tree ws) rel_path of
        Inl e \<Rightarrow> (Inl e, ws)
      | Inr None \<Rightarrow> (Inr (unsafe_path op), ws)
      | Inr (Some path) \<Rightarrow>
          (case entry_at (tree ws) path of
             None \<Rightarrow> refuse op (''File not found: '' @ rel_path) ws
           | Some (File content) \<Rightarrow>
               if \<not> valid_utf8 content then (Inl Undecodable_text, ws)
               else edit path (universal_newlines content) ws
           | Some _ \<Rightarrow> refuse op ''Read failed: Is a directory'' ws))"

definition ws_replace ::
  "os_env \<Rightarrow> rat \<Rightarrow> string \<Rightarrow> string \<Rightarrow> string \<Rightarrow> string option \<Rightarrow> workspace \<Rightarrow> ws_outcome" where
  "ws_replace os now rel_path old new token ws =
     (case check_lease now token ws of
        (Some err, ws1) \<Rightarrow> refuse ''replace'' err ws1
      | (None, ws1) \<Rightarrow> edit_text ''replace'' rel_path
          (\<lambda>path content ws2.
             let count = str_count old content;
                 new_content = replace_first old new content
             in if count = 0 then refuse ''replace'' (''Target string not found in '' @ rel_path) ws2
                else if 1 < count
                then refuse ''replace'' (''Ambiguous replacement: '' @ quoted old @ '' appears ''
                       @ show_nat count @ '' times in '' @ rel_path) ws2
                else if max_write_bytes (ws_limits ws2) < length new_content
                then refuse ''replace'' ''Replacement would exceed write size limit'' ws2
                else finish_write os ws2 path new_content (Some True) ''replace'') ws1)"

text \<open>A patch is a dict with optional keys \<^verbatim>\<open>old\<close> and \<^verbatim>\<open>new\<close>.\<close>

type_synonym text_patch = "string option \<times> string option"

fun missing_old :: "nat \<Rightarrow> string \<Rightarrow> text_patch list \<Rightarrow> nat option" where
  "missing_old i content [] = None"
| "missing_old i content ((old, new) # ps) =
     (if contains (case old of None \<Rightarrow> [] | Some o' \<Rightarrow> o') content
      then missing_old (i + 1) content ps else Some i)"

fun apply_patches :: "text_patch list \<Rightarrow> string \<Rightarrow> ws_raise + string" where
  "apply_patches [] content = Inr content"
| "apply_patches ((None, new) # ps) content = Inl (Missing_patch_key ''old'')"
| "apply_patches ((Some old, None) # ps) content = Inl (Missing_patch_key ''new'')"
| "apply_patches ((Some old, Some new) # ps) content = apply_patches ps (replace_first old new content)"

definition ws_patch ::
  "os_env \<Rightarrow> rat \<Rightarrow> string \<Rightarrow> text_patch list \<Rightarrow> string option \<Rightarrow> workspace \<Rightarrow> ws_outcome" where
  "ws_patch os now rel_path patches token ws =
     (case check_lease now token ws of
        (Some err, ws1) \<Rightarrow> refuse ''patch'' err ws1
      | (None, ws1) \<Rightarrow>
          if patches = [] then refuse ''patch'' ''No patches provided'' ws1
          else edit_text ''patch'' rel_path
            (\<lambda>path content ws2.
               case missing_old 0 content patches of
                 Some i \<Rightarrow> refuse ''patch'' (''Patch '' @ show_nat i @ '': old text not found in '' @ rel_path) ws2
               | None \<Rightarrow>
                   (case apply_patches patches content of
                      Inl e \<Rightarrow> (Inl e, ws2)
                    | Inr new_content \<Rightarrow>
                        if max_write_bytes (ws_limits ws2) < length new_content
                        then refuse ''patch'' ''Patched content would exceed write size limit'' ws2
                        else finish_write os ws2 path new_content (Some True) ''patch'')) ws1)"

subsection \<open>Commands\<close>

record command_profile =
  cp_name :: string
  cp_argv :: "string list"
  cp_timeout :: rat
  cp_max_output :: nat
  cp_env_allowlist :: "string list"
  workspace_cwd :: bool
  cp_isolation :: isolation
  cp_docker_image :: string

definition profile_from_config :: "command_config \<Rightarrow> command_profile" where
  "profile_from_config c = \<lparr>cp_name = cc_name c, cp_argv = argv c, cp_timeout = timeout_seconds c,
     cp_max_output = cc_max_output_bytes c, cp_env_allowlist = env_allowlist c, workspace_cwd = True,
     cp_isolation = isolation c, cp_docker_image = docker_image c\<rparr>"

definition root_text :: "workspace \<Rightarrow> string" where
  "root_text ws = ''/'' @ as_posix (root_parts ws)"

text \<open>One spawn: its result, the tree the process leaves, and the argument vector for the trace.\<close>

definition spawn_in ::
  "os_env \<Rightarrow> workspace \<Rightarrow> string list \<Rightarrow> string option \<Rightarrow> string list \<Rightarrow> rat \<Rightarrow> nat
     \<Rightarrow> (command_error + command_result) \<times> workspace" where
  "spawn_in os ws args cwd allow timeout max_output =
     (run_command (os_spawn os (tree ws)) (os_lossy os) (os_show_secs os) (os_environ os) args cwd
        allow timeout (int max_output), ws\<lparr>tree := os_effect os args (tree ws)\<rparr>)"

definition from_command_result :: "command_result \<Rightarrow> string \<Rightarrow> tool_result" where
  "from_command_result r err = (tool_result_of (cr_ok r) ''execute_command'')\<lparr>
     tr_data := cr_stdout r @ cr_stderr r, truncated := cr_truncated r,
     total_bytes := cr_total_bytes r, tr_exit_code := cr_exit_code r, tr_error := err\<rparr>"

text \<open>After a timeout the container is removed and inspected; the first failure is reported.\<close>

definition cleanup_error ::
  "os_env \<Rightarrow> workspace \<Rightarrow> command_profile \<Rightarrow> string \<Rightarrow> string \<Rightarrow> ws_raise + string" where
  "cleanup_error os ws p container err =
     (case (fst (spawn_in os ws [''docker'', ''rm'', ''-f'', container] (Some (root_text ws)) (cp_env_allowlist p) 5 4096),
            fst (spawn_in os ws [''docker'', ''container'', ''inspect'', container] (Some (root_text ws))
                   (cp_env_allowlist p) 5 4096)) of
        (Inr cleanup, Inr inspect) \<Rightarrow>
          (let detail = casefold (os_lossy os (cr_stdout inspect @ cr_stderr inspect))
           in if cr_ok inspect \<or> (\<not> cr_ok cleanup \<and> \<not> contains ''no such'' detail)
              then Inr (err @ ''; container cleanup failed: ''
                @ (if cr_ok inspect then ''container still exists''
                   else if cr_error cleanup \<noteq> [] then cr_error cleanup else strip detail))
              else Inr err)
      | _ \<Rightarrow> Inl Command_refused)"

definition execute_command :: "os_env \<Rightarrow> command_profile \<Rightarrow> workspace \<Rightarrow> ws_outcome" where
  "execute_command os p ws =
     (case cp_isolation p of
        Docker \<Rightarrow>
          (case run_command (os_spawn os (tree ws)) (os_lossy os) (os_show_secs os) (os_environ os)
                  [''docker'', ''version'', ''--format'', ''{{.Server.Version}}''] None [''PATH''] 10 4096 of
             Inl _ \<Rightarrow> (Inl Command_refused, ws)
           | Inr probe \<Rightarrow>
               (case docker_available (os_lossy os) probe (probe_cache ws) of
                  ((available, detail), cache) \<Rightarrow>
                    let ws1 = ws\<lparr>probe_cache := cache\<rparr>;
                        container = ''northstack-'' @ os_token os
                    in if \<not> available
                       then refuse ''execute_command'' (''command '' @ quoted (cp_name p)
                              @ '' requires Docker isolation but Docker is unavailable ('' @ detail
                              @ ''); refusing to run on host'') ws1
                       else case wrap_docker_argv (cp_argv p) (root_text ws) (cp_docker_image p) (Some container) of
                         Inl _ \<Rightarrow> (Inl Command_refused, ws1)
                       | Inr args \<Rightarrow>
                           (case spawn_in os ws1 args (Some (root_text ws)) (cp_env_allowlist p)
                                   (cp_timeout p) (cp_max_output p) of
                              (Inl _, ws2) \<Rightarrow> (Inl Command_refused, ws2)
                            | (Inr r, ws2) \<Rightarrow>
                                if contains ''timed out'' (casefold (cr_error r))
                                then (case cleanup_error os ws2 p container (cr_error r) of
                                        Inl e \<Rightarrow> (Inl e, ws2)
                                      | Inr err \<Rightarrow> (Inr (from_command_result r err), ws2))
                                else (Inr (from_command_result r (cr_error r)), ws2))))
      | Host \<Rightarrow>
          (case spawn_in os ws (cp_argv p) (if workspace_cwd p then Some (root_text ws) else None)
                  (cp_env_allowlist p) (cp_timeout p) (cp_max_output p) of
             (Inl _, ws1) \<Rightarrow> (Inl Command_refused, ws1)
           | (Inr r, ws1) \<Rightarrow> (Inr (from_command_result r (cr_error r)), ws1)))"

end
