(* ===== verification/Workspace_Properties.thy ===== *)
theory Workspace_Properties
  imports Workspace_Edit
begin

section \<open>What the workspace guarantees\<close>

text \<open>
  Lemmas and properties of the operations in Workspace and Workspace_Edit: confinement of every
  mutation to the resolved path, the lease as its precondition, reads that are exact and never
  of a denied file, what replace and patch do to the text, and Docker isolation.
\<close>

subsection \<open>Paths\<close>

lemma resolve_safe_Some:
  assumes "resolve_safe nd rel = Inr (Some path)"
  shows "''..'' \<notin> set path \<and> \<not> is_absolute rel \<and> \<not> reparse_on_path nd path \<and> list_all good_part path
    \<and> (rel = ''.'' \<or> path = path_parts rel)"
  using assms path_parts_good [of rel]
  by (auto simp: resolve_safe_def Let_def is_absolute_def split: if_splits)

text \<open>No component of a resolved path is a link, and all but the last are directories.\<close>

lemma reparse_prefix_directory:
  "\<not> reparse_on_path nd (ps @ q # qs) \<Longrightarrow> entry_at nd ps = None \<or> (\<exists>kids. entry_at nd ps = Some (Directory kids))"
proof (induction ps arbitrary: nd)
  case Nil
  then show ?case by (cases nd) auto
next
  case (Cons p ps)
  then obtain kids where nd: "nd = Directory kids" by (cases nd) auto
  show ?case
  proof (cases "map_of kids p")
    case None
    then show ?thesis by (simp add: nd)
  next
    case (Some k)
    with Cons.prems nd have "\<not> reparse_on_path k (ps @ q # qs)" by (auto split: node.splits)
    with Cons.IH Some nd show ?thesis by simp
  qed
qed

lemma reparse_no_link: "\<not> reparse_on_path nd path \<Longrightarrow> path \<noteq> [] \<Longrightarrow> entry_at nd path \<noteq> Some Link"
proof (induction nd path rule: reparse_on_path.induct)
  case (2 kids p ps)
  show ?case
  proof (cases "map_of kids p")
    case (Some k)
    with 2 show ?thesis by (cases ps; cases k) auto
  qed simp
qed auto

subsection \<open>Writes\<close>

text \<open>Two trees that agree everywhere but at, below and above a path.\<close>

definition touches_only :: "string list \<Rightarrow> node \<Rightarrow> node \<Rightarrow> bool" where
  "touches_only path nd nd' \<longleftrightarrow>
     (\<forall>q. (\<exists>xs. q = path @ xs) \<or> (\<exists>xs. path = q @ xs) \<or> entry_at nd' q = entry_at nd q)"

lemma touches_only_refl [simp]: "touches_only path nd nd"
  by (simp add: touches_only_def)

lemma touches_only_trans: "touches_only path a b \<Longrightarrow> touches_only path b c \<Longrightarrow> touches_only path a c"
  unfolding touches_only_def by metis

lemma put_entry_touches: "put_entry path new nd = Some nd' \<Longrightarrow> touches_only path nd nd'"
  using put_entry_other unfolding touches_only_def by blast

lemma with_parent_touches: "touches_only path nd (with_parent nd path)"
proof (cases "entry_at nd (butlast path)")
  case None
  show ?thesis
  proof (cases "put_entry (butlast path) (Directory []) nd")
    case (Some nd')
    obtain rest where path: "path = butlast path @ rest" by (cases path rule: rev_cases) auto
    have "entry_at nd' q = entry_at nd q" if q: "\<not> (\<exists>xs. path = q @ xs)" for q
    proof (cases "\<exists>xs. q = butlast path @ xs")
      case True
      then obtain xs where xs: "q = butlast path @ xs" by blast
      with q path have "xs \<noteq> []" by (metis append_Nil2)
      with xs obtain x xs' where x: "q = butlast path @ x # xs'" by (cases xs) auto
      show ?thesis using None put_entry_same [OF Some] by (simp add: x entry_at_append)
    next
      case False
      have "\<not> (\<exists>xs. butlast path = q @ xs)"
        using q path by (metis append.assoc)
      with False put_entry_other [OF Some] show ?thesis by blast
    qed
    with None Some show ?thesis by (auto simp: with_parent_def touches_only_def)
  qed (use None in \<open>simp add: with_parent_def\<close>)
qed (simp add: with_parent_def)

lemma with_parent_target: "path \<noteq> [] \<Longrightarrow> entry_at (with_parent nd path) path = entry_at nd path"
proof -
  assume "path \<noteq> []"
  then have path: "path = butlast path @ [last path]" by simp
  show ?thesis
  proof (cases "entry_at nd (butlast path)")
    case None
    then have "entry_at nd path = None" by (subst path) (simp add: entry_at_append)
    moreover have "entry_at nd' path = None" if "put_entry (butlast path) (Directory []) nd = Some nd'" for nd'
      using put_entry_same [OF that] by (subst path) (simp add: entry_at_append)
    ultimately show ?thesis using None by (auto simp: with_parent_def split: option.split)
  qed (simp add: with_parent_def)
qed

lemma put_file_Inr: "put_file os path content nd = Inr nd' \<Longrightarrow>
    put_entry path (File content) nd = Some nd'"
  by (auto simp: put_file_def split: option.splits node.splits)

lemma finish_write_spec:
  assumes "finish_write os ws path content require_exists op = (res, ws')"
  shows "touches_only path (tree ws) (tree ws') \<and> ws' = ws\<lparr>tree := tree ws'\<rparr>
    \<and> (case res of Inl e \<Rightarrow> False
       | Inr r \<Rightarrow> tr_operation r = op \<and>
           (if tr_ok r then entry_at (tree ws') path = Some (File content)
              \<and> digest_after r = Some (sha_digest os content)
              \<and> (require_exists = Some False \<longrightarrow> entry_at (tree ws) path = None)
              \<and> (require_exists = Some True \<longrightarrow> entry_at (tree ws) path \<noteq> None)
            else entry_at (tree ws') path = entry_at (tree ws) path))"
proof -
  define nd1 where "nd1 = (if parent_is_dir (tree ws) path then tree ws else with_parent (tree ws) path)"
  have t1: "touches_only path (tree ws) nd1" using with_parent_touches by (simp add: nd1_def)
  have e1: "entry_at nd1 path = entry_at (tree ws) path"
    using with_parent_target by (auto simp: nd1_def parent_is_dir_def)
  have put: "touches_only path (tree ws) nd2 \<and> entry_at nd2 path = Some (File content)"
    if "put_file os path content nd1 = Inr nd2" for nd2
    using put_file_Inr [OF that] put_entry_touches put_entry_same touches_only_trans [OF t1] by blast
  show ?thesis
    using assms t1 e1
    by (auto simp: finish_write_def atomic_file_write_def Let_def nd1_def [symmetric] tool_result_of_def
        dest: put split: if_splits sum.splits)
qed


lemma finish_write_Inr: "\<exists>r ws'. finish_write os ws path content re op = (Inr r, ws')"
  by (simp add: finish_write_def split: prod.split)

subsection \<open>All mutations at once\<close>

datatype mutation =
    Do_create string
  | Do_write string
  | Do_replace string string
  | Do_patch "text_patch list"

fun mutate ::
  "os_env \<Rightarrow> rat \<Rightarrow> mutation \<Rightarrow> string \<Rightarrow> string option \<Rightarrow> workspace \<Rightarrow> ws_outcome" where
  "mutate os now (Do_create content) rel token ws = ws_create os now rel content token ws"
| "mutate os now (Do_write content) rel token ws = ws_write os now rel content token ws"
| "mutate os now (Do_replace old new) rel token ws = ws_replace os now rel old new token ws"
| "mutate os now (Do_patch patches) rel token ws = ws_patch os now rel patches token ws"

definition result_ok :: "ws_raise + tool_result \<Rightarrow> bool" where
  "result_ok res = (case res of Inl _ \<Rightarrow> False | Inr r \<Rightarrow> tr_ok r)"

lemma result_ok_simps [simp]:
  "\<not> result_ok (Inl e)" "result_ok (Inr r) = tr_ok r"
  by (simp_all add: result_ok_def)

lemma failed_result_ok [simp]: "\<not> tr_ok (failed_result op err k)"
  by (simp add: failed_result_def tool_result_of_def)

lemma unsafe_path_ok [simp]: "\<not> tr_ok (unsafe_path op)"
  by (simp add: unsafe_path_def)

lemma check_lease_None: "check_lease now token ws = (None, ws1) \<Longrightarrow> ws1 = ws"
  by (auto simp: check_lease_def split: option.splits if_splits)

lemma check_lease_tree: "check_lease now token ws = (e, ws1) \<Longrightarrow> tree ws1 = tree ws \<and> ws_limits ws1 = ws_limits ws"
  by (auto simp: check_lease_def split: option.splits if_splits)

lemma refuse_simps [simp]: "refuse op err ws = (res, ws') \<longleftrightarrow> res = Inr (failed_result op err None) \<and> ws' = ws"
  by (auto simp: refuse_def)

text \<open>An edit either leaves the workspace alone or writes the text it computed.\<close>

definition refused_or_written ::
  "os_env \<Rightarrow> workspace \<Rightarrow> string \<Rightarrow> string \<Rightarrow> ws_outcome \<Rightarrow> bool" where
  "refused_or_written os ws rel op out \<longleftrightarrow>
     (snd out = ws \<and> \<not> result_ok (fst out))
     \<or> (\<exists>path content re. resolve_safe (tree ws) rel = Inr (Some path)
          \<and> length content \<le> max_write_bytes (ws_limits ws)
          \<and> finish_write os ws path content re op = out)"

lemma refused [simp]:
  "refused_or_written os ws rel op (refuse op' err ws)"
  "refused_or_written os ws rel op (Inr (unsafe_path op'), ws)"
  "refused_or_written os ws rel op (Inl e, ws)"
  by (simp_all add: refused_or_written_def refuse_def)

lemma edit_text_refused_or_written:
  assumes "\<And>path content. resolve_safe (tree ws) rel = Inr (Some path) \<Longrightarrow>
    refused_or_written os ws rel op (edit path content ws)"
  shows "refused_or_written os ws rel op (edit_text op rel edit ws)"
proof (cases "resolve_safe (tree ws) rel")
  case (Inr p)
  show ?thesis
  proof (cases p)
    case (Some path)
    with Inr assms show ?thesis
      by (cases "entry_at (tree ws) path") (auto simp: edit_text_def split: node.split)
  qed (use Inr in \<open>simp add: edit_text_def\<close>)
qed (simp add: edit_text_def)

lemma written:
  "resolve_safe (tree ws) rel = Inr (Some path) \<Longrightarrow> length content \<le> max_write_bytes (ws_limits ws)
    \<Longrightarrow> refused_or_written os ws rel op (finish_write os ws path content re op)"
  unfolding refused_or_written_def by blast

lemma mutate_refused_or_written:
  assumes "check_lease now token ws = (None, ws)"
  shows "\<exists>op. refused_or_written os ws rel op (mutate os now m rel token ws)"
proof (cases m)
  case (Do_create content)
  have "refused_or_written os ws rel ''create'' (mutate os now m rel token ws)"
    using assms written by (auto simp: Do_create ws_create_def mutate_file_def split: sum.split option.split)
  then show ?thesis by blast
next
  case (Do_write content)
  have "refused_or_written os ws rel ''write'' (mutate os now m rel token ws)"
    using assms written by (auto simp: Do_write ws_write_def mutate_file_def split: sum.split option.split)
  then show ?thesis by blast
next
  case (Do_replace old new)
  have "refused_or_written os ws rel ''replace'' (mutate os now m rel token ws)"
    using assms by (auto simp: Do_replace ws_replace_def Let_def not_less
        intro!: edit_text_refused_or_written written)
  then show ?thesis by blast
next
  case (Do_patch patches)
  have "refused_or_written os ws rel ''patch'' (mutate os now m rel token ws)"
    using assms by (auto simp: Do_patch ws_patch_def not_less split: option.split sum.split
        intro!: edit_text_refused_or_written written)
  then show ?thesis by blast
qed

lemma mutate_no_lease:
  "check_lease now token ws = (Some err, ws1) \<Longrightarrow>
    \<exists>op. mutate os now m rel token ws = (Inr (failed_result op err None), ws1)"
  by (cases m) (auto simp: ws_create_def ws_write_def mutate_file_def ws_replace_def ws_patch_def refuse_def)

subsection \<open>Text edits\<close>

lemma contains_iff: "contains pat s \<longleftrightarrow> (\<exists>a b. s = a @ pat @ b)"
  by (auto simp: contains_def search_iff starts_with_iff)

lemma str_count_text:
  assumes "old \<noteq> []"
  shows "str_count old [] = 0"
    "str_count old (c # cs) = (if starts_with old (c # cs)
       then Suc (str_count old (drop (length old) (c # cs))) else str_count old cs)"
  using assms by (subst str_count.simps, simp)+

lemma str_count_zero: "old \<noteq> [] \<Longrightarrow> str_count old s = 0 \<longleftrightarrow> \<not> contains old s"
  by (induction s) (simp_all add: str_count_text contains_def starts_with_iff)

text \<open>The first occurrence splits the text; the count after it is one less.\<close>

lemma replace_first_split:
  assumes "old \<noteq> []" "contains old s"
  obtains a b where "s = a @ old @ b" "replace_first old new s = a @ new @ b"
    "str_count old s = Suc (str_count old b)"
  using assms(2)
proof (induction s arbitrary: thesis)
  case Nil
  then show ?case using assms(1) by (simp add: contains_def starts_with_iff)
next
  case (Cons c s)
  show ?case
  proof (cases "starts_with old (c # s)")
    case True
    then obtain b where b: "c # s = old @ b" by (auto simp: starts_with_iff)
    then have "drop (length old) (c # s) = b" by simp
    with True have "replace_first old new (c # s) = new @ b"
      "str_count old (c # s) = Suc (str_count old b)"
      by (simp_all only: replace_first.simps str_count_text [OF assms(1)] if_True)
    with b show ?thesis using Cons.prems(1) [of "[]" b] by simp
  next
    case False
    with Cons.prems(2) have "contains old s" by (simp add: contains_def)
    from Cons.IH [OF _ this] obtain a b where ab: "s = a @ old @ b"
      "replace_first old new s = a @ new @ b" "str_count old s = Suc (str_count old b)" by blast
    with False show ?thesis using Cons.prems(1) [of "c # a" b] assms(1)
      by (simp add: str_count_text)
  qed
qed

lemma edit_text_ok:
  assumes "edit_text op rel edit ws = (Inr r, ws')" "tr_ok r"
  obtains path content where "resolve_safe (tree ws) rel = Inr (Some path)"
    "entry_at (tree ws) path = Some (File content)" "valid_utf8 content"
    "edit path (universal_newlines content) ws = (Inr r, ws')"
  using assms by (auto simp: edit_text_def split: sum.splits option.splits node.splits if_splits)


subsection \<open>Searching\<close>

text \<open>A reported match: a line of a file that resolves safely and is not denied.\<close>

definition good_match :: "os_env \<Rightarrow> workspace \<Rightarrow> string \<Rightarrow> (string \<times> string) list \<Rightarrow> bool" where
  "good_match os ws pat m \<longleftrightarrow>
     (\<exists>rel path content n line. m = [(''path'', rel), (''line'', show_nat n), (''text'', take 200 (strip line))]
        \<and> resolve_safe (tree ws) rel = Inr (Some path) \<and> entry_at (tree ws) path = Some (File content)
        \<and> \<not> denied_file_identity ws path \<and> contains pat line
        \<and> line \<in> set (splitlines (os_lossy os (take (max_search_file_bytes (ws_limits ws)) content))))"

definition search_inv :: "os_env \<Rightarrow> workspace \<Rightarrow> string \<Rightarrow> search_state \<Rightarrow> bool" where
  "search_inv os ws pat st \<longleftrightarrow> list_all (good_match os ws pat) (matches st)
     \<and> length (matches st) \<le> max_search_results (ws_limits ws)
     \<and> (length (matches st) = hits st \<or> stopped st)
     \<and> (stopped st \<longrightarrow> stop_reason st \<noteq> None)"

lemma or_reason_reason [simp]: "\<exists>y. stop_reason (or_reason r st) = Some y"
  by (simp add: or_reason_def split: option.split)

lemma or_reason_inv: "search_inv os ws pat st \<Longrightarrow> search_inv os ws pat (or_reason r st)"
  by (simp add: search_inv_def)

lemma search_lines_inv:
  assumes "resolve_safe (tree ws) rel = Inr (Some path)" "entry_at (tree ws) path = Some (File content)"
    "\<not> denied_file_identity ws path"
    "set lines \<subseteq> set (splitlines (os_lossy os (take (max_search_file_bytes (ws_limits ws)) content)))"
    "search_inv os ws pat st" "\<not> stopped st"
  shows "search_inv os ws pat (search_lines (ws_limits ws) pat rel n lines st)"
  using assms(4-)
proof (induction lines arbitrary: n st)
  case (Cons line lines)
  have "good_match os ws pat [(''path'', rel), (''line'', show_nat n), (''text'', take 200 (strip line))]"
    if "contains pat line"
    using that assms(1-3) Cons.prems(1) unfolding good_match_def by auto
  then show ?case
    using Cons by (auto simp: search_inv_def not_less)
qed simp

lemma search_file_inv:
  assumes "resolve_safe (tree ws) rel = Inr (Some path)" "entry_at (tree ws) path = Some (File content)"
    "\<not> denied_file_identity ws path" "search_inv os ws pat st" "\<not> stopped st"
  shows "search_inv os ws pat (search_file os (ws_limits ws) pat rel content st)"
proof -
  let ?cap = "max_search_file_bytes (ws_limits ws)"
  have "take ?cap (take (?cap + 1) content) = take ?cap content" by simp
  then show ?thesis
    using search_lines_inv [OF assms(1-3) order.refl] assms(4,5) or_reason_inv
    by (auto simp: search_file_def Let_def)
qed

lemma search_loop_inv:
  "search_loop os ws pat stack st = Inr st' \<Longrightarrow> search_inv os ws pat st \<Longrightarrow> search_inv os ws pat st'"
proof (induction os ws pat stack st rule: search_loop.induct)
  case (1 os ws pat stack st)
  show ?case
  proof (cases stack)
    case Nil
    with "1.prems" show ?thesis by (simp add: search_loop.simps [of os ws pat "[]"])
  next
    case (Cons entry rest)
    note unfold = search_loop.simps [of os ws pat "entry # rest" st]
    show ?thesis
    proof (cases "stopped st")
      case True
      with "1.prems" show ?thesis by (simp add: Cons unfold)
    next
      case False
      show ?thesis
      proof (cases "resolve_safe (tree ws) (rel_text entry)")
        case (Inl e)
        with "1.prems"(1) False show ?thesis by (simp add: Cons unfold)
      next
        case (Inr p)
        show ?thesis
        proof (cases p)
          case None
          with "1.prems" "1.IH"(1) [OF Cons False Inr] Inr False show ?thesis by (simp add: Cons unfold)
        next
          case (Some safe)
          note sofar = Inr [unfolded Some]
          have full: "search_inv os ws pat (st\<lparr>stop_reason := r, stopped := True\<rparr>)" if "r \<noteq> None" for r
            using "1.prems"(2) that by (simp add: search_inv_def)
          have stop: "search_inv os ws pat ((or_reason r st)\<lparr>stopped := True\<rparr>)" for r
            using "1.prems"(2) by (simp add: search_inv_def)
          have seen: "search_inv os ws pat (st\<lparr>directories_seen := d\<rparr>)"
            "search_inv os ws pat (st\<lparr>files_seen := d\<rparr>)" for d
            using "1.prems"(2) by (simp_all add: search_inv_def)
          show ?thesis
          proof (cases "entry_at (tree ws) safe")
            case None
            with "1.prems" "1.IH"(2-7) [OF Cons False Inr \<open>p = Some safe\<close>] sofar False show ?thesis
              by (auto simp: Cons unfold)
          next
            case (Some nd)
            show ?thesis
              using "1.prems" sofar False stop seen Some
                "1.IH"(2-7) [OF Cons False Inr \<open>p = Some safe\<close>]
                search_file_inv [OF sofar _ _ seen(2)]
              by (cases nd) (auto simp: Cons unfold split: if_splits)
          qed
        qed
      qed
    qed
  qed
qed


subsection \<open>A sample workspace\<close>

definition sample_os :: os_env where
  "sample_os = \<lparr>os_sha = (\<lambda>s. s), os_dumps = (\<lambda>j. []), os_lossy = (\<lambda>s. s), os_show_secs = (\<lambda>t. []),
     os_environ = Map.empty,
     os_spawn = (\<lambda>nd args cwd env timeout. Ran \<lparr>pr_stdout = ''24.0'', pr_stderr = [],
       pr_returncode = Some 0, pr_timed_out = False, pr_cleanup_error = []\<rparr>),
     os_effect = (\<lambda>args nd. nd), os_write_error = (\<lambda>path. None), os_token = ''token''\<rparr>"

definition sample_ws :: "string \<Rightarrow> workspace" where
  "sample_ws content = \<lparr>tree = Directory [(''f'', File content), (''.env'', File ''SECRET'')],
     root_parts = [''w''], hard_linked = (\<lambda>path. False), ws_limits = default_ws_config,
     held_lease = Some \<lparr>lease_token = ''token'', lease_owner = ''o'', acquired_at = 0, lease_ttl = 30\<rparr>,
     probe_cache = None\<rparr>"

lemma sample_resolve: "resolve_safe (tree (sample_ws c)) ''f'' = Inr (Some [''f''])"
  by (simp add: resolve_safe_def sample_ws_def path_parts_def is_absolute_def backslash_def)

lemma sample_lease: "check_lease 1 (Some ''token'') (sample_ws c) = (None, sample_ws c)"
  by (simp add: check_lease_def sample_ws_def lease_expired_def)

lemma sample_entry: "entry_at (tree (sample_ws c)) [''f''] = Some (File c)"
  by (simp add: sample_ws_def)

lemma sample_not_denied: "\<not> denied_file_identity (sample_ws c) [''f'']"
  by (simp add: denied_file_identity_def sample_ws_def is_sensitive_path_def Let_def casefold_def
      sensitive_filenames_def sensitive_suffixes_def to_lower_def is_upper_def char_in_def ends_with_def)

lemma sample_write:
  "length c' \<le> 100 \<Longrightarrow> finish_write sample_os (sample_ws c) [''f''] c' re ''replace'' = (Inr r, ws') \<Longrightarrow>
    re = Some True \<Longrightarrow> tr_ok r \<and> entry_at (tree ws') [''f''] = Some (File c')"
  by (auto simp: finish_write_def atomic_file_write_def put_file_def parent_is_dir_def Let_def
      sample_os_def sample_ws_def tool_result_of_def)

subsection \<open>Properties\<close>

text \<open>C20: every mutation is confined.  Without a valid lease nothing changes and the result is an
  error.  With one, either the tree is as before or only entries at, above or below the one
  resolved path differ, and that path is relative, has no parent step and crosses no link.
  A mutation that reports success left at that path a file within the write limit.\<close>

theorem workspace_mutation_confined:
  assumes "mutate os now m rel token ws = (res, ws')"
  shows "(case fst (check_lease now token ws) of
       Some err \<Rightarrow> tree ws' = tree ws \<and> \<not> result_ok res
     | None \<Rightarrow>
         tree ws' = tree ws \<and> \<not> result_ok res
         \<or> (\<exists>path content. resolve_safe (tree ws) rel = Inr (Some path) \<and> \<not> is_absolute rel
              \<and> ''..'' \<notin> set path \<and> \<not> reparse_on_path (tree ws) path
              \<and> touches_only path (tree ws) (tree ws')
              \<and> (result_ok res \<longrightarrow> entry_at (tree ws') path = Some (File content)
                   \<and> length content \<le> max_write_bytes (ws_limits ws))))"
proof (cases "check_lease now token ws")
  case (Pair e ws1)
  show ?thesis
  proof (cases e)
    case (Some err)
    with Pair assms mutate_no_lease [of now token ws err ws1 os m rel] check_lease_tree [OF Pair]
    show ?thesis by auto
  next
    case None
    with Pair have c: "check_lease now token ws = (None, ws)" using check_lease_None by metis
    obtain op where "refused_or_written os ws rel op (res, ws')"
      using mutate_refused_or_written [OF c] assms by metis
    then consider "ws' = ws" "\<not> result_ok res"
      | path content re where "resolve_safe (tree ws) rel = Inr (Some path)"
          "length content \<le> max_write_bytes (ws_limits ws)"
          "finish_write os ws path content re op = (res, ws')"
      unfolding refused_or_written_def by auto
    then show ?thesis
    proof cases
      case (2 path content re)
      then show ?thesis
        using c resolve_safe_Some [OF 2(1)] finish_write_spec [OF 2(3)]
        by (auto simp: result_ok_def split: sum.splits if_splits)
    qed (use c in auto)
  qed
qed

theorem workspace_mutation_confined_witness:
  "\<exists>ws' res. mutate sample_os 1 (Do_write ''x'') ''f'' None (sample_ws ''a'') = (res, ws')
     \<and> tree ws' = tree (sample_ws ''a'')"
proof -
  obtain res ws' where m: "mutate sample_os 1 (Do_write ''x'') ''f'' None (sample_ws ''a'') = (res, ws')"
    by (metis surj_pair)
  from workspace_mutation_confined [OF m] m show ?thesis by (auto simp: check_lease_def)
qed

text \<open>Reads are exact and never of a denied file.  A successful read returns the file's bytes
  up to the read limit and flags exactly the files it cut; it is of a safely resolved path
  whose name is not a secret's and which has no second hard link.  Every other read carries a
  failure category and no bytes.\<close>

theorem read_exact_or_refused:
  "case ws_read ws rel of
     Inl e \<Rightarrow> e = Embedded_null
   | Inr r \<Rightarrow>
       if tr_ok r
       then \<exists>path content. resolve_safe (tree ws) rel = Inr (Some path)
              \<and> entry_at (tree ws) path = Some (File content) \<and> \<not> denied_file_identity ws path
              \<and> tr_data r = take (max_read_size (ws_limits ws)) content
              \<and> truncated r = (max_read_size (ws_limits ws) < length content)
              \<and> total_bytes r = length content
       else tr_data r = [] \<and> tr_error_kind r \<noteq> None"
proof (cases "resolve_safe (tree ws) rel")
  case (Inl e)
  then show ?thesis by (auto simp: ws_read_def resolve_safe_def Let_def split: if_splits)
next
  case (Inr p)
  show ?thesis
  proof (cases p)
    case (Some path)
    show ?thesis
      using Inr Some
      by (cases "entry_at (tree ws) path")
        (auto simp: ws_read_def Let_def failed_result_def tool_result_of_def max_def
          split: node.splits if_splits)
  qed (use Inr in \<open>simp add: ws_read_def failed_result_def tool_result_of_def\<close>)
qed

text \<open>A search stays within its limits and never quotes a denied file: at most
  \<^verbatim>\<open>max_search_results\<close> matches are reported, each of them a line, holding the pattern, of a
  safely resolved file that may be read; and when matches were left out the result says why.\<close>

theorem search_confined:
  assumes "ws_search os ws pat rel = Inr r" and "tr_ok r"
  shows "\<exists>ms. tr_data r = os_dumps os (JArr (map (\<lambda>m. JObj (map (\<lambda>(k, v). (k, JStr v)) m)) ms))
     \<and> length ms \<le> max_search_results (ws_limits ws) \<and> list_all (good_match os ws pat) ms
     \<and> (length ms = total_entries r \<or> truncated r \<and> truncation_reason r \<noteq> None)"
proof -
  from assms obtain path st where st: "search_loop os ws pat [path] \<lparr>matches = [], hits = 0,
      files_seen = 0, directories_seen = 0, stop_reason = None, stopped = False\<rparr> = Inr st"
    "tr_data r = os_dumps os (JArr (map (\<lambda>m. JObj (map (\<lambda>(k, v). (k, JStr v)) m)) (matches st)))"
    "truncated r = (stop_reason st \<noteq> None)" "truncation_reason r = stop_reason st"
    "total_entries r = hits st"
    by (auto simp: ws_search_def split: sum.splits option.splits if_splits)
  have "search_inv os ws pat st" by (rule search_loop_inv [OF st(1)]) (simp add: search_inv_def)
  with st(2-) show ?thesis by (auto simp: search_inv_def)
qed

theorem search_confined_witness:
  "\<exists>r. ws_search sample_os (sample_ws ''b'') ''b'' ''f'' = Inr r \<and> tr_ok r"
proof -
  obtain st where st: "search_loop sample_os (sample_ws ''b'') ''b'' [[''f'']] \<lparr>matches = [], hits = 0,
      files_seen = 0, directories_seen = 0, stop_reason = None, stopped = False\<rparr> = Inr st"
    by (simp add: search_loop.simps rel_text_def as_posix_def sample_resolve sample_not_denied
        sample_entry del: entry_at.simps) (simp add: sample_ws_def default_ws_config_def)
  obtain r where r: "ws_search sample_os (sample_ws ''b'') ''b'' ''f'' = Inr r" "tr_ok r"
    using st by (simp add: ws_search_def sample_resolve sample_entry tool_result_of_def del: entry_at.simps)
  from search_confined [OF r] r show ?thesis by blast
qed

text \<open>Replace edits one place.  A successful replace found the old text exactly once (counting
  occurrences that do not overlap) in the text of the file and left the rest of that text as
  it was around the new one.  The text is the file's with every line ending translated to a
  line feed, so a replace in a file with CRLF line endings rewrites all of them.\<close>

theorem replace_is_exact:
  assumes "ws_replace os now rel old new token ws = (Inr r, ws')" and "tr_ok r" and "old \<noteq> []"
  shows "\<exists>path content a b. resolve_safe (tree ws) rel = Inr (Some path)
     \<and> entry_at (tree ws) path = Some (File content)
     \<and> universal_newlines content = a @ old @ b \<and> \<not> contains old b
     \<and> entry_at (tree ws') path = Some (File (a @ new @ b))"
proof -
  from assms have c: "check_lease now token ws = (None, ws)"
    using check_lease_None by (auto simp: ws_replace_def split: prod.splits option.splits)
  from assms(1) have "edit_text ''replace'' rel (\<lambda>path content ws2.
      let count = str_count old content; new_content = replace_first old new content
      in if count = 0 then refuse ''replace'' (''Target string not found in '' @ rel) ws2
         else if 1 < count then refuse ''replace'' (''Ambiguous replacement: '' @ quoted old
            @ '' appears '' @ show_nat count @ '' times in '' @ rel) ws2
         else if max_write_bytes (ws_limits ws2) < length new_content
         then refuse ''replace'' ''Replacement would exceed write size limit'' ws2
         else finish_write os ws2 path new_content (Some True) ''replace'') ws = (Inr r, ws')"
    by (simp add: ws_replace_def c)
  then obtain path content where p:
    "resolve_safe (tree ws) rel = Inr (Some path)" "entry_at (tree ws) path = Some (File content)"
    "str_count old (universal_newlines content) = 1"
    "finish_write os ws path (replace_first old new (universal_newlines content)) (Some True) ''replace''
       = (Inr r, ws')"
    by (rule edit_text_ok [OF _ assms(2)])
      (use assms(2) in \<open>auto simp: Let_def split: if_splits\<close>)
  then have "contains old (universal_newlines content)" 
    using str_count_zero [OF assms(3), of "universal_newlines content"] by simp
  from replace_first_split [OF assms(3) this] obtain a b where ab:
    "universal_newlines content = a @ old @ b"
    "replace_first old new (universal_newlines content) = a @ new @ b"
    "str_count old (universal_newlines content) = Suc (str_count old b)" by metis
  with p(3) str_count_zero [OF assms(3)] have "\<not> contains old b" by simp
  with p ab finish_write_spec [OF p(4)] assms(2) show ?thesis by auto
qed

definition crlf_text :: string where
  "crlf_text = ''a'' @ [CHR 0x0D, CHR 0x0A] @ ''b''"

lemma crlf_replace: "\<exists>r ws'. ws_replace sample_os 1 ''f'' ''b'' ''c'' (Some ''token'') (sample_ws crlf_text)
    = (Inr r, ws') \<and> tr_ok r"
proof -
  have valid: "valid_utf8 crlf_text" by (simp add: valid_utf8_def crlf_text_def byte_in_def)
  have lf: "universal_newlines crlf_text = [CHR ''a'', CHR 0x0A, CHR ''b'']"
    by (simp add: crlf_text_def)
  have count: "str_count ''b'' [CHR ''a'', CHR 0x0A, CHR ''b''] = 1" by (simp add: str_count_text)
  obtain r ws' where w: "finish_write sample_os (sample_ws crlf_text) [''f''] [CHR ''a'', CHR 0x0A, CHR ''c'']
      (Some True) ''replace'' = (Inr r, ws')" using finish_write_Inr by metis
  have "ws_replace sample_os 1 ''f'' ''b'' ''c'' (Some ''token'') (sample_ws crlf_text) = (Inr r, ws')"
    using w by (simp add: ws_replace_def sample_lease edit_text_def sample_resolve sample_entry valid lf
        count Let_def del: entry_at.simps) (simp add: sample_ws_def default_ws_config_def)
  with sample_write [OF _ w] show ?thesis by simp
qed

theorem replace_is_exact_witness:
  "\<exists>r ws' a b. ws_replace sample_os 1 ''f'' ''b'' ''c'' (Some ''token'') (sample_ws crlf_text) = (Inr r, ws')
     \<and> [CHR ''a'', CHR 0x0A, CHR ''b''] = a @ ''b'' @ b
     \<and> entry_at (tree ws') [''f''] = Some (File (a @ ''c'' @ b))"
proof -
  obtain r ws' where r: "ws_replace sample_os 1 ''f'' ''b'' ''c'' (Some ''token'') (sample_ws crlf_text)
      = (Inr r, ws')" "tr_ok r" using crlf_replace by blast
  from replace_is_exact [OF r] obtain path content a b where p:
    "resolve_safe (tree (sample_ws crlf_text)) ''f'' = Inr (Some path)"
    "entry_at (tree (sample_ws crlf_text)) path = Some (File content)"
    "universal_newlines content = a @ ''b'' @ b"
    "entry_at (tree ws') path = Some (File (a @ ''c'' @ b))" by auto
  from p(1) have path: "path = [''f'']" by (simp add: sample_resolve)
  with p(2) have "content = crlf_text" by (simp only: sample_entry option.inject node.inject)
  then have "universal_newlines content = [CHR ''a'', CHR 0x0A, CHR ''b'']" by (simp add: crlf_text_def)
  with p path r show ?thesis by metis
qed


text \<open>A patch is checked as a whole and applied in sequence.  A successful patch found every old
  text in the original text and wrote the result of replacing the first occurrence of each in
  turn; a text that an earlier replacement removed is then passed over without an error, as
  the sample shows.\<close>

theorem patch_applied_in_sequence:
  assumes "ws_patch os now rel patches token ws = (Inr r, ws')" and "tr_ok r"
  shows "\<exists>path content new_content. resolve_safe (tree ws) rel = Inr (Some path)
     \<and> entry_at (tree ws) path = Some (File content) \<and> patches \<noteq> []
     \<and> missing_old 0 (universal_newlines content) patches = None
     \<and> apply_patches patches (universal_newlines content) = Inr new_content
     \<and> entry_at (tree ws') path = Some (File new_content)"
proof -
  from assms have c: "check_lease now token ws = (None, ws)"
    using check_lease_None by (auto simp: ws_patch_def split: prod.splits option.splits)
  from assms have ne: "patches \<noteq> []" by (auto simp: ws_patch_def c)
  have "edit_text ''patch'' rel (\<lambda>path content ws2.
      case missing_old 0 content patches of
        Some i \<Rightarrow> refuse ''patch'' (''Patch '' @ show_nat i @ '': old text not found in '' @ rel) ws2
      | None \<Rightarrow> (case apply_patches patches content of
          Inl e \<Rightarrow> (Inl e, ws2)
        | Inr new_content \<Rightarrow>
            if max_write_bytes (ws_limits ws2) < length new_content
            then refuse ''patch'' ''Patched content would exceed write size limit'' ws2
            else finish_write os ws2 path new_content (Some True) ''patch'')) ws = (Inr r, ws')"
    using assms(1) by (simp add: ws_patch_def c ne)
  then obtain path content new_content where p:
    "resolve_safe (tree ws) rel = Inr (Some path)" "entry_at (tree ws) path = Some (File content)"
    "missing_old 0 (universal_newlines content) patches = None"
    "apply_patches patches (universal_newlines content) = Inr new_content"
    "finish_write os ws path new_content (Some True) ''patch'' = (Inr r, ws')"
    by (rule edit_text_ok [OF _ assms(2)])
      (use assms(2) in \<open>auto split: option.splits sum.splits if_splits\<close>)
  with ne finish_write_spec [OF p(5)] assms(2) show ?thesis by auto
qed

definition clashing_patches :: "text_patch list" where
  "clashing_patches = [(Some ''ab'', Some ''x''), (Some ''b'', Some ''y'')]"

theorem patch_applied_in_sequence_witness:
  "\<exists>r ws'. ws_patch sample_os 1 ''f'' clashing_patches (Some ''token'') (sample_ws ''ab'') = (Inr r, ws')
     \<and> tr_ok r \<and> entry_at (tree ws') [''f''] = Some (File ''x'')"
proof -
  have valid: "valid_utf8 ''ab''" by (simp add: valid_utf8_def byte_in_def)
  have old: "missing_old 0 ''ab'' clashing_patches = None"
    by (simp add: clashing_patches_def contains_def)
  have new: "apply_patches clashing_patches ''ab'' = Inr ''x''" by (simp add: clashing_patches_def)
  obtain r ws' where w: "finish_write sample_os (sample_ws ''ab'') [''f''] ''x'' (Some True) ''patch''
      = (Inr r, ws')" using finish_write_Inr by metis
  have r: "ws_patch sample_os 1 ''f'' clashing_patches (Some ''token'') (sample_ws ''ab'') = (Inr r, ws')"
    using w old new valid
    by (simp add: ws_patch_def sample_lease edit_text_def sample_resolve sample_entry del: entry_at.simps)
      (simp add: clashing_patches_def sample_ws_def default_ws_config_def)
  have ok: "tr_ok r"
    using w by (auto simp: finish_write_def atomic_file_write_def put_file_def parent_is_dir_def Let_def
      sample_os_def sample_ws_def tool_result_of_def)
  from patch_applied_in_sequence [OF r ok] obtain path content new_content where p:
    "resolve_safe (tree (sample_ws ''ab'')) ''f'' = Inr (Some path)"
    "entry_at (tree (sample_ws ''ab'')) path = Some (File content)"
    "apply_patches clashing_patches (universal_newlines content) = Inr new_content"
    "entry_at (tree ws') path = Some (File new_content)" by blast
  from p(1) have path: "path = [''f'']" by (simp add: sample_resolve)
  with p(2) have "content = ''ab''" by (simp only: sample_entry option.inject node.inject)
  then have "universal_newlines content = ''ab''" by simp
  with p new have "new_content = ''x''" by simp
  with p path r ok show ?thesis by metis
qed

lemma acquire_lease_held:
  "acquire_lease os now owner ws = (Some t, ws1) \<Longrightarrow>
    \<exists>l. held_lease ws1 = Some l \<and> lease_token l = t \<and> lease_owner l = owner"
  by (auto simp: acquire_lease_def Let_def split: option.splits if_splits)

text \<open>The lease excludes.  While a granted lease has not expired, no other owner gets one, its
  own holder is given the same token again, only that token passes the check, and releasing
  another token does not free it.\<close>

theorem lease_mutual_exclusion:
  assumes "acquire_lease os now owner ws = (Some t, ws1)"
    and "case held_lease ws1 of None \<Rightarrow> False | Some l \<Rightarrow> \<not> lease_expired later l"
  shows "acquire_lease os' later owner ws1 = (Some t, ws1)
    \<and> (other \<noteq> owner \<longrightarrow> acquire_lease os' later other ws1 = (None, ws1))
    \<and> check_lease later (Some t') ws1 = (if t' = t then None else Some ''Invalid lease token'', ws1)
    \<and> held_lease (release_lease t' ws1) = (if t' = t then None else held_lease ws1)"
proof -
  obtain l where l: "held_lease ws1 = Some l" "lease_token l = t" "lease_owner l = owner"
    using acquire_lease_held [OF assms(1)] by blast
  with assms(2) show ?thesis
    by (simp add: acquire_lease_def check_lease_def release_lease_def Let_def)
qed

theorem lease_mutual_exclusion_witness:
  "acquire_lease sample_os 20 ''p'' (sample_ws []) = (None, sample_ws [])"
proof -
  have "acquire_lease sample_os 10 ''o'' (sample_ws []) = (Some ''token'', sample_ws [])"
    by (simp add: acquire_lease_def sample_ws_def lease_expired_def)
  moreover have "case held_lease (sample_ws []) of None \<Rightarrow> False | Some l \<Rightarrow> \<not> lease_expired 20 l"
    by (simp add: sample_ws_def lease_expired_def)
  ultimately show ?thesis using lease_mutual_exclusion [where other = "''p''"] by fastforce
qed

lemma run_command_total:
  "args \<noteq> [] \<Longrightarrow> 0 \<le> timeout \<Longrightarrow> 0 \<le> max_output \<Longrightarrow>
    \<exists>r. run_command spawn lossy show_secs environ args cwd allow timeout max_output = Inr r"
  by (simp add: run_command_def Let_def split: spawn_result.split prod.split)

lemma docker_available_cache:
  "docker_available lossy probe cache = ((a, d), cache') \<Longrightarrow> cache' = Some (a, d)"
  by (auto simp: docker_available_def Let_def split: option.splits)

text \<open>Docker isolation fails closed.  A command profile with Docker isolation only ever starts
  \<^verbatim>\<open>docker run\<close> without a network on the profile's validated image; when the probe found no
  Docker nothing is started at all and the result is an error.\<close>

theorem docker_isolation_fails_closed:
  assumes "execute_command os p ws = (res, ws')" and "cp_isolation p = Docker"
  shows "(tree ws' = tree ws
      \<or> (\<exists>args img. tree ws' = os_effect os args (tree ws) \<and> img = cp_docker_image p
           \<and> validate_docker_image img = None \<and> take 2 args = [''docker'', ''run'']
           \<and> ''--network'' # ''none'' # drop 6 args = drop 4 args \<and> (\<exists>pre. args = pre @ img # cp_argv p)))
    \<and> (case probe_cache ws' of
         Some (False, detail) \<Rightarrow> tree ws' = tree ws \<and> \<not> result_ok res | _ \<Rightarrow> True)"
proof -
  have wrapped: "validate_docker_image img = None \<and> take 2 args = [''docker'', ''run'']
      \<and> ''--network'' # ''none'' # drop 6 args = drop 4 args \<and> (\<exists>pre. args = pre @ img # av)"
    if "wrap_docker_argv av root img c = Inr args" for av root img c args
    using that by (auto simp: wrap_docker_argv_def split: option.splits)
  obtain probe where probe: "run_command (os_spawn os (tree ws)) (os_lossy os) (os_show_secs os)
      (os_environ os) [''docker'', ''version'', ''--format'', ''{{.Server.Version}}''] None [''PATH''] 10 4096
      = Inr probe"
    using run_command_total by (metis list.distinct(1) zero_le_numeral)
  obtain available detail where d:
    "docker_available (os_lossy os) probe (probe_cache ws) = ((available, detail), Some (available, detail))"
    using docker_available_cache by (metis surj_pair)
  let ?ws1 = "ws\<lparr>probe_cache := Some (available, detail)\<rparr>"
  show ?thesis
  proof (cases available)
    case False
    then show ?thesis using assms probe d by (auto simp: execute_command_def Let_def)
  next
    case True
    show ?thesis
    proof (cases "wrap_docker_argv (cp_argv p) (root_text ws) (cp_docker_image p)
        (Some (''northstack-'' @ os_token os))")
      case (Inl e)
      then show ?thesis using assms probe d True by (auto simp: execute_command_def Let_def)
    next
      case (Inr args)
      have "ws' = ?ws1\<lparr>tree := os_effect os args (tree ws)\<rparr>"
        using assms probe d True Inr
        by (auto simp: execute_command_def Let_def spawn_in_def split: sum.splits if_splits)
      with wrapped [OF Inr] True show ?thesis by auto
    qed
  qed
qed

definition docker_profile :: command_profile where
  "docker_profile = \<lparr>cp_name = ''t'', cp_argv = [''true''], cp_timeout = 1, cp_max_output = 10,
     cp_env_allowlist = [], workspace_cwd = True, cp_isolation = Docker, cp_docker_image = ''img''\<rparr>"

theorem docker_isolation_fails_closed_witness:
  "\<not> result_ok (fst (execute_command sample_os docker_profile
     ((sample_ws [])\<lparr>probe_cache := Some (False, ''down'')\<rparr>)))"
proof -
  let ?ws = "(sample_ws [])\<lparr>probe_cache := Some (False, ''down'')\<rparr>"
  obtain res ws' where r: "execute_command sample_os docker_profile ?ws = (res, ws')"
    by (metis surj_pair)
  have "probe_cache ws' = Some (False, ''down'')"
    using r by (auto simp: execute_command_def docker_profile_def docker_available_def Let_def
        refuse_def run_command_def sample_os_def split: prod.splits)
  with docker_isolation_fails_closed [OF r] r show ?thesis by (simp add: docker_profile_def)
qed

end
