(* ===== verification/Hard_Gates.thy ===== *)
theory Hard_Gates
  imports Artifacts Tree_Digest Workspace_Properties Release_Law
begin

section \<open>The hard-gate verifier (application/verification/hard_gates.py)\<close>

text \<open>
  \<^verbatim>\<open>HardGateVerifier\<close>: one check per kind of acceptance criterion, run on the workspace and the
  artifact store, and the loop that turns a crash of a checker into a failed result.  The state is
  the pair of both stores.  The environment holds the operating system, the command profiles, what
  the disk does with a write, the text of an exception, and the two libraries the checks call
  (\<^verbatim>\<open>json\<close> and \<^verbatim>\<open>jsonschema\<close>): an answer, a documented refusal that the code catches, or an
  exception it does not.
\<close>

record gate_state =
  gs_ws :: workspace
  gs_store :: artifact_store

datatype 'a answer = Answered 'a | Declined string | Crashed string

datatype gate_crash =
    Workspace_raised ws_raise
  | Store_raised artifact_error
  | Library_raised string

record gate_env =
  ge_os :: os_env
  ge_profiles :: "string \<rightharpoonup> command_profile"
  ge_limits :: tree_limits
  ge_disk :: "string \<Rightarrow> string option"
  ge_loads :: "string \<Rightarrow> json answer"
  ge_check_schema :: "json \<Rightarrow> unit answer"
  ge_validate :: "json \<Rightarrow> json \<Rightarrow> unit answer"
  ge_dump :: "(string \<times> json) list \<Rightarrow> string"
  ge_repr :: "string \<Rightarrow> string"
  ge_tree_text :: "tree_error \<Rightarrow> string"
  ge_store_text :: "artifact_error \<Rightarrow> string"
  ge_crash_name :: "gate_crash \<Rightarrow> string"
  ge_crash_text :: "gate_crash \<Rightarrow> string"

type_synonym gate_check = "(gate_crash + hard_check_result) \<times> gate_state"

definition check_result :: "nat \<Rightarrow> criterion_kind \<Rightarrow> bool \<Rightarrow> string \<Rightarrow> artifact_ref option \<Rightarrow> hard_check_result" where
  "check_result i k ok msg ref =
     \<lparr>criterion_index = i, hcr_kind = k, hcr_passed = ok, hcr_detail = msg, evidence_ref = ref\<rparr>"

definition gate_hash :: "gate_env \<Rightarrow> string \<Rightarrow> string" where
  "gate_hash env = hexdigest (os_sha (ge_os env))"

text \<open>Storing a piece of evidence; a failed write leaves the check through an exception.\<close>

definition keep_evidence ::
  "gate_env \<Rightarrow> string \<Rightarrow> string \<Rightarrow> (artifact_ref \<Rightarrow> hard_check_result) \<Rightarrow> gate_state \<Rightarrow> gate_check" where
  "keep_evidence env media content result st =
     (case write_artifact (gate_hash env) (ge_disk env) media content (gs_store st) of
        (Inl e, store) \<Rightarrow> (Inl (Store_raised e), st\<lparr>gs_store := store\<rparr>)
      | (Inr ref, store) \<Rightarrow> (Inr (result ref), st\<lparr>gs_store := store\<rparr>))"

subsection \<open>The checks\<close>

text \<open>\<^verbatim>\<open>CommandEvidence.model_dump_json\<close>.\<close>

definition command_evidence :: "gate_env \<Rightarrow> tool_result \<Rightarrow> string" where
  "command_evidence env r =
     ge_dump env [(''stdout'', JStr (os_lossy (ge_os env) (tr_data r))), (''ok'', JBool (tr_ok r)),
                  (''error'', JStr (tr_error r))]"

definition check_command :: "gate_env \<Rightarrow> string \<Rightarrow> int \<Rightarrow> nat \<Rightarrow> gate_state \<Rightarrow> gate_check" where
  "check_command env cmd_name expected i st =
     (case (if cmd_name = [] then None else ge_profiles env cmd_name) of
        None \<Rightarrow> (Inr (check_result i COMMAND False (''no command profile for '' @ quoted cmd_name) None), st)
      | Some profile \<Rightarrow>
          (case execute_command (ge_os env) profile (gs_ws st) of
             (Inl e, ws) \<Rightarrow> (Inl (Workspace_raised e), st\<lparr>gs_ws := ws\<rparr>)
           | (Inr r, ws) \<Rightarrow>
               (let ok = (tr_exit_code r = Some expected);
                    actual = (case tr_exit_code r of None \<Rightarrow> ''not started'' | Some n \<Rightarrow> show_int n)
                in keep_evidence env ''application/json'' (command_evidence env r)
                     (\<lambda>ref. check_result i COMMAND ok
                        (if \<not> ok then ''command '' @ quoted cmd_name @ '' exited '' @ actual
                           @ ''; expected '' @ show_int expected
                         else ''command '' @ quoted cmd_name @ '' exited '' @ actual @ '' as expected'')
                        (Some ref))
                     (st\<lparr>gs_ws := ws\<rparr>))))"

definition check_tree_digest :: "gate_env \<Rightarrow> string \<Rightarrow> string \<Rightarrow> nat \<Rightarrow> gate_state \<Rightarrow> gate_check" where
  "check_tree_digest env path expected i st =
     (case compute_tree_digest (os_sha (ge_os env)) (ge_limits env) (tree (gs_ws st)) path of
        Inl e \<Rightarrow> (Inr (check_result i TREE_DIGEST False
          (''tree digest error for '' @ quoted path @ '': '' @ ge_tree_text env e) None), st)
      | Inr actual \<Rightarrow>
          (Inr (check_result i TREE_DIGEST (actual = expected)
             (if actual = expected then ''tree '' @ quoted path @ '' matches compiled digest''
              else ''tree '' @ quoted path @ '' changed since compile (expected '' @ take 16 expected
                @ ''..., got '' @ take 16 actual @ ''...)'') None), st))"

definition check_file_diff ::
  "gate_env \<Rightarrow> string \<Rightarrow> bool \<Rightarrow> string option \<Rightarrow> string option \<Rightarrow> string option \<Rightarrow> nat \<Rightarrow> gate_state \<Rightarrow> gate_check" where
  "check_file_diff env path wanted hash needle exact i st =
     (let result = (\<lambda>ok msg ref. check_result i FILE_DIFF ok (''file '' @ quoted path @ msg) ref);
          reject = (\<lambda>msg. (Inr (result False msg None), st))
      in case ws_read (gs_ws st) path of
           Inl e \<Rightarrow> (Inl (Workspace_raised e), st)
         | Inr r \<Rightarrow>
             (let category = (if truthy (tr_error_kind r) = [] then ''unknown_error'' else truthy (tr_error_kind r));
                  content = tr_data r
              in if \<not> tr_ok r then
                   (if \<not> wanted \<and> category = ''not_found''
                    then (Inr (result True '' correctly absent'' None), st)
                    else reject ('' read failed ('' @ category @ ''): '' @ tr_error r))
                 else if \<not> wanted then reject '' exists but must be absent''
                 else if truncated r then
                   reject ('' read truncated: observed '' @ show_nat (length content) @ '' of ''
                     @ show_nat (total_bytes r) @ '' bytes ('' @ truthy (truncation_reason r) @ '')'')
                 else if truthy hash \<noteq> [] \<and> gate_hash env content \<noteq> truthy hash then
                   reject ('' hash mismatch: expected '' @ take 16 (truthy hash) @ ''..., got ''
                     @ take 16 (gate_hash env content) @ ''...'')
                 else if \<not> valid_utf8 content then reject '' is not valid UTF-8''
                 else if exact \<noteq> None \<and> exact \<noteq> Some content then
                   reject ('' content mismatch: expected exact '' @ ge_repr env (truthy exact))
                 else if needle \<noteq> None \<and> \<not> contains (truthy needle) content then
                   reject ('' missing required content: '' @ ge_repr env (truthy needle))
                 else keep_evidence env ''application/octet-stream'' content
                        (\<lambda>ref. result True '' check passed'' (Some ref)) st))"

text \<open>A digest that does not fit \<^verbatim>\<open>ArtifactRef\<close>, and every error of the store's read, is caught.\<close>

definition check_schema ::
  "gate_env \<Rightarrow> string \<Rightarrow> (string \<times> json) list \<Rightarrow> nat \<Rightarrow> string \<Rightarrow> gate_state \<Rightarrow> gate_check" where
  "check_schema env contract_digest schema i runtime_digest st =
     (let d = (if runtime_digest \<noteq> [] then runtime_digest else contract_digest);
          result = (\<lambda>ok msg. (Inr (check_result i SCHEMA ok msg None), st))
      in if d = [] \<or> schema = [] then result False ''missing artifact_digest or json_schema''
         else case read_by_digest (gate_hash env) (gs_store st) d of
           Inl e \<Rightarrow> result False (''artifact read/parse failed: '' @ ge_store_text env e)
         | Inr content \<Rightarrow>
             (case ge_loads env content of
                Crashed m \<Rightarrow> (Inl (Library_raised m), st)
              | Declined m \<Rightarrow> result False (''artifact read/parse failed: '' @ m)
              | Answered data \<Rightarrow>
                  (case ge_check_schema env (JObj schema) of
                     Crashed m \<Rightarrow> (Inl (Library_raised m), st)
                   | Declined m \<Rightarrow> result False (''invalid JSON schema: '' @ take 200 m)
                   | Answered _ \<Rightarrow>
                       (case ge_validate env (JObj schema) data of
                          Crashed m \<Rightarrow> (Inl (Library_raised m), st)
                        | Declined m \<Rightarrow> result False (''candidate failed schema: '' @ take 200 m)
                        | Answered _ \<Rightarrow> result True ''schema validation passed''))))"

definition check_policy :: "gate_env \<Rightarrow> string \<Rightarrow> string list \<Rightarrow> nat \<Rightarrow> string list \<Rightarrow> gate_state \<Rightarrow> gate_check" where
  "check_policy env name forbidden i tools_used st =
     (if name = ''forbidden_tools'' then
        (let violations = filter (\<lambda>t. t \<in> set forbidden) tools_used
         in (Inr (check_result i POLICY (length violations = 0)
               (if violations \<noteq> []
                then ''forbidden tools: ['' @ str_join '', '' (map (ge_repr env) violations) @ '']''
                else ''policy ok'') None), st))
      else (Inr (check_result i POLICY False (''unsupported policy check '' @ quoted name) None), st))"

fun check_criterion ::
  "gate_env \<Rightarrow> acceptance_criterion \<Rightarrow> nat \<Rightarrow> string \<Rightarrow> string list \<Rightarrow> gate_state \<Rightarrow> gate_check" where
  "check_criterion env (CommandCriterion _ n code) i ev tools st = check_command env n code i st"
| "check_criterion env (FileDiffCriterion _ p wanted h needle exact) i ev tools st =
     check_file_diff env p wanted h needle exact i st"
| "check_criterion env (TreeDigestCriterion _ p h) i ev tools st = check_tree_digest env p h i st"
| "check_criterion env (SchemaCriterion _ d schema) i ev tools st = check_schema env d schema i ev st"
| "check_criterion env (PolicyCriterion _ n forbidden) i ev tools st = check_policy env n forbidden i tools st"
| "check_criterion env (SoftRubricCriterion _ _) i ev tools st =
     (Inr (check_result i SOFT_RUBRIC True ''not a hard gate; evaluated by the soft rubric'' None), st)"

subsection \<open>The loop\<close>

definition crash_result :: "gate_env \<Rightarrow> nat \<Rightarrow> acceptance_criterion \<Rightarrow> gate_crash \<Rightarrow> hard_check_result" where
  "crash_result env i c e = check_result i (criterion_kind_of c) False
     (''checker crashed: '' @ ge_crash_name env e @ '': '' @ take 200 (ge_crash_text env e)) None"

fun verify_from ::
  "gate_env \<Rightarrow> (nat \<rightharpoonup> string) \<Rightarrow> string list \<Rightarrow> nat \<Rightarrow> acceptance_criterion list \<Rightarrow> gate_state
     \<Rightarrow> hard_check_result list \<times> gate_state" where
  "verify_from env digests tools i [] st = ([], st)"
| "verify_from env digests tools i (c # cs) st =
     (case check_criterion env c i (dict_get digests i []) tools st of
        (checked, st1) \<Rightarrow>
          (let r = (case checked of Inl e \<Rightarrow> crash_result env i c e | Inr r \<Rightarrow> r);
               (rs, st2) = verify_from env digests tools (Suc i) cs st1
           in (r # rs, st2)))"

definition verify_gates ::
  "gate_env \<Rightarrow> work_contract \<Rightarrow> (nat \<rightharpoonup> string) \<Rightarrow> string list \<Rightarrow> gate_state \<Rightarrow> hard_check_result list \<times> gate_state" where
  "verify_gates env wc digests tools st = verify_from env digests tools 0 (acceptance_criteria wc) st"

subsection \<open>What the loop returns\<close>

text \<open>The evidence a result refers to is in the store and intact.\<close>

definition evidence_intact :: "gate_env \<Rightarrow> gate_state \<Rightarrow> hard_check_result \<Rightarrow> bool" where
  "evidence_intact env st r =
     (case evidence_ref r of None \<Rightarrow> True
      | Some ref \<Rightarrow> verify_artifact (gate_hash env) (gs_store st) ref)"

definition store_grows :: "gate_env \<Rightarrow> gate_state \<Rightarrow> gate_state \<Rightarrow> bool" where
  "store_grows env st st' \<longleftrightarrow>
     (\<forall>h c. intact_blob (gate_hash env) (gs_store st) h = Some c
        \<longrightarrow> intact_blob (gate_hash env) (gs_store st') h = Some c)"

definition check_ok :: "gate_env \<Rightarrow> nat \<Rightarrow> criterion_kind \<Rightarrow> gate_state \<Rightarrow> gate_check \<Rightarrow> bool" where
  "check_ok env i k st out =
     (case out of (res, st') \<Rightarrow> store_grows env st st' \<and>
       (case res of Inl e \<Rightarrow> True
        | Inr r \<Rightarrow> criterion_index r = i \<and> hcr_kind r = k \<and> evidence_intact env st' r))"

lemma check_result_simps [simp]:
  "criterion_index (check_result i k ok t ref) = i" "hcr_kind (check_result i k ok t ref) = k"
  "hcr_passed (check_result i k ok t ref) = ok" "evidence_ref (check_result i k ok t ref) = ref"
  by (simp_all add: check_result_def)

lemma store_grows_refl [intro, simp]:
  "store_grows env st st" "store_grows env st (st\<lparr>gs_ws := ws\<rparr>)"
  by (simp_all add: store_grows_def)

lemma store_grows_trans: "store_grows env a b \<Longrightarrow> store_grows env b c \<Longrightarrow> store_grows env a c"
  by (simp add: store_grows_def)

lemma store_grows_evidence:
  "store_grows env st st' \<Longrightarrow> evidence_intact env st r \<Longrightarrow> evidence_intact env st' r"
  by (auto simp: evidence_intact_def verify_artifact_def blob_matches_intact store_grows_def
      split: option.splits)

lemma check_ok_simps [simp]:
  "check_ok env i k st (Inl e, st') = store_grows env st st'"
  "check_ok env i k st (Inr (check_result j k' ok t None), st')
     = (store_grows env st st' \<and> j = i \<and> k' = k)"
  by (auto simp: check_ok_def evidence_intact_def)

lemma keep_evidence_ok:
  assumes "store_grows env st st1"
    and "\<And>ref. criterion_index (result ref) = i \<and> hcr_kind (result ref) = k \<and> evidence_ref (result ref) = Some ref"
  shows "check_ok env i k st (keep_evidence env media content result st1)"
proof -
  obtain res store where w: "write_artifact (gate_hash env) (ge_disk env) media content (gs_store st1) = (res, store)"
    by fastforce
  have "store_grows env st1 (st1\<lparr>gs_store := store\<rparr>)"
    using artifacts.put_keeps [OF w] by (simp add: store_grows_def)
  then have grows: "store_grows env st (st1\<lparr>gs_store := store\<rparr>)"
    using assms(1) store_grows_trans by blast
  show ?thesis
  proof (cases res)
    case (Inr ref)
    then have "verify_artifact (gate_hash env) store ref"
      using artifacts.put_holds [of _ _ media content "gs_store st1" ref store] w
      by (simp add: verify_artifact_def blob_matches_intact artifacts.holds_ref_def)
    with w Inr grows assms(2) show ?thesis
      by (simp add: keep_evidence_def check_ok_def evidence_intact_def)
  qed (use w grows in \<open>simp add: keep_evidence_def\<close>)
qed

lemma check_command_ok: "check_ok env i COMMAND st (check_command env n code i st)"
  by (auto simp: check_command_def Let_def intro!: keep_evidence_ok split: option.split prod.split sum.split)

lemma check_file_diff_ok: "check_ok env i FILE_DIFF st (check_file_diff env p w h needle exact i st)"
  by (cases "ws_read (gs_ws st) p") (auto simp: check_file_diff_def Let_def intro!: keep_evidence_ok)

lemma check_tree_digest_ok: "check_ok env i TREE_DIGEST st (check_tree_digest env p h i st)"
  by (simp add: check_tree_digest_def split: sum.split)

lemma check_schema_ok: "check_ok env i SCHEMA st (check_schema env d schema i ev st)"
  by (simp add: check_schema_def Let_def split: sum.split answer.split)

lemma check_policy_ok: "check_ok env i POLICY st (check_policy env n forbidden i tools st)"
  by (simp add: check_policy_def Let_def)

lemmas checks_ok = check_command_ok check_file_diff_ok check_tree_digest_ok check_schema_ok check_policy_ok

lemma check_criterion_ok:
  "check_ok env i (criterion_kind_of c) st (check_criterion env c i ev tools st)"
  by (cases c) (simp_all add: checks_ok)

lemma verify_from_ok:
  assumes "verify_from env digests tools i cs st = (rs, st')"
  shows "map criterion_index rs = [i..<i + length cs] \<and> map hcr_kind rs = map criterion_kind_of cs
    \<and> store_grows env st st' \<and> list_all (evidence_intact env st') rs"
  using assms
proof (induction cs arbitrary: i st rs st')
  case (Cons c cs)
  obtain checked st1 where c1: "check_criterion env c i (dict_get digests i []) tools st = (checked, st1)"
    by fastforce
  obtain rs2 st2 where v: "verify_from env digests tools (Suc i) cs st1 = (rs2, st2)" by fastforce
  define r where "r = (case checked of Inl e \<Rightarrow> crash_result env i c e | Inr r \<Rightarrow> r)"
  from check_criterion_ok [of env i c st "dict_get digests i []" tools, unfolded c1]
  have r: "store_grows env st st1" "criterion_index r = i" "hcr_kind r = criterion_kind_of c"
    "evidence_intact env st1 r"
    by (auto simp: check_ok_def r_def crash_result_def evidence_intact_def split: sum.splits)
  have out: "rs = r # rs2" "st' = st2" using Cons.prems by (simp_all add: c1 v r_def)
  from Cons.IH [OF v] r out show ?case
    by (auto simp: upt_conv_Cons simp del: upt_Suc intro: store_grows_trans store_grows_evidence)
qed simp

subsection \<open>What a passed check means\<close>

text \<open>The condition a criterion states, of the workspace and store its check ran on.\<close>

fun file_as_wanted ::
  "gate_env \<Rightarrow> string \<Rightarrow> bool \<Rightarrow> string option \<Rightarrow> string option \<Rightarrow> string option \<Rightarrow> workspace \<Rightarrow> bool" where
  "file_as_wanted env p wanted hash needle exact ws =
     (case resolve_safe (tree ws) p of
        Inr (Some path) \<Rightarrow>
          (case entry_at (tree ws) path of
             None \<Rightarrow> \<not> wanted
           | Some (File content) \<Rightarrow>
               wanted \<and> \<not> denied_file_identity ws path \<and> length content \<le> max_read_size (ws_limits ws)
               \<and> valid_utf8 content
               \<and> (case hash of None \<Rightarrow> True | Some h \<Rightarrow> h = [] \<or> gate_hash env content = h)
               \<and> (case exact of None \<Rightarrow> True | Some e \<Rightarrow> content = e)
               \<and> (case needle of None \<Rightarrow> True | Some n \<Rightarrow> contains n content)
           | Some _ \<Rightarrow> False)
      | _ \<Rightarrow> False)"

fun gate_condition :: "gate_env \<Rightarrow> acceptance_criterion \<Rightarrow> string \<Rightarrow> string list \<Rightarrow> gate_state \<Rightarrow> bool" where
  "gate_condition env (CommandCriterion _ n code) ev tools st =
     (n \<noteq> [] \<and> (case ge_profiles env n of None \<Rightarrow> False
        | Some p \<Rightarrow> (case fst (execute_command (ge_os env) p (gs_ws st)) of
            Inl _ \<Rightarrow> False | Inr r \<Rightarrow> tr_exit_code r = Some code)))"
| "gate_condition env (FileDiffCriterion _ p wanted hash needle exact) ev tools st =
     file_as_wanted env p wanted hash needle exact (gs_ws st)"
| "gate_condition env (TreeDigestCriterion _ p h) ev tools st =
     (compute_tree_digest (os_sha (ge_os env)) (ge_limits env) (tree (gs_ws st)) p = Inr h)"
| "gate_condition env (SchemaCriterion _ d schema) ev tools st =
     (schema \<noteq> [] \<and> (case read_by_digest (gate_hash env) (gs_store st) (if ev = [] then d else ev) of
        Inl _ \<Rightarrow> False
      | Inr content \<Rightarrow> (case ge_loads env content of
          Answered data \<Rightarrow> ge_check_schema env (JObj schema) = Answered ()
            \<and> ge_validate env (JObj schema) data = Answered ()
        | _ \<Rightarrow> False)))"
| "gate_condition env (PolicyCriterion _ n forbidden) ev tools st =
     (n = ''forbidden_tools'' \<and> set tools \<inter> set forbidden = {})"
| "gate_condition env (SoftRubricCriterion _ _) ev tools st = True"

lemma keep_evidence_passed:
  assumes "keep_evidence env media content (\<lambda>ref. check_result i k ok msg (Some ref)) st = (Inr r, st')"
  shows "hcr_passed r = ok"
  using assms by (auto simp: keep_evidence_def split: prod.splits sum.splits)

lemma check_file_diff_passed:
  assumes "check_file_diff env p wanted hash needle exact i st = (Inr r, st')"
  shows "hcr_passed r = file_as_wanted env p wanted hash needle exact (gs_ws st)"
proof (cases "resolve_safe (tree (gs_ws st)) p")
  case (Inl e)
  with assms show ?thesis by (simp add: check_file_diff_def ws_read_def Let_def)
next
  case (Inr found)
  show ?thesis
  proof (cases found)
    case None
    with Inr assms show ?thesis
      by (auto simp: check_file_diff_def ws_read_def failed_result_def tool_result_of_def truthy_def Let_def)
  next
    case (Some path)
    show ?thesis
    proof (cases "entry_at (tree (gs_ws st)) path")
      case None
      with Inr Some assms show ?thesis
        by (auto simp: check_file_diff_def ws_read_def failed_result_def tool_result_of_def truthy_def Let_def)
    next
      case entry: (Some nd)
      show ?thesis
      proof (cases "\<exists>content. nd = File content \<and> \<not> denied_file_identity (gs_ws st) path")
        case False
        with Inr Some entry assms show ?thesis
          by (auto simp: check_file_diff_def ws_read_def failed_result_def tool_result_of_def truthy_def Let_def
              split: node.splits if_splits)
      next
        case True
        then obtain content where c: "nd = File content" "\<not> denied_file_identity (gs_ws st) path" by blast
        let ?cap = "max_read_size (ws_limits (gs_ws st))"
        have read: "ws_read (gs_ws st) p = Inr ((tool_result_of True ''read'')\<lparr>tr_data := take ?cap content,
            truncated := (?cap < length content),
            truncation_reason := (if ?cap < length content then Some ''byte_limit'' else None),
            total_bytes := length content\<rparr>)"
          using Inr Some entry c by (auto simp: ws_read_def Let_def max_def)
        show ?thesis
        proof (cases "?cap < length content")
          case True
          with Inr Some entry c read assms show ?thesis
            by (auto simp: check_file_diff_def Let_def tool_result_of_def split: if_splits)
        next
          case False
          with Inr Some entry c read assms show ?thesis
            by (auto simp: check_file_diff_def Let_def tool_result_of_def truthy_def
                split: if_splits option.splits dest!: keep_evidence_passed)
        qed
      qed
    qed
  qed
qed

lemma check_command_passed:
  assumes "check_command env n code i st = (Inr r, st')"
  shows "hcr_passed r = gate_condition env (CommandCriterion d n code) ev tools st"
  using assms
  by (auto simp: check_command_def Let_def dest!: keep_evidence_passed split: if_splits option.splits prod.splits sum.splits)

lemma check_schema_passed:
  assumes "check_schema env d schema i ev st = (Inr r, st')"
  shows "hcr_passed r = gate_condition env (SchemaCriterion desc d schema) ev tools st"
proof -
  define D where "D = (if ev = [] then d else ev)"
  have D: "(if ev \<noteq> [] then ev else d) = D" by (simp add: D_def)
  note assms' = assms [unfolded check_schema_def D Let_def]
  have "hcr_passed r = (schema \<noteq> [] \<and> (case read_by_digest (gate_hash env) (gs_store st) D of
        Inl _ \<Rightarrow> False
      | Inr content \<Rightarrow> (case ge_loads env content of
          Answered data \<Rightarrow> ge_check_schema env (JObj schema) = Answered ()
            \<and> ge_validate env (JObj schema) data = Answered ()
        | _ \<Rightarrow> False)))"
  proof (cases "D = [] \<or> schema = []")
    case True
    have "read_by_digest (gate_hash env) (gs_store st) [] = Inl (Artifact_bad_digest [])"
      by (simp add: read_by_digest_def valid_digest_def)
    with True assms' show ?thesis by (cases "D = []") auto
  next
    case False
    with assms' show ?thesis by (auto split: sum.splits answer.splits)
  qed
  then show ?thesis by (simp add: D_def)
qed

lemma passed_check_iff:
  assumes "check_criterion env c i ev tools st = (Inr r, st')"
  shows "hcr_passed r = gate_condition env c ev tools st"
proof (cases c)
  case (CommandCriterion d n code)
  with assms check_command_passed [of env n code i st r st' d ev tools] show ?thesis by simp
next
  case (FileDiffCriterion d p wanted hash needle exact)
  with assms check_file_diff_passed show ?thesis by simp
next
  case (TreeDigestCriterion d p h)
  with assms show ?thesis by (auto simp: check_tree_digest_def split: sum.splits)
next
  case (SchemaCriterion d dg schema)
  with assms check_schema_passed [of env dg schema i ev st r st' d tools] show ?thesis by simp
next
  case (PolicyCriterion d n forbidden)
  with assms show ?thesis
    by (auto simp: check_policy_def Let_def filter_empty_conv split: if_splits)
next
  case (SoftRubricCriterion d q)
  with assms show ?thesis by auto
qed

text \<open>C6: a check passes exactly when its criterion holds.  For every kind of criterion, when the
  checker returns, its verdict is the condition of the criterion on the workspace, the artifact
  store and the tool audit it was given: the expected exit code of the profile's command, the
  file's presence, digest and content, the tree's digest, the schema of the runtime artifact,
  the absence of forbidden tools.\<close>

theorem passed_check_exact:
  assumes "check_criterion env c i ev tools st = (Inr r, st')"
  shows "hcr_passed r = gate_condition env c ev tools st"
  using assms by (rule passed_check_iff)

text \<open>The criteria with the state each check of \<open>verify_from\<close> starts from.\<close>

fun gate_trace ::
  "gate_env \<Rightarrow> (nat \<rightharpoonup> string) \<Rightarrow> string list \<Rightarrow> nat \<Rightarrow> acceptance_criterion list \<Rightarrow> gate_state
     \<Rightarrow> (nat \<times> acceptance_criterion \<times> gate_state) list" where
  "gate_trace env digests tools i [] st = []"
| "gate_trace env digests tools i (c # cs) st =
     (i, c, st) # gate_trace env digests tools (Suc i) cs
       (snd (check_criterion env c i (dict_get digests i []) tools st))"

lemma verify_from_passed:
  assumes "verify_from env digests tools i cs st = (rs, st')" and "list_all hcr_passed rs"
  shows "list_all (\<lambda>(j, c, st1). gate_condition env c (dict_get digests j []) tools st1)
           (gate_trace env digests tools i cs st)"
  using assms
proof (induction cs arbitrary: i st rs st')
  case (Cons c cs)
  obtain checked st1 where c1: "check_criterion env c i (dict_get digests i []) tools st = (checked, st1)"
    by fastforce
  obtain rs2 st2 where v: "verify_from env digests tools (Suc i) cs st1 = (rs2, st2)" by fastforce
  from Cons.prems c1 v obtain r where "checked = Inr r" "hcr_passed r" "list_all hcr_passed rs2"
    by (auto simp: crash_result_def split: sum.splits)
  with Cons.IH [OF v] passed_check_iff [of env c i _ tools st r st1] c1 show ?case by simp
qed simp

text \<open>The verifier leaves no criterion without its result.  There is one result per criterion, in
  the contract's order, with its index and kind, also when a checker crashes; the evidence
  every result refers to is in the store and intact at the end; and nothing that was in the
  store is lost.\<close>

theorem gate_results_complete:
  assumes "verify_gates env wc digests tools st = (rs, st')"
  shows "map criterion_index rs = [0..<length (acceptance_criteria wc)]
    \<and> map hcr_kind rs = map criterion_kind_of (acceptance_criteria wc)
    \<and> list_all (evidence_intact env st') rs \<and> store_grows env st st'"
  using verify_from_ok [of env digests tools 0] assms by (simp add: verify_gates_def)

lemma verified_gates_held:
  assumes "verify_gates env wc digests tools st = (hard, st')"
    and "v_outcome (decide wc hard soft usage tools_used) = Outcome_VERIFIED"
  shows "list_all (\<lambda>(i, c, st_i). gate_condition env c (dict_get digests i []) tools st_i)
           (gate_trace env digests tools 0 (acceptance_criteria wc) st)
    \<and> exceeds usage (Some (wc_budget wc)) = False \<and> soft_satisfied soft (acceptance_criteria wc)"
proof -
  from assms(1) have v: "verify_from env digests tools 0 (acceptance_criteria wc) st = (hard, st')"
    by (simp add: verify_gates_def)
  have idx: "map criterion_index hard = [0..<length (acceptance_criteria wc)]"
    using verify_from_ok [OF v] by simp
  from assms(2) have d: "hard_failures (acceptance_criteria wc) hard = []"
    "\<not> exceeds usage (Some (wc_budget wc))" "soft_satisfied soft (acceptance_criteria wc)"
    by (auto simp: decide_outcome split: if_splits)
  have "criterion_index r < length (acceptance_criteria wc)" if "r \<in> set hard" for r
  proof -
    have "criterion_index r \<in> set (map criterion_index hard)" using that by simp
    with idx show ?thesis by simp
  qed
  with d(1) have "list_all hcr_passed hard" by (auto simp: hard_failures_Nil list_all_iff)
  with verify_from_passed [OF v] d show ?thesis by simp
qed

subsection \<open>A run of the verifier\<close>

definition sample_gate_env :: gate_env where
  "sample_gate_env = \<lparr>ge_os = sample_os, ge_profiles = Map.empty, ge_limits = default_limits,
     ge_disk = Some, ge_loads = (\<lambda>s. Declined []), ge_check_schema = (\<lambda>s. Answered ()),
     ge_validate = (\<lambda>s d. Answered ()), ge_dump = (\<lambda>kvs. []), ge_repr = quoted,
     ge_tree_text = (\<lambda>e. []), ge_store_text = (\<lambda>e. []), ge_crash_name = (\<lambda>e. []), ge_crash_text = (\<lambda>e. [])\<rparr>"

definition sample_gate_state :: gate_state where
  "sample_gate_state = \<lparr>gs_ws = sample_ws ''done'', gs_store = \<lparr>blobs = Map.empty, max_read_bytes = 10\<rparr>\<rparr>"

definition sample_gate_contract :: work_contract where
  "sample_gate_contract = (base_contract ''c'' ''o'' unlimited_budget)\<lparr>acceptance_criteria :=
     [FileDiffCriterion ''d'' ''f'' True None (Some ''on'') (Some ''done''),
      PolicyCriterion ''p'' ''forbidden_tools'' [''rm'']]\<rparr>"

lemma sample_read:
  "ws_read (sample_ws ''done'') ''f'' =
     Inr ((tool_result_of True ''read'')\<lparr>tr_data := ''done'', total_bytes := 4\<rparr>)"
  using sample_resolve [of "''done''"] sample_entry [of "''done''"] sample_not_denied [of "''done''"]
  by (simp add: ws_read_def Let_def) (simp add: sample_ws_def default_ws_config_def tool_result_of_def)

lemma sample_utf8: "valid_utf8 ''done''"
  by (simp add: valid_utf8_def byte_in_def)

lemma sample_contains: "contains ''on'' ''done''"
  by (simp add: contains_def)

lemma sample_check:
  "\<exists>r st'. check_criterion sample_gate_env (FileDiffCriterion ''d'' ''f'' True None (Some ''on'') (Some ''done'')) 0
     [] tools sample_gate_state = (Inr r, st') \<and> hcr_passed r \<and> criterion_index r = 0"
  using sample_utf8 sample_contains
  by (simp add: check_file_diff_def sample_gate_state_def sample_read Let_def tool_result_of_def truthy_def
      keep_evidence_def write_artifact_def atomic_write_def blob_matches_def sample_gate_env_def)

theorem passed_check_exact_witness:
  "gate_condition sample_gate_env (FileDiffCriterion ''d'' ''f'' True None (Some ''on'') (Some ''done'')) []
     [''cat''] sample_gate_state"
  using sample_check passed_check_exact by metis

lemma sample_verify:
  assumes "''rm'' \<notin> set tools"
  shows "\<exists>hard st'. verify_gates sample_gate_env sample_gate_contract Map.empty tools sample_gate_state = (hard, st')
     \<and> map criterion_index hard = [0, 1] \<and> list_all hcr_passed hard"
proof -
  obtain r st' where c: "check_criterion sample_gate_env
      (FileDiffCriterion ''d'' ''f'' True None (Some ''on'') (Some ''done'')) 0 [] tools sample_gate_state = (Inr r, st')"
    and r: "hcr_passed r" "criterion_index r = 0"
    using sample_check [of tools] by (elim exE conjE) (rule that)
  have "filter (\<lambda>t. t = ''rm'') tools = []" using assms by (auto simp: filter_empty_conv)
  with r show ?thesis
    by (simp add: verify_gates_def sample_gate_contract_def base_contract_def dict_get_def c
        del: check_criterion.simps(2)) (simp add: check_policy_def check_result_def)
qed

lemma sample_decide:
  assumes "map criterion_index hard = [0, 1]" "list_all hcr_passed hard"
  shows "v_outcome (decide sample_gate_contract hard soft zero_usage tools) = Outcome_VERIFIED"
  using assms by (auto simp: decide_outcome hard_failures_Nil list_all_iff soft_satisfied_def soft_indices_def
      upt_conv_Cons exceeds_def evaluated_def list_ex_iff sample_gate_contract_def base_contract_def
      unlimited_budget_def zero_usage_def)

theorem gate_results_complete_witness:
  "case verify_gates sample_gate_env sample_gate_contract Map.empty [''cat''] sample_gate_state of
     (rs, st') \<Rightarrow> map hcr_kind rs = [FILE_DIFF, POLICY] \<and> list_all (evidence_intact sample_gate_env st') rs"
  using gate_results_complete [of sample_gate_env sample_gate_contract Map.empty "[''cat'']" sample_gate_state]
  by (auto simp: sample_gate_contract_def base_contract_def split: prod.split)

end
