(* ===== verification/Orchestrator.thy ===== *)
theory Orchestrator
  imports Cell_Runner Scheduling Projection Hard_Gates Model_Review
begin

section \<open>The pipeline (application/orchestrator.py)\<close>

text \<open>
  \<^verbatim>\<open>Company\<close>: from a request to one outcome.  The state of a run is what the code mutates: the
  shared state of the cells (\<open>cell_state\<close>, with the events appended so far), the workspace and
  artifact store of the gates, and the two local variables the failure path reads,
  \<^verbatim>\<open>current_status\<close> and \<^verbatim>\<open>terminal_outcome\<close>.  A step returns its value or the exception it raises,
  and the state in both cases.

  Parameters: the ledger's answer to an append together with the cancellations that arrive while
  it is awaited; the contract compiler and the planner; and the event loop that runs the cells of
  one batch, whose contract is the locale \<open>cell_executor\<close>.  Gateway teardown, logging and the
  construction of the collaborators are left out.
\<close>

subsection \<open>The environment and the state\<close>

datatype run_exception = Cancelled | Failure string

text \<open>One \<^verbatim>\<open>append_next\<close>, awaited: \<^verbatim>\<open>emit_async\<close> lets the append finish before it raises a
  cancellation again.\<close>

datatype emit_fate = Stored | Refused string | Stored_cancelled | Refused_cancelled string

fun is_stored :: "emit_fate \<Rightarrow> bool" where
  "is_stored Stored = True"
| "is_stored Stored_cancelled = True"
| "is_stored _ = False"

fun is_interrupted :: "emit_fate \<Rightarrow> bool" where
  "is_interrupted Stored_cancelled = True"
| "is_interrupted (Refused_cancelled _) = True"
| "is_interrupted _ = False"

text \<open>What one cell of a batch returned or raised, and how the batch ended.\<close>

datatype cell_answer = Cell_ok | Cell_outcome run_outcome | Cell_error string | Cell_cancelled

datatype batch_end = Batch_stalled | Batch_interrupted | Batch_done "cell_answer list"

record company =
  co_run :: cell_state
  co_gates :: gate_state

type_synonym executor = "run_id \<Rightarrow> graph_cell list \<Rightarrow> work_contract \<Rightarrow> tool_definition list \<Rightarrow> company
  \<Rightarrow> batch_end \<times> company"

record company_env =
  ce_fate :: "payload list \<Rightarrow> payload \<Rightarrow> emit_fate"
  ce_compile :: "project_request \<Rightarrow> run_id \<Rightarrow> (run_exception + work_contract) \<times> payload list"
  ce_plan :: "work_contract \<Rightarrow> run_id \<Rightarrow> run_exception + graph_version"
  ce_error_text :: "graph_error \<Rightarrow> string"
  ce_batch :: executor
  ce_tools :: "tool_definition list"
  ce_gates :: gate_env
  ce_soft :: soft_checker
  ce_verify_cancelled :: "company \<Rightarrow> bool"

record run_vars =
  cur_status :: run_status
  done_outcome :: "run_outcome option"
  co :: company

type_synonym 'a step = "run_vars \<Rightarrow> (run_exception + 'a) \<times> run_vars"

definition return_step :: "'a \<Rightarrow> 'a step" where
  "return_step x v = (Inr x, v)"

definition raise_step :: "run_exception \<Rightarrow> 'a step" where
  "raise_step e v = (Inl e, v)"

definition bind_step :: "'a step \<Rightarrow> ('a \<Rightarrow> 'b step) \<Rightarrow> 'b step" where
  "bind_step f g v = (case f v of (Inl e, v') \<Rightarrow> (Inl e, v') | (Inr x, v') \<Rightarrow> g x v')"

definition set_status :: "run_status \<Rightarrow> unit step" where
  "set_status s v = (Inr (), v\<lparr>cur_status := s\<rparr>)"

definition set_outcome :: "run_outcome \<Rightarrow> unit step" where
  "set_outcome out v = (Inr (), v\<lparr>done_outcome := Some out\<rparr>)"

definition run_log :: "run_vars \<Rightarrow> payload list" where
  "run_log v = emitted (co_run (co v))"

definition log_event :: "payload \<Rightarrow> run_vars \<Rightarrow> run_vars" where
  "log_event p v = v\<lparr>co := (co v)\<lparr>co_run := emit_payload p (co_run (co v))\<rparr>\<rparr>"

subsection \<open>Emission\<close>

definition append_event :: "company_env \<Rightarrow> payload \<Rightarrow> run_vars \<Rightarrow> emit_fate \<times> run_vars" where
  "append_event env p v =
     (let fate = ce_fate env (run_log v) p
      in (fate, if is_stored fate then log_event p v else v))"

text \<open>\<^verbatim>\<open>_emit\<close>.\<close>

definition company_emit :: "company_env \<Rightarrow> payload \<Rightarrow> unit step" where
  "company_emit env p v =
     (case append_event env p v of
        (Stored, v') \<Rightarrow> (Inr (), v')
      | (Refused m, v') \<Rightarrow> (Inl (Failure m), v')
      | (_, v') \<Rightarrow> (Inl Cancelled, v'))"

text \<open>\<^verbatim>\<open>_finish_despite_cancellation\<close> of an emission: a cancellation is reported as \<open>True\<close> after
  the append; when the append itself fails, its error wins.\<close>

definition emit_shielded :: "company_env \<Rightarrow> payload \<Rightarrow> bool step" where
  "emit_shielded env p v =
     (case append_event env p v of
        (Stored, v') \<Rightarrow> (Inr False, v')
      | (Stored_cancelled, v') \<Rightarrow> (Inr True, v')
      | (Refused m, v') \<Rightarrow> (Inl (Failure m), v')
      | (Refused_cancelled m, v') \<Rightarrow> (Inl (Failure m), v'))"

definition emit_terminal_outcome :: "company_env \<Rightarrow> run_outcome \<Rightarrow> string \<Rightarrow> bool step" where
  "emit_terminal_outcome env out reason = emit_shielded env (OutcomeEmitted out reason)"

text \<open>\<^verbatim>\<open>_emit_status\<close>: \<open>frm\<close> is the status the caller passes, not the one in the ledger.\<close>

definition emit_status :: "company_env \<Rightarrow> run_status \<Rightarrow> run_status \<Rightarrow> unit step" where
  "emit_status env to frm =
     (if \<not> can_transition frm to
      then raise_step (Failure (''Illegal status transition: '' @ status_value frm @ '' -> '' @ status_value to))
      else company_emit env (StatusChanged to))"

definition advance :: "company_env \<Rightarrow> run_status \<Rightarrow> unit step" where
  "advance env to v = bind_step (emit_status env to (cur_status v)) (\<lambda>_. set_status to) v"

text \<open>\<^verbatim>\<open>_emit_failure\<close>: the errors of both emissions are swallowed; \<open>True\<close> for a cancellation.\<close>

definition emit_failure :: "company_env \<Rightarrow> string \<Rightarrow> run_vars \<Rightarrow> bool \<times> run_vars" where
  "emit_failure env reason v =
     (let out = (case done_outcome v of None \<Rightarrow> Outcome_FAILED | Some out \<Rightarrow> out);
          (fate1, v1) = (case done_outcome v of
             None \<Rightarrow> append_event env (OutcomeEmitted out reason) v | Some _ \<Rightarrow> (Stored, v))
      in if \<not> is_stored fate1 \<or> \<not> can_transition (cur_status v) (outcome_to_status out)
         then (is_interrupted fate1, v1)
         else case append_event env (StatusChanged (outcome_to_status out)) v1 of
           (fate2, v2) \<Rightarrow> (is_interrupted fate1 \<or> is_interrupted fate2, v2))"

text \<open>\<^verbatim>\<open>_emit_evidence\<close>.\<close>

definition evidence_payload ::
  "run_outcome \<Rightarrow> hard_check_result list \<Rightarrow> bool \<Rightarrow> budget_usage \<Rightarrow> string list \<Rightarrow> payload" where
  "evidence_payload out hard disagreement u tools =
     EvidenceRecorded out
       (map (\<lambda>r. \<lparr>er_criterion_index = criterion_index r, er_kind = hcr_kind r, er_passed = hcr_passed r,
          evidence_artifact_digest = (case evidence_ref r of None \<Rightarrow> [] | Some ref \<Rightarrow> digest ref),
          er_detail = hcr_detail r\<rparr>) hard)
       (map (\<lambda>r. \<lparr>hgf_index = criterion_index r, hgf_detail = hcr_detail r\<rparr>)
          (filter (\<lambda>r. \<not> hcr_passed r \<and> hcr_kind r \<noteq> SOFT_RUBRIC) hard))
       u tools disagreement"

subsection \<open>Cells\<close>

text \<open>\<^verbatim>\<open>_build_tool_defs\<close>.\<close>

definition build_tool_defs :: "tool_definition list \<Rightarrow> work_contract \<Rightarrow> tool_definition list" where
  "build_tool_defs advertised wc =
     (if allowed_tools wc = [] then advertised
      else filter (\<lambda>td. td_name td \<in> set (allowed_tools wc)) advertised)"

definition run_batch :: "company_env \<Rightarrow> run_id \<Rightarrow> graph_cell list \<Rightarrow> work_contract \<Rightarrow> batch_end step" where
  "run_batch env r cs wc v =
     (case ce_batch env r cs wc (build_tool_defs (ce_tools env) wc) (co v) of
        (Batch_interrupted, co') \<Rightarrow> (Inl Cancelled, v\<lparr>co := co'\<rparr>)
      | (b, co') \<Rightarrow> (Inr b, v\<lparr>co := co'\<rparr>))"

definition emit_budget_exhausted :: "company_env \<Rightarrow> unit step" where
  "emit_budget_exhausted env v = company_emit env (BudgetUpdated (used (co_run (co v))) True) v"

datatype wave_end = Wave_outcome run_outcome | Wave_next "cell_id list" "cell_id list"

definition exhausted_or :: "company_env \<Rightarrow> wave_end \<Rightarrow> wave_end step" where
  "exhausted_or env next_end v =
     (if budget_exhausted (auth (co_run (co v)))
      then bind_step (emit_budget_exhausted env) (\<lambda>_. return_step (Wave_outcome Outcome_ABSTAINED)) v
      else (Inr next_end, v))"

text \<open>The results of the read-only cells, zipped with the cells.  A \<^verbatim>\<open>CancelledError\<close> is no
  \<^verbatim>\<open>Exception\<close> and so falls through to the last branch.\<close>

fun settle :: "(graph_cell \<times> cell_answer) list \<Rightarrow> cell_id list \<Rightarrow> cell_id list \<Rightarrow> wave_end" where
  "settle [] completed failed = Wave_next completed failed"
| "settle ((c, a) # rest) completed failed =
     (case a of
        Cell_error _ \<Rightarrow> settle rest completed (List.insert (gc_id c) failed)
      | Cell_outcome out \<Rightarrow> Wave_outcome out
      | _ \<Rightarrow> settle rest (List.insert (gc_id c) completed) failed)"

definition read_only_wave ::
  "company_env \<Rightarrow> run_id \<Rightarrow> work_contract \<Rightarrow> graph_cell list \<Rightarrow> cell_id list \<Rightarrow> cell_id list \<Rightarrow> wave_end step" where
  "read_only_wave env r wc cs completed failed =
     (if cs = [] then return_step (Wave_next completed failed)
      else bind_step (run_batch env r cs wc) (\<lambda>b.
        case b of
          Batch_done answers \<Rightarrow>
            (case settle (zip cs answers) completed failed of
               Wave_outcome out \<Rightarrow> return_step (Wave_outcome out)
             | next_end \<Rightarrow> exhausted_or env next_end)
        | _ \<Rightarrow> bind_step (company_emit env (StallDetected [])) (\<lambda>_. return_step (Wave_outcome Outcome_ABSTAINED))))"

fun mutating_wave ::
  "company_env \<Rightarrow> run_id \<Rightarrow> work_contract \<Rightarrow> graph_cell list \<Rightarrow> cell_id list \<Rightarrow> cell_id list \<Rightarrow> wave_end step" where
  "mutating_wave env r wc [] completed failed = return_step (Wave_next completed failed)"
| "mutating_wave env r wc (c # cs) completed failed =
     bind_step (run_batch env r [c] wc) (\<lambda>b.
       case b of
         Batch_done (Cell_outcome out # _) \<Rightarrow> return_step (Wave_outcome out)
       | Batch_done (Cell_error m # _) \<Rightarrow> raise_step (Failure m)
       | Batch_done (Cell_cancelled # _) \<Rightarrow> raise_step Cancelled
       | Batch_done _ \<Rightarrow>
           bind_step (exhausted_or env (Wave_next (List.insert (gc_id c) completed) failed)) (\<lambda>w.
             case w of
               Wave_outcome out \<Rightarrow> return_step (Wave_outcome out)
             | Wave_next completed' failed' \<Rightarrow> mutating_wave env r wc cs completed' failed')
       | _ \<Rightarrow> bind_step (company_emit env (StallDetected (gc_id c))) (\<lambda>_. return_step (Wave_outcome Outcome_ABSTAINED)))"

text \<open>\<^verbatim>\<open>_execute_cells\<close>: the first argument counts the waves left of \<^verbatim>\<open>max_waves + 1\<close>.\<close>

fun execute_waves ::
  "company_env \<Rightarrow> run_id \<Rightarrow> work_contract \<Rightarrow> graph_version \<Rightarrow> nat \<Rightarrow> cell_id list \<Rightarrow> cell_id list
     \<Rightarrow> run_outcome option step" where
  "execute_waves env r wc g 0 completed failed =
     return_step (if length completed \<noteq> length (gv_cells g) then Some Outcome_FAILED else None)"
| "execute_waves env r wc g (Suc waves) completed failed =
     (let ready = ready_cells g (Some completed) (Some failed)
      in if ready = [] then
           return_step (if failed = [] \<and> length completed = length (gv_cells g) then None
                        else Some Outcome_FAILED)
         else
           bind_step (read_only_wave env r wc (filter (\<lambda>c. mode c \<noteq> MUTATING) ready) completed failed) (\<lambda>w.
             case w of
               Wave_outcome out \<Rightarrow> return_step (Some out)
             | Wave_next completed1 failed1 \<Rightarrow>
                 bind_step (mutating_wave env r wc (filter (\<lambda>c. mode c = MUTATING) ready) completed1 failed1)
                   (\<lambda>w2. case w2 of
                      Wave_outcome out \<Rightarrow> return_step (Some out)
                    | Wave_next completed2 failed2 \<Rightarrow>
                        execute_waves env r wc g waves completed2 failed2)))"

subsection \<open>Verification and the end of a run\<close>

text \<open>\<^verbatim>\<open>_resolve_evidence_contents\<close>, over the criteria the graph's cells cite; only a missing
  artifact is caught.\<close>

fun resolve_evidence ::
  "gate_env \<Rightarrow> artifact_store \<Rightarrow> (int \<rightharpoonup> digest) \<Rightarrow> int list \<Rightarrow> artifact_error + (int \<rightharpoonup> string)" where
  "resolve_evidence env store digests [] = Inr Map.empty"
| "resolve_evidence env store digests (i # is) =
     (case digests i of
        None \<Rightarrow> resolve_evidence env store digests is
      | Some d \<Rightarrow>
          (let rest = resolve_evidence env store digests is
           in case read_by_digest (gate_hash env) store d of
                Inr content \<Rightarrow> (case rest of Inl e \<Rightarrow> Inl e
                  | Inr m \<Rightarrow> Inr (m(i \<mapsto> os_lossy (ge_os env) content)))
              | Inl (Artifact_not_found _) \<Rightarrow> (case rest of Inl e \<Rightarrow> Inl e | Inr m \<Rightarrow> Inr (m(i \<mapsto> [])))
              | Inl e \<Rightarrow> Inl e))"

definition cited_criteria :: "graph_version \<Rightarrow> int list" where
  "cited_criteria g = remdups (concat (map acceptance_criterion_indices (gv_cells g)))"

text \<open>The gates, the soft review and the verdict, without the emissions around them.\<close>

definition judge ::
  "company_env \<Rightarrow> work_contract \<Rightarrow> graph_version \<Rightarrow> (verdict \<times> hard_check_result list \<times> bool) step" where
  "judge env wc g v =
     (let st = co_run (co v);
          (hard, gates) = verify_gates (ce_gates env) wc (\<lambda>i. evidence_digests st (int i)) (tools_used st)
                            (co_gates (co v));
          v1 = v\<lparr>co := (co v)\<lparr>co_gates := gates\<rparr>\<rparr>
      in if ce_verify_cancelled env (co v) then (Inl Cancelled, v1)
         else case resolve_evidence (ce_gates env) (gs_store gates) (evidence_digests st) (cited_criteria g) of
           Inl e \<Rightarrow> (Inl (Failure (ge_store_text (ce_gates env) e)), v1)
         | Inr contents \<Rightarrow>
             (let (given, disagreement) = check_soft (ce_soft env) wc (\<lambda>i. contents (int i))
              in (Inr (decide wc hard (Some \<lparr>verdicts = given, material_disagreement = disagreement\<rparr>)
                         (used st) (tools_used st), hard, disagreement), v1)))"

definition emit_evidence ::
  "company_env \<Rightarrow> run_outcome \<Rightarrow> hard_check_result list \<Rightarrow> bool \<Rightarrow> unit step" where
  "emit_evidence env out hard disagreement v =
     company_emit env (evidence_payload out hard disagreement (used (co_run (co v))) (tools_used (co_run (co v)))) v"

text \<open>\<^verbatim>\<open>_verify_and_finish\<close>; the caller's status stays \<^verbatim>\<open>EXECUTING\<close>.\<close>

definition verify_and_finish ::
  "company_env \<Rightarrow> work_contract \<Rightarrow> graph_version \<Rightarrow> (run_outcome \<times> bool) step" where
  "verify_and_finish env wc g =
     bind_step (\<lambda>v. company_emit env (BudgetUpdated (used (co_run (co v))) False) v) (\<lambda>_.
     bind_step (\<lambda>v. emit_status env VERIFYING (cur_status v) v) (\<lambda>_.
     bind_step (judge env wc g) (\<lambda>(verdict, hard, disagreement).
     bind_step (emit_evidence env (v_outcome verdict) hard disagreement) (\<lambda>_.
     bind_step (emit_terminal_outcome env (v_outcome verdict) (v_reason verdict)) (\<lambda>cancelled.
       return_step (v_outcome verdict, cancelled))))))"

text \<open>The outcome is known: remember it, and raise a cancellation that arrived meanwhile.\<close>

definition conclude :: "run_outcome \<Rightarrow> bool \<Rightarrow> unit step" where
  "conclude out cancelled =
     bind_step (set_outcome out) (\<lambda>_. if cancelled then raise_step Cancelled else return_step ())"

fun follow_route :: "company_env \<Rightarrow> run_status list \<Rightarrow> unit step" where
  "follow_route env [] = return_step ()"
| "follow_route env (s # ss) = bind_step (advance env s) (\<lambda>_. follow_route env ss)"

definition short_circuit_reason :: string where
  "short_circuit_reason = ''cell short-circuited the run before verification''"

definition short_circuit :: "company_env \<Rightarrow> run_outcome \<Rightarrow> run_outcome step" where
  "short_circuit env out =
     bind_step (emit_evidence env out [] False) (\<lambda>_.
     bind_step (emit_terminal_outcome env out short_circuit_reason) (\<lambda>cancelled.
     bind_step (conclude out cancelled) (\<lambda>_.
     bind_step (\<lambda>v. case route (cur_status v) (outcome_to_status out) of
         Inl (IllegalTransition a b) \<Rightarrow> raise_step (Failure (status_value a @ '' -> '' @ status_value b)) v
       | Inr path \<Rightarrow> follow_route env path v) (\<lambda>_.
       return_step out))))"

text \<open>From the executing status to the end, shared by \<^verbatim>\<open>run_async\<close> and \<^verbatim>\<open>resume_async\<close>.\<close>

definition execute_and_finish ::
  "company_env \<Rightarrow> run_id \<Rightarrow> work_contract \<Rightarrow> graph_version \<Rightarrow> nat \<Rightarrow> cell_id list \<Rightarrow> run_outcome step" where
  "execute_and_finish env r wc g waves completed =
     bind_step (execute_waves env r wc g (waves + 1) completed []) (\<lambda>cell_outcome.
       case cell_outcome of
         Some out \<Rightarrow> short_circuit env out
       | None \<Rightarrow>
           bind_step (verify_and_finish env wc g) (\<lambda>(out, cancelled).
           bind_step (conclude out cancelled) (\<lambda>_.
           bind_step (emit_status env (outcome_to_status out) VERIFYING) (\<lambda>_.
             return_step out))))"

subsection \<open>The two entry points\<close>

definition request_accepted :: "project_request \<Rightarrow> payload" where
  "request_accepted req = RequestAccepted (goal req) (workspace_root req)
     (map_option (\<lambda>b. unlimited_budget\<lparr>token_limit := token_limit b, cost_limit_usd := cost_limit_usd b\<rparr>)
        (req_budget req))"

definition compile_step :: "company_env \<Rightarrow> project_request \<Rightarrow> run_id \<Rightarrow> work_contract step" where
  "compile_step env req r v =
     (case ce_compile env req r of (res, ps) \<Rightarrow> (res, fold log_event ps v))"

definition fresh_run :: "authority \<Rightarrow> budget_usage \<Rightarrow> (int \<rightharpoonup> digest) \<Rightarrow> unit step" where
  "fresh_run a u digests v = (Inr (), v\<lparr>co := (co v)\<lparr>co_run := (co_run (co v))\<lparr>auth := a, used := u,
     evidence_digests := digests, tools_used := []\<rparr>\<rparr>\<rparr>)"

definition reject_graph :: "company_env \<Rightarrow> graph_version \<Rightarrow> graph_error list \<Rightarrow> run_outcome step" where
  "reject_graph env g errors =
     bind_step (company_emit env (GraphProposed (gv_version g) (map (ce_error_text env) errors) True)) (\<lambda>_.
     bind_step (emit_terminal_outcome env Outcome_ABSTAINED ''graph validation failed'') (\<lambda>cancelled.
     bind_step (conclude Outcome_ABSTAINED cancelled) (\<lambda>_.
     bind_step (\<lambda>v. emit_status env ABSTAINED (cur_status v) v) (\<lambda>_.
       return_step Outcome_ABSTAINED))))"

definition run_body :: "company_env \<Rightarrow> project_request \<Rightarrow> run_id \<Rightarrow> run_outcome step" where
  "run_body env req r =
     bind_step (company_emit env (request_accepted req)) (\<lambda>_.
     bind_step (compile_step env req r) (\<lambda>wc.
     bind_step (advance env CONTRACTED) (\<lambda>_.
     bind_step (\<lambda>v. (ce_plan env wc r, v)) (\<lambda>g.
       let errors = validate_graph g (Some (wc_budget wc)) (Some (max_waves req))
       in if errors \<noteq> [] then reject_graph env g errors
          else
            bind_step (company_emit env (GraphAccepted (gv_version g) (gv_cells g) (edges g) (milestones g))) (\<lambda>_.
            bind_step (advance env PLANNED) (\<lambda>_.
            bind_step (advance env EXECUTING) (\<lambda>_.
            bind_step (fresh_run (new_authority (case req_budget req of None \<Rightarrow> unlimited_budget | Some b \<Rightarrow> b))
                zero_usage Map.empty) (\<lambda>_.
              execute_and_finish env r wc g (max_waves req) []))))))))"

text \<open>The \<^verbatim>\<open>try\<close> around the body: a cancellation is raised again, an error becomes the outcome
  that is known, else FAILED.\<close>

definition guarded :: "company_env \<Rightarrow> run_outcome step \<Rightarrow> run_outcome step" where
  "guarded env body v =
     (case body v of
        (Inr out, v1) \<Rightarrow> (Inr out, v1)
      | (Inl Cancelled, v1) \<Rightarrow> (Inl Cancelled, snd (emit_failure env ''cancelled'' v1))
      | (Inl (Failure m), v1) \<Rightarrow>
          (case emit_failure env (take 500 m) v1 of
             (True, v2) \<Rightarrow> (Inl Cancelled, v2)
           | (False, v2) \<Rightarrow>
               (Inr (case done_outcome v2 of None \<Rightarrow> Outcome_FAILED | Some out \<Rightarrow> out), v2)))"

definition start_vars :: "company \<Rightarrow> run_vars" where
  "start_vars c = \<lparr>cur_status = INTAKE, done_outcome = None, co = c\<rparr>"

definition run_async :: "company_env \<Rightarrow> project_request \<Rightarrow> run_id \<Rightarrow> company \<Rightarrow> (run_exception + run_outcome) \<times> run_vars" where
  "run_async env req r c = guarded env (run_body env req r) (start_vars c)"

subsection \<open>Resuming a run\<close>

definition resume_replay_kinds :: "event_kind list" where
  "resume_replay_kinds =
     [ANALYSIS_REQUESTED, ANALYSIS_COMPLETED, CONTRACT_PROPOSED, CONTRACT_VALIDATED, GRAPH_ACCEPTED]"

fun completed_ref :: "payload \<Rightarrow> (cell_id \<times> artifact_ref) option" where
  "completed_ref (CellCompleted cid ref u) = Some (cid, ref)"
| "completed_ref _ = None"

text \<open>\<^verbatim>\<open>source_completed\<close>: the last \<^verbatim>\<open>CellCompleted\<close> of each cell.\<close>

definition source_completed :: "payload list \<Rightarrow> cell_id \<rightharpoonup> artifact_ref" where
  "source_completed ps = map_of (rev (List.map_filter completed_ref ps))"

definition completed_cells :: "payload list \<Rightarrow> graph_version \<Rightarrow> cell_id list" where
  "completed_cells ps g =
     remdups (map gc_id (filter (\<lambda>c. gc_status c = Cell_COMPLETED) (gv_cells g))
       @ map fst (List.map_filter completed_ref ps))"

fun seed_completed :: "cell_id list \<Rightarrow> payload \<Rightarrow> payload" where
  "seed_completed done_ids (GraphAccepted n cs es ms) =
     GraphAccepted n (map (\<lambda>c. if gc_id c \<in> set done_ids then c\<lparr>gc_status := Cell_COMPLETED\<rparr> else c) cs) es ms"
| "seed_completed done_ids p = p"

fun emit_all :: "company_env \<Rightarrow> payload list \<Rightarrow> unit step" where
  "emit_all env [] = return_step ()"
| "emit_all env (p # ps) = bind_step (company_emit env p) (\<lambda>_. emit_all env ps)"

definition resumed_authority :: "run_state \<Rightarrow> authority" where
  "resumed_authority s =
     (let a = new_authority (case run_budget s of None \<Rightarrow> unlimited_budget | Some b \<Rightarrow> b);
          u = usage s
      in if total_input_tokens u \<noteq> 0 \<or> total_output_tokens u \<noteq> 0 \<or> total_calls u \<noteq> 0
         then record_spend \<lparr>input_tokens = total_input_tokens u, output_tokens = total_output_tokens u,
                cost_usd = total_cost_usd u, calls = total_calls u\<rparr> a
         else a)"

definition resumed_evidence :: "payload list \<Rightarrow> graph_version \<Rightarrow> int \<rightharpoonup> digest" where
  "resumed_evidence ps g =
     foldl (\<lambda>m c. case source_completed ps (gc_id c) of
              None \<Rightarrow> m
            | Some ref \<Rightarrow> if gc_id c \<in> set (completed_cells ps g)
                then foldl (\<lambda>m ci. m(ci \<mapsto> digest ref)) m (acceptance_criterion_indices c) else m)
       Map.empty (gv_cells g)"

definition default_max_waves :: nat where
  "default_max_waves = 3"

definition resumed_request :: "run_state \<Rightarrow> project_request" where
  "resumed_request s = \<lparr>goal = rs_goal s, workspace_root = rs_workspace_root s, req_constraints = [],
     req_budget = run_budget s, tool_policy = [], max_waves = default_max_waves\<rparr>"

definition resume_body ::
  "company_env \<Rightarrow> run_id \<Rightarrow> run_state \<Rightarrow> work_contract \<Rightarrow> graph_version \<Rightarrow> payload list \<Rightarrow> run_outcome step" where
  "resume_body env r s wc g ps =
     (let done_ids = completed_cells ps g
      in bind_step (company_emit env (RequestAccepted (rs_goal s) (rs_workspace_root s) (run_budget s))) (\<lambda>_.
         bind_step (emit_all env (map (seed_completed done_ids)
           (filter (\<lambda>p. payload_kind p \<in> set resume_replay_kinds) ps))) (\<lambda>_.
         bind_step (emit_all env (filter (\<lambda>p. completed_ref p \<noteq> None) ps)) (\<lambda>_.
         bind_step (follow_route env [CONTRACTED, PLANNED, EXECUTING]) (\<lambda>_.
         bind_step (fresh_run (resumed_authority s) (usage s) (resumed_evidence ps g)) (\<lambda>_.
           execute_and_finish env r wc g default_max_waves done_ids))))))"

text \<open>The checks before the \<^verbatim>\<open>try\<close> raise to the caller and touch nothing.\<close>

definition resume_async ::
  "company_env \<Rightarrow> run_id \<Rightarrow> run_id \<Rightarrow> event_envelope list \<Rightarrow> company \<Rightarrow> (run_exception + run_outcome) \<times> run_vars" where
  "resume_async env source r es c =
     (let v = start_vars c
      in case replay_events source es of
           Inl e \<Rightarrow> (Inl (Failure ''illegal replay''), v)
         | Inr s \<Rightarrow>
             (case (current_contract s, graph s) of
                (Some wc, Some g) \<Rightarrow>
                  if status s = VERIFIED
                  then (Inl (Failure (''run '' @ source @ '' is already verified'')), v)
                  else if \<not> valid_request (resumed_request s)
                  then (Inl (Failure ''invalid request''), v)
                  else guarded env (resume_body env r s wc g (map ev_payload es)) v
              | _ \<Rightarrow> (Inl (Failure (''run '' @ source @ '' has no contract/graph to resume from'')), v)))"

end
