(* ===== verification/Run_Protocol.thy ===== *)
theory Run_Protocol
  imports Orchestrator
begin

section \<open>The protocol a run follows\<close>

text \<open>
  Triples for steps that may raise, the interface of the cell executor with the steps that never
  speak for the run, and the chain of statuses from intake to the outcome, exceptions included.
  \<open>view\<close> is the part of the state the failure path depends on.
\<close>

subsection \<open>Triples\<close>

definition triple ::
  "(run_vars \<Rightarrow> bool) \<Rightarrow> 'a step \<Rightarrow> ('a \<Rightarrow> run_vars \<Rightarrow> bool) \<Rightarrow> (run_exception \<Rightarrow> run_vars \<Rightarrow> bool) \<Rightarrow> bool" where
  "triple P f Q E \<longleftrightarrow>
     (\<forall>v. P v \<longrightarrow> (case f v of (Inr x, v') \<Rightarrow> Q x v' | (Inl e, v') \<Rightarrow> E e v'))"

lemma tripleI: "(\<And>v. P v \<Longrightarrow> case f v of (Inr x, v') \<Rightarrow> Q x v' | (Inl e, v') \<Rightarrow> E e v') \<Longrightarrow> triple P f Q E"
  by (simp add: triple_def)

lemma tripleD: "triple P f Q E \<Longrightarrow> P v \<Longrightarrow> case f v of (Inr x, v') \<Rightarrow> Q x v' | (Inl e, v') \<Rightarrow> E e v'"
  by (simp add: triple_def)

lemma triple_weaken:
  "triple P' f Q' E' \<Longrightarrow> (\<And>v. P v \<Longrightarrow> P' v) \<Longrightarrow> (\<And>x v. Q' x v \<Longrightarrow> Q x v) \<Longrightarrow> (\<And>e v. E' e v \<Longrightarrow> E e v)
     \<Longrightarrow> triple P f Q E"
  by (fastforce simp: triple_def split: prod.splits sum.splits)

lemma triple_bind:
  assumes "triple P f Q E" and "\<And>x. triple (Q x) (g x) R E"
  shows "triple P (bind_step f g) R E"
proof (rule tripleI)
  fix v :: run_vars assume "P v"
  show "case bind_step f g v of (Inr x, v') \<Rightarrow> R x v' | (Inl e, v') \<Rightarrow> E e v'"
  proof (cases "f v")
    case (Pair r v1)
    with tripleD [OF assms(1) \<open>P v\<close>] tripleD [OF assms(2)] show ?thesis
      by (cases r) (auto simp: bind_step_def)
  qed
qed

lemma triple_return: "(\<And>v. P v \<Longrightarrow> Q x v) \<Longrightarrow> triple P (return_step x) Q E"
  by (simp add: triple_def return_step_def)

lemma triple_raise: "(\<And>v. P v \<Longrightarrow> E e v) \<Longrightarrow> triple P (raise_step e) Q E"
  by (simp add: triple_def raise_step_def)

text \<open>A step that depends on the state it starts in.\<close>

lemma triple_get: "(\<And>v0. P v0 \<Longrightarrow> triple (\<lambda>v. v = v0) (f v0) Q E) \<Longrightarrow> triple P (\<lambda>v. f v v) Q E"
  by (fastforce simp: triple_def)

subsection \<open>What the failure path depends on\<close>

fun said_outcome :: "payload \<Rightarrow> run_outcome option" where
  "said_outcome (OutcomeEmitted out _) = Some out"
| "said_outcome _ = None"

definition said_outcomes :: "payload list \<Rightarrow> run_outcome list" where
  "said_outcomes ps = List.map_filter said_outcome ps"

lemma said_outcomes_simps [simp]:
  "said_outcomes [] = []"
  "said_outcomes (p # ps) = (case said_outcome p of None \<Rightarrow> said_outcomes ps | Some out \<Rightarrow> out # said_outcomes ps)"
  "said_outcomes (ps @ qs) = said_outcomes ps @ said_outcomes qs"
  by (simp_all add: said_outcomes_def List.map_filter_def split: option.split)

type_synonym run_view = "run_status \<times> run_outcome option \<times> run_status list \<times> run_outcome list"

definition view :: "run_vars \<Rightarrow> run_view" where
  "view v = (cur_status v, done_outcome v, statuses (run_log v), said_outcomes (run_log v))"

definition quiet :: "payload \<Rightarrow> bool" where
  "quiet p \<longleftrightarrow> status_of_payload p = None \<and> said_outcome p = None"

lemma quiet_list:
  "list_all quiet ps \<Longrightarrow> statuses ps = [] \<and> said_outcomes ps = []"
  by (induction ps) (simp_all add: quiet_def)

lemma quiet_cell_event: "cell_event p \<Longrightarrow> quiet p"
  by (cases p) (simp_all add: cell_event_def quiet_def)

lemma quiet_cell_events:
  assumes "list_all cell_event ps"
  shows "statuses ps = []" "said_outcomes ps = []"
  using quiet_list [of ps] assms quiet_cell_event by (auto simp: list_all_iff)

lemma run_log_event [simp]:
  "run_log (log_event p v) = run_log v @ [p]" "cur_status (log_event p v) = cur_status v"
  "done_outcome (log_event p v) = done_outcome v"
  by (simp_all add: run_log_def log_event_def)

lemma view_quiet_event [simp]: "quiet p \<Longrightarrow> view (log_event p v) = view v"
  by (simp add: view_def quiet_def)

lemma view_quiet_events: "list_all quiet ps \<Longrightarrow> view (fold log_event ps v) = view v"
  by (induction ps arbitrary: v) simp_all

text \<open>A run that is not disturbed: the ledger stores what it is given and nobody cancels.\<close>

fun undisturbed :: "batch_end \<Rightarrow> bool" where
  "undisturbed Batch_stalled = True"
| "undisturbed Batch_interrupted = False"
| "undisturbed (Batch_done answers) = (Cell_cancelled \<notin> set answers)"

definition reliable :: "company_env \<Rightarrow> bool" where
  "reliable env \<longleftrightarrow>
     (\<forall>log p. ce_fate env log p = Stored) \<and>
     (\<forall>req r. fst (ce_compile env req r) \<noteq> Inl Cancelled) \<and>
     (\<forall>wc r. ce_plan env wc r \<noteq> Inl Cancelled) \<and>
     (\<forall>c. \<not> ce_verify_cancelled env c) \<and>
     (\<forall>r cs wc tools c. undisturbed (fst (ce_batch env r cs wc tools c)))"

lemma reliable_batch: "reliable env \<Longrightarrow> ce_batch env r cs wc tools c = (b, c') \<Longrightarrow> undisturbed b"
  unfolding reliable_def by (metis fst_conv)

text \<open>Silent steps never change the view, and are only cancelled from outside.\<close>

definition silent :: "company_env \<Rightarrow> 'a step \<Rightarrow> bool" where
  "silent env f \<longleftrightarrow> (\<forall>v. view (snd (f v)) = view v \<and> (reliable env \<longrightarrow> fst (f v) \<noteq> Inl Cancelled))"

lemma silentD: "silent env f \<Longrightarrow> f v = (res, v') \<Longrightarrow> view v' = view v \<and> (reliable env \<longrightarrow> res \<noteq> Inl Cancelled)"
  by (metis silent_def fst_conv snd_conv)

lemma silent_return [intro, simp]: "silent env (return_step x)"
  by (simp add: silent_def return_step_def)

lemma silent_raise [simp]: "silent env (raise_step e) \<longleftrightarrow> \<not> (reliable env \<and> e = Cancelled)"
  by (auto simp: silent_def raise_step_def)

lemma silent_bind_value:
  assumes "silent env f" and "\<And>x v v'. f v = (Inr x, v') \<Longrightarrow> silent env (g x)"
  shows "silent env (bind_step f g)"
  unfolding silent_def
proof
  fix v :: run_vars
  obtain res v' where f: "f v = (res, v')" by fastforce
  show "view (snd (bind_step f g v)) = view v \<and> (reliable env \<longrightarrow> fst (bind_step f g v) \<noteq> Inl Cancelled)"
  proof (cases res)
    case (Inl e)
    with f silentD [OF assms(1) f] show ?thesis by (simp add: bind_step_def)
  next
    case (Inr x)
    with f silentD [OF assms(1) f] assms(2) [of v x v'] show ?thesis by (simp add: bind_step_def silent_def)
  qed
qed

lemma silent_bind [intro]: "silent env f \<Longrightarrow> (\<And>x. silent env (g x)) \<Longrightarrow> silent env (bind_step f g)"
  by (rule silent_bind_value)

lemma append_event_view:
  "append_event env p v = (fate, v') \<Longrightarrow> fate = ce_fate env (run_log v) p \<and> v' = (if is_stored fate then log_event p v else v)"
  by (auto simp: append_event_def Let_def)

lemma silent_emit [intro]: "quiet p \<Longrightarrow> silent env (company_emit env p)"
  by (auto simp: silent_def company_emit_def append_event_def reliable_def Let_def split: emit_fate.split)

subsection \<open>The interface of the cell executor\<close>

locale cell_executor =
  fixes batch :: executor
  assumes batch_events: "batch r cs wc tools c = (b, c') \<Longrightarrow> emits_only cell_event (co_run c) (co_run c')"
    and batch_length: "batch r cs wc tools c = (Batch_done answers, c') \<Longrightarrow> length answers = length cs"
    and batch_unverified: "batch r cs wc tools c = (Batch_done answers, c') \<Longrightarrow>
          Cell_outcome Outcome_VERIFIED \<notin> set answers"
begin

lemma batch_view: "batch r cs wc tools (co v) = (b, c') \<Longrightarrow> view (v\<lparr>co := c'\<rparr>) = view v"
  using batch_events [of r cs wc tools "co v" b c'] quiet_cell_events
  by (auto simp: view_def run_log_def emits_only_def)

lemma silent_run_batch:
  assumes "ce_batch env = batch"
  shows "silent env (run_batch env r cs wc)"
  unfolding silent_def
proof
  fix v :: run_vars
  obtain b c' where b: "batch r cs wc (build_tool_defs (ce_tools env) wc) (co v) = (b, c')" by fastforce
  have "view (v\<lparr>co := c'\<rparr>) = view v" using b by (rule batch_view)
  with b show "view (snd (run_batch env r cs wc v)) = view v
      \<and> (reliable env \<longrightarrow> fst (run_batch env r cs wc v) \<noteq> Inl Cancelled)"
    using reliable_batch [of env r cs wc _ "co v" b c'] by (cases b) (auto simp: run_batch_def assms)
qed

lemma silent_exhausted_or: "silent env (exhausted_or env w)"
proof -
  have "silent env (\<lambda>v. company_emit env (BudgetUpdated (used (co_run (co v))) True) v)"
    using silent_emit [of "BudgetUpdated u True" env for u] by (simp add: silent_def quiet_def)
  then have "silent env (bind_step (emit_budget_exhausted env) (\<lambda>_. return_step (Wave_outcome Outcome_ABSTAINED)))"
    unfolding emit_budget_exhausted_def by blast
  then show ?thesis by (simp add: silent_def exhausted_or_def)
qed

lemma silent_read_only_wave:
  assumes "ce_batch env = batch"
  shows "silent env (read_only_wave env r wc cs completed failed)"
  unfolding read_only_wave_def
  using silent_run_batch [OF assms]
  by (auto simp: quiet_def intro!: silent_bind silent_emit silent_exhausted_or split: batch_end.split wave_end.split)

lemma run_batch_reliable:
  assumes "reliable env" and "run_batch env r cs wc v = (Inr (Batch_done answers), v')"
  shows "Cell_cancelled \<notin> set answers"
proof -
  obtain b c' where b: "ce_batch env r cs wc (build_tool_defs (ce_tools env) wc) (co v) = (b, c')" by fastforce
  with assms(2) have "b = Batch_done answers" by (cases b) (auto simp: run_batch_def)
  with reliable_batch [OF assms(1) b] show ?thesis by simp
qed

lemma silent_mutating_wave:
  assumes "ce_batch env = batch"
  shows "silent env (mutating_wave env r wc cs completed failed)"
proof (induction cs arbitrary: completed failed)
  case (Cons c cs)
  have next_wave: "silent env (bind_step (exhausted_or env (Wave_next (List.insert (gc_id c) completed) failed))
      (\<lambda>w. case w of Wave_outcome out \<Rightarrow> return_step (Wave_outcome out)
           | Wave_next completed' failed' \<Rightarrow> mutating_wave env r wc cs completed' failed'))"
    by (rule silent_bind [OF silent_exhausted_or]) (simp add: Cons.IH split: wave_end.split)
  have stall: "silent env (bind_step (company_emit env (StallDetected (gc_id c)))
      (\<lambda>_. return_step (Wave_outcome Outcome_ABSTAINED)))"
    by (rule silent_bind) (simp_all add: silent_emit quiet_def)
  show ?case
    unfolding mutating_wave.simps
  proof (rule silent_bind_value [OF silent_run_batch [OF assms]])
    fix b and v v' :: run_vars
    assume "run_batch env r [c] wc v = (Inr b, v')"
    then have "\<not> (reliable env \<and> (\<exists>rest. b = Batch_done (Cell_cancelled # rest)))"
      using run_batch_reliable by fastforce
    then show "silent env (case b of
         Batch_done (Cell_outcome out # _) \<Rightarrow> return_step (Wave_outcome out)
       | Batch_done (Cell_error m # _) \<Rightarrow> raise_step (Failure m)
       | Batch_done (Cell_cancelled # _) \<Rightarrow> raise_step Cancelled
       | Batch_done _ \<Rightarrow> bind_step (exhausted_or env (Wave_next (List.insert (gc_id c) completed) failed))
           (\<lambda>w. case w of Wave_outcome out \<Rightarrow> return_step (Wave_outcome out)
             | Wave_next completed' failed' \<Rightarrow> mutating_wave env r wc cs completed' failed')
       | _ \<Rightarrow> bind_step (company_emit env (StallDetected (gc_id c))) (\<lambda>_. return_step (Wave_outcome Outcome_ABSTAINED)))"
      using next_wave stall by (cases b) (simp_all split: list.split cell_answer.split, blast)
  qed
qed simp

lemma silent_execute_waves:
  assumes "ce_batch env = batch"
  shows "silent env (execute_waves env r wc g waves completed failed)"
proof (induction waves arbitrary: completed failed)
  case (Suc waves)
  show ?case
    by (auto simp: Let_def intro!: silent_bind silent_read_only_wave [OF assms] silent_mutating_wave [OF assms]
        Suc.IH split: wave_end.split)
qed simp

text \<open>A short circuit is never a verification.\<close>

lemma settle_unverified:
  "Cell_outcome Outcome_VERIFIED \<notin> snd ` set zs \<Longrightarrow> settle zs completed failed \<noteq> Wave_outcome Outcome_VERIFIED"
  by (induction zs completed failed rule: settle.induct) (auto split: cell_answer.split)

abbreviation unverified_wave :: "wave_end step \<Rightarrow> bool" where
  "unverified_wave f \<equiv> triple (\<lambda>v. True) f (\<lambda>w v. w \<noteq> Wave_outcome Outcome_VERIFIED) (\<lambda>e v. True)"

lemma batch_answers_unverified:
  assumes "ce_batch env = batch"
  shows "triple (\<lambda>v. True) (run_batch env r cs wc)
    (\<lambda>b v. case b of Batch_done answers \<Rightarrow> Cell_outcome Outcome_VERIFIED \<notin> set answers | _ \<Rightarrow> True) (\<lambda>e v. True)"
proof (rule tripleI)
  fix v :: run_vars
  obtain b c' where b: "batch r cs wc (build_tool_defs (ce_tools env) wc) (co v) = (b, c')" by fastforce
  with batch_unverified show "case run_batch env r cs wc v of
      (Inr b, v') \<Rightarrow> (case b of Batch_done answers \<Rightarrow> Cell_outcome Outcome_VERIFIED \<notin> set answers | _ \<Rightarrow> True)
    | (Inl e, v') \<Rightarrow> True"
    by (cases b) (auto simp: run_batch_def assms)
qed

lemma abstains_unverified: "unverified_wave (bind_step (company_emit env p) (\<lambda>_. return_step (Wave_outcome Outcome_ABSTAINED)))"
  by (rule triple_bind [where Q = "\<lambda>_ _. True"]) (auto simp: triple_def return_step_def split: prod.split sum.split)

lemma exhausted_or_unverified:
  "w \<noteq> Wave_outcome Outcome_VERIFIED \<Longrightarrow> unverified_wave (exhausted_or env w)"
  using abstains_unverified [of env]
  by (auto simp: exhausted_or_def triple_def emit_budget_exhausted_def bind_step_def
      split: prod.split sum.split)

lemma read_only_wave_unverified:
  assumes "ce_batch env = batch"
  shows "unverified_wave (read_only_wave env r wc cs completed failed)"
proof (cases "cs = []")
  case False
  have step: "triple (\<lambda>v. case b of Batch_done answers \<Rightarrow> Cell_outcome Outcome_VERIFIED \<notin> set answers | _ \<Rightarrow> True)
      (case b of Batch_done answers \<Rightarrow> (case settle (zip cs answers) completed failed of
           Wave_outcome out \<Rightarrow> return_step (Wave_outcome out) | next_end \<Rightarrow> exhausted_or env next_end)
        | _ \<Rightarrow> bind_step (company_emit env (StallDetected [])) (\<lambda>_. return_step (Wave_outcome Outcome_ABSTAINED)))
      (\<lambda>w v. w \<noteq> Wave_outcome Outcome_VERIFIED) (\<lambda>e v. True)" for b
  proof (cases b)
    case (Batch_done answers)
    show ?thesis
    proof (cases "Cell_outcome Outcome_VERIFIED \<in> set answers")
      case False
      then have "settle (zip cs answers) completed failed \<noteq> Wave_outcome Outcome_VERIFIED"
        by (intro settle_unverified) (auto dest: set_zip_rightD)
      with Batch_done show ?thesis
        by (cases "settle (zip cs answers) completed failed")
          (auto intro: triple_return triple_weaken [OF exhausted_or_unverified])
    qed (use Batch_done in \<open>simp add: triple_def\<close>)
  qed (use triple_weaken [OF abstains_unverified] in auto)
  with False show ?thesis
    using triple_bind [OF batch_answers_unverified [OF assms] step] by (simp add: read_only_wave_def)
qed (simp add: read_only_wave_def triple_def return_step_def)

lemma mutating_wave_unverified:
  assumes "ce_batch env = batch"
  shows "unverified_wave (mutating_wave env r wc cs completed failed)"
proof (induction cs arbitrary: completed failed)
  case (Cons c cs)
  have next_wave: "unverified_wave (bind_step (exhausted_or env (Wave_next (List.insert (gc_id c) completed) failed))
      (\<lambda>w. case w of Wave_outcome out \<Rightarrow> return_step (Wave_outcome out)
           | Wave_next completed' failed' \<Rightarrow> mutating_wave env r wc cs completed' failed'))"
    by (rule triple_bind [OF exhausted_or_unverified])
      (auto intro: triple_return triple_weaken [OF Cons.IH] split: wave_end.split)
  show ?case
    unfolding mutating_wave.simps
  proof (rule triple_bind [OF batch_answers_unverified [OF assms]])
    fix b
    let ?P = "\<lambda>v. case b of Batch_done answers \<Rightarrow> Cell_outcome Outcome_VERIFIED \<notin> set answers | _ \<Rightarrow> True"
    show "triple ?P (case b of
         Batch_done (Cell_outcome out # _) \<Rightarrow> return_step (Wave_outcome out)
       | Batch_done (Cell_error m # _) \<Rightarrow> raise_step (Failure m)
       | Batch_done (Cell_cancelled # _) \<Rightarrow> raise_step Cancelled
       | Batch_done _ \<Rightarrow> bind_step (exhausted_or env (Wave_next (List.insert (gc_id c) completed) failed))
           (\<lambda>w. case w of Wave_outcome out \<Rightarrow> return_step (Wave_outcome out)
             | Wave_next completed' failed' \<Rightarrow> mutating_wave env r wc cs completed' failed')
       | _ \<Rightarrow> bind_step (company_emit env (StallDetected (gc_id c))) (\<lambda>_. return_step (Wave_outcome Outcome_ABSTAINED)))
      (\<lambda>w v. w \<noteq> Wave_outcome Outcome_VERIFIED) (\<lambda>e v. True)"
      using triple_weaken [OF next_wave, of ?P] triple_weaken [OF abstains_unverified, of ?P]
      by (auto intro: triple_return triple_raise split: batch_end.split list.split cell_answer.split)
  qed
qed (simp add: triple_def return_step_def)

lemma execute_waves_unverified:
  assumes "ce_batch env = batch"
  shows "triple (\<lambda>v. True) (execute_waves env r wc g waves completed failed)
    (\<lambda>out v. out \<noteq> Some Outcome_VERIFIED) (\<lambda>e v. True)"
proof (induction waves arbitrary: completed failed)
  case (Suc waves)
  show ?case
    by (auto simp: Let_def intro!: triple_return triple_bind [OF read_only_wave_unverified [OF assms]]
        triple_bind [OF mutating_wave_unverified [OF assms]] triple_weaken [OF Suc.IH] split: wave_end.split)
qed (simp add: triple_def return_step_def)

end

subsection \<open>The chain of statuses\<close>

text \<open>The local status and outcome, the ledger's status, and the outcomes said so far.\<close>

fun phase :: "run_status \<Rightarrow> run_status \<Rightarrow> run_outcome option \<Rightarrow> run_outcome list \<Rightarrow> run_view \<Rightarrow> bool" where
  "phase c0 s d0 os0 (c, d, ss, os) \<longleftrightarrow>
     c = c0 \<and> d = d0 \<and> os = os0 \<and> legal_path INTAKE ss \<and> last (INTAKE # ss) = s"

text \<open>The end of a run that returns.\<close>

fun ended :: "run_outcome \<Rightarrow> run_view \<Rightarrow> bool" where
  "ended out (c, d, ss, os) \<longleftrightarrow>
     os = [out] \<and> legal_path INTAKE ss \<and> last (INTAKE # ss) = outcome_to_status out"

text \<open>What holds when an exception leaves the body.\<close>

fun caught :: "company_env \<Rightarrow> run_exception \<Rightarrow> run_view \<Rightarrow> bool" where
  "caught env e (c, d, ss, os) \<longleftrightarrow>
     legal_path INTAKE ss \<and> \<not> is_terminal c
     \<and> (case d of
          None \<Rightarrow> os = [] \<and> \<not> is_terminal (last (INTAKE # ss))
        | Some out \<Rightarrow> os = [out] \<and>
            (last (INTAKE # ss) = c \<or> c = EXECUTING \<and> last (INTAKE # ss) = VERIFYING
             \<or> e = Cancelled \<and> last (INTAKE # ss) = outcome_to_status out))
     \<and> (reliable env \<longrightarrow> e \<noteq> Cancelled \<and> d = None)"

abbreviation vtriple ::
  "company_env \<Rightarrow> (run_view \<Rightarrow> bool) \<Rightarrow> 'a step \<Rightarrow> ('a \<Rightarrow> run_view \<Rightarrow> bool) \<Rightarrow> bool" where
  "vtriple env P f Q \<equiv> triple (\<lambda>v. P (view v)) f (\<lambda>x v. Q x (view v)) (\<lambda>e v. caught env e (view v))"

lemma view_status_event [simp]:
  "view (log_event (StatusChanged s) v) =
     (case view v of (c, d, ss, os) \<Rightarrow> (c, d, ss @ [s], os))"
  by (simp add: view_def)

lemma view_outcome_event [simp]:
  "view (log_event (OutcomeEmitted out reason) v) =
     (case view v of (c, d, ss, os) \<Rightarrow> (c, d, ss, os @ [out]))"
  by (simp add: view_def)

lemma view_vars [simp]:
  "view (v\<lparr>cur_status := s\<rparr>) = (case view v of (c, d, ss, os) \<Rightarrow> (s, d, ss, os))"
  "view (v\<lparr>done_outcome := o'\<rparr>) = (case view v of (c, d, ss, os) \<Rightarrow> (c, o', ss, os))"
  by (simp_all add: view_def run_log_def)

lemma view_fst: "view v = (c, d, ss, os) \<Longrightarrow> cur_status v = c \<and> done_outcome v = d"
  by (simp add: view_def)

text \<open>One emission of a status, by what the ledger and the canceller do.\<close>

lemma phase_vars: "phase c s d os (view v) \<Longrightarrow> cur_status v = c \<and> done_outcome v = d"
  by (cases "view v") (auto dest: view_fst)

lemma phase_status:
  "phase c s d os (view v) \<Longrightarrow> can_transition s t \<Longrightarrow> phase c t d os (view (log_event (StatusChanged t) v))"
  by (cases "view v") (simp add: legal_path_append del: can_transition_simps)

lemma phase_outcome:
  "phase c s d os (view v) \<Longrightarrow> phase c s d (os @ [out]) (view (log_event (OutcomeEmitted out reason) v))"
  by (cases "view v") simp

lemma phase_set:
  "phase c s d os (view v) \<Longrightarrow> phase c' s d os (view (v\<lparr>cur_status := c'\<rparr>))"
  "phase c s d os (view v) \<Longrightarrow> phase c s d' os (view (v\<lparr>done_outcome := d'\<rparr>))"
  by (cases "view v"; simp)+

lemma phase_ended: "phase c (outcome_to_status out) d [out] w \<Longrightarrow> ended out w"
  by (cases w) simp

lemma phase_caught:
  assumes "phase c s None [] w" and "\<not> is_terminal c" and "\<not> is_terminal s"
    and "reliable env \<Longrightarrow> e \<noteq> Cancelled"
  shows "caught env e w"
  using assms by (cases w) auto

lemma phase_caught_done:
  assumes "phase c s (Some out) [out] w" and "\<not> is_terminal c" and "\<not> reliable env"
    and "s = c \<or> c = EXECUTING \<and> s = VERIFYING \<or> e = Cancelled \<and> s = outcome_to_status out"
  shows "caught env e w"
  using assms by (cases w) auto

lemma transition_source: "can_transition s t \<Longrightarrow> \<not> is_terminal s"
  by (cases s) simp_all

lemma emit_fates:
  "company_emit env p v = (case ce_fate env (run_log v) p of
      Stored \<Rightarrow> (Inr (), log_event p v)
    | Refused m \<Rightarrow> (Inl (Failure m), v)
    | Stored_cancelled \<Rightarrow> (Inl Cancelled, log_event p v)
    | Refused_cancelled m \<Rightarrow> (Inl Cancelled, v))"
  by (simp add: company_emit_def append_event_def Let_def split: emit_fate.split)

lemma advance_fates:
  "can_transition (cur_status v) t \<Longrightarrow> advance env t v =
     (case ce_fate env (run_log v) (StatusChanged t) of
        Stored \<Rightarrow> (Inr (), (log_event (StatusChanged t) v)\<lparr>cur_status := t\<rparr>)
      | Refused m \<Rightarrow> (Inl (Failure m), v)
      | Stored_cancelled \<Rightarrow> (Inl Cancelled, log_event (StatusChanged t) v)
      | Refused_cancelled m \<Rightarrow> (Inl Cancelled, v))"
  by (simp add: advance_def emit_status_def bind_step_def emit_fates set_status_def split: emit_fate.split)

lemma reliable_fate: "\<not> reliable env \<or> ce_fate env ps p = Stored"
  by (auto simp: reliable_def)

lemma triple_quiet:
  assumes "silent env f"
    and "\<And>w e. P w \<Longrightarrow> (reliable env \<Longrightarrow> e \<noteq> Cancelled) \<Longrightarrow> caught env e w"
  shows "vtriple env P f (\<lambda>_. P)"
proof (rule tripleI)
  fix v :: run_vars assume P: "P (view v)"
  obtain res v' where f: "f v = (res, v')" by fastforce
  with silentD [OF assms(1) f] P assms(2) [OF P]
  show "case f v of (Inr x, v') \<Rightarrow> P (view v') | (Inl e, v') \<Rightarrow> caught env e (view v')"
    by (cases res) auto
qed

lemma quiet_phase:
  "silent env f \<Longrightarrow> \<not> is_terminal c \<Longrightarrow> \<not> is_terminal s \<Longrightarrow>
     vtriple env (phase c s None []) f (\<lambda>_. phase c s None [])"
  by (rule triple_quiet) (auto intro: phase_caught simp del: is_terminal_iff)

lemma triple_advance:
  assumes "can_transition s t" and "\<not> is_terminal t"
  shows "vtriple env (phase s s None []) (advance env t) (\<lambda>_. phase t t None [])"
proof (rule tripleI)
  fix v :: run_vars assume P: "phase s s None [] (view v)"
  note stored = phase_status [OF P assms(1)]
  have s: "\<not> is_terminal s" using assms(1) by (rule transition_source)
  show "case advance env t v of (Inr x, v') \<Rightarrow> phase t t None [] (view v') | (Inl e, v') \<Rightarrow> caught env e (view v')"
    using advance_fates [of v t env] phase_vars [OF P] reliable_fate [of env "run_log v" "StatusChanged t"]
      assms(1) phase_set(1) [OF stored] phase_caught [OF P s s, of env]
      phase_caught [OF stored s assms(2), of env Cancelled]
    by (cases "ce_fate env (run_log v) (StatusChanged t)") (auto simp del: is_terminal_iff can_transition_simps)
qed

lemma triple_verifying:
  "vtriple env (phase EXECUTING EXECUTING None []) (\<lambda>v. emit_status env VERIFYING (cur_status v) v)
     (\<lambda>_. phase EXECUTING VERIFYING None [])"
proof (rule tripleI)
  fix v :: run_vars assume P: "phase EXECUTING EXECUTING None [] (view v)"
  have stored: "phase EXECUTING VERIFYING None [] (view (log_event (StatusChanged VERIFYING) v))"
    using phase_status [OF P] by simp
  show "case emit_status env VERIFYING (cur_status v) v of
      (Inr x, v') \<Rightarrow> phase EXECUTING VERIFYING None [] (view v') | (Inl e, v') \<Rightarrow> caught env e (view v')"
    using phase_vars [OF P] reliable_fate [of env "run_log v" "StatusChanged VERIFYING"] stored
      phase_caught [OF P, of env] phase_caught [OF stored, of env]
    by (cases "ce_fate env (run_log v) (StatusChanged VERIFYING)") (auto simp: emit_status_def emit_fates)
qed

lemma shielded_fates:
  "emit_shielded env p v = (case ce_fate env (run_log v) p of
      Stored \<Rightarrow> (Inr False, log_event p v)
    | Stored_cancelled \<Rightarrow> (Inr True, log_event p v)
    | Refused m \<Rightarrow> (Inl (Failure m), v)
    | Refused_cancelled m \<Rightarrow> (Inl (Failure m), v))"
  by (simp add: emit_shielded_def append_event_def Let_def split: emit_fate.split)

lemma triple_outcome:
  assumes "\<not> is_terminal c" and "\<not> is_terminal s"
  shows "vtriple env (phase c s None []) (emit_terminal_outcome env out reason)
    (\<lambda>cancelled w. phase c s None [out] w \<and> \<not> (reliable env \<and> cancelled))"
proof (rule tripleI)
  fix v :: run_vars assume P: "phase c s None [] (view v)"
  show "case emit_terminal_outcome env out reason v of
      (Inr x, v') \<Rightarrow> phase c s None [out] (view v') \<and> \<not> (reliable env \<and> x)
    | (Inl e, v') \<Rightarrow> caught env e (view v')"
    using reliable_fate [of env "run_log v" "OutcomeEmitted out reason"] phase_outcome [OF P, of out reason]
      phase_caught [OF P assms, of env]
    by (cases "ce_fate env (run_log v) (OutcomeEmitted out reason)")
      (auto simp: emit_terminal_outcome_def shielded_fates simp del: is_terminal_iff)
qed

lemma triple_conclude:
  assumes "\<not> is_terminal c" and "s = c \<or> c = EXECUTING \<and> s = VERIFYING"
  shows "vtriple env (\<lambda>w. phase c s None [out] w \<and> \<not> (reliable env \<and> cancelled)) (conclude out cancelled)
    (\<lambda>_. phase c s (Some out) [out])"
proof (rule tripleI)
  fix v :: run_vars assume P: "phase c s None [out] (view v) \<and> \<not> (reliable env \<and> cancelled)"
  then have "phase c s (Some out) [out] (view (v\<lparr>done_outcome := Some out\<rparr>))"
    by (intro phase_set(2)) blast
  with P assms phase_caught_done [of c s out "view (v\<lparr>done_outcome := Some out\<rparr>)" env Cancelled]
  show "case conclude out cancelled v of
      (Inr x, v') \<Rightarrow> phase c s (Some out) [out] (view v') | (Inl e, v') \<Rightarrow> caught env e (view v')"
    by (auto simp: conclude_def bind_step_def set_outcome_def raise_step_def return_step_def
        simp del: is_terminal_iff view_vars)
qed

text \<open>The final status: \<open>s\<close> is the ledger's status, \<open>frm\<close> the one passed to the check.\<close>

lemma final_emission:
  assumes "phase c s (Some out) [out] (view v)" and "\<not> is_terminal c"
    and "s = c \<or> c = EXECUTING \<and> s = VERIFYING"
    and "can_transition s (outcome_to_status out)" and "can_transition frm (outcome_to_status out)"
  shows "case emit_status env (outcome_to_status out) frm v of
      (Inr x, v') \<Rightarrow> ended out (view v') \<and> phase c (outcome_to_status out) (Some out) [out] (view v')
    | (Inl e, v') \<Rightarrow> caught env e (view v')"
proof -
  let ?p = "StatusChanged (outcome_to_status out)"
  note stored = phase_status [OF assms(1,4)]
  show ?thesis
    using reliable_fate [of env "run_log v" ?p] assms(5) stored phase_ended [OF stored]
      phase_caught_done [OF assms(1,2), of env] phase_caught_done [OF stored assms(2), of env Cancelled] assms(3)
    by (cases "ce_fate env (run_log v) ?p")
      (auto simp: emit_status_def emit_fates simp del: is_terminal_iff can_transition_simps)
qed

lemma triple_final:
  assumes "\<not> is_terminal c" and "s = c \<or> c = EXECUTING \<and> s = VERIFYING"
    and "can_transition s (outcome_to_status out)" and "can_transition frm (outcome_to_status out)"
  shows "vtriple env (phase c s (Some out) [out]) (emit_status env (outcome_to_status out) frm) (\<lambda>_. ended out)"
  using final_emission [OF _ assms] by (fastforce intro!: tripleI split: prod.splits sum.splits)

subsection \<open>The parts of a run\<close>

lemma silent_judge: "silent env (judge env wc g)"
  unfolding silent_def
proof
  fix v :: run_vars
  have "view (v\<lparr>co := (co v)\<lparr>co_gates := gates\<rparr>\<rparr>) = view v" for gates
    by (simp add: view_def run_log_def)
  then show "view (snd (judge env wc g v)) = view v \<and> (reliable env \<longrightarrow> fst (judge env wc g v) \<noteq> Inl Cancelled)"
    by (auto simp: judge_def Let_def reliable_def split: prod.split sum.split)
qed

lemma silent_emit_evidence: "silent env (emit_evidence env out hard disagreement)"
  using silent_emit [of "evidence_payload out hard disagreement u tools" env for u tools]
  by (simp add: silent_def emit_evidence_def quiet_def evidence_payload_def)

lemma triple_verify_and_finish:
  "vtriple env (phase EXECUTING EXECUTING None []) (verify_and_finish env wc g)
     (\<lambda>(out, cancelled) w. phase EXECUTING VERIFYING None [out] w \<and> \<not> (reliable env \<and> cancelled))"
proof -
  have budget: "silent env (\<lambda>v. company_emit env (BudgetUpdated (used (co_run (co v))) False) v)"
    using silent_emit [of "BudgetUpdated u False" env for u] by (simp add: silent_def quiet_def)
  show ?thesis
    unfolding verify_and_finish_def
    by (intro triple_bind [OF quiet_phase [OF budget]] triple_bind [OF triple_verifying]
        triple_bind [OF quiet_phase [OF silent_judge]])
      (auto intro!: triple_bind [OF quiet_phase [OF silent_emit_evidence]]
        triple_bind [OF triple_outcome] triple_return split: prod.split)
qed

lemma triple_detour:
  "vtriple env (phase EXECUTING EXECUTING (Some out) [out]) (advance env VERIFYING)
     (\<lambda>_. phase VERIFYING VERIFYING (Some out) [out])"
proof (rule tripleI)
  fix v :: run_vars assume P: "phase EXECUTING EXECUTING (Some out) [out] (view v)"
  have stored: "phase EXECUTING VERIFYING (Some out) [out] (view (log_event (StatusChanged VERIFYING) v))"
    using phase_status [OF P] by simp
  show "case advance env VERIFYING v of (Inr x, v') \<Rightarrow> phase VERIFYING VERIFYING (Some out) [out] (view v')
    | (Inl e, v') \<Rightarrow> caught env e (view v')"
    using advance_fates [of v VERIFYING env] phase_vars [OF P]
      reliable_fate [of env "run_log v" "StatusChanged VERIFYING"] phase_set(1) [OF stored]
      phase_caught_done [OF P, of env] phase_caught_done [OF stored, of env Cancelled]
    by (cases "ce_fate env (run_log v) (StatusChanged VERIFYING)") (auto simp del: view_vars)
qed

lemma ended_set_status: "ended out (view v) \<Longrightarrow> ended out (view (v\<lparr>cur_status := t\<rparr>))"
  by (cases "view v") simp

lemma triple_last_advance:
  assumes "can_transition c (outcome_to_status out)"
  shows "vtriple env (phase c c (Some out) [out]) (advance env (outcome_to_status out)) (\<lambda>_. ended out)"
proof (rule tripleI)
  fix v :: run_vars assume P: "phase c c (Some out) [out] (view v)"
  have c: "\<not> is_terminal c" using assms by (rule transition_source)
  obtain res v' where e: "emit_status env (outcome_to_status out) c v = (res, v')" by fastforce
  from final_emission [OF P c _ assms assms, of env] e phase_vars [OF P] ended_set_status [of out v']
  show "case advance env (outcome_to_status out) v of (Inr x, v') \<Rightarrow> ended out (view v')
    | (Inl e, v') \<Rightarrow> caught env e (view v')"
    by (cases res) (auto simp: advance_def bind_step_def set_status_def simp del: view_vars)
qed

lemma triple_short_circuit:
  assumes "out \<noteq> Outcome_VERIFIED"
  shows "vtriple env (phase EXECUTING EXECUTING None []) (short_circuit env out) ended"
proof -
  have routed: "vtriple env (phase EXECUTING EXECUTING (Some out) [out])
      (\<lambda>v. case route (cur_status v) (outcome_to_status out) of
         Inl (IllegalTransition a b) \<Rightarrow> raise_step (Failure (status_value a @ '' -> '' @ status_value b)) v
       | Inr path \<Rightarrow> follow_route env path v) (\<lambda>_. ended out)"
  proof (rule tripleI)
    fix v :: run_vars assume P: "phase EXECUTING EXECUTING (Some out) [out] (view v)"
    have path: "vtriple env (phase EXECUTING EXECUTING (Some out) [out])
        (follow_route env (if out = Outcome_FAILED then [FAILED] else [VERIFYING, ABSTAINED])) (\<lambda>_. ended out)"
    proof (cases out)
      case Outcome_FAILED
      with triple_last_advance [of EXECUTING out env] show ?thesis
        by (auto intro!: triple_bind triple_return)
    next
      case Outcome_ABSTAINED
      with triple_last_advance [of VERIFYING out env] show ?thesis
        by (auto intro!: triple_bind [OF triple_detour] triple_bind triple_return)
    qed (use assms in simp)
    have "route (cur_status v) (outcome_to_status out)
        = Inr (if out = Outcome_FAILED then [FAILED] else [VERIFYING, ABSTAINED])"
      using assms phase_vars [OF P] by (cases out) (simp_all add: route_def detours_def)
    with tripleD [OF path P] show "case (case route (cur_status v) (outcome_to_status out) of
         Inl (IllegalTransition a b) \<Rightarrow> raise_step (Failure (status_value a @ '' -> '' @ status_value b)) v
       | Inr path \<Rightarrow> follow_route env path v) of
       (Inr x, v') \<Rightarrow> ended out (view v') | (Inl e, v') \<Rightarrow> caught env e (view v')"
      by simp
  qed
  show ?thesis
    unfolding short_circuit_def
    by (intro triple_bind [OF quiet_phase [OF silent_emit_evidence]] triple_bind [OF triple_outcome]
        triple_bind [OF triple_conclude] triple_bind [OF routed] triple_return) simp_all
qed

lemma triple_reject:
  "vtriple env (phase CONTRACTED CONTRACTED None []) (reject_graph env g errors) ended"
proof -
  have proposed: "silent env (company_emit env (GraphProposed (gv_version g) (map (ce_error_text env) errors) True))"
    by (simp add: silent_emit quiet_def)
  have last: "vtriple env (phase CONTRACTED CONTRACTED (Some Outcome_ABSTAINED) [Outcome_ABSTAINED])
      (\<lambda>v. emit_status env ABSTAINED (cur_status v) v) (\<lambda>_. ended Outcome_ABSTAINED)"
  proof (rule tripleI)
    fix v :: run_vars assume P: "phase CONTRACTED CONTRACTED (Some Outcome_ABSTAINED) [Outcome_ABSTAINED] (view v)"
    from tripleD [OF triple_final [of CONTRACTED CONTRACTED Outcome_ABSTAINED CONTRACTED env] P] phase_vars [OF P]
    show "case emit_status env ABSTAINED (cur_status v) v of
        (Inr x, v') \<Rightarrow> ended Outcome_ABSTAINED (view v') | (Inl e, v') \<Rightarrow> caught env e (view v')"
      by simp
  qed
  show ?thesis
    unfolding reject_graph_def
    by (intro triple_bind [OF quiet_phase [OF proposed]] triple_bind [OF triple_outcome]
        triple_bind [OF triple_conclude] triple_bind [OF last] triple_return) simp_all
qed

lemma triple_conj:
  "triple P f Q E \<Longrightarrow> triple (\<lambda>v. True) f Q' E' \<Longrightarrow> triple P f (\<lambda>x v. Q x v \<and> Q' x v) E"
  by (fastforce simp: triple_def split: prod.splits sum.splits)

definition intake_quiet :: "company_env \<Rightarrow> bool" where
  "intake_quiet env \<longleftrightarrow> (\<forall>req r. list_all quiet (snd (ce_compile env req r)))"

context cell_executor begin

lemma triple_execute_and_finish:
  assumes "ce_batch env = batch"
  shows "vtriple env (phase EXECUTING EXECUTING None []) (execute_and_finish env r wc g waves completed) ended"
proof -
  have waves: "triple (\<lambda>v. phase EXECUTING EXECUTING None [] (view v)) (execute_waves env r wc g (waves + 1) completed [])
      (\<lambda>out v. phase EXECUTING EXECUTING None [] (view v) \<and> out \<noteq> Some Outcome_VERIFIED)
      (\<lambda>e v. caught env e (view v))"
    by (rule triple_conj [OF quiet_phase [OF silent_execute_waves [OF assms]] execute_waves_unverified [OF assms]])
      simp_all
  have finish: "vtriple env (\<lambda>w. phase EXECUTING VERIFYING None [out] w \<and> \<not> (reliable env \<and> cancelled))
      (bind_step (conclude out cancelled) (\<lambda>_. bind_step (emit_status env (outcome_to_status out) VERIFYING)
        (\<lambda>_. return_step out))) ended" for out cancelled
    by (intro triple_bind [OF triple_conclude] triple_bind [OF triple_final] triple_return)
      (cases out; simp)+
  show ?thesis
    unfolding execute_and_finish_def
  proof (rule triple_bind [OF waves])
    fix cell_outcome
    show "triple (\<lambda>v. phase EXECUTING EXECUTING None [] (view v) \<and> cell_outcome \<noteq> Some Outcome_VERIFIED)
        (case cell_outcome of Some out \<Rightarrow> short_circuit env out
         | None \<Rightarrow> bind_step (verify_and_finish env wc g) (\<lambda>(out, cancelled).
             bind_step (conclude out cancelled) (\<lambda>_.
             bind_step (emit_status env (outcome_to_status out) VERIFYING) (\<lambda>_. return_step out))))
        (\<lambda>out v. ended out (view v)) (\<lambda>e v. caught env e (view v))"
    proof (cases cell_outcome)
      case None
      show ?thesis
        unfolding None option.case
        by (rule triple_weaken [OF triple_bind [OF triple_verify_and_finish]]) (use finish in auto)
    next
      case (Some out)
      show ?thesis
      proof (cases "out = Outcome_VERIFIED")
        case False
        with Some show ?thesis
          by (auto intro!: triple_weaken [OF triple_short_circuit [OF False]])
      qed (use Some in \<open>simp add: triple_def\<close>)
    qed
  qed
qed

lemma triple_run_body:
  assumes "ce_batch env = batch" and "intake_quiet env"
  shows "vtriple env (phase INTAKE INTAKE None []) (run_body env req r) ended"
proof -
  have accepted: "silent env (company_emit env (request_accepted req))"
    by (simp add: silent_emit quiet_def request_accepted_def)
  have compiled: "silent env (compile_step env req r)"
    using assms(2) view_quiet_events by (auto simp: silent_def compile_step_def intake_quiet_def reliable_def
        split: prod.split) (metis snd_conv, metis fst_conv)
  have planned: "silent env (\<lambda>v. (ce_plan env wc r, v))" for wc
    by (auto simp: silent_def reliable_def)
  have graph: "silent env (company_emit env (GraphAccepted (gv_version g) (gv_cells g) (edges g) (milestones g)))" for g
    by (simp add: silent_emit quiet_def)
  have fresh: "silent env (fresh_run a u digests)" for a u digests
    by (simp add: silent_def fresh_run_def view_def run_log_def)
  show ?thesis
    unfolding run_body_def
    by (intro triple_bind [OF quiet_phase [OF accepted]] triple_bind [OF quiet_phase [OF compiled]]
        triple_bind [OF triple_advance] triple_bind [OF quiet_phase [OF planned]])
      (auto simp: Let_def intro!: triple_reject triple_bind [OF quiet_phase [OF graph]]
        triple_bind [OF triple_advance] triple_bind [OF quiet_phase [OF fresh]]
        triple_execute_and_finish [OF assms(1)])
qed

end

subsection \<open>The failure path\<close>

definition twice_ended :: "run_status list \<Rightarrow> bool" where
  "twice_ended ss \<longleftrightarrow> (\<exists>pre out. ss = pre @ [outcome_to_status out, outcome_to_status out]
     \<and> legal_path INTAKE (pre @ [outcome_to_status out]))"

fun stream_ok :: "run_exception \<Rightarrow> run_view \<Rightarrow> bool" where
  "stream_ok e (c, d, ss, os) \<longleftrightarrow>
     length os \<le> 1 \<and> (legal_path INTAKE ss \<or> e = Cancelled \<and> twice_ended ss)"

lemma failed_legal: "\<not> is_terminal s \<Longrightarrow> can_transition s FAILED"
  by (cases s) simp_all

lemma emit_failure_spec:
  assumes "caught env e (view v)" and "emit_failure env reason v = (b, v')"
  shows "stream_ok e (view v') \<and> (\<not> reliable env \<or> \<not> b \<and> done_outcome v' = None \<and> ended Outcome_FAILED (view v'))"
proof -
  obtain c d ss os where v: "view v = (c, d, ss, os)" by (metis prod_cases4)
  have cd: "cur_status v = c" "done_outcome v = d" using view_fst [OF v] by simp_all
  show ?thesis
  proof (cases d)
    case None
    let ?p = "OutcomeEmitted Outcome_FAILED reason"
    let ?v1 = "log_event ?p v"
    let ?fate1 = "ce_fate env (run_log v) ?p" and ?fate2 = "ce_fate env (run_log v @ [?p]) (StatusChanged FAILED)"
    from assms(1) v None have c: "legal_path INTAKE ss" "os = []" "\<not> is_terminal c"
      "\<not> is_terminal (last (INTAKE # ss))" by auto
    have path: "legal_path INTAKE (ss @ [FAILED])"
      using c(1) failed_legal [OF c(4)] by (simp add: legal_path_append)
    have out: "(b, v') = (if \<not> is_stored ?fate1 then (is_interrupted ?fate1, v)
        else (is_interrupted ?fate1 \<or> is_interrupted ?fate2,
              if is_stored ?fate2 then log_event (StatusChanged FAILED) ?v1 else ?v1))"
      using assms(2) cd None failed_legal [OF c(3)]
      by (auto simp: emit_failure_def append_event_def Let_def split: prod.splits if_splits)
    have fates: "\<not> reliable env \<or> ?fate1 = Stored" "\<not> reliable env \<or> ?fate2 = Stored"
      by (rule reliable_fate)+
    show ?thesis
      using out fates c path v cd None
      by (cases "is_stored ?fate1"; cases "is_stored ?fate2") (auto simp del: is_terminal_iff can_transition_simps)
  next
    case (Some out)
    let ?s = "outcome_to_status out"
    let ?fate = "ce_fate env (run_log v) (StatusChanged ?s)"
    from assms(1) v Some have c: "legal_path INTAKE ss" "os = [out]" "\<not> reliable env"
      "last (INTAKE # ss) = c \<or> c = EXECUTING \<and> last (INTAKE # ss) = VERIFYING
         \<or> e = Cancelled \<and> last (INTAKE # ss) = ?s" by auto
    have out: "v' = (if can_transition c ?s \<and> is_stored ?fate then log_event (StatusChanged ?s) v else v)"
      using assms(2) cd Some by (auto simp: emit_failure_def append_event_def Let_def split: prod.splits if_splits)
    have "legal_path INTAKE (ss @ [?s]) \<or> e = Cancelled \<and> twice_ended (ss @ [?s])" if "can_transition c ?s"
      using c(4)
    proof (elim disjE conjE)
      assume "last (INTAKE # ss) = c"
      with c(1) that show ?thesis by (simp add: legal_path_append)
    next
      assume "c = EXECUTING" "last (INTAKE # ss) = VERIFYING"
      with c(1) that show ?thesis by (cases out) (simp_all add: legal_path_append)
    next
      assume "e = Cancelled" and l: "last (INTAKE # ss) = ?s"
      have "ss \<noteq> []" using l by (cases out) auto
      with l have "ss = butlast ss @ [?s]" by (metis append_butlast_last_id last_ConsR)
      with c(1) have "twice_ended (ss @ [?s])"
        unfolding twice_ended_def by (metis append.assoc append_Cons append_Nil)
      with \<open>e = Cancelled\<close> show ?thesis by simp
    qed
    with out v c show ?thesis by auto
  qed
qed

subsection \<open>The cell runner is such an executor\<close>

text \<open>
  \<^verbatim>\<open>_run_cell\<close> over \<open>run_cell\<close>: the cells of a batch one after the other, each with what it does
  to the workspace and the artifacts (\<open>effect\<close>).  A cell that is still running when its fuel ends
  is what the watchdog interrupts.
\<close>

fun answer_of :: "cell_end \<Rightarrow> cell_answer option" where
  "answer_of (Cell_done res) = Some Cell_ok"
| "answer_of (Cell_gave_up out) = Some (Cell_outcome out)"
| "answer_of Ladder_empty = Some (Cell_error ''list index out of range'')"
| "answer_of Out_of_fuel = None"

fun runner_batch ::
  "runner_env \<Rightarrow> nat \<Rightarrow> (graph_cell \<Rightarrow> gate_state \<Rightarrow> gate_state) \<Rightarrow> executor" where
  "runner_batch renv fuel effect r [] wc tools c = (Batch_done [], c)"
| "runner_batch renv fuel effect r (cell # cs) wc tools c =
     (case run_cell renv fuel r cell wc tools (co_run c) of
        (e, st) \<Rightarrow>
          (let c1 = c\<lparr>co_run := st, co_gates := effect cell (co_gates c)\<rparr>
           in case answer_of e of
                None \<Rightarrow> (Batch_stalled, c1)
              | Some a \<Rightarrow>
                  (case runner_batch renv fuel effect r cs wc tools c1 of
                     (Batch_done answers, c2) \<Rightarrow> (Batch_done (a # answers), c2)
                   | other \<Rightarrow> other)))"

lemma run_cell_events:
  assumes "run_cell env fuel r cell wc tools st = (e, st')"
  shows "emits_only cell_event st st' \<and> e \<noteq> Cell_gave_up Outcome_VERIFIED"
proof -
  let ?needs = "if tools = [] then {} else {TOOL_USE}"
  let ?d = "route_cell (env_config env) cell None [] ?needs"
  let ?st1 = "emit_payload (RouteSelected (gc_id cell) (selected_profile ?d) (rd_reason ?d)) st"
  let ?st2 = "emit_payload (CellStarted (gc_id cell) (selected_profile ?d)) ?st1"
  have start: "emits_only cell_event st ?st2"
    by (auto simp: emits_only_def cell_event_def)
  show ?thesis
  proof (cases "rd_abstained ?d")
    case True
    with assms show ?thesis by (auto simp: run_cell_def Let_def emits_only_def cell_event_def)
  next
    case False
    obtain e3 st3 where loop: "attempt_loop env r cell wc tools ?needs (recalled_prompt env cell) fuel
        (selected_profile ?d) (load_checkpoint env (gc_id cell) ?st2) 0 ?st2 = (e3, st3)" by fastforce
    have mid: "emits_only cell_event ?st2 st3 \<and> e3 \<noteq> Cell_gave_up Outcome_VERIFIED"
      using attempt_loop_keep [OF loop] loop_event_cell
      by (cases e3) (auto simp: emits_only_def list_all_iff cell_event_def)
    have "st' = (case e3 of Cell_done res \<Rightarrow> complete_cell env r cell (used st) res st3 | _ \<Rightarrow> st3)" "e = e3"
      using assms False loop by (auto simp: run_cell_def Let_def split: cell_end.splits)
    moreover have "emits_only cell_event st3 (complete_cell env r cell (used st) res st3)" for res
      by (auto simp: emits_only_def complete_cell_def Let_def cell_event_def emit_payload_def
          remember_outcome_def clear_checkpoint_def split: option.split)
    ultimately show ?thesis
      using start mid by (cases e3) (auto intro: emits_only_trans)
  qed
qed

lemma runner_batch_contract:
  assumes "runner_batch renv fuel effect r cs wc tools c = (b, c')"
  shows "emits_only cell_event (co_run c) (co_run c')
    \<and> (case b of Batch_done answers \<Rightarrow> length answers = length cs \<and> Cell_outcome Outcome_VERIFIED \<notin> set answers
                   \<and> Cell_cancelled \<notin> set answers
               | Batch_interrupted \<Rightarrow> False | Batch_stalled \<Rightarrow> True)"
  using assms
proof (induction cs arbitrary: c b c')
  case (Cons cell cs)
  obtain e st where run: "run_cell renv fuel r cell wc tools (co_run c) = (e, st)" by fastforce
  let ?c1 = "c\<lparr>co_run := st, co_gates := effect cell (co_gates c)\<rparr>"
  obtain b2 c2 where rest: "runner_batch renv fuel effect r cs wc tools ?c1 = (b2, c2)" by fastforce
  from Cons.IH [OF rest] run_cell_events [OF run] Cons.prems run rest show ?case
    by (cases e; cases b2) (auto simp: Let_def intro: emits_only_trans)
qed simp

interpretation runner: cell_executor "runner_batch renv fuel effect"
proof
  fix r cs wc tools c b c'
  assume "runner_batch renv fuel effect r cs wc tools c = (b, c')"
  from runner_batch_contract [OF this] show "emits_only cell_event (co_run c) (co_run c')" ..
next
  fix r cs wc tools c answers c'
  assume "runner_batch renv fuel effect r cs wc tools c = (Batch_done answers, c')"
  from runner_batch_contract [OF this]
  show "length answers = length cs" "Cell_outcome Outcome_VERIFIED \<notin> set answers" by simp_all
qed

end
