(* ===== verification/Orchestrator_Properties.thy ===== *)
theory Orchestrator_Properties
  imports Run_Protocol
begin

section \<open>What a run leaves in the ledger\<close>

text \<open>
  The properties of the pipeline: its stream of statuses, its one outcome, what a VERIFIED
  outcome rests on, and what a cancellation at the very end does.
\<close>

subsection \<open>The stream of a run\<close>

lemma guarded_result:
  assumes "vtriple env P body ended" and "P (view v0)" and "guarded env body v0 = (res, v)"
  shows "(case res of Inr out \<Rightarrow> stream_ok (Failure []) (view v) | Inl e \<Rightarrow> e = Cancelled \<and> stream_ok Cancelled (view v))
    \<and> (\<not> reliable env \<or> (\<exists>out. res = Inr out \<and> ended out (view v)))"
proof -
  obtain res1 v1 where body: "body v0 = (res1, v1)" by fastforce
  from tripleD [OF assms(1,2)] body
  have post: "case res1 of Inr out \<Rightarrow> ended out (view v1) | Inl e \<Rightarrow> caught env e (view v1)"
    by (cases res1) auto
  show ?thesis
  proof (cases res1)
    case (Inr out)
    with assms(3) body post show ?thesis by (cases "view v1") (auto simp: guarded_def)
  next
    case (Inl e)
    have caught: "caught env e (view v1)" using post Inl by simp
    show ?thesis
    proof (cases e)
      case Cancelled
      obtain b v2 where f: "emit_failure env ''cancelled'' v1 = (b, v2)" by fastforce
      have "\<not> reliable env" using caught Cancelled by (cases "view v1") auto
      with emit_failure_spec [OF caught f] assms(3) body Inl Cancelled f show ?thesis
        by (auto simp: guarded_def)
    next
      case (Failure m)
      obtain b v2 where f: "emit_failure env (take 500 m) v1 = (b, v2)" by fastforce
      from emit_failure_spec [OF caught f] Failure
      have sp: "stream_ok (Failure m) (view v2)"
        "\<not> reliable env \<or> \<not> b \<and> done_outcome v2 = None \<and> ended Outcome_FAILED (view v2)" by auto
      have ok: "stream_ok e' (view v2)" for e' using sp(1) by (cases "view v2") auto
      from sp(2) ok assms(3) body Inl Failure f show ?thesis
        by (cases b) (auto simp: guarded_def)
    qed
  qed
qed

lemma run_async_result:
  assumes "cell_executor (ce_batch env)" and "intake_quiet env" and "emitted (co_run c) = []"
    and "run_async env req r c = (res, v)"
  shows "(case res of Inr out \<Rightarrow> stream_ok (Failure []) (view v) | Inl e \<Rightarrow> e = Cancelled \<and> stream_ok Cancelled (view v))
    \<and> (\<not> reliable env \<or> (\<exists>out. res = Inr out \<and> ended out (view v)))"
proof (rule guarded_result [OF cell_executor.triple_run_body [OF assms(1) refl assms(2)]])
  show "phase INTAKE INTAKE None [] (view (start_vars c))"
    using assms(3) by (simp add: start_vars_def view_def run_log_def)
  show "guarded env (run_body env req r) (start_vars c) = (res, v)"
    using assms(4) by (simp add: run_async_def)
qed

text \<open>C4: the pipeline keeps its ledger in order.  Whatever the compiler, the planner, the cells, the
  ledger's failures and the cancellations do, a run says at most one outcome, raises nothing but a
  cancellation, and the statuses it appended walk the transition table from intake; the one
  exception is a run cancelled while its final status was being appended, which may append that
  status a second time.\<close>

theorem run_stream_in_order:
  assumes "cell_executor (ce_batch env)" and "intake_quiet env" and "emitted (co_run c) = []"
    and "run_async env req r c = (res, v)"
  shows "length (said_outcomes (run_log v)) \<le> 1
    \<and> (case res of
         Inr out \<Rightarrow> legal_path INTAKE (statuses (run_log v))
       | Inl e \<Rightarrow> e = Cancelled
           \<and> (legal_path INTAKE (statuses (run_log v)) \<or> twice_ended (statuses (run_log v))))"
  using run_async_result [OF assms]
  by (cases res) (auto simp: view_def)

text \<open>C5: an undisturbed run ends.  When the ledger stores what it is given and nobody cancels, the
  run returns an outcome, whatever fails inside it; it said exactly that outcome, and a replay
  of its stream succeeds and shows the terminal status of that outcome.\<close>

theorem undisturbed_run_ends:
  assumes "cell_executor (ce_batch env)" and "intake_quiet env" and "emitted (co_run c) = []"
    and "run_async env req r c = (res, v)" and "reliable env" and "map ev_payload es = run_log v"
  shows "\<exists>out s. res = Inr out \<and> said_outcomes (run_log v) = [out]
    \<and> replay_events r es = Inr s \<and> status s = outcome_to_status out"
proof -
  from run_async_result [OF assms(1-4)] assms(5)
  obtain out where out: "res = Inr out" "ended out (view v)" by auto
  then have e: "said_outcomes (run_log v) = [out]" "legal_path INTAKE (statuses (run_log v))"
    "last (INTAKE # statuses (run_log v)) = outcome_to_status out" by (auto simp: view_def)
  from replay_result [where r = r and es = es] e assms(6) out(1) show ?thesis
    by (cases "replay_events r es") auto
qed

subsection \<open>What a VERIFIED outcome rests on\<close>

definition unsaid :: "run_vars \<Rightarrow> bool" where
  "unsaid v \<longleftrightarrow> Outcome_VERIFIED \<notin> set (said_outcomes (run_log v))"

definition vouched :: "company_env \<Rightarrow> work_contract \<Rightarrow> run_vars \<Rightarrow> bool" where
  "vouched env wc v \<longleftrightarrow>
     (\<exists>gates0 hard contents. let st = co_run (co v) in
        verify_gates (ce_gates env) wc (\<lambda>i. evidence_digests st (int i)) (tools_used st) gates0
          = (hard, co_gates (co v))
        \<and> (case check_soft (ce_soft env) wc contents of (given, disagreement) \<Rightarrow>
             v_outcome (decide wc hard (Some \<lparr>verdicts = given, material_disagreement = disagreement\<rparr>)
               (used st) (tools_used st)) = Outcome_VERIFIED))"

definition rests :: "company_env \<Rightarrow> project_request \<Rightarrow> run_id \<Rightarrow> run_vars \<Rightarrow> bool" where
  "rests env req r v \<longleftrightarrow> unsaid v \<or> (\<exists>wc. fst (ce_compile env req r) = Inr wc \<and> vouched env wc v)"

text \<open>Steps that keep a predicate, whether they return or raise.\<close>

definition keeps :: "(run_vars \<Rightarrow> bool) \<Rightarrow> 'a step \<Rightarrow> bool" where
  "keeps J f \<longleftrightarrow> triple J f (\<lambda>_. J) (\<lambda>_. J)"

lemma keeps_iff: "keeps J f \<longleftrightarrow> (\<forall>v. J v \<longrightarrow> J (snd (f v)))"
proof -
  have "(case f v of (Inr x, v') \<Rightarrow> J v' | (Inl e, v') \<Rightarrow> J v') = J (snd (f v))" for v
    by (cases "f v"; cases "fst (f v)") auto
  then show ?thesis by (simp add: keeps_def triple_def)
qed

lemma keeps_bind: "keeps J f \<Longrightarrow> (\<And>x. keeps J (g x)) \<Longrightarrow> keeps J (bind_step f g)"
  unfolding keeps_def by (rule triple_bind)

lemma keeps_return [simp]: "keeps J (return_step x)" "keeps J (raise_step e)"
  by (simp_all add: keeps_iff return_step_def raise_step_def)

lemma unsaid_silent: "silent env f \<Longrightarrow> keeps unsaid f"
  by (auto simp: keeps_iff unsaid_def silent_def view_def)

lemma vouched_event [simp]: "vouched env wc (log_event p v) = vouched env wc v"
  by (simp add: vouched_def log_event_def emit_payload_def Let_def)

lemma vouched_vars [simp]:
  "vouched env wc (v\<lparr>cur_status := s\<rparr>) = vouched env wc v" "vouched env wc (v\<lparr>done_outcome := d\<rparr>) = vouched env wc v"
  by (simp_all add: vouched_def)

lemma unsaid_event [simp]: "unsaid (log_event p v) \<longleftrightarrow> unsaid v \<and> said_outcome p \<noteq> Some Outcome_VERIFIED"
  by (auto simp: unsaid_def split: option.split)

lemma unsaid_vars [simp]:
  "unsaid (v\<lparr>cur_status := s\<rparr>) = unsaid v" "unsaid (v\<lparr>done_outcome := d\<rparr>) = unsaid v"
  by (simp_all add: unsaid_def run_log_def)

lemma rests_event: "rests env req r v \<Longrightarrow> said_outcome p \<noteq> Some Outcome_VERIFIED \<Longrightarrow> rests env req r (log_event p v)"
  by (auto simp: rests_def)

lemma rests_vars [simp]:
  "rests env req r (v\<lparr>cur_status := s\<rparr>) = rests env req r v"
  "rests env req r (v\<lparr>done_outcome := d\<rparr>) = rests env req r v"
  by (simp_all add: rests_def)

lemma append_event_keeps:
  assumes "\<And>v. J v \<Longrightarrow> J (log_event p v)" and "J v" and "append_event env p v = (fate, v')"
  shows "J v'"
  using append_event_view [OF assms(3)] assms(1,2) by simp

lemma keeps_emit:
  assumes "\<And>v. J v \<Longrightarrow> J (log_event p v)"
  shows "keeps J (company_emit env p)" "keeps J (emit_shielded env p)"
  using assms by (auto simp: keeps_iff emit_fates shielded_fates split: emit_fate.split)

lemma keeps_status:
  assumes "\<And>v. J v \<Longrightarrow> J (log_event (StatusChanged to) v)"
  shows "keeps J (emit_status env to frm)"
  using keeps_emit(1) [of J "StatusChanged to" env] assms by (simp add: emit_status_def)

lemma keeps_advance:
  assumes "\<And>v s. J v \<Longrightarrow> J (log_event (StatusChanged s) v)" and "\<And>v s. J v \<Longrightarrow> J (v\<lparr>cur_status := s\<rparr>)"
  shows "keeps J (advance env to)"
  using assms by (auto simp: keeps_iff advance_def bind_step_def emit_status_def emit_fates set_status_def
      raise_step_def split: emit_fate.split)

lemma keeps_conclude:
  assumes "\<And>v. J v \<Longrightarrow> J (v\<lparr>done_outcome := Some out\<rparr>)"
  shows "keeps J (conclude out cancelled)"
  using assms by (auto simp: conclude_def keeps_iff bind_step_def set_outcome_def raise_step_def return_step_def)

lemma keeps_follow_route:
  assumes "\<And>v s. J v \<Longrightarrow> J (log_event (StatusChanged s) v)" and "\<And>v s. J v \<Longrightarrow> J (v\<lparr>cur_status := s\<rparr>)"
  shows "keeps J (follow_route env path)"
proof (induction path)
  case (Cons s path)
  have "keeps J (advance env s)" using assms by (rule keeps_advance)
  with Cons.IH show ?case by (auto intro: keeps_bind)
qed simp

lemma rests_steps:
  shows rests_conclude: "keeps (rests env req r) (conclude out cancelled)"
    and rests_status: "keeps (rests env req r) (emit_status env to frm)"
    and rests_route: "keeps (rests env req r) (follow_route env path)"
  by (auto intro!: keeps_conclude keeps_status keeps_follow_route rests_event)

lemma rests_outcome:
  assumes "out \<noteq> Outcome_VERIFIED"
  shows "keeps (rests env req r) (emit_terminal_outcome env out reason)"
  unfolding emit_terminal_outcome_def
  by (rule keeps_emit(2)) (use assms in \<open>auto intro: rests_event\<close>)

lemma unsaid_rests: "unsaid v \<Longrightarrow> rests env req r v"
  by (simp add: rests_def)

abbreviation rtriple ::
  "company_env \<Rightarrow> project_request \<Rightarrow> run_id \<Rightarrow> 'a step \<Rightarrow> bool" where
  "rtriple env req r f \<equiv> triple unsaid f (\<lambda>_. rests env req r) (\<lambda>_. rests env req r)"

lemma rtriple_bind:
  assumes "keeps unsaid f" and "\<And>x. rtriple env req r (g x)"
  shows "rtriple env req r (bind_step f g)"
  by (rule triple_bind [where Q = "\<lambda>_. unsaid"])
    (use assms unsaid_rests in \<open>auto simp: keeps_def intro: triple_weaken\<close>)

lemma rtriple_keeps: "keeps (rests env req r) f \<Longrightarrow> rtriple env req r f"
  unfolding keeps_def by (erule triple_weaken) (auto intro: unsaid_rests)

lemma rests_short_circuit:
  assumes "out \<noteq> Outcome_VERIFIED"
  shows "keeps (rests env req r) (bind_step (emit_terminal_outcome env out short_circuit_reason) (\<lambda>cancelled.
     bind_step (conclude out cancelled) (\<lambda>_.
     bind_step (\<lambda>v. case route (cur_status v) (outcome_to_status out) of
         Inl (IllegalTransition a b) \<Rightarrow> raise_step (Failure (status_value a @ '' -> '' @ status_value b)) v
       | Inr path \<Rightarrow> follow_route env path v) (\<lambda>_. return_step out))))"
proof -
  have "keeps (rests env req r) (\<lambda>v. case route (cur_status v) (outcome_to_status out) of
         Inl (IllegalTransition a b) \<Rightarrow> raise_step (Failure (status_value a @ '' -> '' @ status_value b)) v
       | Inr path \<Rightarrow> follow_route env path v)"
    using rests_route [of env req r] by (auto simp: keeps_iff raise_step_def split: sum.split status_error.split)
  then show ?thesis
    by (intro keeps_bind rests_outcome [OF assms] rests_conclude) simp_all
qed

lemma judge_vouched:
  "triple unsaid (judge env wc g)
     (\<lambda>x v. unsaid v \<and> (v_outcome (fst x) = Outcome_VERIFIED \<longrightarrow> vouched env wc v)) (\<lambda>_. unsaid)"
proof (rule tripleI)
  fix v :: run_vars assume u: "unsaid v"
  obtain hard gates where g: "verify_gates (ce_gates env) wc (\<lambda>i. evidence_digests (co_run (co v)) (int i))
      (tools_used (co_run (co v))) (co_gates (co v)) = (hard, gates)" by fastforce
  let ?v1 = "v\<lparr>co := (co v)\<lparr>co_gates := gates\<rparr>\<rparr>"
  have u1: "unsaid ?v1" using u by (simp add: unsaid_def run_log_def)
  show "case judge env wc g v of
      (Inr x, v') \<Rightarrow> unsaid v' \<and> (v_outcome (fst x) = Outcome_VERIFIED \<longrightarrow> vouched env wc v')
    | (Inl e, v') \<Rightarrow> unsaid v'"
  proof (cases "ce_verify_cancelled env (co v)")
    case False
    show ?thesis
    proof (cases "resolve_evidence (ce_gates env) (gs_store gates) (evidence_digests (co_run (co v))) (cited_criteria g)")
      case (Inr contents)
      obtain given disagreement where soft: "check_soft (ce_soft env) wc (\<lambda>i. contents (int i)) = (given, disagreement)"
        by fastforce
      let ?d = "decide wc hard (Some \<lparr>verdicts = given, material_disagreement = disagreement\<rparr>)
        (used (co_run (co v))) (tools_used (co_run (co v)))"
      have "judge env wc g v = (Inr (?d, hard, disagreement), ?v1)"
        using False Inr soft g by (simp add: judge_def Let_def)
      moreover have "vouched env wc ?v1" if "v_outcome ?d = Outcome_VERIFIED"
        unfolding vouched_def Let_def
        by (rule exI [of _ "co_gates (co v)"], rule exI [of _ hard], rule exI [of _ "\<lambda>i. contents (int i)"])
          (use g soft that in simp)
      ultimately show ?thesis using u1 by simp
    qed (use False g u1 in \<open>simp add: judge_def Let_def\<close>)
  qed (use g u1 in \<open>simp add: judge_def Let_def\<close>)
qed

lemma rests_verify_and_finish:
  assumes "fst (ce_compile env req r) = Inr wc"
  shows "rtriple env req r (verify_and_finish env wc g)"
proof -
  have budget: "keeps unsaid (\<lambda>v. company_emit env (BudgetUpdated (used (co_run (co v))) False) v)"
    using keeps_emit(1) [of unsaid "BudgetUpdated u False" env for u] by (simp add: keeps_iff)
  have verifying: "keeps unsaid (\<lambda>v. emit_status env VERIFYING (cur_status v) v)"
    using keeps_status [of unsaid VERIFYING env] by (simp add: keeps_iff)
  have evidence: "triple (\<lambda>v. unsaid v \<and> (out = Outcome_VERIFIED \<longrightarrow> vouched env wc v))
      (emit_evidence env out hard disagreement)
      (\<lambda>_ v. unsaid v \<and> (out = Outcome_VERIFIED \<longrightarrow> vouched env wc v)) (\<lambda>_. rests env req r)" for out hard disagreement
    by (rule tripleI) (auto simp: emit_evidence_def emit_fates evidence_payload_def rests_def split: emit_fate.split)
  have outcome: "triple (\<lambda>v. unsaid v \<and> (out = Outcome_VERIFIED \<longrightarrow> vouched env wc v))
      (emit_terminal_outcome env out reason) (\<lambda>_. rests env req r) (\<lambda>_. rests env req r)" for out reason
    by (rule tripleI)
      (use assms in \<open>auto simp: emit_terminal_outcome_def shielded_fates rests_def split: emit_fate.split\<close>)
  have rest: "rtriple env req r (bind_step (judge env wc g) (\<lambda>(verdict, hard, disagreement).
     bind_step (emit_evidence env (v_outcome verdict) hard disagreement) (\<lambda>_.
     bind_step (emit_terminal_outcome env (v_outcome verdict) (v_reason verdict)) (\<lambda>cancelled.
       return_step (v_outcome verdict, cancelled)))))"
  proof (rule triple_bind)
    show "triple unsaid (judge env wc g)
        (\<lambda>x v. unsaid v \<and> (v_outcome (fst x) = Outcome_VERIFIED \<longrightarrow> vouched env wc v)) (\<lambda>_. rests env req r)"
      by (rule triple_weaken [OF judge_vouched]) (auto intro: unsaid_rests)
    fix x :: "verdict \<times> hard_check_result list \<times> bool"
    show "triple (\<lambda>v. unsaid v \<and> (v_outcome (fst x) = Outcome_VERIFIED \<longrightarrow> vouched env wc v))
        (case x of (verdict, hard, disagreement) \<Rightarrow>
          bind_step (emit_evidence env (v_outcome verdict) hard disagreement) (\<lambda>_.
          bind_step (emit_terminal_outcome env (v_outcome verdict) (v_reason verdict)) (\<lambda>cancelled.
            return_step (v_outcome verdict, cancelled))))
        (\<lambda>_. rests env req r) (\<lambda>_. rests env req r)"
      by (cases x) (auto intro!: triple_bind [OF evidence] triple_bind [OF outcome] triple_return)
  qed
  show ?thesis
    unfolding verify_and_finish_def
    by (intro rtriple_bind [OF budget] rtriple_bind [OF verifying] rest)
qed

context cell_executor begin

lemma rests_execute_and_finish:
  assumes "ce_batch env = batch" and "fst (ce_compile env req r) = Inr wc"
  shows "rtriple env req r (execute_and_finish env r' wc g waves completed)"
proof -
  have waves: "triple unsaid (execute_waves env r' wc g (waves + 1) completed [])
      (\<lambda>out v. unsaid v \<and> out \<noteq> Some Outcome_VERIFIED) (\<lambda>_. unsaid)"
    by (rule triple_conj [OF _ execute_waves_unverified [OF assms(1)]])
      (rule unsaid_silent [OF silent_execute_waves [OF assms(1)], unfolded keeps_def])
  show ?thesis
    unfolding execute_and_finish_def
  proof (rule triple_bind)
    show "triple unsaid (execute_waves env r' wc g (waves + 1) completed [])
        (\<lambda>out v. unsaid v \<and> out \<noteq> Some Outcome_VERIFIED) (\<lambda>_. rests env req r)"
      by (rule triple_weaken [OF waves]) (auto intro: unsaid_rests)
    fix cell_outcome
    show "triple (\<lambda>v. unsaid v \<and> cell_outcome \<noteq> Some Outcome_VERIFIED)
        (case cell_outcome of Some out \<Rightarrow> short_circuit env out
         | None \<Rightarrow> bind_step (verify_and_finish env wc g) (\<lambda>(out, cancelled).
             bind_step (conclude out cancelled) (\<lambda>_.
             bind_step (emit_status env (outcome_to_status out) VERIFYING) (\<lambda>_. return_step out))))
        (\<lambda>_. rests env req r) (\<lambda>_. rests env req r)"
    proof (cases cell_outcome)
      case None
      have "keeps (rests env req r) (bind_step (conclude out cancelled) (\<lambda>_.
          bind_step (emit_status env (outcome_to_status out) VERIFYING) (\<lambda>_. return_step out)))" for out cancelled
        by (intro keeps_bind rests_conclude rests_status) simp
      then have "rtriple env req r (bind_step (verify_and_finish env wc g) (\<lambda>(out, cancelled).
             bind_step (conclude out cancelled) (\<lambda>_.
             bind_step (emit_status env (outcome_to_status out) VERIFYING) (\<lambda>_. return_step out))))"
        by (intro triple_bind [OF rests_verify_and_finish [OF assms(2)]]) (auto simp: keeps_def)
      with None show ?thesis by (auto intro: triple_weaken)
    next
      case (Some out)
      show ?thesis
      proof (cases "out = Outcome_VERIFIED")
        case False
        have "rtriple env req r (short_circuit env out)"
          unfolding short_circuit_def
          by (intro rtriple_bind unsaid_silent [OF silent_emit_evidence] rtriple_keeps rests_short_circuit [OF False])
        with Some show ?thesis by (auto intro: triple_weaken)
      qed (use Some in \<open>simp add: triple_def\<close>)
    qed
  qed
qed

lemma rests_run_body:
  assumes "ce_batch env = batch" and "intake_quiet env"
  shows "rtriple env req r (run_body env req r)"
proof -
  have quiet_kept: "keeps unsaid (company_emit env p)" if "quiet p" for p
    using that by (intro unsaid_silent [of env] silent_emit)
  have compiled: "triple unsaid (compile_step env req r)
      (\<lambda>wc v. unsaid v \<and> fst (ce_compile env req r) = Inr wc) (\<lambda>_. rests env req r)"
  proof (rule tripleI)
    fix v :: run_vars assume u: "unsaid v"
    obtain res1 ps where c: "ce_compile env req r = (res1, ps)" by fastforce
    have "list_all quiet ps" using assms(2) c by (metis intake_quiet_def snd_conv)
    then have "unsaid (fold log_event ps v)"
      using u view_quiet_events [of ps v] by (simp add: unsaid_def view_def)
    with c show "case compile_step env req r v of
        (Inr x, v') \<Rightarrow> unsaid v' \<and> fst (ce_compile env req r) = Inr x | (Inl e, v') \<Rightarrow> rests env req r v'"
      by (cases res1) (auto simp: compile_step_def unsaid_rests)
  qed
  have advanced: "keeps unsaid (advance env to)" for to
    by (rule keeps_advance) simp_all
  have rejected: "rtriple env req r (reject_graph env g errors)" for g errors
    unfolding reject_graph_def
    by (intro rtriple_bind [OF quiet_kept] rtriple_keeps keeps_bind rests_outcome rests_conclude)
      (use rests_status [of env req r ABSTAINED] in \<open>auto simp: quiet_def keeps_iff return_step_def\<close>)
  have fresh: "keeps unsaid (fresh_run a u digests)" for a u digests
    by (simp add: keeps_iff fresh_run_def unsaid_def run_log_def)
  have rest: "triple (\<lambda>v. unsaid v \<and> fst (ce_compile env req r) = Inr wc)
     (bind_step (advance env CONTRACTED) (\<lambda>_.
     bind_step (\<lambda>v. (ce_plan env wc r, v)) (\<lambda>g.
       let errors = validate_graph g (Some (wc_budget wc)) (Some (max_waves req))
       in if errors \<noteq> [] then reject_graph env g errors
          else
            bind_step (company_emit env (GraphAccepted (gv_version g) (gv_cells g) (edges g) (milestones g))) (\<lambda>_.
            bind_step (advance env PLANNED) (\<lambda>_.
            bind_step (advance env EXECUTING) (\<lambda>_.
            bind_step (fresh_run (new_authority (case req_budget req of None \<Rightarrow> unlimited_budget | Some b \<Rightarrow> b))
                zero_usage Map.empty) (\<lambda>_.
              execute_and_finish env r wc g (max_waves req) [])))))))
     (\<lambda>_. rests env req r) (\<lambda>_. rests env req r)" for wc
  proof (cases "fst (ce_compile env req r) = Inr wc")
    case True
    have planned: "keeps unsaid (\<lambda>v. (ce_plan env wc r, v))" by (simp add: keeps_iff)
    show ?thesis
      by (rule triple_weaken [where P' = unsaid, rotated])
        (auto simp: Let_def quiet_def intro!: rtriple_bind [OF advanced] rtriple_bind [OF planned] rejected
          rtriple_bind [OF quiet_kept] rtriple_bind [OF fresh] rests_execute_and_finish [OF assms(1) True])
  qed (simp add: triple_def)
  show ?thesis
    unfolding run_body_def
    by (intro rtriple_bind [OF quiet_kept] triple_bind [OF compiled] rest)
      (simp add: quiet_def request_accepted_def)
qed

end

lemma emit_failure_rests:
  assumes "rests env req r v" and "emit_failure env reason v = (b, v')"
  shows "rests env req r v'"
proof (cases "done_outcome v")
  case None
  with assms show ?thesis
    by (auto simp: emit_failure_def append_event_def Let_def split: if_splits intro!: rests_event)
next
  case (Some out)
  with assms show ?thesis
    by (auto simp: emit_failure_def append_event_def Let_def split: if_splits intro!: rests_event)
qed

lemma guarded_rests:
  assumes "\<And>res1 v1. body v0 = (res1, v1) \<Longrightarrow> rests env req r v1" and "guarded env body v0 = (res, v)"
  shows "rests env req r v"
proof -
  obtain res1 v1 where body: "body v0 = (res1, v1)" by fastforce
  note r1 = assms(1) [OF body]
  show ?thesis
  proof (cases res1)
    case (Inr out)
    with r1 body assms(2) show ?thesis by (simp add: guarded_def)
  next
    case (Inl e)
    define reason where "reason = (case e of Cancelled \<Rightarrow> ''cancelled'' | Failure m \<Rightarrow> take 500 m)"
    obtain b v2 where f: "emit_failure env reason v1 = (b, v2)" by fastforce
    have "v = v2" using body assms(2) Inl f
      by (cases e; cases b) (auto simp: guarded_def reason_def)
    with emit_failure_rests [OF r1 f] show ?thesis by simp
  qed
qed


subsection \<open>Runs\<close>

text \<open>An environment with the given ledger and cells: the contract of \<open>sample_gate_contract\<close>, planned
  as one cell.\<close>

definition sample_company_env :: "(payload list \<Rightarrow> payload \<Rightarrow> emit_fate) \<Rightarrow> executor \<Rightarrow> company_env" where
  "sample_company_env fate batch = \<lparr>ce_fate = fate,
     ce_compile = (\<lambda>req r. (Inr sample_gate_contract, [ContractValidated ''c'' 1])),
     ce_plan = (\<lambda>wc r. Inr (plan wc r)), ce_error_text = (\<lambda>e. []), ce_batch = batch, ce_tools = [],
     ce_gates = sample_gate_env, ce_soft = new_soft_checker [] [], ce_verify_cancelled = (\<lambda>c. False)\<rparr>"

definition sample_company :: company where
  "sample_company = \<lparr>co_run = fresh_state, co_gates = sample_gate_state\<rparr>"

definition sample_request :: project_request where
  "sample_request = \<lparr>goal = ''g'', workspace_root = ''/w'', req_constraints = [], req_budget = None,
     tool_policy = [], max_waves = 1\<rparr>"

text \<open>Every cell answers the same and leaves no trace.\<close>

definition same_answer :: "cell_answer \<Rightarrow> executor" where
  "same_answer a r cs wc tools c = (Batch_done (map (\<lambda>_. a) cs), c)"

lemma same_answer_executor: "a \<noteq> Cell_outcome Outcome_VERIFIED \<Longrightarrow> cell_executor (same_answer a)"
  by unfold_locales (auto simp: same_answer_def)

lemma sample_env_simps [simp]:
  "ce_batch (sample_company_env fate batch) = batch" "ce_fate (sample_company_env fate batch) = fate"
  "ce_compile (sample_company_env fate batch) req r = (Inr sample_gate_contract, [ContractValidated ''c'' 1])"
  "ce_plan (sample_company_env fate batch) wc r = Inr (plan wc r)"
  "ce_tools (sample_company_env fate batch) = []" "ce_gates (sample_company_env fate batch) = sample_gate_env"
  "ce_verify_cancelled (sample_company_env fate batch) c = False"
  "intake_quiet (sample_company_env fate batch)" "emitted (co_run sample_company) = []"
  by (simp_all add: sample_company_env_def intake_quiet_def quiet_def sample_company_def fresh_state_def)

lemma log_event_keeps [simp]:
  "co_gates (co (log_event p v)) = co_gates (co v)" "auth (co_run (co (log_event p v))) = auth (co_run (co v))"
  "used (co_run (co (log_event p v))) = used (co_run (co v))"
  "tools_used (co_run (co (log_event p v))) = tools_used (co_run (co v))"
  "evidence_digests (co_run (co (log_event p v))) = evidence_digests (co_run (co v))"
  by (simp_all add: log_event_def)

definition sample_cell_id :: "run_id \<Rightarrow> cell_id" where
  "sample_cell_id r = ''cell-'' @ r"

definition sample_cell_of :: "work_contract \<Rightarrow> run_id \<Rightarrow> graph_cell" where
  "sample_cell_of wc r = hd (gv_cells (plan wc r))"

lemma sample_plan:
  "gv_cells (plan wc r) = [sample_cell_of wc r]" "gc_id (sample_cell_of wc r) = sample_cell_id r"
  "mode (sample_cell_of wc r) = MUTATING" "dependencies (sample_cell_of wc r) = []"
  by (simp_all add: plan_def single_cell_graph_def sample_cell_id_def sample_cell_of_def)

lemma sample_valid:
  "validate_graph (plan sample_gate_contract r) (Some (wc_budget sample_gate_contract)) (Some (Suc 0)) = []"
  unfolding single_cell_plan_valid
  by (simp add: budget_errors_def axis_errors_def sample_gate_contract_def base_contract_def unlimited_budget_def
      plan_def single_cell_graph_def)

lemma sample_ready:
  "ready_cells (plan wc r) (Some []) (Some []) = [sample_cell_of wc r]"
  "ready_cells (plan wc r) (Some [sample_cell_id r]) (Some []) = []"
  by (simp_all add: ready_cells_def sample_plan)

lemma sample_affordable: "budget_exhausted (new_authority unlimited_budget) = False"
  by (simp add: budget_exhausted_def auth_remaining_def unlimited_budget_def Let_def new_authority_def)

text \<open>A run that verifies: the ledger stores everything but, perhaps, the final status, and the cell
  succeeds.\<close>

definition stores_most :: "(payload list \<Rightarrow> payload \<Rightarrow> emit_fate) \<Rightarrow> bool" where
  "stores_most fate \<longleftrightarrow> (\<forall>past p. p \<noteq> StatusChanged VERIFIED \<longrightarrow> fate past p = Stored)"

lemma calm_emit:
  assumes "stores_most fate"
  shows "p \<noteq> StatusChanged VERIFIED \<Longrightarrow> company_emit (sample_company_env fate b) p v = (Inr (), log_event p v)"
    and "emit_terminal_outcome (sample_company_env fate b) out reason v
     = (Inr False, log_event (OutcomeEmitted out reason) v)"
  using assms by (simp_all add: emit_fates shielded_fates emit_terminal_outcome_def stores_most_def)

lemma calm_waves:
  assumes "auth (co_run (co v)) = new_authority unlimited_budget"
  shows "execute_waves (sample_company_env fate (same_answer Cell_ok)) r wc (plan wc r) (Suc (Suc 0)) [] [] v
    = (Inr None, v)"
  using assms
  by (simp add: sample_ready sample_plan Let_def read_only_wave_def return_step_def bind_step_def run_batch_def
      same_answer_def exhausted_or_def sample_affordable)

lemma calm_advance:
  "stores_most fate \<Longrightarrow> can_transition (cur_status v) t \<Longrightarrow> t \<noteq> VERIFIED \<Longrightarrow>
    advance (sample_company_env fate b) t v = (Inr (), (log_event (StatusChanged t) v)\<lparr>cur_status := t\<rparr>)"
  by (simp add: advance_fates stores_most_def)

lemma no_evidence: "resolve_evidence genv store Map.empty is = Inr Map.empty"
  by (induction "is") simp_all

lemma calm_judge:
  assumes "co_gates (co v) = sample_gate_state" "evidence_digests (co_run (co v)) = Map.empty"
    and "tools_used (co_run (co v)) = []" "used (co_run (co v)) = zero_usage"
  shows "\<exists>verdict hard disagreement gates. judge (sample_company_env fate b) sample_gate_contract g v
      = (Inr (verdict, hard, disagreement), v\<lparr>co := (co v)\<lparr>co_gates := gates\<rparr>\<rparr>) \<and> v_outcome verdict = Outcome_VERIFIED"
proof -
  obtain hard st' where h: "verify_gates sample_gate_env sample_gate_contract Map.empty [] sample_gate_state = (hard, st')"
    "map criterion_index hard = [0, 1]" "list_all hcr_passed hard"
    using sample_verify [of "[]"] by (simp del: One_nat_def) (elim exE conjE, rule that)
  obtain given disagreement where soft: "check_soft (ce_soft (sample_company_env fate b)) sample_gate_contract Map.empty
      = (given, disagreement)" by fastforce
  have "judge (sample_company_env fate b) sample_gate_contract g v
    = (Inr (decide sample_gate_contract hard (Some \<lparr>verdicts = given, material_disagreement = disagreement\<rparr>) zero_usage [],
        hard, disagreement), v\<lparr>co := (co v)\<lparr>co_gates := st'\<rparr>\<rparr>)"
    using assms h(1) soft by (simp add: judge_def Let_def no_evidence)
  with sample_decide [OF h(2,3)] show ?thesis by auto
qed

text \<open>Everything up to the final status.\<close>

lemma calm_body:
  assumes f: "stores_most fate"
  shows "\<exists>w. run_body (sample_company_env fate (same_answer Cell_ok)) sample_request ''r'' (start_vars sample_company)
      = bind_step (company_emit (sample_company_env fate (same_answer Cell_ok)) (StatusChanged VERIFIED)) (\<lambda>_. return_step Outcome_VERIFIED) w
    \<and> cur_status w = EXECUTING \<and> done_outcome w = Some Outcome_VERIFIED"
proof -
  let ?env = "sample_company_env fate (same_answer Cell_ok)"
  define v where "v = start_vars sample_company"
  have v: "cur_status v = INTAKE" "co_gates (co v) = sample_gate_state"
    by (simp_all add: v_def start_vars_def sample_company_def)
  have finish: "\<exists>w. execute_and_finish ?env ''r'' sample_gate_contract (plan sample_gate_contract ''r'') (Suc 0) [] u
      = bind_step (company_emit ?env (StatusChanged VERIFIED)) (\<lambda>_. return_step Outcome_VERIFIED) w
      \<and> cur_status w = EXECUTING \<and> done_outcome w = Some Outcome_VERIFIED"
    if u: "cur_status u = EXECUTING" "co_gates (co u) = sample_gate_state" "evidence_digests (co_run (co u)) = Map.empty"
      "tools_used (co_run (co u)) = []" "used (co_run (co u)) = zero_usage"
      "auth (co_run (co u)) = new_authority unlimited_budget" for u
  proof -
    let ?u = "log_event (StatusChanged VERIFYING) (log_event (BudgetUpdated zero_usage False) u)"
    obtain verdict hard disagreement gates where j: "judge ?env sample_gate_contract (plan sample_gate_contract ''r'') ?u
        = (Inr (verdict, hard, disagreement), ?u\<lparr>co := (co ?u)\<lparr>co_gates := gates\<rparr>\<rparr>)"
      "v_outcome verdict = Outcome_VERIFIED"
      using calm_judge [of ?u fate "same_answer Cell_ok" "plan sample_gate_contract ''r''"] u
      by (simp add:) (elim exE conjE, rule that)
    show ?thesis
      using u j calm_waves [of u fate "''r''" sample_gate_contract]
      by (simp add: execute_and_finish_def bind_step_def verify_and_finish_def emit_status_def emit_evidence_def
          return_step_def conclude_def set_outcome_def calm_emit [OF f] evidence_payload_def)
        (rule exI, rule conjI, rule refl, simp)
  qed
  show ?thesis
    using v finish sample_valid
    by (simp add: v_def [symmetric] run_body_def bind_step_def [of "compile_step ?env req r" for req r]
        bind_step_def [of "company_emit ?env p" for p] bind_step_def [of "advance ?env t" for t]
        bind_step_def [of "fresh_run a u d" for a u d] bind_step_def [of "\<lambda>v. (x, v)" for x]
        compile_step_def fresh_run_def sample_request_def
        request_accepted_def calm_emit [OF f] calm_advance [OF f])
qed

definition calm_ledger :: "payload list \<Rightarrow> payload \<Rightarrow> emit_fate" where
  "calm_ledger past p = Stored"

lemma calm_run:
  "fst (run_async (sample_company_env calm_ledger (same_answer Cell_ok)) sample_request ''r'' sample_company)
     = Inr Outcome_VERIFIED"
proof -
  have "stores_most calm_ledger" by (simp add: stores_most_def calm_ledger_def)
  from calm_body [OF this] show ?thesis
    by (elim exE) (simp add: run_async_def guarded_def bind_step_def emit_fates calm_ledger_def return_step_def)
qed

definition calm_env :: company_env where
  "calm_env = sample_company_env calm_ledger (same_answer Cell_ok)"

definition calm_end :: run_vars where
  "calm_end = snd (run_async calm_env sample_request ''r'' sample_company)"

lemma calm_result: "run_async calm_env sample_request ''r'' sample_company = (Inr Outcome_VERIFIED, calm_end)"
  using calm_run by (simp add: calm_env_def calm_end_def prod_eq_iff)

lemma calm_env_facts [simp]:
  "cell_executor (ce_batch calm_env)" "intake_quiet calm_env"
  by (simp_all add: calm_env_def same_answer_executor)

lemma calm_reliable: "reliable calm_env"
  by (auto simp: calm_env_def reliable_def calm_ledger_def same_answer_def)

lemma calm_verified: "Outcome_VERIFIED \<in> set (said_outcomes (run_log calm_end))"
  using run_async_result [OF calm_env_facts sample_env_simps(9) calm_result] calm_reliable by (auto simp: view_def)

theorem run_stream_in_order_witness:
  "length (said_outcomes (run_log calm_end)) \<le> 1 \<and> legal_path INTAKE (statuses (run_log calm_end))"
  using run_stream_in_order [OF calm_env_facts sample_env_simps(9) calm_result] by simp

definition enveloped :: "payload \<Rightarrow> event_envelope" where
  "enveloped p = \<lparr>ev_run_id = ''r'', ev_seq = 0, ev_payload = p, ev_schema_version = 1, ev_timestamp = 0,
     ev_prev_hash = [], ev_hash_chain = []\<rparr>"

theorem undisturbed_run_ends_witness:
  "\<exists>s. replay_events ''r'' (map enveloped (run_log calm_end)) = Inr s \<and> status s = VERIFIED"
proof -
  have "map ev_payload (map enveloped (run_log calm_end)) = run_log calm_end"
    by (simp add: enveloped_def comp_def)
  from undisturbed_run_ends [OF calm_env_facts sample_env_simps(9) calm_result calm_reliable this]
  show ?thesis by auto
qed


subsection \<open>A cancellation at the very end\<close>

text \<open>A cancellation that arrives while the final status is being appended breaks the stream.  The
  body has appended the status of its outcome and not yet remembered it; the failure path appends
  it a second time, the run raises the cancellation, and the ledger no longer replays.\<close>

theorem late_cancellation_breaks_replay:
  assumes "run_body env req r (start_vars c) = (Inl Cancelled, v1)"
    and "done_outcome v1 = Some out" and "last (statuses (run_log v1)) = outcome_to_status out"
    and "statuses (run_log v1) \<noteq> []" and "can_transition (cur_status v1) (outcome_to_status out)"
    and "is_stored (ce_fate env (run_log v1) (StatusChanged (outcome_to_status out)))"
    and "run_async env req r c = (res, v)" and "map ev_payload es = run_log v"
  shows "res = Inl Cancelled \<and> run_log v = run_log v1 @ [StatusChanged (outcome_to_status out)]
    \<and> (\<exists>err. replay_events r es = Inl err)"
proof -
  have v: "res = Inl Cancelled" "run_log v = run_log v1 @ [StatusChanged (outcome_to_status out)]"
    using assms(1,2,5,6,7)
    by (auto simp: run_async_def guarded_def emit_failure_def append_event_def Let_def)
  have "\<not> legal_path INTAKE (statuses (run_log v1) @ [outcome_to_status out])"
    using assms(3,4) by (cases out) (auto simp: legal_path_append)
  then have "\<not> legal_path INTAKE (statuses (map ev_payload es))"
    using v(2) assms(8) by simp
  with replay_result [where r = r and es = es] v show ?thesis by (cases "replay_events r es") auto
qed

text \<open>The ledger stores everything; the caller cancels during the first append of \<^verbatim>\<open>FAILED\<close>.\<close>

definition late_ledger :: "payload list \<Rightarrow> payload \<Rightarrow> emit_fate" where
  "late_ledger past p =
     (if p = StatusChanged FAILED \<and> StatusChanged FAILED \<notin> set past then Stored_cancelled else Stored)"

definition late_env :: company_env where
  "late_env = sample_company_env late_ledger (same_answer (Cell_outcome Outcome_FAILED))"

lemma late_emit:
  "p \<noteq> StatusChanged FAILED \<Longrightarrow> company_emit late_env p v = (Inr (), log_event p v)"
  "emit_terminal_outcome late_env out reason v = (Inr False, log_event (OutcomeEmitted out reason) v)"
  by (simp_all add: late_env_def emit_fates shielded_fates emit_terminal_outcome_def late_ledger_def)

lemma late_stored: "is_stored (ce_fate late_env past p)"
  by (simp add: late_env_def late_ledger_def)

lemma late_advance:
  "can_transition (cur_status v) t \<Longrightarrow> t \<noteq> FAILED \<Longrightarrow>
     advance late_env t v = (Inr (), (log_event (StatusChanged t) v)\<lparr>cur_status := t\<rparr>)"
  "can_transition (cur_status v) FAILED \<Longrightarrow> StatusChanged FAILED \<notin> set (run_log v) \<Longrightarrow>
     advance late_env FAILED v = (Inl Cancelled, log_event (StatusChanged FAILED) v)"
  by (simp_all add: advance_fates late_ledger_def late_env_def)

lemma late_waves:
  "execute_waves late_env r wc (plan wc r) (Suc (Suc 0)) [] [] v = (Inr (Some Outcome_FAILED), v)"
  by (simp add: late_env_def sample_ready sample_plan Let_def read_only_wave_def return_step_def bind_step_def
      run_batch_def same_answer_def)

lemma run_log_vars [simp]:
  "run_log (v\<lparr>cur_status := s\<rparr>) = run_log v" "run_log (v\<lparr>done_outcome := d\<rparr>) = run_log v"
  "run_log (v\<lparr>cur_status := s, co := c\<rparr>) = run_log (v\<lparr>co := c\<rparr>)"
  "run_log (v\<lparr>co := (co w)\<lparr>co_run := (co_run (co w))\<lparr>auth := a, used := u, evidence_digests := e, tools_used := t\<rparr>\<rparr>\<rparr>)
     = run_log w"
  by (simp_all add: run_log_def)

lemma late_run:
  "\<exists>v1. run_body late_env sample_request ''r'' (start_vars sample_company) = (Inl Cancelled, v1)
    \<and> done_outcome v1 = Some Outcome_FAILED \<and> statuses (run_log v1) = [CONTRACTED, PLANNED, EXECUTING, FAILED]
    \<and> cur_status v1 = EXECUTING"
proof -
  define v where "v = start_vars sample_company"
  have v: "cur_status v = INTAKE" "run_log v = []"
    by (simp_all add: v_def start_vars_def sample_company_def run_log_def fresh_state_def)
  have "ce_compile late_env req r = (Inr sample_gate_contract, [ContractValidated ''c'' 1])"
    "ce_plan late_env wc r = Inr (plan wc r)" for req r wc
    by (simp_all add: late_env_def)
  then show ?thesis
    using v sample_valid late_waves
    by (simp add: v_def [symmetric] run_body_def bind_step_def compile_step_def fresh_run_def sample_request_def
        late_emit late_advance request_accepted_def execute_and_finish_def short_circuit_def emit_evidence_def
        evidence_payload_def conclude_def set_outcome_def return_step_def route_def detours_def)
qed

theorem late_cancellation_breaks_replay_witness:
  "\<exists>v err. run_async late_env sample_request ''r'' sample_company = (Inl Cancelled, v)
    \<and> replay_events ''r'' (map enveloped (run_log v)) = Inl err"
proof -
  obtain v1 where v1: "run_body late_env sample_request ''r'' (start_vars sample_company) = (Inl Cancelled, v1)"
    "done_outcome v1 = Some Outcome_FAILED" "statuses (run_log v1) = [CONTRACTED, PLANNED, EXECUTING, FAILED]"
    "cur_status v1 = EXECUTING" using late_run by (elim exE conjE) (rule that)
  obtain res v where run: "run_async late_env sample_request ''r'' sample_company = (res, v)" by fastforce
  have es: "map ev_payload (map enveloped (run_log v)) = run_log v" by (simp add: enveloped_def comp_def)
  have "res = Inl Cancelled \<and> run_log v = run_log v1 @ [StatusChanged (outcome_to_status Outcome_FAILED)]
      \<and> (\<exists>err. replay_events ''r'' (map enveloped (run_log v)) = Inl err)"
    by (rule late_cancellation_breaks_replay [OF v1(1,2) _ _ _ _ run es]) (use v1 late_stored in simp_all)
  then obtain err where r: "res = Inl Cancelled" "replay_events ''r'' (map enveloped (run_log v)) = Inl err"
    by (elim conjE exE) (rule that)
  with run r(1) show ?thesis by (intro exI [of _ v] exI [of _ err]) simp
qed

subsection \<open>A failure at the very end\<close>

text \<open>A failed last append leaves the run open.  When the body fails with an outcome other than
  FAILED already said, the failure path still holds the status \<^verbatim>\<open>EXECUTING\<close>, from which that
  outcome's status cannot be reached: the run returns the outcome, and a replay of its ledger
  shows a run that is not over.\<close>

theorem failed_last_append_leaves_run_open:
  assumes "cell_executor (ce_batch env)" and "intake_quiet env" and "emitted (co_run c) = []"
    and "run_body env req r (start_vars c) = (Inl (Failure m), v1)"
    and "done_outcome v1 = Some out" and "out \<noteq> Outcome_FAILED" and "cur_status v1 = EXECUTING"
    and "run_async env req r c = (res, v)" and "map ev_payload es = run_log v"
  shows "res = Inr out \<and> said_outcomes (run_log v) = [out]
    \<and> (\<exists>s. replay_events r es = Inr s \<and> \<not> is_terminal (status s))"
proof -
  have "phase INTAKE INTAKE None [] (view (start_vars c))"
    using assms(3) by (simp add: start_vars_def view_def run_log_def)
  from tripleD [OF cell_executor.triple_run_body [OF assms(1) refl assms(2), of req r] this] assms(4)
  have "caught env (Failure m) (view v1)" by simp
  then have l: "legal_path INTAKE (statuses (run_log v1))" "said_outcomes (run_log v1) = [out]"
    "last (INTAKE # statuses (run_log v1)) \<in> {EXECUTING, VERIFYING}"
    using assms(5,7) by (auto simp: view_def)
  have "res = Inr out \<and> v = v1"
    using assms(4-8) by (cases out) (auto simp: run_async_def guarded_def emit_failure_def Let_def)
  with l replay_result [where r = r and es = es] assms(9) show ?thesis
    by (cases "replay_events r es") auto
qed

definition full_disk :: "payload list \<Rightarrow> payload \<Rightarrow> emit_fate" where
  "full_disk past p = (if p = StatusChanged VERIFIED then Refused ''disk full'' else Stored)"

definition full_env :: company_env where
  "full_env = sample_company_env full_disk (same_answer Cell_ok)"

theorem failed_last_append_leaves_run_open_witness:
  "\<exists>v s. run_async full_env sample_request ''r'' sample_company = (Inr Outcome_VERIFIED, v)
    \<and> replay_events ''r'' (map enveloped (run_log v)) = Inr s \<and> \<not> is_terminal (status s)"
proof -
  have env: "cell_executor (ce_batch full_env)" "intake_quiet full_env"
    by (simp_all add: full_env_def same_answer_executor)
  have "stores_most full_disk" by (simp add: stores_most_def full_disk_def)
  from calm_body [OF this, folded full_env_def] obtain w where w: "run_body full_env sample_request ''r'' (start_vars sample_company)
      = bind_step (company_emit full_env (StatusChanged VERIFIED)) (\<lambda>_. return_step Outcome_VERIFIED) w"
    "cur_status w = EXECUTING" "done_outcome w = Some Outcome_VERIFIED"
    by (elim exE conjE) (rule that)
  then have body: "run_body full_env sample_request ''r'' (start_vars sample_company)
      = (Inl (Failure ''disk full''), w)"
    by (simp add: bind_step_def emit_fates full_env_def full_disk_def)
  obtain res v where run: "run_async full_env sample_request ''r'' sample_company = (res, v)" by fastforce
  have "map ev_payload (map enveloped (run_log v)) = run_log v" by (simp add: enveloped_def comp_def)
  from failed_last_append_leaves_run_open [OF env sample_env_simps(9) body w(3) _ w(2) run this] run
  show ?thesis by simp
qed

end
