(* ===== verification/Pricing.thy ===== *)
theory Pricing
  imports Wire
begin

section \<open>The price of a call (adapters/providers/pricing.py)\<close>

text \<open>
  Costs are exact rationals; the final rounding to ten decimals is kept.  \<^verbatim>\<open>round(x, n)\<close> rounds a
  half to the even neighbour.
\<close>

definition round_half_even :: "rat \<Rightarrow> int" where
  "round_half_even x =
     (let f = \<lfloor>x\<rfloor>; d = x - of_int f
      in if d < 1 / 2 then f else if 1 / 2 < d then f + 1 else if even f then f else f + 1)"

definition py_round :: "rat \<Rightarrow> nat \<Rightarrow> rat" where
  "py_round x n = of_int (round_half_even (x * 10 ^ n)) / 10 ^ n"

definition compute_cost_usd :: "token_usage \<Rightarrow> rat \<Rightarrow> rat \<Rightarrow> usd" where
  "compute_cost_usd u input_price output_price =
     (let buckets =
        [(tu_input u, input_price), (cache_creation_tokens u, input_price * (5 / 4)),
         (cache_read_tokens u, input_price * (1 / 10)), (tu_output u, output_price)]
      in py_round (sum_list (map (\<lambda>(tokens, rate). of_nat tokens / 1000000 * rate) buckets)) 10)"

lemma round_half_even_near: "\<bar>of_int (round_half_even x) - x\<bar> \<le> 1 / 2"
proof -
  have f: "of_int \<lfloor>x\<rfloor> \<le> x" "x < of_int \<lfloor>x\<rfloor> + 1" by linarith+
  then show ?thesis
    unfolding round_half_even_def Let_def abs_le_iff by (simp split: if_split) linarith
qed

lemma round_half_even_nonneg: "0 \<le> x \<Longrightarrow> 0 \<le> round_half_even x"
  by (auto simp: round_half_even_def Let_def)

lemma py_round_near: "\<bar>py_round x n - x\<bar> \<le> 1 / (2 * 10 ^ n)"
proof -
  have p: "(0::rat) < 10 ^ n" by simp
  have "py_round x n - x = (of_int (round_half_even (x * 10 ^ n)) - x * 10 ^ n) / 10 ^ n"
    using p by (simp add: py_round_def field_simps)
  then have "\<bar>py_round x n - x\<bar> = \<bar>of_int (round_half_even (x * 10 ^ n)) - x * 10 ^ n\<bar> / 10 ^ n"
    by simp
  also have "\<dots> \<le> (1 / 2) / 10 ^ n"
    using round_half_even_near [of "x * 10 ^ n"] p by (intro divide_right_mono) simp_all
  finally show ?thesis by simp
qed

lemma compute_cost_nonneg:
  "0 \<le> input_price \<Longrightarrow> 0 \<le> output_price \<Longrightarrow> 0 \<le> compute_cost_usd u input_price output_price"
  by (auto simp: compute_cost_usd_def py_round_def Let_def intro!: divide_nonneg_nonneg round_half_even_nonneg
      mult_nonneg_nonneg add_nonneg_nonneg)

end
