(* ===== verification/Planning_Model.thy ===== *)
theory Planning_Model
  imports Planning Model_Review Pricing
begin

section \<open>The model-backed planner (application/planning_model.py)\<close>

text \<open>
  A model proposes a decomposition; \<open>harden\<close> rebuilds every structural fact of it and \<open>model_plan\<close>
  falls back to the single-cell plan whenever anything is wrong.  The gateway, \<^verbatim>\<open>raw_decode\<close>, the
  validation by pydantic and the schema constant of the request are parameters.  A set of cell ids
  is represented by its sorted list.
\<close>

definition MAX_PROPOSED_CELLS :: nat where
  "MAX_PROPOSED_CELLS = 8"

definition MAX_PLAN_WAVES :: nat where
  "MAX_PLAN_WAVES = 6"

record proposed_cell =
  pc_name :: string
  pc_mode :: string
  depends_on :: "string list"
  pc_indices :: "int list"
  budget_share :: rat

definition valid_proposed :: "proposed_cell \<Rightarrow> bool" where
  "valid_proposed c \<longleftrightarrow> 0 \<le> budget_share c \<and> budget_share c \<le> 1"

subsection \<open>Waves\<close>

text \<open>One round over the cells left: the waves known so far, the cells left for the next
  round, and whether any cell was placed.\<close>

fun wave_round ::
  "(cell_id \<rightharpoonup> nat) \<Rightarrow> (cell_id \<times> cell_id list) list
     \<Rightarrow> (cell_id \<rightharpoonup> nat) \<times> (cell_id \<times> cell_id list) list \<times> bool" where
  "wave_round waves [] = (waves, [], False)"
| "wave_round waves ((c, ds) # rest) =
     (if list_all (\<lambda>d. waves d \<noteq> None) ds
      then (let w = (if ds = [] then 0 else Suc (Max (set (map (\<lambda>d. dict_get waves d 0) ds))))
            in case wave_round (waves(c \<mapsto> w)) rest of (waves', left, placed) \<Rightarrow> (waves', left, True))
      else (case wave_round waves rest of (waves', left, placed) \<Rightarrow> (waves', (c, ds) # left, placed)))"

lemma wave_round_length:
  "wave_round waves rest = (waves', left, placed) \<Longrightarrow>
     length left \<le> length rest \<and> (placed \<longrightarrow> length left < length rest)"
  by (induction waves rest arbitrary: waves' left placed rule: wave_round.induct)
    (auto simp: Let_def split: prod.splits if_splits, fastforce+)

function wave_rounds ::
  "(cell_id \<rightharpoonup> nat) \<Rightarrow> (cell_id \<times> cell_id list) list
     \<Rightarrow> (cell_id \<rightharpoonup> nat) \<times> (cell_id \<times> cell_id list) list" where
  "wave_rounds waves todo =
     (if todo = [] then (waves, [])
      else case wave_round waves todo of
        (waves', left, placed) \<Rightarrow> if placed then wave_rounds waves' left else (waves', left))"
  by pat_completeness auto

termination
  by (relation "measure (\<lambda>(waves, todo). length todo)") (auto dest: wave_round_length [OF sym])

declare wave_rounds.simps [simp del]

definition topological_waves :: "cell_id list \<Rightarrow> cell_id list list \<Rightarrow> nat list option" where
  "topological_waves ids deps =
     (case wave_rounds Map.empty (zip ids deps) of
        (waves, todo) \<Rightarrow>
          if todo \<noteq> [] then None else Some (map (\<lambda>i. dict_get waves i 0) ids))"

text \<open>\<^verbatim>\<open>while w in mutating_in_wave\<close>.\<close>

function free_wave :: "nat list \<Rightarrow> nat \<Rightarrow> nat option" where
  "free_wave taken w =
     (if w \<in> set taken then (if MAX_PLAN_WAVES \<le> w + 1 then None else free_wave taken (w + 1))
      else Some w)"
  by pat_completeness auto

termination
  by (relation "measure (\<lambda>(taken, w). MAX_PLAN_WAVES - w)") auto

declare free_wave.simps [simp del]

fun separate_mutating :: "nat list \<Rightarrow> (proposed_cell \<times> nat) list \<Rightarrow> nat list option" where
  "separate_mutating taken [] = Some []"
| "separate_mutating taken ((c, w) # rest) =
     (if pc_mode c \<noteq> ''read_only''
      then (case free_wave taken w of
              None \<Rightarrow> None
            | Some w' \<Rightarrow> map_option ((#) (max w' w)) (separate_mutating (w' # taken) rest))
      else map_option ((#) w) (separate_mutating taken rest))"

subsection \<open>Hardening\<close>

definition plan_ids :: "run_id \<Rightarrow> nat \<Rightarrow> cell_id list" where
  "plan_ids r n = map (\<lambda>i. ''cell-'' @ r @ ''-'' @ show_nat i) [0..<n]"

text \<open>The known earlier cells among the names a cell depends on; of two cells with one name the
  later one is meant.\<close>

definition name_to_id :: "cell_id list \<Rightarrow> proposed_cell list \<Rightarrow> string \<rightharpoonup> cell_id" where
  "name_to_id ids cs = map_of (rev (zip (map (\<lambda>c. strip (pc_name c)) cs) ids))"

definition resolved_deps :: "cell_id list \<Rightarrow> proposed_cell list \<Rightarrow> nat \<Rightarrow> cell_id list" where
  "resolved_deps ids cs i =
     sort (remdups (filter (\<lambda>t. t \<in> set (take i ids))
       (List.map_filter (\<lambda>d. name_to_id ids cs (strip d)) (depends_on (cs ! i)))))"

definition valid_indices :: "work_contract \<Rightarrow> proposed_cell \<Rightarrow> int list" where
  "valid_indices wc c =
     sort (remdups (filter (\<lambda>i. 0 \<le> i \<and> i < int (length (acceptance_criteria wc))) (pc_indices c)))"

text \<open>\<^verbatim>\<open>int(x)\<close>.\<close>

definition py_int :: "rat \<Rightarrow> int" where
  "py_int x = (if 0 \<le> x then \<lfloor>x\<rfloor> else \<lceil>x\<rceil>)"

definition child_budget :: "budget \<Rightarrow> rat \<Rightarrow> budget" where
  "child_budget b share = b\<lparr>
     token_limit := map_option (\<lambda>n. py_int (of_int n * share)) (token_limit b),
     cost_limit_usd := map_option (\<lambda>x. py_round (x * share) 6) (cost_limit_usd b)\<rparr>"

definition hardened_cell ::
  "work_contract \<Rightarrow> proposed_cell list \<Rightarrow> cell_id list \<Rightarrow> nat list \<Rightarrow> rat list \<Rightarrow> nat \<Rightarrow> graph_cell" where
  "hardened_cell wc cs ids waves shares i =
     (let c = cs ! i
      in \<lparr>gc_id = ids ! i, gc_name = take 50 (strip (pc_name c)), wave = waves ! i,
          required_capabilities = [],
          mode = (if pc_mode c = ''read_only'' then READ_ONLY else MUTATING),
          input_schema = [], output_schema = [], required_profile_roles = [role_value WORKER],
          dependencies = resolved_deps ids cs i, acceptance_criterion_indices = valid_indices wc c,
          contract = wc\<lparr>wc_id := wc_id wc @ ''-c'' @ show_nat i,
            wc_budget := child_budget (wc_budget wc) (shares ! i)\<rparr>,
          gc_status = Cell_PENDING\<rparr>)"

definition normal_shares :: "proposed_cell list \<Rightarrow> rat list option" where
  "normal_shares cs =
     (let shares = map (\<lambda>c. max (budget_share c) 0) cs; whole = sum_list shares
      in if whole \<le> 0 then None else Some (map (\<lambda>s. s / whole) shares))"

definition named_cells :: "proposed_cell list \<Rightarrow> proposed_cell list" where
  "named_cells proposal = take MAX_PROPOSED_CELLS (filter (\<lambda>c. strip (pc_name c) \<noteq> []) proposal)"

definition covers_criteria :: "work_contract \<Rightarrow> proposed_cell list \<Rightarrow> bool" where
  "covers_criteria wc cs \<longleftrightarrow>
     set (concat (map (valid_indices wc) cs)) = set (map int [0..<length (acceptance_criteria wc)])"

definition harden :: "proposed_cell list \<Rightarrow> work_contract \<Rightarrow> run_id \<Rightarrow> graph_version option" where
  "harden proposal wc r =
     (let cs = named_cells proposal; n = length cs; ids = plan_ids r n;
          deps = map (resolved_deps ids cs) [0..<n]
      in if n < 2 then None
         else case topological_waves ids deps of
           None \<Rightarrow> None
         | Some levels \<Rightarrow>
             (case separate_mutating [] (zip cs levels) of
                None \<Rightarrow> None
              | Some waves \<Rightarrow>
                  if MAX_PLAN_WAVES \<le> Max (set waves) then None
                  else if \<not> covers_criteria wc cs then None
                  else case normal_shares cs of
                    None \<Rightarrow> None
                  | Some shares \<Rightarrow> Some
                      \<lparr>gv_version = 1, gv_cells = map (hardened_cell wc cs ids waves shares) [0..<n],
                       edges = concat (map (\<lambda>i. map (\<lambda>d. \<lparr>from_id = d, to_id = ids ! i,
                         edge_kind = ''blocks''\<rparr>) (deps ! i)) [0..<n]),
                       milestones = [last ids], current_horizon = Max (set waves)\<rparr>))"

subsection \<open>The plan\<close>

record planner_env =
  pe_gateway :: "model_request \<Rightarrow> string option"
  pe_decode :: raw_decoder
  pe_validate :: "(string \<times> json) list \<Rightarrow> proposed_cell list option"
  pe_schema :: "(string \<times> json) list"
  pe_profile :: string
  pe_max_output :: nat

definition planner_prompt :: "work_contract \<Rightarrow> string" where
  "planner_prompt wc =
     ''You are a work decomposition planner. Split the following contract '' @
     ''into a small DAG of execution cells (at most '' @ show_nat MAX_PROPOSED_CELLS @
     ''). Read-only cells (analysis, search) run '' @
     ''concurrently; mutating cells (writing deliverables) run one per '' @
     ''wave. Each criterion index must be covered by at least one cell. '' @
     ''Respond with JSON only: {\"cells\": [{\"name\": str, \"mode\": '' @
     ''\"read_only\"|\"mutating\", \"depends_on\": [names of earlier '' @
     ''cells], \"acceptance_criterion_indices\": [ints], '' @
     ''\"budget_share\": float in [0,1]}]}.'' @ newline @ newline @
     ''Objective: '' @ objective wc @ newline @
     ''Scope: '' @ (if scope wc = [] then ''(none)'' else scope wc) @ newline @
     ''Deliverables: '' @ str_join '', '' (deliverables wc) @ newline @
     ''Acceptance criteria:'' @ newline @
     str_join newline (map (\<lambda>(i, c). ''  ['' @ show_nat i @ ''] ''
       @ criterion_kind_value (criterion_kind_of c) @ '': '' @ criterion_description c)
       (enumerate 0 (acceptance_criteria wc)))"

definition request_proposal :: "planner_env \<Rightarrow> work_contract \<Rightarrow> proposed_cell list option" where
  "request_proposal env wc =
     (case pe_gateway env \<lparr>mr_profile = pe_profile env, mr_messages = [user_message (planner_prompt wc)],
              mr_system = [], mr_tools = [], mr_output_schema = Some (pe_schema env),
              mr_max_output_tokens = Some (pe_max_output env), mr_temperature = Some 0, mr_seed = None\<rparr> of
        None \<Rightarrow> None
      | Some answer_text \<Rightarrow>
          (case extract_first_json_object (pe_decode env) answer_text of
             None \<Rightarrow> None
           | Some raw \<Rightarrow> pe_validate env raw))"

definition fallback_plan :: "work_contract \<Rightarrow> run_id \<Rightarrow> graph_version" where
  "fallback_plan wc r = single_cell_graph \<lparr>gc_id = ''cell-'' @ r, gc_name = take 50 (objective wc),
     wave = 0, required_capabilities = [], mode = MUTATING, input_schema = [],
     output_schema = [], required_profile_roles = [role_value WORKER], dependencies = [],
     acceptance_criterion_indices = map int [0..<length (acceptance_criteria wc)],
     contract = wc, gc_status = Cell_PENDING\<rparr>"

definition model_plan :: "planner_env \<Rightarrow> work_contract \<Rightarrow> run_id \<Rightarrow> graph_version" where
  "model_plan env wc r =
     (case request_proposal env wc of
        None \<Rightarrow> fallback_plan wc r
      | Some proposal \<Rightarrow>
          (case harden proposal wc r of
             None \<Rightarrow> fallback_plan wc r
           | Some g \<Rightarrow>
               if validate_graph g (Some (wc_budget wc)) None \<noteq> [] then fallback_plan wc r else g))"


subsection \<open>Waves of a plan\<close>

text \<open>Dependencies on earlier cells only: one round places everything, each cell one wave after the
  last of its dependencies.\<close>

lemma wave_round_places_all:
  assumes "wave_round waves xs = (waves', left, placed)"
    and "\<And>j. j < length xs \<Longrightarrow> set (snd (xs ! j)) \<subseteq> dom waves \<union> fst ` set (take j xs)"
  shows "left = []"
  using assms
proof (induction xs arbitrary: waves waves' left placed)
  case (Cons x xs)
  obtain c ds where x: "x = (c, ds)" by fastforce
  have "set ds \<subseteq> dom waves" using Cons.prems(2) [of 0] x by simp
  then have ds: "list_all (\<lambda>d. waves d \<noteq> None) ds" by (auto simp: list_all_iff dom_def)
  obtain w where w: "w = (if ds = [] then 0 else Suc (Max (set (map (\<lambda>d. dict_get waves d 0) ds))))" by blast
  obtain waves2 left2 placed2 where rest: "wave_round (waves(c \<mapsto> w)) xs = (waves2, left2, placed2)"
    by (metis prod_cases3)
  have "left2 = []"
  proof (rule Cons.IH [OF rest])
    fix j assume "j < length xs"
    with Cons.prems(2) [of "Suc j"] x show "set (snd (xs ! j)) \<subseteq> dom (waves(c \<mapsto> w)) \<union> fst ` set (take j xs)"
      by auto
  qed
  with Cons.prems(1) ds rest w x show ?case by (auto simp: Let_def split: if_splits)
qed simp

lemma topological_waves_total:
  assumes "length deps = length ids" and "\<And>i. i < length ids \<Longrightarrow> set (deps ! i) \<subseteq> set (take i ids)"
  shows "\<exists>levels. topological_waves ids deps = Some levels \<and> length levels = length ids"
proof (cases "ids = []")
  case True
  then show ?thesis by (simp add: topological_waves_def wave_rounds.simps)
next
  case False
  obtain waves left placed where r: "wave_round Map.empty (zip ids deps) = (waves, left, placed)"
    by (metis prod_cases3)
  have ids: "fst ` set (take j (zip ids deps)) = set (take j ids)" for j
    using assms(1) by (metis list.set_map map_fst_zip take_map)
  have "left = []"
    by (rule wave_round_places_all [OF r]) (use assms ids in simp)
  with False assms r show ?thesis
    by (cases placed)
      (auto simp: topological_waves_def wave_rounds.simps [of Map.empty] wave_rounds.simps [of _ "[]"])
qed

lemma free_wave_spec:
  "free_wave taken w = Some w' \<Longrightarrow> w \<le> w' \<and> w' \<notin> set taken"
proof (induction taken w rule: free_wave.induct)
  case (1 taken w)
  then show ?case by (auto simp: free_wave.simps [of taken w] split: if_splits)
qed

lemma separate_mutating_spec:
  assumes "separate_mutating taken (zip cs levels) = Some waves" and "length cs = length levels"
  shows "length waves = length cs
    \<and> distinct (map snd (filter (\<lambda>(c, w). pc_mode c \<noteq> ''read_only'') (zip cs waves)))
    \<and> set (map snd (filter (\<lambda>(c, w). pc_mode c \<noteq> ''read_only'') (zip cs waves))) \<inter> set taken = {}"
  using assms
proof (induction cs arbitrary: taken levels waves)
  case (Cons c cs)
  obtain w ls where l: "levels = w # ls" using Cons.prems(2) by (cases levels) auto
  show ?case
  proof (cases "pc_mode c = ''read_only''")
    case True
    with Cons.prems l obtain ws where "separate_mutating taken (zip cs ls) = Some ws" "waves = w # ws" by auto
    with Cons.IH [of taken ls ws] Cons.prems l True show ?thesis by simp
  next
    case False
    with Cons.prems l obtain w' ws where f: "free_wave taken w = Some w'"
      and ws: "separate_mutating (w' # taken) (zip cs ls) = Some ws" "waves = max w' w # ws"
      by (auto split: option.splits)
    from free_wave_spec [OF f] have "max w' w = w'" "w' \<notin> set taken" by auto
    with Cons.IH [OF ws(1)] Cons.prems l False ws show ?thesis by auto
  qed
qed simp

subsection \<open>A hardened graph\<close>

lemma map_nth_comp: "map (\<lambda>i. f (xs ! i)) [0..<length xs] = map f xs"
  by (rule nth_equalityI) simp_all

lemma plan_ids_simps [simp]:
  "length (plan_ids r n) = n" "distinct (plan_ids r n)"
  by (auto simp: plan_ids_def distinct_map inj_on_def)

lemma resolved_deps_earlier:
  "set (resolved_deps ids cs i) \<subseteq> set (take i ids)" "distinct (resolved_deps ids cs i)"
  by (auto simp: resolved_deps_def)

lemma valid_indices_spec:
  "distinct (valid_indices wc c)"
  "set (valid_indices wc c) \<subseteq> {0..<int (length (acceptance_criteria wc))}"
  by (auto simp: valid_indices_def)

lemma hardened_cell_simps [simp]:
  "gc_id (hardened_cell wc cs ids waves shares i) = ids ! i"
  "wave (hardened_cell wc cs ids waves shares i) = waves ! i"
  "dependencies (hardened_cell wc cs ids waves shares i) = resolved_deps ids cs i"
  "acceptance_criterion_indices (hardened_cell wc cs ids waves shares i) = valid_indices wc (cs ! i)"
  "acceptance_criteria (contract (hardened_cell wc cs ids waves shares i)) = acceptance_criteria wc"
  "wc_budget (contract (hardened_cell wc cs ids waves shares i)) = child_budget (wc_budget wc) (shares ! i)"
  "mode (hardened_cell wc cs ids waves shares i) = MUTATING \<longleftrightarrow> pc_mode (cs ! i) \<noteq> ''read_only''"
  by (simp_all add: hardened_cell_def Let_def)

text \<open>What \<open>harden\<close> has computed when it returns a graph.\<close>

definition hardening ::
  "proposed_cell list \<Rightarrow> work_contract \<Rightarrow> run_id \<Rightarrow> graph_version \<Rightarrow> proposed_cell list \<Rightarrow> cell_id list
     \<Rightarrow> nat list \<Rightarrow> rat list \<Rightarrow> bool" where
  "hardening proposal wc r g cs ids waves shares \<longleftrightarrow>
     cs = named_cells proposal \<and> ids = plan_ids r (length cs) \<and> 2 \<le> length cs \<and> length waves = length cs
     \<and> distinct (map snd (filter (\<lambda>(c, w). pc_mode c \<noteq> ''read_only'') (zip cs waves)))
     \<and> Max (set waves) < MAX_PLAN_WAVES \<and> covers_criteria wc cs \<and> normal_shares cs = Some shares
     \<and> gv_cells g = map (hardened_cell wc cs ids waves shares) [0..<length cs]
     \<and> edges g = concat (map (\<lambda>i. map (\<lambda>d. \<lparr>from_id = d, to_id = ids ! i, edge_kind = ''blocks''\<rparr>)
         (resolved_deps ids cs i)) [0..<length cs])
     \<and> milestones g = [last ids] \<and> current_horizon g = Max (set waves)"

lemma harden_Some:
  assumes "harden proposal wc r = Some g"
  shows "\<exists>cs ids waves shares. hardening proposal wc r g cs ids waves shares"
proof -
  define cs where "cs = named_cells proposal"
  define ids where "ids = plan_ids r (length cs)"
  define deps where "deps = map (resolved_deps ids cs) [0..<length cs]"
  have n: "2 \<le> length cs" using assms by (auto simp: harden_def Let_def cs_def split: if_splits)
  obtain levels where l: "topological_waves ids deps = Some levels" "length levels = length cs"
    using topological_waves_total [of deps ids] resolved_deps_earlier by (auto simp: deps_def ids_def)
  from assms n l obtain waves shares where h: "separate_mutating [] (zip cs levels) = Some waves"
    "\<not> MAX_PLAN_WAVES \<le> Max (set waves)" "covers_criteria wc cs" "normal_shares cs = Some shares"
    "g = \<lparr>gv_version = 1, gv_cells = map (hardened_cell wc cs ids waves shares) [0..<length cs],
       edges = concat (map (\<lambda>i. map (\<lambda>d. \<lparr>from_id = d, to_id = ids ! i, edge_kind = ''blocks''\<rparr>)
         (deps ! i)) [0..<length cs]),
       milestones = [last ids], current_horizon = Max (set waves)\<rparr>"
    by (auto simp: harden_def Let_def cs_def [symmetric] ids_def [symmetric] deps_def [symmetric]
        split: option.splits if_splits)
  have "map (\<lambda>i. map (\<lambda>d. \<lparr>from_id = d, to_id = ids ! i, edge_kind = ''blocks''\<rparr>) (deps ! i)) [0..<length cs]
      = map (\<lambda>i. map (\<lambda>d. \<lparr>from_id = d, to_id = ids ! i, edge_kind = ''blocks''\<rparr>) (resolved_deps ids cs i))
        [0..<length cs]"
    by (rule map_cong) (auto simp: deps_def)
  moreover have "edges g = concat (map (\<lambda>i. map (\<lambda>d. \<lparr>from_id = d, to_id = ids ! i, edge_kind = ''blocks''\<rparr>)
       (deps ! i)) [0..<length cs])"
    by (simp add: h(5))
  ultimately have "edges g = concat (map (\<lambda>i. map (\<lambda>d. \<lparr>from_id = d, to_id = ids ! i, edge_kind = ''blocks''\<rparr>)
       (resolved_deps ids cs i)) [0..<length cs])"
    by (simp only:)
  then have "hardening proposal wc r g cs ids waves shares"
    using h n separate_mutating_spec [OF h(1)] l(2) by (simp add: hardening_def cs_def ids_def)
  then show ?thesis by blast
qed

lemma hardened_ids:
  assumes "length ids = n" and "cells = map (hardened_cell wc cs ids waves shares) [0..<n]"
  shows "cell_ids cells = ids"
  using assms map_nth [of ids] by (simp add: cell_ids_def comp_def)

lemma edges_distinct:
  assumes "distinct ids" and "\<And>i. distinct (ds i)"
  shows "distinct (map (\<lambda>e. (from_id e, to_id e, edge_kind e))
     (concat (map (\<lambda>i. map (\<lambda>d. \<lparr>from_id = d, to_id = ids ! i, edge_kind = k\<rparr>) (ds i)) [0..<length ids])))"
proof -
  have "distinct (concat (map (\<lambda>i. map (\<lambda>d. (d, ids ! i, k)) (ds i)) [0..<m]))" if "m \<le> length ids" for m
    using that
  proof (induction m)
    case (Suc m)
    have "ids ! i \<noteq> ids ! m" if "i < m" for i
      using that Suc.prems assms(1) by (simp add: nth_eq_iff_index_eq)
    then have "set (map (\<lambda>d. (d, ids ! m, k)) (ds m))
        \<inter> set (concat (map (\<lambda>i. map (\<lambda>d. (d, ids ! i, k)) (ds i)) [0..<m])) = {}"
      by fastforce
    with Suc show ?case using assms(2) by (simp add: distinct_map inj_on_def Int_commute)
  qed simp
  then show ?thesis by (simp add: map_concat comp_def)
qed

lemma wave_mutating_single:
  assumes "distinct (map wave cs)" and "wave ` set cs \<inter> fst ` set t = {}"
    and "list_all (\<lambda>(w, ids). length ids \<le> 1) t"
  shows "list_all (\<lambda>(w, ids). length ids \<le> 1)
    (foldl (\<lambda>t c. dict_set t (wave c) (table_of t (wave c) [] @ [gc_id c])) t cs)"
  using assms
proof (induction cs arbitrary: t)
  case (Cons c cs)
  have new: "map_of t (wave c) = None" using Cons.prems(2) by (auto simp: map_of_eq_None_iff)
  have set_new: "dict_set t k v = t @ [(k, v)]" if "map_of t k = None" for t :: "(nat \<times> cell_id list) list" and k v
    using that by (induction t k v rule: dict_set.induct) (auto split: if_splits)
  have "dict_set t (wave c) (table_of t (wave c) [] @ [gc_id c]) = t @ [(wave c, [gc_id c])]"
    using set_new [OF new] new by (simp add: table_of_def)
  with Cons.IH [of "t @ [(wave c, [gc_id c])]"] Cons.prems show ?case by auto
qed simp

lemma hardened_mutating_waves:
  assumes "length waves = length cs"
  shows "map wave (filter (\<lambda>c. mode c = MUTATING) (map (hardened_cell wc cs ids waves shares) [0..<length cs]))
    = map snd (filter (\<lambda>(c, w). pc_mode c \<noteq> ''read_only'') (zip cs waves))"
proof -
  have "zip cs waves = map (\<lambda>i. (cs ! i, waves ! i)) [0..<length cs]"
    using assms by (auto intro: nth_equalityI)
  then show ?thesis by (simp add: filter_map comp_def)
qed

lemma hardened_wave_image:
  "length waves = length cs \<Longrightarrow>
     wave ` set (map (hardened_cell wc cs ids waves shares) [0..<length cs]) = set waves"
  using arg_cong [OF map_nth [of waves], of set] by (simp add: image_image)

definition dependencies_earlier :: "graph_version \<Rightarrow> bool" where
  "dependencies_earlier g \<longleftrightarrow>
     list_all (\<lambda>c. list_all (\<lambda>d. wave_of (gv_cells g) d < wave c) (dependencies c)) (gv_cells g)"

lemma hardened_structure:
  assumes "harden proposal wc r = Some g"
  shows "structural_errors g = [] \<longleftrightarrow> dependencies_earlier g"
proof -
  from harden_Some [OF assms] obtain cs ids waves shares
    where "hardening proposal wc r g cs ids waves shares" by blast
  then have h: "ids = plan_ids r (length cs)" "2 \<le> length cs" "length waves = length cs"
    "gv_cells g = map (hardened_cell wc cs ids waves shares) [0..<length cs]"
    "edges g = concat (map (\<lambda>i. map (\<lambda>d. \<lparr>from_id = d, to_id = ids ! i, edge_kind = ''blocks''\<rparr>)
       (resolved_deps ids cs i)) [0..<length cs])"
    "milestones g = [last ids]" "current_horizon g = Max (set waves)" unfolding hardening_def by blast+
  have len: "length ids = length cs" "distinct ids" using h(1) by simp_all
  then have "ids \<noteq> []" using h(2) by auto
  have ids: "cell_ids (gv_cells g) = ids" by (rule hardened_ids [OF len(1) h(4)])
  have known: "set (resolved_deps ids cs i) \<subseteq> set ids" for i
    using resolved_deps_earlier(1) [of ids cs i] set_take_subset [of i ids] by blast
  have cells: "list_all (cell_well_formed (gv_cells g)) (gv_cells g) \<longleftrightarrow> dependencies_earlier g"
  proof -
    have "cell_well_formed (gv_cells g) (hardened_cell wc cs ids waves shares i) \<longleftrightarrow>
        list_all (\<lambda>d. wave_of (gv_cells g) d < waves ! i) (resolved_deps ids cs i)" for i
      using known [of i] resolved_deps_earlier(2) [of ids cs i] valid_indices_spec [of wc "cs ! i"] ids
      by (fastforce simp: cell_well_formed_def list_all_iff)
    then show ?thesis by (simp add: dependencies_earlier_def h(4) list_all_iff)
  qed
  have "distinct (map (\<lambda>e. (from_id e, to_id e, edge_kind e)) (edges g))"
    unfolding h(5) len(1) [symmetric] by (rule edges_distinct [OF len(2) resolved_deps_earlier(2)])
  moreover have "list_all (\<lambda>e. from_id e \<in> set ids \<and> to_id e \<in> set ids) (edges g)"
    using known len(1) by (auto simp: h(5) list_all_iff)
  moreover have "blocking_pairs (edges g) = dependency_pairs (gv_cells g)"
  proof -
    have keep: "filter (\<lambda>d. d \<in> set ids) (resolved_deps ids cs i) = resolved_deps ids cs i" for i
      using known [of i] by (auto simp: filter_id_conv)
    have "blocking_pairs (edges g) = (\<Union>i<length cs. (\<lambda>d. (d, ids ! i)) ` set (resolved_deps ids cs i))"
      by (fastforce simp: blocking_pairs_def h(5) image_iff)
    moreover have "dependency_pairs (gv_cells g) = (\<Union>i<length cs. (\<lambda>d. (d, ids ! i)) ` set (resolved_deps ids cs i))"
      unfolding dependency_pairs_def ids by (simp add: h(4) keep comp_def lessThan_atLeast0)
    ultimately show ?thesis by simp
  qed
  moreover have "current_horizon g = Max (wave ` set (gv_cells g))"
    unfolding h(4) hardened_wave_image [OF h(3)] by (rule h(7))
  moreover have "gv_cells g \<noteq> []" using h(2,4) by auto
  ultimately show ?thesis
    using cells len \<open>ids \<noteq> []\<close> ids h(6) by (simp add: structural_errors_Nil well_formed_graph_def Let_def)
qed

lemma hardened_concurrency:
  assumes "harden proposal wc r = Some g"
  shows "concurrency_errors g = []"
proof -
  from harden_Some [OF assms] obtain cs ids waves shares
    where "hardening proposal wc r g cs ids waves shares" by blast
  then have h: "length waves = length cs"
    "distinct (map snd (filter (\<lambda>(c, w). pc_mode c \<noteq> ''read_only'') (zip cs waves)))"
    "gv_cells g = map (hardened_cell wc cs ids waves shares) [0..<length cs]" unfolding hardening_def by blast+
  have "distinct (map wave (mutating_ids g))"
    using h(2) hardened_mutating_waves [OF h(1), of wc ids shares] by (simp add: mutating_ids_def h(3))
  from wave_mutating_single [OF this, of "[]"] show ?thesis
    by (auto simp: concurrency_errors_def wave_mutating_def filter_empty_iff list_all_iff not_less)
qed

lemma hardened_valid:
  assumes "harden proposal wc r = Some g"
  shows "validate_graph g b None = [] \<longleftrightarrow> dependencies_earlier g \<and> budget_errors g b = []"
  by (simp add: validate_graph_def hardened_structure [OF assms] hardened_concurrency [OF assms]
      wave_budget_errors_def)

subsection \<open>Budgets of the cells\<close>

lemma normal_shares_sum:
  assumes "normal_shares cs = Some shares"
  shows "length shares = length cs \<and> sum_list shares = 1 \<and> list_all (\<lambda>s. 0 \<le> s) shares"
proof -
  let ?raw = "map (\<lambda>c. max (budget_share c) 0) cs"
  have s: "0 < sum_list ?raw" "shares = map (\<lambda>s. s / sum_list ?raw) ?raw"
    using assms by (auto simp: normal_shares_def Let_def split: if_splits)
  have "sum_list (map (\<lambda>s. s / k) xs) = sum_list xs / k" for k :: rat and xs
    by (induction xs) (simp_all add: add_divide_distrib)
  from this [of "sum_list ?raw" ?raw] s show ?thesis by (auto simp: list_all_iff simp del: map_map)
qed

lemma floor_shares_sum:
  fixes shares :: "rat list" and n :: int
  assumes "list_all (\<lambda>s. 0 \<le> s) shares" and "0 \<le> n"
  shows "of_int (sum_list (map (\<lambda>s. py_int (of_int n * s)) shares)) \<le> of_int n * sum_list shares"
  using assms(1)
proof (induction shares)
  case (Cons s shares)
  have "of_int (py_int (of_int n * s)) \<le> of_int n * s"
    using Cons.prems assms(2) by (simp add: py_int_def)
  with Cons show ?case by (simp add: distrib_left add_mono)
qed simp

definition cell_tokens :: "graph_cell \<Rightarrow> int" where
  "cell_tokens c = (case token_limit (wc_budget (contract c)) of None \<Rightarrow> 0 | Some n \<Rightarrow> n)"

lemma hardened_tokens:
  assumes "hardening proposal wc r g cs ids waves shares" and "token_limit (wc_budget wc) = Some n" and "0 \<le> n"
  shows "sum_list (map cell_tokens (gv_cells g)) \<le> n"
proof -
  have s: "length shares = length cs" "sum_list shares = 1" "list_all (\<lambda>s. 0 \<le> s) shares"
    using assms(1) normal_shares_sum by (auto simp: hardening_def)
  have "map cell_tokens (gv_cells g) = map (\<lambda>i. py_int (of_int n * shares ! i)) [0..<length shares]"
    using assms(1,2) s(1) by (simp add: hardening_def cell_tokens_def child_budget_def)
  also have "\<dots> = map (\<lambda>s. py_int (of_int n * s)) shares"
    by (rule map_nth_comp)
  finally show ?thesis using floor_shares_sum [OF s(3) assms(3)] s(2) by simp
qed

subsection \<open>Properties\<close>

text \<open>The control plane owns the structure of a plan.  Of all the checks of the validator, a
  hardened proposal can fail only two: a dependency that is not in an earlier wave (a mutating
  cell was moved to a later wave and left its dependents behind) and the totals of the budgets.
  Its ids are \<^verbatim>\<open>cell-<run>-<i>\<close>, there are two to eight cells in waves below six, every criterion
  is covered, and the cells' token budgets sum to at most the contract's.\<close>

theorem hardened_plan_defects:
  assumes "harden proposal wc r = Some g" and "valid_budget (wc_budget wc)"
  shows "(validate_graph g b None = []) = (dependencies_earlier g \<and> budget_errors g b = [])
    \<and> cell_ids (gv_cells g) = plan_ids r (length (gv_cells g))
    \<and> 2 \<le> length (gv_cells g) \<and> length (gv_cells g) \<le> MAX_PROPOSED_CELLS
    \<and> current_horizon g < MAX_PLAN_WAVES
    \<and> set (concat (map acceptance_criterion_indices (gv_cells g)))
        = set (map int [0..<length (acceptance_criteria wc)])
    \<and> (case token_limit (wc_budget wc) of None \<Rightarrow> True
       | Some n \<Rightarrow> sum_list (map cell_tokens (gv_cells g)) \<le> n)"
proof -
  from harden_Some [OF assms(1)] obtain cs ids waves shares
    where h: "hardening proposal wc r g cs ids waves shares" by blast
  then have c: "gv_cells g = map (hardened_cell wc cs ids waves shares) [0..<length cs]"
    "ids = plan_ids r (length cs)" "cs = named_cells proposal" "covers_criteria wc cs"
    unfolding hardening_def by blast+
  have "map acceptance_criterion_indices (gv_cells g) = map (valid_indices wc) cs"
    by (simp add: c(1) comp_def map_nth_comp)
  moreover have "cell_ids (gv_cells g) = plan_ids r (length (gv_cells g))"
    using hardened_ids [OF _ c(1)] c(1,2) by simp
  moreover have "sum_list (map cell_tokens (gv_cells g)) \<le> n" if "token_limit (wc_budget wc) = Some n" for n
    by (rule hardened_tokens [OF h that]) (use assms(2) that in \<open>simp add: valid_budget_def\<close>)
  ultimately show ?thesis
    using h c hardened_valid [OF assms(1), of b]
    by (auto simp: hardening_def covers_criteria_def named_cells_def not_less split: option.split)
qed

text \<open>C7: the planner never hands on an invalid graph of its own.  Whatever the model answers, the plan
  is the single-cell plan or a hardened proposal that passes the validator, with every dependency
  in an earlier wave and the budget totals within the caps.\<close>

theorem model_plan_valid:
  "model_plan env wc r = plan wc r
   \<or> validate_graph (model_plan env wc r) (Some (wc_budget wc)) None = []
     \<and> dependencies_earlier (model_plan env wc r)
     \<and> (case request_proposal env wc of None \<Rightarrow> False
        | Some proposal \<Rightarrow> harden proposal wc r = Some (model_plan env wc r))"
proof -
  have "fallback_plan wc r = plan wc r" by (simp add: fallback_plan_def plan_def)
  then show ?thesis
    using hardened_valid [of _ wc r] by (auto simp: model_plan_def split: option.split)
qed

subsection \<open>A decomposition that is lost\<close>

text \<open>Two independent writers and a reader of the second: the second writer is moved to the next wave,
  the reader is not.\<close>

definition sample_proposed :: "string \<Rightarrow> string \<Rightarrow> string list \<Rightarrow> proposed_cell" where
  "sample_proposed nm md ds = \<lparr>pc_name = nm, pc_mode = md, depends_on = ds, pc_indices = [], budget_share = 1 / 2\<rparr>"

definition two_writers :: "proposed_cell list" where
  "two_writers = [sample_proposed ''a'' ''mutating'' [], sample_proposed ''b'' ''mutating'' [],
     sample_proposed ''c'' ''read_only'' [''b'']]"

definition sample_plan_contract :: work_contract where
  "sample_plan_contract = base_contract ''w'' ''o'' unlimited_budget"

lemma two_writers_hardened:
  "case harden two_writers sample_plan_contract ''r'' of None \<Rightarrow> False
   | Some g \<Rightarrow> map wave (gv_cells g) = [0, 1, 1] \<and> \<not> dependencies_earlier g"
  by code_simp

theorem hardened_plan_defects_witness:
  "case harden two_writers sample_plan_contract ''r'' of None \<Rightarrow> False
   | Some g \<Rightarrow> validate_graph g None None \<noteq> [] \<and> length (gv_cells g) \<le> MAX_PROPOSED_CELLS"
  using two_writers_hardened hardened_plan_defects [of two_writers sample_plan_contract "''r''" _ None]
  by (auto simp: sample_plan_contract_def base_contract_def unlimited_budget_def valid_budget_def split: option.splits)

end
