(* ===== verification/Tools.thy ===== *)
theory Tools
  imports Workspace_Edit Wire
begin

section \<open>The tool registry (application/tools/registry.py)\<close>

text \<open>
  One record per tool: its name, its description and schema as they are advertised, whether it
  mutates, and what it does.  Behaviour is a case of \<open>tool_action\<close> run on the workspace model; the
  web reader is a parameter (\<open>None\<close> when it is not configured).  An argument that is no text where
  the behaviour needs one raises.
\<close>

datatype tool_action =
    Act_read | Act_list | Act_search | Act_write | Act_create | Act_replace | Act_web_fetch
  | Act_command string

record tool =
  tool_name :: string
  tool_description :: string
  tool_parameters :: "(string \<times> json) list"
  tool_mutating :: bool
  tool_action :: tool_action

definition string_prop :: "string \<Rightarrow> string \<times> json" where
  "string_prop f = (f, JObj [(''type'', JStr ''string'')])"

text \<open>\<^verbatim>\<open>_schema(*required, optional=...)\<close>.\<close>

definition tool_schema :: "string list \<Rightarrow> string \<Rightarrow> (string \<times> json) list" where
  "tool_schema required optional =
     [(''type'', JStr ''object''),
      (''properties'', JObj (let props = foldl (\<lambda>d f. dict_set d f (snd (string_prop f))) [] required
         in if optional = [] then props else dict_set props optional (snd (string_prop optional)))),
      (''required'', JArr (map JStr required)),
      (''additionalProperties'', JBool False)]"

definition builtin_tools :: "tool list" where
  "builtin_tools =
     [\<lparr>tool_name = ''read'', tool_description = ''Read a file at a workspace-relative path.'',
       tool_parameters = tool_schema [''path''] [], tool_mutating = False, tool_action = Act_read\<rparr>,
      \<lparr>tool_name = ''write'',
       tool_description = ''Write bytes to an existing file at a workspace-relative path.'',
       tool_parameters = tool_schema [''path'', ''content''] [], tool_mutating = True, tool_action = Act_write\<rparr>,
      \<lparr>tool_name = ''create'',
       tool_description = ''Atomically create a new file at a workspace-relative path.'',
       tool_parameters = tool_schema [''path'', ''content''] [], tool_mutating = True, tool_action = Act_create\<rparr>,
      \<lparr>tool_name = ''replace'',
       tool_description = ''Replace all occurrences of ``old`` with ``new`` in a file.'',
       tool_parameters = tool_schema [''path'', ''old'', ''new''] [], tool_mutating = True,
       tool_action = Act_replace\<rparr>,
      \<lparr>tool_name = ''list'', tool_description = ''List entries under a workspace-relative directory path.'',
       tool_parameters = tool_schema [''path''] [], tool_mutating = False, tool_action = Act_list\<rparr>,
      \<lparr>tool_name = ''search'', tool_description = ''Search file names for a pattern under a directory.'',
       tool_parameters = tool_schema [''pattern''] ''path'', tool_mutating = False, tool_action = Act_search\<rparr>,
      \<lparr>tool_name = ''web_fetch'',
       tool_description = ''Fetch a public URL with SSRF protection; returns the body text.'',
       tool_parameters = tool_schema [''url''] [], tool_mutating = False, tool_action = Act_web_fetch\<rparr>]"

definition command_tool :: "string \<Rightarrow> command_profile \<Rightarrow> tool" where
  "command_tool cmd_name profile =
     \<lparr>tool_name = ''cmd_'' @ cmd_name,
      tool_description = ''Execute configured command: '' @ cmd_name @ '' (''
        @ str_join '' '' (take 2 (cp_argv profile)) @ '')'',
      tool_parameters = tool_schema [] [], tool_mutating = True, tool_action = Act_command cmd_name\<rparr>"

type_synonym tool_registry = "tool list"

definition with_defaults :: "(string \<times> command_profile) list \<Rightarrow> tool_registry" where
  "with_defaults cmds = builtin_tools @ map (\<lambda>(n, p). command_tool n p) cmds"

definition advertised :: "tool_registry \<Rightarrow> tool_definition list" where
  "advertised reg = map (\<lambda>t. \<lparr>td_name = tool_name t, td_description = tool_description t,
     td_parameters = tool_parameters t\<rparr>) reg"

text \<open>\<^verbatim>\<open>_by_name\<close>: of two tools with one name the later is dispatched.\<close>

definition tool_of :: "tool_registry \<Rightarrow> string \<Rightarrow> tool option" where
  "tool_of reg = map_of (rev (map (\<lambda>t. (tool_name t, t)) reg))"

definition dispatchable_names :: "tool_registry \<Rightarrow> string set" where
  "dispatchable_names reg = set (map tool_name reg)"

definition registry_names :: "tool_registry \<Rightarrow> string list" where
  "registry_names reg = map tool_name reg"

subsection \<open>Behaviour\<close>

record tool_env =
  te_os :: os_env
  te_now :: rat
  te_fetch :: "(string \<Rightarrow> tool_result) option"
  te_profiles :: "(string \<times> command_profile) list"

datatype tool_raise = Workspace_raise ws_raise | Not_text string

text \<open>\<^verbatim>\<open>args.get(key, default)\<close> where a text is needed.\<close>

definition text_arg :: "(string \<times> json) list \<Rightarrow> string \<Rightarrow> string \<Rightarrow> tool_raise + string" where
  "text_arg args k d =
     (case obj_get args k of None \<Rightarrow> Inr d | Some (JStr s) \<Rightarrow> Inr s | Some _ \<Rightarrow> Inl (Not_text k))"

definition lift_ws :: "ws_raise + 'a \<Rightarrow> tool_raise + 'a" where
  "lift_ws r = (case r of Inl e \<Rightarrow> Inl (Workspace_raise e) | Inr x \<Rightarrow> Inr x)"

definition on_text :: "tool_raise + string \<Rightarrow> (string \<Rightarrow> tool_raise + 'a) \<Rightarrow> tool_raise + 'a" where
  "on_text t f = (case t of Inl e \<Rightarrow> Inl e | Inr s \<Rightarrow> f s)"

text \<open>The operations that only read.\<close>

definition read_action ::
  "tool_env \<Rightarrow> tool_action \<Rightarrow> (string \<times> json) list \<Rightarrow> workspace \<Rightarrow> tool_raise + tool_result" where
  "read_action env act args ws =
     (case act of
        Act_read \<Rightarrow> on_text (text_arg args ''path'' ''.'') (\<lambda>p. lift_ws (ws_read ws p))
      | Act_list \<Rightarrow> on_text (text_arg args ''path'' ''.'') (\<lambda>p. lift_ws (ws_list (te_os env) ws p))
      | Act_search \<Rightarrow> on_text (text_arg args ''pattern'' []) (\<lambda>pat.
          on_text (text_arg args ''path'' ''.'') (\<lambda>p. lift_ws (ws_search (te_os env) ws pat p)))
      | Act_web_fetch \<Rightarrow>
          (case te_fetch env of
             None \<Rightarrow> Inr (failed_result ''web_fetch'' ''Web fetch not available'' None)
           | Some fetch \<Rightarrow> on_text (text_arg args ''url'' []) (\<lambda>u. Inr (fetch u)))
      | _ \<Rightarrow> Inl (Not_text []))"

definition mutate_text ::
  "tool_raise + string \<Rightarrow> (string \<Rightarrow> (tool_raise + tool_result) \<times> workspace) \<Rightarrow> workspace
     \<Rightarrow> (tool_raise + tool_result) \<times> workspace" where
  "mutate_text t f ws = (case t of Inl e \<Rightarrow> (Inl e, ws) | Inr s \<Rightarrow> f s)"

definition lift_outcome :: "ws_outcome \<Rightarrow> (tool_raise + tool_result) \<times> workspace" where
  "lift_outcome r = (case r of (res, ws) \<Rightarrow> (lift_ws res, ws))"

definition run_action ::
  "tool_env \<Rightarrow> tool_action \<Rightarrow> string option \<Rightarrow> (string \<times> json) list \<Rightarrow> workspace
     \<Rightarrow> (tool_raise + tool_result) \<times> workspace" where
  "run_action env act token args ws =
     (case act of
        Act_write \<Rightarrow>
          mutate_text (text_arg args ''content'' []) (\<lambda>content.
            mutate_text (text_arg args ''path'' []) (\<lambda>p.
              lift_outcome (ws_write (te_os env) (te_now env) p content token ws)) ws) ws
      | Act_create \<Rightarrow>
          mutate_text (text_arg args ''content'' []) (\<lambda>content.
            mutate_text (text_arg args ''path'' []) (\<lambda>p.
              lift_outcome (ws_create (te_os env) (te_now env) p content token ws)) ws) ws
      | Act_replace \<Rightarrow>
          mutate_text (text_arg args ''path'' []) (\<lambda>p.
            mutate_text (text_arg args ''old'' []) (\<lambda>old.
              mutate_text (text_arg args ''new'' []) (\<lambda>new.
                lift_outcome (ws_replace (te_os env) (te_now env) p old new token ws)) ws) ws) ws
      | Act_command n \<Rightarrow>
          (case map_of (te_profiles env) n of
             None \<Rightarrow> (Inr (failed_result ''cmd'' (''Unknown command profile: '' @ n) None), ws)
           | Some profile \<Rightarrow> lift_outcome (execute_command (te_os env) profile ws))
      | _ \<Rightarrow> (read_action env act args ws, ws))"

text \<open>\<^verbatim>\<open>ToolRegistry.execute\<close>: \<open>None\<close> for a name that is not registered.\<close>

definition registry_execute ::
  "tool_registry \<Rightarrow> string \<Rightarrow> tool_env \<Rightarrow> string option \<Rightarrow> (string \<times> json) list \<Rightarrow> workspace
     \<Rightarrow> (tool_raise + tool_result) option \<times> workspace" where
  "registry_execute reg name env token args ws =
     (case tool_of reg name of
        None \<Rightarrow> (None, ws)
      | Some t \<Rightarrow> (case run_action env (tool_action t) token args ws of (r, ws') \<Rightarrow> (Some r, ws')))"

subsection \<open>What the registry promises\<close>

lemma tool_of_name: "tool_of reg n = Some t \<Longrightarrow> tool_name t = n \<and> t \<in> set reg"
  by (auto simp: tool_of_def dest: map_of_SomeD)

lemma tool_of_None: "tool_of reg n = None \<longleftrightarrow> n \<notin> dispatchable_names reg"
  by (auto simp: tool_of_def dispatchable_names_def map_of_eq_None_iff image_image)

fun writes :: "tool_action \<Rightarrow> bool" where
  "writes Act_write = True"
| "writes Act_create = True"
| "writes Act_replace = True"
| "writes (Act_command n) = True"
| "writes _ = False"

lemma registry_flags:
  "t \<in> set (with_defaults cmds) \<Longrightarrow> tool_mutating t = writes (tool_action t)"
  by (auto simp: with_defaults_def builtin_tools_def command_tool_def)

lemma run_action_reads: "\<not> writes act \<Longrightarrow> snd (run_action env act token args ws) = ws"
  by (cases act) (simp_all add: run_action_def)

end
