(* ===== verification/Worker.thy ===== *)
theory Worker
  imports Tools Pricing Text_Forms Config
begin

section \<open>The worker (application/worker.py)\<close>

text \<open>
  \<^verbatim>\<open>NativeWorker.run\<close>: the bounded loop between a model and the tools.  The state is what the loop
  mutates: the conversation, the tool results, the tallies of \<^verbatim>\<open>AttemptAccounting\<close>, the local
  counters, the mutation lease and the workspace; \<open>w_steps\<close> is the trace of the events published
  and the checkpoints taken.  One turn is \<open>worker_turn\<close>; the loop runs on fuel, and
  \<open>worker_loop_ends\<close> shows how much is enough.

  Parameters: the gateway's answers, the readings of the clock, the size of a serialised request,
  \<^verbatim>\<open>json.loads\<close> and \<^verbatim>\<open>jsonschema\<close>, and the texts of exceptions.  The calls of one batch run one
  after the other: a batch of more than one holds no mutating tool, so the order is not
  observable.  An event sink that raises is ignored by the code and has no effect here.  The
  wall-clock field of the result is left out.
\<close>

subsection \<open>The environment and the state\<close>

datatype provider_error = Auth_error | Capability_error | Configuration_error | Other_error bool

fun provider_error_kind :: "provider_error \<Rightarrow> string" where
  "provider_error_kind Auth_error = ''authentication''"
| "provider_error_kind Capability_error = ''capability''"
| "provider_error_kind Configuration_error = ''configuration''"
| "provider_error_kind (Other_error transient) = (if transient then ''provider'' else ''configuration'')"

text \<open>One awaited gateway call.  \<open>Call_timed_out\<close> is the expiry of the wall-time timeout.\<close>

datatype gateway_answer =
    Gave model_response
  | Provider_failed provider_error string
  | Call_timed_out
  | Call_raised string

record worker_env =
  wk_profile :: "string \<Rightarrow> (provider_error \<times> string) + model_profile"
  wk_complete :: "nat \<Rightarrow> model_request \<Rightarrow> gateway_answer"
  wk_size :: "model_request \<Rightarrow> nat"
  wk_elapsed :: "nat \<Rightarrow> rat"
  wk_cut :: "nat \<Rightarrow> nat \<Rightarrow> nat option"
  wk_loads :: "string \<Rightarrow> string + json"
  wk_dump_size :: "json \<Rightarrow> nat"
  wk_schema_error :: "json \<Rightarrow> json \<Rightarrow> string option"
  wk_registry :: tool_registry
  wk_os :: "nat \<Rightarrow> os_env"
  wk_now :: "nat \<Rightarrow> rat"
  wk_fetch :: "(string \<Rightarrow> tool_result) option"
  wk_profiles :: "(string \<times> command_profile) list"
  wk_raise_text :: "tool_raise \<Rightarrow> string"
  wk_duration :: "nat \<Rightarrow> rat"
  wk_detail :: "acceptance_criterion \<Rightarrow> string"

record worker_job =
  wj_budget :: budget
  wj_profile_name :: string
  wj_profile :: model_profile
  wj_tools :: "tool_definition list"
  wj_system :: string
  wj_schema :: "(string \<times> json) list option"

record worker_state =
  w_messages :: "model_message list"
  w_results :: "tool_result_message list"
  w_input :: nat
  w_output :: nat
  w_cost :: usd
  w_rounds :: nat
  w_api :: nat
  w_ok_api :: nat
  w_elided :: nat
  w_truncated :: nat
  w_turn :: nat
  w_repaired :: bool
  w_lease :: "string option"
  w_ws :: workspace
  w_steps :: "worker_step list"

subsection \<open>Prompts and requests\<close>

definition plain_message :: "message_role \<Rightarrow> string \<Rightarrow> model_message" where
  "plain_message role content = \<lparr>msg_role = role, msg_content = content, msg_images = [],
     msg_tool_calls = [], msg_tool_call_id = [], msg_is_error = False\<rparr>"

definition render_criteria :: "worker_env \<Rightarrow> graph_cell \<Rightarrow> string" where
  "render_criteria env c =
     (let criteria = acceptance_criteria (contract c)
      in str_join newline (map (\<lambda>i. let k = criteria ! nat i in
           ''- ['' @ criterion_kind_value (criterion_kind_of k) @ ''] '' @ criterion_description k
           @ (if wk_detail env k = [] then [] else '' -- '' @ wk_detail env k))
         (filter (\<lambda>i. 0 \<le> i \<and> i < int (length criteria)) (acceptance_criterion_indices c))))"

definition build_user_prompt :: "worker_env \<Rightarrow> graph_cell \<Rightarrow> string" where
  "build_user_prompt env c =
     (let wc = contract c;
          labelled = filter (\<lambda>(label, v). v \<noteq> [])
            [(''Scope'', scope wc), (''Deliverables'', str_join '', '' (deliverables wc)),
             (''Constraints'', str_join '', '' (constraints wc)),
             (''Forbidden'', str_join '', '' (forbidden_outcomes wc))];
          criteria = render_criteria env c
      in str_join newline
           ([''Objective: '' @ objective wc] @ map (\<lambda>(label, v). label @ '': '' @ v) labelled
            @ (if criteria = [] then []
               else [''Your work is accepted only if all of these hold:'' @ newline @ criteria])))"

definition request_for :: "worker_job \<Rightarrow> model_message list \<Rightarrow> model_request" where
  "request_for job ms = \<lparr>mr_profile = wj_profile_name job, mr_messages = ms,
     mr_system = (if list_ex (\<lambda>m. msg_role m = Role_SYSTEM) ms then [] else wj_system job),
     mr_tools = wj_tools job, mr_output_schema = wj_schema job, mr_max_output_tokens = Some 1,
     mr_temperature = None, mr_seed = None\<rparr>"

text \<open>\<^verbatim>\<open>_estimate_request_input_tokens\<close>; the size leaves out the profile and the output limit.\<close>

definition estimate_request :: "worker_env \<Rightarrow> model_request \<Rightarrow> nat" where
  "estimate_request env r =
     max 1 ((wk_size env (r\<lparr>mr_profile := [], mr_max_output_tokens := None\<rparr>) + 3) div 4)"

definition estimate_tokens :: "worker_env \<Rightarrow> worker_job \<Rightarrow> model_message list \<Rightarrow> nat" where
  "estimate_tokens env job ms = estimate_request env (request_for job ms)"

subsection \<open>Compaction\<close>

definition pinned_prefix :: "model_message list \<Rightarrow> nat" where
  "pinned_prefix ms =
     (let n = length (takeWhile (\<lambda>m. msg_role m = Role_SYSTEM) ms)
      in if n < length ms \<and> msg_role (ms ! n) = Role_USER then n + 1 else n)"

definition is_tool_message :: "model_message \<Rightarrow> bool" where
  "is_tool_message m \<longleftrightarrow> msg_role m = Role_TOOL"

text \<open>The loop over the turns: a turn ends before the next message that is no tool result.\<close>

function spans_from :: "model_message list \<Rightarrow> nat \<Rightarrow> (nat \<times> nat) list" where
  "spans_from ms start =
     (if start < length ms
      then (let e = start + 1 + length (takeWhile is_tool_message (drop (start + 1) ms))
            in (start, e) # spans_from ms e)
      else [])"
  by pat_completeness auto

termination by (relation "measure (\<lambda>(ms, start). length ms - start)") (auto simp: Let_def)

declare spans_from.simps [simp del]

definition evictable_spans :: "model_message list \<Rightarrow> nat \<times> (nat \<times> nat) list" where
  "evictable_spans ms = (pinned_prefix ms, spans_from ms (pinned_prefix ms))"

definition min_retained_spans :: nat where
  "min_retained_spans = 3"

definition drop_span :: "model_message list \<Rightarrow> nat \<times> nat \<Rightarrow> model_message list" where
  "drop_span ms sp = (case sp of (start, e) \<Rightarrow> take start ms @ drop e ms)"

lemma spans_from_hd:
  "spans_from ms start = (s, e) # spans \<Longrightarrow>
     s = start \<and> start < length ms \<and> start < e \<and> e \<le> length ms
     \<and> e = start + 1 + length (takeWhile is_tool_message (drop (start + 1) ms)) \<and> spans = spans_from ms e"
  using length_takeWhile_le [of is_tool_message "drop (start + 1) ms"]
  by (subst (asm) spans_from.simps) (auto simp: Let_def split: if_splits)

lemma drop_span_shorter:
  "spans_from ms start = sp # spans \<Longrightarrow> length (drop_span ms sp) < length ms"
  by (cases sp) (auto simp: drop_span_def dest!: spans_from_hd)

function compact_loop ::
  "(model_message list \<Rightarrow> nat) \<Rightarrow> rat \<Rightarrow> model_message list \<Rightarrow> nat \<Rightarrow> model_message list \<times> nat" where
  "compact_loop est target ms dropped =
     (if of_nat (est ms) \<le> target then (ms, dropped)
      else case snd (evictable_spans ms) of
        [] \<Rightarrow> (ms, dropped)
      | sp # spans \<Rightarrow>
          if length (sp # spans) \<le> min_retained_spans then (ms, dropped)
          else compact_loop est target (drop_span ms sp) (dropped + 1))"
  by pat_completeness auto

termination
  by (relation "measure (\<lambda>(est, target, ms, dropped). length ms)")
    (auto simp: evictable_spans_def dest!: drop_span_shorter)

declare compact_loop.simps [simp del]

definition compact_messages ::
  "(model_message list \<Rightarrow> nat) \<Rightarrow> nat \<Rightarrow> model_message list \<Rightarrow> model_message list \<times> nat" where
  "compact_messages est window ms =
     (if of_nat (est ms) \<le> of_nat window * (78 / 100 :: rat) then (ms, 0)
      else compact_loop est (of_nat window * (62 / 100)) ms 0)"

definition elision_sentinel :: string where
  "elision_sentinel = newline @ newline @ ''[context management:''"

text \<open>\<^verbatim>\<open>s.split(pat)[0]\<close>.\<close>

fun before_first :: "string \<Rightarrow> string \<Rightarrow> string" where
  "before_first pat [] = []"
| "before_first pat (c # cs) = (if starts_with pat (c # cs) then [] else c # before_first pat cs)"

definition note_elision :: "model_message list \<Rightarrow> nat \<Rightarrow> model_message list" where
  "note_elision ms elided =
     (let pinned = pinned_prefix ms
      in if pinned = 0 \<or> msg_role (ms ! (pinned - 1)) \<noteq> Role_USER then ms
         else ms[pinned - 1 := (ms ! (pinned - 1))\<lparr>msg_content :=
           before_first elision_sentinel (msg_content (ms ! (pinned - 1))) @ elision_sentinel @ '' ''
           @ show_nat elided @ '' earlier tool round(s) were dropped '' @
           ''to fit the model's context window. Re-read any file you need rather '' @
           ''than relying on memory of it.]''\<rparr>])"

subsection \<open>Accounting\<close>

definition with_final :: "model_message list \<Rightarrow> string \<Rightarrow> bool \<Rightarrow> model_message list" where
  "with_final ms answer append_final =
     (if \<not> append_final \<or> answer = [] then ms else ms @ [plain_message Role_ASSISTANT answer])"

definition worker_success :: "string \<Rightarrow> worker_state \<Rightarrow> worker_result" where
  "worker_success answer st =
     \<lparr>wr_ok = True, wr_text = answer, wr_tool_calls_made = length (w_results st), wr_tool_rounds = w_rounds st,
      wr_api_calls = w_api st, wr_successful_api_calls = w_ok_api st, wr_input_tokens = w_input st,
      wr_output_tokens = w_output st, wr_cost_usd = w_cost st, wr_error = [], wr_error_kind = [],
      wr_tool_results = w_results st, wr_messages = with_final (w_messages st) answer True\<rparr>"

definition worker_failure :: "string \<Rightarrow> string \<Rightarrow> string \<Rightarrow> bool \<Rightarrow> worker_state \<Rightarrow> worker_result" where
  "worker_failure kind detail answer append_final st =
     \<lparr>wr_ok = False, wr_text = answer, wr_tool_calls_made = length (w_results st), wr_tool_rounds = w_rounds st,
      wr_api_calls = w_api st, wr_successful_api_calls = w_ok_api st, wr_input_tokens = w_input st,
      wr_output_tokens = w_output st, wr_cost_usd = w_cost st, wr_error = detail, wr_error_kind = kind,
      wr_tool_results = w_results st, wr_messages = with_final (w_messages st) answer append_final\<rparr>"

definition publish :: "worker_event_kind \<Rightarrow> (string \<times> json) list \<Rightarrow> worker_state \<Rightarrow> worker_state" where
  "publish kind detail st =
     st\<lparr>w_steps := w_steps st @ [Publish \<lparr>we_kind = kind, we_turn = w_turn st, we_detail = detail\<rparr>]\<rparr>"

definition add_messages :: "model_message list \<Rightarrow> worker_state \<Rightarrow> worker_state" where
  "add_messages ms st = st\<lparr>w_messages := w_messages st @ ms\<rparr>"

definition record_call :: "model_profile \<Rightarrow> token_usage \<Rightarrow> worker_state \<Rightarrow> worker_state" where
  "record_call profile u st =
     st\<lparr>w_ok_api := w_ok_api st + 1, w_input := w_input st + tu_input u, w_output := w_output st + tu_output u,
        w_cost := w_cost st + compute_cost_usd u (input_price_per_million_usd profile)
          (output_price_per_million_usd profile)\<rparr>"

subsection \<open>Tool calls\<close>

text \<open>The schemas are those of \<open>tool_schema\<close>: a list of texts and an object of objects.\<close>

definition schema_required :: "(string \<times> json) list \<Rightarrow> string list" where
  "schema_required params =
     (case obj_get params ''required'' of
        Some (JArr vs) \<Rightarrow> List.map_filter (\<lambda>v. case v of JStr s \<Rightarrow> Some s | _ \<Rightarrow> None) vs
      | _ \<Rightarrow> [])"

definition schema_type :: "(string \<times> json) list \<Rightarrow> string \<Rightarrow> string option" where
  "schema_type params arg =
     (case obj_get params ''properties'' of
        Some (JObj props) \<Rightarrow>
          (case obj_get props arg of
             Some (JObj p) \<Rightarrow> (case obj_get p ''type'' of Some (JStr t) \<Rightarrow> Some t | _ \<Rightarrow> None)
           | _ \<Rightarrow> None)
      | _ \<Rightarrow> None)"

text \<open>\<^verbatim>\<open>isinstance\<close>: a boolean is an \<^verbatim>\<open>int\<close>.\<close>

definition has_type :: "string \<Rightarrow> json \<Rightarrow> bool" where
  "has_type t v =
     (if t = ''string'' then (case v of JStr _ \<Rightarrow> True | _ \<Rightarrow> False)
      else if t = ''integer'' then (case v of JInt _ \<Rightarrow> True | JBool _ \<Rightarrow> True | _ \<Rightarrow> False)
      else if t = ''number'' then (case v of JInt _ \<Rightarrow> True | JFloat _ \<Rightarrow> True | JBool _ \<Rightarrow> True | _ \<Rightarrow> False)
      else if t = ''boolean'' then (case v of JBool _ \<Rightarrow> True | _ \<Rightarrow> False)
      else True)"

fun missing_argument :: "string list \<Rightarrow> (string \<times> json) list \<Rightarrow> string option" where
  "missing_argument [] args = None"
| "missing_argument (f # fs) args = (if f \<notin> fst ` set args then Some f else missing_argument fs args)"

fun wrong_argument :: "(string \<times> json) list \<Rightarrow> (string \<times> json) list \<Rightarrow> (string \<times> string) option" where
  "wrong_argument params [] = None"
| "wrong_argument params ((k, v) # args) =
     (case schema_type params k of
        None \<Rightarrow> wrong_argument params args
      | Some t \<Rightarrow> if has_type t v then wrong_argument params args else Some (k, t))"

definition definition_of :: "tool_definition list \<Rightarrow> string \<Rightarrow> tool_definition option" where
  "definition_of defs = map_of (rev (map (\<lambda>d. (td_name d, d)) defs))"

definition validate_tool_args :: "tool_call \<Rightarrow> tool_definition list \<Rightarrow> string option" where
  "validate_tool_args tc defs =
     (case definition_of defs (tc_name tc) of
        None \<Rightarrow> Some (''Unknown tool: '' @ tc_name tc)
      | Some d \<Rightarrow>
          (case missing_argument (schema_required (td_parameters d)) (tc_arguments tc) of
             Some f \<Rightarrow> Some (''Missing required argument '' @ quoted f @ '' for tool '' @ quoted (tc_name tc))
           | None \<Rightarrow>
               map_option (\<lambda>(k, t). ''Argument '' @ quoted k @ '' for tool '' @ quoted (tc_name tc)
                   @ '' must be '' @ t)
                 (wrong_argument (td_parameters d) (tc_arguments tc))))"

definition max_parallel_tool_calls :: nat where
  "max_parallel_tool_calls = 6"

definition is_mutating :: "tool_registry \<Rightarrow> tool_call \<Rightarrow> bool" where
  "is_mutating reg tc = (case tool_of reg (tc_name tc) of None \<Rightarrow> False | Some t \<Rightarrow> tool_mutating t)"

fun batches_from :: "tool_registry \<Rightarrow> bool \<Rightarrow> tool_call list list \<Rightarrow> tool_call list \<Rightarrow> tool_call list list" where
  "batches_from reg previous_was_mutating batches [] = batches"
| "batches_from reg previous_was_mutating batches (c # cs) =
     (if is_mutating reg c \<or> previous_was_mutating \<or> max_parallel_tool_calls \<le> length (last batches)
      then batches_from reg (is_mutating reg c) (batches @ [[c]]) cs
      else batches_from reg (is_mutating reg c) (butlast batches @ [last batches @ [c]]) cs)"

definition tool_batches :: "tool_call list \<Rightarrow> tool_registry \<Rightarrow> tool_call list list" where
  "tool_batches tcs reg = batches_from reg True [] tcs"

definition result_message :: "tool_call \<Rightarrow> string \<Rightarrow> bool \<Rightarrow> tool_result_message" where
  "result_message tc content is_error =
     \<lparr>trm_call_id = tc_id tc, trm_content = content, trm_is_error = is_error\<rparr>"

definition truncation_note :: "tool_result \<Rightarrow> string" where
  "truncation_note r =
     (if truncated r then newline @ ''[truncated, '' @ show_nat (total_bytes r) @ '' total bytes]'' else [])"

definition render_result :: "(string \<Rightarrow> string) \<Rightarrow> tool_call \<Rightarrow> tool_result \<Rightarrow> tool_result_message" where
  "render_result lossy tc r =
     (if tr_ok r then result_message tc (lossy (tr_data r) @ truncation_note r) False
      else result_message tc
        ((if tr_error r = [] then ''Tool '' @ quoted (tc_name tc) @ '' failed'' else tr_error r)
         @ (if tr_data r = [] then [] else newline @ lossy (tr_data r) @ truncation_note r)) True)"

text \<open>\<^verbatim>\<open>_execute_tool\<close>; \<open>n\<close> numbers the calls of the run, for the clock and the random token.\<close>

definition call_env :: "worker_env \<Rightarrow> nat \<Rightarrow> tool_env" where
  "call_env env n = \<lparr>te_os = wk_os env n, te_now = wk_now env n, te_fetch = wk_fetch env, te_profiles = wk_profiles env\<rparr>"

definition execute_tool ::
  "worker_env \<Rightarrow> nat \<Rightarrow> tool_call \<Rightarrow> string option \<Rightarrow> workspace \<Rightarrow> tool_result_message \<times> workspace" where
  "execute_tool env n tc token ws =
     (case registry_execute (wk_registry env) (tc_name tc) (call_env env n) token (tc_arguments tc) ws of
        (None, ws') \<Rightarrow> (result_message tc (''Unknown tool: '' @ tc_name tc) True, ws')
      | (Some (Inr r), ws') \<Rightarrow>
          (render_result (\<lambda>s. if s = [] then [] else os_lossy (wk_os env n) s) tc r, ws')
      | (Some (Inl e), ws') \<Rightarrow>
          (result_message tc (''Tool execution error: '' @ wk_raise_text env e) True, ws'))"

definition worker_owner :: string where
  "worker_owner = ''native-worker''"

definition resolve_call ::
  "worker_env \<Rightarrow> worker_job \<Rightarrow> nat \<Rightarrow> tool_call \<Rightarrow> worker_state \<Rightarrow> tool_result_message \<times> worker_state" where
  "resolve_call env job n tc st =
     (case validate_tool_args tc (wj_tools job) of
        Some err \<Rightarrow> (result_message tc err True, st)
      | None \<Rightarrow>
          if is_mutating (wk_registry env) tc then
            (case acquire_lease (wk_os env n) (wk_now env n) worker_owner (w_ws st) of
               (None, ws) \<Rightarrow>
                 (result_message tc (''Cannot acquire mutation lease -- '' @
                    ''workspace is locked by another process'') True, st\<lparr>w_lease := None, w_ws := ws\<rparr>)
             | (Some token, ws) \<Rightarrow>
                 (case execute_tool env n tc (Some token) ws of
                    (m, ws') \<Rightarrow> (m, st\<lparr>w_lease := Some token, w_ws := ws'\<rparr>)))
          else
            (case execute_tool env n tc (w_lease st) (w_ws st) of (m, ws') \<Rightarrow> (m, st\<lparr>w_ws := ws'\<rparr>)))"

fun run_calls ::
  "worker_env \<Rightarrow> worker_job \<Rightarrow> nat \<Rightarrow> tool_call list \<Rightarrow> worker_state \<Rightarrow> tool_result_message list \<times> worker_state" where
  "run_calls env job n [] st = ([], st)"
| "run_calls env job n (tc # tcs) st =
     (case resolve_call env job n tc st of
        (m, st1) \<Rightarrow> (case run_calls env job (Suc n) tcs st1 of (ms, st2) \<Rightarrow> (m # ms, st2)))"

text \<open>The message that goes into the conversation carries no error flag.\<close>

definition tool_message :: "tool_call \<Rightarrow> tool_result_message \<Rightarrow> model_message" where
  "tool_message tc r = (plain_message Role_TOOL (trm_content r))\<lparr>msg_tool_call_id := tc_id tc\<rparr>"

definition record_tool_result :: "worker_env \<Rightarrow> tool_call \<times> tool_result_message \<Rightarrow> worker_state \<Rightarrow> worker_state" where
  "record_tool_result env cr st =
     (case cr of (tc, r) \<Rightarrow>
        publish TOOL_CALL_COMPLETED
          [(''tool'', JStr (tc_name tc)), (''ok'', JBool (\<not> trm_is_error r)),
           (''duration_ms'', JFloat (wk_duration env (length (w_results st)))),
           (''result_bytes'', JInt (int (length (trm_content r))))]
          (add_messages [tool_message tc r] (st\<lparr>w_results := w_results st @ [r]\<rparr>)))"

text \<open>The batches of a round.  A timeout in batch \<open>i\<close> leaves what its first calls did to the workspace
  and drops their results.\<close>

fun run_batches ::
  "worker_env \<Rightarrow> worker_job \<Rightarrow> nat \<Rightarrow> tool_call list list \<Rightarrow> worker_state \<Rightarrow> bool \<times> worker_state" where
  "run_batches env job i [] st = (True, st)"
| "run_batches env job i (b # bs) st =
     (case (if 0 < max_wall_time_seconds (wj_budget job) then wk_cut env (w_turn st) i else None) of
        Some k \<Rightarrow> (False, snd (run_calls env job (length (w_results st)) (take k b) st))
      | None \<Rightarrow>
          (case run_calls env job (length (w_results st)) b st of
             (rs, st1) \<Rightarrow> run_batches env job (Suc i) bs (fold (record_tool_result env) (zip b rs) st1)))"

subsection \<open>Answers without tool calls\<close>

definition max_schema_validation_bytes :: nat where
  "max_schema_validation_bytes = 256 * 1024"

definition validate_with_jsonschema :: "worker_env \<Rightarrow> json \<Rightarrow> (string \<times> json) list \<Rightarrow> string option" where
  "validate_with_jsonschema env data schema =
     (if max_schema_validation_bytes < wk_dump_size env (JObj schema)
      then Some (''Schema too large ('' @ show_nat (wk_dump_size env (JObj schema)) @ '' bytes, max ''
        @ show_nat max_schema_validation_bytes @ '')'')
      else if max_schema_validation_bytes < wk_dump_size env data
      then Some (''Input data too large ('' @ show_nat (wk_dump_size env data) @ '' bytes, max ''
        @ show_nat max_schema_validation_bytes @ '')'')
      else wk_schema_error env data (JObj schema))"

text \<open>\<^verbatim>\<open>None\<close> as a parsed value is also what the JSON text \<^verbatim>\<open>null\<close> gives.\<close>

definition try_parse_json_response ::
  "worker_env \<Rightarrow> string \<Rightarrow> (string \<times> json) list \<Rightarrow> json option \<times> string option" where
  "try_parse_json_response env answer schema =
     (if strip answer = [] then (None, Some ''Empty response'')
      else case wk_loads env (strip_code_fence answer) of
        Inl e \<Rightarrow> (None, Some (''Invalid JSON: '' @ e))
      | Inr v \<Rightarrow>
          (case validate_with_jsonschema env v schema of
             Some e \<Rightarrow> (None, Some e)
           | None \<Rightarrow> (if v = JNull then None else Some v, None)))"

datatype turn_end = Continue | Finish worker_result | Crash string

definition out_of_calls :: "worker_job \<Rightarrow> worker_state \<Rightarrow> bool" where
  "out_of_calls job st \<longleftrightarrow> 0 < max_calls (wj_budget job) \<and> max_calls (wj_budget job) \<le> int (w_api st)"

definition or_none :: "string option \<Rightarrow> string" where
  "or_none s = (case s of None \<Rightarrow> ''None'' | Some e \<Rightarrow> e)"

definition schema_answer ::
  "worker_env \<Rightarrow> worker_job \<Rightarrow> (string \<times> json) list \<Rightarrow> string \<Rightarrow> worker_state \<Rightarrow> turn_end \<times> worker_state" where
  "schema_answer env job schema answer st =
     (case try_parse_json_response env answer schema of
        (parsed, err) \<Rightarrow>
          if err \<noteq> None \<and> \<not> w_repaired st then
            (if out_of_calls job st
             then (Finish (worker_failure ''schema''
                    (''Schema validation failed and no budget for repair: '' @ or_none err) answer True st), st)
             else (Continue, add_messages
                    [plain_message Role_ASSISTANT answer,
                     plain_message Role_USER (''Your response failed schema validation: '' @ or_none err
                       @ newline @ ''Please fix and output valid JSON matching the schema.'')]
                    (st\<lparr>w_repaired := True\<rparr>)))
          else case parsed of
            Some (JObj _) \<Rightarrow> (Finish (worker_success answer st), st)
          | Some _ \<Rightarrow> (Crash ''parsed_output is not a dictionary'', st)
          | None \<Rightarrow>
              (Finish (worker_failure ''schema''
                (''Schema validation failed after repair: '' @ or_none err) answer True st), st))"

definition max_consecutive_truncations :: nat where
  "max_consecutive_truncations = 3"

definition truncation_nudges :: "string list" where
  "truncation_nudges =
     [''Your previous response was truncated before you finished (the output token '' @
      ''limit was reached). Continue and give the complete final answer now, more '' @
      ''concisely if needed.'',
      ''Truncated again. Stop explaining and act: reply with a single tool call, or '' @
      ''a final answer under 200 words. No preamble, no restating the plan.'']"

definition truncated_answer ::
  "worker_job \<Rightarrow> string \<Rightarrow> worker_state \<Rightarrow> turn_end \<times> worker_state" where
  "truncated_answer job answer st0 =
     (let st = st0\<lparr>w_truncated := w_truncated st0 + 1\<rparr>
      in if out_of_calls job st \<or> max_consecutive_truncations \<le> w_truncated st
         then (Finish (worker_failure ''provider''
                (''Model response truncated (finish=max_tokens) with no '' @
                 ''tool calls on '' @ show_nat (w_truncated st) @ '' consecutive turn(s); '' @
                 ''output budget was '' @ show_nat (max_output_tokens (wj_profile job)) @ '' tokens'')
                answer True st), st)
         else (Continue, add_messages
                ((if answer = [] then [] else [plain_message Role_ASSISTANT answer])
                 @ [plain_message Role_USER
                     (truncation_nudges ! (min (w_truncated st) (length truncation_nudges) - 1))]) st))"

definition final_answer ::
  "worker_env \<Rightarrow> worker_job \<Rightarrow> model_response \<Rightarrow> worker_state \<Rightarrow> turn_end \<times> worker_state" where
  "final_answer env job response st =
     (case wj_schema job of
        Some schema \<Rightarrow> schema_answer env job schema (mres_text response) st
      | None \<Rightarrow>
          if mres_finish response = MAX_TOKENS then truncated_answer job (mres_text response) st
          else (Finish (worker_success (mres_text response) st), st))"

subsection \<open>One turn\<close>

definition tool_round ::
  "worker_env \<Rightarrow> worker_job \<Rightarrow> model_response \<Rightarrow> worker_state \<Rightarrow> turn_end \<times> worker_state" where
  "tool_round env job response st =
     (let asked = add_messages [(plain_message Role_ASSISTANT (mres_text response))\<lparr>
            msg_tool_calls := mres_tool_calls response\<rparr>] (st\<lparr>w_truncated := 0\<rparr>)
      in case run_batches env job 0 (tool_batches (mres_tool_calls response) (wk_registry env)) asked of
           (False, st1) \<Rightarrow>
             (Finish (worker_failure ''budget'' ''Wall time limit exceeded during tool call'' [] False st1), st1)
         | (True, st1) \<Rightarrow>
             (Continue, st1\<lparr>w_rounds := w_rounds st1 + 1, w_steps := w_steps st1 @ [Checkpoint (w_messages st1)]\<rparr>))"

fun finish_reason_value :: "finish_reason \<Rightarrow> string" where
  "finish_reason_value END_TURN = ''end_turn''"
| "finish_reason_value TOOL_USE_STOP = ''tool_use''"
| "finish_reason_value MAX_TOKENS = ''max_tokens''"
| "finish_reason_value STOP_SEQUENCE = ''stop_sequence''"
| "finish_reason_value ERROR_STOP = ''error''"

definition take_answer ::
  "worker_env \<Rightarrow> worker_job \<Rightarrow> model_response \<Rightarrow> worker_state \<Rightarrow> turn_end \<times> worker_state" where
  "take_answer env job response st =
     (let u = mres_usage response;
          st1 = publish MODEL_CALL_COMPLETED
            [(''finish_reason'', JStr (finish_reason_value (mres_finish response))),
             (''input_tokens'', JInt (int (tu_input u))), (''output_tokens'', JInt (int (tu_output u))),
             (''cache_read_tokens'', JInt (int (cache_read_tokens u))),
             (''cache_creation_tokens'', JInt (int (cache_creation_tokens u))),
             (''cost_usd'', JFloat (compute_cost_usd u (input_price_per_million_usd (wj_profile job))
               (output_price_per_million_usd (wj_profile job)))),
             (''tool_calls'', JInt (int (length (mres_tool_calls response))))]
            (record_call (wj_profile job) u st)
      in if mres_tool_calls response = [] then final_answer env job response st1
         else tool_round env job response st1)"

definition compacted :: "worker_env \<Rightarrow> worker_job \<Rightarrow> worker_state \<Rightarrow> worker_state" where
  "compacted env job st =
     (case compact_messages (estimate_tokens env job) (context_window_tokens (wj_profile job)) (w_messages st) of
        (ms, elided) \<Rightarrow>
          if elided = 0 then st\<lparr>w_messages := ms\<rparr>
          else publish CONTEXT_COMPACTED
            [(''rounds_dropped'', JInt (int elided)), (''rounds_dropped_total'', JInt (int (w_elided st + elided))),
             (''window_tokens'', JInt (int (context_window_tokens (wj_profile job))))]
            (st\<lparr>w_messages := note_elision ms (w_elided st + elided), w_elided := w_elided st + elided\<rparr>))"

definition available_output :: "worker_env \<Rightarrow> worker_job \<Rightarrow> worker_state \<Rightarrow> int" where
  "available_output env job st =
     (case token_limit (wj_budget job) of
        None \<Rightarrow> int (max_output_tokens (wj_profile job))
      | Some n \<Rightarrow> n - int (w_input st) - int (w_output st) - int (estimate_tokens env job (w_messages st)))"

definition sent_request :: "worker_env \<Rightarrow> worker_job \<Rightarrow> worker_state \<Rightarrow> model_request" where
  "sent_request env job st = (request_for job (w_messages st))\<lparr>mr_max_output_tokens :=
     Some (nat (min (available_output env job st) (int (max_output_tokens (wj_profile job)))))\<rparr>"

definition call_model :: "worker_env \<Rightarrow> worker_job \<Rightarrow> worker_state \<Rightarrow> turn_end \<times> worker_state" where
  "call_model env job st0 =
     (let st = publish TURN_STARTED
            [(''messages'', JInt (int (length (w_messages st0)))),
             (''input_tokens_estimate'', JInt (int (estimate_tokens env job (w_messages st0))))] st0;
          st1 = st\<lparr>w_api := w_api st + 1\<rparr>;
          failed = (\<lambda>kind detail event. let st2 = publish MODEL_CALL_FAILED event st1
                      in (Finish (worker_failure kind detail [] False st2), st2))
      in if available_output env job st \<le> 0
         then (Finish (worker_failure ''budget'' ''Token budget cannot cover the next request input'' [] False st), st)
         else case wk_complete env (w_api st1) (sent_request env job st) of
           Gave response \<Rightarrow> take_answer env job response st1
         | Provider_failed e m \<Rightarrow> failed (provider_error_kind e) m
             [(''error_kind'', JStr (provider_error_kind e)), (''error'', JStr m)]
         | Call_timed_out \<Rightarrow>
             if 0 < max_wall_time_seconds (wj_budget job)
             then failed ''budget'' ''Wall time limit exceeded during provider call''
                [(''error_kind'', JStr ''budget'')]
             else (Crash [], st1)
         | Call_raised m \<Rightarrow> (Crash m, st1))"

definition worker_turn :: "worker_env \<Rightarrow> worker_job \<Rightarrow> worker_state \<Rightarrow> turn_end \<times> worker_state" where
  "worker_turn env job st0 =
     (let st = st0\<lparr>w_turn := w_turn st0 + 1\<rparr>; b = wj_budget job;
          stop = (\<lambda>detail. (Finish (worker_failure ''budget'' detail [] False st), st))
      in if 0 < max_wall_time_seconds b \<and> max_wall_time_seconds b \<le> wk_elapsed env (w_turn st)
         then stop ''Wall time limit exceeded''
         else if out_of_calls job st then stop ''API call limit exceeded''
         else if 0 < max_tool_rounds b \<and> max_tool_rounds b \<le> int (w_rounds st)
         then stop ''Tool round limit exceeded''
         else call_model env job (compacted env job st))"

subsection \<open>The run\<close>

fun worker_loop :: "worker_env \<Rightarrow> worker_job \<Rightarrow> nat \<Rightarrow> worker_state \<Rightarrow> worker_end option \<times> worker_state" where
  "worker_loop env job 0 st = (None, st)"
| "worker_loop env job (Suc fuel) st =
     (case worker_turn env job st of
        (Continue, st1) \<Rightarrow> worker_loop env job fuel st1
      | (Finish r, st1) \<Rightarrow> (Some (Returned r), st1)
      | (Crash m, st1) \<Rightarrow> (Some (Raised m), st1))"

definition first_messages ::
  "worker_env \<Rightarrow> graph_cell \<Rightarrow> string \<Rightarrow> model_message list option \<Rightarrow> model_message list" where
  "first_messages env cell system resume =
     (case resume of
        Some (m # ms) \<Rightarrow> m # ms
      | _ \<Rightarrow> (if system = [] then [] else [plain_message Role_SYSTEM system])
             @ [plain_message Role_USER (build_user_prompt env cell)])"

definition worker_start :: "model_message list \<Rightarrow> workspace \<Rightarrow> worker_state" where
  "worker_start ms ws = \<lparr>w_messages = ms, w_results = [], w_input = 0, w_output = 0, w_cost = 0, w_rounds = 0,
     w_api = 0, w_ok_api = 0, w_elided = 0, w_truncated = 0, w_turn = 0, w_repaired = False, w_lease = None,
     w_ws = ws, w_steps = []\<rparr>"

text \<open>\<^verbatim>\<open>if mutation_lease:\<close> in the \<^verbatim>\<open>finally\<close>.\<close>

definition release_held :: "worker_state \<Rightarrow> workspace" where
  "release_held st =
     (case w_lease st of
        None \<Rightarrow> w_ws st
      | Some token \<Rightarrow> if token = [] then w_ws st else release_lease token (w_ws st))"

definition native_worker ::
  "worker_env \<Rightarrow> nat \<Rightarrow> workspace \<Rightarrow> graph_cell \<Rightarrow> string \<Rightarrow> tool_definition list \<Rightarrow> string
     \<Rightarrow> (string \<times> json) list option \<Rightarrow> model_message list option \<Rightarrow> (worker_step list \<times> worker_end option) \<times> workspace" where
  "native_worker env fuel ws cell pname defs system schema resume =
     (case wk_profile env pname of
        Inl (e, m) \<Rightarrow>
          (([], Some (Returned (worker_failure (provider_error_kind e) m [] False (worker_start [] ws)))), ws)
      | Inr profile \<Rightarrow>
          (case worker_loop env \<lparr>wj_budget = wc_budget (contract cell), wj_profile_name = pname,
               wj_profile = profile, wj_tools = defs, wj_system = system, wj_schema = schema\<rparr> fuel
               (worker_start (first_messages env cell system resume) ws) of
             (res, st) \<Rightarrow> ((w_steps st, res), release_held st)))"

end
