(* ===== verification/Worker_Properties.thy ===== *)
theory Worker_Properties
  imports Worker Workspace_Properties Routing
begin

section \<open>What a worker guarantees\<close>

text \<open>
  The properties of the model/tool loop: typed tool calls, batches, the shape of the conversation,
  the end of the loop, the token budget and the mutation lease.
\<close>

subsection \<open>Tool calls\<close>

lemma missing_argument_None: "missing_argument fs args = None \<longleftrightarrow> set fs \<subseteq> fst ` set args"
  by (induction fs) auto

lemma wrong_argument_None:
  "wrong_argument params args = None \<longleftrightarrow>
     list_all (\<lambda>(k, v). case schema_type params k of None \<Rightarrow> True | Some t \<Rightarrow> has_type t v) args"
  by (induction params args rule: wrong_argument.induct) (auto split: option.splits)

lemma validate_tool_args_None:
  "validate_tool_args tc defs = None \<longleftrightarrow>
     (case definition_of defs (tc_name tc) of
        None \<Rightarrow> False
      | Some d \<Rightarrow> set (schema_required (td_parameters d)) \<subseteq> fst ` set (tc_arguments tc)
          \<and> list_all (\<lambda>(k, v). case schema_type (td_parameters d) k of None \<Rightarrow> True | Some t \<Rightarrow> has_type t v)
              (tc_arguments tc))"
  by (auto simp: validate_tool_args_def missing_argument_None [symmetric] wrong_argument_None [symmetric]
      split: option.splits)

lemma definition_of_advertised:
  "definition_of (advertised reg) n = map_option (\<lambda>t. \<lparr>td_name = tool_name t,
     td_description = tool_description t, td_parameters = tool_parameters t\<rparr>) (tool_of reg n)"
proof -
  have "map_of (map (\<lambda>t. (tool_name t, f t)) ts) n = map_option f (map_of (map (\<lambda>t. (tool_name t, t)) ts) n)" for ts f
    by (induction ts) auto
  from this [of _ "rev reg"] show ?thesis
    by (simp add: definition_of_def tool_of_def advertised_def rev_map comp_def)
qed

lemma text_arg_typed:
  assumes "list_all (\<lambda>(k, v). case schema_type params k of None \<Rightarrow> True | Some t \<Rightarrow> has_type t v) args"
    and "schema_type params k = Some ''string''"
  shows "\<exists>s. text_arg args k d = Inr s"
proof (cases "obj_get args k")
  case (Some v)
  then have "(k, v) \<in> set args" by (auto simp: obj_get_def dest: map_of_SomeD)
  with assms have "has_type ''string'' v" by (fastforce simp: list_all_iff)
  with Some show ?thesis by (cases v) (auto simp: text_arg_def has_type_def)
qed (simp add: text_arg_def)

text \<open>The schema declares every argument a behaviour reads, as a text.\<close>

fun reads_args :: "tool_action \<Rightarrow> string list" where
  "reads_args Act_read = [''path'']"
| "reads_args Act_list = [''path'']"
| "reads_args Act_search = [''pattern'', ''path'']"
| "reads_args Act_write = [''path'', ''content'']"
| "reads_args Act_create = [''path'', ''content'']"
| "reads_args Act_replace = [''path'', ''old'', ''new'']"
| "reads_args Act_web_fetch = [''url'']"
| "reads_args (Act_command n) = []"

lemma registry_declares:
  assumes "t \<in> set (with_defaults cmds)"
  shows "list_all (\<lambda>k. schema_type (tool_parameters t) k = Some ''string'') (reads_args (tool_action t))"
  using assms
  by (auto simp: with_defaults_def builtin_tools_def command_tool_def tool_schema_def string_prop_def
      schema_type_def obj_get_def Let_def)

lemma typed_action_runs:
  assumes "list_all (\<lambda>k. \<forall>d. \<exists>s. text_arg args k d = Inr s) (reads_args act)"
  shows "fst (run_action env act token args ws) \<noteq> Inl (Not_text k)"
proof -
  have lift: "lift_ws r \<noteq> Inl (Not_text k)" for r :: "ws_raise + tool_result"
    by (cases r) (simp_all add: lift_ws_def)
  have outcome: "fst (lift_outcome r) \<noteq> Inl (Not_text k)" for r
    using lift by (cases r) (simp add: lift_outcome_def)
  have typed: "\<exists>s. text_arg args a d = Inr s" if "a \<in> set (reads_args act)" for a d
    using assms that by (auto simp: list_all_iff)
  show ?thesis
  proof (cases act)
    case Act_read
    with typed [of "''path''" "''.''"] lift show ?thesis
      by (auto simp: run_action_def read_action_def on_text_def)
  next
    case Act_list
    with typed [of "''path''" "''.''"] lift show ?thesis
      by (auto simp: run_action_def read_action_def on_text_def)
  next
    case Act_search
    with typed [of "''path''" "''.''"] typed [of "''pattern''" "[]"] lift show ?thesis
      by (auto simp: run_action_def read_action_def on_text_def)
  next
    case Act_write
    with typed [of "''path''" "[]"] typed [of "''content''" "[]"] show ?thesis
      by (auto simp: run_action_def mutate_text_def outcome)
  next
    case Act_create
    with typed [of "''path''" "[]"] typed [of "''content''" "[]"] show ?thesis
      by (auto simp: run_action_def mutate_text_def outcome)
  next
    case Act_replace
    with typed [of "''path''" "[]"] typed [of "''old''" "[]"] typed [of "''new''" "[]"] show ?thesis
      by (auto simp: run_action_def mutate_text_def outcome)
  next
    case Act_web_fetch
    with typed [of "''url''" "[]"] show ?thesis
      by (auto simp: run_action_def read_action_def on_text_def split: option.split)
  next
    case (Act_command n)
    then show ?thesis by (auto simp: run_action_def outcome split: option.split)
  qed
qed


definition sample_call :: "string \<Rightarrow> (string \<times> json) list \<Rightarrow> tool_call" where
  "sample_call n args = \<lparr>tc_id = ''1'', tc_name = n, tc_arguments = args, tc_signature = []\<rparr>"

definition sample_response :: "string \<Rightarrow> tool_call list \<Rightarrow> model_response" where
  "sample_response answer tcs = \<lparr>mres_text = answer, mres_tool_calls = tcs,
     mres_finish = (if tcs = [] then END_TURN else TOOL_USE_STOP),
     mres_usage = \<lparr>tu_input = 10, tu_output = 0, cache_creation_tokens = 0, cache_read_tokens = 0\<rparr>,
     mres_provider = [], mres_model = [], mres_artifact = None\<rparr>"

text \<open>A model that reads a file and creates another in its first answer and then stops.\<close>

definition sample_worker_env :: worker_env where
  "sample_worker_env =
     \<lparr>wk_profile = (\<lambda>n. Inr (sample_profile n {WORKER} 1)),
      wk_complete = (\<lambda>n request. Gave (if n = 1
        then sample_response ''looking'' [sample_call ''read'' [(''path'', JStr ''f'')],
               sample_call ''create'' [(''path'', JStr ''g''), (''content'', JStr ''x'')]]
        else sample_response ''done'' [])),
      wk_size = (\<lambda>request. 100), wk_elapsed = (\<lambda>turn. 0), wk_cut = (\<lambda>turn i. None),
      wk_loads = (\<lambda>s. Inl ''no json''), wk_dump_size = (\<lambda>v. 0), wk_schema_error = (\<lambda>v s. None),
      wk_registry = with_defaults [], wk_os = (\<lambda>n. sample_os), wk_now = (\<lambda>n. 0), wk_fetch = None,
      wk_profiles = [], wk_raise_text = (\<lambda>e. []), wk_duration = (\<lambda>n. 0), wk_detail = (\<lambda>c. [])\<rparr>"

definition sample_idle_ws :: workspace where
  "sample_idle_ws = (sample_ws ''text'')\<lparr>held_lease := None\<rparr>"

definition sample_tool_env :: tool_env where
  "sample_tool_env = \<lparr>te_os = sample_os, te_now = 0, te_fetch = None, te_profiles = []\<rparr>"


subsection \<open>Batches\<close>

definition batch_ok :: "tool_registry \<Rightarrow> tool_call list \<Rightarrow> bool" where
  "batch_ok reg b \<longleftrightarrow> 1 \<le> length b \<and> length b \<le> max_parallel_tool_calls
     \<and> (length b = 1 \<or> list_all (\<lambda>tc. \<not> is_mutating reg tc) b)"

lemma batches_from_spec:
  assumes "list_all (batch_ok reg) bs" and "prev \<or> bs \<noteq> [] \<and> list_all (\<lambda>tc. \<not> is_mutating reg tc) (last bs)"
  shows "concat (batches_from reg prev bs tcs) = concat bs @ tcs \<and> list_all (batch_ok reg) (batches_from reg prev bs tcs)"
  using assms
proof (induction reg prev bs tcs rule: batches_from.induct)
  case (2 reg prev bs c cs)
  show ?case
  proof (cases "is_mutating reg c \<or> prev \<or> max_parallel_tool_calls \<le> length (last bs)")
    case True
    have "batch_ok reg [c]"
      by (simp add: batch_ok_def max_parallel_tool_calls_def)
    with "2.prems"(1) have "list_all (batch_ok reg) (bs @ [[c]])" by simp
    with 2 True show ?thesis by simp
  next
    case False
    with "2.prems"(2) have last: "bs \<noteq> []" "list_all (\<lambda>tc. \<not> is_mutating reg tc) (last bs)" by auto
    have bs: "bs = butlast bs @ [last bs]" using last(1) by simp
    have ok: "list_all (batch_ok reg) (butlast bs)" "batch_ok reg (last bs)"
      using "2.prems"(1) bs by (metis list_all_append, metis list_all_append list.pred_inject(2))
    then have "list_all (batch_ok reg) (butlast bs @ [last bs @ [c]])"
      using False last(2) by (simp add: batch_ok_def)
    moreover have "concat (butlast bs @ [last bs @ [c]]) = concat bs @ [c]"
      using arg_cong [OF bs, of concat] by simp
    ultimately show ?thesis using 2 False last(2) by simp
  qed
qed simp

lemma concat_tool_batches: "concat (tool_batches tcs reg) = tcs"
  using batches_from_spec [of reg "[]" True tcs] by (simp add: tool_batches_def)

text \<open>Concurrency is only given to reads.  The batches of a round are its calls in order; every
  batch has one to six calls, a batch of more than one holds no mutating tool, and a tool of the
  registry that is not mutating leaves the workspace as it was.\<close>

theorem tool_batches_safe:
  "concat (tool_batches tcs reg) = tcs
   \<and> list_all (\<lambda>b. 1 \<le> length b \<and> length b \<le> 6
        \<and> (length b = 1 \<or> list_all (\<lambda>tc. \<not> is_mutating reg tc) b)) (tool_batches tcs reg)
   \<and> (if reg = with_defaults cmds \<and> \<not> is_mutating reg tc
      then snd (registry_execute reg (tc_name tc) env token (tc_arguments tc) ws) = ws else True)"
proof -
  have "list_all (batch_ok reg) (tool_batches tcs reg)"
    using batches_from_spec [of reg "[]" True tcs] by (simp add: tool_batches_def)
  moreover have "snd (registry_execute reg (tc_name tc) env token (tc_arguments tc) ws) = ws"
    if reg: "reg = with_defaults cmds" and m: "\<not> is_mutating reg tc"
  proof (cases "tool_of reg (tc_name tc)")
    case (Some t)
    then have "\<not> writes (tool_action t)"
      using m registry_flags tool_of_name [OF Some] reg by (auto simp: is_mutating_def)
    from run_action_reads [OF this, of env token "tc_arguments tc" ws] Some show ?thesis
      by (cases "run_action env (tool_action t) token (tc_arguments tc) ws") (simp add: registry_execute_def)
  qed (simp add: registry_execute_def)
  ultimately show ?thesis
    using concat_tool_batches [of tcs reg] by (auto simp: batch_ok_def max_parallel_tool_calls_def list_all_iff)
qed

end
