(* ===== verification/Worker_Conversation.thy ===== *)
theory Worker_Conversation
  imports Worker_Properties
begin

section \<open>The conversation a worker keeps\<close>

text \<open>
  What each step of the loop leaves alone (the frame lemmas shared by the properties of the
  worker), and the shape of the conversation: every tool call a model made is answered, in order,
  before the next message that is no tool result.  Compaction and the note about it keep that
  shape, so every checkpoint has it.
\<close>

subsection \<open>What the steps leave alone\<close>

lemma publish_simps [simp]:
  "w_messages (publish k d st) = w_messages st" "w_results (publish k d st) = w_results st"
  "w_input (publish k d st) = w_input st" "w_output (publish k d st) = w_output st"
  "w_rounds (publish k d st) = w_rounds st" "w_api (publish k d st) = w_api st"
  "w_truncated (publish k d st) = w_truncated st" "w_repaired (publish k d st) = w_repaired st"
  "w_lease (publish k d st) = w_lease st" "w_ws (publish k d st) = w_ws st"
  by (simp_all add: publish_def)

lemma add_messages_simps [simp]:
  "w_messages (add_messages ms st) = w_messages st @ ms" "w_results (add_messages ms st) = w_results st"
  "w_input (add_messages ms st) = w_input st" "w_output (add_messages ms st) = w_output st"
  "w_rounds (add_messages ms st) = w_rounds st" "w_api (add_messages ms st) = w_api st"
  "w_truncated (add_messages ms st) = w_truncated st" "w_repaired (add_messages ms st) = w_repaired st"
  "w_lease (add_messages ms st) = w_lease st" "w_ws (add_messages ms st) = w_ws st"
  "w_steps (add_messages ms st) = w_steps st"
  by (simp_all add: add_messages_def)

lemma record_call_simps [simp]:
  "w_messages (record_call p u st) = w_messages st"
  "w_input (record_call p u st) = w_input st + tu_input u"
  "w_output (record_call p u st) = w_output st + tu_output u"
  "w_rounds (record_call p u st) = w_rounds st" "w_api (record_call p u st) = w_api st"
  "w_truncated (record_call p u st) = w_truncated st" "w_repaired (record_call p u st) = w_repaired st"
  "w_lease (record_call p u st) = w_lease st" "w_ws (record_call p u st) = w_ws st"
  "w_steps (record_call p u st) = w_steps st"
  by (simp_all add: record_call_def)

lemma result_counts [simp]:
  "wr_input_tokens (worker_failure k d a f st) = w_input st" "wr_output_tokens (worker_failure k d a f st) = w_output st"
  "wr_input_tokens (worker_success a st) = w_input st" "wr_output_tokens (worker_success a st) = w_output st"
  "wr_ok (worker_success a st)" "\<not> wr_ok (worker_failure k d a f st)"
  "wr_messages (worker_success a st) = with_final (w_messages st) a True"
  by (simp_all add: worker_failure_def worker_success_def)

text \<open>The snapshots a run stored.\<close>

fun snapshots :: "worker_step list \<Rightarrow> model_message list list" where
  "snapshots [] = []"
| "snapshots (Publish e # steps) = snapshots steps"
| "snapshots (Checkpoint ms # steps) = ms # snapshots steps"

lemma snapshots_append [simp]: "snapshots (a @ b) = snapshots a @ snapshots b"
  by (induction a rule: snapshots.induct) auto

lemma snapshots_publish [simp]: "snapshots (w_steps (publish k d st)) = snapshots (w_steps st)"
  by (simp add: publish_def)

text \<open>A tool call changes the lease and the workspace, and nothing else of the state.\<close>

definition workspace_only :: "worker_state \<Rightarrow> worker_state \<Rightarrow> bool" where
  "workspace_only st st' \<longleftrightarrow> st' = st\<lparr>w_lease := w_lease st', w_ws := w_ws st'\<rparr>"

lemma workspace_only_refl [simp]: "workspace_only st st"
  by (simp add: workspace_only_def)

lemma workspace_only_upd [simp]:
  "workspace_only st (st\<lparr>w_lease := l, w_ws := ws\<rparr>)" "workspace_only st (st\<lparr>w_ws := ws\<rparr>)"
  by (simp_all add: workspace_only_def)

lemma workspace_only_trans: "workspace_only a b \<Longrightarrow> workspace_only b c \<Longrightarrow> workspace_only a c"
  unfolding workspace_only_def by (cases a; cases b; cases c) simp

lemma workspace_only_fields:
  assumes "workspace_only st st'"
  shows "w_messages st' = w_messages st" "w_results st' = w_results st" "w_input st' = w_input st"
    "w_output st' = w_output st" "w_rounds st' = w_rounds st" "w_api st' = w_api st"
    "w_truncated st' = w_truncated st" "w_repaired st' = w_repaired st" "w_steps st' = w_steps st"
  using assms unfolding workspace_only_def by (cases st; cases st'; simp)+

lemma resolve_call_frame: "workspace_only st (snd (resolve_call env job n tc st))"
  by (simp add: resolve_call_def split: option.split prod.split)

lemma run_calls_frame: "workspace_only st (snd (run_calls env job n tcs st))"
proof (induction tcs arbitrary: n st)
  case (Cons tc tcs)
  obtain m st1 where r: "resolve_call env job n tc st = (m, st1)" by fastforce
  with resolve_call_frame [of st env job n tc] have "workspace_only st st1" by simp
  from workspace_only_trans [OF this Cons.IH [of st1 "Suc n"]] show ?case by (auto simp: r split: prod.split)
qed simp

lemma run_calls_length: "length (fst (run_calls env job n tcs st)) = length tcs"
proof (induction tcs arbitrary: n st)
  case (Cons tc tcs)
  obtain m st1 where r: "resolve_call env job n tc st = (m, st1)" by fastforce
  obtain ms st2 where rs: "run_calls env job (Suc n) tcs st1 = (ms, st2)" by fastforce
  with Cons.IH have "length ms = length tcs" by (metis fst_conv)
  with r rs show ?case by simp
qed simp

subsection \<open>Answered conversations\<close>

text \<open>Reading a conversation, with the ids of the calls that still wait for their result.\<close>

fun awaiting :: "string list \<Rightarrow> model_message list \<Rightarrow> string list option" where
  "awaiting p [] = Some p"
| "awaiting p (m # ms) =
     (if msg_role m = Role_TOOL
      then (case p of
              [] \<Rightarrow> None
            | i # q \<Rightarrow> if msg_tool_call_id m = i \<and> msg_tool_calls m = [] then awaiting q ms else None)
      else if p = [] \<and> (msg_role m = Role_ASSISTANT \<or> msg_tool_calls m = [])
      then awaiting (map tc_id (msg_tool_calls m)) ms
      else None)"

definition answered :: "model_message list \<Rightarrow> bool" where
  "answered ms \<longleftrightarrow> awaiting [] ms = Some []"

lemma awaiting_append: "awaiting p (a @ b) = (case awaiting p a of None \<Rightarrow> None | Some q \<Rightarrow> awaiting q b)"
  by (induction p a rule: awaiting.induct) (auto split: list.split)

lemma awaiting_boundary:
  assumes "awaiting p (a @ b) = Some []" and "b = [] \<or> msg_role (hd b) \<noteq> Role_TOOL"
  shows "awaiting p a = Some []" "awaiting [] b = Some []"
proof -
  from assms(1) obtain q where q: "awaiting p a = Some q" "awaiting q b = Some []"
    by (auto simp: awaiting_append split: option.splits)
  then have "q = []" using assms(2) by (cases b) (auto split: if_splits)
  with q show "awaiting p a = Some []" "awaiting [] b = Some []" by simp_all
qed

lemma awaiting_plain:
  "awaiting p ms = Some [] \<Longrightarrow> msg_role m \<noteq> Role_TOOL \<Longrightarrow> msg_tool_calls m = [] \<Longrightarrow>
     awaiting p (ms @ [m]) = Some []"
  by (simp add: awaiting_append)

lemma awaiting_content:
  "awaiting p (ms[i := (ms ! i)\<lparr>msg_content := c\<rparr>]) = awaiting p ms"
proof (induction p ms arbitrary: i rule: awaiting.induct)
  case (2 p m ms)
  then show ?case by (cases i) (auto split: list.split)
qed simp

subsection \<open>Compaction keeps conversations answered\<close>

lemma pinned_prefix_le: "pinned_prefix ms \<le> length ms"
  using length_takeWhile_le [of "\<lambda>m. msg_role m = Role_SYSTEM" ms] by (simp add: pinned_prefix_def Let_def)

lemma pinned_prefix_last:
  assumes "0 < pinned_prefix ms"
  shows "msg_role (ms ! (pinned_prefix ms - 1)) \<in> {Role_SYSTEM, Role_USER}"
proof -
  let ?n = "length (takeWhile (\<lambda>m. msg_role m = Role_SYSTEM) ms)"
  show ?thesis
  proof (cases "?n < length ms \<and> msg_role (ms ! ?n) = Role_USER")
    case False
    with assms have n: "pinned_prefix ms = ?n" "0 < ?n" by (auto simp: pinned_prefix_def Let_def)
    then have "ms ! (?n - 1) = takeWhile (\<lambda>m. msg_role m = Role_SYSTEM) ms ! (?n - 1)"
      by (simp add: takeWhile_nth)
    moreover have "takeWhile (\<lambda>m. msg_role m = Role_SYSTEM) ms ! (?n - 1) \<in> set (takeWhile (\<lambda>m. msg_role m = Role_SYSTEM) ms)"
      using n by (intro nth_mem) simp
    ultimately have "msg_role (ms ! (?n - 1)) = Role_SYSTEM" by (metis set_takeWhileD)
    with n show ?thesis by simp
  qed (simp add: pinned_prefix_def Let_def)
qed

lemma pinned_prefix_answered:
  assumes "awaiting [] ms = Some r"
  shows "awaiting [] (take (pinned_prefix ms) ms) = Some []"
proof (cases "pinned_prefix ms")
  case (Suc n)
  let ?m = "ms ! n"
  have split: "ms = (take n ms @ [?m]) @ drop (Suc n) ms"
    using pinned_prefix_le [of ms] Suc by (simp add: id_take_nth_drop)
  with assms obtain q where q: "awaiting [] (take n ms @ [?m]) = Some q"
    by (metis option.case_eq_if option.collapse option.distinct(1) awaiting_append)
  have "msg_role ?m \<in> {Role_SYSTEM, Role_USER}" using pinned_prefix_last [of ms] Suc by simp
  with q have "q = []" by (auto simp: awaiting_append split: option.splits if_splits)
  moreover have "take (pinned_prefix ms) ms = take n ms @ [?m]"
    using pinned_prefix_le [of ms] Suc by (simp add: take_Suc_conv_app_nth)
  ultimately show ?thesis using q by simp
qed simp

lemma drop_span_answered:
  assumes "answered ms" and "snd (evictable_spans ms) = sp # spans"
  shows "answered (drop_span ms sp)"
proof -
  obtain s e where sp: "sp = (s, e)" by fastforce
  with assms(2) have h: "spans_from ms (pinned_prefix ms) = (s, e) # spans" by (simp add: evictable_spans_def)
  note span = spans_from_hd [OF h]
  have rest: "drop e ms = dropWhile is_tool_message (drop (s + 1) ms)"
    using span by (simp add: dropWhile_eq_drop add.commute)
  have "drop e ms = [] \<or> msg_role (hd (drop e ms)) \<noteq> Role_TOOL"
    unfolding rest using hd_dropWhile [of is_tool_message] by (auto simp: is_tool_message_def)
  from awaiting_boundary(2) [of "[]" "take e ms" "drop e ms", OF _ this] assms(1)
  have "awaiting [] (drop e ms) = Some []" by (simp add: answered_def)
  moreover have "awaiting [] (take s ms) = Some []"
    using pinned_prefix_answered [of ms "[]"] assms(1) span by (simp add: answered_def)
  ultimately show ?thesis by (simp add: drop_span_def sp answered_def awaiting_append)
qed

lemma compact_loop_answered: "answered ms \<Longrightarrow> answered (fst (compact_loop est target ms k))"
proof (induction est target ms k rule: compact_loop.induct)
  case (1 est target ms k)
  show ?case
  proof (cases "snd (evictable_spans ms)")
    case (Cons sp spans)
    then show ?thesis
      using 1 drop_span_answered [OF "1.prems" Cons] by (subst compact_loop.simps) auto
  qed (use 1 in \<open>subst compact_loop.simps, simp\<close>)
qed

lemma compact_messages_answered: "answered ms \<Longrightarrow> answered (fst (compact_messages est window ms))"
  by (simp add: compact_messages_def compact_loop_answered)

lemma note_elision_answered: "answered ms \<Longrightarrow> answered (note_elision ms n)"
  by (simp add: note_elision_def Let_def answered_def awaiting_content)

lemma compacted_answered: "answered (w_messages st) \<Longrightarrow> answered (w_messages (compacted env job st))"
  using compact_messages_answered [of "w_messages st" "estimate_tokens env job"
      "context_window_tokens (wj_profile job)"]
  by (auto simp: compacted_def note_elision_answered split: prod.splits)

subsection \<open>A turn keeps conversations answered\<close>

lemma record_tool_results_awaiting:
  assumes "length rs = length b" and "awaiting [] (w_messages st) = Some (map tc_id b @ q)"
  shows "awaiting [] (w_messages (fold (record_tool_result env) (zip b rs) st)) = Some q"
  using assms
proof (induction b arbitrary: rs st)
  case (Cons tc b)
  then obtain r rs' where rs: "rs = r # rs'" by (cases rs) auto
  have "awaiting [] (w_messages (record_tool_result env (tc, r) st)) = Some (map tc_id b @ q)"
    using Cons.prems(2)
    by (simp add: record_tool_result_def awaiting_append tool_message_def plain_message_def)
  with Cons.IH [of rs' "record_tool_result env (tc, r) st"] Cons.prems(1) show ?case by (simp add: rs)
qed simp

lemma record_tool_results_snapshots:
  "snapshots (w_steps (fold (record_tool_result env) crs st)) = snapshots (w_steps st)"
  by (induction crs arbitrary: st) (auto simp: record_tool_result_def split: prod.split)

lemma run_batches_awaiting:
  assumes "run_batches env job i bs st = (ok, st')"
    and "awaiting [] (w_messages st) = Some (map tc_id (concat bs))"
  shows "(ok \<longrightarrow> answered (w_messages st')) \<and> snapshots (w_steps st') = snapshots (w_steps st)"
  using assms
proof (induction env job i bs st rule: run_batches.induct)
  case (2 env job i b bs st)
  let ?n = "length (w_results st)"
  show ?case
  proof (cases "if 0 < max_wall_time_seconds (wj_budget job) then wk_cut env (w_turn st) i else None")
    case (Some k)
    with "2.prems"(1) show ?thesis
      using workspace_only_fields(9) [OF run_calls_frame [of st env job ?n "take k b"]] by auto
  next
    case None
    obtain rs st1 where r: "run_calls env job ?n b st = (rs, st1)" by fastforce
    with run_calls_frame [of st env job ?n b] have frame: "workspace_only st st1" by simp
    have len: "length rs = length b" using run_calls_length [of env job ?n b st] r by simp
    have "awaiting [] (w_messages (fold (record_tool_result env) (zip b rs) st1)) = Some (map tc_id (concat bs))"
      using record_tool_results_awaiting [OF len] "2.prems"(2) workspace_only_fields(1) [OF frame] by simp
    with 2 None r show ?thesis
      using record_tool_results_snapshots [of env "zip b rs" st1] workspace_only_fields(9) [OF frame] by auto
  qed
qed (auto simp: answered_def)

fun keeps_answered :: "turn_end \<times> worker_state \<Rightarrow> bool" where
  "keeps_answered (Continue, st) = (list_all answered (snapshots (w_steps st)) \<and> answered (w_messages st))"
| "keeps_answered (Finish r, st) =
     (list_all answered (snapshots (w_steps st)) \<and> (if wr_ok r then answered (wr_messages r) else True))"
| "keeps_answered (Crash m, st) = list_all answered (snapshots (w_steps st))"

lemma with_final_answered: "answered ms \<Longrightarrow> answered (with_final ms t f)"
  by (simp add: with_final_def answered_def awaiting_append plain_message_def)

lemma plain_answered:
  "answered ms \<Longrightarrow> role \<noteq> Role_TOOL \<Longrightarrow> answered (ms @ [plain_message role t])"
  by (simp add: answered_def awaiting_append plain_message_def)

lemma final_answer_answered:
  assumes "answered (w_messages st)" and "list_all answered (snapshots (w_steps st))"
  shows "keeps_answered (final_answer env job response st)"
proof -
  have two: "answered (w_messages st @ [plain_message Role_ASSISTANT a, plain_message Role_USER u])" for a u
    using plain_answered [OF plain_answered [OF assms(1), of Role_ASSISTANT a], of Role_USER u] by simp
  have one: "answered (w_messages st @ [plain_message Role_USER u])" for u
    using plain_answered [OF assms(1)] by simp
  show ?thesis
    using assms two one with_final_answered [OF assms(1)]
    by (auto simp: final_answer_def schema_answer_def truncated_answer_def Let_def
        split: option.split prod.split json.split)
qed

lemma tool_round_answered:
  assumes "answered (w_messages st)" and "list_all answered (snapshots (w_steps st))"
  shows "keeps_answered (tool_round env job response st)"
proof -
  let ?asked = "add_messages [(plain_message Role_ASSISTANT (mres_text response))\<lparr>
            msg_tool_calls := mres_tool_calls response\<rparr>] (st\<lparr>w_truncated := 0\<rparr>)"
  obtain ok st1 where r: "run_batches env job 0 (tool_batches (mres_tool_calls response) (wk_registry env)) ?asked = (ok, st1)"
    by fastforce
  have "awaiting [] (w_messages ?asked) = Some (map tc_id (mres_tool_calls response))"
    using assms(1) by (simp add: answered_def awaiting_append plain_message_def)
  with run_batches_awaiting [OF r] concat_tool_batches
  have "(ok \<longrightarrow> answered (w_messages st1)) \<and> snapshots (w_steps st1) = snapshots (w_steps st)" by simp
  with assms(2) show ?thesis by (cases ok) (auto simp: tool_round_def Let_def r)
qed

lemma call_model_answered:
  assumes "answered (w_messages st)" and "list_all answered (snapshots (w_steps st))"
  shows "keeps_answered (call_model env job st)"
proof -
  have step: "keeps_answered (take_answer env job response st')"
    if "answered (w_messages st')" "list_all answered (snapshots (w_steps st'))" for response st'
    using that tool_round_answered final_answer_answered
    by (simp add: take_answer_def Let_def)
  show ?thesis
    using assms by (simp add: call_model_def Let_def step split: gateway_answer.split)
qed

lemma worker_turn_answered:
  assumes "answered (w_messages st)" and "list_all answered (snapshots (w_steps st))"
  shows "keeps_answered (worker_turn env job st)"
proof -
  have snap: "snapshots (w_steps (compacted env job st')) = snapshots (w_steps st')" for st'
    by (simp add: compacted_def split: prod.split)
  have "keeps_answered (call_model env job (compacted env job (st\<lparr>w_turn := w_turn st + 1\<rparr>)))"
    using call_model_answered [OF compacted_answered, of "st\<lparr>w_turn := w_turn st + 1\<rparr>" env job]
      assms snap by simp
  then show ?thesis using assms by (simp add: worker_turn_def Let_def)
qed

lemma worker_loop_answered:
  assumes "answered (w_messages st)" and "list_all answered (snapshots (w_steps st))"
    and "worker_loop env job fuel st = (res, st')"
  shows "list_all answered (snapshots (w_steps st'))
    \<and> (case res of Some (Returned r) \<Rightarrow> (if wr_ok r then answered (wr_messages r) else True) | _ \<Rightarrow> True)"
  using assms
proof (induction fuel arbitrary: st)
  case (Suc fuel)
  obtain e st1 where t: "worker_turn env job st = (e, st1)" by fastforce
  note kept = worker_turn_answered [OF Suc.prems(1,2), of env job, unfolded t]
  show ?case
  proof (cases e)
    case Continue
    with kept Suc.prems(3) t show ?thesis by (intro Suc.IH [of st1]) auto
  qed (use kept Suc.prems(3) t in auto)
qed auto

text \<open>C12: whatever a worker stores can be handed back to a model.  If the messages it resumes from
  answer every tool call, then so does every snapshot it stores, compaction included: each call has
  its result, in the order of the calls and before any other message, and no result stands without
  its call.  The conversation of a successful result has the same shape.\<close>

theorem checkpoints_complete:
  assumes "case resume of None \<Rightarrow> True | Some ms \<Rightarrow> answered ms"
  shows "case native_worker env fuel ws cell pname defs system schema resume of ((steps, res), ws') \<Rightarrow>
     list_all answered (snapshots steps)
     \<and> (case res of Some (Returned r) \<Rightarrow> (if wr_ok r then answered (wr_messages r) else True) | _ \<Rightarrow> True)"
proof -
  have "answered (first_messages env cell system resume)"
    using assms
    by (cases resume; cases "the resume") (simp_all add: first_messages_def answered_def plain_message_def)
  then have start: "answered (w_messages (worker_start (first_messages env cell system resume) ws))"
    "list_all answered (snapshots (w_steps (worker_start (first_messages env cell system resume) ws)))"
    by (simp_all add: worker_start_def)
  show ?thesis
  proof (cases "wk_profile env pname")
    case (Inl e)
    then show ?thesis by (cases e) (simp add: native_worker_def)
  next
    case (Inr profile)
    obtain r st where l: "worker_loop env \<lparr>wj_budget = wc_budget (contract cell), wj_profile_name = pname,
        wj_profile = profile, wj_tools = defs, wj_system = system, wj_schema = schema\<rparr> fuel
        (worker_start (first_messages env cell system resume) ws) = (r, st)" by fastforce
    from worker_loop_answered [OF start l] show ?thesis by (simp add: native_worker_def Inr l)
  qed
qed

definition sample_resumed :: "model_message list" where
  "sample_resumed =
     [plain_message Role_USER ''go'',
      (plain_message Role_ASSISTANT [])\<lparr>msg_tool_calls := [sample_call ''list'' []]\<rparr>,
      (plain_message Role_TOOL ''f'')\<lparr>msg_tool_call_id := ''1''\<rparr>]"

theorem checkpoints_complete_witness:
  "case native_worker sample_worker_env 3 sample_idle_ws (sample_cell ''c'' [] MUTATING [] 0) ''p''
       (advertised (with_defaults [])) [] None (Some sample_resumed) of ((steps, res), ws') \<Rightarrow>
     (list_all answered (snapshots steps)
     \<and> (case res of Some (Returned r) \<Rightarrow> (if wr_ok r then answered (wr_messages r) else True) | _ \<Rightarrow> True))"
  using checkpoints_complete [of "Some sample_resumed" sample_worker_env 3 sample_idle_ws
      "sample_cell ''c'' [] MUTATING [] 0" "''p''" "advertised (with_defaults [])" "[]" None]
  by (simp add: answered_def sample_resumed_def plain_message_def sample_call_def)

text \<open>A tool result that failed is sent to the model without its error flag.\<close>

lemma tool_message_unflagged:
  "trm_is_error (result_message tc t True) \<and> \<not> msg_is_error (tool_message tc (result_message tc t True))"
  by (simp add: result_message_def tool_message_def plain_message_def)

end
