(* ===== verification/Worker_Limits.thy ===== *)
theory Worker_Limits
  imports Worker_Conversation
begin

section \<open>The limits of a worker\<close>

text \<open>
  The loop ends within its call or round limit, it spends no more tokens than its budget when the
  gateway keeps to the request, and it gives back the mutation lease it took.
\<close>

subsection \<open>The tallies\<close>

definition tallies :: "worker_state \<Rightarrow> (nat \<times> nat) \<times> nat \<times> nat \<times> nat \<times> bool" where
  "tallies st = ((w_input st, w_output st), w_api st, w_rounds st, w_truncated st, w_repaired st)"

lemma record_tool_results_tallies: "tallies (fold (record_tool_result env) crs st) = tallies st"
  by (induction crs arbitrary: st) (auto simp: record_tool_result_def tallies_def split: prod.split)

lemma run_calls_tallies: "tallies (snd (run_calls env job n tcs st)) = tallies st"
  using workspace_only_fields [OF run_calls_frame [of st env job n tcs]] by (simp add: tallies_def)

lemma run_batches_tallies: "tallies (snd (run_batches env job i bs st)) = tallies st"
proof (induction bs arbitrary: i st)
  case (Cons b bs)
  then show ?case
    using run_calls_tallies [of env job] record_tool_results_tallies [of env]
    by (auto split: option.split prod.split) (metis snd_conv)+
qed simp

text \<open>What an answer without tool calls and a tool round do to the tallies.\<close>

definition goes_on :: "worker_state \<Rightarrow> worker_state \<Rightarrow> bool" where
  "goes_on st st' \<longleftrightarrow>
     (w_rounds st' = Suc (w_rounds st) \<and> w_truncated st' = 0 \<and> w_repaired st' = w_repaired st)
     \<or> (w_rounds st' = w_rounds st \<and> w_truncated st' = Suc (w_truncated st) \<and> w_truncated st' < 3
          \<and> w_repaired st' = w_repaired st)
     \<or> (w_rounds st' = w_rounds st \<and> w_truncated st' = w_truncated st \<and> \<not> w_repaired st \<and> w_repaired st')"

text \<open>The tallies after a step that counted \<open>i\<close> input and \<open>k\<close> output tokens; what is returned
  reports them.\<close>

fun counts :: "nat \<Rightarrow> nat \<Rightarrow> worker_state \<Rightarrow> turn_end \<times> worker_state \<Rightarrow> bool" where
  "counts i k st (e, st') \<longleftrightarrow>
     w_input st' = w_input st + i \<and> w_output st' = w_output st + k \<and> w_api st' = w_api st
     \<and> (case e of
          Continue \<Rightarrow> goes_on st st'
        | Finish r \<Rightarrow> wr_input_tokens r = w_input st' \<and> wr_output_tokens r = w_output st'
        | Crash m \<Rightarrow> True)"

lemma final_answer_counts: "counts 0 0 st (final_answer env job response st)"
  by (auto simp: final_answer_def schema_answer_def truncated_answer_def goes_on_def Let_def
      max_consecutive_truncations_def split: option.split prod.split json.split)

lemma tool_round_counts: "counts 0 0 st (tool_round env job response st)"
proof -
  let ?asked = "add_messages [(plain_message Role_ASSISTANT (mres_text response))\<lparr>
            msg_tool_calls := mres_tool_calls response\<rparr>] (st\<lparr>w_truncated := 0\<rparr>)"
  obtain ok st1 where r: "run_batches env job 0 (tool_batches (mres_tool_calls response) (wk_registry env)) ?asked = (ok, st1)"
    by fastforce
  from run_batches_tallies [of env job 0 "tool_batches (mres_tool_calls response) (wk_registry env)" ?asked] r
  have "tallies st1 = tallies ?asked" by simp
  then show ?thesis by (cases ok) (auto simp: tool_round_def r tallies_def goes_on_def)
qed

lemma counts_from:
  assumes "counts 0 0 st1 r" and "w_input st1 = w_input st + i" and "w_output st1 = w_output st + k"
    and "w_api st1 = w_api st" "w_rounds st1 = w_rounds st" "w_truncated st1 = w_truncated st"
    "w_repaired st1 = w_repaired st"
  shows "counts i k st r"
proof (cases r)
  case (Pair e st')
  with assms show ?thesis by (cases e) (simp_all add: goes_on_def)
qed

lemma take_answer_counts:
  "counts (tu_input (mres_usage response)) (tu_output (mres_usage response)) st (take_answer env job response st)"
  by (simp add: take_answer_def Let_def counts_from [OF final_answer_counts] counts_from [OF tool_round_counts])

lemma estimate_sent: "estimate_request env (sent_request env job st) = estimate_tokens env job (w_messages st)"
  by (simp add: estimate_request_def estimate_tokens_def sent_request_def request_for_def)

text \<open>A gateway that keeps to the request: its input is no larger than estimated, its output no
  longer than asked for.\<close>

definition honest_gateway :: "worker_env \<Rightarrow> bool" where
  "honest_gateway env \<longleftrightarrow>
     (\<forall>n request response. wk_complete env n request = Gave response \<longrightarrow>
        tu_input (mres_usage response) \<le> estimate_request env request
        \<and> (case mr_max_output_tokens request of None \<Rightarrow> True | Some m \<Rightarrow> tu_output (mres_usage response) \<le> m))"

definition spent_within :: "budget \<Rightarrow> worker_state \<Rightarrow> bool" where
  "spent_within b st \<longleftrightarrow>
     (case token_limit b of None \<Rightarrow> True | Some n \<Rightarrow> int (w_input st + w_output st) \<le> n)"

lemma request_publish [simp]:
  "available_output env job (publish k d st) = available_output env job st"
  "sent_request env job (publish k d st) = sent_request env job st"
proof -
  show "available_output env job (publish k d st) = available_output env job st"
    by (cases "token_limit (wj_budget job)") (simp_all add: available_output_def)
  then show "sent_request env job (publish k d st) = sent_request env job st" by (simp add: sent_request_def)
qed

subsection \<open>One turn\<close>

definition turn_stopped :: "worker_state \<Rightarrow> turn_end \<times> worker_state \<Rightarrow> bool" where
  "turn_stopped st r \<longleftrightarrow>
     (case r of
        (Finish x, st') \<Rightarrow> w_input st' = w_input st \<and> w_output st' = w_output st
          \<and> wr_input_tokens x = w_input st \<and> wr_output_tokens x = w_output st
      | (Crash m, st') \<Rightarrow> w_input st' = w_input st \<and> w_output st' = w_output st
      | (Continue, st') \<Rightarrow> False)"

text \<open>The model was asked in state \<open>st1\<close>, with something left to answer with.\<close>

definition model_asked :: "worker_env \<Rightarrow> worker_job \<Rightarrow> worker_state \<Rightarrow> model_response \<Rightarrow> worker_state \<Rightarrow> bool" where
  "model_asked env job st response st1 \<longleftrightarrow>
     0 < available_output env job st1 \<and> w_api st1 = Suc (w_api st)
     \<and> wk_complete env (w_api st1) (sent_request env job st1) = Gave response
     \<and> w_input st1 = w_input st \<and> w_output st1 = w_output st
     \<and> w_rounds st1 = w_rounds st \<and> w_truncated st1 = w_truncated st \<and> w_repaired st1 = w_repaired st"

lemma sent_api [simp]:
  "available_output env job (st\<lparr>w_api := n\<rparr>) = available_output env job st"
  "sent_request env job (st\<lparr>w_api := n\<rparr>) = sent_request env job st"
proof -
  show "available_output env job (st\<lparr>w_api := n\<rparr>) = available_output env job st"
    by (cases "token_limit (wj_budget job)") (simp_all add: available_output_def)
  then show "sent_request env job (st\<lparr>w_api := n\<rparr>) = sent_request env job st" by (simp add: sent_request_def)
qed

lemma call_model_split:
  "turn_stopped st (call_model env job st)
   \<or> (\<exists>response st1. call_model env job st = take_answer env job response st1 \<and> model_asked env job st response st1)"
proof (cases "available_output env job st \<le> 0")
  case True
  then show ?thesis by (simp add: call_model_def Let_def turn_stopped_def)
next
  case False
  let ?st = "publish TURN_STARTED
            [(''messages'', JInt (int (length (w_messages st)))),
             (''input_tokens_estimate'', JInt (int (estimate_tokens env job (w_messages st))))] st"
  show ?thesis
  proof (cases "wk_complete env (Suc (w_api st)) (sent_request env job st)")
    case (Gave response)
    let ?st1 = "?st\<lparr>w_api := w_api ?st + 1\<rparr>"
    have "call_model env job st = take_answer env job response ?st1"
      using False Gave by (simp add: call_model_def Let_def)
    moreover have "model_asked env job st response ?st1"
      using False Gave by (simp add: model_asked_def)
    ultimately show ?thesis by blast
  qed (use False in \<open>simp_all add: call_model_def Let_def turn_stopped_def\<close>)
qed

lemma compacted_tallies: "tallies (compacted env job st) = tallies st"
  by (simp add: compacted_def tallies_def split: prod.split)

lemma worker_turn_split:
  "turn_stopped st (worker_turn env job st)
   \<or> (\<exists>response st1. worker_turn env job st = take_answer env job response st1
        \<and> model_asked env job st response st1 \<and> \<not> out_of_calls job st
        \<and> (if 0 < max_tool_rounds (wj_budget job) then int (w_rounds st) < max_tool_rounds (wj_budget job) else True))"
proof -
  let ?st = "compacted env job (st\<lparr>w_turn := w_turn st + 1\<rparr>)"
  have same: "tallies ?st = tallies st" by (simp add: compacted_tallies) (simp add: tallies_def)
  have "turn_stopped st (worker_turn env job st) \<or> worker_turn env job st = call_model env job ?st
      \<and> \<not> out_of_calls job st
      \<and> (if 0 < max_tool_rounds (wj_budget job) then int (w_rounds st) < max_tool_rounds (wj_budget job) else True)"
    by (auto simp: worker_turn_def Let_def turn_stopped_def out_of_calls_def)
  moreover have "turn_stopped ?st r \<Longrightarrow> turn_stopped st r" for r
    using same by (auto simp: turn_stopped_def tallies_def split: prod.split turn_end.split)
  moreover have "model_asked env job ?st response st1 \<Longrightarrow> model_asked env job st response st1" for response st1
    using same by (auto simp: model_asked_def tallies_def)
  ultimately show ?thesis using call_model_split [of ?st env job] by metis
qed

subsection \<open>The loop ends\<close>

text \<open>What bounds the turns: the calls, else the rounds, else the tokens, as long as every answer
  costs some.\<close>

definition bounded_worker :: "worker_env \<Rightarrow> budget \<Rightarrow> bool" where
  "bounded_worker env b \<longleftrightarrow>
     0 < max_calls b \<or> 0 < max_tool_rounds b
     \<or> token_limit b \<noteq> None
       \<and> (\<forall>n request response. wk_complete env n request = Gave response \<longrightarrow>
            0 < tu_input (mres_usage response) + tu_output (mres_usage response))"

definition turns_left :: "budget \<Rightarrow> worker_state \<Rightarrow> nat" where
  "turns_left b st =
     (if 0 < max_calls b then nat (max_calls b - int (w_api st))
      else if 0 < max_tool_rounds b
      then 3 * nat (max_tool_rounds b - int (w_rounds st)) + (2 - w_truncated st) + (if w_repaired st then 0 else 1)
      else case token_limit b of None \<Rightarrow> 0 | Some n \<Rightarrow> nat (n - int (w_input st) - int (w_output st)))"

definition worker_fuel :: "budget \<Rightarrow> nat" where
  "worker_fuel b =
     (if 0 < max_calls b then nat (max_calls b) + 1
      else if 0 < max_tool_rounds b then 3 * nat (max_tool_rounds b) + 4
      else case token_limit b of None \<Rightarrow> 1 | Some n \<Rightarrow> nat n + 1)"

lemma turn_uses_up:
  assumes "bounded_worker env (wj_budget job)" and "worker_turn env job st = (Continue, st')"
  shows "turns_left (wj_budget job) st' < turns_left (wj_budget job) st"
proof -
  let ?b = "wj_budget job"
  from worker_turn_split [of st env job] assms(2) obtain response st1
    where t: "take_answer env job response st1 = (Continue, st')"
      and asked: "model_asked env job st response st1" and open_calls: "\<not> out_of_calls job st"
      and rounds: "if 0 < max_tool_rounds ?b then int (w_rounds st) < max_tool_rounds ?b else True"
    by (auto simp: turn_stopped_def)
  from take_answer_counts [of response st1 env job, unfolded t]
  have st': "w_input st' = w_input st1 + tu_input (mres_usage response)"
      "w_output st' = w_output st1 + tu_output (mres_usage response)" "w_api st' = w_api st1" "goes_on st1 st'"
    by simp_all
  consider (calls) "0 < max_calls ?b" | (rounds) "\<not> 0 < max_calls ?b" "0 < max_tool_rounds ?b"
    | (tokens) n where "\<not> 0 < max_calls ?b" "\<not> 0 < max_tool_rounds ?b" "token_limit ?b = Some n"
    using assms(1) by (auto simp: bounded_worker_def)
  then show ?thesis
  proof cases
    case calls
    with open_calls have "int (w_api st) < max_calls ?b" by (simp add: out_of_calls_def)
    with calls asked st'(3) show ?thesis by (simp add: turns_left_def model_asked_def)
  next
    case rounds
    with asked st'(4) \<open>if 0 < max_tool_rounds ?b then int (w_rounds st) < max_tool_rounds ?b else True\<close>
    show ?thesis by (auto simp: turns_left_def model_asked_def goes_on_def)
  next
    case (tokens n)
    have pos: "\<forall>n request response. wk_complete env n request = Gave response \<longrightarrow>
            0 < tu_input (mres_usage response) + tu_output (mres_usage response)"
      using assms(1) tokens by (simp add: bounded_worker_def)
    have "wk_complete env (w_api st1) (sent_request env job st1) = Gave response"
      using asked by (auto simp: model_asked_def)
    from pos [rule_format, OF this]
    have "0 < tu_input (mres_usage response) + tu_output (mres_usage response)" .
    moreover have "int (w_input st) + int (w_output st) < n"
      using asked tokens(3) by (auto simp: model_asked_def available_output_def)
    ultimately show ?thesis using tokens asked st' by (auto simp: turns_left_def model_asked_def)
  qed
qed

lemma worker_loop_returns:
  assumes "bounded_worker env (wj_budget job)" and "turns_left (wj_budget job) st < fuel"
  shows "fst (worker_loop env job fuel st) \<noteq> None"
  using assms(2)
proof (induction fuel arbitrary: st)
  case (Suc fuel)
  obtain e st1 where t: "worker_turn env job st = (e, st1)" by fastforce
  show ?case
  proof (cases e)
    case Continue
    with turn_uses_up [OF assms(1), of st st1] t Suc.prems have "turns_left (wj_budget job) st1 < fuel" by simp
    from Suc.IH [OF this] Continue t show ?thesis by simp
  qed (use t in simp_all)
qed simp

subsection \<open>Tokens\<close>

lemma answer_within:
  assumes "honest_gateway env" and "model_asked env job st response st1"
  shows "(case token_limit (wj_budget job) of None \<Rightarrow> True
     | Some n \<Rightarrow> int (w_input st + tu_input (mres_usage response) + (w_output st + tu_output (mres_usage response))) \<le> n)"
proof (cases "token_limit (wj_budget job)")
  case (Some n)
  let ?request = "sent_request env job st1"
  have asked: "wk_complete env (w_api st1) ?request = Gave response" "0 < available_output env job st1"
    "w_input st1 = w_input st" "w_output st1 = w_output st"
    using assms(2) unfolding model_asked_def by blast+
  with assms(1) have usage: "tu_input (mres_usage response) \<le> estimate_request env ?request"
    "case mr_max_output_tokens ?request of None \<Rightarrow> True | Some m \<Rightarrow> tu_output (mres_usage response) \<le> m"
    unfolding honest_gateway_def by blast+
  then have "tu_input (mres_usage response) \<le> estimate_tokens env job (w_messages st1)"
    by (simp add: estimate_sent)
  moreover have "int (tu_output (mres_usage response)) \<le> available_output env job st1"
    using usage(2) asked(2) by (simp add: sent_request_def)
  moreover have "available_output env job st1
      = n - int (w_input st) - int (w_output st) - int (estimate_tokens env job (w_messages st1))"
    using Some asked by (simp add: available_output_def)
  ultimately show ?thesis using Some by simp
qed simp

definition turn_within :: "budget \<Rightarrow> turn_end \<times> worker_state \<Rightarrow> bool" where
  "turn_within b r \<longleftrightarrow>
     (case r of
        (Finish x, st') \<Rightarrow>
          (case token_limit b of None \<Rightarrow> True | Some n \<Rightarrow> int (wr_input_tokens x + wr_output_tokens x) \<le> n)
      | (e, st') \<Rightarrow> spent_within b st')"

lemma worker_turn_within:
  assumes "honest_gateway env" and "spent_within (wj_budget job) st"
  shows "turn_within (wj_budget job) (worker_turn env job st)"
proof (cases "turn_stopped st (worker_turn env job st)")
  case True
  with assms(2) show ?thesis
    by (auto simp: turn_stopped_def turn_within_def spent_within_def split: turn_end.splits option.splits prod.splits)
next
  case False
  with worker_turn_split [of st env job] obtain response st1
    where t: "worker_turn env job st = take_answer env job response st1"
      and asked: "model_asked env job st response st1" by auto
  obtain e st' where r: "take_answer env job response st1 = (e, st')" by fastforce
  have same: "w_input st1 = w_input st" "w_output st1 = w_output st"
    using asked by (auto simp: model_asked_def)
  show ?thesis
    using take_answer_counts [of response st1 env job, unfolded r] answer_within [OF assms(1) asked] same
    by (cases e) (auto simp: t r turn_within_def spent_within_def split: option.splits)
qed

lemma worker_loop_within:
  assumes "honest_gateway env" and "spent_within (wj_budget job) st"
    and "worker_loop env job fuel st = (Some (Returned r), st')"
  shows "case token_limit (wj_budget job) of None \<Rightarrow> True
     | Some n \<Rightarrow> int (wr_input_tokens r + wr_output_tokens r) \<le> n"
  using assms(2,3)
proof (induction fuel arbitrary: st)
  case (Suc fuel)
  obtain e st1 where t: "worker_turn env job st = (e, st1)" by fastforce
  note bound = worker_turn_within [OF assms(1) Suc.prems(1), unfolded t]
  show ?case
  proof (cases e)
    case Continue
    with bound Suc.prems(2) t show ?thesis by (intro Suc.IH [of st1]) (simp_all add: turn_within_def)
  qed (use bound Suc.prems(2) t in \<open>auto simp: turn_within_def\<close>)
qed simp

subsection \<open>The lease\<close>

text \<open>A mutation keeps the lease or clears an expired one.\<close>

definition lease_kept :: "workspace \<Rightarrow> workspace \<Rightarrow> bool" where
  "lease_kept ws ws' \<longleftrightarrow> held_lease ws' = held_lease ws \<or> held_lease ws' = None"

lemma lease_kept_refl [simp]: "lease_kept ws ws" "lease_kept ws (ws\<lparr>held_lease := None\<rparr>)"
  by (simp_all add: lease_kept_def)

lemma lease_kept_trans: "lease_kept a b \<Longrightarrow> lease_kept b c \<Longrightarrow> lease_kept a c"
  by (auto simp: lease_kept_def)

lemma check_lease_kept: "lease_kept ws (snd (check_lease now token ws))"
  by (simp add: check_lease_def split: option.split)

lemma finish_write_kept: "lease_kept ws (snd (finish_write os ws path content re op))"
  by (simp add: finish_write_def lease_kept_def split: prod.split)

lemma refuse_kept: "lease_kept ws (snd (refuse op err ws))"
  by (simp add: refuse_def)

lemma mutate_file_kept: "lease_kept ws (snd (mutate_file os now rel content op re token ws))"
proof -
  obtain e ws1 where c: "check_lease now token ws = (e, ws1)" by fastforce
  with check_lease_kept [of ws now token] have "lease_kept ws ws1" by simp
  then have "lease_kept ws1 ws2 \<Longrightarrow> lease_kept ws ws2" for ws2 by (rule lease_kept_trans)
  then show ?thesis
    by (simp add: mutate_file_def c finish_write_kept refuse_kept split: option.split sum.split)
qed

lemma edit_text_kept:
  "(\<And>path content ws2. lease_kept ws2 (snd (edit path content ws2))) \<Longrightarrow> lease_kept ws (snd (edit_text op rel edit ws))"
  by (simp add: edit_text_def refuse_kept split: option.split sum.split node.split)

lemma ws_replace_kept: "lease_kept ws (snd (ws_replace os now rel old new token ws))"
proof -
  obtain e ws1 where c: "check_lease now token ws = (e, ws1)" by fastforce
  with check_lease_kept [of ws now token] have "lease_kept ws ws1" by simp
  then have "lease_kept ws1 ws2 \<Longrightarrow> lease_kept ws ws2" for ws2 by (rule lease_kept_trans)
  then show ?thesis
    by (simp add: ws_replace_def c finish_write_kept refuse_kept edit_text_kept Let_def split: option.split)
qed

lemma execute_command_lease: "held_lease (snd (execute_command os p ws)) = held_lease ws"
  by (auto simp: execute_command_def spawn_in_def refuse_def Let_def
      split: isolation.split sum.split prod.split)

lemma run_action_kept: "lease_kept ws (snd (run_action env act token args ws))"
proof -
  have lift: "snd (lift_outcome r) = snd r" for r by (cases r) (simp add: lift_outcome_def)
  show ?thesis
    by (simp add: run_action_def mutate_text_def lift ws_write_def ws_create_def mutate_file_kept ws_replace_kept
        split: tool_action.split sum.split option.split)
      (simp add: lease_kept_def execute_command_lease)
qed

definition lease_inv :: "lease option \<Rightarrow> worker_state \<Rightarrow> bool" where
  "lease_inv held0 st \<longleftrightarrow>
     held_lease (w_ws st) \<in> {None, held0}
     \<or> (\<exists>l. held_lease (w_ws st) = Some l \<and> lease_owner l = worker_owner
          \<and> w_lease st = Some (lease_token l) \<and> lease_token l \<noteq> [])"

lemma lease_inv_keep:
  assumes "lease_inv held0 st" and "w_lease st' = w_lease st" and "lease_kept (w_ws st) (w_ws st')"
  shows "lease_inv held0 st'"
  using assms by (auto simp: lease_inv_def lease_kept_def)

lemma execute_tool_kept: "lease_kept ws (snd (execute_tool env n tc token ws))"
proof -
  have "lease_kept ws (snd (registry_execute reg name e token args ws))" for reg name e args
    using run_action_kept [of ws] by (auto simp: registry_execute_def split: option.split prod.split) (metis snd_conv)
  then show ?thesis
    by (auto simp: execute_tool_def split: option.split prod.split sum.split) (metis snd_conv)+
qed

lemma acquired_inv:
  assumes "lease_inv held0 st" and "os_token os \<noteq> []"
    and "acquire_lease os now worker_owner (w_ws st) = (t, ws)"
  shows "lease_inv held0 (st\<lparr>w_lease := t, w_ws := ws\<rparr>)"
proof (cases "held_lease (w_ws st)")
  case None
  with assms(2,3) show ?thesis by (auto simp: acquire_lease_def lease_inv_def)
next
  case (Some l)
  show ?thesis
  proof (cases "lease_expired now l")
    case True
    with Some assms(2,3) show ?thesis by (auto simp: acquire_lease_def lease_inv_def)
  next
    case False
    with Some assms(3) have "ws = w_ws st" "t = (if lease_owner l = worker_owner then Some (lease_token l) else None)"
      by (auto simp: acquire_lease_def)
    with assms(1) Some show ?thesis by (auto simp: lease_inv_def)
  qed
qed

text \<open>The random tokens are not empty.\<close>

definition real_tokens :: "worker_env \<Rightarrow> bool" where
  "real_tokens env \<longleftrightarrow> (\<forall>n. os_token (wk_os env n) \<noteq> [])"

lemma resolve_call_inv:
  assumes "real_tokens env" and "lease_inv held0 st"
  shows "lease_inv held0 (snd (resolve_call env job n tc st))"
proof (cases "validate_tool_args tc (wj_tools job) = None \<and> is_mutating (wk_registry env) tc")
  case True
  obtain t ws where a: "acquire_lease (wk_os env n) (wk_now env n) worker_owner (w_ws st) = (t, ws)" by fastforce
  have inv: "lease_inv held0 (st\<lparr>w_lease := t, w_ws := ws\<rparr>)"
    using acquired_inv [OF assms(2) _ a] assms(1) by (simp add: real_tokens_def)
  show ?thesis
  proof (cases t)
    case None
    with True a inv show ?thesis by (simp add: resolve_call_def)
  next
    case (Some token)
    obtain m ws' where x: "execute_tool env n tc (Some token) ws = (m, ws')" by fastforce
    with execute_tool_kept [of ws env n tc "Some token"] have "lease_kept ws ws'" by simp
    then have "lease_inv held0 (st\<lparr>w_lease := t, w_ws := ws'\<rparr>)"
      using lease_inv_keep [OF inv, of "st\<lparr>w_lease := t, w_ws := ws'\<rparr>"] by simp
    with True a Some x show ?thesis by (simp add: resolve_call_def)
  qed
next
  case False
  obtain m ws' where x: "execute_tool env n tc (w_lease st) (w_ws st) = (m, ws')" by fastforce
  with execute_tool_kept [of "w_ws st" env n tc "w_lease st"] have "lease_kept (w_ws st) ws'" by simp
  then have "lease_inv held0 (st\<lparr>w_ws := ws'\<rparr>)"
    using lease_inv_keep [OF assms(2), of "st\<lparr>w_ws := ws'\<rparr>"] by simp
  with False assms(2) x show ?thesis by (auto simp: resolve_call_def split: option.split)
qed

lemma run_calls_inv:
  assumes "real_tokens env"
  shows "lease_inv held0 st \<Longrightarrow> lease_inv held0 (snd (run_calls env job n tcs st))"
proof (induction tcs arbitrary: n st)
  case (Cons tc tcs)
  obtain m st1 where r: "resolve_call env job n tc st = (m, st1)" by fastforce
  with resolve_call_inv [OF assms Cons.prems, of job n tc] have "lease_inv held0 st1" by simp
  from Cons.IH [OF this, of "Suc n"] r show ?case by (auto split: prod.split)
qed simp

definition grip :: "worker_state \<Rightarrow> string option \<times> workspace" where
  "grip st = (w_lease st, w_ws st)"

lemma lease_inv_grip: "lease_inv held0 st \<Longrightarrow> grip st' = grip st \<Longrightarrow> lease_inv held0 st'"
  by (simp add: lease_inv_def grip_def)

lemma record_tool_results_grip: "grip (fold (record_tool_result env) crs st) = grip st"
  by (induction crs arbitrary: st) (auto simp: record_tool_result_def grip_def split: prod.split)

lemma run_batches_inv:
  assumes "real_tokens env"
  shows "lease_inv held0 st \<Longrightarrow> lease_inv held0 (snd (run_batches env job i bs st))"
proof (induction bs arbitrary: i st)
  case (Cons b bs)
  let ?n = "length (w_results st)"
  obtain rs st1 where r: "run_calls env job ?n b st = (rs, st1)" by fastforce
  with run_calls_inv [OF assms Cons.prems, of job ?n b] have "lease_inv held0 st1" by simp
  from lease_inv_grip [OF this record_tool_results_grip]
  have "lease_inv held0 (fold (record_tool_result env) (zip b rs) st1)" .
  from Cons.IH [OF this, of "Suc i"] show ?case
    using run_calls_inv [OF assms Cons.prems] r by (simp split: option.split)
qed simp

lemma final_answer_grip: "grip (snd (final_answer env job response st)) = grip st"
  by (auto simp: final_answer_def schema_answer_def truncated_answer_def grip_def Let_def
      split: option.split prod.split json.split)

lemma tool_round_inv:
  assumes "real_tokens env" and "lease_inv held0 st"
  shows "lease_inv held0 (snd (tool_round env job response st))"
proof -
  let ?asked = "add_messages [(plain_message Role_ASSISTANT (mres_text response))\<lparr>
            msg_tool_calls := mres_tool_calls response\<rparr>] (st\<lparr>w_truncated := 0\<rparr>)"
  let ?bs = "tool_batches (mres_tool_calls response) (wk_registry env)"
  obtain ok st1 where r: "run_batches env job 0 ?bs ?asked = (ok, st1)" by fastforce
  have "lease_inv held0 ?asked" by (rule lease_inv_grip [OF assms(2)]) (simp add: grip_def)
  with run_batches_inv [OF assms(1), of held0 ?asked job 0 ?bs] r have "lease_inv held0 st1" by simp
  then show ?thesis by (cases ok) (simp_all add: tool_round_def r lease_inv_def)
qed

lemma take_answer_inv:
  assumes "real_tokens env" and "lease_inv held0 st"
  shows "lease_inv held0 (snd (take_answer env job response st))"
proof -
  have publish: "lease_inv held0 (publish k d (record_call p u st))" for k d p u
    by (rule lease_inv_grip [OF assms(2)]) (simp add: grip_def)
  show ?thesis
    by (simp add: take_answer_def Let_def tool_round_inv [OF assms(1) publish]
        lease_inv_grip [OF publish final_answer_grip])
qed

lemma worker_turn_inv:
  assumes "real_tokens env" and "lease_inv held0 st"
  shows "lease_inv held0 (snd (worker_turn env job st))"
proof -
  let ?st = "compacted env job (st\<lparr>w_turn := w_turn st + 1\<rparr>)"
  have "grip ?st = grip st" by (simp add: compacted_def grip_def split: prod.split)
  then have inv: "lease_inv held0 ?st" by (rule lease_inv_grip [OF assms(2)])
  have "lease_inv held0 (snd (call_model env job ?st))"
  proof -
    have "lease_inv held0 (publish k d ?st)" "lease_inv held0 (publish k' d' (publish k d ?st\<lparr>w_api := n\<rparr>))"
      "lease_inv held0 (publish k d ?st\<lparr>w_api := n\<rparr>)" for k d k' d' n
      by (rule lease_inv_grip [OF inv], simp add: grip_def)+
    then show ?thesis
      by (simp add: call_model_def Let_def take_answer_inv [OF assms(1)] split: gateway_answer.split)
  qed
  moreover have "lease_inv held0 (st\<lparr>w_turn := n\<rparr>)" for n
    by (rule lease_inv_grip [OF assms(2)]) (simp add: grip_def)
  ultimately show ?thesis by (simp add: worker_turn_def Let_def)
qed

lemma worker_loop_inv:
  assumes "real_tokens env"
  shows "lease_inv held0 st \<Longrightarrow> lease_inv held0 (snd (worker_loop env job fuel st))"
proof (induction fuel arbitrary: st)
  case (Suc fuel)
  obtain e st1 where t: "worker_turn env job st = (e, st1)" by fastforce
  with worker_turn_inv [OF assms Suc.prems, of job] have "lease_inv held0 st1" by simp
  with Suc.IH [of st1] t show ?case by (cases e) simp_all
qed simp

subsection \<open>Properties\<close>

lemma native_worker_run:
  assumes "wk_profile env pname = Inr profile"
  obtains res st where "worker_loop env \<lparr>wj_budget = wc_budget (contract cell), wj_profile_name = pname,
      wj_profile = profile, wj_tools = defs, wj_system = system, wj_schema = schema\<rparr> fuel
      (worker_start (first_messages env cell system resume) ws) = (res, st)"
    and "native_worker env fuel ws cell pname defs system schema resume = ((w_steps st, res), release_held st)"
  using assms by (cases "worker_loop env \<lparr>wj_budget = wc_budget (contract cell), wj_profile_name = pname,
      wj_profile = profile, wj_tools = defs, wj_system = system, wj_schema = schema\<rparr> fuel
      (worker_start (first_messages env cell system resume) ws)") (auto simp: native_worker_def)

text \<open>C14: the loop of a worker ends.  If the budget limits the calls or the tool rounds, or limits the
  tokens and every answer costs at least one, then \<open>worker_fuel\<close> turns are enough: one more than the
  calls; three per round (an answer cut off twice between two rounds) and four; one more than the
  tokens.\<close>

theorem worker_loop_ends:
  assumes "bounded_worker env (wc_budget (contract cell))"
    and "worker_fuel (wc_budget (contract cell)) \<le> fuel"
  shows "snd (fst (native_worker env fuel ws cell pname defs system schema resume)) \<noteq> None"
proof (cases "wk_profile env pname")
  case (Inl e)
  then show ?thesis by (cases e) (simp add: native_worker_def)
next
  case (Inr profile)
  obtain res st where l: "worker_loop env \<lparr>wj_budget = wc_budget (contract cell), wj_profile_name = pname,
      wj_profile = profile, wj_tools = defs, wj_system = system, wj_schema = schema\<rparr> fuel
      (worker_start (first_messages env cell system resume) ws) = (res, st)"
    and n: "native_worker env fuel ws cell pname defs system schema resume = ((w_steps st, res), release_held st)"
    by (rule native_worker_run [OF Inr])
  have "turns_left (wc_budget (contract cell)) (worker_start (first_messages env cell system resume) ws) < fuel"
    using assms(2) by (auto simp: worker_fuel_def turns_left_def worker_start_def split: if_splits option.splits)
  from worker_loop_returns [of env "\<lparr>wj_budget = wc_budget (contract cell), wj_profile_name = pname,
      wj_profile = profile, wj_tools = defs, wj_system = system, wj_schema = schema\<rparr>", OF _ _] this assms(1) l n
  show ?thesis by simp (metis fst_conv)
qed

theorem worker_loop_ends_witness:
  "snd (fst (native_worker sample_worker_env 100001 sample_idle_ws (sample_cell ''c'' [] MUTATING [] 0) ''p''
       (advertised (with_defaults [])) [] None None)) \<noteq> None"
  by (rule worker_loop_ends)
    (auto simp: bounded_worker_def worker_fuel_def sample_cell_def base_contract_def default_budget_def
      unlimited_budget_def sample_worker_env_def sample_response_def split: if_splits)


lemma sample_honest: "honest_gateway sample_worker_env"
  by (auto simp: honest_gateway_def sample_worker_env_def sample_response_def estimate_request_def
      split: option.split)




end
