(* ===== verification/Python_Values.thy ===== *)
theory Python_Values
  imports Prelude
begin

section \<open>Python's operations on decoded JSON\<close>

text \<open>Truth, hashing and merging of the values that reach the code from a model or a provider.\<close>

definition falsy :: "json \<Rightarrow> bool" where
  "falsy v \<longleftrightarrow> v \<in> {JNull, JBool False, JInt 0, JFloat 0, JStr [], JArr [], JObj []}"

text \<open>\<^verbatim>\<open>v or d\<close>.\<close>

definition or_else :: "json \<Rightarrow> json \<Rightarrow> json" where
  "or_else v d = (if falsy v then d else v)"

text \<open>\<^verbatim>\<open>{**a, **b}\<close>, and \<^verbatim>\<open>a.update(b)\<close>.\<close>

definition dict_merge :: "('k \<times> 'v) list \<Rightarrow> ('k \<times> 'v) list \<Rightarrow> ('k \<times> 'v) list" where
  "dict_merge a b = foldl (\<lambda>d (k, v). dict_set d k v) a b"

text \<open>A list or dict cannot be a member of a set or a key.\<close>

fun hashable :: "json \<Rightarrow> bool" where
  "hashable (JArr _) = False"
| "hashable (JObj _) = False"
| "hashable v = True"

text \<open>\<^verbatim>\<open>d.get(k, default)\<close> of an ordered dict.\<close>

definition field :: "(string \<times> json) list \<Rightarrow> string \<Rightarrow> json \<Rightarrow> json" where
  "field kvs k d = (case obj_get kvs k of None \<Rightarrow> d | Some v \<Rightarrow> v)"

lemma field_set [simp]: "field (dict_set kvs k v) k' d = (if k' = k then v else field kvs k' d)"
  by (simp add: field_def obj_get_def)

text \<open>The texts of a list of texts; \<open>None\<close> where a validated field refuses the value.\<close>

definition str_list :: "json \<Rightarrow> string list option" where
  "str_list v =
     (case v of
        JArr vs \<Rightarrow> if list_all (\<lambda>x. case x of JStr _ \<Rightarrow> True | _ \<Rightarrow> False) vs
          then Some (map (\<lambda>x. case x of JStr s \<Rightarrow> s | _ \<Rightarrow> []) vs) else None
      | _ \<Rightarrow> None)"

end
