(* ===== verification/Provider_Http.thy ===== *)
theory Provider_Http
  imports Config Text_Forms Python_Values
begin

section \<open>Calling a provider (adapters/providers/gateway.py)\<close>

text \<open>
  The transport side of the gateway: its errors, the addresses and headers of a request, the
  masked text of an error, the retries, and the limiter.  What a POST answers is a function of the
  attempt; the clock of the limiter is a reading per step.  Closing a response, logging and the
  artifact of an error (which no caller stores) are left out.
\<close>

subsection \<open>Errors\<close>

text \<open>The exceptions of the gateway.  \<open>Untyped\<close> is one that is no \<^verbatim>\<open>ProviderError\<close>.\<close>

datatype gateway_error =
    Provider_err string
  | Protocol_err (pe_message: string) (pe_field: string)
  | Http_err (he_status: nat) (he_message: string)
  | Auth_err string
  | Configuration_err string
  | Untyped string

definition transient_status :: "nat list" where
  "transient_status = [429, 502, 503, 504]"

definition rate_limit_body :: "string \<Rightarrow> bool" where
  "rate_limit_body s =
     (let t = casefold s
      in list_ex (\<lambda>pat. contains pat t)
           [''tokens per minute'', ''requests per minute'', ''tpm'', ''rpm'', ''rate limit''])"

fun is_transient :: "gateway_error \<Rightarrow> bool" where
  "is_transient (Provider_err m) = True"
| "is_transient (Protocol_err m f) = False"
| "is_transient (Http_err status m) =
     (status \<in> set transient_status \<or> status = 413 \<and> rate_limit_body m)"
| "is_transient (Auth_err m) = False"
| "is_transient (Configuration_err m) = False"
| "is_transient (Untyped m) = False"

definition max_protocol_field_path :: nat where
  "max_protocol_field_path = 160"

definition protocol_error :: "string \<Rightarrow> string \<Rightarrow> gateway_error" where
  "protocol_error message field_path = Protocol_err message (take max_protocol_field_path field_path)"

subsection \<open>The masked reason of a failure\<close>

definition key_char :: "char \<Rightarrow> bool" where
  "key_char c \<longleftrightarrow> is_alnum c \<or> c \<in> set ''_-''"

definition key_run :: "string \<Rightarrow> nat" where
  "key_run s = length (takeWhile key_char s)"

text \<open>The length of the match of \<^verbatim>\<open>_SECRET_SHAPED\<close> at the start of a text; 0 where it fails.\<close>

definition secret_shaped :: "string \<Rightarrow> nat" where
  "secret_shaped s =
     (if starts_with ''sk-'' s \<and> 8 \<le> key_run (drop 3 s) then 3 + key_run (drop 3 s)
      else if (starts_with ''Bearer'' s \<or> starts_with ''bearer'' s) \<and> takeWhile is_space (drop 6 s) \<noteq> []
        \<and> dropWhile is_space (drop 6 s) \<noteq> []
      then 6 + length (takeWhile is_space (drop 6 s))
        + length (takeWhile (\<lambda>c. \<not> is_space c) (dropWhile is_space (drop 6 s)))
      else if 32 \<le> key_run s then key_run s
      else 0)"

function mask_secrets :: "string \<Rightarrow> string" where
  "mask_secrets s =
     (case s of
        [] \<Rightarrow> []
      | c # cs \<Rightarrow>
          if secret_shaped s = 0 then c # mask_secrets cs
          else ''<redacted>'' @ mask_secrets (drop (secret_shaped s) s))"
  by pat_completeness auto

termination by (relation "measure length") auto

declare mask_secrets.simps [simp del]

definition safe_error_snippet :: "(string \<Rightarrow> json option) \<Rightarrow> string \<Rightarrow> string" where
  "safe_error_snippet loads body =
     (case loads body of
        None \<Rightarrow> []
      | Some v \<Rightarrow>
          (let descend = (\<lambda>d k. case d of JObj kvs \<Rightarrow> (case obj_get kvs k of None \<Rightarrow> d | Some w \<Rightarrow> w) | _ \<Rightarrow> d)
           in case foldl descend v [''error'', ''message''] of
                JStr detail \<Rightarrow> take 200 (strip (mask_secrets detail))
              | _ \<Rightarrow> []))"

definition http_error_message :: "(string \<Rightarrow> json option) \<Rightarrow> nat \<Rightarrow> string \<Rightarrow> string" where
  "http_error_message loads status body =
     (let reason = safe_error_snippet loads body
      in ''Provider returned HTTP '' @ show_nat status @ (if reason = [] then [] else '': '' @ reason))"

subsection \<open>Addresses and headers\<close>

definition rstrip_slash :: "string \<Rightarrow> string" where
  "rstrip_slash s = rev (dropWhile (\<lambda>c. c = CHR ''/'') (rev s))"

definition join_url :: "string \<Rightarrow> string \<Rightarrow> string" where
  "join_url base path = rstrip_slash base @ ''/'' @ dropWhile (\<lambda>c. c = CHR ''/'') path"

definition openai_endpoint :: "string \<Rightarrow> string" where
  "openai_endpoint base = join_url base ''chat/completions''"

definition anthropic_endpoint :: "string \<Rightarrow> string" where
  "anthropic_endpoint base = join_url (removesuffix ''/v1'' (rstrip_slash base)) ''v1/messages''"

text \<open>\<^verbatim>\<open>quote\<close>, \<^verbatim>\<open>parse_qsl\<close> and \<^verbatim>\<open>urlencode\<close> are the library's: \<open>quote\<close> escapes a text and
  \<open>add_query\<close> appends parameters to an address, or names the ones already there.\<close>

record url_lib =
  ul_quote :: "string \<Rightarrow> string"
  ul_keys :: "string \<Rightarrow> string list"
  ul_add :: "string \<Rightarrow> (string \<times> string) list \<Rightarrow> string"

definition with_query :: "url_lib \<Rightarrow> string \<Rightarrow> (string \<times> string) list \<Rightarrow> gateway_error + string" where
  "with_query lib url extra =
     (if extra = [] then Inr url
      else let conflicts = filter (\<lambda>k. k \<in> set (map fst extra)) (remdups (sort (ul_keys lib url)))
        in if conflicts \<noteq> []
           then Inl (Configuration_err (''Reserved query parameter(s): '' @ str_join '', '' conflicts))
           else Inr (ul_add lib url extra))"

definition gemini_endpoint :: "url_lib \<Rightarrow> string \<Rightarrow> string \<Rightarrow> bool \<Rightarrow> gateway_error + string" where
  "gemini_endpoint lib base model_name stream =
     (let url = join_url (removesuffix ''/v1beta'' (rstrip_slash base))
            (''v1beta/models/'' @ ul_quote lib model_name @ '':''
             @ (if stream then ''streamGenerateContent'' else ''generateContent''))
      in if stream then with_query lib url [(''alt'', ''sse'')] else Inr url)"

fun provider_label :: "wire_protocol \<Rightarrow> string" where
  "provider_label OPENAI_CHAT = ''openai''"
| "provider_label ANTHROPIC_MESSAGES = ''anthropic''"
| "provider_label GEMINI_GENERATE_CONTENT = ''gemini''"

text \<open>The header name and the prefix of the credential.\<close>

fun auth_header_of :: "wire_protocol \<Rightarrow> string \<times> string" where
  "auth_header_of OPENAI_CHAT = (''Authorization'', ''Bearer '')"
| "auth_header_of ANTHROPIC_MESSAGES = (''x-api-key'', [])"
| "auth_header_of GEMINI_GENERATE_CONTENT = (''x-goog-api-key'', [])"

definition static_headers :: "wire_protocol \<Rightarrow> (string \<times> string) list" where
  "static_headers p =
     (if p = ANTHROPIC_MESSAGES then [(''anthropic-version'', ''2023-06-01'')] else [])"

definition credential_header :: "model_profile \<Rightarrow> string \<times> string" where
  "credential_header profile =
     (case auth_header profile of
        Some h \<Rightarrow> if h = [] then auth_header_of (protocol profile) else (h, [])
      | None \<Rightarrow> auth_header_of (protocol profile))"

definition build_headers :: "model_profile \<Rightarrow> string option \<Rightarrow> (string \<times> string) list" where
  "build_headers profile api_key =
     (let headers = dict_merge (dict_merge [(''Content-Type'', ''application/json'')]
            (static_headers (protocol profile))) (extra_headers profile)
      in case api_key of
           None \<Rightarrow> headers
         | Some key \<Rightarrow>
             if key = [] then headers
             else (case credential_header profile of (n, prefix) \<Rightarrow> dict_set headers n (prefix @ key)))"

text \<open>\<open>getenv\<close> reads the environment when the call is made.\<close>

definition require_api_key :: "(string \<Rightarrow> string option) \<Rightarrow> model_profile \<Rightarrow> gateway_error + string" where
  "require_api_key getenv profile =
     (case api_key_env profile of
        None \<Rightarrow> Inl (Auth_err ''Profile requires an API key but api_key_env is not configured'')
      | Some var \<Rightarrow>
          (case getenv var of
             None \<Rightarrow> Inl (Auth_err (''API key environment variable '' @ var @ '' is not set''))
           | Some key \<Rightarrow> Inr key))"

subsection \<open>Retries of the transport\<close>

datatype 'a http_reply = Network_failure | Replied nat 'a

text \<open>\<^verbatim>\<open>backoff_seconds[min(attempt, len(backoff_seconds) - 1)]\<close>; \<open>None\<close> is the \<^verbatim>\<open>IndexError\<close> of an
  empty list.\<close>

definition backoff_of :: "rat list \<Rightarrow> nat \<Rightarrow> rat option" where
  "backoff_of backoff attempt =
     (if backoff = [] then None else Some (backoff ! min attempt (length backoff - 1)))"

text \<open>The loop \<^verbatim>\<open>for attempt in range(retries + 1)\<close>, shared by both transports: the pauses it made
  and the reply it ended with.\<close>

fun transport ::
  "(nat \<Rightarrow> 'a http_reply) \<Rightarrow> string \<Rightarrow> rat list \<Rightarrow> nat \<Rightarrow> nat \<Rightarrow> rat list \<times> (gateway_error + nat \<times> 'a)" where
  "transport post url backoff attempt 0 =
     (case post attempt of
        Network_failure \<Rightarrow> ([], Inl (Provider_err (''Network error calling '' @ url)))
      | Replied status body \<Rightarrow> ([], Inr (status, body)))"
| "transport post url backoff attempt (Suc left) =
     (let again = (case backoff_of backoff attempt of
            None \<Rightarrow> ([], Inl (Untyped ''list index out of range''))
          | Some pause \<Rightarrow>
              (case transport post url backoff (Suc attempt) left of (ps, r) \<Rightarrow> (pause # ps, r)))
      in case post attempt of
           Network_failure \<Rightarrow> again
         | Replied status body \<Rightarrow>
             if status \<in> set transient_status then again else ([], Inr (status, body)))"

text \<open>The shared pipeline after the loop.\<close>

definition checked_reply ::
  "(string \<Rightarrow> json option) \<Rightarrow> ('a \<Rightarrow> string) \<Rightarrow> gateway_error + nat \<times> 'a \<Rightarrow> gateway_error + 'a" where
  "checked_reply loads text_of r =
     (case r of
        Inl e \<Rightarrow> Inl e
      | Inr (status, body) \<Rightarrow>
          if status = 401 then Inl (Auth_err ''Authentication failed -- check API key'')
          else if status \<noteq> 200 then Inl (Http_err status (http_error_message loads status (text_of body)))
          else Inr body)"

definition execute_request ::
  "(string \<Rightarrow> json option) \<Rightarrow> (nat \<Rightarrow> string http_reply) \<Rightarrow> string \<Rightarrow> rat list \<Rightarrow> nat \<Rightarrow> gateway_error + json" where
  "execute_request loads post url backoff retries =
     (case checked_reply loads (\<lambda>s. s) (snd (transport post url backoff 0 retries)) of
        Inl e \<Rightarrow> Inl e
      | Inr body \<Rightarrow>
          (case loads body of None \<Rightarrow> Inl (Provider_err ''Invalid JSON in response'') | Some v \<Rightarrow> Inr v))"

text \<open>A streamed reply: the text chunks in the order they arrive, and how it breaks off, if it does.\<close>

datatype stream_break = Undecodable | Connection_lost | Stream_misused

record streamed_body =
  sb_error_text :: string
  sb_chunks :: "string list"
  sb_break :: "stream_break option"

definition open_stream_with_retry ::
  "(string \<Rightarrow> json option) \<Rightarrow> (nat \<Rightarrow> streamed_body http_reply) \<Rightarrow> string \<Rightarrow> model_profile
     \<Rightarrow> gateway_error + streamed_body" where
  "open_stream_with_retry loads post url profile =
     checked_reply loads sb_error_text
       (snd (transport post url (transport_retry_backoff_seconds profile) 0 (transport_retries profile)))"

subsection \<open>The limiter\<close>

record limiter =
  lm_concurrency :: nat
  lm_rpm :: nat
  lm_times :: "rat list"

definition new_limiter :: "nat \<Rightarrow> nat \<Rightarrow> limiter" where
  "new_limiter concurrency rpm =
     \<lparr>lm_concurrency = max 1 concurrency, lm_rpm = max 1 rpm, lm_times = []\<rparr>"

text \<open>One turn of the loop of \<^verbatim>\<open>_enforce_rpm\<close>, under its lock: the seconds to wait, or \<open>None\<close> when a
  slot was reserved.\<close>

definition reserve_slot :: "rat \<Rightarrow> limiter \<Rightarrow> rat option \<times> limiter" where
  "reserve_slot now l =
     (let times = filter (\<lambda>t. now - t < 60) (lm_times l)
      in if length times < lm_rpm l then (None, l\<lparr>lm_times := times @ [now]\<rparr>)
         else (Some (hd times + 60 - now), l\<lparr>lm_times := times\<rparr>))"

text \<open>The callers of one limiter: a call waits for the semaphore, then for a slot, then runs.\<close>

record limited_pool =
  lp_limiter :: limiter
  lp_now :: rat
  lp_waiting :: nat
  lp_running :: nat
  lp_granted :: "rat list"

definition idle_pool :: "nat \<Rightarrow> nat \<Rightarrow> limited_pool" where
  "idle_pool concurrency rpm = \<lparr>lp_limiter = new_limiter concurrency rpm, lp_now = 0,
     lp_waiting = 0, lp_running = 0, lp_granted = []\<rparr>"

inductive limiter_step :: "limited_pool \<Rightarrow> limited_pool \<Rightarrow> bool" where
  tick: "0 \<le> d \<Longrightarrow> limiter_step p (p\<lparr>lp_now := lp_now p + d\<rparr>)"
| acquire: "lp_waiting p + lp_running p < lm_concurrency (lp_limiter p) \<Longrightarrow>
     limiter_step p (p\<lparr>lp_waiting := lp_waiting p + 1\<rparr>)"
| grant: "0 < lp_waiting p \<Longrightarrow> reserve_slot (lp_now p) (lp_limiter p) = (None, l) \<Longrightarrow>
     limiter_step p (p\<lparr>lp_limiter := l, lp_waiting := lp_waiting p - 1, lp_running := lp_running p + 1,
       lp_granted := lp_granted p @ [lp_now p]\<rparr>)"
| refuse_slot: "0 < lp_waiting p \<Longrightarrow> reserve_slot (lp_now p) (lp_limiter p) = (Some w, l) \<Longrightarrow>
     limiter_step p (p\<lparr>lp_limiter := l\<rparr>)"
| give_up: "0 < lp_waiting p \<Longrightarrow> limiter_step p (p\<lparr>lp_waiting := lp_waiting p - 1\<rparr>)"
| finish_call: "0 < lp_running p \<Longrightarrow> limiter_step p (p\<lparr>lp_running := lp_running p - 1\<rparr>)"

inductive_cases limiter_stepE: "limiter_step p p'"

inductive limiter_reach :: "limited_pool \<Rightarrow> limited_pool \<Rightarrow> bool" where
  start: "limiter_reach p p"
| next_step: "limiter_reach p q \<Longrightarrow> limiter_step q r \<Longrightarrow> limiter_reach p r"

end
