(* ===== verification/Provider_Http_Properties.thy ===== *)
theory Provider_Http_Properties
  imports Provider_Http
begin

section \<open>What the transport guarantees\<close>

text \<open>
  The masked text of an error, the credential header, the retries, and the two limits of the
  limiter.
\<close>

subsection \<open>Masking\<close>

lemma key_run_Cons: "key_run (c # cs) = (if key_char c then Suc (key_run cs) else 0)"
  by (simp add: key_run_def)

lemma key_run_mark: "key_run (''<redacted>'' @ s) = 0"
  by (simp add: key_run_def key_char_def is_alnum_def is_alpha_def is_lower_def is_upper_def is_digit_def char_in_def)

lemma secret_shaped_run: "secret_shaped s = 0 \<Longrightarrow> key_run s < 32"
  by (auto simp: secret_shaped_def split: if_splits)

lemma mask_Cons:
  "mask_secrets (c # cs) = (if secret_shaped (c # cs) = 0 then c # mask_secrets cs
     else ''<redacted>'' @ mask_secrets (drop (secret_shaped (c # cs)) (c # cs)))"
  by (subst mask_secrets.simps) simp

lemma mask_Nil [simp]: "mask_secrets [] = []"
  by (subst mask_secrets.simps) simp

lemma key_run_mask: "key_run (mask_secrets s) \<le> key_run s"
proof (induction s)
  case (Cons c cs)
  then show ?case by (simp add: mask_Cons key_run_mark key_run_Cons del: append.simps)
qed (simp add: key_run_def)

text \<open>No run of 32 key characters starts anywhere in the text.\<close>

fun short_runs :: "string \<Rightarrow> bool" where
  "short_runs [] = True"
| "short_runs (c # cs) = (key_run (c # cs) < 32 \<and> short_runs cs)"

lemma short_runs_mark: "short_runs s \<Longrightarrow> short_runs (''<redacted>'' @ s)"
  by (simp add: key_run_def key_char_def is_alnum_def is_alpha_def is_lower_def is_upper_def is_digit_def char_in_def)

lemma short_runs_mask: "short_runs (mask_secrets s)"
proof (induction s rule: mask_secrets.induct)
  case (1 s)
  show ?case
  proof (cases s)
    case (Cons c cs)
    show ?thesis
    proof (cases "secret_shaped s = 0")
      case True
      have "key_run (mask_secrets s) < 32"
        using key_run_mask [of s] secret_shaped_run [OF True] by simp
      with True 1(1) [OF Cons] show ?thesis unfolding Cons by (simp add: mask_Cons)
    next
      case False
      with 1(2) [OF Cons] show ?thesis unfolding Cons by (simp add: mask_Cons short_runs_mark del: append.simps)
    qed
  qed simp
qed

lemma short_runs_append: "short_runs (a @ b) \<Longrightarrow> short_runs a \<and> short_runs b"
proof (induction a)
  case (Cons c a)
  have "key_run (c # a) \<le> key_run (c # a @ b)"
  proof -
    have "key_run xs \<le> key_run (xs @ b)" for xs by (induction xs) (auto simp: key_run_Cons key_run_def)
    from this [of "c # a"] show ?thesis by simp
  qed
  with Cons show ?case by auto
qed simp

lemma short_runs_no_key: "short_runs (a @ b @ c) \<Longrightarrow> list_all key_char b \<Longrightarrow> length b < 32"
proof (cases b)
  case (Cons x xs)
  assume s: "short_runs (a @ b @ c)" and k: "list_all key_char b"
  from short_runs_append [OF s] short_runs_append [of b c] have "short_runs b" by blast
  moreover have "takeWhile key_char b = b" using k by (simp add: takeWhile_eq_all_conv list_all_iff)
  then have "key_run b = length b" unfolding key_run_def by (rule arg_cong)
  ultimately show ?thesis by (simp add: Cons)
qed simp

lemma strip_infix: "\<exists>a b. s = a @ strip s @ b"
proof -
  let ?t = "dropWhile is_space s"
  have "s = takeWhile is_space s @ ?t" by simp
  moreover have "?t = strip s @ rev (takeWhile is_space (rev ?t))"
    by (metis strip_def rev_append rev_rev_ident takeWhile_dropWhile_id)
  ultimately show ?thesis by metis
qed

text \<open>The reason of a failure never carries a key.  Whatever body a provider answers with, the text
  taken from it is at most 200 characters, and no 32 characters of it in a row are letters, digits,
  dashes or underscores.\<close>

theorem error_reason_is_masked:
  "length (safe_error_snippet loads body) \<le> 200
   \<and> (if safe_error_snippet loads body = a @ b @ c \<and> list_all key_char b then length b < 32 else True)"
proof -
  have "short_runs (safe_error_snippet loads body)"
  proof -
    have "short_runs (take 200 (strip (mask_secrets d)))" for d
    proof -
      obtain x y where "mask_secrets d = x @ strip (mask_secrets d) @ y" using strip_infix by blast
      with short_runs_mask [of d] short_runs_append have "short_runs (strip (mask_secrets d))" by metis
      then show ?thesis using short_runs_append [of "take 200 (strip (mask_secrets d))" "drop 200 (strip (mask_secrets d))"]
        by simp
    qed
    then show ?thesis by (simp add: safe_error_snippet_def Let_def split: option.split json.split)
  qed
  then have "safe_error_snippet loads body = a @ b @ c \<Longrightarrow> list_all key_char b \<Longrightarrow> length b < 32"
    using short_runs_no_key by metis
  moreover have "length (safe_error_snippet loads body) \<le> 200"
    by (simp add: safe_error_snippet_def Let_def split: option.split json.split)
  ultimately show ?thesis by simp
qed

subsection \<open>Retries\<close>

lemma transport_pauses:
  "length (fst (transport post url backoff attempt left)) \<le> left"
  by (induction post url backoff attempt left rule: transport.induct)
    (auto simp: Let_def split: http_reply.split option.split prod.split)

text \<open>What the loop ends with: the answer of its last attempt.  The attempts before it failed in
  transport, and the pauses are those of the schedule.\<close>

definition retried :: "'a http_reply \<Rightarrow> bool" where
  "retried r \<longleftrightarrow> (case r of Network_failure \<Rightarrow> True | Replied status body \<Rightarrow> status \<in> set transient_status)"

lemma transport_spec:
  assumes "backoff \<noteq> []"
  shows "\<exists>n \<le> left.
     fst (transport post url backoff attempt left)
       = map (\<lambda>i. backoff ! min (attempt + i) (length backoff - 1)) [0..<n]
     \<and> list_all (\<lambda>i. retried (post (attempt + i))) [0..<n]
     \<and> (n = left \<or> \<not> retried (post (attempt + n)))
     \<and> snd (transport post url backoff attempt left) =
         (case post (attempt + n) of
            Network_failure \<Rightarrow> Inl (Provider_err (''Network error calling '' @ url))
          | Replied status body \<Rightarrow> Inr (status, body))"
proof (induction left arbitrary: attempt)
  case 0
  show ?case by (rule exI [of _ 0]) (simp split: http_reply.split)
next
  case (Suc left)
  show ?case
  proof (cases "retried (post attempt)")
    case False
    then show ?thesis
      by (intro exI [of _ 0]) (auto simp: retried_def Let_def split: http_reply.splits)
  next
    case True
    from Suc.IH [of "Suc attempt"] obtain n where n: "n \<le> left"
      "fst (transport post url backoff (Suc attempt) left)
         = map (\<lambda>i. backoff ! min (Suc attempt + i) (length backoff - 1)) [0..<n]"
      "list_all (\<lambda>i. retried (post (Suc attempt + i))) [0..<n]"
      "n = left \<or> \<not> retried (post (Suc attempt + n))"
      "snd (transport post url backoff (Suc attempt) left) =
         (case post (Suc attempt + n) of
            Network_failure \<Rightarrow> Inl (Provider_err (''Network error calling '' @ url))
          | Replied status body \<Rightarrow> Inr (status, body))" by blast
    obtain ps r where t: "transport post url backoff (Suc attempt) left = (ps, r)" by fastforce
    have step: "transport post url backoff attempt (Suc left)
        = ((backoff ! min attempt (length backoff - 1)) # ps, r)"
      using True assms t by (auto simp: Let_def retried_def backoff_of_def split: http_reply.splits)
    have shift: "map (\<lambda>i. f (Suc attempt + i)) [0..<n] = map (\<lambda>i. f (attempt + i)) [1..<Suc n]" for f :: "nat \<Rightarrow> 'b"
      by (simp add: map_Suc_upt [symmetric] del: map_Suc_upt upt_Suc)
    have upt: "[0..<Suc n] = 0 # [1..<Suc n]" by (simp add: upt_conv_Cons)
    have all: "list_all (\<lambda>i. retried (post (attempt + i))) [0..<Suc n]"
    proof -
      have "retried (post (attempt + i))" if "i < Suc n" for i
        using that True n(3) by (cases i) (auto simp: list_all_iff)
      then show ?thesis by (simp add: list_all_iff del: upt_Suc)
    qed
    show ?thesis
      using n(1,2,4,5) t shift [of "\<lambda>k. backoff ! min k (length backoff - 1)"] all
      by (intro exI [of _ "Suc n"]) (simp add: step upt del: upt_Suc transport.simps)
  qed
qed

text \<open>Retries are bounded, scheduled and only for what is worth repeating.  With a profile that
  configures pauses (validation asks for them), there are at most \<open>retries\<close> of them and they are
  those of the schedule, its last one repeated; every attempt but the last failed on the network or
  with a transient status; and the loop stops at the first attempt that did not, whose answer
  decides: the body for status 200, an authentication error for 401, an error with the masked reason
  for any other status, a provider error for the network.\<close>

theorem retries_bounded_and_scheduled:
  assumes "backoff \<noteq> []"
  shows "\<exists>n \<le> retries.
     fst (transport post url backoff 0 retries) = map (\<lambda>i. backoff ! min i (length backoff - 1)) [0..<n]
     \<and> list_all (\<lambda>i. retried (post i)) [0..<n]
     \<and> (n = retries \<or> \<not> retried (post n))
     \<and> checked_reply loads text_of (snd (transport post url backoff 0 retries)) =
         (case post n of
            Network_failure \<Rightarrow> Inl (Provider_err (''Network error calling '' @ url))
          | Replied status body \<Rightarrow>
              if status = 200 then Inr body
              else if status = 401 then Inl (Auth_err ''Authentication failed -- check API key'')
              else Inl (Http_err status (http_error_message loads status (text_of body))))"
  using transport_spec [OF assms, of retries post url 0]
  by (auto simp: checked_reply_def split: http_reply.splits)

theorem retries_bounded_and_scheduled_witness:
  "\<exists>n \<le> 2.
     fst (transport (\<lambda>i. if i = 0 then Replied 503 [] else Replied 200 ''x'') [] [3 / 2, 6] 0 2)
       = map (\<lambda>i. [3 / 2, 6] ! min i (length [3 / 2, 6 :: rat] - 1)) [0..<n]
     \<and> checked_reply (\<lambda>s. None) (\<lambda>s. s)
         (snd (transport (\<lambda>i. if i = 0 then Replied 503 [] else Replied 200 ''x'') [] [3 / 2, 6] 0 2)) = Inr ''x''"
proof -
  let ?post = "\<lambda>i. if i = 0 then Replied 503 [] else Replied 200 ''x''"
  from retries_bounded_and_scheduled [of "[3 / 2, 6]" 2 ?post "[]" "\<lambda>s. None" "\<lambda>s. s"] obtain n where n: "n \<le> 2"
    "fst (transport ?post [] [3 / 2, 6] 0 2) = map (\<lambda>i. [3 / 2, 6] ! min i (length [3 / 2, 6 :: rat] - 1)) [0..<n]"
    by auto
  have "checked_reply (\<lambda>s. None) (\<lambda>s. s) (snd (transport ?post [] [3 / 2, 6] 0 2)) = Inr ''x''"
    by (simp add: checked_reply_def numeral_2_eq_2 transient_status_def backoff_of_def Let_def)
  with n show ?thesis by blast
qed

subsection \<open>The credential\<close>

lemma map_of_dict_merge: "map_of (dict_merge a b) k = (case map_of (rev b) k of None \<Rightarrow> map_of a k | Some v \<Rightarrow> Some v)"
  by (induction b arbitrary: a) (auto simp: dict_merge_def map_add_def split: option.split)

text \<open>A profile with an extra header that spells \<^verbatim>\<open>Authorization\<close> with an inner capital.\<close>

definition sneaky_profile :: model_profile where
  "sneaky_profile = (sample_profile ''p'' {WORKER} 1)\<lparr>extra_headers := [(''auThorization'', ''x'')]\<rparr>"

lemma sneaky_headers:
  "build_headers sneaky_profile (Some ''k'') =
     [(''Content-Type'', ''application/json''), (''auThorization'', ''x''), (''Authorization'', ''Bearer k'')]"
  by (simp add: build_headers_def sneaky_profile_def sample_profile_def dict_merge_def credential_header_def
      static_headers_def)

lemma casefold_names:
  "casefold ''Content-Type'' = ''content-type''" "casefold ''auThorization'' = ''authorization''"
  "casefold ''Authorization'' = ''authorization''"
  by (simp_all add: casefold_def to_lower_def is_upper_def char_in_def) code_simp+

text \<open>C24: a stray header never displaces the credential, but it can stand beside it.  The header the
  key belongs in carries the key, whatever extra headers a profile has.  But the check that extra
  headers carry no credential splits a name before its inner capitals, so \<^verbatim>\<open>auThorization\<close> passes
  it, and a request of that profile has two values for the one header.\<close>

theorem credential_never_displaced:
  "(if key = [] then True
    else map_of (build_headers profile (Some key)) (fst (credential_header profile))
      = Some (snd (credential_header profile) @ key))
   \<and> validate_profile (\<lambda>h. None) sneaky_profile = None
   \<and> filter (\<lambda>(n, v). casefold n = casefold ''Authorization'') (build_headers sneaky_profile (Some ''k''))
      = [(''auThorization'', ''x''), (''Authorization'', ''Bearer k'')]"
proof (intro conjI)
  show "if key = [] then True
    else map_of (build_headers profile (Some key)) (fst (credential_header profile))
      = Some (snd (credential_header profile) @ key)"
    by (simp add: build_headers_def Let_def split: prod.split)
  have "\<not> is_secret_field_name ''auThorization''" "valid_header_name ''auThorization''" "is_alnum CHR ''p''" by code_simp+
  then show "validate_profile (\<lambda>h. None) sneaky_profile = None"
    by (simp add: validate_profile_def profile_fields_def sneaky_profile_def sample_profile_def
      reject_credential_headers_def validate_auth_header_def reject_credential_query_def
      validate_base_url_policy_def validate_provider_url_def control_char_def safe_identifier_def Let_def)
  show "filter (\<lambda>(n, v). casefold n = casefold ''Authorization'') (build_headers sneaky_profile (Some ''k''))
      = [(''auThorization'', ''x''), (''Authorization'', ''Bearer k'')]"
    by (simp add: sneaky_headers casefold_names)
qed

subsection \<open>The limiter\<close>

lemma recent_suffix:
  "sorted slots \<Longrightarrow>
     \<exists>old. slots = old @ filter (\<lambda>t. now - t < 60) slots \<and> list_all (\<lambda>t. 60 \<le> now - t) old"
  for now :: rat
proof (induction slots)
  case (Cons t slots)
  then obtain old where old: "slots = old @ filter (\<lambda>t. now - t < 60) slots" "list_all (\<lambda>t. 60 \<le> now - t) old"
    by auto
  show ?case
  proof (cases "now - t < 60")
    case True
    with Cons.prems have "filter (\<lambda>t. now - t < 60) slots = slots" by (fastforce simp: filter_id_conv)
    with True show ?thesis by (intro exI [of _ "[]"]) simp
  next
    case False
    with old show ?thesis by (intro exI [of _ "t # old"]) auto
  qed
qed simp

definition spaced :: "nat \<Rightarrow> rat list \<Rightarrow> bool" where
  "spaced rpm g \<longleftrightarrow> (\<forall>i. i + rpm < length g \<longrightarrow> 60 \<le> g ! (i + rpm) - g ! i)"

definition limiter_ok :: "nat \<Rightarrow> nat \<Rightarrow> limited_pool \<Rightarrow> bool" where
  "limiter_ok concurrency rpm p \<longleftrightarrow>
     lm_concurrency (lp_limiter p) = concurrency \<and> lm_rpm (lp_limiter p) = rpm \<and> 0 < rpm
     \<and> lp_waiting p + lp_running p \<le> concurrency
     \<and> sorted (lp_granted p) \<and> list_all (\<lambda>t. t \<le> lp_now p) (lp_granted p) \<and> spaced rpm (lp_granted p)
     \<and> (\<exists>old. lp_granted p = old @ lm_times (lp_limiter p) \<and> list_all (\<lambda>t. 60 \<le> lp_now p - t) old)"

lemma spaced_grant:
  assumes "spaced rpm (old @ slots)" and "list_all (\<lambda>t. 60 \<le> now - t) old" and "length slots < rpm"
  shows "spaced rpm ((old @ slots) @ [now])"
  unfolding spaced_def
proof (intro allI impI)
  fix i
  let ?g = "old @ slots"
  assume i: "i + rpm < length (?g @ [now])"
  have nth: "(?g @ [now]) ! k = (if k < length ?g then ?g ! k else now)" if "k \<le> length ?g" for k
    using that nth_append [of ?g "[now]" k] by (cases "k = length ?g") auto
  show "60 \<le> (?g @ [now]) ! (i + rpm) - (?g @ [now]) ! i"
  proof (cases "i + rpm < length ?g")
    case True
    then have "60 \<le> ?g ! (i + rpm) - ?g ! i" using assms(1) by (simp add: spaced_def)
    with True show ?thesis using nth [of "i + rpm"] nth [of i] by simp
  next
    case False
    with i have n: "i + rpm = length ?g" by simp
    with assms(3) have "i < length old" by simp
    moreover from this have "60 \<le> now - old ! i" using assms(2) by (simp add: list_all_length)
    ultimately show ?thesis using n nth [of "i + rpm"] by (simp add: nth_append)
  qed
qed

lemma reserve_slot_window:
  assumes "limiter_ok concurrency rpm p" and "reserve_slot (lp_now p) (lp_limiter p) = (r, l)"
  obtains old slots where "lp_granted p = old @ slots" "list_all (\<lambda>t. 60 \<le> lp_now p - t) old"
    "lm_concurrency l = concurrency" "lm_rpm l = rpm"
    "r = None \<Longrightarrow> length slots < rpm \<and> lm_times l = slots @ [lp_now p]"
    "r \<noteq> None \<Longrightarrow> lm_times l = slots"
proof -
  let ?slots = "lm_times (lp_limiter p)" and ?recent = "filter (\<lambda>t. lp_now p - t < 60) (lm_times (lp_limiter p))"
  from assms(1) obtain old where old: "lp_granted p = old @ ?slots" "list_all (\<lambda>t. 60 \<le> lp_now p - t) old"
    "sorted (lp_granted p)" by (auto simp: limiter_ok_def)
  then have "sorted ?slots" by (simp add: sorted_append)
  from recent_suffix [OF this, of "lp_now p"] obtain more
    where more: "?slots = more @ ?recent" "list_all (\<lambda>t. 60 \<le> lp_now p - t) more" by blast
  have l: "lm_concurrency l = concurrency" "lm_rpm l = rpm"
    "r = None \<Longrightarrow> length ?recent < rpm \<and> lm_times l = ?recent @ [lp_now p]" "r \<noteq> None \<Longrightarrow> lm_times l = ?recent"
    using assms by (auto simp: reserve_slot_def limiter_ok_def Let_def split: if_splits)
  have "lp_granted p = (old @ more) @ ?recent" using old(1) more(1) by simp
  moreover have "list_all (\<lambda>t. 60 \<le> lp_now p - t) (old @ more)" using old(2) more(2) by simp
  ultimately show thesis using that [of "old @ more" ?recent] l by blast
qed

lemma limiter_step_ok:
  assumes "limiter_step p q" and "limiter_ok concurrency rpm p"
  shows "limiter_ok concurrency rpm q"
  using assms(1)
proof (cases rule: limiter_step.cases)
  case (tick d)
  with assms(2) show ?thesis by (fastforce simp: limiter_ok_def list_all_iff)
next
  case (grant l)
  from assms(2) reserve_slot_window [OF assms(2), of None l] grant obtain old slots where
    w: "lp_granted p = old @ slots" "list_all (\<lambda>t. 60 \<le> lp_now p - t) old" "lm_concurrency l = concurrency"
      "lm_rpm l = rpm" "length slots < rpm" "lm_times l = slots @ [lp_now p]" by metis
  have "spaced rpm ((old @ slots) @ [lp_now p])"
    using spaced_grant [of rpm old slots "lp_now p"] assms(2) w by (simp add: limiter_ok_def)
  moreover have "sorted ((old @ slots) @ [lp_now p])" "list_all (\<lambda>t. t \<le> lp_now p) ((old @ slots) @ [lp_now p])"
    using assms(2) w(1) by (auto simp: limiter_ok_def sorted_append list_all_iff)
  ultimately show ?thesis
    using assms(2) grant w by (auto simp: limiter_ok_def)
next
  case (refuse_slot w l)
  from assms(2) reserve_slot_window [OF assms(2), of "Some w" l] refuse_slot obtain old slots where
    "lp_granted p = old @ slots" "list_all (\<lambda>t. 60 \<le> lp_now p - t) old" "lm_concurrency l = concurrency"
    "lm_rpm l = rpm" "lm_times l = slots" by (metis option.distinct(1))
  with assms(2) refuse_slot show ?thesis by (auto simp: limiter_ok_def)
qed (use assms(2) in \<open>auto simp: limiter_ok_def\<close>)

lemma limiter_reach_ok:
  "limiter_reach p q \<Longrightarrow> limiter_ok concurrency rpm p \<Longrightarrow> limiter_ok concurrency rpm q"
  by (induction rule: limiter_reach.induct) (auto intro: limiter_step_ok)

lemma idle_pool_ok: "limiter_ok (max 1 concurrency) (max 1 rpm) (idle_pool concurrency rpm)"
  by (simp add: limiter_ok_def idle_pool_def new_limiter_def spaced_def)

text \<open>The limiter holds both limits, however its callers interleave.  At any time no more calls
  run than the profile allows (at least one), and of any \<open>rpm + 1\<close> calls that were let through one
  after the other, the last came at least a minute after the first.\<close>

theorem limiter_holds:
  assumes "limiter_reach (idle_pool concurrency rpm) p"
  shows "lp_running p \<le> max 1 concurrency
    \<and> (if i + max 1 rpm < length (lp_granted p)
       then 60 \<le> lp_granted p ! (i + max 1 rpm) - lp_granted p ! i else True)"
  using limiter_reach_ok [OF assms idle_pool_ok] by (auto simp: limiter_ok_def spaced_def)

definition sample_pool :: "nat \<Rightarrow> rat \<Rightarrow> nat \<Rightarrow> nat \<Rightarrow> rat list \<Rightarrow> rat list \<Rightarrow> limited_pool" where
  "sample_pool rpm now waiting running granted slots = \<lparr>lp_limiter = \<lparr>lm_concurrency = 2, lm_rpm = rpm, lm_times = slots\<rparr>,
     lp_now = now, lp_waiting = waiting, lp_running = running, lp_granted = granted\<rparr>"

theorem limiter_holds_witness:
  "limiter_reach (idle_pool 2 1) (sample_pool 1 60 0 2 [0, 60] [60])
   \<and> lp_running (sample_pool 1 60 0 2 [0, 60] [60]) \<le> max 1 2
   \<and> (if 0 + max 1 1 < length (lp_granted (sample_pool 1 60 0 2 [0, 60] [60]))
      then 60 \<le> lp_granted (sample_pool 1 60 0 2 [0, 60] [60]) ! (0 + max 1 1)
        - lp_granted (sample_pool 1 60 0 2 [0, 60] [60]) ! 0 else True)"
proof -
  have s0: "idle_pool 2 1 = sample_pool 1 0 0 0 [] []"
    by (simp add: idle_pool_def new_limiter_def sample_pool_def)
  have "limiter_step (sample_pool 1 0 0 0 [] []) (sample_pool 1 0 1 0 [] [])"
    using limiter_step.acquire [of "sample_pool 1 0 0 0 [] []"] by (simp add: sample_pool_def)
  moreover have "limiter_step (sample_pool 1 0 1 0 [] []) (sample_pool 1 0 2 0 [] [])"
    using limiter_step.acquire [of "sample_pool 1 0 1 0 [] []"] by (simp add: sample_pool_def numeral_2_eq_2)
  moreover have "limiter_step (sample_pool 1 0 2 0 [] []) (sample_pool 1 0 1 1 [0] [0])"
    using limiter_step.grant [of "sample_pool 1 0 2 0 [] []"] by (simp add: sample_pool_def reserve_slot_def)
  moreover have "limiter_step (sample_pool 1 0 1 1 [0] [0]) (sample_pool 1 60 1 1 [0] [0])"
    using limiter_step.tick [of 60 "sample_pool 1 0 1 1 [0] [0]"] by (simp add: sample_pool_def)
  moreover have "limiter_step (sample_pool 1 60 1 1 [0] [0]) (sample_pool 1 60 0 2 [0, 60] [60])"
    using limiter_step.grant [of "sample_pool 1 60 1 1 [0] [0]"]
    by (simp add: sample_pool_def reserve_slot_def numeral_2_eq_2)
  ultimately have r: "limiter_reach (idle_pool 2 1) (sample_pool 1 60 0 2 [0, 60] [60])"
    unfolding s0 by (meson limiter_reach.start limiter_reach.next_step)
  show ?thesis by (intro conjI r) (use limiter_holds [OF r, of 0] in blast)+
qed

text \<open>After the pause it asked for, a lone caller gets its slot.\<close>

lemma pause_is_enough:
  assumes "reserve_slot now l = (Some w, l')" and "length (lm_times l) \<le> lm_rpm l" and "0 < lm_rpm l" and "now + w \<le> later"
  shows "0 < w \<and> fst (reserve_slot later l') = None"
proof -
  let ?slots = "filter (\<lambda>t. now - t < 60) (lm_times l)"
  from assms(1) have n: "lm_rpm l \<le> length ?slots" and w: "w = hd ?slots + 60 - now"
    and l': "l' = l\<lparr>lm_times := ?slots\<rparr>" by (auto simp: reserve_slot_def Let_def split: if_splits)
  show ?thesis
  proof (cases ?slots)
    case Nil
    with n assms(3) show ?thesis by simp
  next
    case (Cons t ts)
    then have "t \<in> set ?slots" by simp
    then have "now - t < 60" by simp
    moreover have "length (filter (\<lambda>t. later - t < 60) ?slots) < lm_rpm l"
    proof -
      have "60 \<le> later - t" using assms(4) w Cons by simp
      then have "length (filter (\<lambda>t. later - t < 60) ?slots) \<le> length ts" unfolding Cons by simp
      also have "length ts < length ?slots" unfolding Cons by simp
      also have "length ?slots \<le> lm_rpm l" using assms(2) length_filter_le le_trans by blast
      finally show ?thesis .
    qed
    ultimately show ?thesis using w Cons by (simp add: reserve_slot_def l')
  qed
qed

end
