(* ===== verification/Provider_Requests.thy ===== *)
theory Provider_Requests
  imports Provider_Http Wire
begin

section \<open>Requests on the wire (adapters/providers/gateway.py)\<close>

text \<open>
  What each of the three adapters sends: the body of a request as a JSON object, built from the
  provider-neutral conversation.  A dict literal is an association list in the order of its keys;
  \<^verbatim>\<open>json.dumps\<close> is a parameter.
\<close>

subsection \<open>What a profile may receive\<close>

text \<open>\<^verbatim>\<open>_check_capabilities\<close>: which of the four warnings are given.\<close>

datatype capability_warning = No_native_schema | No_seed | No_tool_use | No_vision

definition check_capabilities :: "model_request \<Rightarrow> model_profile \<Rightarrow> capability_warning list" where
  "check_capabilities request profile =
     (if mr_output_schema request \<noteq> None \<and> NATIVE_JSON_SCHEMA \<notin> capabilities profile then [No_native_schema] else [])
     @ (if mr_seed request \<noteq> None \<and> protocol profile = ANTHROPIC_MESSAGES then [No_seed] else [])
     @ (if mr_tools request \<noteq> [] \<and> TOOL_USE \<notin> capabilities profile then [No_tool_use] else [])
     @ (if list_ex (\<lambda>m. msg_images m \<noteq> []) (mr_messages request) \<and> VISION \<notin> capabilities profile
        then [No_vision] else [])"

definition should_send_json_schema :: "model_request \<Rightarrow> model_profile \<Rightarrow> bool" where
  "should_send_json_schema request profile \<longleftrightarrow>
     mr_output_schema request \<noteq> None \<and> NATIVE_JSON_SCHEMA \<in> capabilities profile"

definition visible_request :: "model_request \<Rightarrow> model_profile \<Rightarrow> model_request" where
  "visible_request request profile =
     (if VISION \<in> capabilities profile \<or> \<not> list_ex (\<lambda>m. msg_images m \<noteq> []) (mr_messages request) then request
      else request\<lparr>mr_messages := map (\<lambda>m. m\<lparr>msg_images := []\<rparr>) (mr_messages request)\<rparr>)"

subsection \<open>Schemas\<close>

text \<open>The schema values are well formed where the code iterates them: a value that is no container of
  the expected kind has no children.\<close>

definition obj_values :: "json option \<Rightarrow> json list" where
  "obj_values v = (case v of Some (JObj kvs) \<Rightarrow> map snd kvs | _ \<Rightarrow> [])"

definition arr_values :: "json option \<Rightarrow> json list" where
  "arr_values v = (case v of Some (JArr vs) \<Rightarrow> vs | _ \<Rightarrow> [])"

definition key_set :: "json option \<Rightarrow> string set" where
  "key_set v = (case v of Some (JObj kvs) \<Rightarrow> fst ` set kvs | _ \<Rightarrow> {})"

definition name_set :: "json option \<Rightarrow> json set" where
  "name_set v = (case v of Some (JArr vs) \<Rightarrow> set vs | _ \<Rightarrow> {})"

definition strict_object :: "(string \<times> json) list \<Rightarrow> bool" where
  "strict_object schema \<longleftrightarrow>
     \<not> (obj_get schema ''type'' = Some (JStr ''object'')
        \<and> (obj_get schema ''additionalProperties'' \<noteq> Some (JBool False)
           \<or> JStr ` key_set (obj_get schema ''properties'') \<noteq> name_set (obj_get schema ''required'')))"

definition strict_children :: "(string \<times> json) list \<Rightarrow> json list" where
  "strict_children schema =
     concat (map (\<lambda>k. obj_values (obj_get schema k)) [''properties'', ''$defs'', ''definitions''])
     @ concat (map (\<lambda>k. arr_values (obj_get schema k)) [''anyOf'', ''allOf'', ''oneOf'', ''prefixItems''])
     @ (case obj_get schema ''items'' of None \<Rightarrow> [] | Some v \<Rightarrow> [v])"

lemma obj_get_size: "obj_get kvs k = Some v \<Longrightarrow> size v < size (JObj kvs)"
  by (auto simp: obj_get_def dest!: map_of_SomeD) (induction kvs; fastforce)

lemma arr_size: "v \<in> set vs \<Longrightarrow> size v < size (JArr vs)"
  by (induction vs) auto

lemma obj_size: "v \<in> snd ` set kvs \<Longrightarrow> size v < size (JObj kvs)"
proof -
  have "(k, v) \<in> set kvs \<Longrightarrow> size v < size (JObj kvs)" for k by (induction kvs) auto
  then show "v \<in> snd ` set kvs \<Longrightarrow> size v < size (JObj kvs)" by auto
qed

lemma obj_values_size: "v \<in> set (obj_values (obj_get kvs k)) \<Longrightarrow> size v < size (JObj kvs)"
proof -
  assume v: "v \<in> set (obj_values (obj_get kvs k))"
  then obtain kvs' where o: "obj_get kvs k = Some (JObj kvs')" and "v \<in> snd ` set kvs'"
    by (cases "obj_get kvs k"; cases "the (obj_get kvs k)") (auto simp: obj_values_def)
  then have "size v < size (JObj kvs')" by (simp only: obj_size)
  with obj_get_size [OF o] show ?thesis by simp
qed

lemma arr_values_size: "v \<in> set (arr_values (obj_get kvs k)) \<Longrightarrow> size v < size (JObj kvs)"
proof -
  assume v: "v \<in> set (arr_values (obj_get kvs k))"
  then obtain vs where o: "obj_get kvs k = Some (JArr vs)" and "v \<in> set vs"
    by (cases "obj_get kvs k"; cases "the (obj_get kvs k)") (auto simp: arr_values_def)
  then have "size v < size (JArr vs)" by (simp only: arr_size)
  with obj_get_size [OF o] show ?thesis by simp
qed

lemma strict_children_size: "v \<in> set (strict_children kvs) \<Longrightarrow> size v < size (JObj kvs)"
  using obj_get_size [of kvs]
  by (auto simp: strict_children_def dest: obj_values_size arr_values_size split: option.splits)

function strict_ready :: "json \<Rightarrow> bool" where
  "strict_ready schema =
     (case schema of
        JObj kvs \<Rightarrow> strict_object kvs \<and> list_all strict_ready (strict_children kvs)
      | _ \<Rightarrow> True)"
  by pat_completeness auto

termination by (relation "measure size") (auto dest: strict_children_size)

declare strict_ready.simps [simp del]

definition gemini_schema_fields :: "string list" where
  "gemini_schema_fields = [''type'', ''format'', ''title'', ''description'', ''nullable'', ''enum'', ''maxItems'',
     ''minItems'', ''properties'', ''required'', ''minProperties'', ''maxProperties'', ''minLength'', ''maxLength'',
     ''pattern'', ''example'', ''anyOf'', ''propertyOrdering'', ''default'', ''items'', ''minimum'', ''maximum'']"

definition gemini_structural_keywords :: "string list" where
  "gemini_structural_keywords =
     [''$ref'', ''$defs'', ''definitions'', ''allOf'', ''oneOf'', ''not'', ''prefixItems'', ''const'']"

definition gemini_children :: "(string \<times> json) list \<Rightarrow> json list" where
  "gemini_children schema =
     obj_values (obj_get schema ''properties'') @ arr_values (obj_get schema ''anyOf'')
     @ (case obj_get schema ''items'' of None \<Rightarrow> [] | Some v \<Rightarrow> [v])"

lemma gemini_children_size: "v \<in> set (gemini_children kvs) \<Longrightarrow> size v < size (JObj kvs)"
  using obj_get_size [of kvs]
  by (auto simp: gemini_children_def dest: obj_values_size arr_values_size split: option.splits)

function gemini_needs_json_schema :: "json \<Rightarrow> bool" where
  "gemini_needs_json_schema schema =
     (case schema of
        JObj kvs \<Rightarrow> list_ex (\<lambda>k. k \<in> set gemini_structural_keywords) (map fst kvs)
          \<or> list_ex gemini_needs_json_schema (gemini_children kvs)
      | _ \<Rightarrow> False)"
  by pat_completeness auto

termination by (relation "measure size") (auto dest: gemini_children_size)

declare gemini_needs_json_schema.simps [simp del]

fun gemini_schema_subset :: "json \<Rightarrow> json" where
  "gemini_schema_subset (JObj kvs) =
     JObj (map (\<lambda>(k, v).
        (k, if k = ''properties''
            then (case v of JObj ps \<Rightarrow> JObj (map (\<lambda>(p, s). (p, gemini_schema_subset s)) ps) | _ \<Rightarrow> v)
            else if k = ''anyOf''
            then (case v of JArr vs \<Rightarrow> JArr (map gemini_schema_subset vs) | _ \<Rightarrow> v)
            else if k = ''items'' then gemini_schema_subset v else v))
       (filter (\<lambda>(k, v). k \<in> set gemini_schema_fields) kvs))"
| "gemini_schema_subset v = v"

definition gemini_tool_parameters :: "(string \<times> json) list \<Rightarrow> string \<times> json" where
  "gemini_tool_parameters schema =
     (if gemini_needs_json_schema (JObj schema) then (''parametersJsonSchema'', JObj schema)
      else (''parameters'', gemini_schema_subset (JObj schema)))"

subsection \<open>Messages\<close>

fun message_role_value :: "message_role \<Rightarrow> string" where
  "message_role_value Role_SYSTEM = ''system''"
| "message_role_value Role_USER = ''user''"
| "message_role_value Role_ASSISTANT = ''assistant''"
| "message_role_value Role_TOOL = ''tool''"

definition text_block :: "string \<Rightarrow> json" where
  "text_block s = JObj [(''type'', JStr ''text''), (''text'', JStr s)]"

definition tool_error_prefix :: string where
  "tool_error_prefix = ''[tool_error] ''"

definition tool_result_text :: "model_message \<Rightarrow> string" where
  "tool_result_text m = (if msg_is_error m then tool_error_prefix @ msg_content m else msg_content m)"

text \<open>OpenAI.\<close>

definition openai_content :: "model_message \<Rightarrow> json" where
  "openai_content m =
     (if msg_images m = [] then JStr (msg_content m)
      else JArr ((if msg_content m = [] then [] else [text_block (msg_content m)])
        @ map (\<lambda>img. JObj [(''type'', JStr ''image_url''),
            (''image_url'', JObj [(''url'', JStr (''data:'' @ ic_media_type img @ '';base64,'' @ ic_data img))])])
          (msg_images m)))"

definition openai_call :: "(json \<Rightarrow> string) \<Rightarrow> tool_call \<Rightarrow> json" where
  "openai_call dumps tc = JObj [(''id'', JStr (tc_id tc)), (''type'', JStr ''function''),
     (''function'', JObj [(''name'', JStr (tc_name tc)), (''arguments'', JStr (dumps (JObj (tc_arguments tc))))])]"

definition openai_message :: "(json \<Rightarrow> string) \<Rightarrow> model_message \<Rightarrow> json" where
  "openai_message dumps m =
     (if msg_role m = Role_ASSISTANT \<and> msg_tool_calls m \<noteq> []
      then JObj [(''role'', JStr ''assistant''),
        (''content'', if msg_content m = [] then JNull else JStr (msg_content m)),
        (''tool_calls'', JArr (map (openai_call dumps) (msg_tool_calls m)))]
      else if msg_role m = Role_TOOL
      then JObj [(''role'', JStr ''tool''), (''tool_call_id'', JStr (msg_tool_call_id m)),
        (''content'', JStr (tool_result_text m))]
      else JObj [(''role'', JStr (message_role_value (msg_role m))), (''content'', openai_content m)])"

text \<open>Anthropic: a message is a role and a content.\<close>

type_synonym wire_message = "string \<times> json"

definition wire_object :: "wire_message \<Rightarrow> json" where
  "wire_object rc = (case rc of (r, c) \<Rightarrow> JObj [(''role'', JStr r), (''content'', c)])"

definition anthropic_image_block :: "image_content \<Rightarrow> json" where
  "anthropic_image_block img = JObj [(''type'', JStr ''image''),
     (''source'', JObj [(''type'', JStr ''base64''), (''media_type'', JStr (ic_media_type img)),
        (''data'', JStr (ic_data img))])]"

definition anthropic_call :: "tool_call \<Rightarrow> json" where
  "anthropic_call tc = JObj [(''type'', JStr ''tool_use''), (''id'', JStr (tc_id tc)),
     (''name'', JStr (tc_name tc)), (''input'', JObj (tc_arguments tc))]"

definition anthropic_result :: "model_message \<Rightarrow> json" where
  "anthropic_result m = JObj
     ([(''type'', JStr ''tool_result''), (''tool_use_id'', JStr (msg_tool_call_id m))]
      @ (if msg_content m = [] then [] else [(''content'', JStr (msg_content m))])
      @ (if msg_is_error m then [(''is_error'', JBool True)] else []))"

definition anthropic_step :: "wire_message list \<Rightarrow> model_message \<Rightarrow> wire_message list" where
  "anthropic_step out m =
     (if msg_role m = Role_SYSTEM then out
      else if msg_role m = Role_ASSISTANT \<and> msg_tool_calls m \<noteq> []
      then out @ [(''assistant'', JArr ((if msg_content m = [] then [] else [text_block (msg_content m)])
             @ map anthropic_call (msg_tool_calls m)))]
      else if msg_role m = Role_TOOL
      then (if out \<noteq> [] \<and> fst (last out) = ''user'' \<and> (case snd (last out) of JArr _ \<Rightarrow> True | _ \<Rightarrow> False)
            then butlast out @ [(''user'', case snd (last out) of JArr bs \<Rightarrow> JArr (bs @ [anthropic_result m]) | c \<Rightarrow> c)]
            else out @ [(''user'', JArr [anthropic_result m])])
      else if msg_images m \<noteq> []
      then out @ [(message_role_value (msg_role m), JArr (map anthropic_image_block (msg_images m)
             @ (if msg_content m = [] then [] else [text_block (msg_content m)])))]
      else out @ [(message_role_value (msg_role m), JStr (msg_content m))])"

definition anthropic_messages :: "model_message list \<Rightarrow> wire_message list" where
  "anthropic_messages ms = foldl anthropic_step [] ms"

definition ephemeral :: json where
  "ephemeral = JObj [(''type'', JStr ''ephemeral'')]"

definition mark_block :: "json \<Rightarrow> json" where
  "mark_block b = (case b of JObj kvs \<Rightarrow> JObj (dict_set kvs ''cache_control'' ephemeral) | _ \<Rightarrow> b)"

definition mark_cache_breakpoint :: "wire_message \<Rightarrow> wire_message" where
  "mark_cache_breakpoint rc =
     (case rc of (r, c) \<Rightarrow>
        (r, case c of
              JStr s \<Rightarrow> if s = [] then c else JArr [mark_block (text_block s)]
            | JArr bs \<Rightarrow> if bs = [] then c else JArr (butlast bs @ [mark_block (last bs)])
            | _ \<Rightarrow> c))"

text \<open>Gemini: a content is a role and its parts; the map carries the names of the calls.\<close>

fun gemini_role :: "message_role \<Rightarrow> string" where
  "gemini_role Role_ASSISTANT = ''model''"
| "gemini_role Role_TOOL = ''user''"
| "gemini_role Role_SYSTEM = ''user''"
| "gemini_role Role_USER = ''user''"

type_synonym gemini_state = "(string \<rightharpoonup> string) \<times> (string \<times> json list) list"

definition gemini_call :: "tool_call \<Rightarrow> json" where
  "gemini_call tc = JObj
     ([(''functionCall'', JObj [(''name'', JStr (tc_name tc)), (''args'', JObj (tc_arguments tc))])]
      @ (if tc_signature tc = [] then [] else [(''thoughtSignature'', JStr (tc_signature tc))]))"

definition gemini_response :: "(string \<rightharpoonup> string) \<Rightarrow> model_message \<Rightarrow> json" where
  "gemini_response names m = JObj [(''functionResponse'', JObj
     [(''name'', JStr (dict_get names (msg_tool_call_id m) (msg_tool_call_id m))),
      (''response'', JObj [(if msg_is_error m then ''error'' else ''result'', JStr (msg_content m))])])]"

definition gemini_parts :: "model_message \<Rightarrow> json list" where
  "gemini_parts m =
     (if msg_content m = [] then [] else [JObj [(''text'', JStr (msg_content m))]])
     @ map (\<lambda>img. JObj [(''inlineData'', JObj [(''mimeType'', JStr (ic_media_type img)), (''data'', JStr (ic_data img))])])
         (msg_images m)
     @ map gemini_call (msg_tool_calls m)"

definition call_names :: "tool_call list \<Rightarrow> (string \<rightharpoonup> string) \<Rightarrow> (string \<rightharpoonup> string)" where
  "call_names tcs names = foldl (\<lambda>f tc. f(tc_id tc \<mapsto> tc_name tc)) names tcs"

definition gemini_step :: "gemini_state \<Rightarrow> model_message \<Rightarrow> gemini_state" where
  "gemini_step st m =
     (case st of (names, out) \<Rightarrow>
        if msg_role m = Role_SYSTEM then (names, out)
        else if msg_role m = Role_TOOL
        then (names,
          if out \<noteq> [] \<and> fst (last out) = ''user''
          then butlast out @ [(''user'', snd (last out) @ [gemini_response names m])]
          else out @ [(''user'', [gemini_response names m])])
        else (call_names (msg_tool_calls m) names, out @ [(gemini_role (msg_role m), gemini_parts m)]))"

definition gemini_contents :: "model_message list \<Rightarrow> (string \<times> json list) list" where
  "gemini_contents ms = snd (foldl gemini_step (Map.empty, []) ms)"

subsection \<open>Bodies\<close>

definition optional :: "'a option \<Rightarrow> ('a \<Rightarrow> json) \<Rightarrow> string \<Rightarrow> (string \<times> json) list" where
  "optional v f k = (case v of None \<Rightarrow> [] | Some x \<Rightarrow> [(k, f x)])"

definition schema_json :: "model_request \<Rightarrow> json" where
  "schema_json request = (case mr_output_schema request of None \<Rightarrow> JNull | Some s \<Rightarrow> JObj s)"

definition max_tokens_json :: "model_request \<Rightarrow> model_profile \<Rightarrow> json" where
  "max_tokens_json request profile = JInt (int (get_max_tokens request (max_output_tokens profile)))"

definition openai_body :: "(json \<Rightarrow> string) \<Rightarrow> model_request \<Rightarrow> model_profile \<Rightarrow> (string \<times> json) list" where
  "openai_body dumps request0 profile =
     (let request = visible_request request0 profile
      in [(''model'', JStr (model_id profile)),
          (''messages'', JArr ((if mr_system request = [] then []
               else [JObj [(''role'', JStr ''system''), (''content'', JStr (mr_system request))]])
             @ map (openai_message dumps) (mr_messages request))),
          (token_limit_param profile, max_tokens_json request profile)]
         @ (if mr_tools request \<noteq> [] \<and> TOOL_USE \<in> capabilities profile
            then [(''tools'', JArr (map (\<lambda>t. JObj [(''type'', JStr ''function''),
                (''function'', JObj [(''name'', JStr (td_name t)), (''description'', JStr (td_description t)),
                   (''parameters'', JObj (td_parameters t))])]) (mr_tools request)))] else [])
         @ (if should_send_json_schema request profile
            then [(''response_format'', JObj [(''type'', JStr ''json_schema''),
               (''json_schema'', JObj [(''name'', JStr ''output''), (''strict'', JBool (strict_ready (schema_json request))),
                  (''schema'', schema_json request)])])] else [])
         @ optional (mr_temperature request) JFloat ''temperature''
         @ optional (mr_seed request) JInt ''seed'')"

definition system_text :: "model_request \<Rightarrow> string list" where
  "system_text request =
     (if mr_system request = [] then [] else [mr_system request])
     @ map msg_content (filter (\<lambda>m. msg_role m = Role_SYSTEM \<and> msg_content m \<noteq> []) (mr_messages request))"

definition blank_line :: string where
  "blank_line = newline @ newline"

definition anthropic_body :: "model_request \<Rightarrow> model_profile \<Rightarrow> (string \<times> json) list" where
  "anthropic_body request0 profile =
     (let request = visible_request request0 profile;
          messages = anthropic_messages (mr_messages request);
          caching = PROMPT_CACHING \<in> capabilities profile;
          marked = (if caching \<and> messages \<noteq> [] then butlast messages @ [mark_cache_breakpoint (last messages)]
            else messages);
          system = str_join blank_line (system_text request)
      in [(''model'', JStr (model_id profile)), (''max_tokens'', max_tokens_json request profile),
          (''messages'', JArr (map wire_object marked))]
         @ (if system_text request = [] then []
            else [(''system'', if caching then JArr [mark_block (text_block system)] else JStr system)])
         @ (if mr_tools request \<noteq> [] \<and> TOOL_USE \<in> capabilities profile
            then [(''tools'', JArr (map (\<lambda>t. JObj [(''name'', JStr (td_name t)),
               (''description'', JStr (td_description t)), (''input_schema'', JObj (td_parameters t))])
               (mr_tools request)))] else [])
         @ (if should_send_json_schema request profile
            then [(''output_config'', JObj [(''format'', JObj [(''type'', JStr ''json_schema''),
               (''schema'', schema_json request)])])] else [])
         @ optional (mr_temperature request) JFloat ''temperature'')"

definition gemini_body :: "model_request \<Rightarrow> model_profile \<Rightarrow> (string \<times> json) list" where
  "gemini_body request0 profile =
     (let request = visible_request request0 profile;
          generation = [(''maxOutputTokens'', max_tokens_json request profile)]
            @ optional (mr_temperature request) JFloat ''temperature''
            @ optional (mr_seed request) JInt ''seed''
            @ (if should_send_json_schema request profile
               then [(''responseMimeType'', JStr ''application/json''), (''responseJsonSchema'', schema_json request)]
               else [])
      in [(''contents'', JArr (map (\<lambda>(r, ps). JObj [(''role'', JStr r), (''parts'', JArr ps)])
             (gemini_contents (mr_messages request)))),
          (''generationConfig'', JObj generation)]
         @ (if system_text request = [] then []
            else [(''systemInstruction'', JObj [(''parts'',
               JArr [JObj [(''text'', JStr (str_join blank_line (system_text request)))]])])])
         @ (if mr_tools request \<noteq> [] \<and> TOOL_USE \<in> capabilities profile
            then [(''tools'', JArr [JObj [(''functionDeclarations'', JArr (map (\<lambda>t. JObj
               [(''name'', JStr (td_name t)), (''description'', JStr (td_description t)),
                gemini_tool_parameters (td_parameters t)]) (mr_tools request)))]])] else []))"

end
