(* ===== verification/Provider_Responses.thy ===== *)
theory Provider_Responses
  imports Provider_Requests "HOL-Library.Monad_Syntax"
begin

section \<open>Responses on the wire (adapters/providers/gateway.py)\<close>

text \<open>
  The parsers of the three protocols, complete and streamed, and the assembler of a stream.  Inside
  a parser \<open>None\<close> is any of the exceptions \<^verbatim>\<open>_protocol_parser\<close> turns into a
  \<^verbatim>\<open>ProviderProtocolError\<close>: a missing attribute, key, a wrong type or value.  Parameters:
  \<^verbatim>\<open>json.loads\<close> and \<^verbatim>\<open>json.dumps\<close>, pydantic's reading of an integer, and the fresh ids.
\<close>

record parse_lib =
  pl_loads :: "string \<Rightarrow> json option"
  pl_dumps :: "json \<Rightarrow> string"
  pl_int :: "json \<Rightarrow> int option"
  pl_uuid :: "nat \<Rightarrow> string"

subsection \<open>Python on JSON values\<close>

text \<open>\<^verbatim>\<open>v.get(k, d)\<close>, \<^verbatim>\<open>v or d\<close>, \<^verbatim>\<open>for x in v\<close> and \<^verbatim>\<open>v[0]\<close> of a truthy \<^verbatim>\<open>v\<close>.\<close>

definition get_or :: "json \<Rightarrow> string \<Rightarrow> json \<Rightarrow> json option" where
  "get_or v k d = (case v of JObj kvs \<Rightarrow> Some (case obj_get kvs k of None \<Rightarrow> d | Some w \<Rightarrow> w) | _ \<Rightarrow> None)"

definition items_of :: "json \<Rightarrow> json list option" where
  "items_of v =
     (case v of
        JArr vs \<Rightarrow> Some vs
      | JObj kvs \<Rightarrow> Some (map (JStr \<circ> fst) kvs)
      | JStr s \<Rightarrow> Some (map (\<lambda>c. JStr [c]) s)
      | _ \<Rightarrow> None)"

definition first_of :: "json \<Rightarrow> json option" where
  "first_of v =
     (case v of JArr (x # xs) \<Rightarrow> Some x | JStr (c # cs) \<Rightarrow> Some (JStr [c]) | _ \<Rightarrow> None)"

definition is_dict :: "json \<Rightarrow> bool" where
  "is_dict v = (case v of JObj _ \<Rightarrow> True | _ \<Rightarrow> False)"

definition as_str :: "json \<Rightarrow> string option" where
  "as_str v = (case v of JStr s \<Rightarrow> Some s | _ \<Rightarrow> None)"

definition as_dict :: "json \<Rightarrow> (string \<times> json) list option" where
  "as_dict v = (case v of JObj kvs \<Rightarrow> Some kvs | _ \<Rightarrow> None)"

text \<open>A text with \<^verbatim>\<open>min_length=1\<close>, a count with \<^verbatim>\<open>ge=0\<close>.\<close>

definition as_name :: "json \<Rightarrow> string option" where
  "as_name v = (case v of JStr s \<Rightarrow> if s = [] then None else Some s | _ \<Rightarrow> None)"

definition as_count :: "parse_lib \<Rightarrow> json \<Rightarrow> nat option" where
  "as_count lib v = (case pl_int lib v of Some i \<Rightarrow> if 0 \<le> i then Some (nat i) else None | None \<Rightarrow> None)"

text \<open>\<^verbatim>\<open>table.get(v, default)\<close>: a list or dict cannot be looked up.\<close>

definition lookup_in :: "(string \<times> 'a) list \<Rightarrow> json \<Rightarrow> 'a \<Rightarrow> 'a option" where
  "lookup_in tbl v d =
     (case v of
        JStr s \<Rightarrow> Some (case map_of tbl s of None \<Rightarrow> d | Some x \<Rightarrow> x)
      | JArr _ \<Rightarrow> None | JObj _ \<Rightarrow> None | _ \<Rightarrow> Some d)"

text \<open>Arithmetic on the numbers of a usage; a boolean counts as an integer.\<close>

definition number :: "json \<Rightarrow> (int + rat) option" where
  "number v = (case v of JInt i \<Rightarrow> Some (Inl i) | JBool b \<Rightarrow> Some (Inl (if b then 1 else 0))
     | JFloat q \<Rightarrow> Some (Inr q) | _ \<Rightarrow> None)"

fun real_of_number :: "int + rat \<Rightarrow> rat" where
  "real_of_number (Inl i) = of_int i"
| "real_of_number (Inr q) = q"

definition arith :: "(int \<Rightarrow> int \<Rightarrow> int) \<Rightarrow> (rat \<Rightarrow> rat \<Rightarrow> rat) \<Rightarrow> json \<Rightarrow> json \<Rightarrow> json option" where
  "arith f g a b =
     (case (number a, number b) of
        (Some (Inl i), Some (Inl j)) \<Rightarrow> Some (JInt (f i j))
      | (Some x, Some y) \<Rightarrow> Some (JFloat (g (real_of_number x) (real_of_number y)))
      | _ \<Rightarrow> None)"

definition json_minus :: "json \<Rightarrow> json \<Rightarrow> json option" where
  "json_minus a b = arith (-) (-) a b"

definition json_plus :: "json \<Rightarrow> json \<Rightarrow> json option" where
  "json_plus a b =
     (case (a, b) of
        (JStr s, JStr t) \<Rightarrow> Some (JStr (s @ t))
      | (JArr s, JArr t) \<Rightarrow> Some (JArr (s @ t))
      | _ \<Rightarrow> arith (+) (+) a b)"

text \<open>\<^verbatim>\<open>max(0, x)\<close>; the first of two equal values is kept.\<close>

definition max_zero :: "json \<Rightarrow> json option" where
  "max_zero v = (case number v of None \<Rightarrow> None | Some x \<Rightarrow> Some (if 0 < real_of_number x then v else JInt 0))"

text \<open>\<^verbatim>\<open>max(a, b)\<close> of a count and a value.\<close>

definition max_count :: "json \<Rightarrow> json \<Rightarrow> json option" where
  "max_count a b =
     (case (number a, number b) of
        (Some x, Some y) \<Rightarrow> Some (if real_of_number x < real_of_number y then b else a)
      | _ \<Rightarrow> None)"

subsection \<open>Complete responses\<close>

definition openai_finish :: "(string \<times> finish_reason) list" where
  "openai_finish = [(''stop'', END_TURN), (''tool_calls'', TOOL_USE_STOP), (''length'', MAX_TOKENS),
     (''content_filter'', ERROR_STOP)]"

definition anthropic_finish :: "(string \<times> finish_reason) list" where
  "anthropic_finish = [(''end_turn'', END_TURN), (''tool_use'', TOOL_USE_STOP), (''max_tokens'', MAX_TOKENS),
     (''stop_sequence'', STOP_SEQUENCE)]"

definition gemini_finish :: "(string \<times> finish_reason) list" where
  "gemini_finish = [(''STOP'', END_TURN), (''MAX_TOKENS'', MAX_TOKENS), (''SAFETY'', ERROR_STOP),
     (''RECITATION'', ERROR_STOP), (''PROHIBITED_CONTENT'', ERROR_STOP), (''SPII'', ERROR_STOP),
     (''MALFORMED_FUNCTION_CALL'', ERROR_STOP), (''OTHER'', ERROR_STOP)]"

definition make_call :: "json \<Rightarrow> json \<Rightarrow> json \<Rightarrow> json \<Rightarrow> tool_call option" where
  "make_call i n args sig = do {
     i' \<leftarrow> as_name i; n' \<leftarrow> as_name n; a' \<leftarrow> as_dict args; s' \<leftarrow> as_str sig;
     Some \<lparr>tc_id = i', tc_name = n', tc_arguments = a', tc_signature = s'\<rparr> }"

definition make_usage :: "parse_lib \<Rightarrow> json \<Rightarrow> json \<Rightarrow> json \<Rightarrow> json \<Rightarrow> token_usage option" where
  "make_usage lib i o' cc cr = do {
     a \<leftarrow> as_count lib i; b \<leftarrow> as_count lib o'; c \<leftarrow> as_count lib cc; d \<leftarrow> as_count lib cr;
     Some \<lparr>tu_input = a, tu_output = b, cache_creation_tokens = c, cache_read_tokens = d\<rparr> }"

definition make_response ::
  "json \<Rightarrow> tool_call list \<Rightarrow> finish_reason \<Rightarrow> token_usage \<Rightarrow> string \<Rightarrow> json \<Rightarrow> model_response option" where
  "make_response answer tcs finish usage provider m = do {
     t \<leftarrow> as_str answer; n \<leftarrow> as_str m;
     Some \<lparr>mres_text = t, mres_tool_calls = tcs, mres_finish = (if tcs = [] then finish else TOOL_USE_STOP),
       mres_usage = usage, mres_provider = provider, mres_model = n, mres_artifact = None\<rparr> }"

text \<open>A loop over values that may raise; the counter numbers the fresh ids.\<close>

fun collect :: "(nat \<Rightarrow> json \<Rightarrow> 'a option) \<Rightarrow> nat \<Rightarrow> json list \<Rightarrow> 'a list option" where
  "collect f n [] = Some []"
| "collect f n (v # vs) = do { x \<leftarrow> f n v; xs \<leftarrow> collect f (Suc n) vs; Some (x # xs) }"

definition openai_tool_call :: "parse_lib \<Rightarrow> nat \<Rightarrow> json \<Rightarrow> tool_call option" where
  "openai_tool_call lib n raw = do {
     func \<leftarrow> get_or raw ''function'' (JObj []);
     arguments \<leftarrow> get_or func ''arguments'' (JStr ''{}'');
     txt_in \<leftarrow> as_str arguments;
     i \<leftarrow> get_or raw ''id'' (JStr (pl_uuid lib n));
     name \<leftarrow> get_or func ''name'' (JStr []);
     make_call i name (case pl_loads lib txt_in of None \<Rightarrow> JObj [] | Some v \<Rightarrow> v) (JStr []) }"

definition openai_usage :: "parse_lib \<Rightarrow> json \<Rightarrow> token_usage option" where
  "openai_usage lib raw = do {
     details \<leftarrow> get_or raw ''prompt_tokens_details'' JNull;
     cached \<leftarrow> (if is_dict details then get_or details ''cached_tokens'' (JInt 0) else Some (JInt 0));
     prompt \<leftarrow> get_or raw ''prompt_tokens'' (JInt 0);
     rest \<leftarrow> json_minus prompt cached;
     input \<leftarrow> max_zero rest;
     output \<leftarrow> get_or raw ''completion_tokens'' (JInt 0);
     make_usage lib input output (JInt 0) cached }"

text \<open>The error is that of an empty list; \<open>None\<close> is what the decorator reports.\<close>

definition malformed :: "string \<Rightarrow> (gateway_error + 'a) option \<Rightarrow> gateway_error + 'a" where
  "malformed provider r =
     (case r of
        None \<Rightarrow> Inl (protocol_error (''Malformed '' @ provider @ '' response at response'') ''response'')
      | Some x \<Rightarrow> x)"

definition openai_parse :: "parse_lib \<Rightarrow> json \<Rightarrow> string \<Rightarrow> gateway_error + model_response" where
  "openai_parse lib data model = malformed ''openai'' (do {
     choices \<leftarrow> get_or data ''choices'' (JArr []);
     if falsy choices then Some (Inl (protocol_error ''Response contains empty choices'' ''choices''))
     else do {
       choice \<leftarrow> first_of choices;
       message \<leftarrow> get_or choice ''message'' (JObj []);
       content \<leftarrow> get_or message ''content'' JNull;
       reason \<leftarrow> get_or choice ''finish_reason'' (JStr ''stop'');
       finish \<leftarrow> lookup_in openai_finish reason END_TURN;
       calls' \<leftarrow> get_or message ''tool_calls'' (JArr []);
       raws \<leftarrow> items_of calls';
       tcs \<leftarrow> collect (openai_tool_call lib) 0 raws;
       usage_raw \<leftarrow> get_or data ''usage'' (JObj []);
       usage \<leftarrow> openai_usage lib usage_raw;
       m \<leftarrow> get_or data ''model'' (JStr model);
       r \<leftarrow> make_response (or_else content (JStr [])) tcs finish usage ''openai'' m;
       Some (Inr r) } })"

datatype part = Text_part json | Call_part tool_call | No_part

definition anthropic_part :: "parse_lib \<Rightarrow> nat \<Rightarrow> json \<Rightarrow> part option" where
  "anthropic_part lib n b = do {
     t \<leftarrow> get_or b ''type'' JNull;
     if t = JStr ''text'' then do { s \<leftarrow> get_or b ''text'' (JStr []); Some (Text_part s) }
     else if t = JStr ''tool_use'' then do {
       i \<leftarrow> get_or b ''id'' (JStr (pl_uuid lib n)); name \<leftarrow> get_or b ''name'' (JStr []);
       args \<leftarrow> get_or b ''input'' (JObj []); tc \<leftarrow> make_call i name args (JStr []); Some (Call_part tc) }
     else Some No_part }"

definition part_calls :: "part list \<Rightarrow> tool_call list" where
  "part_calls ps = List.map_filter (\<lambda>p. case p of Call_part tc \<Rightarrow> Some tc | _ \<Rightarrow> None) ps"

text \<open>\<^verbatim>\<open>"".join(text_parts)\<close>: an item that is no text raises.\<close>

fun joined :: "part list \<Rightarrow> string option" where
  "joined [] = Some []"
| "joined (Text_part v # ps) = do { s \<leftarrow> as_str v; t \<leftarrow> joined ps; Some (s @ t) }"
| "joined (p # ps) = joined ps"

definition anthropic_parse :: "parse_lib \<Rightarrow> json \<Rightarrow> string \<Rightarrow> gateway_error + model_response" where
  "anthropic_parse lib data model = malformed ''anthropic'' (do {
     content \<leftarrow> get_or data ''content'' (JArr []);
     stop \<leftarrow> get_or data ''stop_reason'' JNull;
     if falsy content
     then (if stop = JStr ''max_tokens''
           then map_option Inr (make_response (JStr []) [] MAX_TOKENS zero_token_usage ''anthropic'' (JStr model))
           else Some (Inl (protocol_error ''Response contains empty content'' ''content'')))
     else do {
       reason \<leftarrow> get_or data ''stop_reason'' (JStr ''end_turn'');
       finish \<leftarrow> lookup_in anthropic_finish reason END_TURN;
       blocks \<leftarrow> items_of content;
       parts \<leftarrow> collect (anthropic_part lib) 0 blocks;
       raw \<leftarrow> get_or data ''usage'' (JObj []);
       i \<leftarrow> get_or raw ''input_tokens'' (JInt 0); o' \<leftarrow> get_or raw ''output_tokens'' (JInt 0);
       cc \<leftarrow> get_or raw ''cache_creation_input_tokens'' (JInt 0);
       cr \<leftarrow> get_or raw ''cache_read_input_tokens'' (JInt 0);
       usage \<leftarrow> make_usage lib i o' cc cr;
       answer \<leftarrow> joined parts;
       m \<leftarrow> get_or data ''model'' (JStr model);
       r \<leftarrow> make_response (JStr answer) (part_calls parts) finish usage ''anthropic'' m;
       Some (Inr r) } })"

definition gemini_usage :: "parse_lib \<Rightarrow> json \<Rightarrow> token_usage option" where
  "gemini_usage lib raw = do {
     cached \<leftarrow> get_or raw ''cachedContentTokenCount'' (JInt 0);
     prompt \<leftarrow> get_or raw ''promptTokenCount'' (JInt 0);
     rest \<leftarrow> json_minus prompt cached; input \<leftarrow> max_zero rest;
     candidates \<leftarrow> get_or raw ''candidatesTokenCount'' (JInt 0);
     thoughts \<leftarrow> get_or raw ''thoughtsTokenCount'' (JInt 0);
     output \<leftarrow> json_plus candidates thoughts;
     make_usage lib input output (JInt 0) cached }"

text \<open>The text and the call of one part; a part may hold both.\<close>

definition gemini_text :: "json \<Rightarrow> json option option" where
  "gemini_text p = do {
     t \<leftarrow> get_or p ''text'' JNull; thought \<leftarrow> get_or p ''thought'' JNull;
     Some (if \<not> falsy t \<and> falsy thought then Some t else None) }"

definition gemini_part :: "parse_lib \<Rightarrow> nat \<Rightarrow> json \<Rightarrow> part list option" where
  "gemini_part lib n p = do {
     t \<leftarrow> gemini_text p;
     call \<leftarrow> get_or p ''functionCall'' JNull;
     c \<leftarrow> (if falsy call then Some []
       else do {
         i \<leftarrow> get_or call ''id'' JNull; name \<leftarrow> get_or call ''name'' (JStr []);
         args \<leftarrow> get_or call ''args'' JNull; sig \<leftarrow> get_or p ''thoughtSignature'' JNull;
         tc \<leftarrow> make_call (or_else i (JStr (pl_uuid lib n))) name (or_else args (JObj [])) (or_else sig (JStr []));
         Some [Call_part tc] });
     Some ((case t of None \<Rightarrow> [] | Some v \<Rightarrow> [Text_part v]) @ c) }"

text \<open>The loop over the parts; \<open>n\<close> counts the calls.\<close>

fun gemini_parts_from :: "parse_lib \<Rightarrow> nat \<Rightarrow> json list \<Rightarrow> part list option" where
  "gemini_parts_from lib n [] = Some []"
| "gemini_parts_from lib n (v # vs) = do {
     ps \<leftarrow> gemini_part lib n v;
     rest \<leftarrow> gemini_parts_from lib (n + length (part_calls ps)) vs;
     Some (ps @ rest) }"

definition gemini_parts_of :: "json \<Rightarrow> json list option" where
  "gemini_parts_of content = do {
     ps \<leftarrow> get_or (or_else content (JObj [])) ''parts'' JNull; items_of (or_else ps (JArr [])) }"

definition gemini_parse :: "parse_lib \<Rightarrow> json \<Rightarrow> string \<Rightarrow> gateway_error + model_response" where
  "gemini_parse lib data model = malformed ''gemini'' (do {
     candidates \<leftarrow> get_or data ''candidates'' (JArr []);
     if falsy candidates then Some (Inl (protocol_error ''Response contains empty candidates'' ''candidates''))
     else do {
       candidate \<leftarrow> first_of candidates;
       content \<leftarrow> get_or candidate ''content'' JNull;
       if content \<noteq> JNull \<and> \<not> is_dict content
       then Some (Inl (protocol_error ''Malformed gemini response at candidates[0].content'' ''candidates[0].content''))
       else do {
         raws \<leftarrow> gemini_parts_of content;
         parts \<leftarrow> gemini_parts_from lib 0 raws;
         reason \<leftarrow> get_or candidate ''finishReason'' (JStr ''STOP'');
         finish \<leftarrow> lookup_in gemini_finish reason END_TURN;
         answer \<leftarrow> joined parts;
         usage_raw \<leftarrow> get_or data ''usageMetadata'' (JObj []);
         usage \<leftarrow> gemini_usage lib usage_raw;
         m \<leftarrow> get_or data ''modelVersion'' (JStr model);
         r \<leftarrow> make_response (JStr answer) (part_calls parts) finish usage ''gemini'' m;
         Some (Inr r) } } })"

end
