(* ===== verification/Provider_Streams.thy ===== *)
theory Provider_Streams
  imports Provider_Responses
begin

section \<open>Streamed responses (adapters/providers/gateway.py)\<close>

text \<open>
  Server-sent events, the three stream parsers and the assembler.  A stream is the list of the text
  chunks its decoder hands over and how it ends; a parser is the deltas it yields and how it stops.
  A final output count that is no integer is read as any other count.
\<close>

subsection \<open>Lines\<close>

text \<open>\<^verbatim>\<open>_split_stream_lines\<close>; \<open>cur\<close> is \<^verbatim>\<open>text[start:index]\<close>.\<close>

fun split_lines :: "bool \<Rightarrow> string \<Rightarrow> string \<Rightarrow> string list \<times> string" where
  "split_lines final cur [] = (if final \<and> cur \<noteq> [] then ([cur], []) else ([], cur))"
| "split_lines final cur (c # cs) =
     (if c = CHR 0x0A then (case split_lines final [] cs of (ls, r) \<Rightarrow> (cur # ls, r))
      else if c = CHR 0x0D
      then (if cs = [] \<and> \<not> final then ([], cur @ [c])
            else case split_lines final [] (if cs \<noteq> [] \<and> hd cs = CHR 0x0A then tl cs else cs) of
                   (ls, r) \<Rightarrow> (cur # ls, r))
      else split_lines final (cur @ [c]) cs)"

text \<open>The lines the chunks complete, and what stays buffered.\<close>

fun chunk_lines :: "string \<Rightarrow> string list \<Rightarrow> string list \<times> string" where
  "chunk_lines buffered [] = ([], buffered)"
| "chunk_lines buffered (ch # chs) =
     (case split_lines False [] (buffered @ ch) of
        (ls, b) \<Rightarrow> (case chunk_lines b chs of (ls', b') \<Rightarrow> (ls @ ls', b')))"

definition stream_lines :: "string list \<Rightarrow> string list" where
  "stream_lines chunks = (case chunk_lines [] chunks of (ls, b) \<Rightarrow> ls @ fst (split_lines True [] b))"

subsection \<open>Events\<close>

datatype sse_item = Event string "json option" | Bad_event | Broken stream_break

definition sse_payload :: "parse_lib \<Rightarrow> string \<Rightarrow> string list \<Rightarrow> sse_item" where
  "sse_payload lib name data_lines =
     (let raw = str_join newline data_lines
      in if raw = ''[DONE]'' then Event name None
         else case pl_loads lib raw of
                Some (JObj kvs) \<Rightarrow> Event name (Some (JObj kvs))
              | _ \<Rightarrow> Bad_event)"

fun sse_events :: "parse_lib \<Rightarrow> bool \<Rightarrow> string \<Rightarrow> string list \<Rightarrow> string list \<Rightarrow> sse_item list" where
  "sse_events lib final name data_lines [] =
     (if final \<and> data_lines \<noteq> [] then [sse_payload lib name data_lines] else [])"
| "sse_events lib final name data_lines (line # rest) =
     (if line = []
      then (if data_lines = [] then sse_events lib final name [] rest
            else sse_payload lib name data_lines # sse_events lib final [] [] rest)
      else if starts_with '':'' line then sse_events lib final name data_lines rest
      else if starts_with ''event:'' line then sse_events lib final (strip (drop 6 line)) data_lines rest
      else if starts_with ''data:'' line then sse_events lib final name (data_lines @ [strip (drop 5 line)]) rest
      else sse_events lib final name data_lines rest)"

definition stream_items :: "parse_lib \<Rightarrow> string list \<Rightarrow> stream_break option \<Rightarrow> sse_item list" where
  "stream_items lib chunks break =
     (case break of
        None \<Rightarrow> sse_events lib True [] [] (stream_lines chunks)
      | Some b \<Rightarrow> sse_events lib False [] [] (fst (chunk_lines [] chunks)) @ [Broken b])"

subsection \<open>Parsers that yield\<close>

text \<open>The deltas yielded, and the value, or \<open>None\<close> for an exception the decorator reports.\<close>

type_synonym 'a emits = "stream_delta list \<times> 'a option"

definition emit_bind :: "'a emits \<Rightarrow> ('a \<Rightarrow> 'b emits) \<Rightarrow> 'b emits" where
  "emit_bind m f =
     (case m of
        (ds, None) \<Rightarrow> (ds, None)
      | (ds, Some x) \<Rightarrow> (case f x of (es, r) \<Rightarrow> (ds @ es, r)))"

definition quiet_value :: "'a option \<Rightarrow> 'a emits" where
  "quiet_value v = ([], v)"

definition yield_delta :: "stream_delta option \<Rightarrow> unit emits" where
  "yield_delta d = (case d of None \<Rightarrow> ([], None) | Some x \<Rightarrow> ([x], Some ()))"

fun emit_each :: "('s \<Rightarrow> json \<Rightarrow> 's emits) \<Rightarrow> 's \<Rightarrow> json list \<Rightarrow> 's emits" where
  "emit_each f st [] = ([], Some st)"
| "emit_each f st (v # vs) = emit_bind (f st v) (\<lambda>st'. emit_each f st' vs)"

text \<open>\<^verbatim>\<open>int(v)\<close>, and the non-negative index of a delta.\<close>

definition digits_ok :: "string \<Rightarrow> bool" where
  "digits_ok s \<longleftrightarrow> s \<noteq> [] \<and> is_digit (hd s) \<and> is_digit (last s)
     \<and> list_all (\<lambda>c. is_digit c \<or> c = CHR ''_'') s \<and> \<not> contains ''__'' s"

definition digits_value :: "string \<Rightarrow> int" where
  "digits_value s = foldl (\<lambda>n c. 10 * n + (of_char c - 48)) 0 (filter is_digit s)"

definition int_text :: "string \<Rightarrow> int option" where
  "int_text s0 =
     (let s = strip s0;
          (sign, ds) = (if s \<noteq> [] \<and> hd s = CHR ''-'' then (-1, tl s)
            else if s \<noteq> [] \<and> hd s = CHR ''+'' then (1, tl s) else (1, s))
      in if digits_ok ds then Some (sign * digits_value ds) else None)"

definition python_int :: "json \<Rightarrow> int option" where
  "python_int v =
     (case v of
        JInt i \<Rightarrow> Some i | JBool b \<Rightarrow> Some (if b then 1 else 0)
      | JFloat q \<Rightarrow> Some (if 0 \<le> q then \<lfloor>q\<rfloor> else \<lceil>q\<rceil>)
      | JStr s \<Rightarrow> int_text s | _ \<Rightarrow> None)"

definition delta_index :: "json \<Rightarrow> nat option" where
  "delta_index v = (case python_int v of Some i \<Rightarrow> if 0 \<le> i then Some (nat i) else None | None \<Rightarrow> None)"

definition tool_delta :: "json \<Rightarrow> json \<Rightarrow> json \<Rightarrow> json \<Rightarrow> json \<Rightarrow> stream_delta option" where
  "tool_delta idx i name fragment sig = do {
     k \<leftarrow> delta_index idx; i' \<leftarrow> as_str i; n' \<leftarrow> as_str name; f' \<leftarrow> as_str fragment; s' \<leftarrow> as_str sig;
     Some (ToolCallDelta k i' n' f' s') }"

datatype stream_end = Ended | Failed gateway_error

definition bad_stream :: "string \<Rightarrow> stream_end" where
  "bad_stream provider =
     Failed (protocol_error (''Malformed '' @ provider @ '' stream event'') ''stream event'')"

definition unfinished :: "string \<Rightarrow> stream_end" where
  "unfinished provider =
     Failed (protocol_error (provider @ '' stream ended before its terminal frame'') ''stream.terminal'')"

text \<open>How \<^verbatim>\<open>_yield_stream_response\<close> reports a stream that breaks: only a misuse of the stream is
  an \<^verbatim>\<open>httpx.StreamError\<close>; a lost connection is an \<^verbatim>\<open>httpx.HTTPError\<close>.\<close>

fun broken_stream :: "string \<Rightarrow> string \<Rightarrow> stream_break \<Rightarrow> stream_end" where
  "broken_stream provider url Undecodable = bad_stream provider"
| "broken_stream provider url Connection_lost =
     Failed (Provider_err (''Failed to close '' @ provider @ '' stream response''))"
| "broken_stream provider url Stream_misused = Failed (Provider_err (''Stream interrupted calling '' @ url))"

text \<open>The loop over the events: \<open>chunk\<close> handles the data of one event and says whether to go on,
  \<open>finish\<close> is what follows the loop.\<close>

fun consume ::
  "('s \<Rightarrow> string \<Rightarrow> json option \<Rightarrow> ('s \<times> bool) emits) \<Rightarrow> ('s \<Rightarrow> stream_delta list \<times> stream_end)
     \<Rightarrow> string \<Rightarrow> string \<Rightarrow> 's \<Rightarrow> sse_item list \<Rightarrow> stream_delta list \<times> stream_end" where
  "consume chunk finish provider url st [] = finish st"
| "consume chunk finish provider url st (Bad_event # rest) = ([], bad_stream provider)"
| "consume chunk finish provider url st (Broken b # rest) = ([], broken_stream provider url b)"
| "consume chunk finish provider url st (Event name data # rest) =
     (case chunk st name data of
        (ds, None) \<Rightarrow> (ds, bad_stream provider)
      | (ds, Some (st', go)) \<Rightarrow>
          (case (if go then consume chunk finish provider url st' rest else finish st') of
             (es, e) \<Rightarrow> (ds @ es, e)))"

subsection \<open>OpenAI\<close>

record openai_state =
  os_names :: "nat \<rightharpoonup> string"
  os_finish :: "finish_reason option"
  os_terminal :: bool

definition openai_call_delta :: "(nat \<rightharpoonup> string) \<Rightarrow> json \<Rightarrow> (nat \<rightharpoonup> string) emits" where
  "openai_call_delta names tc =
     (let d = do {
            i \<leftarrow> get_or tc ''index'' (JInt 0); idx \<leftarrow> python_int i;
            fn0 \<leftarrow> get_or tc ''function'' JNull;
            let fn = or_else fn0 (JObj []);
            given \<leftarrow> get_or fn ''name'' JNull;
            let name = or_else given (JStr (if 0 \<le> idx then dict_get names (nat idx) [] else []));
            i' \<leftarrow> get_or tc ''id'' JNull;
            fragment \<leftarrow> get_or fn ''arguments'' JNull;
            tool_delta (JInt idx) (or_else i' (JStr [])) name (or_else fragment (JStr [])) (JStr []) }
      in case d of
           Some (ToolCallDelta k i n f s) \<Rightarrow>
             ([ToolCallDelta k i n f s], Some (if n = [] then names else names(k \<mapsto> n)))
         | _ \<Rightarrow> ([], None))"

definition openai_usage_delta :: "parse_lib \<Rightarrow> json \<Rightarrow> unit emits" where
  "openai_usage_delta lib raw =
     (if is_dict raw
      then emit_bind (quiet_value (do { p \<leftarrow> get_or raw ''prompt_tokens'' JNull;
              c \<leftarrow> get_or raw ''completion_tokens'' JNull; Some (\<not> falsy p \<or> \<not> falsy c) }))
        (\<lambda>some. if some then yield_delta (map_option UsageDelta (openai_usage lib raw)) else ([], Some ()))
      else ([], Some ()))"

definition openai_chunk ::
  "parse_lib \<Rightarrow> openai_state \<Rightarrow> string \<Rightarrow> json option \<Rightarrow> (openai_state \<times> bool) emits" where
  "openai_chunk lib st name data =
     (case data of
        None \<Rightarrow> ([], Some (st\<lparr>os_terminal := True\<rparr>, False))
      | Some d \<Rightarrow>
          emit_bind (quiet_value (do {
              choices \<leftarrow> get_or d ''choices'' JNull;
              choice \<leftarrow> (if falsy choices then Some (JObj []) else first_of choices);
              delta0 \<leftarrow> get_or choice ''delta'' JNull;
              let delta = or_else delta0 (JObj []);
              t \<leftarrow> get_or delta ''content'' JNull;
              Some (choice, delta, t) }))
            (\<lambda>(choice, delta, t).
               emit_bind (if falsy t then ([], Some ()) else yield_delta (map_option TextDelta (as_str t)))
                 (\<lambda>_. emit_bind (quiet_value (do {
                        tcs \<leftarrow> get_or delta ''tool_calls'' JNull; items_of (or_else tcs (JArr [])) }))
                    (\<lambda>raws. emit_bind (emit_each openai_call_delta (os_names st) raws)
                       (\<lambda>names. emit_bind (quiet_value (do {
                              fr \<leftarrow> get_or choice ''finish_reason'' JNull;
                              if fr = JNull then Some (os_finish st)
                              else map_option Some (lookup_in openai_finish fr END_TURN) }))
                          (\<lambda>finish. emit_bind (emit_bind (quiet_value (get_or d ''usage'' JNull)) (openai_usage_delta lib))
                             (\<lambda>_. ([], Some (st\<lparr>os_names := names, os_finish := finish\<rparr>, True)))))))))"

definition finish_delta :: "finish_reason option \<Rightarrow> stream_delta" where
  "finish_delta fr = FinishDelta (case fr of None \<Rightarrow> END_TURN | Some r \<Rightarrow> r)"

definition openai_stream :: "parse_lib \<Rightarrow> string \<Rightarrow> bool \<Rightarrow> sse_item list \<Rightarrow> stream_delta list \<times> stream_end" where
  "openai_stream lib url strict = consume (openai_chunk lib)
     (\<lambda>st. if strict \<and> \<not> os_terminal st then ([], unfinished ''openai'')
           else ([finish_delta (os_finish st)], Ended))
     ''openai'' url \<lparr>os_names = Map.empty, os_finish = None, os_terminal = False\<rparr>"

subsection \<open>Anthropic\<close>

record anthropic_state =
  an_finish :: "finish_reason option"
  an_input :: "token_usage option"
  an_output :: json
  an_terminal :: bool

definition anthropic_event ::
  "parse_lib \<Rightarrow> anthropic_state \<Rightarrow> json \<Rightarrow> json \<Rightarrow> anthropic_state emits" where
  "anthropic_event lib st etype d =
     (if etype = JStr ''message_start'' then quiet_value (do {
        message \<leftarrow> get_or d ''message'' JNull;
        u0 \<leftarrow> get_or (or_else message (JObj [])) ''usage'' JNull;
        if message \<noteq> JNull \<and> \<not> is_dict message then None
        else if falsy u0 then Some st
        else do {
          i \<leftarrow> get_or u0 ''input_tokens'' (JInt 0);
          cc \<leftarrow> get_or u0 ''cache_creation_input_tokens'' (JInt 0);
          cr \<leftarrow> get_or u0 ''cache_read_input_tokens'' (JInt 0);
          u \<leftarrow> make_usage lib i (JInt 0) cc cr;
          Some (st\<lparr>an_input := Some u\<rparr>) } })
      else if etype = JStr ''content_block_start'' then
        emit_bind (quiet_value (do { b0 \<leftarrow> get_or d ''content_block'' JNull;
            let b = or_else b0 (JObj []); t \<leftarrow> get_or b ''type'' JNull; Some (b, t) }))
          (\<lambda>(b, t). if t \<noteq> JStr ''tool_use'' then ([], Some st)
             else emit_bind (yield_delta (do {
                 idx \<leftarrow> get_or d ''index'' (JInt 0); i \<leftarrow> get_or b ''id'' (JStr []); n \<leftarrow> get_or b ''name'' (JStr []);
                 tool_delta idx i n (JStr []) (JStr []) })) (\<lambda>_. ([], Some st)))
      else if etype = JStr ''content_block_delta'' then
        emit_bind (quiet_value (do { x0 \<leftarrow> get_or d ''delta'' JNull;
            let x = or_else x0 (JObj []); t \<leftarrow> get_or x ''type'' JNull; Some (x, t) }))
          (\<lambda>(x, t). if t = JStr ''text_delta''
             then emit_bind (yield_delta (do { s \<leftarrow> get_or x ''text'' (JStr []); s' \<leftarrow> as_str s; Some (TextDelta s') }))
               (\<lambda>_. ([], Some st))
             else if t = JStr ''input_json_delta''
             then emit_bind (yield_delta (do { idx \<leftarrow> get_or d ''index'' (JInt 0);
                 f \<leftarrow> get_or x ''partial_json'' (JStr []); tool_delta idx (JStr []) (JStr []) f (JStr []) }))
               (\<lambda>_. ([], Some st))
             else ([], Some st))
      else if etype = JStr ''message_delta'' then quiet_value (do {
        x0 \<leftarrow> get_or d ''delta'' JNull;
        stop \<leftarrow> get_or (or_else x0 (JObj [])) ''stop_reason'' JNull;
        finish \<leftarrow> (if stop = JNull then Some (an_finish st)
          else map_option Some (lookup_in anthropic_finish stop END_TURN));
        u0 \<leftarrow> get_or d ''usage'' JNull;
        n \<leftarrow> get_or (or_else u0 (JObj [])) ''output_tokens'' (JInt 0);
        output \<leftarrow> max_count (an_output st) n;
        Some (st\<lparr>an_finish := finish, an_output := output\<rparr>) })
      else ([], Some st))"

definition anthropic_chunk ::
  "parse_lib \<Rightarrow> anthropic_state \<Rightarrow> string \<Rightarrow> json option \<Rightarrow> (anthropic_state \<times> bool) emits" where
  "anthropic_chunk lib st name data =
     (let d = (case data of None \<Rightarrow> JObj [] | Some v \<Rightarrow> v)
      in emit_bind (quiet_value (get_or d ''type'' JNull))
        (\<lambda>t. let etype = or_else t (JStr name)
             in if etype = JStr ''message_stop'' then ([], Some (st\<lparr>an_terminal := True\<rparr>, False))
                else emit_bind (anthropic_event lib st etype d) (\<lambda>st'. ([], Some (st', True)))))"

definition anthropic_end :: "parse_lib \<Rightarrow> bool \<Rightarrow> anthropic_state \<Rightarrow> stream_delta list \<times> stream_end" where
  "anthropic_end lib strict st =
     (if strict \<and> \<not> an_terminal st then ([], unfinished ''anthropic'')
      else case as_count lib (an_output st) of
        None \<Rightarrow> ([], bad_stream ''anthropic'')
      | Some n \<Rightarrow>
          ([UsageDelta ((case an_input st of None \<Rightarrow> zero_token_usage | Some u \<Rightarrow> u)\<lparr>tu_output := n\<rparr>),
            finish_delta (an_finish st)], Ended))"

definition anthropic_stream :: "parse_lib \<Rightarrow> string \<Rightarrow> bool \<Rightarrow> sse_item list \<Rightarrow> stream_delta list \<times> stream_end" where
  "anthropic_stream lib url strict = consume (anthropic_chunk lib) (anthropic_end lib strict) ''anthropic'' url
     \<lparr>an_finish = None, an_input = None, an_output = JInt 0, an_terminal = False\<rparr>"

subsection \<open>Gemini\<close>

record gemini_state_s =
  gs_finish :: "finish_reason option"
  gs_usage :: token_usage
  gs_tools :: nat
  gs_terminal :: bool

definition gemini_part_deltas :: "parse_lib \<Rightarrow> nat \<Rightarrow> json \<Rightarrow> nat emits" where
  "gemini_part_deltas lib n p =
     emit_bind (quiet_value (gemini_text p))
       (\<lambda>t. emit_bind (case t of None \<Rightarrow> ([], Some ()) | Some v \<Rightarrow> yield_delta (map_option TextDelta (as_str v)))
          (\<lambda>_. emit_bind (quiet_value (get_or p ''functionCall'' JNull))
             (\<lambda>call. if falsy call then ([], Some n)
                else emit_bind (yield_delta (do {
                    i \<leftarrow> get_or call ''id'' JNull; name \<leftarrow> get_or call ''name'' (JStr []);
                    args \<leftarrow> get_or call ''args'' JNull; sig \<leftarrow> get_or p ''thoughtSignature'' JNull;
                    tool_delta (JInt (int n)) (or_else i (JStr (pl_uuid lib n))) name
                      (JStr (pl_dumps lib (or_else args (JObj [])))) (or_else sig (JStr [])) }))
                  (\<lambda>_. ([], Some (Suc n))))))"

definition gemini_chunk ::
  "parse_lib \<Rightarrow> gemini_state_s \<Rightarrow> string \<Rightarrow> json option \<Rightarrow> (gemini_state_s \<times> bool) emits" where
  "gemini_chunk lib st name data =
     (case data of
        None \<Rightarrow> ([], Some (st, False))
      | Some d \<Rightarrow>
          emit_bind (quiet_value (do {
              candidates \<leftarrow> get_or d ''candidates'' JNull;
              candidate \<leftarrow> (if falsy candidates then Some (JObj []) else first_of candidates);
              content \<leftarrow> get_or candidate ''content'' JNull;
              raws \<leftarrow> gemini_parts_of content;
              Some (candidate, raws) }))
            (\<lambda>(candidate, raws). emit_bind (emit_each (gemini_part_deltas lib) (gs_tools st) raws)
               (\<lambda>n. quiet_value (do {
                  fr \<leftarrow> get_or candidate ''finishReason'' JNull;
                  finish \<leftarrow> (if fr = JNull then Some (gs_finish st)
                    else map_option Some (lookup_in gemini_finish fr END_TURN));
                  raw \<leftarrow> get_or d ''usageMetadata'' JNull;
                  usage \<leftarrow> (if is_dict raw \<and> \<not> falsy raw then gemini_usage lib raw else Some (gs_usage st));
                  let terminal = (gs_terminal st \<or> fr \<noteq> JNull);
                  Some (st\<lparr>gs_finish := finish, gs_usage := usage, gs_tools := n, gs_terminal := terminal\<rparr>,
                    \<not> terminal) }))))"

definition gemini_stream :: "parse_lib \<Rightarrow> string \<Rightarrow> bool \<Rightarrow> sse_item list \<Rightarrow> stream_delta list \<times> stream_end" where
  "gemini_stream lib url strict = consume (gemini_chunk lib)
     (\<lambda>st. if strict \<and> \<not> gs_terminal st then ([], unfinished ''gemini'')
           else ([UsageDelta (gs_usage st), finish_delta (gs_finish st)], Ended))
     ''gemini'' url \<lparr>gs_finish = None, gs_usage = zero_token_usage, gs_tools = 0, gs_terminal = False\<rparr>"

subsection \<open>The assembler\<close>

record tool_buffer =
  tb_id :: string
  tb_name :: string
  tb_args :: string
  tb_signature :: string

record assembler =
  sa_text :: string
  sa_tools :: "(nat \<times> tool_buffer) list"
  sa_usage :: token_usage
  sa_finish :: "finish_reason option"

definition new_assembler :: assembler where
  "new_assembler = \<lparr>sa_text = [], sa_tools = [], sa_usage = zero_token_usage, sa_finish = None\<rparr>"

definition empty_buffer :: tool_buffer where
  "empty_buffer = \<lparr>tb_id = [], tb_name = [], tb_args = [], tb_signature = []\<rparr>"

definition buffer_of :: "(nat \<times> tool_buffer) list \<Rightarrow> nat \<Rightarrow> tool_buffer" where
  "buffer_of bs k = (case map_of bs k of None \<Rightarrow> empty_buffer | Some b \<Rightarrow> b)"

definition or_keep :: "string \<Rightarrow> string \<Rightarrow> string" where
  "or_keep new old = (if new = [] then old else new)"

fun assembler_update :: "assembler \<Rightarrow> stream_delta \<Rightarrow> assembler" where
  "assembler_update a (TextDelta t) = a\<lparr>sa_text := sa_text a @ t\<rparr>"
| "assembler_update a (ToolCallDelta k i n f s) =
     (let b = buffer_of (sa_tools a) k
      in a\<lparr>sa_tools := dict_set (sa_tools a) k
           \<lparr>tb_id = or_keep i (tb_id b), tb_name = or_keep n (tb_name b), tb_args = tb_args b @ f,
            tb_signature = or_keep s (tb_signature b)\<rparr>\<rparr>)"
| "assembler_update a (UsageDelta u) = a\<lparr>sa_usage := u\<rparr>"
| "assembler_update a (FinishDelta r) = a\<lparr>sa_finish := Some r\<rparr>"

definition safe_json_object :: "parse_lib \<Rightarrow> string \<Rightarrow> (string \<times> json) list" where
  "safe_json_object lib raw =
     (if raw = [] then [] else case pl_loads lib raw of Some (JObj kvs) \<Rightarrow> kvs | _ \<Rightarrow> [])"

text \<open>A call without a name fails the validation of \<^verbatim>\<open>ToolCall\<close>, which nothing catches here.\<close>

definition build_call :: "parse_lib \<Rightarrow> nat \<times> tool_buffer \<Rightarrow> tool_call option" where
  "build_call lib kb =
     (case kb of (k, b) \<Rightarrow>
        if tb_name b = [] then None
        else Some \<lparr>tc_id = or_keep (tb_id b) (pl_uuid lib k), tc_name = tb_name b,
          tc_arguments = safe_json_object lib (tb_args b), tc_signature = tb_signature b\<rparr>)"

fun all_some :: "'a option list \<Rightarrow> 'a list option" where
  "all_some [] = Some []"
| "all_some (None # xs) = None"
| "all_some (Some x # xs) = map_option (Cons x) (all_some xs)"

definition assembler_build :: "parse_lib \<Rightarrow> string \<Rightarrow> string \<Rightarrow> assembler \<Rightarrow> gateway_error + model_response" where
  "assembler_build lib provider model a =
     (case all_some (map (build_call lib) (sort_key fst (sa_tools a))) of
        None \<Rightarrow> Inl (Untyped ''ToolCall.name: String should have at least 1 character'')
      | Some tcs \<Rightarrow>
          Inr \<lparr>mres_text = sa_text a, mres_tool_calls = tcs,
            mres_finish = (case sa_finish a of None \<Rightarrow> END_TURN | Some r \<Rightarrow> r), mres_usage = sa_usage a,
            mres_provider = provider, mres_model = model, mres_artifact = None\<rparr>)"

definition assemble_streamed_response ::
  "parse_lib \<Rightarrow> string \<Rightarrow> string \<Rightarrow> stream_delta list \<times> stream_end \<Rightarrow> gateway_error + model_response" where
  "assemble_streamed_response lib provider model r =
     (case r of
        (ds, Failed e) \<Rightarrow> Inl e
      | (ds, Ended) \<Rightarrow> assembler_build lib provider model (foldl assembler_update new_assembler ds))"

end
