(* ===== verification/Gateway.thy ===== *)
theory Gateway
  imports Provider_Streams
begin

section \<open>The model gateway (adapters/providers/gateway.py)\<close>

text \<open>
  \<^verbatim>\<open>ModelGateway\<close>: from a request to a normalized response, complete or streamed.  The network
  is a parameter that answers each attempt of a POST; the artifact store returns a digest or
  nothing; the limiter is the one of \<open>Provider_Http\<close>.
\<close>

record gateway_env =
  ge_config :: northstack_config
  ge_getenv :: "string \<Rightarrow> string option"
  ge_lib :: parse_lib
  ge_urls :: url_lib
  ge_base :: "model_profile \<Rightarrow> string"
  ge_redacted :: "model_profile \<Rightarrow> string"
  ge_post :: "string \<Rightarrow> (string \<times> json) list \<Rightarrow> (string \<times> string) list \<Rightarrow> nat \<Rightarrow> string http_reply"
  ge_open :: "string \<Rightarrow> (string \<times> json) list \<Rightarrow> (string \<times> string) list \<Rightarrow> nat \<Rightarrow> streamed_body http_reply"
  ge_store :: "model_response \<Rightarrow> digest option"

definition get_profile :: "gateway_env \<Rightarrow> string \<Rightarrow> gateway_error + model_profile" where
  "get_profile env name =
     (case config_profile (ge_config env) name of
        None \<Rightarrow> Inl (Configuration_err (''Profile not found: '' @ name))
      | Some p \<Rightarrow> Inr p)"

text \<open>The shared limiter of a profile, made on first use.\<close>

definition get_limiter ::
  "gateway_env \<Rightarrow> (string \<rightharpoonup> limiter) \<Rightarrow> string \<Rightarrow> gateway_error + limiter \<times> (string \<rightharpoonup> limiter)" where
  "get_limiter env pool name =
     (case pool name of
        Some l \<Rightarrow> Inr (l, pool)
      | None \<Rightarrow>
          (case get_profile env name of
             Inl e \<Rightarrow> Inl e
           | Inr p \<Rightarrow>
               (let l = new_limiter (max_concurrency p) (requests_per_minute p)
                in Inr (l, pool(name \<mapsto> l)))))"

subsection \<open>The adapters\<close>

definition endpoint :: "gateway_env \<Rightarrow> model_profile \<Rightarrow> bool \<Rightarrow> gateway_error + string" where
  "endpoint env p stream =
     (case (case protocol p of
        OPENAI_CHAT \<Rightarrow> Inr (openai_endpoint (ge_base env p))
      | ANTHROPIC_MESSAGES \<Rightarrow> Inr (anthropic_endpoint (ge_base env p))
      | GEMINI_GENERATE_CONTENT \<Rightarrow> gemini_endpoint (ge_urls env) (ge_base env p) (model_id p) stream) of
        Inl e \<Rightarrow> Inl e
      | Inr url \<Rightarrow> with_query (ge_urls env) url (extra_query p))"

definition request_body :: "gateway_env \<Rightarrow> model_profile \<Rightarrow> model_request \<Rightarrow> (string \<times> json) list" where
  "request_body env p request =
     (case protocol p of
        OPENAI_CHAT \<Rightarrow> openai_body (pl_dumps (ge_lib env)) request p
      | ANTHROPIC_MESSAGES \<Rightarrow> anthropic_body request p
      | GEMINI_GENERATE_CONTENT \<Rightarrow> gemini_body request p)"

definition stream_options :: "model_profile \<Rightarrow> (string \<times> json) list" where
  "stream_options p =
     (case protocol p of
        OPENAI_CHAT \<Rightarrow> [(''stream'', JBool True), (''stream_options'', JObj [(''include_usage'', JBool True)])]
      | ANTHROPIC_MESSAGES \<Rightarrow> [(''stream'', JBool True)]
      | GEMINI_GENERATE_CONTENT \<Rightarrow> [])"

definition parse_reply :: "parse_lib \<Rightarrow> model_profile \<Rightarrow> json \<Rightarrow> gateway_error + model_response" where
  "parse_reply lib p data =
     (case protocol p of
        OPENAI_CHAT \<Rightarrow> openai_parse lib data (model_id p)
      | ANTHROPIC_MESSAGES \<Rightarrow> anthropic_parse lib data (model_id p)
      | GEMINI_GENERATE_CONTENT \<Rightarrow> gemini_parse lib data (model_id p))"

definition parse_stream :: "parse_lib \<Rightarrow> model_profile \<Rightarrow> string \<Rightarrow> sse_item list \<Rightarrow> stream_delta list \<times> stream_end" where
  "parse_stream lib p url items =
     (let strict = strict_stream_completion p
      in case protocol p of
        OPENAI_CHAT \<Rightarrow> openai_stream lib url strict items
      | ANTHROPIC_MESSAGES \<Rightarrow> anthropic_stream lib url strict items
      | GEMINI_GENERATE_CONTENT \<Rightarrow> gemini_stream lib url strict items)"

definition adapter_complete ::
  "gateway_env \<Rightarrow> model_profile \<Rightarrow> string option \<Rightarrow> model_request \<Rightarrow> gateway_error + model_response" where
  "adapter_complete env p key request =
     (case endpoint env p False of
        Inl e \<Rightarrow> Inl e
      | Inr url \<Rightarrow>
          (case execute_request (pl_loads (ge_lib env))
                  (ge_post env url (request_body env p request) (build_headers p key)) (ge_redacted env p)
                  (transport_retry_backoff_seconds p) (transport_retries p) of
             Inl e \<Rightarrow> Inl e
           | Inr data \<Rightarrow> parse_reply (ge_lib env) p data))"

text \<open>The deltas of a stream, and how it stops.\<close>

definition adapter_stream ::
  "gateway_env \<Rightarrow> model_profile \<Rightarrow> string option \<Rightarrow> model_request \<Rightarrow> stream_delta list \<times> stream_end" where
  "adapter_stream env p key request =
     (case endpoint env p True of
        Inl e \<Rightarrow> ([], Failed e)
      | Inr url \<Rightarrow>
          (case open_stream_with_retry (pl_loads (ge_lib env))
                  (ge_open env url (dict_merge (request_body env p request) (stream_options p)) (build_headers p key))
                  (ge_redacted env p) p of
             Inl e \<Rightarrow> ([], Failed e)
           | Inr body \<Rightarrow>
               parse_stream (ge_lib env) p (ge_redacted env p)
                 (stream_items (ge_lib env) (sb_chunks body) (sb_break body))))"

subsection \<open>The gateway\<close>

text \<open>The key of the profile, resolved when the call is made.\<close>

definition resolved_key :: "gateway_env \<Rightarrow> model_profile \<Rightarrow> gateway_error + string option" where
  "resolved_key env p =
     (if api_key_env p = None then Inr None
      else case require_api_key (ge_getenv env) p of Inl e \<Rightarrow> Inl e | Inr k \<Rightarrow> Inr (Some k))"

definition stored :: "gateway_env \<Rightarrow> model_response \<Rightarrow> model_response" where
  "stored env r = (case ge_store env r of None \<Rightarrow> r | Some d \<Rightarrow> r\<lparr>mres_artifact := Some d\<rparr>)"

definition complete_unlimited :: "gateway_env \<Rightarrow> model_request \<Rightarrow> gateway_error + model_response" where
  "complete_unlimited env request =
     (case get_profile env (mr_profile request) of
        Inl e \<Rightarrow> Inl e
      | Inr p \<Rightarrow>
          (case resolved_key env p of
             Inl e \<Rightarrow> Inl e
           | Inr key \<Rightarrow> map_sum id (stored env) (adapter_complete env p key request)))"

text \<open>\<^verbatim>\<open>complete\<close> without the waiting of the limiter.\<close>

definition gateway_complete ::
  "gateway_env \<Rightarrow> (string \<rightharpoonup> limiter) \<Rightarrow> model_request \<Rightarrow> (gateway_error + model_response) \<times> (string \<rightharpoonup> limiter)" where
  "gateway_complete env pool request =
     (case get_limiter env pool (mr_profile request) of
        Inl e \<Rightarrow> (Inl e, pool)
      | Inr (l, pool') \<Rightarrow> (complete_unlimited env request, pool'))"

definition supports_streaming :: "gateway_env \<Rightarrow> string \<Rightarrow> gateway_error + bool" where
  "supports_streaming env name = map_sum id (\<lambda>p. STREAMING \<in> capabilities p) (get_profile env name)"

definition complete_stream ::
  "gateway_env \<Rightarrow> (string \<rightharpoonup> limiter) \<Rightarrow> model_request \<Rightarrow> (gateway_error + model_response) \<times> (string \<rightharpoonup> limiter)" where
  "complete_stream env pool request =
     (case get_profile env (mr_profile request) of
        Inl e \<Rightarrow> (Inl e, pool)
      | Inr p \<Rightarrow>
          if STREAMING \<notin> capabilities p then gateway_complete env pool request
          else case resolved_key env p of
            Inl e \<Rightarrow> (Inl e, pool)
          | Inr key \<Rightarrow>
              (case get_limiter env pool (mr_profile request) of
                 Inl e \<Rightarrow> (Inl e, pool)
               | Inr (l, pool') \<Rightarrow>
                   (map_sum id (stored env)
                     (assemble_streamed_response (ge_lib env) (provider_label (protocol p)) (model_id p)
                       (adapter_stream env p key request)), pool')))"

text \<open>\<^verbatim>\<open>stream_complete\<close>: the deltas its caller sees, and how they stop.  A profile that does not stream
  gives the usage and the finish of a complete response.\<close>

definition stream_complete ::
  "gateway_env \<Rightarrow> (string \<rightharpoonup> limiter) \<Rightarrow> model_request \<Rightarrow> (stream_delta list \<times> stream_end) \<times> (string \<rightharpoonup> limiter)" where
  "stream_complete env pool request =
     (case get_profile env (mr_profile request) of
        Inl e \<Rightarrow> (([], Failed e), pool)
      | Inr p \<Rightarrow>
          if STREAMING \<notin> capabilities p
          then (case gateway_complete env pool request of
                  (Inl e, pool') \<Rightarrow> (([], Failed e), pool')
                | (Inr r, pool') \<Rightarrow> (([UsageDelta (mres_usage r), FinishDelta (mres_finish r)], Ended), pool'))
          else case resolved_key env p of
            Inl e \<Rightarrow> (([], Failed e), pool)
          | Inr key \<Rightarrow>
              (case get_limiter env pool (mr_profile request) of
                 Inl e \<Rightarrow> (([], Failed e), pool)
               | Inr (l, pool') \<Rightarrow>
                   (case adapter_stream env p key request of
                      (ds, Failed e) \<Rightarrow> ((ds, Failed e), pool')
                    | (ds, Ended) \<Rightarrow>
                        (case assemble_streamed_response (ge_lib env) (provider_label (protocol p)) (model_id p) (ds, Ended) of
                           Inl e \<Rightarrow> ((ds, Failed e), pool')
                         | Inr r \<Rightarrow> ((ds, Ended), pool')))))"

end
