(* ===== verification/Stream_Properties.thy ===== *)
theory Stream_Properties
  imports Gateway Workspace_Edit
begin

section \<open>What streaming guarantees\<close>

text \<open>
  The lines, and so the events and the response, do not depend on how the transport cuts the
  stream; the assembler computes the response its deltas denote; and a streamed Gemini response is
  the complete one, up to the finish reason and the name of the model.
\<close>

subsection \<open>Chunks\<close>

definition no_breaks :: "string \<Rightarrow> bool" where
  "no_breaks s \<longleftrightarrow> list_all (\<lambda>c. c \<noteq> CHR 0x0A \<and> c \<noteq> CHR 0x0D) s"

lemma split_lines_prefix: "no_breaks cur \<Longrightarrow> split_lines final p (cur @ s) = split_lines final (p @ cur) s"
  by (induction cur arbitrary: p) (auto simp: no_breaks_def)

lemma split_lines_append:
  "no_breaks cur \<Longrightarrow> split_lines final cur (a @ b) =
     (case split_lines False cur a of (ls, r) \<Rightarrow>
        (case split_lines final [] (r @ b) of (ls', r') \<Rightarrow> (ls @ ls', r')))"
proof (induction False cur a rule: split_lines.induct)
  case (1 cur)
  then show ?case using split_lines_prefix [of cur final "[]" b] by (simp split: prod.split)
next
  case (2 cur c cs)
  have nil: "no_breaks []" by (simp add: no_breaks_def)
  consider (lf) "c = CHR 0x0A" | (last) "c = CHR 0x0D" "cs = []" | (cr) "c = CHR 0x0D" "cs \<noteq> []"
    | (other) "c \<noteq> CHR 0x0A" "c \<noteq> CHR 0x0D" by blast
  then show ?case
  proof cases
    case lf
    with 2(1) nil show ?thesis by (auto split: prod.split)
  next
    case last
    then show ?thesis using split_lines_prefix [OF 2(4), of final "[]" "c # b"] by (simp split: prod.split)
  next
    case cr
    let ?t = "if cs \<noteq> [] \<and> hd cs = CHR 0x0A then tl cs else cs"
    have "(if cs @ b \<noteq> [] \<and> hd (cs @ b) = CHR 0x0A then tl (cs @ b) else cs @ b) = ?t @ b"
      using cr(2) by simp
    with cr 2(2) nil show ?thesis by (auto split: prod.split)
  next
    case other
    with 2(4) have "no_breaks (cur @ [c])" by (simp add: no_breaks_def)
    with other 2(3) show ?thesis by simp
  qed
qed

lemma chunk_lines_spec:
  "split_lines final [] (buffered @ concat chunks) =
     (case chunk_lines buffered chunks of (ls, b) \<Rightarrow>
        (case split_lines final [] b of (ls', r) \<Rightarrow> (ls @ ls', r)))"
proof (induction chunks arbitrary: buffered)
  case (Cons ch chs)
  have nil: "no_breaks []" by (simp add: no_breaks_def)
  obtain ls b where s: "split_lines False [] (buffered @ ch) = (ls, b)" by fastforce
  have "split_lines final [] ((buffered @ ch) @ concat chs)
      = (case split_lines final [] (b @ concat chs) of (ls', r') \<Rightarrow> (ls @ ls', r'))"
    using split_lines_append [OF nil, of final "buffered @ ch" "concat chs"] s by simp
  with Cons [of b] s show ?case by (auto split: prod.split)
qed simp

text \<open>The lines of a whole text, after its line endings are made line feeds.\<close>

fun lf_lines :: "string \<Rightarrow> string \<Rightarrow> string list" where
  "lf_lines cur [] = (if cur = [] then [] else [cur])"
| "lf_lines cur (c # cs) = (if c = CHR 0x0A then cur # lf_lines [] cs else lf_lines (cur @ [c]) cs)"

lemma split_lines_final: "fst (split_lines True cur s) = lf_lines cur (universal_newlines s)"
  by (induction True cur s rule: split_lines.induct) (auto split: prod.splits)

lemma stream_lines_spec: "stream_lines chunks = lf_lines [] (universal_newlines (concat chunks))"
  using chunk_lines_spec [of True "[]" chunks]
  by (auto simp: stream_lines_def split_lines_final [symmetric] split: prod.split)

text \<open>How the transport cuts a stream does not matter.  The lines handed to the event parser are
  the lines of the whole text with CR, LF and CR LF as line ends, even when a chunk ends between a
  CR and its LF; so the deltas of a stream that ends properly are those of the same text in one
  piece.\<close>

theorem stream_chunking_irrelevant:
  "stream_lines chunks = lf_lines [] (universal_newlines (concat chunks))
   \<and> parse_stream lib p url (stream_items lib chunks None) = parse_stream lib p url (stream_items lib [concat chunks] None)"
  by (simp add: stream_items_def stream_lines_spec)

subsection \<open>The assembler\<close>

fun delta_text :: "stream_delta \<Rightarrow> string" where
  "delta_text (TextDelta t) = t"
| "delta_text d = []"

fun delta_key :: "stream_delta \<Rightarrow> nat option" where
  "delta_key (ToolCallDelta k i n f s) = Some k"
| "delta_key d = None"

definition tool_deltas :: "nat \<Rightarrow> stream_delta list \<Rightarrow> stream_delta list" where
  "tool_deltas k ds = filter (\<lambda>d. delta_key d = Some k) ds"

definition last_given :: "string list \<Rightarrow> string" where
  "last_given ss = foldl (\<lambda>kept s. if s = [] then kept else s) [] ss"

definition denoted_buffer :: "nat \<Rightarrow> stream_delta list \<Rightarrow> tool_buffer" where
  "denoted_buffer k ds =
     (let xs = tool_deltas k ds
      in \<lparr>tb_id = last_given (map tcd_id xs), tb_name = last_given (map tcd_name xs),
          tb_args = concat (map tcd_fragment xs), tb_signature = last_given (map tcd_signature xs)\<rparr>)"

definition delta_keys :: "stream_delta list \<Rightarrow> nat list" where
  "delta_keys ds = remdups (List.map_filter delta_key ds)"

lemma last_given_append: "last_given (ss @ [s]) = or_keep s (last_given ss)"
  by (simp add: last_given_def or_keep_def)

lemma delta_keys_iff: "k \<in> set (delta_keys ds) \<longleftrightarrow> tool_deltas k ds \<noteq> []"
  by (induction ds) (auto simp: delta_keys_def tool_deltas_def map_filter_simps split: option.splits)

lemma dict_set_keys: "fst ` set (dict_set kvs j v) = insert j (fst ` set kvs)"
  by (induction kvs j v rule: dict_set.induct) auto

lemma dict_set_distinct: "distinct (map fst kvs) \<Longrightarrow> distinct (map fst (dict_set kvs j v))"
  by (induction kvs j v rule: dict_set.induct) (auto simp: dict_set_keys)

lemma assembler_tools:
  "map_of (sa_tools (foldl assembler_update new_assembler ds)) k
     = (if k \<in> set (delta_keys ds) then Some (denoted_buffer k ds) else None)
   \<and> distinct (map fst (sa_tools (foldl assembler_update new_assembler ds)))"
proof (induction ds rule: rev_induct)
  case Nil
  show ?case by (simp add: new_assembler_def delta_keys_def map_filter_simps)
next
  case (snoc d ds)
  have keys: "set (delta_keys (ds @ [d])) = set (delta_keys ds) \<union> set_option (delta_key d)"
    by (auto simp: delta_keys_def List.map_filter_def)
  show ?case
  proof (cases d)
    case (ToolCallDelta j i n f s)
    have other: "denoted_buffer k (ds @ [d]) = denoted_buffer k ds" if "k \<noteq> j"
      using that by (simp add: ToolCallDelta denoted_buffer_def tool_deltas_def)
    have empty: "denoted_buffer j ds = empty_buffer" if "j \<notin> set (delta_keys ds)"
      using that by (simp add: delta_keys_iff denoted_buffer_def empty_buffer_def last_given_def)
    have same: "denoted_buffer j (ds @ [d]) =
      (let b = denoted_buffer j ds
       in \<lparr>tb_id = or_keep i (tb_id b), tb_name = or_keep n (tb_name b), tb_args = tb_args b @ f,
           tb_signature = or_keep s (tb_signature b)\<rparr>)"
      by (simp add: ToolCallDelta denoted_buffer_def tool_deltas_def last_given_append Let_def)
    show ?thesis
      using snoc keys other same empty
      by (auto simp: dict_set_distinct ToolCallDelta Let_def buffer_of_def split: option.splits if_splits)
  qed (use snoc keys in \<open>auto simp: denoted_buffer_def tool_deltas_def\<close>)
qed

lemma assembler_text: "sa_text (foldl assembler_update a ds) = sa_text a @ concat (map delta_text ds)"
proof (induction ds arbitrary: a)
  case (Cons d ds)
  then show ?case by (cases d) (simp_all add: Let_def)
qed simp

fun delta_usage :: "token_usage \<Rightarrow> stream_delta \<Rightarrow> token_usage" where
  "delta_usage u (UsageDelta v) = v"
| "delta_usage u d = u"

fun delta_finish :: "finish_reason \<Rightarrow> stream_delta \<Rightarrow> finish_reason" where
  "delta_finish r (FinishDelta q) = q"
| "delta_finish r d = r"

lemma assembler_usage: "sa_usage (foldl assembler_update a ds) = foldl delta_usage (sa_usage a) ds"
proof (induction ds arbitrary: a)
  case (Cons d ds)
  then show ?case by (cases d) (simp_all add: Let_def)
qed simp

lemma assembler_finish:
  "(case sa_finish (foldl assembler_update a ds) of None \<Rightarrow> END_TURN | Some r \<Rightarrow> r)
     = foldl delta_finish (case sa_finish a of None \<Rightarrow> END_TURN | Some r \<Rightarrow> r) ds"
proof (induction ds arbitrary: a)
  case (Cons d ds)
  then show ?case by (cases d) (simp_all add: Let_def)
qed simp

lemma assembler_sorted:
  "sort_key fst (sa_tools (foldl assembler_update new_assembler ds))
     = map (\<lambda>k. (k, denoted_buffer k ds)) (sort (delta_keys ds))"
proof -
  let ?xs = "sa_tools (foldl assembler_update new_assembler ds)"
  have m: "map_of ?xs k = (if k \<in> set (delta_keys ds) then Some (denoted_buffer k ds) else None)" for k
    using assembler_tools by blast
  have dist: "distinct (map fst ?xs)" using assembler_tools by blast
  have entry: "b = denoted_buffer k ds" if "(k, b) \<in> set ?xs" for k b
    using map_of_is_SomeI [OF dist that] m [of k] by (simp split: if_splits)
  have "fst ` set ?xs = set (delta_keys ds)"
    using m by (simp add: dom_map_of_conv_image_fst [symmetric] dom_def)
  then have "map fst (sort_key fst ?xs) = sort (delta_keys ds)"
    using dist by (intro sorted_distinct_set_unique) (auto simp: delta_keys_def distinct_map)
  moreover have "sort_key fst ?xs = map (\<lambda>k. (k, denoted_buffer k ds)) (map fst (sort_key fst ?xs))"
    using entry by (auto intro!: map_idI [symmetric])
  ultimately show ?thesis by simp
qed

lemma all_some_map: "all_some (map f xs) = (if list_all (\<lambda>x. f x \<noteq> None) xs then Some (map (the \<circ> f) xs) else None)"
proof (induction xs)
  case (Cons x xs)
  then show ?case by (cases "f x") auto
qed simp

text \<open>The call that a stream spells out under one index.\<close>

definition denoted_call :: "parse_lib \<Rightarrow> stream_delta list \<Rightarrow> nat \<Rightarrow> tool_call" where
  "denoted_call lib ds k =
     (let b = denoted_buffer k ds
      in \<lparr>tc_id = (if tb_id b = [] then pl_uuid lib k else tb_id b), tc_name = tb_name b,
          tc_arguments = safe_json_object lib (tb_args b), tc_signature = tb_signature b\<rparr>)"

text \<open>The assembler computes the response its deltas denote, however the fragments of text and of
  the calls are interleaved: the text in order, one call per index in the order of the indices with
  the last id, name and signature given and its fragments joined, and the last usage and finish.  It
  fails exactly when some call never got a name.\<close>

theorem assembler_computes_denotation:
  "assembler_build lib provider model (foldl assembler_update new_assembler ds)
     = (if list_all (\<lambda>k. tb_name (denoted_buffer k ds) \<noteq> []) (sort (delta_keys ds))
        then Inr \<lparr>mres_text = concat (map delta_text ds),
          mres_tool_calls = map (denoted_call lib ds) (sort (delta_keys ds)),
          mres_finish = foldl delta_finish END_TURN ds, mres_usage = foldl delta_usage zero_token_usage ds,
          mres_provider = provider, mres_model = model, mres_artifact = None\<rparr>
        else Inl (Untyped ''ToolCall.name: String should have at least 1 character''))"
proof -
  have calls': "all_some (map (build_call lib) (map (\<lambda>k. (k, denoted_buffer k ds)) ks)) =
    (if list_all (\<lambda>k. tb_name (denoted_buffer k ds) \<noteq> []) ks then Some (map (denoted_call lib ds) ks) else None)" for ks
    by (simp add: all_some_map build_call_def list_all_iff denoted_call_def or_keep_def Let_def)
  show ?thesis
    using assembler_finish [of new_assembler ds]
    unfolding assembler_build_def assembler_sorted calls'
    by (simp add: assembler_text assembler_usage new_assembler_def)
qed

end
