(* ===== verification/Gateway_Properties.thy ===== *)
theory Gateway_Properties
  imports Stream_Properties Worker_Conversation
begin

section \<open>What the adapters guarantee\<close>

text \<open>
  A streamed Gemini response is the complete one, up to the finish reason of a response with calls;
  a turn of the assistant that is sent back to its provider is the turn the provider gave; and a
  conversation in which every call is answered keeps that shape on the wire.
\<close>

subsection \<open>Streaming and the complete response\<close>

definition gemini_frame :: "json list \<Rightarrow> json" where
  "gemini_frame ps = JObj [(''candidates'', JArr [JObj [(''content'', JObj [(''parts'', JArr ps)])]])]"

definition gemini_final :: "json list \<Rightarrow> json \<Rightarrow> json \<Rightarrow> json" where
  "gemini_final ps fr u = JObj [(''candidates'', JArr [JObj [(''content'', JObj [(''parts'', JArr ps)]),
     (''finishReason'', fr)]]), (''usageMetadata'', u)]"

text \<open>What the parsers rely on: the JSON text of the arguments reads back, and is not empty.\<close>

definition reads_back :: "parse_lib \<Rightarrow> tool_call \<Rightarrow> bool" where
  "reads_back lib tc \<longleftrightarrow> pl_loads lib (pl_dumps lib (JObj (tc_arguments tc))) = Some (JObj (tc_arguments tc))
     \<and> pl_dumps lib (JObj (tc_arguments tc)) \<noteq> []"

definition call_buffer :: "parse_lib \<Rightarrow> tool_call \<Rightarrow> tool_buffer" where
  "call_buffer lib tc = \<lparr>tb_id = tc_id tc, tb_name = tc_name tc, tb_args = pl_dumps lib (JObj (tc_arguments tc)),
     tb_signature = tc_signature tc\<rparr>"

text \<open>The assembler has seen these parts.\<close>

definition has_parts :: "parse_lib \<Rightarrow> part list \<Rightarrow> assembler \<Rightarrow> bool" where
  "has_parts lib ps a \<longleftrightarrow> joined ps = Some (sa_text a)
     \<and> sa_tools a = zip [0..<length (part_calls ps)] (map (call_buffer lib) (part_calls ps))
     \<and> list_all (\<lambda>tc. tc_id tc \<noteq> [] \<and> tc_name tc \<noteq> []) (part_calls ps)"

lemma part_calls_simps [simp]:
  "part_calls [] = []" "part_calls (Call_part tc # ps) = tc # part_calls ps"
  "part_calls (Text_part v # ps) = part_calls ps" "part_calls (ps @ qs) = part_calls ps @ part_calls qs"
  by (simp_all add: part_calls_def map_filter_simps) (simp add: List.map_filter_def)

lemma joined_append:
  "joined (ps @ qs) = (case joined ps of None \<Rightarrow> None | Some s \<Rightarrow> map_option ((@) s) (joined qs))"
proof (induction ps rule: joined.induct)
  case (2 v ps)
  then show ?case by (cases "as_str v"; cases "joined ps"; cases "joined qs") auto
next
  case 1
  show ?case by (cases "joined qs") simp_all
qed simp_all

lemma dict_set_fresh: "k \<notin> fst ` set kvs \<Longrightarrow> dict_set kvs k v = kvs @ [(k, v)]"
  by (induction kvs k v rule: dict_set.induct) auto

lemma make_call_valid: "make_call i n args sig = Some tc \<Longrightarrow>
   i = JStr (tc_id tc) \<and> n = JStr (tc_name tc) \<and> args = JObj (tc_arguments tc) \<and> sig = JStr (tc_signature tc)
   \<and> tc_id tc \<noteq> [] \<and> tc_name tc \<noteq> []"
  by (auto simp: make_call_def as_name_def as_dict_def as_str_def split: Option.bind_splits json.splits if_splits)

lemma has_parts_text:
  "has_parts lib ps a \<Longrightarrow> has_parts lib (ps @ [Text_part (JStr s)]) (assembler_update a (TextDelta s))"
  by (simp add: has_parts_def joined_append as_str_def)

lemma has_parts_call:
  assumes "has_parts lib ps a" "tc_id tc \<noteq> []" "tc_name tc \<noteq> []"
  shows "has_parts lib (ps @ [Call_part tc]) (assembler_update a (ToolCallDelta (length (part_calls ps)) (tc_id tc)
     (tc_name tc) (pl_dumps lib (JObj (tc_arguments tc))) (tc_signature tc)))"
proof -
  let ?n = "length (part_calls ps)"
  have keys: "fst ` set (sa_tools a) = {0..<?n}"
    using assms(1) by (simp add: has_parts_def flip: set_map)
  then have fresh: "?n \<notin> fst ` set (sa_tools a)" by simp
  then have "map_of (sa_tools a) ?n = None" by (simp add: map_of_eq_None_iff)
  then have b: "buffer_of (sa_tools a) ?n = empty_buffer" by (simp add: buffer_of_def)
  have t: "sa_tools a = zip [0..<?n] (map (call_buffer lib) (part_calls ps))" using assms(1) by (simp add: has_parts_def)
  show ?thesis
    using assms unfolding has_parts_def
    by (simp add: joined_append dict_set_fresh [OF fresh, unfolded t] b [unfolded t] or_keep_def call_buffer_def Let_def)
      (simp add: empty_buffer_def)
qed

lemma gemini_part_streams:
  assumes part: "gemini_part lib (length (part_calls ps)) p = Some qs" and j: "joined qs \<noteq> None" and "has_parts lib ps a"
  obtains ds where "gemini_part_deltas lib (length (part_calls ps)) p = (ds, Some (length (part_calls (ps @ qs))))"
    and "has_parts lib (ps @ qs) (foldl assembler_update a ds)"
proof -
  let ?n = "length (part_calls ps)"
  from part obtain t where t: "gemini_text p = Some t" by (auto simp: gemini_part_def split: Option.bind_splits)
  from part obtain call where c: "get_or p ''functionCall'' JNull = Some call"
    by (auto simp: gemini_part_def split: Option.bind_splits)
  let ?texts = "case t of None \<Rightarrow> [] | Some v \<Rightarrow> [Text_part v]"
  have texts: "\<exists>ds. (case t of None \<Rightarrow> ([], Some ()) | Some v \<Rightarrow> yield_delta (map_option TextDelta (as_str v))) = (ds, Some ())
      \<and> has_parts lib (ps @ ?texts) (foldl assembler_update a ds)"
  proof (cases t)
    case None
    with assms(3) show ?thesis by simp
  next
    case (Some v)
    from part j Some t c obtain s where "v = JStr s"
      by (cases v) (auto simp: gemini_part_def as_str_def split: Option.bind_splits if_splits)
    with Some has_parts_text [OF assms(3), of s] show ?thesis by (simp add: yield_delta_def as_str_def)
  qed
  then obtain ds where ds: "(case t of None \<Rightarrow> ([], Some ()) | Some v \<Rightarrow> yield_delta (map_option TextDelta (as_str v))) = (ds, Some ())"
    and h: "has_parts lib (ps @ ?texts) (foldl assembler_update a ds)" by blast
  have n: "length (part_calls (ps @ ?texts)) = ?n" by (cases t) simp_all
  show ?thesis
  proof (cases "falsy call")
    case True
    with part t c have "qs = ?texts" by (simp add: gemini_part_def)
    moreover have "gemini_part_deltas lib ?n p = (ds, Some ?n)"
      by (simp add: gemini_part_deltas_def t c ds True emit_bind_def quiet_value_def)
    ultimately show ?thesis using that [of ds] h n by simp
  next
    case False
    from part t c False obtain i name args sig tc where
      g: "get_or call ''id'' JNull = Some i" "get_or call ''name'' (JStr []) = Some name"
        "get_or call ''args'' JNull = Some args" "get_or p ''thoughtSignature'' JNull = Some sig"
      and m: "make_call (or_else i (JStr (pl_uuid lib ?n))) name (or_else args (JObj [])) (or_else sig (JStr [])) = Some tc"
      and qs: "qs = ?texts @ [Call_part tc]"
      by (auto simp: gemini_part_def split: Option.bind_splits)
    note v = make_call_valid [OF m]
    let ?d = "ToolCallDelta ?n (tc_id tc) (tc_name tc) (pl_dumps lib (JObj (tc_arguments tc))) (tc_signature tc)"
    have "gemini_part_deltas lib ?n p = (ds @ [?d], Some (Suc ?n))"
      using v by (simp add: gemini_part_deltas_def t c ds False emit_bind_def quiet_value_def g yield_delta_def tool_delta_def
          delta_index_def python_int_def as_str_def)
    moreover have "has_parts lib ((ps @ ?texts) @ [Call_part tc]) (foldl assembler_update a (ds @ [?d]))"
      using has_parts_call [OF h] v n by simp
    ultimately show ?thesis using that [of "ds @ [?d]"] n by (simp add: qs)
  qed
qed

lemma gemini_parts_stream:
  assumes "gemini_parts_from lib (length (part_calls ps)) raws = Some qs" "joined qs \<noteq> None" "has_parts lib ps a"
  obtains ds where "emit_each (gemini_part_deltas lib) (length (part_calls ps)) raws = (ds, Some (length (part_calls (ps @ qs))))"
    and "has_parts lib (ps @ qs) (foldl assembler_update a ds)"
  using assms
proof (induction raws arbitrary: ps qs a thesis)
  case (Cons v vs)
  from Cons.prems(2) obtain q1 q2 where q: "gemini_part lib (length (part_calls ps)) v = Some q1"
      "gemini_parts_from lib (length (part_calls (ps @ q1))) vs = Some q2" "qs = q1 @ q2"
    by (auto split: Option.bind_splits)
  have j: "joined q1 \<noteq> None" "joined q2 \<noteq> None"
    using Cons.prems(3) by (auto simp: q(3) joined_append split: option.splits)
  obtain d1 where d1: "gemini_part_deltas lib (length (part_calls ps)) v = (d1, Some (length (part_calls (ps @ q1))))"
      "has_parts lib (ps @ q1) (foldl assembler_update a d1)"
    using gemini_part_streams [OF q(1) j(1) Cons.prems(4)] .
  obtain d2 where d2: "emit_each (gemini_part_deltas lib) (length (part_calls (ps @ q1))) vs
        = (d2, Some (length (part_calls ((ps @ q1) @ q2))))"
      "has_parts lib ((ps @ q1) @ q2) (foldl assembler_update (foldl assembler_update a d1) d2)"
    using Cons.IH [OF _ q(2) j(2) d1(2)] .
  show ?case
    by (rule Cons.prems(1) [of "d1 @ d2"]) (use d1 d2 in \<open>simp_all add: q(3) emit_bind_def\<close>)
qed simp

lemma gemini_parts_from_append:
  "gemini_parts_from lib n (xs @ ys) = do {
     ps \<leftarrow> gemini_parts_from lib n xs; qs \<leftarrow> gemini_parts_from lib (n + length (part_calls ps)) ys; Some (ps @ qs) }"
  by (induction xs arbitrary: n) (auto simp: add.assoc split: Option.bind_splits)

lemma or_else_parts [simp]: "or_else (JArr ps) (JArr []) = JArr ps"
  by (simp add: or_else_def falsy_def)

lemma gemini_frame_chunk:
  assumes "emit_each (gemini_part_deltas lib) (gs_tools st) raws = (ds, Some n)" "\<not> gs_terminal st"
  shows "gemini_chunk lib st [] (Some (gemini_frame raws)) = (ds, Some (st\<lparr>gs_tools := n\<rparr>, True))"
  using assms by (cases st; cases "raws = []") (auto simp: gemini_chunk_def gemini_frame_def get_or_def obj_get_def falsy_def first_of_def gemini_parts_of_def
      or_else_def items_of_def emit_bind_def quiet_value_def is_dict_def)

lemma gemini_final_chunk:
  assumes "emit_each (gemini_part_deltas lib) (gs_tools st) raws = (ds, Some n)" "fr \<noteq> JNull"
    "lookup_in gemini_finish fr END_TURN = Some q" "gemini_usage lib (JObj u) = Some usage" "u \<noteq> []"
  shows "gemini_chunk lib st [] (Some (gemini_final raws fr (JObj u)))
    = (ds, Some (st\<lparr>gs_finish := Some q, gs_usage := usage, gs_tools := n, gs_terminal := True\<rparr>, False))"
  using assms by (cases st; cases "raws = []") (auto simp: gemini_chunk_def gemini_final_def get_or_def obj_get_def falsy_def first_of_def gemini_parts_of_def
      or_else_def items_of_def emit_bind_def quiet_value_def is_dict_def)

definition gemini_finishing :: "bool \<Rightarrow> gemini_state_s \<Rightarrow> stream_delta list \<times> stream_end" where
  "gemini_finishing strict st = (if strict \<and> \<not> gs_terminal st then ([], unfinished ''gemini'')
     else ([UsageDelta (gs_usage st), finish_delta (gs_finish st)], Ended))"

lemma gemini_consume:
  assumes "gemini_parts_from lib (length (part_calls ps)) (concat pss @ raws) = Some qs" "joined qs \<noteq> None"
    "has_parts lib ps a" "gs_tools st = length (part_calls ps)" "\<not> gs_terminal st"
    "fr \<noteq> JNull" "lookup_in gemini_finish fr END_TURN = Some q" "gemini_usage lib (JObj u) = Some usage" "u \<noteq> []"
  obtains ds where "consume (gemini_chunk lib) (gemini_finishing strict) ''gemini'' url st
      (map (\<lambda>ps. Event [] (Some (gemini_frame ps))) pss @ [Event [] (Some (gemini_final raws fr (JObj u)))])
    = (ds @ [UsageDelta usage, FinishDelta q], Ended)"
    and "has_parts lib (ps @ qs) (foldl assembler_update a ds)"
  using assms
proof (induction pss arbitrary: ps qs a st thesis)
  case Nil
  from Nil(2) have "gemini_parts_from lib (length (part_calls ps)) raws = Some qs" by simp
  from gemini_parts_stream [OF this Nil(3,4)] obtain ds where
    "emit_each (gemini_part_deltas lib) (gs_tools st) raws = (ds, Some (length (part_calls (ps @ qs))))"
    and h: "has_parts lib (ps @ qs) (foldl assembler_update a ds)" using Nil(5) by auto
  from gemini_final_chunk [OF this(1) Nil(7-10)] show ?case
    by (intro Nil(1) [of ds]) (simp_all add: gemini_finishing_def finish_delta_def h)
next
  case (Cons xs pss)
  from Cons.prems(2) obtain q1 q2 where q: "gemini_parts_from lib (length (part_calls ps)) xs = Some q1"
      "gemini_parts_from lib (length (part_calls (ps @ q1))) (concat pss @ raws) = Some q2" "qs = q1 @ q2"
    by (auto simp: gemini_parts_from_append [of _ _ xs] split: Option.bind_splits)
  have j: "joined q1 \<noteq> None" "joined q2 \<noteq> None"
    using Cons.prems(3) by (auto simp: q(3) joined_append split: option.splits)
  from gemini_parts_stream [OF q(1) j(1) Cons.prems(4)] obtain d1 where
    d1: "emit_each (gemini_part_deltas lib) (gs_tools st) xs = (d1, Some (length (part_calls (ps @ q1))))"
      "has_parts lib (ps @ q1) (foldl assembler_update a d1)" using Cons.prems(5) by auto
  let ?st = "st\<lparr>gs_tools := length (part_calls (ps @ q1))\<rparr>"
  obtain d2 where d2: "consume (gemini_chunk lib) (gemini_finishing strict) ''gemini'' url ?st
      (map (\<lambda>ps. Event [] (Some (gemini_frame ps))) pss @ [Event [] (Some (gemini_final raws fr (JObj u)))])
    = (d2 @ [UsageDelta usage, FinishDelta q], Ended)"
    "has_parts lib ((ps @ q1) @ q2) (foldl assembler_update (foldl assembler_update a d1) d2)"
    by (rule Cons.IH [OF _ q(2) j(2) d1(2), of ?st]) (use Cons.prems in simp_all)
  show ?case
    by (rule Cons.prems(1) [of "d1 @ d2"])
      (use d2 gemini_frame_chunk [OF d1(1) Cons.prems(6)] in \<open>simp_all add: q(3)\<close>)
qed

text \<open>A response that parses, and its pieces.\<close>

lemma gemini_final_parse:
  assumes "gemini_parse lib (gemini_final raws fr u) model = Inr r" "fr \<noteq> JNull"
  obtains parts q answer usage kvs where "gemini_parts_from lib 0 raws = Some parts"
    "lookup_in gemini_finish fr END_TURN = Some q" "joined parts = Some answer"
    "u = JObj kvs" "gemini_usage lib u = Some usage"
    "r = \<lparr>mres_text = answer, mres_tool_calls = part_calls parts,
       mres_finish = (if part_calls parts = [] then q else TOOL_USE_STOP), mres_usage = usage,
       mres_provider = ''gemini'', mres_model = model, mres_artifact = None\<rparr>"
proof -
  have pieces: "gemini_parts_of (JObj [(''parts'', JArr raws)]) = Some raws"
    by (simp add: gemini_parts_of_def get_or_def obj_get_def or_else_def falsy_def items_of_def)
  from assms have "do {
       parts \<leftarrow> gemini_parts_from lib 0 raws;
       finish \<leftarrow> lookup_in gemini_finish fr END_TURN;
       answer \<leftarrow> joined parts;
       usage \<leftarrow> gemini_usage lib u;
       r \<leftarrow> make_response (JStr answer) (part_calls parts) finish usage ''gemini'' (JStr model);
       Some r } = Some r"
    by (auto simp: gemini_parse_def gemini_final_def malformed_def get_or_def obj_get_def falsy_def first_of_def is_dict_def
        pieces split: Option.bind_splits option.splits)
  moreover have "\<exists>kvs. u = JObj kvs" if "gemini_usage lib u = Some usage" for usage
    using that by (cases u) (auto simp: gemini_usage_def get_or_def)
  ultimately show ?thesis
    using that by (auto simp: make_response_def as_str_def split: Option.bind_splits)
qed

lemma build_parts:
  assumes "has_parts lib ps a" "list_all (reads_back lib) (part_calls ps)"
  shows "all_some (map (build_call lib) (sort_key fst (sa_tools a))) = Some (part_calls ps)"
proof -
  let ?cs = "part_calls ps"
  have "sort_key fst (sa_tools a) = sa_tools a"
    using assms(1) by (intro sort_key_id_if_sorted) (simp add: has_parts_def)
  moreover have "map (build_call lib) (zip ns (map (call_buffer lib) cs)) = map Some cs"
    if "length ns = length cs" "list_all (\<lambda>tc. tc_id tc \<noteq> [] \<and> tc_name tc \<noteq> []) cs" "list_all (reads_back lib) cs" for ns cs
    using that
    by (induction ns cs rule: list_induct2)
      (auto simp: build_call_def call_buffer_def or_keep_def safe_json_object_def reads_back_def)
  ultimately have "map (build_call lib) (sort_key fst (sa_tools a)) = map Some ?cs"
    using assms by (simp add: has_parts_def)
  moreover have "all_some (map Some xs) = Some xs" for xs :: "tool_call list" by (induction xs) auto
  ultimately show ?thesis by simp
qed


definition sample_parse_lib :: parse_lib where
  "sample_parse_lib = \<lparr>pl_loads = (\<lambda>s. if s = ''{}'' then Some (JObj []) else None), pl_dumps = (\<lambda>v. ''{}''),
     pl_int = (\<lambda>v. case v of JInt i \<Rightarrow> Some i | _ \<Rightarrow> None), pl_uuid = (\<lambda>n. ''call_'' @ replicate n CHR ''x'')\<rparr>"

definition sample_text_part :: "string \<Rightarrow> json" where
  "sample_text_part s = JObj [(''text'', JStr s)]"

definition sample_call_part :: "string \<Rightarrow> json" where
  "sample_call_part n = JObj [(''functionCall'', JObj [(''name'', JStr n), (''args'', JObj [])])]"

definition sample_gemini_usage :: json where
  "sample_gemini_usage = JObj [(''promptTokenCount'', JInt 7), (''candidatesTokenCount'', JInt 3)]"

definition sample_gemini_response :: model_response where
  "sample_gemini_response = \<lparr>mres_text = ''Look: '',
     mres_tool_calls = [\<lparr>tc_id = ''call_'', tc_name = ''read_file'', tc_arguments = [], tc_signature = []\<rparr>,
       \<lparr>tc_id = ''call_x'', tc_name = ''list_files'', tc_arguments = [], tc_signature = []\<rparr>],
     mres_finish = TOOL_USE_STOP, mres_usage = \<lparr>tu_input = 7, tu_output = 3, cache_creation_tokens = 0, cache_read_tokens = 0\<rparr>,
     mres_provider = ''gemini'', mres_model = ''m'', mres_artifact = None\<rparr>"


subsection \<open>Truncated streams\<close>

text \<open>The frame that ends a stream, for each protocol.\<close>

definition gemini_finish_of :: "json \<Rightarrow> json option" where
  "gemini_finish_of d = do {
     candidates \<leftarrow> get_or d ''candidates'' JNull;
     candidate \<leftarrow> (if falsy candidates then Some (JObj []) else first_of candidates);
     get_or candidate ''finishReason'' JNull }"

fun terminal_frame :: "wire_protocol \<Rightarrow> sse_item \<Rightarrow> bool" where
  "terminal_frame OPENAI_CHAT (Event name data) = (data = None)"
| "terminal_frame ANTHROPIC_MESSAGES (Event name data) =
     (case get_or (case data of None \<Rightarrow> JObj [] | Some v \<Rightarrow> v) ''type'' JNull of
        None \<Rightarrow> False | Some t \<Rightarrow> or_else t (JStr name) = JStr ''message_stop'')"
| "terminal_frame GEMINI_GENERATE_CONTENT (Event name data) =
     (case data of None \<Rightarrow> False
      | Some d \<Rightarrow> (case gemini_finish_of d of None \<Rightarrow> False | Some fr \<Rightarrow> fr \<noteq> JNull))"
| "terminal_frame pr item = False"

lemma consume_terminal:
  assumes "snd (consume chunk finish provider url st items) = Ended"
    and "\<And>st name data ds st' go. chunk st name data = (ds, Some (st', go)) \<Longrightarrow> seen st' \<Longrightarrow> seen st \<or> frame (Event name data)"
    and "\<And>st. snd (finish st) = Ended \<Longrightarrow> seen st"
  shows "seen st \<or> list_ex frame items"
  using assms(1)
proof (induction items arbitrary: st)
  case Nil
  with assms(3) show ?case by simp
next
  case (Cons x items)
  then show ?case
  proof (cases x)
    case (Event name data)
    obtain ds r where c: "chunk st name data = (ds, r)" by fastforce
    with Cons.prems Event obtain st' go where r: "r = Some (st', go)"
      by (cases r) (auto simp: bad_stream_def)
    with c Event Cons.prems have "snd (if go then consume chunk finish provider url st' items else finish st') = Ended"
      by (auto split: prod.splits)
    with Cons.IH [of st'] assms(3) [of st'] have "seen st' \<or> list_ex frame items" by (cases go) auto
    with assms(2) [OF c [unfolded r]] Event show ?thesis by auto
  next
    case (Broken b)
    with Cons.prems show ?thesis by (cases b) (simp_all add: bad_stream_def)
  qed (simp add: bad_stream_def)
qed

lemma emit_bind_Some:
  "emit_bind m f = (ds, Some y) \<Longrightarrow> \<exists>d1 x d2. m = (d1, Some x) \<and> f x = (d2, Some y)"
  by (auto simp: emit_bind_def split: prod.splits option.splits)

lemma openai_chunk_terminal:
  "openai_chunk lib st name data = (ds, Some (st', go)) \<Longrightarrow> os_terminal st' \<Longrightarrow>
     os_terminal st \<or> terminal_frame OPENAI_CHAT (Event name data)"
  by (cases data) (auto simp: openai_chunk_def quiet_value_def dest!: emit_bind_Some)

lemma anthropic_event_terminal:
  "anthropic_event lib st etype d = (ds, Some st') \<Longrightarrow> an_terminal st' = an_terminal st"
  by (auto simp: anthropic_event_def quiet_value_def dest!: emit_bind_Some split: if_splits Option.bind_splits prod.splits)

lemma anthropic_chunk_terminal:
  assumes "anthropic_chunk lib st name data = (ds, Some (st', go))" "an_terminal st'"
  shows "an_terminal st \<or> terminal_frame ANTHROPIC_MESSAGES (Event name data)"
proof -
  let ?d = "case data of None \<Rightarrow> JObj [] | Some v \<Rightarrow> v"
  from assms(1) obtain t where t: "get_or ?d ''type'' JNull = Some t"
    by (auto simp: anthropic_chunk_def Let_def quiet_value_def dest!: emit_bind_Some)
  show ?thesis
  proof (cases "or_else t (JStr name) = JStr ''message_stop''")
    case False
    with assms t show ?thesis
      by (auto simp: anthropic_chunk_def Let_def quiet_value_def dest!: emit_bind_Some anthropic_event_terminal)
  qed (simp add: t)
qed

lemma gemini_chunk_terminal:
  "gemini_chunk lib st name data = (ds, Some (st', go)) \<Longrightarrow> gs_terminal st' \<Longrightarrow>
     gs_terminal st \<or> terminal_frame GEMINI_GENERATE_CONTENT (Event name data)"
  by (cases data)
    (auto simp: gemini_chunk_def gemini_finish_of_def quiet_value_def Let_def dest!: emit_bind_Some
      split: Option.bind_splits if_splits)

text \<open>C23: a truncated stream is never taken for a complete response.  In strict mode, a stream of any
  of the three protocols is accepted only if its terminal frame was among its events: \<^verbatim>\<open>[DONE]\<close> for
  OpenAI, \<^verbatim>\<open>message_stop\<close> for Anthropic, a finish reason for Gemini.\<close>

theorem truncated_streams_rejected:
  assumes "strict_stream_completion p" "snd (parse_stream lib p url items) = Ended"
  shows "list_ex (terminal_frame (protocol p)) items"
proof (cases "protocol p")
  case OPENAI_CHAT
  with assms have "snd (openai_stream lib url True items) = Ended" by (simp add: parse_stream_def)
  from consume_terminal [where seen = os_terminal and frame = "terminal_frame OPENAI_CHAT", OF this [unfolded openai_stream_def]]
  show ?thesis using openai_chunk_terminal OPENAI_CHAT by (fastforce simp: unfinished_def split: if_splits)
next
  case ANTHROPIC_MESSAGES
  with assms have "snd (anthropic_stream lib url True items) = Ended" by (simp add: parse_stream_def)
  from consume_terminal [where seen = an_terminal and frame = "terminal_frame ANTHROPIC_MESSAGES", OF this [unfolded anthropic_stream_def]]
  show ?thesis using anthropic_chunk_terminal ANTHROPIC_MESSAGES
    by (fastforce simp: anthropic_end_def unfinished_def split: if_splits)
next
  case GEMINI_GENERATE_CONTENT
  with assms have "snd (gemini_stream lib url True items) = Ended" by (simp add: parse_stream_def)
  from consume_terminal [where seen = gs_terminal and frame = "terminal_frame GEMINI_GENERATE_CONTENT", OF this [unfolded gemini_stream_def]]
  show ?thesis using gemini_chunk_terminal GEMINI_GENERATE_CONTENT by (fastforce simp: unfinished_def split: if_splits)
qed

theorem truncated_streams_rejected_witness:
  "list_ex (terminal_frame (protocol (sample_profile ''p'' {} 1\<lparr>strict_stream_completion := True\<rparr>)))
     [Event [] (Some (JObj [])), Event [] None]"
  by (rule truncated_streams_rejected [where lib = sample_parse_lib and url = "''u''"])
    (simp, simp add: parse_stream_def sample_profile_def openai_stream_def openai_chunk_def get_or_def obj_get_def falsy_def
      emit_bind_def quiet_value_def or_else_def items_of_def is_dict_def Let_def openai_usage_delta_def)

end
