(* ===== verification/Wire_Properties.thy ===== *)
theory Wire_Properties
  imports Gateway_Properties
begin

section \<open>The conversation on the wire\<close>

text \<open>
  The two directions of the adapters composed: a turn of the assistant that is sent back to its
  provider is read as the turn the provider gave, and a conversation in which every call is
  answered (the shape \<open>Worker_Conversation\<close> shows) reaches the provider with every tool use
  answered in the next message.
\<close>

subsection \<open>A turn sent back\<close>

text \<open>The response of a provider that repeats the message it was sent.\<close>

definition echoed :: "(json \<Rightarrow> string) \<Rightarrow> wire_protocol \<Rightarrow> model_message \<Rightarrow> json" where
  "echoed dumps pr m =
     (case pr of
        OPENAI_CHAT \<Rightarrow> JObj [(''choices'', JArr [JObj [(''message'', openai_message dumps m)]])]
      | ANTHROPIC_MESSAGES \<Rightarrow> JObj [(''content'', snd (hd (anthropic_messages [m])))]
      | GEMINI_GENERATE_CONTENT \<Rightarrow>
          JObj [(''candidates'', JArr [JObj [(''content'', JObj [(''parts'', JArr (snd (hd (gemini_contents [m]))))])]])])"

text \<open>Only Gemini keeps the signature of a call, and only it drops the id: the parser gives a fresh one.\<close>

definition returned_call :: "parse_lib \<Rightarrow> wire_protocol \<Rightarrow> nat \<Rightarrow> tool_call \<Rightarrow> tool_call" where
  "returned_call lib pr n tc =
     (if pr = GEMINI_GENERATE_CONTENT then tc\<lparr>tc_id := pl_uuid lib n\<rparr> else tc\<lparr>tc_signature := []\<rparr>)"

definition good_call :: "parse_lib \<Rightarrow> tool_call \<Rightarrow> bool" where
  "good_call lib tc \<longleftrightarrow> tc_id tc \<noteq> [] \<and> tc_name tc \<noteq> []
     \<and> pl_loads lib (pl_dumps lib (JObj (tc_arguments tc))) = Some (JObj (tc_arguments tc))"

lemma collect_map:
  "(\<And>n x. x \<in> set xs \<Longrightarrow> f n (g x) = Some (h n x)) \<Longrightarrow>
     collect f k (map g xs) = Some (map (\<lambda>(n, x). h n x) (List.enumerate k xs))"
  by (induction xs arbitrary: k) auto

lemma openai_call_returned:
  "good_call lib tc \<Longrightarrow> openai_tool_call lib n (openai_call (pl_dumps lib) tc) = Some (returned_call lib OPENAI_CHAT n tc)"
  by (simp add: openai_tool_call_def openai_call_def get_or_def obj_get_def as_str_def make_call_def as_name_def
      as_dict_def good_call_def returned_call_def)

lemma anthropic_call_returned:
  "good_call lib tc \<Longrightarrow>
     anthropic_part lib n (anthropic_call tc) = Some (Call_part (returned_call lib ANTHROPIC_MESSAGES n tc))"
  by (simp add: anthropic_part_def anthropic_call_def get_or_def obj_get_def as_str_def make_call_def as_name_def
      as_dict_def good_call_def returned_call_def)

lemma gemini_call_returned:
  "good_call lib tc \<Longrightarrow> pl_uuid lib n \<noteq> [] \<Longrightarrow>
     gemini_part lib n (gemini_call tc) = Some [Call_part (returned_call lib GEMINI_GENERATE_CONTENT n tc)]"
  by (auto simp: gemini_part_def gemini_text_def gemini_call_def get_or_def obj_get_def as_str_def make_call_def as_name_def
      as_dict_def good_call_def returned_call_def falsy_def or_else_def)

lemma gemini_calls_returned:
  "list_all (good_call lib) tcs \<Longrightarrow> (\<And>n. pl_uuid lib n \<noteq> []) \<Longrightarrow>
     gemini_parts_from lib k (map gemini_call tcs)
       = Some (map (\<lambda>(n, tc). Call_part (returned_call lib GEMINI_GENERATE_CONTENT n tc)) (List.enumerate k tcs))"
  by (induction tcs arbitrary: k) (simp_all add: gemini_call_returned)

lemma calls_only [simp]:
  "part_calls (map (\<lambda>(n, tc). Call_part (f n tc)) xs) = map (\<lambda>(n, tc). f n tc) xs"
  "joined (map (\<lambda>(n, tc). Call_part (f n tc)) xs) = Some []"
  by (induction xs) auto

text \<open>What the parsers need when the response has no usage: zero reads as zero, and ids are never empty.\<close>

definition plain_lib :: "parse_lib \<Rightarrow> bool" where
  "plain_lib lib \<longleftrightarrow> pl_int lib (JInt 0) = Some 0 \<and> (\<forall>n. pl_uuid lib n \<noteq> [])"

lemma zero_usages:
  assumes "plain_lib lib"
  shows "make_usage lib (JInt 0) (JInt 0) (JInt 0) (JInt 0) = Some zero_token_usage"
    "openai_usage lib (JObj []) = Some zero_token_usage" "gemini_usage lib (JObj []) = Some zero_token_usage"
proof -
  show u: "make_usage lib (JInt 0) (JInt 0) (JInt 0) (JInt 0) = Some zero_token_usage"
    using assms by (simp add: make_usage_def as_count_def plain_lib_def zero_token_usage_def)
  show "openai_usage lib (JObj []) = Some zero_token_usage" "gemini_usage lib (JObj []) = Some zero_token_usage"
    by (simp_all add: openai_usage_def gemini_usage_def get_or_def obj_get_def is_dict_def json_minus_def json_plus_def
        arith_def number_def max_zero_def u)
qed

lemma returned_any:
  "map (\<lambda>(n, tc). returned_call lib OPENAI_CHAT n tc) (List.enumerate k tcs) = map (\<lambda>tc. tc\<lparr>tc_signature := []\<rparr>) tcs"
  "map (\<lambda>(n, tc). returned_call lib ANTHROPIC_MESSAGES n tc) (List.enumerate k tcs) = map (\<lambda>tc. tc\<lparr>tc_signature := []\<rparr>) tcs"
  by (induction tcs arbitrary: k) (simp_all add: returned_call_def)

lemma openai_turn:
  assumes "list_all (good_call lib) (msg_tool_calls m)" "msg_role m = Role_ASSISTANT" "msg_tool_calls m \<noteq> []" "plain_lib lib"
  shows "openai_parse lib (JObj [(''choices'', JArr [JObj [(''message'', openai_message (pl_dumps lib) m)]])]) name = Inr
    \<lparr>mres_text = msg_content m, mres_tool_calls = map (\<lambda>tc. tc\<lparr>tc_signature := []\<rparr>) (msg_tool_calls m),
     mres_finish = TOOL_USE_STOP, mres_usage = zero_token_usage, mres_provider = ''openai'', mres_model = name,
     mres_artifact = None\<rparr>"
proof -
  have "collect (openai_tool_call lib) 0 (map (openai_call (pl_dumps lib)) (msg_tool_calls m))
      = Some (map (\<lambda>(n, tc). returned_call lib OPENAI_CHAT n tc) (List.enumerate 0 (msg_tool_calls m)))"
    using assms(1) by (intro collect_map openai_call_returned) (simp add: list_all_iff)
  then have c: "collect (openai_tool_call lib) 0 (map (openai_call (pl_dumps lib)) (msg_tool_calls m))
      = Some (map (\<lambda>tc. tc\<lparr>tc_signature := []\<rparr>) (msg_tool_calls m))" by (simp only: returned_any)
  have t: "as_str (or_else (if msg_content m = [] then JNull else JStr (msg_content m)) (JStr [])) = Some (msg_content m)"
    by (simp add: or_else_def falsy_def as_str_def)
  show ?thesis
    using assms(2,3) t
    by (simp add: openai_message_def openai_parse_def malformed_def get_or_def obj_get_def falsy_def first_of_def
        lookup_in_def openai_finish_def items_of_def c zero_usages [OF assms(4)] make_response_def)
      (simp add: as_str_def)
qed

lemma collect_append:
  "collect f n (xs @ ys) = do { a \<leftarrow> collect f n xs; b \<leftarrow> collect f (n + length xs) ys; Some (a @ b) }"
  by (induction xs arbitrary: n) (auto split: Option.bind_splits)

lemma anthropic_turn:
  assumes "list_all (good_call lib) (msg_tool_calls m)" "msg_role m = Role_ASSISTANT" "msg_tool_calls m \<noteq> []" "plain_lib lib"
  shows "anthropic_parse lib (JObj [(''content'', snd (hd (anthropic_messages [m])))]) name = Inr
    \<lparr>mres_text = msg_content m, mres_tool_calls = map (\<lambda>tc. tc\<lparr>tc_signature := []\<rparr>) (msg_tool_calls m),
     mres_finish = TOOL_USE_STOP, mres_usage = zero_token_usage, mres_provider = ''anthropic'', mres_model = name,
     mres_artifact = None\<rparr>"
proof -
  let ?text = "if msg_content m = [] then [] else [text_block (msg_content m)]"
  let ?texts = "if msg_content m = [] then [] else [Text_part (JStr (msg_content m))]"
  let ?calls = "\<lambda>k. map (\<lambda>(n, tc). Call_part (returned_call lib ANTHROPIC_MESSAGES n tc)) (List.enumerate k (msg_tool_calls m))"
  have "collect (anthropic_part lib) k (map anthropic_call (msg_tool_calls m)) = Some (?calls k)" for k
    using assms(1) by (intro collect_map anthropic_call_returned) (simp add: list_all_iff)
  moreover have "anthropic_part lib n (text_block s) = Some (Text_part (JStr s))" for n s
    by (simp add: anthropic_part_def text_block_def get_or_def obj_get_def)
  ultimately have "collect (anthropic_part lib) 0 (?text @ map anthropic_call (msg_tool_calls m))
      = Some (?texts @ ?calls (length ?text))" by (simp add: collect_append)
  then obtain k where c: "collect (anthropic_part lib) 0 (?text @ map anthropic_call (msg_tool_calls m)) = Some (?texts @ ?calls k)" ..
  have j: "joined (?texts @ ?calls k) = Some (msg_content m)"
    by (simp add: joined_append as_str_def)
  have p: "part_calls (?texts @ ?calls k) = map (\<lambda>tc. tc\<lparr>tc_signature := []\<rparr>) (msg_tool_calls m)"
    by (simp add: returned_any)
  have body: "snd (hd (anthropic_messages [m])) = JArr (?text @ map anthropic_call (msg_tool_calls m))"
    using assms(2,3) by (simp add: anthropic_messages_def anthropic_step_def)
  have ne: "?text @ map anthropic_call (msg_tool_calls m) \<noteq> []" "List.enumerate k (msg_tool_calls m) \<noteq> []"
    using assms(3) by simp (use assms(3) in \<open>cases "msg_tool_calls m"; simp\<close>)
  show ?thesis
    using ne assms(3) unfolding body
    by (simp only: anthropic_parse_def malformed_def get_or_def obj_get_def map_of.simps json.case option.case falsy_def)
      (simp add: items_of_def c j p zero_usages [OF assms(4)] lookup_in_def anthropic_finish_def make_response_def as_str_def returned_any)
qed

lemma gemini_turn:
  assumes "list_all (good_call lib) (msg_tool_calls m)" "msg_role m = Role_ASSISTANT" "msg_tool_calls m \<noteq> []" "plain_lib lib"
    "msg_images m = []"
  shows "gemini_parse lib (JObj [(''candidates'', JArr [JObj [(''content'',
       JObj [(''parts'', JArr (snd (hd (gemini_contents [m]))))])]])]) name = Inr
    \<lparr>mres_text = msg_content m,
     mres_tool_calls = map (\<lambda>(n, tc). returned_call lib GEMINI_GENERATE_CONTENT n tc) (List.enumerate 0 (msg_tool_calls m)),
     mres_finish = TOOL_USE_STOP, mres_usage = zero_token_usage, mres_provider = ''gemini'', mres_model = name,
     mres_artifact = None\<rparr>"
proof -
  let ?text = "if msg_content m = [] then [] else [JObj [(''text'', JStr (msg_content m))]]"
  let ?texts = "if msg_content m = [] then [] else [Text_part (JStr (msg_content m))]"
  let ?calls = "map (\<lambda>(n, tc). Call_part (returned_call lib GEMINI_GENERATE_CONTENT n tc)) (List.enumerate 0 (msg_tool_calls m))"
  have "gemini_parts_from lib 0 ?text = Some ?texts"
    by (simp add: gemini_part_def gemini_text_def get_or_def obj_get_def falsy_def)
  then have c: "gemini_parts_from lib 0 (?text @ map gemini_call (msg_tool_calls m)) = Some (?texts @ ?calls)"
    using gemini_calls_returned [OF assms(1), of 0] assms(4) by (simp add: gemini_parts_from_append plain_lib_def)
  have j: "joined (?texts @ ?calls) = Some (msg_content m)"
    by (simp add: joined_append as_str_def)
  have p: "part_calls (?texts @ ?calls)
      = map (\<lambda>(n, tc). returned_call lib GEMINI_GENERATE_CONTENT n tc) (List.enumerate 0 (msg_tool_calls m))" by simp
  have body: "snd (hd (gemini_contents [m])) = ?text @ map gemini_call (msg_tool_calls m)"
    using assms(2,5) by (simp add: gemini_contents_def gemini_step_def gemini_parts_def)
  have ne: "List.enumerate 0 (msg_tool_calls m) \<noteq> []" using assms(3) by (cases "msg_tool_calls m") simp_all
  have pieces: "gemini_parts_of (JObj [(''parts'', JArr raws)]) = Some raws" for raws
    by (simp add: gemini_parts_of_def get_or_def obj_get_def or_else_def falsy_def items_of_def)
  show ?thesis
    using assms(3) ne unfolding body
    by (simp add: gemini_parse_def malformed_def get_or_def obj_get_def falsy_def first_of_def is_dict_def
        pieces c j p zero_usages [OF assms(4)] lookup_in_def gemini_finish_def make_response_def as_str_def del: if_split)
qed

text \<open>C21: a turn survives the way to its provider and back.  A message of the assistant with calls,
  converted for any of the three protocols and read by the response parser of that protocol, is the
  same text and the same calls in the same order, with their names and arguments; OpenAI and
  Anthropic keep the ids and drop the signatures, Gemini keeps the signatures and gets fresh ids.\<close>

theorem assistant_turn_roundtrip:
  assumes "msg_role m = Role_ASSISTANT" "msg_tool_calls m \<noteq> []" "msg_images m = []"
    and "list_all (good_call lib) (msg_tool_calls m)" "plain_lib lib"
  shows "parse_reply lib p (echoed (pl_dumps lib) (protocol p) m) = Inr
    \<lparr>mres_text = msg_content m,
     mres_tool_calls = map (\<lambda>(n, tc). returned_call lib (protocol p) n tc) (List.enumerate 0 (msg_tool_calls m)),
     mres_finish = TOOL_USE_STOP, mres_usage = zero_token_usage, mres_provider = provider_label (protocol p),
     mres_model = model_id p, mres_artifact = None\<rparr>"
  using openai_turn [OF assms(4,1,2,5)] anthropic_turn [OF assms(4,1,2,5)] gemini_turn [OF assms(4,1,2,5,3)]
  by (cases "protocol p") (simp_all add: parse_reply_def echoed_def returned_any)

definition sample_turn :: model_message where
  "sample_turn = \<lparr>msg_role = Role_ASSISTANT, msg_content = ''Reading.'', msg_images = [],
     msg_tool_calls = [\<lparr>tc_id = ''t1'', tc_name = ''read_file'', tc_arguments = [], tc_signature = ''s''\<rparr>,
       \<lparr>tc_id = ''t2'', tc_name = ''list_files'', tc_arguments = [], tc_signature = []\<rparr>],
     msg_tool_call_id = [], msg_is_error = False\<rparr>"

theorem assistant_turn_roundtrip_witness:
  "parse_reply sample_parse_lib (sample_profile ''p'' {} 1) (echoed (pl_dumps sample_parse_lib)
       (protocol (sample_profile ''p'' {} 1)) sample_turn) = Inr
    \<lparr>mres_text = msg_content sample_turn,
     mres_tool_calls = map (\<lambda>(n, tc). returned_call sample_parse_lib (protocol (sample_profile ''p'' {} 1)) n tc)
       (List.enumerate 0 (msg_tool_calls sample_turn)),
     mres_finish = TOOL_USE_STOP, mres_usage = zero_token_usage,
     mres_provider = provider_label (protocol (sample_profile ''p'' {} 1)),
     mres_model = model_id (sample_profile ''p'' {} 1), mres_artifact = None\<rparr>"
  by (rule assistant_turn_roundtrip)
    (simp_all add: sample_turn_def good_call_def plain_lib_def sample_parse_lib_def)

subsection \<open>Tool uses and their results\<close>

definition block_id :: "string \<Rightarrow> string \<Rightarrow> json \<Rightarrow> string option" where
  "block_id kind key b =
     (case b of
        JObj kvs \<Rightarrow>
          if obj_get kvs ''type'' = Some (JStr kind)
          then (case obj_get kvs key of Some (JStr i) \<Rightarrow> Some i | _ \<Rightarrow> None) else None
      | _ \<Rightarrow> None)"

definition blocks_of :: "wire_message \<Rightarrow> json list" where
  "blocks_of rc = (case snd rc of JArr bs \<Rightarrow> bs | _ \<Rightarrow> [])"

definition uses :: "wire_message \<Rightarrow> string list" where
  "uses rc = List.map_filter (block_id ''tool_use'' ''id'') (blocks_of rc)"

definition results :: "wire_message \<Rightarrow> string list" where
  "results rc = List.map_filter (block_id ''tool_result'' ''tool_use_id'') (blocks_of rc)"

text \<open>The rule of the Messages API: a message with tool uses is followed by a user message of exactly
  their results, and no other message has results.\<close>

fun paired :: "wire_message list \<Rightarrow> bool" where
  "paired [] = True"
| "paired [x] = (uses x = [] \<and> results x = [])"
| "paired (x # y # rest) =
     (results x = []
      \<and> (if uses x = [] then paired (y # rest)
         else fst x = ''assistant'' \<and> fst y = ''user'' \<and> results y = uses x
           \<and> length (blocks_of y) = length (uses x) \<and> uses y = [] \<and> paired rest))"

lemma paired_append: "paired a \<Longrightarrow> paired b \<Longrightarrow> paired (a @ b)"
proof (induction a rule: paired.induct)
  case (2 x)
  then show ?case by (cases b) simp_all
qed (auto split: if_splits)

lemma result_block [simp]:
  "block_id ''tool_result'' ''tool_use_id'' (anthropic_result m) = Some (msg_tool_call_id m)"
  "block_id ''tool_use'' ''id'' (anthropic_result m) = None"
  by (simp_all add: block_id_def anthropic_result_def obj_get_def)

lemma other_blocks [simp]:
  "block_id ''tool_use'' ''id'' (anthropic_call tc) = Some (tc_id tc)"
  "block_id ''tool_result'' ''tool_use_id'' (anthropic_call tc) = None"
  "block_id ''tool_use'' ''id'' (text_block s) = None" "block_id ''tool_result'' ''tool_use_id'' (text_block s) = None"
  "block_id ''tool_use'' ''id'' (anthropic_image_block img) = None"
  "block_id ''tool_result'' ''tool_use_id'' (anthropic_image_block img) = None"
  by (simp_all add: block_id_def anthropic_call_def text_block_def anthropic_image_block_def obj_get_def)

lemma map_filter_append: "List.map_filter f (xs @ ys) = List.map_filter f xs @ List.map_filter f ys"
  by (simp add: List.map_filter_def)

lemma map_filter_map_Some: "(\<And>x. x \<in> set xs \<Longrightarrow> f (g x) = Some (h x)) \<Longrightarrow> List.map_filter f (map g xs) = map h xs"
  by (induction xs) (auto simp: map_filter_simps)

lemma map_filter_map_None: "(\<And>x. x \<in> set xs \<Longrightarrow> f (g x) = None) \<Longrightarrow> List.map_filter f (map g xs) = []"
  by (induction xs) (auto simp: map_filter_simps)

text \<open>What has been written, with the ids that still wait for their result.\<close>

definition written :: "string list \<Rightarrow> wire_message list \<Rightarrow> bool" where
  "written p out \<longleftrightarrow>
     (p = [] \<and> paired out)
     \<or> (p \<noteq> [] \<and> (\<exists>before x. out = before @ [x] \<and> paired before \<and> fst x = ''assistant'' \<and> uses x = p \<and> results x = []))
     \<or> (p \<noteq> [] \<and> (\<exists>before x bs done. out = before @ [x, (''user'', JArr bs)] \<and> paired before \<and> fst x = ''assistant''
          \<and> results x = [] \<and> uses x = done @ p \<and> results (''user'', JArr bs) = done \<and> length bs = length done
          \<and> uses (''user'', JArr bs) = []))"

lemma anthropic_result_step:
  assumes "msg_role m = Role_TOOL"
  shows "fst x = ''assistant'' \<Longrightarrow> anthropic_step (before @ [x]) m = before @ [x, (''user'', JArr [anthropic_result m])]"
    and "anthropic_step (before @ [x, (''user'', JArr bs)]) m = before @ [x, (''user'', JArr (bs @ [anthropic_result m]))]"
  using assms by (simp_all add: anthropic_step_def)
    (simp add: butlast_append)

lemma result_blocks [simp]:
  "results (''user'', JArr (bs @ [anthropic_result m])) = results (''user'', JArr bs) @ [msg_tool_call_id m]"
  "uses (''user'', JArr (bs @ [anthropic_result m])) = uses (''user'', JArr bs)"
  "results (''user'', JArr []) = []" "uses (''user'', JArr []) = []"
  by (simp_all add: results_def uses_def blocks_of_def map_filter_append map_filter_simps)

lemma written_group:
  assumes "paired before" "fst x = ''assistant''" "results x = []" "uses x = ids @ p" "ids \<noteq> []"
    "results (''user'', JArr bs) = ids" "length bs = length ids" "uses (''user'', JArr bs) = []"
  shows "written p (before @ [x, (''user'', JArr bs)])"
proof (cases "p = []")
  case True
  with assms have "paired [x, (''user'', JArr bs)]" by (simp add: blocks_of_def)
  from paired_append [OF assms(1) this] True show ?thesis by (simp add: written_def)
next
  case False
  with assms show ?thesis unfolding written_def by blast
qed

lemma written_result:
  assumes "written (msg_tool_call_id m # p) out" "msg_role m = Role_TOOL"
  shows "written p (anthropic_step out m)"
proof -
  note step = anthropic_result_step [OF assms(2)]
  from assms(1) consider
    (first) before x where "out = before @ [x]" "paired before" "fst x = ''assistant''" "uses x = msg_tool_call_id m # p" "results x = []"
  | (later) before x bs ids where "out = before @ [x, (''user'', JArr bs)]" "paired before" "fst x = ''assistant''"
      "results x = []" "uses x = ids @ msg_tool_call_id m # p" "results (''user'', JArr bs) = ids" "length bs = length ids"
      "uses (''user'', JArr bs) = []"
    unfolding written_def by blast
  then show ?thesis
  proof cases
    case first
    then show ?thesis
      using written_group [of before x "[msg_tool_call_id m]" p "[anthropic_result m]"] result_blocks(1,2) [of "[]" m]
      by (simp add: step(1))
  next
    case later
    then show ?thesis
      using written_group [of before x "ids @ [msg_tool_call_id m]" p "bs @ [anthropic_result m]"]
      by (simp add: step(2))
  qed
qed

lemma calls_block [simp]:
  "uses (r, JArr ((if b then [] else [text_block s]) @ map anthropic_call tcs)) = map tc_id tcs"
  "results (r, JArr ((if b then [] else [text_block s]) @ map anthropic_call tcs)) = []"
  "uses (r, JStr s) = []" "results (r, JStr s) = []"
  "uses (r, JArr (map anthropic_image_block imgs @ (if b then [] else [text_block s]))) = []"
  "results (r, JArr (map anthropic_image_block imgs @ (if b then [] else [text_block s]))) = []"
  by (simp_all add: uses_def results_def blocks_of_def map_filter_append map_filter_simps map_filter_map_Some map_filter_map_None)

lemma written_other:
  assumes "written [] out" "msg_role m \<noteq> Role_TOOL" "msg_role m = Role_ASSISTANT \<or> msg_tool_calls m = []"
  shows "written (map tc_id (msg_tool_calls m)) (anthropic_step out m)"
proof -
  have out: "paired out" using assms(1) by (simp add: written_def)
  show ?thesis
  proof (cases "msg_tool_calls m = []")
    case True
    then show ?thesis
      using out assms(2) paired_append [OF out] by (simp add: written_def anthropic_step_def)
  next
    case False
    let ?x = "(''assistant'', JArr ((if msg_content m = [] then [] else [text_block (msg_content m)])
        @ map anthropic_call (msg_tool_calls m)))"
    have "anthropic_step out m = out @ [?x]" using False assms(3) by (simp add: anthropic_step_def)
    moreover have "uses ?x = map tc_id (msg_tool_calls m)" "results ?x = []" by (simp_all only: calls_block)
    ultimately show ?thesis using out False unfolding written_def by (metis fst_conv map_is_Nil_conv)
  qed
qed

lemma written_messages: "awaiting p ms = Some q \<Longrightarrow> written p out \<Longrightarrow> written q (foldl anthropic_step out ms)"
proof (induction ms arbitrary: p out)
  case (Cons m ms)
  show ?case
  proof (cases "msg_role m = Role_TOOL")
    case True
    with Cons.prems(1) obtain p' where "p = msg_tool_call_id m # p'" "awaiting p' ms = Some q"
      by (auto split: list.splits if_splits)
    with Cons True show ?thesis by (auto intro: written_result)
  next
    case False
    with Cons.prems(1) have "p = []" "msg_role m = Role_ASSISTANT \<or> msg_tool_calls m = []"
      "awaiting (map tc_id (msg_tool_calls m)) ms = Some q" by (auto split: if_splits)
    with Cons False show ?thesis by (auto intro: written_other)
  qed
qed simp

text \<open>Marking the last message for the cache changes neither its uses nor its results.\<close>

lemma mark_block_id: "key \<noteq> ''cache_control'' \<Longrightarrow> block_id kind key (mark_block b) = block_id kind key b"
  by (cases b) (simp_all add: mark_block_def block_id_def obj_get_def)

lemma marked_message:
  "fst (mark_cache_breakpoint x) = fst x" "uses (mark_cache_breakpoint x) = uses x" "results (mark_cache_breakpoint x) = results x"
  "uses x \<noteq> [] \<or> results x \<noteq> [] \<Longrightarrow> length (blocks_of (mark_cache_breakpoint x)) = length (blocks_of x)"
proof -
  obtain r c where x: "x = (r, c)" by fastforce
  have m: "List.map_filter (block_id kind key) (butlast bs @ [mark_block (last bs)]) = List.map_filter (block_id kind key) bs"
    if "bs \<noteq> []" "key \<noteq> ''cache_control''" for kind key bs
  proof -
    have "List.map_filter (block_id kind key) (butlast bs @ [last bs]) = List.map_filter (block_id kind key) bs"
      using that by simp
    then show ?thesis by (simp add: map_filter_append map_filter_simps mark_block_id [OF that(2)])
  qed
  show "fst (mark_cache_breakpoint x) = fst x" by (simp add: x mark_cache_breakpoint_def)
  show "uses (mark_cache_breakpoint x) = uses x" "results (mark_cache_breakpoint x) = results x"
    by (cases c; simp add: x mark_cache_breakpoint_def uses_def results_def blocks_of_def m map_filter_simps mark_block_id)+
  show "uses x \<noteq> [] \<or> results x \<noteq> [] \<Longrightarrow> length (blocks_of (mark_cache_breakpoint x)) = length (blocks_of x)"
    by (cases c) (auto simp: x mark_cache_breakpoint_def uses_def results_def blocks_of_def map_filter_simps)
qed

lemma paired_mark: "paired xs \<Longrightarrow> xs \<noteq> [] \<Longrightarrow> paired (butlast xs @ [mark_cache_breakpoint (last xs)])"
proof (induction xs rule: paired.induct)
  case (3 x y rest)
  show ?case
  proof (cases "rest = []")
    case True
    with 3 show ?thesis by (auto simp: marked_message split: if_splits)
  next
    case False
    then obtain z zs where "rest = z # zs" by (cases rest) auto
    with 3 show ?thesis by (auto split: if_splits)
  qed
qed (simp_all add: marked_message)

lemma visible_answered:
  "awaiting p (map (\<lambda>m. m\<lparr>msg_images := []\<rparr>) ms) = awaiting p ms"
  by (induction p ms rule: awaiting.induct) (auto split: list.split)

text \<open>A conversation in which every call is answered is one the Messages API accepts: in the body
  sent to Anthropic, with the images a profile cannot see removed and the last message marked for
  the cache, each message with tool uses is from the assistant and directly followed by one user
  message that holds exactly the results of these uses, in order; no other message holds a result.
  The checkpoints of a worker are such conversations.\<close>

theorem anthropic_results_follow_uses:
  assumes "answered (mr_messages request)"
  shows "\<exists>out. map_of (anthropic_body request p) ''messages'' = Some (JArr (map wire_object out)) \<and> paired out"
proof -
  have "awaiting [] (mr_messages (visible_request request p)) = Some []"
    using assms by (simp add: visible_request_def answered_def visible_answered)
  from written_messages [OF this, of "[]"] have w: "paired (anthropic_messages (mr_messages (visible_request request p)))"
    by (simp add: anthropic_messages_def written_def)
  let ?ms = "anthropic_messages (mr_messages (visible_request request p))"
  let ?out = "if PROMPT_CACHING \<in> capabilities p \<and> ?ms \<noteq> [] then butlast ?ms @ [mark_cache_breakpoint (last ?ms)] else ?ms"
  have "map_of (anthropic_body request p) ''messages'' = Some (JArr (map wire_object ?out))"
    by (simp add: anthropic_body_def Let_def)
  moreover have "paired ?out" using w paired_mark [OF w] by simp
  ultimately show ?thesis by (intro exI [of _ ?out] conjI)
qed

definition sample_answered :: "model_message list" where
  "sample_answered = [sample_turn\<lparr>msg_role := Role_USER, msg_tool_calls := []\<rparr>, sample_turn,
     sample_turn\<lparr>msg_role := Role_TOOL, msg_tool_calls := [], msg_tool_call_id := ''t1''\<rparr>,
     sample_turn\<lparr>msg_role := Role_TOOL, msg_tool_calls := [], msg_tool_call_id := ''t2'', msg_is_error := True\<rparr>]"

definition sample_answered_request :: model_request where
  "sample_answered_request = \<lparr>mr_profile = ''p'', mr_messages = sample_answered, mr_system = ''Be brief.'', mr_tools = [],
     mr_output_schema = None, mr_max_output_tokens = None, mr_temperature = None, mr_seed = None\<rparr>"

theorem anthropic_results_follow_uses_witness:
  "\<exists>out. map_of (anthropic_body sample_answered_request (sample_profile ''p'' {} 1)) ''messages''
     = Some (JArr (map wire_object out)) \<and> paired out"
  by (rule anthropic_results_follow_uses) (simp add: sample_answered_request_def sample_answered_def sample_turn_def answered_def)

end
