(* ===== verification/Intake_Scan.thy ===== *)
theory Intake_Scan
  imports Workspace Python_Values
begin

section \<open>The intake scan (application/intake_scan.py)\<close>

text \<open>
  The bounded walk over the workspace that feeds the analyses: two levels of names through the
  restricted workspace, counts of extensions, digests of the manifests.  \<^verbatim>\<open>json.loads\<close> and
  SHA-256 are parameters; an exception of the workspace ends the scan.
\<close>

definition key_files_known :: "string list" where
  "key_files_known = [''README.md'', ''README.rst'', ''README.txt'', ''pyproject.toml'', ''setup.py'',
     ''requirements.txt'', ''package.json'', ''Cargo.toml'', ''go.mod'', ''pom.xml'', ''Makefile'', ''tox.ini'']"

definition skipped_dirs :: "string list" where
  "skipped_dirs = [''.git'', ''.hg'', ''.svn'', ''.venv'', ''venv'', ''node_modules'', ''__pycache__'',
     ''.northstack'', ''.mypy_cache'', ''.pytest_cache'', ''.ruff_cache'', ''dist'', ''build'', ''.idea'', ''.vscode'']"

definition extension_languages :: "(string \<times> string) list" where
  "extension_languages = [(''.py'', ''python''), (''.ts'', ''typescript''), (''.tsx'', ''typescript''),
     (''.js'', ''javascript''), (''.jsx'', ''javascript''), (''.rs'', ''rust''), (''.go'', ''go''), (''.java'', ''java''),
     (''.kt'', ''kotlin''), (''.c'', ''c''), (''.h'', ''c''), (''.cpp'', ''c++''), (''.hpp'', ''c++''), (''.cs'', ''c#''),
     (''.rb'', ''ruby''), (''.php'', ''php''), (''.swift'', ''swift''), (''.sh'', ''shell''), (''.ps1'', ''powershell''),
     (''.toml'', ''toml''), (''.md'', ''markdown''), (''.json'', ''json''), (''.yaml'', ''yaml''), (''.yml'', ''yaml'')]"

record repo_scan =
  rs_root :: string
  top_level :: "string list"
  rs_directories :: "string list"
  file_extensions :: "(string \<times> nat) list"
  key_files :: "(string \<times> string) list"
  entries_seen :: nat
  rs_files_seen :: nat
  rs_truncated :: bool

text \<open>The first extension with the greatest count among those of a known language.\<close>

definition primary_language :: "repo_scan \<Rightarrow> string" where
  "primary_language scan =
     fst (foldl (\<lambda>(best, n) (ext, k).
        let language = dict_get (map_of extension_languages) (casefold ext) []
        in if language \<noteq> [] \<and> n < k then (language, k) else (best, n)) ([], 0) (file_extensions scan))"

definition scan_summary :: "repo_scan \<Rightarrow> string" where
  "scan_summary scan = str_join ''; ''
     ([show_nat (rs_files_seen scan) @ '' files'']
      @ (if primary_language scan = [] then [] else [''primary language '' @ primary_language scan])
      @ (if key_files scan = [] then [] else [''manifests: '' @ str_join '', '' (sort (map fst (key_files scan)))])
      @ (if top_level scan = [] then []
         else [''top-level: '' @ str_join '', '' (take 8 (top_level scan))
           @ (if 8 < length (top_level scan) then '' (+'' @ show_nat (length (top_level scan) - 8) @ '' more)'' else [])])
      @ (if rs_truncated scan then [''scan truncated at bounds''] else []))"

text \<open>\<open>canonical\<close> is \<^verbatim>\<open>json.dumps\<close> with sorted keys of the fields without the root.\<close>

definition scan_fields :: "repo_scan \<Rightarrow> json" where
  "scan_fields scan = JObj
     [(''top_level'', JArr (map JStr (top_level scan))), (''directories'', JArr (map JStr (rs_directories scan))),
      (''file_extensions'', JObj (map (\<lambda>(k, n). (k, JInt (int n))) (file_extensions scan))),
      (''key_files'', JObj (map (\<lambda>(k, d). (k, JStr d)) (key_files scan))),
      (''entries_seen'', JInt (int (entries_seen scan))), (''files_seen'', JInt (int (rs_files_seen scan))),
      (''truncated'', JBool (rs_truncated scan))]"

definition scan_digest_of :: "(string \<Rightarrow> string) \<Rightarrow> (json \<Rightarrow> string) \<Rightarrow> repo_scan \<Rightarrow> string" where
  "scan_digest_of hex_sha canonical scan = ''sha256:'' @ hex_sha (canonical (scan_fields scan))"

subsection \<open>The walk\<close>

record scan_env =
  se_os :: os_env
  se_loads :: "string \<Rightarrow> json option"
  se_hex_sha :: "string \<Rightarrow> string"
  se_canonical :: "json \<Rightarrow> string"

text \<open>The names of a listing; a text that is no list of names raises, which the workspace never
  gives.\<close>

definition listed :: "scan_env \<Rightarrow> tool_result \<Rightarrow> string list" where
  "listed env r =
     (if tr_data r = [] then []
      else case se_loads env (tr_data r) of
        None \<Rightarrow> [] | Some v \<Rightarrow> (case str_list v of None \<Rightarrow> [] | Some ns \<Rightarrow> ns))"

definition shown_name :: "string \<Rightarrow> bool" where
  "shown_name n \<longleftrightarrow> n \<notin> set skipped_dirs \<and> \<not> starts_with ''.'' n"

text \<open>\<^verbatim>\<open>Path(name).suffix\<close> of a name or of the last part of a path.\<close>

definition path_suffix :: "string \<Rightarrow> string" where
  "path_suffix name =
     (let parts = path_parts name; base = (if parts = [] then [] else last parts);
          before = takeWhile (\<lambda>c. c \<noteq> CHR ''.'') (rev base); n = length before
      in if n = length base \<or> n = 0 \<or> n + 1 = length base then [] else CHR ''.'' # rev before)"

record scan_state =
  ss_top :: "string list"
  ss_dirs :: "string list"
  ss_exts :: "(string \<times> nat) list"
  ss_entries :: nat
  ss_files :: nat
  ss_cut :: bool

definition account_file :: "string \<Rightarrow> scan_state \<Rightarrow> scan_state" where
  "account_file name st =
     (let suffix = casefold (path_suffix name); st' = st\<lparr>ss_files := ss_files st + 1\<rparr>
      in if suffix = [] then st'
         else st'\<lparr>ss_exts := dict_set (ss_exts st') suffix (dict_get (map_of (ss_exts st')) suffix 0 + 1)\<rparr>)"

definition account_directory :: "nat \<Rightarrow> string \<Rightarrow> scan_state \<Rightarrow> bool \<times> scan_state" where
  "account_directory max_dirs name st =
     (if max_dirs \<le> length (ss_dirs st) then (False, st\<lparr>ss_cut := True\<rparr>)
      else (True, st\<lparr>ss_dirs := ss_dirs st @ [name]\<rparr>))"

fun scan_children :: "scan_env \<Rightarrow> workspace \<Rightarrow> nat \<Rightarrow> nat \<Rightarrow> string \<Rightarrow> string list \<Rightarrow> scan_state \<Rightarrow> ws_raise + scan_state" where
  "scan_children env ws max_entries max_dirs name [] st = Inr st"
| "scan_children env ws max_entries max_dirs name (c # cs) st =
     (if max_entries \<le> ss_entries st then Inr (st\<lparr>ss_cut := True\<rparr>)
      else let st1 = st\<lparr>ss_entries := ss_entries st + 1\<rparr>; path = name @ ''/'' @ c
        in case ws_list (se_os env) ws path of
             Inl e \<Rightarrow> Inl e
           | Inr r \<Rightarrow> scan_children env ws max_entries max_dirs name cs
               (if tr_ok r then snd (account_directory max_dirs path st1) else account_file path st1))"

fun scan_names :: "scan_env \<Rightarrow> workspace \<Rightarrow> nat \<Rightarrow> nat \<Rightarrow> string list \<Rightarrow> scan_state \<Rightarrow> ws_raise + scan_state" where
  "scan_names env ws max_entries max_dirs [] st = Inr st"
| "scan_names env ws max_entries max_dirs (name # names) st =
     (if max_entries \<le> ss_entries st then Inr (st\<lparr>ss_cut := True\<rparr>)
      else let st1 = st\<lparr>ss_entries := ss_entries st + 1, ss_top := ss_top st @ [name]\<rparr>
        in case ws_list (se_os env) ws name of
             Inl e \<Rightarrow> Inl e
           | Inr r \<Rightarrow>
               if \<not> tr_ok r then scan_names env ws max_entries max_dirs names (account_file name st1)
               else (case account_directory max_dirs name st1 of
                 (False, st2) \<Rightarrow> scan_names env ws max_entries max_dirs names st2
               | (True, st2) \<Rightarrow>
                   (case scan_children env ws max_entries max_dirs name (filter shown_name (listed env r))
                           (st2\<lparr>ss_cut := ss_cut st2 \<or> truncated r\<rparr>) of
                      Inl e \<Rightarrow> Inl e
                    | Inr st3 \<Rightarrow> scan_names env ws max_entries max_dirs names st3)))"

text \<open>The manifests among the top names; the flag says that a read was clipped.\<close>

fun scan_keys :: "scan_env \<Rightarrow> workspace \<Rightarrow> string list \<Rightarrow> string list \<Rightarrow> (string \<times> string) list \<Rightarrow> bool
    \<Rightarrow> ws_raise + (string \<times> string) list \<times> bool" where
  "scan_keys env ws seen_top [] found clipped = Inr (found, clipped)"
| "scan_keys env ws seen_top (k # ks) found clipped =
     (if k \<in> set seen_top \<and> length found < 12
      then case ws_read ws k of
        Inl e \<Rightarrow> Inl e
      | Inr r \<Rightarrow>
          if tr_ok r
          then let hex = se_hex_sha env (tr_data r);
                   entry = (if truncated r
                     then ''sha256-prefix:'' @ hex @ '':'' @ show_nat (length (tr_data r)) @ ''/'' @ show_nat (total_bytes r)
                     else ''sha256:'' @ hex)
               in scan_keys env ws seen_top ks (dict_set found k entry) (clipped \<or> truncated r)
          else scan_keys env ws seen_top ks found clipped
      else scan_keys env ws seen_top ks found clipped)"

definition capped_extensions :: "nat \<Rightarrow> (string \<times> nat) list \<Rightarrow> (string \<times> nat) list" where
  "capped_extensions max_extensions exts =
     (if max_extensions < length exts
      then take max_extensions (sort_key (\<lambda>(e, n). - int n) (sort_key fst exts)) else exts)"

definition scan_workspace ::
  "scan_env \<Rightarrow> workspace \<Rightarrow> string \<Rightarrow> nat \<Rightarrow> nat \<Rightarrow> nat \<Rightarrow> ws_raise + repo_scan" where
  "scan_workspace env ws root_text max_entries max_dirs max_extensions =
     (case ws_list (se_os env) ws ''.'' of
        Inl e \<Rightarrow> Inl e
      | Inr r \<Rightarrow>
          (let names = (if tr_ok r then sort (filter shown_name (listed env r)) else [])
           in case scan_names env ws max_entries max_dirs names
                \<lparr>ss_top = [], ss_dirs = [], ss_exts = [], ss_entries = 0, ss_files = 0, ss_cut = truncated r\<rparr> of
             Inl e \<Rightarrow> Inl e
           | Inr st \<Rightarrow>
               (case scan_keys env ws (ss_top st) key_files_known []
                       (ss_cut st \<or> max_extensions < length (ss_exts st)) of
                  Inl e \<Rightarrow> Inl e
                | Inr (keys, clipped) \<Rightarrow>
                    Inr \<lparr>rs_root = root_text, top_level = ss_top st, rs_directories = sort (ss_dirs st),
                      file_extensions = sort_key fst (capped_extensions max_extensions (ss_exts st)), key_files = keys,
                      entries_seen = ss_entries st, rs_files_seen = ss_files st, rs_truncated = clipped\<rparr>)))"

subsection \<open>Conventions\<close>

definition has_key_file :: "repo_scan \<Rightarrow> string \<Rightarrow> bool" where
  "has_key_file scan k \<longleftrightarrow> k \<in> fst ` set (key_files scan)"

definition conventions_from_scan :: "repo_scan \<Rightarrow> string list \<times> string list" where
  "conventions_from_scan scan =
     (let language = primary_language scan;
          said = (\<lambda>b t. if b then [t] else [])
      in (said (language \<noteq> []) (''workspace primarily contains '' @ language @ '' code'')
          @ said (has_key_file scan ''pyproject.toml'') ''python project defined by pyproject.toml''
          @ said (has_key_file scan ''requirements.txt'') ''dependencies pinned in requirements.txt''
          @ said (has_key_file scan ''package.json'') ''node project defined by package.json''
          @ said (has_key_file scan ''Cargo.toml'') ''rust crate defined by Cargo.toml''
          @ said (has_key_file scan ''go.mod'') ''go module defined by go.mod''
          @ said (''tests'' \<in> set (top_level scan) \<or> ''test'' \<in> set (top_level scan)) ''a dedicated tests directory exists''
          @ said (rs_truncated scan) ''workspace scan was truncated at bounds; verify scope manually'',
          said (has_key_file scan ''pyproject.toml'') ''use pyproject.toml as the project definition''
          @ said (has_key_file scan ''setup.py'') ''legacy setup.py present; prefer pyproject.toml for new config''
          @ said (has_key_file scan ''package.json'') ''use the package.json scripts as the command surface''
          @ said (list_ex (starts_with ''README'') (map fst (key_files scan)))
              ''README present; keep documentation conventions it establishes''))"

end
