(* ===== verification/Text_Patterns.thy ===== *)
theory Text_Patterns
  imports Text_Forms
begin

section \<open>Regular expressions (Python's re)\<close>

text \<open>
  A backtracking matcher for the patterns of the contract compiler: the ways a pattern matches at
  a position, in the order Python tries them, with what each group captured.  The classes
  \<^verbatim>\<open>\w\<close> and \<^verbatim>\<open>\s\<close> are those of ASCII, as for the names of \<open>Secrets_Policy\<close>.  A repetition without
  an upper bound is bounded by the length of the text, because each round takes a character.
\<close>

datatype rx =
    One "char \<Rightarrow> bool"
  | Then rx rx
  | Or rx rx
  | Skip
  | Boundary
  | Repeat nat "nat option" bool rx
  | Group string rx

text \<open>The character before the position, the text after it, and the captured groups.\<close>

record rx_pos =
  rp_before :: "char option"
  rp_rest :: string
  rp_groups :: "(string \<times> string) list"

definition word_char :: "char \<Rightarrow> bool" where
  "word_char c \<longleftrightarrow> is_alnum c \<or> c = CHR ''_''"

definition at_boundary :: "rx_pos \<Rightarrow> bool" where
  "at_boundary p \<longleftrightarrow>
     (case rp_before p of None \<Rightarrow> False | Some c \<Rightarrow> word_char c)
     \<noteq> (case rp_rest p of [] \<Rightarrow> False | c # _ \<Rightarrow> word_char c)"

text \<open>At least \<open>lo\<close> and at most \<open>hi\<close> rounds, the longest first unless \<open>lazy\<close>.\<close>

fun rounds :: "nat \<Rightarrow> nat \<Rightarrow> bool \<Rightarrow> ('a \<Rightarrow> 'a list) \<Rightarrow> 'a \<Rightarrow> 'a list" where
  "rounds lo 0 lazy f p = (if lo = 0 then [p] else [])"
| "rounds lo (Suc hi) lazy f p =
     (let further = concat (map (rounds (lo - 1) hi lazy f) (f p))
      in if 0 < lo then further else if lazy then p # further else further @ [p])"

fun rx_match :: "rx \<Rightarrow> rx_pos \<Rightarrow> rx_pos list" where
  "rx_match (One ok) p =
     (case rp_rest p of
        [] \<Rightarrow> []
      | c # cs \<Rightarrow> if ok c then [p\<lparr>rp_before := Some c, rp_rest := cs\<rparr>] else [])"
| "rx_match (Then r s) p = concat (map (rx_match s) (rx_match r p))"
| "rx_match (Or r s) p = rx_match r p @ rx_match s p"
| "rx_match Skip p = [p]"
| "rx_match Boundary p = (if at_boundary p then [p] else [])"
| "rx_match (Repeat lo hi lazy r) p =
     rounds lo (case hi of None \<Rightarrow> length (rp_rest p) | Some n \<Rightarrow> n) lazy (rx_match r) p"
| "rx_match (Group name r) p =
     map (\<lambda>q. q\<lparr>rp_groups := (name, take (length (rp_rest p) - length (rp_rest q)) (rp_rest p)) # rp_groups q\<rparr>)
       (rx_match r p)"

text \<open>\<^verbatim>\<open>pattern.search(text)\<close>: the first match at the leftmost position that has one.\<close>

fun search_from :: "rx \<Rightarrow> char option \<Rightarrow> string \<Rightarrow> rx_pos option" where
  "search_from r before s =
     (case rx_match r \<lparr>rp_before = before, rp_rest = s, rp_groups = []\<rparr> of
        m # ms \<Rightarrow> Some m
      | [] \<Rightarrow> (case s of [] \<Rightarrow> None | c # cs \<Rightarrow> search_from r (Some c) cs))"

definition rx_search :: "rx \<Rightarrow> string \<Rightarrow> rx_pos option" where
  "rx_search r s = search_from r None s"

subsection \<open>Building patterns\<close>

fun rx_seq :: "rx list \<Rightarrow> rx" where
  "rx_seq [] = Skip"
| "rx_seq [r] = r"
| "rx_seq (r # rs) = Then r (rx_seq rs)"

fun rx_any :: "rx list \<Rightarrow> rx" where
  "rx_any [] = Skip"
| "rx_any [r] = r"
| "rx_any (r # rs) = Or r (rx_any rs)"

text \<open>A literal under \<^verbatim>\<open>IGNORECASE\<close>.\<close>

definition rx_word :: "string \<Rightarrow> rx" where
  "rx_word s = rx_seq (map (\<lambda>c. One (\<lambda>d. to_lower d = to_lower c)) s)"

definition rx_opt :: "rx \<Rightarrow> rx" where
  "rx_opt r = Repeat 0 (Some 1) False r"

definition rx_many :: "rx \<Rightarrow> rx" where
  "rx_many r = Repeat 0 None False r"

definition rx_plus :: "rx \<Rightarrow> rx" where
  "rx_plus r = Repeat 1 None False r"

definition rx_spaces :: rx where
  "rx_spaces = rx_plus (One is_space)"

subsection \<open>What a match consumes\<close>

text \<open>A match is a prefix of the text, and a group holds a part of it.\<close>

definition reaches :: "rx_pos \<Rightarrow> rx_pos \<Rightarrow> bool" where
  "reaches p q \<longleftrightarrow> (\<exists>u. rp_rest p = u @ rp_rest q)
     \<and> (\<forall>n t. (n, t) \<in> set (rp_groups q) \<longrightarrow> (n, t) \<in> set (rp_groups p) \<or> (\<exists>a b. rp_rest p = a @ t @ b))"

lemma reaches_refl [simp]: "reaches p p"
  by (auto simp: reaches_def)

lemma reaches_trans: "reaches p q \<Longrightarrow> reaches q r \<Longrightarrow> reaches p r"
  unfolding reaches_def by (metis append.assoc)

lemma rounds_reaches:
  "(\<And>p q. q \<in> set (f p) \<Longrightarrow> reaches p q) \<Longrightarrow> q \<in> set (rounds lo hi lazy f p) \<Longrightarrow> reaches p q"
proof (induction lo hi lazy f p arbitrary: q rule: rounds.induct)
  case (2 lo hi lazy f p)
  have "reaches p q" if "x \<in> set (f p)" "q \<in> set (rounds (lo - 1) hi lazy f x)" for x
    using reaches_trans [OF "2.prems"(1) [OF that(1)]] "2.IH" [OF that(1) "2.prems"(1) that(2)] by simp
  with "2.prems"(2) show ?case by (auto simp: Let_def split: if_splits)
qed (auto split: if_splits)

lemma rx_match_reaches: "q \<in> set (rx_match r p) \<Longrightarrow> reaches p q"
proof (induction r p arbitrary: q rule: rx_match.induct)
  case (1 ok p)
  then show ?case by (cases "rp_rest p") (auto simp: reaches_def split: if_splits)
next
  case (2 r s p)
  then show ?case by (auto intro: reaches_trans)
next
  case (6 lo hi lazy r p)
  then show ?case by (auto intro: rounds_reaches)
next
  case (7 name r p)
  then obtain x where x: "x \<in> set (rx_match r p)"
    and q: "q = x\<lparr>rp_groups := (name, take (length (rp_rest p) - length (rp_rest x)) (rp_rest p)) # rp_groups x\<rparr>" by auto
  from "7.IH" [OF x] have r: "reaches p x" .
  have "rp_rest p = [] @ take n (rp_rest p) @ drop n (rp_rest p)" for n by simp
  with r show ?case unfolding q reaches_def by auto blast
qed (auto split: if_splits)

lemma search_from_groups:
  "search_from r before s = Some q \<Longrightarrow> (n, t) \<in> set (rp_groups q) \<Longrightarrow> \<exists>a b. s = a @ t @ b"
proof (induction r before s rule: search_from.induct)
  case (1 r before s)
  show ?case
  proof (cases "rx_match r \<lparr>rp_before = before, rp_rest = s, rp_groups = []\<rparr>")
    case (Cons m ms)
    with "1.prems" rx_match_reaches [of m r "\<lparr>rp_before = before, rp_rest = s, rp_groups = []\<rparr>"] show ?thesis
      by (auto simp: reaches_def)
  next
    case Nil
    with "1.prems" obtain c cs where s: "s = c # cs" "search_from r (Some c) cs = Some q"
      by (auto split: list.splits)
    from "1.IH" [OF Nil s "1.prems"(2)] obtain a b where "cs = a @ t @ b" by blast
    with s show ?thesis by (metis append_Cons)
  qed
qed

lemma rx_search_groups:
  assumes "rx_search r s = Some q" "map_of (rp_groups q) n = Some t"
  shows "\<exists>a b. s = a @ t @ b"
  using search_from_groups [OF assms(1) [unfolded rx_search_def] map_of_SomeD [OF assms(2)]] .

declare search_from.simps [simp del]

end
