(* ===== verification/Contracting.thy ===== *)
theory Contracting
  imports Intake_Scan Text_Patterns Tree_Digest Config Wire Events
begin

section \<open>Analyses and contracts (application/contracting.py)\<close>

text \<open>
  What turns a request into a contract: the three analyses (the deterministic reading of a goal,
  or the answers of a model), the repairs of the proposed criteria, the synthesizer and the
  validator.  A criterion on its way is a dict, here an association list.  Parameters: the
  gateway, \<^verbatim>\<open>json\<close>, pydantic's criterion union and float, \<^verbatim>\<open>str\<close> of a value that is no text,
  SHA-256, the clock, and what the file system answers outside the workspace tree.
\<close>

type_synonym dict = "(string \<times> json) list"

datatype contract_defect =
    Empty_objective
  | No_deliverables
  | No_criteria
  | Unknown_tools "string list"
  | Unknown_commands "string list"
  | Token_limit_exceeded "int option" int
  | Cost_limit_exceeded "rat option" rat
  | Ambiguous_without_threshold

datatype compile_error =
    Unhashable_value
  | Bad_analysis
  | Bad_contract
  | Embedded_null_in_path
  | Scan_raised ws_raise
  | Tree_failed tree_error
  | Unreadable string
  | Falsified string
  | Invalid_contract "contract_defect list"

text \<open>\<^verbatim>\<open>(root / path).read_text(errors="ignore")\<close>.\<close>

datatype read_answer = Read_text string | Read_os_error | Read_null

record contract_lib =
  cl_decode :: raw_decoder
  cl_loads :: "string \<Rightarrow> json option"
  cl_str :: "json \<Rightarrow> string"
  cl_float :: "json \<Rightarrow> rat option"
  cl_criterion :: "dict \<Rightarrow> string list + acceptance_criterion"
  cl_gateway :: "model_request \<Rightarrow> model_response option"
  cl_read :: "string \<Rightarrow> read_answer"
  cl_follow :: "string list \<Rightarrow> node option"
  cl_scan :: scan_env
  cl_sha :: "string \<Rightarrow> string"
  cl_tree_limits :: tree_limits
  cl_contract_id :: string

definition text_of :: "contract_lib \<Rightarrow> json \<Rightarrow> string" where
  "text_of lib v = (case v of JStr s \<Rightarrow> s | _ \<Rightarrow> cl_str lib v)"

record requirements_analysis =
  ra_scope :: string
  ra_deliverables :: "string list"
  ra_constraints :: "string list"
  ra_assumptions :: "string list"
  ra_ambiguities :: "string list"

record repo_analysis =
  pa_workspace_scope :: string
  pa_conventions :: "string list"
  pa_patterns :: "string list"
  pa_restrictions :: "string list"
  pa_scan_digest :: string

record acceptance_analysis =
  aa_criteria :: "dict list"
  aa_risks :: "string list"
  aa_ambiguities :: "string list"
  aa_threshold :: rat

subsection \<open>Goals that need no model\<close>

definition quote_char :: "char \<Rightarrow> bool" where
  "quote_char c \<longleftrightarrow> c \<in> {CHR 0x27, CHR 0x22, CHR 0x60}"

definition path_char :: "char \<Rightarrow> bool" where
  "path_char c \<longleftrightarrow> word_char c \<or> c \<in> {CHR ''.'', CHR ''/'', CHR 0x5C, CHR ''-''}"

definition not_newline :: "char \<Rightarrow> bool" where
  "not_newline c \<longleftrightarrow> c \<noteq> CHR 0x0A"

text \<open>\<^verbatim>\<open>_FILE_CONTENT_GOAL\<close>.\<close>

definition file_content_goal :: rx where
  "file_content_goal = rx_seq
     [Boundary, rx_any [rx_word ''create'', rx_word ''write'', rx_word ''make''], Boundary,
      rx_opt (Then rx_spaces (rx_word ''a'')), rx_spaces, rx_word ''file'',
      rx_opt (Then rx_spaces (rx_any [rx_word ''called'', rx_word ''named'', rx_word ''at''])), rx_spaces,
      rx_opt (One quote_char),
      Group ''path'' (rx_seq [rx_plus (One path_char), One (\<lambda>c. c = CHR ''.''), rx_plus (One word_char)]),
      rx_opt (One quote_char),
      Repeat 0 None True (One not_newline),
      Boundary,
      rx_any [Then (rx_word ''contain'') (rx_opt (rx_any [rx_word ''ing'', rx_word ''s''])),
        rx_seq [rx_word ''with'', rx_opt (Then rx_spaces (rx_word ''the'')), rx_spaces,
          rx_any [rx_word ''text'', rx_word ''content'', rx_word ''string'']]],
      Boundary,
      rx_many (One is_space),
      rx_opt (rx_seq [rx_word ''the'', rx_spaces, rx_word ''text'', rx_many (One is_space)]),
      One quote_char,
      Group ''text'' (Repeat 1 None True (One not_newline)),
      One quote_char]"

definition deterministic_file_content_analysis :: "string \<Rightarrow> (string \<times> string) option" where
  "deterministic_file_content_analysis goal_text =
     (case rx_search file_content_goal goal_text of
        None \<Rightarrow> None
      | Some m \<Rightarrow>
          (case (map_of (rp_groups m) ''path'', map_of (rp_groups m) ''text'') of
             (Some p, Some t) \<Rightarrow> if strip p = [] \<or> t = [] then None else Some (strip p, t)
           | _ \<Rightarrow> None))"

text \<open>\<^verbatim>\<open>_TEST_GOAL_RE\<close>.\<close>

definition in_sentence :: rx where
  "in_sentence = Or (One (\<lambda>c. c \<noteq> CHR 0x0A \<and> c \<noteq> CHR ''.''))
     (Then (One (\<lambda>c. c = CHR ''.'')) (One (\<lambda>c. \<not> is_space c)))"

definition passing :: rx where
  "passing = Then (rx_word ''pass'') (rx_opt (rx_any [rx_word ''es'', rx_word ''ing'']))"

definition test_word :: rx where
  "test_word = Then (rx_word ''test'') (rx_opt (rx_word ''s''))"

definition test_goal :: rx where
  "test_goal = rx_any
     [rx_seq [Boundary, rx_any [test_word, rx_word ''suite''], Boundary,
        Repeat 0 (Some 80) False in_sentence, Boundary, passing, Boundary],
      rx_seq [Boundary, passing, Boundary, Repeat 0 (Some 40) False in_sentence, Boundary,
        rx_any [rx_word ''pytest'', rx_word ''suite''], Boundary],
      rx_seq [Boundary, rx_word ''run'', rx_opt (rx_word ''ning''), rx_spaces,
        rx_opt (Then (rx_word ''the'') rx_spaces), test_word, Boundary]]"

definition is_test_goal :: "string \<Rightarrow> bool" where
  "is_test_goal goal_text \<longleftrightarrow> rx_search test_goal goal_text \<noteq> None"

subsection \<open>Proposed criteria\<close>

definition kind_values :: "string list" where
  "kind_values = map criterion_kind_value all_criterion_kinds"

text \<open>\<^verbatim>\<open>_coerce_criteria\<close>: the membership test hashes the kind.\<close>

fun coerce_list :: "contract_lib \<Rightarrow> json list \<Rightarrow> compile_error + dict list" where
  "coerce_list lib [] = Inr []"
| "coerce_list lib (JObj c # cs) =
     (let kind = field c ''kind'' JNull; params = field c ''parameters'' JNull
      in if \<not> hashable kind then Inl Unhashable_value
         else case coerce_list lib cs of
           Inl e \<Rightarrow> Inl e
         | Inr out \<Rightarrow>
             Inr ((case (kind, params) of
                     (JStr k, JObj ps) \<Rightarrow>
                       if k \<in> set kind_values
                       then [[(''kind'', JStr k),
                              (''description'', JStr (text_of lib (field c ''description'' (JStr [])))),
                              (''parameters'', JObj ps)]]
                       else []
                   | _ \<Rightarrow> []) @ out))"
| "coerce_list lib (c # cs) = coerce_list lib cs"

definition coerce_criteria :: "contract_lib \<Rightarrow> json \<Rightarrow> compile_error + dict list" where
  "coerce_criteria lib data =
     (case data of
        JObj kvs \<Rightarrow> (case field kvs ''criteria'' JNull of JArr cs \<Rightarrow> coerce_list lib cs | _ \<Rightarrow> Inr [])
      | _ \<Rightarrow> Inr [])"

text \<open>\<^verbatim>\<open>c.get("parameters", {})\<close> of a dict, and \<^verbatim>\<open>c.get("kind")\<close>.\<close>

definition params_of :: "dict \<Rightarrow> dict" where
  "params_of c = (case field c ''parameters'' (JObj []) of JObj ps \<Rightarrow> ps | _ \<Rightarrow> [])"

definition has_kind :: "string \<Rightarrow> dict \<Rightarrow> bool" where
  "has_kind k c \<longleftrightarrow> field c ''kind'' JNull = JStr k"

text \<open>\<^verbatim>\<open>_IDENT_RE.findall\<close>.\<close>

definition ident_start :: "char \<Rightarrow> bool" where
  "ident_start c \<longleftrightarrow> is_alpha c \<or> c = CHR ''_''"

function idents :: "string \<Rightarrow> string list" where
  "idents [] = []"
| "idents (c # cs) =
     (let rest = takeWhile word_char cs
      in if ident_start c \<and> 2 \<le> length rest then (c # rest) # idents (drop (length rest) cs) else idents cs)"
  by pat_completeness auto

termination by (relation "measure length") (auto simp: le_imp_less_Suc)

definition python_keywords :: "string list" where
  "python_keywords = [''False'', ''None'', ''True'', ''and'', ''as'', ''assert'', ''async'', ''await'', ''break'',
     ''class'', ''continue'', ''def'', ''del'', ''elif'', ''else'', ''except'', ''finally'', ''for'', ''from'',
     ''global'', ''if'', ''import'', ''in'', ''is'', ''lambda'', ''nonlocal'', ''not'', ''or'', ''pass'', ''raise'',
     ''return'', ''try'', ''while'', ''with'', ''yield'']"

definition ungrounded :: "string \<Rightarrow> string \<Rightarrow> bool" where
  "ungrounded needle corpus \<longleftrightarrow>
     list_ex (\<lambda>t. \<not> contains t corpus) (filter (\<lambda>t. t \<notin> set python_keywords) (idents needle))"

definition without_key :: "string \<Rightarrow> dict \<Rightarrow> dict" where
  "without_key k d = filter (\<lambda>(k', v). k' \<noteq> k) d"

text \<open>\<^verbatim>\<open>_drop_ungrounded_content_checks\<close>: one criterion; the paths asserted to exist so far.\<close>

definition ground_one ::
  "contract_lib \<Rightarrow> string \<Rightarrow> dict \<Rightarrow> string set \<Rightarrow> compile_error + dict option" where
  "ground_one lib goal_text c asserted =
     (let params = params_of c; path = text_of lib (field params ''path'' (JStr []))
      in case field params ''content_contains'' JNull of
           JStr needle \<Rightarrow>
             if \<not> has_kind ''file_diff'' c \<or> needle = [] then Inr (Some c)
             else (let decided = (\<lambda>corpus.
                     if \<not> ungrounded needle corpus then Inr (Some c)
                     else let params' = without_key ''content_contains'' params
                       in if path \<in> asserted \<and> falsy (field params' ''content_hash'' JNull)
                             \<and> falsy (field params' ''content_equals'' JNull)
                          then Inr None else Inr (Some (dict_set c ''parameters'' (JObj params'))))
                   in case cl_read lib path of
                        Read_text t \<Rightarrow> decided (goal_text @ t)
                      | Read_os_error \<Rightarrow> decided goal_text
                      | Read_null \<Rightarrow> Inl Embedded_null_in_path)
         | _ \<Rightarrow> Inr (Some c))"

fun drop_ungrounded :: "contract_lib \<Rightarrow> string \<Rightarrow> dict list \<Rightarrow> string set \<Rightarrow> compile_error + dict list" where
  "drop_ungrounded lib goal_text [] asserted = Inr []"
| "drop_ungrounded lib goal_text (c # cs) asserted =
     (case ground_one lib goal_text c asserted of
        Inl e \<Rightarrow> Inl e
      | Inr None \<Rightarrow> drop_ungrounded lib goal_text cs asserted
      | Inr (Some c') \<Rightarrow>
          (let path = text_of lib (field (params_of c) ''path'' (JStr []));
               asserted' = (if has_kind ''file_diff'' c' \<and> \<not> falsy (field (params_of c') ''must_exist'' JNull)
                 then insert path asserted else asserted)
           in case drop_ungrounded lib goal_text cs asserted' of
                Inl e \<Rightarrow> Inl e | Inr out \<Rightarrow> Inr (c' # out)))"

subsection \<open>Asking the model\<close>

definition json_retry_factor :: nat where
  "json_retry_factor = 4"

definition json_request :: "string \<Rightarrow> string \<Rightarrow> dict \<Rightarrow> nat \<Rightarrow> model_request" where
  "json_request profile prompt schema budget =
     \<lparr>mr_profile = profile, mr_messages = [\<lparr>msg_role = Role_USER, msg_content = prompt, msg_images = [],
        msg_tool_calls = [], msg_tool_call_id = [], msg_is_error = False\<rparr>],
      mr_system = [], mr_tools = [], mr_output_schema = Some schema, mr_max_output_tokens = Some budget,
      mr_temperature = Some 0, mr_seed = None\<rparr>"

text \<open>\<^verbatim>\<open>_complete_json\<close>: Python's \<^verbatim>\<open>None\<close> and the JSON text null are both \<open>JNull\<close>.\<close>

fun complete_json :: "contract_lib \<Rightarrow> string \<Rightarrow> string \<Rightarrow> dict \<Rightarrow> nat list \<Rightarrow> json" where
  "complete_json lib profile prompt schema [] = JNull"
| "complete_json lib profile prompt schema (budget # budgets) =
     (case cl_gateway lib (json_request profile prompt schema budget) of
        None \<Rightarrow> JNull
      | Some r \<Rightarrow>
          (let answer = strip (mres_text r)
           in case extract_first_json_object (cl_decode lib) answer of
                Some kvs \<Rightarrow> JObj kvs
              | None \<Rightarrow>
                  (case cl_loads lib answer of
                     Some v \<Rightarrow> v
                   | None \<Rightarrow>
                       if answer \<noteq> [] \<and> mres_finish r \<noteq> MAX_TOKENS then JNull
                       else complete_json lib profile prompt schema budgets)))"

definition token_budgets :: "nat \<Rightarrow> nat list" where
  "token_budgets n = [n, n * json_retry_factor]"

subsection \<open>The three analyses\<close>

definition string_type :: json where
  "string_type = JObj [(''type'', JStr ''string'')]"

definition string_array :: json where
  "string_array = JObj [(''type'', JStr ''array''), (''items'', string_type)]"

definition acceptance_schema :: dict where
  "acceptance_schema =
     [(''type'', JStr ''object''),
      (''properties'', JObj
        [(''criteria'', JObj [(''type'', JStr ''array''), (''items'', JObj
            [(''type'', JStr ''object''),
             (''properties'', JObj
               [(''kind'', JObj [(''type'', JStr ''string''), (''enum'', JArr (map JStr
                    [''command'', ''file_diff'', ''policy'', ''soft_rubric'']))]),
                (''description'', string_type), (''parameters'', JObj [(''type'', JStr ''object'')])]),
             (''required'', JArr (map JStr [''kind'', ''description'', ''parameters''])),
             (''additionalProperties'', JBool False)])]),
         (''risks'', string_array), (''ambiguities'', string_array),
         (''recommended_abstention_threshold'', JObj [(''type'', JStr ''number'')])]),
      (''required'', JArr (map JStr [''criteria'', ''risks'', ''ambiguities''])),
      (''additionalProperties'', JBool False)]"

definition requirements_schema :: dict where
  "requirements_schema =
     [(''type'', JStr ''object''),
      (''properties'', JObj [(''scope'', string_type), (''deliverables'', string_array),
         (''constraints'', string_array), (''assumptions'', string_array), (''ambiguities'', string_array)]),
      (''required'', JArr (map JStr [''scope'', ''deliverables''])),
      (''additionalProperties'', JBool False)]"

definition requirements_prompt :: "string \<Rightarrow> string" where
  "requirements_prompt goal_text =
     ''You are a requirements analyst. Given the project goal, return a ''
     @ ''compact JSON object with keys: scope, deliverables (list of named ''
     @ ''deliverables), constraints, assumptions, ambiguities. Be concrete ''
     @ ''and minimal.'' @ newline @ newline @ ''Goal:'' @ newline @ goal_text"

text \<open>\<^verbatim>\<open>repr\<close> of a command name, which is an identifier.\<close>

definition acceptance_prompt :: "string list \<Rightarrow> string \<Rightarrow> string \<Rightarrow> string" where
  "acceptance_prompt names summary goal_text =
     ''You are an acceptance-criteria engineer. Produce executable, ''
     @ ''hard-checkable acceptance criteria for the goal below. Prefer ''
     @ quoted ''file_diff'' @ '' criteria (parameters: path, must_exist=true, ''
     @ ''content_contains=<exact substring the deliverable must contain>) ''
     @ ''and '' @ quoted ''command'' @ '' criteria (parameters: command_name=''
     @ (if names = [] then ''<a known command profile>'' else ''one of '' @ str_join '', '' (map quoted names))
     @ '', exit_code=0 -- a criterion asserting any other exit code is never ''
     @ ''useful). A '' @ quoted ''soft_rubric'' @ '' costs the run its verdict unless the ''
     @ ''reviewer panel was calibrated for that criterion'' @ [CHR 0x27] @ ''s position, so ''
     @ ''reach for one only when no command or file check can express the ''
     @ ''check at all. In particular, '' @ quoted ''the code/tests handle X'' @ '' is a ''
     @ ''file_diff on that file with content_contains=<the token X appears ''
     @ ''as>, not a rubric. Return JSON: ''
     @ ''{criteria:[{kind,description,parameters}], risks:[], ambiguities:[], ''
     @ ''recommended_abstention_threshold:0.5}. For a file whose contents ''
     @ ''matter, always set content_contains to the exact required text.''
     @ newline @ newline @ ''Workspace facts: '' @ summary @ newline @ newline
     @ ''Goal:'' @ newline @ goal_text"

definition bare_requirements :: "string \<Rightarrow> requirements_analysis" where
  "bare_requirements scope_text = \<lparr>ra_scope = scope_text, ra_deliverables = [], ra_constraints = [],
     ra_assumptions = [], ra_ambiguities = []\<rparr>"

datatype analysis_runner =
    Fixed_runner requirements_analysis repo_analysis acceptance_analysis
  | Model_runner string nat "string list"

text \<open>\<^verbatim>\<open>run_requirements\<close>: a value of the wrong type falls back to the goal alone.\<close>

definition run_requirements :: "contract_lib \<Rightarrow> analysis_runner \<Rightarrow> project_request \<Rightarrow> requirements_analysis" where
  "run_requirements lib runner req =
     (case runner of
        Fixed_runner r p a \<Rightarrow> r
      | Model_runner profile max_out names \<Rightarrow>
          (case deterministic_file_content_analysis (goal req) of
             Some (path, t) \<Rightarrow> (bare_requirements (goal req))\<lparr>ra_deliverables := [path]\<rparr>
           | None \<Rightarrow>
               (case complete_json lib profile (requirements_prompt (goal req)) requirements_schema (token_budgets max_out) of
                  JObj d \<Rightarrow>
                    (case (or_else (field d ''scope'' (JStr [])) (JStr (goal req)),
                           str_list (or_else (field d ''deliverables'' JNull) (JArr [])),
                           str_list (field d ''constraints'' (JArr [])), str_list (field d ''assumptions'' (JArr [])),
                           str_list (field d ''ambiguities'' (JArr []))) of
                       (JStr s, Some ds, Some cs, Some as, Some ambs) \<Rightarrow>
                         \<lparr>ra_scope = s, ra_deliverables = ds, ra_constraints = cs, ra_assumptions = as,
                          ra_ambiguities = ambs\<rparr>
                     | _ \<Rightarrow> bare_requirements (goal req))
                | _ \<Rightarrow> bare_requirements (goal req))))"

definition run_repo :: "contract_lib \<Rightarrow> workspace \<Rightarrow> analysis_runner \<Rightarrow> project_request \<Rightarrow> compile_error + repo_analysis" where
  "run_repo lib ws runner req =
     (case runner of
        Fixed_runner r p a \<Rightarrow> Inr p
      | Model_runner profile max_out names \<Rightarrow>
          (case scan_workspace (cl_scan lib) ws (workspace_root req) 400 60 24 of
             Inl e \<Rightarrow> Inl (Scan_raised e)
           | Inr scan \<Rightarrow>
               (case conventions_from_scan scan of
                  (conventions, patterns) \<Rightarrow>
                    Inr \<lparr>pa_workspace_scope = workspace_root req, pa_conventions = conventions, pa_patterns = patterns,
                      pa_restrictions = [],
                      pa_scan_digest = scan_digest_of (se_hex_sha (cl_scan lib)) (se_canonical (cl_scan lib)) scan\<rparr>)))"

definition content_criterion :: "string \<Rightarrow> string \<Rightarrow> dict" where
  "content_criterion path t =
     [(''kind'', JStr ''file_diff''),
      (''description'', JStr (''file '' @ quoted path @ '' contains the required text'')),
      (''parameters'', JObj [(''path'', JStr path), (''must_exist'', JBool True), (''content_contains'', JStr t)])]"

definition default_rubric :: dict where
  "default_rubric = [(''kind'', JStr ''soft_rubric''), (''description'', JStr ''default quality rubric''),
     (''parameters'', JObj [])]"

text \<open>\<^verbatim>\<open>run_acceptance\<close>.  The model of the analysis refuses risks or ambiguities that are no lists of
  texts, and a threshold that is no number.\<close>

definition run_acceptance ::
  "contract_lib \<Rightarrow> workspace \<Rightarrow> analysis_runner \<Rightarrow> project_request \<Rightarrow> compile_error + acceptance_analysis" where
  "run_acceptance lib ws runner req =
     (case runner of
        Fixed_runner r p a \<Rightarrow> Inr a
      | Model_runner profile max_out names \<Rightarrow>
          (case deterministic_file_content_analysis (goal req) of
             Some (path, t) \<Rightarrow>
               Inr \<lparr>aa_criteria = [content_criterion path t], aa_risks = [], aa_ambiguities = [], aa_threshold = 1 / 2\<rparr>
           | None \<Rightarrow>
               (case scan_workspace (cl_scan lib) ws (workspace_root req) 200 60 24 of
                  Inl e \<Rightarrow> Inl (Scan_raised e)
                | Inr scan \<Rightarrow>
                    (let data = complete_json lib profile (acceptance_prompt names (scan_summary scan) (goal req))
                            acceptance_schema (token_budgets max_out)
                     in case coerce_criteria lib data of
                          Inl e \<Rightarrow> Inl e
                        | Inr proposed \<Rightarrow>
                            (case drop_ungrounded lib (goal req) proposed {} of
                               Inl e \<Rightarrow> Inl e
                             | Inr criteria \<Rightarrow>
                                 (let d = (case data of JObj kvs \<Rightarrow> kvs | _ \<Rightarrow> [])
                                  in case (str_list (field d ''risks'' (JArr [])), str_list (field d ''ambiguities'' (JArr [])),
                                           cl_float lib (field d ''recommended_abstention_threshold'' (JFloat (1 / 2)))) of
                                       (Some risks, Some ambs, Some t) \<Rightarrow>
                                         Inr \<lparr>aa_criteria = (if criteria = [] then [default_rubric] else criteria),
                                           aa_risks = risks, aa_ambiguities = ambs, aa_threshold = t\<rparr>
                                     | _ \<Rightarrow> Inl Bad_analysis))))))"

subsection \<open>Repairs against the configuration\<close>

definition runs_pytest :: "command_config \<Rightarrow> bool" where
  "runs_pytest c \<longleftrightarrow> list_ex (contains ''pytest'') (argv c)"

definition pytest_command_name :: "northstack_config \<Rightarrow> string option" where
  "pytest_command_name cfg = map_option cc_name (find runs_pytest (commands cfg))"

text \<open>One criterion of \<^verbatim>\<open>_normalize_command_criteria\<close>; \<open>None\<close> drops it.\<close>

definition normalize_one :: "northstack_config \<Rightarrow> dict \<Rightarrow> compile_error + dict option" where
  "normalize_one cfg c =
     (let params = params_of c; proposed = field params ''command_name'' JNull;
          pytest_profiles = map cc_name (filter runs_pytest (commands cfg))
      in if \<not> has_kind ''command'' c then Inr (Some c)
         else if \<not> hashable proposed then Inl Unhashable_value
         else if (case proposed of JStr n \<Rightarrow> n \<in> cc_name ` set (commands cfg) | _ \<Rightarrow> False) then Inr (Some c)
         else case pytest_profiles of
           [n] \<Rightarrow> Inr (Some (dict_set c ''parameters'' (JObj (dict_set params ''command_name'' (JStr n)))))
         | _ \<Rightarrow> Inr None)"

fun normalize_list :: "northstack_config \<Rightarrow> dict list \<Rightarrow> compile_error + dict list" where
  "normalize_list cfg [] = Inr []"
| "normalize_list cfg (c # cs) =
     (case normalize_one cfg c of
        Inl e \<Rightarrow> Inl e
      | Inr r \<Rightarrow>
          (case normalize_list cfg cs of
             Inl e \<Rightarrow> Inl e
           | Inr out \<Rightarrow> Inr ((case r of None \<Rightarrow> [] | Some c' \<Rightarrow> [c']) @ out)))"

definition normalize_command_criteria ::
  "northstack_config option \<Rightarrow> acceptance_analysis \<Rightarrow> compile_error + acceptance_analysis" where
  "normalize_command_criteria config acc =
     (case config of
        None \<Rightarrow> Inr acc
      | Some cfg \<Rightarrow>
          if commands cfg = [] then Inr acc
          else map_sum id (\<lambda>cs. acc\<lparr>aa_criteria := cs\<rparr>) (normalize_list cfg (aa_criteria acc)))"

subsection \<open>Goals that ask for passing tests\<close>

definition pytest_tamper_files :: "string list" where
  "pytest_tamper_files = [''conftest.py'', ''pytest.ini'', ''tox.ini'', ''setup.cfg'', ''pyproject.toml'']"

text \<open>What \<^verbatim>\<open>is_dir\<close>, \<^verbatim>\<open>exists\<close> and \<^verbatim>\<open>read_bytes\<close> see: they follow a link.\<close>

definition entry_seen :: "contract_lib \<Rightarrow> workspace \<Rightarrow> string list \<Rightarrow> node option" where
  "entry_seen lib ws path =
     (case entry_at (tree ws) path of Some Link \<Rightarrow> cl_follow lib path | r \<Rightarrow> r)"

definition seen_dir :: "contract_lib \<Rightarrow> workspace \<Rightarrow> string list \<Rightarrow> bool" where
  "seen_dir lib ws path = (case entry_seen lib ws path of Some nd \<Rightarrow> is_directory nd | None \<Rightarrow> False)"

definition test_file_name :: "string \<Rightarrow> bool" where
  "test_file_name n \<longleftrightarrow> starts_with ''test_'' n \<and> ends_with ''.py'' n"

text \<open>\<^verbatim>\<open>rglob("test_*.py")\<close>: every entry with such a name below a directory.\<close>

fun test_paths :: "string list \<Rightarrow> string \<times> node \<Rightarrow> string list list" where
  "test_paths upper (n, Directory kids) =
     (if test_file_name n then [upper @ [n]] else []) @ concat (map (test_paths (upper @ [n])) kids)"
| "test_paths upper (n, nd) = (if test_file_name n then [upper @ [n]] else [])"

definition kids_of :: "node option \<Rightarrow> (string \<times> node) list" where
  "kids_of nd = (case nd of Some (Directory kids) \<Rightarrow> kids | _ \<Rightarrow> [])"

definition root_test_files :: "workspace \<Rightarrow> string list list" where
  "root_test_files ws = map (\<lambda>n. [n]) (filter test_file_name (map fst (kids_of (Some (tree ws)))))"

text \<open>The keys of \<open>have\<close>: kind, then name of the command or path, then exit code.\<close>

definition have_name :: "dict \<Rightarrow> json" where
  "have_name c = or_else (field (params_of c) ''command_name'' JNull) (field (params_of c) ''path'' (JStr []))"

definition have_exit :: "dict \<Rightarrow> json" where
  "have_exit c = field (params_of c) ''exit_code'' (JInt 0)"

definition all_hashable :: "dict list \<Rightarrow> bool" where
  "all_hashable cs \<longleftrightarrow>
     list_all (\<lambda>c. hashable (field c ''kind'' JNull) \<and> hashable (have_name c) \<and> hashable (have_exit c)) cs"

definition have_key :: "dict list \<Rightarrow> string \<Rightarrow> string \<Rightarrow> bool" where
  "have_key cs k n \<longleftrightarrow>
     list_ex (\<lambda>c. has_kind k c \<and> have_name c = JStr n \<and> have_exit c \<in> {JInt 0, JFloat 0, JBool False}) cs"

definition suite_criterion :: "string \<Rightarrow> dict" where
  "suite_criterion cmd =
     [(''kind'', JStr ''command''),
      (''description'', JStr (''command '' @ quoted cmd @ '' exits 0 -- full test suite passes'')),
      (''parameters'', JObj [(''command_name'', JStr cmd), (''exit_code'', JInt 0)])]"

definition genuine_fix_rubric :: dict where
  "genuine_fix_rubric =
     [(''kind'', JStr ''soft_rubric''),
      (''description'', JStr (''genuine fix: the product code addresses the reported ''
         @ ''defect generally, not by hardcoding outputs for the ''
         @ ''exact inputs the tests assert''))]"

definition tree_criterion :: "string \<Rightarrow> dict" where
  "tree_criterion digest_text =
     [(''kind'', JStr ''tree_digest''),
      (''description'', JStr (quoted ''tests/'' @ '' tree is byte-identical to compile time ''
         @ ''(no edits, deletions, or added files)'')),
      (''parameters'', JObj [(''path'', JStr ''tests''), (''tree_hash'', JStr digest_text)])]"

definition pin_criterion :: "string \<Rightarrow> string \<Rightarrow> string option \<Rightarrow> dict" where
  "pin_criterion rel description hash =
     [(''kind'', JStr ''file_diff''), (''description'', JStr description),
      (''parameters'', JObj ([(''path'', JStr rel), (''must_exist'', JBool (hash \<noteq> None))]
         @ (case hash of None \<Rightarrow> [] | Some h \<Rightarrow> [(''content_hash'', JStr h)])))]"

text \<open>The hash of a file that must stay as it is; a directory cannot be read.\<close>

definition pinned_hash :: "contract_lib \<Rightarrow> workspace \<Rightarrow> string list \<Rightarrow> compile_error + string" where
  "pinned_hash lib ws path =
     (case entry_seen lib ws path of
        Some (File content) \<Rightarrow> Inr (hexdigest (cl_sha lib) content)
      | _ \<Rightarrow> Inl (Unreadable (as_posix path)))"

text \<open>\<^verbatim>\<open>pin\<close>, and the same for a file of the configuration of pytest: a file that is there is pinned to
  its content, one that is not must not appear.\<close>

definition pin_file ::
  "contract_lib \<Rightarrow> workspace \<Rightarrow> dict list \<Rightarrow> (string \<Rightarrow> string) \<Rightarrow> string list \<Rightarrow> bool \<Rightarrow> compile_error + dict list" where
  "pin_file lib ws have kept path wanted =
     (let rel = as_posix path
      in if have_key have ''file_diff'' rel then Inr []
         else if \<not> wanted
         then Inr [pin_criterion rel (''pytest tamper guard: '' @ quoted rel @ '' must not be created'') None]
         else case pinned_hash lib ws path of
           Inl e \<Rightarrow> Inl e
         | Inr h \<Rightarrow> Inr [pin_criterion rel (kept rel) (Some h)])"

fun pin_files ::
  "contract_lib \<Rightarrow> workspace \<Rightarrow> dict list \<Rightarrow> (string \<Rightarrow> string) \<Rightarrow> (string list \<times> bool) list \<Rightarrow> compile_error + dict list" where
  "pin_files lib ws have kept [] = Inr []"
| "pin_files lib ws have kept ((path, wanted) # ps) =
     (case pin_file lib ws have kept path wanted of
        Inl e \<Rightarrow> Inl e
      | Inr a \<Rightarrow> (case pin_files lib ws have kept ps of Inl e \<Rightarrow> Inl e | Inr b \<Rightarrow> Inr (a @ b)))"

definition byte_identical :: "string \<Rightarrow> string" where
  "byte_identical rel = quoted rel @ '' must stay byte-identical''"

definition config_identical :: "string \<Rightarrow> string" where
  "config_identical rel = ''pytest config '' @ quoted rel @ '' must stay byte-identical''"

text \<open>The pins of the tests: one digest of the tree, unless the criteria write to it.\<close>

definition test_pins :: "contract_lib \<Rightarrow> workspace \<Rightarrow> dict list \<Rightarrow> dict list \<Rightarrow> compile_error + dict list" where
  "test_pins lib ws have criteria =
     (let tests = seen_dir lib ws [''tests''];
          writes_tests = list_ex (\<lambda>c. starts_with ''tests/'' (text_of lib (field (params_of c) ''path'' (JStr [])))) criteria
      in if tests \<and> \<not> writes_tests
         then if list_ex (has_kind ''tree_digest'') criteria then Inr []
           else (case compute_tree_digest (cl_sha lib) (cl_tree_limits lib) (tree ws) ''tests'' of
                   Inl e \<Rightarrow> Inl (Tree_failed e) | Inr d \<Rightarrow> Inr [tree_criterion d])
         else if tests
         then (let found = take 50 (sort (concat (map (test_paths [''tests'']) (kids_of (entry_seen lib ws [''tests''])))));
                   conftest = [''tests'', ''conftest.py'']
               in pin_files lib ws have byte_identical
                    (map (\<lambda>f. (f, True)) found @ [(conftest, entry_seen lib ws conftest \<noteq> None)]))
         else pin_files lib ws have byte_identical (map (\<lambda>f. (f, True)) (take 50 (sort (root_test_files ws)))))"

text \<open>\<^verbatim>\<open>_upgrade_test_goal_criterion\<close>.\<close>

definition upgrade_criteria ::
  "contract_lib \<Rightarrow> workspace \<Rightarrow> string \<Rightarrow> dict list \<Rightarrow> compile_error + dict list" where
  "upgrade_criteria lib ws cmd have =
     (if \<not> all_hashable have then Inl Unhashable_value
      else let c1 = have @ (if have_key have ''command'' cmd then [] else [suite_criterion cmd]);
               c2 = c1 @ (if list_ex (has_kind ''soft_rubric'') c1 then [] else [genuine_fix_rubric])
        in case test_pins lib ws have c2 of
             Inl e \<Rightarrow> Inl e
           | Inr pins \<Rightarrow>
               (case pin_files lib ws have config_identical
                       (map (\<lambda>n. ([n], entry_seen lib ws [n] \<noteq> None)) pytest_tamper_files) of
                  Inl e \<Rightarrow> Inl e
                | Inr guards \<Rightarrow> Inr (c2 @ pins @ guards)))"

definition has_tests :: "contract_lib \<Rightarrow> workspace \<Rightarrow> bool" where
  "has_tests lib ws \<longleftrightarrow> seen_dir lib ws [''tests''] \<or> root_test_files ws \<noteq> []"

definition upgrade_test_goal_criterion ::
  "contract_lib \<Rightarrow> workspace \<Rightarrow> project_request \<Rightarrow> northstack_config option \<Rightarrow> acceptance_analysis
     \<Rightarrow> compile_error + acceptance_analysis" where
  "upgrade_test_goal_criterion lib ws req config acc =
     (case config of
        None \<Rightarrow> Inr acc
      | Some cfg \<Rightarrow>
          if \<not> is_test_goal (goal req) then Inr acc
          else (case pytest_command_name cfg of
            None \<Rightarrow> Inr acc
          | Some cmd \<Rightarrow>
              if \<not> has_tests lib ws then Inr acc
              else map_sum id (\<lambda>cs. acc\<lparr>aa_criteria := cs\<rparr>) (upgrade_criteria lib ws cmd (aa_criteria acc))))"

subsection \<open>The contract\<close>

text \<open>The first alias of the command name that holds a text.\<close>

definition renamed_command :: "dict \<Rightarrow> dict" where
  "renamed_command params =
     (case find (\<lambda>a. case field params a JNull of JStr _ \<Rightarrow> True | _ \<Rightarrow> False) [''command'', ''argv'', ''cmd''] of
        None \<Rightarrow> params
      | Some a \<Rightarrow> dict_merge [(''command_name'', field params a JNull)] (without_key a params))"

text \<open>\<^verbatim>\<open>_criterion_from_dict\<close>; \<open>None\<close> is the exception that drops the criterion.  The parameters are
  merged over the kind and the description.\<close>

definition criterion_from_dict :: "contract_lib \<Rightarrow> nat \<Rightarrow> dict \<Rightarrow> acceptance_criterion option" where
  "criterion_from_dict lib i c =
     (case (field c ''kind'' (JStr ''soft_rubric''), field c ''parameters'' (JObj [])) of
        (JStr k, JObj ps) \<Rightarrow>
          if k \<notin> set kind_values then None
          else (let params = (if k = ''command'' \<and> obj_get ps ''command_name'' = None then renamed_command ps else ps);
                    flat = dict_merge
                      [(''kind'', JStr k),
                       (''description'', field c ''description'' (JStr (''criterion_'' @ show_nat i)))] params
                in case cl_criterion lib flat of
                     Inr criterion \<Rightarrow> Some criterion
                   | Inl extras \<Rightarrow>
                       if extras = [] then None
                       else (case cl_criterion lib (filter (\<lambda>(k', v). k' \<notin> set extras) flat) of
                               Inr criterion \<Rightarrow> Some criterion | Inl _ \<Rightarrow> None))
      | _ \<Rightarrow> None)"

definition parsed_criteria :: "contract_lib \<Rightarrow> dict list \<Rightarrow> acceptance_criterion list" where
  "parsed_criteria lib cs = List.map_filter (\<lambda>(i, c). criterion_from_dict lib i c) (List.enumerate 0 cs)"

definition synthesize ::
  "contract_lib \<Rightarrow> project_request \<Rightarrow> requirements_analysis \<Rightarrow> repo_analysis \<Rightarrow> acceptance_analysis \<Rightarrow> budget
     \<Rightarrow> compile_error + work_contract" where
  "synthesize lib req ra pa aa b =
     (let parsed = parsed_criteria lib (aa_criteria aa);
          wc = \<lparr>wc_id = cl_contract_id lib, wc_version = 1, objective = goal req, scope = ra_scope ra,
            deliverables = (if ra_deliverables ra = [] then [''deliverable_1''] else ra_deliverables ra),
            constraints = ra_constraints ra @ pa_conventions pa, assumptions = ra_assumptions ra,
            forbidden_outcomes = [], allowed_tools = tool_policy req,
            workspace_scope = (if pa_workspace_scope pa = [] then workspace_root req else pa_workspace_scope pa),
            wc_budget = b,
            acceptance_criteria = (if parsed = [] then [SoftRubricCriterion ''default quality rubric'' []] else parsed),
            unresolved_ambiguity = ra_ambiguities ra @ aa_ambiguities aa, abstention_threshold = aa_threshold aa\<rparr>
      in if 0 \<le> aa_threshold aa \<and> aa_threshold aa \<le> 1 then Inr wc else Inl Bad_contract)"

text \<open>\<^verbatim>\<open>ContractValidator.validate\<close>; an empty set of tools or commands switches its test off.  A kind
  outside the enumeration cannot occur in a parsed criterion.\<close>

definition unknown_commands :: "string list \<Rightarrow> work_contract \<Rightarrow> string list" where
  "unknown_commands names wc =
     sort (remdups (filter (\<lambda>n. n \<notin> set names)
       (map command_name (filter (\<lambda>c. criterion_kind_of c = COMMAND) (acceptance_criteria wc)))))"

definition over_limit :: "'a::linorder option \<Rightarrow> 'a option \<Rightarrow> bool" where
  "over_limit asked given =
     (case asked of None \<Rightarrow> False | Some a \<Rightarrow> (case given of None \<Rightarrow> True | Some g \<Rightarrow> a < g))"

definition validate_contract ::
  "string list \<Rightarrow> string list \<Rightarrow> work_contract \<Rightarrow> project_request \<Rightarrow> contract_defect list" where
  "validate_contract tools names wc req =
     (if strip (objective wc) = [] then [Empty_objective] else [])
     @ (if deliverables wc = [] then [No_deliverables] else [])
     @ (if deliverables wc \<noteq> [] \<and> acceptance_criteria wc = [] then [No_criteria] else [])
     @ (let unknown = filter (\<lambda>t. t \<notin> set tools) (allowed_tools wc)
        in if tools \<noteq> [] \<and> unknown \<noteq> [] then [Unknown_tools (sort (remdups unknown))] else [])
     @ (if names \<noteq> [] \<and> unknown_commands names wc \<noteq> [] then [Unknown_commands (unknown_commands names wc)] else [])
     @ (case req_budget req of
          None \<Rightarrow> []
        | Some rb \<Rightarrow>
            (if over_limit (token_limit rb) (token_limit (wc_budget wc))
             then [Token_limit_exceeded (token_limit (wc_budget wc)) (the (token_limit rb))] else [])
            @ (if over_limit (cost_limit_usd rb) (cost_limit_usd (wc_budget wc))
               then [Cost_limit_exceeded (cost_limit_usd (wc_budget wc)) (the (cost_limit_usd rb))] else []))
     @ (if unresolved_ambiguity wc \<noteq> [] \<and> abstention_threshold wc \<le> 0 then [Ambiguous_without_threshold] else [])"

end
