(* ===== verification/Compiler.thy ===== *)
theory Compiler
  imports Contracting Orchestrator Tools
begin

section \<open>The contract compiler (application/contracting.py)\<close>

text \<open>
  \<^verbatim>\<open>ContractCompiler.compile\<close> with a ledger: the eight events, the analyses between them, the
  falsifier and the validator.  The analyses run one after the other, which decides only which of
  two exceptions is reported; an emission can be refused or interrupted as in \<open>Orchestrator\<close>.
\<close>

record compiler_env =
  cv_lib :: contract_lib
  cv_ws :: workspace
  cv_runner :: analysis_runner
  cv_config :: "northstack_config option"
  cv_tools :: tool_registry
  cv_falsify :: "work_contract \<Rightarrow> project_request \<Rightarrow> string option"
  cv_error_text :: "compile_error \<Rightarrow> string"
  cv_fate :: "payload list \<Rightarrow> payload \<Rightarrow> emit_fate"

text \<open>The name of \<^verbatim>\<open>_pick_profile\<close>: the first worker, else the first profile, else the fallback.\<close>

definition pick_profile :: "northstack_config option \<Rightarrow> string" where
  "pick_profile config =
     (case config of
        None \<Rightarrow> ''default''
      | Some cfg \<Rightarrow>
          (case profiles cfg of
             [] \<Rightarrow> ''default''
           | p # ps \<Rightarrow> (case find (\<lambda>q. WORKER \<in> roles q) (p # ps) of None \<Rightarrow> mp_name p | Some q \<Rightarrow> mp_name q)))"

definition compile_budget :: "northstack_config option \<Rightarrow> project_request \<Rightarrow> budget" where
  "compile_budget config req =
     (case req_budget req of
        Some b \<Rightarrow> b
      | None \<Rightarrow> (case config of Some cfg \<Rightarrow> run_default_budget (run_settings cfg) | None \<Rightarrow> default_budget))"

text \<open>One emission, and a list of them, on the events stored so far.\<close>

type_synonym 'a compiling = "payload list \<Rightarrow> (run_exception + 'a) \<times> payload list"

definition compile_emit :: "compiler_env \<Rightarrow> payload \<Rightarrow> unit compiling" where
  "compile_emit env p sofar =
     (case cv_fate env sofar p of
        Stored \<Rightarrow> (Inr (), sofar @ [p])
      | Refused m \<Rightarrow> (Inl (Failure m), sofar)
      | Stored_cancelled \<Rightarrow> (Inl Cancelled, sofar @ [p])
      | Refused_cancelled m \<Rightarrow> (Inl Cancelled, sofar))"

definition compile_bind :: "'a compiling \<Rightarrow> ('a \<Rightarrow> 'b compiling) \<Rightarrow> 'b compiling" where
  "compile_bind f g sofar = (case f sofar of (Inl e, s) \<Rightarrow> (Inl e, s) | (Inr x, s) \<Rightarrow> g x s)"

fun compile_emits :: "compiler_env \<Rightarrow> payload list \<Rightarrow> unit compiling" where
  "compile_emits env [] sofar = (Inr (), sofar)"
| "compile_emits env (p # ps) sofar = compile_bind (compile_emit env p) (\<lambda>_. compile_emits env ps) sofar"

definition lift_compile :: "compiler_env \<Rightarrow> compile_error + 'a \<Rightarrow> 'a compiling" where
  "lift_compile env r sofar = (map_sum (\<lambda>e. Failure (cv_error_text env e)) id r, sofar)"

definition analysis_names :: "string list" where
  "analysis_names = [''requirements'', ''repo_constraints'', ''acceptance'']"

definition requested_events :: "string \<Rightarrow> payload list" where
  "requested_events profile = map (\<lambda>n. AnalysisRequested profile [(''name'', JStr n)]) analysis_names"

text \<open>Only the analysis of the repository carries a digest of the scan.\<close>

definition completed_events :: "string \<Rightarrow> repo_analysis \<Rightarrow> payload list" where
  "completed_events profile pa = map (\<lambda>n. AnalysisCompleted profile
     ((''name'', JStr n) # (if n = ''repo_constraints'' \<and> pa_scan_digest pa \<noteq> []
        then [(''scan_digest'', JStr (pa_scan_digest pa))] else []))) analysis_names"

definition proposed_event :: "work_contract \<Rightarrow> payload" where
  "proposed_event wc = ContractProposed (wc_id wc) (wc_version wc) (objective wc) (scope wc) (deliverables wc)
     (constraints wc) (allowed_tools wc) (workspace_scope wc) (wc_budget wc)
     (length (acceptance_criteria wc)) (acceptance_criteria wc) (unresolved_ambiguity wc)"

definition run_analyses ::
  "compiler_env \<Rightarrow> project_request \<Rightarrow> compile_error + requirements_analysis \<times> repo_analysis \<times> acceptance_analysis" where
  "run_analyses env req =
     (let lib = cv_lib env; ra = run_requirements lib (cv_runner env) req
      in case run_repo lib (cv_ws env) (cv_runner env) req of
           Inl e \<Rightarrow> Inl e
         | Inr pa \<Rightarrow>
             (case run_acceptance lib (cv_ws env) (cv_runner env) req of
                Inl e \<Rightarrow> Inl e
              | Inr aa \<Rightarrow>
                  (case normalize_command_criteria (cv_config env) aa of
                     Inl e \<Rightarrow> Inl e
                   | Inr aa1 \<Rightarrow>
                       (case upgrade_test_goal_criterion lib (cv_ws env) req (cv_config env) aa1 of
                          Inl e \<Rightarrow> Inl e
                        | Inr aa2 \<Rightarrow> Inr (ra, pa, aa2)))))"

text \<open>The falsifier, then the validator.\<close>

definition judge_contract :: "compiler_env \<Rightarrow> project_request \<Rightarrow> work_contract \<Rightarrow> compile_error + unit" where
  "judge_contract env req wc =
     (let counter = (case cv_falsify env wc req of None \<Rightarrow> [] | Some c \<Rightarrow> c);
          names = (case cv_config env of None \<Rightarrow> [] | Some cfg \<Rightarrow> map cc_name (commands cfg));
          defects = validate_contract (registry_names (cv_tools env)) names wc req
      in if counter \<noteq> [] then Inl (Falsified counter)
         else if defects \<noteq> [] then Inl (Invalid_contract defects) else Inr ())"

definition compile_contract :: "compiler_env \<Rightarrow> project_request \<Rightarrow> work_contract compiling" where
  "compile_contract env req =
     (let profile = pick_profile (cv_config env)
      in compile_bind (compile_emits env (requested_events profile)) (\<lambda>_.
         compile_bind (lift_compile env (run_analyses env req)) (\<lambda>(ra, pa, aa).
         compile_bind (compile_emits env (completed_events profile pa)) (\<lambda>_.
         compile_bind (lift_compile env (synthesize (cv_lib env) req ra pa aa (compile_budget (cv_config env) req))) (\<lambda>wc.
         compile_bind (compile_emit env (proposed_event wc)) (\<lambda>_.
         compile_bind (lift_compile env (judge_contract env req wc)) (\<lambda>_.
         compile_bind (compile_emit env (ContractValidated (wc_id wc) (wc_version wc))) (\<lambda>_ sofar.
           (Inr wc, sofar)))))))))"

text \<open>The compiler of a company: what \<open>Orchestrator\<close> takes as \<open>ce_compile\<close>.\<close>

definition company_compile ::
  "(project_request \<Rightarrow> run_id \<Rightarrow> compiler_env) \<Rightarrow> project_request \<Rightarrow> run_id \<Rightarrow> (run_exception + work_contract) \<times> payload list" where
  "company_compile env_of req run = compile_contract (env_of req run) req []"

end
