(* ===== verification/Compiler_Properties.thy ===== *)
theory Compiler_Properties
  imports Compiler "HOL-Library.Sublist"
begin

section \<open>What the contract compiler guarantees\<close>

subsection \<open>The events of a compilation\<close>

lemma compile_emits_prefix:
  "compile_emits env ps s = (r, s') \<Longrightarrow> \<exists>qs. s' = s @ qs \<and> prefix qs ps \<and> (r = Inr () \<longrightarrow> qs = ps)"
proof (induction ps arbitrary: s)
  case (Cons p ps)
  show ?case
  proof (cases "cv_fate env s p")
    case Stored
    with Cons.prems have "compile_emits env ps (s @ [p]) = (r, s')" by (simp add: compile_bind_def compile_emit_def)
    from Cons.IH [OF this] obtain qs where "s' = (s @ [p]) @ qs" "prefix qs ps" "r = Inr () \<longrightarrow> qs = ps" by blast
    then show ?thesis by (intro exI [of _ "p # qs"]) auto
  qed (use Cons.prems in \<open>auto simp: compile_bind_def compile_emit_def\<close>)
qed auto

lemma compile_emit_prefix:
  "compile_emit env p s = (r, s') \<Longrightarrow> \<exists>qs. s' = s @ qs \<and> prefix qs [p] \<and> (r = Inr () \<longrightarrow> qs = [p])"
  by (auto simp: compile_emit_def split: emit_fate.splits)

text \<open>The events a compilation goes through, as far as it gets.\<close>

definition compile_events :: "compiler_env \<Rightarrow> repo_analysis \<Rightarrow> work_contract \<Rightarrow> payload list" where
  "compile_events env pa wc = requested_events (pick_profile (cv_config env))
     @ completed_events (pick_profile (cv_config env)) pa
     @ [proposed_event wc, ContractValidated (wc_id wc) (wc_version wc)]"

lemma event_counts [simp]: "length (requested_events n) = 3" "length (completed_events n pa) = 3"
  by (simp_all add: requested_events_def completed_events_def analysis_names_def)

lemma compile_contract_cases:
  assumes "compile_contract env req [] = (r, ps)"
  obtains
    (early) pa wc where "prefix ps (compile_events env pa wc)" "length ps \<le> 7" "\<exists>e. r = Inl e"
  | (judged) ra pa aa wc where "run_analyses env req = Inr (ra, pa, aa)"
      "synthesize (cv_lib env) req ra pa aa (compile_budget (cv_config env) req) = Inr wc"
      "judge_contract env req wc = Inr ()" "prefix ps (compile_events env pa wc)" "7 \<le> length ps"
      "r = Inr wc \<and> ps = compile_events env pa wc \<or> (\<exists>e. r = Inl e)"
proof -
  let ?n = "pick_profile (cv_config env)"
  let ?req = "requested_events ?n"
  obtain r1 s1 where e1: "compile_emits env ?req [] = (r1, s1)" by fastforce
  from compile_emits_prefix [OF this] have s1: "prefix s1 ?req" "r1 = Inr () \<longrightarrow> s1 = ?req" by auto
  show ?thesis
  proof (cases r1)
    case (Inl e)
    have "prefix s1 (compile_events env undefined undefined)" using s1(1) by (simp add: compile_events_def prefix_prefix)
    moreover have "length s1 \<le> 7" using prefix_length_le [OF s1(1)] by simp
    moreover have "r = Inl e" "ps = s1" using assms e1 Inl by (simp_all add: compile_contract_def compile_bind_def Let_def)
    ultimately show ?thesis using early by blast
  next
    case (Inr u)
    then have s1: "s1 = ?req" using s1(2) by simp
    show ?thesis
    proof (cases "run_analyses env req")
      case (Inl e)
      then have "ps = s1" "\<exists>e. r = Inl e"
        using assms e1 Inr by (auto simp: compile_contract_def compile_bind_def Let_def lift_compile_def)
      then show ?thesis using early [of undefined undefined] s1 by (simp add: compile_events_def)
    next
      case analysed: (Inr t)
      obtain ra pa aa where t: "t = (ra, pa, aa)" by (cases t)
      let ?comp = "completed_events ?n pa"
      obtain r2 s2 where e2: "compile_emits env ?comp s1 = (r2, s2)" by fastforce
      from compile_emits_prefix [OF this] obtain q2 where s2: "s2 = s1 @ q2" "prefix q2 ?comp" "r2 = Inr () \<longrightarrow> q2 = ?comp" by blast
      show ?thesis
      proof (cases r2)
        case (Inl e)
        have "prefix s2 (compile_events env pa undefined)"
          using s2(1,2) s1 by (simp add: compile_events_def prefix_prefix)
        moreover have "length s2 \<le> 7" using prefix_length_le [OF s2(2)] s2(1) s1 by simp
        moreover have "r = Inl e" "ps = s2"
          using assms e1 Inr analysed t e2 Inl by (simp_all add: compile_contract_def compile_bind_def Let_def lift_compile_def)
        ultimately show ?thesis using early by blast
      next
        case r2: (Inr u2)
        then have s2: "s2 = ?req @ ?comp" using s2 s1 by simp
        show ?thesis
        proof (cases "synthesize (cv_lib env) req ra pa aa (compile_budget (cv_config env) req)")
          case (Inl e)
          then have "ps = s2" "\<exists>e. r = Inl e"
            using assms e1 Inr analysed t e2 r2 by (auto simp: compile_contract_def compile_bind_def Let_def lift_compile_def)
          then show ?thesis using early [of pa undefined] s2 by (simp add: compile_events_def)
        next
          case synth: (Inr wc)
          obtain r3 s3 where e3: "compile_emit env (proposed_event wc) s2 = (r3, s3)" by fastforce
          from compile_emit_prefix [OF this] obtain q3 where
            s3: "s3 = s2 @ q3" "prefix q3 [proposed_event wc]" "r3 = Inr () \<longrightarrow> q3 = [proposed_event wc]" by blast
          show ?thesis
          proof (cases "r3 = Inr () \<and> judge_contract env req wc = Inr ()")
            case False
            have "prefix s3 (compile_events env pa wc)"
              using s3(1,2) s2 by (auto simp: compile_events_def prefix_Cons)
            moreover have "length s3 \<le> 7" using prefix_length_le [OF s3(2)] s3(1) s2 by simp
            moreover have "ps = s3" "\<exists>e. r = Inl e"
              using assms e1 Inr analysed t e2 r2 synth e3 False
              by (auto simp: compile_contract_def compile_bind_def Let_def lift_compile_def map_sum_def split: sum.splits)
            ultimately show ?thesis using early by blast
          next
            case True
            obtain r4 s4 where e4: "compile_emit env (ContractValidated (wc_id wc) (wc_version wc)) s3 = (r4, s4)" by fastforce
            from compile_emit_prefix [OF this] obtain q4 where
              s4: "s4 = s3 @ q4" "prefix q4 [ContractValidated (wc_id wc) (wc_version wc)]"
                "r4 = Inr () \<longrightarrow> q4 = [ContractValidated (wc_id wc) (wc_version wc)]" by blast
            have "ps = s4" "r = map_sum id (\<lambda>_. wc) r4"
              using assms e1 Inr analysed t e2 r2 synth e3 True e4
              by (auto simp: compile_contract_def compile_bind_def Let_def lift_compile_def split: sum.splits)
            with True s4 s3 s2 analysed t synth show ?thesis
              by (intro judged [of ra pa aa wc]) (cases r4; auto simp: compile_events_def prefix_Cons)+
          qed
        qed
      qed
    qed
  qed
qed

text \<open>C26: a compilation that is cut short never claims more than it did.  Whatever the ledger refuses
  or interrupts, the stored events are a prefix of the eight of one contract, in order: three
  analyses requested, three completed, the contract proposed, the contract validated; and the last
  one is only there when the falsifier was silent and the validator found no defect.\<close>

theorem compile_events_in_order:
  "\<exists>pa wc. prefix (snd (compile_contract env req [])) (compile_events env pa wc)
     \<and> (length (snd (compile_contract env req [])) \<le> 7 \<or> judge_contract env req wc = Inr ())"
proof -
  obtain r ps where c: "compile_contract env req [] = (r, ps)" by fastforce
  show ?thesis by (rule compile_contract_cases [OF c]) (auto simp: c)
qed

subsection \<open>What a compiled contract is\<close>

lemma validate_contract_Nil:
  assumes "validate_contract tools names wc req = []"
  shows "strip (objective wc) \<noteq> []" "deliverables wc \<noteq> []" "acceptance_criteria wc \<noteq> []"
    "tools = [] \<or> set (allowed_tools wc) \<subseteq> set tools" "names = [] \<or> unknown_commands names wc = []"
    "\<And>rb. req_budget req = Some rb \<Longrightarrow> \<not> over_limit (token_limit rb) (token_limit (wc_budget wc))
       \<and> \<not> over_limit (cost_limit_usd rb) (cost_limit_usd (wc_budget wc))"
    "unresolved_ambiguity wc = [] \<or> 0 < abstention_threshold wc"
  using assms
  by (auto simp: validate_contract_def Let_def filter_empty_conv split: if_splits option.splits)

fun command_known :: "string set \<Rightarrow> acceptance_criterion \<Rightarrow> bool" where
  "command_known names (CommandCriterion d n x) = (n \<in> names)"
| "command_known names c = True"

lemma unknown_commands_Nil:
  "unknown_commands names wc = [] \<longleftrightarrow> list_all (command_known (set names)) (acceptance_criteria wc)"
proof -
  have "unknown_commands names wc = [] \<longleftrightarrow>
      (\<forall>c \<in> set (acceptance_criteria wc). criterion_kind_of c = COMMAND \<longrightarrow> command_name c \<in> set names)"
    by (auto simp: unknown_commands_def filter_empty_conv simp flip: set_empty)
  moreover have "(criterion_kind_of c = COMMAND \<longrightarrow> command_name c \<in> set names)
      = command_known (set names) c" for c by (cases c) simp_all
  ultimately show ?thesis by (simp add: list_all_iff)
qed

text \<open>C25: a contract that compiles is one the run can work with.  Its objective is the goal, which is
  not blank, it names a deliverable and at least one criterion, the tools it allows can all be
  dispatched and the commands it checks are all configured (where there is a registry and a
  configuration), it keeps the budget of the request, its threshold is a probability and above zero
  when questions are open, and its validation is the last event stored.\<close>

theorem compiled_contract_sound:
  assumes "compile_contract env req [] = (Inr wc, ps)"
  shows "objective wc = goal req \<and> strip (goal req) \<noteq> [] \<and> deliverables wc \<noteq> [] \<and> acceptance_criteria wc \<noteq> []
    \<and> (registry_names (cv_tools env) = [] \<or> set (allowed_tools wc) \<subseteq> dispatchable_names (cv_tools env))
    \<and> (case cv_config env of None \<Rightarrow> True | Some cfg \<Rightarrow> commands cfg = [] \<or>
         list_all (command_known (cc_name ` set (commands cfg))) (acceptance_criteria wc))
    \<and> wc_budget wc = compile_budget (cv_config env) req
    \<and> 0 \<le> abstention_threshold wc \<and> abstention_threshold wc \<le> 1
    \<and> (unresolved_ambiguity wc = [] \<or> 0 < abstention_threshold wc)
    \<and> length ps = 8 \<and> last ps = ContractValidated (wc_id wc) (wc_version wc)"
proof (rule compile_contract_cases [OF assms])
  fix ra pa aa wc'
  assume s: "synthesize (cv_lib env) req ra pa aa (compile_budget (cv_config env) req) = Inr wc'"
    and j: "judge_contract env req wc' = Inr ()"
    and "Inr wc = Inr wc' \<and> ps = compile_events env pa wc' \<or> (\<exists>e. Inr wc = (Inl e :: run_exception + work_contract))"
  then have wc: "wc' = wc" and ps: "ps = compile_events env pa wc" by auto
  let ?names = "case cv_config env of None \<Rightarrow> [] | Some cfg \<Rightarrow> map cc_name (commands cfg)"
  have "validate_contract (registry_names (cv_tools env)) ?names wc req = []"
    using j by (auto simp: wc judge_contract_def Let_def split: if_splits)
  note v = validate_contract_Nil [OF this]
  from s have c: "objective wc = goal req" "wc_budget wc = compile_budget (cv_config env) req"
    "0 \<le> abstention_threshold wc" "abstention_threshold wc \<le> 1"
    by (auto simp: wc synthesize_def Let_def split: if_splits)
  have names: "case cv_config env of None \<Rightarrow> True | Some cfg \<Rightarrow> commands cfg = [] \<or>
      list_all (command_known (cc_name ` set (commands cfg))) (acceptance_criteria wc)"
    using v(5) by (cases "cv_config env") (simp_all add: unknown_commands_Nil)
  show ?thesis
    using v c names by (simp add: ps compile_events_def dispatchable_names_def registry_names_def)
qed auto

subsection \<open>Commands\<close>

lemma normalize_one_ok:
  assumes "normalize_one cfg c = Inr (Some c')"
  shows "if has_kind ''command'' c then has_kind ''command'' c' \<and> normalize_one cfg c' = Inr (Some c')
      \<and> field (params_of c') ''command_name'' JNull \<in> JStr ` cc_name ` set (commands cfg)
    else c' = c"
proof (cases "has_kind ''command'' c")
  case False
  with assms show ?thesis by (simp add: normalize_one_def)
next
  case True
  let ?p = "field (params_of c) ''command_name'' JNull"
  show ?thesis
  proof (cases "case ?p of JStr n \<Rightarrow> n \<in> cc_name ` set (commands cfg) | _ \<Rightarrow> False")
    case known: True
    with True assms have "c' = c" by (auto simp: normalize_one_def Let_def split: if_splits)
    with known True assms show ?thesis by (auto split: json.splits)
  next
    case False
    with True assms obtain n where n: "map cc_name (filter runs_pytest (commands cfg)) = [n]"
      and c': "c' = dict_set c ''parameters'' (JObj (dict_set (params_of c) ''command_name'' (JStr n)))"
      by (auto simp: normalize_one_def Let_def split: if_splits list.splits)
    from arg_cong [OF n, of set] have known: "n \<in> cc_name ` set (commands cfg)" by auto
    have k: "has_kind ''command'' c'" using True by (simp add: c' has_kind_def)
    have f: "field (params_of c') ''command_name'' JNull = JStr n" by (simp add: c' params_of_def)
    from k f known have "normalize_one cfg c' = Inr (Some c')" by (simp add: normalize_one_def)
    with True k f known show ?thesis by simp
  qed
qed

lemma normalize_list_ok:
  assumes "normalize_list cfg cs = Inr out"
  shows "list_all (\<lambda>c. if has_kind ''command'' c
        then field (params_of c) ''command_name'' JNull \<in> JStr ` cc_name ` set (commands cfg) else True) out
    \<and> normalize_list cfg out = Inr out
    \<and> filter (\<lambda>c. \<not> has_kind ''command'' c) out = filter (\<lambda>c. \<not> has_kind ''command'' c) cs"
  using assms
proof (induction cs arbitrary: out)
  case (Cons c cs)
  from Cons.prems obtain r rest where r: "normalize_one cfg c = Inr r" and rest: "normalize_list cfg cs = Inr rest"
    and out: "out = (case r of None \<Rightarrow> [] | Some c' \<Rightarrow> [c']) @ rest" by (auto split: sum.splits)
  note IH = Cons.IH [OF rest]
  show ?case
  proof (cases r)
    case None
    with r have "has_kind ''command'' c" by (auto simp: normalize_one_def Let_def split: if_splits list.splits)
    with None IH show ?thesis by (simp add: out)
  next
    case (Some c')
    from normalize_one_ok [of cfg c c'] r Some have n: "if has_kind ''command'' c then has_kind ''command'' c'
        \<and> normalize_one cfg c' = Inr (Some c')
        \<and> field (params_of c') ''command_name'' JNull \<in> JStr ` cc_name ` set (commands cfg) else c' = c" by simp
    show ?thesis
    proof (cases "has_kind ''command'' c")
      case True
      with n Some IH show ?thesis by (simp add: out)
    next
      case False
      with n have "c' = c" by simp
      with False Some IH r show ?thesis by (simp add: out)
    qed
  qed
qed simp

text \<open>A command criterion is executable or gone.  With commands configured, after the repair every
  command criterion names one of them, no other criterion was touched or lost, and repairing again
  changes nothing.\<close>

theorem commands_normalized:
  assumes "normalize_command_criteria (Some cfg) acc = Inr acc'" "commands cfg \<noteq> []"
  shows "list_all (\<lambda>c. if has_kind ''command'' c
        then field (params_of c) ''command_name'' JNull \<in> JStr ` cc_name ` set (commands cfg) else True) (aa_criteria acc')
    \<and> filter (\<lambda>c. \<not> has_kind ''command'' c) (aa_criteria acc') = filter (\<lambda>c. \<not> has_kind ''command'' c) (aa_criteria acc)
    \<and> normalize_command_criteria (Some cfg) acc' = Inr acc'"
proof -
  from assms obtain out where out: "normalize_list cfg (aa_criteria acc) = Inr out" "acc' = acc\<lparr>aa_criteria := out\<rparr>"
    by (auto simp: normalize_command_criteria_def map_sum_def split: sum.splits)
  from normalize_list_ok [OF out(1)] assms(2) show ?thesis
    by (simp add: out(2) normalize_command_criteria_def)
qed

definition sample_command_criterion :: "string \<Rightarrow> dict" where
  "sample_command_criterion n = [(''kind'', JStr ''command''), (''description'', JStr ''d''),
     (''parameters'', JObj [(''command_name'', JStr n)])]"

definition sample_pytest :: command_config where
  "sample_pytest = \<lparr>cc_name = ''unit'', argv = [''python'', ''-m'', ''pytest''], timeout_seconds = 60,
     cc_max_output_bytes = 1000, env_allowlist = [], isolation = Host, docker_image = []\<rparr>"

definition sample_test_config :: northstack_config where
  "sample_test_config = sample_config\<lparr>commands := [sample_pytest]\<rparr>"

definition sample_acceptance :: "dict list \<Rightarrow> acceptance_analysis" where
  "sample_acceptance cs = \<lparr>aa_criteria = cs, aa_risks = [], aa_ambiguities = [], aa_threshold = 1 / 2\<rparr>"

theorem commands_normalized_witness:
  "let acc' = sample_acceptance [sample_command_criterion ''unit'']
   in list_all (\<lambda>c. if has_kind ''command'' c
        then field (params_of c) ''command_name'' JNull \<in> JStr ` cc_name ` set (commands sample_test_config) else True)
        (aa_criteria acc')
    \<and> filter (\<lambda>c. \<not> has_kind ''command'' c) (aa_criteria acc') =
        filter (\<lambda>c. \<not> has_kind ''command'' c) (aa_criteria (sample_acceptance [sample_command_criterion ''pytest'']))
    \<and> normalize_command_criteria (Some sample_test_config) acc' = Inr acc'"
  unfolding Let_def
proof (rule commands_normalized)
  have "contains ''pytest'' ''pytest''" by (simp add: contains_def)
  then show "normalize_command_criteria (Some sample_test_config) (sample_acceptance [sample_command_criterion ''pytest''])
      = Inr (sample_acceptance [sample_command_criterion ''unit''])"
    by (simp add: normalize_command_criteria_def sample_test_config_def sample_acceptance_def normalize_one_def
        sample_command_criterion_def has_kind_def field_def obj_get_def params_of_def runs_pytest_def sample_pytest_def)
qed (simp add: sample_test_config_def)

subsection \<open>Proposed criteria\<close>

text \<open>The criterion kept for one proposal of the model.\<close>

definition kept_criterion :: "contract_lib \<Rightarrow> json \<Rightarrow> dict list" where
  "kept_criterion lib v =
     (case v of
        JObj c \<Rightarrow>
          (case (field c ''kind'' JNull, field c ''parameters'' JNull) of
             (JStr k, JObj ps) \<Rightarrow>
               if k \<in> set kind_values
               then [[(''kind'', JStr k), (''description'', JStr (text_of lib (field c ''description'' (JStr [])))),
                      (''parameters'', JObj ps)]]
               else []
           | _ \<Rightarrow> [])
      | _ \<Rightarrow> [])"

definition unhashable_kind :: "json \<Rightarrow> bool" where
  "unhashable_kind v = (case v of JObj c \<Rightarrow> \<not> hashable (field c ''kind'' JNull) | _ \<Rightarrow> False)"

lemma coerce_list_step:
  "coerce_list lib (v # cs) = (if unhashable_kind v then Inl Unhashable_value
     else case coerce_list lib cs of Inl e \<Rightarrow> Inl e | Inr out \<Rightarrow> Inr (kept_criterion lib v @ out))"
  by (cases v) (auto simp: unhashable_kind_def kept_criterion_def Let_def split: sum.split)

lemma coerce_list_spec:
  "coerce_list lib cs = (if list_ex unhashable_kind cs then Inl Unhashable_value
     else Inr (concat (map (kept_criterion lib) cs)))"
proof (induction cs)
  case (Cons v cs)
  then show ?case by (simp add: coerce_list_step del: coerce_list.simps)
qed simp

text \<open>What becomes of a model's criteria.  Each proposal of a known kind with a dict of parameters is
  kept, in order, and every other is dropped; but a kind that is a list or a dict is hashed by the
  membership test, and that exception, from a function documented never to raise, ends the analysis
  and with it the compilation before a contract is proposed.\<close>

theorem proposed_criteria_exact:
  "coerce_criteria lib (JObj [(''criteria'', JArr cs)])
     = (if list_ex unhashable_kind cs then Inl Unhashable_value else Inr (concat (map (kept_criterion lib) cs)))
   \<and> coerce_criteria lib (JObj [(''criteria'', JArr [JObj [(''kind'', JArr []), (''parameters'', JObj [])]])])
     = Inl Unhashable_value"
  by (simp add: coerce_criteria_def field_def obj_get_def coerce_list_spec) (simp add: unhashable_kind_def field_def obj_get_def)

end
