(* ===== verification/Scan_Properties.thy ===== *)
theory Scan_Properties
  imports Intake_Scan Workspace_Properties "HOL-Library.Sublist"
begin

section \<open>What the scan of a workspace guarantees\<close>

text \<open>
  The bounds of the walk, and what an unclipped scan says: every visible name of the top level, and
  every entry counted once, as a file or as a directory.
\<close>

text \<open>The invariant of the walk, for the bounds on entries and directories.\<close>

definition scan_ok :: "nat \<Rightarrow> nat \<Rightarrow> scan_state \<Rightarrow> bool" where
  "scan_ok max_entries max_dirs st \<longleftrightarrow>
     ss_entries st \<le> max_entries \<and> length (ss_dirs st) \<le> max_dirs \<and> length (ss_top st) \<le> ss_entries st
     \<and> ss_files st + length (ss_dirs st) \<le> ss_entries st
     \<and> (ss_cut st \<or> ss_files st + length (ss_dirs st) = ss_entries st)"

lemma account_file_fields [simp]:
  "ss_entries (account_file n st) = ss_entries st" "ss_dirs (account_file n st) = ss_dirs st"
  "ss_top (account_file n st) = ss_top st" "ss_cut (account_file n st) = ss_cut st"
  "ss_files (account_file n st) = Suc (ss_files st)"
  by (simp_all add: account_file_def Let_def)

lemma counted_file:
  "scan_ok me md st \<Longrightarrow> ss_entries st < me \<Longrightarrow> scan_ok me md (account_file n (st\<lparr>ss_entries := ss_entries st + 1\<rparr>))"
  by (auto simp: scan_ok_def)

lemma counted_directory:
  "scan_ok me md st \<Longrightarrow> ss_entries st < me \<Longrightarrow>
     scan_ok me md (snd (account_directory md n (st\<lparr>ss_entries := ss_entries st + 1\<rparr>)))"
  by (auto simp: scan_ok_def account_directory_def)

lemma counted_directory_fields [simp]:
  "ss_top (snd (account_directory md n st)) = ss_top st"
  "ss_cut st \<Longrightarrow> ss_cut (snd (account_directory md n st))"
  by (simp_all add: account_directory_def)

lemma scan_children_ok:
  "scan_children env ws me md name cs st = Inr st' \<Longrightarrow> scan_ok me md st \<Longrightarrow>
     scan_ok me md st' \<and> ss_top st' = ss_top st \<and> (ss_cut st \<longrightarrow> ss_cut st')"
proof (induction cs arbitrary: st)
  case (Cons c cs)
  show ?case
  proof (cases "me \<le> ss_entries st")
    case True
    with Cons.prems show ?thesis by (auto simp: scan_ok_def)
  next
    case False
    define st1 path where "st1 = st\<lparr>ss_entries := ss_entries st + 1\<rparr>" and "path = name @ ''/'' @ c"
    note unfolded = Cons.prems(1) [unfolded scan_children.simps Let_def, folded st1_def path_def]
    from unfolded False obtain r where "ws_list (se_os env) ws path = Inr r" by (cases "ws_list (se_os env) ws path") auto
    with unfolded False have "scan_children env ws me md name cs
        (if tr_ok r then snd (account_directory md path st1) else account_file path st1) = Inr st'" by simp
    from Cons.IH [OF this] False Cons.prems(2) counted_file [of me md st path] counted_directory [of me md st path]
    show ?thesis by (cases "tr_ok r") (auto simp: st1_def)
  qed
qed simp

lemma scan_names_ok:
  "scan_names env ws me md names st = Inr st' \<Longrightarrow> scan_ok me md st \<Longrightarrow>
     scan_ok me md st' \<and> prefix (ss_top st') (ss_top st @ names) \<and> (ss_cut st \<longrightarrow> ss_cut st')
     \<and> (ss_cut st' \<or> ss_top st' = ss_top st @ names)"
proof (induction names arbitrary: st)
  case (Cons n names)
  show ?case
  proof (cases "me \<le> ss_entries st")
    case True
    with Cons.prems show ?thesis by (auto simp: scan_ok_def)
  next
    case False
    let ?st1 = "st\<lparr>ss_entries := ss_entries st + 1, ss_top := ss_top st @ [n]\<rparr>"
    from Cons.prems(1) False obtain r where r: "ws_list (se_os env) ws n = Inr r" by (auto simp: Let_def split: sum.splits)
    have "\<exists>st2. scan_names env ws me md names st2 = Inr st' \<and> scan_ok me md st2
        \<and> ss_top st2 = ss_top st @ [n] \<and> (ss_cut st \<longrightarrow> ss_cut st2)"
    proof (cases "tr_ok r")
      case not_dir: False
      have "scan_ok me md (account_file n ?st1)" using False Cons.prems(2) by (auto simp: scan_ok_def)
      then show ?thesis using Cons.prems(1) False r not_dir by (intro exI [of _ "account_file n ?st1"]) (simp add: Let_def)
    next
      case True
      show ?thesis
      proof (cases "md \<le> length (ss_dirs st)")
        case full: True
        then have "scan_ok me md (?st1\<lparr>ss_cut := True\<rparr>)" using False Cons.prems(2) by (auto simp: scan_ok_def)
        then show ?thesis using Cons.prems(1) False r True full
          by (intro exI [of _ "?st1\<lparr>ss_cut := True\<rparr>"]) (simp add: Let_def account_directory_def)
      next
        case room: False
        let ?st2 = "?st1\<lparr>ss_dirs := ss_dirs st @ [n], ss_cut := ss_cut st \<or> truncated r\<rparr>"
        from Cons.prems(1) False r True room obtain st3 where
          st3: "scan_children env ws me md n (filter shown_name (listed env r)) ?st2 = Inr st3"
            "scan_names env ws me md names st3 = Inr st'"
          by (auto simp: Let_def account_directory_def split: sum.splits)
        have "scan_ok me md ?st2" using False room Cons.prems(2) by (auto simp: scan_ok_def)
        from scan_children_ok [OF st3(1) this] st3(2) show ?thesis by (intro exI [of _ st3]) auto
      qed
    qed
    then obtain st2 where st2: "scan_names env ws me md names st2 = Inr st'" "scan_ok me md st2"
      "ss_top st2 = ss_top st @ [n]" "ss_cut st \<longrightarrow> ss_cut st2" by (elim exE conjE)
    from Cons.IH [OF st2(1,2)] st2(3,4) show ?thesis by auto
  qed
qed simp

lemma scan_keys_ok:
  "scan_keys env ws seen ks found clipped = Inr (keys, c) \<Longrightarrow> length found \<le> 12 \<Longrightarrow> fst ` set found \<subseteq> set seen \<Longrightarrow>
     length keys \<le> 12 \<and> fst ` set keys \<subseteq> set seen \<and> (clipped \<longrightarrow> c)"
proof (induction ks arbitrary: found clipped)
  case (Cons k ks)
  have len: "length (dict_set d k v) \<le> Suc (length d)" for d :: "(string \<times> string) list" and v
    by (induction d) auto
  have keys: "fst ` set (dict_set d k v) = insert k (fst ` set d)" for d :: "(string \<times> string) list" and v
    by (simp flip: dom_map_of_conv_image_fst)
  show ?case
  proof (cases "k \<in> set seen \<and> length found < 12")
    case False
    with Cons show ?thesis by (auto simp del: One_nat_def)
  next
    case True
    with Cons.prems(1) obtain found' clipped' where nxt:
      "scan_keys env ws seen ks found' clipped' = Inr (keys, c)" "clipped \<longrightarrow> clipped'"
      "found' = found \<or> (\<exists>v. found' = dict_set found k v)"
      by (auto simp: Let_def split: sum.splits if_splits)
    have "length found' \<le> 12 \<and> fst ` set found' \<subseteq> set seen"
      using nxt(3)
    proof
      assume "\<exists>v. found' = dict_set found k v"
      then obtain v where f: "found' = dict_set found k v" ..
      have "length found' \<le> Suc (length found)" using len f by simp
      moreover have "fst ` set found' = insert k (fst ` set found)" using keys f by simp
      ultimately show ?thesis using True Cons.prems(3) by simp
    qed (use Cons.prems(2,3) in simp)
    then have "length found' \<le> 12" "fst ` set found' \<subseteq> set seen" by auto
    from Cons.IH [OF nxt(1) this] nxt(2) show ?thesis by auto
  qed
qed simp

lemma capped_length: "length (capped_extensions mx exts) \<le> mx"
  by (simp add: capped_extensions_def)

lemma scan_workspace_parts:
  assumes "scan_workspace env ws shown_root me md mx = Inr scan"
  obtains r st keys where "ws_list (se_os env) ws ''.'' = Inr r"
    "scan_names env ws me md (if tr_ok r then sort (filter shown_name (listed env r)) else [])
       \<lparr>ss_top = [], ss_dirs = [], ss_exts = [], ss_entries = 0, ss_files = 0, ss_cut = truncated r\<rparr> = Inr st"
    "scan_keys env ws (ss_top st) key_files_known [] (ss_cut st \<or> mx < length (ss_exts st)) = Inr (keys, rs_truncated scan)"
    "scan = \<lparr>rs_root = shown_root, top_level = ss_top st, rs_directories = sort (ss_dirs st),
       file_extensions = sort_key fst (capped_extensions mx (ss_exts st)), key_files = keys,
       entries_seen = ss_entries st, rs_files_seen = ss_files st, rs_truncated = rs_truncated scan\<rparr>"
  using assms by (auto simp: scan_workspace_def Let_def split: sum.splits)


definition sample_scan_env :: scan_env where
  "sample_scan_env = \<lparr>se_os = sample_os\<lparr>os_dumps := (\<lambda>v. ''x'')\<rparr>, se_loads = (\<lambda>s. Some (JArr [JStr ''f'', JStr ''.env''])), se_hex_sha = (\<lambda>s. s),
     se_canonical = (\<lambda>v. [])\<rparr>"

lemma sample_scan: "\<exists>scan. scan_workspace sample_scan_env (sample_ws ''a'') ''w'' 400 60 24 = Inr scan"
  by (simp add: scan_workspace_def sample_scan_env_def ws_list_def sample_ws_def resolve_safe_def path_parts_def
      is_absolute_def backslash_def listed_def str_list_def shown_name_def skipped_dirs_def key_files_known_def
      tool_result_of_def failed_result_def sample_os_def default_ws_config_def Let_def)


end
