(* ===== verification/Suite_Pinned.thy ===== *)
theory Suite_Pinned
  imports Compiler_Properties Hard_Gates Scan_Properties
begin

section \<open>The protection of a test suite\<close>

text \<open>
  The criteria the compiler adds to a goal that asks for passing tests, read by the gates that
  check them later: the tree of tests and the configuration of pytest are as they were when the
  contract was compiled.
\<close>

text \<open>How pydantic parses the dicts the compiler itself writes: the fields that are there, and nothing
  else.\<close>

definition standard_criteria :: "contract_lib \<Rightarrow> bool" where
  "standard_criteria lib \<longleftrightarrow>
     (\<forall>x. cl_sha lib x \<noteq> [])
     \<and> (\<forall>d n. n \<noteq> [] \<longrightarrow> cl_criterion lib [(''kind'', JStr ''command''), (''description'', JStr d),
          (''command_name'', JStr n), (''exit_code'', JInt 0)] = Inr (CommandCriterion d n 0))
     \<and> (\<forall>d p h. p \<noteq> [] \<longrightarrow> h \<noteq> [] \<longrightarrow> cl_criterion lib [(''kind'', JStr ''tree_digest''), (''description'', JStr d),
          (''path'', JStr p), (''tree_hash'', JStr h)] = Inr (TreeDigestCriterion d p h))
     \<and> (\<forall>d p. p \<noteq> [] \<longrightarrow> cl_criterion lib [(''kind'', JStr ''file_diff''), (''description'', JStr d),
          (''path'', JStr p), (''must_exist'', JBool False)] = Inr (FileDiffCriterion d p False None None None))
     \<and> (\<forall>d p h. p \<noteq> [] \<longrightarrow> cl_criterion lib [(''kind'', JStr ''file_diff''), (''description'', JStr d),
          (''path'', JStr p), (''must_exist'', JBool True), (''content_hash'', JStr h)]
          = Inr (FileDiffCriterion d p True (Some h) None None))
     \<and> (\<forall>d p t. p \<noteq> [] \<longrightarrow> t \<noteq> [] \<longrightarrow> cl_criterion lib [(''kind'', JStr ''file_diff''), (''description'', JStr d),
          (''path'', JStr p), (''must_exist'', JBool True), (''content_contains'', JStr t)]
          = Inr (FileDiffCriterion d p True None (Some t) None))"

lemma kinds_known [simp]:
  "''command'' \<in> set kind_values" "''tree_digest'' \<in> set kind_values" "''file_diff'' \<in> set kind_values"
  by (simp_all add: kind_values_def all_criterion_kinds_def)

lemma standard_suite:
  assumes "standard_criteria lib" "cmd \<noteq> []"
  shows "criterion_from_dict lib i (suite_criterion cmd) =
     Some (CommandCriterion (''command '' @ quoted cmd @ '' exits 0 -- full test suite passes'') cmd 0)"
  using assms by (simp add: criterion_from_dict_def suite_criterion_def field_def obj_get_def dict_merge_def standard_criteria_def)

lemma standard_tree:
  assumes "standard_criteria lib" "d \<noteq> []"
  shows "\<exists>t. \<forall>i. criterion_from_dict lib i (tree_criterion d) = Some (TreeDigestCriterion t ''tests'' d)"
  using assms by (simp add: criterion_from_dict_def tree_criterion_def field_def obj_get_def dict_merge_def standard_criteria_def)

lemma standard_pin:
  assumes "standard_criteria lib" "rel \<noteq> []"
  shows "criterion_from_dict lib i (pin_criterion rel t h) = Some (FileDiffCriterion t rel (h \<noteq> None) h None None)"
  using assms by (cases h)
    (simp_all add: criterion_from_dict_def pin_criterion_def field_def obj_get_def dict_merge_def standard_criteria_def)

lemma parsed_mem:
  assumes "c \<in> set cs" "\<And>i. criterion_from_dict lib i c = Some k"
  shows "k \<in> set (parsed_criteria lib cs)"
proof -
  from assms(1) obtain i where "i < length cs" "c = cs ! i" by (auto simp: in_set_conv_nth)
  then have "(i, c) \<in> set (List.enumerate 0 cs)" by (simp add: in_set_enumerate_eq)
  with assms(2) show ?thesis by (force simp: parsed_criteria_def List.map_filter_def)
qed

lemma pin_files_mem:
  "pin_files lib ws have kept ps = Inr out \<Longrightarrow> (path, wanted) \<in> set ps \<Longrightarrow>
     \<exists>a. pin_file lib ws have kept path wanted = Inr a \<and> set a \<subseteq> set out"
proof (induction ps arbitrary: out)
  case (Cons p ps)
  obtain q w where p: "p = (q, w)" by (cases p)
  from Cons.prems(1) obtain a b where ab: "pin_file lib ws have kept q w = Inr a"
      "pin_files lib ws have kept ps = Inr b" "out = a @ b"
    by (auto simp: p split: sum.splits)
  show ?case
  proof (cases "(path, wanted) = p")
    case True
    with ab show ?thesis by (auto simp: p)
  next
    case False
    with Cons.prems(2) have "(path, wanted) \<in> set ps" by auto
    from Cons.IH [OF ab(2) this] show ?thesis by (auto simp: ab(3))
  qed
qed simp

text \<open>A file of pytest's configuration, now and when the contract was compiled.\<close>

definition as_at_compile :: "contract_lib \<Rightarrow> workspace \<Rightarrow> string \<Rightarrow> node \<Rightarrow> bool" where
  "as_at_compile lib ws n now =
     (case entry_seen lib ws [n] of
        None \<Rightarrow> entry_at now [n] = None
      | Some (File b) \<Rightarrow>
          (case entry_at now [n] of
             Some (File b') \<Rightarrow> hexdigest (cl_sha lib) b' = hexdigest (cl_sha lib) b | _ \<Rightarrow> False)
      | Some _ \<Rightarrow> False)"

lemma tamper_paths: "n \<in> set pytest_tamper_files \<Longrightarrow> n \<noteq> [] \<and> as_posix [n] = n \<and> path_parts n = [n]"
  by (auto simp: pytest_tamper_files_def as_posix_def path_parts_def)

lemma resolved_tamper:
  assumes "n \<in> set pytest_tamper_files" "resolve_safe nd n = Inr (Some path)"
  shows "path = [n]"
  using assms tamper_paths [OF assms(1)]
  by (auto simp: resolve_safe_def Let_def pytest_tamper_files_def split: if_splits)

lemma hexdigest_neq_Nil: "sha x \<noteq> [] \<Longrightarrow> hexdigest sha x \<noteq> []"
  by (cases "sha x") (simp_all add: hexdigest_def hex_byte_def)

definition writes_tests :: "contract_lib \<Rightarrow> dict \<Rightarrow> bool" where
  "writes_tests lib c \<longleftrightarrow> starts_with ''tests/'' (text_of lib (field (params_of c) ''path'' (JStr [])))"

lemma added_write_nothing [simp]:
  "\<not> writes_tests lib (suite_criterion cmd)" "\<not> writes_tests lib genuine_fix_rubric"
  "\<not> has_kind ''tree_digest'' (suite_criterion cmd)" "\<not> has_kind ''tree_digest'' genuine_fix_rubric"
  by (simp_all add: writes_tests_def suite_criterion_def genuine_fix_rubric_def has_kind_def params_of_def field_def
      obj_get_def text_of_def)

lemma upgrade_parts:
  assumes "upgrade_criteria lib ws cmd have = Inr cs"
  obtains c2 pins guards where "set c2 \<subseteq> set have \<union> {suite_criterion cmd, genuine_fix_rubric}"
    "have_key have ''command'' cmd \<or> suite_criterion cmd \<in> set c2"
    "test_pins lib ws have c2 = Inr pins"
    "pin_files lib ws have config_identical
       (map (\<lambda>n. ([n], entry_seen lib ws [n] \<noteq> None)) pytest_tamper_files) = Inr guards"
    "cs = c2 @ pins @ guards"
proof -
  let ?c1 = "have @ (if have_key have ''command'' cmd then [] else [suite_criterion cmd])"
  define c2 where "c2 = ?c1 @ (if list_ex (has_kind ''soft_rubric'') ?c1 then [] else [genuine_fix_rubric])"
  have in_c2: "set c2 \<subseteq> set have \<union> {suite_criterion cmd, genuine_fix_rubric}"
    "have_key have ''command'' cmd \<or> suite_criterion cmd \<in> set c2"
    by (auto simp: c2_def)
  have "upgrade_criteria lib ws cmd have = (if \<not> all_hashable have then Inl Unhashable_value
      else case test_pins lib ws have c2 of
             Inl e \<Rightarrow> Inl e
           | Inr pins \<Rightarrow>
               (case pin_files lib ws have config_identical
                       (map (\<lambda>n. ([n], entry_seen lib ws [n] \<noteq> None)) pytest_tamper_files) of
                  Inl e \<Rightarrow> Inl e
                | Inr guards \<Rightarrow> Inr (c2 @ pins @ guards)))"
    by (simp only: upgrade_criteria_def Let_def c2_def)
  with assms show ?thesis using that [OF in_c2] by (auto split: if_split_asm sum.split_asm)
qed

lemma tests_pinned:
  assumes "upgrade_criteria lib ws cmd have = Inr cs" "seen_dir lib ws [''tests'']"
    "list_all (\<lambda>c. \<not> has_kind ''tree_digest'' c \<and> \<not> writes_tests lib c) have"
  obtains d where "compute_tree_digest (cl_sha lib) (cl_tree_limits lib) (tree ws) ''tests'' = Inr d"
    "tree_criterion d \<in> set cs"
proof -
  from upgrade_parts [OF assms(1)] obtain c2 pins guards where
      p: "set c2 \<subseteq> set have \<union> {suite_criterion cmd, genuine_fix_rubric}"
        "test_pins lib ws have c2 = Inr pins" "cs = c2 @ pins @ guards" by metis
  have "\<not> list_ex (writes_tests lib) c2" "\<not> list_ex (has_kind ''tree_digest'') c2"
    using assms(3) p(1) by (auto simp: list_ex_iff list_all_iff)
  with p(2) assms(2) have "(case compute_tree_digest (cl_sha lib) (cl_tree_limits lib) (tree ws) ''tests'' of
      Inl e \<Rightarrow> Inl (Tree_failed e) | Inr d \<Rightarrow> Inr [tree_criterion d]) = Inr pins"
    by (simp add: test_pins_def Let_def writes_tests_def [abs_def])
  then show ?thesis using that by (auto simp: p(3) split: sum.splits)
qed

lemma config_pinned:
  assumes "upgrade_criteria lib ws cmd have = Inr cs" "n \<in> set pytest_tamper_files" "\<not> have_key have ''file_diff'' n"
  obtains t h where "pin_criterion n t h \<in> set cs"
    "case entry_seen lib ws [n] of None \<Rightarrow> h = None
       | Some (File b) \<Rightarrow> h = Some (hexdigest (cl_sha lib) b) | Some _ \<Rightarrow> False"
proof -
  let ?ps = "map (\<lambda>n. ([n], entry_seen lib ws [n] \<noteq> None)) pytest_tamper_files"
  from upgrade_parts [OF assms(1)] obtain guards where
      g: "pin_files lib ws have config_identical ?ps = Inr guards" "set guards \<subseteq> set cs"
    by (metis (no_types, lifting) set_append sup_ge2 sup.coboundedI2)
  have "([n], entry_seen lib ws [n] \<noteq> None) \<in> set ?ps" using assms(2) by auto
  from pin_files_mem [OF g(1) this] g(2) obtain a where
      a: "pin_file lib ws have config_identical [n] (entry_seen lib ws [n] \<noteq> None) = Inr a" "set a \<subseteq> set cs"
    by (metis order_trans)
  show ?thesis
  proof (cases "entry_seen lib ws [n]")
    case None
    with a assms(3) tamper_paths [OF assms(2)] show ?thesis
      by (intro that [where h = None]) (auto simp: pin_file_def Let_def)
  next
    case (Some nd)
    with a(1) assms(3) tamper_paths [OF assms(2)] obtain b where b: "nd = File b"
        "a = [pin_criterion n (config_identical n) (Some (hexdigest (cl_sha lib) b))]"
      by (auto simp: pin_file_def pinned_hash_def Let_def split: node.splits)
    with a(2) Some show ?thesis by (intro that) auto
  qed
qed

lemma pin_holds_as_at_compile:
  assumes "\<forall>x. cl_sha lib x \<noteq> []" "n \<in> set pytest_tamper_files" "os_sha (ge_os env) = cl_sha lib"
    "case entry_seen lib ws [n] of None \<Rightarrow> h = None
       | Some (File b) \<Rightarrow> h = Some (hexdigest (cl_sha lib) b) | Some _ \<Rightarrow> False"
    "file_as_wanted env n (h \<noteq> None) h None None now"
  shows "as_at_compile lib ws n (tree now)"
proof -
  obtain path where path: "resolve_safe (tree now) n = Inr (Some path)"
    using assms(5) by (simp split: sum.split_asm option.split_asm)
  with resolved_tamper [OF assms(2)] have r: "resolve_safe (tree now) n = Inr (Some [n])" by simp
  show ?thesis
  proof (cases "entry_seen lib ws [n]")
    case None
    with assms(4,5) r show ?thesis by (simp add: as_at_compile_def split: option.split_asm node.split_asm)
  next
    case (Some nd)
    with assms(4) obtain b where b: "nd = File b" "h = Some (hexdigest (cl_sha lib) b)" by (auto split: node.split_asm)
    moreover have "hexdigest (cl_sha lib) b \<noteq> []" using assms(1) hexdigest_neq_Nil by simp
    ultimately show ?thesis using Some assms(3,5) r
      by (simp add: as_at_compile_def gate_hash_def split: option.split_asm node.split_asm)
  qed
qed


subsection \<open>Samples\<close>

definition json_text :: "json \<Rightarrow> string" where
  "json_text v = (case v of JStr s \<Rightarrow> s | _ \<Rightarrow> [])"

definition sample_criterion :: "dict \<Rightarrow> string list + acceptance_criterion" where
  "sample_criterion flat =
     (let part = (\<lambda>k. json_text (field flat k JNull))
      in if has_kind ''command'' flat then Inr (CommandCriterion (part ''description'') (part ''command_name'') 0)
         else if has_kind ''tree_digest'' flat
         then Inr (TreeDigestCriterion (part ''description'') (part ''path'') (part ''tree_hash''))
         else Inr (FileDiffCriterion (part ''description'') (part ''path'') (field flat ''must_exist'' JNull = JBool True)
           (if obj_get flat ''content_hash'' = None then None else Some (part ''content_hash''))
           (if obj_get flat ''content_contains'' = None then None else Some (part ''content_contains'')) None))"

definition sample_compile_os :: os_env where
  "sample_compile_os = sample_os\<lparr>os_sha := (\<lambda>s. CHR ''h'' # s)\<rparr>"

definition sample_contract_lib :: contract_lib where
  "sample_contract_lib = \<lparr>cl_decode = (\<lambda>s i. None), cl_loads = (\<lambda>s. None), cl_str = (\<lambda>v. []), cl_float = (\<lambda>v. None),
     cl_criterion = sample_criterion, cl_gateway = (\<lambda>r. None), cl_read = (\<lambda>p. Read_os_error), cl_follow = (\<lambda>p. None),
     cl_scan = sample_scan_env,
     cl_sha = os_sha sample_compile_os, cl_tree_limits = default_limits, cl_contract_id = ''contract-1''\<rparr>"

definition sample_suite_ws :: workspace where
  "sample_suite_ws = (sample_ws [])\<lparr>tree := Directory
     [(''tests'', Directory [(''test_a.py'', File ''assert True'')]), (''conftest.py'', File ''import pytest'')]\<rparr>"

lemma sample_lib_standard: "standard_criteria sample_contract_lib"
  by (simp add: standard_criteria_def sample_contract_lib_def sample_compile_os_def sample_criterion_def has_kind_def
      field_def obj_get_def json_text_def)

lemma sample_upgrade: "\<exists>cs. upgrade_criteria sample_contract_lib sample_suite_ws ''unit'' [] = Inr cs"
proof -
  have "\<exists>d. compute_tree_digest (cl_sha sample_contract_lib) (cl_tree_limits sample_contract_lib) (tree sample_suite_ws) ''tests''
      = Inr d"
    by (simp add: compute_tree_digest_def sample_contract_lib_def sample_suite_ws_def path_parts_def is_absolute_def
        scan_entry_def default_limits_def Let_def)
  then show ?thesis
    by (auto simp: upgrade_criteria_def all_hashable_def test_pins_def Let_def pytest_tamper_files_def pin_file_def
        pinned_hash_def entry_seen_def sample_suite_ws_def seen_dir_def have_key_def has_kind_def
        suite_criterion_def genuine_fix_rubric_def params_of_def field_def obj_get_def text_of_def)
qed


end
