(* ===== verification/Explicit_Goals.thy ===== *)
theory Explicit_Goals
  imports Suite_Pinned
begin

section \<open>Goals that say which file holds which text\<close>

text \<open>
  A goal of the form \<^verbatim>\<open>create file X containing "Y"\<close> from the pattern to the gate: no model is
  asked for its criterion.
\<close>

lemma part_of_strip: "\<exists>a b. s = a @ strip s @ b"
proof -
  have "s = takeWhile is_space s @ dropWhile is_space s" by simp
  moreover have "\<exists>b. r = rev (dropWhile is_space (rev r)) @ b" for r
    by (intro exI [of _ "rev (takeWhile is_space (rev r))"]) (metis rev_append rev_rev_ident takeWhile_dropWhile_id)
  ultimately show ?thesis unfolding strip_def by (metis append_assoc)
qed

lemma analysis_parts:
  assumes "deterministic_file_content_analysis s = Some (p, t)"
  shows "p \<noteq> []" "t \<noteq> []" "\<exists>a b. s = a @ p @ b" "\<exists>a b. s = a @ t @ b"
proof -
  from assms obtain m p' where m: "rx_search file_content_goal s = Some m" "map_of (rp_groups m) ''path'' = Some p'"
    "map_of (rp_groups m) ''text'' = Some t" "p = strip p'" "p \<noteq> []" "t \<noteq> []"
    by (auto simp: deterministic_file_content_analysis_def split: option.splits if_splits)
  then show "p \<noteq> []" "t \<noteq> []" by simp_all
  from rx_search_groups [OF m(1,3)] show "\<exists>a b. s = a @ t @ b" .
  from rx_search_groups [OF m(1,2)] obtain a b where "s = a @ p' @ b" by auto
  moreover obtain a' b' where "p' = a' @ p @ b'" using part_of_strip [of p'] m(4) by auto
  ultimately show "\<exists>a b. s = a @ p @ b" by (metis append_assoc)
qed

lemma content_criterion_parsed:
  assumes "standard_criteria lib" "p \<noteq> []" "t \<noteq> []"
  shows "criterion_from_dict lib i (content_criterion p t)
     = Some (FileDiffCriterion (''file '' @ quoted p @ '' contains the required text'') p True None (Some t) None)"
  using assms by (simp add: criterion_from_dict_def content_criterion_def field_def obj_get_def dict_merge_def standard_criteria_def)

lemma content_criterion_kept:
  "normalize_command_criteria config (acc\<lparr>aa_criteria := [content_criterion p t]\<rparr>) = Inr (acc\<lparr>aa_criteria := [content_criterion p t]\<rparr>)"
proof (cases config)
  case (Some cfg)
  have "\<not> has_kind ''command'' (content_criterion p t)" by (simp add: content_criterion_def has_kind_def field_def obj_get_def)
  then show ?thesis by (simp add: normalize_command_criteria_def normalize_one_def Some)
qed (simp add: normalize_command_criteria_def)

lemma explicit_acceptance:
  assumes "run_analyses env req = Inr (ra, pa, aa)" "cv_runner env = Model_runner profile n names"
    "deterministic_file_content_analysis (goal req) = Some (p, t)" "\<not> is_test_goal (goal req)"
  shows "ra = (bare_requirements (goal req))\<lparr>ra_deliverables := [p]\<rparr>"
    "aa = \<lparr>aa_criteria = [content_criterion p t], aa_risks = [], aa_ambiguities = [], aa_threshold = 1 / 2\<rparr>"
proof -
  let ?aa = "\<lparr>aa_criteria = [content_criterion p t], aa_risks = [], aa_ambiguities = [], aa_threshold = 1 / 2\<rparr>"
  have "normalize_command_criteria (cv_config env) ?aa = Inr ?aa"
    using content_criterion_kept [where acc = ?aa and p = p and t = t] by simp
  then show "ra = (bare_requirements (goal req))\<lparr>ra_deliverables := [p]\<rparr>" "aa = ?aa"
    using assms by (auto simp: run_analyses_def run_requirements_def run_acceptance_def upgrade_test_goal_criterion_def
        Let_def split: sum.splits option.splits)
qed

text \<open>A goal that names a file and a text is checked for exactly that.  When it compiles, through
  whatever model, its contract delivers the named file and has one criterion, both taken literally
  from the goal, no question is left open, and every run whose gates pass ends with that file in
  place and the text in it.\<close>

theorem explicit_goal_checked:
  assumes "compile_contract env req [] = (Inr wc, ps)" "cv_runner env = Model_runner profile n names"
    "deterministic_file_content_analysis (goal req) = Some (p, t)" "\<not> is_test_goal (goal req)"
    "standard_criteria (cv_lib env)"
  shows "deliverables wc = [p] \<and> unresolved_ambiguity wc = []
    \<and> map criterion_kind_of (acceptance_criteria wc) = [FILE_DIFF]
    \<and> (\<exists>a b. goal req = a @ p @ b) \<and> (\<exists>a b. goal req = a @ t @ b)
    \<and> (if list_all (\<lambda>c. gate_condition genv c ev tools st) (acceptance_criteria wc)
       then \<exists>path content. resolve_safe (tree (gs_ws st)) p = Inr (Some path)
         \<and> entry_at (tree (gs_ws st)) path = Some (File content) \<and> contains t content
       else True)"
proof -
  note parts = analysis_parts [OF assms(3)]
  from compile_contract_cases [OF assms(1)] obtain ra pa aa where r: "run_analyses env req = Inr (ra, pa, aa)"
    and s: "synthesize (cv_lib env) req ra pa aa (compile_budget (cv_config env) req) = Inr wc"
    by (cases rule: compile_contract_cases [OF assms(1)]) auto
  note ra = explicit_acceptance [OF r assms(2-4)]
  have "parsed_criteria (cv_lib env) [content_criterion p t] =
      [FileDiffCriterion (''file '' @ quoted p @ '' contains the required text'') p True None (Some t) None]"
    by (simp add: parsed_criteria_def List.map_filter_def content_criterion_parsed [OF assms(5) parts(1,2)])
  with s have wc: "acceptance_criteria wc =
      [FileDiffCriterion (''file '' @ quoted p @ '' contains the required text'') p True None (Some t) None]"
    "deliverables wc = [p]" "unresolved_ambiguity wc = []"
    by (auto simp: ra synthesize_def Let_def bare_requirements_def split: if_splits)
  then show ?thesis using parts(3,4)
    by (auto split: sum.splits option.splits node.splits)
qed

definition sample_goal :: string where
  "sample_goal = ''make file a.b contain'' @ [CHR 0x27] @ ''x'' @ [CHR 0x27]"

definition sample_goal_request :: project_request where
  "sample_goal_request = \<lparr>goal = sample_goal, workspace_root = ''w'', req_constraints = [], req_budget = None,
     tool_policy = [], max_waves = 1\<rparr>"

definition sample_compiler :: compiler_env where
  "sample_compiler = \<lparr>cv_lib = sample_contract_lib, cv_ws = sample_ws ''a'', cv_runner = Model_runner ''p'' 1024 [],
     cv_config = None, cv_tools = [], cv_falsify = (\<lambda>wc req. None), cv_error_text = (\<lambda>e. []),
     cv_fate = (\<lambda>sofar p. Stored)\<rparr>"

lemma sample_fields [simp]:
  "cv_lib sample_compiler = sample_contract_lib" "cv_ws sample_compiler = sample_ws ''a''"
  "cv_runner sample_compiler = Model_runner ''p'' 1024 []" "cv_config sample_compiler = None"
  "cv_tools sample_compiler = []" "cv_falsify sample_compiler wc req = None" "cv_fate sample_compiler sofar p = Stored"
  "goal sample_goal_request = sample_goal" "workspace_root sample_goal_request = ''w''"
  "req_budget sample_goal_request = None" "tool_policy sample_goal_request = []"
  by (simp_all add: sample_compiler_def sample_goal_request_def)

lemma sample_goal_parts:
  "deterministic_file_content_analysis sample_goal = Some (''a.b'', ''x'')" "\<not> is_test_goal sample_goal"
  "strip sample_goal \<noteq> []"
  by code_simp+

lemma sample_compiled: "\<exists>wc ps. compile_contract sample_compiler sample_goal_request [] = (Inr wc, ps)"
proof -
  obtain scan where scan: "scan_workspace sample_scan_env (sample_ws ''a'') ''w'' 400 60 24 = Inr scan"
    using sample_scan by auto
  let ?aa = "\<lparr>aa_criteria = [content_criterion ''a.b'' ''x''], aa_risks = [], aa_ambiguities = [], aa_threshold = 1 / 2\<rparr>"
  obtain pa where pa: "run_repo sample_contract_lib (sample_ws ''a'') (Model_runner ''p'' 1024 []) sample_goal_request = Inr pa"
    by (cases "conventions_from_scan scan") (simp add: run_repo_def sample_contract_lib_def scan)
  have "run_analyses sample_compiler sample_goal_request
      = Inr ((bare_requirements sample_goal)\<lparr>ra_deliverables := [''a.b'']\<rparr>, pa, ?aa)"
    by (simp add: run_analyses_def pa run_requirements_def run_acceptance_def sample_goal_parts
        normalize_command_criteria_def upgrade_test_goal_criterion_def Let_def)
  moreover have "\<exists>c. parsed_criteria sample_contract_lib [content_criterion ''a.b'' ''x''] = [c] \<and> criterion_kind_of c = FILE_DIFF"
    by (simp add: parsed_criteria_def List.map_filter_def content_criterion_parsed [OF sample_lib_standard])
  ultimately show ?thesis
    by (auto simp: compile_contract_def compile_bind_def compile_emit_def lift_compile_def
        requested_events_def completed_events_def analysis_names_def synthesize_def judge_contract_def
        validate_contract_def unknown_commands_def registry_names_def bare_requirements_def
        sample_goal_parts Let_def)
qed

theorem explicit_goal_checked_witness:
  "\<exists>wc ps. compile_contract sample_compiler sample_goal_request [] = (Inr wc, ps)
     \<and> deliverables wc = [''a.b''] \<and> map criterion_kind_of (acceptance_criteria wc) = [FILE_DIFF]"
proof -
  obtain wc ps where c: "compile_contract sample_compiler sample_goal_request [] = (Inr wc, ps)"
    using sample_compiled by auto
  with explicit_goal_checked [OF c] show ?thesis by (auto simp: sample_goal_parts sample_lib_standard)
qed

theorem compiled_contract_sound_witness:
  "\<exists>wc ps. compile_contract sample_compiler sample_goal_request [] = (Inr wc, ps)
     \<and> acceptance_criteria wc \<noteq> [] \<and> length ps = 8"
proof -
  obtain wc ps where c: "compile_contract sample_compiler sample_goal_request [] = (Inr wc, ps)"
    using sample_compiled by auto
  with compiled_contract_sound [OF c] show ?thesis by auto
qed

end
