(* ===== verification/Web_Addresses.thy ===== *)
theory Web_Addresses
  imports Config File_Tree
begin

section \<open>Addresses a public fetch must not reach (adapters/workspace/webfetch.py)\<close>

text \<open>
  The part of \<^verbatim>\<open>ipaddress\<close> that decides which addresses are blocked: dotted IPv4 text and the
  networks of its properties.  An IPv6 address is a parameter, as the properties it has.
\<close>

record ip_flags =
  ip_loopback :: bool
  ip_private :: bool
  ip_link_local :: bool
  ip_multicast :: bool
  ip_reserved :: bool
  ip_unspecified :: bool

text \<open>\<^verbatim>\<open>IPv4Address(text)\<close>: four decimal octets without leading zeros.\<close>

definition digit_value :: "char \<Rightarrow> nat" where
  "digit_value c = of_char c - 48"

definition octet_of :: "string \<Rightarrow> nat option" where
  "octet_of s =
     (if s = [] \<or> \<not> list_all is_digit s \<or> 3 < length s \<or> (1 < length s \<and> hd s = CHR ''0'') then None
      else let n = foldl (\<lambda>n c. 10 * n + digit_value c) 0 s in if n \<le> 255 then Some n else None)"

definition ipv4_number :: "nat \<Rightarrow> nat \<Rightarrow> nat \<Rightarrow> nat \<Rightarrow> nat" where
  "ipv4_number a b c d = ((a * 256 + b) * 256 + c) * 256 + d"

definition ipv4_of :: "string \<Rightarrow> nat option" where
  "ipv4_of s =
     (case map octet_of (split_on CHR ''.'' s) of
        [Some a, Some b, Some c, Some d] \<Rightarrow> Some (ipv4_number a b c d)
      | _ \<Rightarrow> None)"

text \<open>Membership in a network given by its octets and the length of its prefix.\<close>

type_synonym network = "nat \<times> nat"

definition net :: "nat \<Rightarrow> nat \<Rightarrow> nat \<Rightarrow> nat \<Rightarrow> nat \<Rightarrow> network" where
  "net a b c d len = (ipv4_number a b c d, len)"

definition in_network :: "nat \<Rightarrow> network \<Rightarrow> bool" where
  "in_network n w = (n div 2 ^ (32 - snd w) = fst w div 2 ^ (32 - snd w))"

text \<open>The constants of CPython's \<^verbatim>\<open>_IPv4Constants\<close>.\<close>

definition private_networks :: "network list" where
  "private_networks = [net 0 0 0 0 8, net 10 0 0 0 8, net 127 0 0 0 8, net 169 254 0 0 16, net 172 16 0 0 12,
     net 192 0 0 0 24, net 192 0 0 170 31, net 192 0 2 0 24, net 192 168 0 0 16, net 198 18 0 0 15,
     net 198 51 100 0 24, net 203 0 113 0 24, net 240 0 0 0 4, net 255 255 255 255 32]"

definition private_exceptions :: "network list" where
  "private_exceptions = [net 192 0 0 9 32, net 192 0 0 10 32]"

definition ipv4_flags :: "nat \<Rightarrow> ip_flags" where
  "ipv4_flags n = \<lparr>ip_loopback = in_network n (net 127 0 0 0 8),
     ip_private = (list_ex (in_network n) private_networks \<and> \<not> list_ex (in_network n) private_exceptions),
     ip_link_local = in_network n (net 169 254 0 0 16), ip_multicast = in_network n (net 224 0 0 0 4),
     ip_reserved = in_network n (net 240 0 0 0 4), ip_unspecified = (n = 0)\<rparr>"

text \<open>\<^verbatim>\<open>ipaddress.ip_address\<close>: IPv4 first, then IPv6; \<open>None\<close> is the \<^verbatim>\<open>ValueError\<close>.\<close>

definition ip_address :: "(string \<Rightarrow> ip_flags option) \<Rightarrow> string \<Rightarrow> ip_flags option" where
  "ip_address ip6 s = (case ipv4_of s of Some n \<Rightarrow> Some (ipv4_flags n) | None \<Rightarrow> ip6 s)"

definition is_private_or_blocked_ip :: "(string \<Rightarrow> ip_flags option) \<Rightarrow> string \<Rightarrow> bool" where
  "is_private_or_blocked_ip ip6 s =
     (case ip_address ip6 s of
        None \<Rightarrow> True
      | Some f \<Rightarrow> ip_loopback f \<or> ip_private f \<or> ip_link_local f \<or> ip_multicast f \<or> ip_reserved f
          \<or> ip_unspecified f)"

subsection \<open>Printing and reading back\<close>

definition dotted :: "nat \<Rightarrow> nat \<Rightarrow> nat \<Rightarrow> nat \<Rightarrow> string" where
  "dotted a b c d = show_nat a @ ''.'' @ show_nat b @ ''.'' @ show_nat c @ ''.'' @ show_nat d"

lemma digit_char_facts:
  assumes "d < 10"
  shows "is_digit (digit_char d)" "digit_value (digit_char d) = d" "digit_char d = CHR ''0'' \<longleftrightarrow> d = 0"
    "digit_char d \<noteq> CHR ''.''"
proof -
  have v: "(of_char (digit_char d) :: nat) = 48 + d" using assms by (simp add: digit_char_def)
  then show "is_digit (digit_char d)" "digit_value (digit_char d) = d"
    using assms by (simp_all add: is_digit_def char_in_def digit_value_def)
  have "digit_char 0 = CHR ''0''" by code_simp
  then show "digit_char d = CHR ''0'' \<longleftrightarrow> d = 0" using digit_char_inj [OF assms, of 0] by auto
  show "digit_char d \<noteq> CHR ''.''" using v by auto
qed

lemma octet_read:
  assumes "a < 256"
  shows "octet_of (show_nat a) = Some a" "CHR ''.'' \<notin> set (show_nat a)"
proof -
  consider "a < 10" | "10 \<le> a" "a < 100" | "100 \<le> a" by linarith
  then have "octet_of (show_nat a) = Some a \<and> CHR ''.'' \<notin> set (show_nat a)"
  proof cases
    case 1
    then show ?thesis using digit_char_facts [of a] by (simp add: show_nat.simps octet_of_def)
  next
    case 2
    then have "show_nat a = [digit_char (a div 10), digit_char (a mod 10)]"
      by (simp add: show_nat.simps [of a] show_nat.simps [of "a div 10"])
    then show ?thesis using 2 digit_char_facts [of "a div 10"] digit_char_facts [of "a mod 10"]
      by (simp add: octet_of_def div_eq_0_iff eq_commute [of "CHR ''.''"] less_mult_imp_div_less)
  next
    case 3
    have "\<not> a < 10" "\<not> a div 10 < 10" "a div 10 div 10 < 10" "a div 10 div 10 = a div 100"
      using 3 assms by (simp_all flip: div_mult2_eq)
    then have "show_nat a = [digit_char (a div 100), digit_char (a div 10 mod 10), digit_char (a mod 10)]"
      by (simp add: show_nat.simps [of a] show_nat.simps [of "a div 10"] show_nat.simps [of "a div 100"])
    moreover have "100 * (a div 100) + 10 * (a div 10 mod 10) + a mod 10 = a"
      using mult_div_mod_eq [of 10 a] mult_div_mod_eq [of 10 "a div 10"] \<open>a div 10 div 10 = a div 100\<close> by linarith
    moreover have "0 < a div 100" "a div 100 < 10" using 3 assms by simp_all
    ultimately show ?thesis
      using 3 assms digit_char_facts [of "a div 100"] digit_char_facts [of "a div 10 mod 10"] digit_char_facts [of "a mod 10"]
      by (simp add: octet_of_def div_eq_0_iff algebra_simps)
  qed
  then show "octet_of (show_nat a) = Some a" "CHR ''.'' \<notin> set (show_nat a)" by simp_all
qed

lemma ipv4_read:
  assumes "a < 256" "b < 256" "c < 256" "d < 256"
  shows "ipv4_of (dotted a b c d) = Some (ipv4_number a b c d)"
  using assms by (simp add: ipv4_of_def dotted_def split_on_append split_on_plain octet_read)

subsection \<open>The networks, octet by octet\<close>

lemma last_octet: "n < 256 \<Longrightarrow> (m * 256 + n) div 256 = (m :: nat)"
  by simp

lemma digits_eq:
  assumes "n < k" "n' < (k :: nat)"
  shows "m * k + n = m' * k + n' \<longleftrightarrow> m = m' \<and> n = n'"
proof
  assume e: "m * k + n = m' * k + n'"
  from arg_cong [OF this, of "\<lambda>x. x div k"] assms have "m = m'" by simp
  with e show "m = m' \<and> n = n'" by simp
qed simp

lemma div_range: "0 < k \<Longrightarrow> a div k = q \<longleftrightarrow> q * k \<le> a \<and> a < Suc q * (k :: nat)"
  using less_eq_div_iff_mult_less_eq [of k q a] div_less_iff_less_mult [of k a "Suc q"] by linarith

lemma octet_blocks:
  assumes "b < 256" "c < 256" "d < 256"
  shows "ipv4_number a b c d div 16777216 = a" "ipv4_number a b c d div 65536 = a * 256 + b"
    "ipv4_number a b c d div 256 = (a * 256 + b) * 256 + c"
    "ipv4_number a b c d div 268435456 = a div 16" "ipv4_number a b c d div 1048576 = a * 16 + b div 16"
    "ipv4_number a b c d div 131072 = a * 128 + b div 2"
    "ipv4_number a b c d div 2 = ((a * 256 + b) * 256 + c) * 128 + d div 2"
proof -
  let ?n = "ipv4_number a b c d"
  have twice: "(m * 256 + n) div 2 = m * 128 + n div 2" "(m * 256 + n) div 16 = m * 16 + n div 16" for m n :: nat
    using div_mult_self1 [of 2 n "m * 128"] div_mult_self1 [of 16 n "m * 16"] by (simp_all add: ac_simps)
  show c: "?n div 256 = (a * 256 + b) * 256 + c" unfolding ipv4_number_def by (rule last_octet [OF assms(3)])
  have "?n div 65536 = ?n div 256 div 256" by (simp flip: div_mult2_eq)
  then show b: "?n div 65536 = a * 256 + b" unfolding c by (simp only: last_octet [OF assms(2)])
  have "?n div 16777216 = ?n div 65536 div 256" by (simp flip: div_mult2_eq)
  then show a: "?n div 16777216 = a" unfolding b by (simp only: last_octet [OF assms(1)])
  have "?n div 268435456 = ?n div 16777216 div 16" by (simp flip: div_mult2_eq)
  then show "?n div 268435456 = a div 16" unfolding a .
  have "?n div 1048576 = ?n div 65536 div 16" by (simp flip: div_mult2_eq)
  then show "?n div 1048576 = a * 16 + b div 16" unfolding b twice .
  have "?n div 131072 = ?n div 65536 div 2" by (simp flip: div_mult2_eq)
  then show "?n div 131072 = a * 128 + b div 2" unfolding b twice .
  show "?n div 2 = ((a * 256 + b) * 256 + c) * 128 + d div 2" unfolding ipv4_number_def by (rule twice)
qed

lemma ipv4_number_eq:
  "b < 256 \<Longrightarrow> c < 256 \<Longrightarrow> d < 256 \<Longrightarrow> y < 256 \<Longrightarrow> z < 256 \<Longrightarrow> w < 256 \<Longrightarrow>
     ipv4_number a b c d = ipv4_number x y z w \<longleftrightarrow> a = x \<and> b = y \<and> c = z \<and> d = w"
  unfolding ipv4_number_def by (simp only: digits_eq)  auto

text \<open>Membership by the length of the prefix.\<close>

lemma in_network_octets:
  assumes "b < 256" "c < 256" "d < 256" "y < 256" "z < 256" "w < 256"
  shows "in_network (ipv4_number a b c d) (net x y z w 4) \<longleftrightarrow> a div 16 = x div 16"
    "in_network (ipv4_number a b c d) (net x y z w 8) \<longleftrightarrow> a = x"
    "in_network (ipv4_number a b c d) (net x y z w 12) \<longleftrightarrow> a = x \<and> b div 16 = y div 16"
    "in_network (ipv4_number a b c d) (net x y z w 15) \<longleftrightarrow> a = x \<and> b div 2 = y div 2"
    "in_network (ipv4_number a b c d) (net x y z w 16) \<longleftrightarrow> a = x \<and> b = y"
    "in_network (ipv4_number a b c d) (net x y z w 24) \<longleftrightarrow> a = x \<and> b = y \<and> c = z"
    "in_network (ipv4_number a b c d) (net x y z w 31) \<longleftrightarrow> a = x \<and> b = y \<and> c = z \<and> d div 2 = w div 2"
    "in_network (ipv4_number a b c d) (net x y z w 32) \<longleftrightarrow> a = x \<and> b = y \<and> c = z \<and> d = w"
proof -
  note blocks = octet_blocks [OF assms(1-3)] octet_blocks [OF assms(4-6)]
  show "in_network (ipv4_number a b c d) (net x y z w 4) \<longleftrightarrow> a div 16 = x div 16"
    "in_network (ipv4_number a b c d) (net x y z w 8) \<longleftrightarrow> a = x"
    by (simp_all add: in_network_def net_def blocks)
  show "in_network (ipv4_number a b c d) (net x y z w 32) \<longleftrightarrow> a = x \<and> b = y \<and> c = z \<and> d = w"
    using ipv4_number_eq [OF assms] by (simp add: in_network_def net_def)
  have "a * 16 + b div 16 = x * 16 + y div 16 \<longleftrightarrow> a = x \<and> b div 16 = y div 16" using assms by (intro digits_eq) simp_all
  then show "in_network (ipv4_number a b c d) (net x y z w 12) \<longleftrightarrow> a = x \<and> b div 16 = y div 16"
    by (simp add: in_network_def net_def blocks)
  have "a * 128 + b div 2 = x * 128 + y div 2 \<longleftrightarrow> a = x \<and> b div 2 = y div 2" using assms by (intro digits_eq) simp_all
  then show "in_network (ipv4_number a b c d) (net x y z w 15) \<longleftrightarrow> a = x \<and> b div 2 = y div 2"
    by (simp add: in_network_def net_def blocks)
  have "a * 256 + b = x * 256 + y \<longleftrightarrow> a = x \<and> b = y" using assms by (intro digits_eq)
  then show "in_network (ipv4_number a b c d) (net x y z w 16) \<longleftrightarrow> a = x \<and> b = y"
    by (simp add: in_network_def net_def blocks)
  have "(a * 256 + b) * 256 + c = (x * 256 + y) * 256 + z \<longleftrightarrow> a = x \<and> b = y \<and> c = z"
    using assms by (simp only: digits_eq conj_assoc)
  then show "in_network (ipv4_number a b c d) (net x y z w 24) \<longleftrightarrow> a = x \<and> b = y \<and> c = z"
    by (simp add: in_network_def net_def blocks)
  have "((a * 256 + b) * 256 + c) * 128 + d div 2 = ((x * 256 + y) * 256 + z) * 128 + w div 2
      \<longleftrightarrow> (a * 256 + b) * 256 + c = (x * 256 + y) * 256 + z \<and> d div 2 = w div 2"
    using assms(3,6) by (intro digits_eq) simp_all
  then have "((a * 256 + b) * 256 + c) * 128 + d div 2 = ((x * 256 + y) * 256 + z) * 128 + w div 2
      \<longleftrightarrow> a = x \<and> b = y \<and> c = z \<and> d div 2 = w div 2"
    using assms by (simp only: digits_eq conj_assoc)
  then show "in_network (ipv4_number a b c d) (net x y z w 31) \<longleftrightarrow> a = x \<and> b = y \<and> c = z \<and> d div 2 = w div 2"
    by (simp add: in_network_def net_def blocks)
qed

lemma ipv4_zero: "ipv4_number a b c d = 0 \<longleftrightarrow> a = 0 \<and> b = 0 \<and> c = 0 \<and> d = 0"
  by (auto simp: ipv4_number_def)

lemma blocked_octets:
  assumes "a < 256" "b < 256" "c < 256" "d < 256"
  shows "is_private_or_blocked_ip ip6 (dotted a b c d) =
       (a \<in> {0, 10, 127} \<or> 224 \<le> a \<or> (a = 169 \<and> b = 254) \<or> (a = 172 \<and> 16 \<le> b \<and> b < 32)
        \<or> (a = 192 \<and> b = 168) \<or> (a = 192 \<and> b = 0 \<and> (c = 2 \<or> c = 0 \<and> d \<notin> {9, 10})) \<or> (a = 198 \<and> b \<in> {18, 19})
        \<or> (a = 198 \<and> b = 51 \<and> c = 100) \<or> (a = 203 \<and> b = 0 \<and> c = 113))"
proof -
  have "a div 16 = 14 \<longleftrightarrow> 224 \<le> a \<and> a < 240" "a div 16 = 15 \<longleftrightarrow> 240 \<le> a"
    "b div 16 = Suc 0 \<longleftrightarrow> 16 \<le> b \<and> b < 32" "b div 2 = 9 \<longleftrightarrow> b = 18 \<or> b = 19"
    using assms by (auto simp: div_range)
  note ranges = this
  have "is_private_or_blocked_ip ip6 (dotted a b c d) =
      (ip_loopback (ipv4_flags (ipv4_number a b c d)) \<or> ip_private (ipv4_flags (ipv4_number a b c d))
       \<or> ip_link_local (ipv4_flags (ipv4_number a b c d)) \<or> ip_multicast (ipv4_flags (ipv4_number a b c d))
       \<or> ip_reserved (ipv4_flags (ipv4_number a b c d)) \<or> ip_unspecified (ipv4_flags (ipv4_number a b c d)))"
    using assms by (simp add: is_private_or_blocked_ip_def ip_address_def ipv4_read)
  also have "... = (a = 127 \<or> (a = 0 \<or> a = 10 \<or> a = 127 \<or> (a = 169 \<and> b = 254) \<or> (a = 172 \<and> 16 \<le> b \<and> b < 32)
      \<or> (a = 192 \<and> b = 0 \<and> c = 0) \<or> (a = 192 \<and> b = 0 \<and> c = 2) \<or> (a = 192 \<and> b = 168)
      \<or> (a = 198 \<and> (b = 18 \<or> b = 19)) \<or> (a = 198 \<and> b = 51 \<and> c = 100) \<or> (a = 203 \<and> b = 0 \<and> c = 113) \<or> 240 \<le> a)
        \<and> \<not> (a = 192 \<and> b = 0 \<and> c = 0 \<and> (d = 9 \<or> d = 10))
      \<or> (a = 169 \<and> b = 254) \<or> (224 \<le> a \<and> a < 240) \<or> 240 \<le> a)"
    using assms by (simp add: ipv4_flags_def private_networks_def private_exceptions_def in_network_octets ranges ipv4_zero)
      (cases "a = 192"; cases "a = 0"; cases "a = 255"; auto)
  also have "... = (a \<in> {0, 10, 127} \<or> 224 \<le> a \<or> (a = 169 \<and> b = 254) \<or> (a = 172 \<and> 16 \<le> b \<and> b < 32)
      \<or> (a = 192 \<and> b = 168) \<or> (a = 192 \<and> b = 0 \<and> (c = 2 \<or> c = 0 \<and> d \<notin> {9, 10})) \<or> (a = 198 \<and> b \<in> {18, 19})
      \<or> (a = 198 \<and> b = 51 \<and> c = 100) \<or> (a = 203 \<and> b = 0 \<and> c = 113))"
  proof (cases "224 \<le> a")
    case True
    then have "a \<noteq> 192" "a < 240 \<or> 240 \<le> a" by linarith+
    with True show ?thesis by simp
  next
    case False
    then have "\<not> 240 \<le> a" by linarith
    with False show ?thesis
      by (cases "a = 192"; cases "a = 198"; cases "a = 169"; cases "a = 172"; cases "a = 203"; simp) auto
  qed
  finally show ?thesis .
qed

text \<open>Which IPv4 addresses a fetch may not reach.  Every address in decimal octets is read back as
  itself, and it is blocked exactly when it lies in one of the listed ranges; in particular the
  shared address space 100.64.0.0/10 of carriers and clouds, which is no public network, is not.\<close>

theorem blocked_ipv4_exact:
  assumes "a < 256" "b < 256" "c < 256" "d < 256"
  shows "ipv4_of (dotted a b c d) = Some (ipv4_number a b c d)
    \<and> is_private_or_blocked_ip ip6 (dotted a b c d) =
       (a \<in> {0, 10, 127} \<or> 224 \<le> a \<or> (a = 169 \<and> b = 254) \<or> (a = 172 \<and> 16 \<le> b \<and> b < 32)
        \<or> (a = 192 \<and> b = 168) \<or> (a = 192 \<and> b = 0 \<and> (c = 2 \<or> c = 0 \<and> d \<notin> {9, 10})) \<or> (a = 198 \<and> b \<in> {18, 19})
        \<or> (a = 198 \<and> b = 51 \<and> c = 100) \<or> (a = 203 \<and> b = 0 \<and> c = 113))
    \<and> \<not> is_private_or_blocked_ip ip6 (dotted 100 64 c d)"
  using assms by (simp add: ipv4_read blocked_octets)

theorem blocked_ipv4_exact_witness:
  "is_private_or_blocked_ip (\<lambda>s. None) (dotted 169 254 169 254)
   \<and> \<not> is_private_or_blocked_ip (\<lambda>s. None) (dotted 100 64 0 1)"
  using blocked_ipv4_exact [of 169 254 169 254 "\<lambda>s. None"] blocked_ipv4_exact [of 100 64 0 1 "\<lambda>s. None"] by simp

end
