(* ===== verification/Web_Fetch.thy ===== *)
theory Web_Fetch
  imports Web_Addresses Tool_Result
begin

section \<open>Public read-only fetch (adapters/workspace/webfetch.py)\<close>

text \<open>
  \<^verbatim>\<open>WebReader.fetch\<close>: the checks on the URL and on the addresses of its host, the redirect loop, the
  checks on the answer and the bounded reading of the body.  Parameters: \<^verbatim>\<open>urlparse\<close> and
  \<^verbatim>\<open>urljoin\<close>, the resolver and the transport, whose answers may change with every call, IPv6, and
  the elapsed time.  The log lists the look-ups and the requests in order.
\<close>

record fetch_policy =
  max_response_bytes :: nat
  max_redirects :: nat
  allowed_content_types :: "string list"

datatype url_port = No_port | Port nat | Bad_port

record fetch_url = parsed_url +
  fu_port :: url_port

datatype dns_answer = Addresses "string list" | Dns_os_error string

text \<open>\<open>fr_broken\<close>: the iteration over the body ends with a stream or operating-system error.\<close>

record fetch_response =
  fr_status :: int
  fr_headers :: "(string \<times> string) list"
  fr_chunks :: "string list"
  fr_broken :: bool

datatype transport_answer = Responded fetch_response | Request_error string | Other_error

record fetch_env =
  fe_policy :: fetch_policy
  fe_parse :: "string \<Rightarrow> fetch_url option"  \<comment> \<open>\<open>None\<close>: \<^verbatim>\<open>ValueError\<close>\<close>
  fe_join :: "string \<Rightarrow> string \<Rightarrow> string option"
  fe_resolve :: "nat \<Rightarrow> string \<Rightarrow> dns_answer"
  fe_request :: "nat \<Rightarrow> string \<Rightarrow> string \<Rightarrow> transport_answer"
  fe_ip6 :: "string \<Rightarrow> ip_flags option"
  fe_schemes_text :: string
  fe_ms :: nat

record fetch_log =
  fl_lookups :: "(string \<times> dns_answer) list"
  fl_requests :: "(string \<times> string) list"

text \<open>What a step of a fetch raises: the block, or an exception that leaves \<^verbatim>\<open>fetch\<close>.\<close>

datatype fetch_raise = SSRF_blocked string | Value_error | Uncaught

subsection \<open>The checks\<close>

definition default_port :: "string \<Rightarrow> nat option" where
  "default_port scheme = (if scheme = ''http'' then Some 80 else if scheme = ''https'' then Some 443 else None)"

definition port_check :: "string \<Rightarrow> url_port \<Rightarrow> fetch_raise option" where
  "port_check scheme p =
     (case p of
        No_port \<Rightarrow> None
      | Bad_port \<Rightarrow> Some Value_error
      | Port n \<Rightarrow> if Some n = default_port scheme then None
          else Some (SSRF_blocked (''Port '' @ show_nat n @ '' is not a default port for '' @ scheme @ ''; not allowed'')))"

definition validate_url :: "fetch_env \<Rightarrow> string \<Rightarrow> fetch_raise + string \<times> string" where
  "validate_url env url =
     (case fe_parse env url of
        None \<Rightarrow> Inl Value_error
      | Some u \<Rightarrow>
          (let scheme = casefold (url_scheme u)
           in if scheme \<notin> {''http'', ''https''}
              then Inl (SSRF_blocked (''Scheme '' @ quoted scheme @ '' not allowed; only '' @ fe_schemes_text env @ '' permitted''))
              else case url_hostname u of
                None \<Rightarrow> Inl (SSRF_blocked ''No hostname in URL'')
              | Some host \<Rightarrow>
                  if host = [] then Inl (SSRF_blocked ''No hostname in URL'')
                  else if url_username u \<noteq> [] \<or> url_password u \<noteq> []
                  then Inl (SSRF_blocked ''URL contains credentials (userinfo); not allowed'')
                  else case port_check scheme (fu_port u) of
                    Some e \<Rightarrow> Inl e
                  | None \<Rightarrow> Inr (scheme, host)))"

definition address_check :: "fetch_env \<Rightarrow> string \<Rightarrow> dns_answer \<Rightarrow> fetch_raise + unit" where
  "address_check env host answer =
     (case answer of
        Dns_os_error e \<Rightarrow> Inl (SSRF_blocked (''DNS resolution failed for '' @ host @ '': '' @ e))
      | Addresses ips \<Rightarrow>
          if ips = [] then Inl (SSRF_blocked (''DNS resolution returned no addresses for '' @ host))
          else (case find (is_private_or_blocked_ip (fe_ip6 env)) ips of
             None \<Rightarrow> Inr ()
           | Some ip \<Rightarrow> Inl (SSRF_blocked (''IP '' @ ip @ '' for '' @ host @ '' is in a blocked range ''
               @ ''(localhost/private/link-local/multicast/reserved/unspecified)''))))"

definition validate_ip :: "fetch_env \<Rightarrow> string \<Rightarrow> fetch_log \<Rightarrow> (fetch_raise + unit) \<times> fetch_log" where
  "validate_ip env host lg =
     (let answer = fe_resolve env (length (fl_lookups lg)) host
      in (address_check env host answer, lg\<lparr>fl_lookups := fl_lookups lg @ [(host, answer)]\<rparr>))"

definition header :: "(string \<times> string) list \<Rightarrow> string \<Rightarrow> string \<Rightarrow> string" where
  "header hs k d = (case map_of hs k of None \<Rightarrow> d | Some v \<Rightarrow> v)"

definition check_content_type :: "fetch_policy \<Rightarrow> (string \<times> string) list \<Rightarrow> bool" where
  "check_content_type policy hs \<longleftrightarrow>
     allowed_content_types policy = []
     \<or> casefold (strip (takeWhile (\<lambda>c. c \<noteq> CHR '';'') (header hs ''content-type'' []))) \<in> set (allowed_content_types policy)"

definition resolve_redirect :: "fetch_env \<Rightarrow> string \<Rightarrow> string \<Rightarrow> fetch_raise + string" where
  "resolve_redirect env location current =
     (if starts_with ''//'' location
      then (case fe_parse env current of None \<Rightarrow> Inl Value_error | Some u \<Rightarrow> Inr (url_scheme u @ '':'' @ location))
      else case fe_parse env location of
        None \<Rightarrow> Inl Value_error
      | Some u \<Rightarrow> if url_scheme u \<noteq> [] then Inr location
          else (case fe_join env current location of None \<Rightarrow> Inl Value_error | Some l \<Rightarrow> Inr l))"

definition downgraded :: "fetch_env \<Rightarrow> string \<Rightarrow> fetch_url \<Rightarrow> bool" where
  "downgraded env original_scheme u \<longleftrightarrow>
     original_scheme = ''https'' \<and> casefold (url_scheme u) = ''http''
     \<and> \<not> is_loopback_host (\<lambda>h. map_option ip_loopback (ip_address (fe_ip6 env) h))
         (Some (case url_hostname u of None \<Rightarrow> [] | Some h \<Rightarrow> h))"

subsection \<open>The body\<close>

text \<open>The chunk that crosses the bound is counted and dropped.\<close>

fun read_body :: "nat \<Rightarrow> string list \<Rightarrow> bool \<Rightarrow> string \<Rightarrow> nat \<Rightarrow> string \<times> nat \<times> bool" where
  "read_body cap [] broken body n = (body, n, broken)"
| "read_body cap (c # cs) broken body n =
     (let n' = n + length c
      in if n' \<le> cap then read_body cap cs broken (body @ c) n' else (body, n', True))"

subsection \<open>The fetch\<close>

definition fetch_result :: "fetch_env \<Rightarrow> bool \<Rightarrow> string \<Rightarrow> tool_result" where
  "fetch_result env ok err = (tool_result_of ok ''web_fetch'')\<lparr>tr_error := err, duration_ms := fe_ms env\<rparr>"

definition fetch_evidence :: "string \<Rightarrow> int \<Rightarrow> string \<Rightarrow> nat \<Rightarrow> nat \<Rightarrow> tool_evidence" where
  "fetch_evidence url status ct n hops = \<lparr>te_url = url, te_status_code = status, te_content_type = ct,
     te_size_bytes = int n, te_hops = int hops, te_untrusted = True, te_dns_pinned = False\<rparr>"

definition redirect_status :: "int set" where
  "redirect_status = {301, 302, 303, 307, 308}"

text \<open>An answer that is no redirect.\<close>

definition fetch_answer :: "fetch_env \<Rightarrow> string \<Rightarrow> string \<Rightarrow> nat \<Rightarrow> fetch_response \<Rightarrow> tool_result" where
  "fetch_answer env meth current hops r =
     (let ct = header (fr_headers r) ''content-type'' []
      in if fr_status r < 200 \<or> 300 \<le> fr_status r
         then (fetch_result env False (''HTTP '' @ show_int (fr_status r) @ '' response (non-2xx treated as failure)''))
           \<lparr>tr_evidence := Some (fetch_evidence current (fr_status r) ct 0 hops)\<rparr>
         else if \<not> check_content_type (fe_policy env) (fr_headers r)
         then fetch_result env False (''Content-Type '' @ quoted (header (fr_headers r) ''content-type'' ''unknown'')
           @ '' not in allowlist'')
         else if meth = ''HEAD''
         then (fetch_result env True [])\<lparr>tr_evidence := Some (fetch_evidence current (fr_status r) ct 0 hops)\<rparr>
         else (case read_body (max_response_bytes (fe_policy env)) (fr_chunks r) (fr_broken r) [] 0 of
            (body, n, clipped) \<Rightarrow>
              (fetch_result env True [])\<lparr>tr_data := body, truncated := clipped, total_bytes := n,
                tr_evidence := Some (fetch_evidence current (fr_status r) ct n hops)\<rparr>))"

text \<open>A step of the loop: it ends the fetch, raises, or goes on at the next URL.\<close>

datatype hop = Ends tool_result | Raises | Follows string

definition blocked_hop :: "fetch_env \<Rightarrow> string \<Rightarrow> fetch_raise \<Rightarrow> hop" where
  "blocked_hop env what e =
     (case e of SSRF_blocked m \<Rightarrow> Ends (fetch_result env False (what @ '': '' @ m)) | _ \<Rightarrow> Raises)"

definition fetch_redirect :: "fetch_env \<Rightarrow> string \<Rightarrow> string \<Rightarrow> nat \<Rightarrow> fetch_response \<Rightarrow> hop" where
  "fetch_redirect env original_scheme current hops r =
     (let location = header (fr_headers r) ''location'' []
      in if max_redirects (fe_policy env) < hops + 1
         then Ends (fetch_result env False (''Too many redirects (max '' @ show_nat (max_redirects (fe_policy env)) @ '')''))
         else if location = [] then Ends (fetch_result env False ''Redirect with no Location header'')
         else case resolve_redirect env location current of
           Inl e \<Rightarrow> Raises
         | Inr target \<Rightarrow>
             (case fe_parse env target of
                None \<Rightarrow> Raises
              | Some u \<Rightarrow>
                  if downgraded env original_scheme u
                  then Ends (fetch_result env False (''Refusing https->http protocol downgrade in redirect to '' @ target))
                  else Follows target))"

definition fetch_hop ::
  "fetch_env \<Rightarrow> string \<Rightarrow> string \<Rightarrow> string \<Rightarrow> nat \<Rightarrow> fetch_log \<Rightarrow> hop \<times> fetch_log" where
  "fetch_hop env meth original_scheme current hops lg =
     (case fe_parse env current of
        None \<Rightarrow> (Raises, lg)
      | Some u \<Rightarrow>
          (case validate_ip env (case url_hostname u of None \<Rightarrow> [] | Some h \<Rightarrow> h) lg of
             (Inl e, lg1) \<Rightarrow> (blocked_hop env (''SSRF blocked at redirect hop '' @ show_nat hops) e, lg1)
           | (Inr _, lg1) \<Rightarrow>
               (case validate_url env current of
                  Inl e \<Rightarrow> (blocked_hop env (''Invalid redirect URL at hop '' @ show_nat hops) e, lg1)
                | Inr _ \<Rightarrow>
                    (let answer = fe_request env (length (fl_requests lg1)) meth current;
                         lg2 = lg1\<lparr>fl_requests := fl_requests lg1 @ [(meth, current)]\<rparr>
                     in case answer of
                          Other_error \<Rightarrow> (Raises, lg2)
                        | Request_error e \<Rightarrow> (Ends (fetch_result env False (''Request failed: '' @ e)), lg2)
                        | Responded r \<Rightarrow>
                            if fr_status r \<in> redirect_status
                            then (fetch_redirect env original_scheme current hops r, lg2)
                            else (Ends (fetch_answer env meth current hops r), lg2)))))"

lemma fetch_hop_follows:
  "fetch_hop env meth orig current hops lg = (Follows target, lg') \<Longrightarrow> hops < max_redirects (fe_policy env)"
  by (auto simp: fetch_hop_def fetch_redirect_def blocked_hop_def Let_def
      split: option.splits prod.splits sum.splits transport_answer.splits fetch_raise.splits if_splits)

function fetch_loop ::
  "fetch_env \<Rightarrow> string \<Rightarrow> string \<Rightarrow> string \<Rightarrow> nat \<Rightarrow> fetch_log \<Rightarrow> tool_result option \<times> fetch_log" where
  "fetch_loop env meth original_scheme current hops lg =
     (case fetch_hop env meth original_scheme current hops lg of
        (Ends r, lg') \<Rightarrow> (Some r, lg')
      | (Raises, lg') \<Rightarrow> (None, lg')
      | (Follows target, lg') \<Rightarrow> fetch_loop env meth original_scheme target (hops + 1) lg')"
  by pat_completeness auto

termination
  by (relation "measure (\<lambda>(env, meth, orig, current, hops, lg). max_redirects (fe_policy env) - hops)")
    (auto dest!: fetch_hop_follows [OF sym])

declare fetch_loop.simps [simp del]

text \<open>\<^verbatim>\<open>fetch\<close>; \<open>None\<close> is an exception that leaves it.\<close>

definition web_fetch :: "fetch_env \<Rightarrow> string \<Rightarrow> string \<Rightarrow> tool_result option \<times> fetch_log" where
  "web_fetch env url meth =
     (let lg = \<lparr>fl_lookups = [], fl_requests = []\<rparr>
      in if meth \<notin> {''GET'', ''HEAD''}
         then (Some (fetch_result env False (''Method '' @ quoted meth @ '' not allowed; only GET/HEAD permitted'')), lg)
         else case validate_url env url of
           Inl (SSRF_blocked m) \<Rightarrow> (Some (fetch_result env False m), lg)
         | Inl _ \<Rightarrow> (None, lg)
         | Inr (scheme, host) \<Rightarrow>
             (case validate_ip env host lg of
                (Inl (SSRF_blocked m), lg1) \<Rightarrow> (Some (fetch_result env False m), lg1)
              | (Inl _, lg1) \<Rightarrow> (None, lg1)
              | (Inr _, lg1) \<Rightarrow> fetch_loop env meth scheme url 0 lg1))"

end
