(* ===== verification/Web_Fetch_Properties.thy ===== *)
theory Web_Fetch_Properties
  imports Web_Fetch
begin

section \<open>What a public fetch guarantees\<close>

text \<open>
  Every request of a fetch is a read of a public address that was looked up right before it, the
  redirects and the body are bounded, and what comes back is marked as untrusted.
\<close>

definition public_url :: "fetch_env \<Rightarrow> string \<Rightarrow> bool" where
  "public_url env url =
     (case fe_parse env url of
        None \<Rightarrow> False
      | Some u \<Rightarrow> casefold (url_scheme u) \<in> {''http'', ''https''} \<and> url_hostname u \<notin> {None, Some []}
          \<and> url_username u = [] \<and> url_password u = []
          \<and> (case fu_port u of No_port \<Rightarrow> True | Port n \<Rightarrow> Some n = default_port (casefold (url_scheme u)) | Bad_port \<Rightarrow> False))"

definition public_answer :: "fetch_env \<Rightarrow> dns_answer \<Rightarrow> bool" where
  "public_answer env answer =
     (case answer of
        Addresses ips \<Rightarrow> ips \<noteq> [] \<and> list_all (\<lambda>ip. \<not> is_private_or_blocked_ip (fe_ip6 env) ip) ips
      | Dns_os_error e \<Rightarrow> False)"

text \<open>A request, next to the look-up made right before it.\<close>

definition public_request :: "fetch_env \<Rightarrow> string \<Rightarrow> (string \<times> string) \<times> (string \<times> dns_answer) \<Rightarrow> bool" where
  "public_request env meth p =
     (case p of ((m, url), (host, answer)) \<Rightarrow>
        m = meth \<and> public_url env url \<and> map_option url_hostname (fe_parse env url) = Some (Some host)
        \<and> public_answer env answer)"

definition kept_secure :: "fetch_env \<Rightarrow> string \<Rightarrow> string \<Rightarrow> bool" where
  "kept_secure env original_scheme url =
     (case fe_parse env url of None \<Rightarrow> False | Some u \<Rightarrow> \<not> downgraded env original_scheme u)"

lemma validate_url_public: "validate_url env url = Inr (scheme, host) \<Longrightarrow>
    public_url env url \<and> (\<exists>u. fe_parse env url = Some u \<and> scheme = casefold (url_scheme u))"
  by (auto simp: validate_url_def public_url_def port_check_def Let_def
      split: option.splits if_splits url_port.splits)

lemma find_none: "find P xs = None \<longleftrightarrow> list_all (\<lambda>x. \<not> P x) xs"
  by (simp add: find_None_iff list_all_iff) blast

lemma validate_ip_public: "validate_ip env host lg = (Inr (), lg') \<Longrightarrow>
    \<exists>answer. lg' = lg\<lparr>fl_lookups := fl_lookups lg @ [(host, answer)]\<rparr> \<and> public_answer env answer"
  by (auto simp: validate_ip_def address_check_def public_answer_def Let_def find_none
      split: dns_answer.splits if_splits option.splits)

lemma validate_ip_grows: "validate_ip env host lg = (r, lg') \<Longrightarrow>
    fl_requests lg' = fl_requests lg \<and> (\<exists>x. fl_lookups lg' = fl_lookups lg @ [x])"
  by (auto simp: validate_ip_def Let_def)

lemma read_body_bound: "length body \<le> n \<Longrightarrow> n \<le> cap \<Longrightarrow> read_body cap cs broken body n = (b, m, clipped) \<Longrightarrow> length b \<le> cap"
proof (induction cs arbitrary: body n)
  case (Cons c cs)
  from Cons.prems Cons.IH [of "body @ c" "n + length c"] show ?case by (auto simp: Let_def split: if_splits)
qed simp

definition good_answer :: "fetch_env \<Rightarrow> string \<Rightarrow> tool_result \<Rightarrow> bool" where
  "good_answer env meth r =
     (if tr_ok r
      then length (tr_data r) \<le> max_response_bytes (fe_policy env) \<and> (meth = ''GET'' \<or> tr_data r = [])
        \<and> (case tr_evidence r of None \<Rightarrow> False
           | Some e \<Rightarrow> te_untrusted e \<and> \<not> te_dns_pinned e \<and> 200 \<le> te_status_code e \<and> te_status_code e < 300
               \<and> te_hops e \<le> int (max_redirects (fe_policy env)))
      else tr_data r = [])"

lemma fetch_result_fields [simp]:
  "tr_ok (fetch_result env ok e) = ok" "tr_data (fetch_result env ok e) = []"
  by (simp_all add: fetch_result_def tool_result_of_def)

lemma failed_answer [simp]: "good_answer env meth (fetch_result env False e)"
  by (simp add: good_answer_def)

lemma fetch_answer_good:
  assumes "meth \<in> {''GET'', ''HEAD''}" "hops \<le> max_redirects (fe_policy env)"
  shows "good_answer env meth (fetch_answer env meth current hops r)"
  using assms read_body_bound [of "[]" 0 "max_response_bytes (fe_policy env)" "fr_chunks r" "fr_broken r"]
  by (auto simp: fetch_answer_def good_answer_def fetch_evidence_def Let_def split: prod.splits)

lemma fetch_redirect_ends: "fetch_redirect env orig current hops r = Ends t \<Longrightarrow> good_answer env meth t"
  by (auto simp: fetch_redirect_def Let_def split: sum.splits option.splits if_splits)

lemma fetch_redirect_follows: "fetch_redirect env orig current hops r = Follows target \<Longrightarrow>
    hops < max_redirects (fe_policy env) \<and> kept_secure env orig target"
  by (auto simp: fetch_redirect_def kept_secure_def Let_def split: sum.splits option.splits if_splits)

text \<open>One step of the loop: it looks up, and then perhaps requests, the current URL.\<close>

lemma fetch_hop_cases:
  assumes "fetch_hop env meth orig current hops lg = (h, lg')" "meth \<in> {''GET'', ''HEAD''}"
    "hops \<le> max_redirects (fe_policy env)"
  shows "(fl_requests lg' = fl_requests lg \<and> (\<exists>xs. length xs \<le> 1 \<and> fl_lookups lg' = fl_lookups lg @ xs)
       \<or> (\<exists>host answer. fl_requests lg' = fl_requests lg @ [(meth, current)] \<and> fl_lookups lg' = fl_lookups lg @ [(host, answer)]
            \<and> public_request env meth ((meth, current), (host, answer))))
    \<and> (case h of Ends t \<Rightarrow> good_answer env meth t | Raises \<Rightarrow> True
       | Follows target \<Rightarrow> hops < max_redirects (fe_policy env) \<and> kept_secure env orig target
           \<and> length (fl_requests lg') = Suc (length (fl_requests lg)))"
proof (cases "fe_parse env current")
  case None
  with assms(1) show ?thesis by (auto simp: fetch_hop_def)
next
  case (Some u)
  let ?host = "case url_hostname u of None \<Rightarrow> [] | Some h \<Rightarrow> h"
  obtain c lg1 where v: "validate_ip env ?host lg = (c, lg1)" by (cases "validate_ip env ?host lg")
  note grows = validate_ip_grows [OF v]
  show ?thesis
  proof (cases c)
    case (Inl e)
    with assms(1) Some v grows show ?thesis
      by (auto simp: fetch_hop_def blocked_hop_def split: fetch_raise.splits)
  next
    case (Inr x)
    from validate_ip_public [of env ?host lg lg1] v Inr obtain answer where
      lg1: "lg1 = lg\<lparr>fl_lookups := fl_lookups lg @ [(?host, answer)]\<rparr>" "public_answer env answer" by auto
    show ?thesis
    proof (cases "validate_url env current")
      case (Inl e)
      with assms(1) Some v Inr grows show ?thesis
        by (auto simp: fetch_hop_def blocked_hop_def split: fetch_raise.splits)
    next
      case url: (Inr sh)
      obtain scheme host where sh: "sh = (scheme, host)" by (cases sh)
      from validate_url_public [OF url [unfolded sh]] have "public_url env current" by simp
      then have req: "public_request env meth ((meth, current), (?host, answer))"
        using lg1(2) Some by (auto simp: public_request_def public_url_def split: option.splits)
      show ?thesis
        using assms(1) Some v Inr url lg1(1) req fetch_answer_good [OF assms(2,3)]
        by (auto simp: fetch_hop_def Let_def split: transport_answer.splits if_splits hop.splits
            dest: fetch_redirect_ends fetch_redirect_follows)
    qed
  qed
qed

text \<open>What the loop keeps: the log of requests, each next to its look-up.\<close>

definition fetched_publicly :: "fetch_env \<Rightarrow> string \<Rightarrow> string \<Rightarrow> fetch_log \<Rightarrow> bool" where
  "fetched_publicly env meth orig lg \<longleftrightarrow>
     list_all (public_request env meth) (zip (fl_requests lg) (tl (fl_lookups lg)))
     \<and> list_all (\<lambda>(m, url). kept_secure env orig url) (fl_requests lg)"

lemma fetch_loop_log:
  assumes "fetch_loop env meth orig current hops lg = (r, lg')" "meth \<in> {''GET'', ''HEAD''}"
    "hops \<le> max_redirects (fe_policy env)" "fetched_publicly env meth orig lg" "kept_secure env orig current"
    "length (fl_requests lg) = hops" "length (fl_lookups lg) = Suc hops"
  shows "fetched_publicly env meth orig lg' \<and> length (fl_requests lg') \<le> Suc (max_redirects (fe_policy env))
    \<and> length (fl_requests lg') < length (fl_lookups lg') \<and> (case r of None \<Rightarrow> True | Some t \<Rightarrow> good_answer env meth t)"
  using assms
proof (induction env meth orig current hops lg rule: fetch_loop.induct)
  case (1 env meth orig current hops lg)
  obtain h lg1 where h: "fetch_hop env meth orig current hops lg = (h, lg1)"
    by (cases "fetch_hop env meth orig current hops lg")
  obtain l ls where ls: "fl_lookups lg = l # ls" "length ls = hops"
    using "1.prems"(7) by (cases "fl_lookups lg") auto
  note step = fetch_hop_cases [OF h "1.prems"(2,3)]
  have logs: "fetched_publicly env meth orig lg1 \<and> length (fl_requests lg1) \<le> Suc hops
      \<and> length (fl_requests lg1) < length (fl_lookups lg1)"
    using step
  proof (elim conjE disjE exE)
    fix xs assume "fl_requests lg1 = fl_requests lg" "length xs \<le> 1" "fl_lookups lg1 = fl_lookups lg @ xs"
    with "1.prems"(4,6) ls show ?thesis by (auto simp: fetched_publicly_def zip_append2)
  next
    fix host answer assume "fl_requests lg1 = fl_requests lg @ [(meth, current)]"
      "fl_lookups lg1 = fl_lookups lg @ [(host, answer)]" "public_request env meth ((meth, current), (host, answer))"
    with "1.prems"(4-6) ls show ?thesis by (auto simp: fetched_publicly_def)
  qed
  show ?case
  proof (cases h)
    case (Ends t)
    with "1.prems"(1,3) h logs step show ?thesis by (auto simp: fetch_loop.simps [of env])
  next
    case Raises
    with "1.prems"(1,3) h logs step show ?thesis by (auto simp: fetch_loop.simps [of env])
  next
    case (Follows target)
    have len: "length (fl_requests lg1) = Suc hops" "length (fl_lookups lg1) = Suc (Suc hops)"
      using step logs Follows "1.prems"(6,7) by auto
    have next_hop: "fetch_loop env meth orig target (hops + 1) lg1 = (r, lg')"
      using "1.prems"(1) h Follows by (simp add: fetch_loop.simps [of env meth orig current])
    show ?thesis
      by (rule "1.IH" [OF h [symmetric] Follows next_hop]) (use step Follows logs len "1.prems"(2) in auto)
  qed
qed

text \<open>C29: a public fetch stays public.  Whatever the resolver and the servers answer, and whatever they
  redirect to: each request is a GET or HEAD for an http(s) URL without credentials on the default
  port, made right after a look-up of its host that gave addresses, none of them private, loopback,
  link-local, multicast, reserved or unspecified; there is at most one request more than the allowed
  redirects; a fetch that began with https never asks for http except on a loopback name; and an ok
  result has a 2xx status, a body within the bound, none for HEAD, and is marked as untrusted.\<close>

theorem fetch_stays_public:
  assumes "web_fetch env url meth = (r, lg)"
  shows "list_all (public_request env meth) (zip (fl_requests lg) (tl (fl_lookups lg)))
    \<and> length (fl_requests lg) \<le> length (tl (fl_lookups lg))
    \<and> length (fl_requests lg) \<le> Suc (max_redirects (fe_policy env))
    \<and> (fl_requests lg = [] \<or> meth \<in> {''GET'', ''HEAD''})
    \<and> (case validate_url env url of
         Inl e \<Rightarrow> fl_requests lg = []
       | Inr (scheme, host) \<Rightarrow> list_all (\<lambda>(m, u). kept_secure env scheme u) (fl_requests lg))
    \<and> (case r of None \<Rightarrow> True | Some t \<Rightarrow> good_answer env meth t)"
proof (cases "meth \<in> {''GET'', ''HEAD''}")
  case False
  with assms have "fl_requests lg = []" "fl_lookups lg = []" "\<exists>e. r = Some (fetch_result env False e)"
    by (auto simp: web_fetch_def Let_def)
  then show ?thesis by (auto split: sum.split prod.split)
next
  case meth: True
  show ?thesis
  proof (cases "validate_url env url")
    case (Inl e)
    with assms meth show ?thesis by (auto simp: web_fetch_def Let_def split: fetch_raise.splits)
  next
    case (Inr sh)
    obtain scheme host where sh: "sh = (scheme, host)" by (cases sh)
    let ?lg = "\<lparr>fl_lookups = [], fl_requests = []\<rparr> :: fetch_log"
    obtain c lg1 where v: "validate_ip env host ?lg = (c, lg1)" by (cases "validate_ip env host ?lg")
    from validate_ip_grows [OF v] have lg1: "fl_requests lg1 = []" "length (fl_lookups lg1) = Suc 0" by auto
    show ?thesis
    proof (cases c)
      case bad: (Inl e)
      with assms meth Inr sh v lg1 show ?thesis
        by (cases e) (auto simp: web_fetch_def Let_def)
    next
      case ok: (Inr x)
      with assms meth Inr sh v have run: "fetch_loop env meth scheme url 0 lg1 = (r, lg)"
        by (auto simp: web_fetch_def Let_def)
      from validate_url_public [OF Inr [unfolded sh]] obtain u where "fe_parse env url = Some u" "scheme = casefold (url_scheme u)"
        by blast
      then have "kept_secure env scheme url" by (simp add: kept_secure_def downgraded_def)
      from fetch_loop_log [OF run meth _ _ this] lg1 have
        "fetched_publicly env meth scheme lg \<and> length (fl_requests lg) \<le> Suc (max_redirects (fe_policy env))
         \<and> length (fl_requests lg) < length (fl_lookups lg) \<and> (case r of None \<Rightarrow> True | Some t \<Rightarrow> good_answer env meth t)"
        by (simp add: fetched_publicly_def)
      with meth show ?thesis by (auto simp: Inr sh fetched_publicly_def)
    qed
  qed
qed

definition sample_fetch_url :: fetch_url where
  "sample_fetch_url = \<lparr>url_scheme = ''https'', url_username = [], url_password = [], url_query = [], url_fragment = [],
     url_hostname = Some ''example.org'', fu_port = No_port\<rparr>"

definition sample_fetch_env :: fetch_env where
  "sample_fetch_env = \<lparr>fe_policy = \<lparr>max_response_bytes = 3, max_redirects = 1, allowed_content_types = []\<rparr>,
     fe_parse = (\<lambda>s. Some sample_fetch_url), fe_join = (\<lambda>b l. None),
     fe_resolve = (\<lambda>n h. Addresses [dotted 93 184 216 34]),
     fe_request = (\<lambda>n m u. if n = 0
       then Responded \<lparr>fr_status = 302, fr_headers = [(''location'', ''//example.org/b'')], fr_chunks = [], fr_broken = False\<rparr>
       else Responded \<lparr>fr_status = 200, fr_headers = [], fr_chunks = [''ab'', ''cd''], fr_broken = False\<rparr>),
     fe_ip6 = (\<lambda>s. None), fe_schemes_text = [], fe_ms = 0\<rparr>"

text \<open>One redirect is followed, and the second answer is cut after its first chunk.\<close>

lemma sample_fetch: "\<exists>t lg. web_fetch sample_fetch_env ''https://example.org/a'' ''GET'' = (Some t, lg)
    \<and> tr_ok t \<and> tr_data t = ''ab'' \<and> truncated t \<and> length (fl_requests lg) = 2"
  by (simp add: web_fetch_def sample_fetch_env_def sample_fetch_url_def validate_url_def validate_ip_def address_check_def
      casefold_def to_lower_def is_upper_def char_in_def port_check_def blocked_octets fetch_loop.simps fetch_hop_def
      redirect_status_def fetch_redirect_def header_def resolve_redirect_def downgraded_def fetch_answer_def
      check_content_type_def fetch_result_def tool_result_of_def Let_def)

theorem fetch_stays_public_witness:
  "\<exists>t lg. web_fetch sample_fetch_env ''https://example.org/a'' ''GET'' = (Some t, lg) \<and> length (fl_requests lg) = 2
     \<and> list_all (public_request sample_fetch_env ''GET'') (zip (fl_requests lg) (tl (fl_lookups lg)))
     \<and> good_answer sample_fetch_env ''GET'' t"
proof -
  obtain t lg where f: "web_fetch sample_fetch_env ''https://example.org/a'' ''GET'' = (Some t, lg)" "length (fl_requests lg) = 2"
    using sample_fetch by auto
  from fetch_stays_public [OF f(1)] f show ?thesis by auto
qed

end
