(* ===== verification/Memory_Store.thy ===== *)
theory Memory_Store
  imports Secrets_Policy Text_Forms Hashing
begin

section \<open>Long-term memory (adapters/sqlite_memory.py)\<close>

text \<open>
  The table of memories and its full-text index as two lists, and the three operations.  SHA-256,
  the match of a query and its BM25 rank are parameters, as is the clock; an operation whose
  transaction fails is rolled back.  Texts are ASCII.
\<close>

definition MAX_MEMORY_BYTES :: nat where
  "MAX_MEMORY_BYTES = 8192"

record memory_row =
  mem_id :: nat
  mem_namespace :: string
  mem_digest :: string
  mem_text :: string
  mem_source :: string
  mem_hits :: nat
  mem_created :: rat
  mem_updated :: rat

text \<open>\<open>ms_next\<close> is the next value of AUTOINCREMENT; \<open>ms_index\<close> holds the row ids and texts of the
  full-text index.\<close>

record memory_store =
  ms_rows :: "memory_row list"
  ms_index :: "(nat \<times> string) list"
  ms_next :: nat

record memory_record =
  mr_text :: string
  mr_source :: string
  mr_hits :: nat
  mr_created_at :: rat

definition empty_memory :: memory_store where
  "empty_memory = \<lparr>ms_rows = [], ms_index = [], ms_next = 1\<rparr>"

definition text_digest :: "(string \<Rightarrow> string) \<Rightarrow> string \<Rightarrow> string" where
  "text_digest sha t = hexdigest sha (strip t)"

text \<open>\<^verbatim>\<open>re.findall(r"\w+", query.lower())\<close>.\<close>

definition token_char :: "char \<Rightarrow> bool" where
  "token_char c \<longleftrightarrow> is_alnum c \<or> c = CHR ''_''"

function word_tokens :: "string \<Rightarrow> string list" where
  "word_tokens [] = []"
| "word_tokens (c # cs) =
     (if token_char c then (c # takeWhile token_char cs) # word_tokens (dropWhile token_char cs)
      else word_tokens cs)"
  by pat_completeness auto

termination by (relation "measure length") (auto simp: le_imp_less_Suc length_dropWhile_le)

definition match_query :: "string \<Rightarrow> string" where
  "match_query query =
     str_join '' OR '' (map (\<lambda>t. [CHR 0x22] @ t @ [CHR 0x22]) (word_tokens (casefold query)))"

text \<open>The row of a namespace and a digest, and the upsert.\<close>

definition same_memory :: "string \<Rightarrow> string \<Rightarrow> memory_row \<Rightarrow> bool" where
  "same_memory namespace dig r \<longleftrightarrow> mem_namespace r = namespace \<and> mem_digest r = dig"

definition upsert ::
  "string \<Rightarrow> string \<Rightarrow> string \<Rightarrow> string \<Rightarrow> rat \<Rightarrow> memory_store \<Rightarrow> (nat \<times> nat \<times> rat) \<times> memory_store" where
  "upsert namespace dig t source now st =
     (case find (same_memory namespace dig) (ms_rows st) of
        Some r \<Rightarrow> ((mem_id r, mem_hits r + 1, mem_created r),
          st\<lparr>ms_rows := map (\<lambda>q. if same_memory namespace dig q
             then q\<lparr>mem_hits := mem_hits q + 1, mem_updated := now\<rparr> else q) (ms_rows st)\<rparr>)
      | None \<Rightarrow> ((ms_next st, 1, now),
          st\<lparr>ms_rows := ms_rows st @ [\<lparr>mem_id = ms_next st, mem_namespace = namespace, mem_digest = dig, mem_text = t,
                mem_source = source, mem_hits = 1, mem_created = now, mem_updated = now\<rparr>],
             ms_next := ms_next st + 1\<rparr>))"

text \<open>\<^verbatim>\<open>remember\<close>; the flag says whether the transaction commits.  The outer result is the exception, the
  inner one \<^verbatim>\<open>None\<close> for a text not worth keeping.\<close>

definition remember ::
  "(string \<Rightarrow> string) \<Rightarrow> string \<Rightarrow> string \<Rightarrow> string \<Rightarrow> rat \<Rightarrow> bool \<Rightarrow> memory_store
     \<Rightarrow> (unit + memory_record option) \<times> memory_store" where
  "remember sha namespace raw source now commits st =
     (let t = take MAX_MEMORY_BYTES (strip raw)
      in if t = [] \<or> looks_like_secret_value t then (Inr None, st)
         else if \<not> commits then (Inl (), st)
         else (case upsert namespace (text_digest sha t) t source now st of
            ((i, n, created), st') \<Rightarrow>
              (Inr (Some \<lparr>mr_text = t, mr_source = source, mr_hits = n, mr_created_at = created\<rparr>),
               if n = 1 then st'\<lparr>ms_index := ms_index st' @ [(i, t)]\<rparr> else st')))"

text \<open>\<^verbatim>\<open>recall\<close>: the join of index and table, by rank and then by falling hits; the order of rows
  that tie on both is left open by SQL and is the order of the index here.\<close>

definition recall ::
  "(string \<Rightarrow> string \<Rightarrow> bool) \<Rightarrow> ((nat \<times> string) list \<Rightarrow> string \<Rightarrow> nat \<Rightarrow> rat) \<Rightarrow> string \<Rightarrow> string \<Rightarrow> nat
     \<Rightarrow> memory_store \<Rightarrow> memory_record list" where
  "recall matches bm25 namespace query cap st =
     (let match = match_query query
      in if match = [] then []
         else (let found = filter (\<lambda>(i, r). mem_namespace r = namespace)
                 (List.map_filter (\<lambda>(i, t). map_option (\<lambda>r. (i, r)) (find (\<lambda>r. mem_id r = i) (ms_rows st)))
                   (filter (\<lambda>(i, t). matches match t) (ms_index st)));
                   ranked = sort_key (\<lambda>(i, r). bm25 (ms_index st) match i) (sort_key (\<lambda>(i, r). - int (mem_hits r)) found)
               in map (\<lambda>(i, r). \<lparr>mr_text = mem_text r, mr_source = mem_source r, mr_hits = mem_hits r,
                    mr_created_at = mem_created r\<rparr>) (take cap ranked)))"

definition forget :: "string \<Rightarrow> bool \<Rightarrow> memory_store \<Rightarrow> (unit + nat) \<times> memory_store" where
  "forget namespace commits st =
     (let ids = map mem_id (filter (\<lambda>r. mem_namespace r = namespace) (ms_rows st))
      in if \<not> commits then (Inl (), st)
         else (Inr (length ids), st\<lparr>ms_rows := filter (\<lambda>r. mem_namespace r \<noteq> namespace) (ms_rows st),
                ms_index := filter (\<lambda>(i, t). i \<notin> set ids) (ms_index st)\<rparr>))"

subsection \<open>Histories\<close>

datatype memory_op = Remember string string string rat bool | Forget string bool

fun memory_step :: "(string \<Rightarrow> string) \<Rightarrow> memory_op \<Rightarrow> memory_store \<Rightarrow> memory_store" where
  "memory_step sha (Remember namespace raw source now commits) st = snd (remember sha namespace raw source now commits st)"
| "memory_step sha (Forget namespace commits) st = snd (forget namespace commits st)"

definition memory_after :: "(string \<Rightarrow> string) \<Rightarrow> memory_op list \<Rightarrow> memory_store" where
  "memory_after sha ops = fold (memory_step sha) ops empty_memory"

text \<open>The specification: how often a text was learned in a namespace since it was last forgotten.\<close>

definition worth_keeping :: "string \<Rightarrow> bool" where
  "worth_keeping raw \<longleftrightarrow>
     take MAX_MEMORY_BYTES (strip raw) \<noteq> [] \<and> \<not> looks_like_secret_value (take MAX_MEMORY_BYTES (strip raw))"

fun learn :: "(string \<Rightarrow> string) \<Rightarrow> memory_op \<Rightarrow> (string \<Rightarrow> string \<Rightarrow> nat) \<Rightarrow> string \<Rightarrow> string \<Rightarrow> nat" where
  "learn sha (Remember namespace raw source now commits) m =
     (if commits \<and> worth_keeping raw
      then m(namespace := (m namespace)(text_digest sha (take MAX_MEMORY_BYTES (strip raw)) :=
             m namespace (text_digest sha (take MAX_MEMORY_BYTES (strip raw))) + 1))
      else m)"
| "learn sha (Forget namespace commits) m = (if commits then m(namespace := (\<lambda>d. 0)) else m)"

definition hits_of :: "memory_store \<Rightarrow> string \<Rightarrow> string \<Rightarrow> nat" where
  "hits_of st namespace dig =
     (case find (same_memory namespace dig) (ms_rows st) of None \<Rightarrow> 0 | Some r \<Rightarrow> mem_hits r)"

subsection \<open>The invariant\<close>

definition memory_ok :: "(string \<Rightarrow> string) \<Rightarrow> memory_store \<Rightarrow> bool" where
  "memory_ok sha st \<longleftrightarrow>
     distinct (map mem_id (ms_rows st)) \<and> distinct (map (\<lambda>r. (mem_namespace r, mem_digest r)) (ms_rows st))
     \<and> ms_index st = map (\<lambda>r. (mem_id r, mem_text r)) (ms_rows st)
     \<and> list_all (\<lambda>r. mem_id r < ms_next st \<and> 1 \<le> mem_hits r \<and> mem_digest r = text_digest sha (mem_text r)
         \<and> mem_text r \<noteq> [] \<and> length (mem_text r) \<le> MAX_MEMORY_BYTES \<and> \<not> looks_like_secret_value (mem_text r)) (ms_rows st)"

lemma find_same: "find (same_memory n d) rs = None \<longleftrightarrow> (n, d) \<notin> set (map (\<lambda>r. (mem_namespace r, mem_digest r)) rs)"
  by (induction rs) (auto simp: same_memory_def)

lemma find_same_Some: "find (same_memory n d) rs = Some r \<Longrightarrow> r \<in> set rs \<and> mem_namespace r = n \<and> mem_digest r = d"
  by (auto simp: find_Some_iff same_memory_def)

text \<open>The two branches of \<open>remember\<close>, on the table and the index.\<close>

lemma remember_cases:
  fixes namespace source :: string and now :: rat
  assumes "memory_ok sha st" "commits" "worth_keeping raw"
  defines "t \<equiv> take MAX_MEMORY_BYTES (strip raw)"
  defines "dig \<equiv> text_digest sha t"
  defines "st' \<equiv> snd (remember sha namespace raw source now commits st)"
  obtains (known) r where "find (same_memory namespace dig) (ms_rows st) = Some r"
      "st' = st\<lparr>ms_rows := map (\<lambda>q. if same_memory namespace dig q
         then q\<lparr>mem_hits := mem_hits q + 1, mem_updated := now\<rparr> else q) (ms_rows st)\<rparr>"
  | (new) "find (same_memory namespace dig) (ms_rows st) = None"
      "st' = st\<lparr>ms_rows := ms_rows st @ [\<lparr>mem_id = ms_next st, mem_namespace = namespace, mem_digest = dig, mem_text = t,
           mem_source = source, mem_hits = 1, mem_created = now, mem_updated = now\<rparr>],
         ms_index := ms_index st @ [(ms_next st, t)], ms_next := ms_next st + 1\<rparr>"
proof (cases "find (same_memory namespace dig) (ms_rows st)")
  case (Some r)
  then have "1 \<le> mem_hits r" using assms(1) find_same_Some by (fastforce simp: memory_ok_def list_all_iff)
  with Some assms(2,3) have "st' = st\<lparr>ms_rows := map (\<lambda>q. if same_memory namespace dig q
      then q\<lparr>mem_hits := mem_hits q + 1, mem_updated := now\<rparr> else q) (ms_rows st)\<rparr>"
    by (simp add: st'_def remember_def upsert_def worth_keeping_def Let_def dig_def t_def)
  with Some show ?thesis by (rule known)
next
  case None
  with assms(2,3) have "st' = st\<lparr>ms_rows := ms_rows st @ [\<lparr>mem_id = ms_next st, mem_namespace = namespace, mem_digest = dig,
         mem_text = t, mem_source = source, mem_hits = 1, mem_created = now, mem_updated = now\<rparr>],
       ms_index := ms_index st @ [(ms_next st, t)], ms_next := ms_next st + 1\<rparr>"
    by (simp add: st'_def remember_def upsert_def worth_keeping_def Let_def dig_def t_def)
  with None show ?thesis by (rule new)
qed

lemma remember_nothing: "\<not> (commits \<and> worth_keeping raw) \<Longrightarrow> snd (remember sha namespace raw source now commits st) = st"
  by (auto simp: remember_def worth_keeping_def Let_def)

lemma remember_ok:
  assumes "memory_ok sha st"
  shows "memory_ok sha (snd (remember sha namespace raw source now commits st))"
proof (cases "commits \<and> worth_keeping raw")
  case False
  from remember_nothing [OF this] assms show ?thesis by simp
next
  case True
  then have keep: "commits" "worth_keeping raw" by simp_all
  show ?thesis
  proof (cases rule: remember_cases [OF assms keep, where namespace = namespace and source = source and now = now])
    case (1 r)
    with assms show ?thesis by (auto simp: memory_ok_def list_all_iff o_def if_distrib cong: if_cong)
  next
    case 2
    with assms \<open>worth_keeping raw\<close> show ?thesis
      by (auto simp: memory_ok_def list_all_iff find_same worth_keeping_def)
  qed
qed

lemma forget_ok:
  assumes "memory_ok sha st"
  shows "memory_ok sha (snd (forget namespace commits st))"
proof -
  let ?gone = "mem_id ` {r \<in> set (ms_rows st). mem_namespace r = namespace}"
  have "mem_id r \<in> ?gone \<longleftrightarrow> mem_namespace r = namespace" if "r \<in> set (ms_rows st)" for r
    using assms that by (auto simp: memory_ok_def distinct_map dest: inj_onD)
  then have "filter (\<lambda>(i, t). i \<notin> ?gone) (map (\<lambda>r. (mem_id r, mem_text r)) (ms_rows st))
      = map (\<lambda>r. (mem_id r, mem_text r)) (filter (\<lambda>r. mem_namespace r \<noteq> namespace) (ms_rows st))"
    by (simp add: filter_map o_def cong: filter_cong)
  with assms show ?thesis
    by (auto simp: forget_def memory_ok_def list_all_iff Let_def distinct_map_filter)
qed

lemma find_append: "find P (xs @ ys) = (case find P xs of None \<Rightarrow> find P ys | Some x \<Rightarrow> Some x)"
  by (induction xs) auto

lemma find_map_same:
  assumes "\<And>q. mem_namespace (f q) = mem_namespace q \<and> mem_digest (f q) = mem_digest q"
  shows "find (same_memory n d) (map f rs) = map_option f (find (same_memory n d) rs)"
  using assms by (induction rs) (simp_all add: same_memory_def)

lemma remember_hits:
  assumes "memory_ok sha st"
  shows "hits_of (memory_step sha (Remember namespace raw source now commits) st)
    = learn sha (Remember namespace raw source now commits) (hits_of st)"
proof (cases "commits \<and> worth_keeping raw")
  case False
  from remember_nothing [OF this] False show ?thesis by (cases commits) simp_all
next
  case True
  then have keep: "commits" "worth_keeping raw" by simp_all
  show ?thesis
  proof (cases rule: remember_cases [OF assms keep, where namespace = namespace and source = source and now = now])
    case (1 r)
    let ?d = "text_digest sha (take MAX_MEMORY_BYTES (strip raw))"
    show ?thesis
    proof (intro ext)
      fix n d
      show "hits_of (memory_step sha (Remember namespace raw source now commits) st) n d
          = learn sha (Remember namespace raw source now commits) (hits_of st) n d"
        using True 1 find_same_Some [of n d "ms_rows st"] find_same_Some [OF 1(1)]
        by (auto simp: hits_of_def find_map_same same_memory_def split: option.split)
    qed
  next
    case 2
    show ?thesis
    proof (intro ext)
      fix n d
      show "hits_of (memory_step sha (Remember namespace raw source now commits) st) n d
          = learn sha (Remember namespace raw source now commits) (hits_of st) n d"
        using True 2 by (auto simp: hits_of_def find_append same_memory_def split: option.split)
    qed
  qed
qed

lemma forget_hits:
  "hits_of (memory_step sha (Forget namespace commits) st) = learn sha (Forget namespace commits) (hits_of st)"
proof (intro ext)
  fix n d
  have "find (same_memory n d) (filter (\<lambda>r. mem_namespace r \<noteq> namespace) rs)
      = (if n = namespace then None else find (same_memory n d) rs)" for rs
    by (induction rs) (auto simp: same_memory_def [abs_def])
  then show "hits_of (memory_step sha (Forget namespace commits) st) n d
      = learn sha (Forget namespace commits) (hits_of st) n d"
    by (auto simp: hits_of_def forget_def Let_def)
qed

lemma memory_history:
  "memory_ok sha st \<Longrightarrow> memory_ok sha (fold (memory_step sha) ops st)
     \<and> hits_of (fold (memory_step sha) ops st) = fold (learn sha) ops (hits_of st)"
proof (induction ops arbitrary: st)
  case (Cons op ops)
  have "memory_ok sha (memory_step sha op st) \<and> hits_of (memory_step sha op st) = learn sha op (hits_of st)"
    using Cons.prems remember_ok forget_ok remember_hits forget_hits by (cases op) auto
  with Cons.IH [of "memory_step sha op st"] show ?case by simp
qed simp

lemma recall_bound: "length (recall matches bm25 namespace query cap st) \<le> cap"
  by (simp add: recall_def Let_def)

lemma recall_without_words: "word_tokens (casefold query) = [] \<Longrightarrow> recall matches bm25 namespace query cap st = []"
  by (simp add: recall_def match_query_def)

lemma recalled_row:
  assumes "memory_ok sha st" "m \<in> set (recall matches bm25 namespace query cap st)"
  shows "\<exists>r \<in> set (ms_rows st). mem_namespace r = namespace \<and> mr_text m = mem_text r \<and> mr_hits m = mem_hits r
    \<and> matches (match_query query) (mem_text r)"
proof -
  from assms(2) obtain i r t where r: "find (\<lambda>r. mem_id r = i) (ms_rows st) = Some r" "mem_namespace r = namespace"
    "(i, t) \<in> set (ms_index st)" "matches (match_query query) t" "mr_text m = mem_text r" "mr_hits m = mem_hits r"
    by (auto simp: recall_def Let_def map_filter_def split: if_splits option.splits dest!: in_set_takeD)
  from r(1) have in_rows: "r \<in> set (ms_rows st)" "mem_id r = i" by (auto simp: find_Some_iff)
  from r(3) assms(1) obtain q where q: "q \<in> set (ms_rows st)" "i = mem_id q" "t = mem_text q" by (auto simp: memory_ok_def)
  have "q = r" using assms(1) in_rows q(1,2) by (auto simp: memory_ok_def distinct_map dest: inj_onD)
  with r in_rows q show ?thesis by blast
qed

text \<open>C30: the memory counts what was learned.  After any history of remembering and forgetting, with any
  of the transactions failing, the hits stored for a text in a namespace are the number of times it
  was committed there since the namespace was last forgotten; and whatever is recalled is a text of
  that very namespace that matches the query, with its count, at most as many as asked for, none
  for a query without words, and never one that looks like a credential or is longer than the
  bound.\<close>

theorem memory_counts_lessons:
  "hits_of (memory_after sha ops) = fold (learn sha) ops (\<lambda>n d. 0)
   \<and> length (recall matches bm25 namespace query cap (memory_after sha ops)) \<le> cap
   \<and> (if word_tokens (casefold query) = [] then recall matches bm25 namespace query cap (memory_after sha ops) = [] else True)
   \<and> list_all (\<lambda>m. mr_hits m = fold (learn sha) ops (\<lambda>n d. 0) namespace (text_digest sha (mr_text m))
        \<and> 1 \<le> mr_hits m \<and> matches (match_query query) (mr_text m) \<and> mr_text m \<noteq> []
        \<and> length (mr_text m) \<le> MAX_MEMORY_BYTES \<and> \<not> looks_like_secret_value (mr_text m))
      (recall matches bm25 namespace query cap (memory_after sha ops))"
proof -
  have "memory_ok sha empty_memory" by (simp add: memory_ok_def empty_memory_def)
  from memory_history [OF this, of ops] have ok: "memory_ok sha (memory_after sha ops)"
    and hits: "hits_of (memory_after sha ops) = fold (learn sha) ops (\<lambda>n d. 0)"
    by (simp_all add: memory_after_def empty_memory_def hits_of_def [abs_def])
  have lesson: "mr_hits m = fold (learn sha) ops (\<lambda>n d. 0) namespace (text_digest sha (mr_text m))
      \<and> 1 \<le> mr_hits m \<and> matches (match_query query) (mr_text m) \<and> mr_text m \<noteq> []
        \<and> length (mr_text m) \<le> MAX_MEMORY_BYTES \<and> \<not> looks_like_secret_value (mr_text m)"
    if m: "m \<in> set (recall matches bm25 namespace query cap (memory_after sha ops))" for m
  proof -
    from recalled_row [OF ok m] obtain r where r: "r \<in> set (ms_rows (memory_after sha ops))" "mem_namespace r = namespace"
      "mr_text m = mem_text r" "mr_hits m = mem_hits r" "matches (match_query query) (mem_text r)" by blast
    with ok have row: "mem_digest r = text_digest sha (mem_text r)" "1 \<le> mem_hits r" "mem_text r \<noteq> []"
      "length (mem_text r) \<le> MAX_MEMORY_BYTES" "\<not> looks_like_secret_value (mem_text r)"
      by (auto simp: memory_ok_def list_all_iff)
    have "find (same_memory namespace (mem_digest r)) (ms_rows (memory_after sha ops)) = Some r"
    proof (cases "find (same_memory namespace (mem_digest r)) (ms_rows (memory_after sha ops))")
      case None
      with r(1,2) show ?thesis by (auto simp: find_same)
    next
      case (Some q)
      from find_same_Some [OF this] r(1,2) ok have "q = r"
        by (auto simp: memory_ok_def distinct_map dest: inj_onD)
      with Some show ?thesis by simp
    qed
    with r row show ?thesis by (simp add: hits_of_def flip: hits)
  qed
  show ?thesis
  proof (intro conjI hits recall_bound)
    show "if word_tokens (casefold query) = [] then recall matches bm25 namespace query cap (memory_after sha ops) = [] else True"
      by (simp add: recall_without_words)
    show "list_all (\<lambda>m. mr_hits m = fold (learn sha) ops (\<lambda>n d. 0) namespace (text_digest sha (mr_text m))
        \<and> 1 \<le> mr_hits m \<and> matches (match_query query) (mr_text m) \<and> mr_text m \<noteq> []
        \<and> length (mr_text m) \<le> MAX_MEMORY_BYTES \<and> \<not> looks_like_secret_value (mr_text m))
      (recall matches bm25 namespace query cap (memory_after sha ops))"
      unfolding list_all_iff by (rule ballI) (rule lesson)
  qed
qed

end
