(* ===== verification/Run_Supervisor.thy ===== *)
theory Run_Supervisor
  imports Prelude
begin

section \<open>The owner of a run's handles (application/run_supervisor.py)\<close>

text \<open>
  \<^verbatim>\<open>RunSupervisor\<close>: task, ledger and workspace of one run.  A task is a name; whether it is done is
  what the event loop says, a parameter.  The effects on the outside (closing the ledger, cancelling
  a task, a heartbeat) are logged in order; an exception of \<^verbatim>\<open>close\<close> is swallowed by the code, so a
  close that fails is logged like one that works.
\<close>

type_synonym task_name = nat
type_synonym ledger_name = nat

datatype supervisor_effect = Closed ledger_name | Cancelled_task task_name | Beat

record supervisor =
  sv_run_id :: run_id
  sv_ledger :: "ledger_name option"
  sv_workspace :: "string option"
  sv_task :: "task_name option"
  sv_has_heartbeat :: bool
  sv_released :: bool
  sv_effects :: "supervisor_effect list"

definition new_supervisor ::
  "run_id \<Rightarrow> ledger_name option \<Rightarrow> string option \<Rightarrow> task_name option \<Rightarrow> bool \<Rightarrow> supervisor" where
  "new_supervisor run lg ws tk beat = \<lparr>sv_run_id = run, sv_ledger = lg, sv_workspace = ws, sv_task = tk,
     sv_has_heartbeat = beat, sv_released = False, sv_effects = []\<rparr>"

definition live_ledger :: "supervisor \<Rightarrow> ledger_name option" where
  "live_ledger s = (if sv_released s then None else sv_ledger s)"

definition live_task :: "supervisor \<Rightarrow> task_name option" where
  "live_task s = (if sv_released s then None else sv_task s)"

definition is_active :: "(task_name \<Rightarrow> bool) \<Rightarrow> supervisor \<Rightarrow> bool" where
  "is_active done_task s =
     (if sv_released s then False else case sv_task s of None \<Rightarrow> False | Some t \<Rightarrow> \<not> done_task t)"

definition bind_task :: "task_name \<Rightarrow> supervisor \<Rightarrow> supervisor" where
  "bind_task t s =
     (if sv_released s then s\<lparr>sv_effects := sv_effects s @ [Cancelled_task t]\<rparr> else s\<lparr>sv_task := Some t\<rparr>)"

definition supervisor_heartbeat :: "supervisor \<Rightarrow> supervisor" where
  "supervisor_heartbeat s = (if sv_has_heartbeat s then s\<lparr>sv_effects := sv_effects s @ [Beat]\<rparr> else s)"

definition release_handles :: "supervisor \<Rightarrow> supervisor" where
  "release_handles s =
     (if sv_released s then s
      else s\<lparr>sv_released := True, sv_task := None, sv_ledger := None,
        sv_effects := sv_effects s @ (case sv_ledger s of None \<Rightarrow> [] | Some l \<Rightarrow> [Closed l])\<rparr>)"

text \<open>Any interleaving of the callers is a sequence of calls.\<close>

inductive supervised :: "supervisor \<Rightarrow> supervisor \<Rightarrow> bool" where
  start: "supervised s s"
| bind: "supervised s t \<Longrightarrow> supervised s (bind_task k t)"
| beat: "supervised s t \<Longrightarrow> supervised s (supervisor_heartbeat t)"
| release: "supervised s t \<Longrightarrow> supervised s (release_handles t)"

definition closes :: "supervisor \<Rightarrow> ledger_name list" where
  "closes s = List.map_filter (\<lambda>e. case e of Closed l \<Rightarrow> Some l | _ \<Rightarrow> None) (sv_effects s)"

lemma closes_step [simp]:
  "closes (bind_task k s) = closes s" "closes (supervisor_heartbeat s) = closes s"
  "closes (release_handles s) = closes s @ (if sv_released s then [] else case sv_ledger s of None \<Rightarrow> [] | Some l \<Rightarrow> [l])"
  by (auto simp: closes_def bind_task_def supervisor_heartbeat_def release_handles_def map_filter_def split: option.splits)

text \<open>What every history keeps: the ledger is open until the release, and closed by it.\<close>

lemma supervised_keeps:
  assumes "supervised (new_supervisor run lg ws tk beat) s"
  shows "sv_workspace s = ws \<and> sv_run_id s = run
    \<and> (if sv_released s then closes s = (case lg of None \<Rightarrow> [] | Some l \<Rightarrow> [l]) \<and> sv_ledger s = None \<and> sv_task s = None
       else closes s = [] \<and> sv_ledger s = lg)"
  using assms
proof (induction "new_supervisor run lg ws tk beat" s rule: supervised.induct)
  case start
  then show ?case by (simp add: new_supervisor_def closes_def)
next
  case (bind t k)
  then show ?case by (simp only: closes_step) (simp add: bind_task_def)
next
  case (beat t)
  then show ?case by (simp only: closes_step) (simp add: supervisor_heartbeat_def)
next
  case (release t)
  then show ?case by (simp only: closes_step) (auto simp: release_handles_def)
qed

lemma released_stays: "supervised s t \<Longrightarrow> sv_released s \<Longrightarrow> sv_released t"
  by (induction rule: supervised.induct) (simp_all add: bind_task_def supervisor_heartbeat_def release_handles_def)

text \<open>The handles of a run are released exactly once.  In whatever order the task body, the
  cancellation and the shutdown call the supervisor, the ledger is open and readable until the
  first release and closed by it and never again, releasing twice is releasing once, after it no
  task and no ledger is given out and the run is not active, a task bound too late is cancelled,
  and the workspace path is kept.\<close>

theorem handles_released_once:
  assumes "supervised (new_supervisor run lg ws tk beat) s"
  shows "closes s = (if sv_released s then (case lg of None \<Rightarrow> [] | Some l \<Rightarrow> [l]) else [])
    \<and> live_ledger s = (if sv_released s then None else lg)
    \<and> sv_workspace s = ws
    \<and> release_handles (release_handles s) = release_handles s
    \<and> sv_released (release_handles s)
    \<and> (if sv_released s
       then live_task s = None \<and> \<not> is_active finished s
         \<and> bind_task k s = s\<lparr>sv_effects := sv_effects s @ [Cancelled_task k]\<rparr>
       else is_active finished (bind_task k s) = (\<not> finished k))"
  using supervised_keeps [OF assms]
  by (auto simp: live_ledger_def live_task_def is_active_def release_handles_def bind_task_def)

theorem handles_released_once_witness:
  "closes (bind_task 2 (release_handles (release_handles (new_supervisor ''r'' (Some 1) None (Some 1) True)))) = [1]"
proof -
  have "supervised (new_supervisor ''r'' (Some 1) None (Some 1) True)
      (bind_task 2 (release_handles (release_handles (new_supervisor ''r'' (Some 1) None (Some 1) True))))"
    by (intro supervised.intros)
  from handles_released_once [OF this] show ?thesis
    by (simp add: bind_task_def release_handles_def new_supervisor_def)
qed

end
