(* ===== verification/Run_Index.thy ===== *)
theory Run_Index
  imports File_Tree Text_Forms
begin

section \<open>Which workspace holds a run (application/run_index.py)\<close>

text \<open>
  The map from run ids to workspaces, the load of the ledgers found on disk, and the walk that
  finds them.  Parameters: \<^verbatim>\<open>Path.resolve\<close>, and what a ledger file lists, as the run ids of its pages
  in order and whether the listing ends in one of the exceptions that are caught.
\<close>

record run_index =
  ri_runs :: "string \<rightharpoonup> string"
  ri_workspaces :: "string set"
  ri_ambiguous :: "string set"

definition empty_index :: run_index where
  "empty_index = \<lparr>ri_runs = Map.empty, ri_workspaces = {}, ri_ambiguous = {}\<rparr>"

text \<open>\<open>None\<close> is \<^verbatim>\<open>DuplicateRunIdError\<close>.\<close>

definition register_run :: "(string \<Rightarrow> string) \<Rightarrow> string \<Rightarrow> string \<Rightarrow> run_index \<Rightarrow> run_index option" where
  "register_run resolve run ws ix =
     (let ws_root = resolve ws
      in if run \<in> ri_ambiguous ix \<or> (case ri_runs ix run of None \<Rightarrow> False | Some r \<Rightarrow> r \<noteq> ws_root) then None
         else Some (ix\<lparr>ri_runs := (ri_runs ix)(run \<mapsto> ws_root), ri_workspaces := insert ws_root (ri_workspaces ix)\<rparr>))"

definition forget_run :: "string \<Rightarrow> run_index \<Rightarrow> run_index" where
  "forget_run run ix = ix\<lparr>ri_runs := (ri_runs ix)(run := None)\<rparr>"

definition workspace_of :: "run_index \<Rightarrow> string \<Rightarrow> string option" where
  "workspace_of ix run = ri_runs ix run"

definition db_file :: "string \<Rightarrow> string" where
  "db_file ws_root = ws_root @ ''/.northstack/ledger.db''"

definition db_path :: "run_index \<Rightarrow> string \<Rightarrow> string option" where
  "db_path ix run = map_option db_file (ri_runs ix run)"

definition is_ambiguous :: "run_index \<Rightarrow> string \<Rightarrow> bool" where
  "is_ambiguous ix run \<longleftrightarrow> run \<in> ri_ambiguous ix"

subsection \<open>Loading what is on disk\<close>

datatype ledger_file = Missing | Unreadable_ledger | Lists "string list"

text \<open>One summary of a page.\<close>

definition index_summary :: "string \<Rightarrow> string \<Rightarrow> run_index \<Rightarrow> run_index" where
  "index_summary resolved run ix =
     (if run \<in> ri_ambiguous ix then ix
      else case ri_runs ix run of
        Some r \<Rightarrow> if r \<noteq> resolved
          then ix\<lparr>ri_runs := (ri_runs ix)(run := None), ri_ambiguous := insert run (ri_ambiguous ix)\<rparr>
          else ix\<lparr>ri_runs := (ri_runs ix)(run \<mapsto> resolved)\<rparr>
      | None \<Rightarrow> ix\<lparr>ri_runs := (ri_runs ix)(run \<mapsto> resolved)\<rparr>)"

text \<open>\<^verbatim>\<open>while page := list_runs(limit, offset)\<close>: the pages of the listing; a page size of 0 gives an
  empty first page.\<close>

function index_pages :: "nat \<Rightarrow> string \<Rightarrow> string list \<Rightarrow> run_index \<Rightarrow> run_index" where
  "index_pages page_size resolved ids ix =
     (let page = take page_size ids
      in if page = [] then ix
         else index_pages page_size resolved (drop page_size ids) (fold (index_summary resolved) page ix))"
  by pat_completeness auto

termination by (relation "measure (\<lambda>(n, r, ids, ix). length ids)") auto

declare index_pages.simps [simp del]

text \<open>An unreadable ledger fails when it is opened; one that fails later has added its root and the
  pages before the failure, as a shorter list.\<close>

fun load_historical ::
  "(string \<Rightarrow> string) \<Rightarrow> (string \<Rightarrow> ledger_file) \<Rightarrow> nat \<Rightarrow> string list \<Rightarrow> run_index \<Rightarrow> run_index" where
  "load_historical resolve disk page_size [] ix = ix"
| "load_historical resolve disk page_size (ws_root # rest) ix =
     (let resolved = resolve ws_root
      in load_historical resolve disk page_size rest
           (case disk (db_file resolved) of
              Missing \<Rightarrow> ix
            | Unreadable_ledger \<Rightarrow> ix
            | Lists ids \<Rightarrow>
                index_pages page_size resolved ids (ix\<lparr>ri_workspaces := insert resolved (ri_workspaces ix)\<rparr>)))"

subsection \<open>Finding the workspaces\<close>

definition pruned_dirs :: "string set" where
  "pruned_dirs = {''.git'', ''.venv'', ''node_modules'', ''__pycache__''}"

definition holds_ledger :: "(string \<times> node) list \<Rightarrow> bool" where
  "holds_ledger kids =
     (case map_of kids ''.northstack'' of
        Some nd \<Rightarrow> (case child nd ''ledger.db'' of Some (File b) \<Rightarrow> True | _ \<Rightarrow> False)
      | None \<Rightarrow> False)"

text \<open>\<^verbatim>\<open>os.walk\<close> from the base, top down, without following links; the walk goes into a state
  directory only when it holds no ledger file.\<close>

fun discover :: "nat \<Rightarrow> string list \<Rightarrow> node \<Rightarrow> string list list" where
  "discover levels here (Directory kids) =
     (if levels = 0 then []
      else (if holds_ledger kids then [here] else [])
        @ concat (map (\<lambda>(n, k). if n \<in> pruned_dirs \<or> (n = ''.northstack'' \<and> holds_ledger kids) then []
            else discover (levels - 1) (here @ [n]) k) kids))"
| "discover levels here nd = []"

definition discover_workspaces :: "nat \<Rightarrow> node \<Rightarrow> string list list" where
  "discover_workspaces max_depth base = discover max_depth [] base"

subsection \<open>What the index knows\<close>

definition index_ok :: "run_index \<Rightarrow> bool" where
  "index_ok ix \<longleftrightarrow> (\<forall>q r. ri_runs ix q = Some r \<longrightarrow> q \<notin> ri_ambiguous ix \<and> r \<in> ri_workspaces ix)"

text \<open>The specification of a load: the roots whose ledgers list a run.\<close>

definition claims :: "string list \<Rightarrow> (string \<Rightarrow> ledger_file) \<Rightarrow> string \<Rightarrow> string set" where
  "claims resolved_roots disk run =
     {r \<in> set resolved_roots. case disk (db_file r) of Lists ids \<Rightarrow> run \<in> set ids | _ \<Rightarrow> False}"

definition knows :: "run_index \<Rightarrow> (string \<Rightarrow> string set) \<Rightarrow> bool" where
  "knows ix cl \<longleftrightarrow>
     (\<forall>run. (if run \<in> ri_ambiguous ix then ri_runs ix run = None \<and> (\<exists>r r'. r \<in> cl run \<and> r' \<in> cl run \<and> r \<noteq> r')
             else cl run = set_option (ri_runs ix run)))"

lemma index_pages_fold: "0 < page_size \<Longrightarrow> index_pages page_size resolved ids ix = fold (index_summary resolved) ids ix"
proof (induction page_size resolved ids ix rule: index_pages.induct)
  case (1 page_size resolved ids ix)
  show ?case
  proof (cases "take page_size ids = []")
    case True
    with "1.prems" show ?thesis by (simp add: index_pages.simps)
  next
    case False
    with 1 have "index_pages page_size resolved ids ix
        = fold (index_summary resolved) (drop page_size ids) (fold (index_summary resolved) (take page_size ids) ix)"
      by (simp add: index_pages.simps [of page_size resolved ids])
    then show ?thesis
      using fold_append [of "index_summary resolved" "take page_size ids" "drop page_size ids"] by simp
  qed
qed

lemma summary_knows:
  "knows ix cl \<Longrightarrow> knows (index_summary ws_root run ix) (cl(run := insert ws_root (cl run)))"
  unfolding knows_def
proof (intro allI)
  fix q
  assume k: "\<forall>run. (if run \<in> ri_ambiguous ix then ri_runs ix run = None \<and> (\<exists>r r'. r \<in> cl run \<and> r' \<in> cl run \<and> r \<noteq> r')
             else cl run = set_option (ri_runs ix run))"
  show "if q \<in> ri_ambiguous (index_summary ws_root run ix)
     then ri_runs (index_summary ws_root run ix) q = None
       \<and> (\<exists>r r'. r \<in> (cl(run := insert ws_root (cl run))) q \<and> r' \<in> (cl(run := insert ws_root (cl run))) q \<and> r \<noteq> r')
     else (cl(run := insert ws_root (cl run))) q = set_option (ri_runs (index_summary ws_root run ix) q)"
  proof (cases "q = run")
    case False
    with k [rule_format, of q] show ?thesis by (auto simp: index_summary_def split: option.splits)
  next
    case True
    show ?thesis
    proof (cases "run \<in> ri_ambiguous ix")
      case amb: True
      with k [rule_format, of run] True show ?thesis by (auto simp: index_summary_def)
    next
      case False
      with k [rule_format, of run] True show ?thesis by (auto simp: index_summary_def split: option.splits)
    qed
  qed
qed

lemma summaries_know:
  "knows ix cl \<Longrightarrow> knows (fold (index_summary ws_root) ids ix) (\<lambda>q. cl q \<union> (if q \<in> set ids then {ws_root} else {}))"
proof (induction ids arbitrary: ix cl)
  case (Cons i ids)
  have eq: "(\<lambda>q. (cl(i := insert ws_root (cl i))) q \<union> (if q \<in> set ids then {ws_root} else {}))
      = (\<lambda>q. cl q \<union> (if q \<in> set (i # ids) then {ws_root} else {}))" by (auto simp: fun_eq_iff)
  from Cons.IH [OF summary_knows [OF Cons.prems, of ws_root i], unfolded eq] show ?case by simp
qed simp

lemma knows_workspaces [simp]: "knows (ix\<lparr>ri_workspaces := w\<rparr>) cl = knows ix cl"
  by (simp add: knows_def)

lemma load_knows:
  assumes "0 < page_size" "knows ix cl"
  shows "knows (load_historical resolve disk page_size roots ix) (\<lambda>q. cl q \<union> claims (map resolve roots) disk q)"
  using assms(2)
proof (induction roots arbitrary: ix cl)
  case Nil
  then show ?case by (simp add: claims_def)
next
  case (Cons r roots)
  let ?r = "resolve r"
  show ?case
  proof (cases "disk (db_file ?r)")
    case (Lists ids)
    have eq: "(\<lambda>q. cl q \<union> claims (map resolve (r # roots)) disk q)
        = (\<lambda>q. (cl q \<union> (if q \<in> set ids then {?r} else {})) \<union> claims (map resolve roots) disk q)"
      by (auto simp: claims_def Lists fun_eq_iff)
    have "knows (index_pages page_size ?r ids (ix\<lparr>ri_workspaces := insert ?r (ri_workspaces ix)\<rparr>))
        (\<lambda>q. cl q \<union> (if q \<in> set ids then {?r} else {}))"
      unfolding index_pages_fold [OF assms(1)] by (rule summaries_know) (simp add: Cons.prems)
    from Cons.IH [OF this] show ?thesis
      by (simp only: load_historical.simps Let_def Lists ledger_file.case eq)
  next
    case Missing
    have eq: "claims (map resolve (r # roots)) disk q = claims (map resolve roots) disk q" for q
      by (auto simp: claims_def Missing)
    from Cons.IH [OF Cons.prems] show ?thesis by (simp only: load_historical.simps Let_def Missing ledger_file.case eq)
  next
    case Unreadable_ledger
    have eq: "claims (map resolve (r # roots)) disk q = claims (map resolve roots) disk q" for q
      by (auto simp: claims_def Unreadable_ledger)
    from Cons.IH [OF Cons.prems] show ?thesis
      by (simp only: load_historical.simps Let_def Unreadable_ledger ledger_file.case eq)
  qed
qed

lemma summary_ok: "index_ok ix \<Longrightarrow> ws_root \<in> ri_workspaces ix \<Longrightarrow>
    index_ok (index_summary ws_root run ix) \<and> ri_workspaces (index_summary ws_root run ix) = ri_workspaces ix"
  by (auto simp: index_ok_def index_summary_def split: option.splits)

lemma summaries_ok: "index_ok ix \<Longrightarrow> ws_root \<in> ri_workspaces ix \<Longrightarrow>
    index_ok (fold (index_summary ws_root) ids ix) \<and> ri_workspaces (fold (index_summary ws_root) ids ix) = ri_workspaces ix"
  by (induction ids arbitrary: ix) (simp_all add: summary_ok)

lemma load_ok:
  assumes "0 < page_size"
  shows "index_ok ix \<Longrightarrow> index_ok (load_historical resolve disk page_size roots ix)
    \<and> ri_workspaces ix \<subseteq> ri_workspaces (load_historical resolve disk page_size roots ix)"
proof (induction roots arbitrary: ix)
  case (Cons r roots)
  let ?ix = "case disk (db_file (resolve r)) of Missing \<Rightarrow> ix | Unreadable_ledger \<Rightarrow> ix
     | Lists ids \<Rightarrow> index_pages page_size (resolve r) ids (ix\<lparr>ri_workspaces := insert (resolve r) (ri_workspaces ix)\<rparr>)"
  have "index_ok (ix\<lparr>ri_workspaces := insert (resolve r) (ri_workspaces ix)\<rparr>)"
    using Cons.prems by (auto simp: index_ok_def)
  from summaries_ok [OF this, of "resolve r"] Cons.prems
  have "index_ok ?ix \<and> ri_workspaces ix \<subseteq> ri_workspaces ?ix"
    by (auto simp: index_pages_fold [OF assms] split: ledger_file.split)
  with Cons.IH [of ?ix] show ?case by (simp only: load_historical.simps Let_def) blast
qed simp

lemma register_run_ok: "index_ok ix \<Longrightarrow> register_run resolve run ws ix = Some ix' \<Longrightarrow> index_ok ix'"
  by (auto simp: index_ok_def register_run_def Let_def split: if_splits)

lemma forget_run_ok: "index_ok ix \<Longrightarrow> index_ok (forget_run run ix)"
  by (auto simp: index_ok_def forget_run_def split: if_splits)

lemma load_claims:
  assumes "0 < page_size"
  shows "knows (load_historical resolve disk page_size roots empty_index) (claims (map resolve roots) disk)"
  using load_knows [OF assms, of empty_index "\<lambda>q. {}" resolve disk roots] by (simp add: knows_def empty_index_def)

lemma two_members: "a \<in> S \<Longrightarrow> b \<in> S \<Longrightarrow> a \<noteq> b \<Longrightarrow> S \<noteq> {r} \<and> S \<noteq> {}"
  by auto

text \<open>C31: a run is found where it is, or not at all.  After the load at startup a run has a workspace
  exactly when one known workspace lists it, and is ambiguous exactly when two do, in whatever order
  the workspaces were given and however often the same one; an ambiguous run is never registered
  again, a known one only for its own workspace, and a new one is found where it was registered.\<close>

theorem runs_found_where_listed:
  assumes "0 < page_size" "load_historical resolve disk page_size roots empty_index = ix"
  shows "index_ok ix
    \<and> (workspace_of ix run = Some r) = (claims (map resolve roots) disk run = {r})
    \<and> (workspace_of ix run = None \<and> \<not> is_ambiguous ix run) = (claims (map resolve roots) disk run = {})
    \<and> is_ambiguous ix run = (\<exists>a b. a \<in> claims (map resolve roots) disk run \<and> b \<in> claims (map resolve roots) disk run \<and> a \<noteq> b)
    \<and> (register_run resolve run ws ix = None) = (is_ambiguous ix run \<or> workspace_of ix run \<notin> {None, Some (resolve ws)})
    \<and> (case register_run resolve run ws ix of None \<Rightarrow> True
       | Some ix' \<Rightarrow> index_ok ix' \<and> db_path ix' run = Some (db_file (resolve ws)))"
proof -
  let ?cl = "claims (map resolve roots) disk run"
  have "knows ix (claims (map resolve roots) disk)" using load_claims [OF assms(1), of resolve disk roots] assms(2) by simp
  then have k: "if run \<in> ri_ambiguous ix then ri_runs ix run = None \<and> (\<exists>r r'. r \<in> ?cl \<and> r' \<in> ?cl \<and> r \<noteq> r')
     else ?cl = set_option (ri_runs ix run)"
    unfolding knows_def by (rule spec)
  have "index_ok empty_index" by (simp add: index_ok_def empty_index_def)
  from load_ok [OF assms(1) this, of resolve disk roots] have ok: "index_ok ix" by (simp add: assms(2))
  have reg: "(register_run resolve run ws ix = None) = (is_ambiguous ix run \<or> workspace_of ix run \<notin> {None, Some (resolve ws)})"
    by (auto simp: register_run_def is_ambiguous_def workspace_of_def Let_def split: option.splits)
  have after: "case register_run resolve run ws ix of None \<Rightarrow> True
       | Some ix' \<Rightarrow> index_ok ix' \<and> db_path ix' run = Some (db_file (resolve ws))"
    using register_run_ok [OF ok, of resolve run ws] by (auto simp: register_run_def db_path_def Let_def split: option.splits if_splits)
  show ?thesis
  proof (cases "run \<in> ri_ambiguous ix")
    case True
    with k obtain a b where none: "ri_runs ix run = None" and ab: "a \<in> ?cl" "b \<in> ?cl" "a \<noteq> b" by auto
    have w: "workspace_of ix run = None" "is_ambiguous ix run" using True none by (simp_all add: workspace_of_def is_ambiguous_def)
    have "?cl \<noteq> {r}" "?cl \<noteq> {}" using two_members [OF ab] by simp_all
    then have "(workspace_of ix run = Some r) = (?cl = {r})"
      "(workspace_of ix run = None \<and> \<not> is_ambiguous ix run) = (?cl = {})" by (simp_all add: w)
    moreover have "is_ambiguous ix run = (\<exists>a b. a \<in> ?cl \<and> b \<in> ?cl \<and> a \<noteq> b)" using ab w(2) by metis
    ultimately show ?thesis by (intro conjI ok reg after)
  next
    case False
    with k have "?cl = set_option (ri_runs ix run)" by simp
    then have "?cl = {r} \<longleftrightarrow> ri_runs ix run = Some r" "?cl = {} \<longleftrightarrow> ri_runs ix run = None"
      "\<not> (\<exists>a b. a \<in> ?cl \<and> b \<in> ?cl \<and> a \<noteq> b)"
      by (cases "ri_runs ix run"; simp)+
    then show ?thesis
      by (intro conjI ok reg after) (use False in \<open>simp_all add: workspace_of_def is_ambiguous_def\<close>)
  qed
qed

theorem runs_found_where_listed_witness:
  "let ix = load_historical id (\<lambda>f. if f = db_file ''a'' then Lists [''1'', ''2''] else if f = db_file ''b'' then Lists [''2''] else Missing)
      1 [''a'', ''b'', ''a''] empty_index
   in workspace_of ix ''1'' = Some ''a'' \<and> is_ambiguous ix ''2''"
proof -
  let ?disk = "\<lambda>f. if f = db_file ''a'' then Lists [''1'', ''2''] else if f = db_file ''b'' then Lists [''2''] else Missing"
  have "db_file ''a'' \<noteq> db_file ''b''" by (simp add: db_file_def)
  then have "claims (map id [''a'', ''b'', ''a'']) ?disk ''1'' = {''a''}"
    "claims (map id [''a'', ''b'', ''a'']) ?disk ''2'' = {''a'', ''b''}" by (auto simp: claims_def)
  then show ?thesis
    using runs_found_where_listed [of 1 id ?disk "[''a'', ''b'', ''a'']" _ "''1''" "''a''"]
      runs_found_where_listed [of 1 id ?disk "[''a'', ''b'', ''a'']" _ "''2''" "''a''"]
    by (simp add: Let_def) blast
qed

end
