(* ===== verification/Calibration.thy ===== *)
theory Calibration
  imports Model_Review Pricing
begin

section \<open>Calibration of the reviewers (application/calibration.py)\<close>

text \<open>
  The measurement of a panel of reviewers on labelled samples, the report, and the records that the
  soft-rubric checker loads.  Rates are exact rationals; a reviewer is the function of
  \<open>Model_Review\<close>; \<^verbatim>\<open>json.loads\<close>, pydantic's record and the formatting of a number with
  three digits are parameters.
\<close>

record calibration_sample =
  cs_index :: nat
  cs_objective :: string
  cs_description :: string
  cs_evidence :: string
  cs_label :: bool

record calibration_suite =
  su_name :: string
  su_samples :: "calibration_sample list"

record reviewer_measurement =
  rm_profile :: string
  rm_samples :: nat
  rm_agreements :: nat

definition reviewer_accuracy :: "reviewer_measurement \<Rightarrow> rat" where
  "reviewer_accuracy m = (if rm_samples m = 0 then 0 else of_nat (rm_agreements m) / of_nat (rm_samples m))"

record criterion_measurement =
  cm_index :: nat
  cm_samples :: nat
  cm_agreement :: rat
  cm_accuracy :: rat
  cm_false_accepts :: rat
  cm_false_rejects :: rat
  cm_threshold :: rat

definition to_record :: "nat \<Rightarrow> criterion_measurement \<Rightarrow> calibration_record" where
  "to_record n m = \<lparr>cal_criterion_index = cm_index m, reviewer_agreement_rate = cm_agreement m, min_reviewers = n,
     agreement_threshold = cm_threshold m, sample_count = cm_samples m\<rparr>"

record calibration_report =
  cr_suite_name :: string
  cr_profiles :: "string list"
  cr_generated_at :: rat
  cr_per_reviewer :: "reviewer_measurement list"
  cr_per_criterion :: "criterion_measurement list"

definition report_records :: "calibration_report \<Rightarrow> calibration_record list" where
  "report_records r = map (to_record (length (cr_profiles r))) (cr_per_criterion r)"

subsection \<open>The measurement\<close>

definition sample_input :: "calibration_sample \<Rightarrow> review_input" where
  "sample_input s = \<lparr>ri_index = cs_index s, ri_kind = ''soft_rubric'', ri_description = cs_description s,
     ri_objective = cs_objective s, ri_evidence = cs_evidence s\<rparr>"

type_synonym named_reviewer = "string \<times> reviewer"

definition panel_of :: "named_reviewer list \<Rightarrow> calibration_sample \<Rightarrow> bool list" where
  "panel_of reviewers s = map (\<lambda>(n, r). rv_passed (r (sample_input s))) reviewers"

text \<open>\<open>per_reviewer\<close>: hits and total by the name of the profile, so reviewers of one name share them.\<close>

type_synonym tallies = "(string \<times> nat \<times> nat) list"

definition count_verdict :: "calibration_sample \<Rightarrow> named_reviewer \<Rightarrow> tallies \<Rightarrow> tallies" where
  "count_verdict s nr ts =
     (case nr of (n, r) \<Rightarrow>
        (case map_of ts n of
           None \<Rightarrow> ts
         | Some (hits, seen) \<Rightarrow>
             dict_set ts n (hits + (if rv_passed (r (sample_input s)) = cs_label s then 1 else 0), seen + 1)))"

definition tallied :: "named_reviewer list \<Rightarrow> calibration_sample list \<Rightarrow> tallies" where
  "tallied reviewers samples =
     fold (\<lambda>s. fold (count_verdict s) reviewers) samples
       (fold (\<lambda>(n, r) ts. dict_set ts n (0, 0)) reviewers [])"

definition majority :: "bool list \<Rightarrow> bool" where
  "majority panel \<longleftrightarrow> length panel < 2 * length (filter id panel)"

definition unanimous :: "bool list \<Rightarrow> bool" where
  "unanimous panel \<longleftrightarrow> card (set panel) = 1"

definition counted :: "('a \<Rightarrow> bool) \<Rightarrow> 'a list \<Rightarrow> nat" where
  "counted P xs = length (filter P xs)"

text \<open>The panel's aggregate on the samples of one criterion, with the panels beside them.\<close>

definition suggested :: "rat \<Rightarrow> rat" where
  "suggested fa_rate = max (1 / 2) (py_round (1 - fa_rate) 4)"

definition measure_criterion :: "nat \<Rightarrow> (bool list \<times> calibration_sample) list \<Rightarrow> criterion_measurement" where
  "measure_criterion i ps =
     (let n = length ps;
          negatives = counted (\<lambda>(p, s). \<not> cs_label s) ps; positives = n - negatives;
          fa = counted (\<lambda>(p, s). majority p \<and> \<not> cs_label s) ps;
          fr = counted (\<lambda>(p, s). \<not> majority p \<and> cs_label s) ps;
          fa_rate = (if negatives = 0 then 0 else of_nat fa / of_nat negatives);
          fr_rate = (if positives = 0 then 0 else of_nat fr / of_nat positives)
      in \<lparr>cm_index = i, cm_samples = n, cm_agreement = of_nat (counted (\<lambda>(p, s). unanimous p) ps) / of_nat n,
          cm_accuracy = of_nat (counted (\<lambda>(p, s). majority p = cs_label s) ps) / of_nat n,
          cm_false_accepts = fa_rate, cm_false_rejects = fr_rate, cm_threshold = suggested fa_rate\<rparr>)"

text \<open>The samples of one criterion, in the order of the suite.\<close>

definition group_of :: "named_reviewer list \<Rightarrow> calibration_sample list \<Rightarrow> nat \<Rightarrow> (bool list \<times> calibration_sample) list" where
  "group_of reviewers samples i = map (\<lambda>s. (panel_of reviewers s, s)) (filter (\<lambda>s. cs_index s = i) samples)"

text \<open>\<^verbatim>\<open>CalibrationRunner\<close>; \<open>None\<close> is the \<^verbatim>\<open>ValueError\<close> of a runner without reviewers.\<close>

definition measure_panel :: "named_reviewer list \<Rightarrow> calibration_suite \<Rightarrow> rat \<Rightarrow> calibration_report option" where
  "measure_panel reviewers suite now =
     (if reviewers = [] then None
      else Some \<lparr>cr_suite_name = su_name suite, cr_profiles = map fst reviewers, cr_generated_at = now,
        cr_per_reviewer = map (\<lambda>(n, hits, seen). \<lparr>rm_profile = n, rm_samples = seen, rm_agreements = hits\<rparr>)
          (tallied reviewers (su_samples suite)),
        cr_per_criterion = map (\<lambda>i. measure_criterion i (group_of reviewers (su_samples suite) i))
          (sort (remdups (map cs_index (su_samples suite))))\<rparr>)"

subsection \<open>Report and records\<close>

definition report_markdown :: "(rat \<Rightarrow> string) \<Rightarrow> calibration_report \<Rightarrow> string" where
  "report_markdown fmt3 r = str_join newline
     ([''# Reviewer calibration report'', [],
       ''Suite: '' @ cr_suite_name r @ '' '' @ [CHR 0xC2, CHR 0xB7] @ '' Reviewers: '' @ str_join '', '' (cr_profiles r), [],
       ''| Criterion | Samples | Agreement | Majority accuracy | False accept | False reject | Suggested threshold |'',
       ''|---:|---:|---:|---:|---:|---:|---:|'']
      @ map (\<lambda>m. ''| '' @ show_nat (cm_index m) @ '' | '' @ show_nat (cm_samples m) @ '' | '' @ fmt3 (cm_agreement m)
          @ '' | '' @ fmt3 (cm_accuracy m) @ '' | '' @ fmt3 (cm_false_accepts m) @ '' | '' @ fmt3 (cm_false_rejects m)
          @ '' | '' @ fmt3 (cm_threshold m) @ '' |'') (cr_per_criterion r)
      @ [[], ''## Per-reviewer accuracy'', []]
      @ map (\<lambda>m. ''- **'' @ rm_profile m @ ''**: '' @ fmt3 (reviewer_accuracy m) @ '' over '' @ show_nat (rm_samples m)
          @ '' samples'') (cr_per_reviewer r)
      @ [[], ''Suggested threshold = max(0.5, 1 - false acceptance rate). Inspect before'',
         ''adopting: it is a floor derived from this suite, not a law.'']) @ newline"

text \<open>The records of a file: no record, or one that does not validate, is an error.\<close>

datatype calibration_error = Not_json | No_records | Bad_record nat

fun read_records :: "(json \<Rightarrow> calibration_record option) \<Rightarrow> nat \<Rightarrow> json list \<Rightarrow> calibration_error + calibration_record list" where
  "read_records adapter i [] = Inr []"
| "read_records adapter i (raw # raws) =
     (case adapter raw of
        None \<Rightarrow> Inl (Bad_record i)
      | Some c \<Rightarrow> (case read_records adapter (i + 1) raws of Inl e \<Rightarrow> Inl e | Inr cs \<Rightarrow> Inr (c # cs)))"

definition load_calibration_records ::
  "(string \<Rightarrow> json option) \<Rightarrow> (json \<Rightarrow> calibration_record option) \<Rightarrow> string \<Rightarrow> calibration_error + calibration_record list" where
  "load_calibration_records loads adapter content =
     (case loads content of
        None \<Rightarrow> Inl Not_json
      | Some (JObj kvs) \<Rightarrow>
          (case obj_get kvs ''records'' of
             Some (JArr raws) \<Rightarrow> if raws = [] then Inl No_records else read_records adapter 0 raws
           | _ \<Rightarrow> Inl No_records)
      | Some _ \<Rightarrow> Inl No_records)"

subsection \<open>What a measurement says\<close>

lemma counted_le: "counted P xs \<le> length xs"
  by (simp add: counted_def)

lemma counted_mono: "(\<And>x. x \<in> set xs \<Longrightarrow> P x \<Longrightarrow> Q x) \<Longrightarrow> counted P xs \<le> counted Q xs"
  unfolding counted_def by (induction xs) (auto simp: le_SucI)

lemma counted_split: "counted P xs + counted (\<lambda>x. \<not> P x) xs = length xs"
  by (simp add: counted_def sum_length_filter_compl)

lemma rate_bounds: "a \<le> b \<Longrightarrow> 0 \<le> (of_nat a / of_nat b :: rat) \<and> (of_nat a / of_nat b :: rat) \<le> 1"
  by (cases "b = 0") (simp_all add: divide_le_eq)

lemma false_counts:
  "counted (\<lambda>(p, s). majority p \<and> \<not> cs_label s) ps \<le> counted (\<lambda>(p, s). \<not> cs_label s) ps"
  "counted (\<lambda>(p, s). \<not> majority p \<and> cs_label s) ps \<le> length ps - counted (\<lambda>(p, s). \<not> cs_label s) ps"
proof -
  show "counted (\<lambda>(p, s). majority p \<and> \<not> cs_label s) ps \<le> counted (\<lambda>(p, s). \<not> cs_label s) ps"
    by (rule counted_mono) auto
  have "counted (\<lambda>(p, s). \<not> majority p \<and> cs_label s) ps \<le> counted (\<lambda>x. \<not> (case x of (p, s) \<Rightarrow> \<not> cs_label s)) ps"
    by (rule counted_mono) auto
  with counted_split [of "\<lambda>(p, s). \<not> cs_label s" ps]
  show "counted (\<lambda>(p, s). \<not> majority p \<and> cs_label s) ps \<le> length ps - counted (\<lambda>(p, s). \<not> cs_label s) ps" by linarith
qed

text \<open>Each sample is judged right, accepted wrongly or rejected wrongly.\<close>

lemma judgments_add_up:
  "counted (\<lambda>(p, s). majority p = cs_label s) ps + counted (\<lambda>(p, s). majority p \<and> \<not> cs_label s) ps
     + counted (\<lambda>(p, s). \<not> majority p \<and> cs_label s) ps = length ps"
  by (induction ps) (auto simp: counted_def)

lemma round_half_even_le:
  assumes "x \<le> of_int n"
  shows "round_half_even x \<le> n"
proof (cases "\<lfloor>x\<rfloor> < n")
  case True
  have "round_half_even x \<le> \<lfloor>x\<rfloor> + 1" by (simp add: round_half_even_def Let_def)
  with True show ?thesis by linarith
next
  case False
  then have "of_int n \<le> (of_int \<lfloor>x\<rfloor> :: rat)" by simp
  with assms of_int_floor_le [of x] have "x = of_int n" by linarith
  then show ?thesis by (simp add: round_half_even_def)
qed

lemma py_round_unit:
  assumes "0 \<le> x" "x \<le> 1"
  shows "0 \<le> py_round x 4" "py_round x 4 \<le> 1"
proof -
  show "0 \<le> py_round x 4" using assms round_half_even_nonneg [of "x * 10 ^ 4"] by (simp add: py_round_def)
  have "round_half_even (x * 10 ^ 4) \<le> 10000" using assms by (intro round_half_even_le) simp
  then have "(of_int (round_half_even (x * 10 ^ 4)) :: rat) \<le> of_int 10000" by (simp only: of_int_le_iff)
  then show "py_round x 4 \<le> 1" by (simp add: py_round_def)
qed

lemma suggested_bounds:
  assumes "0 \<le> fa" "fa \<le> 1"
  shows "1 / 2 \<le> suggested fa \<and> suggested fa \<le> 1 \<and> 1 - fa - 1 / 20000 \<le> suggested fa"
proof -
  have "\<bar>py_round (1 - fa) 4 - (1 - fa)\<bar> \<le> 1 / 20000" using py_round_near [of "1 - fa" 4] by simp
  then have "1 - fa - 1 / 20000 \<le> py_round (1 - fa) 4" by linarith
  moreover have "py_round (1 - fa) 4 \<le> 1" using py_round_unit [of "1 - fa"] assms by simp
  moreover have "py_round (1 - fa) 4 \<le> suggested fa" "1 / 2 \<le> suggested fa" by (simp_all add: suggested_def)
  ultimately show ?thesis by (auto simp: suggested_def)
qed

lemma measure_criterion_bounds:
  fixes i :: nat
  assumes "ps \<noteq> []"
  defines "m \<equiv> measure_criterion i ps"
  shows "cm_samples m = length ps \<and> 1 \<le> cm_samples m
    \<and> 0 \<le> cm_agreement m \<and> cm_agreement m \<le> 1 \<and> 0 \<le> cm_accuracy m \<and> cm_accuracy m \<le> 1
    \<and> 0 \<le> cm_false_accepts m \<and> cm_false_accepts m \<le> 1 \<and> 0 \<le> cm_false_rejects m \<and> cm_false_rejects m \<le> 1
    \<and> 1 / 2 \<le> cm_threshold m \<and> cm_threshold m \<le> 1 \<and> 1 - cm_false_accepts m - 1 / 20000 \<le> cm_threshold m"
proof -
  have fa: "0 \<le> cm_false_accepts m" "cm_false_accepts m \<le> 1"
    using rate_bounds [OF false_counts(1) [of ps]] by (auto simp: m_def measure_criterion_def Let_def)
  have fr: "0 \<le> cm_false_rejects m" "cm_false_rejects m \<le> 1"
    using rate_bounds [OF false_counts(2) [of ps]] by (auto simp: m_def measure_criterion_def Let_def)
  have rates: "0 \<le> cm_agreement m" "cm_agreement m \<le> 1" "0 \<le> cm_accuracy m" "cm_accuracy m \<le> 1"
    using rate_bounds [OF counted_le, of _ ps] by (auto simp: m_def measure_criterion_def Let_def)
  have "cm_threshold m = suggested (cm_false_accepts m)" by (simp add: m_def measure_criterion_def Let_def)
  with suggested_bounds [OF fa] fa fr rates assms(1) show ?thesis
    by (simp add: m_def measure_criterion_def Let_def Suc_le_eq)
qed

lemma group_neq_Nil: "i \<in> set (map cs_index samples) \<Longrightarrow> group_of reviewers samples i \<noteq> []"
  by (auto simp: group_of_def filter_empty_conv)

lemma counted_groups:
  assumes "distinct is" "set (map cs_index samples) \<subseteq> set is"
  shows "sum_list (map (\<lambda>i. length (filter (\<lambda>s. cs_index s = i) samples)) is) = length samples"
  using assms
proof (induction samples)
  case (Cons s samples)
  have "sum_list (map (\<lambda>i. if cs_index s = i then 1 else 0) is) = (1 :: nat)"
    using Cons.prems by (simp add: sum_list_distinct_conv_sum_set)
  moreover have "(\<lambda>i. length (filter (\<lambda>t. cs_index t = i) (s # samples)))
      = (\<lambda>i. (if cs_index s = i then 1 else 0) + length (filter (\<lambda>t. cs_index t = i) samples))" by auto
  ultimately show ?case using Cons by (simp only: sum_list_addf) simp
qed simp

text \<open>A calibration report is a measurement.  It has one entry for each criterion that occurs in the
  samples, in order, and every sample is counted in exactly one; all rates are proportions, the
  suggested threshold lies between one half and one and is at least one minus the rate of false
  acceptances up to the rounding, and each entry is a valid record for the soft-rubric checker that
  asks for as many reviewers as were measured.\<close>

theorem report_measures:
  assumes "measure_panel reviewers suite now = Some r" "su_samples suite \<noteq> []"
  shows "sorted_wrt (<) (map cm_index (cr_per_criterion r))
    \<and> set (map cm_index (cr_per_criterion r)) = set (map cs_index (su_samples suite))
    \<and> sum_list (map cm_samples (cr_per_criterion r)) = length (su_samples suite)
    \<and> list_all (\<lambda>m. 1 \<le> cm_samples m \<and> 0 \<le> cm_accuracy m \<and> cm_accuracy m \<le> 1
        \<and> 0 \<le> cm_false_accepts m \<and> cm_false_accepts m \<le> 1 \<and> 0 \<le> cm_false_rejects m \<and> cm_false_rejects m \<le> 1
        \<and> 1 / 2 \<le> cm_threshold m \<and> 1 - cm_false_accepts m - 1 / 20000 \<le> cm_threshold m) (cr_per_criterion r)
    \<and> map cal_criterion_index (report_records r) = map cm_index (cr_per_criterion r)
    \<and> list_all (\<lambda>c. valid_calibration c \<and> min_reviewers c = length reviewers \<and> 0 < sample_count c) (report_records r)"
proof -
  let ?is = "sort (remdups (map cs_index (su_samples suite)))"
  let ?m = "\<lambda>i. measure_criterion i (group_of reviewers (su_samples suite) i)"
  have r: "cr_per_criterion r = map ?m ?is" "length (cr_profiles r) = length reviewers" "reviewers \<noteq> []"
    using assms(1) by (auto simp: measure_panel_def split: if_splits)
  have m: "cm_index (?m i) = i" "cm_samples (?m i) = length (filter (\<lambda>s. cs_index s = i) (su_samples suite))" for i
    by (simp_all add: measure_criterion_def group_of_def Let_def)
  have idx: "map cm_index (cr_per_criterion r) = ?is" by (simp add: r(1) o_def m(1))
  have "sorted_wrt (<) ?is" by (simp add: strict_sorted_iff)
  moreover have "sum_list (map cm_samples (cr_per_criterion r)) = length (su_samples suite)"
    using counted_groups [of ?is "su_samples suite"] by (simp add: r(1) o_def m(2))
  moreover have "map cal_criterion_index (report_records r) = ?is" by (simp add: report_records_def o_def to_record_def idx)
  moreover have b: "list_all (\<lambda>m. (1 \<le> cm_samples m \<and> 0 \<le> cm_accuracy m \<and> cm_accuracy m \<le> 1
        \<and> 0 \<le> cm_false_accepts m \<and> cm_false_accepts m \<le> 1 \<and> 0 \<le> cm_false_rejects m \<and> cm_false_rejects m \<le> 1
        \<and> 1 / 2 \<le> cm_threshold m \<and> 1 - cm_false_accepts m - 1 / 20000 \<le> cm_threshold m)
      \<and> cm_threshold m \<le> 1 \<and> 0 \<le> cm_agreement m \<and> cm_agreement m \<le> 1) (cr_per_criterion r)"
    unfolding list_all_iff
  proof
    fix x assume "x \<in> set (cr_per_criterion r)"
    then obtain i where i: "x = ?m i" "i \<in> set (map cs_index (su_samples suite))" by (auto simp: r(1))
    from measure_criterion_bounds [OF group_neq_Nil [OF i(2)], of i reviewers]
    show "(1 \<le> cm_samples x \<and> 0 \<le> cm_accuracy x \<and> cm_accuracy x \<le> 1
        \<and> 0 \<le> cm_false_accepts x \<and> cm_false_accepts x \<le> 1 \<and> 0 \<le> cm_false_rejects x \<and> cm_false_rejects x \<le> 1
        \<and> 1 / 2 \<le> cm_threshold x \<and> 1 - cm_false_accepts x - 1 / 20000 \<le> cm_threshold x)
      \<and> cm_threshold x \<le> 1 \<and> 0 \<le> cm_agreement x \<and> cm_agreement x \<le> 1" unfolding i(1) by simp
  qed
  moreover have "list_all (\<lambda>c. valid_calibration c \<and> min_reviewers c = length reviewers \<and> 0 < sample_count c) (report_records r)"
    using b r(2,3) by (auto simp: report_records_def list_all_iff to_record_def valid_calibration_def Suc_le_eq)
  ultimately show ?thesis by (auto simp: idx list_all_iff)
qed

definition two_reviewers :: "named_reviewer list" where
  "two_reviewers =
     [(''strict'', \<lambda>q. plain_verdict False),
      (''lenient'', \<lambda>q. plain_verdict True)]"

definition one_sample_suite :: calibration_suite where
  "one_sample_suite = \<lparr>su_name = ''suite'', su_samples =
     [\<lparr>cs_index = 2, cs_objective = ''o'', cs_description = ''d'', cs_evidence = ''e'', cs_label = False\<rparr>]\<rparr>"

theorem report_measures_witness:
  "sum_list (map cm_samples (cr_per_criterion (the (measure_panel two_reviewers one_sample_suite 0)))) = 1"
proof -
  have some: "measure_panel two_reviewers one_sample_suite 0 = Some (the (measure_panel two_reviewers one_sample_suite 0))"
    by (simp add: measure_panel_def two_reviewers_def)
  have ne: "su_samples one_sample_suite \<noteq> []" by (simp add: one_sample_suite_def)
  from report_measures [OF some ne] show ?thesis by (simp add: one_sample_suite_def)
qed

subsection \<open>What a threshold means\<close>

lemma round_half_even_mono:
  assumes "x \<le> y"
  shows "round_half_even x \<le> round_half_even y"
proof (cases "\<lfloor>x\<rfloor> < \<lfloor>y\<rfloor>")
  case True
  have "round_half_even x \<le> \<lfloor>x\<rfloor> + 1" "\<lfloor>y\<rfloor> \<le> round_half_even y" by (simp_all add: round_half_even_def Let_def)
  with True show ?thesis by linarith
next
  case False
  with floor_mono [OF assms] have "\<lfloor>x\<rfloor> = \<lfloor>y\<rfloor>" by linarith
  with assms show ?thesis by (auto simp: round_half_even_def Let_def)
qed

text \<open>The suggested threshold falls as the rate of false acceptances rises: a panel that accepts every
  bad sample is asked for half of the votes, one that accepts none for all of them.\<close>

lemma suggested_antimono: "a \<le> b \<Longrightarrow> suggested b \<le> suggested a"
  using round_half_even_mono [of "(1 - b) * 10 ^ 4" "(1 - a) * 10 ^ 4"]
  by (auto simp: suggested_def py_round_def divide_right_mono intro!: max.mono)

lemma suggested_extremes: "suggested 0 = 1" "suggested 1 = 1 / 2"
  by (simp_all add: suggested_def py_round_def round_half_even_def)

end
