(* ===== verification/Config_Toml.thy ===== *)
theory Config_Toml
  imports Config "HOL-Library.Monad_Syntax"
begin

section \<open>The configuration as TOML (adapters/config_toml.py, config.py)\<close>

text \<open>
  Writing a configuration and reading it back.  A profile carries the text of its URL beside the
  parts that are validated.  Parameters: \<^verbatim>\<open>tomli_w.dumps\<close>, \<^verbatim>\<open>tomllib.loads\<close>, \<^verbatim>\<open>urlparse\<close>,
  \<^verbatim>\<open>ipaddress\<close>, and what pydantic makes of a value of another type than the field's.
\<close>

subsection \<open>Values\<close>

text \<open>The fields whose values pydantic converts from other types of a document.\<close>

datatype toml_kind = As_int | As_float | As_bool

record toml_lib =
  tl_loads :: "string \<Rightarrow> json option"
  tl_dumps :: "json \<Rightarrow> string"
  tl_urlparse :: "string \<Rightarrow> parsed_url option"
  tl_ip :: "string \<Rightarrow> bool option"
  tl_lax :: "toml_kind \<Rightarrow> json \<Rightarrow> json option"

definition as_text :: "json \<Rightarrow> string option" where
  "as_text v = (case v of JStr s \<Rightarrow> Some s | _ \<Rightarrow> None)"

definition as_int :: "toml_lib \<Rightarrow> json \<Rightarrow> int option" where
  "as_int lib v = (case v of JInt i \<Rightarrow> Some i
     | _ \<Rightarrow> (case tl_lax lib As_int v of Some (JInt i) \<Rightarrow> Some i | _ \<Rightarrow> None))"

definition as_nat :: "toml_lib \<Rightarrow> json \<Rightarrow> nat option" where
  "as_nat lib v = Option.bind (as_int lib v) (\<lambda>i. if 0 \<le> i then Some (nat i) else None)"

definition as_float :: "toml_lib \<Rightarrow> json \<Rightarrow> rat option" where
  "as_float lib v = (case v of JFloat r \<Rightarrow> Some r | JInt i \<Rightarrow> Some (of_int i)
     | _ \<Rightarrow> (case tl_lax lib As_float v of Some (JFloat r) \<Rightarrow> Some r | _ \<Rightarrow> None))"

definition as_bool :: "toml_lib \<Rightarrow> json \<Rightarrow> bool option" where
  "as_bool lib v = (case v of JBool b \<Rightarrow> Some b
     | _ \<Rightarrow> (case tl_lax lib As_bool v of Some (JBool b) \<Rightarrow> Some b | _ \<Rightarrow> None))"

definition as_list :: "json \<Rightarrow> json list option" where
  "as_list v = (case v of JArr vs \<Rightarrow> Some vs | _ \<Rightarrow> None)"

definition as_table :: "json \<Rightarrow> (string \<times> json) list option" where
  "as_table v = (case v of JObj kvs \<Rightarrow> Some kvs | _ \<Rightarrow> None)"

definition as_choice :: "(string \<Rightarrow> 'a option) \<Rightarrow> json \<Rightarrow> 'a option" where
  "as_choice parse v = (case v of JStr s \<Rightarrow> parse s | _ \<Rightarrow> None)"

definition read_all :: "(json \<Rightarrow> 'a option) \<Rightarrow> json list \<Rightarrow> 'a list option" where
  "read_all rd vs = those (map rd vs)"

definition as_strs :: "json \<Rightarrow> string list option" where
  "as_strs v = Option.bind (as_list v) (read_all as_text)"

definition as_str_map :: "json \<Rightarrow> (string \<times> string) list option" where
  "as_str_map v = Option.bind (as_table v)
     (\<lambda>kvs. those (map (\<lambda>(k, x). map_option (Pair k) (as_text x)) kvs))"

text \<open>A required field, and one with a default.\<close>

definition required :: "(string \<times> json) list \<Rightarrow> string \<Rightarrow> (json \<Rightarrow> 'a option) \<Rightarrow> 'a option" where
  "required kvs k rd = Option.bind (obj_get kvs k) rd"

definition field_or :: "(string \<times> json) list \<Rightarrow> string \<Rightarrow> (json \<Rightarrow> 'a option) \<Rightarrow> 'a \<Rightarrow> 'a option" where
  "field_or kvs k rd d = (case obj_get kvs k of None \<Rightarrow> Some d | Some v \<Rightarrow> rd v)"

text \<open>A field that is written unless it has its default.\<close>

definition emitted :: "string \<Rightarrow> ('a \<Rightarrow> json) \<Rightarrow> 'a \<Rightarrow> 'a \<Rightarrow> (string \<times> json) list" where
  "emitted k enc d v = (if v = d then [] else [(k, enc v)])"

subsection \<open>Profiles\<close>

record text_profile = model_profile +
  base_url_text :: string

text \<open>\<^verbatim>\<open>SecretEnvRef\<close>: the pattern and the bounds of an environment name.\<close>

definition valid_env_name :: "string \<Rightarrow> bool" where
  "valid_env_name s \<longleftrightarrow> length s \<le> 256 \<and>
     (case s of [] \<Rightarrow> False
      | c # cs \<Rightarrow> (is_alpha c \<or> c = CHR ''_'') \<and> list_all (\<lambda>c. is_alnum c \<or> c = CHR ''_'') cs)"

fun protocol_value :: "wire_protocol \<Rightarrow> string" where
  "protocol_value OPENAI_CHAT = ''openai_chat''"
| "protocol_value ANTHROPIC_MESSAGES = ''anthropic_messages''"
| "protocol_value GEMINI_GENERATE_CONTENT = ''gemini_generate_content''"

definition parse_protocol :: "string \<Rightarrow> wire_protocol option" where
  "parse_protocol v = find (\<lambda>c. protocol_value c = v) [OPENAI_CHAT, ANTHROPIC_MESSAGES, GEMINI_GENERATE_CONTENT]"

definition parse_role :: "string \<Rightarrow> role option" where
  "parse_role v = find (\<lambda>c. role_value c = v) [WORKER, REVIEWER, PLANNER, SPECIALIST, ORCHESTRATOR]"

text \<open>The values of a set in the order of their text.\<close>

definition sorted_roles :: "role set \<Rightarrow> role list" where
  "sorted_roles rs = filter (\<lambda>r. r \<in> rs) [ORCHESTRATOR, PLANNER, REVIEWER, SPECIALIST, WORKER]"

definition sorted_capabilities :: "capability set \<Rightarrow> capability list" where
  "sorted_capabilities cs = filter (\<lambda>c. c \<in> cs) [NATIVE_JSON_SCHEMA, PROMPT_CACHING, STREAMING, TOOL_USE, VISION]"

text \<open>The declared defaults; the required fields of this record are never read.\<close>

definition profile_defaults :: model_profile where
  "profile_defaults = \<lparr>mp_name = [], protocol = OPENAI_CHAT,
     base_url = \<lparr>url_scheme = [], url_username = [], url_password = [], url_query = [], url_fragment = [], url_hostname = None\<rparr>,
     model_id = [], api_key_env = None, allow_insecure_http = False, roles = {WORKER},
     capabilities = {TOOL_USE}, max_concurrency = 0, requests_per_minute = 60,
     context_window_tokens = 128000, max_output_tokens = 4096, request_timeout_seconds = 300,
     strict_stream_completion = True, transport_retries = 2,
     transport_retry_backoff_seconds = [3 / 2, 6], input_price_per_million_usd = 0,
     output_price_per_million_usd = 0, auth_header = None, extra_headers = [],
     extra_query = [], token_limit_param = ''max_tokens''\<rparr>"

definition int_value :: "nat \<Rightarrow> json" where
  "int_value n = JInt (int n)"

definition opt_text :: "string option \<Rightarrow> json" where
  "opt_text v = (case v of None \<Rightarrow> JNull | Some s \<Rightarrow> JStr s)"

definition str_map :: "(string \<times> string) list \<Rightarrow> json" where
  "str_map kvs = JObj (map (\<lambda>(k, v). (k, JStr v)) kvs)"

definition strs :: "string list \<Rightarrow> json" where
  "strs ss = JArr (map JStr ss)"

definition profile_to_dict :: "text_profile \<Rightarrow> (string \<times> json) list" where
  "profile_to_dict p =
     (''name'', JStr (mp_name p)) # (''protocol'', JStr (protocol_value (protocol p)))
     # (''base_url'', JStr (base_url_text p)) # (''model'', JStr (model_id p))
     # (''max_concurrency'', int_value (max_concurrency p))
     # emitted ''api_key_env'' opt_text None (api_key_env p)
     @ emitted ''allow_insecure_http'' JBool False (allow_insecure_http p)
     @ (''roles'', strs (map role_value (sorted_roles (roles p))))
     # (''capabilities'', strs (map capability_value (sorted_capabilities (capabilities p))))
     # emitted ''requests_per_minute'' int_value (requests_per_minute profile_defaults) (requests_per_minute p)
     @ emitted ''context_window_tokens'' int_value (context_window_tokens profile_defaults) (context_window_tokens p)
     @ emitted ''max_output_tokens'' int_value (max_output_tokens profile_defaults) (max_output_tokens p)
     @ emitted ''request_timeout_seconds'' JFloat (request_timeout_seconds profile_defaults) (request_timeout_seconds p)
     @ emitted ''strict_stream_completion'' JBool (strict_stream_completion profile_defaults) (strict_stream_completion p)
     @ emitted ''transport_retries'' int_value (transport_retries profile_defaults) (transport_retries p)
     @ emitted ''transport_retry_backoff_seconds'' (\<lambda>bs. JArr (map JFloat bs))
         (transport_retry_backoff_seconds profile_defaults) (transport_retry_backoff_seconds p)
     @ emitted ''input_price_per_million_usd'' JFloat (input_price_per_million_usd profile_defaults) (input_price_per_million_usd p)
     @ emitted ''output_price_per_million_usd'' JFloat (output_price_per_million_usd profile_defaults) (output_price_per_million_usd p)
     @ emitted ''auth_header'' opt_text (auth_header profile_defaults) (auth_header p)
     @ emitted ''extra_headers'' str_map (extra_headers profile_defaults) (extra_headers p)
     @ emitted ''extra_query'' str_map (extra_query profile_defaults) (extra_query p)
     @ emitted ''token_limit_param'' JStr (token_limit_param profile_defaults) (token_limit_param p)"

text \<open>\<^verbatim>\<open>ModelProfile\<close> built from a table; \<open>None\<close> is the \<^verbatim>\<open>ValidationError\<close>.\<close>

definition profile_valid :: "toml_lib \<Rightarrow> text_profile \<Rightarrow> bool" where
  "profile_valid lib p \<longleftrightarrow> validate_profile (tl_ip lib) (model_profile.truncate p) = None
     \<and> (case api_key_env p of None \<Rightarrow> True | Some n \<Rightarrow> valid_env_name n)"

text \<open>The before-validator wraps a text; a table must hold \<^verbatim>\<open>env_var\<close> and nothing else.\<close>

definition read_key_env :: "json \<Rightarrow> string option option" where
  "read_key_env v =
     (case v of JNull \<Rightarrow> Some None
      | JStr s \<Rightarrow> Some (Some s)
      | JObj kvs \<Rightarrow> if list_all (\<lambda>(k, x). k = ''env_var'') kvs
          then map_option Some (required kvs ''env_var'' as_text) else None
      | _ \<Rightarrow> None)"

definition read_opt_str :: "json \<Rightarrow> string option option" where
  "read_opt_str v = (case v of JNull \<Rightarrow> Some None | _ \<Rightarrow> map_option Some (as_text v))"

definition read_profile :: "toml_lib \<Rightarrow> json \<Rightarrow> text_profile option" where
  "read_profile lib v = do {
     kvs \<leftarrow> as_table v;
     name \<leftarrow> required kvs ''name'' as_text;
     proto \<leftarrow> required kvs ''protocol'' (as_choice parse_protocol);
     url \<leftarrow> required kvs ''base_url'' as_text;
     parts \<leftarrow> tl_urlparse lib url;
     model \<leftarrow> required kvs ''model'' as_text;
     conc \<leftarrow> required kvs ''max_concurrency'' (as_nat lib);
     key \<leftarrow> field_or kvs ''api_key_env'' read_key_env None;
     insecure \<leftarrow> field_or kvs ''allow_insecure_http'' (as_bool lib) False;
     rs \<leftarrow> field_or kvs ''roles'' (\<lambda>v. map_option set (Option.bind (as_list v) (read_all (as_choice parse_role))))
       (roles profile_defaults);
     cs \<leftarrow> field_or kvs ''capabilities''
       (\<lambda>v. map_option set (Option.bind (as_list v) (read_all (as_choice parse_capability)))) (capabilities profile_defaults);
     rpm \<leftarrow> field_or kvs ''requests_per_minute'' (as_nat lib) (requests_per_minute profile_defaults);
     window \<leftarrow> field_or kvs ''context_window_tokens'' (as_nat lib) (context_window_tokens profile_defaults);
     outs \<leftarrow> field_or kvs ''max_output_tokens'' (as_nat lib) (max_output_tokens profile_defaults);
     timeout \<leftarrow> field_or kvs ''request_timeout_seconds'' (as_float lib) (request_timeout_seconds profile_defaults);
     strict \<leftarrow> field_or kvs ''strict_stream_completion'' (as_bool lib) (strict_stream_completion profile_defaults);
     retries \<leftarrow> field_or kvs ''transport_retries'' (as_nat lib) (transport_retries profile_defaults);
     pauses \<leftarrow> field_or kvs ''transport_retry_backoff_seconds''
       (\<lambda>v. Option.bind (as_list v) (read_all (as_float lib))) (transport_retry_backoff_seconds profile_defaults);
     in_price \<leftarrow> field_or kvs ''input_price_per_million_usd'' (as_float lib) (input_price_per_million_usd profile_defaults);
     out_price \<leftarrow> field_or kvs ''output_price_per_million_usd'' (as_float lib) (output_price_per_million_usd profile_defaults);
     auth \<leftarrow> field_or kvs ''auth_header'' read_opt_str (auth_header profile_defaults);
     hs \<leftarrow> field_or kvs ''extra_headers'' as_str_map (extra_headers profile_defaults);
     qs \<leftarrow> field_or kvs ''extra_query'' as_str_map (extra_query profile_defaults);
     param \<leftarrow> field_or kvs ''token_limit_param'' (as_choice Some) (token_limit_param profile_defaults);
     let p = \<lparr>mp_name = name, protocol = proto, base_url = parts, model_id = model, api_key_env = key,
       allow_insecure_http = insecure, roles = rs, capabilities = cs, max_concurrency = conc,
       requests_per_minute = rpm, context_window_tokens = window, max_output_tokens = outs,
       request_timeout_seconds = timeout, strict_stream_completion = strict, transport_retries = retries,
       transport_retry_backoff_seconds = pauses, input_price_per_million_usd = in_price,
       output_price_per_million_usd = out_price, auth_header = auth, extra_headers = hs, extra_query = qs,
       token_limit_param = param, base_url_text = url\<rparr>;
     (if profile_valid lib p then Some p else None)
   }"

subsection \<open>Commands, run settings and routes\<close>

fun isolation_value :: "isolation \<Rightarrow> string" where
  "isolation_value Host = ''host''"
| "isolation_value Docker = ''docker''"

definition parse_isolation :: "string \<Rightarrow> isolation option" where
  "parse_isolation v = find (\<lambda>c. isolation_value c = v) [Host, Docker]"

definition command_to_dict :: "command_config \<Rightarrow> (string \<times> json) list" where
  "command_to_dict c =
     (''name'', JStr (cc_name c)) # (''argv'', strs (argv c)) # (''timeout_seconds'', JFloat (timeout_seconds c))
     # (''max_output_bytes'', int_value (cc_max_output_bytes c)) # (''env_allowlist'', strs (env_allowlist c))
     # emitted ''isolation'' (\<lambda>i. JStr (isolation_value i)) Host (isolation c)
     @ emitted ''docker_image'' JStr [] (docker_image c)"

definition read_command :: "toml_lib \<Rightarrow> json \<Rightarrow> command_config option" where
  "read_command lib v = do {
     kvs \<leftarrow> as_table v;
     name \<leftarrow> required kvs ''name'' as_text;
     args \<leftarrow> required kvs ''argv'' as_strs;
     timeout \<leftarrow> field_or kvs ''timeout_seconds'' (as_float lib) 10;
     outs \<leftarrow> field_or kvs ''max_output_bytes'' (as_nat lib) 65536;
     env \<leftarrow> field_or kvs ''env_allowlist'' as_strs [''PATH''];
     iso \<leftarrow> field_or kvs ''isolation'' (as_choice parse_isolation) Host;
     img \<leftarrow> field_or kvs ''docker_image'' as_text [];
     let c = \<lparr>cc_name = name, argv = args, timeout_seconds = timeout, cc_max_output_bytes = outs,
       env_allowlist = env, isolation = iso, docker_image = img\<rparr>;
     (if validate_command c = None then Some c else None)
   }"

definition run_defaults :: run_config where
  "run_defaults = \<lparr>default_budget_tokens = 100000, default_budget_cost_usd = 5, stall_window_seconds = 0,
     planner_mode = ''single'', falsifier_mode = ''off'', calibration_path = [], memory_enabled = False\<rparr>"

definition run_to_dict :: "run_config \<Rightarrow> (string \<times> json) list" where
  "run_to_dict r =
     emitted ''default_budget_tokens'' int_value (default_budget_tokens run_defaults) (default_budget_tokens r)
     @ emitted ''default_budget_cost_usd'' JFloat (default_budget_cost_usd run_defaults) (default_budget_cost_usd r)
     @ emitted ''stall_window_seconds'' JFloat (stall_window_seconds run_defaults) (stall_window_seconds r)
     @ emitted ''planner_mode'' JStr (planner_mode run_defaults) (planner_mode r)
     @ emitted ''falsifier_mode'' JStr (falsifier_mode run_defaults) (falsifier_mode r)
     @ emitted ''calibration_path'' JStr (calibration_path run_defaults) (calibration_path r)"

definition run_valid :: "run_config \<Rightarrow> bool" where
  "run_valid r \<longleftrightarrow> 0 \<le> default_budget_cost_usd r \<and> 0 \<le> stall_window_seconds r
     \<and> planner_mode r \<in> {''single'', ''model''} \<and> falsifier_mode r \<in> {''off'', ''model''}"

definition read_run :: "toml_lib \<Rightarrow> json \<Rightarrow> run_config option" where
  "read_run lib v = do {
     kvs \<leftarrow> as_table v;
     tokens \<leftarrow> field_or kvs ''default_budget_tokens'' (as_nat lib) (default_budget_tokens run_defaults);
     cost \<leftarrow> field_or kvs ''default_budget_cost_usd'' (as_float lib) (default_budget_cost_usd run_defaults);
     stall \<leftarrow> field_or kvs ''stall_window_seconds'' (as_float lib) (stall_window_seconds run_defaults);
     planner \<leftarrow> field_or kvs ''planner_mode'' (as_choice Some) (planner_mode run_defaults);
     falsifier \<leftarrow> field_or kvs ''falsifier_mode'' (as_choice Some) (falsifier_mode run_defaults);
     path \<leftarrow> field_or kvs ''calibration_path'' as_text (calibration_path run_defaults);
     memory \<leftarrow> field_or kvs ''memory_enabled'' (as_bool lib) (memory_enabled run_defaults);
     let r = \<lparr>default_budget_tokens = tokens, default_budget_cost_usd = cost, stall_window_seconds = stall,
       planner_mode = planner, falsifier_mode = falsifier, calibration_path = path, memory_enabled = memory\<rparr>;
     (if run_valid r then Some r else None)
   }"

definition routing_to_dict :: "route_mapping \<Rightarrow> (string \<times> json) list" where
  "routing_to_dict e = [(''role'', JStr (role_value (rm_role e))), (''profiles'', strs (rm_profiles e))]"

text \<open>A route takes no other key.\<close>

definition read_route :: "json \<Rightarrow> route_mapping option" where
  "read_route v = do {
     kvs \<leftarrow> as_table v;
     r \<leftarrow> required kvs ''role'' (as_choice parse_role);
     ns \<leftarrow> required kvs ''profiles'' as_strs;
     (if ns \<noteq> [] \<and> list_all (\<lambda>(k, x). k \<in> {''role'', ''profiles''}) kvs then Some \<lparr>rm_role = r, rm_profiles = ns\<rparr> else None)
   }"

subsection \<open>The whole document\<close>

record edit_config =
  ed_name :: string
  ed_profiles :: "text_profile list"
  ed_commands :: "command_config list"
  ed_run :: run_config
  ed_routing :: "route_mapping list"

text \<open>What the rest of the program reads of it.\<close>

definition plain_config :: "edit_config \<Rightarrow> northstack_config" where
  "plain_config c = \<lparr>cfg_name = ed_name c, profiles = map model_profile.truncate (ed_profiles c),
     commands = ed_commands c, run_settings = ed_run c, routing = ed_routing c\<rparr>"

definition config_valid :: "toml_lib \<Rightarrow> edit_config \<Rightarrow> bool" where
  "config_valid lib c \<longleftrightarrow> validate_config (tl_ip lib) (plain_config c) = None"

definition tables :: "string \<Rightarrow> ('a \<Rightarrow> (string \<times> json) list) \<Rightarrow> 'a list \<Rightarrow> (string \<times> json) list" where
  "tables k enc xs = (if xs = [] then [] else [(k, JArr (map (\<lambda>x. JObj (enc x)) xs))])"

definition company_dict :: "edit_config \<Rightarrow> (string \<times> json) list" where
  "company_dict c =
     (''name'', JStr (ed_name c)) # tables ''profiles'' profile_to_dict (ed_profiles c)
     @ tables ''commands'' command_to_dict (ed_commands c)
     @ (if run_to_dict (ed_run c) = [] then [] else [(''run'', JObj (run_to_dict (ed_run c)))])
     @ tables ''routing'' routing_to_dict (ed_routing c)"

definition config_to_toml :: "toml_lib \<Rightarrow> edit_config \<Rightarrow> string" where
  "config_to_toml lib c = tl_dumps lib (JObj [(''northstack'', JObj (company_dict c))])"

definition read_config :: "toml_lib \<Rightarrow> (string \<times> json) list \<Rightarrow> edit_config option" where
  "read_config lib kvs = do {
     name \<leftarrow> required kvs ''name'' as_text;
     ps \<leftarrow> field_or kvs ''profiles'' (\<lambda>v. Option.bind (as_list v) (read_all (read_profile lib))) [];
     cs \<leftarrow> field_or kvs ''commands'' (\<lambda>v. Option.bind (as_list v) (read_all (read_command lib))) [];
     run \<leftarrow> field_or kvs ''run'' (read_run lib) run_defaults;
     rs \<leftarrow> field_or kvs ''routing'' (\<lambda>v. Option.bind (as_list v) (read_all read_route)) [];
     let c = \<lparr>ed_name = name, ed_profiles = ps, ed_commands = cs, ed_run = run, ed_routing = rs\<rparr>;
     (if config_valid lib c then Some c else None)
   }"

text \<open>\<^verbatim>\<open>from_toml\<close> on the text of a file: the table is \<open>{}\<close> when it is missing.\<close>

definition from_toml :: "toml_lib \<Rightarrow> string \<Rightarrow> edit_config option" where
  "from_toml lib t =
     (case tl_loads lib t of
        Some (JObj top_level) \<Rightarrow>
          (case obj_get top_level ''northstack'' of
             None \<Rightarrow> read_config lib []
           | Some v \<Rightarrow> Option.bind (as_table v) (read_config lib))
      | _ \<Rightarrow> None)"

end
