(* ===== verification/Config_Store.thy ===== *)
theory Config_Store
  imports Config_Toml
begin

section \<open>The editable configuration of the web interface (interfaces/web/config_store.py)\<close>

text \<open>
  \<^verbatim>\<open>ConfigStore\<close>: the configuration in memory, the sections of the file that the model does not
  know, the flag of unsaved edits, and the text of the file.  Every operation holds the lock for
  its whole length and is one step.  A profile or a command that is an argument has been
  constructed before; the environment is a parameter of the views.
\<close>

record config_store =
  store_config :: edit_config
  store_unknown :: "(string \<times> json) list"
  store_dirty :: bool
  store_file :: "string option"

datatype store_error = Bad_value string | Bad_toml | Invalid_config | File_not_found | Write_failed

definition modeled_keys :: "string set" where
  "modeled_keys = {''name'', ''profiles'', ''commands'', ''run'', ''routing''}"

definition unknown_from_company :: "(string \<times> json) list \<Rightarrow> (string \<times> json) list" where
  "unknown_from_company company = filter (\<lambda>(k, v). k \<notin> modeled_keys) company"

text \<open>The \<^verbatim>\<open>[northstack]\<close> table of a file, \<open>None\<close> when there is no file, no document or no table.\<close>

definition read_existing_company :: "toml_lib \<Rightarrow> string option \<Rightarrow> (string \<times> json) list option" where
  "read_existing_company lib file =
     (case Option.bind file (tl_loads lib) of
        Some (JObj top_level) \<Rightarrow> (case obj_get top_level ''northstack'' of Some (JObj company) \<Rightarrow> Some company | _ \<Rightarrow> None)
      | _ \<Rightarrow> None)"

definition new_store :: "toml_lib \<Rightarrow> edit_config \<Rightarrow> string option \<Rightarrow> config_store" where
  "new_store lib c file = \<lparr>store_config = c,
     store_unknown = unknown_from_company (case read_existing_company lib file of None \<Rightarrow> [] | Some company \<Rightarrow> company),
     store_dirty = False, store_file = file\<rparr>"

subsection \<open>Views\<close>

definition key_status :: "(string \<Rightarrow> string option) \<Rightarrow> text_profile \<Rightarrow> string" where
  "key_status env p =
     (case api_key_env p of
        None \<Rightarrow> ''no key''
      | Some n \<Rightarrow> ''env:'' @ n @ '' ''
          @ (case env n of None \<Rightarrow> ''UNSET'' | Some v \<Rightarrow> if v = [] then ''UNSET'' else ''OK''))"

definition profile_view :: "(string \<Rightarrow> string option) \<Rightarrow> text_profile \<Rightarrow> json" where
  "profile_view env p = JObj
     [(''name'', JStr (mp_name p)), (''protocol'', JStr (protocol_value (protocol p))),
      (''base_url'', JStr (base_url_text p)), (''model'', JStr (model_id p)), (''api_key_env'', opt_text (api_key_env p)),
      (''allow_insecure_http'', JBool (allow_insecure_http p)), (''key_status'', JStr (key_status env p)),
      (''roles'', strs (map role_value (sorted_roles (roles p)))),
      (''capabilities'', strs (map capability_value (sorted_capabilities (capabilities p)))),
      (''max_concurrency'', int_value (max_concurrency p)), (''requests_per_minute'', int_value (requests_per_minute p)),
      (''context_window_tokens'', int_value (context_window_tokens p)), (''max_output_tokens'', int_value (max_output_tokens p)),
      (''request_timeout_seconds'', JFloat (request_timeout_seconds p)),
      (''strict_stream_completion'', JBool (strict_stream_completion p)),
      (''transport_retries'', int_value (transport_retries p)),
      (''transport_retry_backoff_seconds'', JArr (map JFloat (transport_retry_backoff_seconds p))),
      (''input_price_per_million_usd'', JFloat (input_price_per_million_usd p)),
      (''output_price_per_million_usd'', JFloat (output_price_per_million_usd p)), (''auth_header'', opt_text (auth_header p)),
      (''extra_headers'', str_map (extra_headers p)), (''extra_query'', str_map (extra_query p)),
      (''token_limit_param'', JStr (token_limit_param p)), (''tier'', int_value (profile_tier (model_profile.truncate p)))]"

definition command_view :: "command_config \<Rightarrow> json" where
  "command_view c = JObj
     [(''name'', JStr (cc_name c)), (''argv'', strs (argv c)), (''timeout_seconds'', JFloat (timeout_seconds c)),
      (''max_output_bytes'', int_value (cc_max_output_bytes c)), (''env_allowlist'', strs (env_allowlist c)),
      (''isolation'', JStr (isolation_value (isolation c))), (''docker_image'', JStr (docker_image c))]"

definition store_view :: "(string \<Rightarrow> string option) \<Rightarrow> config_store \<Rightarrow> json" where
  "store_view env st =
     (let c = store_config st; r = ed_run c
      in JObj
        [(''name'', JStr (ed_name c)), (''profiles'', JArr (map (profile_view env) (ed_profiles c))),
         (''commands'', JArr (map command_view (ed_commands c))),
         (''run'', JObj [(''default_budget_tokens'', int_value (default_budget_tokens r)),
            (''default_budget_cost_usd'', JFloat (default_budget_cost_usd r)),
            (''stall_window_seconds'', JFloat (stall_window_seconds r)), (''planner_mode'', JStr (planner_mode r)),
            (''falsifier_mode'', JStr (falsifier_mode r)), (''calibration_path'', JStr (calibration_path r))]),
         (''routing'', JArr (map (\<lambda>e. JObj (routing_to_dict e)) (ed_routing c))), (''unsaved'', JBool (store_dirty st))])"

subsection \<open>Edits\<close>

text \<open>\<^verbatim>\<open>_rebuild\<close> validates by construction; \<^verbatim>\<open>_try\<close> replaces the configuration when the builder returns.\<close>

definition rebuild :: "toml_lib \<Rightarrow> edit_config \<Rightarrow> store_error + edit_config" where
  "rebuild lib c = (if config_valid lib c then Inr c else Inl Invalid_config)"

definition try_edit ::
  "(edit_config \<Rightarrow> store_error + edit_config) \<Rightarrow> config_store \<Rightarrow> store_error option \<times> config_store" where
  "try_edit build st =
     (case build (store_config st) of
        Inl e \<Rightarrow> (Some e, st)
      | Inr c \<Rightarrow> (None, st\<lparr>store_config := c, store_dirty := True\<rparr>))"

definition edit_profile :: "edit_config \<Rightarrow> string \<Rightarrow> text_profile option" where
  "edit_profile c n = find (\<lambda>p. mp_name p = n) (ed_profiles c)"

definition update_name :: "toml_lib \<Rightarrow> string \<Rightarrow> config_store \<Rightarrow> store_error option \<times> config_store" where
  "update_name lib n st =
     (if strip n = [] then (Some (Bad_value ''name must be non-empty''), st)
      else try_edit (\<lambda>c. rebuild lib (c\<lparr>ed_name := n\<rparr>)) st)"

definition add_profile :: "toml_lib \<Rightarrow> text_profile \<Rightarrow> config_store \<Rightarrow> store_error option \<times> config_store" where
  "add_profile lib p = try_edit (\<lambda>c.
     if \<not> distinct (map mp_name (ed_profiles c) @ [mp_name p]) then Inl (Bad_value (''profile name already exists: '' @ mp_name p))
     else rebuild lib (c\<lparr>ed_profiles := ed_profiles c @ [p]\<rparr>))"

definition renamed :: "string \<Rightarrow> string \<Rightarrow> route_mapping \<Rightarrow> route_mapping" where
  "renamed n n' e = \<lparr>rm_role = rm_role e, rm_profiles = map (\<lambda>m. if m = n then n' else m) (rm_profiles e)\<rparr>"

definition update_profile ::
  "toml_lib \<Rightarrow> string \<Rightarrow> text_profile \<Rightarrow> config_store \<Rightarrow> store_error option \<times> config_store" where
  "update_profile lib n p = try_edit (\<lambda>c.
     if edit_profile c n = None then Inl (Bad_value (''unknown profile: '' @ n))
     else if mp_name p \<noteq> n \<and> edit_profile c (mp_name p) \<noteq> None
     then Inl (Bad_value (''profile name already exists: '' @ mp_name p))
     else rebuild lib (c\<lparr>ed_profiles := map (\<lambda>q. if mp_name q = n then p else q) (ed_profiles c),
       ed_routing := map (renamed n (mp_name p)) (ed_routing c)\<rparr>))"

definition without_profile :: "string \<Rightarrow> route_mapping list \<Rightarrow> route_mapping list" where
  "without_profile n es = List.map_filter (\<lambda>e.
     let remaining_names = filter (\<lambda>m. m \<noteq> n) (rm_profiles e)
     in if remaining_names = [] then None else Some \<lparr>rm_role = rm_role e, rm_profiles = remaining_names\<rparr>) es"

definition delete_profile ::
  "toml_lib \<Rightarrow> string \<Rightarrow> bool \<Rightarrow> config_store \<Rightarrow> store_error option \<times> config_store" where
  "delete_profile lib n remove_from_routing = try_edit (\<lambda>c.
     if edit_profile c n = None then Inl (Bad_value (''unknown profile: '' @ n))
     else let referenced = map (role_value \<circ> rm_role) (filter (\<lambda>e. n \<in> set (rm_profiles e)) (ed_routing c))
     in if referenced \<noteq> [] \<and> \<not> remove_from_routing
        then Inl (Bad_value (''cannot delete profile '' @ quoted n @ '': still routed to role(s) '' @ list_repr referenced
          @ ''. Remove it from routing first.''))
        else rebuild lib (c\<lparr>ed_profiles := filter (\<lambda>p. mp_name p \<noteq> n) (ed_profiles c),
          ed_routing := without_profile n (ed_routing c)\<rparr>))"

text \<open>The fields the clone is built from; the others get their defaults.\<close>

definition cloned :: "text_profile \<Rightarrow> string \<Rightarrow> text_profile" where
  "cloned p n = p\<lparr>mp_name := n, request_timeout_seconds := request_timeout_seconds profile_defaults,
     strict_stream_completion := strict_stream_completion profile_defaults,
     transport_retries := transport_retries profile_defaults,
     transport_retry_backoff_seconds := transport_retry_backoff_seconds profile_defaults\<rparr>"

definition duplicate_profile ::
  "toml_lib \<Rightarrow> string \<Rightarrow> string \<Rightarrow> config_store \<Rightarrow> store_error option \<times> config_store" where
  "duplicate_profile lib n n' = try_edit (\<lambda>c.
     case edit_profile c n of
       None \<Rightarrow> Inl (Bad_value (''unknown profile: '' @ n))
     | Some p \<Rightarrow>
         if edit_profile c n' \<noteq> None then Inl (Bad_value (''profile name already exists: '' @ n'))
         else if \<not> profile_valid lib (cloned p n') then Inl Invalid_config
         else rebuild lib (c\<lparr>ed_profiles := ed_profiles c @ [cloned p n']\<rparr>))"

definition add_command :: "toml_lib \<Rightarrow> command_config \<Rightarrow> config_store \<Rightarrow> store_error option \<times> config_store" where
  "add_command lib cmd = try_edit (\<lambda>c.
     if \<not> distinct (map cc_name (ed_commands c) @ [cc_name cmd]) then Inl (Bad_value (''command name already exists: '' @ cc_name cmd))
     else rebuild lib (c\<lparr>ed_commands := ed_commands c @ [cmd]\<rparr>))"

definition has_command :: "edit_config \<Rightarrow> string \<Rightarrow> bool" where
  "has_command c n \<longleftrightarrow> list_ex (\<lambda>cmd. cc_name cmd = n) (ed_commands c)"

definition update_command ::
  "toml_lib \<Rightarrow> string \<Rightarrow> command_config \<Rightarrow> config_store \<Rightarrow> store_error option \<times> config_store" where
  "update_command lib n cmd = try_edit (\<lambda>c.
     if \<not> has_command c n then Inl (Bad_value (''unknown command: '' @ n))
     else if cc_name cmd \<noteq> n \<and> has_command c (cc_name cmd)
     then Inl (Bad_value (''command name already exists: '' @ cc_name cmd))
     else rebuild lib (c\<lparr>ed_commands := map (\<lambda>d. if cc_name d = n then cmd else d) (ed_commands c)\<rparr>))"

definition delete_command :: "toml_lib \<Rightarrow> string \<Rightarrow> config_store \<Rightarrow> store_error option \<times> config_store" where
  "delete_command lib n = try_edit (\<lambda>c.
     if \<not> has_command c n then Inl (Bad_value (''unknown command: '' @ n))
     else rebuild lib (c\<lparr>ed_commands := filter (\<lambda>d. cc_name d \<noteq> n) (ed_commands c)\<rparr>))"

definition update_run :: "toml_lib \<Rightarrow> run_config \<Rightarrow> config_store \<Rightarrow> store_error option \<times> config_store" where
  "update_run lib r = try_edit (\<lambda>c. rebuild lib (c\<lparr>ed_run := r\<rparr>))"

definition update_routing :: "toml_lib \<Rightarrow> route_mapping list \<Rightarrow> config_store \<Rightarrow> store_error option \<times> config_store" where
  "update_routing lib es = try_edit (\<lambda>c. rebuild lib (c\<lparr>ed_routing := es\<rparr>))"

definition validate_store :: "toml_lib \<Rightarrow> config_store \<Rightarrow> store_error option \<times> config_store" where
  "validate_store lib st = (if config_valid lib (store_config st) then None else Some Invalid_config, st)"

definition reset_store :: "config_store \<Rightarrow> store_error option \<times> config_store" where
  "reset_store st = (None, st\<lparr>store_config := \<lparr>ed_name = ed_name (store_config st), ed_profiles = [], ed_commands = [],
     ed_run = run_defaults, ed_routing = []\<rparr>, store_dirty := True\<rparr>)"

subsection \<open>Documents\<close>

text \<open>\<^verbatim>\<open>if key not in company: company[key] = val\<close>.\<close>

definition splice :: "(string \<times> json) list \<Rightarrow> (string \<times> json) list \<Rightarrow> (string \<times> json) list" where
  "splice company unknown = fold (\<lambda>(k, v) acc. if k \<in> fst ` set acc then acc else acc @ [(k, v)]) unknown company"

text \<open>\<open>None\<close> stands for the exceptions of a document that is not what was written.\<close>

definition merge_document :: "toml_lib \<Rightarrow> edit_config \<Rightarrow> (string \<times> json) list \<Rightarrow> string option" where
  "merge_document lib c unknown =
     (case tl_loads lib (config_to_toml lib c) of
        Some (JObj top_level) \<Rightarrow>
          (case obj_get top_level ''northstack'' of
             Some (JObj company) \<Rightarrow> Some (tl_dumps lib (JObj (dict_set top_level ''northstack'' (JObj (splice company unknown)))))
           | _ \<Rightarrow> None)
      | _ \<Rightarrow> None)"

definition toml_document :: "toml_lib \<Rightarrow> config_store \<Rightarrow> string option" where
  "toml_document lib st = merge_document lib (store_config st) (store_unknown st)"

text \<open>The flag says whether the atomic write succeeds.\<close>

definition save_to_toml :: "toml_lib \<Rightarrow> bool \<Rightarrow> config_store \<Rightarrow> store_error option \<times> config_store" where
  "save_to_toml lib writes st =
     (case merge_document lib (store_config st) (store_unknown st) of
        None \<Rightarrow> (Some Bad_toml, st)
      | Some t \<Rightarrow> if writes then (None, st\<lparr>store_file := Some t, store_dirty := False\<rparr>) else (Some Write_failed, st))"

definition parse_raw :: "toml_lib \<Rightarrow> (string \<times> json) list \<Rightarrow> store_error + edit_config \<times> (string \<times> json) list" where
  "parse_raw lib raw =
     (case obj_get raw ''northstack'' of
        Some (JObj company) \<Rightarrow>
          (case read_config lib (filter (\<lambda>(k, v). k \<in> modeled_keys) company) of
             None \<Rightarrow> Inl Invalid_config
           | Some c \<Rightarrow> Inr (c, unknown_from_company company))
      | _ \<Rightarrow> Inl (Bad_value ''TOML must contain a [northstack] table''))"

definition load_document :: "toml_lib \<Rightarrow> bool \<Rightarrow> string \<Rightarrow> config_store \<Rightarrow> store_error option \<times> config_store" where
  "load_document lib dirty t st =
     (case tl_loads lib t of
        Some (JObj raw) \<Rightarrow>
          (case parse_raw lib raw of
             Inl e \<Rightarrow> (Some e, st)
           | Inr (c, unknown) \<Rightarrow> (None, st\<lparr>store_config := c, store_unknown := unknown, store_dirty := dirty\<rparr>))
      | _ \<Rightarrow> (Some Bad_toml, st))"

definition apply_toml :: "toml_lib \<Rightarrow> string \<Rightarrow> config_store \<Rightarrow> store_error option \<times> config_store" where
  "apply_toml lib t st = load_document lib True t st"

definition reload_store :: "toml_lib \<Rightarrow> config_store \<Rightarrow> store_error option \<times> config_store" where
  "reload_store lib st =
     (case store_file st of None \<Rightarrow> (Some File_not_found, st) | Some t \<Rightarrow> load_document lib False t st)"

end
