(* ===== verification/Config_Toml_Properties.thy ===== *)
theory Config_Toml_Properties
  imports Config_Toml
begin

section \<open>Written and read back\<close>

text \<open>
  What a reader of the written document gets: the configuration, as Python's equality of models
  compares it, with the one setting that is not written at its default.
\<close>

subsection \<open>Values that are equal as Python dicts and lists\<close>

definition same_table_by :: "(json \<Rightarrow> json \<Rightarrow> bool) \<Rightarrow> (string \<times> json) list \<Rightarrow> (string \<times> json) list \<Rightarrow> bool" where
  "same_table_by R kvs kws \<longleftrightarrow> (\<forall>k. rel_option R (map_of kvs k) (map_of kws k))"

lemma same_table_by_mono [mono]:
  "R \<le> S \<Longrightarrow> same_table_by R kvs kws \<longrightarrow> same_table_by S kvs kws"
  using option.rel_mono [of R S] by (auto simp: same_table_by_def le_fun_def)

inductive same_value :: "json \<Rightarrow> json \<Rightarrow> bool" where
  same_refl: "same_value v v"
| same_arr: "list_all2 same_value vs ws \<Longrightarrow> same_value (JArr vs) (JArr ws)"
| same_obj: "same_table_by same_value kvs kws \<Longrightarrow> same_value (JObj kvs) (JObj kws)"

abbreviation same_table :: "(string \<times> json) list \<Rightarrow> (string \<times> json) list \<Rightarrow> bool" where
  "same_table \<equiv> same_table_by same_value"

text \<open>A value of a document: no null, and every key once.\<close>

fun is_toml :: "json \<Rightarrow> bool" where
  "is_toml JNull = False"
| "is_toml (JBool b) = True"
| "is_toml (JInt i) = True"
| "is_toml (JFloat r) = True"
| "is_toml (JStr s) = True"
| "is_toml (JArr vs) = list_all is_toml vs"
| "is_toml (JObj kvs) = (distinct (map fst kvs) \<and> list_all (\<lambda>kv. is_toml (snd kv)) kvs)"

text \<open>\<^verbatim>\<open>tomllib.loads(tomli_w.dumps(d)) == d\<close>, and what \<^verbatim>\<open>loads\<close> returns is a document.\<close>

definition toml_lib_ok :: "toml_lib \<Rightarrow> bool" where
  "toml_lib_ok lib \<longleftrightarrow>
     (\<forall>kvs. is_toml (JObj kvs) \<longrightarrow> (\<exists>kws. tl_loads lib (tl_dumps lib (JObj kvs)) = Some (JObj kws) \<and> same_table kvs kws))
     \<and> (\<forall>t w. tl_loads lib t = Some w \<longrightarrow> is_toml w)"

fun plain_value :: "json \<Rightarrow> bool" where
  "plain_value (JArr vs) = list_all plain_value vs"
| "plain_value (JObj kvs) = False"
| "plain_value v = True"

lemma same_plain: "same_value v w \<Longrightarrow> plain_value v \<Longrightarrow> w = v"
proof (induction rule: same_value.induct)
  case (same_arr vs ws)
  then have "list_all2 (\<lambda>a b. b = a) vs ws" by (auto simp: list_all2_conv_all_nth list_all_length)
  then show ?case by (simp add: list_all2_eq list.rel_conversep [of "(=)", symmetric])
    (simp add: list_all2_conv_all_nth nth_equalityI)
qed auto

lemma same_table_refl: "same_table kvs kvs"
  by (auto simp: same_table_by_def intro: option.rel_refl same_refl)

lemma same_obj_cases:
  assumes "same_value (JObj kvs) w"
  obtains kws where "w = JObj kws" "same_table kvs kws"
  using assms by (cases rule: same_value.cases) (auto intro: that same_table_refl)

lemma same_arr_cases:
  assumes "same_value (JArr vs) w"
  obtains ws where "w = JArr ws" "list_all2 same_value vs ws"
  using assms by (cases rule: same_value.cases) (auto intro: that list.rel_refl same_refl)

lemma same_table_None: "same_table kvs kws \<Longrightarrow> map_of kvs k = None \<Longrightarrow> map_of kws k = None"
  by (auto simp: same_table_by_def dest: spec [of _ k])

lemma same_table_Some:
  assumes "same_table kvs kws" "map_of kvs k = Some v"
  obtains w where "map_of kws k = Some w" "same_value v w"
proof -
  have "rel_option same_value (map_of kvs k) (map_of kws k)" using assms(1) by (simp add: same_table_by_def)
  with assms(2) that show ?thesis by (cases "map_of kws k") auto
qed

lemma table_values: "is_toml (JObj kws) \<Longrightarrow> map_of kws k = Some w \<Longrightarrow> is_toml w"
  by (auto simp: list_all_iff dest!: map_of_SomeD)

subsection \<open>Fields\<close>

lemma map_of_emitted [simp]:
  "map_of (emitted k enc d v @ rest) k' = (if k = k' \<and> v \<noteq> d then Some (enc v) else map_of rest k')"
  "map_of (emitted k enc d v) k' = (if k = k' \<and> v \<noteq> d then Some (enc v) else None)"
  by (simp_all add: emitted_def)

lemma keys_emitted [simp]:
  "k' \<in> fst ` set (emitted k enc d v) \<longleftrightarrow> k' = k \<and> v \<noteq> d" "distinct (map fst (emitted k enc d v))"
  "fst ` set (emitted k enc d v) \<inter> A = {} \<longleftrightarrow> k \<notin> A \<or> v = d"
  by (auto simp: emitted_def)

lemma values_emitted [simp]:
  "list_all (\<lambda>kv. is_toml (snd kv)) (emitted k enc d v) \<longleftrightarrow> v = d \<or> is_toml (enc v)"
  by (simp add: emitted_def)

lemma required_back:
  assumes "same_table kvs kws" "map_of kvs k = Some v" "plain_value v" "rd v = Some x"
  shows "required kws k rd = Some x"
proof -
  from same_table_Some [OF assms(1,2)] obtain w where "map_of kws k = Some w" "same_value v w" .
  with same_plain [OF _ assms(3), of w] assms(4) show ?thesis by (simp add: required_def obj_get_def)
qed

lemma field_back:
  assumes "same_table kvs kws" "map_of kvs k = (if v \<noteq> d then Some (enc v) else None)" "plain_value (enc v)" "rd (enc v) = Some v"
  shows "field_or kws k rd d = Some v"
proof (cases "v = d")
  case True
  with assms(2) same_table_None [OF assms(1)] show ?thesis by (simp add: field_or_def obj_get_def)
next
  case False
  with assms(2) have "map_of kvs k = Some (enc v)" by simp
  from same_table_Some [OF assms(1) this] obtain w where "map_of kws k = Some w" "same_value (enc v) w" .
  with same_plain [OF _ assms(3), of w] assms(4) show ?thesis by (simp add: field_or_def obj_get_def)
qed

lemma read_all_back: "(\<And>x. x \<in> set xs \<Longrightarrow> rd (enc x) = Some x) \<Longrightarrow> read_all rd (map enc xs) = Some xs"
  unfolding read_all_def by (induction xs) auto

lemma readers_back [simp]:
  "as_text (JStr s) = Some s" "as_float lib (JFloat r) = Some r" "as_bool lib (JBool b) = Some b"
  "as_nat lib (int_value n) = Some n" "as_list (JArr vs) = Some vs" "as_table (JObj kvs) = Some kvs"
  "as_choice pr (JStr s) = pr s" "as_strs (strs ss) = Some ss"
  by (simp_all add: as_text_def as_float_def as_bool_def as_nat_def as_int_def int_value_def as_list_def as_table_def
      as_choice_def as_strs_def strs_def read_all_back)

lemma plain_enc [simp]: "plain_value (int_value n)" "plain_value (strs ss)" "plain_value (opt_text x)"
  "list_all plain_value (map JFloat rs)"
  by (simp_all add: int_value_def strs_def opt_text_def list_all_iff split: option.split)

lemma toml_enc [simp]: "is_toml (int_value n)" "is_toml (strs ss)" "is_toml (opt_text x) \<longleftrightarrow> x \<noteq> None"
  "list_all is_toml (map JFloat rs)" "is_toml (str_map hs) \<longleftrightarrow> distinct (map fst hs)"
  by (auto simp: int_value_def strs_def opt_text_def str_map_def list_all_iff o_def case_prod_beta split: option.split)

text \<open>A table of texts comes back as the same map.\<close>

lemma str_map_back:
  assumes "same_value (str_map hs) w" "is_toml w"
  obtains gs where "as_str_map w = Some gs" "map_of gs = map_of hs" "distinct (map fst gs)"
proof -
  from assms(1) obtain kws where w: "w = JObj kws" and same: "same_table (map (\<lambda>(k, v). (k, JStr v)) hs) kws"
    unfolding str_map_def by (rule same_obj_cases)
  have "map_of (map (\<lambda>(k, v). (k, JStr v)) hs) k = map_option JStr (map_of hs k)" for k
    by (simp add: map_of_map [unfolded o_def] flip: map_of_map)
  then have rel: "rel_option same_value (map_option JStr (map_of hs k)) (map_of kws k)" for k
    using same by (simp add: same_table_by_def)
  have kws: "map_of kws k = map_option JStr (map_of hs k)" for k
    using rel [of k] same_plain [of "JStr _"] by (cases "map_of hs k"; cases "map_of kws k") auto
  let ?gs = "map (\<lambda>(k, v). (k, case v of JStr s \<Rightarrow> s)) kws"
  have texts: "\<exists>s. v = JStr s" if "(k, v) \<in> set kws" for k v
  proof -
    have "map_of kws k = Some v" using assms(2) that by (simp add: w)
    with kws [of k] show ?thesis by (cases "map_of hs k") auto
  qed
  then have "those (map (\<lambda>(k, x). map_option (Pair k) (as_text x)) kws) = Some ?gs"
  proof (induction kws)
    case (Cons kv kws)
    then obtain k s where "kv = (k, JStr s)" by (cases kv) auto
    with Cons show ?case by auto
  qed simp
  then have "as_str_map w = Some ?gs" by (simp add: as_str_map_def w)
  moreover have "map_of ?gs = map_of hs"
  proof
    fix k
    have "map_of ?gs k = map_option (\<lambda>v. case v of JStr s \<Rightarrow> s) (map_of kws k)"
      by (induction kws) auto
    then show "map_of ?gs k = map_of hs k" by (simp add: kws option.map_comp o_def option.map_ident)
  qed
  moreover have "distinct (map fst ?gs)" using assms(2) by (simp add: w o_def case_prod_beta)
  ultimately show ?thesis by (rule that)
qed

lemma str_map_field_back:
  assumes "same_table kvs kws" "is_toml (JObj kws)" "map_of kvs k = (if v \<noteq> [] then Some (str_map v) else None)"
  obtains gs where "field_or kws k as_str_map [] = Some gs" "map_of gs = map_of v" "distinct (map fst gs)"
proof (cases "v = []")
  case True
  with assms(3) same_table_None [OF assms(1)] that [of "[]"] show ?thesis by (simp add: field_or_def obj_get_def)
next
  case False
  with assms(3) have "map_of kvs k = Some (str_map v)" by simp
  from same_table_Some [OF assms(1) this] obtain w where w: "map_of kws k = Some w" "same_value (str_map v) w" .
  from str_map_back [OF w(2) table_values [OF assms(2) w(1)]] obtain gs where
    "as_str_map w = Some gs" "map_of gs = map_of v" "distinct (map fst gs)" .
  with w(1) that show ?thesis by (simp add: field_or_def obj_get_def)
qed

subsection \<open>Profiles\<close>

lemma parse_back [simp]:
  "parse_role (role_value r) = Some r" "parse_protocol (protocol_value pr) = Some pr"
  "parse_capability (capability_value c) = Some c" "parse_isolation (isolation_value i) = Some i"
proof -
  show "parse_role (role_value r) = Some r" by (cases r) (simp_all add: parse_role_def)
  show "parse_protocol (protocol_value pr) = Some pr" by (cases pr) (simp_all add: parse_protocol_def)
  show "parse_capability (capability_value c) = Some c" by (cases c) (simp_all add: parse_capability_def)
  show "parse_isolation (isolation_value i) = Some i" by (cases i) (simp_all add: parse_isolation_def)
qed

lemma sorted_sets [simp]: "set (sorted_roles rs) = rs" "set (sorted_capabilities cs) = cs"
proof -
  have "r \<in> set [ORCHESTRATOR, PLANNER, REVIEWER, SPECIALIST, WORKER]" for r by (cases r) simp_all
  then show "set (sorted_roles rs) = rs" unfolding sorted_roles_def set_filter by blast
  have "c \<in> set [NATIVE_JSON_SCHEMA, PROMPT_CACHING, STREAMING, TOOL_USE, VISION]" for c by (cases c) simp_all
  then show "set (sorted_capabilities cs) = cs" unfolding sorted_capabilities_def set_filter by blast
qed

lemma sets_back [simp]:
  "read_all (as_choice parse_role) (map JStr (map role_value rs)) = Some rs"
  "read_all (as_choice parse_capability) (map JStr (map capability_value cs)) = Some cs"
  "read_all (as_float lib) (map JFloat xs) = Some xs"
  using read_all_back [of rs "as_choice parse_role" "\<lambda>r. JStr (role_value r)"]
    read_all_back [of cs "as_choice parse_capability" "\<lambda>c. JStr (capability_value c)"]
    read_all_back [of xs "as_float lib" JFloat] by (simp_all add: o_def)

text \<open>A profile as the program builds it.\<close>

definition profile_built :: "toml_lib \<Rightarrow> text_profile \<Rightarrow> bool" where
  "profile_built lib p \<longleftrightarrow> profile_valid lib p \<and> tl_urlparse lib (base_url_text p) = Some (base_url p)
     \<and> distinct (map fst (extra_headers p)) \<and> distinct (map fst (extra_query p))"

definition same_profile :: "text_profile \<Rightarrow> text_profile \<Rightarrow> bool" where
  "same_profile p q \<longleftrightarrow> p\<lparr>extra_headers := [], extra_query := []\<rparr> = q\<lparr>extra_headers := [], extra_query := []\<rparr>
     \<and> map_of (extra_headers p) = map_of (extra_headers q) \<and> map_of (extra_query p) = map_of (extra_query q)"

lemma same_map_set:
  "map_of xs = map_of ys \<Longrightarrow> distinct (map fst xs) \<Longrightarrow> distinct (map fst ys) \<Longrightarrow> set xs = set ys"
  by (metis map_of_inject_set)

lemma distinct_folded:
  "set xs = set ys \<Longrightarrow> distinct (map fst xs) \<Longrightarrow> distinct (map fst ys) \<Longrightarrow>
     distinct (map (casefold \<circ> fst) xs) = distinct (map (casefold \<circ> fst) ys)"
  by (auto simp: distinct_map)

lemma headers_same:
  assumes "set xs = set ys" "distinct (map fst xs)" "distinct (map fst ys)" "reject_credential_headers xs = None"
  shows "reject_credential_headers ys = None"
proof -
  have f: "filter P (map fst xs) = [] \<longleftrightarrow> filter P (map fst ys) = []" for P using assms(1) by (auto simp: filter_empty_conv)
  have "list_ex P xs = list_ex P ys" for P using assms(1) by (simp add: list_ex_iff)
  with f assms(4) distinct_folded [OF assms(1-3)] show ?thesis
    by (simp add: reject_credential_headers_def Let_def split: if_splits)
qed

lemma query_same:
  assumes "set xs = set ys" "reject_credential_query xs = None"
  shows "reject_credential_query ys = None"
proof -
  have "filter P (map fst xs) = [] \<longleftrightarrow> filter P (map fst ys) = []" for P using assms(1) by (auto simp: filter_empty_conv)
  with assms(2) show ?thesis by (simp add: reject_credential_query_def Let_def split: if_splits)
qed

text \<open>Equal profiles agree in every field but the order of the two tables.\<close>

lemma same_profile_fields:
  assumes "same_profile p q"
  shows "q = p\<lparr>extra_headers := extra_headers q, extra_query := extra_query q\<rparr>"
  using assms by (cases p; cases q) (simp add: same_profile_def)

lemma tables_irrelevant:
  fixes m :: model_profile
  shows "profile_fields (m\<lparr>extra_headers := hs, extra_query := qs\<rparr>) = profile_fields m"
    "set (extra_headers m) = set hs \<Longrightarrow>
       validate_base_url_policy ip (m\<lparr>extra_headers := hs, extra_query := qs\<rparr>) = validate_base_url_policy ip m"
  by (simp_all add: profile_fields_def validate_base_url_policy_def cong: option.case_cong)

lemma validate_profile_tables:
  fixes m :: model_profile
  assumes "validate_profile ip m = None" "reject_credential_headers hs = None" "reject_credential_query qs = None"
    "set (extra_headers m) = set hs"
  shows "validate_profile ip (m\<lparr>extra_headers := hs, extra_query := qs\<rparr>) = None"
  using assms(1-3) tables_irrelevant(2) [OF assms(4)] by (simp add: validate_profile_def tables_irrelevant(1))

lemma same_profile_built:
  assumes "same_profile p q" "profile_built lib p" "distinct (map fst (extra_headers q))" "distinct (map fst (extra_query q))"
  shows "profile_built lib q"
proof -
  obtain hs qs where q: "q = p\<lparr>extra_headers := hs, extra_query := qs\<rparr>" using same_profile_fields [OF assms(1)] by blast
  have sets: "set (extra_headers p) = set hs" "set (extra_query p) = set qs"
    using assms same_map_set [of "extra_headers p" hs] same_map_set [of "extra_query p" qs]
    by (auto simp: q same_profile_def profile_built_def)
  have d: "distinct (map fst (extra_headers p))" "distinct (map fst hs)" using assms by (simp_all add: q profile_built_def)
  let ?m = "model_profile.truncate p"
  have v: "validate_profile (tl_ip lib) ?m = None" using assms(2) by (simp add: profile_built_def profile_valid_def)
  have m: "extra_headers ?m = extra_headers p" "extra_query ?m = extra_query p" by (simp_all add: model_profile.truncate_def)
  have hdr: "reject_credential_headers (extra_headers p) = None" "reject_credential_query (extra_query p) = None"
    using v by (simp_all add: validate_profile_def m)
  have "validate_profile (tl_ip lib) (?m\<lparr>extra_headers := hs, extra_query := qs\<rparr>) = None"
    using validate_profile_tables [OF v headers_same [OF sets(1) d hdr(1)] query_same [OF sets(2) hdr(2)]] sets(1)
    by (simp only: m)
  then have "validate_profile (tl_ip lib) (model_profile.truncate q) = None" by (simp add: q model_profile.truncate_def)
  then show ?thesis using assms(2-4) by (simp add: q profile_built_def profile_valid_def)
qed

text \<open>The table of a profile, key by key.\<close>

lemma no_extras: "extra_headers profile_defaults = []" "extra_query profile_defaults = []" "auth_header profile_defaults = None"
  by (simp_all add: profile_defaults_def)

lemma map_of_first: "map_of ((k, v) # xs) k' = (if k = k' then Some v else map_of xs k')"
  by auto

lemmas lookup_rules = map_of_first map_of_emitted simp_thms if_True if_False list.distinct

lemma profile_lookup:
  "map_of (profile_to_dict p) ''name'' = Some (JStr (mp_name p))"
  "map_of (profile_to_dict p) ''protocol'' = Some (JStr (protocol_value (protocol p)))"
  "map_of (profile_to_dict p) ''base_url'' = Some (JStr (base_url_text p))"
  "map_of (profile_to_dict p) ''model'' = Some (JStr (model_id p))"
  "map_of (profile_to_dict p) ''max_concurrency'' = Some (int_value (max_concurrency p))"
  "map_of (profile_to_dict p) ''api_key_env'' = (if api_key_env p \<noteq> None then Some (opt_text (api_key_env p)) else None)"
  "map_of (profile_to_dict p) ''allow_insecure_http'' = (if allow_insecure_http p \<noteq> False then Some (JBool (allow_insecure_http p)) else None)"
  "map_of (profile_to_dict p) ''roles'' = Some (strs (map role_value (sorted_roles (roles p))))"
  "map_of (profile_to_dict p) ''capabilities'' = Some (strs (map capability_value (sorted_capabilities (capabilities p))))"
  unfolding profile_to_dict_def by (simp_all only: lookup_rules list.inject char.inject)

lemma profile_default_lookup:
  "map_of (profile_to_dict p) ''requests_per_minute'' = (if requests_per_minute p \<noteq> requests_per_minute profile_defaults
     then Some (int_value (requests_per_minute p)) else None)"
  "map_of (profile_to_dict p) ''context_window_tokens'' = (if context_window_tokens p \<noteq> context_window_tokens profile_defaults
     then Some (int_value (context_window_tokens p)) else None)"
  "map_of (profile_to_dict p) ''max_output_tokens'' = (if max_output_tokens p \<noteq> max_output_tokens profile_defaults
     then Some (int_value (max_output_tokens p)) else None)"
  "map_of (profile_to_dict p) ''request_timeout_seconds'' = (if request_timeout_seconds p \<noteq> request_timeout_seconds profile_defaults
     then Some (JFloat (request_timeout_seconds p)) else None)"
  "map_of (profile_to_dict p) ''strict_stream_completion'' = (if strict_stream_completion p \<noteq> strict_stream_completion profile_defaults
     then Some (JBool (strict_stream_completion p)) else None)"
  "map_of (profile_to_dict p) ''transport_retries'' = (if transport_retries p \<noteq> transport_retries profile_defaults
     then Some (int_value (transport_retries p)) else None)"
  "map_of (profile_to_dict p) ''transport_retry_backoff_seconds'' = (if transport_retry_backoff_seconds p \<noteq>
     transport_retry_backoff_seconds profile_defaults then Some (JArr (map JFloat (transport_retry_backoff_seconds p))) else None)"
  "map_of (profile_to_dict p) ''input_price_per_million_usd'' = (if input_price_per_million_usd p \<noteq>
     input_price_per_million_usd profile_defaults then Some (JFloat (input_price_per_million_usd p)) else None)"
  "map_of (profile_to_dict p) ''output_price_per_million_usd'' = (if output_price_per_million_usd p \<noteq>
     output_price_per_million_usd profile_defaults then Some (JFloat (output_price_per_million_usd p)) else None)"
  "map_of (profile_to_dict p) ''auth_header'' = (if auth_header p \<noteq> auth_header profile_defaults
     then Some (opt_text (auth_header p)) else None)"
  "map_of (profile_to_dict p) ''extra_headers'' = (if extra_headers p \<noteq> [] then Some (str_map (extra_headers p)) else None)"
  "map_of (profile_to_dict p) ''extra_query'' = (if extra_query p \<noteq> [] then Some (str_map (extra_query p)) else None)"
  "map_of (profile_to_dict p) ''token_limit_param'' = (if token_limit_param p \<noteq> token_limit_param profile_defaults
     then Some (JStr (token_limit_param p)) else None)"
  unfolding profile_to_dict_def by (simp_all only: lookup_rules no_extras(1,2) list.inject char.inject)

lemma key_back:
  "api_key_env p \<noteq> None \<Longrightarrow> read_key_env (opt_text (api_key_env p)) = Some (api_key_env p)"
  "auth_header p \<noteq> None \<Longrightarrow> read_opt_str (opt_text (auth_header p)) = Some (auth_header p)"
  by (auto simp: read_key_env_def read_opt_str_def opt_text_def)

lemma opt_field_back:
  assumes "same_table kvs kws" "map_of kvs k = (if v \<noteq> None then Some (opt_text v) else None)"
    "\<And>s. v = Some s \<Longrightarrow> rd (JStr s) = Some v"
  shows "field_or kws k rd None = Some v"
proof (cases v)
  case None
  with assms(2) same_table_None [OF assms(1)] show ?thesis by (simp add: field_or_def obj_get_def)
next
  case (Some s)
  with assms(2) have "map_of kvs k = Some (JStr s)" by (simp add: opt_text_def)
  from same_table_Some [OF assms(1) this] obtain w where "map_of kws k = Some w" "same_value (JStr s) w" .
  with same_plain [of "JStr s" w] assms(3) [OF Some] Some show ?thesis by (simp add: field_or_def obj_get_def)
qed

lemma field_set_back:
  assumes "same_table kvs kws" "map_of kvs k = Some v" "plain_value v" "rd v = Some x"
  shows "field_or kws k rd d = Some x"
proof -
  from same_table_Some [OF assms(1,2)] obtain w where "map_of kws k = Some w" "same_value v w" .
  with same_plain [OF _ assms(3), of w] assms(4) show ?thesis by (simp add: field_or_def obj_get_def)
qed

lemma enum_sets_back:
  "map_option set (Option.bind (as_list (strs (map role_value xs))) (read_all (as_choice parse_role))) = Some (set xs)"
  "map_option set (Option.bind (as_list (strs (map capability_value cs))) (read_all (as_choice parse_capability))) = Some (set cs)"
  by (simp_all only: strs_def readers_back Option.bind.bind_lunit sets_back option.map)

lemma rebuilt_profile:
  fixes p :: text_profile
  shows "p\<lparr>extra_headers := hs, extra_query := qs\<rparr> = \<lparr>mp_name = mp_name p, protocol = protocol p, base_url = base_url p, model_id = model_id p, api_key_env =
       api_key_env p, allow_insecure_http = allow_insecure_http p, roles = roles p, capabilities = capabilities p,
       max_concurrency = max_concurrency p, requests_per_minute = requests_per_minute p, context_window_tokens =
       context_window_tokens p, max_output_tokens = max_output_tokens p, request_timeout_seconds =
       request_timeout_seconds p, strict_stream_completion = strict_stream_completion p, transport_retries =
       transport_retries p, transport_retry_backoff_seconds = transport_retry_backoff_seconds p,
       input_price_per_million_usd = input_price_per_million_usd p, output_price_per_million_usd =
       output_price_per_million_usd p, auth_header = auth_header p, extra_headers = hs, extra_query = qs,
       token_limit_param = token_limit_param p, base_url_text = base_url_text p\<rparr>"
  by (cases p) simp

lemma read_profile_back:
  assumes "profile_built lib p" "same_table (profile_to_dict p) kws" "is_toml (JObj kws)"
  obtains q where "read_profile lib (JObj kws) = Some q" "same_profile p q" "profile_built lib q"
proof -
  note t = assms(2)
  note L = profile_lookup [of p] and D = profile_default_lookup [of p]
  obtain hs where hs: "field_or kws ''extra_headers'' as_str_map [] = Some hs"
    "map_of hs = map_of (extra_headers p)" "distinct (map fst hs)"
    using str_map_field_back [OF t assms(3) D(11)] by blast
  obtain qs where qs: "field_or kws ''extra_query'' as_str_map [] = Some qs"
    "map_of qs = map_of (extra_query p)" "distinct (map fst qs)"
    using str_map_field_back [OF t assms(3) D(12)] by blast
  let ?q = "p\<lparr>extra_headers := hs, extra_query := qs\<rparr>"
  have same: "same_profile p ?q" by (simp add: same_profile_def hs(2) qs(2))
  have built: "profile_built lib ?q" by (rule same_profile_built [OF same assms(1)]) (simp_all add: hs(3) qs(3))
  have reads:
    "required kws ''name'' as_text = Some (mp_name p)"
    "required kws ''protocol'' (as_choice parse_protocol) = Some (protocol p)"
    "required kws ''base_url'' as_text = Some (base_url_text p)"
    "required kws ''model'' as_text = Some (model_id p)"
    "required kws ''max_concurrency'' (as_nat lib) = Some (max_concurrency p)"
    by (rule required_back [OF t L(1)] required_back [OF t L(2)] required_back [OF t L(3)] required_back [OF t L(4)] required_back [OF t L(5)]; simp)+
  have fields:
    "field_or kws ''allow_insecure_http'' (as_bool lib) (False) = Some (allow_insecure_http p)"
    "field_or kws ''requests_per_minute'' (as_nat lib) (requests_per_minute profile_defaults) = Some (requests_per_minute p)"
    "field_or kws ''context_window_tokens'' (as_nat lib) (context_window_tokens profile_defaults) = Some (context_window_tokens p)"
    "field_or kws ''max_output_tokens'' (as_nat lib) (max_output_tokens profile_defaults) = Some (max_output_tokens p)"
    "field_or kws ''request_timeout_seconds'' (as_float lib) (request_timeout_seconds profile_defaults) = Some (request_timeout_seconds p)"
    "field_or kws ''strict_stream_completion'' (as_bool lib) (strict_stream_completion profile_defaults) = Some (strict_stream_completion p)"
    "field_or kws ''transport_retries'' (as_nat lib) (transport_retries profile_defaults) = Some (transport_retries p)"
    "field_or kws ''transport_retry_backoff_seconds'' (\<lambda>v. Option.bind (as_list v) (read_all (as_float lib))) (transport_retry_backoff_seconds profile_defaults) = Some (transport_retry_backoff_seconds p)"
    "field_or kws ''input_price_per_million_usd'' (as_float lib) (input_price_per_million_usd profile_defaults) = Some (input_price_per_million_usd p)"
    "field_or kws ''output_price_per_million_usd'' (as_float lib) (output_price_per_million_usd profile_defaults) = Some (output_price_per_million_usd p)"
    "field_or kws ''token_limit_param'' (as_choice Some) (token_limit_param profile_defaults) = Some (token_limit_param p)"
    apply (rule field_back [where enc = "JBool", OF t L(7)]; simp)
    apply (rule field_back [where enc = "int_value", OF t D(1)]; simp)
    apply (rule field_back [where enc = "int_value", OF t D(2)]; simp)
    apply (rule field_back [where enc = "int_value", OF t D(3)]; simp)
    apply (rule field_back [where enc = "JFloat", OF t D(4)]; simp)
    apply (rule field_back [where enc = "JBool", OF t D(5)]; simp)
    apply (rule field_back [where enc = "int_value", OF t D(6)]; simp)
    apply (rule field_back [where enc = "\<lambda>bs. JArr (map JFloat bs)", OF t D(7)]; simp)
    apply (rule field_back [where enc = "JFloat", OF t D(8)]; simp)
    apply (rule field_back [where enc = "JFloat", OF t D(9)]; simp)
    apply (rule field_back [where enc = "JStr", OF t D(13)]; simp)
    done
  have sets:
    "field_or kws ''roles'' (\<lambda>v. map_option set (Option.bind (as_list v) (read_all (as_choice parse_role))))
       (roles profile_defaults) = Some (roles p)"
    "field_or kws ''capabilities'' (\<lambda>v. map_option set (Option.bind (as_list v) (read_all (as_choice parse_capability))))
       (capabilities profile_defaults) = Some (capabilities p)"
    using enum_sets_back(1) [of "sorted_roles (roles p)"] enum_sets_back(2) [of "sorted_capabilities (capabilities p)"]
    by (simp_all only: sorted_sets field_set_back [OF t L(8) plain_enc(2)] field_set_back [OF t L(9) plain_enc(2)])
  have key: "field_or kws ''api_key_env'' read_key_env None = Some (api_key_env p)"
    by (rule opt_field_back [OF t L(6)]) (simp add: read_key_env_def)
  have auth: "field_or kws ''auth_header'' read_opt_str (auth_header profile_defaults) = Some (auth_header p)"
    using opt_field_back [OF t, of "''auth_header''" "auth_header p" "read_opt_str"] D(10)
    by (simp add: profile_defaults_def read_opt_str_def)
  have url: "tl_urlparse lib (base_url_text p) = Some (base_url p)" using assms(1) by (simp add: profile_built_def)
  have valid: "profile_valid lib ?q" using built by (simp add: profile_built_def)
  have "read_profile lib (JObj kws) = Some ?q"
    using valid unfolding read_profile_def no_extras(1,2) rebuilt_profile
    by (simp add: reads fields sets key auth hs(1) qs(1) url Let_def)
  then show ?thesis using same built by (rule that)
qed

subsection \<open>Commands, run settings and routes\<close>

lemma command_lookup:
  "map_of (command_to_dict c) ''name'' = Some (JStr (cc_name c))"
  "map_of (command_to_dict c) ''argv'' = Some (strs (argv c))"
  "map_of (command_to_dict c) ''timeout_seconds'' = Some (JFloat (timeout_seconds c))"
  "map_of (command_to_dict c) ''max_output_bytes'' = Some (int_value (cc_max_output_bytes c))"
  "map_of (command_to_dict c) ''env_allowlist'' = Some (strs (env_allowlist c))"
  "map_of (command_to_dict c) ''isolation'' = (if isolation c \<noteq> Host then Some (JStr (isolation_value (isolation c))) else None)"
  "map_of (command_to_dict c) ''docker_image'' = (if docker_image c \<noteq> [] then Some (JStr (docker_image c)) else None)"
  unfolding command_to_dict_def by (simp_all only: lookup_rules list.inject char.inject)

lemma read_command_back:
  assumes "validate_command c = None" "same_table (command_to_dict c) kws"
  shows "read_command lib (JObj kws) = Some c"
proof -
  note t = assms(2) and L = command_lookup [of c]
  have "required kws ''name'' as_text = Some (cc_name c)" "required kws ''argv'' as_strs = Some (argv c)"
    by (rule required_back [OF t L(1)] required_back [OF t L(2)]; simp)+
  moreover have "field_or kws ''timeout_seconds'' (as_float lib) 10 = Some (timeout_seconds c)"
    "field_or kws ''max_output_bytes'' (as_nat lib) 65536 = Some (cc_max_output_bytes c)"
    "field_or kws ''env_allowlist'' as_strs [''PATH''] = Some (env_allowlist c)"
    by (rule field_set_back [OF t L(3)] field_set_back [OF t L(4)] field_set_back [OF t L(5)]; simp)+
  moreover have "field_or kws ''isolation'' (as_choice parse_isolation) Host = Some (isolation c)"
    by (rule field_back [where enc = "\<lambda>i. JStr (isolation_value i)", OF t L(6)]; simp)
  moreover have "field_or kws ''docker_image'' as_text [] = Some (docker_image c)"
    by (rule field_back [where enc = JStr, OF t L(7)]; simp)
  ultimately show ?thesis using assms(1) by (cases c) (simp add: read_command_def)
qed

lemma run_lookup:
  "map_of (run_to_dict r) ''default_budget_tokens'' = (if default_budget_tokens r \<noteq> default_budget_tokens run_defaults
     then Some (int_value (default_budget_tokens r)) else None)"
  "map_of (run_to_dict r) ''default_budget_cost_usd'' = (if default_budget_cost_usd r \<noteq> default_budget_cost_usd run_defaults
     then Some (JFloat (default_budget_cost_usd r)) else None)"
  "map_of (run_to_dict r) ''stall_window_seconds'' = (if stall_window_seconds r \<noteq> stall_window_seconds run_defaults
     then Some (JFloat (stall_window_seconds r)) else None)"
  "map_of (run_to_dict r) ''planner_mode'' = (if planner_mode r \<noteq> planner_mode run_defaults then Some (JStr (planner_mode r)) else None)"
  "map_of (run_to_dict r) ''falsifier_mode'' = (if falsifier_mode r \<noteq> falsifier_mode run_defaults
     then Some (JStr (falsifier_mode r)) else None)"
  "map_of (run_to_dict r) ''calibration_path'' = (if calibration_path r \<noteq> calibration_path run_defaults
     then Some (JStr (calibration_path r)) else None)"
  "map_of (run_to_dict r) ''memory_enabled'' = None"
  unfolding run_to_dict_def by (simp_all only: lookup_rules list.inject char.inject)

text \<open>The run settings as they come back: the memory is off.\<close>

definition forgetful_run :: "run_config \<Rightarrow> run_config" where
  "forgetful_run r = r\<lparr>memory_enabled := False\<rparr>"

lemma read_run_back:
  assumes "run_valid r" "same_table (run_to_dict r) kws"
  shows "read_run lib (JObj kws) = Some (forgetful_run r)"
proof -
  note t = assms(2) and L = run_lookup [of r]
  have "field_or kws ''default_budget_tokens'' (as_nat lib) (default_budget_tokens run_defaults) = Some (default_budget_tokens r)"
    by (rule field_back [where enc = int_value, OF t L(1)]; simp)
  moreover have "field_or kws ''default_budget_cost_usd'' (as_float lib) (default_budget_cost_usd run_defaults)
      = Some (default_budget_cost_usd r)"
    "field_or kws ''stall_window_seconds'' (as_float lib) (stall_window_seconds run_defaults) = Some (stall_window_seconds r)"
    by (rule field_back [where enc = JFloat, OF t L(2)] field_back [where enc = JFloat, OF t L(3)]; simp)+
  moreover have "field_or kws ''planner_mode'' (as_choice Some) (planner_mode run_defaults) = Some (planner_mode r)"
    "field_or kws ''falsifier_mode'' (as_choice Some) (falsifier_mode run_defaults) = Some (falsifier_mode r)"
    "field_or kws ''calibration_path'' as_text (calibration_path run_defaults) = Some (calibration_path r)"
    by (rule field_back [where enc = JStr, OF t L(4)] field_back [where enc = JStr, OF t L(5)]
        field_back [where enc = JStr, OF t L(6)]; simp)+
  moreover have "field_or kws ''memory_enabled'' (as_bool lib) (memory_enabled run_defaults) = Some False"
    using same_table_None [OF t L(7)] by (simp add: field_or_def obj_get_def run_defaults_def)
  ultimately show ?thesis
    using assms(1) by (cases r) (simp add: read_run_def forgetful_run_def run_valid_def)
qed

lemma read_route_back:
  assumes "rm_profiles e \<noteq> []" "same_table (routing_to_dict e) kws" "is_toml (JObj kws)"
  shows "read_route (JObj kws) = Some e"
proof -
  note t = assms(2)
  have L: "map_of (routing_to_dict e) ''role'' = Some (JStr (role_value (rm_role e)))"
    "map_of (routing_to_dict e) ''profiles'' = Some (strs (rm_profiles e))" by (simp_all add: routing_to_dict_def)
  have "required kws ''role'' (as_choice parse_role) = Some (rm_role e)" "required kws ''profiles'' as_strs = Some (rm_profiles e)"
    by (rule required_back [OF t L(1)] required_back [OF t L(2)]; simp)+
  moreover have "k \<in> {''role'', ''profiles''}" if "(k, x) \<in> set kws" for k x
  proof -
    have "map_of kws k = Some x" using assms(3) that by simp
    then have "map_of (routing_to_dict e) k \<noteq> None" using same_table_None [OF t, of k] by auto
    then show ?thesis by (auto simp: routing_to_dict_def split: if_splits)
  qed
  then have "list_all (\<lambda>(k, x). k \<in> {''role'', ''profiles''}) kws" by (auto simp: list_all_iff)
  ultimately show ?thesis using assms(1) by (cases e) (simp add: read_route_def)
qed

subsection \<open>The document\<close>

lemma read_tables:
  assumes "list_all2 same_value (map (\<lambda>x. JObj (enc x)) xs) ws" "list_all is_toml ws"
    "\<And>x kws. x \<in> set xs \<Longrightarrow> same_table (enc x) kws \<Longrightarrow> is_toml (JObj kws) \<Longrightarrow> \<exists>y. rd (JObj kws) = Some y \<and> R x y"
  shows "\<exists>ys. read_all rd ws = Some ys \<and> list_all2 R xs ys"
  using assms
proof (induction xs arbitrary: ws)
  case Nil
  then show ?case by (simp add: read_all_def)
next
  case (Cons x xs)
  then obtain w ws' where ws: "ws = w # ws'" "same_value (JObj (enc x)) w" "list_all2 same_value (map (\<lambda>x. JObj (enc x)) xs) ws'"
    by (auto simp: list_all2_Cons1)
  from ws(2) obtain kws where w: "w = JObj kws" "same_table (enc x) kws" by (rule same_obj_cases)
  from Cons.prems(2) Cons.prems(3) [of x kws] ws(1) w obtain y where y: "rd w = Some y" "R x y" by auto
  from Cons.IH [OF ws(3)] Cons.prems(2,3) ws(1) obtain ys where "read_all rd ws' = Some ys" "list_all2 R xs ys" by auto
  with y show ?case by (intro exI [of _ "y # ys"]) (simp add: ws(1) read_all_def)
qed

lemma tables_back:
  assumes "same_table kvs kws" "is_toml (JObj kws)"
    "map_of kvs k = (if xs = [] then None else Some (JArr (map (\<lambda>x. JObj (enc x)) xs)))"
    "\<And>x kws. x \<in> set xs \<Longrightarrow> same_table (enc x) kws \<Longrightarrow> is_toml (JObj kws) \<Longrightarrow> \<exists>y. rd (JObj kws) = Some y \<and> R x y"
  shows "\<exists>ys. field_or kws k (\<lambda>v. Option.bind (as_list v) (read_all rd)) [] = Some ys \<and> list_all2 R xs ys"
proof (cases "xs = []")
  case True
  with assms(3) same_table_None [OF assms(1), of k] show ?thesis by (simp add: field_or_def obj_get_def)
next
  case False
  with assms(3) have "map_of kvs k = Some (JArr (map (\<lambda>x. JObj (enc x)) xs))" by simp
  from same_table_Some [OF assms(1) this] obtain w where w: "map_of kws k = Some w"
    "same_value (JArr (map (\<lambda>x. JObj (enc x)) xs)) w" .
  from w(2) obtain ws where ws: "w = JArr ws" "list_all2 same_value (map (\<lambda>x. JObj (enc x)) xs) ws"
    by (rule same_arr_cases)
  have "list_all is_toml ws" using table_values [OF assms(2) w(1)] by (simp add: ws(1))
  from read_tables [where rd = rd and R = R, OF ws(2) this] assms(4)
  obtain ys where "read_all rd ws = Some ys" "list_all2 R xs ys" by blast
  with w(1) ws(1) show ?thesis by (simp add: field_or_def obj_get_def)
qed

text \<open>Equality of configurations, as Python compares the models, and what the program builds.\<close>

definition same_config :: "edit_config \<Rightarrow> edit_config \<Rightarrow> bool" where
  "same_config c d \<longleftrightarrow> ed_name c = ed_name d \<and> list_all2 same_profile (ed_profiles c) (ed_profiles d)
     \<and> ed_commands c = ed_commands d \<and> ed_run c = ed_run d \<and> ed_routing c = ed_routing d"

definition config_built :: "toml_lib \<Rightarrow> edit_config \<Rightarrow> bool" where
  "config_built lib c \<longleftrightarrow> config_valid lib c \<and> list_all (profile_built lib) (ed_profiles c) \<and> run_valid (ed_run c)"

definition forgetful :: "edit_config \<Rightarrow> edit_config" where
  "forgetful c = c\<lparr>ed_run := forgetful_run (ed_run c)\<rparr>"

lemma routes_same:
  assumes "list_all2 (\<lambda>p q. mp_name p = mp_name q \<and> roles p = roles q) ps qs"
  shows "validate_routes ps seen es = validate_routes qs seen es"
proof -
  have f: "(case find (\<lambda>p. mp_name p = n) ps of None \<Rightarrow> True | Some p \<Rightarrow> r \<notin> roles p)
      = (case find (\<lambda>p. mp_name p = n) qs of None \<Rightarrow> True | Some p \<Rightarrow> r \<notin> roles p)" for n r
    using assms by (induction rule: list_all2_induct) auto
  have "mp_name ` set ps = mp_name ` set qs" using assms by (induction rule: list_all2_induct) auto
  then show ?thesis by (induction es arbitrary: seen) (simp_all add: f cong: option.case_cong)
qed

lemma same_profile_names: "same_profile p q \<Longrightarrow> mp_name p = mp_name q" "same_profile p q \<Longrightarrow> roles p = roles q"
  by (cases p; cases q; simp add: same_profile_def)+

lemma same_names: "list_all2 same_profile ps qs \<Longrightarrow> map mp_name ps = map mp_name qs"
  by (induction rule: list_all2_induct) (auto dest: same_profile_names)

lemma config_valid_same:
  assumes "config_valid lib c" "list_all2 same_profile (ed_profiles c) ps" "list_all (profile_built lib) ps"
  shows "config_valid lib (c\<lparr>ed_profiles := ps\<rparr>)"
proof -
  have names: "map (mp_name \<circ> model_profile.truncate) (ed_profiles c) = map (mp_name \<circ> model_profile.truncate) ps"
    using same_names [OF assms(2)] by (simp add: model_profile.truncate_def o_def)
  have "list_all2 (\<lambda>p q. mp_name p = mp_name q \<and> roles p = roles q)
      (map model_profile.truncate (ed_profiles c)) (map model_profile.truncate ps)"
    using assms(2) by (induction rule: list_all2_induct) (simp_all add: model_profile.truncate_def same_profile_names)
  note routes = routes_same [OF this]
  have "list_all (\<lambda>p. validate_profile (tl_ip lib) (model_profile.truncate p) = None) ps"
    using assms(3) by (auto simp: list_all_iff profile_built_def profile_valid_def)
  with assms(1) show ?thesis
    by (auto simp: config_valid_def validate_config_def plain_config_def names routes list_all_iff)
qed

lemma company_lookup:
  "map_of (company_dict c) ''name'' = Some (JStr (ed_name c))"
  "map_of (company_dict c) ''profiles'' = (if ed_profiles c = [] then None
     else Some (JArr (map (\<lambda>x. JObj (profile_to_dict x)) (ed_profiles c))))"
  "map_of (company_dict c) ''commands'' = (if ed_commands c = [] then None
     else Some (JArr (map (\<lambda>x. JObj (command_to_dict x)) (ed_commands c))))"
  "map_of (company_dict c) ''run'' = (if run_to_dict (ed_run c) = [] then None else Some (JObj (run_to_dict (ed_run c))))"
  "map_of (company_dict c) ''routing'' = (if ed_routing c = [] then None
     else Some (JArr (map (\<lambda>x. JObj (routing_to_dict x)) (ed_routing c))))"
  by (simp_all add: company_dict_def tables_def)

text \<open>Reading uses the keys of the model only.\<close>

lemma map_of_only: "map_of (filter (\<lambda>(k, v). k \<in> K) kws) k = (if k \<in> K then map_of kws k else None)"
  by (induction kws) auto

lemma read_config_only:
  "read_config lib (filter (\<lambda>(k, v). k \<in> {''name'', ''profiles'', ''commands'', ''run'', ''routing''}) kws) = read_config lib kws"
proof -
  let ?ms = "filter (\<lambda>(k, v). k \<in> {''name'', ''profiles'', ''commands'', ''run'', ''routing''}) kws"
  have "obj_get ?ms ''name'' = obj_get kws ''name''" "obj_get ?ms ''profiles'' = obj_get kws ''profiles''"
    "obj_get ?ms ''commands'' = obj_get kws ''commands''" "obj_get ?ms ''run'' = obj_get kws ''run''"
    "obj_get ?ms ''routing'' = obj_get kws ''routing''"
    unfolding obj_get_def map_of_only by simp_all
  then show ?thesis unfolding read_config_def required_def field_or_def by (simp only:)
qed

lemma company_keys:
  "k \<notin> {''name'', ''profiles'', ''commands'', ''run'', ''routing''} \<Longrightarrow> map_of (company_dict c) k = None"
  by (auto simp: company_dict_def tables_def)

lemma read_config_back:
  assumes "config_built lib c" "same_table (company_dict c) kws" "is_toml (JObj kws)"
  shows "\<exists>d. read_config lib kws = Some d \<and> same_config (forgetful c) d \<and> config_built lib d"
proof -
  note t = assms(2) and L = company_lookup [of c]
  have name: "required kws ''name'' as_text = Some (ed_name c)" by (rule required_back [OF t L(1)]; simp)
  have "\<exists>qs. field_or kws ''profiles'' (\<lambda>v. Option.bind (as_list v) (read_all (read_profile lib))) [] = Some qs
      \<and> list_all2 (\<lambda>p q. same_profile p q \<and> profile_built lib q) (ed_profiles c) qs"
  proof (rule tables_back [OF t assms(3) L(2)])
    fix p ms assume p: "p \<in> set (ed_profiles c)" "same_table (profile_to_dict p) ms" "is_toml (JObj ms)"
    have "profile_built lib p" using assms(1) p(1) by (simp add: config_built_def list_all_iff)
    from read_profile_back [OF this p(2,3)]
    show "\<exists>q. read_profile lib (JObj ms) = Some q \<and> same_profile p q \<and> profile_built lib q" by blast
  qed
  then obtain qs where qs: "field_or kws ''profiles'' (\<lambda>v. Option.bind (as_list v) (read_all (read_profile lib))) [] = Some qs"
    "list_all2 same_profile (ed_profiles c) qs" "list_all (profile_built lib) qs"
    by (auto simp: list_all2_conv_all_nth list_all_length)
  have "list_all (\<lambda>c. validate_command c = None) (ed_commands c)" and routes: "\<not> list_ex (\<lambda>e. rm_profiles e = []) (ed_routing c)"
    using assms(1) by (auto simp: config_built_def config_valid_def validate_config_def plain_config_def list_all_iff split: if_splits)
  then have "\<exists>xs. field_or kws ''commands'' (\<lambda>v. Option.bind (as_list v) (read_all (read_command lib))) [] = Some xs
      \<and> list_all2 (=) (ed_commands c) xs"
    by (intro tables_back [OF t assms(3) L(3)]) (auto simp: list_all_iff intro: read_command_back)
  then have cs: "field_or kws ''commands'' (\<lambda>v. Option.bind (as_list v) (read_all (read_command lib))) [] = Some (ed_commands c)"
    by (auto simp: list.rel_eq)
  have "\<exists>xs. field_or kws ''routing'' (\<lambda>v. Option.bind (as_list v) (read_all read_route)) [] = Some xs
      \<and> list_all2 (=) (ed_routing c) xs"
    using routes by (intro tables_back [OF t assms(3) L(5)]) (auto simp: list_ex_iff intro: read_route_back)
  then have rs: "field_or kws ''routing'' (\<lambda>v. Option.bind (as_list v) (read_all read_route)) [] = Some (ed_routing c)"
    by (auto simp: list.rel_eq)
  have run: "field_or kws ''run'' (read_run lib) run_defaults = Some (forgetful_run (ed_run c))"
  proof -
    have valid: "run_valid (ed_run c)" using assms(1) by (simp add: config_built_def)
    have full: "read_run lib (JObj ms) = Some (forgetful_run (ed_run c))" if "same_table (run_to_dict (ed_run c)) ms" for ms
      by (rule read_run_back [OF valid that])
    show ?thesis
    proof (cases "run_to_dict (ed_run c) = []")
      case True
      with same_table_None [OF t, of "''run''"] L(4) have "field_or kws ''run'' (read_run lib) run_defaults = Some run_defaults"
        by (simp add: field_or_def obj_get_def)
      moreover have "read_run lib (JObj []) = Some run_defaults"
        by (simp add: read_run_def field_or_def obj_get_def run_defaults_def run_valid_def)
      ultimately show ?thesis using full [of "[]"] True by (simp add: same_table_refl)
    next
      case False
      with L(4) have "map_of (company_dict c) ''run'' = Some (JObj (run_to_dict (ed_run c)))" by simp
      from same_table_Some [OF t this] obtain w where w: "map_of kws ''run'' = Some w" "same_value (JObj (run_to_dict (ed_run c))) w" .
      from w(2) obtain ms where "w = JObj ms" "same_table (run_to_dict (ed_run c)) ms" by (rule same_obj_cases)
      with full [of ms] w(1) show ?thesis by (simp add: field_or_def obj_get_def)
    qed
  qed
  let ?d = "\<lparr>ed_name = ed_name c, ed_profiles = qs, ed_commands = ed_commands c, ed_run = forgetful_run (ed_run c),
     ed_routing = ed_routing c\<rparr>"
  have "config_valid lib (c\<lparr>ed_profiles := qs\<rparr>)"
    using config_valid_same [OF _ qs(2,3)] assms(1) by (simp add: config_built_def)
  then have valid: "config_valid lib ?d" by (simp add: config_valid_def plain_config_def validate_config_def)
  then have "read_config lib kws = Some ?d" by (simp add: read_config_def name qs(1) cs run rs)
  moreover have "same_config (forgetful c) ?d" using qs(2) by (simp add: same_config_def forgetful_def)
  moreover have "config_built lib ?d"
    using valid qs(3) assms(1) by (simp add: config_built_def run_valid_def forgetful_run_def)
  ultimately show ?thesis by blast
qed

end
