(* ===== verification/Config_Store_Properties.thy ===== *)
theory Config_Store_Properties
  imports Config_Store Config_Toml_Properties "HOL-Library.Countable"
begin

section \<open>What the configuration store keeps\<close>

text \<open>
  Every state of the store is a configuration the program could have loaded, whatever sequence of
  operations led to it, and saving and reloading gives it back, with the memory switched off.
\<close>

subsection \<open>Histories of edits\<close>

datatype store_op =
    Update_name string | Add_profile text_profile | Update_profile string text_profile | Delete_profile string bool
  | Duplicate_profile string string | Add_command command_config | Update_command string command_config
  | Delete_command string | Update_run run_config | Update_routing "route_mapping list" | Validate | Reset
  | Apply_toml string | Save bool | Reload

fun run_op :: "toml_lib \<Rightarrow> store_op \<Rightarrow> config_store \<Rightarrow> store_error option \<times> config_store" where
  "run_op lib (Update_name n) st = update_name lib n st"
| "run_op lib (Add_profile p) st = add_profile lib p st"
| "run_op lib (Update_profile n p) st = update_profile lib n p st"
| "run_op lib (Delete_profile n b) st = delete_profile lib n b st"
| "run_op lib (Duplicate_profile n n') st = duplicate_profile lib n n' st"
| "run_op lib (Add_command c) st = add_command lib c st"
| "run_op lib (Update_command n c) st = update_command lib n c st"
| "run_op lib (Delete_command n) st = delete_command lib n st"
| "run_op lib (Update_run r) st = update_run lib r st"
| "run_op lib (Update_routing es) st = update_routing lib es st"
| "run_op lib Validate st = validate_store lib st"
| "run_op lib Reset st = reset_store st"
| "run_op lib (Apply_toml t) st = apply_toml lib t st"
| "run_op lib (Save b) st = save_to_toml lib b st"
| "run_op lib Reload st = reload_store lib st"

text \<open>The arguments are objects the program has constructed.\<close>

fun op_args_ok :: "toml_lib \<Rightarrow> store_op \<Rightarrow> bool" where
  "op_args_ok lib (Add_profile p) = profile_built lib p"
| "op_args_ok lib (Update_profile n p) = profile_built lib p"
| "op_args_ok lib (Update_run r) = run_valid r"
| "op_args_ok lib op = True"

definition store_ok :: "toml_lib \<Rightarrow> config_store \<Rightarrow> bool" where
  "store_ok lib st \<longleftrightarrow> config_built lib (store_config st) \<and> is_toml (JObj (store_unknown st))
     \<and> fst ` set (store_unknown st) \<inter> modeled_keys = {}"

lemma rebuild_ok:
  "rebuild lib c = Inr d \<Longrightarrow> list_all (profile_built lib) (ed_profiles c) \<Longrightarrow> run_valid (ed_run c) \<Longrightarrow> config_built lib d"
  by (auto simp: rebuild_def config_built_def split: if_splits)

lemma try_edit_ok:
  assumes "store_ok lib st" "\<And>d. build (store_config st) = Inr d \<Longrightarrow> config_built lib d"
  shows "store_ok lib (snd (try_edit build st))"
  using assms by (auto simp: try_edit_def store_ok_def split: sum.split)

lemma cloned_built:
  assumes "profile_built lib p" "profile_valid lib (cloned p n)"
  shows "profile_built lib (cloned p n)"
  using assms by (simp add: profile_built_def cloned_def)

subsection \<open>Reading builds a configuration\<close>

lemma str_map_distinct: "as_str_map (JObj kvs) = Some gs \<Longrightarrow> distinct (map fst kvs) \<Longrightarrow> distinct (map fst gs)"
proof -
  have "those (map (\<lambda>(k, x). map_option (Pair k) (as_text x)) kvs) = Some gs \<Longrightarrow> map fst gs = map fst kvs"
    by (induction kvs arbitrary: gs) (auto split: option.splits)
  then show "as_str_map (JObj kvs) = Some gs \<Longrightarrow> distinct (map fst kvs) \<Longrightarrow> distinct (map fst gs)"
    by (simp add: as_str_map_def as_table_def)
qed

lemma str_map_field_distinct:
  assumes "field_or kvs k as_str_map [] = Some gs" "is_toml (JObj kvs)"
  shows "distinct (map fst gs)"
proof (cases "map_of kvs k")
  case None
  with assms(1) show ?thesis by (simp add: field_or_def obj_get_def)
next
  case (Some v)
  with assms(1) have v: "as_str_map v = Some gs" by (simp add: field_or_def obj_get_def)
  then obtain ms where ms: "v = JObj ms" by (auto simp: as_str_map_def as_table_def split: json.splits)
  from table_values [OF assms(2) Some] show ?thesis using str_map_distinct [of ms gs] v by (simp add: ms)
qed

lemma read_profile_built:
  assumes "read_profile lib w = Some p" "is_toml w"
  shows "profile_built lib p"
proof -
  obtain kvs where w: "w = JObj kvs" using assms(1) by (cases w) (simp_all add: read_profile_def as_table_def)
  obtain hs qs where hs: "field_or kvs ''extra_headers'' as_str_map [] = Some hs" "extra_headers p = hs"
    and qs: "field_or kvs ''extra_query'' as_str_map [] = Some qs" "extra_query p = qs"
    and rest: "tl_urlparse lib (base_url_text p) = Some (base_url p)" "profile_valid lib p"
    using assms(1) unfolding w read_profile_def no_extras(1,2)
    by (auto simp: Option.bind_eq_Some_conv Let_def as_table_def split: if_splits)
  show ?thesis
    using rest str_map_field_distinct [OF hs(1)] str_map_field_distinct [OF qs(1)] assms(2)
    by (simp add: profile_built_def hs(2) qs(2) w)
qed

lemma read_all_list: "read_all rd vs = Some xs \<Longrightarrow> x \<in> set xs \<Longrightarrow> \<exists>v \<in> set vs. rd v = Some x"
  unfolding read_all_def by (induction vs arbitrary: xs) (auto split: option.splits)

lemma read_run_valid: "read_run lib w = Some r \<Longrightarrow> run_valid r"
  by (auto simp: read_run_def Option.bind_eq_Some_conv Let_def split: if_splits)

lemma read_config_built:
  assumes "read_config lib kvs = Some c" "is_toml (JObj kvs)"
  shows "config_built lib c"
proof -
  obtain ps r where ps: "field_or kvs ''profiles'' (\<lambda>v. Option.bind (as_list v) (read_all (read_profile lib))) [] = Some ps"
    "ed_profiles c = ps" and r: "field_or kvs ''run'' (read_run lib) run_defaults = Some r" "ed_run c = r"
    and valid: "config_valid lib c"
    using assms(1) unfolding read_config_def by (auto simp: Option.bind_eq_Some_conv Let_def split: if_splits)
  have "profile_built lib p" if p: "p \<in> set ps" for p
  proof -
    from ps(1) p obtain vs where vs: "map_of kvs ''profiles'' = Some (JArr vs)" "read_all (read_profile lib) vs = Some ps"
      by (auto simp: field_or_def obj_get_def as_list_def Option.bind_eq_Some_conv split: option.splits json.splits)
    from read_all_list [OF vs(2) p] obtain v where "v \<in> set vs" "read_profile lib v = Some p" by blast
    with table_values [OF assms(2) vs(1)] show ?thesis by (intro read_profile_built) (auto simp: list_all_iff)
  qed
  moreover have "run_valid r"
    using r(1) read_run_valid by (auto simp: field_or_def run_defaults_def run_valid_def split: option.splits)
  ultimately show ?thesis using valid by (simp add: config_built_def ps(2) r(2) list_all_iff)
qed

lemma is_toml_filter: "is_toml (JObj kvs) \<Longrightarrow> is_toml (JObj (filter P kvs))"
  by (auto simp: list_all_iff distinct_map_filter)

lemma loads_toml: "toml_lib_ok lib \<Longrightarrow> tl_loads lib t = Some w \<Longrightarrow> is_toml w"
  unfolding toml_lib_ok_def by blast

lemma load_document_ok:
  assumes "toml_lib_ok lib" "store_ok lib st"
  shows "store_ok lib (snd (load_document lib b t st))"
proof (cases "\<exists>raw c unknown. tl_loads lib t = Some (JObj raw) \<and> parse_raw lib raw = Inr (c, unknown)")
  case False
  then show ?thesis using assms(2) by (auto simp: load_document_def split: option.split json.split sum.split)
next
  case True
  then obtain raw c unknown where raw: "tl_loads lib t = Some (JObj raw)" and parsed: "parse_raw lib raw = Inr (c, unknown)" by blast
  from parsed obtain company where company: "map_of raw ''northstack'' = Some (JObj company)"
    "read_config lib (filter (\<lambda>(k, v). k \<in> modeled_keys) company) = Some c" "unknown = unknown_from_company company"
    by (auto simp: parse_raw_def obj_get_def split: option.splits json.splits)
  have "is_toml (JObj raw)" using loads_toml [OF assms(1) raw] .
  then have t: "is_toml (JObj company)" using table_values company(1) by blast
  have "config_built lib c" using read_config_built [OF company(2)] is_toml_filter [OF t] by blast
  moreover have "is_toml (JObj unknown)" "fst ` set unknown \<inter> modeled_keys = {}"
    using is_toml_filter [OF t] by (auto simp: company(3) unknown_from_company_def)
  ultimately show ?thesis by (simp add: load_document_def raw parsed store_ok_def)
qed

lemma minimal_ok: "config_valid lib c \<Longrightarrow> config_valid lib \<lparr>ed_name = ed_name c, ed_profiles = [], ed_commands = [],
     ed_run = run_defaults, ed_routing = []\<rparr>"
  by (simp add: config_valid_def validate_config_def plain_config_def check_unique_def split: if_splits)

lemma run_op_ok:
  assumes "toml_lib_ok lib" "op_args_ok lib op" "store_ok lib st"
  shows "store_ok lib (snd (run_op lib op st))"
proof -
  let ?c = "store_config st"
  have c: "list_all (profile_built lib) (ed_profiles ?c)" "run_valid (ed_run ?c)" "config_valid lib ?c"
    using assms(3) by (simp_all add: store_ok_def config_built_def)
  note edit = try_edit_ok [OF assms(3)] and built = rebuild_ok [of lib]
  show ?thesis
  proof (cases op)
    case (Update_name n)
    show ?thesis using c assms(3)
      by (auto simp: Update_name update_name_def intro!: edit elim!: built)
  next
    case (Add_profile p)
    show ?thesis using c assms(2)
      by (auto simp: Add_profile add_profile_def intro!: edit elim!: built split: if_splits)
  next
    case (Update_profile n p)
    show ?thesis using c assms(2)
      by (auto simp: Update_profile update_profile_def list_all_iff intro!: edit elim!: built split: if_splits)
  next
    case (Delete_profile n b)
    show ?thesis using c
      by (auto simp: Delete_profile delete_profile_def list_all_iff Let_def intro!: edit elim!: built split: if_splits)
  next
    case (Duplicate_profile n n')
    have "profile_built lib p" if "edit_profile ?c n = Some p" for p
      using c(1) that by (auto simp: edit_profile_def list_all_iff find_Some_iff)
    then show ?thesis using c cloned_built
      by (auto simp: Duplicate_profile duplicate_profile_def list_all_iff intro!: edit elim!: built split: option.splits if_splits)
  next
    case (Add_command cmd)
    show ?thesis using c by (auto simp: Add_command add_command_def intro!: edit elim!: built split: if_splits)
  next
    case (Update_command n cmd)
    show ?thesis using c by (auto simp: Update_command update_command_def intro!: edit elim!: built split: if_splits)
  next
    case (Delete_command n)
    show ?thesis using c by (auto simp: Delete_command delete_command_def intro!: edit elim!: built split: if_splits)
  next
    case (Update_run r)
    show ?thesis using c assms(2) by (auto simp: Update_run update_run_def intro!: edit elim!: built)
  next
    case (Update_routing es)
    show ?thesis using c by (auto simp: Update_routing update_routing_def intro!: edit elim!: built)
  next
    case Validate
    then show ?thesis using assms(3) by (simp add: validate_store_def)
  next
    case Reset
    then show ?thesis using assms(3) minimal_ok [OF c(3)]
      by (simp add: reset_store_def store_ok_def config_built_def run_defaults_def run_valid_def)
  next
    case (Apply_toml t)
    then show ?thesis using load_document_ok [OF assms(1,3)] by (simp add: apply_toml_def)
  next
    case (Save b)
    then show ?thesis using assms(3) by (simp add: save_to_toml_def store_ok_def split: option.split)
  next
    case Reload
    then show ?thesis using assms(1,3) load_document_ok by (simp add: reload_store_def split: option.split)
  qed
qed

lemma failed_op_unchanged: "run_op lib op st = (Some e, st') \<Longrightarrow> st' = st"
  by (cases op) (auto simp: update_name_def add_profile_def update_profile_def delete_profile_def duplicate_profile_def
      add_command_def update_command_def delete_command_def update_run_def update_routing_def validate_store_def
      reset_store_def apply_toml_def load_document_def save_to_toml_def reload_store_def try_edit_def
      split: sum.splits option.splits json.splits if_splits)

subsection \<open>The written document\<close>

lemma profile_doc: "profile_built lib p \<Longrightarrow> is_toml (JObj (profile_to_dict p))"
  by (auto simp: profile_to_dict_def profile_built_def no_extras)

lemma command_doc: "is_toml (JObj (command_to_dict c))"
  by (auto simp: command_to_dict_def)

lemma run_doc: "is_toml (JObj (run_to_dict r))"
  by (auto simp: run_to_dict_def)

lemma route_doc: "is_toml (JObj (routing_to_dict e))"
  by (simp add: routing_to_dict_def)

lemma company_doc:
  assumes "config_built lib c"
  shows "is_toml (JObj (company_dict c))"
proof -
  have "list_all (\<lambda>p. is_toml (JObj (profile_to_dict p))) (ed_profiles c)"
    using assms profile_doc by (auto simp: config_built_def list_all_iff)
  moreover have "list_all (\<lambda>p. is_toml (JObj (command_to_dict p))) (ed_commands c)"
    "list_all (\<lambda>p. is_toml (JObj (routing_to_dict p))) (ed_routing c)" "is_toml (JObj (run_to_dict (ed_run c)))"
    using command_doc route_doc run_doc by (simp_all only: list_all_iff) simp_all
  ultimately show ?thesis
    by (simp add: company_dict_def tables_def list_all_iff del: is_toml.simps(7)) (simp add: list_all_iff)
qed

lemma same_value_trans: "same_value u v \<Longrightarrow> same_value v w \<Longrightarrow> same_value u w"
proof (induction arbitrary: w rule: same_value.induct)
  case (same_arr vs ws)
  from same_arr.prems obtain xs where xs: "w = JArr xs" "list_all2 same_value ws xs" by (rule same_arr_cases)
  with same_arr.IH have "list_all2 same_value vs xs" by (auto simp: list_all2_conv_all_nth)
  then show ?case unfolding xs(1) by (rule same_value.same_arr)
next
  case (same_obj kvs kws)
  from same_obj.prems obtain ks where ks: "w = JObj ks" "same_table kws ks" by (rule same_obj_cases)
  have "rel_option same_value (map_of kvs k) (map_of ks k)" for k
  proof -
    have "rel_option (\<lambda>v w. same_value v w \<and> (\<forall>x. same_value w x \<longrightarrow> same_value v x)) (map_of kvs k) (map_of kws k)"
      "rel_option same_value (map_of kws k) (map_of ks k)"
      using same_obj.IH ks(2) by (simp_all add: same_table_by_def)
    then show ?thesis by (cases "map_of kvs k"; cases "map_of kws k"; cases "map_of ks k") auto
  qed
  then show ?case unfolding ks(1) by (intro same_value.same_obj) (simp add: same_table_by_def)
qed simp

lemma splice_step [simp]:
  "splice company [] = company"
  "splice company ((k, v) # unknown) = splice (if k \<in> fst ` set company then company else company @ [(k, v)]) unknown"
  by (simp_all add: splice_def)

lemma splice_doc: "is_toml (JObj company) \<Longrightarrow> is_toml (JObj unknown) \<Longrightarrow> is_toml (JObj (splice company unknown))"
  by (induction unknown arbitrary: company) auto

lemma splice_lookup:
  "distinct (map fst unknown) \<Longrightarrow>
     map_of (splice company unknown) k = (case map_of company k of Some v \<Rightarrow> Some v | None \<Rightarrow> map_of unknown k)"
proof (induction unknown arbitrary: company)
  case (Cons kv unknown)
  obtain k' v where kv: "kv = (k', v)" by (cases kv)
  have fresh: "map_of unknown k' = None" "distinct (map fst unknown)" using Cons.prems by (simp_all add: kv map_of_eq_None_iff)
  show ?case
  proof (cases "k' \<in> fst ` set company")
    case True
    then have "map_of company k' \<noteq> None" by (simp add: map_of_eq_None_iff)
    with True Cons.IH [OF fresh(2), of company] fresh(1) show ?thesis by (cases "k = k'") (auto simp: kv split: option.split)
  next
    case False
    then have "map_of company k' = None" by (simp add: map_of_eq_None_iff)
    moreover have "map_of (company @ [(k', v)]) k = (case map_of company k of Some v \<Rightarrow> Some v | None \<Rightarrow> if k = k' then Some v else None)"
      by (auto simp: map_add_def split: option.split)
    ultimately show ?thesis
      using False Cons.IH [OF fresh(2), of "company @ [(k', v)]"] fresh(1)
      by (cases "k = k'") (auto simp: kv simp del: map_of_append split: option.split)
  qed
qed (simp split: option.split)

lemma dict_set_doc: "is_toml (JObj kvs) \<Longrightarrow> is_toml v \<Longrightarrow> is_toml (JObj (dict_set kvs k v))"
proof (induction kvs)
  case (Cons kv kvs)
  have "fst ` set (dict_set kvs k v) = insert k (fst ` set kvs)"
    using map_of_dict_set [of kvs k v] by (metis dom_fun_upd dom_map_of_conv_image_fst option.discI)
  with Cons show ?case by (cases kv) auto
qed simp

lemma rel_same_trans:
  "rel_option same_value a b \<Longrightarrow> rel_option same_value b c \<Longrightarrow> rel_option same_value a c"
  by (cases a; cases b; cases c) (auto intro: same_value_trans)

text \<open>C32: save and reload give the configuration back, with the memory off.  From a configuration that the
  program built, saving writes a document that reloads without an error to an equal configuration
  (as Python compares models) whose only difference is that \<^verbatim>\<open>memory_enabled\<close> is false, the sections
  the model does not know survive as the same table, no edit is left unsaved, and the reloaded store is
  again one the program could have built.\<close>

theorem save_reload_roundtrip:
  assumes "toml_lib_ok lib" "store_ok lib st"
  shows "case save_to_toml lib True st of
      (Some e, st1) \<Rightarrow> False
    | (None, st1) \<Rightarrow> store_config st1 = store_config st \<and>
       (case reload_store lib st1 of
          (Some e, st2) \<Rightarrow> False
        | (None, st2) \<Rightarrow> same_config (forgetful (store_config st)) (store_config st2)
            \<and> same_table (store_unknown st) (store_unknown st2) \<and> \<not> store_dirty st2 \<and> store_ok lib st2)"
proof -
  let ?c = "store_config st" and ?u = "store_unknown st"
  have built: "config_built lib ?c" and u: "is_toml (JObj ?u)" "fst ` set ?u \<inter> modeled_keys = {}"
    using assms(2) by (simp_all add: store_ok_def)
  note company = company_doc [OF built]
  have loads: "\<exists>kws. tl_loads lib (tl_dumps lib (JObj kvs)) = Some (JObj kws) \<and> same_table kvs kws" if "is_toml (JObj kvs)" for kvs
    using assms(1) that unfolding toml_lib_ok_def by blast
  have "is_toml (JObj [(''northstack'', JObj (company_dict ?c))])" using company by simp
  from loads [OF this] obtain raw where raw: "tl_loads lib (config_to_toml lib ?c) = Some (JObj raw)"
    "same_table [(''northstack'', JObj (company_dict ?c))] raw" by (auto simp: config_to_toml_def)
  obtain w where "map_of raw ''northstack'' = Some w" "same_value (JObj (company_dict ?c)) w"
    by (rule same_table_Some [OF raw(2), of "''northstack''" "JObj (company_dict ?c)"]) simp_all
  then obtain co where co: "map_of raw ''northstack'' = Some (JObj co)" "same_table (company_dict ?c) co"
    by (auto elim: same_obj_cases)
  have raw_doc: "is_toml (JObj raw)" by (rule loads_toml [OF assms(1) raw(1)])
  then have co_doc: "is_toml (JObj co)" using table_values co(1) by blast
  have d: "distinct (map fst ?u)" using u(1) by simp
  let ?m = "splice co ?u"
  have "is_toml (JObj (dict_set raw ''northstack'' (JObj ?m)))" by (rule dict_set_doc [OF raw_doc splice_doc [OF co_doc u(1)]])
  from loads [OF this] obtain raw2 where raw2:
    "tl_loads lib (tl_dumps lib (JObj (dict_set raw ''northstack'' (JObj ?m)))) = Some (JObj raw2)"
    "same_table (dict_set raw ''northstack'' (JObj ?m)) raw2" by blast
  obtain w2 where "map_of raw2 ''northstack'' = Some w2" "same_value (JObj ?m) w2"
    by (rule same_table_Some [OF raw2(2), of "''northstack''" "JObj ?m"]) simp_all
  then obtain co2 where co2: "map_of raw2 ''northstack'' = Some (JObj co2)" "same_table ?m co2"
    by (auto elim: same_obj_cases)
  have co2_doc: "is_toml (JObj co2)" using table_values loads_toml [OF assms(1) raw2(1)] co2(1) by blast
  have pts: "rel_option same_value (map_of (company_dict ?c) k) (map_of co k)" "rel_option same_value (map_of ?m k) (map_of co2 k)"
    "map_of ?m k = (case map_of co k of Some v \<Rightarrow> Some v | None \<Rightarrow> map_of ?u k)" for k
    using co(2) co2(2) splice_lookup [OF d] by (simp_all add: same_table_by_def)
  have known: "same_table (company_dict ?c) (filter (\<lambda>(k, v). k \<in> modeled_keys) co2)"
    unfolding same_table_by_def map_of_only
  proof
    fix k
    show "rel_option same_value (map_of (company_dict ?c) k) (if k \<in> modeled_keys then map_of co2 k else None)"
    proof (cases "k \<in> modeled_keys")
      case True
      then have "map_of ?u k = None" using u(2) by (auto simp: map_of_eq_None_iff)
      with pts(3) [of k] have "map_of ?m k = map_of co k" by (simp split: option.split)
      with pts(1,2) [of k] True show ?thesis by (simp add: rel_same_trans)
    next
      case False
      then have "map_of (company_dict ?c) k = None" by (intro company_keys) (simp add: modeled_keys_def)
      with False show ?thesis by simp
    qed
  qed
  have unknown: "same_table ?u (unknown_from_company co2)"
    unfolding same_table_by_def
  proof
    fix k
    have f: "map_of (unknown_from_company co2) k = (if k \<in> modeled_keys then None else map_of co2 k)"
      using map_of_only [of "- modeled_keys" co2 k] by (simp add: unknown_from_company_def)
    show "rel_option same_value (map_of ?u k) (map_of (unknown_from_company co2) k)"
    proof (cases "k \<in> modeled_keys")
      case True
      then have "map_of ?u k = None" using u(2) by (auto simp: map_of_eq_None_iff)
      with True f show ?thesis by simp
    next
      case False
      then have "map_of (company_dict ?c) k = None" by (intro company_keys) (simp add: modeled_keys_def)
      with pts(1) [of k] have "map_of co k = None" by (cases "map_of co k") auto
      with pts(2,3) [of k] False f show ?thesis by simp
    qed
  qed
  from read_config_back [OF built known is_toml_filter [OF co2_doc]] obtain c2 where c2:
    "read_config lib (filter (\<lambda>(k, v). k \<in> modeled_keys) co2) = Some c2" "same_config (forgetful ?c) c2" "config_built lib c2"
    by blast
  have "parse_raw lib raw2 = Inr (c2, unknown_from_company co2)" by (simp add: parse_raw_def obj_get_def co2(1) c2(1))
  moreover have "is_toml (JObj (unknown_from_company co2))" "fst ` set (unknown_from_company co2) \<inter> modeled_keys = {}"
    using is_toml_filter [OF co2_doc] by (auto simp: unknown_from_company_def)
  ultimately show ?thesis
    using raw co raw2(1) c2(2,3) unknown
    by (simp add: save_to_toml_def merge_document_def obj_get_def reload_store_def load_document_def store_ok_def)
qed

subsection \<open>A library that keeps its word\<close>

instance json :: countable
  by countable_datatype

definition sample_toml_lib :: toml_lib where
  "sample_toml_lib = \<lparr>tl_loads = (\<lambda>t. case from_nat (length t) of
       JObj kvs \<Rightarrow> if is_toml (JObj kvs) then Some (JObj kvs) else None | _ \<Rightarrow> None),
     tl_dumps = (\<lambda>v. replicate (to_nat v) CHR ''#''),
     tl_urlparse = (\<lambda>u. Some (base_url (sample_profile ''p'' {} 0))), tl_ip = (\<lambda>h. None), tl_lax = (\<lambda>k v. None)\<rparr>"

lemma sample_toml_lib_ok: "toml_lib_ok sample_toml_lib"
  by (auto simp: toml_lib_ok_def sample_toml_lib_def intro!: same_table_refl split: json.splits if_splits)

definition sample_text_profile :: "string \<Rightarrow> role set \<Rightarrow> text_profile" where
  "sample_text_profile n rs = model_profile.extend (sample_profile n rs 1) \<lparr>base_url_text = ''https://api.example''\<rparr>"

definition edit_config_for :: "role set \<Rightarrow> edit_config" where
  "edit_config_for rs = \<lparr>ed_name = ''n'', ed_profiles = [sample_text_profile ''cheap'' rs], ed_commands = [],
     ed_run = run_defaults\<lparr>memory_enabled := True\<rparr>, ed_routing = [\<lparr>rm_role = WORKER, rm_profiles = [''cheap'']\<rparr>]\<rparr>"

abbreviation sample_edit_config :: edit_config where
  "sample_edit_config \<equiv> edit_config_for {WORKER}"

definition store_for :: "role set \<Rightarrow> config_store" where
  "store_for rs = \<lparr>store_config = edit_config_for rs, store_unknown = [(''web_fetch'', JObj [(''max_redirects'', JInt 3)])],
     store_dirty = True, store_file = None\<rparr>"

abbreviation sample_store :: config_store where
  "sample_store \<equiv> store_for {WORKER}"

lemma edit_built_for:
  assumes "WORKER \<in> rs"
  shows "config_built sample_toml_lib (edit_config_for rs)"
proof -
  have t: "model_profile.truncate (sample_text_profile n rs) = sample_profile n rs 1" for n rs
    by (simp add: sample_text_profile_def model_profile.truncate_def model_profile.extend_def sample_profile_def)
  have fields: "api_key_env (sample_text_profile n rs) = Some ''KEY''" "extra_headers (sample_text_profile n rs) = []"
    "extra_query (sample_text_profile n rs) = []" "base_url (sample_text_profile n rs) = base_url (sample_profile n rs 1)" for n rs
    by (simp_all add: sample_text_profile_def model_profile.extend_def sample_profile_def)
  have p: "validate_profile (\<lambda>_. None) (sample_profile ''cheap'' rs 1) = None"
    by (simp add: sample_profile_def validate_profile_def profile_fields_def reject_credential_headers_def
      validate_auth_header_def reject_credential_query_def validate_base_url_policy_def validate_provider_url_def) code_simp
  have "config_valid sample_toml_lib (edit_config_for rs)"
    using p assms by (simp add: config_valid_def validate_config_def plain_config_def edit_config_for_def t check_unique_def
        sample_toml_lib_def) (simp add: sample_profile_def)
  moreover have "valid_env_name ''KEY''" by code_simp
  with p have "profile_built sample_toml_lib (sample_text_profile ''cheap'' rs)"
    by (simp add: profile_built_def profile_valid_def t fields) (simp add: sample_toml_lib_def sample_profile_def)
  ultimately show ?thesis
    by (simp add: config_built_def edit_config_for_def run_valid_def run_defaults_def)
qed

lemmas sample_edit_built = edit_built_for [of "{WORKER}", simplified]

lemma store_for_ok: "WORKER \<in> rs \<Longrightarrow> store_ok sample_toml_lib (store_for rs)"
  using edit_built_for by (simp add: store_ok_def store_for_def modeled_keys_def)

theorem save_reload_roundtrip_witness:
  "memory_enabled (ed_run (store_config sample_store)) \<and>
   (case reload_store sample_toml_lib (snd (save_to_toml sample_toml_lib True sample_store)) of
      (err, st) \<Rightarrow> err = None \<and> \<not> memory_enabled (ed_run (store_config st)) \<and> ed_routing (store_config st) = ed_routing sample_edit_config)"
proof -
  obtain st1 st2 where s: "save_to_toml sample_toml_lib True sample_store = (None, st1)"
      "reload_store sample_toml_lib st1 = (None, st2)" "same_config (forgetful (store_config sample_store)) (store_config st2)"
    using save_reload_roundtrip [OF sample_toml_lib_ok store_for_ok, of "{WORKER}"] by (auto split: prod.splits option.splits)
  from s(3) have "ed_run (store_config st2) = forgetful_run (ed_run sample_edit_config)"
    "ed_routing (store_config st2) = ed_routing sample_edit_config"
    by (simp_all add: same_config_def forgetful_def store_for_def)
  with s(1,2) show ?thesis by (simp add: forgetful_run_def) (simp add: store_for_def edit_config_for_def)
qed

subsection \<open>Every state is a valid configuration\<close>

definition store_after :: "toml_lib \<Rightarrow> store_op list \<Rightarrow> config_store \<Rightarrow> config_store" where
  "store_after lib ops st = fold (\<lambda>op st. snd (run_op lib op st)) ops st"

lemma store_after_ok:
  assumes "toml_lib_ok lib"
  shows "list_all (op_args_ok lib) ops \<Longrightarrow> store_ok lib st \<Longrightarrow> store_ok lib (store_after lib ops st)"
  unfolding store_after_def by (induction ops arbitrary: st) (simp_all add: run_op_ok [OF assms])

lemma new_store_ok:
  assumes "toml_lib_ok lib" "config_built lib c"
  shows "store_ok lib (new_store lib c file)"
proof -
  have "is_toml (JObj company)" if "read_existing_company lib file = Some company" for company
  proof -
    from that obtain t raw where "tl_loads lib t = Some (JObj raw)" "map_of raw ''northstack'' = Some (JObj company)"
      by (cases "file") (auto simp: read_existing_company_def obj_get_def split: option.splits json.splits)
    then show ?thesis using loads_toml [OF assms(1)] table_values by blast
  qed
  then show ?thesis
    using assms(2) is_toml_filter
    by (auto simp: new_store_def store_ok_def unknown_from_company_def split: option.split)
qed

text \<open>A route is served by a profile that declares its role.\<close>

definition routes_served :: "edit_config \<Rightarrow> bool" where
  "routes_served c \<longleftrightarrow> list_all (\<lambda>e. rm_profiles e \<noteq> [] \<and> list_all (\<lambda>n. case edit_profile c n of
      None \<Rightarrow> False | Some p \<Rightarrow> rm_role e \<in> roles p) (rm_profiles e)) (ed_routing c)"

lemma valid_routes_served:
  assumes "config_valid lib c"
  shows "routes_served c"
proof -
  let ?ps = "map model_profile.truncate (ed_profiles c)"
  have v: "validate_routes ?ps [] (ed_routing c) = None" "check_unique (map mp_name ?ps) ''profile names'' = None"
    "\<not> list_ex (\<lambda>e. rm_profiles e = []) (ed_routing c)"
    using assms by (auto simp: config_valid_def validate_config_def plain_config_def split: if_splits)
  have tr: "mp_name (model_profile.truncate p) = mp_name p" "roles (model_profile.truncate p) = roles p" for p :: text_profile
    by (simp_all add: model_profile.truncate_def)
  have found: "case edit_profile c n of None \<Rightarrow> False | Some p \<Rightarrow> r \<in> roles p"
    if q: "q \<in> set ?ps" "mp_name q = n" "r \<in> roles q" for q n r
  proof -
    from q(1) obtain p where p: "p \<in> set (ed_profiles c)" "q = model_profile.truncate p" by auto
    have "distinct (map mp_name (ed_profiles c))" using casefold_distinct [OF v(2)] by (simp add: o_def tr)
    then have "find (\<lambda>x. mp_name x = mp_name p) (ed_profiles c) = Some p" using p(1)
      by (induction "ed_profiles c" arbitrary: c rule: list.induct) (auto simp: find_name_unique)
    with p q(2,3) show ?thesis by (simp add: edit_profile_def tr)
  qed
  show ?thesis
    unfolding routes_served_def list_all_iff
  proof (intro ballI conjI)
    fix e assume e: "e \<in> set (ed_routing c)"
    show "rm_profiles e \<noteq> []" using v(3) e by (auto simp: list_ex_iff)
    fix n assume "n \<in> set (rm_profiles e)"
    with validate_routes_ok [OF v(1) e] obtain q where "q \<in> set ?ps" "mp_name q = n" "rm_role e \<in> roles q"
      unfolding list_all_iff by blast
    from found [OF this] show "case edit_profile c n of None \<Rightarrow> False | Some p \<Rightarrow> rm_role e \<in> roles p" .
  qed
qed



text \<open>What a duplicate loses: the timeout, the strictness of streams and the transport retries.\<close>

lemma duplicate_is_not_a_copy:
  "edit_profile c n = Some p \<Longrightarrow> cloned p n' = p\<lparr>mp_name := n'\<rparr> \<longleftrightarrow>
     request_timeout_seconds p = request_timeout_seconds profile_defaults
     \<and> strict_stream_completion p = strict_stream_completion profile_defaults
     \<and> transport_retries p = transport_retries profile_defaults
     \<and> transport_retry_backoff_seconds p = transport_retry_backoff_seconds profile_defaults"
  by (cases p) (auto simp: cloned_def)

end
