(* ===== verification/Config_Routes.thy ===== *)
theory Config_Routes
  imports Config_Store_Properties Commands "HOL-Library.Product_Lexorder"
begin

section \<open>The configuration endpoints (interfaces/web/routes_config.py)\<close>

text \<open>
  The handlers over the store: the bodies and what is built from them, the routing presets, the test
  of a command.  A handler answers with a body, with a status and a detail, or lets an exception
  through (\<open>Crashed\<close>, a 500).  The text of a \<^verbatim>\<open>ValidationError\<close> is a parameter, as are the environment,
  the processes and the scratch directory; FastAPI parses the bodies.
\<close>

datatype reply = Reply json | Refused nat string | Crashed

subsection \<open>Routing presets\<close>

definition profile_cost :: "text_profile \<Rightarrow> rat" where
  "profile_cost p = input_price_per_million_usd p + output_price_per_million_usd p"

text \<open>The keys of the two choices, compared as tuples.\<close>

definition strength :: "text_profile \<Rightarrow> rat \<times> nat \<times> nat \<times> string" where
  "strength p = (profile_cost p, card (capabilities p), context_window_tokens p, mp_name p)"

definition cheapness :: "text_profile \<Rightarrow> rat \<times> int \<times> string" where
  "cheapness p = (profile_cost p, - int (max_concurrency p), mp_name p)"

text \<open>\<^verbatim>\<open>max(items, key=...)\<close>: the first of the greatest.\<close>

fun max_by :: "('a \<Rightarrow> 'k::linorder) \<Rightarrow> 'a \<Rightarrow> 'a list \<Rightarrow> 'a" where
  "max_by key b [] = b"
| "max_by key b (x # xs) = max_by key (if key b < key x then x else b) xs"

definition all_roles :: "role list" where
  "all_roles = [WORKER, REVIEWER, PLANNER, SPECIALIST, ORCHESTRATOR]"

definition eligible_for :: "text_profile list \<Rightarrow> role \<Rightarrow> text_profile list" where
  "eligible_for ps r = filter (\<lambda>p. r \<in> roles p) ps"

record preset =
  ps_id :: string
  ps_label :: string
  ps_description :: string
  ps_routing :: "(role \<times> string list) list"
  ps_reason :: "string option"

definition single_expert :: "text_profile list \<Rightarrow> (role \<times> string list) list \<times> string option" where
  "single_expert ps =
     (case filter (\<lambda>p. list_all (\<lambda>r. r \<in> roles p) all_roles) ps of
        [] \<Rightarrow> ([], Some ''No profile declares all five roles.'')
      | q # qs \<Rightarrow> (map (\<lambda>r. (r, [mp_name (max_by strength q qs)])) all_roles, None))"

definition missing_reason :: "text_profile list \<Rightarrow> string option" where
  "missing_reason ps =
     (let missing = map role_value (filter (\<lambda>r. eligible_for ps r = []) all_roles)
      in if missing = [] then None else Some (''No eligible profile for: '' @ str_join '', '' missing @ ''.''))"

definition cheap_fanout :: "text_profile list \<Rightarrow> (role \<times> string list) list \<times> string option" where
  "cheap_fanout ps =
     (case missing_reason ps of
        Some why \<Rightarrow> ([], Some why)
      | None \<Rightarrow> (map (\<lambda>r. (r, map mp_name (take 2 (sort_key cheapness (eligible_for ps r))))) all_roles, None))"

definition strong_integrator :: "text_profile list \<Rightarrow> (role \<times> string list) list \<times> string option" where
  "strong_integrator ps =
     (case missing_reason ps of
        Some why \<Rightarrow> ([], Some why)
      | None \<Rightarrow> (map (\<lambda>r. (r, [mp_name (max_by strength (hd (eligible_for ps r)) (tl (eligible_for ps r)))])) all_roles, None))"

definition preset_of :: "string \<Rightarrow> string \<Rightarrow> string \<Rightarrow> (role \<times> string list) list \<times> string option \<Rightarrow> preset" where
  "preset_of i label desc rr = \<lparr>ps_id = i, ps_label = label, ps_description = desc, ps_routing = fst rr, ps_reason = snd rr\<rparr>"

definition routing_presets :: "edit_config \<Rightarrow> preset list" where
  "routing_presets c =
     [preset_of ''single_expert'' ''Single expert'' ''Use one profile that declares every role.'' (single_expert (ed_profiles c)),
      preset_of ''cheap_fanout'' ''Cheap fan-out'' ''Use up to two lowest-cost eligible profiles per role.''
        (cheap_fanout (ed_profiles c)),
      preset_of ''strong_integrator'' ''Strong integrator'' ''Use the highest-cost eligible profile for each role.''
        (strong_integrator (ed_profiles c))]"

definition preset_view :: "preset \<Rightarrow> json" where
  "preset_view ps = JObj [(''id'', JStr (ps_id ps)), (''label'', JStr (ps_label ps)), (''description'', JStr (ps_description ps)),
     (''routing'', JObj (map (\<lambda>(r, ns). (role_value r, strs ns)) (ps_routing ps))), (''available'', JBool (ps_reason ps = None)),
     (''reason'', opt_text (ps_reason ps))]"

subsection \<open>Bodies\<close>

record profile_body =
  pb_name :: string
  pb_protocol :: string
  pb_base_url :: string
  pb_model :: string
  pb_api_key_env :: "string option"
  pb_allow_insecure_http :: bool
  pb_roles :: "string list"
  pb_capabilities :: "string list"
  pb_max_concurrency :: int
  pb_requests_per_minute :: int
  pb_context_window_tokens :: int
  pb_max_output_tokens :: int
  pb_request_timeout_seconds :: rat
  pb_strict_stream_completion :: bool
  pb_transport_retries :: nat
  pb_transport_retry_backoff_seconds :: "rat list"
  pb_input_price_per_million_usd :: rat
  pb_output_price_per_million_usd :: rat
  pb_auth_header :: "string option"
  pb_extra_headers :: "(string \<times> string) list"
  pb_extra_query :: "(string \<times> string) list"
  pb_token_limit_param :: string

definition positive :: "int \<Rightarrow> nat option" where
  "positive i = (if 1 \<le> i then Some (nat i) else None)"

text \<open>\<open>None\<close> is the \<^verbatim>\<open>ValueError\<close> or \<^verbatim>\<open>ValidationError\<close> of the construction.\<close>

definition build_profile :: "toml_lib \<Rightarrow> profile_body \<Rightarrow> text_profile option" where
  "build_profile lib b = do {
     proto \<leftarrow> parse_protocol (pb_protocol b);
     rs \<leftarrow> those (map parse_role (pb_roles b));
     cs \<leftarrow> those (map parse_capability (pb_capabilities b));
     parts \<leftarrow> tl_urlparse lib (pb_base_url b);
     conc \<leftarrow> positive (pb_max_concurrency b);
     rpm \<leftarrow> positive (pb_requests_per_minute b);
     window \<leftarrow> positive (pb_context_window_tokens b);
     outs \<leftarrow> positive (pb_max_output_tokens b);
     let p = \<lparr>mp_name = pb_name b, protocol = proto, base_url = parts, model_id = pb_model b,
       api_key_env = (case pb_api_key_env b of None \<Rightarrow> None | Some n \<Rightarrow> if n = [] then None else Some n),
       allow_insecure_http = pb_allow_insecure_http b, roles = set rs, capabilities = set cs, max_concurrency = conc,
       requests_per_minute = rpm, context_window_tokens = window, max_output_tokens = outs,
       request_timeout_seconds = pb_request_timeout_seconds b, strict_stream_completion = pb_strict_stream_completion b,
       transport_retries = pb_transport_retries b, transport_retry_backoff_seconds = pb_transport_retry_backoff_seconds b,
       input_price_per_million_usd = pb_input_price_per_million_usd b,
       output_price_per_million_usd = pb_output_price_per_million_usd b, auth_header = pb_auth_header b,
       extra_headers = pb_extra_headers b, extra_query = pb_extra_query b, token_limit_param = pb_token_limit_param b,
       base_url_text = pb_base_url b\<rparr>;
     (if profile_valid lib p then Some p else None)
   }"

record run_settings_body =
  rb_default_budget_tokens :: int
  rb_default_budget_cost_usd :: rat
  rb_stall_window_seconds :: rat
  rb_planner_mode :: string
  rb_falsifier_mode :: string
  rb_calibration_path :: string

text \<open>The body has no field for the memory, so the construction takes the default.\<close>

definition build_run :: "run_settings_body \<Rightarrow> run_config option" where
  "build_run b =
     (if rb_default_budget_tokens b < 0 then None
      else let r = \<lparr>default_budget_tokens = nat (rb_default_budget_tokens b), default_budget_cost_usd = rb_default_budget_cost_usd b,
          stall_window_seconds = rb_stall_window_seconds b, planner_mode = rb_planner_mode b,
          falsifier_mode = rb_falsifier_mode b, calibration_path = rb_calibration_path b,
          memory_enabled = memory_enabled run_defaults\<rparr>
        in if run_valid r then Some r else None)"

record command_body =
  cb_name :: string
  cb_argv :: "string list"
  cb_timeout_seconds :: rat
  cb_max_output_bytes :: int
  cb_env_allowlist :: "string list"
  cb_isolation :: isolation
  cb_docker_image :: string

definition build_command :: "command_body \<Rightarrow> command_config option" where
  "build_command b =
     (if cb_max_output_bytes b < 0 then None
      else let c = \<lparr>cc_name = cb_name b, argv = cb_argv b, timeout_seconds = cb_timeout_seconds b,
          cc_max_output_bytes = nat (cb_max_output_bytes b), env_allowlist = cb_env_allowlist b,
          isolation = cb_isolation b, docker_image = cb_docker_image b\<rparr>
        in if validate_command c = None then Some c else None)"

text \<open>\<^verbatim>\<open>list(e["profiles"])\<close> of a text is the list of its characters, of a table its keys; a missing key and a
  value that is not iterable raise what the handler does not catch.\<close>

datatype built_route = Route route_mapping | Bad_route | Route_crash

definition listed_names :: "json \<Rightarrow> json list option" where
  "listed_names v = (case v of JArr vs \<Rightarrow> Some vs | JStr s \<Rightarrow> Some (map (\<lambda>c. JStr [c]) s)
     | JObj kvs \<Rightarrow> Some (map (\<lambda>(k, x). JStr k) kvs) | _ \<Rightarrow> None)"

definition build_route :: "(string \<times> json) list \<Rightarrow> built_route" where
  "build_route e =
     (case obj_get e ''role'' of
        None \<Rightarrow> Route_crash
      | Some rv \<Rightarrow>
          (case as_choice parse_role rv of
             None \<Rightarrow> Bad_route
           | Some r \<Rightarrow>
               (case Option.bind (obj_get e ''profiles'') listed_names of
                  None \<Rightarrow> Route_crash
                | Some vs \<Rightarrow>
                    (case read_all as_text vs of
                       None \<Rightarrow> Bad_route
                     | Some ns \<Rightarrow> if ns = [] then Bad_route else Route \<lparr>rm_role = r, rm_profiles = ns\<rparr>))))"

text \<open>The first entry that fails decides.\<close>

fun build_routing :: "(string \<times> json) list list \<Rightarrow> built_route + route_mapping list" where
  "build_routing [] = Inr []"
| "build_routing (e # es) =
     (case build_route e of
        Route m \<Rightarrow> (case build_routing es of Inl b \<Rightarrow> Inl b | Inr ms \<Rightarrow> Inr (m # ms))
      | b \<Rightarrow> Inl b)"

subsection \<open>Handlers\<close>

record web_env =
  we_lib :: toml_lib
  we_environ :: "string \<Rightarrow> string option"
  we_invalid :: string
  we_spawn :: os_spawn
  we_lossy :: "string \<Rightarrow> string"
  we_seconds :: "rat \<Rightarrow> string"
  we_scratch :: string

definition refusal :: "web_env \<Rightarrow> store_error \<Rightarrow> reply" where
  "refusal env e =
     (case e of
        Bad_value m \<Rightarrow> Refused 400 m
      | Bad_toml \<Rightarrow> Refused 400 (we_invalid env)
      | Invalid_config \<Rightarrow> Refused 400 (we_invalid env)
      | File_not_found \<Rightarrow> Crashed
      | Write_failed \<Rightarrow> Crashed)"

definition mutate_store ::
  "web_env \<Rightarrow> (config_store \<Rightarrow> store_error option \<times> config_store) \<Rightarrow> config_store \<Rightarrow> reply \<times> config_store" where
  "mutate_store env act st =
     (case act st of
        (Some e, st') \<Rightarrow> (refusal env e, st')
      | (None, st') \<Rightarrow> (Reply (store_view (we_environ env) st'), st'))"

text \<open>An edit whose argument is built first.\<close>

definition mutate_with ::
  "web_env \<Rightarrow> 'a option \<Rightarrow> ('a \<Rightarrow> config_store \<Rightarrow> store_error option \<times> config_store) \<Rightarrow> config_store \<Rightarrow> reply \<times> config_store" where
  "mutate_with env arg act st =
     (case arg of None \<Rightarrow> (Refused 400 (we_invalid env), st) | Some a \<Rightarrow> mutate_store env (act a) st)"

definition get_secrets_status :: "web_env \<Rightarrow> config_store \<Rightarrow> reply" where
  "get_secrets_status env st = Reply (JObj [(''profiles'', JArr (map (\<lambda>p. JObj [(''name'', JStr (mp_name p)),
     (''api_key_env'', opt_text (api_key_env p)), (''key_status'', JStr (key_status (we_environ env) p))])
     (ed_profiles (store_config st))))])"

definition put_run :: "web_env \<Rightarrow> run_settings_body \<Rightarrow> config_store \<Rightarrow> reply \<times> config_store" where
  "put_run env b = mutate_with env (build_run b) (update_run (we_lib env))"

definition put_routing :: "web_env \<Rightarrow> (string \<times> json) list list \<Rightarrow> config_store \<Rightarrow> reply \<times> config_store" where
  "put_routing env entries st =
     (case build_routing entries of
        Inl Route_crash \<Rightarrow> (Crashed, st)
      | Inl _ \<Rightarrow> (Refused 400 (we_invalid env), st)
      | Inr es \<Rightarrow> mutate_store env (update_routing (we_lib env) es) st)"

definition get_routing_presets :: "config_store \<Rightarrow> reply" where
  "get_routing_presets st = Reply (JObj [(''presets'', JArr (map preset_view (routing_presets (store_config st))))])"

definition apply_routing_preset :: "web_env \<Rightarrow> string \<Rightarrow> config_store \<Rightarrow> reply \<times> config_store" where
  "apply_routing_preset env i st =
     (case find (\<lambda>p. ps_id p = i) (routing_presets (store_config st)) of
        None \<Rightarrow> (Refused 404 (''unknown preset: '' @ i), st)
      | Some p \<Rightarrow>
          (case ps_reason p of
             Some why \<Rightarrow> (Refused 400 why, st)
           | None \<Rightarrow> put_routing env (map (\<lambda>(r, ns). [(''role'', JStr (role_value r)), (''profiles'', strs ns)]) (ps_routing p)) st))"

definition post_profile :: "web_env \<Rightarrow> profile_body \<Rightarrow> config_store \<Rightarrow> reply \<times> config_store" where
  "post_profile env b = mutate_with env (build_profile (we_lib env) b) (add_profile (we_lib env))"

definition put_profile :: "web_env \<Rightarrow> string \<Rightarrow> profile_body \<Rightarrow> config_store \<Rightarrow> reply \<times> config_store" where
  "put_profile env n b = mutate_with env (build_profile (we_lib env) b) (update_profile (we_lib env) n)"

definition post_command :: "web_env \<Rightarrow> command_body \<Rightarrow> config_store \<Rightarrow> reply \<times> config_store" where
  "post_command env b = mutate_with env (build_command b) (add_command (we_lib env))"

definition put_command :: "web_env \<Rightarrow> string \<Rightarrow> command_body \<Rightarrow> config_store \<Rightarrow> reply \<times> config_store" where
  "put_command env n b = mutate_with env (build_command b) (update_command (we_lib env) n)"

text \<open>The test of a command runs it on the host, whatever its isolation.\<close>

definition test_command :: "web_env \<Rightarrow> string \<Rightarrow> config_store \<Rightarrow> reply" where
  "test_command env n st =
     (case find (\<lambda>c. cc_name c = n) (ed_commands (store_config st)) of
        None \<Rightarrow> Refused 404 (''unknown command: '' @ n)
      | Some c \<Rightarrow>
          if argv c = [] then Refused 400 ''command has no argv''
          else (case run_command (we_spawn env) (we_lossy env) (we_seconds env) (we_environ env) (argv c) (Some (we_scratch env))
                  (env_allowlist c) (timeout_seconds c) (int (cc_max_output_bytes c)) of
             Inl _ \<Rightarrow> Crashed
           | Inr r \<Rightarrow> Reply (JObj [(''name'', JStr (cc_name c)), (''argv'', strs (argv c)),
               (''exit_code'', JInt (case cr_exit_code r of None \<Rightarrow> -1 | Some x \<Rightarrow> x)),
               (''stdout'', JStr (we_lossy env (cr_stdout r))),
               (''stderr'', JStr (if we_lossy env (cr_stderr r) = [] then cr_error r else we_lossy env (cr_stderr r))),
               (''truncated'', JBool (cr_truncated r)), (''isolated'', JBool False)])))"

definition save_config :: "web_env \<Rightarrow> string \<Rightarrow> bool \<Rightarrow> config_store \<Rightarrow> reply \<times> config_store" where
  "save_config env path writes st =
     (case save_to_toml (we_lib env) writes st of
        (Some e, st') \<Rightarrow> (Crashed, st')
      | (None, st') \<Rightarrow> (Reply (JObj [(''saved'', JStr path), (''config'', store_view (we_environ env) st')]), st'))"

definition reload_config :: "web_env \<Rightarrow> string \<Rightarrow> config_store \<Rightarrow> reply \<times> config_store" where
  "reload_config env path st =
     (if store_file st = None then (Refused 404 (''config file not found: '' @ path), st)
      else mutate_store env (reload_store (we_lib env)) st)"

definition get_config :: "web_env \<Rightarrow> config_store \<Rightarrow> reply" where
  "get_config env st = Reply (store_view (we_environ env) st)"

definition patch_name :: "web_env \<Rightarrow> string \<Rightarrow> config_store \<Rightarrow> reply \<times> config_store" where
  "patch_name env n = mutate_store env (update_name (we_lib env) n)"

definition remove_profile :: "web_env \<Rightarrow> string \<Rightarrow> bool \<Rightarrow> config_store \<Rightarrow> reply \<times> config_store" where
  "remove_profile env n remove_from_routing = mutate_store env (delete_profile (we_lib env) n remove_from_routing)"

definition post_duplicate :: "web_env \<Rightarrow> string \<Rightarrow> string \<Rightarrow> config_store \<Rightarrow> reply \<times> config_store" where
  "post_duplicate env n n' = mutate_store env (duplicate_profile (we_lib env) n n')"

definition remove_command :: "web_env \<Rightarrow> string \<Rightarrow> config_store \<Rightarrow> reply \<times> config_store" where
  "remove_command env n = mutate_store env (delete_command (we_lib env) n)"

definition post_validate :: "web_env \<Rightarrow> config_store \<Rightarrow> reply \<times> config_store" where
  "post_validate env st =
     (case mutate_store env (validate_store (we_lib env)) st of
        (Reply v, st') \<Rightarrow> (Reply (JObj [(''valid'', JBool True), (''config'', store_view (we_environ env) st')]), st')
      | refused \<Rightarrow> refused)"

definition reset_config :: "web_env \<Rightarrow> config_store \<Rightarrow> reply \<times> config_store" where
  "reset_config env st = (let st' = snd (reset_store st) in (Reply (store_view (we_environ env) st'), st'))"

definition get_toml :: "web_env \<Rightarrow> config_store \<Rightarrow> reply" where
  "get_toml env st = (case toml_document (we_lib env) st of None \<Rightarrow> Crashed | Some t \<Rightarrow> Reply (JObj [(''text'', JStr t)]))"

definition put_toml :: "web_env \<Rightarrow> string \<Rightarrow> config_store \<Rightarrow> reply \<times> config_store" where
  "put_toml env t = mutate_store env (apply_toml (we_lib env) t)"

subsection \<open>A preset that is offered is accepted\<close>

lemma max_by_in: "max_by key b xs \<in> insert b (set xs)"
  by (induction xs arbitrary: b) (auto split: if_splits)

lemma max_by_greatest: "x \<in> insert b (set xs) \<Longrightarrow> key x \<le> key (max_by key b xs)"
proof (induction xs arbitrary: b x)
  case (Cons y xs)
  let ?b = "if key b < key y then y else b"
  have "key z \<le> key (max_by key ?b xs)" if "z \<in> insert ?b (set xs)" for z using Cons.IH that by blast
  then have "key ?b \<le> key (max_by key ?b xs)" "x \<in> set xs \<Longrightarrow> key x \<le> key (max_by key ?b xs)" by simp_all
  moreover have "key b \<le> key ?b" "key y \<le> key ?b" by auto
  ultimately show ?case using Cons.prems by (auto simp del: if_split_asm split del: if_split)
qed simp

text \<open>The routing of a preset: each role once, each name a profile that declares the role.\<close>

definition good_routing :: "text_profile list \<Rightarrow> (role \<times> string list) list \<Rightarrow> bool" where
  "good_routing ps rt \<longleftrightarrow> map fst rt = all_roles
     \<and> list_all (\<lambda>(r, ns). ns \<noteq> [] \<and> list_all (\<lambda>n. list_ex (\<lambda>p. mp_name p = n \<and> r \<in> roles p) ps) ns) rt"

lemma single_good: "single_expert ps = (rt, None) \<Longrightarrow> good_routing ps rt"
proof -
  assume s: "single_expert ps = (rt, None)"
  then obtain q qs where q: "filter (\<lambda>p. list_all (\<lambda>r. r \<in> roles p) all_roles) ps = q # qs"
    "rt = map (\<lambda>r. (r, [mp_name (max_by strength q qs)])) all_roles"
    by (auto simp: single_expert_def split: list.splits)
  let ?e = "max_by strength q qs"
  have "?e \<in> set (filter (\<lambda>p. list_all (\<lambda>r. r \<in> roles p) all_roles) ps)" using max_by_in [of strength q qs] by (simp add: q(1))
  then show ?thesis by (auto simp: good_routing_def q(2) list_all_iff list_ex_iff o_def)
qed

lemma missing_none: "missing_reason ps = None \<Longrightarrow> r \<in> set all_roles \<Longrightarrow> eligible_for ps r \<noteq> []"
  by (auto simp: missing_reason_def Let_def filter_empty_conv split: if_splits)

lemma cheap_good: "cheap_fanout ps = (rt, None) \<Longrightarrow> good_routing ps rt"
proof -
  assume "cheap_fanout ps = (rt, None)"
  then have m: "missing_reason ps = None"
    and rt: "rt = map (\<lambda>r. (r, map mp_name (take 2 (sort_key cheapness (eligible_for ps r))))) all_roles"
    by (auto simp: cheap_fanout_def split: option.splits)
  let ?es = "\<lambda>r. take 2 (sort_key cheapness (eligible_for ps r))"
  have "?es r \<noteq> []" if "r \<in> set all_roles" for r
    using missing_none [OF m that] length_sort [of cheapness "eligible_for ps r"] by (metis length_0_conv take_eq_Nil zero_neq_numeral)
  moreover have "p \<in> set ps \<and> r \<in> roles p" if "p \<in> set (?es r)" for p r
    using in_set_takeD [OF that] by (simp add: eligible_for_def)
  ultimately show ?thesis by (fastforce simp: good_routing_def rt list_all_iff list_ex_iff o_def)
qed

lemma strong_good: "strong_integrator ps = (rt, None) \<Longrightarrow> good_routing ps rt"
proof -
  assume "strong_integrator ps = (rt, None)"
  then have m: "missing_reason ps = None"
    and rt: "rt = map (\<lambda>r. (r, [mp_name (max_by strength (hd (eligible_for ps r)) (tl (eligible_for ps r)))])) all_roles"
    by (auto simp: strong_integrator_def split: option.splits)
  have "max_by strength (hd (eligible_for ps r)) (tl (eligible_for ps r)) \<in> set (eligible_for ps r)" if "r \<in> set all_roles" for r
    using max_by_in [of strength "hd (eligible_for ps r)" "tl (eligible_for ps r)"] missing_none [OF m that]
    by (cases "eligible_for ps r") auto
  then show ?thesis by (auto simp: good_routing_def rt list_all_iff list_ex_iff o_def eligible_for_def)
qed

lemma presets_good: "p \<in> set (routing_presets c) \<Longrightarrow> ps_reason p = None \<Longrightarrow> good_routing (ed_profiles c) (ps_routing p)"
  using single_good cheap_good strong_good
  by (auto simp: routing_presets_def preset_of_def) (metis prod.collapse)+

definition as_routes :: "(role \<times> string list) list \<Rightarrow> route_mapping list" where
  "as_routes rt = map (\<lambda>(r, ns). \<lparr>rm_role = r, rm_profiles = ns\<rparr>) rt"

lemma build_routing_preset:
  "list_all (\<lambda>(r, ns). ns \<noteq> []) rt \<Longrightarrow>
     build_routing (map (\<lambda>(r, ns). [(''role'', JStr (role_value r)), (''profiles'', strs ns)]) rt) = Inr (as_routes rt)"
proof (induction rt)
  case (Cons x rt)
  obtain r ns where x: "x = (r, ns)" by (cases x)
  have "read_all as_text (map JStr ns) = Some ns" using read_all_back [of ns as_text JStr] by simp
  then have "build_route [(''role'', JStr (role_value r)), (''profiles'', strs ns)] = Route \<lparr>rm_role = r, rm_profiles = ns\<rparr>"
    using Cons.prems by (simp add: build_route_def obj_get_def listed_names_def strs_def x as_choice_def)
  with Cons show ?case by (simp add: x as_routes_def)
qed (simp add: as_routes_def)

lemma routes_accepted:
  assumes "distinct (map mp_name ps)"
  shows "distinct (map rm_role es) \<Longrightarrow> set seen \<inter> rm_role ` set es = {} \<Longrightarrow>
    list_all (\<lambda>e. list_all (\<lambda>n. list_ex (\<lambda>p. mp_name p = n \<and> rm_role e \<in> roles p) ps) (rm_profiles e)) es \<Longrightarrow>
    validate_routes ps seen es = None"
proof (induction es arbitrary: seen)
  case (Cons e es)
  have "n \<in> mp_name ` set ps" if "n \<in> set (rm_profiles e)" for n
    using Cons.prems(3) that by (auto simp: list_all_iff list_ex_iff)
  then have none: "filter (\<lambda>n. n \<notin> mp_name ` set ps) (rm_profiles e) = []" by (simp add: filter_empty_conv)
  have "(case find (\<lambda>p. mp_name p = n) ps of None \<Rightarrow> True | Some p \<Rightarrow> rm_role e \<notin> roles p) = False"
    if n: "n \<in> set (rm_profiles e)" for n
  proof -
    from Cons.prems(3) n obtain p where p: "p \<in> set ps" "mp_name p = n" "rm_role e \<in> roles p"
      by (auto simp: list_all_iff list_ex_iff)
    with find_name_unique [OF assms p(1)] show ?thesis by simp
  qed
  then have "find (\<lambda>n. case find (\<lambda>p. mp_name p = n) ps of None \<Rightarrow> True | Some p \<Rightarrow> rm_role e \<notin> roles p) (rm_profiles e) = None"
    unfolding find_None_iff by blast
  moreover have "validate_routes ps (rm_role e # seen) es = None" using Cons.prems by (intro Cons.IH) auto
  ultimately show ?case using Cons.prems none by simp
qed simp

lemma preset_valid:
  assumes "config_valid lib c" "good_routing (ed_profiles c) rt"
  shows "config_valid lib (c\<lparr>ed_routing := as_routes rt\<rparr>)"
proof -
  let ?ps = "map model_profile.truncate (ed_profiles c)"
  have "check_unique (map mp_name ?ps) ''profile names'' = None"
    using assms(1) by (auto simp: config_valid_def validate_config_def plain_config_def)
  from casefold_distinct [OF this] have d: "distinct (map mp_name ?ps)" .
  have roles: "map rm_role (as_routes rt) = all_roles"
    using assms(2) by (simp add: as_routes_def good_routing_def o_def case_prod_beta cong: map_cong)
  have "distinct all_roles" by (simp add: all_roles_def)
  moreover have "list_all (\<lambda>e. list_all (\<lambda>n. list_ex (\<lambda>p. mp_name p = n \<and> rm_role e \<in> roles p) ?ps) (rm_profiles e)) (as_routes rt)"
    using assms(2) by (fastforce simp: as_routes_def good_routing_def list_all_iff list_ex_iff model_profile.truncate_def)
  ultimately have "validate_routes ?ps [] (as_routes rt) = None" using routes_accepted [OF d, of "as_routes rt" "[]"] roles by simp
  moreover have "\<not> list_ex (\<lambda>e. rm_profiles e = []) (as_routes rt)"
    using assms(2) by (auto simp: as_routes_def good_routing_def list_all_iff list_ex_iff)
  ultimately show ?thesis using assms(1) by (simp add: config_valid_def validate_config_def plain_config_def)
qed

text \<open>C34: a preset that is offered is accepted.  Whenever the presets of the current configuration offer one as
  available, applying it succeeds: it answers with the new view, routes every role exactly once to
  existing profiles that declare it, changes nothing but the routing, and leaves the store valid and
  unsaved; one that is not available is refused and changes nothing.\<close>

theorem offered_preset_accepted:
  assumes "store_ok (we_lib env) st" "find (\<lambda>p. ps_id p = i) (routing_presets (store_config st)) = Some p"
  shows "case ps_reason p of
      Some why \<Rightarrow> apply_routing_preset env i st = (Refused 400 why, st)
    | None \<Rightarrow> (case apply_routing_preset env i st of (answer, st') \<Rightarrow>
        answer = Reply (store_view (we_environ env) st') \<and> store_ok (we_lib env) st'
        \<and> map rm_role (ed_routing (store_config st')) = all_roles \<and> routes_served (store_config st')
        \<and> st' = st\<lparr>store_config := (store_config st)\<lparr>ed_routing := as_routes (ps_routing p)\<rparr>, store_dirty := True\<rparr>)"
proof (cases "ps_reason p")
  case (Some why)
  with assms(2) show ?thesis by (simp add: apply_routing_preset_def)
next
  case None
  let ?c = "store_config st" and ?es = "as_routes (ps_routing p)"
  let ?st = "st\<lparr>store_config := ?c\<lparr>ed_routing := ?es\<rparr>, store_dirty := True\<rparr>"
  have built: "config_built (we_lib env) ?c" using assms(1) by (simp add: store_ok_def)
  have "p \<in> set (routing_presets ?c)" using assms(2) by (auto simp: find_Some_iff)
  from presets_good [OF this None] have good: "good_routing (ed_profiles ?c) (ps_routing p)" .
  have valid: "config_valid (we_lib env) (?c\<lparr>ed_routing := ?es\<rparr>)"
    using preset_valid [OF _ good] built by (simp add: config_built_def)
  have "list_all (\<lambda>(r, ns). ns \<noteq> []) (ps_routing p)" using good by (auto simp: good_routing_def list_all_iff)
  then have "apply_routing_preset env i st = (Reply (store_view (we_environ env) ?st), ?st)"
    using assms(2) None valid
    by (simp add: apply_routing_preset_def put_routing_def build_routing_preset mutate_store_def update_routing_def
        try_edit_def rebuild_def)
  moreover have "store_ok (we_lib env) ?st"
    using assms(1) valid built by (simp add: store_ok_def config_built_def)
  moreover have "map rm_role ?es = all_roles"
    using good by (simp add: as_routes_def good_routing_def o_def case_prod_beta cong: map_cong)
  ultimately show ?thesis using None valid_routes_served [OF valid] by simp
qed

definition sample_web_env :: web_env where
  "sample_web_env = \<lparr>we_lib = sample_toml_lib, we_environ = (\<lambda>n. None), we_invalid = ''invalid'',
     we_spawn = (\<lambda>args cwd env timeout. Os_failure ''start'' ''not found''), we_lossy = id, we_seconds = (\<lambda>s. ''10''), we_scratch = ''/tmp''\<rparr>"

theorem offered_preset_accepted_witness:
  "map rm_role (ed_routing (store_config (snd (apply_routing_preset sample_web_env ''single_expert'' (store_for UNIV))))) = all_roles"
proof -
  have f: "find (\<lambda>p. ps_id p = ''single_expert'') (routing_presets (store_config (store_for UNIV)))
      = Some (preset_of ''single_expert'' ''Single expert'' ''Use one profile that declares every role.''
          (single_expert (ed_profiles (store_config (store_for UNIV)))))"
    by (simp add: routing_presets_def preset_of_def)
  have ok: "store_ok (we_lib sample_web_env) (store_for UNIV)" using store_for_ok [of UNIV] by (simp add: sample_web_env_def)
  have "roles (sample_text_profile ''cheap'' UNIV) = UNIV"
    by (simp add: sample_text_profile_def model_profile.extend_def sample_profile_def)
  then have "snd (single_expert (ed_profiles (store_config (store_for UNIV)))) = None"
    by (simp add: single_expert_def store_for_def edit_config_for_def all_roles_def)
  then have r: "ps_reason (preset_of ''single_expert'' ''Single expert'' ''Use one profile that declares every role.''
      (single_expert (ed_profiles (store_config (store_for UNIV))))) = None" by (simp add: preset_of_def)
  from offered_preset_accepted [OF ok f] show ?thesis by (simp add: r split: prod.splits)
qed

subsection \<open>What the endpoints lose\<close>

text \<open>Saving the run settings switches the memory off; a test ignores the isolation of the command.\<close>

lemma put_run_memory:
  "put_run env b st = (Reply v, st') \<Longrightarrow> \<not> memory_enabled (ed_run (store_config st'))"
  by (auto simp: put_run_def mutate_with_def build_run_def mutate_store_def update_run_def try_edit_def rebuild_def refusal_def
      run_defaults_def Let_def split: if_splits option.splits store_error.splits)

lemma test_ignores_isolation:
  assumes "find (\<lambda>c. cc_name c = n) (ed_commands (store_config st)) = Some c"
    "find (\<lambda>c. cc_name c = n) (ed_commands (store_config st')) = Some (c\<lparr>isolation := Docker, docker_image := img\<rparr>)"
  shows "test_command env n st' = test_command env n st"
  using assms by (simp add: test_command_def split: sum.split)

end
