(* ===== verification/Benchmark.thy ===== *)
theory Benchmark
  imports Domain Text_Forms "HOL-Library.Product_Lexorder"
begin

section \<open>The benchmark runner (application/benchmark.py)\<close>

text \<open>
  Tasks and results, the runner with its best-of-n baseline and ablations, the summaries, the paired
  differences with their bootstrap, and the dominance analysis.  Scores and costs are exact rationals.
  A strategy is a function of the repeat in which it is called, the task and the index it is given;
  \<open>None\<close> is an exception.  The random generator and the formatting of numbers are parameters.
\<close>

datatype configuration = STRONG_SINGLE | CHEAP_BEST_OF_N | SINGLETON_EXPERT | COMPANY

fun configuration_value :: "configuration \<Rightarrow> string" where
  "configuration_value STRONG_SINGLE = ''strong_single''"
| "configuration_value CHEAP_BEST_OF_N = ''cheap_best_of_n''"
| "configuration_value SINGLETON_EXPERT = ''singleton_expert''"
| "configuration_value COMPANY = ''northstack''"

definition all_configurations :: "configuration list" where
  "all_configurations = [STRONG_SINGLE, CHEAP_BEST_OF_N, SINGLETON_EXPERT, COMPANY]"

fun configuration_index :: "configuration \<Rightarrow> nat" where
  "configuration_index STRONG_SINGLE = 0"
| "configuration_index CHEAP_BEST_OF_N = 1"
| "configuration_index SINGLETON_EXPERT = 2"
| "configuration_index COMPANY = 3"

subsection \<open>Tasks and results\<close>

record hidden_check =
  hc_name :: string
  hc_argv :: "string list"
  hc_expect_exit_code :: int
  hc_timeout_seconds :: rat
  hc_max_output_bytes :: nat
  hc_path :: string
  hc_content_contains :: string

record benchmark_task =
  bt_id :: string
  bt_category :: string
  bt_request :: string
  bt_workspace :: string
  bt_hidden_checks :: "string list"
  bt_checks :: "hidden_check list"
  bt_token_limit :: nat
  bt_cost_limit_usd :: rat
  bt_wall_time_limit_seconds :: rat
  bt_fixture_results :: "(string \<times> (string \<times> json) list) list"

text \<open>\<^verbatim>\<open>[a-z0-9](?:[a-z0-9_-]{0,62}[a-z0-9])?\Z\<close> and the names Windows reserves.\<close>

definition slug_end :: "char \<Rightarrow> bool" where
  "slug_end c \<longleftrightarrow> is_lower c \<or> is_digit c"

definition slug_char :: "char \<Rightarrow> bool" where
  "slug_char c \<longleftrightarrow> slug_end c \<or> c \<in> set ''_-''"

definition windows_reserved :: "string list" where
  "windows_reserved = [''con'', ''prn'', ''aux'', ''nul''] @ map (\<lambda>i. ''com'' @ show_nat i) [1..<10] @ map (\<lambda>i. ''lpt'' @ show_nat i) [1..<10]"

definition valid_task_id :: "string \<Rightarrow> bool" where
  "valid_task_id s \<longleftrightarrow> s \<noteq> [] \<and> length s \<le> 64 \<and> slug_end (hd s) \<and> slug_end (last s) \<and> list_all slug_char s
     \<and> casefold s \<notin> set windows_reserved"

record benchmark_suite =
  bs_name :: string
  bs_heldout :: bool
  bs_tasks :: "benchmark_task list"

definition valid_suite :: "benchmark_suite \<Rightarrow> bool" where
  "valid_suite s \<longleftrightarrow> bs_name s \<noteq> [] \<and> list_all (valid_task_id \<circ> bt_id) (bs_tasks s) \<and> distinct (map bt_id (bs_tasks s))"

record benchmark_config =
  bc_repeats :: nat
  bc_cheap_candidates :: nat
  bc_bootstrap_samples :: nat
  bc_seed :: int

definition valid_benchmark_config :: "benchmark_config \<Rightarrow> bool" where
  "valid_benchmark_config c \<longleftrightarrow> bc_repeats c \<in> {1..100} \<and> bc_cheap_candidates c \<in> {1..100}
     \<and> bc_bootstrap_samples c \<in> {1..1000000}"

record benchmark_metrics =
  bm_input_tokens :: nat
  bm_output_tokens :: nat
  bm_calls :: nat
  bm_wall_time_ms :: nat
  bm_retries :: nat
  bm_tool_operations :: nat
  bm_configured_cost_usd :: rat

definition no_metrics :: benchmark_metrics where
  "no_metrics = \<lparr>bm_input_tokens = 0, bm_output_tokens = 0, bm_calls = 0, bm_wall_time_ms = 0, bm_retries = 0,
     bm_tool_operations = 0, bm_configured_cost_usd = 0\<rparr>"

definition metrics_tokens :: "benchmark_metrics \<Rightarrow> nat" where
  "metrics_tokens m = bm_input_tokens m + bm_output_tokens m"

definition metrics_plus :: "benchmark_metrics \<Rightarrow> benchmark_metrics \<Rightarrow> benchmark_metrics" where
  "metrics_plus a b = \<lparr>bm_input_tokens = bm_input_tokens a + bm_input_tokens b,
     bm_output_tokens = bm_output_tokens a + bm_output_tokens b, bm_calls = bm_calls a + bm_calls b,
     bm_wall_time_ms = bm_wall_time_ms a + bm_wall_time_ms b, bm_retries = bm_retries a + bm_retries b,
     bm_tool_operations = bm_tool_operations a + bm_tool_operations b,
     bm_configured_cost_usd = bm_configured_cost_usd a + bm_configured_cost_usd b\<rparr>"

record run_result =
  rr_task_id :: string
  rr_configuration :: configuration
  rr_repeat_index :: nat
  rr_outcome :: run_outcome
  rr_verified_score :: rat
  rr_false_acceptance :: bool
  rr_false_rejection :: bool
  rr_error :: string
  rr_metrics :: benchmark_metrics
  rr_ablation :: string

definition valid_run_result :: "run_result \<Rightarrow> bool" where
  "valid_run_result r \<longleftrightarrow> 0 \<le> rr_verified_score r \<and> rr_verified_score r \<le> 1 \<and> 0 \<le> bm_configured_cost_usd (rr_metrics r)"

subsection \<open>Summaries\<close>

text \<open>\<^verbatim>\<open>ConfigurationSummary\<close> and \<^verbatim>\<open>AblationSummary\<close> differ in their key only.\<close>

record 'k result_summary =
  sm_key :: 'k
  sm_runs :: nat
  sm_verified :: nat
  sm_failed :: nat
  sm_abstained :: nat
  sm_false_acceptance :: nat
  sm_false_rejection :: nat
  sm_mean_verified_score :: rat
  sm_total_tokens :: nat
  sm_calls :: nat
  sm_wall_time_ms :: nat
  sm_retries :: nat
  sm_tool_operations :: nat
  sm_configured_cost_usd :: rat

definition tally :: "(run_result \<Rightarrow> bool) \<Rightarrow> run_result list \<Rightarrow> nat" where
  "tally P rs = length (filter P rs)"

definition summary_of :: "'k \<Rightarrow> run_result list \<Rightarrow> 'k result_summary" where
  "summary_of k sel = \<lparr>sm_key = k, sm_runs = length sel,
     sm_verified = tally (\<lambda>r. rr_outcome r = Outcome_VERIFIED) sel, sm_failed = tally (\<lambda>r. rr_outcome r = Outcome_FAILED) sel,
     sm_abstained = tally (\<lambda>r. rr_outcome r = Outcome_ABSTAINED) sel,
     sm_false_acceptance = tally rr_false_acceptance sel, sm_false_rejection = tally rr_false_rejection sel,
     sm_mean_verified_score = (if sel = [] then 0 else sum_list (map rr_verified_score sel) / of_nat (length sel)),
     sm_total_tokens = sum_list (map (metrics_tokens \<circ> rr_metrics) sel), sm_calls = sum_list (map (bm_calls \<circ> rr_metrics) sel),
     sm_wall_time_ms = sum_list (map (bm_wall_time_ms \<circ> rr_metrics) sel), sm_retries = sum_list (map (bm_retries \<circ> rr_metrics) sel),
     sm_tool_operations = sum_list (map (bm_tool_operations \<circ> rr_metrics) sel),
     sm_configured_cost_usd = sum_list (map (bm_configured_cost_usd \<circ> rr_metrics) sel)\<rparr>"

definition summarize_configuration :: "run_result list \<Rightarrow> configuration \<Rightarrow> configuration result_summary" where
  "summarize_configuration results c = summary_of c (filter (\<lambda>r. rr_configuration r = c) results)"

definition summarize_ablation :: "run_result list \<Rightarrow> string \<Rightarrow> string result_summary" where
  "summarize_ablation results label = summary_of label (filter (\<lambda>r. rr_ablation r = label) results)"

subsection \<open>Dominance\<close>

text \<open>The resource axes, each as a number.\<close>

definition resources_of :: "'k result_summary \<Rightarrow> rat list" where
  "resources_of s = [of_nat (sm_total_tokens s), of_nat (sm_calls s), of_nat (sm_wall_time_ms s), of_nat (sm_retries s),
     of_nat (sm_tool_operations s), sm_configured_cost_usd s]"

definition resource_axes :: "string list" where
  "resource_axes = [''total_tokens'', ''calls'', ''wall_time_ms'', ''retries'', ''tool_operations'', ''configured_cost_usd'']"

text \<open>The loop over the axes: \<open>None\<close> is the early \<^verbatim>\<open>return False\<close>.\<close>

fun axes_loop :: "rat list \<Rightarrow> rat list \<Rightarrow> bool \<Rightarrow> bool option" where
  "axes_loop (x # xs) (y # ys) strictly = (if y < x then None else axes_loop xs ys (strictly \<or> x < y))"
| "axes_loop xs ys strictly = Some strictly"

definition dominates :: "'k result_summary \<Rightarrow> 'k result_summary \<Rightarrow> bool" where
  "dominates a b =
     (if sm_mean_verified_score a < sm_mean_verified_score b then False
      else case axes_loop (resources_of a) (resources_of b) False of
        None \<Rightarrow> False
      | Some strictly \<Rightarrow> sm_mean_verified_score b < sm_mean_verified_score a \<or> strictly)"

record frontier_entry =
  fe_configuration :: configuration
  fe_mean_verified_score :: rat
  fe_resources :: "rat list"
  fe_dominated_by :: "string list"
  fe_pareto_efficient :: bool

definition frontier_entry_of :: "configuration result_summary list \<Rightarrow> configuration result_summary \<Rightarrow> frontier_entry" where
  "frontier_entry_of summaries s =
     (let dominated_by = sort (map (configuration_value \<circ> sm_key) (filter (\<lambda>o'. sm_key o' \<noteq> sm_key s \<and> dominates o' s) summaries))
      in \<lparr>fe_configuration = sm_key s, fe_mean_verified_score = sm_mean_verified_score s, fe_resources = resources_of s,
          fe_dominated_by = dominated_by, fe_pareto_efficient = (dominated_by = [])\<rparr>)"

definition analyze_frontier :: "configuration result_summary list \<Rightarrow> frontier_entry list" where
  "analyze_frontier summaries =
     sort_key (configuration_index \<circ> fe_configuration) (map (frontier_entry_of summaries) summaries)"

subsection \<open>The bootstrap\<close>

record confidence_interval =
  ci_mean :: rat
  ci_low :: rat
  ci_high :: rat
  ci_samples :: nat

text \<open>\<open>draw seed k n\<close> is the \<open>k\<close>-th \<^verbatim>\<open>randrange(n)\<close> of the generator.\<close>

definition bootstrap_means :: "(int \<Rightarrow> nat \<Rightarrow> nat \<Rightarrow> nat) \<Rightarrow> rat list \<Rightarrow> nat \<Rightarrow> int \<Rightarrow> rat list" where
  "bootstrap_means draw vs samples seed =
     map (\<lambda>i. sum_list (map (\<lambda>j. vs ! draw seed (i * length vs + j) (length vs)) [0..<length vs]) / of_nat (length vs)) [0..<samples]"

definition bootstrap_mean_ci :: "(int \<Rightarrow> nat \<Rightarrow> nat \<Rightarrow> nat) \<Rightarrow> rat list \<Rightarrow> nat \<Rightarrow> int \<Rightarrow> confidence_interval" where
  "bootstrap_mean_ci draw vs samples seed =
     (if vs = [] then \<lparr>ci_mean = 0, ci_low = 0, ci_high = 0, ci_samples = samples\<rparr>
      else let means = sort (bootstrap_means draw vs samples seed);
               low_index = nat \<lfloor>(25 / 1000 :: rat) * of_nat samples\<rfloor>;
               high_index = min (samples - 1) (nat \<lfloor>(975 / 1000 :: rat) * of_nat samples\<rfloor>)
           in \<lparr>ci_mean = sum_list vs / of_nat (length vs), ci_low = means ! low_index, ci_high = means ! high_index,
               ci_samples = samples\<rparr>)"

subsection \<open>The runner\<close>

type_synonym strategy = "nat \<Rightarrow> benchmark_task \<Rightarrow> nat \<Rightarrow> run_result option"

datatype benchmark_error =
    Missing_strategies "string list" | Wrong_task string string | Wrong_ablation_task string string string
  | Strategy_raised | Missing_pair

text \<open>The key of the selection, compared as a tuple.\<close>

definition selection_key :: "run_result \<Rightarrow> bool \<times> bool \<times> rat \<times> int" where
  "selection_key r = (rr_outcome r = Outcome_VERIFIED, \<not> rr_false_acceptance r, rr_verified_score r,
     - int (metrics_tokens (rr_metrics r)))"

fun first_max :: "('a \<Rightarrow> 'k::linorder) \<Rightarrow> 'a \<Rightarrow> 'a list \<Rightarrow> 'a" where
  "first_max key b [] = b"
| "first_max key b (x # xs) = first_max key (if key b < key x then x else b) xs"

definition normalize_result :: "run_result \<Rightarrow> benchmark_task \<Rightarrow> configuration \<Rightarrow> nat \<Rightarrow> benchmark_error + run_result" where
  "normalize_result r t c i =
     (if rr_task_id r \<noteq> bt_id t then Inl (Wrong_task (rr_task_id r) (bt_id t))
      else Inr (r\<lparr>rr_configuration := c, rr_repeat_index := i\<rparr>))"

definition run_strategy :: "strategy \<Rightarrow> nat \<Rightarrow> benchmark_task \<Rightarrow> configuration \<Rightarrow> nat \<Rightarrow> benchmark_error + run_result" where
  "run_strategy strat i t c index =
     (case strat i t index of None \<Rightarrow> Inl Strategy_raised | Some r \<Rightarrow> normalize_result r t c i)"

text \<open>The results of a list of steps, up to the first error.\<close>

fun collect_results :: "(benchmark_error + 'a) list \<Rightarrow> benchmark_error + 'a list" where
  "collect_results [] = Inr []"
| "collect_results (Inl e # rs) = Inl e"
| "collect_results (Inr x # rs) = (case collect_results rs of Inl e \<Rightarrow> Inl e | Inr xs \<Rightarrow> Inr (x # xs))"

definition best_of :: "nat \<Rightarrow> run_result list \<Rightarrow> run_result" where
  "best_of i candidates =
     (first_max selection_key (hd candidates) (tl candidates))
       \<lparr>rr_metrics := fold (\<lambda>c m. metrics_plus m (rr_metrics c)) candidates no_metrics, rr_repeat_index := i\<rparr>"

definition run_best_of_n :: "strategy \<Rightarrow> nat \<Rightarrow> benchmark_task \<Rightarrow> nat \<Rightarrow> benchmark_error + run_result" where
  "run_best_of_n strat n t i =
     (case collect_results (map (run_strategy strat i t CHEAP_BEST_OF_N) [0..<n]) of
        Inl e \<Rightarrow> Inl e
      | Inr candidates \<Rightarrow> Inr (best_of i candidates))"

definition run_configuration ::
  "(configuration \<Rightarrow> strategy) \<Rightarrow> benchmark_config \<Rightarrow> benchmark_task \<Rightarrow> nat \<Rightarrow> configuration \<Rightarrow> benchmark_error + run_result" where
  "run_configuration strats cfg t i c =
     (if c = CHEAP_BEST_OF_N then run_best_of_n (strats c) (bc_cheap_candidates cfg) t i
      else run_strategy (strats c) i t c i)"

definition run_ablation :: "benchmark_task \<Rightarrow> nat \<Rightarrow> string \<times> strategy \<Rightarrow> benchmark_error + run_result" where
  "run_ablation t i ls =
     (case ls of (label, strat) \<Rightarrow>
        (case strat i t i of
           None \<Rightarrow> Inl Strategy_raised
         | Some r \<Rightarrow> if rr_task_id r \<noteq> bt_id t then Inl (Wrong_ablation_task label (rr_task_id r) (bt_id t))
             else Inr (r\<lparr>rr_configuration := COMPANY, rr_repeat_index := i, rr_ablation := label\<rparr>)))"

text \<open>One task and repeat: the four configurations, then the ablations.\<close>

definition run_round ::
  "(configuration \<Rightarrow> strategy) \<Rightarrow> (string \<times> strategy) list \<Rightarrow> benchmark_config \<Rightarrow> benchmark_task \<times> nat
     \<Rightarrow> benchmark_error + run_result list \<times> run_result list" where
  "run_round strats ablations cfg ti =
     (case ti of (t, i) \<Rightarrow>
        (case collect_results (map (run_configuration strats cfg t i) all_configurations) of
           Inl e \<Rightarrow> Inl e
         | Inr rs \<Rightarrow> (case collect_results (map (run_ablation t i) ablations) of Inl e \<Rightarrow> Inl e | Inr as \<Rightarrow> Inr (rs, as))))"

definition rounds_of :: "benchmark_task list \<Rightarrow> nat \<Rightarrow> (benchmark_task \<times> nat) list" where
  "rounds_of tasks n = concat (map (\<lambda>t. map (\<lambda>i. (t, i)) [0..<n]) tasks)"

text \<open>A later result of the same task, repeat and configuration overwrites the earlier in the index.\<close>

definition indexed_score :: "run_result list \<Rightarrow> string \<Rightarrow> nat \<Rightarrow> configuration \<Rightarrow> rat option" where
  "indexed_score rs t i c =
     map_of (rev (map (\<lambda>r. ((rr_task_id r, rr_repeat_index r, rr_configuration r), rr_verified_score r)) rs)) (t, i, c)"

definition score_difference :: "run_result list \<Rightarrow> configuration \<Rightarrow> string \<times> nat \<Rightarrow> benchmark_error + rat" where
  "score_difference rs baseline ti =
     (case ti of (t, i) \<Rightarrow>
        (case (indexed_score rs t i COMPANY, indexed_score rs t i baseline) of
           (Some a, Some b) \<Rightarrow> Inr (a - b) | _ \<Rightarrow> Inl Missing_pair))"

definition result_pairs :: "run_result list \<Rightarrow> (string \<times> nat) list" where
  "result_pairs rs = sort (remdups (map (\<lambda>r. (rr_task_id r, rr_repeat_index r)) rs))"

definition paired_difference ::
  "(int \<Rightarrow> nat \<Rightarrow> nat \<Rightarrow> nat) \<Rightarrow> benchmark_config \<Rightarrow> run_result list \<Rightarrow> configuration
     \<Rightarrow> benchmark_error + configuration \<times> confidence_interval" where
  "paired_difference draw cfg rs baseline =
     (case collect_results (map (score_difference rs baseline) (result_pairs rs)) of
        Inl e \<Rightarrow> Inl e
      | Inr ds \<Rightarrow> Inr (baseline, bootstrap_mean_ci draw ds (bc_bootstrap_samples cfg) (bc_seed cfg + int (configuration_index baseline))))"

definition paired_differences ::
  "(int \<Rightarrow> nat \<Rightarrow> nat \<Rightarrow> nat) \<Rightarrow> benchmark_config \<Rightarrow> run_result list
     \<Rightarrow> benchmark_error + (configuration \<times> confidence_interval) list" where
  "paired_differences draw cfg rs =
     collect_results (map (paired_difference draw cfg rs) (filter (\<lambda>c. c \<noteq> COMPANY) all_configurations))"

record benchmark_report =
  br_config :: benchmark_config
  br_results :: "run_result list"
  br_summaries :: "configuration result_summary list"
  br_paired_differences :: "(configuration \<times> confidence_interval) list"
  br_ablation_results :: "run_result list"
  br_ablation_summaries :: "string result_summary list"
  br_frontier :: "frontier_entry list"

definition run_benchmark ::
  "(int \<Rightarrow> nat \<Rightarrow> nat \<Rightarrow> nat) \<Rightarrow> (configuration \<times> strategy) list \<Rightarrow> (string \<times> strategy) list \<Rightarrow> benchmark_config
     \<Rightarrow> benchmark_task list \<Rightarrow> benchmark_error + benchmark_report" where
  "run_benchmark draw strats ablations cfg tasks =
     (let missing = filter (\<lambda>c. map_of strats c = None) all_configurations
      in if missing \<noteq> [] then Inl (Missing_strategies (sort (map configuration_value missing)))
         else case collect_results (map (run_round (\<lambda>c. the (map_of strats c)) ablations cfg) (rounds_of tasks (bc_repeats cfg))) of
           Inl e \<Rightarrow> Inl e
         | Inr rounds \<Rightarrow>
             (let results = concat (map fst rounds); ablated = concat (map snd rounds);
                  summaries = map (summarize_configuration results) all_configurations
              in case paired_differences draw cfg results of
                   Inl e \<Rightarrow> Inl e
                 | Inr paired \<Rightarrow> Inr \<lparr>br_config = cfg, br_results = results, br_summaries = summaries,
                     br_paired_differences = paired, br_ablation_results = ablated,
                     br_ablation_summaries = map (summarize_ablation ablated) (sort (map fst ablations)),
                     br_frontier = analyze_frontier summaries\<rparr>))"

subsection \<open>Reports\<close>

text \<open>\<open>fmt3\<close> and \<open>fmt6\<close> are the formats with three and six digits.\<close>

definition summary_cells :: "(rat \<Rightarrow> string) \<Rightarrow> (rat \<Rightarrow> string) \<Rightarrow> 'k result_summary \<Rightarrow> string" where
  "summary_cells fmt3 fmt6 s = str_join '' | '' [show_nat (sm_runs s), show_nat (sm_verified s), show_nat (sm_failed s),
     show_nat (sm_abstained s), show_nat (sm_false_acceptance s), show_nat (sm_false_rejection s),
     fmt3 (sm_mean_verified_score s), show_nat (sm_total_tokens s), show_nat (sm_calls s), show_nat (sm_wall_time_ms s),
     show_nat (sm_retries s), show_nat (sm_tool_operations s), fmt6 (sm_configured_cost_usd s)]"

definition resource_cells :: "(rat \<Rightarrow> string) \<Rightarrow> (rat \<Rightarrow> string) \<Rightarrow> rat list \<Rightarrow> string" where
  "resource_cells fmt0 fmt6 rs = str_join '' | '' (map fmt0 (butlast rs) @ [fmt6 (last rs)])"

definition frontier_markdown :: "(rat \<Rightarrow> string) \<Rightarrow> (rat \<Rightarrow> string) \<Rightarrow> (rat \<Rightarrow> string) \<Rightarrow> frontier_entry list \<Rightarrow> string" where
  "frontier_markdown fmt0 fmt3 fmt6 entries =
     (let title = [''## Quality-resource frontier (Pareto)'', []]
      in if entries = [] then str_join newline (title @ [''(no configurations)'']) @ newline
         else str_join newline
           (title @ [''Dominance: quality no worse AND every resource axis no worse AND'',
              ''at least one strictly better. Frontier membership is the claim'', ''the data supports -- not a winner.'', [],
              ''| Configuration | Quality | Tokens | Calls | Wall time | Retries | Tool ops | Cost | Dominated by |'',
              concat (replicate 9 ''|---'') @ ''|'']
            @ map (\<lambda>e. ''| '' @ configuration_value (fe_configuration e) @ '' | '' @ fmt3 (fe_mean_verified_score e) @ '' | ''
                @ resource_cells fmt0 fmt6 (fe_resources e) @ '' | ''
                @ (if fe_dominated_by e = [] then [CHR 0xE2, CHR 0x80, CHR 0x94] @ '' (frontier)'' else str_join '', '' (fe_dominated_by e))
                @ '' |'') entries) @ newline)"

definition report_to_markdown :: "(rat \<Rightarrow> string) \<Rightarrow> (rat \<Rightarrow> string) \<Rightarrow> (rat \<Rightarrow> string) \<Rightarrow> benchmark_report \<Rightarrow> string" where
  "report_to_markdown fmt0 fmt3 fmt6 r = str_join newline
     ([''# Mini-company benchmark report'', [],
       ''All failures and abstentions are retained. Resource totals include rejected cheap candidates.'', [],
       ''| Configuration | Runs | Verified | Failed | Abstained | False acceptance | False rejection | Mean score | ''
         @ ''Tokens | Calls | Wall ms | Retries | Tool ops | Cost USD |'',
       ''|---|'' @ concat (replicate 13 ''---:|'')]
      @ map (\<lambda>s. ''| '' @ configuration_value (sm_key s) @ '' | '' @ summary_cells fmt3 fmt6 s @ '' |'') (br_summaries r)
      @ [[], ''## Paired company minus baseline verified-score differences'', []]
      @ map (\<lambda>(b, ci). ''- **'' @ configuration_value b @ ''**: mean '' @ fmt3 (ci_mean ci) @ '', 95% bootstrap CI [''
          @ fmt3 (ci_low ci) @ '', '' @ fmt3 (ci_high ci) @ '']'') (br_paired_differences r)
      @ [[], frontier_markdown fmt0 fmt3 fmt6 (br_frontier r)]
      @ (if br_ablation_summaries r = [] then []
         else [[], ''## Component ablations (company minus one mechanism)'', [],
             ''| Ablation | Runs | Verified | Failed | Abstained | False acc | False rej | Mean score | ''
               @ ''Tokens | Calls | Wall ms | Retries | Tool ops | Cost USD |'',
             ''|---|'' @ concat (replicate 13 ''---:|'')]
           @ map (\<lambda>s. ''| '' @ sm_key s @ '' | '' @ summary_cells fmt3 fmt6 s @ '' |'') (br_ablation_summaries r))) @ newline"

subsection \<open>Fixtures\<close>

text \<open>\<^verbatim>\<open>float\<close>, \<^verbatim>\<open>int\<close>, \<^verbatim>\<open>bool\<close> and \<^verbatim>\<open>str\<close> on the values of a fixture.\<close>

record fixture_lib =
  fx_float :: "json \<Rightarrow> rat option"
  fx_int :: "json \<Rightarrow> int option"
  fx_bool :: "json \<Rightarrow> bool"
  fx_str :: "json \<Rightarrow> string"

text \<open>A label that cannot be a key of a dict raises; an unknown one abstains.\<close>

definition fixture_outcome :: "json \<Rightarrow> run_outcome option" where
  "fixture_outcome v =
     (case v of
        JStr s \<Rightarrow> Some (if s = ''verified'' then Outcome_VERIFIED else if s = ''failed'' then Outcome_FAILED else Outcome_ABSTAINED)
      | JArr vs \<Rightarrow> None
      | JObj kvs \<Rightarrow> None
      | _ \<Rightarrow> Some Outcome_ABSTAINED)"

definition fixture_nat :: "fixture_lib \<Rightarrow> (string \<times> json) list \<Rightarrow> string \<Rightarrow> int \<Rightarrow> nat option" where
  "fixture_nat lib fx k d =
     (case (case obj_get fx k of None \<Rightarrow> Some d | Some v \<Rightarrow> fx_int lib v) of
        Some i \<Rightarrow> if 0 \<le> i then Some (nat i) else None | None \<Rightarrow> None)"

definition fixture_float :: "fixture_lib \<Rightarrow> (string \<times> json) list \<Rightarrow> string \<Rightarrow> rat option" where
  "fixture_float lib fx k = (case obj_get fx k of None \<Rightarrow> Some 0 | Some v \<Rightarrow> fx_float lib v)"

definition fixture_flag :: "fixture_lib \<Rightarrow> (string \<times> json) list \<Rightarrow> string \<Rightarrow> bool" where
  "fixture_flag lib fx k = (case obj_get fx k of None \<Rightarrow> False | Some v \<Rightarrow> fx_bool lib v)"

definition fixture_metrics :: "fixture_lib \<Rightarrow> (string \<times> json) list \<Rightarrow> benchmark_metrics option" where
  "fixture_metrics lib fx =
     (case (fixture_nat lib fx ''input_tokens'' 0, fixture_nat lib fx ''output_tokens'' 0, fixture_nat lib fx ''calls'' 1,
            fixture_nat lib fx ''wall_time_ms'' 0, fixture_nat lib fx ''retries'' 0, fixture_nat lib fx ''tool_operations'' 0,
            fixture_float lib fx ''configured_cost_usd'') of
        (Some i, Some o', Some c, Some w, Some r, Some t, Some usd) \<Rightarrow>
          Some \<lparr>bm_input_tokens = i, bm_output_tokens = o', bm_calls = c, bm_wall_time_ms = w, bm_retries = r,
            bm_tool_operations = t, bm_configured_cost_usd = usd\<rparr>
      | _ \<Rightarrow> None)"

definition fixture_strategy :: "fixture_lib \<Rightarrow> configuration \<Rightarrow> strategy" where
  "fixture_strategy lib c now t i =
     (case map_of (bt_fixture_results t) (configuration_value c) of
        None \<Rightarrow> Some \<lparr>rr_task_id = bt_id t, rr_configuration = c, rr_repeat_index = i, rr_outcome = Outcome_ABSTAINED,
            rr_verified_score = 0, rr_false_acceptance = False, rr_false_rejection = False,
            rr_error = ''fixture result not provided'', rr_metrics = no_metrics, rr_ablation = []\<rparr>
      | Some fx \<Rightarrow>
          (case (fixture_outcome (case obj_get fx ''outcome'' of None \<Rightarrow> JStr ''abstained'' | Some v \<Rightarrow> v),
                 fixture_float lib fx ''verified_score'', fixture_metrics lib fx) of
             (Some out, Some score, Some m) \<Rightarrow>
               (let r = \<lparr>rr_task_id = bt_id t, rr_configuration = c, rr_repeat_index = i, rr_outcome = out,
                  rr_verified_score = score, rr_false_acceptance = fixture_flag lib fx ''false_acceptance'',
                  rr_false_rejection = fixture_flag lib fx ''false_rejection'',
                  rr_error = (case obj_get fx ''error'' of None \<Rightarrow> [] | Some v \<Rightarrow> fx_str lib v), rr_metrics = m, rr_ablation = []\<rparr>
                in if valid_run_result r then Some r else None)
           | _ \<Rightarrow> None))"

definition fixture_strategies :: "fixture_lib \<Rightarrow> (configuration \<times> strategy) list" where
  "fixture_strategies lib = map (\<lambda>c. (c, fixture_strategy lib c)) all_configurations"

end
