(* ===== verification/Benchmark_Properties.thy ===== *)
theory Benchmark_Properties
  imports Benchmark "HOL-Library.Multiset"
begin

section \<open>What a benchmark report says\<close>

text \<open>
  No run is discarded, every configuration is measured on the same tasks, the intervals of the paired
  differences lie where the differences lie, and the frontier is the set of maximal elements of the
  dominance order.
\<close>

subsection \<open>Steps that all succeed\<close>

lemma results_Inr: "collect_results rs = Inr xs \<Longrightarrow> rs = map Inr xs"
  by (induction rs arbitrary: xs rule: collect_results.induct) (auto split: sum.splits)

lemma all2_map_eq: "list_all2 (\<lambda>y x. f y = g x) ys xs \<Longrightarrow> map g xs = map f ys"
  by (induction rule: list_all2_induct) simp_all

lemma results_map: "collect_results (map f ys) = Inr xs \<Longrightarrow> length xs = length ys \<and> list_all2 (\<lambda>y x. f y = Inr x) ys xs"
proof -
  assume "collect_results (map f ys) = Inr xs"
  then have eq: "map f ys = map Inr xs" by (rule results_Inr)
  then have l: "length ys = length xs" by (metis length_map)
  then show ?thesis
    by (auto simp: list_all2_conv_all_nth) (metis eq nth_map)
qed

lemma results_member: "collect_results (map f ys) = Inr xs \<Longrightarrow> x \<in> set xs \<Longrightarrow> \<exists>y \<in> set ys. f y = Inr x"
proof -
  assume c: "collect_results (map f ys) = Inr xs" and x: "x \<in> set xs"
  from c have "map f ys = map Inr xs" by (rule results_Inr)
  then have "set (map f ys) = set (map Inr xs)" by (rule arg_cong)
  then have "Inr x \<in> f ` set ys" using x by simp
  then show ?thesis by (metis imageE)
qed

subsection \<open>Every run is retained\<close>

lemma run_strategy_facts:
  "run_strategy strat i t c k = Inr r \<Longrightarrow> rr_task_id r = bt_id t \<and> rr_repeat_index r = i \<and> rr_configuration r = c"
  by (auto simp: run_strategy_def normalize_result_def split: option.splits if_splits)

lemma first_max_in: "first_max key b xs \<in> insert b (set xs)"
  by (induction xs arbitrary: b) (auto split: if_splits)

lemma first_max_greatest: "x \<in> insert b (set xs) \<Longrightarrow> key x \<le> key (first_max key b xs)"
proof (induction xs arbitrary: b x)
  case (Cons y xs)
  let ?b = "if key b < key y then y else b"
  have "key z \<le> key (first_max key ?b xs)" if "z \<in> insert ?b (set xs)" for z using Cons.IH that by blast
  then have "key ?b \<le> key (first_max key ?b xs)" "x \<in> set xs \<Longrightarrow> key x \<le> key (first_max key ?b xs)" by simp_all
  moreover have "key b \<le> key ?b" "key y \<le> key ?b" by auto
  ultimately show ?case using Cons.prems by (auto simp del: if_split_asm split del: if_split)
qed simp

lemma best_of_n_facts:
  assumes "run_best_of_n strat n t i = Inr r" "0 < n"
  shows "rr_task_id r = bt_id t \<and> rr_repeat_index r = i \<and> rr_configuration r = CHEAP_BEST_OF_N"
proof -
  from assms(1) obtain cs where cs: "collect_results (map (run_strategy strat i t CHEAP_BEST_OF_N) [0..<n]) = Inr cs" "r = best_of i cs"
    by (auto simp: run_best_of_n_def split: sum.splits)
  note all = results_map [OF cs(1)]
  with assms(2) have "cs \<noteq> []" by auto
  then have "first_max selection_key (hd cs) (tl cs) \<in> set cs" using first_max_in [of selection_key "hd cs" "tl cs"]
    by (cases cs) auto
  then obtain k where "k < length cs" "cs ! k = first_max selection_key (hd cs) (tl cs)" by (auto simp: in_set_conv_nth)
  moreover have "run_strategy strat i t CHEAP_BEST_OF_N ([0..<n] ! k) = Inr (cs ! k)" if "k < length cs"
    using list_all2_nthD2 [OF conjunct2 [OF all] that] .
  ultimately have "run_strategy strat i t CHEAP_BEST_OF_N ([0..<n] ! k) = Inr (first_max selection_key (hd cs) (tl cs))" by simp
  from run_strategy_facts [OF this] show ?thesis by (simp add: cs(2) best_of_def)
qed

lemma run_configuration_facts:
  assumes "run_configuration strats cfg t i c = Inr r" "0 < bc_cheap_candidates cfg"
  shows "rr_task_id r = bt_id t \<and> rr_repeat_index r = i \<and> rr_configuration r = c"
  using assms best_of_n_facts run_strategy_facts by (auto simp: run_configuration_def split: if_splits)

definition result_key :: "run_result \<Rightarrow> string \<times> nat \<times> configuration" where
  "result_key r = (rr_task_id r, rr_repeat_index r, rr_configuration r)"

definition round_keys :: "benchmark_task \<times> nat \<Rightarrow> (string \<times> nat \<times> configuration) list" where
  "round_keys ti = map (\<lambda>c. (bt_id (fst ti), snd ti, c)) all_configurations"

lemma round_facts:
  assumes "run_round strats ablations cfg ti = Inr (rs, as)" "0 < bc_cheap_candidates cfg"
  shows "map result_key rs = round_keys ti \<and> map rr_ablation as = map fst ablations"
proof -
  obtain t i where ti: "ti = (t, i)" by (cases ti)
  have rs: "collect_results (map (run_configuration strats cfg t i) all_configurations) = Inr rs"
    and as: "collect_results (map (run_ablation t i) ablations) = Inr as"
    using assms(1) by (auto simp: run_round_def ti split: sum.splits)
  have "list_all2 (\<lambda>c r. (bt_id t, i, c) = result_key r) all_configurations rs"
    using results_map [OF rs] run_configuration_facts [OF _ assms(2)]
    by (auto simp: result_key_def elim!: list_all2_mono)
  then have "map result_key rs = round_keys ti"
    using all2_map_eq [of "\<lambda>c. (bt_id t, i, c)" result_key] by (simp add: round_keys_def ti)
  moreover have "list_all2 (\<lambda>ls r. fst ls = rr_ablation r) ablations as"
    using results_map [OF as] by (auto simp: run_ablation_def elim!: list_all2_mono split: option.splits if_splits)
  then have "map rr_ablation as = map fst ablations" by (rule all2_map_eq)
  ultimately show ?thesis by blast
qed

lemma rounds_facts:
  assumes "collect_results (map (run_round strats ablations cfg) tis) = Inr rounds" "0 < bc_cheap_candidates cfg"
  shows "map result_key (concat (map fst rounds)) = concat (map round_keys tis)
    \<and> map rr_ablation (concat (map snd rounds)) = concat (map (\<lambda>ti. map fst ablations) tis)"
proof -
  have "list_all2 (\<lambda>ti r. map result_key (fst r) = round_keys ti \<and> map rr_ablation (snd r) = map fst ablations) tis rounds"
    using results_map [OF assms(1)] round_facts [OF _ assms(2)] by (auto elim!: list_all2_mono)
  then show ?thesis by (induction rule: list_all2_induct) auto
qed

lemma length_rounds: "length (rounds_of tasks n) = length tasks * n"
  by (induction tasks) (simp_all add: rounds_of_def)

lemma key_counts:
  "length (filter (\<lambda>k. snd (snd k) = c) (concat (map round_keys tis))) = length tis"
  by (induction tis) (cases c; simp add: round_keys_def all_configurations_def)+

lemma outcome_split:
  "tally (\<lambda>r. rr_outcome r = Outcome_VERIFIED) rs + tally (\<lambda>r. rr_outcome r = Outcome_FAILED) rs
     + tally (\<lambda>r. rr_outcome r = Outcome_ABSTAINED) rs = length rs"
proof (induction rs)
  case (Cons r rs)
  then show ?case by (cases "rr_outcome r") (simp_all add: tally_def)
qed (simp add: tally_def)

lemma summarized_runs:
  assumes "map result_key rs = concat (map round_keys tis)"
  shows "sm_runs (summarize_configuration rs c) = length tis"
proof -
  have "length (filter (\<lambda>r. rr_configuration r = c) rs) = length (filter (\<lambda>k. snd (snd k) = c) (map result_key rs))"
    by (simp add: filter_map o_def result_key_def)
  then show ?thesis by (simp add: assms key_counts summarize_configuration_def summary_of_def)
qed

lemma partition_sum:
  fixes f :: "run_result \<Rightarrow> nat"
  shows "sum_list (map (\<lambda>c. sum_list (map f (filter (\<lambda>r. rr_configuration r = c) rs))) all_configurations) = sum_list (map f rs)"
proof (induction rs)
  case (Cons r rs)
  then show ?case by (cases "rr_configuration r") (simp_all add: all_configurations_def)
qed (simp add: all_configurations_def)

subsection \<open>A benchmark whose strategies answer finishes\<close>

lemma collect_all: "list_all (\<lambda>r. \<exists>x. r = Inr x) rs \<Longrightarrow> \<exists>xs. collect_results rs = Inr xs"
  by (induction rs rule: collect_results.induct) auto

definition answers :: "strategy \<Rightarrow> benchmark_task list \<Rightarrow> bool" where
  "answers strat tasks \<longleftrightarrow> (\<forall>now t i. t \<in> set tasks \<longrightarrow> (\<exists>r. strat now t i = Some r \<and> rr_task_id r = bt_id t))"

lemma answers_run: "answers strat tasks \<Longrightarrow> t \<in> set tasks \<Longrightarrow> \<exists>r. run_strategy strat i t c k = Inr r"
proof -
  assume "answers strat tasks" "t \<in> set tasks"
  then obtain r where "strat i t k = Some r" "rr_task_id r = bt_id t" unfolding answers_def by blast
  then show ?thesis by (simp add: run_strategy_def normalize_result_def)
qed

lemma answers_round:
  assumes "\<And>c. answers (strats c) tasks" "list_all (\<lambda>(l, s). answers s tasks) ablations" "fst ti \<in> set tasks"
  shows "\<exists>x. run_round strats ablations cfg ti = Inr x"
proof -
  obtain t i where ti: "ti = (t, i)" by (cases ti)
  have t: "t \<in> set tasks" using assms(3) by (simp add: ti)
  have "\<exists>r. run_configuration strats cfg t i c = Inr r" for c
  proof -
    have "\<exists>xs. collect_results (map (run_strategy (strats c) i t CHEAP_BEST_OF_N) [0..<bc_cheap_candidates cfg]) = Inr xs"
      using answers_run [OF assms(1) t] by (intro collect_all) (auto simp: list_all_iff)
    then show ?thesis using answers_run [OF assms(1) t] by (auto simp: run_configuration_def run_best_of_n_def)
  qed
  then obtain rs where rs: "collect_results (map (run_configuration strats cfg t i) all_configurations) = Inr rs"
    using collect_all [of "map (run_configuration strats cfg t i) all_configurations"] by (auto simp: list_all_iff)
  have "\<exists>r. run_ablation t i ls = Inr r" if "ls \<in> set ablations" for ls
  proof -
    obtain l s where ls: "ls = (l, s)" by (cases ls)
    have "answers s tasks" using assms(2) that by (auto simp: ls list_all_iff)
    then obtain r where "s i t i = Some r" "rr_task_id r = bt_id t" using t unfolding answers_def by blast
    then show ?thesis by (simp add: run_ablation_def ls)
  qed
  then obtain as where "collect_results (map (run_ablation t i) ablations) = Inr as"
    using collect_all [of "map (run_ablation t i) ablations"] by (auto simp: list_all_iff)
  with rs show ?thesis by (simp add: run_round_def ti)
qed

lemma indexed_present:
  assumes "(t, i, c) \<in> set (map result_key rs)"
  shows "\<exists>v. indexed_score rs t i c = Some v"
proof -
  let ?kvs = "map (\<lambda>r. (result_key r, rr_verified_score r)) rs"
  have "(t, i, c) \<in> fst ` set (rev ?kvs)" using assms by (simp add: image_image)
  then have "map_of (rev ?kvs) (t, i, c) \<noteq> None" unfolding map_of_eq_None_iff by blast
  then show ?thesis by (simp add: indexed_score_def result_key_def)
qed

lemma all_listed: "c \<in> set all_configurations"
  by (cases c) (simp_all add: all_configurations_def)

lemma pairs_complete:
  assumes "map result_key rs = concat (map round_keys tis)"
  shows "\<exists>x. paired_differences draw cfg rs = Inr x"
proof -
  have "\<exists>v. indexed_score rs t i c = Some v" if "(t, i) \<in> set (result_pairs rs)" for t i c
  proof -
    from that obtain r where "r \<in> set rs" "t = rr_task_id r" "i = rr_repeat_index r" by (auto simp: result_pairs_def)
    then have "(t, i, rr_configuration r) \<in> set (concat (map round_keys tis))"
      using assms by (metis (no_types, lifting) image_eqI list.set_map result_key_def)
    then have "(t, i, c) \<in> set (concat (map round_keys tis))" using all_listed by (auto simp: round_keys_def)
    then show ?thesis using indexed_present assms by metis
  qed
  then have "\<exists>d. score_difference rs b ti = Inr d" if "ti \<in> set (result_pairs rs)" for b ti
  proof -
    obtain t i where ti: "ti = (t, i)" by (cases ti)
    from \<open>\<And>t i c. (t, i) \<in> set (result_pairs rs) \<Longrightarrow> \<exists>v. indexed_score rs t i c = Some v\<close> [of t i] that
    obtain v w where "indexed_score rs t i COMPANY = Some v" "indexed_score rs t i b = Some w" unfolding ti by blast
    then show ?thesis by (simp add: score_difference_def ti)
  qed
  then have "\<exists>x. paired_difference draw cfg rs b = Inr x" for b
    using collect_all [of "map (score_difference rs b) (result_pairs rs)"] by (auto simp: paired_difference_def list_all_iff)
  then show ?thesis
    unfolding paired_differences_def by (intro collect_all) (simp add: list_all_iff)
qed

lemma benchmark_finishes:
  assumes "\<And>c. \<exists>s. map_of strats c = Some s \<and> answers s tasks" "list_all (\<lambda>(l, s). answers s tasks) ablations"
    "valid_benchmark_config cfg"
  shows "\<exists>r. run_benchmark draw strats ablations cfg tasks = Inr r"
proof -
  let ?strats = "\<lambda>c. the (map_of strats c)" and ?tis = "rounds_of tasks (bc_repeats cfg)"
  have n: "0 < bc_cheap_candidates cfg" using assms(3) by (simp add: valid_benchmark_config_def)
  have s: "answers (?strats c) tasks" for c using assms(1) [of c] by auto
  have "map_of strats c \<noteq> None" for c using assms(1) [of c] by auto
  then have none: "filter (\<lambda>c. map_of strats c = None) all_configurations = []" by (simp add: filter_empty_conv)
  have "fst ti \<in> set tasks" if "ti \<in> set ?tis" for ti using that by (auto simp: rounds_of_def)
  then obtain rounds where rounds: "collect_results (map (run_round ?strats ablations cfg) ?tis) = Inr rounds"
    using answers_round [OF s assms(2)] collect_all [of "map (run_round ?strats ablations cfg) ?tis"]
    by (auto simp: list_all_iff)
  then obtain x where "paired_differences draw cfg (concat (map fst rounds)) = Inr x"
    using pairs_complete rounds_facts [OF rounds n] by blast
  with none rounds show ?thesis by (simp add: run_benchmark_def Let_def)
qed


definition bare_task :: benchmark_task where
  "bare_task = \<lparr>bt_id = ''t1'', bt_category = ''edit'', bt_request = ''do'', bt_workspace = ''w'', bt_hidden_checks = [],
     bt_checks = [], bt_token_limit = 1000, bt_cost_limit_usd = 5, bt_wall_time_limit_seconds = 60, bt_fixture_results = []\<rparr>"

definition sample_fixture_lib :: fixture_lib where
  "sample_fixture_lib = \<lparr>fx_float = (\<lambda>v. None), fx_int = (\<lambda>v. None), fx_bool = (\<lambda>v. False), fx_str = (\<lambda>v. [])\<rparr>"

definition two_repeats :: benchmark_config where
  "two_repeats = \<lparr>bc_repeats = 2, bc_cheap_candidates = 3, bc_bootstrap_samples = 10, bc_seed = 1\<rparr>"

lemma fixtures_finish:
  "\<exists>r. run_benchmark draw (fixture_strategies sample_fixture_lib) [] two_repeats [bare_task] = Inr r"
proof (rule benchmark_finishes)
  fix c
  have "answers (fixture_strategy sample_fixture_lib c) [bare_task]"
    by (simp add: answers_def fixture_strategy_def bare_task_def)
  moreover have "map_of (fixture_strategies sample_fixture_lib) c = Some (fixture_strategy sample_fixture_lib c)"
    by (cases c) (simp_all add: fixture_strategies_def all_configurations_def)
  ultimately show "\<exists>s. map_of (fixture_strategies sample_fixture_lib) c = Some s \<and> answers s [bare_task]" by blast
qed (simp_all add: two_repeats_def valid_benchmark_config_def)


subsection \<open>The frontier\<close>

lemma axes_loop_spec:
  "length xs = length ys \<Longrightarrow> axes_loop xs ys b = (if list_all2 (\<le>) xs ys then Some (b \<or> xs \<noteq> ys) else None)"
  by (induction xs ys b rule: axes_loop.induct) auto

definition no_worse :: "'k result_summary \<Rightarrow> 'k result_summary \<Rightarrow> bool" where
  "no_worse a b \<longleftrightarrow> sm_mean_verified_score b \<le> sm_mean_verified_score a \<and> list_all2 (\<le>) (resources_of a) (resources_of b)"

lemma dominates_spec: "dominates a b \<longleftrightarrow> no_worse a b \<and> \<not> no_worse b a"
proof -
  have l: "length (resources_of a) = length (resources_of b)" by (simp add: resources_of_def)
  have anti: "list_all2 (\<le>) xs ys \<Longrightarrow> list_all2 (\<le>) ys xs \<Longrightarrow> xs = ys" for xs ys :: "rat list"
  proof (induction xs ys rule: list_all2_induct)
    case (Cons x xs y ys)
    then show ?case by simp
  qed simp
  have refl: "list_all2 (\<le>) xs (xs :: rat list)" for xs by (simp add: list_all2_conv_all_nth)
  show ?thesis
    using axes_loop_spec [OF l, of False] anti [of "resources_of a" "resources_of b"] refl
    by (auto simp: dominates_def no_worse_def split: if_splits)
qed

lemma no_worse_trans: "no_worse a b \<Longrightarrow> no_worse b c \<Longrightarrow> no_worse a c"
  using list_all2_trans [of "(\<le>)" "(\<le>)" "(\<le>)" "resources_of a" "resources_of b" "resources_of c"] order_trans
  by (auto simp: no_worse_def)

lemma dominates_trans: "dominates a b \<Longrightarrow> dominates b c \<Longrightarrow> dominates a c"
  unfolding dominates_spec using no_worse_trans by blast

lemma dominates_irrefl: "\<not> dominates a a"
  by (simp add: dominates_spec)

text \<open>Above every element of a finite list there is a maximal one.\<close>

lemma maximal_above:
  assumes "s \<in> set ss"
  shows "\<exists>m \<in> set ss. (m = s \<or> dominates m s) \<and> (\<forall>o' \<in> set ss. \<not> dominates o' m)"
  using assms
proof (induction "card {o' \<in> set ss. dominates o' s}" arbitrary: s rule: less_induct)
  case less
  show ?case
  proof (cases "\<exists>o' \<in> set ss. dominates o' s")
    case True
    then obtain a where a: "a \<in> set ss" "dominates a s" by blast
    have "{o' \<in> set ss. dominates o' a} \<subset> {o' \<in> set ss. dominates o' s}"
      using a dominates_trans dominates_irrefl by blast
    then have "card {o' \<in> set ss. dominates o' a} < card {o' \<in> set ss. dominates o' s}" by (intro psubset_card_mono) simp_all
    from less(1) [OF this a(1)] a(2) show ?thesis using dominates_trans by blast
  qed (use less.prems in blast)
qed

definition undominated :: "'k result_summary list \<Rightarrow> 'k result_summary \<Rightarrow> bool" where
  "undominated ss s \<longleftrightarrow> list_all (\<lambda>o'. \<not> dominates o' s) ss"

lemma entry_efficient:
  assumes "distinct (map sm_key ss)" "s \<in> set ss"
  shows "fe_pareto_efficient (frontier_entry_of ss s) = undominated ss s"
proof -
  have "filter (\<lambda>o'. sm_key o' \<noteq> sm_key s \<and> dominates o' s) ss = filter (\<lambda>o'. dominates o' s) ss"
  proof (rule filter_cong)
    fix o' assume "o' \<in> set ss"
    then show "(sm_key o' \<noteq> sm_key s \<and> dominates o' s) = dominates o' s"
      using assms dominates_irrefl by (auto simp: distinct_map inj_on_def)
  qed simp
  then show ?thesis
    by (simp add: frontier_entry_of_def Let_def undominated_def list_all_iff filter_empty_conv
        flip: length_0_conv [where xs = "sort _"])
qed

text \<open>C36: the frontier is the set of undominated configurations.  Dominance is a strict partial order, the
  analysis lists every summary once in the order of the configurations and marks as efficient exactly
  those no other one dominates, and each summary is efficient or dominated by an efficient one, so
  the frontier is never empty.\<close>

theorem frontier_is_maximal:
  assumes "distinct (map sm_key ss)"
  shows "mset (analyze_frontier ss) = mset (map (frontier_entry_of ss) ss)
    \<and> sorted (map (configuration_index \<circ> fe_configuration) (analyze_frontier ss))
    \<and> list_all (\<lambda>s. fe_pareto_efficient (frontier_entry_of ss s) = undominated ss s) ss
    \<and> list_all (\<lambda>s. list_ex (\<lambda>m. (m = s \<or> dominates m s) \<and> undominated ss m) ss) ss
    \<and> transp (dominates :: configuration result_summary \<Rightarrow> _) \<and> irreflp (dominates :: configuration result_summary \<Rightarrow> _)"
proof -
  have "mset (analyze_frontier ss) = mset (map (frontier_entry_of ss) ss)"
    "sorted (map (configuration_index \<circ> fe_configuration) (analyze_frontier ss))"
    by (simp_all add: analyze_frontier_def)
  moreover have "list_all (\<lambda>s. fe_pareto_efficient (frontier_entry_of ss s) = undominated ss s) ss"
    using entry_efficient [OF assms] by (simp add: list_all_iff)
  moreover have "list_all (\<lambda>s. list_ex (\<lambda>m. (m = s \<or> dominates m s) \<and> undominated ss m) ss) ss"
    using maximal_above by (fastforce simp: list_all_iff list_ex_iff undominated_def)
  moreover have "transp (dominates :: configuration result_summary \<Rightarrow> _)" "irreflp (dominates :: configuration result_summary \<Rightarrow> _)"
    using dominates_trans dominates_irrefl by (auto simp: transp_def irreflp_def)
  ultimately show ?thesis by blast
qed

definition bare_summary :: "configuration \<Rightarrow> rat \<Rightarrow> nat \<Rightarrow> configuration result_summary" where
  "bare_summary c quality asked = \<lparr>sm_key = c, sm_runs = 1, sm_verified = 0, sm_failed = 0, sm_abstained = 1, sm_false_acceptance = 0,
     sm_false_rejection = 0, sm_mean_verified_score = quality, sm_total_tokens = 0, sm_calls = asked, sm_wall_time_ms = 0,
     sm_retries = 0, sm_tool_operations = 0, sm_configured_cost_usd = 0\<rparr>"

theorem frontier_is_maximal_witness:
  "fe_pareto_efficient (frontier_entry_of [bare_summary COMPANY 1 5, bare_summary STRONG_SINGLE (1 / 2) 5] (bare_summary COMPANY 1 5))
   \<and> \<not> fe_pareto_efficient (frontier_entry_of [bare_summary COMPANY 1 5, bare_summary STRONG_SINGLE (1 / 2) 5]
        (bare_summary STRONG_SINGLE (1 / 2) 5))"
proof -
  let ?ss = "[bare_summary COMPANY 1 5, bare_summary STRONG_SINGLE (1 / 2) 5]"
  have "distinct (map sm_key ?ss)" by (simp add: bare_summary_def)
  from frontier_is_maximal [OF this]
  have "list_all (\<lambda>s. fe_pareto_efficient (frontier_entry_of ?ss s) = undominated ?ss s) ?ss" by blast
  moreover have "undominated ?ss (bare_summary COMPANY 1 5)" "\<not> undominated ?ss (bare_summary STRONG_SINGLE (1 / 2) 5)"
    by (simp_all add: undominated_def bare_summary_def dominates_def resources_of_def)
  ultimately show ?thesis by simp
qed

subsection \<open>The intervals\<close>

lemma mean_bounds:
  fixes lo hi :: rat
  assumes "xs \<noteq> []" "list_all (\<lambda>x. lo \<le> x \<and> x \<le> hi) xs"
  shows "lo \<le> sum_list xs / of_nat (length xs) \<and> sum_list xs / of_nat (length xs) \<le> hi"
proof -
  have "of_nat (length xs) * lo \<le> sum_list xs \<and> sum_list xs \<le> of_nat (length xs) * hi"
    using assms(2) by (induction xs) (auto simp: algebra_simps)
  with assms(1) show ?thesis by (simp add: field_simps)
qed

lemma quantile_order:
  assumes "0 < n"
  shows "nat \<lfloor>(25 / 1000 :: rat) * of_nat n\<rfloor> \<le> min (n - 1) (nat \<lfloor>(975 / 1000 :: rat) * of_nat n\<rfloor>)"
proof -
  have "\<lfloor>(25 / 1000 :: rat) * of_nat n\<rfloor> \<le> \<lfloor>(975 / 1000 :: rat) * of_nat n\<rfloor>" by (intro floor_mono mult_right_mono) simp_all
  moreover have "\<lfloor>(25 / 1000 :: rat) * of_nat n\<rfloor> < int n" using assms by (simp add: floor_less_iff)
  ultimately show ?thesis by linarith
qed

lemma sorted_quantiles:
  assumes "a \<le> b" "b < length xs" "list_all (\<lambda>x. lo \<le> x \<and> x \<le> hi) xs"
  shows "lo \<le> sort xs ! a \<and> sort xs ! a \<le> sort xs ! b \<and> sort xs ! b \<le> (hi :: rat)"
proof -
  have "sort xs ! a \<in> set xs" "sort xs ! b \<in> set xs" using assms(1,2) nth_mem [of a "sort xs"] nth_mem [of b "sort xs"] by simp_all
  moreover have "sort xs ! a \<le> sort xs ! b" using assms(1,2) by (intro sorted_nth_mono) simp_all
  ultimately show ?thesis using assms(3) by (auto simp: list_all_iff)
qed

lemma bootstrap_bounds:
  fixes lo hi :: rat
  assumes "vs \<noteq> []" "list_all (\<lambda>x. lo \<le> x \<and> x \<le> hi) vs" "\<And>k n. 0 < n \<Longrightarrow> draw seed k n < n" "0 < samples"
  defines "ci \<equiv> bootstrap_mean_ci draw vs samples seed"
  shows "lo \<le> ci_low ci \<and> ci_low ci \<le> ci_high ci \<and> ci_high ci \<le> hi \<and> lo \<le> ci_mean ci \<and> ci_mean ci \<le> hi"
proof -
  let ?means = "bootstrap_means draw vs samples seed"
  have "list_all (\<lambda>x. lo \<le> x \<and> x \<le> hi) ?means"
    unfolding bootstrap_means_def list_all_iff
  proof clarsimp
    fix i
    let ?xs = "map (\<lambda>j. vs ! draw seed (i * length vs + j) (length vs)) [0..<length vs]"
    have "list_all (\<lambda>x. lo \<le> x \<and> x \<le> hi) ?xs" using assms(1-3) by (auto simp: list_all_length)
    from mean_bounds [OF _ this] show "lo \<le> sum_list ?xs / of_nat (length vs) \<and> sum_list ?xs / of_nat (length vs) \<le> hi"
      using assms(1) by simp
  qed
  moreover have "length ?means = samples" by (simp add: bootstrap_means_def)
  ultimately have q: "lo \<le> sort ?means ! (nat \<lfloor>(25 / 1000 :: rat) * of_nat samples\<rfloor>)
      \<and> sort ?means ! (nat \<lfloor>(25 / 1000 :: rat) * of_nat samples\<rfloor>)
         \<le> sort ?means ! (min (samples - 1) (nat \<lfloor>(975 / 1000 :: rat) * of_nat samples\<rfloor>))
      \<and> sort ?means ! (min (samples - 1) (nat \<lfloor>(975 / 1000 :: rat) * of_nat samples\<rfloor>)) \<le> hi"
    using quantile_order [OF assms(4)] assms(4) by (intro sorted_quantiles) auto
  have ci: "ci_low ci = sort ?means ! (nat \<lfloor>(25 / 1000 :: rat) * of_nat samples\<rfloor>)"
    "ci_high ci = sort ?means ! (min (samples - 1) (nat \<lfloor>(975 / 1000 :: rat) * of_nat samples\<rfloor>))"
    "ci_mean ci = sum_list vs / of_nat (length vs)"
    using assms(1) by (simp_all add: ci_def bootstrap_mean_ci_def Let_def)
  show ?thesis unfolding ci using q mean_bounds [OF assms(1,2)] by blast
qed

lemma indexed_in: "indexed_score rs t i c = Some v \<Longrightarrow> \<exists>r \<in> set rs. v = rr_verified_score r"
  by (auto simp: indexed_score_def dest!: map_of_SomeD)

text \<open>The intervals of the paired differences lie between minus one and one, the low end below the high one.\<close>

lemma paired_intervals_bounded:
  assumes "paired_differences draw cfg rs = Inr ps" "valid_benchmark_config cfg" "list_all valid_run_result rs"
    "\<And>seed k n. 0 < n \<Longrightarrow> draw seed k n < n"
  shows "list_all (\<lambda>(b, ci). -1 \<le> ci_low ci \<and> ci_low ci \<le> ci_high ci \<and> ci_high ci \<le> 1 \<and> -1 \<le> ci_mean ci \<and> ci_mean ci \<le> 1) ps"
  unfolding list_all_iff
proof
  fix x assume "x \<in> set ps"
  with results_member [OF assms(1) [unfolded paired_differences_def]] obtain b where b: "paired_difference draw cfg rs b = Inr x"
    by blast
  then obtain ds where ds: "collect_results (map (score_difference rs b) (result_pairs rs)) = Inr ds"
    "x = (b, bootstrap_mean_ci draw ds (bc_bootstrap_samples cfg) (bc_seed cfg + int (configuration_index b)))"
    by (auto simp: paired_difference_def split: sum.splits)
  have "-1 \<le> d \<and> d \<le> 1" if "d \<in> set ds" for d
  proof -
    from that results_member [OF ds(1)] obtain ti where "score_difference rs b ti = Inr d" by blast
    then obtain v w t i where "indexed_score rs t i COMPANY = Some v" "indexed_score rs t i b = Some w" "d = v - w"
      by (cases ti) (auto simp: score_difference_def split: option.splits)
    then obtain r q where "r \<in> set rs" "q \<in> set rs" "d = rr_verified_score r - rr_verified_score q"
      using indexed_in [of rs] by metis
    moreover from this assms(3) have "0 \<le> rr_verified_score r" "rr_verified_score r \<le> 1" "0 \<le> rr_verified_score q"
      "rr_verified_score q \<le> 1" by (auto simp: list_all_iff valid_run_result_def)
    ultimately show ?thesis by linarith
  qed
  then have bounds: "list_all (\<lambda>d. -1 \<le> d \<and> d \<le> 1) ds" by (simp add: list_all_iff)
  have "0 < bc_bootstrap_samples cfg" using assms(2) by (simp add: valid_benchmark_config_def)
  with bootstrap_bounds [OF _ bounds assms(4)]
  show "case x of (b, ci) \<Rightarrow> -1 \<le> ci_low ci \<and> ci_low ci \<le> ci_high ci \<and> ci_high ci \<le> 1 \<and> -1 \<le> ci_mean ci \<and> ci_mean ci \<le> 1"
    by (cases "ds = []") (simp_all add: ds(2) bootstrap_mean_ci_def)
qed

subsection \<open>Best of n\<close>

text \<open>The choice is the greatest candidate, and the resources of all candidates are counted.\<close>

lemma best_of_n_chooses:
  assumes "candidates \<noteq> []"
  shows "rr_metrics (best_of i candidates) = fold (\<lambda>c m. metrics_plus m (rr_metrics c)) candidates no_metrics"
    "list_ex (\<lambda>c. rr_outcome c = Outcome_VERIFIED) candidates \<Longrightarrow> rr_outcome (best_of i candidates) = Outcome_VERIFIED"
proof -
  show "rr_metrics (best_of i candidates) = fold (\<lambda>c m. metrics_plus m (rr_metrics c)) candidates no_metrics"
    by (simp add: best_of_def)
  assume "list_ex (\<lambda>c. rr_outcome c = Outcome_VERIFIED) candidates"
  then obtain c where c: "c \<in> set candidates" "rr_outcome c = Outcome_VERIFIED" by (auto simp: list_ex_iff)
  have "selection_key c \<le> selection_key (first_max selection_key (hd candidates) (tl candidates))"
    using c(1) assms by (intro first_max_greatest) (cases candidates; auto)
  then show "rr_outcome (best_of i candidates) = Outcome_VERIFIED"
    using c(2) by (simp add: best_of_def selection_key_def less_eq_prod_def) 
qed

text \<open>Every repeat asks for the same candidates: the index a strategy is given does not depend on the repeat, so
  a strategy whose answer depends on the task and the index only gives the same choice each time.\<close>

lemma first_max_map: "(\<And>x. key (g x) = key x) \<Longrightarrow> first_max key (g b) (map g xs) = g (first_max key b xs)"
  by (induction xs arbitrary: b) (auto split: if_split)

lemma repeats_ask_the_same:
  assumes "run_best_of_n (\<lambda>now. f) n t i = Inr r" "0 < n"
  shows "run_best_of_n (\<lambda>now. f) n t j = Inr (r\<lparr>rr_repeat_index := j\<rparr>)"
proof -
  let ?g = "\<lambda>r. r\<lparr>rr_repeat_index := j\<rparr>"
  from assms(1) obtain cs where cs: "collect_results (map (run_strategy (\<lambda>now. f) i t CHEAP_BEST_OF_N) [0..<n]) = Inr cs" "r = best_of i cs"
    by (auto simp: run_best_of_n_def split: sum.splits)
  have "run_strategy (\<lambda>now. f) j t CHEAP_BEST_OF_N k = Inr (?g x)" if "run_strategy (\<lambda>now. f) i t CHEAP_BEST_OF_N k = Inr x" for k x
    using that by (auto simp: run_strategy_def normalize_result_def split: option.splits if_splits)
  then have "list_all2 (\<lambda>k x. run_strategy (\<lambda>now. f) j t CHEAP_BEST_OF_N k = Inr (?g x)) [0..<n] cs"
    using results_map [OF cs(1)] by (auto elim!: list_all2_mono)
  then have "map (run_strategy (\<lambda>now. f) j t CHEAP_BEST_OF_N) [0..<n] = map Inr (map ?g cs)"
    using all2_map_eq [of "run_strategy (\<lambda>now. f) j t CHEAP_BEST_OF_N" "\<lambda>x. Inr (?g x)"] by (simp add: o_def)
  moreover have "collect_results (map Inr xs) = Inr xs" for xs :: "run_result list" by (induction xs) simp_all
  ultimately have c: "collect_results (map (run_strategy (\<lambda>now. f) j t CHEAP_BEST_OF_N) [0..<n]) = Inr (map ?g cs)" by (simp only:)
  have "cs \<noteq> []" using results_map [OF cs(1)] assms(2) by auto
  then have "first_max selection_key (hd (map ?g cs)) (tl (map ?g cs)) = ?g (first_max selection_key (hd cs) (tl cs))"
    using first_max_map [of selection_key ?g "hd cs" "tl cs"] by (simp add: selection_key_def hd_map map_tl)
  moreover have "fold (\<lambda>c m. metrics_plus m (rr_metrics c)) (map ?g cs) m = fold (\<lambda>c m. metrics_plus m (rr_metrics c)) cs m" for m
    by (induction cs arbitrary: m) simp_all
  ultimately show ?thesis by (simp add: run_best_of_n_def c cs(2) best_of_def)
qed

end
