(* ===== verification/Company_Build.thy ===== *)
theory Company_Build
  imports Config Model_Review
begin

section \<open>Composing a company (application/build.py)\<close>

text \<open>
  \<^verbatim>\<open>build_company\<close> as a plan: which profile analyses the contract, which ones review, plan and object,
  which commands and paths the parts get, and which handles are opened and closed on every way out.
  Parameters: the loading of the calibration file (\<open>None\<close> when it raises), and whether opening the
  ledger, opening the memory and constructing the company succeed.  Constructors without failures
  of their own (gateway, workspace, registry) have no counterpart.
\<close>

subsection \<open>Who does what\<close>

text \<open>The intake is model-backed when some profile is a worker.\<close>

datatype intake_choice = Model_intake string nat "string list" | Deterministic_intake

definition analysis_profile :: "northstack_config \<Rightarrow> string" where
  "analysis_profile cfg =
     (let workers = filter (\<lambda>p. WORKER \<in> roles p) (profiles cfg)
      in case find (\<lambda>p. NATIVE_JSON_SCHEMA \<in> capabilities p) workers of
           Some p \<Rightarrow> mp_name p
         | None \<Rightarrow> (case workers of [] \<Rightarrow> [] | p # ps \<Rightarrow> mp_name p))"

text \<open>\<^verbatim>\<open>profiles_by_name\<close>: a later profile of a name would win.\<close>

definition profiles_by_name :: "northstack_config \<Rightarrow> string \<rightharpoonup> model_profile" where
  "profiles_by_name cfg = map_of (rev (map (\<lambda>p. (mp_name p, p)) (profiles cfg)))"

datatype build_error = Unknown_profile string | Calibration_unreadable | Ledger_refused | Memory_refused | Company_refused

definition profile_output :: "northstack_config \<Rightarrow> string \<Rightarrow> build_error + nat" where
  "profile_output cfg n = (case profiles_by_name cfg n of None \<Rightarrow> Inl (Unknown_profile n) | Some p \<Rightarrow> Inr (max_output_tokens p))"

definition choose_intake :: "northstack_config \<Rightarrow> intake_choice option \<Rightarrow> build_error + intake_choice" where
  "choose_intake cfg override =
     (case override of
        Some r \<Rightarrow> Inr r
      | None \<Rightarrow>
          (let n = analysis_profile cfg
           in if n = [] then Inr Deterministic_intake
              else (case profile_output cfg n of
                Inl e \<Rightarrow> Inl e | Inr k \<Rightarrow> Inr (Model_intake n k (map cc_name (commands cfg))))))"

text \<open>The first \<^verbatim>\<open>MIN_BLINDED_REVIEWERS\<close> of the reviewer chain, each with its output limit.\<close>

fun with_outputs :: "northstack_config \<Rightarrow> string list \<Rightarrow> build_error + (string \<times> nat) list" where
  "with_outputs cfg [] = Inr []"
| "with_outputs cfg (n # ns) =
     (case profile_output cfg n of
        Inl e \<Rightarrow> Inl e
      | Inr k \<Rightarrow> (case with_outputs cfg ns of Inl e \<Rightarrow> Inl e | Inr rs \<Rightarrow> Inr ((n, k) # rs)))"

definition role_chain :: "northstack_config \<Rightarrow> role \<Rightarrow> string list" where
  "role_chain cfg r = (case role_map cfg r of None \<Rightarrow> [] | Some ns \<Rightarrow> ns)"

definition choose_reviewers :: "northstack_config \<Rightarrow> build_error + (string \<times> nat) list" where
  "choose_reviewers cfg = with_outputs cfg (take MIN_BLINDED_REVIEWERS (role_chain cfg REVIEWER))"

text \<open>The planner and the falsifier: the first routed profile that exists, when the mode asks for a
  model; without one the default stays and a warning is logged.\<close>

definition choose_backed :: "northstack_config \<Rightarrow> string \<Rightarrow> role \<Rightarrow> (string \<times> nat) option" where
  "choose_backed cfg wanted r =
     (if wanted = ''model'' then
        (case find (\<lambda>n. profiles_by_name cfg n \<noteq> None) (role_chain cfg r) of
           None \<Rightarrow> None
         | Some n \<Rightarrow> map_option (\<lambda>p. (n, max_output_tokens p)) (profiles_by_name cfg n))
      else None)"

definition choose_planner :: "northstack_config \<Rightarrow> (string \<times> nat) option" where
  "choose_planner cfg = choose_backed cfg (planner_mode (run_settings cfg)) PLANNER"

definition choose_falsifier :: "northstack_config \<Rightarrow> (string \<times> nat) option" where
  "choose_falsifier cfg = choose_backed cfg (falsifier_mode (run_settings cfg)) SPECIALIST"

subsection \<open>The composition\<close>

record company_plan =
  cp_intake :: intake_choice
  cp_reviewers :: "(string \<times> nat) list"
  cp_calibration :: "calibration_record list option"
  cp_planner :: "(string \<times> nat) option"
  cp_falsifier :: "(string \<times> nat) option"
  cp_commands :: "string list"
  cp_ledger_path :: string
  cp_artifact_path :: string
  cp_memory_path :: "string option"

datatype handle_effect = Opened_ledger | Opened_memory | Closed_memory | Closed_ledger

record build_env =
  be_load_calibration :: "string \<Rightarrow> calibration_record list option"
  be_parent :: "string \<Rightarrow> string"
  be_ledger_opens :: bool
  be_memory_opens :: bool
  be_company_builds :: bool

definition plan_company ::
  "build_env \<Rightarrow> northstack_config \<Rightarrow> string \<Rightarrow> string option \<Rightarrow> intake_choice option \<Rightarrow> build_error + company_plan" where
  "plan_company env cfg ws db override =
     (let path = (case db of None \<Rightarrow> ws @ ''/.northstack/ledger.db'' | Some p \<Rightarrow> p);
          calibration = calibration_path (run_settings cfg)
      in case choose_intake cfg override of
           Inl e \<Rightarrow> Inl e
         | Inr intake \<Rightarrow>
             (case choose_reviewers cfg of
                Inl e \<Rightarrow> Inl e
              | Inr reviewers \<Rightarrow>
                  if calibration \<noteq> [] \<and> be_load_calibration env calibration = None then Inl Calibration_unreadable
                  else Inr \<lparr>cp_intake = intake, cp_reviewers = reviewers,
                    cp_calibration = (if calibration = [] then None else be_load_calibration env calibration),
                    cp_planner = choose_planner cfg, cp_falsifier = choose_falsifier cfg,
                    cp_commands = map cc_name (commands cfg), cp_ledger_path = path,
                    cp_artifact_path = be_parent env path @ ''/artifacts'',
                    cp_memory_path = (if memory_enabled (run_settings cfg) then Some (be_parent env path @ ''/memory.db'') else None)\<rparr>))"

text \<open>The handles: the ledger is opened before the memory, and only the construction of the company is
  guarded.\<close>

definition build_company ::
  "build_env \<Rightarrow> northstack_config \<Rightarrow> string \<Rightarrow> string option \<Rightarrow> intake_choice option
     \<Rightarrow> (build_error + company_plan) \<times> handle_effect list" where
  "build_company env cfg ws db override =
     (case plan_company env cfg ws db override of
        Inl e \<Rightarrow> (Inl e, [])
      | Inr p \<Rightarrow>
          if \<not> be_ledger_opens env then (Inl Ledger_refused, [])
          else if cp_memory_path p \<noteq> None \<and> \<not> be_memory_opens env then (Inl Memory_refused, [Opened_ledger])
          else let opened = Opened_ledger # (if cp_memory_path p = None then [] else [Opened_memory])
          in if be_company_builds env then (Inr p, opened)
             else (Inl Company_refused, opened @ Closed_ledger # (if cp_memory_path p = None then [] else [Closed_memory])))"

text \<open>\<^verbatim>\<open>CompanyComponents.close\<close>: in reverse order.\<close>

definition close_components :: "company_plan \<Rightarrow> handle_effect list" where
  "close_components p = (if cp_memory_path p = None then [] else [Closed_memory]) @ [Closed_ledger]"

subsection \<open>The composition of a valid configuration\<close>

lemma profiles_by_name_valid:
  assumes "config_ok ipl cfg"
  shows "profiles_by_name cfg n = config_profile cfg n"
proof -
  from assms have "check_unique (map mp_name (profiles cfg)) ''profile names'' = None"
    by (auto simp: config_ok_def validate_config_def)
  then have d: "distinct (map mp_name (profiles cfg))" by (rule casefold_distinct)
  have "map_of (rev (map (\<lambda>p. (mp_name p, p)) ps)) n = find (\<lambda>p. mp_name p = n) ps" if "distinct (map mp_name ps)" for ps
    using that
  proof (induction ps)
    case (Cons p ps)
    have "find (\<lambda>q. mp_name q = n) ps = None" if "mp_name p = n"
      using Cons.prems that by (auto simp: find_None_iff) (metis imageI)
    with Cons show ?case by (auto simp: map_add_def split: option.splits)
  qed simp
  from this [OF d] show ?thesis by (simp add: profiles_by_name_def config_profile_def)
qed

lemma found_in: "find P xs = Some x \<Longrightarrow> x \<in> set xs \<and> P x"
  by (auto simp: find_Some_iff)

definition declares :: "northstack_config \<Rightarrow> role \<Rightarrow> string \<times> nat \<Rightarrow> bool" where
  "declares cfg r nk = (case config_profile cfg (fst nk) of None \<Rightarrow> False | Some p \<Rightarrow> r \<in> roles p \<and> snd nk = max_output_tokens p)"

lemma role_chain_declares:
  assumes "config_ok ipl cfg" "n \<in> set (role_chain cfg r)"
  shows "\<exists>p. config_profile cfg n = Some p \<and> mp_name p = n \<and> r \<in> roles p"
proof (cases "role_map cfg r")
  case (Some ns)
  with assms(2) config_ok_routes [OF assms(1) Some] show ?thesis by (simp add: role_chain_def list_all_iff)
qed (use assms(2) in \<open>simp add: role_chain_def\<close>)

lemma with_outputs_declare:
  assumes "config_ok ipl cfg" "set ns \<subseteq> set (role_chain cfg r)"
  shows "\<exists>rs. with_outputs cfg ns = Inr rs \<and> map fst rs = ns \<and> list_all (declares cfg r) rs"
  using assms(2)
proof (induction ns)
  case (Cons n ns)
  from Cons.prems have "n \<in> set (role_chain cfg r)" by simp
  from role_chain_declares [OF assms(1) this] obtain p where "config_profile cfg n = Some p" "r \<in> roles p" by blast
  then have "profile_output cfg n = Inr (max_output_tokens p)" "declares cfg r (n, max_output_tokens p)"
    by (simp_all add: profile_output_def profiles_by_name_valid [OF assms(1)] declares_def)
  moreover from Cons obtain rs where "with_outputs cfg ns = Inr rs" "map fst rs = ns" "list_all (declares cfg r) rs" by auto
  ultimately show ?case by simp
qed simp

lemma backed_declares:
  assumes "config_ok ipl cfg"
  shows "(choose_backed cfg wanted r = None) = (wanted \<noteq> ''model'' \<or> role_map cfg r = None)"
    "list_all (declares cfg r) (case choose_backed cfg wanted r of None \<Rightarrow> [] | Some nk \<Rightarrow> [nk])"
proof -
  have "(choose_backed cfg wanted r = None) = (wanted \<noteq> ''model'' \<or> role_map cfg r = None)
      \<and> list_all (declares cfg r) (case choose_backed cfg wanted r of None \<Rightarrow> [] | Some nk \<Rightarrow> [nk])"
  proof (cases "wanted = ''model'' \<and> role_map cfg r \<noteq> None")
    case True
    then obtain ns where ns: "role_map cfg r = Some ns" by auto
    with config_ok_routes [OF assms this] obtain n rest where chain: "role_chain cfg r = n # rest"
      by (cases ns) (auto simp: role_chain_def)
    with role_chain_declares [OF assms, of n r] obtain p where "config_profile cfg n = Some p" "r \<in> roles p" by auto
    with True chain show ?thesis
      by (simp add: choose_backed_def profiles_by_name_valid [OF assms] declares_def)
  next
    case False
    then show ?thesis by (auto simp: choose_backed_def role_chain_def split: option.splits)
  qed
  then show "(choose_backed cfg wanted r = None) = (wanted \<noteq> ''model'' \<or> role_map cfg r = None)"
    "list_all (declares cfg r) (case choose_backed cfg wanted r of None \<Rightarrow> [] | Some nk \<Rightarrow> [nk])" by blast+
qed

lemma analysis_profile_worker:
  assumes "config_ok ipl cfg" "analysis_profile cfg \<noteq> []"
  shows "\<exists>p. config_profile cfg (analysis_profile cfg) = Some p \<and> WORKER \<in> roles p
    \<and> (NATIVE_JSON_SCHEMA \<in> capabilities p
       \<or> list_all (\<lambda>q. WORKER \<notin> roles q \<or> NATIVE_JSON_SCHEMA \<notin> capabilities q) (profiles cfg))"
proof -
  let ?ws = "filter (\<lambda>p. WORKER \<in> roles p) (profiles cfg)"
  from assms(1) have "check_unique (map mp_name (profiles cfg)) ''profile names'' = None"
    by (auto simp: config_ok_def validate_config_def)
  then have found: "config_profile cfg (mp_name p) = Some p" if "p \<in> set (profiles cfg)" for p
    unfolding config_profile_def using that by (intro find_name_unique casefold_distinct)
  show ?thesis
  proof (cases "find (\<lambda>p. NATIVE_JSON_SCHEMA \<in> capabilities p) ?ws")
    case None
    with assms(2) obtain p ps where ws: "?ws = p # ps" "analysis_profile cfg = mp_name p"
      by (auto simp: analysis_profile_def split: list.splits)
    then have "p \<in> set ?ws" by simp
    then have "p \<in> set (profiles cfg)" "WORKER \<in> roles p" by simp_all
    moreover from None have "list_all (\<lambda>q. WORKER \<notin> roles q \<or> NATIVE_JSON_SCHEMA \<notin> capabilities q) (profiles cfg)"
      by (auto simp: find_None_iff list_all_iff)
    ultimately show ?thesis using found ws(2) by auto
  next
    case (Some p)
    then have in_ws: "p \<in> set ?ws \<and> NATIVE_JSON_SCHEMA \<in> capabilities p" by (rule found_in)
    then have "p \<in> set (profiles cfg)" "WORKER \<in> roles p" "NATIVE_JSON_SCHEMA \<in> capabilities p" by simp_all
    moreover from Some have "analysis_profile cfg = mp_name p" by (simp add: analysis_profile_def)
    ultimately show ?thesis using found by auto
  qed
qed

lemma valid_name: "config_ok ipl cfg \<Longrightarrow> p \<in> set (profiles cfg) \<Longrightarrow> mp_name p \<noteq> []"
proof -
  assume "config_ok ipl cfg" "p \<in> set (profiles cfg)"
  then have "validate_profile ipl p = None" by (simp add: config_ok_def validate_config_def list_all_iff)
  then have "profile_fields p = None" by (simp add: validate_profile_def)
  then have "safe_identifier (mp_name p)" by (simp add: profile_fields_def split: if_split_asm)
  then show "mp_name p \<noteq> []" by (auto simp: safe_identifier_def)
qed

lemma intake_chosen:
  assumes "config_ok ipl cfg"
  shows "\<exists>intake. choose_intake cfg None = Inr intake \<and>
    (case intake of Deterministic_intake \<Rightarrow> list_all (\<lambda>q. WORKER \<notin> roles q) (profiles cfg)
     | Model_intake n k cmds \<Rightarrow> declares cfg WORKER (n, k) \<and> cmds = map cc_name (commands cfg))"
proof (cases "analysis_profile cfg = []")
  case True
  have "filter (\<lambda>p. WORKER \<in> roles p) (profiles cfg) = []"
  proof (rule ccontr)
    assume "filter (\<lambda>p. WORKER \<in> roles p) (profiles cfg) \<noteq> []"
    then obtain p ps where ws: "filter (\<lambda>p. WORKER \<in> roles p) (profiles cfg) = p # ps"
      by (cases "filter (\<lambda>p. WORKER \<in> roles p) (profiles cfg)") auto
    have "\<exists>q \<in> set (p # ps). analysis_profile cfg = mp_name q"
      unfolding analysis_profile_def Let_def ws by (auto dest!: found_in split: option.splits)
    then obtain q where "q \<in> set (p # ps)" "analysis_profile cfg = mp_name q" by blast
    moreover from this(1) have "q \<in> set (profiles cfg)" unfolding ws [symmetric] by simp
    ultimately show False using valid_name [OF assms, of q] True by simp
  qed
  with True show ?thesis by (simp add: choose_intake_def filter_empty_conv list_all_iff)
next
  case False
  with analysis_profile_worker [OF assms] show ?thesis
    by (auto simp: choose_intake_def profile_output_def profiles_by_name_valid [OF assms] declares_def)
qed


definition sample_build_env :: build_env where
  "sample_build_env = \<lparr>be_load_calibration = (\<lambda>_. None), be_parent = (\<lambda>_. ''/w/.northstack''), be_ledger_opens = True,
     be_memory_opens = True, be_company_builds = True\<rparr>"

lemma plan_intake:
  assumes "plan_company env cfg ws db override = Inr p"
  shows "choose_intake cfg override = Inr (cp_intake p)"
proof (cases "choose_intake cfg override")
  case (Inl e)
  then show ?thesis using assms by (simp add: plan_company_def Let_def)
next
  case (Inr i)
  then show ?thesis using assms
    by (cases "choose_reviewers cfg";
        cases "calibration_path (run_settings cfg) \<noteq> [] \<and> be_load_calibration env (calibration_path (run_settings cfg)) = None")
      (auto simp only: plan_company_def Let_def sum.case if_True if_False sum.inject sum.distinct company_plan.simps simp_thms)
qed


text \<open>A composition that fails leaves no handle open, except the ledger when the memory cannot be opened.\<close>

lemma failed_build_closes:
  assumes "build_company env cfg ws db override = (Inl e, effects)"
  shows "(Opened_ledger \<in> set effects \<longrightarrow> Closed_ledger \<in> set effects \<or> e = Memory_refused)
    \<and> (Opened_memory \<in> set effects \<longrightarrow> Closed_memory \<in> set effects)"
  using assms by (auto simp: build_company_def Let_def split: sum.splits if_splits)

lemma built_handles_close:
  assumes "build_company env cfg ws db override = (Inr p, effects)"
  shows "effects @ close_components p = (if cp_memory_path p = None then [Opened_ledger, Closed_ledger]
    else [Opened_ledger, Opened_memory, Closed_memory, Closed_ledger])"
  using assms by (auto simp: build_company_def close_components_def Let_def split: sum.splits if_splits)

end
