(* ===== verification/Run_Routes.thy ===== *)
theory Run_Routes
  imports Ledger_Integrity Replay Run_Index Run_Supervisor Company_Build Pricing "HOL-Library.Product_Lexorder"
begin

section \<open>The run endpoints (interfaces/web/routes_runs.py)\<close>

text \<open>
  The handlers over the state they share: the supervisors, the run index, the projection cache and
  the ledger files on disk.  A handler answers with a JSON value or fails with a status and a
  detail (of a detail that is a dict its message), or with one of the exceptions the server maps (a corrupt ledger, an unsupported schema,
  anything else).  Parameters: the codec of the ledger, \<^verbatim>\<open>Path.resolve\<close>, what is a directory, pydantic's
  dump of a cell and of the routes, the text of a float, the fresh ids and handles, and whether the
  event loop accepts a task.  A request opens its own handle on the ledger file and closes it, so
  the file is what stays; opening a missing file creates it.
\<close>

subsection \<open>State and failures\<close>

datatype web_failure = Http nat string | Corrupt_ledger | Schema_refused | Internal

record web_runs =
  wr_supervisors :: "(run_id \<times> supervisor) list"
  wr_index :: run_index
  wr_cache :: projection_cache
  wr_disk :: "string \<rightharpoonup> ledger \<times> int"
  wr_log :: "supervisor_effect list"

record run_web_env =
  rw_codec :: codec
  rw_resolve :: "string \<Rightarrow> string"
  rw_base :: string
  rw_is_dir :: "string \<Rightarrow> bool"
  rw_invalid :: string
  rw_cell :: "graph_cell \<Rightarrow> json"
  rw_routes :: "(cell_id \<rightharpoonup> string) \<Rightarrow> json"
  rw_float :: "rat \<Rightarrow> string"
  rw_integrity_text :: "integrity_result \<Rightarrow> string option"

fun ledger_failure :: "ledger_error \<Rightarrow> web_failure" where
  "ledger_failure (Corrupt _) = Corrupt_ledger"
| "ledger_failure (UnsupportedDatabaseSchema _) = Schema_refused"
| "ledger_failure _ = Internal"

text \<open>\<^verbatim>\<open>Path.is_relative_to\<close> on resolved paths.\<close>

definition is_within :: "string \<Rightarrow> string \<Rightarrow> bool" where
  "is_within p r \<longleftrightarrow> is_absolute p = is_absolute r \<and> take (length (path_parts r)) (path_parts p) = path_parts r"

text \<open>\<^verbatim>\<open>Ledger(path=db)\<close> with its default timeout.\<close>

definition open_at :: "string \<Rightarrow> web_runs \<Rightarrow> (web_failure + ledger) \<times> web_runs" where
  "open_at path st =
     (let (rs, ts, v) = (case wr_disk st path of None \<Rightarrow> ([], [], 0) | Some (l, v) \<Rightarrow> (rows l, tombstones l, v))
      in case open_ledger 5 v rs ts of
           Inl e \<Rightarrow> (Inl (ledger_failure e), st)
         | Inr lv \<Rightarrow> (Inr (fst lv), st\<lparr>wr_disk := (wr_disk st)(path \<mapsto> lv)\<rparr>))"

subsection \<open>Finding a run's ledger\<close>

definition workspace_db :: "run_id \<Rightarrow> web_runs \<Rightarrow> web_failure + string option" where
  "workspace_db run st =
     (if is_ambiguous (wr_index st) run then Inl (Http 409 (''run id is ambiguous across workspaces: '' @ run))
      else Inr (db_path (wr_index st) run))"

text \<open>\<^verbatim>\<open>_resolve_ledger\<close>, for a body that reads the ledger.\<close>

definition with_ledger ::
  "run_id \<Rightarrow> (ledger \<Rightarrow> web_runs \<Rightarrow> (web_failure + 'a) \<times> web_runs) \<Rightarrow> web_runs \<Rightarrow> (web_failure + 'a) \<times> web_runs" where
  "with_ledger run act st =
     (case workspace_db run st of
        Inl e \<Rightarrow> (Inl e, st)
      | Inr None \<Rightarrow> (Inl (Http 404 (''unknown run: '' @ run)), st)
      | Inr (Some db) \<Rightarrow>
          (case open_at db st of (Inl e, st') \<Rightarrow> (Inl e, st') | (Inr l, st') \<Rightarrow> act l st'))"

definition run_active :: "(task_name \<Rightarrow> bool) \<Rightarrow> web_runs \<Rightarrow> run_id \<Rightarrow> bool" where
  "run_active finished st run = (case map_of (wr_supervisors st) run of None \<Rightarrow> False | Some s \<Rightarrow> is_active finished s)"

subsection \<open>Starting and resuming\<close>

record run_start_body =
  rb_goal :: string
  rb_workspace_root :: string
  rb_budget_tokens :: "nat option"
  rb_budget_cost_usd :: "rat option"
  rb_max_waves :: nat

definition valid_start_body :: "run_start_body \<Rightarrow> bool" where
  "valid_start_body b \<longleftrightarrow> 1 \<le> length (strip (rb_goal b)) \<and> length (strip (rb_goal b)) \<le> 65536
     \<and> 1 \<le> length (rb_workspace_root b) \<and> length (rb_workspace_root b) \<le> 4096
     \<and> (case rb_budget_cost_usd b of None \<Rightarrow> True | Some c \<Rightarrow> 0 \<le> c) \<and> 1 \<le> rb_max_waves b \<and> rb_max_waves b \<le> MAX_WAVES"

definition start_budget :: "run_start_body \<Rightarrow> budget option" where
  "start_budget b =
     (if rb_budget_tokens b = None \<and> rb_budget_cost_usd b = None then None
      else Some (unlimited_budget\<lparr>token_limit := map_option int (rb_budget_tokens b), cost_limit_usd := rb_budget_cost_usd b\<rparr>))"

definition start_request :: "run_start_body \<Rightarrow> string \<Rightarrow> project_request" where
  "start_request b ws = \<lparr>goal = strip (rb_goal b), workspace_root = ws, req_constraints = [], req_budget = start_budget b,
     tool_policy = [], max_waves = rb_max_waves b\<rparr>"

text \<open>The rollback of a start that fails after the supervisor was made: its handle is closed.\<close>

definition rolled_back :: "run_id \<Rightarrow> supervisor \<Rightarrow> web_runs \<Rightarrow> web_runs" where
  "rolled_back run owner st =
     st\<lparr>wr_supervisors := filter (\<lambda>rs. fst rs \<noteq> run) (wr_supervisors st),
       wr_log := wr_log st @ sv_effects (release_handles owner)\<rparr>"

definition launch ::
  "(string \<Rightarrow> string) \<Rightarrow> bool \<Rightarrow> run_id \<Rightarrow> string \<Rightarrow> ledger_name \<Rightarrow> task_name \<Rightarrow> web_runs \<Rightarrow> web_failure option \<times> web_runs" where
  "launch resolve task_accepted run ws lg tk st =
     (let owner = new_supervisor run (Some lg) (Some ws) None False;
          st1 = st\<lparr>wr_supervisors := dict_set (wr_supervisors st) run owner\<rparr>
      in case register_run resolve run ws (wr_index st1) of
           None \<Rightarrow> (Some Internal, rolled_back run owner st1)
         | Some ix \<Rightarrow>
             if \<not> task_accepted then (Some Internal, rolled_back run owner (st1\<lparr>wr_index := forget_run run ix\<rparr>))
             else (None, st1\<lparr>wr_index := ix, wr_supervisors := dict_set (wr_supervisors st1) run (bind_task tk owner)\<rparr>))"

text \<open>\<^verbatim>\<open>build_company\<close> opens the ledger, then the run is launched.\<close>

definition build_and_launch ::
  "run_web_env \<Rightarrow> build_env \<Rightarrow> northstack_config \<Rightarrow> bool \<Rightarrow> run_id \<Rightarrow> string \<Rightarrow> string \<Rightarrow> ledger_name \<Rightarrow> task_name
     \<Rightarrow> json \<Rightarrow> web_runs \<Rightarrow> (web_failure + json) \<times> web_runs" where
  "build_and_launch env benv cfg task_accepted run ws db lg tk answer st =
     (case plan_company benv cfg ws (Some db) None of
        Inl e \<Rightarrow> (Inl Internal, st)
      | Inr p \<Rightarrow>
          (case open_at db st of
             (Inl e, st') \<Rightarrow> (Inl e, st')
           | (Inr l, st') \<Rightarrow>
               (case launch (rw_resolve env) task_accepted run ws lg tk st' of
                  (Some e, st'') \<Rightarrow> (Inl e, st'')
                | (None, st'') \<Rightarrow> (Inr answer, st''))))"

definition start_run ::
  "run_web_env \<Rightarrow> build_env \<Rightarrow> northstack_config \<Rightarrow> bool \<Rightarrow> run_id \<Rightarrow> ledger_name \<Rightarrow> task_name \<Rightarrow> run_start_body
     \<Rightarrow> web_runs \<Rightarrow> (web_failure + json) \<times> web_runs" where
  "start_run env benv cfg task_accepted run lg tk b st =
     (let ws = rw_resolve env (rb_workspace_root b)
      in if \<not> valid_start_body b then (Inl (Http 422 (rw_invalid env)), st)
         else if \<not> is_within ws (rw_base env) then (Inl (Http 403 (''workspace '' @ quoted ws @ '' is outside the allowed root'')), st)
         else if \<not> rw_is_dir env ws then (Inl (Http 400 (''workspace not a directory: '' @ ws)), st)
         else if \<not> valid_request (start_request b ws) then (Inl Internal, st)
         else build_and_launch env benv cfg task_accepted run ws (db_file ws) lg tk
           (JObj [(''run_id'', JStr run), (''workspace_root'', JStr ws)]) st)"

definition resume_run ::
  "run_web_env \<Rightarrow> build_env \<Rightarrow> northstack_config \<Rightarrow> (task_name \<Rightarrow> bool) \<Rightarrow> bool \<Rightarrow> run_id \<Rightarrow> ledger_name \<Rightarrow> task_name \<Rightarrow> run_id
     \<Rightarrow> web_runs \<Rightarrow> (web_failure + json) \<times> web_runs" where
  "resume_run env benv cfg finished task_accepted new_run lg tk run st =
     (if run_active finished st run then (Inl (Http 409 ''run is active; stop it before resuming''), st)
      else case workspace_db run st of
        Inl e \<Rightarrow> (Inl e, st)
      | Inr found \<Rightarrow>
          (case Option.bind found (\<lambda>db. if wr_disk st db = None then None else Some db) of
             None \<Rightarrow> (Inl (Http 404 (''unknown run: '' @ run)), st)
           | Some db \<Rightarrow>
               (let ws = the (ri_runs (wr_index st) run)
                in build_and_launch env benv cfg task_accepted new_run ws db lg tk
                     (JObj [(''run_id'', JStr new_run), (''resumed_from'', JStr run), (''workspace_root'', JStr ws)]) st)))"

text \<open>The \<^verbatim>\<open>finally\<close> of the task.\<close>

definition run_finished :: "run_id \<Rightarrow> web_runs \<Rightarrow> web_runs" where
  "run_finished run st =
     (case map_of (wr_supervisors st) run of
        None \<Rightarrow> st
      | Some s \<Rightarrow> st\<lparr>wr_supervisors := dict_set (wr_supervisors st) run (release_handles s)\<rparr>)"

definition stop_run :: "run_id \<Rightarrow> web_runs \<Rightarrow> (web_failure + json) \<times> web_runs" where
  "stop_run run st =
     (case Option.bind (map_of (wr_supervisors st) run) live_task of
        None \<Rightarrow> (Inl (Http 404 (''no active run: '' @ run)), st)
      | Some t \<Rightarrow> (Inr (JObj [(''run_id'', JStr run), (''stopping'', JBool True)]),
          st\<lparr>wr_log := wr_log st @ [Cancelled_task t], wr_cache := invalidate (wr_cache st) run\<rparr>))"

definition delete_run :: "run_web_env \<Rightarrow> (task_name \<Rightarrow> bool) \<Rightarrow> rat \<Rightarrow> run_id \<Rightarrow> web_runs \<Rightarrow> (web_failure + json) \<times> web_runs" where
  "delete_run env finished now run st =
     (if run_active finished st run then (Inl (Http 409 ''run is active; stop it before deleting''), st)
      else with_ledger run (\<lambda>l st'.
        case ledger_events (rw_codec env) l run of
          Inl e \<Rightarrow> (Inl (ledger_failure e), st')
        | Inr es \<Rightarrow>
            if es = [] then (Inl (Http 404 (''unknown run: '' @ run)), st')
            else (case tombstone_run now run l of
              Inl e \<Rightarrow> (Inl (ledger_failure e), st')
            | Inr l' \<Rightarrow> (Inr (JObj [(''run_id'', JStr run), (''deleted'', JBool True)]),
                st'\<lparr>wr_disk := (wr_disk st')(the (db_path (wr_index st') run) \<mapsto> (l', DATABASE_SCHEMA_VERSION))\<rparr>))) st)"

subsection \<open>Reading a run\<close>

fun outcome_value :: "run_outcome \<Rightarrow> string" where
  "outcome_value Outcome_VERIFIED = ''verified''"
| "outcome_value Outcome_ABSTAINED = ''abstained''"
| "outcome_value Outcome_FAILED = ''failed''"

definition nullable :: "('a \<Rightarrow> json) \<Rightarrow> 'a option \<Rightarrow> json" where
  "nullable enc v = (case v of None \<Rightarrow> JNull | Some x \<Rightarrow> enc x)"

definition usage_view :: "budget_usage \<Rightarrow> json" where
  "usage_view u = JObj [(''total_input_tokens'', JInt (total_input_tokens u)), (''total_output_tokens'', JInt (total_output_tokens u)),
     (''total_cost_usd'', JFloat (total_cost_usd u)), (''total_calls'', JInt (total_calls u))]"

text \<open>\<^verbatim>\<open>RunState.snapshot\<close> (domain/run_state.py).\<close>

definition run_snapshot :: "run_web_env \<Rightarrow> run_state \<Rightarrow> (string \<times> json) list" where
  "run_snapshot env s =
     [(''run_id'', JStr (rs_run_id s)), (''status'', JStr (status_value (status s))), (''cells'', JArr (map (rw_cell env) (cells s))),
      (''events_replayed'', JInt (int (events_replayed s))), (''last_event_hash'', JStr (last_event_hash s)), (''goal'', JStr (rs_goal s)),
      (''workspace_root'', JStr (rs_workspace_root s)), (''contract_version'', JInt (contract_version s)),
      (''graph_version'', JInt (graph_version_no s)), (''routes'', rw_routes env (routes s)),
      (''outcome'', nullable (JStr \<circ> outcome_value) (outcome s)),
      (''failure_type'', nullable (JStr \<circ> failure_type_value) (rs_failure_type s)), (''usage'', usage_view (usage s)),
      (''budget'', nullable (\<lambda>b. JObj [(''token_limit'', nullable JInt (token_limit b)),
         (''cost_limit_usd'', nullable JFloat (cost_limit_usd b))]) (run_budget s)),
      (''recovery_events'', JArr (map (\<lambda>e. JObj [(''cell_id'', JStr (rev_cell_id e)), (''failure_type'', JStr (rev_failure_type e)),
         (''action'', JStr (rev_action e)), (''attempt_number'', JInt (int (rev_attempt_number e)))]) (recovery_events s)))]"

text \<open>A run whose task is alive is read through the cache, 500 events at a time; the fold may raise.\<close>

definition project_tail :: "run_web_env \<Rightarrow> ledger \<Rightarrow> run_id \<Rightarrow> web_runs \<Rightarrow> (web_failure + run_state) \<times> web_runs" where
  "project_tail env l run st =
     (case events_since (rw_codec env) l run (cursor (wr_cache st) run) 500 of
        Inl e \<Rightarrow> (Inl (ledger_failure e), st)
      | Inr tail \<Rightarrow>
          (case project (wr_cache st) run tail of
             Inl e \<Rightarrow> (Inl Internal, st) | Inr sc \<Rightarrow> (Inr (fst sc), st\<lparr>wr_cache := snd sc\<rparr>)))"

definition replayed :: "run_web_env \<Rightarrow> ledger \<Rightarrow> run_id \<Rightarrow> web_failure + run_state" where
  "replayed env l run =
     (case replay_run (rw_codec env) l run of
        Inl e \<Rightarrow> Inl (ledger_failure e) | Inr (Inl e) \<Rightarrow> Inl Internal | Inr (Inr s) \<Rightarrow> Inr s)"

definition get_run :: "run_web_env \<Rightarrow> (task_name \<Rightarrow> bool) \<Rightarrow> run_id \<Rightarrow> web_runs \<Rightarrow> (web_failure + json) \<times> web_runs" where
  "get_run env finished run st = with_ledger run (\<lambda>l st'.
     let active = run_active finished st' run;
         (read_state, st'') = (if active then project_tail env l run st' else (replayed env l run, st'))
     in (case read_state of
           Inl e \<Rightarrow> Inl e | Inr s \<Rightarrow> Inr (JObj (run_snapshot env s @ [(''active'', JBool active)])), st'')) st"

definition event_dict :: "run_web_env \<Rightarrow> event_envelope \<Rightarrow> json" where
  "event_dict env e = JObj [(''run_id'', JStr (ev_run_id e)), (''seq'', JInt (int (ev_seq e))),
     (''kind'', JStr (event_kind_value (ev_kind e))), (''payload'', JObj (dump (rw_codec env) (ev_payload e) (ev_schema_version e))),
     (''timestamp'', JFloat (ev_timestamp e)), (''prev_hash'', JStr (ev_prev_hash e)), (''hash_chain'', JStr (ev_hash_chain e))]"

definition next_seq :: "nat \<Rightarrow> event_envelope list \<Rightarrow> nat" where
  "next_seq since es = (if es = [] then since else ev_seq (last es))"

definition get_events :: "run_web_env \<Rightarrow> run_id \<Rightarrow> nat \<Rightarrow> nat \<Rightarrow> web_runs \<Rightarrow> (web_failure + json) \<times> web_runs" where
  "get_events env run since count st = with_ledger run (\<lambda>l st'.
     (case events_since (rw_codec env) l run since count of
        Inl e \<Rightarrow> Inl (ledger_failure e)
      | Inr es \<Rightarrow> Inr (JObj [(''events'', JArr (map (event_dict env) es)), (''next_seq'', JInt (int (next_seq since es)))]), st')) st"

text \<open>One page of the export: the events, where the next page starts, whether there is more.\<close>

definition export_page :: "codec \<Rightarrow> ledger \<Rightarrow> run_id \<Rightarrow> nat \<Rightarrow> nat \<Rightarrow> ledger_error + event_envelope list \<times> nat \<times> bool" where
  "export_page cx l run since count =
     (case events_since cx l run since (count + 1) of
        Inl e \<Rightarrow> Inl e
      | Inr page \<Rightarrow> (let es = take count page in Inr (es, next_seq since es, count < length page)))"

definition export_ledger :: "run_web_env \<Rightarrow> run_id \<Rightarrow> nat \<Rightarrow> nat \<Rightarrow> web_runs \<Rightarrow> (web_failure + json) \<times> web_runs" where
  "export_ledger env run since count st = with_ledger run (\<lambda>l st'.
     (case export_page (rw_codec env) l run since count of
        Inl e \<Rightarrow> Inl (ledger_failure e)
      | Inr (es, following, more_left) \<Rightarrow> Inr (JObj [(''run_id'', JStr run), (''events'', JArr (map (event_dict env) es)),
          (''next_seq'', JInt (int following)), (''truncated'', JBool more_left)]), st')) st"

fun category_value :: "error_category \<Rightarrow> string" where
  "category_value Cat_prev_hash = ''prev_hash''"
| "category_value Cat_payload_encoding = ''payload_encoding''"
| "category_value Cat_payload_json = ''payload_json''"
| "category_value Cat_payload_type = ''payload_type''"
| "category_value Cat_hash_mismatch = ''hash_mismatch''"
| "category_value Cat_event_schema = ''event_schema''"

definition get_integrity :: "run_web_env \<Rightarrow> run_id \<Rightarrow> web_runs \<Rightarrow> (web_failure + json) \<times> web_runs" where
  "get_integrity env run st = with_ledger run (\<lambda>l st'.
     (case verify_integrity (rw_codec env) l run of
        Inl e \<Rightarrow> Inl (ledger_failure e)
      | Inr r \<Rightarrow> Inr (JObj [(''ok'', JBool (ir_ok r)), (''events_checked'', JInt (int (events_checked r))),
          (''error_at_seq'', nullable (JInt \<circ> int) (error_at_seq r)), (''error_category'', nullable (JStr \<circ> category_value) (ir_category r)),
          (''error_message'', nullable JStr (rw_integrity_text env r))]), st')) st"

subsection \<open>Comparing two runs\<close>

definition snapshot_for_run :: "run_web_env \<Rightarrow> run_id \<Rightarrow> web_runs \<Rightarrow> (web_failure + run_state) \<times> web_runs" where
  "snapshot_for_run env run st = with_ledger run (\<lambda>l st'.
     (case ledger_events (rw_codec env) l run of
        Inl e \<Rightarrow> Inl (ledger_failure e)
      | Inr es \<Rightarrow> if es = [] then Inl (Http 404 (''unknown run: '' @ run)) else replayed env l run, st')) st"

definition both :: "json \<Rightarrow> json \<Rightarrow> json" where
  "both x y = JObj [(''a'', x), (''b'', y)]"

definition compared_usage :: "budget_usage \<Rightarrow> json" where
  "compared_usage u = JObj [(''total_calls'', JInt (total_calls u)), (''total_cost_usd'', JFloat (total_cost_usd u)),
     (''total_input_tokens'', JInt (total_input_tokens u)), (''total_output_tokens'', JInt (total_output_tokens u))]"

definition compare_states :: "run_id \<Rightarrow> run_id \<Rightarrow> run_state \<Rightarrow> run_state \<Rightarrow> json" where
  "compare_states a b s t = JObj [(''a'', JStr a), (''b'', JStr b), (''goal'', both (JStr (rs_goal s)) (JStr (rs_goal t))),
     (''outcome'', both (nullable (JStr \<circ> outcome_value) (outcome s)) (nullable (JStr \<circ> outcome_value) (outcome t))),
     (''failure_type'', both (nullable (JStr \<circ> failure_type_value) (rs_failure_type s)) (nullable (JStr \<circ> failure_type_value) (rs_failure_type t))),
     (''status'', both (JStr (status_value (status s))) (JStr (status_value (status t)))),
     (''events_replayed'', both (JInt (int (events_replayed s))) (JInt (int (events_replayed t)))),
     (''usage'', both (compared_usage (usage s)) (compared_usage (usage t))),
     (''delta'', JObj [(''total_calls'', JInt (total_calls (usage t) - total_calls (usage s))),
        (''total_cost_usd'', JFloat (py_round (total_cost_usd (usage t) - total_cost_usd (usage s)) 6)),
        (''total_input_tokens'', JInt (total_input_tokens (usage t) - total_input_tokens (usage s))),
        (''total_output_tokens'', JInt (total_output_tokens (usage t) - total_output_tokens (usage s)))])]"

definition compare_runs :: "run_web_env \<Rightarrow> run_id \<Rightarrow> run_id \<Rightarrow> web_runs \<Rightarrow> (web_failure + json) \<times> web_runs" where
  "compare_runs env a b st =
     (case snapshot_for_run env a st of
        (Inl e, st1) \<Rightarrow> (Inl e, st1)
      | (Inr s, st1) \<Rightarrow>
          (case snapshot_for_run env b st1 of
             (Inl e, st2) \<Rightarrow> (Inl e, st2)
           | (Inr t, st2) \<Rightarrow> (Inr (compare_states a b s t), st2)))"

subsection \<open>Listing runs\<close>

definition list_active_runs :: "(task_name \<Rightarrow> bool) \<Rightarrow> web_runs \<Rightarrow> run_id list" where
  "list_active_runs finished st = map fst (filter (\<lambda>rs. is_active finished (snd rs)) (wr_supervisors st))"

lemma listed_ids_bound: "length (listed_ids n off l) \<le> length (rows l) - off"
proof -
  have "length (remdups (filter P (map row_run (rows l)))) \<le> length (rows l)" for P
    by (rule le_trans [OF length_remdups_leq]) (metis length_filter_le length_map)
  then show ?thesis by (simp add: listed_ids_def) (meson diff_le_mono le_trans min.cobounded1 min.coboundedI2)
qed

lemma list_runs_length: "list_runs cx n off l = Inr page \<Longrightarrow> length page = length (listed_ids n off l)"
  by (auto simp: list_runs_def Let_def split: if_splits sum.splits)

text \<open>\<^verbatim>\<open>while page := list_runs(limit, offset)\<close>.\<close>

function history_pages :: "codec \<Rightarrow> nat \<Rightarrow> nat \<Rightarrow> ledger \<Rightarrow> ledger_error + Ledger_Integrity.run_summary list" where
  "history_pages cx page_size off l =
     (case list_runs cx page_size off l of
        Inl e \<Rightarrow> Inl e
      | Inr page \<Rightarrow>
          if page = [] then Inr []
          else (case history_pages cx page_size (off + length page) l of
            Inl e \<Rightarrow> Inl e | Inr further \<Rightarrow> Inr (page @ further)))"
  by pat_completeness auto

termination
proof (relation "measure (\<lambda>(cx, n, off, l). length (rows l) - off)")
  fix cx n off l page
  assume "list_runs cx n off l = Inr page" "page \<noteq> []"
  with listed_ids_bound [of n off l] list_runs_length [of cx n off l page]
  have "0 < length page" "length page \<le> length (rows l) - off" by auto
  then show "((cx, n, off + length page, l), (cx, n, off, l)) \<in> measure (\<lambda>(cx, n, off, l). length (rows l) - off)"
    by (simp del: length_greater_0_conv)
qed simp

declare history_pages.simps [simp del]

definition database_paths :: "run_index \<Rightarrow> string list" where
  "database_paths ix = map db_file (sorted_list_of_set (ri_workspaces ix))"

text \<open>The summaries of the files that exist, in the order of their paths.\<close>

fun gather_runs :: "codec \<Rightarrow> string list \<Rightarrow> web_runs \<Rightarrow> (web_failure + Ledger_Integrity.run_summary list) \<times> web_runs" where
  "gather_runs cx [] st = (Inr [], st)"
| "gather_runs cx (p # ps) st =
     (if wr_disk st p = None then gather_runs cx ps st
      else case open_at p st of
        (Inl e, st1) \<Rightarrow> (Inl e, st1)
      | (Inr l, st1) \<Rightarrow>
          (case history_pages cx 500 0 l of
             Inl e \<Rightarrow> (Inl (ledger_failure e), st1)
           | Inr rs \<Rightarrow>
               (case gather_runs cx ps st1 of
                  (Inl e, st2) \<Rightarrow> (Inl e, st2)
                | (Inr further, st2) \<Rightarrow> (Inr (rs @ further), st2))))"

definition run_wanted :: "string \<Rightarrow> string \<Rightarrow> Ledger_Integrity.run_summary \<Rightarrow> bool" where
  "run_wanted want_status want_outcome r \<longleftrightarrow> (want_status = [] \<or> sum_status r = want_status)
     \<and> (want_outcome = [] \<or> (case sum_outcome r of None \<Rightarrow> [] | Some out \<Rightarrow> outcome_value out) = want_outcome)"

text \<open>\<^verbatim>\<open>heapq.nsmallest(limit, ...)\<close> is the head of the sorted list; the empty filter stands for none.\<close>

definition history_runs ::
  "codec \<Rightarrow> nat \<Rightarrow> string \<Rightarrow> string \<Rightarrow> web_runs \<Rightarrow> (web_failure + Ledger_Integrity.run_summary list \<times> nat) \<times> web_runs" where
  "history_runs cx count want_status want_outcome st =
     (let paths = database_paths (wr_index st); fallback = ''.northstack/ledger.db'';
          used = (if paths = [] \<and> wr_disk st fallback \<noteq> None then [fallback] else paths)
      in case gather_runs cx used st of
           (Inl e, st') \<Rightarrow> (Inl e, st')
         | (Inr rs, st') \<Rightarrow>
             (let found = filter (run_wanted want_status want_outcome) rs
              in (Inr (take count (sort_key (\<lambda>r. (- last_event_time r, sum_run_id r)) found), length found), st')))"

definition summary_view :: "Ledger_Integrity.run_summary \<Rightarrow> json" where
  "summary_view r = JObj [(''run_id'', JStr (sum_run_id r)), (''status'', JStr (sum_status r)),
     (''outcome'', nullable (JStr \<circ> outcome_value) (sum_outcome r)), (''start_time'', JFloat (start_time r)),
     (''last_event_time'', JFloat (last_event_time r)), (''event_count'', JInt (int (event_count r)))]"

text \<open>One page of the list: the runs, whether there is more, where it goes on, how many there are.\<close>

definition runs_page ::
  "codec \<Rightarrow> nat \<Rightarrow> nat \<Rightarrow> string \<Rightarrow> string \<Rightarrow> web_runs
     \<Rightarrow> (web_failure + Ledger_Integrity.run_summary list \<times> bool \<times> nat option \<times> nat) \<times> web_runs" where
  "runs_page cx count off want_status want_outcome st =
     (case history_runs cx (off + count + 1) want_status want_outcome st of
        (Inl e, st') \<Rightarrow> (Inl e, st')
      | (Inr (rs, total_found), st') \<Rightarrow>
          (Inr (take count (drop off rs), off + count < total_found,
             if off + count < total_found then Some (off + count) else None, total_found), st'))"

definition list_runs_page ::
  "run_web_env \<Rightarrow> nat \<Rightarrow> nat \<Rightarrow> string \<Rightarrow> string \<Rightarrow> web_runs \<Rightarrow> (web_failure + json) \<times> web_runs" where
  "list_runs_page env count off want_status want_outcome st =
     (case runs_page (rw_codec env) count off want_status want_outcome st of
        (Inl e, st') \<Rightarrow> (Inl e, st')
      | (Inr (rs, more_left, following, total_found), st') \<Rightarrow>
          (Inr (JObj [(''runs'', JArr (map summary_view rs)), (''truncated'', JBool more_left),
             (''next_offset'', nullable (JInt \<circ> int) following), (''total'', JInt (int total_found))]), st'))"

text \<open>\<^verbatim>\<open>csv.writer\<close> with its defaults: a field with a comma, a quote or a line end is quoted.\<close>

definition csv_field :: "string \<Rightarrow> string" where
  "csv_field s =
     (if list_ex (\<lambda>c. c \<in> {CHR '','', CHR 0x22, CHR 0x0A, CHR 0x0D}) s
      then CHR 0x22 # concat (map (\<lambda>c. if c = CHR 0x22 then [c, c] else [c]) s) @ [CHR 0x22] else s)"

definition csv_line :: "string list \<Rightarrow> string" where
  "csv_line row_fields = str_join '','' (map csv_field row_fields) @ [CHR 0x0D, CHR 0x0A]"

record csv_export =
  csv_text :: string
  csv_truncated :: bool
  csv_next_offset :: nat

definition export_runs ::
  "run_web_env \<Rightarrow> string \<Rightarrow> nat \<Rightarrow> nat \<Rightarrow> web_runs \<Rightarrow> (web_failure + csv_export) \<times> web_runs" where
  "export_runs env wanted count off st =
     (if wanted \<noteq> ''csv'' then (Inl (Http 400 ''only csv supported''), st)
      else case history_runs (rw_codec env) (off + count + 1) [] [] st of
        (Inl e, st') \<Rightarrow> (Inl e, st')
      | (Inr (history, total_found), st') \<Rightarrow>
          (let page = drop off history; rs = take count page
           in (Inr \<lparr>csv_text = concat (map csv_line
                   ([''run_id'', ''status'', ''outcome'', ''start_time'', ''last_event_time'', ''event_count'']
                    # map (\<lambda>r. [sum_run_id r, sum_status r, case sum_outcome r of None \<Rightarrow> [] | Some out \<Rightarrow> outcome_value out,
                        rw_float env (start_time r), rw_float env (last_event_time r), show_nat (event_count r)]) rs)),
                 csv_truncated = (count < length page), csv_next_offset = off + length rs\<rparr>, st')))"

end
