(* ===== verification/Run_Routes_Properties.thy ===== *)
theory Run_Routes_Properties
  imports Run_Routes Ledger_Properties
begin

section \<open>What the run endpoints keep (interfaces/web/routes_runs.py)\<close>

text \<open>
  The pages of the export and of the list, deletion, and the state the handlers share: any sequence
  of starts, resumes, ends, stops, deletions, reads and appends by the running companies.
\<close>

subsection \<open>Pages of one run\<close>

lemma since_is_drop:
  assumes "codec_ok cx" "ledger_ok cx l" "ledger_events cx l run = Inr es"
  shows "events_since cx l run k n = Inr (take n (drop k es))"
  using ledger_store.since_drop [of "(cx, l)" run es k n] assms by simp

lemma event_seqs:
  assumes "codec_ok cx" "ledger_ok cx l" "ledger_events cx l run = Inr es"
  shows "map ev_seq es = [1..<Suc (length es)]"
  using ledger_store.seqs [of "(cx, l)" run es] assms by simp

lemma last_seq_of_page:
  assumes "map ev_seq es = [1..<Suc (length es)]" "take n (drop k es) \<noteq> []"
  shows "ev_seq (last (take n (drop k es))) = min (k + n) (length es)"
proof -
  let ?m = "length (take n (drop k es))"
  have m: "?m = min n (length es - k)" by simp
  from assms(2) have pos: "0 < ?m" by (simp only: length_greater_0_conv simp_thms)
  then have k: "k < length es" "0 < n" by auto
  have "last (take n (drop k es)) = es ! (k + (?m - 1))"
    using pos k by (simp add: last_conv_nth)
  moreover have "ev_seq (es ! i) = Suc i" if "i < length es" for i
    using arg_cong [OF assms(1), of "\<lambda>xs. xs ! i"] that by (simp del: upt_Suc)
  moreover have "k + (?m - 1) < length es" "Suc (k + (?m - 1)) = min (k + n) (length es)" using pos k m by linarith+
  ultimately show ?thesis by metis
qed

lemma export_page_exact:
  assumes "codec_ok cx" "ledger_ok cx l" "ledger_events cx l run = Inr es"
  shows "export_page cx l run since count = Inr (take count (drop since es),
    (if take count (drop since es) = [] then since else min (since + count) (length es)), since + count < length es)"
proof -
  have "(count < length (take (count + 1) (drop since es))) = (since + count < length es)" by auto
  moreover have "take count (take (count + 1) (drop since es)) = take count (drop since es)" by (simp add: min_def)
  ultimately show ?thesis
    using last_seq_of_page [OF event_seqs [OF assms], of count since]
    by (simp add: export_page_def since_is_drop [OF assms] next_seq_def Let_def)
qed

text \<open>A client that follows \<^verbatim>\<open>next_seq\<close> while the page is truncated.\<close>

fun export_walk :: "nat \<Rightarrow> codec \<Rightarrow> ledger \<Rightarrow> run_id \<Rightarrow> nat \<Rightarrow> nat \<Rightarrow> ledger_error + event_envelope list" where
  "export_walk 0 cx l run count since = Inr []"
| "export_walk (Suc n) cx l run count since =
     (case export_page cx l run since count of
        Inl e \<Rightarrow> Inl e
      | Inr (es, following, more_left) \<Rightarrow>
          if \<not> more_left then Inr es
          else (case export_walk n cx l run count following of Inl e \<Rightarrow> Inl e | Inr rest \<Rightarrow> Inr (es @ rest)))"

lemma export_walk_drop:
  assumes "codec_ok cx" "ledger_ok cx l" "ledger_events cx l run = Inr es" "0 < count"
  shows "length es - since \<le> n \<Longrightarrow> export_walk n cx l run count since = Inr (drop since es)"
proof (induction n arbitrary: since)
  case (Suc n)
  show ?case
  proof (cases "since + count < length es")
    case True
    then have "take count (drop since es) \<noteq> []" "min (since + count) (length es) = since + count" using assms(4) by simp_all
    moreover have "export_walk n cx l run count (since + count) = Inr (drop (since + count) es)"
      using Suc.prems assms(4) True by (intro Suc.IH) simp
    moreover have "take count (drop since es) @ drop (since + count) es = drop since es"
      by (metis add.commute append_take_drop_id drop_drop)
    ultimately show ?thesis using True by (simp add: export_page_exact [OF assms(1-3)])
  next
    case False
    then show ?thesis by (simp add: export_page_exact [OF assms(1-3)])
  qed
qed simp

text \<open>C40: the pages of the export are the run.  A page holds the next events after the given number, in order
  and at most as many as asked for, it says exactly whether more follow and where to go on, and a
  client that follows the pages from the start gets every event of the run once and in order, after
  as many requests as there are events at most.\<close>

theorem export_pages_cover:
  assumes "codec_ok cx" "ledger_ok cx l" "ledger_events cx l run = Inr es" "0 < count"
  shows "export_page cx l run since count = Inr (take count (drop since es),
      (if take count (drop since es) = [] then since else min (since + count) (length es)), since + count < length es)
    \<and> export_walk (length es) cx l run count 0 = Inr es"
  using export_page_exact [OF assms(1-3)] export_walk_drop [OF assms, of 0 "length es"] by simp

theorem export_pages_cover_witness:
  "export_page small_codec two_events ''r'' 0 1 = Inr ([history_event 1 RunCreated [] ''#1''], 1, True)
   \<and> export_walk 2 small_codec two_events ''r'' 1 0 = Inr two_history"
proof -
  have "ledger_ok small_codec two_events" by (rule ledger_reachable_ok [OF two_events_reachable small_codec_ok])
  note pages = export_pages_cover [OF small_codec_ok this two_events_read, of 1 0]
  have "length two_history = 2" "take 1 two_history = [history_event 1 RunCreated [] ''#1'']" by (simp_all add: two_history_def)
  with pages show ?thesis by (simp del: export_walk.simps take_Suc_Cons One_nat_def)
qed

subsection \<open>Pages of the list\<close>

lemma list_runs_ids: "list_runs cx n off l = Inr page \<Longrightarrow> map sum_run_id page = listed_ids n off l"
  by (auto simp: list_runs_def Let_def summarize_def comp_def split: if_splits sum.splits)

definition history_ids :: "ledger \<Rightarrow> run_id list" where
  "history_ids l = rev (remdups (filter (\<lambda>r. r \<notin> fst ` set (tombstones l)) (map row_run (rows l))))"

lemma listed_ids_history: "listed_ids n off l = take n (drop off (history_ids l))"
  by (simp add: listed_ids_def history_ids_def)

text \<open>Without a concurrent append the pages list every run with events and without a tombstone once.\<close>

lemma history_pages_ids:
  "0 < n \<Longrightarrow> history_pages cx n off l = Inr rs \<Longrightarrow> map sum_run_id rs = drop off (history_ids l)"
proof (induction cx n off l arbitrary: rs rule: history_pages.induct)
  case (1 cx n off l)
  from "1.prems"(2) obtain page where page: "list_runs cx n off l = Inr page"
    by (auto simp: history_pages.simps [of cx n off l] split: sum.splits)
  have ids: "map sum_run_id page = take n (drop off (history_ids l))"
    using list_runs_ids [OF page] by (simp add: listed_ids_history)
  show ?case
  proof (cases "page = []")
    case True
    with ids have "take n (drop off (history_ids l)) = []" by simp
    with "1.prems"(1) have "drop off (history_ids l) = []" by (simp only: take_eq_Nil) blast
    moreover from True page "1.prems"(2) have "rs = []" by (simp add: history_pages.simps [of cx n off l])
    ultimately show ?thesis by simp
  next
    case False
    then obtain further where further: "history_pages cx n (off + length page) l = Inr further" "rs = page @ further"
      using page "1.prems"(2) by (auto simp: history_pages.simps [of cx n off l] split: sum.splits)
    have "length page = length (take n (drop off (history_ids l)))" using arg_cong [OF ids, of length] by simp
    then have "drop (off + length page) (history_ids l) = drop n (drop off (history_ids l))"
      by (cases "n \<le> length (history_ids l) - off") (simp_all add: add.commute)
    with "1.IH" [OF page False "1.prems"(1) further(1)] further(2) ids show ?thesis by (simp del: drop_drop)
  qed
qed

lemma history_once: "distinct (history_ids l) \<and> set (history_ids l) = row_run ` set (rows l) - fst ` set (tombstones l)"
  by (auto simp: history_ids_def)

text \<open>The pages of the list partition the sorted history.\<close>

lemma runs_page_exact:
  fixes a b :: string
  assumes "gather_runs cx paths st = (Inr rs, st')" "paths = database_paths (wr_index st)" "paths \<noteq> []"
  defines "found \<equiv> filter (run_wanted a b) rs"
  shows "runs_page cx count off a b st =
    (Inr (take count (drop off (sort_key (\<lambda>r. (- last_event_time r, sum_run_id r)) found)), off + count < length found,
       if off + count < length found then Some (off + count) else None, length found), st')"
proof -
  let ?s = "sort_key (\<lambda>r. (- last_event_time r, sum_run_id r)) found"
  have "take count (drop off (take (off + count + 1) ?s)) = take count (drop off ?s)"
    by (simp add: drop_take min_def)
  with assms show ?thesis by (simp add: runs_page_def history_runs_def Let_def)
qed

subsection \<open>Deletion hides a run and keeps it\<close>

lemma open_at_present:
  assumes "wr_disk st p = Some (l, v)" "\<not> closed l" "v \<le> DATABASE_SCHEMA_VERSION"
  shows "open_at p st = (Inr l, st\<lparr>wr_disk := (wr_disk st)(p \<mapsto> (l, DATABASE_SCHEMA_VERSION))\<rparr>)"
proof -
  have "open_ledger 5 v (rows l) (tombstones l) = Inr (l, DATABASE_SCHEMA_VERSION)"
    using assms(2,3) by (cases l) (simp add: open_ledger_def)
  with assms(1) show ?thesis by (simp add: open_at_def)
qed

text \<open>After a deletion the history does not list the run and lists the others as before, while its
  events, its integrity and its replay are what they were.\<close>

lemma deleted_run_hidden:
  assumes "delete_run env finished now run st = (Inr answer, st')" "db_path (wr_index st) run = Some p"
    "wr_disk st p = Some (l, v)" "\<not> closed l" "v \<le> DATABASE_SCHEMA_VERSION"
  shows "\<exists>l'. wr_disk st' p = Some (l', DATABASE_SCHEMA_VERSION) \<and> rows l' = rows l \<and> closed l' = closed l
    \<and> run \<notin> set (history_ids l') \<and> history_ids l' = filter (\<lambda>r. r \<noteq> run) (history_ids l)
    \<and> ledger_events (rw_codec env) l' run = ledger_events (rw_codec env) l run
    \<and> verify_integrity (rw_codec env) l' run = verify_integrity (rw_codec env) l run
    \<and> replay_run (rw_codec env) l' run = replay_run (rw_codec env) l run"
proof -
  let ?st1 = "st\<lparr>wr_disk := (wr_disk st)(p \<mapsto> (l, DATABASE_SCHEMA_VERSION))\<rparr>"
  from assms(1,2) open_at_present [OF assms(3-5)] obtain l' where l': "tombstone_run now run l = Inr l'"
    "st' = ?st1\<lparr>wr_disk := (wr_disk ?st1)(p \<mapsto> (l', DATABASE_SCHEMA_VERSION))\<rparr>"
    by (auto simp: delete_run_def with_ledger_def workspace_db_def split: if_splits sum.splits)
  then have rows: "rows l' = rows l" "closed l' = closed l" using tombstone_rows by blast+
  have "fst ` set (tombstones l') = insert run (fst ` set (tombstones l))"
    using l'(1) assms(4) by (auto simp: tombstone_run_def split: if_splits)
  then have "history_ids l' = rev (remdups (filter (\<lambda>r. r \<noteq> run) (filter (\<lambda>r. r \<notin> fst ` set (tombstones l)) (map row_run (rows l)))))"
    by (simp add: history_ids_def rows) (rule arg_cong [where f = remdups], rule filter_cong, auto)
  then have "history_ids l' = filter (\<lambda>r. r \<noteq> run) (history_ids l)"
    by (simp add: history_ids_def remdups_filter rev_filter [symmetric] del: filter_filter)
  with l'(2) rows show ?thesis
    by (simp add: ledger_events_def verify_integrity_def replay_run_def run_rows_def)
qed

subsection \<open>The shared state\<close>

text \<open>A fresh run id is one no supervisor and no index entry has.\<close>

definition unused_run :: "run_id \<Rightarrow> web_runs \<Rightarrow> bool" where
  "unused_run run st \<longleftrightarrow> run \<notin> fst ` set (wr_supervisors st) \<and> ri_runs (wr_index st) run = None"

inductive web_step :: "run_web_env \<Rightarrow> web_runs \<Rightarrow> web_runs \<Rightarrow> bool" for env where
  started: "unused_run run st \<Longrightarrow> web_step env st (snd (start_run env benv cfg accepted run lg tk b st))"
| resumed: "unused_run run st \<Longrightarrow> web_step env st (snd (resume_run env benv cfg finished accepted run lg tk old st))"
| ended: "web_step env st (run_finished run st)"
| stopped: "web_step env st (snd (stop_run run st))"
| deleted: "web_step env st (snd (delete_run env finished now run st))"
| viewed: "web_step env st (snd (get_run env finished run st))"
| wrote: "wr_disk st p = Some (l, v) \<Longrightarrow> append_next (rw_codec env) now run pl n l = Inr (e, l')
    \<Longrightarrow> web_step env st (st\<lparr>wr_disk := (wr_disk st)(p \<mapsto> (l', v))\<rparr>)"

text \<open>The invariant: the files are good ledgers, index entries are resolved roots, each supervised run
  is indexed at its workspace with a ledger there, and a cached state is the fold of a prefix.\<close>

definition disk_ok :: "codec \<Rightarrow> (string \<rightharpoonup> ledger \<times> int) \<Rightarrow> bool" where
  "disk_ok cx disk \<longleftrightarrow> (\<forall>p l v. disk p = Some (l, v) \<longrightarrow> ledger_ok cx l \<and> \<not> closed l \<and> v \<le> DATABASE_SCHEMA_VERSION)"

definition supervised_at :: "run_id \<Rightarrow> supervisor \<Rightarrow> string \<Rightarrow> bool" where
  "supervised_at r s ws \<longleftrightarrow> (\<exists>lg. supervised (new_supervisor r (Some lg) (Some ws) None False) s)"

definition owners_ok :: "web_runs \<Rightarrow> bool" where
  "owners_ok st \<longleftrightarrow> distinct (map fst (wr_supervisors st)) \<and>
     (\<forall>(r, s) \<in> set (wr_supervisors st). \<exists>ws. supervised_at r s ws \<and> ri_runs (wr_index st) r = Some ws
        \<and> wr_disk st (db_file ws) \<noteq> None)"

definition cached_prefix :: "codec \<Rightarrow> web_runs \<Rightarrow> run_id \<Rightarrow> nat \<Rightarrow> run_state \<Rightarrow> bool" where
  "cached_prefix cx st r k s \<longleftrightarrow> (\<exists>ws l v es. ri_runs (wr_index st) r = Some ws \<and> wr_disk st (db_file ws) = Some (l, v)
     \<and> ledger_events cx l r = Inr es \<and> k \<le> length es \<and> replay_events r (take k es) = Inr s)"

definition cache_ok :: "codec \<Rightarrow> web_runs \<Rightarrow> bool" where
  "cache_ok cx st \<longleftrightarrow> (\<forall>r k s. wr_cache st r = Some (k, s) \<longrightarrow> cached_prefix cx st r k s)"

definition registry_ok :: "run_web_env \<Rightarrow> web_runs \<Rightarrow> bool" where
  "registry_ok env st \<longleftrightarrow> disk_ok (rw_codec env) (wr_disk st)
     \<and> (\<forall>r ws. ri_runs (wr_index st) r = Some ws \<longrightarrow> rw_resolve env ws = ws)
     \<and> owners_ok st \<and> cache_ok (rw_codec env) st"

text \<open>What a change has to keep: the index only grows and so do the ledgers of the disk.\<close>

definition ledger_grows :: "codec \<Rightarrow> ledger \<Rightarrow> ledger \<Rightarrow> bool" where
  "ledger_grows cx l l' \<longleftrightarrow> (\<forall>r es. ledger_events cx l r = Inr es \<longrightarrow> (\<exists>more_es. ledger_events cx l' r = Inr (es @ more_es)))"

definition disk_grows :: "codec \<Rightarrow> (string \<rightharpoonup> ledger \<times> int) \<Rightarrow> (string \<rightharpoonup> ledger \<times> int) \<Rightarrow> bool" where
  "disk_grows cx d d' \<longleftrightarrow> (\<forall>p l v. d p = Some (l, v) \<longrightarrow> (\<exists>l' v'. d' p = Some (l', v') \<and> ledger_grows cx l l'))"

definition keeps_index :: "web_runs \<Rightarrow> web_runs \<Rightarrow> bool" where
  "keeps_index st st' \<longleftrightarrow> (\<forall>r ws. ri_runs (wr_index st) r = Some ws \<longrightarrow> ri_runs (wr_index st') r = Some ws)"

lemma ledger_grows_refl [simp, intro]: "ledger_grows cx l l"
  by (auto simp: ledger_grows_def)

lemma disk_grows_refl [simp, intro]: "disk_grows cx d d"
  by (auto simp: disk_grows_def)

lemma cached_prefix_mono:
  assumes "cached_prefix cx st r k s" "disk_grows cx (wr_disk st) (wr_disk st')" "keeps_index st st'"
  shows "cached_prefix cx st' r k s"
proof -
  from assms(1) obtain ws l v es where c: "ri_runs (wr_index st) r = Some ws" "wr_disk st (db_file ws) = Some (l, v)"
    "ledger_events cx l r = Inr es" "k \<le> length es" "replay_events r (take k es) = Inr s"
    by (auto simp: cached_prefix_def)
  from assms(2) c(2) obtain l' v' where l': "wr_disk st' (db_file ws) = Some (l', v')" "ledger_grows cx l l'"
    unfolding disk_grows_def by blast
  from l'(2) c(3) obtain more_es where "ledger_events cx l' r = Inr (es @ more_es)" by (auto simp: ledger_grows_def)
  with c l'(1) assms(3) show ?thesis
    unfolding cached_prefix_def keeps_index_def by (intro exI [of _ ws] exI [of _ l'] exI [of _ v'] exI [of _ "es @ more_es"]) simp
qed

lemma cache_ok_mono:
  "cache_ok cx st \<Longrightarrow> disk_grows cx (wr_disk st) (wr_disk st') \<Longrightarrow> keeps_index st st'
     \<Longrightarrow> (\<And>r e. wr_cache st' r = Some e \<Longrightarrow> wr_cache st r = Some e) \<Longrightarrow> cache_ok cx st'"
  unfolding cache_ok_def by (blast intro: cached_prefix_mono)

text \<open>Opening a file keeps its ledger or makes an empty one.\<close>

lemma open_at_cases:
  assumes "disk_ok cx (wr_disk st)"
  shows "\<exists>l. open_at p st = (Inr l, st\<lparr>wr_disk := (wr_disk st)(p \<mapsto> (l, DATABASE_SCHEMA_VERSION))\<rparr>)
    \<and> ledger_ok cx l \<and> \<not> closed l \<and> (case wr_disk st p of None \<Rightarrow> l = empty_ledger | Some (l0, v) \<Rightarrow> l = l0)"
proof (cases "wr_disk st p")
  case None
  have "open_ledger 5 0 [] [] = Inr (empty_ledger, DATABASE_SCHEMA_VERSION)"
    by (simp add: open_ledger_def empty_ledger_def DATABASE_SCHEMA_VERSION_def)
  with None show ?thesis by (simp add: open_at_def ledger_ok_def empty_ledger_def)
next
  case (Some lv)
  obtain l v where lv: "lv = (l, v)" by (cases lv)
  with assms Some have "ledger_ok cx l" "\<not> closed l" "v \<le> DATABASE_SCHEMA_VERSION" by (auto simp: disk_ok_def)
  with open_at_present [of st p l v] Some lv show ?thesis by simp
qed

lemma open_at_ok:
  assumes "disk_ok cx (wr_disk st)" "open_at p st = (res, st')"
  obtains l where "res = Inr l" "st' = st\<lparr>wr_disk := (wr_disk st)(p \<mapsto> (l, DATABASE_SCHEMA_VERSION))\<rparr>"
    "disk_ok cx (wr_disk st')" "disk_grows cx (wr_disk st) (wr_disk st')" "ledger_ok cx l" "\<not> closed l"
    "wr_disk st p = None \<or> (\<exists>v. wr_disk st p = Some (l, v))"
proof -
  from open_at_cases [OF assms(1), of p] assms(2) obtain l where l:
    "res = Inr l" "st' = st\<lparr>wr_disk := (wr_disk st)(p \<mapsto> (l, DATABASE_SCHEMA_VERSION))\<rparr>" "ledger_ok cx l" "\<not> closed l"
    "case wr_disk st p of None \<Rightarrow> l = empty_ledger | Some (l0, v) \<Rightarrow> l = l0" by auto
  then have "disk_ok cx (wr_disk st')" using assms(1) by (auto simp: disk_ok_def)
  moreover have "disk_grows cx (wr_disk st) (wr_disk st')" using l(2,5) by (auto simp: disk_grows_def)
  ultimately show thesis using l by (intro that [of l]) (auto split: option.splits)
qed

subsection \<open>The handlers keep the invariant\<close>

lemma registry_append: "k \<notin> fst ` set kvs \<Longrightarrow> dict_set kvs k v = kvs @ [(k, v)]"
  by (induction kvs) auto

lemma dict_set_last: "k \<notin> fst ` set kvs \<Longrightarrow> dict_set (kvs @ [(k, v)]) k w = kvs @ [(k, w)]"
  by (induction kvs) auto

lemma filter_fresh: "k \<notin> fst ` set kvs \<Longrightarrow> filter (\<lambda>kv. fst kv \<noteq> k) kvs = kvs"
  by (auto simp: filter_id_conv)

lemma register_runs:
  "register_run resolve run ws ix = Some ix' \<Longrightarrow> ri_runs ix' = (ri_runs ix)(run \<mapsto> resolve ws)"
  by (auto simp: register_run_def Let_def split: if_splits)

lemma registry_parts:
  assumes "registry_ok env st"
  shows "disk_ok (rw_codec env) (wr_disk st)" "owners_ok st" "cache_ok (rw_codec env) st"
    "ri_runs (wr_index st) r = Some ws \<Longrightarrow> rw_resolve env ws = ws"
  using assms by (simp_all add: registry_ok_def)

lemma keeps_index_same [intro]: "ri_runs (wr_index st') = ri_runs (wr_index st) \<Longrightarrow> keeps_index st st'"
  by (simp add: keeps_index_def)

lemma registry_same:
  assumes "registry_ok env st" "wr_disk st' = wr_disk st" "ri_runs (wr_index st') = ri_runs (wr_index st)"
    "wr_supervisors st' = wr_supervisors st" "\<And>r e. wr_cache st' r = Some e \<Longrightarrow> wr_cache st r = Some e"
  shows "registry_ok env st'"
proof -
  have "cache_ok (rw_codec env) st'"
    by (rule cache_ok_mono [OF registry_parts(3) [OF assms(1)] _ keeps_index_same [OF assms(3)] assms(5)]) (simp add: assms(2))
  with registry_parts [OF assms(1)] assms(2-4) show ?thesis by (simp add: registry_ok_def owners_ok_def)
qed

lemma owners_ok_mono:
  assumes "owners_ok st" "disk_grows cx (wr_disk st) (wr_disk st')" "keeps_index st st'" "wr_supervisors st' = wr_supervisors st"
  shows "owners_ok st'"
  unfolding owners_ok_def assms(4)
proof (intro conjI ballI)
  show "distinct (map fst (wr_supervisors st))" using assms(1) by (simp add: owners_ok_def)
  fix x assume x: "x \<in> set (wr_supervisors st)"
  obtain r s where rs: "x = (r, s)" by (cases x)
  from x rs assms(1) obtain ws lv where ws: "supervised_at r s ws" "ri_runs (wr_index st) r = Some ws" "wr_disk st (db_file ws) = Some lv"
    unfolding owners_ok_def by blast
  obtain l v where "lv = (l, v)" by (cases lv)
  with ws(3) assms(2) have "wr_disk st' (db_file ws) \<noteq> None" unfolding disk_grows_def by blast
  with ws assms(3) rs show "case x of (r, s) \<Rightarrow> \<exists>ws. supervised_at r s ws \<and> ri_runs (wr_index st') r = Some ws \<and> wr_disk st' (db_file ws) \<noteq> None"
    by (auto simp: keeps_index_def)
qed

lemma registry_opened:
  assumes "registry_ok env st" "open_at p st = (res, st')"
  obtains l where "res = Inr l" "registry_ok env st'" "wr_disk st' p = Some (l, DATABASE_SCHEMA_VERSION)"
    "wr_index st' = wr_index st" "wr_supervisors st' = wr_supervisors st" "wr_cache st' = wr_cache st" "ledger_ok (rw_codec env) l" "\<not> closed l"
    "wr_disk st p = None \<or> (\<exists>v. wr_disk st p = Some (l, v))"
proof -
  have d: "disk_ok (rw_codec env) (wr_disk st)" using assms(1) by (simp add: registry_ok_def)
  from open_at_ok [OF d assms(2)] obtain l where l: "res = Inr l"
    "st' = st\<lparr>wr_disk := (wr_disk st)(p \<mapsto> (l, DATABASE_SCHEMA_VERSION))\<rparr>" "disk_ok (rw_codec env) (wr_disk st')"
    "disk_grows (rw_codec env) (wr_disk st) (wr_disk st')" "ledger_ok (rw_codec env) l" "\<not> closed l"
    "wr_disk st p = None \<or> (\<exists>v. wr_disk st p = Some (l, v))" by blast
  have keep: "keeps_index st st'" by (simp add: l(2) keeps_index_def)
  have "owners_ok st'" by (rule owners_ok_mono [OF registry_parts(2) [OF assms(1)] l(4) keep]) (simp add: l(2))
  moreover have "cache_ok (rw_codec env) st'"
    by (rule cache_ok_mono [OF registry_parts(3) [OF assms(1)] l(4) keep]) (simp add: l(2))
  ultimately have "registry_ok env st'" using registry_parts(4) [OF assms(1)] l(2,3) by (simp add: registry_ok_def)
  with l show thesis by (intro that [of l]) simp_all
qed

lemma registry_launched:
  assumes "registry_ok env st" "unused_run run st" "rw_resolve env ws = ws" "wr_disk st (db_file ws) \<noteq> None"
  shows "registry_ok env (snd (launch (rw_resolve env) accepted run ws lg tk st))"
proof -
  let ?s = "new_supervisor run (Some lg) (Some ws) None False"
  have f: "run \<notin> fst ` set (wr_supervisors st)" "ri_runs (wr_index st) run = None" using assms(2) by (simp_all add: unused_run_def)
  show ?thesis
  proof (cases "register_run (rw_resolve env) run ws (wr_index st)")
    case None
    then show ?thesis using assms(1) f
      by (auto simp: launch_def rolled_back_def Let_def registry_append filter_fresh intro: registry_same)
  next
    case (Some ix)
    have ix: "ri_runs ix = (ri_runs (wr_index st))(run \<mapsto> ws)" using register_runs [OF Some] assms(3) by simp
    show ?thesis
    proof (cases accepted)
      case False
      have "ri_runs (forget_run run ix) = ri_runs (wr_index st)" using ix f(2) by (simp add: forget_run_def fun_upd_idem)
      then show ?thesis using assms(1) f False Some
        by (auto simp: launch_def rolled_back_def Let_def registry_append filter_fresh intro: registry_same)
    next
      case True
      let ?st = "st\<lparr>wr_supervisors := wr_supervisors st @ [(run, bind_task tk ?s)], wr_index := ix\<rparr>"
      have eq: "snd (launch (rw_resolve env) accepted run ws lg tk st) = ?st"
        using True Some f by (simp add: launch_def Let_def registry_append dict_set_last)
      have keep: "keeps_index st ?st" using ix f(2) by (auto simp: keeps_index_def)
      have "supervised_at run (bind_task tk ?s) ws"
        unfolding supervised_at_def by (intro exI [of _ lg] supervised.intros)
      moreover have "owners_ok (?st\<lparr>wr_supervisors := wr_supervisors st\<rparr>)"
        by (rule owners_ok_mono [OF registry_parts(2) [OF assms(1)], of "rw_codec env"]) (use keep in \<open>simp_all add: keeps_index_def\<close>)
      ultimately have "owners_ok ?st" using f(1) ix assms(4) by (auto simp: owners_ok_def)
      moreover have "cache_ok (rw_codec env) ?st"
        by (rule cache_ok_mono [OF registry_parts(3) [OF assms(1)] _ keep]) simp_all
      ultimately show ?thesis unfolding eq using registry_parts(1,4) [OF assms(1)] assms(3) ix by (auto simp: registry_ok_def)
    qed
  qed
qed

lemma registry_built:
  assumes "registry_ok env st" "unused_run run st" "rw_resolve env ws = ws"
  shows "registry_ok env (snd (build_and_launch env benv cfg accepted run ws (db_file ws) lg tk answer st))"
proof (cases "plan_company benv cfg ws (Some (db_file ws)) None")
  case (Inl e)
  then show ?thesis using assms(1) by (simp add: build_and_launch_def)
next
  case (Inr p)
  obtain res st' where o: "open_at (db_file ws) st = (res, st')" by (cases "open_at (db_file ws) st")
  from registry_opened [OF assms(1) o] obtain l where l: "res = Inr l" "registry_ok env st'"
    "wr_disk st' (db_file ws) = Some (l, DATABASE_SCHEMA_VERSION)" "wr_index st' = wr_index st"
    "wr_supervisors st' = wr_supervisors st" by blast
  then have "unused_run run st'" using assms(2) by (simp add: unused_run_def)
  from registry_launched [OF l(2) this assms(3), of accepted lg tk] l(3) Inr o l(1)
  show ?thesis
    by (cases "launch (rw_resolve env) accepted run ws lg tk st'") (simp add: build_and_launch_def split: option.splits)
qed

lemma registry_with_ledger:
  assumes "registry_ok env st"
    and act: "\<And>l st' ws. registry_ok env st' \<Longrightarrow> ri_runs (wr_index st') run = Some ws
      \<Longrightarrow> wr_disk st' (db_file ws) = Some (l, DATABASE_SCHEMA_VERSION) \<Longrightarrow> ledger_ok (rw_codec env) l \<Longrightarrow> \<not> closed l
      \<Longrightarrow> registry_ok env (snd (act l st'))"
  shows "registry_ok env (snd (with_ledger run act st))"
proof (cases "workspace_db run st")
  case (Inr found)
  show ?thesis
  proof (cases found)
    case None
    with Inr assms(1) show ?thesis by (simp add: with_ledger_def)
  next
    case (Some db)
    with Inr obtain ws where ws: "ri_runs (wr_index st) run = Some ws" "db = db_file ws"
      by (auto simp: workspace_db_def db_path_def split: if_splits)
    obtain res st' where o: "open_at db st = (res, st')" by (cases "open_at db st")
    from registry_opened [OF assms(1) o] obtain l where l: "res = Inr l" "registry_ok env st'"
      "wr_disk st' db = Some (l, DATABASE_SCHEMA_VERSION)" "wr_index st' = wr_index st" "ledger_ok (rw_codec env) l" "\<not> closed l" by blast
    from act [OF l(2), of ws l] l ws have "registry_ok env (snd (act l st'))" by simp
    with Inr Some o l(1) show ?thesis by (simp add: with_ledger_def)
  qed
qed (use assms(1) in \<open>simp add: with_ledger_def\<close>)

text \<open>Replacing a ledger by one that has grown.\<close>

lemma registry_replaced:
  assumes "registry_ok env st" "wr_disk st p = Some (l, v)" "ledger_grows (rw_codec env) l l'" "ledger_ok (rw_codec env) l'"
    "\<not> closed l'" "v' \<le> DATABASE_SCHEMA_VERSION"
  shows "registry_ok env (st\<lparr>wr_disk := (wr_disk st)(p \<mapsto> (l', v'))\<rparr>)"
proof -
  let ?st = "st\<lparr>wr_disk := (wr_disk st)(p \<mapsto> (l', v'))\<rparr>"
  have g: "disk_grows (rw_codec env) (wr_disk st) (wr_disk ?st)" using assms(2,3) by (auto simp: disk_grows_def)
  have keep: "keeps_index st ?st" by (simp add: keeps_index_def)
  have "owners_ok ?st" by (rule owners_ok_mono [OF registry_parts(2) [OF assms(1)] g keep]) simp
  moreover have "cache_ok (rw_codec env) ?st" by (rule cache_ok_mono [OF registry_parts(3) [OF assms(1)] g keep]) simp
  moreover have "disk_ok (rw_codec env) (wr_disk ?st)" using registry_parts(1) [OF assms(1)] assms(4-6) by (auto simp: disk_ok_def)
  ultimately show ?thesis using registry_parts(4) [OF assms(1)] by (simp add: registry_ok_def)
qed

lemma same_rows_grow:
  assumes "rows l' = rows l" "closed l' = closed l"
  shows "ledger_grows cx l l'" "ledger_ok cx l' = ledger_ok cx l"
proof -
  have "ledger_events cx l' r = ledger_events cx l r" for r by (simp add: ledger_events_def run_rows_def assms)
  then show "ledger_grows cx l l'" unfolding ledger_grows_def by (metis append_Nil2)
qed (simp add: ledger_ok_def assms)

lemma registry_deleted:
  assumes "registry_ok env st"
  shows "registry_ok env (snd (delete_run env finished now run st))"
proof -
  have "registry_ok env (snd (case ledger_events (rw_codec env) l run of
          Inl e \<Rightarrow> (Inl (ledger_failure e), st')
        | Inr es \<Rightarrow>
            if es = [] then (Inl (Http 404 (''unknown run: '' @ run)), st')
            else (case tombstone_run now run l of
              Inl e \<Rightarrow> (Inl (ledger_failure e), st')
            | Inr l' \<Rightarrow> (Inr (JObj [(''run_id'', JStr run), (''deleted'', JBool True)]),
                st'\<lparr>wr_disk := (wr_disk st')(the (db_path (wr_index st') run) \<mapsto> (l', DATABASE_SCHEMA_VERSION))\<rparr>))))"
    if h: "registry_ok env st'" "ri_runs (wr_index st') run = Some ws" "wr_disk st' (db_file ws) = Some (l, DATABASE_SCHEMA_VERSION)"
      "ledger_ok (rw_codec env) l" "\<not> closed l" for l st' ws
  proof (cases "tombstone_run now run l")
    case (Inl e)
    then show ?thesis using h(1) by (simp split: sum.split)
  next
    case (Inr l')
    from tombstone_rows [OF this] have l': "rows l' = rows l" "closed l' = closed l" by simp_all
    have "registry_ok env (st'\<lparr>wr_disk := (wr_disk st')(db_file ws \<mapsto> (l', DATABASE_SCHEMA_VERSION))\<rparr>)"
      using same_rows_grow [OF l', of "rw_codec env"] h l' by (intro registry_replaced [of env st' "db_file ws" l]) simp_all
    with Inr h(1,2) show ?thesis by (simp add: db_path_def split: sum.split)
  qed
  from registry_with_ledger [OF assms this] assms show ?thesis by (simp add: delete_run_def)
qed

lemma project_tail_ok:
  assumes "registry_ok env st" "codec_ok (rw_codec env)" "ri_runs (wr_index st) run = Some ws" "wr_disk st (db_file ws) = Some (l, v)"
    "project_tail env l run st = (res, st')"
  shows "registry_ok env st' \<and> (case res of Inl e \<Rightarrow> True
    | Inr s \<Rightarrow> \<exists>es. ledger_events (rw_codec env) l run = Inr es \<and> replay_events run (take (cursor (wr_cache st) run + 500) es) = Inr s)"
proof (cases res)
  case (Inl e)
  with assms(1,5) show ?thesis by (auto simp: project_tail_def split: sum.splits)
next
  case (Inr s)
  let ?cx = "rw_codec env" and ?c = "wr_cache st |` {run}"
  from registry_parts(1) [OF assms(1)] assms(4) have l: "ledger_ok ?cx l" "\<not> closed l" by (auto simp: disk_ok_def)
  from ledger_reads_back [OF assms(2) l(1), of run] l(2) obtain es where es: "ledger_events ?cx l run = Inr es"
    by (auto simp: ledger_events_def)
  from assms(5) Inr obtain tail c' where t: "events_since ?cx l run (cursor (wr_cache st) run) 500 = Inr tail"
    "project (wr_cache st) run tail = Inr (s, c')" "st' = st\<lparr>wr_cache := c'\<rparr>"
    by (auto simp: project_tail_def split: sum.splits)
  have cur: "cursor ?c run = cursor (wr_cache st) run" by (simp add: cursor_def)
  obtain k where k: "c' = (wr_cache st)(run \<mapsto> (k, s))" "project ?c run tail = Inr (s, ?c(run \<mapsto> (k, s)))"
    using t(2) by (auto simp: project_def Let_def split: sum.splits prod.splits)
  have "j \<le> length es \<and> replay_events run (take j es) = Inr x" if "wr_cache st run = Some (j, x)" for j x
  proof -
    have "cached_prefix ?cx st run j x" using registry_parts(3) [OF assms(1)] that by (simp add: cache_ok_def)
    with assms(3,4) es show ?thesis by (auto simp: cached_prefix_def)
  qed
  then have "ledger_store.coherent ?c (?cx, l)"
    using es by (auto simp: ledger_store.coherent_def restrict_map_def split: if_splits)
  from ledger_store.poll_prefix [OF this, of run es 500 tail s "?c(run \<mapsto> (k, s))"] assms(2) l(1) es t(1) k(2) cur
  have p: "replay_events run (take (cursor (wr_cache st) run + 500) es) = Inr s" "ledger_store.coherent (?c(run \<mapsto> (k, s))) (?cx, l)"
    by simp_all
  from p(2) [unfolded ledger_store.coherent_def, rule_format, of run k s] es
  have "k \<le> length es" "replay_events run (take k es) = Inr s" by auto
  then have new: "cached_prefix ?cx st' run k s" using assms(3,4) es t(3) by (auto simp: cached_prefix_def)
  have "cached_prefix ?cx st' r j x" if "wr_cache st r = Some (j, x)" for r j x
    using registry_parts(3) [OF assms(1)] that t(3) by (auto simp: cache_ok_def cached_prefix_def)
  with new have "cache_ok ?cx st'" using t(3) k(1) by (simp add: cache_ok_def)
  then have "registry_ok env st'" using registry_parts [OF assms(1)] t(3) by (simp add: registry_ok_def owners_ok_def)
  with p(1) es Inr show ?thesis by simp
qed

lemma registry_viewed:
  assumes "registry_ok env st" "codec_ok (rw_codec env)"
  shows "registry_ok env (snd (get_run env finished run st))"
  unfolding get_run_def
proof (rule registry_with_ledger [OF assms(1)])
  fix l st' ws
  assume h: "registry_ok env st'" "ri_runs (wr_index st') run = Some ws" "wr_disk st' (db_file ws) = Some (l, DATABASE_SCHEMA_VERSION)"
  obtain res st'' where p: "project_tail env l run st' = (res, st'')" by (cases "project_tail env l run st'")
  from project_tail_ok [OF h(1) assms(2) h(2,3) p] h(1) p
  show "registry_ok env (snd (let active = run_active finished st' run;
         (read_state, st'') = (if active then project_tail env l run st' else (replayed env l run, st'))
     in (case read_state of
           Inl e \<Rightarrow> Inl e | Inr s \<Rightarrow> Inr (JObj (run_snapshot env s @ [(''active'', JBool active)])), st'')))"
    by (simp add: Let_def)
qed

lemma entry_of_dict_set:
  "kv \<in> set (dict_set kvs k v) \<Longrightarrow> kv = (k, v) \<or> kv \<in> set kvs"
  by (induction kvs k v rule: dict_set.induct) (auto split: if_splits)

lemma keys_of_dict_set: "k \<in> fst ` set kvs \<Longrightarrow> map fst (dict_set kvs k v) = map fst kvs"
  by (induction kvs k v rule: dict_set.induct) auto

lemma registry_ended:
  assumes "registry_ok env st"
  shows "registry_ok env (run_finished run st)"
proof (cases "map_of (wr_supervisors st) run")
  case (Some s)
  let ?st = "st\<lparr>wr_supervisors := dict_set (wr_supervisors st) run (release_handles s)\<rparr>"
  from Some have mem: "(run, s) \<in> set (wr_supervisors st)" by (rule map_of_SomeD)
  then have key: "run \<in> fst ` set (wr_supervisors st)" by force
  have "\<exists>ws. supervised_at r t ws \<and> ri_runs (wr_index st) r = Some ws \<and> wr_disk st (db_file ws) \<noteq> None"
    if "(r, t) \<in> set (dict_set (wr_supervisors st) run (release_handles s))" for r t
  proof -
    from entry_of_dict_set [OF that] have "(r, t) \<in> set (wr_supervisors st) \<or> r = run \<and> t = release_handles s" by auto
    with registry_parts(2) [OF assms] mem show ?thesis
      by (fastforce simp: owners_ok_def supervised_at_def intro: supervised.release)
  qed
  then have "owners_ok ?st"
    using registry_parts(2) [OF assms] by (auto simp: owners_ok_def keys_of_dict_set [OF key])
  moreover have "cache_ok (rw_codec env) ?st"
    by (rule cache_ok_mono [OF registry_parts(3) [OF assms]]) (simp_all add: keeps_index_def)
  ultimately show ?thesis using Some registry_parts(1,4) [OF assms] by (simp add: run_finished_def registry_ok_def)
qed (use assms in \<open>simp add: run_finished_def\<close>)

lemma registry_stopped:
  assumes "registry_ok env st"
  shows "registry_ok env (snd (stop_run run st))"
  by (rule registry_same [OF assms]) (auto simp: stop_run_def invalidate_def split: option.splits if_splits)

lemma registry_wrote:
  assumes "registry_ok env st" "codec_ok (rw_codec env)" "wr_disk st p = Some (l, v)"
    "append_next (rw_codec env) now run pl n l = Inr (e, l')"
  shows "registry_ok env (st\<lparr>wr_disk := (wr_disk st)(p \<mapsto> (l', v))\<rparr>)"
proof -
  from registry_parts(1) [OF assms(1)] assms(3) have l: "ledger_ok (rw_codec env) l" "\<not> closed l" "v \<le> DATABASE_SCHEMA_VERSION"
    by (auto simp: disk_ok_def)
  from append_next_store [OF assms(4)] obtain ev where ev: "store (rw_codec env) ev l = Inr (e, l')" by blast
  from store_Inr [OF assms(2) l(1) ev] obtain w where "l' = l\<lparr>rows := rows l @ [w]\<rparr>" by metis
  then have "\<not> closed l'" using l(2) by simp
  moreover have "ledger_grows (rw_codec env) l l'"
    unfolding ledger_grows_def
  proof (intro allI impI)
    fix r es assume "ledger_events (rw_codec env) l r = Inr es"
    from append_next_events [OF assms(2) l(1) assms(4) this]
    show "\<exists>more_es. ledger_events (rw_codec env) l' r = Inr (es @ more_es)" by (metis append_Nil2)
  qed
  ultimately show ?thesis
    using store_ok [OF assms(2) l(1) ev] l(3) by (intro registry_replaced [OF assms(1,3)])
qed

lemma registry_started:
  assumes "registry_ok env st" "unused_run run st" "\<And>x. rw_resolve env (rw_resolve env x) = rw_resolve env x"
  shows "registry_ok env (snd (start_run env benv cfg accepted run lg tk b st))"
  using registry_built [OF assms(1,2), of "rw_resolve env (rb_workspace_root b)"] assms(1,3)
  by (simp add: start_run_def Let_def)

lemma registry_resumed:
  assumes "registry_ok env st" "unused_run run st"
  shows "registry_ok env (snd (resume_run env benv cfg finished accepted run lg tk old st))"
proof (cases "workspace_db old st")
  case (Inr found)
  show ?thesis
  proof (cases found)
    case (Some db)
    with Inr obtain ws where ws: "ri_runs (wr_index st) old = Some ws" "db = db_file ws"
      by (auto simp: workspace_db_def db_path_def split: if_splits)
    from registry_built [OF assms registry_parts(4) [OF assms(1) ws(1)]] ws Inr Some assms(1)
    show ?thesis by (simp add: resume_run_def Let_def)
  qed (use assms(1) Inr in \<open>simp add: resume_run_def\<close>)
qed (use assms(1) in \<open>simp add: resume_run_def\<close>)

lemma registry_reachable:
  assumes "(web_step env)\<^sup>*\<^sup>* st0 st" "registry_ok env st0" "codec_ok (rw_codec env)"
    "\<And>x. rw_resolve env (rw_resolve env x) = rw_resolve env x"
  shows "registry_ok env st"
  using assms(1)
proof (induction rule: rtranclp_induct)
  case (step y z)
  from step.hyps(2) step.IH assms(3,4) show ?case
    by cases (auto intro: registry_started registry_resumed registry_ended registry_stopped registry_deleted registry_viewed
        registry_wrote)
qed (rule assms(2))

subsection \<open>Properties\<close>

text \<open>What the server starts from: no run, an empty cache, resolved roots, good ledgers.\<close>

definition served_from :: "run_web_env \<Rightarrow> web_runs \<Rightarrow> web_runs \<Rightarrow> bool" where
  "served_from env st0 st \<longleftrightarrow> (web_step env)\<^sup>*\<^sup>* st0 st \<and> wr_supervisors st0 = [] \<and> wr_cache st0 = Map.empty
     \<and> disk_ok (rw_codec env) (wr_disk st0) \<and> (\<forall>r ws. ri_runs (wr_index st0) r = Some ws \<longrightarrow> rw_resolve env ws = ws)
     \<and> codec_ok (rw_codec env) \<and> (\<forall>x. rw_resolve env (rw_resolve env x) = rw_resolve env x)"

lemma served_registry: "served_from env st0 st \<Longrightarrow> registry_ok env st"
  by (rule registry_reachable [of env st0])
    (auto simp: served_from_def registry_ok_def owners_ok_def cache_ok_def)

definition sample_run_env :: run_web_env where
  "sample_run_env = \<lparr>rw_codec = small_codec, rw_resolve = (\<lambda>p. p), rw_base = ''/'', rw_is_dir = (\<lambda>_. True), rw_invalid = [],
     rw_cell = (\<lambda>_. JNull), rw_routes = (\<lambda>_. JNull), rw_float = (\<lambda>_. []), rw_integrity_text = (\<lambda>_. None)\<rparr>"

definition seen_state :: web_runs where
  "seen_state = \<lparr>wr_supervisors = [], wr_index = \<lparr>ri_runs = [''r'' \<mapsto> ''/w''], ri_workspaces = {''/w''}, ri_ambiguous = {}\<rparr>,
     wr_cache = Map.empty, wr_disk = [db_file ''/w'' \<mapsto> (two_events, 1)], wr_log = []\<rparr>"

definition sample_start_body :: run_start_body where
  "sample_start_body = \<lparr>rb_goal = ''g'', rb_workspace_root = ''/w'', rb_budget_tokens = None, rb_budget_cost_usd = None, rb_max_waves = 3\<rparr>"

definition started_state :: web_runs where
  "started_state = snd (start_run sample_run_env sample_build_env sample_config True ''q'' 1 2 sample_start_body seen_state)"

lemma sample_served: "served_from sample_run_env seen_state seen_state" "served_from sample_run_env seen_state started_state"
proof -
  have "ledger_ok small_codec two_events" by (rule ledger_reachable_ok [OF two_events_reachable small_codec_ok])
  then show here: "served_from sample_run_env seen_state seen_state"
    using two_events_rows(2) small_codec_ok
    by (auto simp: served_from_def sample_run_env_def seen_state_def disk_ok_def DATABASE_SCHEMA_VERSION_def split: if_splits)
  have "unused_run ''q'' seen_state" by (simp add: unused_run_def seen_state_def)
  then have "web_step sample_run_env seen_state started_state" unfolding started_state_def by (rule web_step.started)
  with here show "served_from sample_run_env seen_state started_state" by (auto simp: served_from_def)
qed

lemma plan_made:
  assumes "config_ok ipl cfg" "calibration_path (run_settings cfg) = []"
  shows "\<exists>p. plan_company benv cfg ws db None = Inr p"
proof -
  obtain intake where "choose_intake cfg None = Inr intake" using intake_chosen [OF assms(1)] by blast
  moreover obtain rs where "choose_reviewers cfg = Inr rs"
    using with_outputs_declare [OF assms(1), of "take MIN_BLINDED_REVIEWERS (role_chain cfg REVIEWER)" REVIEWER]
    by (auto simp: choose_reviewers_def set_take_subset)
  ultimately show ?thesis using assms(2) by (simp add: plan_company_def Let_def)
qed

lemma started_supervisors:
  "wr_supervisors started_state = [(''q'', bind_task 2 (new_supervisor ''q'' (Some 1) (Some ''/w'') None False))]"
proof -
  obtain p where p: "plan_company sample_build_env sample_config ''/w'' (Some (db_file ''/w'')) None = Inr p"
  proof -
    have "calibration_path (run_settings sample_config) = []" by (simp add: sample_config_def)
    from plan_made [OF sample_config_ok this] show thesis by (rule exE) (rule that)
  qed
  have o: "open_at (db_file ''/w'') seen_state = (Inr two_events, seen_state\<lparr>wr_disk := [db_file ''/w'' \<mapsto> (two_events, 1)]\<rparr>)"
    using open_at_present [of seen_state "db_file ''/w''" two_events 1] two_events_rows(2)
    by (simp add: seen_state_def DATABASE_SCHEMA_VERSION_def)
  let ?st = "seen_state\<lparr>wr_disk := [db_file ''/w'' \<mapsto> (two_events, 1)]\<rparr>"
  let ?answer = "JObj [(''run_id'', JStr ''q''), (''workspace_root'', JStr ''/w'')]"
  obtain st2 where l: "launch (\<lambda>p. p) True ''q'' ''/w'' 1 2 ?st = (None, st2)"
    "wr_supervisors st2 = [(''q'', bind_task 2 (new_supervisor ''q'' (Some 1) (Some ''/w'') None False))]"
    by (simp add: launch_def Let_def seen_state_def register_run_def)
  have env: "rw_resolve sample_run_env = (\<lambda>p. p)" "rw_base sample_run_env = ''/''" "rw_is_dir sample_run_env ws" for ws
    by (simp_all add: sample_run_env_def)
  have built: "build_and_launch sample_run_env sample_build_env sample_config True ''q'' ''/w'' (db_file ''/w'') 1 2 ?answer seen_state
      = (Inr ?answer, st2)"
    unfolding build_and_launch_def p o env(1) sum.case prod.case l(1) option.case ..
  have "strip ''g'' = ''g''" by code_simp
  then have "valid_start_body sample_start_body" "valid_request (start_request sample_start_body ''/w'')"
    by (simp_all add: valid_start_body_def valid_request_def start_request_def sample_start_body_def MAX_WAVES_def)
  moreover have "is_within ''/w'' ''/''" by code_simp
  moreover have "rb_workspace_root sample_start_body = ''/w''" by (simp add: sample_start_body_def)
  ultimately have "started_state = st2"
    unfolding started_state_def start_run_def Let_def env
    by (simp only: simp_thms if_True if_False env built snd_conv)
  with l(2) show ?thesis by simp
qed

text \<open>C38: the shared state stays consistent.  After any sequence of starts, resumes, ends, stops, deletions, reads
  and appends, each supervised run is indexed at the workspace its supervisor holds, with a ledger
  file there; its own ledger handle is open until the task ends and closed exactly once by then; and
  a run whose task is alive is listed as active and can neither be deleted nor resumed, which change
  nothing.\<close>

theorem registry_invariant:
  assumes "served_from env st0 st" "(r, s) \<in> set (wr_supervisors st)"
  shows "sv_run_id s = r \<and> sv_workspace s \<noteq> None \<and> workspace_of (wr_index st) r = sv_workspace s
    \<and> wr_disk st (db_file (the (sv_workspace s))) \<noteq> None
    \<and> length (closes s) = (if sv_released s then 1 else 0) \<and> (live_ledger s = None) = sv_released s
    \<and> (is_active finished s \<longrightarrow> r \<in> set (list_active_runs finished st)
        \<and> delete_run env finished now r st = (Inl (Http 409 ''run is active; stop it before deleting''), st)
        \<and> resume_run env benv cfg finished accepted new_run lg tk r st
            = (Inl (Http 409 ''run is active; stop it before resuming''), st))"
proof -
  from registry_parts(2) [OF served_registry [OF assms(1)]] assms(2) obtain ws h where
    ws: "supervised (new_supervisor r (Some h) (Some ws) None False) s" "ri_runs (wr_index st) r = Some ws" "wr_disk st (db_file ws) \<noteq> None"
    and d: "distinct (map fst (wr_supervisors st))"
    unfolding owners_ok_def supervised_at_def by blast
  from supervised_keeps [OF ws(1)]
  have s: "sv_run_id s = r" "sv_workspace s = Some ws" "closes s = (if sv_released s then [h] else [])"
    "sv_ledger s = (if sv_released s then None else Some h)" by (auto split: if_splits)
  have "map_of (wr_supervisors st) r = Some s" using d assms(2) by (simp add: map_of_eq_Some_iff)
  then have "run_active finished st r = is_active finished s" by (simp add: run_active_def)
  then show ?thesis
    using s ws(2,3) assms(2)
    by (auto simp: workspace_of_def live_ledger_def list_active_runs_def delete_run_def resume_run_def image_iff intro!: bexI [of _ "(r, s)"])
qed

text \<open>C39: what a run's page shows is a replay of its ledger.  At any reachable state the answer for a run is the
  snapshot of the replay of the ledger at its workspace: of all its events when its task is not
  alive, and of the events up to 500 past what the cache had seen when it is.\<close>

theorem run_view_is_replay:
  assumes "served_from env st0 st" "get_run env finished r st = (Inr answer, st')"
  shows "\<exists>ws l v es s. ri_runs (wr_index st) r = Some ws \<and> wr_disk st' (db_file ws) = Some (l, v)
    \<and> ledger_events (rw_codec env) l r = Inr es
    \<and> replay_events r (if run_active finished st r then take (cursor (wr_cache st) r + 500) es else es) = Inr s
    \<and> answer = JObj (run_snapshot env s @ [(''active'', JBool (run_active finished st r))])"
proof -
  have ok: "registry_ok env st" by (rule served_registry [OF assms(1)])
  have cx: "codec_ok (rw_codec env)" using assms(1) by (simp add: served_from_def)
  from assms(2) obtain ws where ws: "workspace_db r st = Inr (Some (db_file ws))" "ri_runs (wr_index st) r = Some ws"
    by (auto simp: get_run_def with_ledger_def workspace_db_def db_path_def split: if_splits option.splits)
  obtain res st1 where o: "open_at (db_file ws) st = (res, st1)" by (cases "open_at (db_file ws) st")
  from registry_opened [OF ok o] obtain l where l: "res = Inr l" "registry_ok env st1"
    "wr_disk st1 (db_file ws) = Some (l, DATABASE_SCHEMA_VERSION)" "wr_index st1 = wr_index st"
    "wr_supervisors st1 = wr_supervisors st" "wr_cache st1 = wr_cache st" by blast
  have active: "run_active finished st1 r = run_active finished st r" using l(5) by (simp add: run_active_def)
  show ?thesis
  proof (cases "run_active finished st r")
    case True
    obtain q st2 where p: "project_tail env l r st1 = (q, st2)" by (cases "project_tail env l r st1")
    with assms(2) ws(1) o l(1) active True obtain s where q: "q = Inr s" "st' = st2"
      "answer = JObj (run_snapshot env s @ [(''active'', JBool True)])"
      by (auto simp: get_run_def with_ledger_def Let_def split: sum.splits)
    have "wr_disk st2 = wr_disk st1" using p by (auto simp: project_tail_def split: sum.splits)
    with project_tail_ok [OF l(2) cx _ l(3) p] ws(2) l(3,4,6) q True show ?thesis by auto
  next
    case False
    with assms(2) ws(1) o l(1) active obtain s where q: "replayed env l r = Inr s" "st' = st1"
      "answer = JObj (run_snapshot env s @ [(''active'', JBool False)])"
      by (auto simp: get_run_def with_ledger_def Let_def split: sum.splits)
    then obtain es where "ledger_events (rw_codec env) l r = Inr es" "replay_events r es = Inr s"
      by (auto simp: replayed_def replay_run_def split: sum.splits)
    with q ws(2) l(3) False show ?thesis by auto
  qed
qed

theorem registry_invariant_witness:
  "\<exists>s. wr_supervisors started_state = [(''q'', s)] \<and> workspace_of (wr_index started_state) ''q'' = sv_workspace s
     \<and> delete_run sample_run_env (\<lambda>_. False) 0 ''q'' started_state
         = (Inl (Http 409 ''run is active; stop it before deleting''), started_state)"
proof -
  let ?s = "bind_task 2 (new_supervisor ''q'' (Some 1) (Some ''/w'') None False)"
  have "(''q'', ?s) \<in> set (wr_supervisors started_state)" by (simp add: started_supervisors)
  from registry_invariant [OF sample_served(2) this, of "\<lambda>_. False" 0]
  have "workspace_of (wr_index started_state) ''q'' = sv_workspace ?s"
    "is_active (\<lambda>_. False) ?s \<longrightarrow> delete_run sample_run_env (\<lambda>_. False) 0 ''q'' started_state
         = (Inl (Http 409 ''run is active; stop it before deleting''), started_state)" by simp_all
  moreover have "is_active (\<lambda>_. False) ?s" by (simp add: is_active_def bind_task_def new_supervisor_def)
  ultimately show ?thesis using started_supervisors by (intro exI [of _ ?s]) simp
qed

theorem run_view_is_replay_witness:
  "\<exists>answer s. fst (get_run sample_run_env (\<lambda>_. False) ''r'' seen_state) = Inr answer
     \<and> replay_events ''r'' two_history = Inr s \<and> answer = JObj (run_snapshot sample_run_env s @ [(''active'', JBool False)])"
proof -
  have o: "open_at (db_file ''/w'') seen_state = (Inr two_events, seen_state)"
    using open_at_present [of seen_state "db_file ''/w''" two_events 1] two_events_rows(2)
    by (simp add: seen_state_def DATABASE_SCHEMA_VERSION_def)
  obtain s where s: "replay_events ''r'' two_history = Inr s" using two_history_replays by blast
  then have "replayed sample_run_env two_events ''r'' = Inr s"
    by (simp add: replayed_def replay_run_def sample_run_env_def two_events_read)
  moreover have "workspace_db ''r'' seen_state = Inr (Some (db_file ''/w''))"
    by (simp add: workspace_db_def is_ambiguous_def db_path_def seen_state_def)
  moreover have idle: "\<not> run_active (\<lambda>_. False) seen_state ''r''" by (simp add: run_active_def seen_state_def)
  ultimately obtain answer where a: "get_run sample_run_env (\<lambda>_. False) ''r'' seen_state = (Inr answer, seen_state)"
    using o by (simp add: get_run_def with_ledger_def)
  from run_view_is_replay [OF sample_served(1) a] idle obtain t where
    t: "replay_events ''r'' two_history = Inr t" "answer = JObj (run_snapshot sample_run_env t @ [(''active'', JBool False)])"
    by (auto simp: seen_state_def sample_run_env_def two_events_read)
  with a show ?thesis by simp
qed

end
