(* ===== verification/Spec2Isabelle.thy ===== *)
theory Spec2Isabelle
  imports Ledger_Properties Replay Cell_Runner Scheduling Release_Law Config Artifacts Tree_Digest Workspace_Properties Orchestrator_Properties Planning_Model Worker_Limits Provider_Http_Properties Stream_Properties Gateway_Properties Wire_Properties Explicit_Goals Web_Fetch_Properties Memory_Store Run_Supervisor Run_Index Calibration Config_Routes Benchmark_Properties Run_Routes_Properties
begin

text \<open>
  A verification development for NorthStack, an orchestrator of model-driven work with an
  append-only event ledger (sources under src/src/northstack).

  The program.  A request names a goal and a workspace.  The contract compiler turns it into a work
  contract, the planner into a graph of cells, the router picks a model profile for each cell, the
  worker runs the model/tool loop of a cell through the provider gateway on a confined workspace,
  failures go through recovery, hard gates and a blinded soft review check the result, and the
  release law decides verified, failed or abstained.  Every step is an event of a hash-chained
  SQLite ledger; run state is a fold of events, never stored.  Configuration is a TOML file that a
  web store edits.  The theories follow these parts; each definition bears the source's name where
  HOL leaves it free, an error is a value of a sum or option type, state is a record passed on and
  returned, floats are exact rationals, Python integers are \<^typ>\<open>int\<close> (\<^typ>\<open>nat\<close> where the model declares
  them non-negative), and texts and bytes are lists of characters.

  Shared: \<open>Prelude\<close> (JSON values, dicts, number text, counted folds), \<open>Hashing\<close> (hex digests),
  \<open>Text_Forms\<close> and \<open>Text_Patterns\<close> (strip, lines, a regular-expression matcher), \<open>Python_Values\<close>
  (truthiness and hashing of JSON values), \<open>File_Tree\<close> (a directory as a tree of entries).

  Domain and events: \<open>Run_Status\<close> (domain/status.py: statuses and \<^verbatim>\<open>route\<close>), \<open>Budgets\<close>
  (domain/budget.py, application/budget_authority.py), \<open>Domain\<close> (contract, graph, outcome, request),
  \<open>Secrets_Policy\<close> (redaction), \<open>Events\<close> (the catalog, envelopes and upcasting), \<open>Projection\<close> and
  \<open>Replay\<close> (the fold and the cache), \<open>Ledger\<close>, \<open>Ledger_Integrity\<close> and \<open>Ledger_Properties\<close>
  (adapters/sqlite_ledger.py on a list of rows).  Shown: legal transitions only and every run can
  reach an end; the books of the authority balance; replay is the fold; a reachable ledger verifies
  and its head hash commits to the history; polling through the cache equals a replay.

  Planning and execution: \<open>Config\<close> and \<open>Routing\<close>, \<open>Planning\<close> and \<open>Planning_Model\<close>, \<open>Scheduling\<close>,
  \<open>Retry\<close>, \<open>Cell_Runner\<close> with \<open>Wire\<close>, \<open>Orchestrator\<close> with \<open>Run_Protocol\<close> and \<open>Orchestrator_Properties\<close>,
  \<open>Company_Build\<close> (application/build.py).  The orchestrator is stated over any ledger, planner,
  compiler, cell execution and canceller; the locale \<open>cell_executor\<close> is the contract it has with
  the cells, met by the cell runner.  Shown: the event stream of a run keeps its protocol under any
  failure or cancellation, verified is only reached through the gates and the release law, an
  undisturbed run ends, and the composition gives every task to a profile that declares its role.

  The worker: \<open>Worker\<close>, \<open>Worker_Properties\<close>, \<open>Worker_Conversation\<close>, \<open>Worker_Limits\<close>
  (application/worker.py) over \<open>Tools\<close> (the registry), \<open>Workspace\<close>, \<open>Workspace_Edit\<close>,
  \<open>Workspace_Properties\<close>, \<open>Tool_Result\<close> and \<open>Commands\<close> (adapters/workspace).  The loop carries fuel; it
  is enough when it exceeds the turns the limits of the job leave (\<open>worker_loop_ends\<close> gives the
  bound).  Shown: termination, token and call limits, one checkpoint per turn, a conversation that
  is always answerable, the lease given back, arguments validated, edits confined to their target.

  Providers: \<open>Provider_Http\<close> (headers, retries, limiter), \<open>Provider_Requests\<close>, \<open>Provider_Responses\<close>,
  \<open>Provider_Streams\<close>, \<open>Gateway\<close> with \<open>Provider_Http_Properties\<close>, \<open>Wire_Properties\<close>, \<open>Stream_Properties\<close>,
  \<open>Gateway_Properties\<close>, and \<open>Pricing\<close> (adapters/providers).  Shown: an assistant turn survives the
  trip through each protocol, streaming and complete parsing agree, a truncated stream is an error,
  the credential of a request is never displaced, chunking and retries have no other effect.

  Verification of results: \<open>Artifacts\<close>, \<open>Tree_Digest\<close>, \<open>Hard_Gates\<close>, \<open>Model_Review\<close> (soft rubric,
  reviewers, falsifier), \<open>Release_Law\<close>, \<open>Calibration\<close>.  Contracts: \<open>Intake_Scan\<close>, \<open>Contracting\<close>,
  \<open>Compiler\<close> with \<open>Scan_Properties\<close>, \<open>Suite_Pinned\<close>, \<open>Compiler_Properties\<close>, \<open>Explicit_Goals\<close>
  (application/contracting.py, intake_scan.py).  Shown: a passed check is exactly its condition, the
  soft review fails closed, a compiled contract is checkable, a test suite is pinned with the files
  that could weaken it, an explicit goal gets its check.

  Outer parts: \<open>Web_Addresses\<close>, \<open>Web_Fetch\<close>, \<open>Web_Fetch_Properties\<close> (fetches stay on public addresses),
  \<open>Memory_Store\<close>, \<open>Run_Index\<close>, \<open>Run_Supervisor\<close>, \<open>Config_Toml\<close> with \<open>Config_Toml_Properties\<close>
  (config_toml.py and the reading of documents), \<open>Config_Store\<close>, \<open>Config_Store_Properties\<close>,
  \<open>Config_Routes\<close> (interfaces/web/config_store.py, routes_config.py), \<open>Run_Routes\<close> and
  \<open>Run_Routes_Properties\<close> (interfaces/web/routes_runs.py, the state its handlers share), \<open>Benchmark\<close> and
  \<open>Benchmark_Properties\<close> (application/benchmark.py).  Shown: save and reload give the configuration
  back but for the memory switch, the store stays valid under every operation, an offered routing
  preset is accepted, the run registry keeps its invariant under any sequence of requests and what a
  run's page shows is a replay of its ledger, the benchmark retains every run and its frontier is the set of undominated
  configurations.

  Bounds and fuel.  Loops over data are structural; retries, redirects, schema repairs, waves and
  directory walks carry the source's own counters.  Where a model has fuel, the lemma that it is
  enough stands beside it; the walk of a tree and the paging of lists have measures.

  Parameters.  What is not under src is an argument with named assumptions: JSON and TOML texts,
  SHA-256, pydantic's coercions and dumps, httpx and the network, urlparse and IPv6 parsing, the
  resolver, FTS5, the clock, fresh identifiers, spawned processes and the operating system's
  answers.  Each property that assumes something of them has a witness with concrete functions.

  Not modelled.  application/benchmark_live.py drives the modelled parts on copies of workspaces,
  application/tracing.py emits spans that nothing reads, interfaces/cli.py, tui.py, web/server.py
  and web/routes_files.py present the modelled core on a terminal or over HTTP,
  and ports/protocols.py declares interfaces without bodies.  Concurrency inside one step (threads
  of a read-only batch, the lock of a store) is modelled as steps one after the other; logging and
  sleeping have no counterpart.
\<close>

end
